(* ===== verification/Prelude.thy ===== *)
theory Prelude
  imports Complex_Main "HOL-Library.Multiset"
begin

text \<open>
  Shared vocabulary of the development: the combinators that the SQL statements of the Go
  sources are written with (a table is a list of rows), the aggregates that skip NULL
  (\<^theory_text>\<open>None\<close>), and the lemmas about them that the component proofs share. The collection
  \<^theory_text>\<open>sql\<close> holds the definitions of the combinators, \<^theory_text>\<open>sql_set\<close> what they do to the set
  of rows of a table.
\<close>

named_theorems sql "definitions of the SQL combinators"
named_theorems sql_set "sets of rows after a statement"

type_synonym uuid = nat
type_synonym xid = nat
type_synonym time = int
type_synonym duration = int

section \<open>Statements on a table\<close>

definition update_where :: "('r \<Rightarrow> bool) \<Rightarrow> ('r \<Rightarrow> 'r) \<Rightarrow> 'r list \<Rightarrow> 'r list" where
  "update_where p f t = map (\<lambda>r. if p r then f r else r) t"

definition delete_where :: "('r \<Rightarrow> bool) \<Rightarrow> 'r list \<Rightarrow> 'r list" where
  "delete_where p t = filter (\<lambda>r. \<not> p r) t"

definition rows_matching :: "('r \<Rightarrow> bool) \<Rightarrow> 'r list \<Rightarrow> nat" where
  "rows_matching p t = length (filter p t)"

definition limit_rows :: "int \<Rightarrow> 'r list \<Rightarrow> 'r list" where
  "limit_rows n t = take (nat n) t"

lemma set_update_where [sql_set]:
  "set (update_where p f t) = {r \<in> set t. \<not> p r} \<union> f ` {r \<in> set t. p r}"
  by (auto simp: update_where_def)

lemma set_delete_where [sql_set]: "set (delete_where p t) = {r \<in> set t. \<not> p r}"
  by (auto simp: delete_where_def)

lemma length_update_where [simp]: "length (update_where p f t) = length t"
  by (simp add: update_where_def)

lemma update_where_id: "(\<And>r. r \<in> set t \<Longrightarrow> \<not> p r) \<Longrightarrow> update_where p f t = t"
  by (simp add: update_where_def map_idI)

lemma delete_where_id: "(\<And>r. r \<in> set t \<Longrightarrow> \<not> p r) \<Longrightarrow> delete_where p t = t"
  by (simp add: delete_where_def)

lemma rows_matching_0 [simp]: "rows_matching p t = 0 \<longleftrightarrow> (\<forall>r \<in> set t. \<not> p r)"
  by (auto simp: rows_matching_def filter_empty_conv)

lemma map_update_where:
  "(\<And>r. r \<in> set t \<Longrightarrow> p r \<Longrightarrow> k (f r) = k r) \<Longrightarrow> map k (update_where p f t) = map k t"
  by (simp add: update_where_def)

lemma distinct_map_filter: "distinct (map k t) \<Longrightarrow> distinct (map k (filter p t))"
  by (induction t) auto

lemma find_update_key:
  assumes "\<And>r. k (f r) = k r"
  shows "find (\<lambda>r. k r = j) (update_where (\<lambda>r. k r = i) f rs)
    = map_option (if j = i then f else id) (find (\<lambda>r. k r = j) rs)"
  using assms by (induction rs) (auto simp: update_where_def)

lemma distinct_map_delete_where: "distinct (map k t) \<Longrightarrow> distinct (map k (delete_where p t))"
  unfolding delete_where_def by (rule distinct_map_filter)

lemma distinct_map_same:
  "distinct (map k t) \<Longrightarrow> r \<in> set t \<Longrightarrow> r' \<in> set t \<Longrightarrow> k r = k r' \<Longrightarrow> r = r'"
  by (meson distinct_map inj_onD)

lemma set_limit_rows: "r \<in> set (limit_rows n t) \<Longrightarrow> r \<in> set t"
  by (auto simp: limit_rows_def dest: in_set_takeD)

lemma length_limit_rows: "0 \<le> n \<Longrightarrow> int (length (limit_rows n t)) \<le> n"
  by (simp add: limit_rows_def)

section \<open>Aggregates that ignore NULL\<close>

text \<open>
  \<open>LEAST\<close>, \<open>GREATEST\<close>, \<open>MIN\<close> and \<open>MAX\<close> return NULL when every argument is NULL, and
  otherwise the extreme of the others.
\<close>

fun min_null :: "'a::linorder option \<Rightarrow> 'a option \<Rightarrow> 'a option" where
  "min_null None b = b"
| "min_null (Some a) None = Some a"
| "min_null (Some a) (Some b) = Some (min a b)"

fun max_null :: "'a::linorder option \<Rightarrow> 'a option \<Rightarrow> 'a option" where
  "max_null None b = b"
| "max_null (Some a) None = Some a"
| "max_null (Some a) (Some b) = Some (max a b)"

definition sql_min :: "'a::linorder list \<Rightarrow> 'a option" where
  "sql_min xs = foldr (\<lambda>x m. min_null (Some x) m) xs None"

definition sql_max :: "'a::linorder list \<Rightarrow> 'a option" where
  "sql_max xs = foldr (\<lambda>x m. max_null (Some x) m) xs None"

lemma sql_min_Nil [simp]: "sql_min [] = None"
  by (simp add: sql_min_def)

lemma sql_min_Cons [simp]: "sql_min (x # xs) = min_null (Some x) (sql_min xs)"
  by (simp add: sql_min_def)

lemma sql_max_Nil [simp]: "sql_max [] = None"
  by (simp add: sql_max_def)

lemma sql_max_Cons [simp]: "sql_max (x # xs) = max_null (Some x) (sql_max xs)"
  by (simp add: sql_max_def)

lemma min_null_None [simp]: "min_null a None = a"
  by (cases a) auto

lemma max_null_None [simp]: "max_null a None = a"
  by (cases a) auto

lemma min_null_le:
  "min_null a b = Some m \<Longrightarrow> a = Some x \<Longrightarrow> m \<le> x"
  "min_null a b = Some m \<Longrightarrow> b = Some x \<Longrightarrow> m \<le> x"
  by (cases a; cases b; auto)+

lemma min_null_Some_ex: "b = Some x \<Longrightarrow> \<exists>m. min_null a b = Some m \<and> m \<le> x"
  by (cases a) auto

lemma sql_min_None [simp]: "sql_min xs = None \<longleftrightarrow> xs = []"
proof (cases xs)
  case (Cons x ys)
  then show ?thesis by (cases "sql_min ys") auto
qed simp

lemma sql_max_None [simp]: "sql_max xs = None \<longleftrightarrow> xs = []"
proof (cases xs)
  case (Cons x ys)
  then show ?thesis by (cases "sql_max ys") auto
qed simp

lemma sql_min_le: "sql_min xs = Some m \<Longrightarrow> x \<in> set xs \<Longrightarrow> m \<le> x"
proof (induction xs arbitrary: m)
  case (Cons y ys)
  then show ?case by (cases "sql_min ys") (auto simp: min_le_iff_disj)
qed simp

lemma sql_min_in: "sql_min xs = Some m \<Longrightarrow> m \<in> set xs"
proof (induction xs arbitrary: m)
  case (Cons y ys)
  then show ?case by (cases "sql_min ys") (auto simp: min_def split: if_splits)
qed simp

lemma sql_max_ge: "sql_max xs = Some m \<Longrightarrow> x \<in> set xs \<Longrightarrow> x \<le> m"
proof (induction xs arbitrary: m)
  case (Cons y ys)
  then show ?case by (cases "sql_max ys") (auto simp: le_max_iff_disj)
qed simp

lemma sql_max_in: "sql_max xs = Some m \<Longrightarrow> m \<in> set xs"
proof (induction xs arbitrary: m)
  case (Cons y ys)
  then show ?case by (cases "sql_max ys") (auto simp: max_def split: if_splits)
qed simp

lemma sql_min_ex: "x \<in> set xs \<Longrightarrow> \<exists>m. sql_min xs = Some m \<and> m \<le> x"
  by (cases "sql_min xs") (auto dest: sql_min_le)

section \<open>Lists\<close>

lemma find_SomeD: "find p xs = Some x \<Longrightarrow> x \<in> set xs \<and> p x"
  by (auto simp: find_Some_iff)

lemma find_NoneD: "find p xs = None \<Longrightarrow> x \<in> set xs \<Longrightarrow> \<not> p x"
  by (auto simp: find_None_iff)

lemma sorted_wrt_takeI: "sorted_wrt r xs \<Longrightarrow> sorted_wrt r (take n xs)"
  by (metis append_take_drop_id sorted_wrt_append)

lemma sorted_wrt_filterI: "sorted_wrt r xs \<Longrightarrow> sorted_wrt r (filter p xs)"
  by (induction xs) auto

lemma distinct_sort_strict:
  "distinct (map k xs) \<Longrightarrow> sorted_wrt (\<lambda>a b. k a < k b) (sort_key k xs)"
proof -
  assume d: "distinct (map k xs)"
  have "mset (map k (sort_key k xs)) = mset (map k xs)" by simp
  then have "distinct (map k (sort_key k xs))"
    using d mset_eq_imp_distinct_iff by blast
  moreover have "sorted (map k (sort_key k xs))" by simp
  ultimately have "sorted_wrt (<) (map k (sort_key k xs))"
    by (simp add: strict_sorted_iff)
  then show ?thesis by (simp add: sorted_wrt_map)
qed

end
