(* ===== verification/Delivery_Options.thy ===== *)
theory Delivery_Options
  imports Prelude
begin

text \<open>
  Package \<open>pkg/common\<close>: the backoff curve (\<open>retry_policy.go\<close>), the per-message options a
  producer requests and a consumer bounds (\<open>message_options.go\<close>) and the concurrency policy
  (\<open>concurrency_policy.go\<close>). Durations are integers (nanoseconds in the code). The float64
  arithmetic of \<open>CalculateDelay\<close> is modelled by exact rationals: float64 gives the same result
  whenever the attempt is not negative and \<open>MaxDelay\<close> is at most 2^52 ns, since every product
  below the cap is then an integer that float64 represents.
\<close>

section \<open>Concurrency policy\<close>

datatype concurrency_policy =
    Policy_Unset
  | Parallel
  | Exclusive
  | Ordered
  | Policy_Other string

definition validate_policy :: "concurrency_policy \<Rightarrow> bool" where
  "validate_policy p = (case p of Policy_Other _ \<Rightarrow> False | _ \<Rightarrow> True)"

definition holds_key :: "concurrency_policy \<Rightarrow> bool" where
  "holds_key p \<longleftrightarrow> p = Exclusive \<or> p = Ordered"

section \<open>Retry policy\<close>

record retry_policy =
  max_retries :: int
  max_delays :: int
  base_delay :: duration
  max_delay :: duration
  exponent :: int

datatype policy_error =
    Max_Retries_Low int
  | Max_Delays_Negative int
  | Base_Delay_Low duration
  | Max_Delay_Low duration
  | Max_Delay_Below_Base duration duration
  | Exponent_Low int
  | Total_Delay_Too_Long

definition second :: duration where "second = 1000000000"

definition max_int64 :: int where "max_int64 = 9223372036854775807"

definition new_default_retry_policy :: retry_policy where
  "new_default_retry_policy =
     \<lparr>max_retries = 6, max_delays = 0, base_delay = second, max_delay = 5 * 60 * second,
      exponent = 2\<rparr>"

definition truncate_rat :: "rat \<Rightarrow> int" where
  "truncate_rat r = (if 0 \<le> r then \<lfloor>r\<rfloor> else \<lceil>r\<rceil>)"

text \<open>
  \<open>CalculateDelay\<close> computes in \<open>float64\<close>; the rationals are its numbers as long as they are exact,
  which they are up to a cap of \<open>2\<^sup>5\<^sup>2\<close> nanoseconds (52 days): below the cap every factor and product is an
  integer of at most 53 bits, and above it a rounded product still reaches the cap.
\<close>

definition calculate_delay :: "retry_policy \<Rightarrow> int \<Rightarrow> duration" where
  "calculate_delay p attempt =
     (let delay = of_int (base_delay p) * (of_int (exponent p) :: rat) powi attempt
      in if of_int (max_delay p) \<le> delay then max_delay p else truncate_rat delay)"

text \<open>
  The loop \<open>for attempt := range p.MaxRetries - 1\<close>: the second argument is the attempt, the
  third the iterations left.
\<close>

fun total_delay_loop :: "retry_policy \<Rightarrow> int \<Rightarrow> nat \<Rightarrow> duration \<Rightarrow> duration" where
  "total_delay_loop p attempt 0 acc = acc"
| "total_delay_loop p attempt (Suc n) acc =
     (let delay = calculate_delay p attempt
      in if exponent p = 1 \<or> delay = max_delay p
         then acc + delay * (max_retries p - 1 - attempt)
         else total_delay_loop p (attempt + 1) n (acc + delay))"

definition calculate_total_delay :: "retry_policy \<Rightarrow> duration" where
  "calculate_total_delay p = total_delay_loop p 0 (nat (max_retries p - 1)) 0"

definition retry_policy_equal :: "retry_policy option \<Rightarrow> retry_policy option \<Rightarrow> bool" where
  "retry_policy_equal p q = (case (p, q) of
       (Some a, Some b) \<Rightarrow> a = b
     | (None, None) \<Rightarrow> True
     | _ \<Rightarrow> False)"

definition if_zero :: "int \<Rightarrow> int \<Rightarrow> int" where
  "if_zero a b = (if a = 0 then b else a)"

definition retry_policy_with_defaults :: "retry_policy option \<Rightarrow> retry_policy" where
  "retry_policy_with_defaults po = (case po of
       None \<Rightarrow> new_default_retry_policy
     | Some p \<Rightarrow>
         p\<lparr>max_retries := if_zero (max_retries p) (max_retries new_default_retry_policy),
           base_delay := if_zero (base_delay p) (base_delay new_default_retry_policy),
           max_delay := if_zero (max_delay p) (max_delay new_default_retry_policy),
           exponent := if_zero (exponent p) (exponent new_default_retry_policy)\<rparr>)"

fun total_exceeds :: "retry_policy \<Rightarrow> int \<Rightarrow> nat \<Rightarrow> duration \<Rightarrow> bool" where
  "total_exceeds p attempt 0 remaining = False"
| "total_exceeds p attempt (Suc n) remaining =
     (let delay = calculate_delay p attempt;
          count = (if exponent p = 1 \<or> delay = max_delay p
                   then max_retries p - 1 - attempt else 1)
      in if 0 < delay \<and> remaining div delay < count then True
         else if 1 < count then False
         else total_exceeds p (attempt + 1) n (remaining - delay * count))"

definition validate_retry_policy :: "retry_policy option \<Rightarrow> policy_error option" where
  "validate_retry_policy po = (case po of
       None \<Rightarrow> None
     | Some p \<Rightarrow>
         if max_retries p < 1 then Some (Max_Retries_Low (max_retries p))
         else if max_delays p < 0 then Some (Max_Delays_Negative (max_delays p))
         else if base_delay p \<le> 0 then Some (Base_Delay_Low (base_delay p))
         else if max_delay p \<le> 0 then Some (Max_Delay_Low (max_delay p))
         else if max_delay p < base_delay p
           then Some (Max_Delay_Below_Base (max_delay p) (base_delay p))
         else if exponent p < 1 then Some (Exponent_Low (exponent p))
         else if total_exceeds p 0 (nat (max_retries p - 1)) max_int64
           then Some Total_Delay_Too_Long
         else None)"

section \<open>Message options\<close>

record message_options =
  mo_concurrency :: concurrency_policy
  mo_timeout :: duration
  mo_retry :: "retry_policy option"
  mo_scheduled_at :: "time option"

datatype options_error =
    Concurrency_Unknown concurrency_policy
  | Timeout_Negative duration
  | Retry_Invalid policy_error

definition zero_policy :: retry_policy where
  "zero_policy = \<lparr>max_retries = 0, max_delays = 0, base_delay = 0, max_delay = 0, exponent = 0\<rparr>"

definition zero_options :: message_options where
  "zero_options =
     \<lparr>mo_concurrency = Policy_Unset, mo_timeout = 0, mo_retry = None, mo_scheduled_at = None\<rparr>"

definition or_zero_policy :: "retry_policy option \<Rightarrow> retry_policy" where
  "or_zero_policy po = (case po of None \<Rightarrow> zero_policy | Some p \<Rightarrow> p)"

definition or_zero_options :: "message_options option \<Rightarrow> message_options" where
  "or_zero_options oo = (case oo of None \<Rightarrow> zero_options | Some o' \<Rightarrow> o')"

definition fill_policy :: "retry_policy option \<Rightarrow> retry_policy option \<Rightarrow> retry_policy option" where
  "fill_policy policy defaults =
     (if policy = None \<and> defaults = None then None
      else let m = or_zero_policy policy; d = or_zero_policy defaults in
        Some \<lparr>max_retries = if_zero (max_retries m) (max_retries d),
              max_delays = if_zero (max_delays m) (max_delays d),
              base_delay = if_zero (base_delay m) (base_delay d),
              max_delay = if_zero (max_delay m) (max_delay d),
              exponent = if_zero (exponent m) (exponent d)\<rparr>)"

definition fill :: "message_options option \<Rightarrow> message_options option \<Rightarrow> message_options option" where
  "fill opts defaults =
     (if opts = None \<and> defaults = None then None
      else let f = or_zero_options opts; d = or_zero_options defaults in
        Some (f\<lparr>mo_concurrency :=
                  (if mo_concurrency f = Policy_Unset then mo_concurrency d else mo_concurrency f),
                mo_timeout := if_zero (mo_timeout f) (mo_timeout d),
                mo_retry := fill_policy (mo_retry f) (mo_retry d)\<rparr>))"

definition clamp_int :: "int \<Rightarrow> int \<Rightarrow> int \<Rightarrow> int" where
  "clamp_int v lo hi =
     (let v1 = (if 0 < lo \<and> v < lo then lo else v)
      in if 0 < hi \<and> hi < v1 then hi else v1)"

definition clamp_policy ::
  "retry_policy option \<Rightarrow> retry_policy option \<Rightarrow> retry_policy option \<Rightarrow> retry_policy option" where
  "clamp_policy policy minimum maximum = (case policy of
       None \<Rightarrow> None
     | Some p \<Rightarrow>
         let lo = or_zero_policy minimum; hi = or_zero_policy maximum in
         Some \<lparr>max_retries = clamp_int (max_retries p) (max_retries lo) (max_retries hi),
               max_delays = clamp_int (max_delays p) (max_delays lo) (max_delays hi),
               base_delay = clamp_int (base_delay p) (base_delay lo) (base_delay hi),
               max_delay = clamp_int (max_delay p) (max_delay lo) (max_delay hi),
               exponent = clamp_int (exponent p) (exponent lo) (exponent hi)\<rparr>)"

definition clamp ::
  "message_options option \<Rightarrow> message_options option \<Rightarrow> message_options option
   \<Rightarrow> message_options option" where
  "clamp opts minimum maximum = (case opts of
       None \<Rightarrow> None
     | Some c \<Rightarrow>
         let lo = or_zero_options minimum; hi = or_zero_options maximum in
         Some (c\<lparr>mo_timeout := clamp_int (mo_timeout c) (mo_timeout lo) (mo_timeout hi),
                 mo_retry := clamp_policy (mo_retry c) (mo_retry lo) (mo_retry hi)\<rparr>))"

definition resolve_concurrency ::
  "message_options option \<Rightarrow> concurrency_policy \<Rightarrow> message_options" where
  "resolve_concurrency opts override =
     (let r = or_zero_options opts in
      if override \<noteq> Policy_Unset then r\<lparr>mo_concurrency := override\<rparr>
      else if mo_concurrency r = Policy_Unset then r\<lparr>mo_concurrency := Parallel\<rparr>
      else r)"

definition message_options_equal ::
  "message_options option \<Rightarrow> message_options option \<Rightarrow> bool" where
  "message_options_equal a b = (case (a, b) of
       (Some x, Some y) \<Rightarrow>
         mo_concurrency x = mo_concurrency y \<and> mo_timeout x = mo_timeout y
         \<and> retry_policy_equal (mo_retry x) (mo_retry y)
         \<and> mo_scheduled_at x = mo_scheduled_at y
     | (None, None) \<Rightarrow> True
     | _ \<Rightarrow> False)"

definition message_options_with_defaults :: "message_options option \<Rightarrow> message_options" where
  "message_options_with_defaults oo =
     (let c = or_zero_options oo;
          r = or_zero_policy (mo_retry c);
          r3 = r\<lparr>max_retries := if_zero (max_retries r) 3\<rparr>
      in c\<lparr>mo_timeout := if_zero (mo_timeout c) (30 * second),
           mo_retry := Some (retry_policy_with_defaults (Some r3))\<rparr>)"

definition validate_sparse_policy :: "retry_policy \<Rightarrow> policy_error option" where
  "validate_sparse_policy p =
     (if max_retries p < 0 then Some (Max_Retries_Low (max_retries p))
      else if max_delays p < 0 then Some (Max_Delays_Negative (max_delays p))
      else if base_delay p < 0 then Some (Base_Delay_Low (base_delay p))
      else if max_delay p < 0 then Some (Max_Delay_Low (max_delay p))
      else if 0 < base_delay p \<and> 0 < max_delay p \<and> max_delay p < base_delay p
        then Some (Max_Delay_Below_Base (max_delay p) (base_delay p))
      else if exponent p < 0 then Some (Exponent_Low (exponent p))
      else None)"

definition validate_message_options :: "message_options option \<Rightarrow> options_error option" where
  "validate_message_options oo = (case oo of
       None \<Rightarrow> None
     | Some c \<Rightarrow>
         if \<not> validate_policy (mo_concurrency c)
           then Some (Concurrency_Unknown (mo_concurrency c))
         else if mo_timeout c < 0 then Some (Timeout_Negative (mo_timeout c))
         else (case mo_retry c of
             None \<Rightarrow> None
           | Some p \<Rightarrow> map_option Retry_Invalid (validate_sparse_policy p)))"


section \<open>The backoff curve\<close>

text \<open>The part of \<open>Validate\<close> that the curve itself needs.\<close>

definition curve_ok :: "retry_policy \<Rightarrow> bool" where
  "curve_ok p \<longleftrightarrow> 0 < base_delay p \<and> base_delay p \<le> max_delay p \<and> 1 \<le> exponent p"

lemma validate_curve_ok: "validate_retry_policy (Some p) = None \<Longrightarrow> curve_ok p"
  by (auto simp: validate_retry_policy_def curve_ok_def split: if_splits)

lemma calculate_delay_nonneg:
  "0 \<le> a \<Longrightarrow> calculate_delay p a =
     (if max_delay p \<le> base_delay p * exponent p ^ nat a then max_delay p
      else base_delay p * exponent p ^ nat a)"
proof -
  assume a: "0 \<le> a"
  have eq: "of_int (base_delay p) * (of_int (exponent p) :: rat) powi a
      = of_int (base_delay p * exponent p ^ nat a)"
    using a by (simp add: power_int_def)
  show ?thesis
    by (simp add: calculate_delay_def eq Let_def truncate_rat_def del: of_int_mult of_int_power)
qed

lemma calculate_delay_le_max: "curve_ok p \<Longrightarrow> 0 \<le> a \<Longrightarrow> calculate_delay p a \<le> max_delay p"
  by (simp add: calculate_delay_nonneg)

lemma calculate_delay_ge_base:
  assumes "curve_ok p" and "0 \<le> a"
  shows "base_delay p \<le> calculate_delay p a"
proof -
  have "1 \<le> exponent p ^ nat a"
    using assms(1) by (simp add: curve_ok_def)
  then have "base_delay p \<le> base_delay p * exponent p ^ nat a"
    using assms(1) by (simp add: curve_ok_def)
  then show ?thesis
    using assms by (simp add: calculate_delay_nonneg curve_ok_def)
qed

lemma calculate_delay_mono_nat:
  assumes ok: "curve_ok p" and ab: "0 \<le> a" "a \<le> b"
  shows "calculate_delay p a \<le> calculate_delay p b"
proof -
  have "exponent p ^ nat a \<le> exponent p ^ nat b"
    using ok ab by (intro power_increasing) (auto simp: curve_ok_def)
  then have "base_delay p * exponent p ^ nat a \<le> base_delay p * exponent p ^ nat b"
    using ok by (simp add: curve_ok_def)
  then show ?thesis
    using ab by (simp add: calculate_delay_nonneg)
qed

lemma calculate_delay_capped:
  assumes "curve_ok p" "0 \<le> a" "a \<le> b" "calculate_delay p a = max_delay p"
  shows "calculate_delay p b = max_delay p"
  using calculate_delay_mono_nat [OF assms(1-3)] calculate_delay_le_max [of p b] assms by simp

lemma calculate_delay_exponent_1:
  "exponent p = 1 \<Longrightarrow> 0 \<le> a \<Longrightarrow> 0 \<le> b \<Longrightarrow> calculate_delay p b = calculate_delay p a"
  by (simp add: calculate_delay_nonneg)

text \<open>Once the curve is flat, the loops replace the rest of the sum by one product.\<close>

lemma flat_tail:
  assumes "curve_ok p" "0 \<le> a" "exponent p = 1 \<or> calculate_delay p a = max_delay p"
  shows "(\<Sum>i<n. calculate_delay p (a + int i)) = calculate_delay p a * int n"
proof -
  have "calculate_delay p (a + int i) = calculate_delay p a" for i
    using assms calculate_delay_capped [of p a "a + int i"]
      calculate_delay_exponent_1 [of p a "a + int i"] by auto
  then show ?thesis by simp
qed

lemma sum_shift:
  "(\<Sum>i<Suc n. f (a + int i)) = f a + (\<Sum>i<n. f (a + 1 + int i))"
  by (simp only: sum.lessThan_Suc_shift) (simp add: add.assoc)

lemma total_delay_loop_sum:
  "curve_ok p \<Longrightarrow> 0 \<le> a \<Longrightarrow> int n = max_retries p - 1 - a \<Longrightarrow>
   total_delay_loop p a n acc = acc + (\<Sum>i<n. calculate_delay p (a + int i))"
proof (induction n arbitrary: a acc)
  case (Suc n)
  show ?case
  proof (cases "exponent p = 1 \<or> calculate_delay p a = max_delay p")
    case True
    with Suc.prems flat_tail [of p a "Suc n"] show ?thesis by (simp add: Let_def)
  next
    case False
    have "total_delay_loop p (a + 1) n (acc + calculate_delay p a)
        = acc + calculate_delay p a + (\<Sum>i<n. calculate_delay p (a + 1 + int i))"
      using Suc.prems by (intro Suc.IH) auto
    with False show ?thesis by (simp add: sum_shift Let_def del: sum.lessThan_Suc)
  qed
qed simp

lemma delay_sum_nonneg:
  assumes "curve_ok p" "0 \<le> a"
  shows "0 \<le> (\<Sum>i<n. calculate_delay p (a + int i))"
proof (intro sum_nonneg)
  fix i
  show "0 \<le> calculate_delay p (a + int i)"
    using calculate_delay_ge_base [of p "a + int i"] assms by (auto simp: curve_ok_def)
qed

lemma int_div_less_iff:
  assumes d: "0 < (d::int)"
  shows "r div d < c \<longleftrightarrow> r < d * c"
proof -
  have eq: "d * (r div d) + r mod d = r" by simp
  have bounds: "0 \<le> r mod d" "r mod d < d" using d by simp_all
  show ?thesis
  proof (cases "r div d < c")
    case True
    then have "d * (r div d + 1) \<le> d * c" using d by (intro mult_left_mono) auto
    then have "d * (r div d) + d \<le> d * c" by (simp add: distrib_left)
    with eq bounds True show ?thesis by linarith
  next
    case False
    then have "d * c \<le> d * (r div d)" using d by (intro mult_left_mono) auto
    with eq bounds False show ?thesis by linarith
  qed
qed

lemma total_exceeds_iff:
  "curve_ok p \<Longrightarrow> 0 \<le> a \<Longrightarrow> int n = max_retries p - 1 - a \<Longrightarrow> 0 \<le> remaining \<Longrightarrow>
   total_exceeds p a n remaining \<longleftrightarrow> remaining < (\<Sum>i<n. calculate_delay p (a + int i))"
proof (induction n arbitrary: a remaining)
  case (Suc n)
  let ?d = "calculate_delay p a"
  have d: "0 < ?d"
    using Suc.prems calculate_delay_ge_base [of p a] by (simp add: curve_ok_def)
  show ?case
  proof (cases "exponent p = 1 \<or> ?d = max_delay p")
    case True
    have sum: "(\<Sum>i<Suc n. calculate_delay p (a + int i)) = ?d * int (Suc n)"
      using Suc.prems True by (intro flat_tail) auto
    have count: "max_retries p - 1 - a = int (Suc n)" using Suc.prems by simp
    have "total_exceeds p a (Suc n) remaining \<longleftrightarrow> remaining div ?d < int (Suc n)"
      using True d by (cases n) (auto simp: count Let_def)
    also have "\<dots> \<longleftrightarrow> remaining < ?d * int (Suc n)"
      by (rule int_div_less_iff [OF d])
    finally show ?thesis by (simp only: sum)
  next
    case False
    have one: "remaining div ?d < 1 \<longleftrightarrow> remaining < ?d"
      by (simp add: int_div_less_iff [OF d])
    have tail: "0 \<le> (\<Sum>i<n. calculate_delay p (a + 1 + int i))"
      using Suc.prems by (intro delay_sum_nonneg) auto
    show ?thesis
    proof (cases "remaining < ?d")
      case True
      with tail one d False show ?thesis by (simp add: sum_shift Let_def del: sum.lessThan_Suc)
    next
      case less: False
      have "total_exceeds p (a + 1) n (remaining - ?d)
          \<longleftrightarrow> remaining - ?d < (\<Sum>i<n. calculate_delay p (a + 1 + int i))"
        using Suc.prems less by (intro Suc.IH) auto
      with less one False show ?thesis
        by (auto simp add: sum_shift Let_def simp del: sum.lessThan_Suc)
    qed
  qed
qed simp

section \<open>Resolution of a message's options\<close>

lemma if_zero_simps [simp]: "if_zero 0 b = b" "a \<noteq> 0 \<Longrightarrow> if_zero a b = a"
  by (simp_all add: if_zero_def)

lemma clamp_int_le: "0 < hi \<Longrightarrow> clamp_int v lo hi \<le> hi"
  by (auto simp: clamp_int_def Let_def)

lemma clamp_int_ge: "0 < lo \<Longrightarrow> hi \<le> 0 \<or> lo \<le> hi \<Longrightarrow> lo \<le> clamp_int v lo hi"
  by (auto simp: clamp_int_def Let_def)

lemma clamp_int_id: "lo \<le> v \<Longrightarrow> hi \<le> 0 \<or> v \<le> hi \<Longrightarrow> clamp_int v lo hi = v"
  by (auto simp: clamp_int_def Let_def)

lemma clamp_int_pos: "0 < v \<Longrightarrow> 0 < clamp_int v lo hi"
  by (auto simp: clamp_int_def Let_def)

lemma resolve_concurrency_simps [simp]:
  "mo_timeout (resolve_concurrency oo ov) = mo_timeout (or_zero_options oo)"
  "mo_retry (resolve_concurrency oo ov) = mo_retry (or_zero_options oo)"
  "mo_concurrency (resolve_concurrency oo ov) \<noteq> Policy_Unset"
  by (auto simp: resolve_concurrency_def Let_def)

lemma or_zero_options_Some [simp]: "or_zero_options (Some x) = x"
  by (simp add: or_zero_options_def)

lemma or_zero_policy_Some [simp]: "or_zero_policy (Some x) = x"
  by (simp add: or_zero_policy_def)

lemma fill_Some: "\<exists>f. fill oo (Some d) = Some f"
  by (simp add: fill_def Let_def)

lemma clamp_Some: "\<exists>c. clamp (Some f) lo hi = Some c"
  by (simp add: clamp_def Let_def)

lemma message_options_equal_iff [simp]: "message_options_equal a b \<longleftrightarrow> a = b"
  by (cases a; cases b)
    (auto simp: message_options_equal_def retry_policy_equal_def split: option.splits)

lemma with_defaults_retry:
  "\<exists>p. mo_retry (message_options_with_defaults oo) = Some p \<and> max_retries p \<noteq> 0"
  by (auto simp: message_options_with_defaults_def retry_policy_with_defaults_def Let_def
      if_zero_def)

lemma with_defaults_timeout: "mo_timeout (message_options_with_defaults oo) \<noteq> 0"
  by (simp add: message_options_with_defaults_def Let_def if_zero_def second_def)

end
