(* ===== verification/Stream_Tables.thy ===== *)
theory Stream_Tables
  imports Delivery_Options
begin

text \<open>
  The tables of one stream, as \<open>createStreamTables\<close> of
  \<open>pkg/stream/controller/datastore/tables.go\<close> declares them. A table is the list of its rows and
  a nullable column an option; a surrogate \<open>BIGSERIAL\<close> key that no statement reads is the row's
  position in the list. The payload is opaque text. An operation is a function from the tables to
  a result and the tables its transaction leaves behind; a transaction that fails leaves them
  as they were.
\<close>

section \<open>Rows\<close>

record message_row =
  msg_id :: int
  msg_schema_version :: int
  msg_routing_key :: "string option"
  msg_key :: "string option"
  msg_rank :: "int option"
  msg_payload :: string
  msg_options :: "message_options option"
  msg_created_at :: time

datatype exception_status = Ready | Processing | Inflight | Deferred | Done | Dead | Superseded

record exception_row =
  ex_group :: int
  ex_message :: int
  ex_status :: exception_status
  ex_key :: "string option"
  ex_concurrency :: concurrency_policy
  ex_attempts :: int
  ex_delays :: int
  ex_run_after :: time
  ex_last_error :: "string option"
  ex_token :: "uuid option"
  ex_expires :: "time option"
  ex_created_at :: time
  ex_updated_at :: time

datatype log_status =
  Log_Failure | Log_Delayed | Log_Superseded | Log_Deferred | Log_Expired | Log_Killed | Log_Success

record log_row =
  dl_group :: int
  dl_message :: int
  dl_attempt :: int
  dl_status :: log_status
  dl_error :: string
  dl_attempted_at :: time

record cursor_row =
  cur_group :: int
  cur_claimed :: int
  cur_committed :: int
  cur_settled_head :: int
  cur_pending_head :: int
  cur_pending_xid :: "xid option"

record claim_lease_row =
  cl_group :: int
  cl_token :: uuid
  cl_low :: int
  cl_high :: int
  cl_expires :: time
  cl_reclaims :: int

record key_lease_row =
  kl_group :: int
  kl_key :: string
  kl_token :: uuid
  kl_expires :: time

record head_row =
  hd_key :: string
  hd_winner :: "(int \<times> int \<times> int) option"
  hd_created_at :: time
  hd_updated_at :: time

record binding_row =
  bi_group :: int
  bi_pattern :: "string option"
  bi_regex :: string

record idempotency_row =
  ik_key :: uuid
  ik_created_at :: time

text \<open>
  \<open>hd_winner\<close> holds \<open>message_id\<close>, \<open>schema_version\<close> and \<open>compaction_rank\<close>: the table's CHECK
  allows only all three set or all three NULL.
\<close>

record stream_db =
  message_log :: "message_row list"
  exception_queue :: "exception_row list"
  delivery_log :: "log_row list"
  cursors :: "cursor_row list"
  claim_leases :: "claim_lease_row list"
  key_leases :: "key_lease_row list"
  compaction_heads :: "head_row list"
  bindings :: "binding_row list"
  idempotency_keys :: "idempotency_row list"

definition empty_db :: stream_db where
  "empty_db = \<lparr>message_log = [], exception_queue = [], delivery_log = [], cursors = [],
     claim_leases = [], key_leases = [], compaction_heads = [], bindings = [],
     idempotency_keys = []\<rparr>"

datatype delivery_log_mode = Mode_Off | Mode_Failures | Mode_All

section \<open>Results\<close>

datatype db_error =
    Err_Consumer_Not_Found
  | Err_Lease_Lost
  | Err_Unique_Violation
  | Err_Range_Must_Advance int int
  | Err_Invalid_Argument string
  | Err_No_Rows

type_synonym 'a exec = "(db_error + 'a) \<times> stream_db"

section \<open>Reads that several operations share\<close>

definition cursor_of :: "stream_db \<Rightarrow> int \<Rightarrow> cursor_row option" where
  "cursor_of db g = find (\<lambda>c. cur_group c = g) (cursors db)"

definition max_id :: "message_row list \<Rightarrow> int" where
  "max_id ms = (case sql_max (map msg_id ms) of None \<Rightarrow> 0 | Some h \<Rightarrow> h)"

definition open_status :: "exception_status \<Rightarrow> bool" where
  "open_status s \<longleftrightarrow> s \<in> {Ready, Inflight, Deferred}"

definition exception_key :: "exception_row \<Rightarrow> int \<times> int" where
  "exception_key e = (ex_group e, ex_message e)"

definition lease_key :: "claim_lease_row \<Rightarrow> int \<times> uuid" where
  "lease_key l = (cl_group l, cl_token l)"

definition bound :: "(string \<Rightarrow> string \<Rightarrow> bool) \<Rightarrow> stream_db \<Rightarrow> int \<Rightarrow> string option \<Rightarrow> bool" where
  "bound rx db g rk \<longleftrightarrow>
     \<not> (\<exists>b \<in> set (bindings db). bi_group b = g)
     \<or> (\<exists>b \<in> set (bindings db). bi_group b = g
          \<and> (case rk of None \<Rightarrow> False | Some k \<Rightarrow> rx k (bi_regex b)))"

definition head_message :: "stream_db \<Rightarrow> string option \<Rightarrow> int option" where
  "head_message db ko = (case ko of
       None \<Rightarrow> None
     | Some k \<Rightarrow> (case find (\<lambda>h. hd_key h = k) (compaction_heads db) of
           None \<Rightarrow> None
         | Some h \<Rightarrow> map_option fst (hd_winner h)))"

definition current_version :: "stream_db \<Rightarrow> message_row \<Rightarrow> bool" where
  "current_version db m \<longleftrightarrow> msg_rank m = None \<or> head_message db (msg_key m) = Some (msg_id m)"

text \<open>\<open>COALESCE(options->>'concurrency', 'parallel')\<close>; the key is absent when unset.\<close>

definition requested_concurrency :: "message_options option \<Rightarrow> concurrency_policy" where
  "requested_concurrency oo = (case oo of
       None \<Rightarrow> Parallel
     | Some x \<Rightarrow> if mo_concurrency x = Policy_Unset then Parallel else mo_concurrency x)"

definition nullif :: "string \<Rightarrow> string option" where
  "nullif s = (if s = '''' then None else Some s)"

definition new_exception :: "int \<Rightarrow> int \<Rightarrow> exception_status \<Rightarrow> string option \<Rightarrow>
    concurrency_policy \<Rightarrow> int \<Rightarrow> time \<Rightarrow> string option \<Rightarrow> time \<Rightarrow> exception_row" where
  "new_exception g m st k pol delays run_after err now =
     \<lparr>ex_group = g, ex_message = m, ex_status = st, ex_key = k, ex_concurrency = pol,
      ex_attempts = 0, ex_delays = delays, ex_run_after = run_after, ex_last_error = err,
      ex_token = None, ex_expires = None, ex_created_at = now, ex_updated_at = now\<rparr>"

definition log_entry ::
  "int \<Rightarrow> int \<Rightarrow> int \<Rightarrow> log_status \<Rightarrow> string \<Rightarrow> time \<Rightarrow> log_row" where
  "log_entry g m attempt st err now =
     \<lparr>dl_group = g, dl_message = m, dl_attempt = attempt, dl_status = st, dl_error = err,
      dl_attempted_at = now\<rparr>"

section \<open>Lemmas\<close>

lemma cursor_of_SomeD: "cursor_of db g = Some c \<Longrightarrow> c \<in> set (cursors db) \<and> cur_group c = g"
  by (auto simp: cursor_of_def dest: find_SomeD)

lemma max_id_ge: "m \<in> set ms \<Longrightarrow> msg_id m \<le> max_id ms"
  using sql_max_ge [of "map msg_id ms"] sql_max_None [of "map msg_id ms"]
  by (auto simp: max_id_def split: option.splits)

lemma max_id_cases: "max_id ms = 0 \<or> (\<exists>m \<in> set ms. max_id ms = msg_id m)"
  using sql_max_in [of "map msg_id ms"] by (auto simp: max_id_def split: option.splits)

lemma max_id_le: "0 \<le> b \<Longrightarrow> (\<And>m. m \<in> set ms \<Longrightarrow> msg_id m \<le> b) \<Longrightarrow> max_id ms \<le> b"
  using max_id_cases [of ms] by auto

lemma new_exception_simps [simp]:
  "ex_group (new_exception g m st k pol d ra err now) = g"
  "ex_message (new_exception g m st k pol d ra err now) = m"
  "ex_status (new_exception g m st k pol d ra err now) = st"
  "ex_key (new_exception g m st k pol d ra err now) = k"
  "ex_concurrency (new_exception g m st k pol d ra err now) = pol"
  "ex_attempts (new_exception g m st k pol d ra err now) = 0"
  "ex_delays (new_exception g m st k pol d ra err now) = d"
  "ex_run_after (new_exception g m st k pol d ra err now) = ra"
  "ex_token (new_exception g m st k pol d ra err now) = None"
  "exception_key (new_exception g m st k pol d ra err now) = (g, m)"
  by (simp_all add: new_exception_def exception_key_def)

lemma find_update_other:
  "(\<And>r. r \<in> set t \<Longrightarrow> p r \<Longrightarrow> \<not> q r \<and> \<not> q (f r)) \<Longrightarrow>
   find q (update_where p f t) = find q t"
  by (induction t) (auto simp: update_where_def)

lemma find_update_same:
  "(\<And>r. q r \<Longrightarrow> q (f r)) \<Longrightarrow> find q (update_where q f t) = map_option f (find q t)"
  by (induction t) (auto simp: update_where_def)

end
