(* ===== verification/Range_Claims.thy ===== *)
theory Range_Claims
  imports Stream_Tables
begin

text \<open>
  The claim side of a message consumer group: \<open>claim.go\<close>, \<open>fresh_claim.go\<close>, \<open>reclaim.go\<close> and
  \<open>commit.go\<close> of \<open>pkg/consume/messageconsumer/controller/datastore\<close>. What the database chooses is
  an argument: the transaction time \<open>now\<close>, the random token, the statement's snapshot \<open>xmin\<close>, the
  transaction id an observation gets, and the expired lease that \<open>LIMIT 1 ... SKIP LOCKED\<close>
  returned (\<open>picked\<close>, \<open>None\<close> when every candidate is locked). \<open>rx key regex\<close> is the
  POSIX regular expression operator \<open>~\<close>.
\<close>

section \<open>Rows the statements return\<close>

record message_log_row =
  ml_id :: int
  ml_payload :: string
  ml_created_at :: time
  ml_routing_key :: string
  ml_key :: string
  ml_rank :: int
  ml_compacted :: bool
  ml_options :: "message_options option"

record claimed_range =
  cr_lease :: claim_lease_row
  cr_messages :: "message_log_row list"
  cr_quarantined :: bool

datatype outcome_kind =
    Outcome_Exception
  | Outcome_Terminal
  | Outcome_Superseded
  | Outcome_Deferred
  | Outcome_Delayed
  | Outcome_Success

record outcome =
  oc_message :: int
  oc_key :: string
  oc_concurrency :: concurrency_policy
  oc_kind :: outcome_kind
  oc_err :: string
  oc_delay :: duration

record claim_snapshot =
  sn_head :: int
  sn_xid :: xid
  sn_claimed :: int
  sn_settled_head :: int
  sn_pending_head :: int
  sn_reclaimable :: bool

section \<open>Reading the log\<close>

definition to_message_log_row :: "message_row \<Rightarrow> message_log_row" where
  "to_message_log_row m =
     \<lparr>ml_id = msg_id m,
      ml_payload = msg_payload m,
      ml_created_at = msg_created_at m,
      ml_routing_key = (case msg_routing_key m of None \<Rightarrow> '''' | Some k \<Rightarrow> k),
      ml_key = (case msg_key m of None \<Rightarrow> '''' | Some k \<Rightarrow> k),
      ml_rank = (case msg_rank m of None \<Rightarrow> 0 | Some r \<Rightarrow> r),
      ml_compacted = (msg_rank m \<noteq> None),
      ml_options = msg_options m\<rparr>"

definition readable ::
  "(string \<Rightarrow> string \<Rightarrow> bool) \<Rightarrow> stream_db \<Rightarrow> int \<Rightarrow> int \<Rightarrow> int \<Rightarrow> int \<Rightarrow> message_row \<Rightarrow> bool" where
  "readable rx db g schema low high m \<longleftrightarrow>
     low < msg_id m \<and> msg_id m \<le> high
     \<and> msg_schema_version m = schema
     \<and> bound rx db g (msg_routing_key m)
     \<and> current_version db m"

definition read_messages ::
  "(string \<Rightarrow> string \<Rightarrow> bool) \<Rightarrow> stream_db \<Rightarrow> int \<Rightarrow> int \<Rightarrow> int \<Rightarrow> int \<Rightarrow> message_log_row list" where
  "read_messages rx db g schema low high =
     map to_message_log_row
       (sort_key msg_id (filter (readable rx db g schema low high) (message_log db)))"

section \<open>The claim snapshot\<close>

text \<open>
  \<open>readClaimSnapshot\<close>: the visible head beside the cursor row, and a fresh transaction id unless
  the head, the pending head, the settled head and the claimed position all agree, when the
  statement answers \<open>'0'\<close> and the Go code returns without a claim.
\<close>

definition idle_snapshot :: "int \<Rightarrow> int \<Rightarrow> int \<Rightarrow> int \<Rightarrow> bool" where
  "idle_snapshot head pending settled claimed \<longleftrightarrow>
     head = pending \<and> pending = settled \<and> claimed = settled"

definition read_claim_snapshot ::
  "stream_db \<Rightarrow> int \<Rightarrow> time \<Rightarrow> xid \<Rightarrow> db_error + claim_snapshot" where
  "read_claim_snapshot db g now xid = (case cursor_of db g of
       None \<Rightarrow> Inl Err_Consumer_Not_Found
     | Some c \<Rightarrow> Inr
         \<lparr>sn_head = max_id (message_log db),
          sn_xid = (if idle_snapshot (max_id (message_log db)) (cur_pending_head c)
                         (cur_settled_head c) (cur_claimed c) then 0 else xid),
          sn_claimed = cur_claimed c,
          sn_settled_head = cur_settled_head c,
          sn_pending_head = cur_pending_head c,
          sn_reclaimable =
            (\<exists>l \<in> set (claim_leases db). cl_group l = g \<and> cl_expires l < now)\<rparr>)"

section \<open>Fresh claims\<close>

text \<open>
  The \<open>gate\<close> CTE: the greatest head among the pairs whose transaction id is NULL or which the
  statement's \<open>xmin\<close> has passed.
\<close>

definition proven :: "xid \<Rightarrow> xid option \<Rightarrow> bool" where
  "proven xmin xo = (case xo of None \<Rightarrow> True | Some x \<Rightarrow> x \<le> xmin)"

definition gate_head :: "cursor_row \<Rightarrow> claim_snapshot \<Rightarrow> xid \<Rightarrow> int" where
  "gate_head c snap xmin =
     the (sql_max (map fst (filter (\<lambda>p. proven xmin (snd p))
       [(cur_settled_head c, None),
        (sn_head snap, Some (sn_xid snap)),
        (cur_pending_head c, cur_pending_xid c)])))"

definition advance_cursor :: "cursor_row \<Rightarrow> int \<Rightarrow> claim_snapshot \<Rightarrow> xid \<Rightarrow> cursor_row" where
  "advance_cursor c limit snap xmin =
     (let head = gate_head c snap xmin in
      c\<lparr>cur_claimed := min (cur_claimed c + limit) head,
        cur_settled_head := head,
        cur_pending_head := max (cur_pending_head c) (sn_head snap),
        cur_pending_xid := max_null (cur_pending_xid c) (Some (sn_xid snap))\<rparr>)"

definition insert_claim_lease ::
  "stream_db \<Rightarrow> int \<Rightarrow> int \<Rightarrow> int \<Rightarrow> time \<Rightarrow> uuid \<Rightarrow> claim_lease_row exec" where
  "insert_claim_lease db g low high expires tok =
     (let lease = \<lparr>cl_group = g, cl_token = tok, cl_low = low, cl_high = high,
                   cl_expires = expires, cl_reclaims = 0\<rparr> in
      if \<exists>l \<in> set (claim_leases db). lease_key l = (g, tok)
      then (Inl Err_Unique_Violation, db)
      else (Inr lease, db\<lparr>claim_leases := claim_leases db @ [lease]\<rparr>))"

definition claim_messages ::
  "(string \<Rightarrow> string \<Rightarrow> bool) \<Rightarrow> stream_db \<Rightarrow> int \<Rightarrow> int \<Rightarrow> int \<Rightarrow> int \<Rightarrow> duration \<Rightarrow> time \<Rightarrow> uuid
   \<Rightarrow> claimed_range exec" where
  "claim_messages rx db g schema low high dur now tok =
     (if high \<le> low then (Inl (Err_Range_Must_Advance low high), db)
      else (case insert_claim_lease db g low high (now + dur) tok of
          (Inl e, _) \<Rightarrow> (Inl e, db)
        | (Inr lease, db') \<Rightarrow>
            (Inr \<lparr>cr_lease = lease,
                  cr_messages = read_messages rx db' g schema low high,
                  cr_quarantined = False\<rparr>, db')))"

definition fresh_claim ::
  "(string \<Rightarrow> string \<Rightarrow> bool) \<Rightarrow> stream_db \<Rightarrow> int \<Rightarrow> int \<Rightarrow> int \<Rightarrow> duration \<Rightarrow> claim_snapshot
   \<Rightarrow> xid \<Rightarrow> time \<Rightarrow> uuid \<Rightarrow> claimed_range option exec" where
  "fresh_claim rx db g schema limit dur snap xmin now tok = (case cursor_of db g of
       None \<Rightarrow> (Inl Err_Consumer_Not_Found, db)
     | Some c \<Rightarrow>
         let c' = advance_cursor c limit snap xmin;
             db1 = db\<lparr>cursors := update_where (\<lambda>r. cur_group r = g) (\<lambda>_. c') (cursors db)\<rparr>;
             low = cur_claimed c; high = cur_claimed c'
         in if low = high then (Inr None, db1)
            else (case claim_messages rx db1 g schema low high dur now tok of
                (Inl e, _) \<Rightarrow> (Inl e, db)
              | (Inr r, db2) \<Rightarrow> (Inr (Some r), db2)))"

section \<open>Reclaims\<close>

definition insert_exceptions :: "exception_row list \<Rightarrow> stream_db \<Rightarrow> unit exec" where
  "insert_exceptions es db =
     (if distinct (map exception_key (exception_queue db @ es))
      then (Inr (), db\<lparr>exception_queue := exception_queue db @ es\<rparr>)
      else (Inl Err_Unique_Violation, db))"

definition quarantine_error :: string where
  "quarantine_error = ''quarantined: range reclaimed too many times''"

definition quarantine ::
  "stream_db \<Rightarrow> int \<Rightarrow> claim_lease_row \<Rightarrow> delivery_log_mode \<Rightarrow> time \<Rightarrow> unit exec" where
  "quarantine db g lease mode now =
     (let ms = filter (\<lambda>m. cl_low lease < msg_id m \<and> msg_id m \<le> cl_high lease) (message_log db);
          es = map (\<lambda>m. new_exception g (msg_id m) Ready (msg_key m)
                     (requested_concurrency (msg_options m)) 0 now (Some quarantine_error) now) ms
      in case insert_exceptions es db of
           (Inl e, _) \<Rightarrow> (Inl e, db)
         | (Inr _, db1) \<Rightarrow>
             let db2 = (if mode = Mode_Off then db1
                        else db1\<lparr>delivery_log := delivery_log db1 @
                               map (\<lambda>m. log_entry g (msg_id m) 0 Log_Failure quarantine_error now) ms\<rparr>)
             in (Inr (), db2\<lparr>claim_leases := delete_where
                   (\<lambda>l. cl_group l = g \<and> cl_token l = cl_token lease) (claim_leases db2)\<rparr>))"

definition reclaimed :: "claim_lease_row \<Rightarrow> duration \<Rightarrow> time \<Rightarrow> uuid \<Rightarrow> claim_lease_row" where
  "reclaimed l dur now tok =
     l\<lparr>cl_reclaims := cl_reclaims l + 1, cl_expires := now + dur, cl_token := tok\<rparr>"

definition reclaim_range ::
  "(string \<Rightarrow> string \<Rightarrow> bool) \<Rightarrow> stream_db \<Rightarrow> int \<Rightarrow> int \<Rightarrow> int \<Rightarrow> duration \<Rightarrow> delivery_log_mode
   \<Rightarrow> uuid option \<Rightarrow> time \<Rightarrow> uuid \<Rightarrow> claimed_range option exec" where
  "reclaim_range rx db g schema max_reclaims dur mode picked now tok = (case picked of
       None \<Rightarrow> (Inr None, db)
     | Some t \<Rightarrow>
         (case find (\<lambda>l. cl_group l = g \<and> cl_token l = t \<and> cl_expires l < now) (claim_leases db) of
           None \<Rightarrow> (Inr None, db)
         | Some l \<Rightarrow>
             if \<exists>l' \<in> set (claim_leases db). lease_key l' = (g, tok)
             then (Inl Err_Unique_Violation, db)
             else
               let lease = reclaimed l dur now tok;
                   db1 = db\<lparr>claim_leases := update_where (\<lambda>r. lease_key r = (g, t))
                              (\<lambda>_. lease) (claim_leases db)\<rparr>
               in if max_reclaims \<le> cl_reclaims lease
                  then (case quarantine db1 g lease mode now of
                      (Inl e, _) \<Rightarrow> (Inl e, db)
                    | (Inr _, db2) \<Rightarrow>
                        (Inr (Some \<lparr>cr_lease = lease, cr_messages = [],
                                    cr_quarantined = True\<rparr>), db2))
                  else (Inr (Some \<lparr>cr_lease = lease,
                                   cr_messages = read_messages rx db1 g schema
                                     (cl_low lease) (cl_high lease),
                                   cr_quarantined = False\<rparr>), db1)))"

definition claim_with_cursor ::
  "(string \<Rightarrow> string \<Rightarrow> bool) \<Rightarrow> stream_db \<Rightarrow> int \<Rightarrow> int \<Rightarrow> int \<Rightarrow> int \<Rightarrow> duration
   \<Rightarrow> delivery_log_mode \<Rightarrow> claim_snapshot \<Rightarrow> uuid option \<Rightarrow> xid \<Rightarrow> time \<Rightarrow> uuid
   \<Rightarrow> claimed_range option exec" where
  "claim_with_cursor rx db g schema limit max_reclaims dur mode snap picked xmin now tok =
     (let fresh =
        (if idle_snapshot (sn_head snap) (sn_pending_head snap) (sn_settled_head snap)
              (sn_claimed snap)
         then (Inr None, db)
         else fresh_claim rx db g schema limit dur snap xmin now tok)
      in if sn_reclaimable snap
         then (case reclaim_range rx db g schema max_reclaims dur mode picked now tok of
             (Inl e, db') \<Rightarrow> (Inl e, db')
           | (Inr (Some r), db') \<Rightarrow> (Inr (Some r), db')
           | (Inr None, _) \<Rightarrow> fresh)
         else fresh)"

definition force_reclaim_range :: "stream_db \<Rightarrow> int \<Rightarrow> uuid \<Rightarrow> time \<Rightarrow> uuid \<Rightarrow> unit exec" where
  "force_reclaim_range db g t now tok =
     (if rows_matching (\<lambda>l. cl_group l = g \<and> cl_token l = t) (claim_leases db) = 0
      then (Inl Err_Lease_Lost, db)
      else if \<exists>l' \<in> set (claim_leases db). lease_key l' = (g, tok)
      then (Inl Err_Unique_Violation, db)
      else (Inr (), db\<lparr>claim_leases := update_where (\<lambda>l. cl_group l = g \<and> cl_token l = t)
             (\<lambda>l. l\<lparr>cl_expires := now, cl_reclaims := max (cl_reclaims l - 1) (- 1),
                    cl_token := tok\<rparr>) (claim_leases db)\<rparr>))"

section \<open>Commits\<close>

definition outcome_log_status :: "outcome_kind \<Rightarrow> log_status" where
  "outcome_log_status k = (case k of
       Outcome_Exception \<Rightarrow> Log_Failure
     | Outcome_Terminal \<Rightarrow> Log_Failure
     | Outcome_Superseded \<Rightarrow> Log_Superseded
     | Outcome_Deferred \<Rightarrow> Log_Deferred
     | Outcome_Delayed \<Rightarrow> Log_Delayed
     | Outcome_Success \<Rightarrow> Log_Success)"

text \<open>The delivery row an outcome writes, if it writes one (\<open>deliveryStatement\<close>).\<close>

definition delivery_row :: "int \<Rightarrow> duration \<Rightarrow> time \<Rightarrow> outcome \<Rightarrow> exception_row option" where
  "delivery_row g backoff now oc =
     (let row = (\<lambda>st delays delay err.
            new_exception g (oc_message oc) st (nullif (oc_key oc)) (oc_concurrency oc)
              delays (now + delay) err now)
      in case oc_kind oc of
           Outcome_Exception \<Rightarrow> Some (row Ready 0 backoff (Some (oc_err oc)))
         | Outcome_Terminal \<Rightarrow> Some (row Dead 0 backoff (Some (oc_err oc)))
         | Outcome_Deferred \<Rightarrow> Some (row Deferred 0 0 None)
         | Outcome_Delayed \<Rightarrow> Some (row Ready 1 (oc_delay oc) (Some (oc_err oc)))
         | Outcome_Superseded \<Rightarrow> None
         | Outcome_Success \<Rightarrow> None)"

definition record_outcome ::
  "int \<Rightarrow> duration \<Rightarrow> delivery_log_mode \<Rightarrow> time \<Rightarrow> outcome \<Rightarrow> stream_db \<Rightarrow> unit exec" where
  "record_outcome g backoff mode now oc db =
     (case (case delivery_row g backoff now oc of
              None \<Rightarrow> (Inr (), db)
            | Some e \<Rightarrow> insert_exceptions [e] db) of
        (Inl e, _) \<Rightarrow> (Inl e, db)
      | (Inr _, db1) \<Rightarrow>
          (Inr (), if mode = Mode_Off then db1
                   else db1\<lparr>delivery_log := delivery_log db1 @
                          [log_entry g (oc_message oc) 0 (outcome_log_status (oc_kind oc))
                             (oc_err oc) now]\<rparr>))"

text \<open>
  \<open>queueOutcomes\<close> and \<open>execBatch\<close>: the first statement that fails ends the batch. The second
  component counts the rows written dead.
\<close>

fun record_outcomes ::
  "int \<Rightarrow> duration \<Rightarrow> delivery_log_mode \<Rightarrow> time \<Rightarrow> outcome list \<Rightarrow> stream_db \<Rightarrow> nat exec" where
  "record_outcomes g backoff mode now [] db = (Inr 0, db)"
| "record_outcomes g backoff mode now (oc # ocs) db =
     (case record_outcome g backoff mode now oc db of
        (Inl e, _) \<Rightarrow> (Inl e, db)
      | (Inr _, db1) \<Rightarrow>
          (case record_outcomes g backoff mode now ocs db1 of
             (Inl e, _) \<Rightarrow> (Inl e, db)
           | (Inr n, db2) \<Rightarrow>
               (Inr (if oc_kind oc = Outcome_Terminal then Suc n else n), db2)))"

definition commit_range ::
  "stream_db \<Rightarrow> int \<Rightarrow> uuid \<Rightarrow> outcome list \<Rightarrow> duration \<Rightarrow> delivery_log_mode \<Rightarrow> time \<Rightarrow> nat exec" where
  "commit_range db g t ocs backoff mode now =
     (if rows_matching (\<lambda>l. cl_group l = g \<and> cl_token l = t) (claim_leases db) = 0
      then (Inl Err_Lease_Lost, db)
      else (case record_outcomes g backoff mode now ocs
                   (db\<lparr>claim_leases := delete_where (\<lambda>l. cl_group l = g \<and> cl_token l = t)
                        (claim_leases db)\<rparr>) of
          (Inl e, _) \<Rightarrow> (Inl e, db)
        | (Inr n, db') \<Rightarrow> (Inr n, db')))"

definition partial_commit ::
  "stream_db \<Rightarrow> int \<Rightarrow> uuid \<Rightarrow> int \<Rightarrow> outcome list \<Rightarrow> duration \<Rightarrow> delivery_log_mode \<Rightarrow> time
   \<Rightarrow> nat exec" where
  "partial_commit db g t last_processed ocs backoff mode now =
     (if rows_matching (\<lambda>l. cl_group l = g \<and> cl_token l = t) (claim_leases db) = 0
      then (Inl Err_Lease_Lost, db)
      else (case record_outcomes g backoff mode now ocs
                   (db\<lparr>claim_leases := update_where (\<lambda>l. cl_group l = g \<and> cl_token l = t)
                        (\<lambda>l. l\<lparr>cl_low := last_processed\<rparr>) (claim_leases db)\<rparr>) of
          (Inl e, _) \<Rightarrow> (Inl e, db)
        | (Inr n, db') \<Rightarrow> (Inr n, db')))"

section \<open>The controller's checks\<close>

text \<open>
  \<open>pkg/consume/messageconsumer/controller/cursor.go\<close>. An outcome kind outside the constants cannot
  be written in the model, so \<open>validateCommit\<close>'s last loop always accepts.
\<close>

definition claim_with_cursor_checked ::
  "(string \<Rightarrow> string \<Rightarrow> bool) \<Rightarrow> stream_db \<Rightarrow> int \<Rightarrow> int \<Rightarrow> int \<Rightarrow> int \<Rightarrow> int \<Rightarrow> duration
   \<Rightarrow> delivery_log_mode \<Rightarrow> claim_snapshot \<Rightarrow> uuid option \<Rightarrow> xid \<Rightarrow> time \<Rightarrow> uuid
   \<Rightarrow> claimed_range option exec" where
  "claim_with_cursor_checked rx db stream g schema limit max_reclaims dur mode snap picked xmin now tok =
     (if stream \<le> 0 then (Inl (Err_Invalid_Argument ''streamId''), db)
      else if g \<le> 0 then (Inl (Err_Invalid_Argument ''groupId''), db)
      else if limit < 1 then (Inl (Err_Invalid_Argument ''limit''), db)
      else if max_reclaims < 1 then (Inl (Err_Invalid_Argument ''maxRangeReclaims''), db)
      else if dur \<le> 0 then (Inl (Err_Invalid_Argument ''leaseDuration''), db)
      else claim_with_cursor rx db g schema limit max_reclaims dur mode snap picked xmin now tok)"

definition validate_commit :: "int \<Rightarrow> int \<Rightarrow> duration \<Rightarrow> db_error option" where
  "validate_commit stream g backoff =
     (if stream \<le> 0 then Some (Err_Invalid_Argument ''streamId'')
      else if g \<le> 0 then Some (Err_Invalid_Argument ''groupId'')
      else if backoff < 0 then Some (Err_Invalid_Argument ''initialBackoff'')
      else None)"

definition commit_range_checked ::
  "stream_db \<Rightarrow> int \<Rightarrow> int \<Rightarrow> uuid \<Rightarrow> outcome list \<Rightarrow> duration \<Rightarrow> delivery_log_mode \<Rightarrow> time
   \<Rightarrow> nat exec" where
  "commit_range_checked db stream g t ocs backoff mode now =
     (case validate_commit stream g backoff of
        Some e \<Rightarrow> (Inl e, db)
      | None \<Rightarrow> commit_range db g t ocs backoff mode now)"

definition partial_commit_checked ::
  "stream_db \<Rightarrow> int \<Rightarrow> int \<Rightarrow> uuid \<Rightarrow> int \<Rightarrow> outcome list \<Rightarrow> duration \<Rightarrow> delivery_log_mode \<Rightarrow> time
   \<Rightarrow> nat exec" where
  "partial_commit_checked db stream g t last_processed ocs backoff mode now =
     (case validate_commit stream g backoff of
        Some e \<Rightarrow> (Inl e, db)
      | None \<Rightarrow>
          if last_processed < 0 then (Inl (Err_Invalid_Argument ''lastProcessed''), db)
          else partial_commit db g t last_processed ocs backoff mode now)"

definition force_reclaim_checked ::
  "stream_db \<Rightarrow> int \<Rightarrow> int \<Rightarrow> uuid \<Rightarrow> time \<Rightarrow> uuid \<Rightarrow> unit exec" where
  "force_reclaim_checked db stream g t now tok =
     (if stream \<le> 0 then (Inl (Err_Invalid_Argument ''streamId''), db)
      else if g \<le> 0 then (Inl (Err_Invalid_Argument ''groupId''), db)
      else force_reclaim_range db g t now tok)"

section \<open>The committed mark\<close>

text \<open>
  \<open>advanceCommitted\<close> of \<open>pkg/consume/cursoradvancer/controller/datastore/committed.go\<close>: two
  statements with no transaction around them.
\<close>

definition committed_target :: "stream_db \<Rightarrow> int \<Rightarrow> db_error + int" where
  "committed_target db g = (case cursor_of db g of
       None \<Rightarrow> Inl Err_No_Rows
     | Some c \<Rightarrow> Inr (the
         (min_null
           (min_null
             (sql_min (map cl_low (filter (\<lambda>l. cl_group l = g) (claim_leases db))))
             (map_option (\<lambda>m. m - 1) (sql_min (map ex_message
               (filter (\<lambda>e. ex_group e = g \<and> open_status (ex_status e)) (exception_queue db))))))
           (Some (cur_claimed c)))))"

definition apply_committed :: "stream_db \<Rightarrow> int \<Rightarrow> int \<Rightarrow> int exec" where
  "apply_committed db g target = (case cursor_of db g of
       None \<Rightarrow> (Inl Err_No_Rows, db)
     | Some c \<Rightarrow>
         (Inr (max (cur_committed c) target),
          db\<lparr>cursors := update_where (\<lambda>r. cur_group r = g)
               (\<lambda>r. r\<lparr>cur_committed := max (cur_committed r) target\<rparr>) (cursors db)\<rparr>))"

section \<open>Frames\<close>

lemma reclaimed_simps [simp]:
  "cl_group (reclaimed l dur now tok) = cl_group l"
  "cl_token (reclaimed l dur now tok) = tok"
  "cl_low (reclaimed l dur now tok) = cl_low l"
  "cl_high (reclaimed l dur now tok) = cl_high l"
  "cl_expires (reclaimed l dur now tok) = now + dur"
  "cl_reclaims (reclaimed l dur now tok) = cl_reclaims l + 1"
  by (simp_all add: reclaimed_def)

lemma bound_frame [simp]:
  "bound rx (db\<lparr>cursors := x\<rparr>) = bound rx db"
  "bound rx (db\<lparr>claim_leases := y\<rparr>) = bound rx db"
  by (simp_all add: bound_def fun_eq_iff)

lemma current_version_frame [simp]:
  "current_version (db\<lparr>cursors := x\<rparr>) = current_version db"
  "current_version (db\<lparr>claim_leases := y\<rparr>) = current_version db"
  by (simp_all add: current_version_def head_message_def fun_eq_iff cong: option.case_cong)

lemma readable_frame [simp]:
  "readable rx (db\<lparr>cursors := x\<rparr>) = readable rx db"
  "readable rx (db\<lparr>claim_leases := y\<rparr>) = readable rx db"
  by (simp_all add: readable_def fun_eq_iff)

lemma read_messages_frame [simp]:
  "read_messages rx (db\<lparr>cursors := x\<rparr>) = read_messages rx db"
  "read_messages rx (db\<lparr>claim_leases := y\<rparr>) = read_messages rx db"
  by (simp_all add: read_messages_def fun_eq_iff)

section \<open>The gate\<close>

lemma gate_head_cases:
  "gate_head c snap xmin = cur_settled_head c
   \<or> (gate_head c snap xmin = sn_head snap \<and> sn_xid snap \<le> xmin)
   \<or> (gate_head c snap xmin = cur_pending_head c \<and> proven xmin (cur_pending_xid c))"
proof -
  let ?hs = "map fst (filter (\<lambda>p. proven xmin (snd p))
       [(cur_settled_head c, None), (sn_head snap, Some (sn_xid snap)),
        (cur_pending_head c, cur_pending_xid c)])"
  have "cur_settled_head c \<in> set ?hs" by (simp add: proven_def)
  then obtain m where m: "sql_max ?hs = Some m" by (cases "sql_max ?hs") auto
  have "gate_head c snap xmin \<in> set ?hs"
    using sql_max_in [OF m] m by (simp add: gate_head_def)
  then show ?thesis by (auto simp: proven_def split: if_splits)
qed

lemma gate_head_ge: "cur_settled_head c \<le> gate_head c snap xmin"
proof -
  let ?hs = "map fst (filter (\<lambda>p. proven xmin (snd p))
       [(cur_settled_head c, None), (sn_head snap, Some (sn_xid snap)),
        (cur_pending_head c, cur_pending_xid c)])"
  have mem: "cur_settled_head c \<in> set ?hs" by (simp add: proven_def)
  then obtain m where "sql_max ?hs = Some m" by (cases "sql_max ?hs") auto
  with sql_max_ge [OF this mem] show ?thesis by (simp add: gate_head_def)
qed

end
