(* ===== verification/Key_Leases.thy ===== *)
theory Key_Leases
  imports Stream_Tables
begin

text \<open>
  Message key leases: \<open>pkg/consume/base/controller/datastore/key_lease.go\<close> and the argument
  checks of \<open>pkg/consume/base/controller/key_lease.go\<close>. At most one delivery per key and group
  holds an unexpired lease; a compacted message must also be its key's compaction head, an
  ordered one must have no earlier same-key message unresolved.
\<close>

datatype key_verdict = Key_Acquired | Key_Busy | Key_Superseded

record key_claim =
  kc_verdict :: key_verdict
  kc_group :: int
  kc_key :: string
  kc_token :: "uuid option"

definition holds_key_lease :: "int \<Rightarrow> string \<Rightarrow> key_lease_row \<Rightarrow> bool" where
  "holds_key_lease g k r \<longleftrightarrow> kl_group r = g \<and> kl_key r = k"

section \<open>Taking a lease\<close>

text \<open>
  \<open>INSERT ... ON CONFLICT (consumer_group_id, message_key) DO UPDATE ... WHERE kl.expires_at <
  now() OR kl.token = $tok RETURNING token\<close>.
\<close>

definition take_key_lease ::
  "stream_db \<Rightarrow> int \<Rightarrow> string \<Rightarrow> duration \<Rightarrow> uuid \<Rightarrow> time \<Rightarrow> uuid option \<times> stream_db" where
  "take_key_lease db g k dur tok now =
     (case find (holds_key_lease g k) (key_leases db) of
        None \<Rightarrow> (Some tok, db\<lparr>key_leases := key_leases db @
                 [\<lparr>kl_group = g, kl_key = k, kl_token = tok, kl_expires = now + dur\<rparr>]\<rparr>)
      | Some r \<Rightarrow>
          if kl_expires r < now \<or> kl_token r = tok
          then (Some tok, db\<lparr>key_leases := update_where (holds_key_lease g k)
                 (\<lambda>r. r\<lparr>kl_token := tok, kl_expires := now + dur\<rparr>) (key_leases db)\<rparr>)
          else (None, db))"

definition delete_key_lease :: "stream_db \<Rightarrow> int \<Rightarrow> string \<Rightarrow> uuid \<Rightarrow> nat \<times> stream_db" where
  "delete_key_lease db g k tok =
     (let p = (\<lambda>r. holds_key_lease g k r \<and> kl_token r = tok) in
      (rows_matching p (key_leases db), db\<lparr>key_leases := delete_where p (key_leases db)\<rparr>))"

definition claim_uncompacted ::
  "stream_db \<Rightarrow> int \<Rightarrow> string \<Rightarrow> duration \<Rightarrow> uuid \<Rightarrow> time \<Rightarrow> key_claim \<times> stream_db" where
  "claim_uncompacted db g k dur tok now =
     (case take_key_lease db g k dur tok now of
        (None, db') \<Rightarrow>
          (\<lparr>kc_verdict = Key_Busy, kc_group = g, kc_key = k, kc_token = None\<rparr>, db')
      | (Some t, db') \<Rightarrow>
          (\<lparr>kc_verdict = Key_Acquired, kc_group = g, kc_key = k, kc_token = Some t\<rparr>, db'))"

definition earlier_open :: "stream_db \<Rightarrow> int \<Rightarrow> string \<Rightarrow> int \<Rightarrow> bool" where
  "earlier_open db g k m \<longleftrightarrow>
     (\<exists>e \<in> set (exception_queue db). ex_group e = g \<and> ex_key e = Some k
        \<and> ex_message e < m \<and> open_status (ex_status e))"

text \<open>A missing cursor row makes \<open>m.id > (SELECT committed ...)\<close> NULL, which is not true.\<close>

definition earlier_unclaimed ::
  "stream_db \<Rightarrow> int \<Rightarrow> string \<Rightarrow> int \<Rightarrow> int \<Rightarrow> int \<Rightarrow> bool" where
  "earlier_unclaimed db g k m own_low own_high \<longleftrightarrow>
     (\<exists>r \<in> set (message_log db). msg_key r = Some k \<and> msg_id r < m
        \<and> (case cursor_of db g of None \<Rightarrow> False | Some c \<Rightarrow> cur_committed c < msg_id r)
        \<and> \<not> (own_low < msg_id r \<and> msg_id r \<le> own_high))"

definition claim_ordered ::
  "stream_db \<Rightarrow> int \<Rightarrow> string \<Rightarrow> int \<Rightarrow> int \<Rightarrow> int \<Rightarrow> duration \<Rightarrow> uuid \<Rightarrow> time
   \<Rightarrow> key_claim \<times> stream_db" where
  "claim_ordered db g k m own_low own_high dur tok now =
     (if earlier_open db g k m \<or> earlier_unclaimed db g k m own_low own_high
      then (\<lparr>kc_verdict = Key_Busy, kc_group = g, kc_key = k, kc_token = None\<rparr>, db)
      else (case take_key_lease db g k dur tok now of
          (None, db') \<Rightarrow>
            (\<lparr>kc_verdict = Key_Busy, kc_group = g, kc_key = k, kc_token = None\<rparr>, db')
        | (Some t, db') \<Rightarrow>
            (\<lparr>kc_verdict = Key_Acquired, kc_group = g, kc_key = k, kc_token = Some t\<rparr>, db')))"

text \<open>
  \<open>claimCompacted\<close> sends the claim and the recheck as one batch. The recheck has a snapshot of
  its own, so other transactions may commit between the two: \<open>between\<close> is what they do.
\<close>

definition claim_compacted_attempt ::
  "stream_db \<Rightarrow> int \<Rightarrow> string \<Rightarrow> int \<Rightarrow> duration \<Rightarrow> uuid \<Rightarrow> time
   \<Rightarrow> (bool \<times> uuid option) \<times> stream_db" where
  "claim_compacted_attempt db g k m dur tok now =
     (if head_message db (Some k) = Some m
      then (case take_key_lease db g k dur tok now of (t, db') \<Rightarrow> ((True, t), db'))
      else ((False, None), db))"

definition claim_compacted_recheck ::
  "stream_db \<Rightarrow> int \<Rightarrow> string \<Rightarrow> int \<Rightarrow> uuid \<Rightarrow> nat \<times> stream_db" where
  "claim_compacted_recheck db g k m tok =
     (if head_message db (Some k) = Some m then (0, db) else delete_key_lease db g k tok)"

definition claim_compacted ::
  "(stream_db \<Rightarrow> stream_db) \<Rightarrow> stream_db \<Rightarrow> int \<Rightarrow> string \<Rightarrow> int \<Rightarrow> duration \<Rightarrow> uuid \<Rightarrow> time
   \<Rightarrow> key_claim \<times> stream_db" where
  "claim_compacted between db g k m dur tok now =
     (case claim_compacted_attempt db g k m dur tok now of
        ((is_head, t), db1) \<Rightarrow>
          (case claim_compacted_recheck (between db1) g k m tok of
             (deleted, db2) \<Rightarrow>
               (if \<not> is_head
                then (\<lparr>kc_verdict = Key_Superseded, kc_group = g, kc_key = k, kc_token = t\<rparr>, db2)
                else if t = None
                then (\<lparr>kc_verdict = Key_Busy, kc_group = g, kc_key = k, kc_token = t\<rparr>, db2)
                else if 0 < deleted
                then (\<lparr>kc_verdict = Key_Superseded, kc_group = g, kc_key = k, kc_token = None\<rparr>, db2)
                else (\<lparr>kc_verdict = Key_Acquired, kc_group = g, kc_key = k, kc_token = t\<rparr>, db2))))"

definition claim_key ::
  "(stream_db \<Rightarrow> stream_db) \<Rightarrow> stream_db \<Rightarrow> int \<Rightarrow> string \<Rightarrow> int \<Rightarrow> bool \<Rightarrow> concurrency_policy
   \<Rightarrow> int \<Rightarrow> int \<Rightarrow> duration \<Rightarrow> uuid \<Rightarrow> time \<Rightarrow> key_claim \<times> stream_db" where
  "claim_key between db g k m compacted policy own_low own_high dur tok now =
     (if compacted then claim_compacted between db g k m dur tok now
      else if policy = Ordered then claim_ordered db g k m own_low own_high dur tok now
      else claim_uncompacted db g k dur tok now)"

definition release_key :: "stream_db \<Rightarrow> key_claim \<Rightarrow> bool \<times> stream_db" where
  "release_key db claim = (case kc_token claim of
       None \<Rightarrow> (False, db)
     | Some t \<Rightarrow> (case delete_key_lease db (kc_group claim) (kc_key claim) t of
           (n, db') \<Rightarrow> (0 < n, db')))"

section \<open>The controller's checks\<close>

definition new_range_bounds :: "int \<Rightarrow> int \<Rightarrow> db_error + int \<times> int" where
  "new_range_bounds low high =
     (if low < 0 then Inl (Err_Invalid_Argument ''low'')
      else if high < low then Inl (Err_Invalid_Argument ''high'')
      else Inr (low, high))"

definition claim_key_checked ::
  "(stream_db \<Rightarrow> stream_db) \<Rightarrow> stream_db \<Rightarrow> int \<Rightarrow> int \<Rightarrow> string \<Rightarrow> int \<Rightarrow> bool
   \<Rightarrow> concurrency_policy \<Rightarrow> int \<Rightarrow> int \<Rightarrow> duration \<Rightarrow> uuid \<Rightarrow> time \<Rightarrow> key_claim exec" where
  "claim_key_checked between db stream g k m compacted policy own_low own_high dur tok now =
     (if stream \<le> 0 then (Inl (Err_Invalid_Argument ''streamId''), db)
      else if g \<le> 0 then (Inl (Err_Invalid_Argument ''groupId''), db)
      else if k = '''' then (Inl (Err_Invalid_Argument ''key''), db)
      else if m \<le> 0 then (Inl (Err_Invalid_Argument ''messageId''), db)
      else if \<not> validate_policy policy then (Inl (Err_Invalid_Argument ''policy''), db)
      else if own_high < own_low then (Inl (Err_Invalid_Argument ''ownRange.High''), db)
      else if dur \<le> 0 then (Inl (Err_Invalid_Argument ''duration''), db)
      else (case claim_key between db g k m compacted policy own_low own_high dur tok now of
          (c, db') \<Rightarrow> (Inr c, db')))"

definition release_key_checked :: "stream_db \<Rightarrow> int \<Rightarrow> key_claim option \<Rightarrow> bool exec" where
  "release_key_checked db stream co = (case co of
       None \<Rightarrow> (Inl (Err_Invalid_Argument ''claim''), db)
     | Some c \<Rightarrow>
         if stream \<le> 0 then (Inl (Err_Invalid_Argument ''claim.StreamId''), db)
         else if kc_verdict c \<noteq> Key_Acquired then (Inl (Err_Invalid_Argument ''verdict''), db)
         else (case release_key db c of (b, db') \<Rightarrow> (Inr b, db')))"

section \<open>One holder per key\<close>

definition key_lease_id :: "key_lease_row \<Rightarrow> int \<times> string" where
  "key_lease_id r = (kl_group r, kl_key r)"

text \<open>The primary key of the table.\<close>

definition key_leases_ok :: "stream_db \<Rightarrow> bool" where
  "key_leases_ok db \<longleftrightarrow> distinct (map key_lease_id (key_leases db))"

definition key_holder :: "stream_db \<Rightarrow> int \<Rightarrow> string \<Rightarrow> key_lease_row option" where
  "key_holder db g k = find (holds_key_lease g k) (key_leases db)"

lemma holds_key_lease_id: "holds_key_lease g k r \<longleftrightarrow> key_lease_id r = (g, k)"
  by (simp add: holds_key_lease_def key_lease_id_def)

lemma key_holder_iff:
  assumes "key_leases_ok db"
  shows "key_holder db g k = Some r \<longleftrightarrow> r \<in> set (key_leases db) \<and> key_lease_id r = (g, k)"
proof
  assume "key_holder db g k = Some r"
  then show "r \<in> set (key_leases db) \<and> key_lease_id r = (g, k)"
    by (auto simp: key_holder_def holds_key_lease_id dest: find_SomeD)
next
  assume r: "r \<in> set (key_leases db) \<and> key_lease_id r = (g, k)"
  show "key_holder db g k = Some r"
  proof (cases "key_holder db g k")
    case None
    with r show ?thesis by (auto simp: key_holder_def holds_key_lease_id dest: find_NoneD)
  next
    case (Some r')
    then have "r' \<in> set (key_leases db) \<and> key_lease_id r' = (g, k)"
      by (auto simp: key_holder_def holds_key_lease_id dest: find_SomeD)
    with r assms Some show ?thesis
      by (metis distinct_map_same key_leases_ok_def)
  qed
qed

lemma take_key_lease_ok:
  assumes ok: "key_leases_ok db" and take: "take_key_lease db g k dur tok now = (t, db')"
  shows "key_leases_ok db'"
proof (cases "find (holds_key_lease g k) (key_leases db)")
  case None
  then have "(g, k) \<notin> key_lease_id ` set (key_leases db)"
    using find_NoneD [of "holds_key_lease g k" "key_leases db"] by (force simp: holds_key_lease_id)
  with ok take None show ?thesis
    by (auto simp: take_key_lease_def key_leases_ok_def key_lease_id_def)
next
  case (Some r)
  have "map key_lease_id (update_where (holds_key_lease g k)
      (\<lambda>r. r\<lparr>kl_token := tok, kl_expires := now + dur\<rparr>) (key_leases db))
      = map key_lease_id (key_leases db)"
    by (rule map_update_where) (simp add: key_lease_id_def)
  with ok take Some show ?thesis
    by (auto simp: take_key_lease_def key_leases_ok_def split: if_splits)
qed

text \<open>Who gets the key, and what the winner leaves in the table.\<close>

lemma take_key_lease_verdict:
  "fst (take_key_lease db g k dur tok now) = Some tok \<longleftrightarrow>
     (case key_holder db g k of None \<Rightarrow> True
      | Some r \<Rightarrow> kl_expires r < now \<or> kl_token r = tok)"
  by (auto simp: take_key_lease_def key_holder_def split: option.splits)

lemma take_key_lease_None:
  "fst (take_key_lease db g k dur tok now) = None \<Longrightarrow>
   snd (take_key_lease db g k dur tok now) = db"
  by (auto simp: take_key_lease_def split: option.splits if_splits)

lemma take_key_lease_token:
  "fst (take_key_lease db g k dur tok now) = Some t \<Longrightarrow> t = tok"
  by (auto simp: take_key_lease_def split: option.splits if_splits)

lemma find_append: "find p (xs @ ys) = (case find p xs of None \<Rightarrow> find p ys | Some x \<Rightarrow> Some x)"
  by (induction xs) auto

lemma take_key_lease_holder:
  assumes "fst (take_key_lease db g k dur tok now) = Some t"
  shows "key_holder (snd (take_key_lease db g k dur tok now)) g k
     = Some \<lparr>kl_group = g, kl_key = k, kl_token = tok, kl_expires = now + dur\<rparr>"
proof (cases "find (holds_key_lease g k) (key_leases db)")
  case None
  then show ?thesis
    by (simp add: take_key_lease_def key_holder_def find_append holds_key_lease_def)
next
  case (Some r)
  have f: "find (holds_key_lease g k) (update_where (holds_key_lease g k)
      (\<lambda>r. r\<lparr>kl_token := tok, kl_expires := now + dur\<rparr>) (key_leases db))
      = map_option (\<lambda>r. r\<lparr>kl_token := tok, kl_expires := now + dur\<rparr>)
          (find (holds_key_lease g k) (key_leases db))"
    by (rule find_update_same) (simp add: holds_key_lease_def)
  have "kl_group r = g \<and> kl_key r = k"
    using Some by (auto simp: holds_key_lease_def dest: find_SomeD)
  with assms Some f show ?thesis
    by (cases r) (auto simp: take_key_lease_def key_holder_def split: if_splits)
qed

lemma take_key_lease_frame [simp]:
  "message_log (snd (take_key_lease db g k dur tok now)) = message_log db"
  "exception_queue (snd (take_key_lease db g k dur tok now)) = exception_queue db"
  "cursors (snd (take_key_lease db g k dur tok now)) = cursors db"
  "claim_leases (snd (take_key_lease db g k dur tok now)) = claim_leases db"
  "compaction_heads (snd (take_key_lease db g k dur tok now)) = compaction_heads db"
  "delivery_log (snd (take_key_lease db g k dur tok now)) = delivery_log db"
  by (simp_all add: take_key_lease_def split: option.splits)

lemma take_key_lease_other:
  assumes "(g', k') \<noteq> (g, k)"
  shows "key_holder (snd (take_key_lease db g k dur tok now)) g' k' = key_holder db g' k'"
proof -
  have u: "find (holds_key_lease g' k') (update_where (holds_key_lease g k)
      (\<lambda>r. r\<lparr>kl_token := tok, kl_expires := now + dur\<rparr>) (key_leases db))
      = find (holds_key_lease g' k') (key_leases db)"
    using assms by (intro find_update_other) (auto simp: holds_key_lease_def)
  show ?thesis
    using assms u
    by (auto simp: take_key_lease_def key_holder_def find_append holds_key_lease_def
        split: option.splits)
qed

lemma delete_key_lease_ok:
  "key_leases_ok db \<Longrightarrow> key_leases_ok (snd (delete_key_lease db g k tok))"
  by (simp add: delete_key_lease_def key_leases_ok_def Let_def distinct_map_delete_where)

lemma delete_key_lease_holder:
  assumes ok: "key_leases_ok db"
  shows "key_holder (snd (delete_key_lease db g k tok)) g k =
    (case key_holder db g k of None \<Rightarrow> None
     | Some r \<Rightarrow> if kl_token r = tok then None else Some r)"
proof -
  have ok': "key_leases_ok (snd (delete_key_lease db g k tok))"
    by (rule delete_key_lease_ok [OF ok])
  have set': "set (key_leases (snd (delete_key_lease db g k tok)))
      = {r \<in> set (key_leases db). \<not> (holds_key_lease g k r \<and> kl_token r = tok)}"
    by (simp add: delete_key_lease_def Let_def set_delete_where)
  let ?h = "key_holder (snd (delete_key_lease db g k tok)) g k"
  have iff: "?h = Some r \<longleftrightarrow> key_holder db g k = Some r \<and> kl_token r \<noteq> tok" for r
    by (auto simp: key_holder_iff [OF ok] key_holder_iff [OF ok'] set' holds_key_lease_id)
  show ?thesis
  proof (cases "key_holder db g k")
    case None
    with iff have "\<forall>r. ?h \<noteq> Some r" by simp
    then have "?h = None" by (metis option.exhaust)
    with None show ?thesis by simp
  next
    case (Some r)
    show ?thesis
    proof (cases "kl_token r = tok")
      case True
      with iff Some have "\<forall>r'. ?h \<noteq> Some r'" by auto
      then have "?h = None" by (metis option.exhaust)
      with True Some show ?thesis by simp
    next
      case False
      with iff [of r] Some show ?thesis by simp
    qed
  qed
qed

end
