(* ===== verification/Exceptions.thy ===== *)
theory Exceptions
  imports Key_Leases
begin

text \<open>
  The exception window of a group: \<open>claim.go\<close>, \<open>kill.go\<close> and \<open>outcome.go\<close> of
  \<open>pkg/consume/exceptionconsumer/controller/datastore\<close>, and the argument checks of
  \<open>pkg/consume/exceptionconsumer/controller/exception.go\<close>. The rows \<open>SKIP LOCKED\<close> passes over
  are the predicate \<open>locked\<close> on message ids; \<open>toks\<close> is the random token of each claimed row.
  Every write against a claimed row matches its lease token, and reports \<open>Err_Lease_Lost\<close> when
  no row matched.
\<close>

section \<open>Claiming\<close>

record claimed_exception =
  xc_group :: int
  xc_message :: int
  xc_attempts :: int
  xc_delays :: int
  xc_token :: uuid
  xc_expires :: time
  xc_payload :: string
  xc_created_at :: time
  xc_routing_key :: string
  xc_key :: string
  xc_rank :: int
  xc_compacted :: bool
  xc_options :: "message_options option"

definition row_due :: "time \<Rightarrow> exception_row \<Rightarrow> bool" where
  "row_due now e \<longleftrightarrow>
     (ex_status e = Ready \<and> ex_run_after e \<le> now)
     \<or> (ex_status e = Inflight \<and> (case ex_expires e of None \<Rightarrow> False | Some x \<Rightarrow> x < now))
     \<or> ex_status e = Deferred"

definition key_leased :: "stream_db \<Rightarrow> time \<Rightarrow> exception_row \<Rightarrow> bool" where
  "key_leased db now e \<longleftrightarrow>
     (\<exists>kl \<in> set (key_leases db). kl_group kl = ex_group e \<and> ex_key e = Some (kl_key kl)
        \<and> now \<le> kl_expires kl)"

definition blocked_by_earlier :: "stream_db \<Rightarrow> exception_row \<Rightarrow> bool" where
  "blocked_by_earlier db e \<longleftrightarrow> ex_concurrency e = Ordered
     \<and> (case ex_key e of None \<Rightarrow> False | Some k \<Rightarrow> earlier_open db (ex_group e) k (ex_message e))"

definition eligible :: "stream_db \<Rightarrow> int \<Rightarrow> int \<Rightarrow> int \<Rightarrow> time \<Rightarrow> exception_row \<Rightarrow> bool" where
  "eligible db g schema budget now e \<longleftrightarrow>
     ex_group e = g
     \<and> ex_attempts e - ex_delays e < budget
     \<and> (\<exists>v \<in> set (message_log db). msg_id v = ex_message e \<and> msg_schema_version v = schema)
     \<and> row_due now e
     \<and> \<not> key_leased db now e
     \<and> \<not> blocked_by_earlier db e"

definition claimable ::
  "stream_db \<Rightarrow> int \<Rightarrow> int \<Rightarrow> int \<Rightarrow> int \<Rightarrow> (int \<Rightarrow> bool) \<Rightarrow> time \<Rightarrow> exception_row list" where
  "claimable db g schema limit budget locked now =
     limit_rows limit (sort_key ex_message
       (filter (\<lambda>e. eligible db g schema budget now e \<and> \<not> locked (ex_message e))
          (exception_queue db)))"

definition claim_row :: "(int \<Rightarrow> uuid) \<Rightarrow> duration \<Rightarrow> time \<Rightarrow> exception_row \<Rightarrow> exception_row" where
  "claim_row toks dur now e =
     e\<lparr>ex_status := Inflight, ex_token := Some (toks (ex_message e)),
       ex_expires := Some (now + dur), ex_attempts := ex_attempts e + 1, ex_updated_at := now\<rparr>"

definition to_claimed_exception :: "exception_row \<Rightarrow> message_row \<Rightarrow> claimed_exception" where
  "to_claimed_exception e m =
     \<lparr>xc_group = ex_group e, xc_message = ex_message e, xc_attempts = ex_attempts e,
      xc_delays = ex_delays e,
      xc_token = (case ex_token e of None \<Rightarrow> 0 | Some t \<Rightarrow> t),
      xc_expires = (case ex_expires e of None \<Rightarrow> 0 | Some x \<Rightarrow> x),
      xc_payload = msg_payload m, xc_created_at = msg_created_at m,
      xc_routing_key = (case msg_routing_key m of None \<Rightarrow> '''' | Some k \<Rightarrow> k),
      xc_key = (case msg_key m of None \<Rightarrow> '''' | Some k \<Rightarrow> k),
      xc_rank = (case msg_rank m of None \<Rightarrow> 0 | Some r \<Rightarrow> r),
      xc_compacted = (msg_rank m \<noteq> None),
      xc_options = msg_options m\<rparr>"

definition expired_error :: string where
  "expired_error = ''delivery lease expired before an outcome was recorded''"

definition claim_exceptions ::
  "stream_db \<Rightarrow> int \<Rightarrow> int \<Rightarrow> int \<Rightarrow> int \<Rightarrow> duration \<Rightarrow> delivery_log_mode \<Rightarrow> (int \<Rightarrow> bool)
   \<Rightarrow> (int \<Rightarrow> uuid) \<Rightarrow> time \<Rightarrow> claimed_exception list \<times> stream_db" where
  "claim_exceptions db g schema limit budget dur mode locked toks now =
     (let picked = claimable db g schema limit budget locked now;
          is_picked = (\<lambda>e. exception_key e \<in> set (map exception_key picked));
          claimed = concat (map (\<lambda>e. map (to_claimed_exception (claim_row toks dur now e))
                      (filter (\<lambda>m. msg_id m = ex_message e) (message_log db))) picked);
          db1 = db\<lparr>exception_queue :=
                  update_where is_picked (claim_row toks dur now) (exception_queue db)\<rparr>;
          db2 = (if mode = Mode_Off then db1
                 else db1\<lparr>delivery_log := delivery_log db1 @
                        map (\<lambda>e. log_entry (ex_group e) (ex_message e) (ex_attempts e)
                               Log_Expired expired_error now)
                          (filter (\<lambda>e. ex_status e = Inflight) picked)\<rparr>)
      in (claimed, db2))"

definition holds_row :: "int \<Rightarrow> int \<Rightarrow> uuid \<Rightarrow> exception_row \<Rightarrow> bool" where
  "holds_row g m t e \<longleftrightarrow> ex_group e = g \<and> ex_message e = m \<and> ex_token e = Some t"

definition claimed_row :: "claimed_exception \<Rightarrow> exception_row \<Rightarrow> bool" where
  "claimed_row x = holds_row (xc_group x) (xc_message x) (xc_token x)"

definition renew_lease ::
  "stream_db \<Rightarrow> claimed_exception \<Rightarrow> duration \<Rightarrow> time \<Rightarrow> bool \<times> stream_db" where
  "renew_lease db x dur now =
     (0 < rows_matching (claimed_row x) (exception_queue db),
      db\<lparr>exception_queue := update_where (claimed_row x)
           (\<lambda>e. e\<lparr>ex_expires := Some (now + dur), ex_updated_at := now\<rparr>) (exception_queue db)\<rparr>)"

section \<open>The crash-loop backstop\<close>

definition killed_suffix :: string where
  "killed_suffix = '' [killed: crash-loop hit max attempts]''"

definition killable :: "int \<Rightarrow> int \<Rightarrow> time \<Rightarrow> exception_row \<Rightarrow> bool" where
  "killable g budget now e \<longleftrightarrow>
     ex_group e = g \<and> ex_status e = Inflight
     \<and> (case ex_expires e of None \<Rightarrow> False | Some x \<Rightarrow> x < now)
     \<and> budget \<le> ex_attempts e - ex_delays e"

definition kill_row :: "time \<Rightarrow> exception_row \<Rightarrow> exception_row" where
  "kill_row now e =
     e\<lparr>ex_status := Dead, ex_token := None, ex_expires := None, ex_updated_at := now,
       ex_last_error := Some ((case ex_last_error e of None \<Rightarrow> '''' | Some x \<Rightarrow> x) @ killed_suffix)\<rparr>"

definition kill ::
  "stream_db \<Rightarrow> int \<Rightarrow> int \<Rightarrow> delivery_log_mode \<Rightarrow> time \<Rightarrow> nat \<times> stream_db" where
  "kill db g budget mode now =
     (let killed = filter (killable g budget now) (exception_queue db);
          db1 = db\<lparr>exception_queue :=
                  update_where (killable g budget now) (kill_row now) (exception_queue db)\<rparr>
      in (length killed,
          if mode = Mode_Off then db1
          else db1\<lparr>delivery_log := delivery_log db1 @
                 map (\<lambda>e. log_entry (ex_group e) (ex_message e) (ex_attempts e) Log_Killed
                        (case ex_last_error (kill_row now e) of None \<Rightarrow> '''' | Some x \<Rightarrow> x) now)
                   killed\<rparr>))"

section \<open>Outcomes\<close>

text \<open>
  \<open>record\<close> and \<open>recordAndReleaseKey\<close>: the statement's effect on the tables and the number of
  rows it affected, then the release of the key in the same transaction. The transaction commits
  either way; a statement that affected no row is reported as a lost lease.
\<close>

definition record_and_release ::
  "key_claim option \<Rightarrow> nat \<times> stream_db \<Rightarrow> unit exec" where
  "record_and_release kco r = (case r of (affected, db1) \<Rightarrow>
     (if affected = 0 then Inl Err_Lease_Lost else Inr (),
      case kco of None \<Rightarrow> db1 | Some kc \<Rightarrow> snd (release_key db1 kc)))"

definition update_claimed ::
  "stream_db \<Rightarrow> claimed_exception \<Rightarrow> (exception_row \<Rightarrow> exception_row)
   \<Rightarrow> (exception_row \<Rightarrow> log_row option) \<Rightarrow> nat \<times> stream_db" where
  "update_claimed db x f entry =
     (let matched = filter (claimed_row x) (exception_queue db) in
      (length matched,
       db\<lparr>exception_queue := update_where (claimed_row x) f (exception_queue db),
          delivery_log := delivery_log db @ List.map_filter entry matched\<rparr>))"

definition record_success ::
  "stream_db \<Rightarrow> claimed_exception \<Rightarrow> delivery_log_mode \<Rightarrow> key_claim option \<Rightarrow> time
   \<Rightarrow> unit exec" where
  "record_success db x mode kco now =
     (let matched = filter (claimed_row x) (exception_queue db) in
      record_and_release kco
        (length matched,
         db\<lparr>exception_queue := delete_where (claimed_row x) (exception_queue db),
            delivery_log := delivery_log db @
              (if mode = Mode_All
               then map (\<lambda>e. log_entry (xc_group x) (xc_message x) (ex_attempts e) Log_Success ''''
                      now) matched
               else [])\<rparr>))"

definition release_row :: "exception_status \<Rightarrow> time \<Rightarrow> exception_row \<Rightarrow> exception_row" where
  "release_row st now e =
     e\<lparr>ex_status := st, ex_token := None, ex_expires := None, ex_updated_at := now\<rparr>"

definition log_unless_off ::
  "delivery_log_mode \<Rightarrow> claimed_exception \<Rightarrow> (exception_row \<Rightarrow> int) \<Rightarrow> log_status \<Rightarrow> string \<Rightarrow> time
   \<Rightarrow> exception_row \<Rightarrow> log_row option" where
  "log_unless_off mode x attempt st err now e =
     (if mode = Mode_Off then None
      else Some (log_entry (xc_group x) (xc_message x) (attempt e) st err now))"

definition record_failure ::
  "stream_db \<Rightarrow> retry_policy \<Rightarrow> claimed_exception \<Rightarrow> string \<Rightarrow> delivery_log_mode
   \<Rightarrow> key_claim option \<Rightarrow> time \<Rightarrow> unit exec" where
  "record_failure db policy x err mode kco now =
     record_and_release kco
       (update_claimed db x
         (\<lambda>e. (release_row Ready now e)\<lparr>ex_last_error := Some err,
            ex_run_after := now + calculate_delay policy (xc_attempts x - xc_delays x - 1)\<rparr>)
         (log_unless_off mode x (\<lambda>_. xc_attempts x) Log_Failure err now))"

definition record_delayed ::
  "stream_db \<Rightarrow> duration \<Rightarrow> claimed_exception \<Rightarrow> string \<Rightarrow> delivery_log_mode
   \<Rightarrow> key_claim option \<Rightarrow> time \<Rightarrow> unit exec" where
  "record_delayed db delay x err mode kco now =
     record_and_release kco
       (update_claimed db x
         (\<lambda>e. (release_row Ready now e)\<lparr>ex_delays := ex_delays e + 1,
            ex_last_error := Some err, ex_run_after := now + delay\<rparr>)
         (log_unless_off mode x (\<lambda>_. xc_attempts x) Log_Delayed err now))"

definition record_terminal ::
  "stream_db \<Rightarrow> claimed_exception \<Rightarrow> string \<Rightarrow> delivery_log_mode \<Rightarrow> key_claim option \<Rightarrow> time
   \<Rightarrow> unit exec" where
  "record_terminal db x err mode kco now =
     record_and_release kco
       (update_claimed db x (\<lambda>e. (release_row Dead now e)\<lparr>ex_last_error := Some err\<rparr>)
         (log_unless_off mode x (\<lambda>_. xc_attempts x) Log_Failure err now))"

definition superseded_error :: string where
  "superseded_error = ''a newer version of the same message key superseded this delivery''"

definition deferred_error :: string where
  "deferred_error = ''another delivery held the message key when this claim reached its gate''"

text \<open>
  The log row of a claim that never ran: \<open>RETURNING attempts\<close> is the decremented number, and the
  row is logged at that number plus one.
\<close>

definition record_superseded ::
  "stream_db \<Rightarrow> claimed_exception \<Rightarrow> delivery_log_mode \<Rightarrow> time \<Rightarrow> unit exec" where
  "record_superseded db x mode now =
     record_and_release None
       (update_claimed db x
         (\<lambda>e. (release_row Superseded now e)\<lparr>ex_attempts := ex_attempts e - 1\<rparr>)
         (log_unless_off mode x (\<lambda>e. ex_attempts e - 1 + 1) Log_Superseded superseded_error now))"

definition record_deferred ::
  "stream_db \<Rightarrow> claimed_exception \<Rightarrow> concurrency_policy \<Rightarrow> delivery_log_mode \<Rightarrow> time
   \<Rightarrow> unit exec" where
  "record_deferred db x policy mode now =
     record_and_release None
       (update_claimed db x
         (\<lambda>e. (release_row Deferred now e)\<lparr>ex_concurrency := policy,
            ex_attempts := ex_attempts e - 1\<rparr>)
         (log_unless_off mode x (\<lambda>e. ex_attempts e - 1 + 1) Log_Deferred deferred_error now))"

section \<open>The controller's checks\<close>

definition kill_checked ::
  "stream_db \<Rightarrow> int \<Rightarrow> int \<Rightarrow> int \<Rightarrow> delivery_log_mode \<Rightarrow> time \<Rightarrow> nat exec" where
  "kill_checked db stream g budget mode now =
     (if stream \<le> 0 then (Inl (Err_Invalid_Argument ''streamId''), db)
      else if g \<le> 0 then (Inl (Err_Invalid_Argument ''groupId''), db)
      else if budget < 0 then (Inl (Err_Invalid_Argument ''maxRetries''), db)
      else (case kill db g budget mode now of (n, db') \<Rightarrow> (Inr n, db')))"

definition claim_exceptions_checked ::
  "stream_db \<Rightarrow> int \<Rightarrow> int \<Rightarrow> int \<Rightarrow> int \<Rightarrow> int \<Rightarrow> duration \<Rightarrow> delivery_log_mode
   \<Rightarrow> (int \<Rightarrow> bool) \<Rightarrow> (int \<Rightarrow> uuid) \<Rightarrow> time \<Rightarrow> claimed_exception list exec" where
  "claim_exceptions_checked db stream g schema limit budget dur mode locked toks now =
     (if stream \<le> 0 then (Inl (Err_Invalid_Argument ''streamId''), db)
      else if g \<le> 0 then (Inl (Err_Invalid_Argument ''groupId''), db)
      else if limit < 1 then (Inl (Err_Invalid_Argument ''limit''), db)
      else if budget < 0 then (Inl (Err_Invalid_Argument ''maxRetries''), db)
      else if dur \<le> 0 then (Inl (Err_Invalid_Argument ''leaseDuration''), db)
      else (case claim_exceptions db g schema limit budget dur mode locked toks now of
          (xs, db') \<Rightarrow> (Inr xs, db')))"

end
