(* ===== verification/Frontier.thy ===== *)
theory Frontier
  imports Range_Claims Exceptions
begin

text \<open>
  The window of a message consumer group: its cursor (\<open>committed \<le> claimed \<le> settled_head\<close>),
  the leased ranges between the two marks and the exception rows. The theory states the window
  invariant and the meaning of a safe mark, shows that every operation of the range, exception
  and cursor-advancer datastores keeps both, and closes the argument over a step relation in
  which the operations of any number of workers interleave.
\<close>

named_theorems window "what the window invariant is made of"

section \<open>The window of a group\<close>

definition leases_of :: "stream_db \<Rightarrow> int \<Rightarrow> claim_lease_row set" where
  "leases_of db g = {l \<in> set (claim_leases db). cl_group l = g}"

definition rows_of :: "stream_db \<Rightarrow> int \<Rightarrow> exception_row set" where
  "rows_of db g = {e \<in> set (exception_queue db). ex_group e = g}"

definition in_range :: "claim_lease_row \<Rightarrow> int \<Rightarrow> bool" where
  "in_range l i \<longleftrightarrow> cl_low l < i \<and> i \<le> cl_high l"

definition safe :: "cursor_row \<Rightarrow> claim_lease_row set \<Rightarrow> exception_row set \<Rightarrow> int \<Rightarrow> bool" where
  "safe c L E t \<longleftrightarrow> t \<le> cur_claimed c \<and> (\<forall>l \<in> L. t \<le> cl_low l)
     \<and> (\<forall>e \<in> E. open_status (ex_status e) \<longrightarrow> t < ex_message e)"

definition window_ok :: "cursor_row \<Rightarrow> claim_lease_row set \<Rightarrow> exception_row set \<Rightarrow> bool" where
  "window_ok c L E \<longleftrightarrow>
     safe c L E (cur_committed c)
     \<and> cur_claimed c \<le> cur_settled_head c
     \<and> (\<forall>l \<in> L. cl_low l \<le> cl_high l \<and> cl_high l \<le> cur_claimed c)
     \<and> (\<forall>l \<in> L. \<forall>l' \<in> L. l \<noteq> l' \<longrightarrow> cl_high l \<le> cl_low l' \<or> cl_high l' \<le> cl_low l)
     \<and> (\<forall>e \<in> E. ex_message e \<le> cur_claimed c \<and> (\<forall>l \<in> L. \<not> in_range l (ex_message e)))"

lemmas window_defs [window] = window_ok_def safe_def in_range_def

definition keys_ok :: "stream_db \<Rightarrow> bool" where
  "keys_ok db \<longleftrightarrow> distinct (map lease_key (claim_leases db))
     \<and> distinct (map exception_key (exception_queue db))
     \<and> distinct (map msg_id (message_log db))
     \<and> (\<forall>e \<in> set (exception_queue db). ex_token e \<noteq> None \<longrightarrow> ex_status e = Inflight)"

text \<open>The keys of the tables, and a lease token only on a row in flight.\<close>

definition window_inv :: "stream_db \<Rightarrow> int \<Rightarrow> bool" where
  "window_inv db g \<longleftrightarrow> keys_ok db
     \<and> (case cursor_of db g of None \<Rightarrow> False | Some c \<Rightarrow> window_ok c (leases_of db g) (rows_of db g))"

definition safe_mark :: "stream_db \<Rightarrow> int \<Rightarrow> int \<Rightarrow> bool" where
  "safe_mark db g t \<longleftrightarrow>
     (case cursor_of db g of None \<Rightarrow> False | Some c \<Rightarrow> safe c (leases_of db g) (rows_of db g) t)"

text \<open>What is still owed to the group: leased ids and ids with an open exception row.\<close>

definition pending_ids :: "stream_db \<Rightarrow> int \<Rightarrow> int set" where
  "pending_ids db g = {i. \<exists>l \<in> leases_of db g. in_range l i}
     \<union> {ex_message e | e. e \<in> rows_of db g \<and> open_status (ex_status e)}"

lemma window_invE:
  assumes "window_inv db g"
  obtains c where "cursor_of db g = Some c" "keys_ok db"
    "window_ok c (leases_of db g) (rows_of db g)"
  using assms by (auto simp: window_inv_def split: option.splits)

lemma window_invI:
  "cursor_of db g = Some c \<Longrightarrow> keys_ok db \<Longrightarrow> window_ok c (leases_of db g) (rows_of db g) \<Longrightarrow>
   window_inv db g"
  by (simp add: window_inv_def)

lemma safe_markI: "cursor_of db g = Some c \<Longrightarrow> safe c (leases_of db g) (rows_of db g) t \<Longrightarrow>
   safe_mark db g t"
  by (simp add: safe_mark_def)

lemma safe_mark_iff: "cursor_of db g = Some c \<Longrightarrow>
   safe_mark db g t \<longleftrightarrow> safe c (leases_of db g) (rows_of db g) t"
  by (simp add: safe_mark_def)

lemma ranges_disjoint:
  assumes "window_ok c L E" "l \<in> L" "l' \<in> L" "l \<noteq> l'" "in_range l i"
  shows "\<not> in_range l' i"
proof -
  have "cl_high l \<le> cl_low l' \<or> cl_high l' \<le> cl_low l"
    using assms(1-4) unfolding window_ok_def by blast
  with assms(5) show ?thesis by (auto simp: in_range_def)
qed

lemma row_outside_leases:
  "window_ok c L E \<Longrightarrow> l \<in> L \<Longrightarrow> e \<in> E \<Longrightarrow> \<not> in_range l (ex_message e)"
  unfolding window_ok_def by blast

section \<open>How a window changes\<close>

text \<open>
  Each lemma is one kind of change: a range claimed at the frontier, a lease whose bounds stay,
  rows that replace part of a leased range, exception rows that only narrow, the mark raised.
\<close>

lemma window_claim:
  assumes "window_ok c L E" "cur_claimed c \<le> cur_claimed c'" "cur_committed c' = cur_committed c"
    "cur_claimed c' \<le> cur_settled_head c'" "cl_low l = cur_claimed c" "cl_high l = cur_claimed c'"
  shows "window_ok c' (insert l L) E"
  using assms by (fastforce simp: window)

lemma window_advance:
  assumes "window_ok c L E" "cur_claimed c \<le> cur_claimed c'" "cur_committed c' = cur_committed c"
    "cur_claimed c' \<le> cur_settled_head c'"
  shows "window_ok c' L E"
  using assms by (fastforce simp: window)

lemma safe_claim:
  assumes "safe c L E t" "cur_claimed c \<le> cur_claimed c'" "cl_low l = cur_claimed c"
  shows "safe c' (insert l L) E t" "safe c' L E t"
  using assms by (auto simp: window)

text \<open>\<open>L'\<close> is \<open>L\<close> with \<open>l\<close> replaced by a lease whose range is a suffix of the old one.\<close>

definition narrowed :: "claim_lease_row set \<Rightarrow> claim_lease_row \<Rightarrow> claim_lease_row
    \<Rightarrow> claim_lease_row set" where
  "narrowed L l l' = insert l' (L - {l})"

lemma window_narrowed:
  assumes "window_ok c L E" "l \<in> L" "cl_low l \<le> cl_low l'" "cl_low l' \<le> cl_high l'"
    "cl_high l' = cl_high l"
    "\<And>e. e \<in> R \<Longrightarrow> cl_low l < ex_message e \<and> ex_message e \<le> cl_low l'"
  shows "window_ok c (narrowed L l l') (E \<union> R)"
  using assms unfolding window_ok_def narrowed_def safe_def in_range_def
  by (smt (verit, ccfv_threshold) DiffE Un_iff insert_iff)

lemma safe_narrowed:
  assumes "safe c L E t" "l \<in> L" "cl_low l \<le> cl_low l'"
    "\<And>e. e \<in> R \<Longrightarrow> cl_low l < ex_message e"
  shows "safe c (narrowed L l l') (E \<union> R) t"
  using assms by (fastforce simp: window narrowed_def)

lemma window_freed:
  assumes "window_ok c L E" "l \<in> L" "\<And>e. e \<in> R \<Longrightarrow> in_range l (ex_message e)"
  shows "window_ok c (L - {l}) (E \<union> R)"
  using assms unfolding window_ok_def safe_def in_range_def
  by (smt (verit, ccfv_threshold) DiffE Un_iff insert_iff)

lemma safe_freed:
  assumes "safe c L E t" "l \<in> L" "\<And>e. e \<in> R \<Longrightarrow> in_range l (ex_message e)"
  shows "safe c (L - {l}) (E \<union> R) t"
  using assms by (fastforce simp: window)

definition narrows :: "exception_row set \<Rightarrow> exception_row set \<Rightarrow> bool" where
  "narrows E E' \<longleftrightarrow> (\<forall>e' \<in> E'. \<exists>e \<in> E. ex_message e = ex_message e'
     \<and> (open_status (ex_status e') \<longrightarrow> open_status (ex_status e)))"

lemma safe_narrows:
  assumes s: "safe c L E t" and n: "narrows E E'"
  shows "safe c L E' t"
proof -
  have "t < ex_message e'" if "e' \<in> E'" "open_status (ex_status e')" for e'
  proof -
    obtain e where "e \<in> E" "ex_message e = ex_message e'" "open_status (ex_status e)"
      using n \<open>e' \<in> E'\<close> \<open>open_status (ex_status e')\<close> unfolding narrows_def by blast
    with s show ?thesis by (force simp: safe_def)
  qed
  with s show ?thesis by (simp add: safe_def)
qed

lemma window_narrows:
  assumes w: "window_ok c L E" and n: "narrows E E'"
  shows "window_ok c L E'"
proof -
  have "ex_message e' \<le> cur_claimed c \<and> (\<forall>l \<in> L. \<not> in_range l (ex_message e'))"
    if "e' \<in> E'" for e'
  proof -
    obtain e where "e \<in> E" "ex_message e = ex_message e'"
      using n \<open>e' \<in> E'\<close> unfolding narrows_def by blast
    with w show ?thesis unfolding window_ok_def by (metis (full_types))
  qed
  moreover have "safe c L E' (cur_committed c)"
    using w n by (auto simp: window_ok_def intro: safe_narrows)
  ultimately show ?thesis
    using w by (simp add: window_ok_def)
qed

lemma window_committed:
  assumes "window_ok c L E" "safe c L E t" "cur_claimed c' = cur_claimed c"
    "cur_settled_head c' = cur_settled_head c" "cur_committed c' = max (cur_committed c) t"
  shows "window_ok c' L E"
  using assms by (auto simp: window max_def)

lemma safe_cong: "cur_claimed c' = cur_claimed c \<Longrightarrow> safe c' L E t = safe c L E t"
  by (simp add: safe_def)

section \<open>Reading the tables after a statement\<close>

lemma cursor_of_update:
  "cursor_of db g = Some c \<Longrightarrow> cur_group (f c) = g \<Longrightarrow>
   (\<And>r. cur_group r = g \<Longrightarrow> cur_group (f r) = g) \<Longrightarrow>
   cursor_of (db\<lparr>cursors := update_where (\<lambda>r. cur_group r = g) f (cursors db)\<rparr>) g = Some (f c)"
  by (simp add: cursor_of_def find_update_same)

lemma of_frame [simp]:
  "cursor_of (db\<lparr>claim_leases := x\<rparr>) g = cursor_of db g"
  "cursor_of (db\<lparr>exception_queue := y\<rparr>) g = cursor_of db g"
  "cursor_of (db\<lparr>delivery_log := z\<rparr>) g = cursor_of db g"
  "cursor_of (db\<lparr>key_leases := k\<rparr>) g = cursor_of db g"
  "leases_of (db\<lparr>cursors := w\<rparr>) g = leases_of db g"
  "leases_of (db\<lparr>exception_queue := y\<rparr>) g = leases_of db g"
  "leases_of (db\<lparr>delivery_log := z\<rparr>) g = leases_of db g"
  "leases_of (db\<lparr>key_leases := k\<rparr>) g = leases_of db g"
  "rows_of (db\<lparr>cursors := w\<rparr>) g = rows_of db g"
  "rows_of (db\<lparr>claim_leases := x\<rparr>) g = rows_of db g"
  "rows_of (db\<lparr>delivery_log := z\<rparr>) g = rows_of db g"
  "rows_of (db\<lparr>key_leases := k\<rparr>) g = rows_of db g"
  by (simp_all add: cursor_of_def leases_of_def rows_of_def)

lemma keys_frame [simp]:
  "keys_ok (db\<lparr>cursors := w\<rparr>) = keys_ok db"
  "keys_ok (db\<lparr>delivery_log := z\<rparr>) = keys_ok db"
  "keys_ok (db\<lparr>key_leases := k\<rparr>) = keys_ok db"
  by (simp_all add: keys_ok_def)

lemma lease_unique:
  assumes "keys_ok db" "l \<in> leases_of db g" "l' \<in> leases_of db g" "cl_token l = cl_token l'"
  shows "l = l'"
  using assms by (auto simp: keys_ok_def leases_of_def lease_key_def
      intro!: distinct_map_same [where k = lease_key])

lemma leases_of_delete:
  assumes "keys_ok db" "l \<in> leases_of db g"
  shows "leases_of (db\<lparr>claim_leases := delete_where
      (\<lambda>r. cl_group r = g \<and> cl_token r = cl_token l) (claim_leases db)\<rparr>) g = leases_of db g - {l}"
proof -
  have "r = l" if "r \<in> leases_of db g" "cl_token r = cl_token l" for r
    using assms that lease_unique by blast
  with assms show ?thesis by (auto simp: leases_of_def set_delete_where)
qed

lemma leases_of_update:
  assumes "keys_ok db" "l \<in> leases_of db g" "cl_group (f l) = g"
  shows "leases_of (db\<lparr>claim_leases := update_where
      (\<lambda>r. cl_group r = g \<and> cl_token r = cl_token l) f (claim_leases db)\<rparr>) g
    = narrowed (leases_of db g) l (f l)"
proof -
  let ?p = "\<lambda>r. cl_group r = g \<and> cl_token r = cl_token l"
  have one: "r = l" if "r \<in> leases_of db g" "cl_token r = cl_token l" for r
    using assms that lease_unique by blast
  have hit: "{r \<in> set (claim_leases db). ?p r} = {l}"
    using one assms(2) by (auto simp: leases_of_def)
  have miss: "{r \<in> set (claim_leases db). \<not> ?p r \<and> cl_group r = g} = leases_of db g - {l}"
    using one assms(2) by (auto simp: leases_of_def)
  show ?thesis
    using miss assms(3) by (auto simp: leases_of_def set_update_where hit narrowed_def)
qed

lemma rows_matching_lease:
  "rows_matching (\<lambda>r. cl_group r = g \<and> cl_token r = t) (claim_leases db) \<noteq> 0 \<Longrightarrow>
   \<exists>l \<in> leases_of db g. cl_token l = t"
  by (auto simp: leases_of_def)

lemma keys_update_lease:
  assumes "keys_ok db" "l \<in> leases_of db g" "cl_group (f l) = g"
    "\<not> (\<exists>r \<in> set (claim_leases db). lease_key r = (g, cl_token (f l))) \<or> cl_token (f l) = cl_token l"
  shows "keys_ok (db\<lparr>claim_leases := update_where
      (\<lambda>r. cl_group r = g \<and> cl_token r = cl_token l) f (claim_leases db)\<rparr>)"
proof -
  have one: "r = l" if "r \<in> set (claim_leases db)" "cl_group r = g" "cl_token r = cl_token l" for r
    using assms that lease_unique [of db r g l] by (auto simp: leases_of_def)
  obtain xs ys where split: "claim_leases db = xs @ l # ys"
    using assms(2) by (auto simp: leases_of_def dest: split_list)
  have d: "distinct (map lease_key (xs @ l # ys))" using assms(1) by (simp add: keys_ok_def split)
  have lk: "lease_key l = (g, cl_token l)" using assms(2) by (simp add: leases_of_def lease_key_def)
  have no: "\<not> (cl_group r = g \<and> cl_token r = cl_token l)" if "r \<in> set xs \<union> set ys" for r
  proof
    assume "cl_group r = g \<and> cl_token r = cl_token l"
    then have "lease_key r = lease_key l" using lk by (simp add: lease_key_def)
    with d that show False by (auto simp: image_iff)
  qed
  have eq: "update_where (\<lambda>r. cl_group r = g \<and> cl_token r = cl_token l) f (xs @ l # ys)
      = xs @ f l # ys"
    using no assms(2) by (auto simp: update_where_def leases_of_def intro!: map_idI)
  have "lease_key (f l) = (g, cl_token (f l))" using assms(3) by (simp add: lease_key_def)
  with d assms(4) lk have "distinct (map lease_key (xs @ f l # ys))"
    by (auto simp: split image_iff)
  with assms(1) eq show ?thesis by (simp add: keys_ok_def split)
qed

end
