(* ===== verification/Frontier_Ops.thy ===== *)
theory Frontier_Ops
  imports Frontier
begin

text \<open>
  Every operation of the range, exception and cursor-advancer datastores keeps the window
  invariant and every safe mark (\<open>keeps\<close>), and what it does to the ids still owed to the group
  (\<open>pending_ids\<close>).
\<close>

definition keeps :: "stream_db \<Rightarrow> stream_db \<Rightarrow> int \<Rightarrow> bool" where
  "keeps db db' g \<longleftrightarrow> (window_inv db g \<longrightarrow> window_inv db' g
     \<and> (\<forall>t. safe_mark db g t \<longrightarrow> safe_mark db' g t))"

lemma keeps_refl [simp]: "keeps db db g"
  by (simp add: keeps_def)

lemma keepsI:
  assumes "\<And>c. cursor_of db g = Some c \<Longrightarrow> keys_ok db \<Longrightarrow>
      window_ok c (leases_of db g) (rows_of db g) \<Longrightarrow>
      \<exists>c'. cursor_of db' g = Some c' \<and> keys_ok db'
        \<and> window_ok c' (leases_of db' g) (rows_of db' g)
        \<and> (\<forall>t. safe c (leases_of db g) (rows_of db g) t \<longrightarrow>
              safe c' (leases_of db' g) (rows_of db' g) t)"
  shows "keeps db db' g"
  unfolding keeps_def
proof
  assume "window_inv db g"
  then obtain c where c: "cursor_of db g = Some c" "keys_ok db"
    "window_ok c (leases_of db g) (rows_of db g)" by (rule window_invE)
  from assms [OF c] c show "window_inv db' g \<and> (\<forall>t. safe_mark db g t \<longrightarrow> safe_mark db' g t)"
    by (auto simp: safe_mark_iff intro: window_invI)
qed

section \<open>Fresh claims\<close>

lemma advance_cursor_simps [simp]:
  "cur_group (advance_cursor c limit snap xmin) = cur_group c"
  "cur_committed (advance_cursor c limit snap xmin) = cur_committed c"
  "cur_settled_head (advance_cursor c limit snap xmin) = gate_head c snap xmin"
  by (simp_all add: advance_cursor_def Let_def)

lemma advance_cursor_claimed:
  "cur_claimed (advance_cursor c limit snap xmin)
     = min (cur_claimed c + limit) (gate_head c snap xmin)"
  by (simp add: advance_cursor_def Let_def)

lemma advance_cursor_le [simp]:
  "cur_claimed (advance_cursor c limit snap xmin) \<le> gate_head c snap xmin"
  by (simp add: advance_cursor_claimed)

lemma advance_cursor_forward:
  "0 \<le> limit \<Longrightarrow> cur_claimed c \<le> cur_settled_head c \<Longrightarrow>
   cur_claimed c \<le> cur_claimed (advance_cursor c limit snap xmin)"
  using gate_head_ge [of c snap xmin] by (simp add: advance_cursor_claimed)

text \<open>The two ways a fresh claim ends well, and the ways it fails.\<close>

lemma fresh_claim_cases:
  assumes "fresh_claim rx db g schema limit dur snap xmin now tok = (res, db')"
    and c: "cursor_of db g = Some c"
    and w: "cur_claimed c \<le> cur_settled_head c" "0 \<le> limit"
  obtains (idle) "res = Inr None" "cur_claimed (advance_cursor c limit snap xmin) = cur_claimed c"
      "db' = db\<lparr>cursors := update_where (\<lambda>r. cur_group r = g)
         (\<lambda>_. advance_cursor c limit snap xmin) (cursors db)\<rparr>"
  | (claimed) r where "res = Inr (Some r)" "\<not> cr_quarantined r"
      "cr_lease r = \<lparr>cl_group = g, cl_token = tok, cl_low = cur_claimed c,
         cl_high = cur_claimed (advance_cursor c limit snap xmin), cl_expires = now + dur,
         cl_reclaims = 0\<rparr>"
      "cur_claimed c < cur_claimed (advance_cursor c limit snap xmin)"
      "\<not> (\<exists>l \<in> set (claim_leases db). lease_key l = (g, tok))"
      "db' = db\<lparr>cursors := update_where (\<lambda>r. cur_group r = g)
         (\<lambda>_. advance_cursor c limit snap xmin) (cursors db),
         claim_leases := claim_leases db @ [cr_lease r]\<rparr>"
      "cr_messages r = read_messages rx db g schema (cl_low (cr_lease r)) (cl_high (cr_lease r))"
  | (failed) "res = Inl Err_Unique_Violation" "db' = db"
proof -
  have le: "cur_claimed c \<le> cur_claimed (advance_cursor c limit snap xmin)"
    by (rule advance_cursor_forward [OF w(2,1)])
  define c' where "c' = advance_cursor c limit snap xmin"
  define db1 where
    "db1 = db\<lparr>cursors := update_where (\<lambda>r. cur_group r = g) (\<lambda>_. c') (cursors db)\<rparr>"
  have le': "cur_claimed c \<le> cur_claimed c'" using le by (simp only: c'_def)
  have op: "(res, db') = (if cur_claimed c = cur_claimed c' then (Inr None, db1)
      else (case claim_messages rx db1 g schema (cur_claimed c) (cur_claimed c') dur now tok of
          (Inl e, _) \<Rightarrow> (Inl e, db) | (Inr r, db2) \<Rightarrow> (Inr (Some r), db2)))"
    using assms(1) unfolding fresh_claim_def c Let_def c'_def db1_def by simp
  have leases: "claim_leases db1 = claim_leases db"
    and reads: "read_messages rx db1 = read_messages rx db"
    by (simp_all add: db1_def)
  show ?thesis
  proof (cases "cur_claimed c = cur_claimed c'")
    case True
    with op idle show ?thesis by (simp add: c'_def db1_def)
  next
    case False
    with le' have lt: "cur_claimed c < cur_claimed c'" by simp
    show ?thesis
    proof (cases "\<exists>l \<in> set (claim_leases db). lease_key l = (g, tok)")
      case True
      with op False lt have "res = Inl Err_Unique_Violation" "db' = db"
        by (simp_all add: claim_messages_def insert_claim_lease_def leases)
      then show ?thesis by (rule failed)
    next
      case fresh: False
      let ?l = "\<lparr>cl_group = g, cl_token = tok, cl_low = cur_claimed c, cl_high = cur_claimed c',
        cl_expires = now + dur, cl_reclaims = 0\<rparr>"
      from op False lt fresh
      have "res = Inr (Some \<lparr>cr_lease = ?l,
          cr_messages = read_messages rx db g schema (cur_claimed c) (cur_claimed c'),
          cr_quarantined = False\<rparr>)"
        "db' = db1\<lparr>claim_leases := claim_leases db @ [?l]\<rparr>"
        by (simp_all add: claim_messages_def insert_claim_lease_def leases reads Let_def)
      with lt fresh show ?thesis
        by (intro claimed [of "\<lparr>cr_lease = ?l,
          cr_messages = read_messages rx db g schema (cur_claimed c) (cur_claimed c'),
          cr_quarantined = False\<rparr>"]) (simp_all add: c'_def db1_def del: advance_cursor_simps)
    qed
  qed
qed

lemma keys_append_lease:
  "keys_ok db \<Longrightarrow> \<not> (\<exists>r \<in> set (claim_leases db). lease_key r = lease_key l) \<Longrightarrow>
   keys_ok (db\<lparr>claim_leases := claim_leases db @ [l]\<rparr>)"
  by (auto simp: keys_ok_def)

lemma leases_append:
  "cl_group l = g \<Longrightarrow>
   leases_of (db\<lparr>cursors := w, claim_leases := claim_leases db @ [l]\<rparr>) g = insert l (leases_of db g)"
  by (auto simp: leases_of_def)

lemma fresh_claim_keeps:
  assumes op: "fresh_claim rx db g schema limit dur snap xmin now tok = (res, db')" and l: "0 \<le> limit"
  shows "keeps db db' g"
proof (rule keepsI)
  fix c
  assume c: "cursor_of db g = Some c" and k: "keys_ok db"
    and w: "window_ok c (leases_of db g) (rows_of db g)"
  let ?c' = "advance_cursor c limit snap xmin"
  have cs: "cur_claimed c \<le> cur_settled_head c" using w by (simp add: window_ok_def)
  note fwd = advance_cursor_forward [OF l cs, of snap xmin]
  have cg: "cur_group c = g" using c by (auto dest: cursor_of_SomeD)
  have cur: "cursor_of (db\<lparr>cursors := update_where (\<lambda>r. cur_group r = g) (\<lambda>_. ?c') (cursors db)\<rparr>) g
      = Some ?c'"
    using cursor_of_update [OF c, of "\<lambda>_. ?c'"] cg by simp
  show "\<exists>c'. cursor_of db' g = Some c' \<and> keys_ok db'
        \<and> window_ok c' (leases_of db' g) (rows_of db' g)
        \<and> (\<forall>t. safe c (leases_of db g) (rows_of db g) t \<longrightarrow>
              safe c' (leases_of db' g) (rows_of db' g) t)"
    using op c cs l
  proof (cases rule: fresh_claim_cases)
    case idle
    have "window_ok ?c' (leases_of db g) (rows_of db g)"
      using w fwd by (rule window_advance) simp_all
    moreover have "safe ?c' (leases_of db g) (rows_of db g) t"
      if "safe c (leases_of db g) (rows_of db g) t" for t
      using that idle(2) by (simp add: safe_def)
    ultimately show ?thesis using idle cur k by auto
  next
    case (claimed r)
    have "window_ok ?c' (insert (cr_lease r) (leases_of db g)) (rows_of db g)"
      using w fwd by (rule window_claim) (simp_all add: claimed(3))
    moreover have "safe ?c' (insert (cr_lease r) (leases_of db g)) (rows_of db g) t"
      if "safe c (leases_of db g) (rows_of db g) t" for t
      using that fwd by (rule safe_claim(1)) (simp add: claimed(3))
    moreover have "keys_ok (db\<lparr>claim_leases := claim_leases db @ [cr_lease r]\<rparr>)"
      using k claimed(3,5) by (intro keys_append_lease) (auto simp: lease_key_def)
    then have "keys_ok db'" using claimed(6) by (simp add: keys_ok_def)
    moreover have "leases_of db' g = insert (cr_lease r) (leases_of db g)"
      using claimed(3,6) by (auto simp: leases_append)
    moreover have "rows_of db' g = rows_of db g" using claimed(6) by (simp add: rows_of_def)
    moreover have "cursor_of db' g = Some ?c'" using claimed(6) cur by (simp add: cursor_of_def)
    ultimately show ?thesis by auto
  next
    case failed
    with c k w show ?thesis by auto
  qed
qed

text \<open>Nothing is skipped: what the frontier passes is leased.\<close>

lemma fresh_claim_pending:
  assumes op: "fresh_claim rx db g schema limit dur snap xmin now tok = (res, db')" and l: "0 \<le> limit"
    and inv: "window_inv db g" and c: "cursor_of db g = Some c"
  obtains c' where "cursor_of db' g = Some c'" "cur_claimed c \<le> cur_claimed c'"
    "cur_committed c' = cur_committed c"
    "pending_ids db' g = pending_ids db g \<union> {cur_claimed c<..cur_claimed c'}"
proof -
  let ?c' = "advance_cursor c limit snap xmin"
  have cs: "cur_claimed c \<le> cur_settled_head c"
    using inv c by (auto simp: window_inv_def window_ok_def)
  note fwd = advance_cursor_forward [OF l cs, of snap xmin]
  have cg: "cur_group c = g" using c by (auto dest: cursor_of_SomeD)
  have cur: "cursor_of (db\<lparr>cursors := update_where (\<lambda>r. cur_group r = g) (\<lambda>_. ?c') (cursors db)\<rparr>) g
      = Some ?c'"
    using cursor_of_update [OF c, of "\<lambda>_. ?c'"] cg by simp
  show ?thesis
    using op c cs l
  proof (cases rule: fresh_claim_cases)
    case idle
    then show ?thesis
      by (intro that [of ?c']) (use cur in \<open>auto simp: pending_ids_def\<close>)
  next
    case (claimed r)
    have "leases_of db' g = insert (cr_lease r) (leases_of db g)"
      using claimed(3,6) by (auto simp: leases_append)
    moreover have "rows_of db' g = rows_of db g" using claimed(6) by (simp add: rows_of_def)
    moreover have "{i. in_range (cr_lease r) i} = {cur_claimed c<..cur_claimed ?c'}"
      using claimed(3) by (auto simp: in_range_def)
    ultimately have "pending_ids db' g = pending_ids db g \<union> {cur_claimed c<..cur_claimed ?c'}"
      by (auto simp: pending_ids_def)
    then show ?thesis
      using claimed fwd cur by (intro that [of ?c']) (auto simp: cursor_of_def)
  next
    case failed
    then show ?thesis by (intro that [of c]) (use c in auto)
  qed
qed

section \<open>Recording outcomes\<close>

definition written :: "int \<Rightarrow> duration \<Rightarrow> time \<Rightarrow> outcome list \<Rightarrow> exception_row list" where
  "written g backoff now ocs = List.map_filter (delivery_row g backoff now) ocs"

lemma delivery_row_simps:
  "delivery_row g backoff now oc = Some e \<Longrightarrow>
   ex_group e = g \<and> ex_message e = oc_message oc \<and> ex_token e = None"
  by (auto simp: delivery_row_def Let_def split: outcome_kind.splits)

lemma written_simps [simp]:
  "written g backoff now [] = []"
  "written g backoff now (oc # ocs) = (case delivery_row g backoff now oc of
     None \<Rightarrow> written g backoff now ocs | Some e \<Rightarrow> e # written g backoff now ocs)"
  by (simp_all add: written_def map_filter_def split: option.splits)

lemma writtenD:
  "e \<in> set (written g backoff now ocs) \<Longrightarrow>
   \<exists>oc \<in> set ocs. delivery_row g backoff now oc = Some e"
  by (induction ocs) (auto split: option.splits)

lemma record_outcome_Inr:
  "record_outcome g backoff mode now oc db = (Inr u, db') \<Longrightarrow>
   exception_queue db' = exception_queue db @ written g backoff now [oc]
   \<and> claim_leases db' = claim_leases db \<and> cursors db' = cursors db
   \<and> message_log db' = message_log db \<and> key_leases db' = key_leases db"
  by (auto simp: record_outcome_def insert_exceptions_def
      split: option.splits if_splits)

lemma record_outcomes_Inr:
  "record_outcomes g backoff mode now ocs db = (Inr n, db') \<Longrightarrow>
   exception_queue db' = exception_queue db @ written g backoff now ocs
   \<and> claim_leases db' = claim_leases db \<and> cursors db' = cursors db
   \<and> message_log db' = message_log db \<and> key_leases db' = key_leases db"
proof (induction ocs arbitrary: db n)
  case (Cons oc ocs)
  from Cons.prems obtain u db1 m where
    1: "record_outcome g backoff mode now oc db = (Inr u, db1)" and
    2: "record_outcomes g backoff mode now ocs db1 = (Inr m, db')"
    by (auto split: prod.splits sum.splits)
  from record_outcome_Inr [OF 1] Cons.IH [OF 2] show ?case
    by (simp split: option.splits)
qed simp

lemma record_outcomes_Inl:
  "record_outcomes g backoff mode now ocs db = (Inl e, db') \<Longrightarrow> db' = db"
  by (cases ocs) (auto split: prod.splits sum.splits)

lemma record_outcome_succeeds:
  assumes "distinct (map exception_key (exception_queue db @ written g backoff now [oc]))"
  shows "\<exists>db'. record_outcome g backoff mode now oc db = (Inr (), db')"
  using assms by (auto simp: record_outcome_def insert_exceptions_def split: option.splits)

lemma record_outcomes_succeed:
  "distinct (map exception_key (exception_queue db @ written g backoff now ocs)) \<Longrightarrow>
   \<exists>n db'. record_outcomes g backoff mode now ocs db = (Inr n, db')"
proof (induction ocs arbitrary: db)
  case (Cons oc ocs)
  have "distinct (map exception_key (exception_queue db @ written g backoff now [oc]))"
    using Cons.prems by (auto split: option.splits)
  then obtain db1 where 1: "record_outcome g backoff mode now oc db = (Inr (), db1)"
    using record_outcome_succeeds by blast
  have "distinct (map exception_key (exception_queue db1 @ written g backoff now ocs))"
    using record_outcome_Inr [OF 1] Cons.prems by (simp split: option.splits)
  from Cons.IH [OF this] obtain n db' where
    "record_outcomes g backoff mode now ocs db1 = (Inr n, db')" by blast
  with 1 show ?case by simp
qed simp

text \<open>
  What a worker may record under a lease: at most one row per message, all of them inside the
  part of the range it settles.
\<close>

definition outcomes_within :: "int \<Rightarrow> int \<Rightarrow> outcome list \<Rightarrow> bool" where
  "outcomes_within low high ocs \<longleftrightarrow>
     distinct (map oc_message ocs) \<and> (\<forall>oc \<in> set ocs. low < oc_message oc \<and> oc_message oc \<le> high)"

lemma written_within:
  "outcomes_within low high ocs \<Longrightarrow> e \<in> set (written g backoff now ocs) \<Longrightarrow>
   ex_group e = g \<and> low < ex_message e \<and> ex_message e \<le> high"
  by (fastforce simp: outcomes_within_def dest: writtenD delivery_row_simps)

lemma written_token: "e \<in> set (written g backoff now ocs) \<Longrightarrow> ex_token e = None"
  by (auto dest: writtenD delivery_row_simps)

lemma written_distinct:
  "distinct (map oc_message ocs) \<Longrightarrow> distinct (map exception_key (written g backoff now ocs))"
proof (induction ocs)
  case (Cons oc ocs)
  have notin: "exception_key e \<notin> exception_key ` set (written g backoff now ocs)"
    if "delivery_row g backoff now oc = Some e" for e
    using that Cons.prems by (fastforce simp: exception_key_def dest: writtenD delivery_row_simps)
  with Cons show ?case by (auto split: option.splits)
qed simp

text \<open>
  Under the window invariant the primary key of the exception queue cannot refuse rows inside a
  leased range: no exception row of the group lies in one.
\<close>

lemma rows_append:
  "(\<And>e. e \<in> set es \<Longrightarrow> ex_group e = g) \<Longrightarrow>
   rows_of (db\<lparr>exception_queue := exception_queue db @ es\<rparr>) g = rows_of db g \<union> set es"
  by (auto simp: rows_of_def)

lemma insert_within_lease:
  assumes k: "keys_ok db" and w: "window_ok c (leases_of db g) (rows_of db g)"
    and l: "l \<in> leases_of db g" and d: "distinct (map exception_key es)"
    and es: "\<And>e. e \<in> set es \<Longrightarrow> ex_group e = g \<and> in_range l (ex_message e)"
  shows "distinct (map exception_key (exception_queue db @ es))"
proof -
  have "exception_key x \<noteq> exception_key e" if "x \<in> set (exception_queue db)" "e \<in> set es" for x e
  proof
    assume eq: "exception_key x = exception_key e"
    with es [OF that(2)] that(1) have "x \<in> rows_of db g"
      by (auto simp: rows_of_def exception_key_def)
    with w l have "\<not> in_range l (ex_message x)" by (auto simp: window_ok_def)
    with eq es [OF that(2)] show False by (simp add: exception_key_def)
  qed
  then have "exception_key ` set (exception_queue db) \<inter> exception_key ` set es = {}" by blast
  with k d show ?thesis by (simp add: keys_ok_def)
qed

lemma keys_append_rows:
  "keys_ok db \<Longrightarrow> distinct (map exception_key (exception_queue db @ es)) \<Longrightarrow>
   (\<And>e. e \<in> set es \<Longrightarrow> ex_token e = None) \<Longrightarrow>
   keys_ok (db\<lparr>exception_queue := exception_queue db @ es\<rparr>)"
  by (auto simp: keys_ok_def)

lemma keys_delete_lease:
  "keys_ok db \<Longrightarrow> keys_ok (db\<lparr>claim_leases := delete_where p (claim_leases db)\<rparr>)"
  by (simp add: keys_ok_def distinct_map_delete_where)

lemma no_lease:
  "\<not> (\<exists>l \<in> leases_of db g. cl_token l = t) \<Longrightarrow>
   rows_matching (\<lambda>l. cl_group l = g \<and> cl_token l = t) (claim_leases db) = 0"
  by (auto simp: leases_of_def)

lemma some_lease:
  "l \<in> leases_of db g \<Longrightarrow> cl_token l = t \<Longrightarrow>
   rows_matching (\<lambda>l. cl_group l = g \<and> cl_token l = t) (claim_leases db) \<noteq> 0"
  by (auto simp: leases_of_def)

text \<open>Both commits: the lease changed, then the outcomes written behind it.\<close>

lemma record_behind:
  assumes k: "keys_ok db" and k1: "keys_ok db1" and c: "cursor_of db g = Some c"
    and w: "window_ok c (leases_of db g) (rows_of db g)" and l: "l \<in> leases_of db g"
    and out: "outcomes_within low high ocs" "cl_low l \<le> low" "high \<le> cl_high l"
    and db1: "exception_queue db1 = exception_queue db" "cursors db1 = cursors db"
      "message_log db1 = message_log db"
  obtains n db' where "record_outcomes g backoff mode now ocs db1 = (Inr n, db')"
    "keys_ok db'" "cursor_of db' g = Some c" "leases_of db' g = leases_of db1 g"
    "rows_of db' g = rows_of db g \<union> set (written g backoff now ocs)"
    "message_log db' = message_log db"
proof -
  let ?es = "written g backoff now ocs"
  have es: "ex_group e = g \<and> low < ex_message e \<and> ex_message e \<le> high" if "e \<in> set ?es" for e
    using written_within [OF out(1) that] .
  have d: "distinct (map exception_key (exception_queue db @ ?es))"
  proof (rule insert_within_lease [OF k w l])
    show "distinct (map exception_key ?es)"
      using out(1) by (intro written_distinct) (simp add: outcomes_within_def)
    show "ex_group e = g \<and> in_range l (ex_message e)" if "e \<in> set ?es" for e
      using es [OF that] out(2,3) by (simp add: in_range_def)
  qed
  then obtain n db' where rec: "record_outcomes g backoff mode now ocs db1 = (Inr n, db')"
    using record_outcomes_succeed [of db1 g backoff now ocs mode] by (auto simp: db1)
  note q = record_outcomes_Inr [OF rec]
  have "keys_ok db'" using q d k1 written_token by (auto simp: keys_ok_def db1)
  moreover have "rows_of db' g = rows_of db g \<union> set ?es"
    using q es by (auto simp: rows_of_def db1)
  moreover have "cursor_of db' g = Some c" using q c by (simp add: cursor_of_def db1)
  moreover have "leases_of db' g = leases_of db1 g" using q by (simp add: leases_of_def)
  ultimately show ?thesis using rec q by (intro that [of n db']) (simp_all add: db1)
qed

section \<open>Commit\<close>

lemma commit_range_stale:
  "\<not> (\<exists>l \<in> leases_of db g. cl_token l = t) \<Longrightarrow>
   commit_range db g t ocs backoff mode now = (Inl Err_Lease_Lost, db)"
  using no_lease [of db g t] by (simp add: commit_range_def)

lemma commit_range_spec:
  assumes inv: "window_inv db g" and c: "cursor_of db g = Some c" and l: "l \<in> leases_of db g"
    and out: "outcomes_within (cl_low l) (cl_high l) ocs"
  obtains n db' where "commit_range db g (cl_token l) ocs backoff mode now = (Inr n, db')"
    "keys_ok db'" "cursor_of db' g = Some c" "leases_of db' g = leases_of db g - {l}"
    "rows_of db' g = rows_of db g \<union> set (written g backoff now ocs)"
    "message_log db' = message_log db"
proof -
  have k: "keys_ok db" and w: "window_ok c (leases_of db g) (rows_of db g)"
    using inv c by (auto simp: window_inv_def)
  let ?db1 = "db\<lparr>claim_leases := delete_where
      (\<lambda>r. cl_group r = g \<and> cl_token r = cl_token l) (claim_leases db)\<rparr>"
  obtain n db' where r: "record_outcomes g backoff mode now ocs ?db1 = (Inr n, db')"
    "keys_ok db'" "cursor_of db' g = Some c" "leases_of db' g = leases_of ?db1 g"
    "rows_of db' g = rows_of db g \<union> set (written g backoff now ocs)"
    "message_log db' = message_log db"
    by (rule record_behind [OF k keys_delete_lease [OF k] c w l out order_refl order_refl])
      (simp_all, blast)
  show ?thesis
    using r some_lease [OF l refl] leases_of_delete [OF k l]
    by (intro that [of n db']) (simp_all add: commit_range_def)
qed

lemma commit_range_keeps:
  assumes op: "commit_range db g t ocs backoff mode now = (res, db')"
    and out: "\<And>l. l \<in> leases_of db g \<Longrightarrow> cl_token l = t \<Longrightarrow>
      outcomes_within (cl_low l) (cl_high l) ocs"
  shows "keeps db db' g"
proof (cases "\<exists>l \<in> leases_of db g. cl_token l = t")
  case False
  with op commit_range_stale show ?thesis by simp
next
  case True
  then obtain l where l: "l \<in> leases_of db g" "cl_token l = t" by blast
  show ?thesis
  proof (rule keepsI)
    fix c
    assume c: "cursor_of db g = Some c" and k: "keys_ok db"
      and w: "window_ok c (leases_of db g) (rows_of db g)"
    have inv: "window_inv db g" by (rule window_invI [OF c k w])
    obtain n db2 where s: "commit_range db g (cl_token l) ocs backoff mode now = (Inr n, db2)"
      "keys_ok db2" "cursor_of db2 g = Some c" "leases_of db2 g = leases_of db g - {l}"
      "rows_of db2 g = rows_of db g \<union> set (written g backoff now ocs)"
      "message_log db2 = message_log db"
      by (rule commit_range_spec [OF inv c l(1) out [OF l]]) blast
    have eq: "db' = db2" using s(1) op l(2) by simp
    have R: "in_range l (ex_message e)" if "e \<in> set (written g backoff now ocs)" for e
      using written_within [OF out [OF l] that] by (simp add: in_range_def)
    show "\<exists>c'. cursor_of db' g = Some c' \<and> keys_ok db'
        \<and> window_ok c' (leases_of db' g) (rows_of db' g)
        \<and> (\<forall>t. safe c (leases_of db g) (rows_of db g) t \<longrightarrow>
              safe c' (leases_of db' g) (rows_of db' g) t)"
      using window_freed [OF w l(1) R] safe_freed [OF _ l(1) R] s by (auto simp: eq)
  qed
qed

section \<open>Partial commit\<close>

lemma partial_commit_stale:
  "\<not> (\<exists>l \<in> leases_of db g. cl_token l = t) \<Longrightarrow>
   partial_commit db g t last_processed ocs backoff mode now = (Inl Err_Lease_Lost, db)"
  using no_lease [of db g t] by (simp add: partial_commit_def)

lemma partial_commit_spec:
  assumes inv: "window_inv db g" and c: "cursor_of db g = Some c" and l: "l \<in> leases_of db g"
    and p: "cl_low l \<le> p" "p \<le> cl_high l" and out: "outcomes_within (cl_low l) p ocs"
  obtains n db' where "partial_commit db g (cl_token l) p ocs backoff mode now = (Inr n, db')"
    "keys_ok db'" "cursor_of db' g = Some c"
    "leases_of db' g = narrowed (leases_of db g) l (l\<lparr>cl_low := p\<rparr>)"
    "rows_of db' g = rows_of db g \<union> set (written g backoff now ocs)"
    "message_log db' = message_log db"
proof -
  have k: "keys_ok db" and w: "window_ok c (leases_of db g) (rows_of db g)"
    using inv c by (auto simp: window_inv_def)
  have lg: "cl_group l = g" using l by (simp add: leases_of_def)
  let ?f = "\<lambda>l. l\<lparr>cl_low := p\<rparr>"
  let ?db1 = "db\<lparr>claim_leases := update_where
      (\<lambda>r. cl_group r = g \<and> cl_token r = cl_token l) ?f (claim_leases db)\<rparr>"
  have k1: "keys_ok ?db1" by (rule keys_update_lease [OF k l]) (simp_all add: lg)
  obtain n db' where r: "record_outcomes g backoff mode now ocs ?db1 = (Inr n, db')"
    "keys_ok db'" "cursor_of db' g = Some c" "leases_of db' g = leases_of ?db1 g"
    "rows_of db' g = rows_of db g \<union> set (written g backoff now ocs)"
    "message_log db' = message_log db"
    by (rule record_behind [OF k k1 c w l out order_refl p(2)]) (simp_all, blast)
  show ?thesis
    using r some_lease [OF l refl] leases_of_update [OF k l, of ?f] lg
    by (intro that [of n db']) (simp_all add: partial_commit_def)
qed

lemma partial_commit_keeps:
  assumes op: "partial_commit db g t p ocs backoff mode now = (res, db')"
    and out: "\<And>l. l \<in> leases_of db g \<Longrightarrow> cl_token l = t \<Longrightarrow>
      cl_low l \<le> p \<and> p \<le> cl_high l \<and> outcomes_within (cl_low l) p ocs"
  shows "keeps db db' g"
proof (cases "\<exists>l \<in> leases_of db g. cl_token l = t")
  case False
  with op partial_commit_stale show ?thesis by simp
next
  case True
  then obtain l where l: "l \<in> leases_of db g" "cl_token l = t" by blast
  note o = out [OF l]
  show ?thesis
  proof (rule keepsI)
    fix c
    assume c: "cursor_of db g = Some c" and k: "keys_ok db"
      and w: "window_ok c (leases_of db g) (rows_of db g)"
    have inv: "window_inv db g" by (rule window_invI [OF c k w])
    obtain n db2 where s: "partial_commit db g (cl_token l) p ocs backoff mode now = (Inr n, db2)"
      "keys_ok db2" "cursor_of db2 g = Some c"
      "leases_of db2 g = narrowed (leases_of db g) l (l\<lparr>cl_low := p\<rparr>)"
      "rows_of db2 g = rows_of db g \<union> set (written g backoff now ocs)"
      "message_log db2 = message_log db"
      by (rule partial_commit_spec [OF inv c l(1)]) (use o in auto)
    have eq: "db' = db2" using s(1) op l(2) by simp
    have R: "cl_low l < ex_message e \<and> ex_message e \<le> p"
      if "e \<in> set (written g backoff now ocs)" for e
      using written_within [OF _ that] o by auto
    have "window_ok c (narrowed (leases_of db g) l (l\<lparr>cl_low := p\<rparr>))
        (rows_of db g \<union> set (written g backoff now ocs))"
      using o R by (intro window_narrowed [OF w l(1)]) auto
    moreover have "safe c (narrowed (leases_of db g) l (l\<lparr>cl_low := p\<rparr>))
        (rows_of db g \<union> set (written g backoff now ocs)) t"
      if "safe c (leases_of db g) (rows_of db g) t" for t
      using o R by (intro safe_narrowed [OF that l(1)]) auto
    ultimately show "\<exists>c'. cursor_of db' g = Some c' \<and> keys_ok db'
        \<and> window_ok c' (leases_of db' g) (rows_of db' g)
        \<and> (\<forall>t. safe c (leases_of db g) (rows_of db g) t \<longrightarrow>
              safe c' (leases_of db' g) (rows_of db' g) t)"
      using s by (auto simp: eq)
  qed
qed

section \<open>Leases that only change hands\<close>

lemma window_same_range:
  assumes "window_ok c L E" "l \<in> L" "cl_low l' = cl_low l" "cl_high l' = cl_high l"
  shows "window_ok c (narrowed L l l') E"
proof -
  have "cl_low l \<le> cl_high l" using assms(1,2) by (simp add: window_ok_def)
  then have "window_ok c (narrowed L l l') (E \<union> {})"
    by (intro window_narrowed [OF assms(1,2)]) (simp_all add: assms(3,4))
  then show ?thesis by simp
qed

lemma safe_same_range:
  assumes "safe c L E t" "l \<in> L" "cl_low l' = cl_low l"
  shows "safe c (narrowed L l l') E t"
proof -
  have "safe c (narrowed L l l') (E \<union> {}) t"
    by (intro safe_narrowed [OF assms(1,2)]) (simp_all add: assms(3))
  then show ?thesis by simp
qed

lemma pending_same_range:
  assumes "l \<in> leases_of db g" "cl_low l' = cl_low l" "cl_high l' = cl_high l"
    "leases_of db' g = narrowed (leases_of db g) l l'" "rows_of db' g = rows_of db g"
  shows "pending_ids db' g = pending_ids db g"
proof -
  have "(\<exists>x \<in> narrowed (leases_of db g) l l'. in_range x i) \<longleftrightarrow> (\<exists>x \<in> leases_of db g. in_range x i)"
    for i
    using assms(1-3) by (auto simp: narrowed_def in_range_def)
  then show ?thesis by (simp add: pending_ids_def assms(4,5))
qed

lemma rotate_keeps:
  assumes l: "l \<in> leases_of db g" and f: "cl_group (f l) = g" "cl_low (f l) = cl_low l"
    "cl_high (f l) = cl_high l"
    and fresh: "\<not> (\<exists>r \<in> set (claim_leases db). lease_key r = (g, cl_token (f l)))"
    and db': "db' = db\<lparr>claim_leases := update_where
      (\<lambda>r. cl_group r = g \<and> cl_token r = cl_token l) f (claim_leases db)\<rparr>"
  shows "keeps db db' g"
    and "keys_ok db \<Longrightarrow> leases_of db' g = narrowed (leases_of db g) l (f l)"
    and "keys_ok db \<Longrightarrow> pending_ids db' g = pending_ids db g"
    and "keys_ok db \<Longrightarrow> keys_ok db'"
proof -
  show lf: "leases_of db' g = narrowed (leases_of db g) l (f l)" if "keys_ok db"
    unfolding db' by (rule leases_of_update [where f = f, OF that l f(1)])
  show "pending_ids db' g = pending_ids db g" if "keys_ok db"
    by (rule pending_same_range [OF l f(2,3) lf [OF that]]) (simp add: db')
  show kf: "keys_ok db'" if "keys_ok db"
    unfolding db' by (rule keys_update_lease [where f = f, OF that l f(1)]) (use fresh in blast)
  show "keeps db db' g"
  proof (rule keepsI)
    fix c
    assume c: "cursor_of db g = Some c" and k: "keys_ok db"
      and w: "window_ok c (leases_of db g) (rows_of db g)"
    show "\<exists>c'. cursor_of db' g = Some c' \<and> keys_ok db'
        \<and> window_ok c' (leases_of db' g) (rows_of db' g)
        \<and> (\<forall>t. safe c (leases_of db g) (rows_of db g) t \<longrightarrow>
              safe c' (leases_of db' g) (rows_of db' g) t)"
      using c kf [OF k] window_same_range [OF w l f(2,3)] safe_same_range [OF _ l f(2)]
      by (auto simp: lf [OF k]) (auto simp: db')
  qed
qed

lemma force_reclaim_stale:
  "\<not> (\<exists>l \<in> leases_of db g. cl_token l = t) \<Longrightarrow>
   force_reclaim_range db g t now tok = (Inl Err_Lease_Lost, db)"
  using no_lease [of db g t] by (simp add: force_reclaim_range_def)

lemma force_reclaim_keeps:
  assumes op: "force_reclaim_range db g t now tok = (res, db')"
  shows "keeps db db' g" and "keys_ok db \<Longrightarrow> pending_ids db' g = pending_ids db g"
proof -
  have "keeps db db' g \<and> (keys_ok db \<longrightarrow> pending_ids db' g = pending_ids db g)"
  proof (cases "db' = db")
    case False
    with op have some: "\<exists>l \<in> leases_of db g. cl_token l = t"
      using force_reclaim_stale by fastforce
    then obtain l where l: "l \<in> leases_of db g" "cl_token l = t" by blast
    let ?f = "\<lambda>l. l\<lparr>cl_expires := now, cl_reclaims := max (cl_reclaims l - 1) (- 1),
        cl_token := tok\<rparr>"
    have fresh: "\<not> (\<exists>r \<in> set (claim_leases db). lease_key r = (g, tok))"
      and db': "db' = db\<lparr>claim_leases := update_where
        (\<lambda>r. cl_group r = g \<and> cl_token r = cl_token l) ?f (claim_leases db)\<rparr>"
      using op False l(2) by (auto simp: force_reclaim_range_def split: if_splits)
    have g: "cl_group (?f l) = g" using l(1) by (simp add: leases_of_def)
    show ?thesis
      using rotate_keeps [OF l(1) g _ _ _ db'] fresh by simp
  qed simp
  then show "keeps db db' g" and "keys_ok db \<Longrightarrow> pending_ids db' g = pending_ids db g" by auto
qed

section \<open>Reclaim and quarantine\<close>

definition quarantined_rows :: "stream_db \<Rightarrow> int \<Rightarrow> claim_lease_row \<Rightarrow> time \<Rightarrow> exception_row list" where
  "quarantined_rows db g l now =
     map (\<lambda>m. new_exception g (msg_id m) Ready (msg_key m)
            (requested_concurrency (msg_options m)) 0 now (Some quarantine_error) now)
       (filter (\<lambda>m. in_range l (msg_id m)) (message_log db))"

lemma quarantined_rows_range:
  "e \<in> set (quarantined_rows db g l now) \<Longrightarrow>
   ex_group e = g \<and> in_range l (ex_message e) \<and> ex_status e = Ready \<and> ex_token e = None"
  by (auto simp: quarantined_rows_def)

lemma quarantined_rows_distinct:
  "distinct (map msg_id (message_log db)) \<Longrightarrow>
   distinct (map exception_key (quarantined_rows db g l now))"
proof -
  assume d: "distinct (map msg_id (message_log db))"
  have "map exception_key (quarantined_rows db g l now)
      = map (\<lambda>i. (g, i)) (map msg_id (filter (\<lambda>m. in_range l (msg_id m)) (message_log db)))"
    by (simp add: quarantined_rows_def comp_def)
  moreover have "distinct (map (\<lambda>i. (g, i)) (map msg_id (filter (\<lambda>m. in_range l (msg_id m)) (message_log db))))"
    using distinct_map_filter [OF d] by (subst distinct_map) (auto simp: inj_on_def)
  ultimately show ?thesis by (simp only:)
qed

lemma quarantine_eq:
  "quarantine db g l mode now =
     (if distinct (map exception_key (exception_queue db @ quarantined_rows db g l now))
      then (Inr (), db\<lparr>exception_queue := exception_queue db @ quarantined_rows db g l now,
              delivery_log := (if mode = Mode_Off then delivery_log db
                else delivery_log db @ map (\<lambda>m. log_entry g (msg_id m) 0 Log_Failure quarantine_error now)
                  (filter (\<lambda>m. in_range l (msg_id m)) (message_log db))),
              claim_leases := delete_where (\<lambda>r. cl_group r = g \<and> cl_token r = cl_token l)
                (claim_leases db)\<rparr>)
      else (Inl Err_Unique_Violation, db))"
  unfolding quarantine_def Let_def in_range_def [symmetric] quarantined_rows_def [symmetric]
    insert_exceptions_def
  by (simp del: map_append distinct_append)

lemma quarantine_spec:
  assumes inv: "window_inv db g" and c: "cursor_of db g = Some c" and l: "l \<in> leases_of db g"
  obtains db' where "quarantine db g l mode now = (Inr (), db')" "keys_ok db'"
    "cursor_of db' g = Some c" "leases_of db' g = leases_of db g - {l}"
    "rows_of db' g = rows_of db g \<union> set (quarantined_rows db g l now)"
    "message_log db' = message_log db"
proof -
  have k: "keys_ok db" and w: "window_ok c (leases_of db g) (rows_of db g)"
    using inv c by (auto simp: window_inv_def)
  let ?es = "quarantined_rows db g l now"
  have d: "distinct (map exception_key (exception_queue db @ ?es))"
  proof (rule insert_within_lease [OF k w l])
    show "distinct (map exception_key ?es)"
      using k by (intro quarantined_rows_distinct) (simp add: keys_ok_def)
    show "ex_group e = g \<and> in_range l (ex_message e)" if "e \<in> set ?es" for e
      using quarantined_rows_range [OF that] by simp
  qed
  let ?q = "db\<lparr>exception_queue := exception_queue db @ ?es\<rparr>"
  let ?l = "db\<lparr>claim_leases := delete_where
      (\<lambda>r. cl_group r = g \<and> cl_token r = cl_token l) (claim_leases db)\<rparr>"
  define db' where "db' = snd (quarantine db g l mode now)"
  have eq: "quarantine db g l mode now = (Inr (), db')"
    using d by (simp add: db'_def quarantine_eq)
  have parts: "exception_queue db' = exception_queue ?q" "claim_leases db' = claim_leases ?l"
    "cursors db' = cursors db" "message_log db' = message_log db"
    using d by (simp_all add: db'_def quarantine_eq)
  have "keys_ok db'"
    using keys_append_rows [OF k d] quarantined_rows_range keys_delete_lease [OF k] parts
    by (auto simp: keys_ok_def)
  moreover have "leases_of db' g = leases_of db g - {l}"
    using leases_of_delete [OF k l] parts(2) by (simp add: leases_of_def)
  moreover have "rows_of db' g = rows_of db g \<union> set ?es"
    using rows_append [of ?es g db] quarantined_rows_range parts(1) by (simp add: rows_of_def)
  moreover have "cursor_of db' g = Some c" using c parts(3) by (simp add: cursor_of_def)
  ultimately show ?thesis using eq parts(4) by (intro that [of db']) auto
qed

lemma quarantine_keeps:
  assumes op: "quarantine db g l mode now = (res, db')" and l: "l \<in> leases_of db g"
  shows "keeps db db' g"
proof (rule keepsI)
  fix c
  assume c: "cursor_of db g = Some c" and k: "keys_ok db"
    and w: "window_ok c (leases_of db g) (rows_of db g)"
  obtain db2 where s: "quarantine db g l mode now = (Inr (), db2)" "keys_ok db2"
    "cursor_of db2 g = Some c" "leases_of db2 g = leases_of db g - {l}"
    "rows_of db2 g = rows_of db g \<union> set (quarantined_rows db g l now)"
    "message_log db2 = message_log db"
    by (rule quarantine_spec [OF window_invI [OF c k w] c l]) blast
  have eq: "db' = db2" using s(1) op by simp
  have R: "in_range l (ex_message e)" if "e \<in> set (quarantined_rows db g l now)" for e
    using quarantined_rows_range [OF that] by simp
  show "\<exists>c'. cursor_of db' g = Some c' \<and> keys_ok db'
        \<and> window_ok c' (leases_of db' g) (rows_of db' g)
        \<and> (\<forall>t. safe c (leases_of db g) (rows_of db g) t \<longrightarrow>
              safe c' (leases_of db' g) (rows_of db' g) t)"
    using window_freed [OF w l R] safe_freed [OF _ l R] s by (auto simp: eq)
qed

lemma keeps_trans: "keeps db db1 g \<Longrightarrow> keeps db1 db2 g \<Longrightarrow> keeps db db2 g"
  by (simp add: keeps_def)

text \<open>What a reclaim transaction can do.\<close>

lemma reclaim_cases:
  assumes "reclaim_range rx db g schema max_reclaims dur mode picked now tok = (res, db')"
  obtains (unchanged) "res = Inr None" "db' = db"
  | (failed) e where "res = Inl e" "db' = db"
  | (leased) l db1 where "l \<in> leases_of db g" "picked = Some (cl_token l)" "cl_expires l < now"
      "\<not> (\<exists>r \<in> set (claim_leases db). lease_key r = (g, tok))"
      "db1 = db\<lparr>claim_leases := update_where (\<lambda>r. cl_group r = g \<and> cl_token r = cl_token l)
                (\<lambda>_. reclaimed l dur now tok) (claim_leases db)\<rparr>"
      "cl_reclaims l + 1 < max_reclaims" "db' = db1"
      "res = Inr (Some \<lparr>cr_lease = reclaimed l dur now tok,
         cr_messages = read_messages rx db g schema (cl_low l) (cl_high l), cr_quarantined = False\<rparr>)"
  | (poisoned) l db1 where "l \<in> leases_of db g" "picked = Some (cl_token l)" "cl_expires l < now"
      "\<not> (\<exists>r \<in> set (claim_leases db). lease_key r = (g, tok))"
      "db1 = db\<lparr>claim_leases := update_where (\<lambda>r. cl_group r = g \<and> cl_token r = cl_token l)
                (\<lambda>_. reclaimed l dur now tok) (claim_leases db)\<rparr>"
      "max_reclaims \<le> cl_reclaims l + 1"
      "quarantine db1 g (reclaimed l dur now tok) mode now = (Inr (), db')"
      "res = Inr (Some \<lparr>cr_lease = reclaimed l dur now tok, cr_messages = [], cr_quarantined = True\<rparr>)"
proof (cases picked)
  case None
  with assms show ?thesis by (intro unchanged) (simp_all add: reclaim_range_def)
next
  case (Some t)
  let ?p = "\<lambda>l. cl_group l = g \<and> cl_token l = t \<and> cl_expires l < now"
  show ?thesis
  proof (cases "find ?p (claim_leases db)")
    case None
    with assms Some show ?thesis by (intro unchanged) (simp_all add: reclaim_range_def)
  next
    case found: (Some l)
    from find_SomeD [OF found] have l: "l \<in> leases_of db g" "cl_token l = t" "cl_expires l < now"
      by (auto simp: leases_of_def)
    define db1 where "db1 = db\<lparr>claim_leases := update_where
      (\<lambda>r. cl_group r = g \<and> cl_token r = cl_token l) (\<lambda>_. reclaimed l dur now tok) (claim_leases db)\<rparr>"
    have key: "(\<lambda>r. lease_key r = (g, t)) = (\<lambda>r. cl_group r = g \<and> cl_token r = cl_token l)"
      by (simp add: lease_key_def l(2))
    have reads: "read_messages rx db1 = read_messages rx db" by (simp add: db1_def)
    have body: "(res, db') =
       (if \<exists>l' \<in> set (claim_leases db). lease_key l' = (g, tok)
        then (Inl Err_Unique_Violation, db)
        else if max_reclaims \<le> cl_reclaims l + 1
        then (case quarantine db1 g (reclaimed l dur now tok) mode now of
            (Inl e, _) \<Rightarrow> (Inl e, db)
          | (Inr _, db2) \<Rightarrow> (Inr (Some \<lparr>cr_lease = reclaimed l dur now tok, cr_messages = [],
                              cr_quarantined = True\<rparr>), db2))
        else (Inr (Some \<lparr>cr_lease = reclaimed l dur now tok,
               cr_messages = read_messages rx db1 g schema (cl_low l) (cl_high l),
               cr_quarantined = False\<rparr>), db1))"
      using assms [symmetric]
      unfolding reclaim_range_def Some option.case found Let_def key db1_def
      by (simp only: reclaimed_simps)
    show ?thesis
    proof (cases "\<exists>l' \<in> set (claim_leases db). lease_key l' = (g, tok)")
      case True
      with body show ?thesis by (intro failed [of Err_Unique_Violation]) simp_all
    next
      case fresh: False
      show ?thesis
      proof (cases "max_reclaims \<le> cl_reclaims l + 1")
        case False
        with body fresh show ?thesis
          by (intro leased [OF l(1) _ l(3) fresh db1_def]) (simp_all add: Some l(2) reads)
      next
        case poison: True
        show ?thesis
        proof (cases "quarantine db1 g (reclaimed l dur now tok) mode now")
          case (Pair q db2)
          show ?thesis
          proof (cases q)
            case (Inl e)
            with body fresh poison Pair show ?thesis by (intro failed [of e]) simp_all
          next
            case (Inr u)
            with body fresh poison Pair show ?thesis
              by (intro poisoned [OF l(1) _ l(3) fresh db1_def poison]) (simp_all add: Some l(2))
          qed
        qed
      qed
    qed
  qed
qed

lemma reclaim_rotates:
  assumes "l \<in> leases_of db g" "\<not> (\<exists>r \<in> set (claim_leases db). lease_key r = (g, tok))"
    "db1 = db\<lparr>claim_leases := update_where (\<lambda>r. cl_group r = g \<and> cl_token r = cl_token l)
                (\<lambda>_. reclaimed l dur now tok) (claim_leases db)\<rparr>"
  shows "keeps db db1 g" "keys_ok db \<Longrightarrow> pending_ids db1 g = pending_ids db g"
    "keys_ok db \<Longrightarrow> reclaimed l dur now tok \<in> leases_of db1 g"
    "keys_ok db \<Longrightarrow> leases_of db1 g = narrowed (leases_of db g) l (reclaimed l dur now tok)"
proof -
  have f: "cl_group (reclaimed l dur now tok) = g" "cl_low (reclaimed l dur now tok) = cl_low l"
    "cl_high (reclaimed l dur now tok) = cl_high l" "cl_token (reclaimed l dur now tok) = tok"
    using assms(1) by (simp_all add: reclaimed_def leases_of_def)
  note r = rotate_keeps [where f = "\<lambda>_. reclaimed l dur now tok", OF assms(1) f(1-3) _ assms(3)]
  show "keeps db db1 g" using r(1) assms(2) by (simp add: f(4))
  show "keys_ok db \<Longrightarrow> pending_ids db1 g = pending_ids db g" using r(3) assms(2) by (simp add: f(4))
  show n: "keys_ok db \<Longrightarrow> leases_of db1 g = narrowed (leases_of db g) l (reclaimed l dur now tok)"
    using r(2) assms(2) by (simp add: f(4))
  show "keys_ok db \<Longrightarrow> reclaimed l dur now tok \<in> leases_of db1 g"
    using n by (simp add: narrowed_def)
qed

lemma reclaim_keeps:
  assumes "reclaim_range rx db g schema max_reclaims dur mode picked now tok = (res, db')"
  shows "keeps db db' g"
  using assms
proof (cases rule: reclaim_cases)
  case (leased l db1)
  with reclaim_rotates(1) [OF leased(1,4,5)] show ?thesis by simp
next
  case (poisoned l db1)
  show ?thesis
  proof (cases "keys_ok db")
    case True
    from quarantine_keeps [OF poisoned(7) reclaim_rotates(3) [OF poisoned(1,4,5) True]]
      reclaim_rotates(1) [OF poisoned(1,4,5)]
    show ?thesis by (blast intro: keeps_trans)
  next
    case False
    then show ?thesis by (simp add: keeps_def window_inv_def)
  qed
qed simp_all

section \<open>The exception window\<close>

lemma exceptions_keep:
  assumes "cursor_of db' g = cursor_of db g" "leases_of db' g = leases_of db g"
    "keys_ok db \<Longrightarrow> keys_ok db'" "keys_ok db \<Longrightarrow> narrows (rows_of db g) (rows_of db' g)"
  shows "keeps db db' g"
  using assms window_narrows safe_narrows by (intro keepsI) (metis (no_types, lifting))

text \<open>An update that keeps the identity of a row and only touches rows that are open.\<close>

definition touches_open :: "(exception_row \<Rightarrow> bool) \<Rightarrow> (exception_row \<Rightarrow> exception_row) \<Rightarrow> stream_db \<Rightarrow> bool" where
  "touches_open p f db \<longleftrightarrow> (\<forall>e \<in> set (exception_queue db). p e \<longrightarrow>
     open_status (ex_status e) \<and> exception_key (f e) = exception_key e
     \<and> (ex_token (f e) \<noteq> None \<longrightarrow> ex_status (f e) = Inflight))"

lemma update_rows_keys:
  assumes "keys_ok db" "touches_open p f db"
  shows "keys_ok (db\<lparr>exception_queue := update_where p f (exception_queue db)\<rparr>)"
proof -
  have "map exception_key (update_where p f (exception_queue db)) = map exception_key (exception_queue db)"
    using assms(2) by (intro map_update_where) (simp add: touches_open_def)
  with assms show ?thesis
    by (auto simp: keys_ok_def touches_open_def set_update_where)
qed

lemma update_rows_narrows:
  assumes "touches_open p f db"
  shows "narrows (rows_of db g) (rows_of (db\<lparr>exception_queue := update_where p f (exception_queue db)\<rparr>) g)"
  using assms
  by (fastforce simp: narrows_def rows_of_def set_update_where touches_open_def exception_key_def)

lemma update_rows_pending:
  assumes "touches_open p f db"
    "\<And>e. e \<in> set (exception_queue db) \<Longrightarrow> p e \<Longrightarrow> open_status (ex_status (f e))"
  shows "pending_ids db g \<subseteq> pending_ids (db\<lparr>exception_queue := update_where p f (exception_queue db)\<rparr>) g"
proof -
  have "\<exists>e'. ex_message e = ex_message e' \<and> e' \<in> rows_of
      (db\<lparr>exception_queue := update_where p f (exception_queue db)\<rparr>) g \<and> open_status (ex_status e')"
    if e: "e \<in> rows_of db g" "open_status (ex_status e)" for e
  proof (cases "p e")
    case True
    with e assms show ?thesis
      by (intro exI [of _ "f e"])
        (auto simp: rows_of_def set_update_where touches_open_def exception_key_def)
  next
    case False
    with e show ?thesis by (intro exI [of _ e]) (auto simp: rows_of_def set_update_where)
  qed
  then show ?thesis by (auto simp: pending_ids_def)
qed

lemma of_log_frame [simp]:
  "pending_ids (db\<lparr>delivery_log := z\<rparr>) g = pending_ids db g"
  "pending_ids (db\<lparr>key_leases := k\<rparr>) g = pending_ids db g"
  by (simp_all add: pending_ids_def)

text \<open>Rows held by a token are in flight, so the token-guarded updates touch open rows only.\<close>

lemma claimed_row_open:
  "keys_ok db \<Longrightarrow> e \<in> set (exception_queue db) \<Longrightarrow> claimed_row x e \<Longrightarrow> ex_status e = Inflight"
  by (auto simp: keys_ok_def claimed_row_def holds_row_def)

lemma release_touches_open:
  assumes "keys_ok db" "\<And>e. exception_key (f e) = exception_key e" "\<And>e. ex_token (f e) = None"
  shows "touches_open (claimed_row x) f db"
  using assms claimed_row_open by (auto simp: touches_open_def open_status_def)

definition only_rows :: "stream_db \<Rightarrow> stream_db \<Rightarrow> bool" where
  "only_rows db db' \<longleftrightarrow> cursors db' = cursors db \<and> claim_leases db' = claim_leases db
     \<and> message_log db' = message_log db"

lemma release_key_frame [simp]:
  "exception_queue (snd (release_key db kc)) = exception_queue db"
  "only_rows db (snd (release_key db kc))"
  by (simp_all add: release_key_def delete_key_lease_def Let_def only_rows_def split: option.splits)

lemma update_claimed_spec:
  assumes op: "record_and_release kco (update_claimed db x f entry) = (res, db')"
  shows "exception_queue db' = update_where (claimed_row x) f (exception_queue db)"
    "only_rows db db'"
    "res = (if \<exists>e \<in> set (exception_queue db). claimed_row x e then Inr () else Inl Err_Lease_Lost)"
proof -
  let ?db1 = "snd (update_claimed db x f entry)"
  have db': "db' = (case kco of None \<Rightarrow> ?db1 | Some kc \<Rightarrow> snd (release_key ?db1 kc))"
    and r: "res = (if fst (update_claimed db x f entry) = 0 then Inl Err_Lease_Lost else Inr ())"
    using op by (auto simp: record_and_release_def case_prod_beta)
  have 1: "exception_queue ?db1 = update_where (claimed_row x) f (exception_queue db)"
    "only_rows db ?db1" by (simp_all add: update_claimed_def only_rows_def Let_def)
  show "exception_queue db' = update_where (claimed_row x) f (exception_queue db)"
    using 1 by (auto simp: db' split: option.splits)
  show "only_rows db db'"
    using 1(2) release_key_frame(2) [of ?db1] by (auto simp: db' only_rows_def split: option.splits)
  show "res = (if \<exists>e \<in> set (exception_queue db). claimed_row x e then Inr () else Inl Err_Lease_Lost)"
    by (auto simp: r update_claimed_def Let_def filter_empty_conv)
qed

lemma only_rowsD:
  assumes "only_rows db db'"
  shows "cursor_of db' g = cursor_of db g" "leases_of db' g = leases_of db g"
  using assms by (simp_all add: only_rows_def cursor_of_def leases_of_def)

lemma same_queue:
  assumes "only_rows db db'" "exception_queue db' = q"
  shows "keys_ok db' = keys_ok (db\<lparr>exception_queue := q\<rparr>)"
    "rows_of db' g = rows_of (db\<lparr>exception_queue := q\<rparr>) g"
    "pending_ids db' g = pending_ids (db\<lparr>exception_queue := q\<rparr>) g"
  using assms by (simp_all add: only_rows_def keys_ok_def rows_of_def pending_ids_def leases_of_def)

lemma rows_update_keeps:
  assumes "only_rows db db'" "exception_queue db' = update_where p f (exception_queue db)"
    "keys_ok db \<Longrightarrow> touches_open p f db"
  shows "keeps db db' g"
  using assms update_rows_keys update_rows_narrows
  by (intro exceptions_keep) (simp_all add: only_rowsD(1,2) same_queue)

lemma rows_update_pending:
  assumes "only_rows db db'" "exception_queue db' = update_where p f (exception_queue db)"
    "touches_open p f db"
    "\<And>e. e \<in> set (exception_queue db) \<Longrightarrow> p e \<Longrightarrow> open_status (ex_status (f e))"
  shows "pending_ids db g \<subseteq> pending_ids db' g"
  using update_rows_pending [OF assms(3,4)] by (simp add: same_queue(3) [OF assms(1,2)])

lemma inflight_open [simp]: "open_status Inflight" "open_status Ready" "open_status Deferred"
  "\<not> open_status Dead" "\<not> open_status Superseded" "\<not> open_status Done"
  "\<not> open_status Processing"
  by (simp_all add: open_status_def)

lemma record_failure_keeps:
  assumes "record_failure db policy x err mode kco now = (res, db')"
  shows "keeps db db' g" "keys_ok db \<Longrightarrow> pending_ids db g \<subseteq> pending_ids db' g"
proof -
  note u = update_claimed_spec [OF assms [unfolded record_failure_def]]
  have t: "touches_open (claimed_row x) (\<lambda>e. (release_row Ready now e)\<lparr>ex_last_error := Some err,
      ex_run_after := now + calculate_delay policy (xc_attempts x - xc_delays x - 1)\<rparr>) db"
    if "keys_ok db" using that
    by (rule release_touches_open) (simp_all add: release_row_def exception_key_def)
  show "keeps db db' g" by (rule rows_update_keeps [OF u(2,1) t])
  show "pending_ids db g \<subseteq> pending_ids db' g" if "keys_ok db"
    by (rule rows_update_pending [OF u(2,1) t [OF that]]) (simp add: release_row_def)
qed

lemma record_delayed_keeps:
  assumes "record_delayed db delay x err mode kco now = (res, db')"
  shows "keeps db db' g" "keys_ok db \<Longrightarrow> pending_ids db g \<subseteq> pending_ids db' g"
proof -
  note u = update_claimed_spec [OF assms [unfolded record_delayed_def]]
  have t: "touches_open (claimed_row x) (\<lambda>e. (release_row Ready now e)\<lparr>ex_delays := ex_delays e + 1,
      ex_last_error := Some err, ex_run_after := now + delay\<rparr>) db"
    if "keys_ok db" using that
    by (rule release_touches_open) (simp_all add: release_row_def exception_key_def)
  show "keeps db db' g" by (rule rows_update_keeps [OF u(2,1) t])
  show "pending_ids db g \<subseteq> pending_ids db' g" if "keys_ok db"
    by (rule rows_update_pending [OF u(2,1) t [OF that]]) (simp add: release_row_def)
qed

lemma record_deferred_keeps:
  assumes "record_deferred db x policy mode now = (res, db')"
  shows "keeps db db' g" "keys_ok db \<Longrightarrow> pending_ids db g \<subseteq> pending_ids db' g"
proof -
  note u = update_claimed_spec [OF assms [unfolded record_deferred_def]]
  have t: "touches_open (claimed_row x) (\<lambda>e. (release_row Deferred now e)\<lparr>ex_concurrency := policy,
      ex_attempts := ex_attempts e - 1\<rparr>) db"
    if "keys_ok db" using that
    by (rule release_touches_open) (simp_all add: release_row_def exception_key_def)
  show "keeps db db' g" by (rule rows_update_keeps [OF u(2,1) t])
  show "pending_ids db g \<subseteq> pending_ids db' g" if "keys_ok db"
    by (rule rows_update_pending [OF u(2,1) t [OF that]]) (simp add: release_row_def)
qed

lemma record_terminal_keeps:
  assumes "record_terminal db x err mode kco now = (res, db')"
  shows "keeps db db' g"
proof -
  note u = update_claimed_spec [OF assms [unfolded record_terminal_def]]
  show "keeps db db' g"
    by (rule rows_update_keeps [OF u(2,1)], erule release_touches_open)
      (simp_all add: release_row_def exception_key_def)
qed

lemma record_superseded_keeps:
  assumes "record_superseded db x mode now = (res, db')"
  shows "keeps db db' g"
proof -
  note u = update_claimed_spec [OF assms [unfolded record_superseded_def]]
  show "keeps db db' g"
    by (rule rows_update_keeps [OF u(2,1)], erule release_touches_open)
      (simp_all add: release_row_def exception_key_def)
qed

lemma record_success_spec:
  assumes "record_success db x mode kco now = (res, db')"
  shows "exception_queue db' = delete_where (claimed_row x) (exception_queue db)" "only_rows db db'"
    "res = (if \<exists>e \<in> set (exception_queue db). claimed_row x e then Inr () else Inl Err_Lease_Lost)"
proof -
  obtain lg where db': "db' = (case kco of
        None \<Rightarrow> db\<lparr>exception_queue := delete_where (claimed_row x) (exception_queue db), delivery_log := lg\<rparr>
      | Some kc \<Rightarrow> snd (release_key (db\<lparr>exception_queue :=
          delete_where (claimed_row x) (exception_queue db), delivery_log := lg\<rparr>) kc))"
    and r: "res = (if length (filter (claimed_row x) (exception_queue db)) = 0
      then Inl Err_Lease_Lost else Inr ())"
    using assms by (auto simp: record_success_def record_and_release_def case_prod_beta Let_def)
  show "exception_queue db' = delete_where (claimed_row x) (exception_queue db)"
    by (auto simp: db' split: option.splits)
  show "only_rows db db'"
    using release_key_frame(2) by (fastforce simp: db' only_rows_def split: option.splits)
  show "res = (if \<exists>e \<in> set (exception_queue db). claimed_row x e then Inr () else Inl Err_Lease_Lost)"
    by (auto simp: r filter_empty_conv)
qed

lemma record_success_keeps:
  assumes "record_success db x mode kco now = (res, db')"
  shows "keeps db db' g"
proof -
  note s = record_success_spec [OF assms]
  show ?thesis
  proof (rule exceptions_keep)
    show "cursor_of db' g = cursor_of db g" "leases_of db' g = leases_of db g"
      using s(2) by (simp_all add: only_rowsD)
    show "keys_ok db'" if "keys_ok db"
      using that unfolding same_queue(1) [OF s(2,1)]
      by (simp add: keys_ok_def distinct_map_delete_where set_delete_where)
    show "narrows (rows_of db g) (rows_of db' g)"
      unfolding same_queue(2) [OF s(2,1)]
      by (auto simp: narrows_def rows_of_def set_delete_where)
  qed
qed

lemma claim_exceptions_spec:
  assumes "claim_exceptions db g' schema limit budget dur mode locked toks now = (xs, db')"
  shows "only_rows db db'"
    "exception_queue db' = update_where
       (\<lambda>e. exception_key e \<in> set (map exception_key (claimable db g' schema limit budget locked now)))
       (claim_row toks dur now) (exception_queue db)"
  using assms by (auto simp: claim_exceptions_def Let_def only_rows_def split: if_splits)

lemma claimable_eligible:
  "e \<in> set (claimable db g schema limit budget locked now) \<Longrightarrow>
   e \<in> set (exception_queue db) \<and> eligible db g schema budget now e \<and> \<not> locked (ex_message e)"
  by (auto simp: claimable_def dest!: set_limit_rows)

lemma eligible_open: "eligible db g schema budget now e \<Longrightarrow> open_status (ex_status e)"
  by (auto simp: eligible_def row_due_def)

lemma claim_touches_open:
  assumes k: "keys_ok db"
  shows "touches_open
    (\<lambda>e. exception_key e \<in> set (map exception_key (claimable db g schema limit budget locked now)))
    (claim_row toks dur now) db"
proof -
  have "open_status (ex_status e)"
    if "e \<in> set (exception_queue db)" "e' \<in> set (claimable db g schema limit budget locked now)"
      "exception_key e = exception_key e'" for e e'
  proof -
    have "e' \<in> set (exception_queue db)" "open_status (ex_status e')"
      using claimable_eligible [OF that(2)] eligible_open by blast+
    with that k show ?thesis
      using distinct_map_same [of exception_key "exception_queue db" e e'] by (simp add: keys_ok_def)
  qed
  then show ?thesis by (auto simp: touches_open_def claim_row_def exception_key_def)
qed

lemma claim_exceptions_keeps:
  assumes "claim_exceptions db g' schema limit budget dur mode locked toks now = (xs, db')"
  shows "keeps db db' g" "keys_ok db \<Longrightarrow> pending_ids db g \<subseteq> pending_ids db' g"
proof -
  note s = claim_exceptions_spec [OF assms]
  show "keeps db db' g" by (rule rows_update_keeps [OF s claim_touches_open])
  show "pending_ids db g \<subseteq> pending_ids db' g" if "keys_ok db"
    by (rule rows_update_pending [OF s claim_touches_open [OF that]]) (simp add: claim_row_def)
qed

lemma renew_lease_keeps:
  assumes "renew_lease db x dur now = (b, db')"
  shows "keeps db db' g" "keys_ok db \<Longrightarrow> pending_ids db g \<subseteq> pending_ids db' g"
proof -
  have s: "only_rows db db'" "exception_queue db' = update_where (claimed_row x)
      (\<lambda>e. e\<lparr>ex_expires := Some (now + dur), ex_updated_at := now\<rparr>) (exception_queue db)"
    using assms by (auto simp: renew_lease_def only_rows_def)
  have t: "touches_open (claimed_row x)
      (\<lambda>e. e\<lparr>ex_expires := Some (now + dur), ex_updated_at := now\<rparr>) db" if "keys_ok db"
    using claimed_row_open [OF that] by (auto simp: touches_open_def exception_key_def)
  show "keeps db db' g" by (rule rows_update_keeps [OF s t])
  show "pending_ids db g \<subseteq> pending_ids db' g" if "keys_ok db"
    using claimed_row_open [OF that] by (intro rows_update_pending [OF s t [OF that]]) simp
qed

lemma kill_keeps:
  assumes "kill db g' budget mode now = (n, db')"
  shows "keeps db db' g"
proof -
  have s: "only_rows db db'" "exception_queue db' = update_where (killable g' budget now)
      (kill_row now) (exception_queue db)"
    using assms by (auto simp: kill_def only_rows_def Let_def split: if_splits)
  show "keeps db db' g"
    by (rule rows_update_keeps [OF s])
      (auto simp: touches_open_def killable_def kill_row_def exception_key_def)
qed

section \<open>The committed mark\<close>

lemma committed_target_safe:
  assumes inv: "window_inv db g" and t: "committed_target db g = Inr t"
  shows "safe_mark db g t"
proof -
  obtain c where c: "cursor_of db g = Some c" using inv by (rule window_invE)
  let ?lows = "map cl_low (filter (\<lambda>l. cl_group l = g) (claim_leases db))"
  let ?ids = "map ex_message (filter (\<lambda>e. ex_group e = g \<and> open_status (ex_status e)) (exception_queue db))"
  let ?x = "min_null (sql_min ?lows) (map_option (\<lambda>m. m - 1) (sql_min ?ids))"
  have t': "min_null ?x (Some (cur_claimed c)) = Some t"
    using t c by (cases ?x) (simp_all add: committed_target_def)
  have x: "t \<le> x" if "?x = Some x" for x
    using min_null_le(1) [OF t' that] .
  have lows: "t \<le> cl_low l" if "l \<in> leases_of db g" for l
  proof -
    have "cl_low l \<in> set ?lows" using that by (auto simp: leases_of_def)
    then obtain m where m: "sql_min ?lows = Some m" "m \<le> cl_low l"
      using sql_min_ex by blast
    then obtain x where "?x = Some x" "x \<le> m"
      by (cases "map_option (\<lambda>m. m - 1) (sql_min ?ids)") auto
    with x m show ?thesis by force
  qed
  have ids: "t < ex_message e" if "e \<in> rows_of db g" "open_status (ex_status e)" for e
  proof -
    have "ex_message e \<in> set ?ids" using that by (auto simp: rows_of_def)
    then obtain m where m: "sql_min ?ids = Some m" "m \<le> ex_message e"
      using sql_min_ex by blast
    then obtain x where "?x = Some x" "x \<le> m - 1"
      using min_null_Some_ex [of "map_option (\<lambda>m. m - 1) (sql_min ?ids)" "m - 1"] by auto
    with x m show ?thesis by force
  qed
  have "t \<le> cur_claimed c" using min_null_le(2) [OF t'] by simp
  with c lows ids show ?thesis by (simp add: safe_mark_def safe_def)
qed

lemma apply_committed_keeps:
  assumes op: "apply_committed db g t = (res, db')" and t: "safe_mark db g t"
  shows "keeps db db' g" "pending_ids db' g = pending_ids db g"
proof -
  have p: "leases_of db' g = leases_of db g" "rows_of db' g = rows_of db g"
    "keys_ok db' = keys_ok db"
    using op by (auto simp: apply_committed_def split: option.splits)
  then show "pending_ids db' g = pending_ids db g" by (simp add: pending_ids_def)
  show "keeps db db' g"
  proof (rule keepsI)
    fix c
    assume c: "cursor_of db g = Some c" and k: "keys_ok db"
      and w: "window_ok c (leases_of db g) (rows_of db g)"
    let ?c' = "c\<lparr>cur_committed := max (cur_committed c) t\<rparr>"
    have "cursor_of db' g = Some ?c'"
      using op c cursor_of_update [OF c, of "\<lambda>r. r\<lparr>cur_committed := max (cur_committed r) t\<rparr>"]
        cursor_of_SomeD [OF c] by (auto simp: apply_committed_def)
    moreover have "window_ok ?c' (leases_of db g) (rows_of db g)"
      using t c by (intro window_committed [OF w]) (simp_all add: safe_mark_def)
    moreover have "safe ?c' (leases_of db g) (rows_of db g) u"
      if "safe c (leases_of db g) (rows_of db g) u" for u
      using that by (simp add: safe_def)
    ultimately show "\<exists>c'. cursor_of db' g = Some c' \<and> keys_ok db'
        \<and> window_ok c' (leases_of db' g) (rows_of db' g)
        \<and> (\<forall>t. safe c (leases_of db g) (rows_of db g) t \<longrightarrow>
              safe c' (leases_of db' g) (rows_of db' g) t)"
      using k p by auto
  qed
qed

end
