(* ===== verification/Consumer_Groups.thy ===== *)
theory Consumer_Groups
  imports Stream_Tables
begin

text \<open>
  Registration and deletion of a consumer group:
  \<open>pkg/consume/controller/datastore/group.go\<close>. The rows of \<open>consumer_group_config\<close> are the
  catalog; the foreign keys that cascade from it remove the group's cursor and binding rows. The
  advisory lock of a registration serialises it against the others for the same name, so the
  transaction is one function; the id a new row gets is an argument.
\<close>

record group_row =
  gr_id :: int
  gr_stream :: int
  gr_name :: string

datatype cursor_position = Position_Beginning | Position_Head | Position_Other string

datatype group_error =
    Group_Stream_Not_Found
  | Group_Position_Unknown string
  | Group_Cursor_Exists

definition get_group :: "group_row list \<Rightarrow> int \<Rightarrow> string \<Rightarrow> group_row option" where
  "get_group groups stream name = find (\<lambda>r. gr_stream r = stream \<and> gr_name r = name) groups"

definition new_cursor :: "int \<Rightarrow> int \<Rightarrow> cursor_row" where
  "new_cursor g start = \<lparr>cur_group = g, cur_claimed = start, cur_committed = start,
     cur_settled_head = start, cur_pending_head = 0, cur_pending_xid = None\<rparr>"

definition insert_cursor ::
  "stream_db \<Rightarrow> int \<Rightarrow> cursor_position \<Rightarrow> (group_error + int) \<times> stream_db" where
  "insert_cursor db g start =
     (let insert = (\<lambda>c. if cursor_of db g \<noteq> None then (Inl Group_Cursor_Exists, db)
                        else (Inr (cur_committed c), db\<lparr>cursors := cursors db @ [c]\<rparr>))
      in case start of
           Position_Beginning \<Rightarrow> insert (new_cursor g 0)
         | Position_Head \<Rightarrow> insert (new_cursor g (max_id (message_log db)))
         | Position_Other k \<Rightarrow> (Inl (Group_Position_Unknown k), db))"

definition register_group ::
  "(int \<Rightarrow> bool) \<Rightarrow> group_row list \<Rightarrow> stream_db \<Rightarrow> int \<Rightarrow> string \<Rightarrow> cursor_position \<Rightarrow> int
   \<Rightarrow> (group_error + group_row) \<times> group_row list \<times> stream_db" where
  "register_group stream_exists groups db stream name start new_id =
     (case get_group groups stream name of
        Some r \<Rightarrow> (Inr r, groups, db)
      | None \<Rightarrow>
          if \<not> stream_exists stream then (Inl Group_Stream_Not_Found, groups, db)
          else (case insert_cursor db new_id start of
              (Inl e, _) \<Rightarrow> (Inl e, groups, db)
            | (Inr _, db') \<Rightarrow>
                (let r = \<lparr>gr_id = new_id, gr_stream = stream, gr_name = name\<rparr>
                 in (Inr r, groups @ [r], db'))))"

definition delete_group ::
  "group_row list \<Rightarrow> stream_db \<Rightarrow> int \<Rightarrow> group_row list \<times> stream_db" where
  "delete_group groups db g =
     (delete_where (\<lambda>r. gr_id r = g) groups,
      db\<lparr>claim_leases := delete_where (\<lambda>l. cl_group l = g) (claim_leases db),
         key_leases := delete_where (\<lambda>l. kl_group l = g) (key_leases db),
         exception_queue := delete_where (\<lambda>e. ex_group e = g) (exception_queue db),
         delivery_log := delete_where (\<lambda>d. dl_group d = g) (delivery_log db),
         cursors := delete_where (\<lambda>c. cur_group c = g) (cursors db),
         bindings := delete_where (\<lambda>b. bi_group b = g) (bindings db)\<rparr>)"

text \<open>Nothing of the group is left, in any table.\<close>

definition group_absent :: "stream_db \<Rightarrow> int \<Rightarrow> bool" where
  "group_absent db g \<longleftrightarrow>
     cursor_of db g = None
     \<and> (\<forall>l \<in> set (claim_leases db). cl_group l \<noteq> g)
     \<and> (\<forall>l \<in> set (key_leases db). kl_group l \<noteq> g)
     \<and> (\<forall>e \<in> set (exception_queue db). ex_group e \<noteq> g)
     \<and> (\<forall>d \<in> set (delivery_log db). dl_group d \<noteq> g)
     \<and> (\<forall>b \<in> set (bindings db). bi_group b \<noteq> g)"

lemma delete_group_absent: "group_absent (snd (delete_group groups db g)) g"
  by (auto simp: delete_group_def group_absent_def set_delete_where cursor_of_def find_None_iff)

lemma get_group_iff:
  "get_group groups stream name = Some r \<Longrightarrow> r \<in> set groups \<and> gr_stream r = stream \<and> gr_name r = name"
  by (auto simp: get_group_def dest: find_SomeD)

end
