(* ===== verification/Frontier_Steps.thy ===== *)
theory Frontier_Steps
  imports Frontier_Ops Consumer_Groups
begin

text \<open>
  The interleaving of every operation on a group's window, as a step relation, and what holds in
  every reachable state. \<open>fr_done\<close> is a history variable: the ids a commit, a quarantine or a
  final outcome released. \<open>fr_targets\<close> holds the targets that cursor advancers have read and not
  yet applied, since the two statements of \<open>advanceCommitted\<close> share no transaction.
\<close>

section \<open>A mark that several parties raise\<close>

text \<open>
  The contract of the committed mark: a target read from any state stays safe in every later one,
  so applying it late can only be a no-op.
\<close>

locale mark_protocol =
  fixes step :: "'s \<Rightarrow> 's \<Rightarrow> bool"
    and inv :: "'s \<Rightarrow> bool"
    and safe_in :: "'s \<Rightarrow> int \<Rightarrow> bool"
    and target_of :: "'s \<Rightarrow> int option"
  assumes inv_step: "inv s \<Longrightarrow> step s s' \<Longrightarrow> inv s'"
    and safe_step: "inv s \<Longrightarrow> step s s' \<Longrightarrow> safe_in s t \<Longrightarrow> safe_in s' t"
    and target_safe: "inv s \<Longrightarrow> target_of s = Some t \<Longrightarrow> safe_in s t"
begin

lemma inv_steps: "step\<^sup>*\<^sup>* s s' \<Longrightarrow> inv s \<Longrightarrow> inv s'"
  by (induction rule: rtranclp_induct) (auto intro: inv_step)

lemma safe_steps: "step\<^sup>*\<^sup>* s s' \<Longrightarrow> inv s \<Longrightarrow> safe_in s t \<Longrightarrow> safe_in s' t"
proof (induction rule: rtranclp_induct)
  case (step y z)
  then show ?case using inv_steps safe_step by blast
qed

lemma stale_target_safe:
  "inv s \<Longrightarrow> target_of s = Some t \<Longrightarrow> step\<^sup>*\<^sup>* s s' \<Longrightarrow> safe_in s' t"
  using target_safe safe_steps by blast

end

section \<open>The step relation\<close>

record frontier =
  fr_db :: stream_db
  fr_done :: "int set"
  fr_targets :: "int set"

text \<open>The ids that a step releases: owed before it, owed no longer.\<close>

definition released :: "stream_db \<Rightarrow> stream_db \<Rightarrow> int \<Rightarrow> int set" where
  "released db db' g = pending_ids db g - pending_ids db' g"

definition settle :: "frontier \<Rightarrow> stream_db \<Rightarrow> int \<Rightarrow> frontier" where
  "settle s db' g = s\<lparr>fr_db := db', fr_done := fr_done s \<union> released (fr_db s) db' g\<rparr>"

text \<open>
  The worker's side of the two commits: the outcomes name messages of the part of the range being
  settled, each at most once.
\<close>

definition commit_contract :: "stream_db \<Rightarrow> int \<Rightarrow> uuid \<Rightarrow> outcome list \<Rightarrow> bool" where
  "commit_contract db g t ocs \<longleftrightarrow>
     (\<forall>l \<in> leases_of db g. cl_token l = t \<longrightarrow> outcomes_within (cl_low l) (cl_high l) ocs)"

definition partial_contract :: "stream_db \<Rightarrow> int \<Rightarrow> uuid \<Rightarrow> int \<Rightarrow> outcome list \<Rightarrow> bool" where
  "partial_contract db g t p ocs \<longleftrightarrow>
     (\<forall>l \<in> leases_of db g. cl_token l = t \<longrightarrow>
        cl_low l \<le> p \<and> p \<le> cl_high l \<and> outcomes_within (cl_low l) p ocs)"

text \<open>What everybody else may do: producers append, other groups work on their own rows.\<close>

definition foreign :: "stream_db \<Rightarrow> stream_db \<Rightarrow> int \<Rightarrow> bool" where
  "foreign db db' g \<longleftrightarrow> cursor_of db' g = cursor_of db g \<and> leases_of db' g = leases_of db g
     \<and> rows_of db' g = rows_of db g \<and> (keys_ok db \<longrightarrow> keys_ok db')"

inductive frontier_step :: "int \<Rightarrow> frontier \<Rightarrow> frontier \<Rightarrow> bool" for g where
  step_fresh: "fresh_claim rx (fr_db s) g schema limit dur snap xmin now tok = (resr, db') \<Longrightarrow>
     0 \<le> limit \<Longrightarrow> frontier_step g s (s\<lparr>fr_db := db'\<rparr>)"
| step_reclaim: "reclaim_range rx (fr_db s) g schema maxr dur mode picked now tok = (resr, db') \<Longrightarrow>
     frontier_step g s (settle s db' g)"
| step_force: "force_reclaim_range (fr_db s) g t now tok = (resu, db') \<Longrightarrow>
     frontier_step g s (s\<lparr>fr_db := db'\<rparr>)"
| step_commit: "commit_range (fr_db s) g t ocs backoff mode now = (resn, db') \<Longrightarrow>
     commit_contract (fr_db s) g t ocs \<Longrightarrow> frontier_step g s (settle s db' g)"
| step_partial: "partial_commit (fr_db s) g t p ocs backoff mode now = (resn, db') \<Longrightarrow>
     partial_contract (fr_db s) g t p ocs \<Longrightarrow> frontier_step g s (settle s db' g)"
| step_claim: "claim_exceptions (fr_db s) g schema limit budget dur mode locked toks now = (xs, db') \<Longrightarrow>
     frontier_step g s (s\<lparr>fr_db := db'\<rparr>)"
| step_renew: "renew_lease (fr_db s) x dur now = (b, db') \<Longrightarrow> frontier_step g s (s\<lparr>fr_db := db'\<rparr>)"
| step_failure: "record_failure (fr_db s) policy x err mode kco now = (resu, db') \<Longrightarrow>
     frontier_step g s (s\<lparr>fr_db := db'\<rparr>)"
| step_delayed: "record_delayed (fr_db s) delay x err mode kco now = (resu, db') \<Longrightarrow>
     frontier_step g s (s\<lparr>fr_db := db'\<rparr>)"
| step_deferred: "record_deferred (fr_db s) x pol mode now = (resu, db') \<Longrightarrow>
     frontier_step g s (s\<lparr>fr_db := db'\<rparr>)"
| step_success: "record_success (fr_db s) x mode kco now = (resu, db') \<Longrightarrow>
     frontier_step g s (settle s db' g)"
| step_terminal: "record_terminal (fr_db s) x err mode kco now = (resu, db') \<Longrightarrow>
     frontier_step g s (settle s db' g)"
| step_superseded: "record_superseded (fr_db s) x mode now = (resu, db') \<Longrightarrow>
     frontier_step g s (settle s db' g)"
| step_kill: "kill (fr_db s) g budget mode now = (n, db') \<Longrightarrow> frontier_step g s (settle s db' g)"
| step_target: "committed_target (fr_db s) g = Inr t \<Longrightarrow>
     frontier_step g s (s\<lparr>fr_targets := insert t (fr_targets s)\<rparr>)"
| step_apply: "t \<in> fr_targets s \<Longrightarrow> apply_committed (fr_db s) g t = (resi, db') \<Longrightarrow>
     frontier_step g s (s\<lparr>fr_db := db'\<rparr>)"
| step_foreign: "foreign (fr_db s) db' g \<Longrightarrow> frontier_step g s (s\<lparr>fr_db := db'\<rparr>)"

inductive_cases frontier_stepE: "frontier_step g s s'"

text \<open>Every id between the start and the claim frontier is owed or done.\<close>

definition accounted :: "frontier \<Rightarrow> int \<Rightarrow> int \<Rightarrow> bool" where
  "accounted s g start \<longleftrightarrow> (case cursor_of (fr_db s) g of None \<Rightarrow> False | Some c \<Rightarrow>
     {start<..cur_claimed c} \<subseteq> pending_ids (fr_db s) g \<union> fr_done s)"

lemma accounted_frame [simp]: "accounted (s\<lparr>fr_targets := T\<rparr>) g start = accounted s g start"
  by (simp add: accounted_def cong: option.case_cong)

definition frontier_inv :: "int \<Rightarrow> int \<Rightarrow> frontier \<Rightarrow> bool" where
  "frontier_inv g start s \<longleftrightarrow> window_inv (fr_db s) g \<and> accounted s g start
     \<and> (\<forall>t \<in> fr_targets s. safe_mark (fr_db s) g t)"

definition frontier_start :: "int \<Rightarrow> int \<Rightarrow> frontier \<Rightarrow> bool" where
  "frontier_start g start s \<longleftrightarrow> keys_ok (fr_db s) \<and> cursor_of (fr_db s) g = Some (new_cursor g start)
     \<and> leases_of (fr_db s) g = {} \<and> rows_of (fr_db s) g = {} \<and> fr_done s = {} \<and> fr_targets s = {}"

lemma frontier_start_inv: "frontier_start g start s \<Longrightarrow> frontier_inv g start s"
  by (auto simp: frontier_start_def frontier_inv_def window_inv_def window_ok_def safe_def
      accounted_def new_cursor_def)

text \<open>A group just registered is at its start.\<close>

lemma insert_cursor_start:
  assumes "group_absent db g" "keys_ok db" "insert_cursor db g pos = (Inr start, db')"
  shows "frontier_start g start \<lparr>fr_db = db', fr_done = {}, fr_targets = {}\<rparr>"
proof -
  have app: "cursor_of (db\<lparr>cursors := cursors db @ [new_cursor g start]\<rparr>) g = Some (new_cursor g start)"
    if "cursor_of db g = None"
    using that by (simp add: cursor_of_def find_append new_cursor_def)
  have none: "cursor_of db g = None" "leases_of db g = {}" "rows_of db g = {}"
    using assms(1) by (auto simp: group_absent_def leases_of_def rows_of_def)
  have "db' = db\<lparr>cursors := cursors db @ [new_cursor g start]\<rparr>"
    using assms(3) by (auto simp: insert_cursor_def none Let_def new_cursor_def
        split: cursor_position.splits)
  with app none assms(2) show ?thesis by (simp add: frontier_start_def)
qed

section \<open>The invariant of reachable states\<close>

lemma cursor_kept_accounted:
  assumes "accounted s g start" "cursor_of db' g = cursor_of (fr_db s) g"
    "pending_ids (fr_db s) g \<subseteq> pending_ids db' g \<union> D'" "fr_done s \<subseteq> D'"
  shows "accounted (s\<lparr>fr_db := db', fr_done := D'\<rparr>) g start"
  using assms by (fastforce simp: accounted_def split: option.splits)

text \<open>What each step gives: the invariant again, and every safe mark still safe.\<close>

definition step_ok :: "int \<Rightarrow> int \<Rightarrow> frontier \<Rightarrow> frontier \<Rightarrow> bool" where
  "step_ok g start s s' \<longleftrightarrow> frontier_inv g start s' \<and> keeps (fr_db s) (fr_db s') g"

text \<open>A step that settles something keeps the books by definition of what it released.\<close>

lemma settle_inv:
  assumes inv: "frontier_inv g start s" and k: "keeps (fr_db s) db' g"
    and c: "cursor_of db' g = cursor_of (fr_db s) g"
  shows "step_ok g start s (settle s db' g)"
proof -
  have "accounted (s\<lparr>fr_db := db', fr_done := fr_done s \<union> released (fr_db s) db' g\<rparr>) g start"
    using inv c by (intro cursor_kept_accounted) (auto simp: frontier_inv_def released_def)
  with inv k show ?thesis by (simp add: step_ok_def frontier_inv_def settle_def keeps_def)
qed

text \<open>A step that settles nothing must keep every owed id.\<close>

lemma plain_inv:
  assumes inv: "frontier_inv g start s" and k: "keeps (fr_db s) db' g"
    and c: "cursor_of db' g = cursor_of (fr_db s) g"
    and p: "keys_ok (fr_db s) \<Longrightarrow> pending_ids (fr_db s) g \<subseteq> pending_ids db' g"
  shows "step_ok g start s (s\<lparr>fr_db := db'\<rparr>)"
proof -
  have "keys_ok (fr_db s)" using inv by (auto simp: frontier_inv_def elim: window_invE)
  with p have "accounted (s\<lparr>fr_db := db', fr_done := fr_done s\<rparr>) g start"
    using inv c by (intro cursor_kept_accounted) (auto simp: frontier_inv_def)
  with inv k show ?thesis by (simp add: step_ok_def frontier_inv_def keeps_def)
qed

lemma fresh_inv:
  assumes inv: "frontier_inv g start s" and l: "0 \<le> limit"
    and op: "fresh_claim rx (fr_db s) g schema limit dur snap xmin now tok = (res, db')"
  shows "step_ok g start s (s\<lparr>fr_db := db'\<rparr>)"
proof -
  have w: "window_inv (fr_db s) g" using inv by (simp add: frontier_inv_def)
  then obtain c where c: "cursor_of (fr_db s) g = Some c" by (rule window_invE)
  obtain c' where c': "cursor_of db' g = Some c'" "cur_claimed c \<le> cur_claimed c'"
    "pending_ids db' g = pending_ids (fr_db s) g \<union> {cur_claimed c<..cur_claimed c'}"
    by (rule fresh_claim_pending [OF op l w c]) blast
  have "accounted (s\<lparr>fr_db := db'\<rparr>) g start"
    using inv c c' by (auto simp: frontier_inv_def accounted_def subset_iff)
  with inv fresh_claim_keeps [OF op l] show ?thesis
    by (simp add: step_ok_def frontier_inv_def keeps_def)
qed

lemma apply_inv:
  assumes inv: "frontier_inv g start s" and t: "t \<in> fr_targets s"
    and op: "apply_committed (fr_db s) g t = (res, db')"
  shows "step_ok g start s (s\<lparr>fr_db := db'\<rparr>)"
proof -
  have safe: "safe_mark (fr_db s) g t" using inv t by (simp add: frontier_inv_def)
  note k = apply_committed_keeps [OF op safe]
  obtain c where c: "cursor_of (fr_db s) g = Some c"
    using inv by (auto simp: frontier_inv_def elim: window_invE)
  have "cursor_of db' g = Some (c\<lparr>cur_committed := max (cur_committed c) t\<rparr>)"
    using op c cursor_of_update [OF c, of "\<lambda>r. r\<lparr>cur_committed := max (cur_committed r) t\<rparr>"]
      cursor_of_SomeD [OF c] by (auto simp: apply_committed_def)
  with c inv k have "accounted (s\<lparr>fr_db := db'\<rparr>) g start"
    by (simp add: frontier_inv_def accounted_def)
  with inv k(1) show ?thesis by (simp add: step_ok_def frontier_inv_def keeps_def)
qed

text \<open>The cursor row is untouched by everything but a fresh claim and a cursor advance.\<close>

lemma cursor_of_cong: "cursors db' = cursors db \<Longrightarrow> cursor_of db' g = cursor_of db g"
  by (simp add: cursor_of_def)

lemma commit_range_cursors:
  "commit_range db g t ocs backoff mode now = (res, db') \<Longrightarrow> cursors db' = cursors db"
  by (auto simp: commit_range_def dest: record_outcomes_Inr split: if_splits prod.splits sum.splits)

lemma partial_commit_cursors:
  "partial_commit db g t p ocs backoff mode now = (res, db') \<Longrightarrow> cursors db' = cursors db"
  by (auto simp: partial_commit_def dest: record_outcomes_Inr split: if_splits prod.splits sum.splits)

lemma force_reclaim_cursors:
  "force_reclaim_range db g t now tok = (res, db') \<Longrightarrow> cursors db' = cursors db"
  by (auto simp: force_reclaim_range_def split: if_splits)

lemma reclaim_cursors:
  assumes "reclaim_range rx db g schema maxr dur mode picked now tok = (res, db')"
  shows "cursors db' = cursors db"
  using assms
proof (cases rule: reclaim_cases)
  case (poisoned l db1)
  then show ?thesis by (auto simp: quarantine_eq split: if_splits)
qed simp_all

lemma rows_cursors: "only_rows db db' \<Longrightarrow> cursors db' = cursors db"
  by (simp add: only_rows_def)

lemma kill_only_rows: "kill db g budget mode now = (n, db') \<Longrightarrow> only_rows db db'"
  by (auto simp: kill_def only_rows_def Let_def split: if_splits)

lemma renew_only_rows: "renew_lease db x dur now = (b, db') \<Longrightarrow> only_rows db db'"
  by (auto simp: renew_lease_def only_rows_def)

lemmas record_only_rows =
  update_claimed_spec(2) [of kco db x f entry res db' for kco db x f entry res db']

lemma recorded_cursors:
  "record_failure db policy x err mode kco now = (r, db') \<Longrightarrow> cursors db' = cursors db"
  "record_delayed db delay x err mode kco now = (r, db') \<Longrightarrow> cursors db' = cursors db"
  "record_deferred db x pol mode now = (r, db') \<Longrightarrow> cursors db' = cursors db"
  "record_terminal db x err mode kco now = (r, db') \<Longrightarrow> cursors db' = cursors db"
  "record_superseded db x mode now = (r, db') \<Longrightarrow> cursors db' = cursors db"
  "record_success db x mode kco now = (r, db') \<Longrightarrow> cursors db' = cursors db"
  by (auto simp: record_failure_def record_delayed_def record_deferred_def record_terminal_def
      record_superseded_def dest!: record_only_rows record_success_spec(2) rows_cursors)

lemma foreign_keeps:
  assumes "foreign db db' g"
  shows "keeps db db' g" "pending_ids db' g = pending_ids db g"
  using assms by (auto simp: foreign_def keeps_def window_inv_def safe_mark_def pending_ids_def
      split: option.splits)

lemma frontier_step_ok:
  assumes "frontier_step g s s'" and inv: "frontier_inv g start s"
  shows "step_ok g start s s'"
  using assms(1)
proof cases
  case step_fresh
  then show ?thesis using fresh_inv [OF inv] by simp
next
  case (step_reclaim rx schema maxr dur mode picked now tok resr db')
  then show ?thesis
    using settle_inv [OF inv] reclaim_keeps reclaim_cursors cursor_of_cong by metis
next
  case (step_force t now tok resu db')
  then show ?thesis
    using plain_inv [OF inv] force_reclaim_keeps force_reclaim_cursors cursor_of_cong
    by (metis order_refl)
next
  case (step_commit t ocs backoff mode now resn db')
  have "keeps (fr_db s) db' g"
    using step_commit(3) by (intro commit_range_keeps [OF step_commit(2)]) (simp add: commit_contract_def)
  then show ?thesis
    using settle_inv [OF inv] step_commit commit_range_cursors cursor_of_cong by metis
next
  case (step_partial t p ocs backoff mode now resn db')
  have "keeps (fr_db s) db' g"
    using step_partial(3) by (intro partial_commit_keeps [OF step_partial(2)]) (simp add: partial_contract_def)
  then show ?thesis
    using settle_inv [OF inv] step_partial partial_commit_cursors cursor_of_cong by metis
next
  case (step_claim schema limit budget dur mode locked toks now xs db')
  then show ?thesis
    using plain_inv [OF inv] claim_exceptions_keeps claim_exceptions_spec(1) rows_cursors cursor_of_cong
    by metis
next
  case (step_renew x dur now b db')
  then show ?thesis
    using plain_inv [OF inv] renew_lease_keeps renew_only_rows rows_cursors cursor_of_cong by metis
next
  case (step_failure policy x err mode kco now resu db')
  then show ?thesis
    using plain_inv [OF inv] record_failure_keeps recorded_cursors(1) cursor_of_cong by metis
next
  case (step_delayed delay x err mode kco now resu db')
  then show ?thesis
    using plain_inv [OF inv] record_delayed_keeps recorded_cursors(2) cursor_of_cong by metis
next
  case (step_deferred x pol mode now resu db')
  then show ?thesis
    using plain_inv [OF inv] record_deferred_keeps recorded_cursors(3) cursor_of_cong by metis
next
  case (step_success x mode kco now resu db')
  then show ?thesis
    using settle_inv [OF inv] record_success_keeps recorded_cursors(6) cursor_of_cong by metis
next
  case (step_terminal x err mode kco now resu db')
  then show ?thesis
    using settle_inv [OF inv] record_terminal_keeps recorded_cursors(4) cursor_of_cong by metis
next
  case (step_superseded x mode now resu db')
  then show ?thesis
    using settle_inv [OF inv] record_superseded_keeps recorded_cursors(5) cursor_of_cong by metis
next
  case (step_kill budget mode now n db')
  then show ?thesis
    using settle_inv [OF inv] kill_keeps kill_only_rows rows_cursors cursor_of_cong by metis
next
  case (step_target t)
  then show ?thesis
    using inv committed_target_safe by (auto simp: step_ok_def frontier_inv_def)
next
  case (step_apply t resi db')
  then show ?thesis using apply_inv [OF inv] by simp
next
  case (step_foreign db')
  then show ?thesis
    using plain_inv [OF inv] foreign_keeps [OF step_foreign(2)] by (simp add: foreign_def)
qed

lemma frontier_step_inv:
  "frontier_step g s s' \<Longrightarrow> frontier_inv g start s \<Longrightarrow> frontier_inv g start s'"
  using frontier_step_ok by (auto simp: step_ok_def)

lemma frontier_step_safe:
  "frontier_step g s s' \<Longrightarrow> frontier_inv g start s \<Longrightarrow> safe_mark (fr_db s) g t \<Longrightarrow>
   safe_mark (fr_db s') g t"
  using frontier_step_ok [of g s s' start] by (auto simp: step_ok_def keeps_def frontier_inv_def)

definition computed_target :: "int \<Rightarrow> frontier \<Rightarrow> int option" where
  "computed_target g s = (case committed_target (fr_db s) g of Inl _ \<Rightarrow> None | Inr t \<Rightarrow> Some t)"

interpretation marks: mark_protocol "frontier_step g" "frontier_inv g start"
    "\<lambda>s. safe_mark (fr_db s) g" "computed_target g" for g start
proof unfold_locales
  fix s s' t
  show "frontier_inv g start s \<Longrightarrow> frontier_step g s s' \<Longrightarrow> frontier_inv g start s'"
    by (rule frontier_step_inv)
  show "frontier_inv g start s \<Longrightarrow> frontier_step g s s' \<Longrightarrow> safe_mark (fr_db s) g t \<Longrightarrow>
      safe_mark (fr_db s') g t" by (rule frontier_step_safe)
  show "frontier_inv g start s \<Longrightarrow> computed_target g s = Some t \<Longrightarrow> safe_mark (fr_db s) g t"
    by (auto simp: computed_target_def frontier_inv_def intro: committed_target_safe
        split: sum.splits)
qed

text \<open>Reachable from the state a registration leaves.\<close>

definition reachable :: "int \<Rightarrow> int \<Rightarrow> frontier \<Rightarrow> bool" where
  "reachable g start s \<longleftrightarrow> (\<exists>s0. frontier_start g start s0 \<and> (frontier_step g)\<^sup>*\<^sup>* s0 s)"

lemma reachable_start: "frontier_start g start s \<Longrightarrow> reachable g start s"
  by (auto simp: reachable_def)

lemma reachable_step: "reachable g start s \<Longrightarrow> frontier_step g s s' \<Longrightarrow> reachable g start s'"
  unfolding reachable_def by (meson rtranclp.rtrancl_into_rtrancl)

lemma reachable_inv: "reachable g start s \<Longrightarrow> frontier_inv g start s"
  using marks.inv_steps frontier_start_inv by (auto simp: reachable_def)

lemma reachable_window:
  assumes "reachable g start s"
  obtains c where "cursor_of (fr_db s) g = Some c" "keys_ok (fr_db s)"
    "window_ok c (leases_of (fr_db s) g) (rows_of (fr_db s) g)"
    "{start<..cur_claimed c} \<subseteq> pending_ids (fr_db s) g \<union> fr_done s"
  using reachable_inv [OF assms]
  by (auto simp: frontier_inv_def accounted_def elim!: window_invE split: option.splits)

lemma window_pending_above:
  assumes w: "window_ok c (leases_of db g) (rows_of db g)" and i: "i \<in> pending_ids db g"
  shows "cur_committed c < i \<and> i \<le> cur_claimed c"
  using i unfolding pending_ids_def
proof
  assume "i \<in> {i. \<exists>l \<in> leases_of db g. in_range l i}"
  then obtain l where "l \<in> leases_of db g" "in_range l i" by blast
  with w show ?thesis by (fastforce simp: window)
next
  assume "i \<in> {ex_message e | e. e \<in> rows_of db g \<and> open_status (ex_status e)}"
  then obtain e where "e \<in> rows_of db g" "open_status (ex_status e)" "i = ex_message e" by blast
  with w show ?thesis by (auto simp: window)
qed

end
