(* ===== verification/Frontier_Demo.thy ===== *)
theory Frontier_Demo
  imports Frontier_Steps
begin

text \<open>
  One concrete run on a small stream, on which the properties of the window are instantiated: a
  group registered at the beginning claims the range (0, 2], commits it with one retryable
  exception, and its cursor advances; the tables after each step are constants the code of the
  model evaluates to.
\<close>

definition demo_message :: "int \<Rightarrow> message_row" where
  "demo_message i = \<lparr>msg_id = i, msg_schema_version = 1, msg_routing_key = None,
     msg_key = Some ''k'', msg_rank = None, msg_payload = ''{}'', msg_options = None,
     msg_created_at = 0\<rparr>"

definition demo_db :: stream_db where
  "demo_db = empty_db\<lparr>message_log := [demo_message 1, demo_message 2, demo_message 3],
     cursors := [new_cursor 1 0]\<rparr>"

definition demo_start :: frontier where
  "demo_start = \<lparr>fr_db = demo_db, fr_done = {}, fr_targets = {}\<rparr>"

definition demo_snapshot :: claim_snapshot where
  "demo_snapshot = \<lparr>sn_head = 3, sn_xid = 5, sn_claimed = 0, sn_settled_head = 0,
     sn_pending_head = 0, sn_reclaimable = False\<rparr>"

text \<open>The range (0, 2] claimed under token 7, then handed on by an expiry under token 8.\<close>

definition demo_claimed :: stream_db where
  "demo_claimed = snd (fresh_claim (\<lambda>_ _. True) demo_db 1 1 2 10 demo_snapshot 5 100 7)"

definition demo_reclaimed :: stream_db where
  "demo_reclaimed =
     snd (reclaim_range (\<lambda>_ _. True) demo_claimed 1 1 3 10 Mode_Failures (Some 7) 200 8)"

definition demo_outcome :: outcome where
  "demo_outcome = \<lparr>oc_message = 2, oc_key = ''k'', oc_concurrency = Ordered,
     oc_kind = Outcome_Exception, oc_err = ''boom'', oc_delay = 0\<rparr>"

definition demo_committed :: stream_db where
  "demo_committed = snd (commit_range demo_claimed 1 7 [demo_outcome] 5 Mode_Failures 101)"

definition demo_advanced :: stream_db where
  "demo_advanced = snd (apply_committed demo_committed 1 1)"

lemmas demo_defs = demo_db_def demo_message_def demo_snapshot_def demo_claimed_def
  demo_reclaimed_def demo_outcome_def demo_committed_def demo_advanced_def empty_db_def
  new_cursor_def

lemma demo_claimed_eq: "demo_claimed = demo_db\<lparr>
    cursors := [\<lparr>cur_group = 1, cur_claimed = 2, cur_committed = 0, cur_settled_head = 3,
      cur_pending_head = 3, cur_pending_xid = Some 5\<rparr>],
    claim_leases := [\<lparr>cl_group = 1, cl_token = 7, cl_low = 0, cl_high = 2, cl_expires = 110,
      cl_reclaims = 0\<rparr>]\<rparr>"
  by code_simp

lemma demo_committed_eq: "demo_committed = demo_claimed\<lparr>claim_leases := [],
    exception_queue := [new_exception 1 2 Ready (Some ''k'') Ordered 0 106 (Some ''boom'') 101],
    delivery_log := [log_entry 1 2 0 Log_Failure ''boom'' 101]\<rparr>"
  by code_simp

lemma demo_target: "committed_target demo_committed 1 = Inr 1"
  by code_simp

lemma demo_advanced_eq: "demo_advanced = demo_committed\<lparr>cursors := [\<lparr>cur_group = 1,
    cur_claimed = 2, cur_committed = 1, cur_settled_head = 3, cur_pending_head = 3,
    cur_pending_xid = Some 5\<rparr>]\<rparr>"
  by code_simp

lemma demo_frontier_start: "frontier_start 1 0 demo_start"
  by (simp add: frontier_start_def demo_start_def demo_db_def demo_message_def empty_db_def
      keys_ok_def cursor_of_def leases_of_def rows_of_def new_cursor_def)

definition demo_s1 :: frontier where "demo_s1 = demo_start\<lparr>fr_db := demo_claimed\<rparr>"

definition demo_s2 :: frontier where "demo_s2 = settle demo_s1 demo_committed 1"

definition demo_s3 :: frontier where
  "demo_s3 = demo_s2\<lparr>fr_targets := insert 1 (fr_targets demo_s2)\<rparr>"

definition demo_s4 :: frontier where "demo_s4 = demo_s3\<lparr>fr_db := demo_advanced\<rparr>"

lemma demo_leases: "leases_of demo_claimed 1 = {\<lparr>cl_group = 1, cl_token = 7, cl_low = 0, cl_high = 2,
    cl_expires = 110, cl_reclaims = 0\<rparr>}"
  by (auto simp: leases_of_def demo_claimed_eq)

lemma demo_frames [simp]: "fr_db demo_s1 = demo_claimed" "fr_db demo_s2 = demo_committed"
  "fr_db demo_s3 = demo_committed" "fr_db demo_s4 = demo_advanced" "fr_db demo_start = demo_db"
  "1 \<in> fr_targets demo_s3"
  by (simp_all add: demo_s1_def demo_s2_def demo_s3_def demo_s4_def demo_start_def settle_def)

lemma demo_step1: "frontier_step 1 demo_start demo_s1"
  unfolding demo_s1_def
  by (rule step_fresh [where limit = 2 and resr = "fst (fresh_claim (\<lambda>_ _. True) demo_db 1 1 2 10
      demo_snapshot 5 100 7)"]) (simp_all add: demo_claimed_def)

lemma demo_contract: "commit_contract demo_claimed 1 7 [demo_outcome]"
  by (simp add: commit_contract_def demo_leases outcomes_within_def demo_outcome_def)

lemma demo_step2: "frontier_step 1 demo_s1 demo_s2"
  unfolding demo_s2_def
  by (rule step_commit [where resn = "fst (commit_range demo_claimed 1 7 [demo_outcome] 5
      Mode_Failures 101)", OF _ demo_contract [folded demo_frames(1)]])
    (simp add: demo_committed_def)

lemma demo_step3: "frontier_step 1 demo_s2 demo_s3"
  unfolding demo_s3_def by (rule step_target) (simp add: demo_target)

lemma demo_step4: "frontier_step 1 demo_s3 demo_s4"
  unfolding demo_s4_def
  by (rule step_apply [where t = 1 and resi = "fst (apply_committed demo_committed 1 1)"])
    (simp_all add: demo_advanced_def)

lemma demo_reachable0: "reachable 1 0 demo_start"
  by (rule reachable_start [OF demo_frontier_start])

lemma demo_reachable1: "reachable 1 0 demo_s1"
  by (rule reachable_step [OF demo_reachable0 demo_step1])

lemma demo_reachable2: "reachable 1 0 demo_s2"
  by (rule reachable_step [OF demo_reachable1 demo_step2])

lemma demo_reachable3: "reachable 1 0 demo_s3"
  by (rule reachable_step [OF demo_reachable2 demo_step3])

lemma demo_reachable4: "reachable 1 0 demo_s4"
  by (rule reachable_step [OF demo_reachable3 demo_step4])

lemma demo_cursor4: "cursor_of demo_advanced 1 = Some \<lparr>cur_group = 1, cur_claimed = 2,
    cur_committed = 1, cur_settled_head = 3, cur_pending_head = 3, cur_pending_xid = Some 5\<rparr>"
  by (simp add: cursor_of_def demo_advanced_eq)

end
