(* ===== verification/Window_Properties.thy ===== *)
theory Window_Properties
  imports Frontier_Demo
begin

text \<open>
  What a consumer group can rely on, for every interleaving of claims, reclaims, commits,
  exception outcomes and cursor advances: the committed mark, the leased ranges, the lease
  tokens, quarantine and the ordered gate.
\<close>

section \<open>Lease tokens\<close>

text \<open>
  The interface of every write guarded by a claim lease token: without a lease under the token the
  operation reports a lost lease and changes nothing.
\<close>

locale token_guarded =
  fixes guarded :: "uuid \<Rightarrow> stream_db \<Rightarrow> 'a exec"
    and g :: int
  assumes stale: "\<not> (\<exists>l \<in> leases_of db g. cl_token l = t) \<Longrightarrow> guarded t db = (Inl Err_Lease_Lost, db)"
begin

lemma stale_retries:
  "\<not> (\<exists>l \<in> leases_of db g. cl_token l = t) \<Longrightarrow> ((\<lambda>d. snd (guarded t d)) ^^ n) db = db"
  by (induction n) (simp_all add: stale)

text \<open>A token that a rotation took away guards nothing any more.\<close>

lemma rotated:
  assumes "keys_ok db" "l \<in> leases_of db g" "leases_of db' g = narrowed (leases_of db g) l l'"
    "cl_token l' \<noteq> cl_token l"
  shows "guarded (cl_token l) db' = (Inl Err_Lease_Lost, db')"
proof (rule stale)
  show "\<not> (\<exists>r \<in> leases_of db' g. cl_token r = cl_token l)"
    using assms lease_unique [of db _ g l] by (auto simp: narrowed_def)
qed

lemma freed:
  assumes "keys_ok db" "l \<in> leases_of db g" "leases_of db' g = leases_of db g - {l}"
  shows "guarded (cl_token l) db' = (Inl Err_Lease_Lost, db')"
proof (rule stale)
  show "\<not> (\<exists>r \<in> leases_of db' g. cl_token r = cl_token l)"
    using assms lease_unique [of db _ g l] by auto
qed

end

interpretation commit: token_guarded "\<lambda>t db. commit_range db g t ocs backoff mode now" g
  for ocs backoff mode now g
  by unfold_locales (rule commit_range_stale)

interpretation partial: token_guarded "\<lambda>t db. partial_commit db g t p ocs backoff mode now" g
  for p ocs backoff mode now g
  by unfold_locales (rule partial_commit_stale)

interpretation force: token_guarded "\<lambda>t db. force_reclaim_range db g t now tok" g for now tok g
  by unfold_locales (rule force_reclaim_stale)

lemma fresh_token:
  "l \<in> leases_of db g \<Longrightarrow> \<not> (\<exists>r \<in> set (claim_leases db). lease_key r = (g, tok)) \<Longrightarrow> tok \<noteq> cl_token l"
  by (auto simp: leases_of_def lease_key_def)

lemma quarantine_leases:
  assumes "quarantine db g l mode now = (Inr u, db')"
  shows "leases_of db' g = {r \<in> leases_of db g. cl_token r \<noteq> cl_token l}"
  using assms by (auto simp: quarantine_eq leases_of_def set_delete_where split: if_splits)

text \<open>After a reclaim nobody finds a lease under the old token.\<close>

lemma reclaim_drops_token:
  assumes k: "keys_ok db" and op: "reclaim_range rx db g schema maxr dur mode (Some t) now tok
    = (Inr (Some r), db')"
  shows "\<not> (\<exists>l \<in> leases_of db' g. cl_token l = t)"
  using op
proof (cases rule: reclaim_cases)
  case (leased l db1)
  then show ?thesis
    using reclaim_rotates(4) [OF leased(1,4,5) k] fresh_token [OF leased(1,4)]
      lease_unique [OF k _ leased(1)] by (auto simp: narrowed_def)
next
  case (poisoned l db1)
  then show ?thesis
    using quarantine_leases [OF poisoned(7)] reclaim_rotates(4) [OF poisoned(1,4,5) k]
      fresh_token [OF poisoned(1,4)] lease_unique [OF k _ poisoned(1)]
    by (auto simp: narrowed_def)
qed simp_all

text \<open>C3: a reclaim fences the previous holder: whatever it still sends under its old token,
  a commit, a partial commit or a hand-back, reports a lost lease and writes nothing.\<close>

theorem reclaim_fences_old_holder:
  assumes "keys_ok db"
    and "reclaim_range rx db g schema maxr dur mode (Some t) now tok = (Inr (Some r), db')"
  shows "commit_range db' g t ocs backoff mode' now' = (Inl Err_Lease_Lost, db')
    \<and> partial_commit db' g t p ocs backoff mode' now' = (Inl Err_Lease_Lost, db')
    \<and> force_reclaim_range db' g t now' tok' = (Inl Err_Lease_Lost, db')"
  using commit.stale partial.stale force.stale reclaim_drops_token [OF assms] by blast

lemma demo_claimed_keys: "keys_ok demo_claimed"
  by (simp add: keys_ok_def demo_claimed_eq demo_db_def demo_message_def empty_db_def)

theorem reclaim_fences_old_holder_witness:
  "commit_range demo_reclaimed 1 7 [] 5 Mode_All 201 = (Inl Err_Lease_Lost, demo_reclaimed)"
proof -
  have "reclaim_range (\<lambda>_ _. True) demo_claimed 1 1 3 10 Mode_Failures (Some 7) 200 8
      = (Inr (Some \<lparr>cr_lease = \<lparr>cl_group = 1, cl_token = 8, cl_low = 0, cl_high = 2,
           cl_expires = 210, cl_reclaims = 1\<rparr>,
         cr_messages = read_messages (\<lambda>_ _. True) demo_claimed 1 1 0 2,
         cr_quarantined = False\<rparr>), demo_reclaimed)"
    by code_simp
  from reclaim_fences_old_holder [OF demo_claimed_keys this] show ?thesis by blast
qed

section \<open>The committed mark\<close>

text \<open>C4: in every reachable state an id at or below the committed mark has been released by a
  commit, a quarantine or a final outcome; no open lease covers it and no exception row for it is
  still open, for any interleaving of workers, reclaims and cursor advancers.\<close>

theorem committed_ids_are_done:
  assumes "reachable g start s" "cursor_of (fr_db s) g = Some c" "start < i" "i \<le> cur_committed c"
  shows "i \<in> fr_done s
    \<and> (\<forall>l \<in> set (claim_leases (fr_db s)). cl_group l = g \<longrightarrow> \<not> (cl_low l < i \<and> i \<le> cl_high l))
    \<and> (\<forall>e \<in> set (exception_queue (fr_db s)).
         ex_group e = g \<and> ex_message e = i \<longrightarrow> \<not> open_status (ex_status e))"
proof -
  obtain c' where c': "cursor_of (fr_db s) g = Some c'"
    and w: "window_ok c' (leases_of (fr_db s) g) (rows_of (fr_db s) g)"
    and acc: "{start<..cur_claimed c'} \<subseteq> pending_ids (fr_db s) g \<union> fr_done s"
    by (rule reachable_window [OF assms(1)])
  have eq: "c' = c" using c' assms(2) by simp
  have notin: "i \<notin> pending_ids (fr_db s) g"
    using window_pending_above [OF w, of i] assms(4) eq by auto
  have "i \<le> cur_claimed c" using w assms(4) by (auto simp: eq window_ok_def safe_def)
  with acc notin assms(3) have "i \<in> fr_done s" by (auto simp: eq)
  with notin show ?thesis by (auto simp: pending_ids_def leases_of_def rows_of_def in_range_def)
qed

theorem committed_ids_are_done_witness: "(1::int) \<in> fr_done demo_s4"
  using committed_ids_are_done [of 1 0 demo_s4 _ 1] demo_reachable4 demo_cursor4 by simp

text \<open>C5: in every reachable state the window is well formed: committed, claimed and settled_head
  are in order, every leased range lies between the first two, ranges under different leases are
  disjoint, and no exception row lies inside a leased range.\<close>

theorem window_is_well_formed:
  assumes "reachable g start s"
  shows "\<exists>c. cursor_of (fr_db s) g = Some c
    \<and> cur_committed c \<le> cur_claimed c \<and> cur_claimed c \<le> cur_settled_head c
    \<and> (\<forall>l \<in> leases_of (fr_db s) g. cur_committed c \<le> cl_low l \<and> cl_low l \<le> cl_high l
         \<and> cl_high l \<le> cur_claimed c
         \<and> (\<forall>e \<in> rows_of (fr_db s) g. \<not> in_range l (ex_message e))
         \<and> (\<forall>l' \<in> leases_of (fr_db s) g. l \<noteq> l' \<longrightarrow> \<not> (\<exists>i. in_range l i \<and> in_range l' i)))"
proof -
  obtain c where c: "cursor_of (fr_db s) g = Some c"
    and w: "window_ok c (leases_of (fr_db s) g) (rows_of (fr_db s) g)"
    by (rule reachable_window [OF assms])
  have "\<not> (\<exists>i. in_range l i \<and> in_range l' i)"
    if "l \<in> leases_of (fr_db s) g" "l' \<in> leases_of (fr_db s) g" "l \<noteq> l'" for l l'
    using ranges_disjoint [OF w that] by blast
  with c w show ?thesis by (auto simp: window_ok_def safe_def)
qed

theorem window_is_well_formed_witness: "\<exists>c. cursor_of demo_claimed 1 = Some c \<and>
    cur_claimed c \<le> cur_settled_head c"
  using window_is_well_formed [OF demo_reachable1] by auto

text \<open>A target that a cursor advancer computed stays safe while any number of other steps
  happen: applying it later keeps the window well formed and never passes an id still owed.\<close>

theorem stale_target_is_safe:
  assumes "reachable g start s" "committed_target (fr_db s) g = Inr t"
    and "(frontier_step g)\<^sup>*\<^sup>* s s'"
  shows "window_inv (snd (apply_committed (fr_db s') g t)) g
    \<and> (\<forall>i \<in> pending_ids (fr_db s') g. t < i)"
proof -
  have inv: "frontier_inv g start s" by (rule reachable_inv [OF assms(1)])
  have inv': "frontier_inv g start s'" by (rule marks.inv_steps [OF assms(3) inv])
  have safe: "safe_mark (fr_db s') g t"
    using marks.stale_target_safe [OF inv _ assms(3)] assms(2) by (simp add: computed_target_def)
  have k: "keeps (fr_db s') (snd (apply_committed (fr_db s') g t)) g"
    by (rule apply_committed_keeps(1) [OF _ safe]) (rule prod.collapse [symmetric])
  have w: "window_inv (fr_db s') g" using inv' by (simp add: frontier_inv_def)
  have "t < i" if "i \<in> pending_ids (fr_db s') g" for i
    using safe that by (auto simp: safe_mark_def safe_def pending_ids_def in_range_def
        split: option.splits)
  with k w show ?thesis by (simp add: keeps_def)
qed

theorem stale_target_is_safe_witness:
  "window_inv (snd (apply_committed demo_committed 1 1)) 1"
  using stale_target_is_safe [OF demo_reachable2, of 1 demo_s3] demo_target demo_step3 by auto

section \<open>Commits settle exactly what they should\<close>

definition reopens :: "outcome \<Rightarrow> bool" where
  "reopens oc \<longleftrightarrow> oc_kind oc \<in> {Outcome_Exception, Outcome_Deferred, Outcome_Delayed}"

lemma delivery_row_open:
  "(\<exists>e. delivery_row g backoff now oc = Some e \<and> open_status (ex_status e)) \<longleftrightarrow> reopens oc"
  by (auto simp: delivery_row_def reopens_def Let_def split: outcome_kind.splits)

lemma written_open:
  "{ex_message e | e. e \<in> set (written g backoff now ocs) \<and> open_status (ex_status e)}
     = oc_message ` {oc \<in> set ocs. reopens oc}"
proof (induction ocs)
  case (Cons oc ocs)
  show ?case
  proof (cases "delivery_row g backoff now oc")
    case None
    with Cons delivery_row_open [of g backoff now oc] show ?thesis by auto
  next
    case (Some e)
    have e: "ex_message e = oc_message oc" using delivery_row_simps [OF Some] by simp
    have "{ex_message e' | e'. e' \<in> set (written g backoff now (oc # ocs)) \<and> open_status (ex_status e')}
      = (if open_status (ex_status e) then {ex_message e} else {})
        \<union> {ex_message e' | e'. e' \<in> set (written g backoff now ocs) \<and> open_status (ex_status e')}"
      using Some by auto
    with Cons Some e delivery_row_open [of g backoff now oc] show ?thesis by auto
  qed
qed simp

text \<open>In every reachable state a worker that still holds its lease always commits: the primary
  key of the exception queue never refuses the rows, the lease is gone, and the ids released are
  exactly those of the range except the messages that failed, were delayed or were deferred.\<close>

theorem commit_settles_the_range:
  assumes "reachable g start s" "l \<in> leases_of (fr_db s) g"
    and "outcomes_within (cl_low l) (cl_high l) ocs"
  shows "\<exists>n db'. commit_range (fr_db s) g (cl_token l) ocs backoff mode now = (Inr n, db')
    \<and> leases_of db' g = leases_of (fr_db s) g - {l}
    \<and> released (fr_db s) db' g
        = {cl_low l<..cl_high l} - oc_message ` {oc \<in> set ocs. reopens oc}"
proof -
  obtain c where c: "cursor_of (fr_db s) g = Some c" and k: "keys_ok (fr_db s)"
    and w: "window_ok c (leases_of (fr_db s) g) (rows_of (fr_db s) g)"
    by (rule reachable_window [OF assms(1)])
  obtain n db' where s: "commit_range (fr_db s) g (cl_token l) ocs backoff mode now = (Inr n, db')"
    "leases_of db' g = leases_of (fr_db s) g - {l}"
    "rows_of db' g = rows_of (fr_db s) g \<union> set (written g backoff now ocs)"
    by (rule commit_range_spec [OF window_invI [OF c k w] c assms(2,3)]) blast
  have lease_ids: "i \<notin> {ex_message e | e. e \<in> rows_of (fr_db s) g \<and> open_status (ex_status e)}"
    "\<not> (\<exists>l' \<in> leases_of (fr_db s) g - {l}. in_range l' i)" if "in_range l i" for i
    using row_outside_leases [OF w assms(2)] ranges_disjoint [OF w assms(2)] that by blast+
  have "released (fr_db s) db' g = {i. in_range l i} -
      {ex_message e | e. e \<in> set (written g backoff now ocs) \<and> open_status (ex_status e)}"
    using lease_ids assms(2) unfolding released_def pending_ids_def s(2,3) by blast
  also have "\<dots> = {cl_low l<..cl_high l} - oc_message ` {oc \<in> set ocs. reopens oc}"
    by (auto simp: written_open in_range_def)
  finally show ?thesis using s by blast
qed

theorem commit_settles_the_range_witness:
  "\<exists>db'. released demo_claimed db' 1 = {0<..2} - {2}"
proof -
  have "outcomes_within 0 2 [demo_outcome]" by (simp add: outcomes_within_def demo_outcome_def)
  moreover have "{oc \<in> set [demo_outcome]. reopens oc} = {demo_outcome}"
    by (auto simp: reopens_def demo_outcome_def)
  ultimately show ?thesis
    using commit_settles_the_range [OF demo_reachable1, of "\<lparr>cl_group = 1, cl_token = 7, cl_low = 0,
      cl_high = 2, cl_expires = 110, cl_reclaims = 0\<rparr>" "[demo_outcome]" 5 Mode_Off 101]
    by (auto simp: demo_leases demo_outcome_def)
qed

section \<open>Quarantine and hand-back\<close>

text \<open>A range whose reclaim count reaches the limit is given up as a unit and never handed out
  again: in every reachable state its lease disappears, every message of the log inside it gets a
  ready exception row with a fresh retry budget, and no other row changes.\<close>

theorem exhausted_range_is_quarantined:
  assumes "reachable g start s"
    and "reclaim_range rx (fr_db s) g schema maxr dur mode picked now tok = (Inr (Some r), db')"
    and "maxr \<le> cl_reclaims (cr_lease r)"
  shows "cr_quarantined r \<and> cr_messages r = []
    \<and> (\<forall>i. in_range (cr_lease r) i \<longrightarrow> \<not> (\<exists>l \<in> leases_of db' g. in_range l i))
    \<and> rows_of db' g = rows_of (fr_db s) g \<union> set (quarantined_rows (fr_db s) g (cr_lease r) now)"
proof -
  obtain c where c: "cursor_of (fr_db s) g = Some c" and k: "keys_ok (fr_db s)"
    and w: "window_ok c (leases_of (fr_db s) g) (rows_of (fr_db s) g)"
    by (rule reachable_window [OF assms(1)])
  note inv = window_invI [OF c k w]
  show ?thesis
    using assms(2)
  proof (cases rule: reclaim_cases)
    case (leased l db1)
    with assms(3) show ?thesis by simp
  next
    case (poisoned l db1)
    let ?l = "reclaimed l dur now tok"
    note rot = reclaim_rotates [OF poisoned(1,4,5)]
    have inv1: "window_inv db1 g" using rot(1) inv by (simp add: keeps_def)
    then obtain c1 where c1: "cursor_of db1 g = Some c1"
      and w1: "window_ok c1 (leases_of db1 g) (rows_of db1 g)" by (rule window_invE)
    obtain db2 where q: "quarantine db1 g ?l mode now = (Inr (), db2)"
      "leases_of db2 g = leases_of db1 g - {?l}"
      "rows_of db2 g = rows_of db1 g \<union> set (quarantined_rows db1 g ?l now)"
      by (rule quarantine_spec [OF inv1 c1 rot(3) [OF k]]) blast
    have eq: "db2 = db'" using q(1) poisoned(7) by simp
    have r: "cr_lease r = ?l" "cr_quarantined r" "cr_messages r = []" using poisoned(8) by auto
    have rows1: "rows_of db1 g = rows_of (fr_db s) g"
      "quarantined_rows db1 g ?l now = quarantined_rows (fr_db s) g ?l now"
      by (simp_all add: poisoned(5) quarantined_rows_def)
    have "\<not> (\<exists>l' \<in> leases_of db' g. in_range l' i)" if "in_range ?l i" for i
      using ranges_disjoint [OF w1 rot(3) [OF k]] that q(2) eq by auto
    with r q(3) rows1 eq show ?thesis by auto
  qed simp_all
qed

theorem exhausted_range_is_quarantined_witness:
  "\<not> (\<exists>l \<in> leases_of (snd (reclaim_range (\<lambda>_ _. True) demo_claimed 1 1 1 10 Mode_Failures
      (Some 7) 200 8)) 1. in_range l 1)"
proof -
  have "reclaim_range (\<lambda>_ _. True) (fr_db demo_s1) 1 1 1 10 Mode_Failures (Some 7) 200 8
      = (Inr (Some \<lparr>cr_lease = \<lparr>cl_group = 1, cl_token = 8, cl_low = 0, cl_high = 2,
           cl_expires = 210, cl_reclaims = 1\<rparr>, cr_messages = [], cr_quarantined = True\<rparr>),
         snd (reclaim_range (\<lambda>_ _. True) demo_claimed 1 1 1 10 Mode_Failures (Some 7) 200 8))"
    unfolding demo_frames by code_simp
  from exhausted_range_is_quarantined [OF demo_reachable1 this] show ?thesis
    by (simp add: in_range_def)
qed

text \<open>A range handed back unstarted costs no reclaim: after a hand-back under the lease's token
  the next reclaim leases the same bounds with the count the lease had before.\<close>

theorem hand_back_costs_no_reclaim:
  assumes "keys_ok db" "l \<in> leases_of db g" "0 \<le> cl_reclaims l"
    and "force_reclaim_range db g (cl_token l) now tok = (Inr (), db1)"
    and "reclaim_range rx db1 g schema maxr dur mode (Some tok) now' tok' = (Inr (Some r), db2)"
  shows "cl_low (cr_lease r) = cl_low l \<and> cl_high (cr_lease r) = cl_high l
    \<and> cl_reclaims (cr_lease r) = cl_reclaims l"
proof -
  let ?f = "\<lambda>l. l\<lparr>cl_expires := now, cl_reclaims := max (cl_reclaims l - 1) (- 1), cl_token := tok\<rparr>"
  have g: "cl_group (?f l) = g" using assms(2) by (simp add: leases_of_def)
  have free: "\<not> (\<exists>r \<in> set (claim_leases db). lease_key r = (g, tok))"
    and db1: "db1 = db\<lparr>claim_leases := update_where
      (\<lambda>r. cl_group r = g \<and> cl_token r = cl_token l) ?f (claim_leases db)\<rparr>"
    using assms(4) by (auto simp: force_reclaim_range_def split: if_splits)
  have leases: "leases_of db1 g = narrowed (leases_of db g) l (?f l)"
    unfolding db1 by (rule leases_of_update [where f = ?f, OF assms(1,2) g])
  have only: "l' = ?f l" if "l' \<in> leases_of db1 g" "cl_token l' = tok" for l'
    using that free unfolding leases narrowed_def by (auto simp: leases_of_def lease_key_def)
  have m: "max (cl_reclaims l - 1) (- 1) + 1 = cl_reclaims l" using assms(3) by simp
  show ?thesis
    using assms(5)
  proof (cases rule: reclaim_cases)
    case (leased l' d)
    then have "l' = ?f l" using only [of l'] by simp
    with leased m show ?thesis by simp
  next
    case (poisoned l' d)
    then have "l' = ?f l" using only [of l'] by simp
    with poisoned m show ?thesis by simp
  qed simp_all
qed

theorem hand_back_costs_no_reclaim_witness:
  "\<exists>r db2. reclaim_range (\<lambda>_ _. True)
      (snd (force_reclaim_range demo_claimed 1 7 50 9)) 1 1 3 10 Mode_Off (Some 9) 51 10
      = (Inr (Some r), db2) \<and> cl_reclaims (cr_lease r) = 0"
proof -
  let ?l = "\<lparr>cl_group = 1, cl_token = 7, cl_low = 0, cl_high = 2, cl_expires = 110, cl_reclaims = 0\<rparr>"
  have f: "force_reclaim_range demo_claimed 1 (cl_token ?l) 50 9
      = (Inr (), snd (force_reclaim_range demo_claimed 1 7 50 9))"
    by code_simp
  have r: "reclaim_range (\<lambda>_ _. True) (snd (force_reclaim_range demo_claimed 1 7 50 9)) 1 1 3 10
      Mode_Off (Some 9) 51 10 = (Inr (Some \<lparr>cr_lease = \<lparr>cl_group = 1, cl_token = 10, cl_low = 0,
        cl_high = 2, cl_expires = 61, cl_reclaims = 0\<rparr>,
        cr_messages = read_messages (\<lambda>_ _. True) demo_claimed 1 1 0 2, cr_quarantined = False\<rparr>),
      snd (reclaim_range (\<lambda>_ _. True) (snd (force_reclaim_range demo_claimed 1 7 50 9)) 1 1 3 10
        Mode_Off (Some 9) 51 10))"
    by code_simp
  have "?l \<in> leases_of demo_claimed 1" by (simp add: demo_leases)
  from hand_back_costs_no_reclaim [OF demo_claimed_keys this _ f r] r show ?thesis by auto
qed

section \<open>Message keys\<close>

text \<open>C6: The ordered gate: in every reachable state an ordered claim of a key that is acquired leaves
  the key's lease with the claimer, no earlier message of the key has an open exception row, and
  each earlier message of the key past the start of the group is released and no longer owed, or lies in the range that the
  caller itself runs in order.\<close>

theorem ordered_claim_waits_for_predecessors:
  assumes "reachable g start s"
    and "claim_ordered (fr_db s) g k m own_low own_high dur tok now = (claim, db')"
    and "kc_verdict claim = Key_Acquired"
  shows "key_holder db' g k = Some \<lparr>kl_group = g, kl_key = k, kl_token = tok, kl_expires = now + dur\<rparr>
    \<and> (\<forall>e \<in> set (exception_queue (fr_db s)). ex_group e = g \<and> ex_key e = Some k \<and> ex_message e < m
          \<longrightarrow> \<not> open_status (ex_status e))
    \<and> (\<forall>r \<in> set (message_log (fr_db s)). msg_key r = Some k \<and> start < msg_id r \<and> msg_id r < m
          \<longrightarrow> msg_id r \<in> fr_done s \<and> msg_id r \<notin> pending_ids (fr_db s) g
            \<or> own_low < msg_id r \<and> msg_id r \<le> own_high)"
proof (intro conjI ballI impI)
  have gate: "\<not> earlier_open (fr_db s) g k m" "\<not> earlier_unclaimed (fr_db s) g k m own_low own_high"
    and took: "take_key_lease (fr_db s) g k dur tok now = (Some (the (kc_token claim)), db')"
    using assms(2,3) by (auto simp: claim_ordered_def split: if_splits option.splits prod.splits)
  show "key_holder db' g k = Some \<lparr>kl_group = g, kl_key = k, kl_token = tok, kl_expires = now + dur\<rparr>"
    using take_key_lease_holder [of "fr_db s" g k dur tok now] took by simp
  show "\<not> open_status (ex_status e)"
    if "e \<in> set (exception_queue (fr_db s))" "ex_group e = g \<and> ex_key e = Some k \<and> ex_message e < m" for e
    using gate(1) that by (auto simp: earlier_open_def)
  fix r assume r: "r \<in> set (message_log (fr_db s))" "msg_key r = Some k \<and> start < msg_id r \<and> msg_id r < m"
  obtain c where c: "cursor_of (fr_db s) g = Some c"
    and w: "window_ok c (leases_of (fr_db s) g) (rows_of (fr_db s) g)"
    and acc: "{start<..cur_claimed c} \<subseteq> pending_ids (fr_db s) g \<union> fr_done s"
    by (rule reachable_window [OF assms(1)])
  have "msg_id r \<le> cur_committed c \<or> own_low < msg_id r \<and> msg_id r \<le> own_high"
    using gate(2) r c by (auto simp: earlier_unclaimed_def)
  moreover have "msg_id r \<in> fr_done s \<and> msg_id r \<notin> pending_ids (fr_db s) g"
    if le: "msg_id r \<le> cur_committed c"
  proof -
    have "msg_id r \<notin> pending_ids (fr_db s) g" using window_pending_above [OF w] le by force
    moreover have "msg_id r \<le> cur_claimed c" using w le by (auto simp: window_ok_def safe_def)
    ultimately show ?thesis using acc r(2) by auto
  qed
  ultimately show "msg_id r \<in> fr_done s \<and> msg_id r \<notin> pending_ids (fr_db s) g
      \<or> own_low < msg_id r \<and> msg_id r \<le> own_high" by blast
qed

lemma demo_rows4: "message_log demo_advanced = [demo_message 1, demo_message 2, demo_message 3]"
  by (simp add: demo_advanced_eq demo_committed_eq demo_claimed_eq demo_db_def)

theorem ordered_claim_waits_for_predecessors_witness: "(1::int) \<in> fr_done demo_s4"
proof -
  have "claim_ordered (fr_db demo_s4) 1 ''k'' 2 0 0 5 77 300
      = (\<lparr>kc_verdict = Key_Acquired, kc_group = 1, kc_key = ''k'', kc_token = Some 77\<rparr>,
         snd (claim_ordered demo_advanced 1 ''k'' 2 0 0 5 77 300))"
    unfolding demo_frames by code_simp
  from ordered_claim_waits_for_predecessors [OF demo_reachable4 this]
  show ?thesis by (simp add: demo_rows4 demo_message_def)
qed

text \<open>While an unexpired lease row for a key exists under one token, a claim under any other
  token, whatever its policy, is not acquired and leaves that row in place.\<close>

theorem unexpired_key_is_exclusive:
  assumes "key_holder db g k = Some r" "now \<le> kl_expires r" "tok \<noteq> kl_token r"
    and "key_leases_ok db" "\<And>d. key_holder (between d) g k = key_holder d g k"
    and "\<And>d. key_leases_ok d \<Longrightarrow> key_leases_ok (between d)"
  shows "kc_verdict (fst (claim_key between db g k m compacted policy own_low own_high dur tok now))
      \<noteq> Key_Acquired
    \<and> key_holder (snd (claim_key between db g k m compacted policy own_low own_high dur tok now)) g k
      = Some r"
proof -
  have none: "fst (take_key_lease db g k dur tok now) = None"
    using take_key_lease_verdict [of db g k dur tok now] take_key_lease_token [of db g k dur tok now]
      assms(1-3) by (cases "fst (take_key_lease db g k dur tok now)") auto
  then have take: "take_key_lease db g k dur tok now = (None, db)"
    using take_key_lease_None [OF none] by (metis prod.collapse)
  have same: "key_holder (snd (delete_key_lease (between db) g k tok)) g k = Some r"
    using assms delete_key_lease_holder [of "between db" g k tok] by simp
  have recheck: "key_holder (snd (claim_compacted_recheck (between db) g k m tok)) g k = Some r"
    using same assms(1,5) by (simp add: claim_compacted_recheck_def)
  have "kc_verdict (fst (claim_compacted between db g k m dur tok now)) \<noteq> Key_Acquired
      \<and> key_holder (snd (claim_compacted between db g k m dur tok now)) g k = Some r"
    using recheck
    by (cases "claim_compacted_recheck (between db) g k m tok")
      (simp add: claim_compacted_def claim_compacted_attempt_def take)
  moreover have "kc_verdict (fst (claim_ordered db g k m own_low own_high dur tok now)) \<noteq> Key_Acquired
      \<and> key_holder (snd (claim_ordered db g k m own_low own_high dur tok now)) g k = Some r"
    using assms(1) by (simp add: claim_ordered_def take)
  moreover have "kc_verdict (fst (claim_uncompacted db g k dur tok now)) \<noteq> Key_Acquired
      \<and> key_holder (snd (claim_uncompacted db g k dur tok now)) g k = Some r"
    using assms(1) by (simp add: claim_uncompacted_def take)
  ultimately show ?thesis by (simp add: claim_key_def)
qed

definition demo_keyed :: stream_db where
  "demo_keyed = snd (claim_key id demo_db 1 ''k'' 1 False Exclusive 0 0 10 70 100)"

theorem unexpired_key_is_exclusive_witness:
  "kc_verdict (fst (claim_key id demo_keyed 1 ''k'' 2 False Exclusive 0 0 10 71 105)) \<noteq> Key_Acquired"
proof -
  have "key_holder demo_keyed 1 ''k'' = Some \<lparr>kl_group = 1, kl_key = ''k'', kl_token = 70, kl_expires = 110\<rparr>"
    and "key_leases_ok demo_keyed" by code_simp+
  from unexpired_key_is_exclusive [OF this(1) _ _ this(2), of 105 71 id] show ?thesis by simp
qed

lemma recheck_cases:
  "claim_compacted_recheck db g k m tok =
     (if head_message db (Some k) = Some m then (0, db) else delete_key_lease db g k tok)"
  by (simp add: claim_compacted_recheck_def)

lemma delete_key_lease_count:
  assumes "key_leases_ok db"
  shows "0 < fst (delete_key_lease db g k tok) \<longleftrightarrow>
    (case key_holder db g k of None \<Rightarrow> False | Some r \<Rightarrow> kl_token r = tok)"
proof -
  have pos: "0 < fst (delete_key_lease db g k tok) \<longleftrightarrow>
      (\<exists>r \<in> set (key_leases db). holds_key_lease g k r \<and> kl_token r = tok)"
    using rows_matching_0 [of "\<lambda>r. holds_key_lease g k r \<and> kl_token r = tok" "key_leases db"]
    by (auto simp: delete_key_lease_def Let_def simp del: rows_matching_0)
  show ?thesis
  proof (cases "key_holder db g k")
    case None
    then show ?thesis by (auto simp: pos key_holder_def dest: find_NoneD)
  next
    case (Some r)
    have "r' = r" if "r' \<in> set (key_leases db)" "holds_key_lease g k r'" for r'
      using that Some key_holder_iff [OF assms, of g k r'] by (simp add: holds_key_lease_id)
    moreover have "r \<in> set (key_leases db)" "holds_key_lease g k r"
      using Some key_holder_iff [OF assms, of g k] by (auto simp: holds_key_lease_id)
    ultimately have "(\<exists>r' \<in> set (key_leases db). holds_key_lease g k r' \<and> kl_token r' = tok)
        \<longleftrightarrow> kl_token r = tok" by blast
    then show ?thesis by (simp only: pos Some option.case)
  qed
qed

lemma head_message_frame [simp]:
  "head_message (db\<lparr>key_leases := x\<rparr>) = head_message db"
  by (simp add: fun_eq_iff head_message_def cong: option.case_cong)

lemma delete_head [simp]: "head_message (snd (delete_key_lease db g k tok)) = head_message db"
  by (simp add: delete_key_lease_def Let_def)

text \<open>A compacted message that acquires its key is its key's compaction head in the snapshot of
  the recheck, after the lease was won, whatever other transactions committed in between (they
  cannot touch the lease row the claim has locked); and a superseded message leaves no lease row
  under its token while another message is the head.\<close>

theorem compacted_claim_is_head:
  assumes "claim_compacted between db g k m dur tok now = (claim, db')"
    and "key_leases_ok db"
    and "\<And>d. key_holder (between d) g k = key_holder d g k"
    and "\<And>d. key_leases_ok d \<Longrightarrow> key_leases_ok (between d)"
  shows "(kc_verdict claim = Key_Acquired \<longrightarrow>
      head_message db' (Some k) = Some m \<and> kc_token claim = Some tok)
    \<and> (kc_verdict claim = Key_Superseded \<longrightarrow> head_message db' (Some k) \<noteq> Some m \<longrightarrow>
      (case key_holder db' g k of None \<Rightarrow> True | Some r \<Rightarrow> kl_token r \<noteq> tok))"
proof -
  obtain is_head t db1 where at: "claim_compacted_attempt db g k m dur tok now = ((is_head, t), db1)"
    by (metis prod.collapse)
  obtain deleted db2 where re: "claim_compacted_recheck (between db1) g k m tok = (deleted, db2)"
    by (metis prod.collapse)
  have out: "(claim, db') = (if \<not> is_head
      then (\<lparr>kc_verdict = Key_Superseded, kc_group = g, kc_key = k, kc_token = t\<rparr>, db2)
      else if t = None then (\<lparr>kc_verdict = Key_Busy, kc_group = g, kc_key = k, kc_token = t\<rparr>, db2)
      else if 0 < deleted
      then (\<lparr>kc_verdict = Key_Superseded, kc_group = g, kc_key = k, kc_token = None\<rparr>, db2)
      else (\<lparr>kc_verdict = Key_Acquired, kc_group = g, kc_key = k, kc_token = t\<rparr>, db2))"
    using assms(1) by (simp add: claim_compacted_def at re)
  have db': "db' = db2" using out by (auto split: if_splits)
  have ok1: "key_leases_ok db1"
    using at assms(2) take_key_lease_ok [OF assms(2), of g k dur tok now]
    by (auto simp: claim_compacted_attempt_def split: if_splits prod.splits)
  then have ok: "key_leases_ok (between db1)" by (rule assms(4))
  have won: "t = Some tok \<and> (\<exists>r. key_holder (between db1) g k = Some r \<and> kl_token r = tok)"
    if "is_head" "t \<noteq> None"
  proof -
    have take: "take_key_lease db g k dur tok now = (t, db1)"
      using at that(1) by (auto simp: claim_compacted_attempt_def split: if_splits prod.splits)
    then have "t = Some tok" using that(2) take_key_lease_token [of db g k dur tok now] by auto
    with take take_key_lease_holder [of db g k dur tok now tok] assms(3) show ?thesis by simp
  qed
  show ?thesis
  proof (cases "head_message (between db1) (Some k) = Some m")
    case True
    then have "deleted = 0" "db2 = between db1" using re by (simp_all add: recheck_cases)
    with True out won db' show ?thesis by (auto split: if_splits)
  next
    case False
    then have del: "deleted = fst (delete_key_lease (between db1) g k tok)"
      "db2 = snd (delete_key_lease (between db1) g k tok)"
      using re by (simp_all add: recheck_cases)
    have gone: "case key_holder db2 g k of None \<Rightarrow> True | Some r \<Rightarrow> kl_token r \<noteq> tok"
      using delete_key_lease_holder [OF ok, of g k tok] by (auto simp: del split: option.splits if_splits)
    have "0 < deleted" if "is_head" "t \<noteq> None"
      using won [OF that] delete_key_lease_count [OF ok, of g k tok] by (auto simp: del)
    with out have "kc_verdict claim \<noteq> Key_Acquired" by (auto split: if_splits)
    with gone db' show ?thesis by simp
  qed
qed

definition demo_head :: stream_db where
  "demo_head = demo_db\<lparr>compaction_heads :=
     [\<lparr>hd_key = ''k'', hd_winner = Some (2, 1, 0), hd_created_at = 0, hd_updated_at = 0\<rparr>]\<rparr>"

theorem compacted_claim_is_head_witness:
  "head_message (snd (claim_compacted id demo_head 1 ''k'' 2 10 70 100)) (Some ''k'') = Some 2"
proof -
  have "claim_compacted id demo_head 1 ''k'' 2 10 70 100
      = (\<lparr>kc_verdict = Key_Acquired, kc_group = 1, kc_key = ''k'', kc_token = Some 70\<rparr>,
         snd (claim_compacted id demo_head 1 ''k'' 2 10 70 100))"
    and "key_leases_ok demo_head" by code_simp+
  from compacted_claim_is_head [OF this] show ?thesis by simp
qed

section \<open>What a quarantined range reaches\<close>

text \<open>
  A quarantine hands every message of the log inside the range to the exception consumer, the ones the
  group is not bound to and the ones of another payload version included.
\<close>

definition routed_message :: "int \<Rightarrow> int \<Rightarrow> string \<Rightarrow> message_row" where
  "routed_message i v rk = \<lparr>msg_id = i, msg_schema_version = v, msg_routing_key = Some rk,
     msg_key = None, msg_rank = None, msg_payload = ''{}'', msg_options = None, msg_created_at = 0\<rparr>"

text \<open>
  A group bound to the routing key \<open>a\<close> only, reading version 1; the second message goes to \<open>b\<close>, the
  third is of version 2.
\<close>

definition bound_db :: stream_db where
  "bound_db = empty_db\<lparr>message_log := [routed_message 1 1 ''a'', routed_message 2 1 ''b'', routed_message 3 2 ''a''],
     cursors := [new_cursor 1 0], bindings := [\<lparr>bi_group = 1, bi_pattern = Some ''a'', bi_regex = ''a''\<rparr>]\<rparr>"

definition bound_snapshot :: claim_snapshot where
  "bound_snapshot = \<lparr>sn_head = 3, sn_xid = 5, sn_claimed = 0, sn_settled_head = 0, sn_pending_head = 0,
     sn_reclaimable = False\<rparr>"

text \<open>The group claims the three ids, loses its lease, and the reclaim gives the range up.\<close>

definition bound_claimed :: "claimed_range option exec" where
  "bound_claimed = fresh_claim (\<lambda>k r. k = r) bound_db 1 1 10 10 bound_snapshot 5 100 7"

definition bound_quarantined :: stream_db where
  "bound_quarantined = snd (reclaim_range (\<lambda>k r. k = r) (snd bound_claimed) 1 1 1 10 Mode_Failures (Some 7) 200 8)"

text \<open>The exception consumer claims what it may, and every run succeeds.\<close>

definition bound_exceptions :: "claimed_exception list \<times> stream_db" where
  "bound_exceptions = claim_exceptions bound_quarantined 1 1 10 5 10 Mode_Failures (\<lambda>_. False) (\<lambda>i. nat i + 20) 300"

definition bound_worked :: stream_db where
  "bound_worked = fold (\<lambda>x db. snd (record_success db x Mode_Failures None 305)) (fst bound_exceptions)
     (snd bound_exceptions)"

text \<open>A quarantined range reaches past the group's bindings: the claim of the range read the one
  message the group is bound to, and after the quarantine the exception consumer also runs the message
  of another routing key, which the group never asked for; the message of another payload version gets
  a row too, which no claim ever takes, so it holds the committed mark back for good.\<close>

theorem quarantine_reaches_past_the_bindings:
  "map_sum id (map_option (map (\<lambda>m. ml_id m) \<circ> cr_messages)) (fst bound_claimed) = Inr (Some [1])
   \<and> map xc_message (fst bound_exceptions) = [1, 2]
   \<and> map ex_message (exception_queue bound_quarantined) = [1, 2, 3]
   \<and> \<not> bound (\<lambda>k r. k = r) bound_quarantined 1 (Some ''b'')
   \<and> map ex_message (exception_queue bound_worked) = [3]
   \<and> fst (claim_exceptions bound_worked 1 1 10 5 10 Mode_Failures (\<lambda>_. False) (\<lambda>i. nat i + 30) 1000) = []
   \<and> committed_target bound_worked 1 = Inr 2"
  by code_simp

end
