(* ===== verification/Fence.thy ===== *)
theory Fence
  imports Range_Claims
begin

text \<open>
  Why a claim never skips a message: the snapshot fence of \<open>readClaimSnapshot\<close> and
  \<open>freshClaimMessagesWithCursor\<close>, against producers whose transactions are still open. The
  environment is Postgres as it is documented: transaction ids are assigned in increasing order;
  ids come from the sequence in increasing order and an aborted or unused id is lost; a row is
  visible from its transaction's commit; \<open>pg_snapshot_xmax\<close> is one past the highest completed
  transaction id and \<open>pg_snapshot_xmin\<close> the lowest id still active, or \<open>xmax\<close>. Two facts of the
  code enter as guards of the steps: the produce statement's first write assigns the transaction
  id before \<open>nextval\<close> issues the message id (\<open>step_insert\<close> needs an active transaction), and the
  observation reads the head before it gets its own transaction id (\<open>step_observe\<close>, then
  \<open>step_assign\<close>).
\<close>

record fence =
  fn_db :: stream_db
  fn_next_xid :: xid
  fn_next_id :: int
  fn_active :: "xid set"
  fn_xmax :: xid
  fn_pending :: "(xid \<times> message_row) list"
  fn_reading :: "stream_db set"
  fn_snaps :: "claim_snapshot set"

definition finish :: "fence \<Rightarrow> xid \<Rightarrow> stream_db \<Rightarrow> fence" where
  "finish s x db = s\<lparr>fn_db := db, fn_active := fn_active s - {x},
     fn_xmax := max (fn_xmax s) (Suc x),
     fn_pending := filter (\<lambda>p. fst p \<noteq> x) (fn_pending s)\<rparr>"

definition commit_rows :: "fence \<Rightarrow> xid \<Rightarrow> stream_db" where
  "commit_rows s x = (fn_db s)\<lparr>message_log :=
     message_log (fn_db s) @ map snd (filter (\<lambda>p. fst p = x) (fn_pending s))\<rparr>"

text \<open>An \<open>xmin\<close> that the current snapshot, or any earlier one, may show.\<close>

definition may_see_xmin :: "fence \<Rightarrow> xid \<Rightarrow> bool" where
  "may_see_xmin s m \<longleftrightarrow> m \<le> fn_xmax s \<and> (\<forall>x \<in> fn_active s. m \<le> x)"

text \<open>Work of others on the tables: it leaves the group's claim frontier alone, and the log only
  loses rows, to retention.\<close>

definition same_frontier :: "stream_db \<Rightarrow> stream_db \<Rightarrow> int \<Rightarrow> bool" where
  "same_frontier db db' g \<longleftrightarrow> set (message_log db') \<subseteq> set (message_log db)
     \<and> (case (cursor_of db g, cursor_of db' g) of
          (Some c, Some c') \<Rightarrow> c' = c\<lparr>cur_committed := cur_committed c'\<rparr>
        | (None, None) \<Rightarrow> True
        | _ \<Rightarrow> False)"

inductive fence_step :: "int \<Rightarrow> fence \<Rightarrow> fence \<Rightarrow> bool" for g where
  step_begin: "fence_step g s (s\<lparr>fn_next_xid := Suc (fn_next_xid s),
     fn_active := insert (fn_next_xid s) (fn_active s)\<rparr>)"
| step_insert: "x \<in> fn_active s \<Longrightarrow> msg_id m = fn_next_id s \<Longrightarrow>
     fence_step g s (s\<lparr>fn_next_id := fn_next_id s + 1, fn_pending := (x, m) # fn_pending s\<rparr>)"
| step_burn: "fence_step g s (s\<lparr>fn_next_id := fn_next_id s + 1\<rparr>)"
| step_commit: "x \<in> fn_active s \<Longrightarrow> fence_step g s (finish s x (commit_rows s x))"
| step_abort: "x \<in> fn_active s \<Longrightarrow> fence_step g s (finish s x (fn_db s))"
| step_observe: "fence_step g s (s\<lparr>fn_reading := insert (fn_db s) (fn_reading s)\<rparr>)"
| step_assign: "d \<in> fn_reading s \<Longrightarrow>
     read_claim_snapshot d g now (fn_next_xid s) = Inr snap \<Longrightarrow>
     fence_step g s (s\<lparr>fn_next_xid := Suc (fn_next_xid s),
       fn_xmax := max (fn_xmax s) (Suc (fn_next_xid s)),
       fn_snaps := insert snap (fn_snaps s)\<rparr>)"
| step_claim: "snap \<in> fn_snaps s \<Longrightarrow> may_see_xmin s xmin \<Longrightarrow> 0 \<le> limit \<Longrightarrow>
     claim_with_cursor rx (fn_db s) g schema limit maxr dur mode snap picked xmin now tok
       = (res, db') \<Longrightarrow>
     fence_step g s (s\<lparr>fn_db := db'\<rparr>)"
| step_other: "same_frontier (fn_db s) db' g \<Longrightarrow> fence_step g s (s\<lparr>fn_db := db'\<rparr>)"

section \<open>What a head and a transaction id promise\<close>

definition settled_at :: "fence \<Rightarrow> int \<Rightarrow> int \<Rightarrow> bool" where
  "settled_at s start h \<longleftrightarrow> h < fn_next_id s
     \<and> (\<forall>p \<in> set (fn_pending s). start < msg_id (snd p) \<longrightarrow> h < msg_id (snd p))"

definition pair_ok :: "fence \<Rightarrow> int \<Rightarrow> int \<Rightarrow> xid \<Rightarrow> bool" where
  "pair_ok s start h x \<longleftrightarrow> h < fn_next_id s
     \<and> (\<forall>p \<in> set (fn_pending s). start < msg_id (snd p) \<and> msg_id (snd p) \<le> h \<longrightarrow> fst p < x)"

definition env_ok :: "fence \<Rightarrow> bool" where
  "env_ok s \<longleftrightarrow> (\<forall>x \<in> fn_active s. x < fn_next_xid s)
     \<and> (\<forall>p \<in> set (fn_pending s). fst p \<in> fn_active s \<and> msg_id (snd p) < fn_next_id s)
     \<and> (\<forall>m \<in> set (message_log (fn_db s)). msg_id m < fn_next_id s)
     \<and> (\<forall>d \<in> fn_reading s. \<forall>m \<in> set (message_log d). msg_id m < fn_next_id s)
     \<and> 1 \<le> fn_next_id s"

definition snap_ok :: "fence \<Rightarrow> int \<Rightarrow> claim_snapshot \<Rightarrow> bool" where
  "snap_ok s start snap \<longleftrightarrow>
     idle_snapshot (sn_head snap) (sn_pending_head snap) (sn_settled_head snap) (sn_claimed snap)
     \<or> pair_ok s start (sn_head snap) (sn_xid snap)"

definition cursor_ok :: "fence \<Rightarrow> int \<Rightarrow> cursor_row \<Rightarrow> bool" where
  "cursor_ok s start c \<longleftrightarrow> start \<le> cur_claimed c \<and> cur_claimed c \<le> cur_settled_head c
     \<and> settled_at s start (cur_settled_head c)
     \<and> (case cur_pending_xid c of None \<Rightarrow> cur_pending_head c \<le> start \<and> cur_pending_head c < fn_next_id s
        | Some x \<Rightarrow> pair_ok s start (cur_pending_head c) x)"

definition fence_inv :: "int \<Rightarrow> int \<Rightarrow> fence \<Rightarrow> bool" where
  "fence_inv g start s \<longleftrightarrow> env_ok s
     \<and> (case cursor_of (fn_db s) g of None \<Rightarrow> False | Some c \<Rightarrow> cursor_ok s start c)
     \<and> (\<forall>snap \<in> fn_snaps s. snap_ok s start snap)"

text \<open>Any state in which the group has just been registered and has made no observation yet.\<close>

definition fence_start :: "int \<Rightarrow> int \<Rightarrow> fence \<Rightarrow> bool" where
  "fence_start g start s \<longleftrightarrow> env_ok s \<and> fn_reading s = {} \<and> fn_snaps s = {}
     \<and> 0 \<le> start \<and> start < fn_next_id s
     \<and> cursor_of (fn_db s) g = Some \<lparr>cur_group = g, cur_claimed = start, cur_committed = start,
          cur_settled_head = start, cur_pending_head = 0, cur_pending_xid = None\<rparr>"

lemma fence_start_inv: "fence_start g start s \<Longrightarrow> fence_inv g start s"
  by (auto simp: fence_start_def fence_inv_def cursor_ok_def settled_at_def)

text \<open>Promises only get easier to keep when ids are issued above the head or rows go away.\<close>

lemma promises_mono:
  assumes "fn_next_id s \<le> fn_next_id s'"
    "\<And>p. p \<in> set (fn_pending s') \<Longrightarrow> p \<in> set (fn_pending s) \<or> fn_next_id s \<le> msg_id (snd p)"
  shows "settled_at s start h \<Longrightarrow> settled_at s' start h"
    and "pair_ok s start h x \<Longrightarrow> pair_ok s' start h x"
    and "snap_ok s start snap \<Longrightarrow> snap_ok s' start snap"
    and "cursor_ok s start c \<Longrightarrow> cursor_ok s' start c"
proof -
  show 1: "settled_at s' start h" if "settled_at s start h" for h
    using assms that unfolding settled_at_def by fastforce
  show 2: "pair_ok s' start h x" if "pair_ok s start h x" for h x
    using assms that unfolding pair_ok_def by fastforce
  show "snap_ok s start snap \<Longrightarrow> snap_ok s' start snap"
    using 2 by (auto simp: snap_ok_def)
  show "cursor_ok s start c \<Longrightarrow> cursor_ok s' start c"
    using 1 2 assms(1) by (auto simp: cursor_ok_def split: option.splits)
qed

lemma proven_pair_settled:
  assumes "env_ok s" "pair_ok s start h x" "x \<le> m" "may_see_xmin s m"
  shows "settled_at s start h"
  using assms unfolding settled_at_def pair_ok_def env_ok_def may_see_xmin_def
  by (metis leD leI order.trans)

section \<open>The gate\<close>

lemma gate_settled:
  assumes env: "env_ok s" and c: "cursor_ok s start c" and x: "may_see_xmin s xmin"
    and snap: "pair_ok s start (sn_head snap) (sn_xid snap)"
  shows "settled_at s start (gate_head c snap xmin)"
  using gate_head_cases [of c snap xmin]
proof (elim disjE)
  assume "gate_head c snap xmin = cur_settled_head c"
  with c show ?thesis by (simp add: cursor_ok_def)
next
  assume "gate_head c snap xmin = sn_head snap \<and> sn_xid snap \<le> xmin"
  with proven_pair_settled [OF env snap _ x] show ?thesis by simp
next
  assume g: "gate_head c snap xmin = cur_pending_head c \<and> proven xmin (cur_pending_xid c)"
  show ?thesis
  proof (cases "cur_pending_xid c")
    case None
    with c g show ?thesis by (auto simp: cursor_ok_def settled_at_def)
  next
    case (Some y)
    with c g proven_pair_settled [OF env, of start "cur_pending_head c" y xmin] x show ?thesis
      by (simp add: cursor_ok_def proven_def)
  qed
qed

lemma pair_ok_max:
  assumes "pair_ok s start h x" "pair_ok s start h' x'"
  shows "pair_ok s start (max h h') (max x x')"
  using assms by (fastforce simp: pair_ok_def max_def)

lemma pair_ok_max_start:
  assumes "pair_ok s start h x" "h' \<le> start" "h' < fn_next_id s"
  shows "pair_ok s start (max h' h) x"
  using assms by (fastforce simp: pair_ok_def max_def)

lemma advance_cursor_ok:
  assumes env: "env_ok s" and c: "cursor_ok s start c" and x: "may_see_xmin s xmin"
    and snap: "pair_ok s start (sn_head snap) (sn_xid snap)" and l: "0 \<le> limit"
  shows "cursor_ok s start (advance_cursor c limit snap xmin)"
    and "cur_claimed c \<le> cur_claimed (advance_cursor c limit snap xmin)"
proof -
  let ?c' = "advance_cursor c limit snap xmin"
  have sel: "cur_settled_head ?c' = gate_head c snap xmin"
    "cur_claimed ?c' = min (cur_claimed c + limit) (gate_head c snap xmin)"
    "cur_pending_head ?c' = max (cur_pending_head c) (sn_head snap)"
    "cur_pending_xid ?c' = max_null (cur_pending_xid c) (Some (sn_xid snap))"
    by (simp_all add: advance_cursor_def Let_def)
  have "case cur_pending_xid ?c' of None \<Rightarrow> False
      | Some y \<Rightarrow> pair_ok s start (cur_pending_head ?c') y"
    using c snap pair_ok_max pair_ok_max_start
    by (cases "cur_pending_xid c") (auto simp: sel cursor_ok_def)
  moreover show le: "cur_claimed c \<le> cur_claimed ?c'"
    using c l gate_head_ge [of c snap xmin] by (auto simp: sel(2) cursor_ok_def)
  moreover have "start \<le> cur_claimed c" "cur_claimed ?c' \<le> cur_settled_head ?c'"
    using c by (simp_all add: cursor_ok_def sel(1,2))
  ultimately show "cursor_ok s start ?c'"
    using gate_settled [OF env c x snap] by (auto simp: cursor_ok_def sel(1) split: option.splits)
qed

section \<open>Claims leave the log alone\<close>

lemma quarantine_frontier:
  "quarantine db g l mode now = (Inr u, db') \<Longrightarrow>
   cursors db' = cursors db \<and> message_log db' = message_log db"
  by (auto simp: quarantine_def insert_exceptions_def Let_def split: if_splits)

lemma reclaim_frontier:
  assumes "reclaim_range rx db g schema maxr dur mode picked now tok = (res, db')"
  shows "cursors db' = cursors db \<and> message_log db' = message_log db"
proof (cases "db' = db")
  case False
  with assms obtain t l where pt: "picked = Some t" and fl: "find (\<lambda>l. cl_group l = g \<and> cl_token l = t
      \<and> cl_expires l < now) (claim_leases db) = Some l"
    by (auto simp: reclaim_range_def split: option.splits)
  let ?db1 = "db\<lparr>claim_leases := update_where (\<lambda>r. lease_key r = (g, t))
      (\<lambda>_. reclaimed l dur now tok) (claim_leases db)\<rparr>"
  from assms False show ?thesis
    using quarantine_frontier [of ?db1 g "reclaimed l dur now tok" mode now]
    by (cases "quarantine ?db1 g (reclaimed l dur now tok) mode now")
      (auto simp: reclaim_range_def pt fl Let_def split: if_splits sum.splits)
qed simp

lemma claim_messages_frontier:
  assumes "claim_messages rx db g schema low high dur now tok = (res, db')"
  shows "cursors db' = cursors db \<and> message_log db' = message_log db"
  using assms by (auto simp: claim_messages_def insert_claim_lease_def Let_def split: if_splits)

lemma fresh_claim_frontier:
  assumes "fresh_claim rx db g schema limit dur snap xmin now tok = (res, db')"
    and c: "cursor_of db g = Some c"
  shows "message_log db' = message_log db
    \<and> (db' = db \<or> cursor_of db' g = Some (advance_cursor c limit snap xmin))"
proof -
  define c' where "c' = advance_cursor c limit snap xmin"
  define db1 where
    "db1 = db\<lparr>cursors := update_where (\<lambda>r. cur_group r = g) (\<lambda>_. c') (cursors db)\<rparr>"
  have op: "(if cur_claimed c = cur_claimed c' then (Inr None, db1)
      else (case claim_messages rx db1 g schema (cur_claimed c) (cur_claimed c') dur now tok of
          (Inl e, _) \<Rightarrow> (Inl e, db) | (Inr r, db2) \<Rightarrow> (Inr (Some r), db2))) = (res, db')"
    using assms(1) unfolding fresh_claim_def c Let_def c'_def db1_def by simp
  have cg: "cur_group c' = g" using cursor_of_SomeD [OF c] by (simp add: c'_def advance_cursor_def Let_def)
  then have cur1: "cursor_of db1 g = Some c'" and log1: "message_log db1 = message_log db"
    using c by (simp_all add: db1_def cursor_of_def find_update_same)
  show ?thesis
  proof (cases "claim_messages rx db1 g schema (cur_claimed c) (cur_claimed c') dur now tok")
    case (Pair r db2)
    note fr = claim_messages_frontier [OF Pair]
    have "cursor_of db2 g = Some c'" using cur1 fr by (simp add: cursor_of_def)
    with op Pair fr cur1 log1 show ?thesis
      by (auto simp: c'_def [symmetric] split: if_splits sum.splits)
  qed
qed

text \<open>A snapshot that the Go code would not have claimed on is never claimed on.\<close>

lemma claim_with_cursor_frontier:
  assumes op: "claim_with_cursor rx db g schema limit maxr dur mode snap picked xmin now tok = (res, db')"
    and c: "cursor_of db g = Some c"
  shows "message_log db' = message_log db
    \<and> (cursor_of db' g = Some c
       \<or> (cursor_of db' g = Some (advance_cursor c limit snap xmin)
          \<and> \<not> idle_snapshot (sn_head snap) (sn_pending_head snap) (sn_settled_head snap) (sn_claimed snap)))"
proof -
  let ?idle = "idle_snapshot (sn_head snap) (sn_pending_head snap) (sn_settled_head snap) (sn_claimed snap)"
  let ?fresh = "if ?idle then (Inr None, db) else fresh_claim rx db g schema limit dur snap xmin now tok"
  have fresh: ?thesis if "?fresh = (res, db')"
    using that c fresh_claim_frontier [OF _ c, of rx schema limit dur snap xmin now tok res db']
    by (auto split: if_splits)
  show ?thesis
  proof (cases "sn_reclaimable snap")
    case False
    with op fresh show ?thesis by (simp add: claim_with_cursor_def Let_def)
  next
    case True
    obtain r d where rec: "reclaim_range rx db g schema maxr dur mode picked now tok = (r, d)"
      by (metis prod.collapse)
    have d: "cursor_of d g = Some c" "message_log d = message_log db"
      using reclaim_frontier [OF rec] c by (simp_all add: cursor_of_def)
    show ?thesis
    proof (cases "r = Inr None")
      case none: True
      with op fresh True rec show ?thesis by (simp add: claim_with_cursor_def Let_def)
    next
      case False
      then have "db' = d" using op True rec
        by (auto simp: claim_with_cursor_def Let_def split: sum.splits option.splits)
      with d show ?thesis by simp
    qed
  qed
qed

section \<open>The invariant of the fence\<close>

lemma fence_invE:
  assumes "fence_inv g start s"
  obtains c where "env_ok s" "cursor_of (fn_db s) g = Some c" "cursor_ok s start c"
    "\<And>snap. snap \<in> fn_snaps s \<Longrightarrow> snap_ok s start snap"
  using assms by (auto simp: fence_inv_def split: option.splits)

lemma fence_invI:
  "env_ok s \<Longrightarrow> cursor_of (fn_db s) g = Some c \<Longrightarrow> cursor_ok s start c \<Longrightarrow>
   (\<And>snap. snap \<in> fn_snaps s \<Longrightarrow> snap_ok s start snap) \<Longrightarrow> fence_inv g start s"
  by (simp add: fence_inv_def)

text \<open>Steps that leave the tables' frontier and the snapshots alone.\<close>

lemma fence_inv_keep:
  assumes inv: "fence_inv g start s" and env: "env_ok s'"
    and "fn_next_id s \<le> fn_next_id s'"
    "\<And>p. p \<in> set (fn_pending s') \<Longrightarrow> p \<in> set (fn_pending s) \<or> fn_next_id s \<le> msg_id (snd p)"
    and db: "cursor_of (fn_db s') g = cursor_of (fn_db s) g" and snaps: "fn_snaps s' \<subseteq> fn_snaps s"
  shows "fence_inv g start s'"
proof -
  note mono = promises_mono [of s s' start, OF assms(3,4)]
  from inv obtain c where c: "cursor_of (fn_db s) g = Some c" "cursor_ok s start c"
    "\<And>snap. snap \<in> fn_snaps s \<Longrightarrow> snap_ok s start snap"
    by (rule fence_invE) blast
  show ?thesis
    using env db c mono(3,4) snaps by (intro fence_invI [of s' g c]) auto
qed

lemma commit_rows_log:
  "set (message_log (commit_rows s x)) =
     set (message_log (fn_db s)) \<union> {m. (x, m) \<in> set (fn_pending s)}"
  by (force simp: commit_rows_def)

lemma cursor_commit_rows [simp]: "cursor_of (commit_rows s x) g = cursor_of (fn_db s) g"
  by (simp add: commit_rows_def cursor_of_def)

lemma finish_inv:
  assumes inv: "fence_inv g start s"
    and db: "cursor_of db g = cursor_of (fn_db s) g"
      "\<And>m. m \<in> set (message_log db) \<Longrightarrow> msg_id m < fn_next_id s"
  shows "fence_inv g start (finish s x db)"
proof (rule fence_inv_keep [OF inv])
  have "env_ok s" using inv by (simp add: fence_inv_def)
  with db show "env_ok (finish s x db)" by (auto simp: env_ok_def finish_def)
qed (auto simp: finish_def db)

lemma snapshot_pair:
  assumes env: "env_ok s" and d: "d \<in> fn_reading s"
    and op: "read_claim_snapshot d g now (fn_next_xid s) = Inr snap"
  shows "snap_ok s start snap"
proof -
  obtain c where c: "cursor_of d g = Some c"
    using op by (cases "cursor_of d g") (simp_all add: read_claim_snapshot_def)
  with op have snap: "snap = \<lparr>sn_head = max_id (message_log d),
      sn_xid = (if idle_snapshot (max_id (message_log d)) (cur_pending_head c) (cur_settled_head c)
        (cur_claimed c) then 0 else fn_next_xid s), sn_claimed = cur_claimed c,
      sn_settled_head = cur_settled_head c, sn_pending_head = cur_pending_head c,
      sn_reclaimable = (\<exists>l \<in> set (claim_leases d). cl_group l = g \<and> cl_expires l < now)\<rparr>"
    by (simp add: read_claim_snapshot_def)
  have "max_id (message_log d) \<le> fn_next_id s - 1"
    using env d by (intro max_id_le) (auto simp: env_ok_def)
  then have "pair_ok s start (max_id (message_log d)) (fn_next_xid s)"
    using env by (auto simp: pair_ok_def env_ok_def)
  then show ?thesis by (simp add: snap snap_ok_def)
qed

lemma claim_inv:
  assumes inv: "fence_inv g start s" and snap: "snap \<in> fn_snaps s" and x: "may_see_xmin s xmin"
    and l: "0 \<le> limit"
    and op: "claim_with_cursor rx (fn_db s) g schema limit maxr dur mode snap picked xmin now tok = (res, db')"
  shows "fence_inv g start (s\<lparr>fn_db := db'\<rparr>)"
proof -
  from inv obtain c where c: "env_ok s" "cursor_of (fn_db s) g = Some c" "cursor_ok s start c"
    "\<And>snap. snap \<in> fn_snaps s \<Longrightarrow> snap_ok s start snap" by (rule fence_invE) blast
  note fr = claim_with_cursor_frontier [OF op c(2)]
  have mono: "cursor_ok s start k \<Longrightarrow> cursor_ok (s\<lparr>fn_db := db'\<rparr>) start k"
    "snap_ok s start n \<Longrightarrow> snap_ok (s\<lparr>fn_db := db'\<rparr>) start n" for k n
    by (auto intro: promises_mono(3,4) [of s "s\<lparr>fn_db := db'\<rparr>" start])
  have env: "env_ok (s\<lparr>fn_db := db'\<rparr>)" using c(1) fr by (simp add: env_ok_def)
  show ?thesis
  proof (cases "cursor_of db' g = Some c")
    case True
    with c env mono show ?thesis by (intro fence_invI [of _ g c]) auto
  next
    case False
    with fr have cur: "cursor_of db' g = Some (advance_cursor c limit snap xmin)"
      and "\<not> idle_snapshot (sn_head snap) (sn_pending_head snap) (sn_settled_head snap) (sn_claimed snap)"
      by auto
    with c(4) [OF snap] have "pair_ok s start (sn_head snap) (sn_xid snap)" by (simp add: snap_ok_def)
    from advance_cursor_ok(1) [OF c(1,3) x this l] cur c env mono show ?thesis
      by (intro fence_invI [of _ g "advance_cursor c limit snap xmin"]) auto
  qed
qed

lemma other_inv:
  assumes inv: "fence_inv g start s" and o: "same_frontier (fn_db s) db' g"
  shows "fence_inv g start (s\<lparr>fn_db := db'\<rparr>)"
proof -
  from inv obtain c where c: "env_ok s" "cursor_of (fn_db s) g = Some c" "cursor_ok s start c"
    "\<And>snap. snap \<in> fn_snaps s \<Longrightarrow> snap_ok s start snap" by (rule fence_invE) blast
  from o c(2) obtain k where k: "cursor_of db' g = Some (c\<lparr>cur_committed := k\<rparr>)"
    and sub: "set (message_log db') \<subseteq> set (message_log (fn_db s))"
    by (auto simp: same_frontier_def split: option.splits)
  have "cursor_ok (s\<lparr>fn_db := db'\<rparr>) start (c\<lparr>cur_committed := k\<rparr>)"
    using c(3) by (simp add: cursor_ok_def settled_at_def pair_ok_def cong: option.case_cong)
  moreover have "env_ok (s\<lparr>fn_db := db'\<rparr>)" using c(1) sub by (auto simp: env_ok_def)
  moreover have "snap_ok (s\<lparr>fn_db := db'\<rparr>) start n" if "n \<in> fn_snaps s" for n
    using c(4) [OF that] by (simp add: snap_ok_def pair_ok_def)
  ultimately show ?thesis using k by (intro fence_invI) auto
qed

lemma fence_step_inv:
  assumes "fence_step g s s'" and inv: "fence_inv g start s"
  shows "fence_inv g start s'"
proof -
  have env: "env_ok s" using inv by (simp add: fence_inv_def)
  from assms(1) show ?thesis
  proof cases
    case step_begin
    with env show ?thesis
      by (intro fence_inv_keep [OF inv]) (auto simp: env_ok_def less_Suc_eq)
  next
    case (step_insert x m)
    with env show ?thesis
      by (intro fence_inv_keep [OF inv]) (fastforce simp: env_ok_def)+
  next
    case step_burn
    with env show ?thesis
      by (intro fence_inv_keep [OF inv]) (fastforce simp: env_ok_def)+
  next
    case (step_commit x)
    have "msg_id m < fn_next_id s" if "(x, m) \<in> set (fn_pending s)" for m
      using env that by (force simp: env_ok_def)
    with env show ?thesis
      unfolding step_commit(1) by (intro finish_inv [OF inv]) (auto simp: env_ok_def commit_rows_log)
  next
    case (step_abort x)
    with env show ?thesis by (auto simp: env_ok_def intro!: finish_inv [OF inv])
  next
    case step_observe
    with env show ?thesis
      by (intro fence_inv_keep [OF inv]) (auto simp: env_ok_def)
  next
    case (step_assign d now snap)
    let ?s = "s\<lparr>fn_next_xid := Suc (fn_next_xid s), fn_xmax := max (fn_xmax s) (Suc (fn_next_xid s))\<rparr>"
    have "fence_inv g start ?s"
      using env by (intro fence_inv_keep [OF inv]) (auto simp: env_ok_def)
    moreover have "snap_ok s' start snap"
      using snapshot_pair [OF env step_assign(2,3)] by (simp add: step_assign(1) snap_ok_def pair_ok_def)
    moreover have "env_ok s'" "\<And>c. cursor_ok s' start c = cursor_ok ?s start c"
      "\<And>n. snap_ok s' start n = snap_ok ?s start n"
      using env by (auto simp: step_assign(1) env_ok_def cursor_ok_def settled_at_def pair_ok_def
          snap_ok_def cong: option.case_cong)
    ultimately show ?thesis by (auto simp: fence_inv_def step_assign(1) cong: option.case_cong)
  next
    case step_claim
    then show ?thesis using claim_inv [OF inv] by simp
  next
    case (step_other db')
    then show ?thesis using other_inv [OF inv] by simp
  qed
qed

section \<open>No message appears below the claim frontier\<close>

definition claimed_of :: "fence \<Rightarrow> int \<Rightarrow> int" where
  "claimed_of s g = (case cursor_of (fn_db s) g of None \<Rightarrow> 0 | Some c \<Rightarrow> cur_claimed c)"

lemma claimed_settled:
  assumes "fence_inv g start s" "p \<in> set (fn_pending s)" "start < msg_id (snd p)"
  shows "claimed_of s g < msg_id (snd p)"
  using assms by (fastforce simp: claimed_of_def cursor_ok_def settled_at_def elim: fence_invE)

lemma step_log:
  assumes "fence_step g s s'" and inv: "fence_inv g start s"
    and m: "m \<in> set (message_log (fn_db s'))" "start < msg_id m" "msg_id m \<le> claimed_of s g"
  shows "m \<in> set (message_log (fn_db s))"
  using assms(1)
proof cases
  case (step_commit x)
  then show ?thesis
    using m claimed_settled [OF inv] by (fastforce simp: finish_def commit_rows_log)
next
  case (step_claim snap xmin limit rx schema maxr dur mode picked now tok res db')
  from inv obtain c where "cursor_of (fn_db s) g = Some c" by (rule fence_invE)
  with step_claim m claim_with_cursor_frontier show ?thesis by simp
next
  case (step_other db')
  with m show ?thesis by (auto simp: same_frontier_def)
qed (use m in \<open>auto simp: finish_def\<close>)

lemma step_claimed:
  assumes "fence_step g s s'" and inv: "fence_inv g start s"
  shows "claimed_of s g \<le> claimed_of s' g"
  using assms(1)
proof cases
  case (step_claim snap xmin limit rx schema maxr dur mode picked now tok res db')
  from inv obtain c where c: "env_ok s" "cursor_of (fn_db s) g = Some c" "cursor_ok s start c"
    "\<And>snap. snap \<in> fn_snaps s \<Longrightarrow> snap_ok s start snap" by (rule fence_invE) blast
  have "cur_claimed c \<le> cur_claimed (advance_cursor c limit snap xmin)"
    using c(3) step_claim(4) gate_head_ge [of c snap xmin]
    by (simp add: advance_cursor_def Let_def cursor_ok_def)
  with step_claim c claim_with_cursor_frontier [OF step_claim(5) c(2)] show ?thesis
    by (auto simp: claimed_of_def)
next
  case (step_other db')
  then show ?thesis
    by (auto simp: claimed_of_def same_frontier_def dest: arg_cong [where f = cur_claimed]
        split: option.splits)
qed (simp_all add: claimed_of_def finish_def)

lemma steps_log:
  assumes "(fence_step g)\<^sup>*\<^sup>* s s'" and inv: "fence_inv g start s"
    and m: "m \<in> set (message_log (fn_db s'))" "start < msg_id m" "msg_id m \<le> claimed_of s g"
  shows "m \<in> set (message_log (fn_db s))"
proof -
  have "fence_inv g start s' \<and> claimed_of s g \<le> claimed_of s' g
      \<and> (\<forall>m. m \<in> set (message_log (fn_db s')) \<and> start < msg_id m \<and> msg_id m \<le> claimed_of s g
          \<longrightarrow> m \<in> set (message_log (fn_db s)))"
    using assms(1)
  proof (induction rule: rtranclp_induct)
    case base
    with inv show ?case by simp
  next
    case (step y z)
    then show ?case
      using fence_step_inv [OF step(2)] step_claimed [OF step(2)] step_log [OF step(2)]
      by (meson order.trans)
  qed
  with m show ?thesis by blast
qed

definition fence_reachable :: "int \<Rightarrow> int \<Rightarrow> fence \<Rightarrow> bool" where
  "fence_reachable g start s \<longleftrightarrow> (\<exists>s0. fence_start g start s0 \<and> (fence_step g)\<^sup>*\<^sup>* s0 s)"

lemma fence_reachable_inv: "fence_reachable g start s \<Longrightarrow> fence_inv g start s"
proof -
  assume "fence_reachable g start s"
  then obtain s0 where "fence_start g start s0" "(fence_step g)\<^sup>*\<^sup>* s0 s"
    by (auto simp: fence_reachable_def)
  from this(2) fence_start_inv [OF this(1)] show ?thesis
    by (induction rule: rtranclp_induct) (auto intro: fence_step_inv)
qed

end
