(* ===== verification/Fence_Properties.thy ===== *)
theory Fence_Properties
  imports Fence Frontier_Ops
begin

text \<open>
  What the snapshot fence gives a consumer group, with a concrete run of two producers and one
  claim: the producer of message 1 is still open when message 2 is already visible.
\<close>

section \<open>A concrete run\<close>

definition fence_message :: "int \<Rightarrow> message_row" where
  "fence_message i = \<lparr>msg_id = i, msg_schema_version = 1, msg_routing_key = None,
     msg_key = None, msg_rank = None, msg_payload = ''{}'', msg_options = None,
     msg_created_at = 0\<rparr>"

definition run_db :: "message_row list \<Rightarrow> stream_db" where
  "run_db ms = empty_db\<lparr>message_log := ms, cursors := [\<lparr>cur_group = 1, cur_claimed = 0,
     cur_committed = 0, cur_settled_head = 0, cur_pending_head = 0, cur_pending_xid = None\<rparr>]\<rparr>"

definition run0 :: fence where
  "run0 = \<lparr>fn_db = run_db [], fn_next_xid = 7, fn_next_id = 3, fn_active = {5, 6}, fn_xmax = 5,
     fn_pending = [(6, fence_message 2), (5, fence_message 1)], fn_reading = {}, fn_snaps = {}\<rparr>"

lemma run0_start: "fence_start 1 0 run0"
  by (auto simp: fence_start_def run0_def run_db_def env_ok_def fence_message_def empty_db_def
      cursor_of_def)

text \<open>Transaction 6 commits message 2 while transaction 5 still holds message 1.\<close>

definition run1 :: fence where "run1 = finish run0 6 (commit_rows run0 6)"

lemma run1_eq: "run1 = \<lparr>fn_db = run_db [fence_message 2], fn_next_xid = 7, fn_next_id = 3,
    fn_active = {5}, fn_xmax = 7, fn_pending = [(5, fence_message 1)], fn_reading = {},
    fn_snaps = {}\<rparr>"
  by (simp add: run1_def finish_def commit_rows_def run0_def run_db_def insert_Diff_if)

definition run2 :: fence where "run2 = run1\<lparr>fn_reading := insert (fn_db run1) (fn_reading run1)\<rparr>"

definition run_snapshot :: claim_snapshot where
  "run_snapshot = \<lparr>sn_head = 2, sn_xid = 7, sn_claimed = 0, sn_settled_head = 0,
     sn_pending_head = 0, sn_reclaimable = False\<rparr>"

lemma run_snapshot_read:
  "read_claim_snapshot (run_db [fence_message 2]) 1 100 7 = Inr run_snapshot"
  by code_simp

definition run3 :: fence where
  "run3 = run2\<lparr>fn_next_xid := Suc (fn_next_xid run2),
     fn_xmax := max (fn_xmax run2) (Suc (fn_next_xid run2)),
     fn_snaps := insert run_snapshot (fn_snaps run2)\<rparr>"

definition run4 :: fence where "run4 = finish run3 5 (commit_rows run3 5)"

lemma run4_eq: "run4 = \<lparr>fn_db = run_db [fence_message 2, fence_message 1], fn_next_xid = 8,
    fn_next_id = 3, fn_active = {}, fn_xmax = 8, fn_pending = [],
    fn_reading = {run_db [fence_message 2]}, fn_snaps = {run_snapshot}\<rparr>"
  by (simp add: run4_def finish_def commit_rows_def run3_def run2_def run1_eq run_db_def)

lemma run_steps: "(fence_step 1)\<^sup>*\<^sup>* run0 run4"
proof -
  have 1: "fence_step 1 run0 run1" unfolding run1_def by (rule step_commit) (simp add: run0_def)
  have 2: "fence_step 1 run1 run2" unfolding run2_def by (rule step_observe)
  have 3: "fence_step 1 run2 run3"
    unfolding run3_def
    by (rule step_assign [where d = "run_db [fence_message 2]" and now = 100])
      (simp_all add: run2_def run1_eq run_snapshot_read)
  have 4: "fence_step 1 run3 run4"
    unfolding run4_def by (rule step_commit) (simp add: run3_def run2_def run1_eq)
  note converse_rtranclp_into_rtranclp [of "fence_step 1"]
  from this [OF 1 this [OF 2 this [OF 3 this [OF 4 rtranclp.rtrancl_refl]]]] show ?thesis .
qed

lemma run4_reachable: "fence_reachable 1 0 run4"
  using run0_start run_steps by (auto simp: fence_reachable_def)

text \<open>While transaction 5 is open the fence holds the claim back; afterwards it claims (0, 2].\<close>

lemma run_held_back: "fst (claim_with_cursor (\<lambda>_ _. True) (fn_db run1) 1 1 10 3 30 Mode_Off
    run_snapshot None 5 100 9) = Inr None"
  unfolding run1_eq by code_simp

definition run_claimed :: stream_db where
  "run_claimed = snd (claim_with_cursor (\<lambda>_ _. True) (run_db [fence_message 2, fence_message 1])
     1 1 10 3 30 Mode_Off run_snapshot None 8 100 9)"

definition run_range :: claimed_range where
  "run_range = \<lparr>cr_lease = \<lparr>cl_group = 1, cl_token = 9, cl_low = 0, cl_high = 2, cl_expires = 130,
     cl_reclaims = 0\<rparr>, cr_messages = map to_message_log_row [fence_message 1, fence_message 2],
     cr_quarantined = False\<rparr>"

lemma run_claim: "claim_with_cursor (\<lambda>_ _. True) (fn_db run4) 1 1 10 3 30 Mode_Off run_snapshot
    None 8 100 9 = (Inr (Some run_range), run_claimed)"
  unfolding run4_eq fence.simps by code_simp

definition run5 :: fence where "run5 = run4\<lparr>fn_db := run_claimed\<rparr>"

lemma run_sees: "may_see_xmin run4 8" "run_snapshot \<in> fn_snaps run4"
  by (simp_all add: may_see_xmin_def run4_eq)

lemma run5_reachable: "fence_reachable 1 0 run5"
proof -
  have "fence_step 1 run4 run5"
    unfolding run5_def by (rule step_claim [OF run_sees(2,1) _ run_claim]) simp
  with run0_start run_steps show ?thesis
    unfolding fence_reachable_def by (meson rtranclp.rtrancl_into_rtrancl)
qed

lemma run5_claimed: "claimed_of run5 1 = 2" "message_log (fn_db run5) = [fence_message 2, fence_message 1]"
proof -
  have "(case cursor_of run_claimed 1 of None \<Rightarrow> 0 | Some c \<Rightarrow> cur_claimed c) = 2"
    "message_log run_claimed = [fence_message 2, fence_message 1]" by code_simp+
  then show "claimed_of run5 1 = 2" "message_log (fn_db run5) = [fence_message 2, fence_message 1]"
    by (simp_all add: claimed_of_def run5_def)
qed

section \<open>The fence\<close>

text \<open>C1: no message is lost below the claim frontier: in every interleaving of producers,
  observations and claims, once a group has claimed up to an id, no message with a smaller id
  (above the group's start) becomes visible later, whatever transactions were still open.\<close>

theorem no_message_appears_below_claimed:
  assumes "fence_reachable g start s" "(fence_step g)\<^sup>*\<^sup>* s s'"
    and "m \<in> set (message_log (fn_db s'))" "start < msg_id m" "msg_id m \<le> claimed_of s g"
  shows "m \<in> set (message_log (fn_db s))"
  using steps_log [OF assms(2) fence_reachable_inv [OF assms(1)] assms(3-5)] .

theorem no_message_appears_below_claimed_witness:
  "fence_message 1 \<in> set (message_log (fn_db run5))"
  by (rule no_message_appears_below_claimed [OF run5_reachable rtranclp.rtrancl_refl])
    (simp_all add: run5_claimed, simp_all add: fence_message_def)

text \<open>C2: a fresh claim hands out every message it should: any message that is ever visible inside
  the claimed range, now or after any number of further steps, and that the group's read accepts
  at the claim, is in the batch the claim returned.\<close>

theorem fresh_claim_reads_everything:
  assumes "fence_reachable g start s" "snap \<in> fn_snaps s" "may_see_xmin s xmin" "0 \<le> limit"
    and "\<not> sn_reclaimable snap"
    and "claim_with_cursor rx (fn_db s) g schema limit maxr dur mode snap picked xmin now tok
      = (Inr (Some r), db')"
    and "(fence_step g)\<^sup>*\<^sup>* (s\<lparr>fn_db := db'\<rparr>) s'"
    and "m \<in> set (message_log (fn_db s'))"
    and "readable rx (fn_db s) g schema (cl_low (cr_lease r)) (cl_high (cr_lease r)) m"
  shows "to_message_log_row m \<in> set (cr_messages r)"
proof -
  have inv: "fence_inv g start s" by (rule fence_reachable_inv [OF assms(1)])
  then obtain c where c: "env_ok s" "cursor_of (fn_db s) g = Some c" "cursor_ok s start c"
    "\<And>snap. snap \<in> fn_snaps s \<Longrightarrow> snap_ok s start snap" by (rule fence_invE) blast
  have fresh: "fresh_claim rx (fn_db s) g schema limit dur snap xmin now tok = (Inr (Some r), db')"
    using assms(5,6) by (auto simp: claim_with_cursor_def Let_def split: if_splits)
  have le: "cur_claimed c \<le> cur_settled_head c" "start \<le> cur_claimed c"
    using c(3) by (simp_all add: cursor_ok_def)
  show ?thesis
    using fresh c(2) le(1) assms(4)
  proof (cases rule: fresh_claim_cases)
    case (claimed r')
    have r: "r' = r" using claimed(1) by simp
    have logs: "message_log db' = message_log (fn_db s)" using claimed(6) by simp
    have cur: "cursor_of db' g = Some (advance_cursor c limit snap xmin)"
      using cursor_of_update [OF c(2), of "\<lambda>_. advance_cursor c limit snap xmin"]
        cursor_of_SomeD [OF c(2)] unfolding claimed(6) by (simp add: cursor_of_def)
    have rng: "start < msg_id m" "msg_id m \<le> cur_claimed (advance_cursor c limit snap xmin)"
      using assms(9) claimed(3) le(2) by (auto simp: readable_def r)
    have "m \<in> set (message_log (fn_db (s\<lparr>fn_db := db'\<rparr>)))"
      by (rule steps_log [OF assms(7) claim_inv [OF inv assms(2-4,6)] assms(8) rng(1)])
        (simp add: claimed_of_def cur rng(2))
    with assms(9) claimed(7) logs show ?thesis by (simp add: read_messages_def r)
  qed simp_all
qed

theorem fresh_claim_reads_everything_witness:
  "to_message_log_row (fence_message 1) \<in> set (cr_messages run_range)"
proof (rule fresh_claim_reads_everything [OF run4_reachable run_sees(2,1) _ _ run_claim])
  show "(fence_step 1)\<^sup>*\<^sup>* (run4\<lparr>fn_db := run_claimed\<rparr>) run5" by (simp add: run5_def)
  show "fence_message 1 \<in> set (message_log (fn_db run5))" by (simp add: run5_claimed)
  show "readable (\<lambda>_ _. True) (fn_db run4) 1 1 (cl_low (cr_lease run_range))
      (cl_high (cr_lease run_range)) (fence_message 1)"
    unfolding run4_eq fence.simps by code_simp
qed (simp_all add: run_snapshot_def)

end
