(* ===== verification/Handler_Outcomes.thy ===== *)
theory Handler_Outcomes
  imports Delivery_Options
begin

text \<open>
  What a run of the user's consumer function answers: \<open>CallSafely\<close> of
  \<open>pkg/consume/base/consumer.go\<close>, \<open>ClassifyHandlerError\<close> of \<open>pkg/consume/base/outcome.go\<close> and
  the answers of \<open>pkg/consume/outcome.go\<close>. An error is the chain of its links, outermost first;
  the consumer function itself is a parameter, given by what one run of it does and how long it
  takes.
\<close>

datatype recovery = Recovery_Transient | Recovery_Permanent

datatype error_link =
    Delayed_Delivery duration
  | Diagnostic recovery
  | Plain_Error string

type_synonym go_error = "error_link list"

datatype handler_outcome = Handler_Exception | Handler_Terminal | Handler_Delayed

fun delay_of :: "go_error \<Rightarrow> duration option" where
  "delay_of [] = None"
| "delay_of (Delayed_Delivery d # es) = Some d"
| "delay_of (Diagnostic r # es) = delay_of es"
| "delay_of (Plain_Error s # es) = delay_of es"

fun diagnostic_of :: "go_error \<Rightarrow> recovery option" where
  "diagnostic_of [] = None"
| "diagnostic_of (Diagnostic r # es) = Some r"
| "diagnostic_of (Delayed_Delivery d # es) = diagnostic_of es"
| "diagnostic_of (Plain_Error s # es) = diagnostic_of es"

definition classify_handler_error :: "go_error \<Rightarrow> handler_outcome" where
  "classify_handler_error e =
     (if delay_of e \<noteq> None then Handler_Delayed
      else if diagnostic_of e = Some Recovery_Permanent then Handler_Terminal
      else Handler_Exception)"

text \<open>\<open>consume.Terminal\<close> and \<open>consume.Delay\<close>: a permanent declaration, and a requested delay.\<close>

definition terminal_error :: "go_error \<Rightarrow> go_error" where
  "terminal_error cause = Diagnostic Recovery_Permanent # cause"

definition delay_error :: "duration \<Rightarrow> go_error" where
  "delay_error d = [Delayed_Delivery d, Diagnostic Recovery_Transient]"

datatype handler_run =
    Returned "go_error option" duration
  | Panicked string duration
  | Hung

fun call_safely :: "handler_run \<Rightarrow> duration \<Rightarrow> duration \<Rightarrow> go_error option" where
  "call_safely (Returned e took) timeout grace =
     (if took < timeout + grace then e else Some [Plain_Error ''hard timeout''])"
| "call_safely (Panicked s took) timeout grace =
     (if took < timeout + grace then Some [Plain_Error ''recovered from consumerFunc panic'']
      else Some [Plain_Error ''hard timeout''])"
| "call_safely Hung timeout grace = Some [Plain_Error ''hard timeout'']"

text \<open>How long the caller waits: never past the timeout and its grace.\<close>

fun call_takes :: "handler_run \<Rightarrow> duration \<Rightarrow> duration \<Rightarrow> duration" where
  "call_takes (Returned e took) timeout grace = min took (timeout + grace)"
| "call_takes (Panicked s took) timeout grace = min took (timeout + grace)"
| "call_takes Hung timeout grace = timeout + grace"

lemma call_takes_le: "call_takes run timeout grace \<le> timeout + grace"
  by (cases run) auto

lemma classify_terminal: "delay_of cause = None \<Longrightarrow>
   classify_handler_error (terminal_error cause) = Handler_Terminal"
  by (simp add: classify_handler_error_def terminal_error_def)

lemma classify_delay: "classify_handler_error (delay_error d) = Handler_Delayed"
  by (simp add: classify_handler_error_def delay_error_def)

end
