(* ===== verification/Consumer_Config.thy ===== *)
theory Consumer_Config
  imports Delivery_Options
begin

text \<open>
  The group configuration a consumer worker runs on: \<open>consumer_config.go\<close>, \<open>metadata.go\<close> and
  \<open>config_state.go\<close> of \<open>pkg/consume/messageconsumer\<close> and \<open>pkg/consume/exceptionconsumer\<close>. The
  Go methods \<open>WithDefaults\<close> write through the pointers they are given; a definition that
  shares a pointer with its caller therefore also returns the caller's value as the method
  leaves it (\<open>with_metadata\<close> returns the metadata document it has filled in place).
\<close>

datatype config_error =
    Batch_Limit_Low int
  | Queue_Below_Batch int int
  | Concurrency_Low int
  | Range_Reclaims_Low int
  | Claim_Poll_Rate_Low duration
  | Queue_Margin_Low duration
  | Record_Margin_Low duration
  | Timeout_Grace_Low duration
  | Slow_Dispatch_Negative duration
  | Initial_Backoff_Low duration
  | Instance_TTL_Low duration
  | Refresh_Interval_Low duration
  | Shutdown_Timeout_Negative duration
  | Message_Invalid options_error
  | Message_Min_Invalid options_error
  | Message_Max_Invalid options_error
  | Override_Unknown concurrency_policy

section \<open>Message consumer\<close>

record message_consumer_config =
  batch_limit :: int
  queue_size :: int
  message_concurrency :: int
  max_range_reclaims :: int
  claim_poll_rate :: duration
  queue_margin :: duration
  record_margin :: duration
  timeout_grace :: duration
  slow_dispatch_threshold :: duration
  exception_initial_backoff :: duration
  instance_ttl :: duration
  config_refresh_interval :: duration
  shutdown_timeout :: duration
  cfg_message :: "message_options option"
  cfg_message_min :: "message_options option"
  cfg_message_max :: "message_options option"
  cfg_concurrency_override :: concurrency_policy

definition message_config_with_defaults ::
  "message_consumer_config \<Rightarrow> message_consumer_config" where
  "message_config_with_defaults c =
     (let batch = if_zero (batch_limit c) 1;
          message = message_options_with_defaults (cfg_message c)
      in c\<lparr>batch_limit := batch,
           queue_size := if_zero (queue_size c) batch,
           message_concurrency := if_zero (message_concurrency c) 1,
           max_range_reclaims := if_zero (max_range_reclaims c) 3,
           claim_poll_rate := if_zero (claim_poll_rate c) (5 * second),
           queue_margin := if_zero (queue_margin c) (5 * second),
           record_margin := if_zero (record_margin c) (2 * second),
           timeout_grace := if_zero (timeout_grace c) (second div 10),
           exception_initial_backoff := if_zero (exception_initial_backoff c) (5 * second),
           instance_ttl := if_zero (instance_ttl c) (30 * second),
           config_refresh_interval := if_zero (config_refresh_interval c) (30 * second),
           cfg_message := Some message,
           cfg_message_max :=
             fill (cfg_message_max c) (Some (message\<lparr>mo_concurrency := Policy_Unset\<rparr>))\<rparr>)"

definition validate_message_config :: "message_consumer_config \<Rightarrow> config_error option" where
  "validate_message_config c =
     (if batch_limit c < 1 then Some (Batch_Limit_Low (batch_limit c))
      else if queue_size c < batch_limit c
        then Some (Queue_Below_Batch (queue_size c) (batch_limit c))
      else if message_concurrency c < 1 then Some (Concurrency_Low (message_concurrency c))
      else if max_range_reclaims c < 1 then Some (Range_Reclaims_Low (max_range_reclaims c))
      else if claim_poll_rate c \<le> 0 then Some (Claim_Poll_Rate_Low (claim_poll_rate c))
      else if queue_margin c \<le> 0 then Some (Queue_Margin_Low (queue_margin c))
      else if record_margin c \<le> 0 then Some (Record_Margin_Low (record_margin c))
      else if timeout_grace c \<le> 0 then Some (Timeout_Grace_Low (timeout_grace c))
      else if slow_dispatch_threshold c < 0
        then Some (Slow_Dispatch_Negative (slow_dispatch_threshold c))
      else if exception_initial_backoff c \<le> 0
        then Some (Initial_Backoff_Low (exception_initial_backoff c))
      else if instance_ttl c \<le> 0 then Some (Instance_TTL_Low (instance_ttl c))
      else if config_refresh_interval c \<le> 0
        then Some (Refresh_Interval_Low (config_refresh_interval c))
      else if shutdown_timeout c < 0
        then Some (Shutdown_Timeout_Negative (shutdown_timeout c))
      else (case validate_message_options (cfg_message c) of
          Some e \<Rightarrow> Some (Message_Invalid e)
        | None \<Rightarrow> map_option Message_Max_Invalid (validate_message_options (cfg_message_max c))))"

definition resolve_message_options ::
  "message_options option \<Rightarrow> message_options option \<Rightarrow> message_options option
   \<Rightarrow> concurrency_policy \<Rightarrow> message_options option \<Rightarrow> message_options" where
  "resolve_message_options message minimum maximum override requested =
     resolve_concurrency (clamp (fill requested message) minimum maximum) override"

definition message_config_resolve ::
  "message_consumer_config \<Rightarrow> message_options option \<Rightarrow> message_options" where
  "message_config_resolve c =
     resolve_message_options (cfg_message c) (cfg_message_min c) (cfg_message_max c)
       (cfg_concurrency_override c)"

record message_consumer_metadata =
  md_message :: "message_options option"
  md_message_min :: "message_options option"
  md_message_max :: "message_options option"
  md_concurrency_override :: concurrency_policy
  md_exception_initial_backoff :: duration
  md_max_range_reclaims :: int

definition validate_message_metadata :: "message_consumer_metadata \<Rightarrow> config_error option" where
  "validate_message_metadata m =
     (case validate_message_options (md_message m) of Some e \<Rightarrow> Some (Message_Invalid e)
      | None \<Rightarrow> (case validate_message_options (md_message_min m) of
            Some e \<Rightarrow> Some (Message_Min_Invalid e)
          | None \<Rightarrow> (case validate_message_options (md_message_max m) of
                Some e \<Rightarrow> Some (Message_Max_Invalid e)
              | None \<Rightarrow>
                  if \<not> validate_policy (md_concurrency_override m)
                    then Some (Override_Unknown (md_concurrency_override m))
                  else if md_exception_initial_backoff m < 0
                    then Some (Initial_Backoff_Low (md_exception_initial_backoff m))
                  else if md_max_range_reclaims m < 0
                    then Some (Range_Reclaims_Low (md_max_range_reclaims m))
                  else None)))"

definition message_metadata_equal ::
  "message_consumer_metadata \<Rightarrow> message_consumer_metadata \<Rightarrow> bool" where
  "message_metadata_equal a b \<longleftrightarrow>
     message_options_equal (md_message a) (md_message b)
     \<and> message_options_equal (md_message_min a) (md_message_min b)
     \<and> message_options_equal (md_message_max a) (md_message_max b)
     \<and> md_concurrency_override a = md_concurrency_override b
     \<and> md_exception_initial_backoff a = md_exception_initial_backoff b
     \<and> md_max_range_reclaims a = md_max_range_reclaims b"

text \<open>
  \<open>applied.Message = metadata.Message\<close> shares the pointer, so a document whose \<open>Message\<close> is
  set is filled in place by \<open>WithDefaults\<close>; a nil \<open>Message\<close> stays nil, because the method then
  allocates a fresh one.
\<close>

definition message_config_with_metadata ::
  "message_consumer_config \<Rightarrow> message_consumer_metadata
   \<Rightarrow> message_consumer_config \<times> message_consumer_metadata" where
  "message_config_with_metadata c m =
     (message_config_with_defaults
        (c\<lparr>cfg_message := md_message m,
           cfg_message_min := md_message_min m,
           cfg_message_max := md_message_max m,
           cfg_concurrency_override := md_concurrency_override m,
           exception_initial_backoff := md_exception_initial_backoff m,
           max_range_reclaims := md_max_range_reclaims m\<rparr>),
      m\<lparr>md_message :=
          (case md_message m of None \<Rightarrow> None
           | Some x \<Rightarrow> Some (message_options_with_defaults (Some x)))\<rparr>)"

definition shutdown_budget :: "message_consumer_config \<Rightarrow> duration" where
  "shutdown_budget c =
     (if shutdown_timeout c \<noteq> 0 then shutdown_timeout c
      else mo_timeout (or_zero_options (cfg_message_max c)) + timeout_grace c + record_margin c)"

record config_state =
  cs_cfg :: message_consumer_config
  cs_declared :: message_consumer_metadata

definition config_replace ::
  "config_state \<Rightarrow> message_consumer_metadata \<Rightarrow> config_state \<times> bool" where
  "config_replace s declared =
     (if message_metadata_equal declared (cs_declared s) then (s, False)
      else let (cfg, declared') = message_config_with_metadata (cs_cfg s) declared in
        (s\<lparr>cs_cfg := cfg, cs_declared := declared'\<rparr>, True))"

section \<open>Exception consumer\<close>

record exception_consumer_config =
  x_batch_limit :: int
  x_claim_poll_rate :: duration
  x_queue_margin :: duration
  x_record_margin :: duration
  x_timeout_grace :: duration
  x_slow_dispatch_threshold :: duration
  x_instance_ttl :: duration
  x_config_refresh_interval :: duration
  x_message :: "message_options option"
  x_message_min :: "message_options option"
  x_message_max :: "message_options option"
  x_concurrency_override :: concurrency_policy

definition exception_config_with_defaults ::
  "exception_consumer_config \<Rightarrow> exception_consumer_config" where
  "exception_config_with_defaults c =
     (let message = message_options_with_defaults (x_message c)
      in c\<lparr>x_batch_limit := if_zero (x_batch_limit c) 1,
           x_claim_poll_rate := if_zero (x_claim_poll_rate c) (5 * second),
           x_queue_margin := if_zero (x_queue_margin c) (5 * second),
           x_record_margin := if_zero (x_record_margin c) (2 * second),
           x_timeout_grace := if_zero (x_timeout_grace c) (second div 10),
           x_instance_ttl := if_zero (x_instance_ttl c) (30 * second),
           x_config_refresh_interval := if_zero (x_config_refresh_interval c) (30 * second),
           x_message := Some message,
           x_message_max :=
             fill (x_message_max c) (Some (message\<lparr>mo_concurrency := Policy_Unset\<rparr>))\<rparr>)"

definition validate_exception_config :: "exception_consumer_config \<Rightarrow> config_error option" where
  "validate_exception_config c =
     (if x_batch_limit c < 1 then Some (Batch_Limit_Low (x_batch_limit c))
      else if x_claim_poll_rate c \<le> 0 then Some (Claim_Poll_Rate_Low (x_claim_poll_rate c))
      else if x_queue_margin c \<le> 0 then Some (Queue_Margin_Low (x_queue_margin c))
      else if x_record_margin c \<le> 0 then Some (Record_Margin_Low (x_record_margin c))
      else if x_timeout_grace c \<le> 0 then Some (Timeout_Grace_Low (x_timeout_grace c))
      else if x_slow_dispatch_threshold c < 0
        then Some (Slow_Dispatch_Negative (x_slow_dispatch_threshold c))
      else if x_instance_ttl c \<le> 0 then Some (Instance_TTL_Low (x_instance_ttl c))
      else if x_config_refresh_interval c \<le> 0
        then Some (Refresh_Interval_Low (x_config_refresh_interval c))
      else (case validate_message_options (x_message c) of
          Some e \<Rightarrow> Some (Message_Invalid e)
        | None \<Rightarrow> map_option Message_Max_Invalid (validate_message_options (x_message_max c))))"

definition exception_config_resolve ::
  "exception_consumer_config \<Rightarrow> message_options option \<Rightarrow> message_options" where
  "exception_config_resolve c =
     resolve_message_options (x_message c) (x_message_min c) (x_message_max c)
       (x_concurrency_override c)"

section \<open>What resolution promises\<close>

text \<open>
  A configuration that went through \<open>WithDefaults\<close> has every ceiling: the resolved timeout of
  any message is at most \<open>MessageMax.Timeout\<close>, whatever the message requested.
\<close>

lemma resolve_timeout_le:
  assumes "mo_timeout (or_zero_options maximum) = t" and "0 < t"
  shows "mo_timeout (resolve_message_options message minimum maximum ov requested) \<le> t"
proof (cases "fill requested message")
  case None
  with assms show ?thesis by (simp add: resolve_message_options_def clamp_def or_zero_options_def
        zero_options_def)
next
  case (Some f)
  then show ?thesis
    using assms clamp_int_le by (auto simp: resolve_message_options_def clamp_def Let_def)
qed

lemma resolve_policy_set:
  "mo_concurrency (resolve_message_options message minimum maximum ov requested) \<noteq> Policy_Unset"
  by (simp add: resolve_message_options_def)

lemma resolve_override:
  "ov \<noteq> Policy_Unset \<Longrightarrow>
   mo_concurrency (resolve_message_options message minimum maximum ov requested) = ov"
  by (simp add: resolve_message_options_def resolve_concurrency_def Let_def)

lemma message_metadata_equal_iff [simp]: "message_metadata_equal a b \<longleftrightarrow> a = b"
  by (cases a; cases b) (auto simp: message_metadata_equal_def)

lemma message_config_max_timeout:
  "mo_timeout (or_zero_options (cfg_message_max (message_config_with_defaults c))) \<noteq> 0"
  using with_defaults_timeout [of "cfg_message c"]
  by (simp add: message_config_with_defaults_def fill_def Let_def if_zero_def)

lemma with_metadata_declared:
  "snd (message_config_with_metadata c m) = m \<longleftrightarrow>
     (\<forall>x. md_message m = Some x \<longrightarrow> message_options_with_defaults (Some x) = x)"
  by (cases m) (auto simp: message_config_with_metadata_def split: option.splits)

lemma config_replace_declared:
  "config_replace s m = (s', True) \<Longrightarrow> cs_declared s' = snd (message_config_with_metadata (cs_cfg s) m)"
  by (auto simp: config_replace_def split: if_splits prod.splits)

text \<open>
  Re-reading the document just applied is the refresh loop's normal case. It is recognised as
  unchanged only when filling the document's \<open>Message\<close> in place changed nothing.
\<close>

lemma config_replace_again:
  assumes "config_replace s m = (s', True)"
  shows "snd (config_replace s' m) \<longleftrightarrow>
     (\<exists>x. md_message m = Some x \<and> message_options_with_defaults (Some x) \<noteq> x)"
  using config_replace_declared [OF assms] with_metadata_declared [of "cs_cfg s" m]
  by (auto simp: config_replace_def [of s' m] split: prod.splits)

end
