(* ===== verification/Fan_Out.thy ===== *)
theory Fan_Out
  imports Fence Handler_Outcomes Consumer_Config
begin

text \<open>
  The fan-out path of a group, \<open>pkg/consume/deliveryconsumer\<close>: \<open>fanout.go\<close>, \<open>claim.go\<close> and
  \<open>outcome.go\<close> of its datastore and \<open>deliveryClaim\<close> of \<open>consumer_runner.go\<close>. The group's rows
  in the exception queue are its deliveries, and the cursor's \<open>committed\<close> is the mark up to which
  the log has been materialized.
\<close>

section \<open>Materializing deliveries\<close>

record fan_snapshot =
  fs_head :: int
  fs_xmax :: xid
  fs_committed :: int
  fs_pending_head :: int

definition read_fan_snapshot :: "stream_db \<Rightarrow> int \<Rightarrow> xid \<Rightarrow> db_error + fan_snapshot" where
  "read_fan_snapshot db g xmax = (case cursor_of db g of
       None \<Rightarrow> Inl Err_Consumer_Not_Found
     | Some c \<Rightarrow> Inr \<lparr>fs_head = max_id (message_log db), fs_xmax = xmax,
         fs_committed = cur_committed c, fs_pending_head = cur_pending_head c\<rparr>)"

definition fan_batch :: "stream_db \<Rightarrow> cursor_row \<Rightarrow> int \<Rightarrow> message_row list" where
  "fan_batch db c limit =
     limit_rows limit (sort_key msg_id (filter (\<lambda>m. cur_committed c < msg_id m) (message_log db)))"

definition fan_eligible ::
  "(string \<Rightarrow> string \<Rightarrow> bool) \<Rightarrow> stream_db \<Rightarrow> int \<Rightarrow> int \<Rightarrow> message_row \<Rightarrow> bool" where
  "fan_eligible rx db g schema m \<longleftrightarrow>
     msg_schema_version m = schema \<and> bound rx db g (msg_routing_key m) \<and> current_version db m"

text \<open>\<open>ON CONFLICT DO NOTHING\<close>: a message that already has a row keeps it.\<close>

definition fan_rows ::
  "(string \<Rightarrow> string \<Rightarrow> bool) \<Rightarrow> stream_db \<Rightarrow> int \<Rightarrow> int \<Rightarrow> message_row list \<Rightarrow> time
   \<Rightarrow> exception_row list" where
  "fan_rows rx db g schema batch now =
     map (\<lambda>m. new_exception g (msg_id m) Ready (msg_key m) (requested_concurrency (msg_options m))
            0 now None now)
       (filter (\<lambda>m. fan_eligible rx db g schema m
            \<and> (g, msg_id m) \<notin> set (map exception_key (exception_queue db))) batch)"

definition fan_gate :: "cursor_row \<Rightarrow> fan_snapshot \<Rightarrow> xid \<Rightarrow> int" where
  "fan_gate c snap xmin =
     max (max (cur_committed c) (if fs_xmax snap \<le> xmin then fs_head snap else 0))
       (case cur_pending_xid c of None \<Rightarrow> 0
        | Some x \<Rightarrow> if x \<le> xmin then cur_pending_head c else 0)"

definition fan_mark :: "message_row list \<Rightarrow> int \<Rightarrow> int \<Rightarrow> int" where
  "fan_mark batch limit gate =
     (if int (length batch) = limit
      then the (min_null (Some gate) (sql_max (map msg_id batch)))
      else gate)"

definition fan_scan ::
  "(string \<Rightarrow> string \<Rightarrow> bool) \<Rightarrow> stream_db \<Rightarrow> int \<Rightarrow> int \<Rightarrow> int \<Rightarrow> fan_snapshot \<Rightarrow> xid \<Rightarrow> time
   \<Rightarrow> unit exec" where
  "fan_scan rx db g schema limit snap xmin now = (case cursor_of db g of
       None \<Rightarrow> (Inl Err_Consumer_Not_Found, db)
     | Some c \<Rightarrow>
         let batch = fan_batch db c limit;
             mark = fan_mark batch limit (fan_gate c snap xmin)
         in (Inr (), db\<lparr>
              exception_queue := exception_queue db @ fan_rows rx db g schema batch now,
              cursors := update_where (\<lambda>r. cur_group r = g)
                (\<lambda>r. r\<lparr>cur_committed := mark, cur_claimed := max (cur_claimed r) mark,
                   cur_pending_head := max (cur_pending_head r) (fs_head snap),
                   cur_pending_xid := max_null (cur_pending_xid r) (Some (fs_xmax snap))\<rparr>)
                (cursors db)\<rparr>))"

definition fan_out ::
  "(string \<Rightarrow> string \<Rightarrow> bool) \<Rightarrow> stream_db \<Rightarrow> int \<Rightarrow> int \<Rightarrow> int \<Rightarrow> xid \<Rightarrow> xid \<Rightarrow> time
   \<Rightarrow> unit exec" where
  "fan_out rx db g schema limit xmax xmin now = (case read_fan_snapshot db g xmax of
       Inl e \<Rightarrow> (Inl e, db)
     | Inr snap \<Rightarrow>
         if fs_head snap \<le> fs_committed snap \<and> fs_head snap \<le> fs_pending_head snap
         then (Inr (), db)
         else fan_scan rx db g schema limit snap xmin now)"

section \<open>Claiming and recording deliveries\<close>

record delivery =
  dv_group :: int
  dv_message :: int
  dv_payload :: string
  dv_status :: exception_status
  dv_attempts :: int
  dv_options :: "message_options option"

definition claim_deliveries ::
  "stream_db \<Rightarrow> int \<Rightarrow> int \<Rightarrow> (int \<Rightarrow> bool) \<Rightarrow> time \<Rightarrow> delivery list \<times> stream_db" where
  "claim_deliveries db g limit locked now =
     (let picked = limit_rows limit (sort_key ex_message (filter (\<lambda>e. ex_group e = g
                     \<and> ex_status e = Ready \<and> \<not> locked (ex_message e)) (exception_queue db)));
          is_picked = (\<lambda>e. exception_key e \<in> set (map exception_key picked));
          f = (\<lambda>e. e\<lparr>ex_status := Processing, ex_attempts := ex_attempts e + 1, ex_updated_at := now\<rparr>)
      in (concat (map (\<lambda>e. map (\<lambda>m. \<lparr>dv_group = g, dv_message = ex_message e,
              dv_payload = msg_payload m, dv_status = Processing, dv_attempts = ex_attempts e + 1,
              dv_options = msg_options m\<rparr>)
            (filter (\<lambda>m. msg_id m = ex_message e) (message_log db))) picked),
          db\<lparr>exception_queue := update_where is_picked f (exception_queue db)\<rparr>))"

definition delivery_row_of :: "delivery \<Rightarrow> exception_row \<Rightarrow> bool" where
  "delivery_row_of d e \<longleftrightarrow> ex_group e = dv_group d \<and> ex_message e = dv_message d"

definition delivery_success :: "stream_db \<Rightarrow> delivery \<Rightarrow> delivery_log_mode \<Rightarrow> time \<Rightarrow> stream_db" where
  "delivery_success db d mode now =
     db\<lparr>exception_queue := update_where (delivery_row_of d)
          (\<lambda>e. e\<lparr>ex_status := Done, ex_last_error := None, ex_updated_at := now\<rparr>)
          (exception_queue db),
        delivery_log := delivery_log db @
          (if mode = Mode_All
           then map (\<lambda>e. log_entry (dv_group d) (dv_message d) (ex_attempts e) Log_Success '''' now)
                  (filter (delivery_row_of d) (exception_queue db))
           else [])\<rparr>"

definition delivery_mark ::
  "stream_db \<Rightarrow> delivery \<Rightarrow> exception_status \<Rightarrow> string \<Rightarrow> delivery_log_mode \<Rightarrow> time \<Rightarrow> stream_db" where
  "delivery_mark db d st err mode now =
     db\<lparr>exception_queue := update_where (delivery_row_of d)
          (\<lambda>e. e\<lparr>ex_status := st, ex_last_error := Some err, ex_updated_at := now\<rparr>)
          (exception_queue db),
        delivery_log := delivery_log db @
          (if mode \<noteq> Mode_Off \<and> (\<exists>e \<in> set (exception_queue db). delivery_row_of d e)
           then [log_entry (dv_group d) (dv_message d) (dv_attempts d) Log_Failure err now]
           else [])\<rparr>"

definition delivery_terminal ::
  "stream_db \<Rightarrow> delivery \<Rightarrow> string \<Rightarrow> delivery_log_mode \<Rightarrow> time \<Rightarrow> stream_db" where
  "delivery_terminal db d err mode now = delivery_mark db d Dead err mode now"

definition delivery_failure ::
  "stream_db \<Rightarrow> int \<Rightarrow> delivery \<Rightarrow> string \<Rightarrow> delivery_log_mode \<Rightarrow> time \<Rightarrow> stream_db" where
  "delivery_failure db max_attempts d err mode now =
     (if max_attempts \<le> dv_attempts d then delivery_terminal db d err mode now
      else delivery_mark db d Ready err mode now)"

section \<open>The runner\<close>

text \<open>
  \<open>deliveryClaim\<close>: the payloads of a claimed batch are decoded and run in order, and each delivery
  is recorded on its own. \<open>decode\<close> is \<open>json.Unmarshal\<close> (the error text of a payload that does
  not parse), \<open>run\<close> what the consumer function does, \<open>show\<close> an error's text; \<open>resolve\<close> is the
  configuration's \<open>resolveMessageOptions\<close>.
\<close>

definition process_delivery ::
  "(string \<Rightarrow> string option) \<Rightarrow> (delivery \<Rightarrow> handler_run) \<Rightarrow> (go_error \<Rightarrow> string)
   \<Rightarrow> (message_options option \<Rightarrow> message_options) \<Rightarrow> duration \<Rightarrow> delivery_log_mode \<Rightarrow> time
   \<Rightarrow> delivery \<Rightarrow> stream_db \<Rightarrow> stream_db" where
  "process_delivery decode run show_error resolve grace mode now d db =
     (case decode (dv_payload d) of
        Some err \<Rightarrow> delivery_terminal db d err mode now
      | None \<Rightarrow>
          let opts = resolve (dv_options d) in
          (case call_safely (run d) (mo_timeout opts) grace of
             None \<Rightarrow> delivery_success db d mode now
           | Some e \<Rightarrow>
               if classify_handler_error e = Handler_Terminal
               then delivery_terminal db d (show_error e) mode now
               else delivery_failure db (max_retries (or_zero_policy (mo_retry opts))) d
                      (show_error e) mode now))"

definition delivery_claim ::
  "(string \<Rightarrow> string option) \<Rightarrow> (delivery \<Rightarrow> handler_run) \<Rightarrow> (go_error \<Rightarrow> string)
   \<Rightarrow> (message_options option \<Rightarrow> message_options) \<Rightarrow> duration \<Rightarrow> delivery_log_mode
   \<Rightarrow> int \<Rightarrow> int \<Rightarrow> (int \<Rightarrow> bool) \<Rightarrow> time \<Rightarrow> stream_db \<Rightarrow> stream_db" where
  "delivery_claim decode run show_error resolve grace mode g limit locked now db =
     (case claim_deliveries db g limit locked now of (ds, db1) \<Rightarrow>
        fold (process_delivery decode run show_error resolve grace mode now) ds db1)"

end
