(* ===== verification/Fan_Out_Properties.thy ===== *)
theory Fan_Out_Properties
  imports Fan_Out
begin











section \<open>The mark against an open producer\<close>

definition fan_message :: "int \<Rightarrow> message_row" where
  "fan_message i = \<lparr>msg_id = i, msg_schema_version = 1, msg_routing_key = None,
     msg_key = None, msg_rank = None, msg_payload = ''{}'', msg_options = None,
     msg_created_at = 0\<rparr>"

definition fan_db :: "message_row list \<Rightarrow> stream_db" where
  "fan_db ms = empty_db\<lparr>message_log := ms, cursors := [\<lparr>cur_group = 1, cur_claimed = 0,
     cur_committed = 0, cur_settled_head = 0, cur_pending_head = 0, cur_pending_xid = None\<rparr>]\<rparr>"




text \<open>The lowest transaction id still active below \<open>xmax\<close>, or \<open>xmax\<close>.\<close>

definition pg_xmin :: "xid list \<Rightarrow> xid \<Rightarrow> xid" where
  "pg_xmin active xmax = fold min active xmax"

text \<open>
  Transaction 6 has inserted message 1 and is open; transaction 5, begun earlier, has inserted
  message 2 and committed. The highest completed id is 5, so both statements of the tick see
  \<open>xmax = 6\<close> and \<open>xmin = 6\<close>, and head 2 passes for proven.
\<close>

definition open_run :: fence where
  "open_run = \<lparr>fn_db = fan_db [], fn_next_xid = 7, fn_next_id = 3, fn_active = {5, 6}, fn_xmax = 5,
     fn_pending = [(5, fan_message 2), (6, fan_message 1)], fn_reading = {}, fn_snaps = {}\<rparr>"

lemma open_run_start: "fence_start 1 0 open_run"
  by (auto simp: fence_start_def open_run_def fan_db_def env_ok_def fan_message_def empty_db_def
      cursor_of_def)

definition open_run' :: fence where "open_run' = finish open_run 5 (commit_rows open_run 5)"

lemma open_run'_eq: "open_run' = \<lparr>fn_db = fan_db [fan_message 2], fn_next_xid = 7, fn_next_id = 3,
    fn_active = {6}, fn_xmax = 6, fn_pending = [(6, fan_message 1)], fn_reading = {}, fn_snaps = {}\<rparr>"
  by (simp add: open_run'_def finish_def commit_rows_def open_run_def fan_db_def insert_Diff_if)

lemma open_run'_reachable: "fence_reachable 1 0 open_run'"
proof -
  have "fence_step 1 open_run open_run'"
    unfolding open_run'_def by (rule step_commit) (simp add: open_run_def)
  with open_run_start show ?thesis by (auto simp: fence_reachable_def)
qed

text \<open>The fan-out mark can pass a message that is not visible yet: in a reachable state of the
  environment a tick whose two statements both see the current snapshot moves the mark to 2
  while message 1 is pending in an open transaction; once that transaction commits, no later
  tick materializes message 1.\<close>

theorem fan_out_skips_an_open_message:
  "\<exists>s m db'. fence_reachable 1 0 s \<and> (6, m) \<in> set (fn_pending s) \<and> msg_id m = 1
    \<and> fn_xmax s = 6 \<and> pg_xmin [6] (fn_xmax s) = 6 \<and> fn_active s = {6}
    \<and> fan_out (\<lambda>_ _. True) (fn_db s) 1 1 10 (fn_xmax s) (pg_xmin [6] (fn_xmax s)) 100 = (Inr (), db')
    \<and> map_option cur_committed (cursor_of db' 1) = Some 2
    \<and> map ex_message (exception_queue (snd (fan_out (\<lambda>_ _. True)
         (db'\<lparr>message_log := message_log db' @ [m]\<rparr>) 1 1 10 8 8 200))) = [2]"
proof -
  let ?db' = "snd (fan_out (\<lambda>_ _. True) (fan_db [fan_message 2]) 1 1 10 6 6 100)"
  have "pg_xmin [6] 6 = 6"
    "fan_out (\<lambda>_ _. True) (fan_db [fan_message 2]) 1 1 10 6 6 100 = (Inr (), ?db')"
    "map_option cur_committed (cursor_of ?db' 1) = Some 2"
    "map ex_message (exception_queue (snd (fan_out (\<lambda>_ _. True)
         (?db'\<lparr>message_log := message_log ?db' @ [fan_message 1]\<rparr>) 1 1 10 8 8 200))) = [2]"
    "msg_id (fan_message 1) = 1"
    by code_simp+
  with open_run'_reachable show ?thesis
    by (intro exI [of _ open_run'] exI [of _ "fan_message 1"] exI [of _ ?db'])
      (simp add: open_run'_eq)
qed

end
