(* ===== verification/Option_Properties.thy ===== *)
theory Option_Properties
  imports Consumer_Config
begin

text \<open>
  What the backoff curve, the options a message resolves to and the configuration a running
  worker holds guarantee.
\<close>

section \<open>The backoff curve\<close>

definition retry_fields_ok :: "retry_policy \<Rightarrow> bool" where
  "retry_fields_ok p \<longleftrightarrow> 1 \<le> max_retries p \<and> 0 \<le> max_delays p \<and> 0 < base_delay p
     \<and> 0 < max_delay p \<and> base_delay p \<le> max_delay p \<and> 1 \<le> exponent p"

definition delay_sum :: "retry_policy \<Rightarrow> duration" where
  "delay_sum p = (\<Sum>i<nat (max_retries p - 1). calculate_delay p (int i))"

lemma retry_fields_curve: "retry_fields_ok p \<Longrightarrow> curve_ok p"
  by (simp add: retry_fields_ok_def curve_ok_def)

lemma total_exceeds_sum: "retry_fields_ok p \<Longrightarrow>
   total_exceeds p 0 (nat (max_retries p - 1)) max_int64 \<longleftrightarrow> max_int64 < delay_sum p"
  using total_exceeds_iff [OF retry_fields_curve, of p 0 "nat (max_retries p - 1)" max_int64]
  by (simp add: delay_sum_def retry_fields_ok_def max_int64_def)

text \<open>\<open>RetryPolicy.Validate\<close> accepts a policy exactly when its fields are in range and the sum
  of all its delays fits an int64, although it never adds them up.\<close>

theorem validate_accepts_iff_total_fits:
  "validate_retry_policy (Some p) = None \<longleftrightarrow> retry_fields_ok p \<and> delay_sum p \<le> max_int64"
proof (cases "retry_fields_ok p")
  case True
  then show ?thesis
    by (auto simp: validate_retry_policy_def total_exceeds_sum retry_fields_ok_def)
next
  case False
  then show ?thesis
    by (auto simp: validate_retry_policy_def retry_fields_ok_def)
qed

text \<open>The total delay the loop computes with its shortcut for the flat part of the curve is the
  sum of the delays of the single retries, and a validated policy's total fits an int64.\<close>

theorem total_delay_is_the_sum:
  assumes "validate_retry_policy (Some p) = None"
  shows "calculate_total_delay p = (\<Sum>i<nat (max_retries p - 1). calculate_delay p (int i))
    \<and> calculate_total_delay p \<le> max_int64"
proof -
  have ok: "retry_fields_ok p" "\<not> total_exceeds p 0 (nat (max_retries p - 1)) max_int64"
    using assms by (auto simp: validate_retry_policy_def retry_fields_ok_def split: if_splits)
  have "calculate_total_delay p = delay_sum p"
    using total_delay_loop_sum [OF retry_fields_curve [OF ok(1)], of 0 "nat (max_retries p - 1)" 0] ok(1)
    by (simp add: calculate_total_delay_def delay_sum_def retry_fields_ok_def)
  with ok total_exceeds_sum show ?thesis by (simp add: delay_sum_def)
qed

theorem total_delay_is_the_sum_witness:
  "calculate_total_delay new_default_retry_policy
     = (\<Sum>i<nat (max_retries new_default_retry_policy - 1).
          calculate_delay new_default_retry_policy (int i))"
proof -
  have "validate_retry_policy (Some new_default_retry_policy) = None" by code_simp
  then show ?thesis using total_delay_is_the_sum by blast
qed

text \<open>C40: Within the range in which the curve's floating-point numbers are exact, a cap of at most
  \<open>2\<^sup>5\<^sup>2\<close> nanoseconds, which is 52 days, the delay of a validated policy is the base times the exponent
  to the attempt, cut at the cap. So delays start at the base, never shrink from one attempt to the next
  and never pass the cap.\<close>

theorem backoff_is_monotone_and_capped:
  assumes "validate_retry_policy (Some p) = None" "max_delay p \<le> 2 ^ 52" "0 \<le> a" "a \<le> b"
  shows "calculate_delay p a = min (max_delay p) (base_delay p * exponent p ^ nat a)
    \<and> calculate_delay p 0 = base_delay p \<and> base_delay p \<le> calculate_delay p a
    \<and> calculate_delay p a \<le> calculate_delay p b \<and> calculate_delay p b \<le> max_delay p"
proof -
  have c: "curve_ok p" by (rule validate_curve_ok [OF assms(1)])
  have "calculate_delay p 0 = base_delay p"
    using c by (auto simp: calculate_delay_nonneg curve_ok_def)
  with c assms show ?thesis
    using calculate_delay_ge_base [OF c] calculate_delay_mono_nat [OF c]
      calculate_delay_le_max [OF c] by (auto simp: calculate_delay_nonneg)
qed

theorem backoff_is_monotone_and_capped_witness:
  "calculate_delay new_default_retry_policy 3 = 8 * second"
proof -
  have "validate_retry_policy (Some new_default_retry_policy) = None" by code_simp
  then show ?thesis using backoff_is_monotone_and_capped [of new_default_retry_policy 3 9]
    by (simp add: new_default_retry_policy_def second_def)
qed

section \<open>Resolved options\<close>

text \<open>The sparse options a producer may store on a message.\<close>

lemma validate_optionsD:
  assumes "validate_message_options oo = None"
  shows "0 \<le> mo_timeout (or_zero_options oo)"
    "0 \<le> max_retries (or_zero_policy (mo_retry (or_zero_options oo)))"
  using assms
  by (auto simp: validate_message_options_def validate_sparse_policy_def or_zero_options_def
      zero_options_def or_zero_policy_def zero_policy_def split: option.splits if_splits)

lemma fill_timeout: "fill oo (Some d) = Some f \<Longrightarrow>
   mo_timeout f = if_zero (mo_timeout (or_zero_options oo)) (mo_timeout d)"
  by (auto simp: fill_def Let_def)

lemma fill_retry:
  assumes "fill oo (Some d) = Some f" "mo_retry d = Some q"
  obtains p where "mo_retry f = Some p"
    "max_retries p = if_zero (max_retries (or_zero_policy (mo_retry (or_zero_options oo)))) (max_retries q)"
  using assms by (auto simp: fill_def fill_policy_def Let_def)

definition options_full :: "message_options \<Rightarrow> bool" where
  "options_full x \<longleftrightarrow> 0 < mo_timeout x \<and> (\<exists>p. mo_retry x = Some p \<and> 1 \<le> max_retries p)"

lemma fill_full:
  assumes "fill oo (Some d) = Some f" "options_full d" "validate_message_options oo = None"
  shows "options_full f"
proof -
  obtain q where q: "mo_retry d = Some q" "1 \<le> max_retries q" and t: "0 < mo_timeout d"
    using assms(2) by (auto simp: options_full_def)
  obtain p where p: "mo_retry f = Some p"
    "max_retries p = if_zero (max_retries (or_zero_policy (mo_retry (or_zero_options oo)))) (max_retries q)"
    using fill_retry [OF assms(1) q(1)] by blast
  show ?thesis
    using validate_optionsD [OF assms(3)] fill_timeout [OF assms(1)] p q t
    by (auto simp: options_full_def if_zero_def)
qed

lemma resolve_full:
  assumes msg: "options_full d" and hi: "options_full h" and req: "validate_message_options requested = None"
  shows "\<exists>p hp. mo_retry (resolve_message_options (Some d) lo (Some h) ov requested) = Some p
    \<and> mo_retry h = Some hp \<and> 1 \<le> max_retries p \<and> max_retries p \<le> max_retries hp
    \<and> 0 < mo_timeout (resolve_message_options (Some d) lo (Some h) ov requested)"
proof -
  obtain f where f: "fill requested (Some d) = Some f" using fill_Some by blast
  obtain p where p: "0 < mo_timeout f" "mo_retry f = Some p" "1 \<le> max_retries p"
    using fill_full [OF f msg req] by (auto simp: options_full_def)
  obtain hp where hp: "mo_retry h = Some hp" "1 \<le> max_retries hp" using hi by (auto simp: options_full_def)
  show ?thesis
    using p hp clamp_int_le [of "max_retries hp"] clamp_int_pos [of "max_retries p"]
      clamp_int_pos [OF p(1)]
    by (auto simp: resolve_message_options_def f clamp_def clamp_policy_def Let_def int_one_le_iff_zero_less)
qed

lemma config_defaults_full:
  assumes "validate_message_config (message_config_with_defaults c) = None"
  obtains d h where "cfg_message (message_config_with_defaults c) = Some d"
    "cfg_message_max (message_config_with_defaults c) = Some h" "options_full d" "options_full h"
proof -
  let ?d = "message_options_with_defaults (cfg_message c)"
  let ?m = "?d\<lparr>mo_concurrency := Policy_Unset\<rparr>"
  obtain h where h: "fill (cfg_message_max c) (Some ?m) = Some h" using fill_Some by blast
  have v: "validate_message_options (Some ?d) = None" "validate_message_options (Some h) = None"
    using assms h by (auto simp: validate_message_config_def message_config_with_defaults_def Let_def
        split: if_splits option.splits)
  obtain p where p: "mo_retry ?d = Some p" "max_retries p \<noteq> 0" using with_defaults_retry by blast
  have d: "options_full ?d"
    using validate_optionsD [OF v(1)] with_defaults_timeout [of "cfg_message c"] p
    by (auto simp: options_full_def)
  obtain q where q: "mo_retry h = Some q"
    "max_retries q = if_zero (max_retries (or_zero_policy (mo_retry (or_zero_options (cfg_message_max c))))) (max_retries p)"
    using fill_retry [OF h] p(1) by (metis (no_types, lifting) message_options.select_convs(3)
        message_options.surjective message_options.update_convs(1))
  have "options_full h"
    using validate_optionsD [OF v(2)] fill_timeout [OF h] q p(2) d
    by (auto simp: options_full_def if_zero_def split: if_splits)
  with d h that show thesis
    by (simp add: message_config_with_defaults_def Let_def)
qed

text \<open>Under a validated configuration every message resolves to a complete run: a concurrency
  policy, a positive timeout within the group's ceiling, and a retry budget of at least one and at
  most the group's, whatever sparse options the producer stored on it.\<close>

theorem resolved_options_are_bounded:
  assumes "cfg = message_config_with_defaults c" "validate_message_config cfg = None"
    "validate_message_options requested = None" "message_config_resolve cfg requested = r"
  shows "mo_concurrency r \<noteq> Policy_Unset
    \<and> 0 < mo_timeout r \<and> mo_timeout r \<le> mo_timeout (or_zero_options (cfg_message_max cfg))
    \<and> (\<exists>p. mo_retry r = Some p \<and> 1 \<le> max_retries p
         \<and> max_retries p \<le> max_retries (or_zero_policy (mo_retry (or_zero_options (cfg_message_max cfg)))))"
proof -
  obtain d h where dh: "cfg_message cfg = Some d" "cfg_message_max cfg = Some h"
    "options_full d" "options_full h"
    using config_defaults_full [of c] assms(1,2) by auto
  let ?r = "resolve_message_options (Some d) (cfg_message_min cfg) (Some h)
      (cfg_concurrency_override cfg) requested"
  have r: "r = ?r" using assms(4) dh by (simp add: message_config_resolve_def)
  have "mo_timeout ?r \<le> mo_timeout h"
    using dh(4) by (intro resolve_timeout_le) (auto simp: options_full_def)
  moreover obtain p hp where "mo_retry ?r = Some p" "mo_retry h = Some hp" "1 \<le> max_retries p"
    "max_retries p \<le> max_retries hp" "0 < mo_timeout ?r"
    using resolve_full [OF dh(3,4) assms(3)] by blast
  ultimately show ?thesis by (simp add: r dh(2) resolve_policy_set)
qed

definition sparse_config :: message_consumer_config where
  "sparse_config = \<lparr>batch_limit = 0, queue_size = 0, message_concurrency = 0,
     max_range_reclaims = 0, claim_poll_rate = 0, queue_margin = 0, record_margin = 0,
     timeout_grace = 0, slow_dispatch_threshold = 0, exception_initial_backoff = 0,
     instance_ttl = 0, config_refresh_interval = 0, shutdown_timeout = 0, cfg_message = None,
     cfg_message_min = None, cfg_message_max = None, cfg_concurrency_override = Policy_Unset\<rparr>"

definition long_request :: message_options where
  "long_request = \<lparr>mo_concurrency = Exclusive, mo_timeout = 90 * second, mo_retry = None,
     mo_scheduled_at = None\<rparr>"

theorem resolved_options_are_bounded_witness:
  "mo_timeout (message_config_resolve (message_config_with_defaults sparse_config) (Some long_request))
     \<le> 30 * second"
proof -
  have "validate_message_config (message_config_with_defaults sparse_config) = None"
    "validate_message_options (Some long_request) = None"
    "mo_timeout (or_zero_options (cfg_message_max (message_config_with_defaults sparse_config)))
       = 30 * second"
    by code_simp+
  then show ?thesis
    using resolved_options_are_bounded [OF refl _ _ refl, of sparse_config "Some long_request"] by simp
qed

section \<open>Refreshing the configuration\<close>

text \<open>After a refresh applied a stored document, reading the very same document again is taken for
  a change exactly when the document left fields of its message options to the defaults: the
  worker fills them in place in the declaration it keeps for comparison.\<close>

theorem unchanged_document_is_applied_again:
  assumes "config_replace s m = (s', True)"
  shows "snd (config_replace s' m) \<longleftrightarrow>
     (\<exists>x. md_message m = Some x \<and> message_options_with_defaults (Some x) \<noteq> x)"
  by (rule config_replace_again [OF assms])

definition stored_document :: message_consumer_metadata where
  "stored_document = \<lparr>md_message = Some long_request, md_message_min = None, md_message_max = None,
     md_concurrency_override = Policy_Unset, md_exception_initial_backoff = 0,
     md_max_range_reclaims = 0\<rparr>"

definition refreshed :: config_state where
  "refreshed = fst (config_replace \<lparr>cs_cfg = message_config_with_defaults sparse_config,
     cs_declared = stored_document\<lparr>md_message := None\<rparr>\<rparr> stored_document)"

theorem unchanged_document_is_applied_again_witness:
  "snd (config_replace refreshed stored_document)"
proof -
  have "config_replace \<lparr>cs_cfg = message_config_with_defaults sparse_config,
     cs_declared = stored_document\<lparr>md_message := None\<rparr>\<rparr> stored_document = (refreshed, True)"
    "md_message stored_document = Some long_request"
    "message_options_with_defaults (Some long_request) \<noteq> long_request"
    by code_simp+
  then show ?thesis using unchanged_document_is_applied_again by blast
qed

end
