(* ===== verification/Range_State.thy ===== *)
theory Range_State
  imports Range_Claims Consumer_Config
begin

text \<open>
  What a message consumer remembers of the ranges it has claimed: \<open>range_state.go\<close> and
  \<open>claim_buffer.go\<close> of \<open>pkg/consume/messageconsumer\<close>, and the bounded queue of
  \<open>pkg/common/concurrency/queue.go\<close> it dispatches from. A range is the unit of claiming and
  committing, a buffered message the unit of dispatch. The map of tracked ranges is a partial
  function from lease tokens; the order in which Go iterates over it is an argument.
\<close>

section \<open>One range\<close>

datatype result_kind =
    Kind_Success
  | Kind_Exception
  | Kind_Terminal
  | Kind_Superseded
  | Kind_Deferred
  | Kind_Delayed

fun to_outcome_kind :: "result_kind \<Rightarrow> outcome_kind" where
  "to_outcome_kind Kind_Success = Outcome_Success"
| "to_outcome_kind Kind_Exception = Outcome_Exception"
| "to_outcome_kind Kind_Terminal = Outcome_Terminal"
| "to_outcome_kind Kind_Superseded = Outcome_Superseded"
| "to_outcome_kind Kind_Deferred = Outcome_Deferred"
| "to_outcome_kind Kind_Delayed = Outcome_Delayed"

record result =
  res_done :: bool
  res_kind :: result_kind
  res_err :: string
  res_delay :: duration
  res_concurrency :: concurrency_policy

definition new_result :: result where
  "new_result = \<lparr>res_done = False, res_kind = Kind_Success, res_err = '''', res_delay = 0,
     res_concurrency = Policy_Unset\<rparr>"

definition resolve_result ::
  "result_kind \<Rightarrow> string \<Rightarrow> duration \<Rightarrow> concurrency_policy \<Rightarrow> result \<Rightarrow> result" where
  "resolve_result kind err delay pol r =
     r\<lparr>res_kind := kind, res_err := err, res_delay := delay, res_concurrency := pol,
       res_done := True\<rparr>"

record range_snapshot =
  sp_lease :: claim_lease_row
  sp_outcomes :: "outcome list"

record range_state =
  rs_lease :: claim_lease_row
  rs_ids :: "int list"
  rs_keys :: "string list"
  rs_total :: nat
  rs_include :: bool
  rs_dispatched :: nat
  rs_resolved :: nat
  rs_committed :: bool
  rs_stale :: bool
  rs_results :: "result list"

definition new_range_state :: "claimed_range \<Rightarrow> bool \<Rightarrow> range_state" where
  "new_range_state cr include =
     \<lparr>rs_lease = cr_lease cr, rs_ids = map ml_id (cr_messages cr),
      rs_keys = map ml_key (cr_messages cr), rs_total = length (cr_messages cr),
      rs_include = include, rs_dispatched = 0, rs_resolved = 0, rs_committed = False,
      rs_stale = False, rs_results = map (\<lambda>_. new_result) (cr_messages cr)\<rparr>"

definition never_dispatched :: "range_state \<Rightarrow> bool" where
  "never_dispatched s \<longleftrightarrow> rs_dispatched s = 0"

definition range_resolve ::
  "nat \<Rightarrow> result_kind \<Rightarrow> string \<Rightarrow> duration \<Rightarrow> concurrency_policy \<Rightarrow> range_state \<Rightarrow> range_state" where
  "range_resolve i kind err delay pol s =
     s\<lparr>rs_results := (rs_results s)[i := resolve_result kind err delay pol (rs_results s ! i)],
       rs_resolved := rs_resolved s + 1\<rparr>"

definition outcome_at :: "range_state \<Rightarrow> nat \<Rightarrow> result_kind option" where
  "outcome_at s i =
     (if res_done (rs_results s ! i) then Some (res_kind (rs_results s ! i)) else None)"

definition range_resolved :: "range_state \<Rightarrow> bool" where
  "range_resolved s \<longleftrightarrow> rs_resolved s = rs_total s"

text \<open>The id, key and result of each message, in index order.\<close>

definition range_slots :: "range_state \<Rightarrow> (int \<times> string \<times> result) list" where
  "range_slots s = zip (rs_ids s) (zip (rs_keys s) (rs_results s))"

definition range_outcome :: "int \<times> string \<times> result \<Rightarrow> outcome" where
  "range_outcome e = (case e of (i, k, r) \<Rightarrow>
     \<lparr>oc_message = i, oc_key = k, oc_concurrency = res_concurrency r,
      oc_kind = to_outcome_kind (res_kind r), oc_err = res_err r, oc_delay = res_delay r\<rparr>)"

definition collected :: "bool \<Rightarrow> int \<times> string \<times> result \<Rightarrow> bool" where
  "collected include e \<longleftrightarrow> include \<or> to_outcome_kind (res_kind (snd (snd e))) \<noteq> Outcome_Success"

fun contiguous_loop ::
  "bool \<Rightarrow> int \<Rightarrow> (int \<times> string \<times> result) list \<Rightarrow> int \<times> outcome list" where
  "contiguous_loop include low [] = (low, [])"
| "contiguous_loop include low (e # es) =
     (if \<not> res_done (snd (snd e)) then (low, [])
      else (case contiguous_loop include (fst e) es of
          (p, ocs) \<Rightarrow> (p, if collected include e then range_outcome e # ocs else ocs)))"

definition contiguous_resolved :: "range_state \<Rightarrow> int \<times> outcome list" where
  "contiguous_resolved s =
     contiguous_loop (rs_include s) (cl_low (rs_lease s)) (range_slots s)"

definition resolved_outcomes :: "range_state \<Rightarrow> outcome list" where
  "resolved_outcomes s = map range_outcome (filter (collected (rs_include s)) (range_slots s))"

datatype snapshot_error = Range_Not_Resolved | Snapshot_Taken | Range_Not_Tracked

definition try_get_snapshot :: "range_state \<Rightarrow> (snapshot_error + range_snapshot) \<times> range_state" where
  "try_get_snapshot s =
     (if \<not> range_resolved s then (Inl Range_Not_Resolved, s)
      else if rs_committed s then (Inl Snapshot_Taken, s)
      else (Inr \<lparr>sp_lease = rs_lease s, sp_outcomes = resolved_outcomes s\<rparr>,
            s\<lparr>rs_committed := True\<rparr>))"

section \<open>Buffered messages\<close>

text \<open>
  \<open>next\<close> is the range's next ordered message on the same key: it is never queued, and runs
  under the same permit once this one resolved.
\<close>

datatype buffered = Buffered
  (it_row: message_log_row)
  (it_lease: claim_lease_row)
  (it_index: nat)
  (it_options: message_options)
  (it_next: "buffered option")

definition chained :: "buffered \<Rightarrow> bool" where
  "chained b \<longleftrightarrow> ml_key (it_row b) \<noteq> '''' \<and> mo_concurrency (it_options b) = Ordered"

definition claimed_items ::
  "(message_options option \<Rightarrow> message_options) \<Rightarrow> claimed_range \<Rightarrow> buffered list" where
  "claimed_items resolve cr =
     map (\<lambda>(i, m). Buffered m (cr_lease cr) i (resolve (ml_options m)) None)
       (enumerate 0 (cr_messages cr))"

definition chain_of :: "string \<Rightarrow> buffered list \<Rightarrow> buffered list" where
  "chain_of k items = filter (\<lambda>b. chained b \<and> ml_key (it_row b) = k) items"

fun link_chain :: "buffered list \<Rightarrow> buffered option" where
  "link_chain [] = None"
| "link_chain (b # bs) =
     Some (Buffered (it_row b) (it_lease b) (it_index b) (it_options b) (link_chain bs))"

text \<open>What \<open>add\<close> enqueues: the unchained messages, then the first of each chain.\<close>

definition enqueued :: "string list \<Rightarrow> buffered list \<Rightarrow> buffered list" where
  "enqueued order items =
     filter (\<lambda>b. \<not> chained b) items
     @ List.map_filter (\<lambda>k. link_chain (chain_of k items)) order"

fun chain :: "buffered \<Rightarrow> buffered list" where
  "chain (Buffered m l i opts None) = [Buffered m l i opts None]"
| "chain (Buffered m l i opts (Some b)) = Buffered m l i opts (Some b) # chain b"

section \<open>The claim buffer\<close>

record claim_buffer =
  bf_queue :: "buffered list"
  bf_capacity :: nat
  bf_include :: bool
  bf_ranges :: "uuid \<Rightarrow> range_state option"

definition new_claim_buffer :: "nat \<Rightarrow> bool \<Rightarrow> claim_buffer" where
  "new_claim_buffer capacity include =
     \<lparr>bf_queue = [], bf_capacity = capacity, bf_include = include, bf_ranges = (\<lambda>_. None)\<rparr>"

definition room :: "claim_buffer \<Rightarrow> nat" where
  "room b = bf_capacity b - length (bf_queue b)"

text \<open>
  \<open>WaitForRoom\<close> answers at once when a whole batch fits, and otherwise with whatever room there
  is when its timer fires.
\<close>

definition wait_for_room :: "claim_buffer \<Rightarrow> nat \<Rightarrow> bool \<Rightarrow> nat option" where
  "wait_for_room b threshold timed_out =
     (if threshold \<le> room b \<or> timed_out then Some (room b) else None)"

definition track :: "range_state \<Rightarrow> claim_buffer \<Rightarrow> claim_buffer" where
  "track s b = b\<lparr>bf_ranges := (bf_ranges b)(cl_token (rs_lease s) := Some s)\<rparr>"

text \<open>
  \<open>add\<close>: the range is tracked before its messages are offered to the queue one by one, which
  blocks while the queue is full; the answer is the list to offer.
\<close>

definition add_claimed ::
  "claimed_range \<Rightarrow> (message_options option \<Rightarrow> message_options) \<Rightarrow> string list \<Rightarrow> claim_buffer
   \<Rightarrow> buffered list option \<times> claim_buffer" where
  "add_claimed cr resolve order b =
     (if cr_messages cr = [] then (None, b)
      else (Some (enqueued order (claimed_items resolve cr)),
            track (new_range_state cr (bf_include b)) b))"

definition enqueue :: "buffered \<Rightarrow> claim_buffer \<Rightarrow> claim_buffer" where
  "enqueue x b = b\<lparr>bf_queue := bf_queue b @ [x]\<rparr>"

definition update_range :: "uuid \<Rightarrow> (range_state \<Rightarrow> range_state) \<Rightarrow> claim_buffer \<Rightarrow> claim_buffer" where
  "update_range t f b = b\<lparr>bf_ranges := (bf_ranges b)(t := map_option f (bf_ranges b t))\<rparr>"

definition item_token :: "buffered \<Rightarrow> uuid" where
  "item_token x = cl_token (it_lease x)"

fun wait_for_next :: "claim_buffer \<Rightarrow> (buffered \<times> claim_buffer) option" where
  "wait_for_next b = (case bf_queue b of
       [] \<Rightarrow> None
     | x # xs \<Rightarrow> Some (x, update_range (item_token x)
         (\<lambda>s. s\<lparr>rs_dispatched := rs_dispatched s + 1\<rparr>) (b\<lparr>bf_queue := xs\<rparr>)))"

definition buffer_resolve ::
  "buffered \<Rightarrow> result_kind \<Rightarrow> string \<Rightarrow> duration \<Rightarrow> claim_buffer \<Rightarrow> claim_buffer" where
  "buffer_resolve x kind err delay b =
     update_range (item_token x)
       (range_resolve (it_index x) kind err delay (mo_concurrency (it_options x))) b"

definition behind_error :: string where
  "behind_error = ''an earlier delivery on the message key did not succeed''"

definition resolve_deferred_behind :: "buffered \<Rightarrow> claim_buffer \<Rightarrow> claim_buffer" where
  "resolve_deferred_behind x b =
     fold (\<lambda>y. buffer_resolve y Kind_Deferred behind_error 0) (tl (chain x)) b"

definition buffer_outcome :: "claim_buffer \<Rightarrow> buffered \<Rightarrow> result_kind option" where
  "buffer_outcome b x = (case bf_ranges b (item_token x) of
       None \<Rightarrow> None
     | Some s \<Rightarrow> outcome_at s (it_index x))"

definition is_range_resolved :: "claim_buffer \<Rightarrow> uuid \<Rightarrow> bool" where
  "is_range_resolved b t \<longleftrightarrow> (case bf_ranges b t of None \<Rightarrow> False | Some s \<Rightarrow> range_resolved s)"

definition try_get_range_snapshot ::
  "uuid \<Rightarrow> claim_buffer \<Rightarrow> (snapshot_error + range_snapshot) \<times> claim_buffer" where
  "try_get_range_snapshot t b = (case bf_ranges b t of
       None \<Rightarrow> (Inl Range_Not_Tracked, b)
     | Some s \<Rightarrow> (case try_get_snapshot s of
           (res, s') \<Rightarrow> (res, b\<lparr>bf_ranges := (bf_ranges b)(t := Some s')\<rparr>)))"

definition mark_stale :: "uuid \<Rightarrow> claim_buffer \<Rightarrow> claim_buffer" where
  "mark_stale t b = update_range t (\<lambda>s. s\<lparr>rs_stale := True\<rparr>) b"

definition remove_range :: "uuid \<Rightarrow> claim_buffer \<Rightarrow> claim_buffer" where
  "remove_range t b = b\<lparr>bf_ranges := (bf_ranges b)(t := None)\<rparr>"

text \<open>\<open>removeAll\<close>: \<open>states\<close> lists the tracked ranges in the order the map yields them.\<close>

definition lists_ranges :: "range_state list \<Rightarrow> claim_buffer \<Rightarrow> bool" where
  "lists_ranges states b \<longleftrightarrow>
     distinct (map (\<lambda>s. cl_token (rs_lease s)) states)
     \<and> (\<forall>s. s \<in> set states \<longleftrightarrow> bf_ranges b (cl_token (rs_lease s)) = Some s)"

definition remove_all :: "claim_buffer \<Rightarrow> claim_buffer" where
  "remove_all b = b\<lparr>bf_ranges := (\<lambda>_. None)\<rparr>"

section \<open>A range's bookkeeping\<close>

text \<open>
  The shape of a tracked range: its messages are strictly increasing ids of its lease, the lists
  run in parallel, and \<open>rs_resolved\<close> counts the results that are done.
\<close>

definition done_count :: "range_state \<Rightarrow> nat" where
  "done_count s = length (filter res_done (rs_results s))"

definition range_shape :: "range_state \<Rightarrow> bool" where
  "range_shape s \<longleftrightarrow> length (rs_keys s) = length (rs_ids s) \<and> length (rs_results s) = length (rs_ids s)
     \<and> rs_total s = length (rs_ids s) \<and> sorted_wrt (<) (rs_ids s)
     \<and> cl_low (rs_lease s) \<le> cl_high (rs_lease s)
     \<and> (\<forall>i \<in> set (rs_ids s). cl_low (rs_lease s) < i \<and> i \<le> cl_high (rs_lease s))"

definition range_ok :: "range_state \<Rightarrow> bool" where
  "range_ok s \<longleftrightarrow> range_shape s \<and> rs_resolved s = done_count s"

lemma range_frames [simp]:
  "range_shape (s\<lparr>rs_dispatched := d\<rparr>) = range_shape s" "range_shape (s\<lparr>rs_stale := b\<rparr>) = range_shape s"
  "range_shape (s\<lparr>rs_committed := b\<rparr>) = range_shape s"
  "range_ok (s\<lparr>rs_dispatched := d\<rparr>) = range_ok s" "range_ok (s\<lparr>rs_stale := b\<rparr>) = range_ok s"
  "range_ok (s\<lparr>rs_committed := b\<rparr>) = range_ok s"
  by (simp_all add: range_ok_def range_shape_def done_count_def)

lemma resolve_result_simps [simp]:
  "res_done (resolve_result kind err delay pol r)"
  "res_kind (resolve_result kind err delay pol r) = kind"
  by (simp_all add: resolve_result_def)

lemma range_resolve_simps [simp]:
  "rs_lease (range_resolve i kind err delay pol s) = rs_lease s"
  "rs_ids (range_resolve i kind err delay pol s) = rs_ids s"
  "rs_keys (range_resolve i kind err delay pol s) = rs_keys s"
  "rs_total (range_resolve i kind err delay pol s) = rs_total s"
  "rs_include (range_resolve i kind err delay pol s) = rs_include s"
  "rs_committed (range_resolve i kind err delay pol s) = rs_committed s"
  "rs_stale (range_resolve i kind err delay pol s) = rs_stale s"
  "rs_dispatched (range_resolve i kind err delay pol s) = rs_dispatched s"
  by (simp_all add: range_resolve_def)

lemma filter_update_count:
  "i < length xs \<Longrightarrow> \<not> p (xs ! i) \<Longrightarrow> p y \<Longrightarrow> length (filter p (xs[i := y])) = length (filter p xs) + 1"
proof (induction xs arbitrary: i)
  case (Cons x xs)
  then show ?case by (cases i) auto
qed simp

lemma range_resolve_shape: "range_shape s \<Longrightarrow> range_shape (range_resolve i kind err delay pol s)"
  by (simp add: range_shape_def range_resolve_def)

lemma range_resolve_ok:
  assumes "range_ok s" "i < length (rs_ids s)" "\<not> res_done (rs_results s ! i)"
  shows "range_ok (range_resolve i kind err delay pol s)"
  using assms filter_update_count [of i "rs_results s" res_done]
  by (simp add: range_ok_def range_shape_def done_count_def range_resolve_def)

lemma range_resolve_done:
  assumes "range_shape s" "i < length (rs_ids s)"
  shows "outcome_at (range_resolve i kind err delay pol s) j
    = (if j = i then Some kind else outcome_at s j)"
  using assms by (auto simp: outcome_at_def range_resolve_def range_shape_def nth_list_update)

lemma range_resolved_iff:
  assumes "range_ok s"
  shows "range_resolved s \<longleftrightarrow> (\<forall>r \<in> set (rs_results s). res_done r)"
proof -
  have "length (filter res_done (rs_results s)) = length (rs_results s) \<longleftrightarrow> (\<forall>r \<in> set (rs_results s). res_done r)"
    using filter_id_conv [of res_done "rs_results s"] length_filter_less
    by (metis nat_neq_iff)
  with assms show ?thesis by (simp add: range_resolved_def range_ok_def range_shape_def done_count_def)
qed

lemma new_range_state_ok:
  assumes "sorted_wrt (<) (map ml_id (cr_messages cr))" "cl_low (cr_lease cr) \<le> cl_high (cr_lease cr)"
    and "\<And>m. m \<in> set (cr_messages cr) \<Longrightarrow> cl_low (cr_lease cr) < ml_id m \<and> ml_id m \<le> cl_high (cr_lease cr)"
  shows "range_ok (new_range_state cr include)"
  using assms by (auto simp: range_ok_def range_shape_def new_range_state_def done_count_def new_result_def)

section \<open>The outcomes a range hands to a commit\<close>

lemma range_slots_ids: "range_shape s \<Longrightarrow> map fst (range_slots s) = rs_ids s"
  by (simp add: range_slots_def range_shape_def)

lemma range_outcome_message [simp]: "oc_message (range_outcome e) = fst e"
  by (simp add: range_outcome_def split: prod.splits)

text \<open>The contiguous walk over any strictly increasing list of messages above its start.\<close>

lemma contiguous_loop_le:
  "contiguous_loop include low es = (p, ocs) \<Longrightarrow> sorted_wrt (<) (low # map fst es) \<Longrightarrow>
   low \<le> p \<and> p \<in> insert low (fst ` set es)"
proof (induction es arbitrary: low p ocs)
  case (Cons e es)
  show ?case
  proof (cases "res_done (snd (snd e))")
    case True
    obtain p1 ocs1 where r: "contiguous_loop include (fst e) es = (p1, ocs1)" by fastforce
    have "fst e \<le> p1 \<and> p1 \<in> insert (fst e) (fst ` set es)"
      using Cons.prems(2) by (intro Cons.IH [OF r]) simp
    with Cons.prems True r show ?thesis by auto
  qed (use Cons.prems in simp)
qed simp

lemma contiguous_loop_outcomes:
  "contiguous_loop include low es = (p, ocs) \<Longrightarrow> sorted_wrt (<) (low # map fst es) \<Longrightarrow>
   sorted_wrt (<) (map oc_message ocs) \<and> (\<forall>oc \<in> set ocs. low < oc_message oc \<and> oc_message oc \<le> p)"
proof (induction es arbitrary: low p ocs)
  case (Cons e es)
  show ?case
  proof (cases "res_done (snd (snd e))")
    case True
    obtain p1 ocs1 where r: "contiguous_loop include (fst e) es = (p1, ocs1)" by fastforce
    have s: "sorted_wrt (<) (fst e # map fst es)" using Cons.prems(2) by simp
    note ih = Cons.IH [OF r s] contiguous_loop_le [OF r s]
    show ?thesis using ih Cons.prems True r
      by (auto split: if_splits intro: less_trans)
  qed (use Cons.prems in simp)
qed simp

lemma range_slots_sorted:
  assumes "range_shape s"
  shows "sorted_wrt (<) (cl_low (rs_lease s) # map fst (range_slots s))"
  using assms by (auto simp: range_slots_ids range_shape_def)

lemma contiguous_resolved_le:
  assumes "range_shape s" "contiguous_resolved s = (p, ocs)"
  shows "cl_low (rs_lease s) \<le> p" "p \<le> cl_high (rs_lease s)"
proof -
  have r: "contiguous_loop (rs_include s) (cl_low (rs_lease s)) (range_slots s) = (p, ocs)"
    using assms(2) by (simp add: contiguous_resolved_def)
  have p: "cl_low (rs_lease s) \<le> p" "p \<in> insert (cl_low (rs_lease s)) (fst ` set (range_slots s))"
    using contiguous_loop_le [OF r range_slots_sorted [OF assms(1)]] by auto
  have "fst ` set (range_slots s) = set (rs_ids s)"
    using range_slots_ids [OF assms(1)] by (metis set_map)
  with p assms(1) show "cl_low (rs_lease s) \<le> p" "p \<le> cl_high (rs_lease s)"
    by (auto simp: range_shape_def)
qed

lemma sorted_filter_slots:
  "sorted_wrt (<) (map f es) \<Longrightarrow> sorted_wrt (<) (map f (filter p es))"
  by (induction es) auto

end
