(* ===== verification/Message_Runner.thy ===== *)
theory Message_Runner
  imports Range_State Frontier_Steps Handler_Outcomes
begin

text \<open>
  One message consumer at work: \<open>consumer_runner.go\<close> of \<open>pkg/consume/messageconsumer\<close>. A prefetch
  loop claims ranges into the buffer, a dispatch loop hands buffered messages to goroutines, one
  permit each, every goroutine walks the phases of \<open>processChain\<close>, and a shutdown settles
  whatever is still open. The step relation interleaves them with each other and, through
  \<open>run_other\<close>, with every other worker of the group.
\<close>

section \<open>One delivery\<close>

text \<open>\<open>errors.AsType\<close>: the error from its first delay on.\<close>

fun delayed_part :: "go_error \<Rightarrow> go_error" where
  "delayed_part [] = []"
| "delayed_part (Delayed_Delivery d # es) = Delayed_Delivery d # es"
| "delayed_part (Diagnostic r # es) = delayed_part es"
| "delayed_part (Plain_Error t # es) = delayed_part es"

text \<open>What \<open>runItem\<close> records once the consumer function answered.\<close>

definition handler_resolution ::
  "(string \<Rightarrow> string option) \<Rightarrow> (go_error \<Rightarrow> string) \<Rightarrow> handler_run \<Rightarrow> duration \<Rightarrow> buffered
   \<Rightarrow> result_kind \<times> string \<times> duration" where
  "handler_resolution decode show_error run grace x =
     (case decode (ml_payload (it_row x)) of
        Some err \<Rightarrow> (Kind_Terminal, err, 0)
      | None \<Rightarrow>
          (case call_safely run (mo_timeout (it_options x)) grace of
             None \<Rightarrow> (Kind_Success, '''', 0)
           | Some e \<Rightarrow>
               (case classify_handler_error e of
                  Handler_Terminal \<Rightarrow> (Kind_Terminal, show_error e, 0)
                | Handler_Delayed \<Rightarrow>
                    (Kind_Delayed, show_error (delayed_part e), the (delay_of e))
                | Handler_Exception \<Rightarrow> (Kind_Exception, show_error e, 0))))"

definition wants_key :: "buffered \<Rightarrow> bool" where
  "wants_key x \<longleftrightarrow> ml_key (it_row x) \<noteq> '''' \<and> holds_key (mo_concurrency (it_options x))"

definition claim_item_key ::
  "(stream_db \<Rightarrow> stream_db) \<Rightarrow> stream_db \<Rightarrow> int \<Rightarrow> int \<Rightarrow> buffered \<Rightarrow> duration \<Rightarrow> duration
   \<Rightarrow> uuid \<Rightarrow> time \<Rightarrow> key_claim exec" where
  "claim_item_key between db stream g x grace margin tok now =
     claim_key_checked between db stream g (ml_key (it_row x)) (ml_id (it_row x))
       (ml_compacted (it_row x)) (mo_concurrency (it_options x))
       (cl_low (it_lease x)) (cl_high (it_lease x))
       (mo_timeout (it_options x) + grace + margin) tok now"

text \<open>
  What the key claim decides: an error is recorded as an exception, a lost compaction race and a
  busy key resolve the message without running it, and only an acquired key goes on to the
  consumer function.
\<close>

definition key_resolution ::
  "(db_error \<Rightarrow> string) \<Rightarrow> db_error + key_claim \<Rightarrow> (result_kind \<times> string) option" where
  "key_resolution show_db res = (case res of
       Inl e \<Rightarrow> Some (Kind_Exception, show_db e)
     | Inr c \<Rightarrow> (case kc_verdict c of
           Key_Superseded \<Rightarrow> Some (Kind_Superseded,
             ''a newer version of the same message key superseded this delivery'')
         | Key_Busy \<Rightarrow> Some (Kind_Deferred, ''another delivery held the message key at dispatch'')
         | Key_Acquired \<Rightarrow> None))"

definition covered :: "buffered \<Rightarrow> duration \<Rightarrow> duration \<Rightarrow> time \<Rightarrow> bool" where
  "covered x grace margin now \<longleftrightarrow>
     mo_timeout (it_options x) + grace + margin \<le> cl_expires (it_lease x) - now"

section \<open>The state\<close>

text \<open>
  Where a goroutine is: at the head of \<open>processClaim\<close>, in the consumer function (holding a key
  or not), about to release its key, in \<open>commitIfResolved\<close>, waiting for the commit it owns, or
  back in \<open>processChain\<close>. The flag marks the last \<open>commitIfResolved\<close>, after the chain behind a
  failed message has been deferred.
\<close>

datatype phase =
    Start
  | Handler "key_claim option"
  | Release "key_claim option"
  | Check bool
  | Committing range_snapshot bool
  | Chain

record message_runner =
  mr_frontier :: frontier
  mr_buffer :: claim_buffer
  mr_offer :: "buffered list"
  mr_direct :: "range_snapshot option"
  mr_slots :: "(buffered \<times> phase) option list"
  mr_stopped :: bool
  mr_taken :: bool
  mr_open :: "range_state list"
  mr_tokens :: "uuid set"
  mr_claims :: "uuid \<Rightarrow> buffered list"
  mr_runs :: "(uuid \<times> nat) list"
  mr_resolved :: "(uuid \<times> nat \<times> result_kind) list"
  mr_failed :: "uuid set"

text \<open>
  The last five fields are history: the tokens of this consumer's claims, the items of each
  claim, the runs of the consumer function, the resolutions, and the ranges whose commit
  answered an error.
\<close>

abbreviation mr_db :: "message_runner \<Rightarrow> stream_db" where
  "mr_db r \<equiv> fr_db (mr_frontier r)"

definition put_slot :: "nat \<Rightarrow> (buffered \<times> phase) option \<Rightarrow> message_runner \<Rightarrow> message_runner" where
  "put_slot i x r = r\<lparr>mr_slots := (mr_slots r)[i := x]\<rparr>"

definition at_slot :: "message_runner \<Rightarrow> nat \<Rightarrow> buffered \<Rightarrow> phase \<Rightarrow> bool" where
  "at_slot r i x ph \<longleftrightarrow> i < length (mr_slots r) \<and> mr_slots r ! i = Some (x, ph)"

definition after_check :: "buffered \<Rightarrow> bool \<Rightarrow> (buffered \<times> phase) option" where
  "after_check x final = (if final then None else Some (x, Chain))"

definition resolve_item ::
  "buffered \<Rightarrow> result_kind \<Rightarrow> string \<Rightarrow> duration \<Rightarrow> message_runner \<Rightarrow> message_runner" where
  "resolve_item x kind err delay r =
     r\<lparr>mr_buffer := buffer_resolve x kind err delay (mr_buffer r),
       mr_resolved := (item_token x, it_index x, kind) # mr_resolved r\<rparr>"

definition resolve_behind :: "buffered \<Rightarrow> message_runner \<Rightarrow> message_runner" where
  "resolve_behind x r =
     r\<lparr>mr_buffer := resolve_deferred_behind x (mr_buffer r),
       mr_resolved := map (\<lambda>y. (item_token y, it_index y, Kind_Deferred)) (tl (chain x)) @ mr_resolved r\<rparr>"

definition settle_db :: "stream_db \<Rightarrow> int \<Rightarrow> message_runner \<Rightarrow> message_runner" where
  "settle_db db' g r = r\<lparr>mr_frontier := settle (mr_frontier r) db' g\<rparr>"

text \<open>
  What the other workers may do: anything but touch a lease under a token this consumer holds,
  since a token is random and only its holder knows it.
\<close>

definition tokens_kept :: "int \<Rightarrow> message_runner \<Rightarrow> frontier \<Rightarrow> bool" where
  "tokens_kept g r f' \<longleftrightarrow> (\<forall>l' \<in> leases_of (fr_db f') g. cl_token l' \<in> mr_tokens r \<longrightarrow>
     (\<exists>l \<in> leases_of (mr_db r) g. cl_token l = cl_token l' \<and> cl_low l = cl_low l'
        \<and> cl_high l = cl_high l'))"

text \<open>
  \<open>closeRange\<close>: a range nobody started is handed back, of any other the resolved prefix is
  committed.
\<close>

definition close_range ::
  "stream_db \<Rightarrow> int \<Rightarrow> int \<Rightarrow> range_state \<Rightarrow> duration \<Rightarrow> delivery_log_mode \<Rightarrow> time \<Rightarrow> uuid
   \<Rightarrow> unit exec" where
  "close_range db stream g s backoff mode now tok =
     (if never_dispatched s \<and> \<not> rs_stale s
      then force_reclaim_checked db stream g (cl_token (rs_lease s)) now tok
      else (case contiguous_resolved s of (p, ocs) \<Rightarrow>
        if p = cl_low (rs_lease s) \<and> ocs = [] then (Inr (), db)
        else (case partial_commit_checked db stream g (cl_token (rs_lease s)) p ocs backoff mode now of
            (Inl e, db') \<Rightarrow> (Inl e, db')
          | (Inr _, db') \<Rightarrow> (Inr (), db'))))"

text \<open>\<open>commitRange\<close>: the range is dropped unless the commit answered an error that may pass.\<close>

definition commit_settled :: "db_error + nat \<Rightarrow> bool" where
  "commit_settled res \<longleftrightarrow> (case res of Inr _ \<Rightarrow> True | Inl e \<Rightarrow> e = Err_Lease_Lost)"

definition after_commit :: "uuid \<Rightarrow> db_error + nat \<Rightarrow> message_runner \<Rightarrow> message_runner" where
  "after_commit t res r =
     (if commit_settled res then r\<lparr>mr_buffer := remove_range t (mr_buffer r)\<rparr>
      else r\<lparr>mr_failed := insert t (mr_failed r)\<rparr>)"

definition lease_duration :: "message_consumer_config \<Rightarrow> duration" where
  "lease_duration cfg =
     mo_timeout (or_zero_options (cfg_message_max cfg)) + timeout_grace cfg
     + queue_margin cfg + record_margin cfg"

section \<open>Steps\<close>

text \<open>What is fixed for the life of a runner.\<close>

record runner_env =
  rv_stream :: int
  rv_group :: int
  rv_schema :: int
  rv_mode :: delivery_log_mode
  rv_grace :: duration
  rv_margin :: duration
  rv_regex :: "string \<Rightarrow> string \<Rightarrow> bool"
  rv_decode :: "string \<Rightarrow> string option"
  rv_show :: "go_error \<Rightarrow> string"
  rv_show_db :: "db_error \<Rightarrow> string"

definition claim_range ::
  "runner_env \<Rightarrow> message_consumer_config \<Rightarrow> nat \<Rightarrow> claim_snapshot \<Rightarrow> uuid option \<Rightarrow> xid \<Rightarrow> time
   \<Rightarrow> uuid \<Rightarrow> stream_db \<Rightarrow> claimed_range option exec" where
  "claim_range v cfg free snap picked xmin now tok db =
     claim_with_cursor_checked (rv_regex v) db (rv_stream v) (rv_group v) (rv_schema v)
       (min (int free) (batch_limit cfg)) (max_range_reclaims cfg) (lease_duration cfg)
       (rv_mode v) snap picked xmin now tok"

text \<open>
  A claim that yields messages is tracked and offered to the queue; one that yields none is
  committed at once; a quarantined range and a claim that found nothing leave the runner as it
  was. \<open>order\<close> lists the ordered keys of the range in the order Go's map yields them.
\<close>

definition adopt_claim ::
  "message_consumer_config \<Rightarrow> string list \<Rightarrow> claimed_range \<Rightarrow> message_runner \<Rightarrow> message_runner" where
  "adopt_claim cfg order cr r =
     (let t = cl_token (cr_lease cr); items = claimed_items (message_config_resolve cfg) cr in
      if cr_quarantined cr then r
      else (case add_claimed cr (message_config_resolve cfg) order (mr_buffer r) of
          (None, _) \<Rightarrow> r\<lparr>mr_direct := Some \<lparr>sp_lease = cr_lease cr, sp_outcomes = []\<rparr>,
                         mr_tokens := insert t (mr_tokens r)\<rparr>
        | (Some offer, b) \<Rightarrow> r\<lparr>mr_buffer := b, mr_offer := offer,
                              mr_tokens := insert t (mr_tokens r),
                              mr_claims := (mr_claims r)(t := items)\<rparr>))"

definition chain_keys :: "buffered list \<Rightarrow> string set" where
  "chain_keys items = (\<lambda>b. ml_key (it_row b)) ` {b \<in> set items. chained b}"

inductive runner_step :: "runner_env \<Rightarrow> message_runner \<Rightarrow> message_runner \<Rightarrow> bool" for v where
  run_other: "frontier_step (rv_group v) (mr_frontier r) f' \<Longrightarrow> tokens_kept (rv_group v) r f' \<Longrightarrow>
     runner_step v r (r\<lparr>mr_frontier := f'\<rparr>)"
| run_claim: "\<not> mr_stopped r \<Longrightarrow> mr_offer r = [] \<Longrightarrow> mr_direct r = None \<Longrightarrow> tok \<notin> mr_tokens r \<Longrightarrow>
     wait_for_room (mr_buffer r) (nat (batch_limit cfg)) timed_out = Some free \<Longrightarrow>
     claim_range v cfg free snap picked xmin now tok (mr_db r) = (Inr (Some cr), db') \<Longrightarrow>
     distinct order \<Longrightarrow>
     set order = chain_keys (claimed_items (message_config_resolve cfg) cr) \<Longrightarrow>
     runner_step v r (adopt_claim cfg order cr (settle_db db' (rv_group v) r))"
| run_no_claim: "\<not> mr_stopped r \<Longrightarrow> mr_offer r = [] \<Longrightarrow> mr_direct r = None \<Longrightarrow> tok \<notin> mr_tokens r \<Longrightarrow>
     claim_range v cfg free snap picked xmin now tok (mr_db r) = (res, db') \<Longrightarrow>
     res = Inr None \<or> (\<exists>e. res = Inl e) \<Longrightarrow> runner_step v r (settle_db db' (rv_group v) r)"
| run_direct: "mr_direct r = Some snap \<Longrightarrow> \<not> mr_stopped r \<Longrightarrow>
     commit_range_checked (mr_db r) (rv_stream v) (rv_group v) (cl_token (sp_lease snap))
       (sp_outcomes snap) backoff (rv_mode v) now = (res, db') \<Longrightarrow>
     runner_step v r (settle_db db' (rv_group v) (r\<lparr>mr_direct := None\<rparr>))"
| run_direct_fails: "mr_direct r = Some snap \<Longrightarrow> runner_step v r (r\<lparr>mr_direct := None\<rparr>)"
| run_enqueue: "mr_offer r = x # xs \<Longrightarrow> 0 < room (mr_buffer r) \<Longrightarrow>
     runner_step v r (r\<lparr>mr_offer := xs, mr_buffer := enqueue x (mr_buffer r)\<rparr>)"
| run_dispatch: "\<not> mr_stopped r \<Longrightarrow> i < length (mr_slots r) \<Longrightarrow> mr_slots r ! i = None \<Longrightarrow>
     wait_for_next (mr_buffer r) = Some (x, b') \<Longrightarrow>
     runner_step v r (put_slot i (Some (x, Start)) (r\<lparr>mr_buffer := b'\<rparr>))"
| run_stale: "at_slot r i x Start \<Longrightarrow> \<not> covered x (rv_grace v) (rv_margin v) now \<Longrightarrow>
     runner_step v r (put_slot i None (r\<lparr>mr_buffer := mark_stale (item_token x) (mr_buffer r)\<rparr>))"
| run_keyless: "at_slot r i x Start \<Longrightarrow> covered x (rv_grace v) (rv_margin v) now \<Longrightarrow>
     \<not> wants_key x \<Longrightarrow>
     runner_step v r (put_slot i (Some (x, Handler None))
       (r\<lparr>mr_runs := (item_token x, it_index x) # mr_runs r\<rparr>))"
| run_key: "at_slot r i x Start \<Longrightarrow> covered x (rv_grace v) (rv_margin v) now \<Longrightarrow> wants_key x \<Longrightarrow>
     \<not> mr_stopped r \<Longrightarrow> (\<And>d. foreign d (between d) (rv_group v)) \<Longrightarrow>
     claim_item_key between (mr_db r) (rv_stream v) (rv_group v) x (rv_grace v) (rv_margin v) tok
       now' = (Inr kc, db') \<Longrightarrow> key_resolution (rv_show_db v) (Inr kc) = None \<Longrightarrow>
     runner_step v r (settle_db db' (rv_group v) (put_slot i (Some (x, Handler (Some kc)))
       (r\<lparr>mr_runs := (item_token x, it_index x) # mr_runs r\<rparr>)))"
| run_key_refused: "at_slot r i x Start \<Longrightarrow> covered x (rv_grace v) (rv_margin v) now \<Longrightarrow>
     wants_key x \<Longrightarrow> \<not> mr_stopped r \<Longrightarrow> (\<And>d. foreign d (between d) (rv_group v)) \<Longrightarrow>
     claim_item_key between (mr_db r) (rv_stream v) (rv_group v) x (rv_grace v) (rv_margin v) tok
       now' = (res, db') \<Longrightarrow> key_resolution (rv_show_db v) res = Some (kind, err) \<Longrightarrow>
     runner_step v r (settle_db db' (rv_group v) (put_slot i (Some (x, Check False))
       (resolve_item x kind err 0 r)))"
| run_key_error: "at_slot r i x Start \<Longrightarrow> covered x (rv_grace v) (rv_margin v) now \<Longrightarrow> wants_key x \<Longrightarrow>
     runner_step v r (put_slot i (Some (x, Check False)) (resolve_item x Kind_Exception err 0 r))"
| run_handler: "at_slot r i x (Handler kco) \<Longrightarrow>
     handler_resolution (rv_decode v) (rv_show v) run (rv_grace v) x = (kind, err, delay) \<Longrightarrow>
     runner_step v r (put_slot i (Some (x, Release kco)) (resolve_item x kind err delay r))"
| run_release: "at_slot r i x (Release kco) \<Longrightarrow>
     (db' = (case kco of None \<Rightarrow> mr_db r | Some kc \<Rightarrow> snd (release_key_checked (mr_db r) (rv_stream v) (Some kc)))
      \<or> db' = mr_db r) \<Longrightarrow>
     runner_step v r (settle_db db' (rv_group v) (put_slot i (Some (x, Check False)) r))"
| run_check: "at_slot r i x (Check final) \<Longrightarrow>
     \<not> is_range_resolved (mr_buffer r) (item_token x) \<or>
     try_get_range_snapshot (item_token x) (mr_buffer r) = (Inl e, b') \<Longrightarrow>
     runner_step v r (put_slot i (after_check x final) r)"
| run_snapshot: "at_slot r i x (Check final) \<Longrightarrow>
     is_range_resolved (mr_buffer r) (item_token x) \<Longrightarrow>
     try_get_range_snapshot (item_token x) (mr_buffer r) = (Inr snap, b') \<Longrightarrow>
     runner_step v r (put_slot i (Some (x, Committing snap final)) (r\<lparr>mr_buffer := b'\<rparr>))"
| run_commit: "at_slot r i x (Committing snap final) \<Longrightarrow> \<not> mr_stopped r \<Longrightarrow>
     commit_range_checked (mr_db r) (rv_stream v) (rv_group v) (cl_token (sp_lease snap))
       (sp_outcomes snap) backoff (rv_mode v) now = (res, db') \<Longrightarrow>
     runner_step v r (settle_db db' (rv_group v)
       (put_slot i (after_check x final) (after_commit (cl_token (sp_lease snap)) res r)))"
| run_commit_unknown: "at_slot r i x (Committing snap final) \<Longrightarrow>
     db' = mr_db r \<or> \<not> mr_stopped r \<and>
       commit_range_checked (mr_db r) (rv_stream v) (rv_group v) (cl_token (sp_lease snap))
         (sp_outcomes snap) backoff (rv_mode v) now = (res, db') \<Longrightarrow>
     runner_step v r (settle_db db' (rv_group v)
       (put_slot i (after_check x final) (r\<lparr>mr_failed := insert (cl_token (sp_lease snap)) (mr_failed r)\<rparr>)))"
| run_chain_ends: "at_slot r i x Chain \<Longrightarrow> buffer_outcome (mr_buffer r) x = None \<Longrightarrow>
     runner_step v r (put_slot i None r)"
| run_chain_breaks: "at_slot r i x Chain \<Longrightarrow> buffer_outcome (mr_buffer r) x = Some kind \<Longrightarrow>
     kind \<noteq> Kind_Success \<Longrightarrow> kind \<noteq> Kind_Terminal \<Longrightarrow>
     runner_step v r (put_slot i (Some (x, Check True)) (resolve_behind x r))"
| run_chain_goes_on: "at_slot r i x Chain \<Longrightarrow> buffer_outcome (mr_buffer r) x = Some kind \<Longrightarrow>
     kind = Kind_Success \<or> kind = Kind_Terminal \<Longrightarrow>
     runner_step v r (put_slot i (map_option (\<lambda>y. (y, Start)) (it_next x)) r)"
| run_stop: "runner_step v r (r\<lparr>mr_stopped := True, mr_offer := [], mr_direct := None\<rparr>)"
| run_take: "mr_stopped r \<Longrightarrow> \<not> mr_taken r \<Longrightarrow> lists_ranges states (mr_buffer r) \<Longrightarrow>
     runner_step v r (r\<lparr>mr_taken := True, mr_open := states, mr_buffer := remove_all (mr_buffer r)\<rparr>)"
| run_close: "mr_open r = s # states \<Longrightarrow> tok \<notin> mr_tokens r \<Longrightarrow>
     close_range (mr_db r) (rv_stream v) (rv_group v) s backoff (rv_mode v) now tok = (res, db') \<Longrightarrow>
     runner_step v r (settle_db db' (rv_group v) (r\<lparr>mr_open := states\<rparr>))"
| run_close_fails: "mr_open r = s # states \<Longrightarrow> runner_step v r (r\<lparr>mr_open := states\<rparr>)"

inductive_cases runner_stepE: "runner_step v r r'"

end
