(* ===== verification/Runner_Leases.thy ===== *)
theory Runner_Leases
  imports Message_Runner
begin

text \<open>
  What each database operation of a message consumer does to the leases of its group, and which
  steps of the group's frontier it amounts to. The second part discharges, for the model of the
  consumer, what the frontier takes as a contract: the outcomes of a commit are about the lease
  it commits.
\<close>

section \<open>Leases after an operation\<close>

definition leases_but :: "stream_db \<Rightarrow> stream_db \<Rightarrow> int \<Rightarrow> uuid \<Rightarrow> bool" where
  "leases_but db db' g t \<longleftrightarrow> (\<forall>l \<in> leases_of db' g. cl_token l \<noteq> t \<longrightarrow> l \<in> leases_of db g)"

lemma leases_but_refl [simp]: "leases_but db db g t"
  by (simp add: leases_but_def)

lemma leases_but_same: "leases_of db' g = leases_of db g \<Longrightarrow> leases_but db db' g t"
  by (simp add: leases_but_def)

lemma commit_leases:
  "commit_range db g t ocs backoff mode now = (res, db') \<Longrightarrow> leases_of db' g \<subseteq> leases_of db g"
  by (auto simp: commit_range_def leases_of_def set_delete_where dest: record_outcomes_Inr
      split: if_splits prod.splits sum.splits)

lemma partial_leases:
  "partial_commit db g t p ocs backoff mode now = (res, db') \<Longrightarrow> leases_but db db' g t"
  by (auto simp: partial_commit_def leases_but_def leases_of_def set_update_where
      dest!: record_outcomes_Inr split: if_splits prod.splits sum.splits)

lemma force_leases:
  "force_reclaim_range db g t now tok = (res, db') \<Longrightarrow> leases_but db db' g tok"
  by (auto simp: force_reclaim_range_def leases_but_def leases_of_def set_update_where
      split: if_splits)

lemma quarantine_frees_lease:
  "quarantine db g l mode now = (res, db') \<Longrightarrow> leases_of db' g \<subseteq> leases_of db g"
  by (auto simp: quarantine_eq leases_of_def set_delete_where split: if_splits)

lemma reclaim_leases:
  assumes "reclaim_range rx db g schema maxr dur mode picked now tok = (res, db')"
  shows "leases_but db db' g tok"
  using assms
proof (cases rule: reclaim_cases)
  case (leased l db1)
  then show ?thesis by (auto simp: leases_but_def leases_of_def set_update_where)
next
  case (poisoned l db1)
  have "leases_but db db1 g tok"
    using poisoned(5) by (auto simp: leases_but_def leases_of_def set_update_where)
  with quarantine_frees_lease [OF poisoned(7)] show ?thesis by (auto simp: leases_but_def)
qed simp_all

lemma fresh_leases:
  assumes "fresh_claim rx db g schema limit dur snap xmin now tok = (res, db')"
    "cursor_of db g = Some c" "cur_claimed c \<le> cur_settled_head c" "0 \<le> limit"
  shows "leases_but db db' g tok"
  using assms
proof (cases rule: fresh_claim_cases)
  case (claimed r)
  have "cl_token (cr_lease r) = tok" using claimed(3) by simp
  with claimed(6) show ?thesis by (auto simp: leases_but_def leases_of_def)
next
  case idle
  then show ?thesis by (auto simp: leases_but_def leases_of_def)
qed simp

section \<open>Claims\<close>

text \<open>What a claimed range holds: messages of its bounds, in id order, under the new token.\<close>

definition claim_shape :: "claimed_range \<Rightarrow> uuid \<Rightarrow> bool" where
  "claim_shape cr tok \<longleftrightarrow> cl_token (cr_lease cr) = tok \<and> cl_low (cr_lease cr) \<le> cl_high (cr_lease cr)
     \<and> sorted_wrt (<) (map ml_id (cr_messages cr))
     \<and> (\<forall>m \<in> set (cr_messages cr). cl_low (cr_lease cr) < ml_id m \<and> ml_id m \<le> cl_high (cr_lease cr))"

lemma read_messages_shape:
  assumes "distinct (map msg_id (message_log db))"
  shows "sorted_wrt (<) (map ml_id (read_messages rx db g schema low high))"
    and "m \<in> set (read_messages rx db g schema low high) \<Longrightarrow> low < ml_id m \<and> ml_id m \<le> high"
proof -
  have "sorted_wrt (\<lambda>a b. msg_id a < msg_id b)
      (sort_key msg_id (filter (readable rx db g schema low high) (message_log db)))"
    by (intro distinct_sort_strict distinct_map_filter assms)
  then show "sorted_wrt (<) (map ml_id (read_messages rx db g schema low high))"
    by (simp add: read_messages_def sorted_wrt_map to_message_log_row_def)
  show "m \<in> set (read_messages rx db g schema low high) \<Longrightarrow> low < ml_id m \<and> ml_id m \<le> high"
    by (auto simp: read_messages_def readable_def to_message_log_row_def)
qed

definition only_lease :: "stream_db \<Rightarrow> int \<Rightarrow> claim_lease_row \<Rightarrow> bool" where
  "only_lease db g l \<longleftrightarrow> (\<forall>l' \<in> leases_of db g. cl_token l' = cl_token l \<longrightarrow>
     cl_low l' = cl_low l \<and> cl_high l' = cl_high l)"

lemma token_unused:
  "\<not> (\<exists>r \<in> set (claim_leases db). lease_key r = (g, tok)) \<Longrightarrow> l \<in> leases_of db g \<Longrightarrow> cl_token l \<noteq> tok"
  by (auto simp: leases_of_def lease_key_def)

lemma reclaim_shape:
  assumes op: "reclaim_range rx db g schema maxr dur mode picked now tok = (Inr (Some cr), db')"
    and inv: "window_inv db g"
  shows "claim_shape cr tok \<and> (\<not> cr_quarantined cr \<longrightarrow> only_lease db' g (cr_lease cr))"
proof -
  obtain c where c: "keys_ok db" "window_ok c (leases_of db g) (rows_of db g)"
    using inv by (auto elim: window_invE)
  have d: "distinct (map msg_id (message_log db))" using c(1) by (simp add: keys_ok_def)
  show ?thesis
    using op
  proof (cases rule: reclaim_cases)
    case (leased l db1)
    have "leases_of db' g = narrowed (leases_of db g) l (reclaimed l dur now tok)"
      using reclaim_rotates(4) [OF leased(1,4,5) c(1)] leased(7) by simp
    then have "only_lease db' g (reclaimed l dur now tok)"
      using token_unused [OF leased(4)] by (auto simp: only_lease_def narrowed_def)
    moreover have "cl_low l \<le> cl_high l" using c(2) leased(1) by (simp add: window_ok_def)
    ultimately show ?thesis
      using leased(8) read_messages_shape [OF d, where rx = rx and g = g and schema = schema and low = "cl_low l" and high = "cl_high l"]
      by (auto simp: claim_shape_def)
  next
    case (poisoned l db1)
    have "cl_low l \<le> cl_high l" using c(2) poisoned(1) by (simp add: window_ok_def)
    with poisoned show ?thesis by (simp add: claim_shape_def)
  qed simp_all
qed

lemma fresh_shape:
  assumes op: "fresh_claim rx db g schema limit dur snap xmin now tok = (Inr (Some cr), db')"
    and inv: "window_inv db g" and l: "0 \<le> limit"
  shows "claim_shape cr tok \<and> only_lease db' g (cr_lease cr)"
proof -
  obtain c where c: "cursor_of db g = Some c" "keys_ok db" "window_ok c (leases_of db g) (rows_of db g)"
    using inv by (auto elim: window_invE)
  have d: "distinct (map msg_id (message_log db))" using c(2) by (simp add: keys_ok_def)
  have cs: "cur_claimed c \<le> cur_settled_head c" using c(3) by (simp add: window_ok_def)
  show ?thesis
    using op c(1) cs l
  proof (cases rule: fresh_claim_cases)
    case (claimed r)
    have "leases_of db' g = insert (cr_lease r) (leases_of db g)"
      using claimed(3,6) by (auto simp: leases_append)
    then have "only_lease db' g (cr_lease r)"
      using token_unused [OF claimed(5)] claimed(3) by (auto simp: only_lease_def)
    with claimed read_messages_shape [OF d, where rx = rx and g = g and schema = schema and low = "cl_low (cr_lease r)" and high = "cl_high (cr_lease r)"]
    show ?thesis by (auto simp: claim_shape_def)
  qed simp_all
qed

section \<open>Operations as steps of the frontier\<close>

abbreviation frontier_steps :: "int \<Rightarrow> frontier \<Rightarrow> frontier \<Rightarrow> bool" where
  "frontier_steps g \<equiv> (frontier_step g)\<^sup>*\<^sup>*"

lemma settle_same [simp]: "settle s (fr_db s) g = s"
  by (simp add: settle_def released_def)

lemma settle_plain: "pending_ids (fr_db s) g \<subseteq> pending_ids db' g \<Longrightarrow> settle s db' g = s\<lparr>fr_db := db'\<rparr>"
  by (cases s) (auto simp: settle_def released_def)

lemma fresh_step:
  assumes op: "fresh_claim rx (fr_db f) g schema limit dur snap xmin now tok = (res, db')"
    and l: "0 \<le> limit" and inv: "window_inv (fr_db f) g"
  shows "frontier_step g f (settle f db' g)"
proof -
  obtain c where c: "cursor_of (fr_db f) g = Some c" using inv by (auto elim: window_invE)
  have "pending_ids (fr_db f) g \<subseteq> pending_ids db' g"
    by (rule fresh_claim_pending [OF op l inv c]) auto
  then show ?thesis using step_fresh [where s = f and g = g, OF op l] by (simp add: settle_plain)
qed

text \<open>The claim of a runner: a reclaim, a fresh claim, or nothing.\<close>

lemma claim_cases:
  assumes "claim_with_cursor_checked rx db stream g schema limit maxr dur mode snap picked xmin now tok
    = (res, db')"
  obtains (reclaim) "reclaim_range rx db g schema maxr dur mode picked now tok = (res, db')" "0 \<le> limit"
  | (fresh) "fresh_claim rx db g schema limit dur snap xmin now tok = (res, db')" "0 \<le> limit"
  | (none) "db' = db" "res = Inr None \<or> (\<exists>e. res = Inl e)"
proof (cases "stream \<le> 0 \<or> g \<le> 0 \<or> limit < 1 \<or> maxr < 1 \<or> dur \<le> 0")
  case True
  with assms show ?thesis by (intro none) (auto simp: claim_with_cursor_checked_def split: if_splits)
next
  case False
  let ?fresh = "if idle_snapshot (sn_head snap) (sn_pending_head snap) (sn_settled_head snap)
        (sn_claimed snap) then (Inr None, db)
      else fresh_claim rx db g schema limit dur snap xmin now tok"
  have op: "(if sn_reclaimable snap
       then (case reclaim_range rx db g schema maxr dur mode picked now tok of
           (Inl e, db') \<Rightarrow> (Inl e, db') | (Inr (Some r), db') \<Rightarrow> (Inr (Some r), db')
         | (Inr None, _) \<Rightarrow> ?fresh) else ?fresh) = (res, db')"
    using assms False by (simp add: claim_with_cursor_checked_def claim_with_cursor_def Let_def)
  have fr: "?fresh = (res, db') \<Longrightarrow> thesis"
    using False by (cases "idle_snapshot (sn_head snap) (sn_pending_head snap) (sn_settled_head snap)
        (sn_claimed snap)") (auto intro: none fresh)
  have re: "reclaim_range rx db g schema maxr dur mode picked now tok = (res, db') \<Longrightarrow> thesis"
    using False by (intro reclaim) auto
  show ?thesis
  proof (cases "reclaim_range rx db g schema maxr dur mode picked now tok")
    case (Pair q db1)
    show ?thesis
    proof (cases "sn_reclaimable snap")
      case True
      with op Pair fr re show ?thesis by (auto split: sum.splits option.splits)
    qed (use op fr in simp)
  qed
qed

lemma claim_frontier:
  assumes op: "claim_with_cursor_checked rx (fr_db f) stream g schema limit maxr dur mode snap picked xmin
      now tok = (res, db')"
    and inv: "window_inv (fr_db f) g"
  shows "frontier_steps g f (settle f db' g)" "leases_but (fr_db f) db' g tok"
    "res = Inr (Some cr) \<Longrightarrow>
      claim_shape cr tok \<and> (\<not> cr_quarantined cr \<longrightarrow> only_lease db' g (cr_lease cr))"
proof -
  obtain c where c: "cursor_of (fr_db f) g = Some c" "cur_claimed c \<le> cur_settled_head c"
    using inv by (auto simp: window_ok_def elim: window_invE)
  from op have "frontier_steps g f (settle f db' g) \<and> leases_but (fr_db f) db' g tok
    \<and> (res = Inr (Some cr) \<longrightarrow>
        claim_shape cr tok \<and> (\<not> cr_quarantined cr \<longrightarrow> only_lease db' g (cr_lease cr)))"
  proof (cases rule: claim_cases)
    case reclaim
    then show ?thesis using step_reclaim reclaim_leases reclaim_shape inv by (metis r_into_rtranclp)
  next
    case fresh
    then show ?thesis
      using fresh_step [OF fresh(1,2) inv] fresh_leases [OF fresh(1) c fresh(2)] fresh_shape inv by blast
  qed auto
  then show "frontier_steps g f (settle f db' g)" "leases_but (fr_db f) db' g tok"
    "res = Inr (Some cr) \<Longrightarrow>
      claim_shape cr tok \<and> (\<not> cr_quarantined cr \<longrightarrow> only_lease db' g (cr_lease cr))"
    by auto
qed

lemma commit_frontier:
  assumes op: "commit_range_checked (fr_db f) stream g t ocs backoff mode now = (res, db')"
    and known: "\<And>l. l \<in> leases_of (fr_db f) g \<Longrightarrow> cl_token l = t \<Longrightarrow> cl_low l = low \<and> cl_high l = high"
    and out: "outcomes_within low high ocs"
  shows "frontier_steps g f (settle f db' g)" "leases_of db' g \<subseteq> leases_of (fr_db f) g"
proof -
  have "db' = fr_db f \<or> commit_range (fr_db f) g t ocs backoff mode now = (res, db')"
    using op by (auto simp: commit_range_checked_def split: option.splits)
  then have "frontier_steps g f (settle f db' g) \<and> leases_of db' g \<subseteq> leases_of (fr_db f) g"
  proof
    assume c: "commit_range (fr_db f) g t ocs backoff mode now = (res, db')"
    have "commit_contract (fr_db f) g t ocs" using known out by (auto simp: commit_contract_def)
    with c show ?thesis using step_commit commit_leases by blast
  qed simp
  then show "frontier_steps g f (settle f db' g)" "leases_of db' g \<subseteq> leases_of (fr_db f) g" by auto
qed

text \<open>Outcomes of a range, against its lease.\<close>

lemma resolved_outcomes_within:
  assumes "range_shape s"
  shows "outcomes_within (cl_low (rs_lease s)) (cl_high (rs_lease s)) (resolved_outcomes s)"
proof -
  have "map oc_message (resolved_outcomes s) = map fst (filter (collected (rs_include s)) (range_slots s))"
    by (simp add: resolved_outcomes_def comp_def)
  moreover have "sorted_wrt (<) (map fst (filter (collected (rs_include s)) (range_slots s)))"
    using assms by (intro sorted_filter_slots) (simp add: range_slots_ids range_shape_def)
  ultimately have d: "distinct (map oc_message (resolved_outcomes s))" by (simp add: strict_sorted_iff)
  have "oc_message oc \<in> set (rs_ids s)" if "oc \<in> set (resolved_outcomes s)" for oc
  proof -
    have "oc_message oc \<in> set (map fst (range_slots s))" using that by (force simp: resolved_outcomes_def)
    then show ?thesis by (simp only: range_slots_ids [OF assms])
  qed
  with d assms show ?thesis by (auto simp: outcomes_within_def range_shape_def)
qed

lemma contiguous_within:
  assumes "range_shape s" "contiguous_resolved s = (p, ocs)"
  shows "outcomes_within (cl_low (rs_lease s)) p ocs"
  using contiguous_loop_outcomes [OF _ range_slots_sorted [OF assms(1)], of "rs_include s" p ocs] assms(2)
  by (simp add: outcomes_within_def contiguous_resolved_def strict_sorted_iff)

lemma partial_frontier:
  assumes op: "partial_commit_checked (fr_db f) stream g t p ocs backoff mode now = (res, db')"
    and c: "partial_contract (fr_db f) g t p ocs"
  shows "frontier_steps g f (settle f db' g) \<and> leases_but (fr_db f) db' g t"
proof -
  have "db' = fr_db f \<or> partial_commit (fr_db f) g t p ocs backoff mode now = (res, db')"
    using op by (auto simp: partial_commit_checked_def split: option.splits if_splits)
  with c show ?thesis using step_partial [of f g t p ocs backoff mode now res db'] partial_leases by auto
qed

lemma force_frontier:
  assumes op: "force_reclaim_checked (fr_db f) stream g t now tok = (res, db')"
    and k: "keys_ok (fr_db f)"
  shows "frontier_steps g f (settle f db' g) \<and> leases_but (fr_db f) db' g tok"
proof -
  have "db' = fr_db f \<or> force_reclaim_range (fr_db f) g t now tok = (res, db')"
    using op by (auto simp: force_reclaim_checked_def split: if_splits)
  then show ?thesis
  proof
    assume f: "force_reclaim_range (fr_db f) g t now tok = (res, db')"
    have "settle f db' g = f\<lparr>fr_db := db'\<rparr>"
      using force_reclaim_keeps(2) [OF f k] by (intro settle_plain) simp
    then show ?thesis using step_force [where s = f, OF f] force_leases [OF f] by auto
  qed simp
qed

lemma close_frontier:
  assumes op: "close_range (fr_db f) stream g s backoff mode now tok = (res, db')"
    and k: "keys_ok (fr_db f)" and shape: "range_shape s" and known: "only_lease (fr_db f) g (rs_lease s)"
  shows "frontier_steps g f (settle f db' g)"
    "\<forall>l \<in> leases_of db' g. cl_token l \<noteq> cl_token (rs_lease s) \<and> cl_token l \<noteq> tok \<longrightarrow> l \<in> leases_of (fr_db f) g"
proof -
  let ?t = "cl_token (rs_lease s)"
  obtain p ocs where po: "contiguous_resolved s = (p, ocs)" by fastforce
  have "partial_contract (fr_db f) g ?t p ocs"
    using known contiguous_resolved_le [OF shape po] contiguous_within [OF shape po]
    by (auto simp: partial_contract_def only_lease_def)
  note part = partial_frontier [OF _ this] and force = force_frontier [OF _ k]
  have "frontier_steps g f (settle f db' g) \<and> (leases_but (fr_db f) db' g ?t \<or> leases_but (fr_db f) db' g tok)"
  proof (cases "never_dispatched s \<and> \<not> rs_stale s")
    case True
    with op have "force_reclaim_checked (fr_db f) stream g ?t now tok = (res, db')"
      by (simp add: close_range_def)
    from force [OF this] show ?thesis by blast
  next
    case False
    show ?thesis
    proof (cases "p = cl_low (rs_lease s) \<and> ocs = []")
      case True
      with op False po have "db' = fr_db f" by (auto simp: close_range_def)
      then show ?thesis by simp
    next
      case nt: False
      obtain q db1 where q: "partial_commit_checked (fr_db f) stream g ?t p ocs backoff mode now = (q, db1)"
        by fastforce
      have "db1 = db'" using op False po nt q by (auto simp: close_range_def split: sum.splits)
      with part [OF q] show ?thesis by blast
    qed
  qed
  then show "frontier_steps g f (settle f db' g)"
    "\<forall>l \<in> leases_of db' g. cl_token l \<noteq> ?t \<and> cl_token l \<noteq> tok \<longrightarrow> l \<in> leases_of (fr_db f) g"
    by (auto simp: leases_but_def)
qed

end
