(* ===== verification/Runner_Refinement.thy ===== *)
theory Runner_Refinement
  imports Runner_Leases
begin

text \<open>
  A message consumer refines the frontier: every step of the runner is a sequence of frontier
  steps on the tables, so what holds of every reachable frontier holds whatever the consumers of
  the group do. The invariant says that each range the consumer remembers is still the range of
  the lease it holds, if it holds it at all.
\<close>

section \<open>The invariant\<close>

definition range_known :: "int \<Rightarrow> stream_db \<Rightarrow> uuid set \<Rightarrow> range_state \<Rightarrow> bool" where
  "range_known g db T s \<longleftrightarrow> range_shape s \<and> cl_token (rs_lease s) \<in> T \<and> only_lease db g (rs_lease s)"

definition snapshot_known :: "int \<Rightarrow> stream_db \<Rightarrow> uuid set \<Rightarrow> range_snapshot \<Rightarrow> bool" where
  "snapshot_known g db T snap \<longleftrightarrow>
     outcomes_within (cl_low (sp_lease snap)) (cl_high (sp_lease snap)) (sp_outcomes snap)
     \<and> cl_token (sp_lease snap) \<in> T \<and> only_lease db g (sp_lease snap)"

definition lease_inv ::
  "int \<Rightarrow> stream_db \<Rightarrow> uuid set \<Rightarrow> (uuid \<Rightarrow> range_state option) \<Rightarrow> range_state list
   \<Rightarrow> range_snapshot set \<Rightarrow> bool \<Rightarrow> bool \<Rightarrow> bool" where
  "lease_inv g db T R opened Sn stopped taken \<longleftrightarrow>
     (\<forall>t s. R t = Some s \<longrightarrow> cl_token (rs_lease s) = t \<and> range_known g db T s)
     \<and> (\<forall>s \<in> set opened. range_known g db T s)
     \<and> distinct (map (\<lambda>s. cl_token (rs_lease s)) opened)
     \<and> (\<not> stopped \<longrightarrow> (\<forall>snap \<in> Sn. snapshot_known g db T snap))
     \<and> (if taken then stopped \<and> R = (\<lambda>_. None) else opened = [])"

definition slot_snaps :: "(buffered \<times> phase) option \<Rightarrow> range_snapshot set" where
  "slot_snaps y = (case y of Some (x, Committing snap final) \<Rightarrow> {snap} | _ \<Rightarrow> {})"

definition snaps :: "message_runner \<Rightarrow> range_snapshot set" where
  "snaps r = set_option (mr_direct r) \<union> (\<Union>y \<in> set (mr_slots r). slot_snaps y)"

definition runner_lease_inv :: "int \<Rightarrow> message_runner \<Rightarrow> bool" where
  "runner_lease_inv g r \<longleftrightarrow> lease_inv g (mr_db r) (mr_tokens r) (bf_ranges (mr_buffer r)) (mr_open r)
     (snaps r) (mr_stopped r) (mr_taken r)"

section \<open>How the invariant is kept\<close>

text \<open>A change of the tables that keeps the leases under the consumer's own tokens.\<close>

definition own_kept :: "int \<Rightarrow> stream_db \<Rightarrow> stream_db \<Rightarrow> uuid set \<Rightarrow> bool" where
  "own_kept g db db' T \<longleftrightarrow> (\<forall>l' \<in> leases_of db' g. cl_token l' \<in> T \<longrightarrow>
     (\<exists>l \<in> leases_of db g. cl_token l = cl_token l' \<and> cl_low l = cl_low l' \<and> cl_high l = cl_high l'))"

lemma own_kept_subset: "leases_of db' g \<subseteq> leases_of db g \<Longrightarrow> own_kept g db db' T"
  by (auto simp: own_kept_def)

lemma own_kept_but: "leases_but db db' g t \<Longrightarrow> t \<notin> T \<Longrightarrow> own_kept g db db' T"
  by (fastforce simp: own_kept_def leases_but_def)

lemma own_kept_refl [simp]: "own_kept g db db T"
  by (auto simp: own_kept_def)

lemma only_lease_kept:
  "own_kept g db db' T \<Longrightarrow> cl_token l \<in> T \<Longrightarrow> only_lease db g l \<Longrightarrow> only_lease db' g l"
  by (fastforce simp: own_kept_def only_lease_def)

lemma range_known_kept: "own_kept g db db' T \<Longrightarrow> range_known g db T s \<Longrightarrow> range_known g db' T s"
  using only_lease_kept by (simp add: range_known_def)

lemma snapshot_known_kept:
  "own_kept g db db' T \<Longrightarrow> snapshot_known g db T snap \<Longrightarrow> snapshot_known g db' T snap"
  using only_lease_kept by (simp add: snapshot_known_def)

lemma lease_inv_db:
  "own_kept g db db' T \<Longrightarrow> lease_inv g db T R op Sn st tk \<Longrightarrow> lease_inv g db' T R op Sn st tk"
  using range_known_kept snapshot_known_kept unfolding lease_inv_def by blast

lemma lease_inv_mono: "Sn' \<subseteq> Sn \<Longrightarrow> lease_inv g db T R op Sn st tk \<Longrightarrow> lease_inv g db T R op Sn' st tk"
  by (auto simp: lease_inv_def)

definition same_leases ::
  "(uuid \<Rightarrow> range_state option) \<Rightarrow> (uuid \<Rightarrow> range_state option) \<Rightarrow> bool" where
  "same_leases R R' \<longleftrightarrow> (\<forall>t. rel_option (\<lambda>s s'. rs_lease s' = rs_lease s
     \<and> (range_shape s \<longrightarrow> range_shape s')) (R t) (R' t))"

lemma same_leases_refl [simp]: "same_leases R R"
  by (simp add: same_leases_def option.rel_refl)

lemma same_leases_trans:
  assumes "same_leases R R1" "same_leases R1 R2"
  shows "same_leases R R2"
  unfolding same_leases_def
proof
  fix t
  show "rel_option (\<lambda>s s'. rs_lease s' = rs_lease s \<and> (range_shape s \<longrightarrow> range_shape s')) (R t) (R2 t)"
    using assms [unfolded same_leases_def, THEN spec [of _ t]]
    by (cases "R t"; cases "R1 t"; cases "R2 t") auto
qed

lemma same_leases_update:
  "(\<And>s. rs_lease (f s) = rs_lease s) \<Longrightarrow> (\<And>s. range_shape s \<Longrightarrow> range_shape (f s)) \<Longrightarrow>
   same_leases (bf_ranges b) (bf_ranges (update_range t f b))"
  by (auto simp: same_leases_def update_range_def option.rel_map intro!: option.rel_refl)

lemma lease_inv_same:
  assumes "same_leases R R'" "lease_inv g db T R op Sn st tk"
  shows "lease_inv g db T R' op Sn st tk"
proof -
  have old: "\<exists>s. R t = Some s \<and> rs_lease s' = rs_lease s \<and> (range_shape s \<longrightarrow> range_shape s')"
    if "R' t = Some s'" for t s'
    using assms(1) [unfolded same_leases_def, THEN spec [of _ t]] that by (cases "R t") auto
  have none: "R' = (\<lambda>_. None)" if "R = (\<lambda>_. None)"
    using old that by (metis not_Some_eq option.distinct(1) ext)
  show ?thesis
    using assms(2) old none unfolding lease_inv_def range_known_def
    by (smt (verit, best))
qed

lemma resolve_same: "same_leases (bf_ranges b) (bf_ranges (buffer_resolve x kind err delay b))"
  unfolding buffer_resolve_def by (rule same_leases_update) (auto intro: range_resolve_shape)

lemma resolve_behind_same: "same_leases (bf_ranges b) (bf_ranges (resolve_deferred_behind x b))"
proof -
  have "same_leases (bf_ranges b) (bf_ranges (fold (\<lambda>y. buffer_resolve y Kind_Deferred behind_error 0) xs b))"
    for xs
    by (induction xs arbitrary: b) (auto intro: same_leases_trans resolve_same)
  then show ?thesis by (simp add: resolve_deferred_behind_def)
qed

lemma stale_same: "same_leases (bf_ranges b) (bf_ranges (mark_stale t b))"
  unfolding mark_stale_def by (rule same_leases_update) auto

lemma next_same: "wait_for_next b = Some (x, b') \<Longrightarrow> same_leases (bf_ranges b) (bf_ranges b')"
  using same_leases_update [of "\<lambda>s. s\<lparr>rs_dispatched := rs_dispatched s + 1\<rparr>" "b\<lparr>bf_queue := xs\<rparr>" t for xs t]
  by (auto split: list.splits)

lemma lease_inv_remove: "lease_inv g db T R op Sn st tk \<Longrightarrow> lease_inv g db T (R(t := None)) op Sn st tk"
  by (auto simp: lease_inv_def fun_eq_iff)

lemma snapshot_same:
  assumes "try_get_range_snapshot t b = (res, b')"
  shows "same_leases (bf_ranges b) (bf_ranges b')"
  using assms by (auto simp: try_get_range_snapshot_def try_get_snapshot_def same_leases_def
      intro!: option.rel_refl split: option.splits prod.splits if_splits)

lemma snapshot_new:
  assumes "try_get_range_snapshot t b = (Inr snap, b')"
  obtains s where "bf_ranges b t = Some s" "snap = \<lparr>sp_lease = rs_lease s, sp_outcomes = resolved_outcomes s\<rparr>"
    "range_resolved s" "\<not> rs_committed s" "b' = b\<lparr>bf_ranges := (bf_ranges b)(t := Some (s\<lparr>rs_committed := True\<rparr>))\<rparr>"
  using assms by (auto simp: try_get_range_snapshot_def try_get_snapshot_def split: option.splits if_splits)

lemma snapshot_known_of: "range_known g db T s \<Longrightarrow>
   snapshot_known g db T \<lparr>sp_lease = rs_lease s, sp_outcomes = resolved_outcomes s\<rparr>"
  by (simp add: range_known_def snapshot_known_def resolved_outcomes_within)

lemma lease_inv_snapshot:
  assumes "lease_inv g db T R op Sn st tk" "R t = Some s"
  shows "lease_inv g db T R op (insert \<lparr>sp_lease = rs_lease s, sp_outcomes = resolved_outcomes s\<rparr> Sn) st tk"
  using assms snapshot_known_of [of g db T s] by (auto simp: lease_inv_def)

lemma lease_inv_stop: "lease_inv g db T R op Sn st tk \<Longrightarrow> lease_inv g db T R op Sn' True tk"
  by (auto simp: lease_inv_def)

lemma lease_inv_take:
  assumes "lease_inv g db T (bf_ranges b) op Sn True False" "lists_ranges states b"
  shows "lease_inv g db T (\<lambda>_. None) states Sn True True"
  using assms by (auto simp: lease_inv_def lists_ranges_def)

lemma lease_inv_close:
  assumes inv: "lease_inv g db T R (s # states) Sn st tk"
    and but: "\<forall>l \<in> leases_of db' g. cl_token l \<noteq> cl_token (rs_lease s) \<and> cl_token l \<noteq> tok \<longrightarrow> l \<in> leases_of db g"
    and tok: "tok \<notin> T"
  shows "lease_inv g db' T R states Sn st tk"
proof -
  have parts: "\<forall>s \<in> set (s # states). range_known g db T s"
    "distinct (map (\<lambda>s. cl_token (rs_lease s)) (s # states))"
    "if tk then st \<and> R = (\<lambda>_. None) else s # states = []"
    using inv unfolding lease_inv_def by blast+
  then have tk: "tk" "st" "R = (\<lambda>_. None)" by (simp_all split: if_splits)
  have "range_known g db' T s'" if s': "s' \<in> set states" for s'
  proof -
    have ne: "cl_token (rs_lease s') \<noteq> cl_token (rs_lease s)" and k: "range_known g db T s'"
      using parts(1,2) s' by (auto simp: image_iff)
    have "only_lease db' g (rs_lease s')"
      unfolding only_lease_def
    proof (intro ballI impI)
      fix l'
      assume l': "l' \<in> leases_of db' g" "cl_token l' = cl_token (rs_lease s')"
      have "l' \<in> leases_of db g" using but l' ne k tok by (auto simp: range_known_def)
      with k l' show "cl_low l' = cl_low (rs_lease s') \<and> cl_high l' = cl_high (rs_lease s')"
        by (simp add: range_known_def only_lease_def)
    qed
    with k show ?thesis by (simp add: range_known_def)
  qed
  with parts(2) tk show ?thesis by (simp add: lease_inv_def)
qed

lemma claim_known:
  assumes "claim_shape cr tok" "only_lease db g (cr_lease cr)" "tok \<in> T"
  shows "range_known g db T (new_range_state cr include)"
    "snapshot_known g db T \<lparr>sp_lease = cr_lease cr, sp_outcomes = []\<rparr>"
proof -
  have "range_ok (new_range_state cr include)"
    using assms(1) by (intro new_range_state_ok) (auto simp: claim_shape_def)
  then show "range_known g db T (new_range_state cr include)"
    using assms by (simp add: range_known_def range_ok_def claim_shape_def new_range_state_def)
  show "snapshot_known g db T \<lparr>sp_lease = cr_lease cr, sp_outcomes = []\<rparr>"
    using assms by (simp add: snapshot_known_def outcomes_within_def claim_shape_def)
qed

lemma lease_inv_tokens: "T \<subseteq> T' \<Longrightarrow> lease_inv g db T R op Sn st tk \<Longrightarrow> lease_inv g db T' R op Sn st tk"
  by (auto simp: lease_inv_def range_known_def snapshot_known_def)

lemma lease_inv_track:
  "lease_inv g db T R op Sn st False \<Longrightarrow> range_known g db T s \<Longrightarrow> cl_token (rs_lease s) = t \<Longrightarrow>
   lease_inv g db T (R(t := Some s)) op Sn st False"
  by (auto simp: lease_inv_def)

lemma lease_inv_snap:
  "lease_inv g db T R op Sn st tk \<Longrightarrow> snapshot_known g db T snap \<Longrightarrow> lease_inv g db T R op (insert snap Sn) st tk"
  by (auto simp: lease_inv_def)

section \<open>Slots\<close>

lemma put_slot_simps [simp]:
  "mr_frontier (put_slot i y r) = mr_frontier r" "mr_buffer (put_slot i y r) = mr_buffer r"
  "mr_offer (put_slot i y r) = mr_offer r" "mr_direct (put_slot i y r) = mr_direct r"
  "mr_slots (put_slot i y r) = (mr_slots r)[i := y]" "mr_stopped (put_slot i y r) = mr_stopped r"
  "mr_taken (put_slot i y r) = mr_taken r" "mr_open (put_slot i y r) = mr_open r"
  "mr_tokens (put_slot i y r) = mr_tokens r" "mr_claims (put_slot i y r) = mr_claims r"
  "mr_runs (put_slot i y r) = mr_runs r" "mr_resolved (put_slot i y r) = mr_resolved r"
  "mr_failed (put_slot i y r) = mr_failed r"
  by (simp_all add: put_slot_def)

lemma settle_db_simps [simp]:
  "mr_frontier (settle_db db' g r) = settle (mr_frontier r) db' g" "mr_buffer (settle_db db' g r) = mr_buffer r"
  "mr_offer (settle_db db' g r) = mr_offer r" "mr_direct (settle_db db' g r) = mr_direct r"
  "mr_slots (settle_db db' g r) = mr_slots r" "mr_stopped (settle_db db' g r) = mr_stopped r"
  "mr_taken (settle_db db' g r) = mr_taken r" "mr_open (settle_db db' g r) = mr_open r"
  "mr_tokens (settle_db db' g r) = mr_tokens r" "mr_claims (settle_db db' g r) = mr_claims r"
  "mr_runs (settle_db db' g r) = mr_runs r" "mr_resolved (settle_db db' g r) = mr_resolved r"
  "mr_failed (settle_db db' g r) = mr_failed r"
  by (simp_all add: settle_db_def)

lemma settle_fr_db [simp]: "fr_db (settle s db' g) = db'"
  by (simp add: settle_def)

lemma set_slots_update: "set (xs[i := y]) \<subseteq> insert y (set xs)"
  by (rule set_update_subset_insert)

lemma snaps_put_slot: "snaps (put_slot i y r) \<subseteq> snaps r \<union> slot_snaps y"
  using set_slots_update [of "mr_slots r" i y] by (auto simp: snaps_def)

lemma slot_snaps_simps [simp]:
  "slot_snaps None = {}" "slot_snaps (Some (x, Start)) = {}" "slot_snaps (Some (x, Handler k)) = {}"
  "slot_snaps (Some (x, Release k)) = {}" "slot_snaps (Some (x, Check b)) = {}"
  "slot_snaps (Some (x, Chain)) = {}" "slot_snaps (Some (x, Committing snap b)) = {snap}"
  "slot_snaps (after_check x final) = {}"
  "slot_snaps (map_option (\<lambda>y. (y, Start)) o') = {}"
  by (auto simp: slot_snaps_def after_check_def split: option.splits)

lemma lease_inv_slot:
  "runner_lease_inv g r \<Longrightarrow> slot_snaps y = {} \<Longrightarrow> runner_lease_inv g (put_slot i y r)"
  unfolding runner_lease_inv_def
  using lease_inv_mono [OF snaps_put_slot [of i y r]] by simp

lemma committing_known:
  assumes "runner_lease_inv g r" "at_slot r i x (Committing snap final)" "\<not> mr_stopped r"
  shows "snapshot_known g (mr_db r) (mr_tokens r) snap"
proof -
  have "Some (x, Committing snap final) \<in> set (mr_slots r)"
    using assms(2) by (metis at_slot_def nth_mem)
  then have "snap \<in> snaps r" by (force simp: snaps_def)
  with assms show ?thesis by (simp add: runner_lease_inv_def lease_inv_def)
qed

section \<open>Message keys do not touch the frontier\<close>

lemma foreignI:
  "claim_leases db' = claim_leases db \<Longrightarrow> exception_queue db' = exception_queue db \<Longrightarrow>
   cursors db' = cursors db \<Longrightarrow> message_log db' = message_log db \<Longrightarrow> foreign db db' g"
  by (simp add: foreign_def cursor_of_def leases_of_def rows_of_def keys_ok_def)

lemma foreign_refl [simp]: "foreign db db g"
  by (simp add: foreign_def)

lemma foreign_trans: "foreign db db1 g \<Longrightarrow> foreign db1 db2 g \<Longrightarrow> foreign db db2 g"
  by (simp add: foreign_def)

lemma take_key_foreign: "take_key_lease db g' k dur tok now = (t, db') \<Longrightarrow> foreign db db' g"
  using take_key_lease_frame [of db g' k dur tok now] by (intro foreignI) simp_all

lemma delete_key_foreign: "delete_key_lease db g' k tok = (n, db') \<Longrightarrow> foreign db db' g"
  by (rule foreignI) (auto simp: delete_key_lease_def Let_def)

lemma claim_key_foreign:
  assumes b: "\<And>d. foreign d (between d) g"
    and op: "claim_key between db g' k m compacted policy low high dur tok now = (c, db')"
  shows "foreign db db' g"
proof (cases compacted)
  case True
  obtain h t db1 where a: "claim_compacted_attempt db g' k m dur tok now = ((h, t), db1)"
    by (metis prod.collapse)
  obtain n db2 where r: "claim_compacted_recheck (between db1) g' k m tok = (n, db2)" by fastforce
  have "foreign db db1 g"
    using a take_key_foreign by (auto simp: claim_compacted_attempt_def split: if_splits prod.splits)
  moreover have "foreign (between db1) db2 g"
    using r delete_key_foreign by (auto simp: claim_compacted_recheck_def split: if_splits)
  moreover have "db' = db2"
    using op True a r by (auto simp: claim_key_def claim_compacted_def split: if_splits)
  ultimately show ?thesis using b foreign_trans by blast
next
  case False
  with op show ?thesis
    using take_key_foreign
    by (auto simp: claim_key_def claim_ordered_def claim_uncompacted_def split: if_splits prod.splits
        option.splits)
qed

lemma claim_item_key_foreign:
  assumes "\<And>d. foreign d (between d) g"
    and "claim_item_key between db stream g x grace margin tok now = (res, db')"
  shows "foreign db db' g"
  using assms(2) claim_key_foreign [OF assms(1)]
  by (auto simp: claim_item_key_def claim_key_checked_def split: if_splits prod.splits)

lemma release_foreign: "foreign db (snd (release_key_checked db stream (Some kc))) g"
  using delete_key_foreign
  by (auto simp: release_key_checked_def release_key_def split: option.splits prod.splits)

lemma foreign_frontier:
  assumes "foreign (fr_db f) db' g"
  shows "frontier_steps g f (settle f db' g)" "own_kept g (fr_db f) db' T"
proof -
  have "settle f db' g = f\<lparr>fr_db := db'\<rparr>"
    using foreign_keeps(2) [OF assms] by (intro settle_plain) simp
  then show "frontier_steps g f (settle f db' g)"
    using step_foreign [where s = f, OF assms] by auto
  show "own_kept g (fr_db f) db' T"
    using assms by (intro own_kept_subset) (simp add: foreign_def)
qed

section \<open>Every step of the runner\<close>

definition refines :: "int \<Rightarrow> message_runner \<Rightarrow> message_runner \<Rightarrow> bool" where
  "refines g r r' \<longleftrightarrow> frontier_steps g (mr_frontier r) (mr_frontier r') \<and> runner_lease_inv g r'"

lemma refines_quiet: "runner_lease_inv g r' \<Longrightarrow> mr_frontier r' = mr_frontier r \<Longrightarrow> refines g r r'"
  by (simp add: refines_def)

lemma inv_settle:
  "runner_lease_inv g r \<Longrightarrow> own_kept g (mr_db r) db' (mr_tokens r) \<Longrightarrow> runner_lease_inv g (settle_db db' g r)"
  using lease_inv_db by (simp add: runner_lease_inv_def snaps_def)

lemma refines_settle:
  "runner_lease_inv g r1 \<Longrightarrow> mr_frontier r1 = mr_frontier r \<Longrightarrow>
   frontier_steps g (mr_frontier r) (settle (mr_frontier r) db' g) \<Longrightarrow>
   own_kept g (mr_db r) db' (mr_tokens r1) \<Longrightarrow> refines g r (settle_db db' g r1)"
  using inv_settle by (simp add: refines_def)

lemma refines_foreign:
  "runner_lease_inv g r1 \<Longrightarrow> mr_frontier r1 = mr_frontier r \<Longrightarrow> foreign (mr_db r) db' g \<Longrightarrow>
   refines g r (settle_db db' g r1)"
  using foreign_frontier refines_settle by blast

lemma inv_same:
  "runner_lease_inv g r \<Longrightarrow> same_leases (bf_ranges (mr_buffer r)) (bf_ranges b) \<Longrightarrow>
   runner_lease_inv g (r\<lparr>mr_buffer := b\<rparr>)"
  using lease_inv_same by (simp add: runner_lease_inv_def snaps_def)

lemma inv_ghost [simp]:
  "runner_lease_inv g (r\<lparr>mr_runs := x\<rparr>) = runner_lease_inv g r"
  "runner_lease_inv g (r\<lparr>mr_resolved := y\<rparr>) = runner_lease_inv g r"
  "runner_lease_inv g (r\<lparr>mr_failed := z\<rparr>) = runner_lease_inv g r"
  "runner_lease_inv g (r\<lparr>mr_offer := w\<rparr>) = runner_lease_inv g r"
  "runner_lease_inv g (r\<lparr>mr_claims := u\<rparr>) = runner_lease_inv g r"
  by (simp_all add: runner_lease_inv_def snaps_def)

lemma inv_resolve: "runner_lease_inv g r \<Longrightarrow> runner_lease_inv g (resolve_item x kind err delay r)"
  using lease_inv_same [OF resolve_same] by (simp add: resolve_item_def runner_lease_inv_def snaps_def)

lemma inv_behind: "runner_lease_inv g r \<Longrightarrow> runner_lease_inv g (resolve_behind x r)"
  using lease_inv_same [OF resolve_behind_same]
  by (simp add: resolve_behind_def runner_lease_inv_def snaps_def)

lemma inv_after_commit: "runner_lease_inv g r \<Longrightarrow> runner_lease_inv g (after_commit t res r)"
  by (auto simp: after_commit_def runner_lease_inv_def snaps_def remove_range_def intro: lease_inv_remove)

lemma frames [simp]:
  "mr_frontier (resolve_item x kind err delay r) = mr_frontier r"
  "mr_tokens (resolve_item x kind err delay r) = mr_tokens r"
  "mr_frontier (resolve_behind x r) = mr_frontier r"
  "mr_tokens (resolve_behind x r) = mr_tokens r"
  "mr_frontier (after_commit t res r) = mr_frontier r"
  "mr_tokens (after_commit t res r) = mr_tokens r"
  by (simp_all add: resolve_item_def resolve_behind_def after_commit_def)

lemma inv_adopt:
  assumes inv: "runner_lease_inv g r" and t: "\<not> mr_taken r"
    and shape: "claim_shape cr tok" "\<not> cr_quarantined cr \<longrightarrow> only_lease (mr_db r) g (cr_lease cr)"
  shows "runner_lease_inv g (adopt_claim cfg order cr r)"
proof (cases "cr_quarantined cr")
  case True
  with inv show ?thesis by (simp add: adopt_claim_def)
next
  case False
  let ?T = "insert (cl_token (cr_lease cr)) (mr_tokens r)"
  have tok: "cl_token (cr_lease cr) = tok" using shape(1) by (simp add: claim_shape_def)
  note known = claim_known [OF shape(1) shape(2) [rule_format, OF False], of ?T]
  have base: "lease_inv g (mr_db r) ?T (bf_ranges (mr_buffer r)) (mr_open r) (snaps r) (mr_stopped r)
      (mr_taken r)"
    using inv unfolding runner_lease_inv_def by (rule lease_inv_tokens [rotated]) auto
  show ?thesis
  proof (cases "cr_messages cr = []")
    case True
    let ?s = "\<lparr>sp_lease = cr_lease cr, sp_outcomes = []\<rparr>"
    have "lease_inv g (mr_db r) ?T (bf_ranges (mr_buffer r)) (mr_open r) (insert ?s (snaps r))
        (mr_stopped r) (mr_taken r)"
      using base known(2) tok by (intro lease_inv_snap) auto
    then have "lease_inv g (mr_db r) ?T (bf_ranges (mr_buffer r)) (mr_open r)
        (insert ?s (\<Union>y \<in> set (mr_slots r). slot_snaps y)) (mr_stopped r) (mr_taken r)"
      by (rule lease_inv_mono [rotated]) (auto simp: snaps_def)
    with True False show ?thesis
      by (simp add: adopt_claim_def add_claimed_def Let_def runner_lease_inv_def snaps_def)
  next
    case nempty: False
    let ?s = "new_range_state cr (bf_include (mr_buffer r))"
    have "lease_inv g (mr_db r) ?T ((bf_ranges (mr_buffer r))(tok := Some ?s)) (mr_open r) (snaps r)
        (mr_stopped r) False"
      using base t tok known(1) by (intro lease_inv_track) (simp_all add: new_range_state_def)
    with t tok False nempty show ?thesis
      by (simp add: adopt_claim_def add_claimed_def Let_def runner_lease_inv_def snaps_def track_def
          new_range_state_def)
  qed
qed

lemma not_taken: "runner_lease_inv g r \<Longrightarrow> \<not> mr_stopped r \<Longrightarrow> \<not> mr_taken r"
  by (auto simp: runner_lease_inv_def lease_inv_def split: if_splits)

lemma snapshot_frontier:
  assumes "snapshot_known g (fr_db f) T snap"
    "commit_range_checked (fr_db f) stream g (cl_token (sp_lease snap)) (sp_outcomes snap) backoff mode now
      = (res, db')"
  shows "frontier_steps g f (settle f db' g)" "own_kept g (fr_db f) db' T'"
proof -
  have known: "cl_low l = cl_low (sp_lease snap) \<and> cl_high l = cl_high (sp_lease snap)"
    if "l \<in> leases_of (fr_db f) g" "cl_token l = cl_token (sp_lease snap)" for l
    using assms(1) that by (simp add: snapshot_known_def only_lease_def)
  have out: "outcomes_within (cl_low (sp_lease snap)) (cl_high (sp_lease snap)) (sp_outcomes snap)"
    using assms(1) by (simp add: snapshot_known_def)
  from commit_frontier [OF assms(2) known out] own_kept_subset
  show "frontier_steps g f (settle f db' g)" "own_kept g (fr_db f) db' T'" by blast+
qed

lemma runner_step_refines:
  assumes step: "runner_step v r r'" and g: "g = rv_group v" and inv: "runner_lease_inv g r"
    and w: "window_inv (mr_db r) g"
  shows "refines g r r'"
  using step
proof cases
  case (run_other f')
  have "own_kept g (mr_db r) (fr_db f') (mr_tokens r)"
    using run_other(3) g by (simp add: tokens_kept_def own_kept_def)
  then have "runner_lease_inv g (r\<lparr>mr_frontier := f'\<rparr>)"
    using inv lease_inv_db by (simp add: runner_lease_inv_def snaps_def)
  with run_other g show ?thesis by (simp add: refines_def)
next
  case (run_claim tok cfg timed_out free snap picked xmin now cr db' order)
  note c = claim_frontier [OF run_claim(7) [unfolded claim_range_def, folded g] w]
  have kept: "own_kept g (mr_db r) db' (mr_tokens r)" by (rule own_kept_but [OF c(2) run_claim(5)])
  let ?r1 = "settle_db db' g r"
  have i1: "runner_lease_inv g ?r1" by (rule inv_settle [OF inv kept])
  have "runner_lease_inv g (adopt_claim cfg order cr ?r1)"
    using c(3) [OF refl] not_taken [OF inv run_claim(2)] by (intro inv_adopt [OF i1]) auto
  moreover have "mr_frontier (adopt_claim cfg order cr ?r1) = settle (mr_frontier r) db' g"
    by (simp add: adopt_claim_def Let_def add_claimed_def)
  ultimately show ?thesis using c(1) run_claim(1) g by (simp add: refines_def)
next
  case (run_no_claim tok cfg free snap picked xmin now res db')
  note c = claim_frontier [OF run_no_claim(6) [unfolded claim_range_def, folded g] w]
  show ?thesis
    unfolding run_no_claim(1) g [symmetric]
    by (rule refines_settle [OF inv refl c(1) own_kept_but [OF c(2) run_no_claim(5)]])
next
  case (run_direct snap backoff now res db')
  have "snapshot_known g (mr_db r) (mr_tokens r) snap"
    using inv run_direct(2,3) by (auto simp: runner_lease_inv_def lease_inv_def snaps_def)
  note c = snapshot_frontier [OF this run_direct(4) [folded g]]
  have "runner_lease_inv g (r\<lparr>mr_direct := None\<rparr>)"
    using inv lease_inv_mono [of "snaps (r\<lparr>mr_direct := None\<rparr>)" "snaps r"]
    by (auto simp: runner_lease_inv_def snaps_def)
  then show ?thesis
    unfolding run_direct(1) g [symmetric] using c by (intro refines_settle) simp_all
next
  case (run_direct_fails snap)
  have "runner_lease_inv g (r\<lparr>mr_direct := None\<rparr>)"
    using inv lease_inv_mono [of "snaps (r\<lparr>mr_direct := None\<rparr>)" "snaps r"]
    by (auto simp: runner_lease_inv_def snaps_def)
  then show ?thesis unfolding run_direct_fails(1) by (rule refines_quiet) simp
next
  case (run_enqueue x xs)
  have "runner_lease_inv g ((r\<lparr>mr_offer := xs\<rparr>)\<lparr>mr_buffer := enqueue x (mr_buffer r)\<rparr>)"
    using inv by (intro inv_same) (simp_all add: enqueue_def)
  then show ?thesis unfolding run_enqueue(1) by (intro refines_quiet) simp_all
next
  case (run_dispatch i x b')
  have "runner_lease_inv g (r\<lparr>mr_buffer := b'\<rparr>)"
    using inv next_same [OF run_dispatch(5)] by (intro inv_same)
  then show ?thesis unfolding run_dispatch(1) by (intro refines_quiet lease_inv_slot) simp_all
next
  case (run_stale i x now)
  have "runner_lease_inv g (r\<lparr>mr_buffer := mark_stale (item_token x) (mr_buffer r)\<rparr>)"
    using inv stale_same by (intro inv_same)
  then show ?thesis unfolding run_stale(1) by (intro refines_quiet lease_inv_slot) simp_all
next
  case (run_keyless i x now)
  show ?thesis unfolding run_keyless(1) using inv by (intro refines_quiet lease_inv_slot) simp_all
next
  case (run_key i x now between tok now' kc db')
  have "foreign (mr_db r) db' g" using claim_item_key_foreign [OF run_key(6,7)] g by simp
  then show ?thesis
    unfolding run_key(1) g [symmetric] using inv by (intro refines_foreign lease_inv_slot) simp_all
next
  case (run_key_refused i x now between tok now' res db' kind err)
  have "foreign (mr_db r) db' g" using claim_item_key_foreign [OF run_key_refused(6,7)] g by simp
  then show ?thesis
    unfolding run_key_refused(1) g [symmetric] using inv
    by (intro refines_foreign lease_inv_slot inv_resolve) simp_all
next
  case (run_key_error i x now err)
  show ?thesis
    unfolding run_key_error(1) using inv by (intro refines_quiet lease_inv_slot inv_resolve) simp_all
next
  case (run_handler i x kco run kind err delay)
  show ?thesis
    unfolding run_handler(1) using inv by (intro refines_quiet lease_inv_slot inv_resolve) simp_all
next
  case (run_release i x kco db')
  have "foreign (mr_db r) db' g" using run_release(3) release_foreign by (auto split: option.splits)
  then show ?thesis
    unfolding run_release(1) g [symmetric] using inv by (intro refines_foreign lease_inv_slot) simp_all
next
  case (run_check i x final e b')
  show ?thesis unfolding run_check(1) using inv by (intro refines_quiet lease_inv_slot) simp_all
next
  case (run_snapshot i x final snap b')
  from run_snapshot(4) obtain s where s: "bf_ranges (mr_buffer r) (item_token x) = Some s"
    "snap = \<lparr>sp_lease = rs_lease s, sp_outcomes = resolved_outcomes s\<rparr>" by (rule snapshot_new)
  have "runner_lease_inv g (r\<lparr>mr_buffer := b'\<rparr>)"
    using inv snapshot_same [OF run_snapshot(4)] by (intro inv_same)
  moreover have "lease_inv g (mr_db r) (mr_tokens r) (bf_ranges (mr_buffer r)) (mr_open r)
      (insert snap (snaps r)) (mr_stopped r) (mr_taken r)"
    using inv s lease_inv_snapshot by (simp add: runner_lease_inv_def)
  then have "lease_inv g (mr_db r) (mr_tokens r) (bf_ranges b') (mr_open r)
      (insert snap (snaps r)) (mr_stopped r) (mr_taken r)"
    by (rule lease_inv_same [OF snapshot_same [OF run_snapshot(4)]])
  then have "runner_lease_inv g (put_slot i (Some (x, Committing snap final)) (r\<lparr>mr_buffer := b'\<rparr>))"
    using lease_inv_mono [OF snaps_put_slot [of i "Some (x, Committing snap final)" "r\<lparr>mr_buffer := b'\<rparr>"]]
    by (simp add: runner_lease_inv_def snaps_def)
  then show ?thesis unfolding run_snapshot(1) by (intro refines_quiet) simp_all
next
  case (run_commit i x snap final backoff now res db')
  have "snapshot_known g (mr_db r) (mr_tokens r) snap"
    by (rule committing_known [OF inv run_commit(2,3)])
  note c = snapshot_frontier [OF this run_commit(4) [folded g]]
  show ?thesis
    unfolding run_commit(1) g [symmetric] using inv c
    by (intro refines_settle lease_inv_slot inv_after_commit) simp_all
next
  case (run_commit_unknown i x snap final db' backoff now res)
  have "frontier_steps g (mr_frontier r) (settle (mr_frontier r) db' g)
    \<and> own_kept g (mr_db r) db' (mr_tokens r)"
    using run_commit_unknown(3)
  proof
    assume c: "\<not> mr_stopped r \<and> commit_range_checked (mr_db r) (rv_stream v) (rv_group v)
        (cl_token (sp_lease snap)) (sp_outcomes snap) backoff (rv_mode v) now = (res, db')"
    then have "snapshot_known g (mr_db r) (mr_tokens r) snap"
      using committing_known [OF inv run_commit_unknown(2)] by simp
    from snapshot_frontier [OF this] c g show ?thesis by blast
  qed simp
  then show ?thesis
    unfolding run_commit_unknown(1) g [symmetric] using inv
    by (intro refines_settle lease_inv_slot) simp_all
next
  case (run_chain_ends i x)
  show ?thesis unfolding run_chain_ends(1) using inv by (intro refines_quiet lease_inv_slot) simp_all
next
  case (run_chain_breaks i x kind)
  show ?thesis
    unfolding run_chain_breaks(1) using inv by (intro refines_quiet lease_inv_slot inv_behind) simp_all
next
  case (run_chain_goes_on i x kind)
  show ?thesis unfolding run_chain_goes_on(1) using inv by (intro refines_quiet lease_inv_slot) simp_all
next
  case run_stop
  have "runner_lease_inv g (r\<lparr>mr_stopped := True, mr_offer := [], mr_direct := None\<rparr>)"
    using inv lease_inv_stop by (simp add: runner_lease_inv_def)
  then show ?thesis unfolding run_stop(1) by (intro refines_quiet) simp_all
next
  case (run_take states)
  have "runner_lease_inv g (r\<lparr>mr_taken := True, mr_open := states, mr_buffer := remove_all (mr_buffer r)\<rparr>)"
    using inv run_take lease_inv_take by (simp add: runner_lease_inv_def snaps_def remove_all_def)
  then show ?thesis unfolding run_take(1) by (intro refines_quiet) simp_all
next
  case (run_close s states tok backoff now res db')
  have k: "keys_ok (mr_db r)" using w by (auto elim: window_invE)
  have "range_known g (mr_db r) (mr_tokens r) s"
    using inv run_close(2) by (simp add: runner_lease_inv_def lease_inv_def)
  then have c: "frontier_steps g (mr_frontier r) (settle (mr_frontier r) db' g)"
    "\<forall>l \<in> leases_of db' g. cl_token l \<noteq> cl_token (rs_lease s) \<and> cl_token l \<noteq> tok \<longrightarrow> l \<in> leases_of (mr_db r) g"
    using close_frontier [OF run_close(4) [folded g] k] by (auto simp: range_known_def)
  have "runner_lease_inv g (settle_db db' g (r\<lparr>mr_open := states\<rparr>))"
    using lease_inv_close [OF _ c(2) run_close(3)] inv run_close(2)
    by (simp add: runner_lease_inv_def snaps_def)
  with c(1) show ?thesis unfolding run_close(1) g [symmetric] by (simp add: refines_def)
next
  case (run_close_fails s states)
  have "runner_lease_inv g (r\<lparr>mr_open := states\<rparr>)"
    using inv run_close_fails(2) by (auto simp: runner_lease_inv_def lease_inv_def snaps_def split: if_splits)
  then show ?thesis unfolding run_close_fails(1) by (intro refines_quiet) simp_all
qed

section \<open>Reachable runners\<close>

text \<open>A runner starts with an empty buffer over any reachable tables.\<close>

definition runner_start :: "runner_env \<Rightarrow> int \<Rightarrow> message_runner \<Rightarrow> bool" where
  "runner_start v start r \<longleftrightarrow> reachable (rv_group v) start (mr_frontier r)
     \<and> (\<exists>capacity. mr_buffer r = new_claim_buffer capacity (rv_mode v = Mode_All))
     \<and> mr_offer r = [] \<and> mr_direct r = None \<and> set (mr_slots r) \<subseteq> {None} \<and> \<not> mr_stopped r
     \<and> \<not> mr_taken r \<and> mr_open r = [] \<and> mr_tokens r = {} \<and> mr_runs r = [] \<and> mr_resolved r = []
     \<and> mr_failed r = {} \<and> mr_claims r = (\<lambda>_. [])"

definition runner_reachable :: "runner_env \<Rightarrow> int \<Rightarrow> message_runner \<Rightarrow> bool" where
  "runner_reachable v start r \<longleftrightarrow> (\<exists>r0. runner_start v start r0 \<and> (runner_step v)\<^sup>*\<^sup>* r0 r)"

lemma runner_start_inv: "runner_start v start r \<Longrightarrow> runner_lease_inv (rv_group v) r"
  by (auto simp: runner_start_def runner_lease_inv_def lease_inv_def snaps_def new_claim_buffer_def
      slot_snaps_def)

lemma reachable_steps: "reachable g start s \<Longrightarrow> frontier_steps g s s' \<Longrightarrow> reachable g start s'"
  unfolding reachable_def by (meson rtranclp_trans)

lemma runner_reachable_inv:
  assumes "runner_reachable v start r"
  shows "reachable (rv_group v) start (mr_frontier r) \<and> runner_lease_inv (rv_group v) r"
proof -
  obtain r0 where r0: "runner_start v start r0" "(runner_step v)\<^sup>*\<^sup>* r0 r"
    using assms by (auto simp: runner_reachable_def)
  from r0(2) show ?thesis
  proof (induction rule: rtranclp_induct)
    case base
    with r0(1) runner_start_inv show ?case by (auto simp: runner_start_def)
  next
    case (step r1 r2)
    have "window_inv (mr_db r1) (rv_group v)"
      using reachable_inv step.IH by (auto simp: frontier_inv_def)
    then have "refines (rv_group v) r1 r2"
      using runner_step_refines [OF step.hyps(2) refl] step.IH by simp
    with step.IH reachable_steps show ?case by (auto simp: refines_def)
  qed
qed

end
