(* ===== verification/Runner_Chains.thy ===== *)
theory Runner_Chains
  imports Runner_Refinement
begin

text \<open>
  The consumer's own bookkeeping: every message of a claim is held in one place at a time until it
  is resolved, a result is written once, ordered messages of one key go one after another, and a
  range whose last message resolves has somebody to commit it.
\<close>

section \<open>Chains of ordered messages\<close>

definition item_id :: "buffered \<Rightarrow> uuid \<times> nat" where
  "item_id x = (item_token x, it_index x)"

text \<open>A buffered message apart from its link to the next one.\<close>

definition core :: "buffered \<Rightarrow> message_log_row \<times> claim_lease_row \<times> nat \<times> message_options" where
  "core x = (it_row x, it_lease x, it_index x, it_options x)"

lemma chain_Cons: "chain x = x # (case it_next x of None \<Rightarrow> [] | Some y \<Rightarrow> chain y)"
  by (cases x rule: chain.cases) auto

lemma chain_tl: "tl (chain x) = (case it_next x of None \<Rightarrow> [] | Some y \<Rightarrow> chain y)"
  by (subst chain_Cons) simp

lemma chain_head: "chain x = x # tl (chain x)"
  by (subst chain_Cons) (simp add: chain_tl)

lemma link_chain_core: "link_chain bs = Some x \<Longrightarrow> map core (chain x) = map core bs"
proof (induction bs arbitrary: x)
  case (Cons b bs)
  then show ?case
    by (cases "link_chain bs") (auto simp: chain_Cons [of x] core_def split: option.splits elim: link_chain.elims)
qed simp

lemma core_eqD:
  assumes "core x = core y"
  shows "item_id x = item_id y" "chained x = chained y" "it_row x = it_row y" "it_index x = it_index y"
    "item_token x = item_token y" "it_options x = it_options y"
  using assms by (simp_all add: core_def item_id_def item_token_def chained_def)

lemma map_core_id: "map core xs = map core ys \<Longrightarrow> map item_id xs = map item_id ys"
proof -
  assume "map core xs = map core ys"
  then have "map (\<lambda>(m, l, i, opts). (cl_token l, i)) (map core xs)
      = map (\<lambda>(m, l, i, opts). (cl_token l, i)) (map core ys)" by simp
  then show ?thesis by (simp add: comp_def core_def item_id_def [abs_def] item_token_def)
qed

section \<open>What is still to be resolved\<close>

fun slot_live :: "(buffered \<times> phase) option \<Rightarrow> buffered list" where
  "slot_live None = []"
| "slot_live (Some (x, Start)) = chain x"
| "slot_live (Some (x, Handler kco)) = chain x"
| "slot_live (Some (x, Release kco)) = tl (chain x)"
| "slot_live (Some (x, Check final)) = (if final then [] else tl (chain x))"
| "slot_live (Some (x, Committing snap final)) = (if final then [] else tl (chain x))"
| "slot_live (Some (x, Chain)) = tl (chain x)"

fun slot_waiting :: "(buffered \<times> phase) option \<Rightarrow> buffered list" where
  "slot_waiting (Some (x, Handler kco)) = tl (chain x)"
| "slot_waiting y = slot_live y"

definition gather :: "((buffered \<times> phase) option \<Rightarrow> buffered list) \<Rightarrow> message_runner \<Rightarrow> (uuid \<times> nat) list" where
  "gather f r = map item_id (concat (map chain (mr_offer r)) @ concat (map chain (bf_queue (mr_buffer r)))
     @ concat (map f (mr_slots r)))"

abbreviation live :: "message_runner \<Rightarrow> (uuid \<times> nat) list" where
  "live \<equiv> gather slot_live"

abbreviation waiting :: "message_runner \<Rightarrow> (uuid \<times> nat) list" where
  "waiting \<equiv> gather slot_waiting"

lemma mset_concat_update:
  "i < length xs \<Longrightarrow> mset (concat (map f (xs[i := y]))) + mset (f (xs ! i))
     = mset (concat (map f xs)) + mset (f y)"
proof (induction xs arbitrary: i)
  case (Cons x xs)
  then show ?case by (cases i) (auto simp: ac_simps)
qed simp

lemma gather_put_slot:
  assumes "i < length (mr_slots r)"
    and "mset (map item_id (f (mr_slots r ! i))) = A + mset (map item_id (f y))"
  shows "mset (gather f r) = A + mset (gather f (put_slot i y r))"
proof -
  let ?f = "\<lambda>z. map item_id (f z)"
  have "mset (concat (map ?f ((mr_slots r)[i := y]))) + mset (?f (mr_slots r ! i))
      = mset (concat (map ?f (mr_slots r))) + mset (?f y)"
    by (rule mset_concat_update [OF assms(1)])
  then have "mset (concat (map ?f ((mr_slots r)[i := y]))) + A = mset (concat (map ?f (mr_slots r)))"
    unfolding assms(2) by (simp add: ac_simps)
  then show ?thesis by (simp add: gather_def map_concat comp_def ac_simps)
qed

lemma mset_subset_distinct: "mset xs \<subseteq># mset ys \<Longrightarrow> distinct ys \<Longrightarrow> distinct xs"
proof -
  assume sub: "mset xs \<subseteq># mset ys" and d: "distinct ys"
  obtain zs where "mset zs = mset ys - mset xs" using ex_mset by blast
  with sub have "mset ys = mset (xs @ zs)" by simp
  with d have "distinct (xs @ zs)" using mset_eq_imp_distinct_iff by blast
  then show ?thesis by simp
qed

lemma slot_live_at [simp]: "at_slot r i x ph \<Longrightarrow> slot_live (mr_slots r ! i) = slot_live (Some (x, ph))"
  "at_slot r i x ph \<Longrightarrow> slot_waiting (mr_slots r ! i) = slot_waiting (Some (x, ph))"
  "at_slot r i x ph \<Longrightarrow> i < length (mr_slots r)"
  by (auto simp: at_slot_def)

section \<open>The invariant\<close>

text \<open>The items of a claim, in index order, under its token.\<close>

definition claim_ok :: "message_runner \<Rightarrow> uuid \<Rightarrow> bool" where
  "claim_ok r t \<longleftrightarrow> map it_index (mr_claims r t) = [0..<length (mr_claims r t)]
     \<and> (\<forall>x \<in> set (mr_claims r t). item_token x = t)"

definition settled_well :: "message_runner \<Rightarrow> uuid \<Rightarrow> nat \<Rightarrow> bool" where
  "settled_well r t i \<longleftrightarrow>
     (t, i, Kind_Success) \<in> set (mr_resolved r) \<or> (t, i, Kind_Terminal) \<in> set (mr_resolved r)"

text \<open>
  A held message is one of its claim; an ordered one carries the rest of its key's chain, and
  everything before it in the chain has been settled well.
\<close>

definition item_ok :: "message_runner \<Rightarrow> buffered \<Rightarrow> bool" where
  "item_ok r x \<longleftrightarrow> item_token x \<in> mr_tokens r \<and> core x \<in> core ` set (mr_claims r (item_token x))
     \<and> (if chained x
        then \<exists>pre. map core (chain_of (ml_key (it_row x)) (mr_claims r (item_token x)))
                 = map core pre @ map core (chain x)
               \<and> (\<forall>y \<in> set pre. settled_well r (item_token x) (it_index y))
        else it_next x = None)"

definition held :: "message_runner \<Rightarrow> buffered set" where
  "held r = set (mr_offer r) \<union> set (bf_queue (mr_buffer r)) \<union> {x. \<exists>ph. Some (x, ph) \<in> set (mr_slots r)}"

definition undone :: "message_runner \<Rightarrow> uuid \<times> nat \<Rightarrow> bool" where
  "undone r p \<longleftrightarrow> (\<forall>s. bf_ranges (mr_buffer r) (fst p) = Some s \<longrightarrow>
     snd p < length (rs_ids s) \<and> \<not> res_done (rs_results s ! snd p))"

text \<open>A tracked range: its claim, its counter, and the history of its results.\<close>

definition tracked_ok :: "message_runner \<Rightarrow> uuid \<Rightarrow> range_state \<Rightarrow> bool" where
  "tracked_ok r t s \<longleftrightarrow> t \<in> mr_tokens r \<and> cl_token (rs_lease s) = t \<and> range_ok s
     \<and> length (rs_ids s) = length (mr_claims r t) \<and> rs_ids s \<noteq> [] \<and> (rs_committed s \<longrightarrow> range_resolved s)
     \<and> (\<forall>i < length (rs_ids s). \<forall>kind. outcome_at s i = Some kind \<longrightarrow> (t, i, kind) \<in> set (mr_resolved r))"

definition due :: "phase \<Rightarrow> bool" where
  "due ph \<longleftrightarrow> (case ph of Release kco \<Rightarrow> True | Check final \<Rightarrow> True | _ \<Rightarrow> False)"

definition check_due :: "message_runner \<Rightarrow> uuid \<Rightarrow> bool" where
  "check_due r t \<longleftrightarrow> (\<exists>i x ph. at_slot r i x ph \<and> item_token x = t \<and> due ph)"

definition committing :: "message_runner \<Rightarrow> uuid \<Rightarrow> bool" where
  "committing r t \<longleftrightarrow> (\<exists>i x snap final. at_slot r i x (Committing snap final)
     \<and> cl_token (sp_lease snap) = t)"

definition committer_ok :: "message_runner \<Rightarrow> uuid \<Rightarrow> range_state \<Rightarrow> bool" where
  "committer_ok r t s \<longleftrightarrow> (range_resolved s \<longrightarrow>
     (if rs_committed s then committing r t \<or> t \<in> mr_failed r else check_due r t))"

text \<open>A run of the consumer function starts after everything before it on its ordered key.\<close>

definition run_ok :: "message_runner \<Rightarrow> uuid \<times> nat \<Rightarrow> bool" where
  "run_ok r p \<longleftrightarrow> fst p \<in> mr_tokens r \<and> (\<forall>j < snd p. \<forall>x y. mr_claims r (fst p) ! snd p = x \<longrightarrow>
     mr_claims r (fst p) ! j = y \<longrightarrow> chained x \<longrightarrow> chained y \<longrightarrow> ml_key (it_row y) = ml_key (it_row x) \<longrightarrow>
     settled_well r (fst p) j)"

definition chain_inv :: "message_runner \<Rightarrow> bool" where
  "chain_inv r \<longleftrightarrow> (\<forall>t. claim_ok r t \<and> (t \<notin> mr_tokens r \<longrightarrow> mr_claims r t = []))
     \<and> (\<forall>x \<in> held r. item_ok r x)
     \<and> distinct (live r) \<and> (\<forall>p \<in> set (live r). undone r p)
     \<and> (\<forall>t s. bf_ranges (mr_buffer r) t = Some s \<longrightarrow> tracked_ok r t s \<and> committer_ok r t s)
     \<and> distinct (mr_runs r @ waiting r) \<and> (\<forall>p \<in> set (mr_runs r). run_ok r p)"

section \<open>Slots\<close>

lemma at_put_slot:
  "i < length (mr_slots r) \<Longrightarrow> at_slot (put_slot i y r) j x ph \<longleftrightarrow>
     (if j = i then y = Some (x, ph) else at_slot r j x ph)"
  by (auto simp: at_slot_def)

lemma due_simps [simp]:
  "due (Release kco)" "due (Check final)" "\<not> due Start" "\<not> due (Handler kco)"
  "\<not> due (Committing snap final)" "\<not> due Chain"
  by (simp_all add: due_def)

lemma check_due_put:
  assumes "check_due r t" "at_slot r i x ph"
    and "due ph \<Longrightarrow> item_token x = t \<Longrightarrow> \<exists>ph'. y = Some (x, ph') \<and> due ph'"
  shows "check_due (put_slot i y r) t"
proof -
  obtain j z ph1 where j: "at_slot r j z ph1" "item_token z = t" "due ph1"
    using assms(1) by (auto simp: check_due_def)
  have l: "i < length (mr_slots r)" using assms(2) by (simp add: at_slot_def)
  show ?thesis
  proof (cases "j = i")
    case True
    with j assms(2) have "z = x" "ph1 = ph" by (auto simp: at_slot_def)
    with assms(3) j True l show ?thesis by (auto simp: check_due_def at_put_slot)
  next
    case False
    with j l show ?thesis by (auto simp: check_due_def at_put_slot)
  qed
qed

lemma committing_put:
  assumes "committing r t" "at_slot r i x ph"
    and "\<And>snap final. ph = Committing snap final \<Longrightarrow> cl_token (sp_lease snap) = t \<Longrightarrow>
      \<exists>x' final'. y = Some (x', Committing snap final')"
  shows "committing (put_slot i y r) t"
proof -
  obtain j z snap final where j: "at_slot r j z (Committing snap final)" "cl_token (sp_lease snap) = t"
    using assms(1) by (auto simp: committing_def)
  have l: "i < length (mr_slots r)" using assms(2) by (simp add: at_slot_def)
  show ?thesis
  proof (cases "j = i")
    case True
    with j assms(2) have "z = x" "ph = Committing snap final" by (auto simp: at_slot_def)
    with assms(3) j True l show ?thesis by (fastforce simp: committing_def at_put_slot)
  next
    case False
    with j l show ?thesis by (auto simp: committing_def at_put_slot)
  qed
qed

lemma committer_put:
  assumes "committer_ok r t s" "at_slot r i x ph"
    and "due ph \<Longrightarrow> item_token x = t \<Longrightarrow> range_resolved s \<Longrightarrow> \<not> rs_committed s \<Longrightarrow>
      \<exists>ph'. y = Some (x, ph') \<and> due ph'"
    and "\<And>snap final. ph = Committing snap final \<Longrightarrow> cl_token (sp_lease snap) = t \<Longrightarrow>
      (\<exists>x' final'. y = Some (x', Committing snap final')) \<or> t \<in> mr_failed r"
  shows "committer_ok (put_slot i y r) t s"
proof (cases "range_resolved s")
  case True
  show ?thesis
  proof (cases "rs_committed s")
    case True
    then show ?thesis using committing_put [OF _ assms(2), of t y] assms(1,4)
      by (auto simp: committer_ok_def)
  next
    case False
    with \<open>range_resolved s\<close> assms(1) have "check_due r t" by (simp add: committer_ok_def)
    from check_due_put [OF this assms(2)] assms(3) True False show ?thesis by (simp add: committer_ok_def)
  qed
qed (simp add: committer_ok_def)

section \<open>Frames\<close>

lemma settled_well_mono:
  "settled_well r t i \<Longrightarrow> set (mr_resolved r) \<subseteq> set (mr_resolved r') \<Longrightarrow> settled_well r' t i"
  by (auto simp: settled_well_def)

lemma item_ok_mono:
  assumes "item_ok r x" "mr_tokens r \<subseteq> mr_tokens r'" "mr_claims r' (item_token x) = mr_claims r (item_token x)"
    "set (mr_resolved r) \<subseteq> set (mr_resolved r')"
  shows "item_ok r' x"
proof (cases "chained x")
  case True
  with assms(1) obtain pre where
    "map core (chain_of (ml_key (it_row x)) (mr_claims r (item_token x))) = map core pre @ map core (chain x)"
    "\<forall>y \<in> set pre. settled_well r (item_token x) (it_index y)"
    by (auto simp: item_ok_def)
  with assms True settled_well_mono [OF _ assms(4)] show ?thesis
    unfolding item_ok_def by (auto intro!: exI [of _ pre])
next
  case False
  with assms show ?thesis by (auto simp: item_ok_def)
qed

lemma run_ok_mono:
  assumes "run_ok r p" "mr_tokens r \<subseteq> mr_tokens r'" "mr_claims r' (fst p) = mr_claims r (fst p)"
    "set (mr_resolved r) \<subseteq> set (mr_resolved r')"
  shows "run_ok r' p"
  using assms(1-3) settled_well_mono [OF _ assms(4)] by (auto simp: run_ok_def)

text \<open>What a step that makes no claim has to show.\<close>

lemma chain_invI:
  assumes inv: "chain_inv r"
    and same: "mr_tokens r' = mr_tokens r" "mr_claims r' = mr_claims r"
    and res: "set (mr_resolved r) \<subseteq> set (mr_resolved r')"
    and held: "\<And>x. x \<in> held r' \<Longrightarrow> x \<in> held r \<or> item_ok r' x"
    and live: "mset (live r') \<subseteq># mset (live r)"
    and undone: "\<And>p. p \<in> set (live r') \<Longrightarrow> undone r p \<Longrightarrow> undone r' p"
    and tracked: "\<And>t s. bf_ranges (mr_buffer r') t = Some s \<Longrightarrow> tracked_ok r' t s \<and> committer_ok r' t s"
    and runs: "mset (mr_runs r' @ waiting r') \<subseteq># mset (mr_runs r @ waiting r)"
    and run: "\<And>p. p \<in> set (mr_runs r') \<Longrightarrow> p \<in> set (mr_runs r) \<or> run_ok r' p"
  shows "chain_inv r'"
proof -
  have "item_ok r' x" if "x \<in> held r'" for x
    using held [OF that] inv item_ok_mono [of r x r'] same res by (auto simp: chain_inv_def)
  moreover have "run_ok r' p" if "p \<in> set (mr_runs r')" for p
    using run [OF that] inv run_ok_mono [of r p r'] same res by (auto simp: chain_inv_def)
  moreover have "set (live r') \<subseteq> set (live r)" using live by (metis set_mset_mono set_mset_mset)
  then have "undone r' p" if "p \<in> set (live r')" for p
    using undone [OF that] inv that by (auto simp: chain_inv_def)
  moreover have "claim_ok r' t \<and> (t \<notin> mr_tokens r' \<longrightarrow> mr_claims r' t = [])" for t
    using inv same by (simp add: chain_inv_def claim_ok_def)
  ultimately show ?thesis
    using inv tracked mset_subset_distinct [OF live] mset_subset_distinct [OF runs]
    by (simp add: chain_inv_def)
qed

text \<open>Steps that leave the bookkeeping alone.\<close>

lemma chain_inv_frame:
  assumes "chain_inv r" "mr_tokens r' = mr_tokens r" "mr_claims r' = mr_claims r"
    "mr_resolved r' = mr_resolved r" "mr_offer r' = mr_offer r" "mr_slots r' = mr_slots r"
    "mr_buffer r' = mr_buffer r" "mr_runs r' = mr_runs r" "mr_failed r' = mr_failed r"
  shows "chain_inv r'"
proof -
  have "item_ok r' = item_ok r" "run_ok r' = run_ok r" "undone r' = undone r"
    "committer_ok r' = committer_ok r" "tracked_ok r' = tracked_ok r" "held r' = held r"
    "claim_ok r' = claim_ok r" "live r' = live r" "waiting r' = waiting r"
    using assms(2-) by (simp_all add: item_ok_def run_ok_def undone_def committer_ok_def tracked_ok_def
        held_def claim_ok_def gather_def settled_well_def check_due_def committing_def at_slot_def fun_eq_iff)
  with assms show ?thesis by (simp add: chain_inv_def)
qed

section \<open>A chain's place in its claim\<close>

lemma claim_indices:
  assumes "claim_ok r t" "z \<in> set (mr_claims r t)"
  shows "it_index z < length (mr_claims r t)"
proof -
  have "set (map it_index (mr_claims r t)) = set [0..<length (mr_claims r t)]"
    using assms(1) by (simp only: claim_ok_def)
  with assms(2) show ?thesis by auto
qed

lemma item_ok_chain:
  assumes "item_ok r x" "claim_ok r (item_token x)" "y \<in> set (chain x)"
  shows "core y \<in> core ` set (mr_claims r (item_token x))" "item_token y = item_token x"
    "it_index y < length (mr_claims r (item_token x))"
proof -
  show mem: "core y \<in> core ` set (mr_claims r (item_token x))"
  proof (cases "chained x")
    case True
    then obtain pre where "map core (chain_of (ml_key (it_row x)) (mr_claims r (item_token x)))
        = map core pre @ map core (chain x)"
      using assms(1) by (auto simp: item_ok_def)
    then have "core y \<in> set (map core (chain_of (ml_key (it_row x)) (mr_claims r (item_token x))))"
      using assms(3) by simp
    then show ?thesis by (auto simp: chain_of_def)
  next
    case False
    with assms have "y = x" by (simp add: item_ok_def chain_Cons)
    with assms(1) show ?thesis by (simp add: item_ok_def)
  qed
  then obtain z where z: "z \<in> set (mr_claims r (item_token x))" "core y = core z" by auto
  then show "item_token y = item_token x" using core_eqD(5) [OF z(2)] assms(2) z(1) by (simp add: claim_ok_def)
  have "it_index z < length (mr_claims r (item_token x))" by (rule claim_indices [OF assms(2) z(1)])
  with core_eqD(4) [OF z(2)] show "it_index y < length (mr_claims r (item_token x))" by simp
qed

lemma claim_nth:
  assumes "claim_ok r t" "j < length (mr_claims r t)"
  shows "it_index (mr_claims r t ! j) = j"
  using assms nth_map [of j "mr_claims r t" it_index] by (simp add: claim_ok_def)

lemma chain_of_sorted: "claim_ok r t \<Longrightarrow> sorted_wrt (<) (map it_index (chain_of k (mr_claims r t)))"
  using sorted_filter_slots [of it_index "mr_claims r t"] by (simp add: claim_ok_def chain_of_def)

lemma item_ok_run:
  assumes ok: "item_ok r x" and cl: "claim_ok r (item_token x)"
  shows "run_ok r (item_id x)"
proof -
  let ?t = "item_token x" and ?i = "it_index x"
  have "x \<in> set (chain x)" by (subst chain_head) simp
  from item_ok_chain [OF ok cl this] have x: "core x \<in> core ` set (mr_claims r ?t)"
    "?i < length (mr_claims r ?t)" by auto
  then obtain z where z: "z \<in> set (mr_claims r ?t)" "core z = core x" by auto
  then obtain k where k: "k < length (mr_claims r ?t)" "mr_claims r ?t ! k = z"
    by (auto simp: in_set_conv_nth)
  then have "k = ?i" using claim_nth [OF cl k(1)] core_eqD(4) [OF z(2)] by simp
  with k have zi: "mr_claims r ?t ! ?i = z" by simp
  have "settled_well r ?t j"
    if j: "j < ?i" and ch: "chained z" "chained (mr_claims r ?t ! j)"
      "ml_key (it_row (mr_claims r ?t ! j)) = ml_key (it_row z)" for j
  proof -
    let ?y = "mr_claims r ?t ! j"
    have yi: "it_index ?y = j" using j x(2) by (intro claim_nth [OF cl]) simp
    have xz: "chained x" "ml_key (it_row x) = ml_key (it_row z)"
      using ch(1) core_eqD(2,3) [OF z(2)] by auto
    obtain pre where pre: "map core (chain_of (ml_key (it_row x)) (mr_claims r ?t))
        = map core pre @ map core (chain x)" "\<forall>y \<in> set pre. settled_well r ?t (it_index y)"
      using ok xz(1) by (auto simp: item_ok_def)
    have "?y \<in> set (chain_of (ml_key (it_row x)) (mr_claims r ?t))"
      using ch xz j x(2) by (auto simp: chain_of_def)
    then have "core ?y \<in> set (map core pre @ map core (chain x))" by (simp only: pre(1) [symmetric]) auto
    moreover have "map it_index (chain_of (ml_key (it_row x)) (mr_claims r ?t)) = map it_index pre @ map it_index (chain x)"
    proof -
      have "map (\<lambda>(m, l, i, opts). i) (map core (chain_of (ml_key (it_row x)) (mr_claims r ?t)))
          = map (\<lambda>(m, l, i, opts). i) (map core pre @ map core (chain x))" by (simp only: pre(1))
      then show ?thesis by (simp add: comp_def core_def)
    qed
    then have "sorted_wrt (<) (map it_index pre @ ?i # map it_index (tl (chain x)))"
      using chain_of_sorted [OF cl] chain_head [of x] by (metis list.simps(9))
    then have "\<forall>y \<in> set (chain x). ?i \<le> it_index y"
      by (subst chain_head) (auto simp: sorted_wrt_append)
    then have "core ?y \<notin> set (map core (chain x))"
      using yi j core_eqD(4) by (metis (no_types, lifting) image_iff leD list.set_map)
    ultimately obtain y' where "y' \<in> set pre" "core ?y = core y'" by auto
    with pre(2) core_eqD(4) yi show ?thesis by metis
  qed
  with zi ok show ?thesis by (auto simp: run_ok_def item_id_def item_ok_def)
qed

section \<open>Steps of one slot\<close>

lemma held_put: "x \<in> held (put_slot i y r) \<Longrightarrow> x \<in> held r \<or> (\<exists>ph. y = Some (x, ph))"
  using set_update_subset_insert [of "mr_slots r" i y] by (auto simp: held_def)

lemma at_slot_held: "at_slot r i x ph \<Longrightarrow> x \<in> held r"
  by (force simp: held_def at_slot_def in_set_conv_nth)

lemma gather_put_sub:
  assumes "i < length (mr_slots r)"
    and "mset (map item_id (f y)) \<subseteq># mset (map item_id (f (mr_slots r ! i)))"
  shows "mset (gather f (put_slot i y r)) \<subseteq># mset (gather f r)"
proof -
  obtain A where "mset (map item_id (f (mr_slots r ! i))) = A + mset (map item_id (f y))"
    using assms(2) by (metis subset_mset.add_diff_inverse union_commute)
  from gather_put_slot [OF assms(1) this] show ?thesis by simp
qed

lemma put_slot_frames [simp]:
  "item_ok (put_slot i y r) = item_ok r" "run_ok (put_slot i y r) = run_ok r"
  "undone (put_slot i y r) = undone r" "tracked_ok (put_slot i y r) = tracked_ok r"
  by (simp_all add: item_ok_def run_ok_def undone_def tracked_ok_def settled_well_def fun_eq_iff)

lemma chain_inv_put:
  assumes inv: "chain_inv r" and at: "at_slot r i x ph"
    and held: "\<And>z ph'. y = Some (z, ph') \<Longrightarrow> z = x \<or> item_ok r z"
    and live: "mset (map item_id (slot_live y)) \<subseteq># mset (map item_id (slot_live (Some (x, ph))))"
    and waiting: "mset (map item_id (slot_waiting y)) \<subseteq># mset (map item_id (slot_waiting (Some (x, ph))))"
    and due: "\<And>s. due ph \<Longrightarrow> bf_ranges (mr_buffer r) (item_token x) = Some s \<Longrightarrow> range_resolved s \<Longrightarrow>
      \<not> rs_committed s \<Longrightarrow> \<exists>ph'. y = Some (x, ph') \<and> due ph'"
    and comm: "\<And>snap final s. ph = Committing snap final \<Longrightarrow>
      bf_ranges (mr_buffer r) (cl_token (sp_lease snap)) = Some s \<Longrightarrow> cl_token (sp_lease snap) \<in> mr_failed r"
  shows "chain_inv (put_slot i y r)"
proof (rule chain_invI [OF inv])
  show "z \<in> held r \<or> item_ok (put_slot i y r) z" if "z \<in> held (put_slot i y r)" for z
    using held_put [OF that] held at_slot_held [OF at] by auto
  show "tracked_ok (put_slot i y r) t s \<and> committer_ok (put_slot i y r) t s"
    if "bf_ranges (mr_buffer (put_slot i y r)) t = Some s" for t s
  proof -
    have R: "bf_ranges (mr_buffer r) t = Some s" using that by simp
    then have "tracked_ok r t s" "committer_ok r t s" using inv by (auto simp: chain_inv_def)
    moreover have "committer_ok (put_slot i y r) t s"
      using due comm R by (intro committer_put [OF \<open>committer_ok r t s\<close> at]) auto
    ultimately show ?thesis by simp
  qed
qed (use at live waiting in \<open>auto intro!: gather_put_sub\<close>)

end
