(* ===== verification/Runner_Order.thy ===== *)
theory Runner_Order
  imports Runner_Chains
begin

text \<open>Every step of the runner keeps the bookkeeping invariant.\<close>

section \<open>Resolving\<close>

lemma live_parts:
  assumes "chain_inv r" "at_slot r i x ph" "slot_live (Some (x, ph)) = chain x"
  shows "set (map item_id (chain x)) \<subseteq> set (live r)" "distinct (map item_id (chain x))"
proof -
  have "slot_live (mr_slots r ! i) = chain x" "i < length (mr_slots r)" using assms(2,3) by simp_all
  then have "mset (live r) = mset (map item_id (chain x)) + mset (live (put_slot i None r))"
    by (intro gather_put_slot) simp_all
  then have m: "mset (live r) = mset (map item_id (chain x) @ live (put_slot i None r))" by simp
  have "distinct (live r)" using assms(1) by (simp add: chain_inv_def)
  with m have "distinct (map item_id (chain x) @ live (put_slot i None r))"
    using mset_eq_imp_distinct_iff by blast
  then show "distinct (map item_id (chain x))" by simp
  show "set (map item_id (chain x)) \<subseteq> set (live r)" using mset_eq_setD [OF m] by auto
qed

lemma undone_resolve_other:
  "undone r p \<Longrightarrow> p \<noteq> item_id x \<Longrightarrow> undone (resolve_item x kind err delay r) p"
  by (cases p) (auto simp: undone_def resolve_item_def buffer_resolve_def update_range_def item_id_def
      range_resolve_def nth_list_update split: if_splits)

lemma tracked_undone_open:
  assumes "tracked_ok r t s" "undone r (t, j)" "bf_ranges (mr_buffer r) t = Some s"
  shows "\<not> range_resolved s" "\<not> rs_committed s" "j < length (rs_ids s)" "\<not> res_done (rs_results s ! j)"
proof -
  show j: "j < length (rs_ids s)" "\<not> res_done (rs_results s ! j)"
    using assms(2,3) by (auto simp: undone_def)
  have ok: "range_ok s" using assms(1) by (simp add: tracked_ok_def)
  then have "rs_results s ! j \<in> set (rs_results s)" using j by (auto simp: range_ok_def range_shape_def)
  with ok j(2) show "\<not> range_resolved s" using range_resolved_iff [OF ok] by blast
  with assms(1) show "\<not> rs_committed s" by (auto simp: tracked_ok_def)
qed

lemma tracked_resolve:
  assumes t: "tracked_ok r t s" "undone r (t, it_index x)" "bf_ranges (mr_buffer r) t = Some s"
    and x: "item_token x = t"
  shows "tracked_ok (resolve_item x kind err delay r) t
    (range_resolve (it_index x) kind err delay pol s)"
    "\<not> rs_committed (range_resolve (it_index x) kind err delay pol s)"
proof -
  note o = tracked_undone_open [OF t]
  have ok: "range_ok s" using t(1) by (simp add: tracked_ok_def)
  then have "range_ok (range_resolve (it_index x) kind err delay pol s)"
    by (rule range_resolve_ok [OF _ o(3,4)])
  moreover have "range_shape s" using ok by (simp add: range_ok_def)
  note d = range_resolve_done [OF this o(3), of kind err delay pol]
  ultimately show "tracked_ok (resolve_item x kind err delay r) t
    (range_resolve (it_index x) kind err delay pol s)"
    using t(1) o(2) x by (auto simp: tracked_ok_def resolve_item_def d split: if_splits)
  show "\<not> rs_committed (range_resolve (it_index x) kind err delay pol s)" using o(2) by simp
qed

lemma resolve_item_simps [simp]:
  "mr_claims (resolve_item x kind err delay r) = mr_claims r"
  "mr_slots (resolve_item x kind err delay r) = mr_slots r"
  "mr_offer (resolve_item x kind err delay r) = mr_offer r"
  "mr_runs (resolve_item x kind err delay r) = mr_runs r"
  "mr_failed (resolve_item x kind err delay r) = mr_failed r"
  "bf_queue (mr_buffer (resolve_item x kind err delay r)) = bf_queue (mr_buffer r)"
  "mr_resolved (resolve_item x kind err delay r) = (item_token x, it_index x, kind) # mr_resolved r"
  "bf_ranges (mr_buffer (resolve_item x kind err delay r)) = (bf_ranges (mr_buffer r))(item_token x :=
     map_option (range_resolve (it_index x) kind err delay (mo_concurrency (it_options x)))
       (bf_ranges (mr_buffer r) (item_token x)))"
  by (simp_all add: resolve_item_def buffer_resolve_def update_range_def)

lemma gather_same [simp]:
  "gather f (resolve_item x kind err delay r) = gather f r"
  by (simp add: gather_def)

lemma held_same [simp]: "held (resolve_item x kind err delay r) = held r"
  by (simp add: held_def)

lemma at_resolve [simp]: "at_slot (resolve_item x kind err delay r) i z ph = at_slot r i z ph"
  by (simp add: at_slot_def)

lemma committer_same:
  assumes "committer_ok r t s" "mr_slots r' = mr_slots r" "mr_failed r' = mr_failed r"
  shows "committer_ok r' t s"
proof -
  have "at_slot r' = at_slot r" by (simp add: at_slot_def fun_eq_iff assms(2))
  then have "check_due r' t = check_due r t" "committing r' t = committing r t"
    by (simp_all add: check_due_def committing_def)
  with assms(1,3) show ?thesis by (simp add: committer_ok_def)
qed

lemma tracked_mono:
  assumes "tracked_ok r t s" "mr_tokens r \<subseteq> mr_tokens r'" "mr_claims r' t = mr_claims r t"
    "set (mr_resolved r) \<subseteq> set (mr_resolved r')"
  shows "tracked_ok r' t s"
  using assms by (auto simp: tracked_ok_def)

text \<open>A goroutine records the result of its message and moves to a phase that leads to a check.\<close>

lemma chain_inv_resolve:
  assumes inv: "chain_inv r" and at: "at_slot r i x ph"
    and ph: "slot_live (Some (x, ph)) = chain x" "\<not> due ph" "\<And>snap final. ph \<noteq> Committing snap final"
    and ph': "due ph'" "slot_live (Some (x, ph')) = tl (chain x)"
    and waiting: "mset (map item_id (slot_waiting (Some (x, ph')))) \<subseteq># mset (map item_id (slot_waiting (Some (x, ph))))"
  shows "chain_inv (put_slot i (Some (x, ph')) (resolve_item x kind err delay r))" (is "chain_inv ?r'")
proof (rule chain_invI [OF inv])
  let ?r1 = "resolve_item x kind err delay r"
  have l: "i < length (mr_slots r)" using at by simp
  have head: "map item_id (chain x) = item_id x # map item_id (tl (chain x))"
    by (subst chain_head) simp
  have live_eq: "mset (live r) = {#item_id x#} + mset (live ?r')"
    using gather_put_slot [of i ?r1 slot_live "{#item_id x#}" "Some (x, ph')"] l at ph(1) ph'(2) head
    by simp
  then show "mset (live ?r') \<subseteq># mset (live r)" by simp
  have "distinct (item_id x # live ?r')"
    using inv live_eq mset_eq_imp_distinct_iff [of "live r" "item_id x # live ?r'"] by (simp add: chain_inv_def)
  then have notin: "item_id x \<notin> set (live ?r')" by simp
  have x_undone: "undone r (item_token x, it_index x)"
    using inv live_parts(1) [OF inv at ph(1)] head by (auto simp: chain_inv_def item_id_def)
  show "z \<in> held r \<or> item_ok ?r' z" if "z \<in> held ?r'" for z
    using held_put [OF that] at_slot_held [OF at] by auto
  show "undone ?r' p" if "p \<in> set (live ?r')" "undone r p" for p
    using undone_resolve_other [OF that(2)] that(1) notin by (metis put_slot_frames(3))
  show "tracked_ok ?r' t s \<and> committer_ok ?r' t s" if R: "bf_ranges (mr_buffer ?r') t = Some s" for t s
  proof (cases "t = item_token x")
    case True
    with R obtain s0 where s0: "bf_ranges (mr_buffer r) t = Some s0"
      "s = range_resolve (it_index x) kind err delay (mo_concurrency (it_options x)) s0"
      by auto
    have tr: "tracked_ok r t s0" using inv s0(1) by (simp add: chain_inv_def)
    note t = tracked_resolve [OF tr _ s0(1)] 
    have "tracked_ok ?r1 t s" "\<not> rs_committed s"
      unfolding s0(2) using t x_undone True by auto
    moreover have "check_due ?r' t"
      using l ph'(1) True by (auto simp: check_due_def at_put_slot intro!: exI [of _ i])
    ultimately show ?thesis by (simp add: committer_ok_def)
  next
    case False
    with R have R0: "bf_ranges (mr_buffer r) t = Some s" by simp
    then have "tracked_ok r t s" "committer_ok r t s" using inv by (auto simp: chain_inv_def)
    then have "tracked_ok ?r1 t s" "committer_ok ?r1 t s"
      by (auto intro: tracked_mono committer_same)
    then show ?thesis
      using committer_put [of ?r1 t s i x ph "Some (x, ph')"] at ph(2,3) by simp
  qed
  show "mset (mr_runs ?r' @ waiting ?r') \<subseteq># mset (mr_runs r @ waiting r)"
    using gather_put_sub [of i ?r1 slot_waiting "Some (x, ph')"] waiting at by simp
  show "set (mr_resolved r) \<subseteq> set (mr_resolved ?r')" by auto
  show "p \<in> set (mr_runs r) \<or> run_ok ?r' p" if "p \<in> set (mr_runs ?r')" for p using that by simp
qed simp_all

section \<open>Starting a run\<close>

lemma chain_inv_run:
  assumes inv: "chain_inv r" and at: "at_slot r i x Start"
  shows "chain_inv (put_slot i (Some (x, Handler kco)) (r\<lparr>mr_runs := item_id x # mr_runs r\<rparr>))" (is "chain_inv ?r'")
proof (rule chain_invI [OF inv])
  let ?r1 = "r\<lparr>mr_runs := item_id x # mr_runs r\<rparr>"
  have l: "i < length (mr_slots r)" using at by simp
  have g: "gather f ?r1 = gather f r" for f by (simp add: gather_def)
  have atr: "at_slot ?r1 j z ph = at_slot r j z ph" for j z ph by (simp add: at_slot_def)
  have head: "map item_id (chain x) = item_id x # map item_id (tl (chain x))"
    by (subst chain_head) simp
  show "mset (live ?r') \<subseteq># mset (live r)"
    using gather_put_sub [of i ?r1 slot_live "Some (x, Handler kco)"] at by (simp add: g)
  have "mset (waiting r) = {#item_id x#} + mset (waiting ?r')"
    using gather_put_slot [of i ?r1 slot_waiting "{#item_id x#}" "Some (x, Handler kco)"] l at head by (simp add: g)
  then show "mset (mr_runs ?r' @ waiting ?r') \<subseteq># mset (mr_runs r @ waiting r)" by simp
  show "z \<in> held r \<or> item_ok ?r' z" if "z \<in> held ?r'" for z
    using held_put [OF that] at_slot_held [OF at] by (auto simp: held_def)
  have ok: "item_ok r x" using inv at_slot_held [OF at] by (simp add: chain_inv_def)
  then have "claim_ok r (item_token x)" using inv by (simp add: chain_inv_def item_ok_def)
  then have "run_ok r (item_id x)" by (rule item_ok_run [OF ok])
  then have run: "run_ok ?r' (item_id x)" by (auto intro: run_ok_mono)
  show "p \<in> set (mr_runs r) \<or> run_ok ?r' p" if "p \<in> set (mr_runs ?r')" for p using that run by auto
  show "undone ?r' p" if "undone r p" for p using that by (simp add: undone_def)
  show "tracked_ok ?r' t s \<and> committer_ok ?r' t s" if R: "bf_ranges (mr_buffer ?r') t = Some s" for t s
  proof -
    have "tracked_ok r t s" "committer_ok r t s" using inv R by (auto simp: chain_inv_def)
    then have "tracked_ok ?r1 t s" "committer_ok ?r1 t s"
      by (auto intro: tracked_mono committer_same)
    then show ?thesis
      using committer_put [of ?r1 t s i x Start "Some (x, Handler kco)"] at by (simp add: atr)
  qed
qed simp_all

section \<open>Deferring the rest of a chain\<close>

lemma fold_resolve:
  assumes "\<forall>y \<in> set ys. item_token y = t"
  shows "bf_ranges (fold (\<lambda>y. buffer_resolve y Kind_Deferred behind_error 0) ys b) = (bf_ranges b)(t :=
    map_option (fold (\<lambda>y. range_resolve (it_index y) Kind_Deferred behind_error 0
      (mo_concurrency (it_options y))) ys) (bf_ranges b t))"
  using assms
proof (induction ys arbitrary: b)
  case (Cons y ys)
  then show ?case
    by (auto simp: buffer_resolve_def update_range_def fun_eq_iff option.map_comp comp_def)
next
  case Nil
  then show ?case by (simp add: option.map_ident fun_eq_iff)
qed

lemma fold_resolve_queue [simp]:
  "bf_queue (fold (\<lambda>y. buffer_resolve y Kind_Deferred behind_error 0) ys b) = bf_queue b"
  by (induction ys arbitrary: b) (simp_all add: buffer_resolve_def update_range_def)

lemma fold_range_resolve:
  assumes "range_ok s" "\<forall>y \<in> set ys. it_index y < length (rs_ids s) \<and> \<not> res_done (rs_results s ! it_index y)"
    "distinct (map it_index ys)"
  shows "let s' = fold (\<lambda>y. range_resolve (it_index y) Kind_Deferred behind_error 0
      (mo_concurrency (it_options y))) ys s in
    range_ok s' \<and> rs_ids s' = rs_ids s \<and> rs_committed s' = rs_committed s \<and> rs_lease s' = rs_lease s
    \<and> (\<forall>j. outcome_at s' j = (if j \<in> it_index ` set ys then Some Kind_Deferred else outcome_at s j))"
  using assms
proof (induction ys arbitrary: s)
  case (Cons y ys)
  let ?s1 = "range_resolve (it_index y) Kind_Deferred behind_error 0 (mo_concurrency (it_options y)) s"
  have ok1: "range_ok ?s1" using Cons.prems by (intro range_resolve_ok) auto
  have "range_shape s" using Cons.prems(1) by (simp add: range_ok_def)
  note d = range_resolve_done [OF this]
  have und: "\<forall>z \<in> set ys. it_index z < length (rs_ids ?s1) \<and> \<not> res_done (rs_results ?s1 ! it_index z)"
    using Cons.prems by (auto simp: range_resolve_def nth_list_update image_iff)
  have "distinct (map it_index ys)" using Cons.prems(3) by simp
  note ih = Cons.IH [OF ok1 und this]
  show ?case using ih Cons.prems d by (auto simp: Let_def)
qed simp

lemma chain_inv_break:
  assumes inv: "chain_inv r" and at: "at_slot r i x Chain"
  shows "chain_inv (put_slot i (Some (x, Check True)) (resolve_behind x r))" (is "chain_inv ?r'")
proof (rule chain_invI [OF inv])
  let ?r1 = "resolve_behind x r" and ?ys = "tl (chain x)" and ?t = "item_token x"
  have l: "i < length (mr_slots r)" using at by simp
  have ok: "item_ok r x" using inv at_slot_held [OF at] by (simp add: chain_inv_def)
  have cl: "claim_ok r ?t" using inv ok by (simp add: chain_inv_def item_ok_def)
  have toks: "\<forall>y \<in> set ?ys. item_token y = ?t"
    using item_ok_chain(2) [OF ok cl] chain_head [of x] by (metis list.set_intros(2))
  have ranges: "bf_ranges (mr_buffer ?r1) = (bf_ranges (mr_buffer r))(?t := map_option
      (fold (\<lambda>y. range_resolve (it_index y) Kind_Deferred behind_error 0 (mo_concurrency (it_options y))) ?ys)
      (bf_ranges (mr_buffer r) ?t))"
    using fold_resolve [OF toks] by (simp add: resolve_behind_def resolve_deferred_behind_def)
  have frames: "mr_slots ?r1 = mr_slots r" "mr_offer ?r1 = mr_offer r" "mr_runs ?r1 = mr_runs r"
    "mr_failed ?r1 = mr_failed r" "mr_claims ?r1 = mr_claims r"
    "bf_queue (mr_buffer ?r1) = bf_queue (mr_buffer r)"
    "mr_resolved ?r1 = map (\<lambda>y. (item_token y, it_index y, Kind_Deferred)) ?ys @ mr_resolved r"
    by (simp_all add: resolve_behind_def resolve_deferred_behind_def)
  have g: "gather f ?r1 = gather f r" for f by (simp add: gather_def frames)
  have atr: "at_slot ?r1 j z ph = at_slot r j z ph" for j z ph by (simp add: at_slot_def frames)
  have live_eq: "mset (live r) = mset (map item_id ?ys) + mset (live ?r')"
    using gather_put_slot [of i ?r1 slot_live "mset (map item_id ?ys)" "Some (x, Check True)"] l at
    by (simp add: g frames)
  then show "mset (live ?r') \<subseteq># mset (live r)" by simp
  have "distinct (map item_id ?ys @ live ?r')"
    using inv live_eq mset_eq_imp_distinct_iff [of "live r" "map item_id ?ys @ live ?r'"]
    by (simp add: chain_inv_def)
  then have notin: "set (map item_id ?ys) \<inter> set (live ?r') = {}" and dist: "distinct (map item_id ?ys)"
    by auto
  have in_live: "set (map item_id ?ys) \<subseteq> set (live r)"
    using live_eq by (metis set_mset_mono set_mset_mset mset_subset_eq_add_left)
  have ids: "map item_id ?ys = map (\<lambda>j. (?t, j)) (map it_index ?ys)"
    using toks by (simp add: item_id_def)
  then have didx: "distinct (map it_index ?ys)" using dist distinct_map by metis
  have und: "undone r (?t, it_index y)" if "y \<in> set ?ys" for y
  proof -
    have "(?t, it_index y) \<in> set (map item_id ?ys)" using that by (simp only: ids) auto
    with in_live inv show ?thesis by (auto simp: chain_inv_def)
  qed
  show "z \<in> held r \<or> item_ok ?r' z" if "z \<in> held ?r'" for z
    using held_put [OF that] at_slot_held [OF at] by (auto simp: held_def frames)
  show "tracked_ok ?r' t s \<and> committer_ok ?r' t s" if R: "bf_ranges (mr_buffer ?r') t = Some s" for t s
  proof (cases "t = ?t")
    case True
    with R ranges obtain s0 where s0: "bf_ranges (mr_buffer r) t = Some s0"
      "s = fold (\<lambda>y. range_resolve (it_index y) Kind_Deferred behind_error 0 (mo_concurrency (it_options y))) ?ys s0"
      by auto
    have tr: "tracked_ok r t s0" "committer_ok r t s0" using inv s0(1) by (auto simp: chain_inv_def)
    have ok0: "range_ok s0" using tr(1) by (simp add: tracked_ok_def)
    have "\<forall>y \<in> set ?ys. it_index y < length (rs_ids s0) \<and> \<not> res_done (rs_results s0 ! it_index y)"
      using und tracked_undone_open(3,4) [OF tr(1) _ s0(1)] True by blast
    note f = fold_range_resolve [OF ok0 this didx, folded s0(2), unfolded Let_def]
    have committed: "rs_committed s \<longrightarrow> ?ys = []"
    proof
      assume "rs_committed s"
      then have "rs_committed s0" using f by simp
      with und tracked_undone_open(2) [OF tr(1) _ s0(1)] True show "?ys = []"
        by (metis list.set_intros(1) neq_Nil_conv)
    qed
    have "tracked_ok ?r1 t s"
      using tr(1) f committed s0 True toks by (auto simp: tracked_ok_def frames resolve_behind_def split: if_splits)
    moreover have "check_due ?r' t"
      using l True by (auto simp: check_due_def at_put_slot frames intro!: exI [of _ i])
    moreover have "committing ?r' t \<or> t \<in> mr_failed ?r'" if "rs_committed s" "range_resolved s"
    proof -
      have "s = s0" using committed that(1) s0(2) by simp
      with that tr(2) have "committing r t \<or> t \<in> mr_failed r" by (simp add: committer_ok_def)
      then have "committing ?r1 t \<or> t \<in> mr_failed r" by (simp add: committing_def atr)
      then show ?thesis using committing_put [of ?r1 t i x Chain] at by (auto simp: atr frames)
    qed
    ultimately show ?thesis by (simp add: committer_ok_def)
  next
    case False
    with R ranges have R0: "bf_ranges (mr_buffer r) t = Some s" by simp
    then have "tracked_ok r t s" "committer_ok r t s" using inv by (auto simp: chain_inv_def)
    then have "tracked_ok ?r1 t s" "committer_ok ?r1 t s"
      using tracked_mono [of r t s ?r1] committer_same [of r t s ?r1] by (auto simp: frames)
    then show ?thesis
      using committer_put [of ?r1 t s i x Chain "Some (x, Check True)"] at by (simp add: atr)
  qed
  show "undone ?r' p" if p: "p \<in> set (live ?r')" "undone r p" for p
  proof -
    have "undone ?r1 p"
      unfolding undone_def
    proof (intro allI impI)
      fix s assume s: "bf_ranges (mr_buffer ?r1) (fst p) = Some s"
      show "snd p < length (rs_ids s) \<and> \<not> res_done (rs_results s ! snd p)"
      proof (cases "fst p = ?t")
        case False
        with s ranges p(2) show ?thesis by (simp add: undone_def)
      next
        case True
        with s ranges obtain s0 where s0: "bf_ranges (mr_buffer r) (fst p) = Some s0"
          "s = fold (\<lambda>y. range_resolve (it_index y) Kind_Deferred behind_error 0 (mo_concurrency (it_options y))) ?ys s0"
          by auto
        have tr: "tracked_ok r (fst p) s0" using inv s0(1) by (auto simp: chain_inv_def)
        have ok0: "range_ok s0" using tr(1) by (simp add: tracked_ok_def)
        have "\<forall>y \<in> set ?ys. it_index y < length (rs_ids s0) \<and> \<not> res_done (rs_results s0 ! it_index y)"
          using und [folded True] tracked_undone_open(3,4) [OF tr(1) _ s0(1)] by blast
        note f = fold_range_resolve [OF ok0 this didx, folded s0(2), unfolded Let_def]
        have ne: "snd p \<notin> it_index ` set ?ys"
        proof
          assume "snd p \<in> it_index ` set ?ys"
          then obtain y where y: "y \<in> set ?ys" "snd p = it_index y" by auto
          then have "p = (?t, it_index y)" using True by (cases p) simp
          with y(1) have "p \<in> set (map item_id ?ys)" by (simp only: ids) auto
          with notin p(1) show False by blast
        qed
        have "outcome_at s0 (snd p) = None" using p(2) s0(1) by (simp add: undone_def outcome_at_def)
        with f ne have "outcome_at s (snd p) = None" by simp
        with f p(2) s0(1) show ?thesis by (auto simp: undone_def outcome_at_def split: if_splits)
      qed
    qed
    then show ?thesis by simp
  qed
  show "mset (mr_runs ?r' @ waiting ?r') \<subseteq># mset (mr_runs r @ waiting r)"
    using gather_put_sub [of i ?r1 slot_waiting "Some (x, Check True)"] at by (simp add: g frames)
  show "set (mr_resolved r) \<subseteq> set (mr_resolved ?r')" by (auto simp: frames)
  show "p \<in> set (mr_runs r) \<or> run_ok ?r' p" if "p \<in> set (mr_runs ?r')" for p using that by (simp add: frames)
qed (simp_all add: resolve_behind_def)

section \<open>Claims\<close>

lemma claimed_items_nth:
  "claimed_items resolve cr = map (\<lambda>i. Buffered (cr_messages cr ! i) (cr_lease cr) i
     (resolve (ml_options (cr_messages cr ! i))) None) [0..<length (cr_messages cr)]"
  by (rule nth_equalityI) (auto simp: claimed_items_def nth_enumerate_eq)

lemma claimed_items_simps [simp]:
  "length (claimed_items resolve cr) = length (cr_messages cr)"
  "map it_index (claimed_items resolve cr) = [0..<length (cr_messages cr)]"
  by (simp_all add: claimed_items_nth comp_def)

lemma claimed_itemsD:
  "x \<in> set (claimed_items resolve cr) \<Longrightarrow> item_token x = cl_token (cr_lease cr) \<and> it_next x = None"
  by (auto simp: claimed_items_nth item_token_def)

text \<open>What \<open>add\<close> enqueues carries every message of the claim exactly once.\<close>

lemma link_chain_Some: "bs \<noteq> [] \<Longrightarrow> \<exists>x. link_chain bs = Some x \<and> it_row x = it_row (hd bs) \<and> it_options x = it_options (hd bs)"
  by (cases bs) auto

lemma enqueued_chains:
  assumes "\<And>k. k \<in> set order \<Longrightarrow> chain_of k items \<noteq> []" "\<And>x. x \<in> set items \<Longrightarrow> it_next x = None"
  shows "map core (concat (map chain (enqueued order items)))
    = map core (filter (\<lambda>b. \<not> chained b) items @ concat (map (\<lambda>k. chain_of k items) order))"
proof -
  have plain: "concat (map chain xs) = xs" if "\<And>x. x \<in> set xs \<Longrightarrow> it_next x = None" for xs
    using that by (induction xs) (simp_all add: chain_Cons)
  have "concat (map chain (filter (\<lambda>b. \<not> chained b) items)) = filter (\<lambda>b. \<not> chained b) items"
    using assms(2) by (intro plain) auto
  moreover have "map core (concat (map chain (List.map_filter (\<lambda>k. link_chain (chain_of k items)) ks)))
      = map core (concat (map (\<lambda>k. chain_of k items) ks))" if "set ks \<subseteq> set order" for ks
    using that
  proof (induction ks)
    case (Cons k ks)
    then obtain x where "link_chain (chain_of k items) = Some x"
      using link_chain_Some [of "chain_of k items"] assms(1) by auto
    with Cons link_chain_core [OF this] show ?case by simp
  qed simp
  ultimately show ?thesis by (simp add: enqueued_def)
qed

lemma enqueued_ids:
  assumes items: "items = claimed_items resolve cr" and order: "distinct order" "set order = chain_keys items"
  shows "mset (map item_id (concat (map chain (enqueued order items)))) = mset (map item_id items)"
proof -
  have ne: "chain_of k items \<noteq> []" if "k \<in> set order" for k
    using that order(2) by (auto simp: chain_keys_def chain_of_def filter_empty_conv)
  have "map core (concat (map chain (enqueued order items)))
    = map core (filter (\<lambda>b. \<not> chained b) items @ concat (map (\<lambda>k. chain_of k items) order))"
    using ne claimed_itemsD items by (intro enqueued_chains) auto
  then have eq: "map item_id (concat (map chain (enqueued order items)))
    = map item_id (filter (\<lambda>b. \<not> chained b) items @ concat (map (\<lambda>k. chain_of k items) order))"
    by (rule map_core_id)
  have "mset (concat (map (\<lambda>k. chain_of k items) order)) = mset (filter chained items)"
  proof -
    have "mset (concat (map (\<lambda>k. filter (\<lambda>b. chained b \<and> ml_key (it_row b) = k) xs) order)) = mset (filter chained xs)"
      if "\<And>b. b \<in> set xs \<Longrightarrow> chained b \<Longrightarrow> ml_key (it_row b) \<in> set order" for xs
      using that
    proof (induction xs)
      case Nil
      then show ?case by (induction order) auto
    next
      case (Cons b xs)
      have ins: "mset (concat (map (\<lambda>k. filter (\<lambda>b. chained b \<and> ml_key (it_row b) = k) (b # xs)) ks))
          = (if chained b \<and> ml_key (it_row b) \<in> set ks then {#b#} else {#})
            + mset (concat (map (\<lambda>k. filter (\<lambda>b. chained b \<and> ml_key (it_row b) = k) xs) ks))"
        if "distinct ks" for ks
        using that by (induction ks) auto
      show ?case using ins [OF order(1)] Cons by (auto simp del: concat.simps)
    qed
    moreover have "\<And>b. b \<in> set items \<Longrightarrow> chained b \<Longrightarrow> ml_key (it_row b) \<in> set order"
      using order(2) by (auto simp: chain_keys_def)
    ultimately show ?thesis by (simp add: chain_of_def)
  qed
  then have "mset (filter (\<lambda>b. \<not> chained b) items @ concat (map (\<lambda>k. chain_of k items) order)) = mset items"
    by (simp add: add.commute flip: multiset_partition)
  then show ?thesis by (simp only: eq mset_map)
qed

lemma gather_tokens:
  assumes inv: "chain_inv r" and f: "\<And>y. set (f y) \<subseteq> (case y of None \<Rightarrow> {} | Some (x, ph) \<Rightarrow> set (chain x))"
    and p: "p \<in> set (gather f r)"
  shows "fst p \<in> mr_tokens r"
proof -
  have slot: "\<exists>x \<in> held r. y \<in> set (chain x)" if "z \<in> set (mr_slots r)" "y \<in> set (f z)" for y z
    using f [of z] that by (cases z) (auto simp: held_def)
  have "\<exists>x \<in> held r. \<exists>y \<in> set (chain x). p = item_id y"
    using p slot unfolding gather_def by (auto simp: held_def) blast+
  then obtain x y where xy: "x \<in> held r" "y \<in> set (chain x)" "p = item_id y" by blast
  have "item_ok r x" using inv xy(1) by (simp add: chain_inv_def)
  with inv xy item_ok_chain(2) [of r x y] show ?thesis by (simp add: item_id_def item_ok_def chain_inv_def)
qed

lemma in_tl: "y \<in> set (tl xs) \<Longrightarrow> y \<in> set xs"
  by (cases xs) auto

lemma slot_live_chain: "set (slot_live y) \<subseteq> (case y of None \<Rightarrow> {} | Some (x, ph) \<Rightarrow> set (chain x))"
  by (cases y rule: slot_live.cases) (auto dest: in_tl)

lemma slot_waiting_chain: "set (slot_waiting y) \<subseteq> (case y of None \<Rightarrow> {} | Some (x, ph) \<Rightarrow> set (chain x))"
  by (cases y rule: slot_waiting.cases) (auto dest: in_tl)

lemma enqueued_held:
  assumes items: "items = claimed_items resolve cr" and x: "x \<in> set (enqueued order items)"
    and order: "set order = chain_keys items"
  shows "item_token x = cl_token (cr_lease cr)" "core x \<in> core ` set items"
    "if chained x then map core (chain_of (ml_key (it_row x)) items) = map core (chain x) else it_next x = None"
proof -
  have "item_token x = cl_token (cr_lease cr) \<and> core x \<in> core ` set items \<and> (if chained x
      then map core (chain_of (ml_key (it_row x)) items) = map core (chain x) else it_next x = None)"
  proof (cases "x \<in> set (filter (\<lambda>b. \<not> chained b) items)")
    case True
    with claimed_itemsD items show ?thesis by auto
  next
    case False
    with x obtain k where k: "k \<in> set order" "link_chain (chain_of k items) = Some x"
      by (auto simp: enqueued_def map_filter_def)
    then obtain z zs where zs: "chain_of k items = z # zs" by (cases "chain_of k items") auto
    have cx: "map core (chain x) = core z # map core zs" using link_chain_core [OF k(2)] zs by simp
    then have xz: "core x = core z" by (subst (asm) chain_head) simp
    have "z \<in> set (chain_of k items)" using zs by simp
    then have z: "z \<in> set items" "chained z" "ml_key (it_row z) = k" by (auto simp: chain_of_def)
    show ?thesis
      using z zs cx xz core_eqD(1-5) [OF xz] claimed_itemsD [of z resolve cr] items
      by (auto simp: item_id_def)
  qed
  then show "item_token x = cl_token (cr_lease cr)" "core x \<in> core ` set items"
    "if chained x then map core (chain_of (ml_key (it_row x)) items) = map core (chain x) else it_next x = None"
    by blast+
qed

lemma chain_inv_direct:
  assumes "chain_inv r" "t \<notin> mr_tokens r"
  shows "chain_inv (r\<lparr>mr_direct := d, mr_tokens := insert t (mr_tokens r)\<rparr>)" (is "chain_inv ?r'")
proof -
  have frames: "held ?r' = held r" "gather f ?r' = gather f r" "undone ?r' = undone r" "claim_ok ?r' = claim_ok r"
    "committer_ok ?r' = committer_ok r" for f
    by (simp_all add: held_def gather_def undone_def committer_ok_def check_due_def committing_def
        at_slot_def claim_ok_def fun_eq_iff)
  have "item_ok r x \<Longrightarrow> item_ok ?r' x" "run_ok r p \<Longrightarrow> run_ok ?r' p" "tracked_ok r t' s \<Longrightarrow> tracked_ok ?r' t' s"
    for x p t' s
    using item_ok_mono [of r x ?r'] run_ok_mono [of r p ?r'] tracked_mono [of r t' s ?r'] by auto
  with assms show ?thesis by (simp add: chain_inv_def frames)
qed

lemma new_range_tracked:
  assumes shape: "claim_shape cr t" "cr_messages cr \<noteq> []"
    and r: "t \<in> mr_tokens r" "length (mr_claims r t) = length (cr_messages cr)"
  shows "tracked_ok r t (new_range_state cr include)" "committer_ok r t (new_range_state cr include)"
proof -
  have ok: "range_ok (new_range_state cr include)"
    using shape(1) by (intro new_range_state_ok) (auto simp: claim_shape_def)
  have none: "outcome_at (new_range_state cr include) i = None" if "i < length (cr_messages cr)" for i
    using that by (simp add: outcome_at_def new_range_state_def new_result_def)
  show "tracked_ok r t (new_range_state cr include)"
    using ok none shape r by (auto simp: tracked_ok_def claim_shape_def) (auto simp: new_range_state_def)
  show "committer_ok r t (new_range_state cr include)"
    using shape(2) by (simp add: committer_ok_def range_resolved_def new_range_state_def)
qed

lemma chain_inv_claim:
  assumes inv: "chain_inv r" and offer: "mr_offer r = []" and fresh: "t \<notin> mr_tokens r"
    and shape: "claim_shape cr t" and order: "distinct order"
      "set order = chain_keys (claimed_items (message_config_resolve cfg) cr)"
  shows "chain_inv (adopt_claim cfg order cr r)"
proof -
  let ?items = "claimed_items (message_config_resolve cfg) cr"
  have t: "cl_token (cr_lease cr) = t" using shape by (simp add: claim_shape_def)
  show ?thesis
  proof (cases "cr_quarantined cr \<or> cr_messages cr = []")
    case True
    with inv fresh t chain_inv_direct [of r t] show ?thesis
      by (auto simp: adopt_claim_def Let_def add_claimed_def)
  next
    case False
    define r' where "r' = adopt_claim cfg order cr r"
    let ?s = "new_range_state cr (bf_include (mr_buffer r))"
    have frames: "mr_offer r' = enqueued order ?items" "mr_tokens r' = insert t (mr_tokens r)"
      "mr_claims r' = (mr_claims r)(t := ?items)" "mr_runs r' = mr_runs r" "mr_resolved r' = mr_resolved r"
      "mr_slots r' = mr_slots r" "mr_failed r' = mr_failed r" "bf_queue (mr_buffer r') = bf_queue (mr_buffer r)"
      "bf_ranges (mr_buffer r') = (bf_ranges (mr_buffer r))(t := Some ?s)"
      using False by (simp_all add: r'_def adopt_claim_def Let_def add_claimed_def track_def t new_range_state_def)
    have held: "held r' = set (enqueued order ?items) \<union> held r" by (auto simp: held_def frames offer)
    have gather: "mset (gather f r') = mset (map item_id ?items) + mset (gather f r)" for f
      using enqueued_ids [OF refl order] by (simp add: gather_def frames offer)
    have ids: "map item_id ?items = map (Pair t) [0..<length (cr_messages cr)]"
      by (simp add: claimed_items_nth comp_def item_id_def item_token_def t)
    have dist: "distinct (map item_id ?items)" by (simp add: ids distinct_map inj_on_def)
    have old: "fst p \<noteq> t" if "p \<in> set (live r) \<union> set (waiting r)" for p
      using gather_tokens [OF inv slot_live_chain, of p] gather_tokens [OF inv slot_waiting_chain, of p] that fresh
      by blast
    have runs: "fst p \<noteq> t" if "p \<in> set (mr_runs r)" for p
      using inv that fresh by (auto simp: chain_inv_def run_ok_def)
    have claims: "claim_ok r' t' \<and> (t' \<notin> mr_tokens r' \<longrightarrow> mr_claims r' t' = [])" for t'
      using inv t claimed_itemsD by (auto simp: chain_inv_def claim_ok_def frames)
    have held_ok: "item_ok r' x" if "x \<in> held r'" for x
    proof (cases "x \<in> held r")
      case True
      then have x: "item_ok r x" using inv by (simp add: chain_inv_def)
      then have "item_token x \<noteq> t" using fresh by (auto simp: item_ok_def)
      with x show ?thesis by (intro item_ok_mono [of r x r']) (auto simp: frames)
    next
      case False
      with that held have x: "x \<in> set (enqueued order ?items)" by auto
      note e = enqueued_held [OF refl x order(2)]
      show ?thesis
        using e t by (auto simp: item_ok_def frames split: if_splits intro!: exI [of _ "[]"])
    qed
    have live_d: "distinct (live r')"
    proof -
      have "distinct (map item_id ?items @ live r)"
        using dist inv old by (fastforce simp: chain_inv_def ids)
      then show ?thesis using gather [of slot_live] mset_eq_imp_distinct_iff
        by (metis mset_append)
    qed
    have run_d: "distinct (mr_runs r' @ waiting r')"
    proof -
      have "distinct (mr_runs r @ map item_id ?items @ waiting r)"
        using dist inv old runs by (fastforce simp: chain_inv_def ids)
      moreover have "mset (mr_runs r' @ waiting r') = mset (mr_runs r @ map item_id ?items @ waiting r)"
        using gather [of slot_waiting] by (simp add: frames)
      ultimately show ?thesis using mset_eq_imp_distinct_iff by blast
    qed
    have undone: "undone r' p" if p: "p \<in> set (live r')" for p
    proof (cases "p \<in> set (live r)")
      case True
      then have "undone r p" "fst p \<noteq> t" using inv old by (auto simp: chain_inv_def)
      then show ?thesis by (simp add: undone_def frames)
    next
      case False
      have "set (live r') = set (map item_id ?items) \<union> set (live r)"
        using gather [of slot_live] by (metis set_append mset_append mset_eq_setD)
      with p False obtain j where "p = (t, j)" "j < length (cr_messages cr)" by (auto simp: ids)
      then show ?thesis by (simp add: undone_def frames new_range_state_def new_result_def)
    qed
    have tracked: "tracked_ok r' t' s \<and> committer_ok r' t' s" if R: "bf_ranges (mr_buffer r') t' = Some s" for t' s
    proof (cases "t' = t")
      case True
      with R have "s = ?s" by (simp add: frames)
      then show ?thesis
        using new_range_tracked [OF shape, of r'] False True by (auto simp: frames)
    next
      case F: False
      with R have "tracked_ok r t' s" "committer_ok r t' s" using inv by (auto simp: chain_inv_def frames)
      then show ?thesis
        using tracked_mono [of r t' s r'] committer_same [of r t' s r'] F by (auto simp: frames)
    qed
    have "run_ok r' p" if "p \<in> set (mr_runs r')" for p
    proof -
      have "run_ok r p" "fst p \<noteq> t" using that inv runs by (auto simp: chain_inv_def frames)
      then show ?thesis using run_ok_mono [of r p r'] by (auto simp: frames)
    qed
    with claims held_ok live_d run_d undone tracked have "chain_inv r'" by (auto simp: chain_inv_def)
    then show ?thesis by (simp add: r'_def)
  qed
qed

section \<open>Every step\<close>

text \<open>A change of a tracked range that touches neither its results nor its counters.\<close>

lemma chain_inv_range:
  assumes inv: "chain_inv r"
    and f: "\<And>s. rs_ids (f s) = rs_ids s" "\<And>s. rs_results (f s) = rs_results s" "\<And>s. rs_lease (f s) = rs_lease s"
      "\<And>s. rs_committed (f s) = rs_committed s" "\<And>s. range_resolved (f s) = range_resolved s"
      "\<And>s. range_ok (f s) = range_ok s"
  shows "chain_inv (r\<lparr>mr_buffer := update_range t f (mr_buffer r)\<rparr>)" (is "chain_inv ?r'")
proof (rule chain_invI [OF inv])
  have R: "bf_ranges (update_range t f (mr_buffer r)) = (bf_ranges (mr_buffer r))(t := map_option f (bf_ranges (mr_buffer r) t))"
    by (simp add: update_range_def)
  have g: "gather h ?r' = gather h r" for h by (simp add: gather_def update_range_def)
  show "mset (live ?r') \<subseteq># mset (live r)" "mset (mr_runs ?r' @ waiting ?r') \<subseteq># mset (mr_runs r @ waiting r)"
    by (simp_all add: g)
  show "undone ?r' p" if "undone r p" for p
    using that by (cases "fst p = t") (auto simp: undone_def R f)
  show "tracked_ok ?r' t' s \<and> committer_ok ?r' t' s" if s: "bf_ranges (mr_buffer ?r') t' = Some s" for t' s
  proof -
    obtain s0 where s0: "bf_ranges (mr_buffer r) t' = Some s0" "s = s0 \<or> s = f s0"
      using s by (cases "t' = t") (auto simp: R)
    then have "tracked_ok r t' s0" "committer_ok r t' s0" using inv by (auto simp: chain_inv_def)
    then have "tracked_ok ?r' t' s0" "committer_ok ?r' t' s0"
      using tracked_mono [of r t' s0 ?r'] committer_same [of r t' s0 ?r'] by auto
    with s0(2) f show ?thesis by (auto simp: tracked_ok_def committer_ok_def outcome_at_def)
  qed
qed (auto simp: held_def update_range_def)

lemma chain_inv_next:
  assumes inv: "chain_inv r" and i: "i < length (mr_slots r)" "mr_slots r ! i = None"
    and nx: "wait_for_next (mr_buffer r) = Some (x, b')"
  shows "chain_inv (put_slot i (Some (x, Start)) (r\<lparr>mr_buffer := b'\<rparr>))"
proof -
  obtain xs where q: "bf_queue (mr_buffer r) = x # xs"
    "b' = update_range (item_token x) (\<lambda>s. s\<lparr>rs_dispatched := rs_dispatched s + 1\<rparr>) ((mr_buffer r)\<lparr>bf_queue := xs\<rparr>)"
    using nx by (auto split: list.splits)
  define r1 where "r1 = put_slot i (Some (x, Start)) (r\<lparr>mr_buffer := (mr_buffer r)\<lparr>bf_queue := xs\<rparr>\<rparr>)"
  have "chain_inv r1"
  proof (rule chain_invI [OF inv])
    have at: "at_slot r1 j z ph \<longleftrightarrow> (if j = i then (z, ph) = (x, Start) else at_slot r j z ph)" for j z ph
      using i by (auto simp: r1_def at_slot_def)
    have g: "mset (gather f r1) = mset (gather f r)" if "f None = []" "f (Some (x, Start)) = chain x" for f
    proof -
      let ?r0 = "r\<lparr>mr_buffer := (mr_buffer r)\<lparr>bf_queue := xs\<rparr>\<rparr>"
      let ?f = "\<lambda>z. map item_id (f z)"
      have "mset (concat (map ?f ((mr_slots r)[i := Some (x, Start)])))
          = mset (concat (map ?f (mr_slots r))) + mset (map item_id (chain x))"
        using mset_concat_update [OF i(1), of ?f "Some (x, Start)"] i(2) that by simp
      then show ?thesis by (simp add: gather_def r1_def q(1) map_concat comp_def ac_simps)
    qed
    show "mset (live r1) \<subseteq># mset (live r)" by (simp add: g)
    have "mr_runs r1 = mr_runs r" by (simp add: r1_def)
    then show "mset (mr_runs r1 @ waiting r1) \<subseteq># mset (mr_runs r @ waiting r)" by (simp add: g)
    show "z \<in> held r \<or> item_ok r1 z" if "z \<in> held r1" for z
      using held_put [OF that [unfolded r1_def]] by (auto simp: held_def q(1))
    show "undone r1 p" if "undone r p" for p using that by (simp add: undone_def r1_def)
    show "tracked_ok r1 t s \<and> committer_ok r1 t s" if s: "bf_ranges (mr_buffer r1) t = Some s" for t s
    proof -
      have "tracked_ok r t s" "committer_ok r t s" using inv s by (auto simp: chain_inv_def r1_def)
      moreover have "check_due r t \<Longrightarrow> check_due r1 t" "committing r t \<Longrightarrow> committing r1 t"
        unfolding check_due_def committing_def using i by (metis at at_slot_def option.distinct(1))+
      moreover have "mr_failed r1 = mr_failed r" by (simp add: r1_def)
      ultimately show ?thesis
        using tracked_mono [of r t s r1] by (auto simp: committer_ok_def r1_def)
    qed
  qed (auto simp: r1_def)
  then have "chain_inv (r1\<lparr>mr_buffer := update_range (item_token x)
      (\<lambda>s. s\<lparr>rs_dispatched := rs_dispatched s + 1\<rparr>) (mr_buffer r1)\<rparr>)"
    by (rule chain_inv_range) (auto simp: range_resolved_def)
  then show ?thesis by (cases r) (simp add: q(2) r1_def put_slot_def)
qed

lemma chain_inv_snapshot:
  assumes inv: "chain_inv r" and at: "at_slot r i x (Check final)"
    and sn: "try_get_range_snapshot (item_token x) (mr_buffer r) = (Inr snap, b')"
  shows "chain_inv (put_slot i (Some (x, Committing snap final)) (r\<lparr>mr_buffer := b'\<rparr>))" (is "chain_inv ?r'")
proof (rule chain_invI [OF inv])
  let ?t = "item_token x" and ?r1 = "r\<lparr>mr_buffer := b'\<rparr>"
  from sn obtain s0 where s0: "bf_ranges (mr_buffer r) ?t = Some s0"
    "snap = \<lparr>sp_lease = rs_lease s0, sp_outcomes = resolved_outcomes s0\<rparr>" "range_resolved s0" "\<not> rs_committed s0"
    "b' = (mr_buffer r)\<lparr>bf_ranges := (bf_ranges (mr_buffer r))(?t := Some (s0\<lparr>rs_committed := True\<rparr>))\<rparr>"
    by (rule snapshot_new)
  have tr0: "tracked_ok r ?t s0" using inv s0(1) by (simp add: chain_inv_def)
  have g: "gather f ?r1 = gather f r" for f by (simp add: gather_def s0(5))
  have atr: "at_slot ?r1 j z ph = at_slot r j z ph" for j z ph by (simp add: at_slot_def)
  have l: "i < length (mr_slots ?r1)" using at by simp
  show "mset (live ?r') \<subseteq># mset (live r)"
    using gather_put_sub [of i ?r1 slot_live "Some (x, Committing snap final)"] at by (simp add: g)
  show "mset (mr_runs ?r' @ waiting ?r') \<subseteq># mset (mr_runs r @ waiting r)"
    using gather_put_sub [of i ?r1 slot_waiting "Some (x, Committing snap final)"] at by (simp add: g)
  show "z \<in> held r \<or> item_ok ?r' z" if "z \<in> held ?r'" for z
    using held_put [OF that] at_slot_held [OF at] by (auto simp: held_def s0(5))
  show "undone ?r' p" if "undone r p" for p
    using that s0(1) by (auto simp: undone_def s0(5))
  show "tracked_ok ?r' t s \<and> committer_ok ?r' t s" if s: "bf_ranges (mr_buffer ?r') t = Some s" for t s
  proof (cases "t = ?t")
    case True
    with s have s': "s = s0\<lparr>rs_committed := True\<rparr>" by (simp add: s0(5))
    have "committing ?r' t"
      using l tr0 True by (auto simp: committing_def at_put_slot s0(2) tracked_ok_def intro!: exI [of _ i])
    moreover have "tracked_ok ?r' t s"
      using tr0 s0(3) True by (auto simp: tracked_ok_def s' outcome_at_def range_resolved_def)
    ultimately show ?thesis by (simp add: committer_ok_def s')
  next
    case False
    with s have "bf_ranges (mr_buffer r) t = Some s" by (simp add: s0(5))
    then have "tracked_ok r t s" "committer_ok r t s" using inv by (auto simp: chain_inv_def)
    then have "tracked_ok ?r1 t s" "committer_ok ?r1 t s"
      using tracked_mono [of r t s ?r1] committer_same [of r t s ?r1] by auto
    then show ?thesis
      using committer_put [of ?r1 t s i x "Check final" "Some (x, Committing snap final)"] at False
      by (simp add: atr)
  qed
qed simp_all

lemma chain_inv_after_commit:
  assumes "chain_inv r"
  shows "chain_inv (after_commit t res r)" "chain_inv (r\<lparr>mr_failed := insert t (mr_failed r)\<rparr>)"
proof -
  have frames: "held r' = held r" "gather f r' = gather f r" "claim_ok r' = claim_ok r" "item_ok r' = item_ok r"
    "run_ok r' = run_ok r" "check_due r' = check_due r" "committing r' = committing r"
    if "mr_offer r' = mr_offer r" "bf_queue (mr_buffer r') = bf_queue (mr_buffer r)" "mr_slots r' = mr_slots r"
      "mr_claims r' = mr_claims r" "mr_tokens r' = mr_tokens r" "mr_resolved r' = mr_resolved r" for f r'
    using that by (simp_all add: held_def gather_def claim_ok_def item_ok_def run_ok_def settled_well_def
        check_due_def committing_def at_slot_def fun_eq_iff)
  show f: "chain_inv (r\<lparr>mr_failed := insert t (mr_failed r)\<rparr>)"
    using assms frames [of "r\<lparr>mr_failed := insert t (mr_failed r)\<rparr>"]
    by (simp add: chain_inv_def undone_def tracked_ok_def committer_ok_def) metis
  have "chain_inv (r\<lparr>mr_buffer := remove_range t (mr_buffer r)\<rparr>)"
    using assms frames [of "r\<lparr>mr_buffer := remove_range t (mr_buffer r)\<rparr>"]
    by (auto simp: chain_inv_def undone_def tracked_ok_def committer_ok_def remove_range_def)
  with f show "chain_inv (after_commit t res r)" by (simp add: after_commit_def)
qed

lemma next_item_ok:
  assumes inv: "chain_inv r" and x: "item_ok r x" and nx: "it_next x = Some y"
    and out: "buffer_outcome (mr_buffer r) x = Some kind" "kind = Kind_Success \<or> kind = Kind_Terminal"
  shows "item_ok r y"
proof -
  let ?t = "item_token x"
  have cl: "claim_ok r ?t" using inv by (simp add: chain_inv_def)
  have ch: "chain x = x # chain y" using nx by (simp add: chain_Cons [of x])
  have "chained x" using x nx by (auto simp: item_ok_def split: if_splits)
  then obtain pre where pre: "map core (chain_of (ml_key (it_row x)) (mr_claims r ?t)) = map core pre @ map core (chain x)"
    "\<forall>z \<in> set pre. settled_well r ?t (it_index z)"
    using x by (auto simp: item_ok_def)
  obtain s where s: "bf_ranges (mr_buffer r) ?t = Some s" "outcome_at s (it_index x) = Some kind"
    using out(1) by (auto simp: buffer_outcome_def split: option.splits)
  then have tr: "tracked_ok r ?t s" using inv by (simp add: chain_inv_def)
  have "x \<in> set (chain x)" "y \<in> set (chain x)" using ch chain_head [of y] by (metis list.set_intros)+
  note cx = item_ok_chain [OF x cl this(1)] and cy = item_ok_chain [OF x cl this(2)]
  have "(?t, it_index x, kind) \<in> set (mr_resolved r)"
    using tr s(2) cx(3) by (auto simp: tracked_ok_def)
  then have sx: "settled_well r ?t (it_index x)" using out(2) by (auto simp: settled_well_def)
  have "core y \<in> set (map core (chain_of (ml_key (it_row x)) (mr_claims r ?t)))"
    using \<open>y \<in> set (chain x)\<close> by (simp only: pre(1)) simp
  then obtain z where z: "z \<in> set (chain_of (ml_key (it_row x)) (mr_claims r ?t))" "core y = core z" by auto
  then have "chained y" "ml_key (it_row y) = ml_key (it_row x)"
    using core_eqD(2,3) [OF z(2)] by (auto simp: chain_of_def)
  moreover have "map core (chain_of (ml_key (it_row x)) (mr_claims r ?t)) = map core (pre @ [x]) @ map core (chain y)"
    using pre(1) ch by simp
  moreover have "\<forall>z \<in> set (pre @ [x]). settled_well r ?t (it_index z)" using pre(2) sx by simp
  ultimately have "\<exists>pre. map core (chain_of (ml_key (it_row y)) (mr_claims r (item_token y)))
      = map core pre @ map core (chain y) \<and> (\<forall>z \<in> set pre. settled_well r (item_token y) (it_index z))"
    using cy(2) by (metis)
  with \<open>chained y\<close> cy x show ?thesis by (simp add: item_ok_def)
qed

lemma runner_step_chain:
  assumes step: "runner_step v r r'" and inv: "chain_inv r" and w: "window_inv (mr_db r) (rv_group v)"
  shows "chain_inv r'"
  using step
proof cases
  case (run_other f')
  then show ?thesis using chain_inv_frame [OF inv, of r'] by simp
next
  case (run_claim tok cfg timed_out free snap picked xmin now cr db' order)
  have shape: "claim_shape cr tok"
    using claim_frontier(3) [OF run_claim(7) [unfolded claim_range_def] w refl] by simp
  have "chain_inv (settle_db db' (rv_group v) r)" by (rule chain_inv_frame [OF inv]) simp_all
  from chain_inv_claim [OF this _ _ shape run_claim(8,9)] run_claim show ?thesis by simp
next
  case (run_no_claim tok cfg free snap picked xmin now res db')
  then show ?thesis using chain_inv_frame [OF inv, of r'] by simp
next
  case (run_direct snap backoff now res db')
  then show ?thesis using chain_inv_frame [OF inv, of r'] by simp
next
  case (run_direct_fails snap)
  then show ?thesis using chain_inv_frame [OF inv, of r'] by simp
next
  case (run_enqueue x xs)
  have g: "mset (gather f r') = mset (gather f r)" for f
    using run_enqueue(1,2) by (simp add: gather_def enqueue_def ac_simps)
  have same: "mr_slots r' = mr_slots r" "mr_failed r' = mr_failed r" "mr_runs r' = mr_runs r"
    "mr_tokens r' = mr_tokens r" "mr_claims r' = mr_claims r" "mr_resolved r' = mr_resolved r"
    "bf_ranges (mr_buffer r') = bf_ranges (mr_buffer r)"
    by (simp_all add: run_enqueue(1) enqueue_def)
  show ?thesis
  proof (rule chain_invI [OF inv])
    show "mset (live r') \<subseteq># mset (live r)" by (simp add: g)
    show "mset (mr_runs r' @ waiting r') \<subseteq># mset (mr_runs r @ waiting r)" by (simp add: g same)
    show "x \<in> held r \<or> item_ok r' x" if "x \<in> held r'" for x
      using that by (auto simp: held_def run_enqueue(1,2) enqueue_def)
    show "tracked_ok r' t s \<and> committer_ok r' t s" if "bf_ranges (mr_buffer r') t = Some s" for t s
      using that inv tracked_mono [of r t s r'] committer_same [of r t s r'] by (simp add: same chain_inv_def)
    show "undone r' p" if "undone r p" for p using that by (simp add: undone_def same)
  qed (simp_all add: same)
next
  case (run_dispatch i x b')
  show ?thesis unfolding run_dispatch(1) by (rule chain_inv_next [OF inv run_dispatch(3-5)])
next
  case (run_stale i x now)
  let ?r1 = "r\<lparr>mr_buffer := mark_stale (item_token x) (mr_buffer r)\<rparr>"
  have "chain_inv ?r1"
    unfolding mark_stale_def by (rule chain_inv_range [OF inv]) (auto simp: range_resolved_def)
  then show ?thesis
    unfolding run_stale(1) using run_stale(2)
    by (intro chain_inv_put [of ?r1 i x Start]) (auto simp: at_slot_def)
next
  case (run_keyless i x now)
  show ?thesis
    using chain_inv_run [OF inv run_keyless(2), of None] by (simp add: run_keyless(1) item_id_def)
next
  case (run_key i x now between tok now' kc db')
  have "chain_inv (put_slot i (Some (x, Handler (Some kc))) (r\<lparr>mr_runs := item_id x # mr_runs r\<rparr>))"
    by (rule chain_inv_run [OF inv run_key(2)])
  then show ?thesis unfolding run_key(1) by (rule chain_inv_frame) (simp_all add: item_id_def)
next
  case (run_key_refused i x now between tok now' res db' kind err)
  have "chain_inv (put_slot i (Some (x, Check False)) (resolve_item x kind err 0 r))"
    by (rule chain_inv_resolve [OF inv run_key_refused(2)]) (simp_all, subst chain_head, simp)
  then show ?thesis unfolding run_key_refused(1) by (rule chain_inv_frame) simp_all
next
  case (run_key_error i x now err)
  show ?thesis
    unfolding run_key_error(1)
    by (rule chain_inv_resolve [OF inv run_key_error(2)]) (simp_all, subst chain_head, simp)
next
  case (run_handler i x kco run kind err delay)
  show ?thesis
    unfolding run_handler(1) by (rule chain_inv_resolve [OF inv run_handler(2)]) simp_all
next
  case (run_release i x kco db')
  have "chain_inv (put_slot i (Some (x, Check False)) r)"
    by (rule chain_inv_put [OF inv run_release(2)]) simp_all
  then show ?thesis unfolding run_release(1) by (rule chain_inv_frame) simp_all
next
  case (run_check i x final e b')
  have "rs_committed s" if "bf_ranges (mr_buffer r) (item_token x) = Some s" "range_resolved s" for s
    using run_check(3) that
    by (auto simp: is_range_resolved_def try_get_range_snapshot_def try_get_snapshot_def split: if_splits)
  then show ?thesis
    unfolding run_check(1)
    by (intro chain_inv_put [OF inv run_check(2)]) (auto simp: after_check_def split: if_splits)
next
  case (run_snapshot i x final snap b')
  show ?thesis
    unfolding run_snapshot(1) by (rule chain_inv_snapshot [OF inv run_snapshot(2,4)])
next
  case (run_commit i x snap final backoff now res db')
  let ?r1 = "after_commit (cl_token (sp_lease snap)) res r"
  have at: "at_slot ?r1 i x (Committing snap final)"
    using run_commit(2) by (simp add: at_slot_def after_commit_def)
  have "chain_inv (put_slot i (after_check x final) ?r1)"
    by (rule chain_inv_put [OF chain_inv_after_commit(1) [OF inv] at])
      (auto simp: after_check_def after_commit_def remove_range_def split: if_splits)
  then show ?thesis unfolding run_commit(1) by (rule chain_inv_frame) simp_all
next
  case (run_commit_unknown i x snap final db' backoff now res)
  let ?r1 = "r\<lparr>mr_failed := insert (cl_token (sp_lease snap)) (mr_failed r)\<rparr>"
  have at: "at_slot ?r1 i x (Committing snap final)"
    using run_commit_unknown(2) by (simp add: at_slot_def)
  have "chain_inv (put_slot i (after_check x final) ?r1)"
    by (rule chain_inv_put [OF chain_inv_after_commit(2) [OF inv] at])
      (auto simp: after_check_def split: if_splits)
  then show ?thesis unfolding run_commit_unknown(1) by (rule chain_inv_frame) simp_all
next
  case (run_chain_ends i x)
  show ?thesis
    unfolding run_chain_ends(1) by (rule chain_inv_put [OF inv run_chain_ends(2)]) simp_all
next
  case (run_chain_breaks i x kind)
  show ?thesis unfolding run_chain_breaks(1) by (rule chain_inv_break [OF inv run_chain_breaks(2)])
next
  case (run_chain_goes_on i x kind)
  have x: "item_ok r x" using inv at_slot_held [OF run_chain_goes_on(2)] by (simp add: chain_inv_def)
  have live: "slot_live (map_option (\<lambda>y. (y, Start)) (it_next x)) = tl (chain x)"
    "slot_waiting (map_option (\<lambda>y. (y, Start)) (it_next x)) = tl (chain x)"
    by (simp_all add: chain_tl split: option.splits)
  show ?thesis
    unfolding run_chain_goes_on(1)
  proof (rule chain_inv_put [OF inv run_chain_goes_on(2)])
    show "z = x \<or> item_ok r z" if "map_option (\<lambda>y. (y, Start)) (it_next x) = Some (z, ph')" for z ph'
      using that next_item_ok [OF inv x _ run_chain_goes_on(3,4)] by auto
  qed (simp_all add: live)
next
  case run_stop
  have R: "bf_ranges (mr_buffer r') = bf_ranges (mr_buffer r)" "mr_slots r' = mr_slots r"
    "mr_failed r' = mr_failed r" "mr_tokens r' = mr_tokens r" "mr_claims r' = mr_claims r"
    "mr_resolved r' = mr_resolved r"
    by (simp_all add: run_stop(1))
  show ?thesis
  proof (rule chain_invI [OF inv])
    show "mset (live r') \<subseteq># mset (live r)" "mset (mr_runs r' @ waiting r') \<subseteq># mset (mr_runs r @ waiting r)"
      by (simp_all add: gather_def run_stop(1))
    show "tracked_ok r' t s \<and> committer_ok r' t s" if "bf_ranges (mr_buffer r') t = Some s" for t s
      using that inv tracked_mono [of r t s r'] committer_same [of r t s r'] by (simp add: R chain_inv_def)
    show "x \<in> held r \<or> item_ok r' x" if "x \<in> held r'" for x using that by (auto simp: held_def run_stop(1))
    show "undone r' p" if "undone r p" for p using that by (simp add: undone_def R)
  qed (simp_all add: run_stop(1))
next
  case (run_take states)
  show ?thesis
  proof (rule chain_invI [OF inv])
    show "mset (live r') \<subseteq># mset (live r)" "mset (mr_runs r' @ waiting r') \<subseteq># mset (mr_runs r @ waiting r)"
      by (simp_all add: gather_def run_take(1) remove_all_def)
    show "x \<in> held r \<or> item_ok r' x" if "x \<in> held r'" for x
      using that by (auto simp: held_def run_take(1) remove_all_def)
    show "undone r' p" for p by (simp add: undone_def run_take(1) remove_all_def)
  qed (simp_all add: run_take(1) remove_all_def)
next
  case (run_close s states tok backoff now res db')
  then show ?thesis using chain_inv_frame [OF inv, of r'] by simp
next
  case (run_close_fails s states)
  then show ?thesis using chain_inv_frame [OF inv, of r'] by simp
qed

lemma runner_start_chain:
  assumes "runner_start v start r" "\<And>t. mr_claims r t = []"
  shows "chain_inv r"
proof -
  have none: "\<forall>y \<in> set (mr_slots r). y = None" using assms(1) by (auto simp: runner_start_def)
  then have "concat (map slot_live (mr_slots r)) = []" "concat (map slot_waiting (mr_slots r)) = []"
    by (auto simp del: slot_waiting.simps) (metis slot_waiting.simps(2) slot_live.simps(1))
  moreover have "gather f r = []" if "concat (map f (mr_slots r)) = []" for f
    using assms(1) that by (auto simp: gather_def runner_start_def new_claim_buffer_def)
  ultimately have "live r = []" "waiting r = []" by blast+
  with none show ?thesis
    using assms by (auto simp: chain_inv_def runner_start_def claim_ok_def held_def new_claim_buffer_def)
qed

end
