(* ===== verification/Runner_Properties.thy ===== *)
theory Runner_Properties
  imports Runner_Order Frontier_Demo
begin

text \<open>
  What the message consumer guarantees, and one concrete run of it: a consumer claims two ordered
  messages of one key, runs the first, and starts the second under the same permit.
\<close>

lemma runner_reachable_chain:
  assumes "runner_reachable v start r"
  shows "chain_inv r"
proof -
  obtain r0 where r0: "runner_start v start r0" "(runner_step v)\<^sup>*\<^sup>* r0 r"
    using assms by (auto simp: runner_reachable_def)
  from r0(2) show ?thesis
  proof (induction rule: rtranclp_induct)
    case base
    show ?case using runner_start_chain [OF r0(1)] r0(1) by (simp add: runner_start_def)
  next
    case (step r1 r2)
    have "runner_reachable v start r1" using r0(1) step.hyps(1) by (auto simp: runner_reachable_def)
    then have "window_inv (mr_db r1) (rv_group v)"
      using runner_reachable_inv [of v start r1] reachable_inv [of "rv_group v" start "mr_frontier r1"]
      by (auto simp: frontier_inv_def)
    from runner_step_chain [OF step.hyps(2) step.IH this] show ?case .
  qed
qed

section \<open>A run\<close>

definition demo_env :: runner_env where
  "demo_env = \<lparr>rv_stream = 1, rv_group = 1, rv_schema = 1, rv_mode = Mode_Failures, rv_grace = 1,
     rv_margin = 1, rv_regex = (\<lambda>_ _. True), rv_decode = (\<lambda>_. None), rv_show = (\<lambda>_. ''failed''),
     rv_show_db = (\<lambda>_. ''database'')\<rparr>"

definition demo_options :: message_options where
  "demo_options = \<lparr>mo_concurrency = Ordered, mo_timeout = 5, mo_retry = None, mo_scheduled_at = None\<rparr>"

definition demo_cfg :: message_consumer_config where
  "demo_cfg = \<lparr>batch_limit = 2, queue_size = 4, message_concurrency = 1, max_range_reclaims = 3,
     claim_poll_rate = 1, queue_margin = 1, record_margin = 1, timeout_grace = 1,
     slow_dispatch_threshold = 0, exception_initial_backoff = 5, instance_ttl = 30,
     config_refresh_interval = 30, shutdown_timeout = 0, cfg_message = Some demo_options,
     cfg_message_min = None, cfg_message_max = Some demo_options,
     cfg_concurrency_override = Policy_Unset\<rparr>"

definition demo_lease :: claim_lease_row where
  "demo_lease = \<lparr>cl_group = 1, cl_token = 7, cl_low = 0, cl_high = 2, cl_expires = 108, cl_reclaims = 0\<rparr>"

definition demo_range :: claimed_range where
  "demo_range = \<lparr>cr_lease = demo_lease, cr_messages = map to_message_log_row [demo_message 1, demo_message 2],
     cr_quarantined = False\<rparr>"

definition demo_items :: "buffered list" where
  "demo_items = claimed_items (message_config_resolve demo_cfg) demo_range"

definition demo_second :: buffered where "demo_second = demo_items ! 1"

definition demo_first :: buffered where
  "demo_first = Buffered (to_message_log_row (demo_message 1)) demo_lease 0
     (message_config_resolve demo_cfg None) (Some demo_second)"

definition demo_key :: "uuid \<Rightarrow> key_claim" where
  "demo_key t = \<lparr>kc_verdict = Key_Acquired, kc_group = 1, kc_key = ''k'', kc_token = Some t\<rparr>"

text \<open>The tables after the claim, the first key claim, its release and the second key claim.\<close>

definition demo_d1 :: stream_db where
  "demo_d1 = snd (claim_range demo_env demo_cfg 4 demo_snapshot None 5 100 7 demo_db)"

definition demo_d2 :: stream_db where
  "demo_d2 = snd (claim_item_key id demo_d1 1 1 demo_first 1 1 50 100)"

definition demo_d3 :: stream_db where
  "demo_d3 = snd (release_key_checked demo_d2 1 (Some (demo_key 50)))"

definition demo_d4 :: stream_db where
  "demo_d4 = snd (claim_item_key id demo_d3 1 1 demo_second 1 1 51 101)"

lemma demo_claim: "claim_range demo_env demo_cfg 4 demo_snapshot None 5 100 7 demo_db
    = (Inr (Some demo_range), demo_d1)"
  by code_simp

lemma demo_keys:
  "claim_item_key id demo_d1 1 1 demo_first 1 1 50 100 = (Inr (demo_key 50), demo_d2)"
  "claim_item_key id demo_d3 1 1 demo_second 1 1 51 101 = (Inr (demo_key 51), demo_d4)"
  by code_simp+

text \<open>The claim buffer: the range tracked, its chain offered, dispatched, and the first resolved.\<close>

definition demo_b1 :: claim_buffer where
  "demo_b1 = snd (add_claimed demo_range (message_config_resolve demo_cfg) [''k''] (new_claim_buffer 4 False))"

definition demo_b2 :: claim_buffer where "demo_b2 = enqueue demo_first demo_b1"

definition demo_b3 :: claim_buffer where "demo_b3 = snd (the (wait_for_next demo_b2))"

definition demo_b4 :: claim_buffer where "demo_b4 = buffer_resolve demo_first Kind_Success '''' 0 demo_b3"

lemma demo_buffer:
  "fst (add_claimed demo_range (message_config_resolve demo_cfg) [''k''] (new_claim_buffer 4 False))
     = Some [demo_first]"
  "wait_for_room (new_claim_buffer 4 False) (nat (batch_limit demo_cfg)) False = Some 4"
  "0 < room demo_b1" "fst (the (wait_for_next demo_b2)) = demo_first"
  "\<not> is_range_resolved demo_b4 7" "buffer_outcome demo_b4 demo_first = Some Kind_Success"
  "item_token demo_first = 7" "item_token demo_second = 7" "it_index demo_first = 0"
  "it_index demo_second = 1" "it_next demo_first = Some demo_second"
  "chain_keys demo_items = {''k''}"
  by code_simp+

definition demo_b5 :: claim_buffer where "demo_b5 = buffer_resolve demo_second Kind_Success '''' 0 demo_b4"

definition demo_r0 :: message_runner where
  "demo_r0 = \<lparr>mr_frontier = demo_start, mr_buffer = new_claim_buffer 4 False, mr_offer = [],
     mr_direct = None, mr_slots = [None], mr_stopped = False, mr_taken = False, mr_open = [],
     mr_tokens = {}, mr_claims = (\<lambda>_. []), mr_runs = [], mr_resolved = [], mr_failed = {}\<rparr>"

definition demo_r1 :: message_runner where
  "demo_r1 = adopt_claim demo_cfg [''k''] demo_range (settle_db demo_d1 1 demo_r0)"

definition demo_r2 :: message_runner where
  "demo_r2 = demo_r1\<lparr>mr_offer := [], mr_buffer := enqueue demo_first (mr_buffer demo_r1)\<rparr>"

definition demo_r3 :: message_runner where
  "demo_r3 = put_slot 0 (Some (demo_first, Start)) (demo_r2\<lparr>mr_buffer := demo_b3\<rparr>)"

definition demo_r4 :: message_runner where
  "demo_r4 = settle_db demo_d2 1 (put_slot 0 (Some (demo_first, Handler (Some (demo_key 50))))
     (demo_r3\<lparr>mr_runs := (7, 0) # mr_runs demo_r3\<rparr>))"

definition demo_r5 :: message_runner where
  "demo_r5 = put_slot 0 (Some (demo_first, Release (Some (demo_key 50))))
     (resolve_item demo_first Kind_Success '''' 0 demo_r4)"

definition demo_r6 :: message_runner where
  "demo_r6 = settle_db demo_d3 1 (put_slot 0 (Some (demo_first, Check False)) demo_r5)"

definition demo_r7 :: message_runner where
  "demo_r7 = put_slot 0 (Some (demo_first, Chain)) demo_r6"

definition demo_r8 :: message_runner where
  "demo_r8 = put_slot 0 (Some (demo_second, Start)) demo_r7"

definition demo_r9 :: message_runner where
  "demo_r9 = settle_db demo_d4 1 (put_slot 0 (Some (demo_second, Handler (Some (demo_key 51))))
     (demo_r8\<lparr>mr_runs := (7, 1) # mr_runs demo_r8\<rparr>))"

definition demo_r10 :: message_runner where
  "demo_r10 = put_slot 0 (Some (demo_second, Release (Some (demo_key 51))))
     (resolve_item demo_second Kind_Success '''' 0 demo_r9)"

lemma demo_adopted:
  "demo_r1 = (settle_db demo_d1 1 demo_r0)\<lparr>mr_buffer := demo_b1, mr_offer := [demo_first],
     mr_tokens := {7}, mr_claims := (\<lambda>_. [])(7 := demo_items)\<rparr>"
proof -
  have "add_claimed demo_range (message_config_resolve demo_cfg) [''k''] (new_claim_buffer 4 False)
      = (Some [demo_first], demo_b1)"
    using demo_buffer(1) by (metis demo_b1_def prod.collapse)
  moreover have "cl_token (cr_lease demo_range) = 7" "\<not> cr_quarantined demo_range"
    by (simp_all add: demo_range_def demo_lease_def)
  ultimately show ?thesis
    by (simp add: demo_r1_def adopt_claim_def demo_r0_def demo_items_def Let_def)
qed

lemma demo_next: "wait_for_next demo_b2 = Some (demo_first, demo_b3)"
proof -
  have "wait_for_next demo_b2 \<noteq> None" by code_simp
  then show ?thesis using demo_buffer(4) unfolding demo_b3_def by (metis option.exhaust_sel prod.collapse)
qed

lemmas demo_runners = demo_r0_def demo_adopted demo_r2_def demo_r3_def demo_r4_def demo_r5_def
  demo_r6_def demo_r7_def demo_r8_def demo_r9_def demo_r10_def

lemma demo_dbs [simp]:
  "mr_db demo_r0 = demo_db" "mr_db demo_r3 = demo_d1" "mr_db demo_r5 = demo_d2" "mr_db demo_r8 = demo_d3"
  by (simp_all add: demo_runners demo_start_def resolve_item_def)

lemma demo_buffers [simp]:
  "mr_buffer demo_r0 = new_claim_buffer 4 False" "mr_buffer demo_r1 = demo_b1" "mr_buffer demo_r2 = demo_b2"
  "mr_buffer demo_r6 = demo_b4" "mr_buffer demo_r7 = demo_b4" "mr_buffer demo_r10 = demo_b5"
  by (simp_all add: demo_runners resolve_item_def demo_b2_def demo_b4_def demo_b5_def)

lemma demo_slots [simp]:
  "mr_slots demo_r2 = [None]" "mr_slots demo_r3 = [Some (demo_first, Start)]"
  "mr_slots demo_r4 = [Some (demo_first, Handler (Some (demo_key 50)))]"
  "mr_slots demo_r5 = [Some (demo_first, Release (Some (demo_key 50)))]"
  "mr_slots demo_r6 = [Some (demo_first, Check False)]" "mr_slots demo_r7 = [Some (demo_first, Chain)]"
  "mr_slots demo_r8 = [Some (demo_second, Start)]"
  "mr_slots demo_r9 = [Some (demo_second, Handler (Some (demo_key 51)))]"
  by (simp_all add: demo_runners resolve_item_def)

lemma demo_going: "\<not> mr_stopped demo_r2" "length (mr_slots demo_r2) = 1"
  by (simp_all add: demo_r2_def demo_adopted demo_r0_def)

lemma demo_env_simps [simp]:
  "rv_stream demo_env = 1" "rv_group demo_env = 1" "rv_grace demo_env = 1" "rv_margin demo_env = 1"
  "rv_mode demo_env = Mode_Failures"
  by (simp_all add: demo_env_def)

lemma demo_ready:
  "covered demo_first 1 1 100" "wants_key demo_first" "covered demo_second 1 1 101" "wants_key demo_second"
  "key_resolution (rv_show_db demo_env) (Inr (demo_key 50)) = None"
  "key_resolution (rv_show_db demo_env) (Inr (demo_key 51)) = None"
  "handler_resolution (rv_decode demo_env) (rv_show demo_env) (Returned None 1) 1 demo_first
     = (Kind_Success, '''', 0)"
  "handler_resolution (rv_decode demo_env) (rv_show demo_env) (Returned None 1) 1 demo_second
     = (Kind_Success, '''', 0)"
  by code_simp+

lemma demo_runner_start: "runner_start demo_env 0 demo_r0"
  by (auto simp: runner_start_def demo_r0_def demo_reachable0)

lemma demo_run_claim: "runner_step demo_env demo_r0 demo_r1"
proof -
  have d: "claim_range demo_env demo_cfg 4 demo_snapshot None 5 100 7 (mr_db demo_r0) = (Inr (Some demo_range), demo_d1)"
    using demo_claim by simp
  have "runner_step demo_env demo_r0
      (adopt_claim demo_cfg [''k''] demo_range (settle_db demo_d1 (rv_group demo_env) demo_r0))"
    by (rule run_claim [OF _ _ _ _ _ d]) (use demo_buffer in \<open>simp_all add: demo_r0_def demo_items_def\<close>)
  then show ?thesis by (simp add: demo_r1_def)
qed

lemma demo_run_enqueue: "runner_step demo_env demo_r1 demo_r2"
  unfolding demo_r2_def
  by (rule run_enqueue) (use demo_buffer in \<open>simp_all add: demo_adopted\<close>)

lemma demo_run_dispatch: "runner_step demo_env demo_r2 demo_r3"
  unfolding demo_r3_def
  by (rule run_dispatch [OF _ _ _ demo_next [folded demo_buffers(3)]]) (simp_all add: demo_going)

lemma demo_run_key: "runner_step demo_env demo_r3 demo_r4"
proof -
  have d: "claim_item_key id (mr_db demo_r3) (rv_stream demo_env) (rv_group demo_env) demo_first
      (rv_grace demo_env) (rv_margin demo_env) 50 100 = (Inr (demo_key 50), demo_d2)"
    using demo_keys by simp
  have "runner_step demo_env demo_r3 (settle_db demo_d2 (rv_group demo_env)
      (put_slot 0 (Some (demo_first, Handler (Some (demo_key 50))))
       (demo_r3\<lparr>mr_runs := (item_token demo_first, it_index demo_first) # mr_runs demo_r3\<rparr>)))"
    by (rule run_key [OF _ _ _ _ _ d])
      (use demo_ready in \<open>simp_all add: at_slot_def, simp add: demo_runners\<close>)
  then show ?thesis using demo_buffer by (simp add: demo_r4_def)
qed

lemma demo_run_handler: "runner_step demo_env demo_r4 demo_r5"
  unfolding demo_r5_def by (rule run_handler) (use demo_ready in \<open>simp_all add: at_slot_def\<close>)

lemma demo_run_release: "runner_step demo_env demo_r5 demo_r6"
proof -
  have "runner_step demo_env demo_r5 (settle_db demo_d3 (rv_group demo_env)
      (put_slot 0 (Some (demo_first, Check False)) demo_r5))"
    by (rule run_release [where kco = "Some (demo_key 50)"]) (simp_all add: at_slot_def demo_d3_def)
  then show ?thesis by (simp add: demo_r6_def)
qed

lemma demo_run_check: "runner_step demo_env demo_r6 demo_r7"
proof -
  have "runner_step demo_env demo_r6 (put_slot 0 (after_check demo_first False) demo_r6)"
    by (rule run_check) (use demo_buffer in \<open>simp_all add: at_slot_def\<close>)
  then show ?thesis by (simp add: demo_r7_def after_check_def)
qed

lemma demo_run_chain: "runner_step demo_env demo_r7 demo_r8"
proof -
  have "runner_step demo_env demo_r7 (put_slot 0 (map_option (\<lambda>y. (y, Start)) (it_next demo_first)) demo_r7)"
    by (rule run_chain_goes_on [where kind = Kind_Success]) (use demo_buffer(6) in \<open>simp_all add: at_slot_def\<close>)
  then show ?thesis using demo_buffer by (simp add: demo_r8_def)
qed

lemma demo_run_second: "runner_step demo_env demo_r8 demo_r9"
proof -
  have d: "claim_item_key id (mr_db demo_r8) (rv_stream demo_env) (rv_group demo_env) demo_second
      (rv_grace demo_env) (rv_margin demo_env) 51 101 = (Inr (demo_key 51), demo_d4)"
    using demo_keys by simp
  have "runner_step demo_env demo_r8 (settle_db demo_d4 (rv_group demo_env)
      (put_slot 0 (Some (demo_second, Handler (Some (demo_key 51))))
       (demo_r8\<lparr>mr_runs := (item_token demo_second, it_index demo_second) # mr_runs demo_r8\<rparr>)))"
    by (rule run_key [OF _ _ _ _ _ d])
      (use demo_ready in \<open>simp_all add: at_slot_def, simp add: demo_runners resolve_item_def\<close>)
  then show ?thesis using demo_buffer by (simp add: demo_r9_def)
qed

lemma demo_run_handler_second: "runner_step demo_env demo_r9 demo_r10"
  unfolding demo_r10_def by (rule run_handler) (use demo_ready in \<open>simp_all add: at_slot_def\<close>)

lemma runner_reachable_start: "runner_start v start r \<Longrightarrow> runner_reachable v start r"
  by (auto simp: runner_reachable_def)

lemma runner_reachable_step:
  "runner_reachable v start r \<Longrightarrow> runner_step v r r' \<Longrightarrow> runner_reachable v start r'"
  unfolding runner_reachable_def by (meson rtranclp.rtrancl_into_rtrancl)

lemma demo_reachable9: "runner_reachable demo_env 0 demo_r9"
  by (intro runner_reachable_step [OF _ demo_run_second] runner_reachable_step [OF _ demo_run_chain]
      runner_reachable_step [OF _ demo_run_check] runner_reachable_step [OF _ demo_run_release]
      runner_reachable_step [OF _ demo_run_handler] runner_reachable_step [OF _ demo_run_key]
      runner_reachable_step [OF _ demo_run_dispatch] runner_reachable_step [OF _ demo_run_enqueue]
      runner_reachable_step [OF _ demo_run_claim] runner_reachable_start [OF demo_runner_start])

lemma demo_reachable10: "runner_reachable demo_env 0 demo_r10"
  by (rule runner_reachable_step [OF demo_reachable9 demo_run_handler_second])

section \<open>What the consumer guarantees\<close>

text \<open>C7: One consumer's work refines the group's protocol: whatever a reachable consumer does
  next, claiming, dispatching, resolving, committing, losing a commit's answer or shutting down,
  its effect on the tables is a sequence of protocol steps, so every property of reachable windows
  holds for the tables it works on.\<close>

theorem consumer_refines_the_protocol:
  assumes "runner_reachable v start r" "runner_step v r r'"
  shows "frontier_steps (rv_group v) (mr_frontier r) (mr_frontier r')
    \<and> reachable (rv_group v) start (mr_frontier r')"
proof -
  note r = runner_reachable_inv [OF assms(1)]
  have "window_inv (mr_db r) (rv_group v)"
    using reachable_inv [of "rv_group v" start "mr_frontier r"] r by (auto simp: frontier_inv_def)
  from runner_step_refines [OF assms(2) refl _ this] r
  have "frontier_steps (rv_group v) (mr_frontier r) (mr_frontier r')" by (simp add: refines_def)
  with r reachable_steps show ?thesis by blast
qed

theorem consumer_refines_the_protocol_witness:
  "frontier_steps 1 demo_start (mr_frontier demo_r1) \<and> reachable 1 0 (mr_frontier demo_r1)"
  using consumer_refines_the_protocol [OF runner_reachable_start [OF demo_runner_start] demo_run_claim]
  by (simp add: demo_r0_def)

text \<open>C8: The consumer function never runs twice for one claimed message, and an ordered message
  runs only after every earlier ordered message of its key in the claim has ended, in success or dead; one
  that is to be retried, was deferred or never finished holds the later ones back.\<close>

theorem ordered_runs_follow_the_predecessor:
  assumes "runner_reachable v start r"
  shows "distinct (mr_runs r) \<and> (\<forall>(t, i) \<in> set (mr_runs r). \<forall>j < i.
    chained (mr_claims r t ! i) \<longrightarrow> chained (mr_claims r t ! j) \<longrightarrow>
    ml_key (it_row (mr_claims r t ! j)) = ml_key (it_row (mr_claims r t ! i)) \<longrightarrow>
    (t, j, Kind_Success) \<in> set (mr_resolved r) \<or> (t, j, Kind_Terminal) \<in> set (mr_resolved r))"
  using runner_reachable_chain [OF assms] unfolding chain_inv_def run_ok_def settled_well_def by fastforce

lemma demo_runs9: "mr_runs demo_r9 = [(7, 1), (7, 0)]" "mr_claims demo_r9 7 = demo_items"
  "mr_resolved demo_r9 = [(7, 0, Kind_Success)]"
  using demo_buffer(7-10) by (simp_all add: demo_runners resolve_item_def)

theorem ordered_runs_follow_the_predecessor_witness:
  "mr_runs demo_r9 = [(7, 1), (7, 0)] \<and> (7, 0, Kind_Success) \<in> set (mr_resolved demo_r9)"
proof -
  have c: "chained (demo_items ! 1)" "chained (demo_items ! 0)"
    "ml_key (it_row (demo_items ! 0)) = ml_key (it_row (demo_items ! 1))" by code_simp+
  from ordered_runs_follow_the_predecessor [OF demo_reachable9]
  have "(7, 0, Kind_Success) \<in> set (mr_resolved demo_r9) \<or> (7, 0, Kind_Terminal) \<in> set (mr_resolved demo_r9)"
    using c by (simp add: demo_runs9)
  then show ?thesis by (auto simp: demo_runs9)
qed

lemma due_cases: "due ph \<longleftrightarrow> (\<exists>kco. ph = Release kco) \<or> (\<exists>final. ph = Check final)"
  by (cases ph) simp_all

text \<open>C9: A range whose every message is resolved is never forgotten: some permit is on its way to
  committing it, is committing it, or has seen the commit fail, in which case the lease expires and
  the range is claimed again.\<close>

theorem resolved_range_has_a_committer:
  assumes "runner_reachable v start r" "bf_ranges (mr_buffer r) t = Some s"
    and "\<forall>q \<in> set (rs_results s). res_done q"
  shows "(\<exists>i x ph. at_slot r i x ph \<and> item_token x = t
        \<and> ((\<exists>kco. ph = Release kco) \<or> (\<exists>final. ph = Check final)))
    \<or> (\<exists>i x snap final. at_slot r i x (Committing snap final) \<and> cl_token (sp_lease snap) = t)
    \<or> t \<in> mr_failed r"
proof -
  have s: "tracked_ok r t s" "committer_ok r t s"
    using runner_reachable_chain [OF assms(1)] assms(2) by (auto simp: chain_inv_def)
  then have "range_resolved s" using assms(3) by (simp add: range_resolved_iff tracked_ok_def)
  with s(2) have "check_due r t \<or> committing r t \<or> t \<in> mr_failed r"
    by (auto simp: committer_ok_def split: if_splits)
  then show ?thesis unfolding check_due_def committing_def due_cases by blast
qed

lemma demo_resolved10: "\<exists>s. bf_ranges demo_b5 7 = Some s \<and> (\<forall>q \<in> set (rs_results s). res_done q)"
proof -
  have "bf_ranges demo_b5 7 \<noteq> None" "\<forall>q \<in> set (rs_results (the (bf_ranges demo_b5 7))). res_done q"
    by code_simp+
  then show ?thesis by auto
qed

theorem resolved_range_has_a_committer_witness:
  "\<exists>i x ph. at_slot demo_r10 i x ph \<and> item_token x = 7"
proof -
  obtain s where s: "bf_ranges (mr_buffer demo_r10) 7 = Some s" "\<forall>q \<in> set (rs_results s). res_done q"
    using demo_resolved10 by auto
  have "mr_failed demo_r10 = {}" by (simp add: demo_runners resolve_item_def)
  moreover have "\<not> at_slot demo_r10 i x (Committing snap final)" for i x snap final
    by (cases i) (simp_all add: at_slot_def demo_r10_def)
  ultimately show ?thesis using resolved_range_has_a_committer [OF demo_reachable10 s] by auto
qed

text \<open>What a shutdown commits of an unfinished range is its longest resolved prefix: the walk
  stops at the first message without a result, the new low bound is the last id before it, and the
  outcomes are those of the prefix a commit would collect.\<close>

theorem partial_commit_is_the_resolved_prefix:
  "contiguous_resolved s =
     (let prefix = takeWhile (\<lambda>(i, k, q). res_done q) (range_slots s)
      in (last (cl_low (rs_lease s) # map fst prefix),
          map range_outcome (filter (collected (rs_include s)) prefix)))"
proof -
  have "contiguous_loop b low es =
      (last (low # map fst (takeWhile (\<lambda>(i, k, q). res_done q) es)),
       map range_outcome (filter (collected b) (takeWhile (\<lambda>(i, k, q). res_done q) es)))"
    for b low es
    by (induction es arbitrary: low) auto
  then show ?thesis by (simp add: contiguous_resolved_def Let_def)
qed

end
