(* ===== verification/Datastore_Retry.thy ===== *)
theory Datastore_Retry
  imports Delivery_Options Handler_Outcomes
begin

text \<open>
  Errors of the database driver and the retry loop around every datastore call:
  \<open>pkg/common/retry_datastore.go\<close>. A Go error is the list of its links as \<open>errors.As\<close> meets them,
  outermost first, so \<open>errors.Join\<close> is concatenation and a wrapped error's links follow the
  wrapper's. What \<open>pgconn.SafeToRetry\<close>, \<open>pgconn.Timeout\<close> and \<open>net.Error\<close> answer for a failed
  connection is carried by its link.
\<close>

datatype wire_link =
    Declared recovery
  | Context_Ended
  | Pg_Error string string
  | Connection_Error bool bool
  | Other_Error string

type_synonym wire_error = "wire_link list"

fun declared_recovery :: "wire_error \<Rightarrow> recovery option" where
  "declared_recovery [] = None"
| "declared_recovery (Declared r # es) = Some r"
| "declared_recovery (Context_Ended # es) = declared_recovery es"
| "declared_recovery (Pg_Error c m # es) = declared_recovery es"
| "declared_recovery (Connection_Error s n # es) = declared_recovery es"
| "declared_recovery (Other_Error t # es) = declared_recovery es"

fun pg_error :: "wire_error \<Rightarrow> (string \<times> string) option" where
  "pg_error [] = None"
| "pg_error (Pg_Error c m # es) = Some (c, m)"
| "pg_error (Declared r # es) = pg_error es"
| "pg_error (Context_Ended # es) = pg_error es"
| "pg_error (Connection_Error s n # es) = pg_error es"
| "pg_error (Other_Error t # es) = pg_error es"

text \<open>The first link that answers \<open>SafeToRetry\<close>; whether a link is a timeout or a network error.\<close>

fun safe_to_retry :: "wire_error \<Rightarrow> bool" where
  "safe_to_retry [] = False"
| "safe_to_retry (Connection_Error s n # es) = s"
| "safe_to_retry (Declared r # es) = safe_to_retry es"
| "safe_to_retry (Context_Ended # es) = safe_to_retry es"
| "safe_to_retry (Pg_Error c m # es) = safe_to_retry es"
| "safe_to_retry (Other_Error t # es) = safe_to_retry es"

definition network_error :: "wire_error \<Rightarrow> bool" where
  "network_error e \<longleftrightarrow> (\<exists>s. Connection_Error s True \<in> set e)"

lemma network_error_code [code]:
  "network_error e \<longleftrightarrow> Connection_Error True True \<in> set e \<or> Connection_Error False True \<in> set e"
  by (auto simp: network_error_def) (metis (full_types))

definition is_retryable_pg_error :: "wire_error \<Rightarrow> bool" where
  "is_retryable_pg_error e =
     (if e = [] then False
      else if Context_Ended \<in> set e then False
      else (case pg_error e of
          Some (c, m) \<Rightarrow> c \<in> {''40P01'', ''40001'', ''08001'', ''08003'', ''53300'', ''57014''}
        | None \<Rightarrow> safe_to_retry e))"

definition is_ambiguous_pg_error :: "wire_error \<Rightarrow> bool" where
  "is_ambiguous_pg_error e =
     (if e = [] then False
      else if Context_Ended \<in> set e then False
      else (case pg_error e of
          Some (c, m) \<Rightarrow> c \<in> {''08000'', ''08006'', ''08007'', ''40003'', ''57P01'', ''57P02'',
            ''57P03'', ''57P05''}
        | None \<Rightarrow> network_error e))"

definition is_transient_pg_error :: "wire_error \<Rightarrow> bool" where
  "is_transient_pg_error e \<longleftrightarrow> is_retryable_pg_error e \<or> is_ambiguous_pg_error e"

definition is_transient_datastore_error :: "wire_error \<Rightarrow> bool" where
  "is_transient_datastore_error e = (case declared_recovery e of
       Some r \<Rightarrow> r = Recovery_Transient
     | None \<Rightarrow> is_transient_pg_error e)"

definition is_retryable_datastore_error :: "wire_error \<Rightarrow> bool" where
  "is_retryable_datastore_error e = (case declared_recovery e of
       Some r \<Rightarrow> r = Recovery_Transient
     | None \<Rightarrow> is_retryable_pg_error e)"

section \<open>The loop\<close>

text \<open>
  \<open>wrap\<close> with \<open>left\<close> attempts to go after \<open>spent\<close>, \<open>errs\<close> the joined errors so far. \<open>run\<close> is one
  call of the wrapped function on whatever state it works on; an attempt's error carries what
  else the closure wrote before it returned, and the last one stands. \<open>ended k\<close> says that the
  context was cancelled before attempt \<open>k\<close>, whether seen at the top of the loop or during the
  delay before it.
\<close>

fun retry_loop ::
  "(wire_error \<Rightarrow> bool) \<Rightarrow> (nat \<Rightarrow> bool) \<Rightarrow> ('s \<Rightarrow> ('i \<times> wire_error + 'a) \<times> 's)
   \<Rightarrow> nat \<Rightarrow> nat \<Rightarrow> 'i \<Rightarrow> wire_error \<Rightarrow> 's \<Rightarrow> ('i \<times> wire_error + 'a) \<times> 's" where
  "retry_loop retryable ended run 0 spent i errs s = (Inl (i, errs), s)"
| "retry_loop retryable ended run (Suc left) spent i errs s =
     (if ended spent then (Inl (i, errs @ [Context_Ended]), s)
      else (case run s of
          (Inr a, s1) \<Rightarrow> (Inr a, s1)
        | (Inl (j, e), s1) \<Rightarrow>
            if \<not> retryable e then (Inl (j, errs @ e), s1)
            else retry_loop retryable ended run left (Suc spent) j (errs @ e) s1))"

definition wrap_idempotent ::
  "retry_policy \<Rightarrow> (nat \<Rightarrow> bool) \<Rightarrow> 'i \<Rightarrow> ('s \<Rightarrow> ('i \<times> wire_error + 'a) \<times> 's) \<Rightarrow> 's
   \<Rightarrow> ('i \<times> wire_error + 'a) \<times> 's" where
  "wrap_idempotent p ended i run =
     retry_loop is_transient_datastore_error ended run (nat (max_retries p)) 0 i []"

definition wrap_non_idempotent ::
  "retry_policy \<Rightarrow> (nat \<Rightarrow> bool) \<Rightarrow> 'i \<Rightarrow> ('s \<Rightarrow> ('i \<times> wire_error + 'a) \<times> 's) \<Rightarrow> 's
   \<Rightarrow> ('i \<times> wire_error + 'a) \<times> 's" where
  "wrap_non_idempotent p ended i run =
     retry_loop is_retryable_datastore_error ended run (nat (max_retries p)) 0 i []"

section \<open>Lemmas\<close>

text \<open>Whatever every single run keeps, the loop keeps, on every way out.\<close>

lemma retry_loop_keeps:
  assumes "\<And>s. P s \<Longrightarrow> P (snd (run s))" "P s"
  shows "P (snd (retry_loop retryable ended run left spent i errs s))"
  using assms(2)
proof (induction left arbitrary: spent i errs s)
  case (Suc left)
  obtain r s1 where r: "run s = (r, s1)" by fastforce
  have "P s1" using assms(1) [OF Suc.prems] r by simp
  with Suc r show ?case by (auto split: sum.splits prod.splits)
qed simp

text \<open>A success comes from one run, which started in a state the failed runs left.\<close>

lemma retry_loop_success:
  assumes "\<And>s. P s \<Longrightarrow> P (snd (run s))" "P s"
    and "retry_loop retryable ended run left spent i errs s = (Inr a, s')"
  shows "\<exists>s0. P s0 \<and> run s0 = (Inr a, s')"
  using assms(2,3)
proof (induction left arbitrary: spent i errs s)
  case (Suc left)
  obtain r s1 where r: "run s = (r, s1)" by fastforce
  have "P s1" using assms(1) [OF Suc.prems(1)] r by simp
  with Suc r show ?case by (auto split: sum.splits prod.splits if_splits)
qed simp

text \<open>What failed runs keep, and what a run that succeeds establishes.\<close>

lemma retry_loop_contract:
  assumes "\<And>s e s'. P s \<Longrightarrow> run s = (Inl e, s') \<Longrightarrow> P s'" "\<And>s a s'. P s \<Longrightarrow> run s = (Inr a, s') \<Longrightarrow> Q a s'"
  shows "P s \<Longrightarrow> retry_loop retryable ended run left spent i errs s = (r, s') \<Longrightarrow>
    (case r of Inl e \<Rightarrow> P s' | Inr a \<Rightarrow> Q a s')"
proof (induction left arbitrary: spent i errs s)
  case (Suc left)
  obtain q s1 where q: "run s = (q, s1)" by fastforce
  show ?case
    using Suc.prems(2) q Suc.IH [of s1] assms(1) [OF Suc.prems(1)] assms(2) [OF Suc.prems(1)] Suc.prems(1)
    by (auto split: sum.splits prod.splits if_splits)
qed auto

text \<open>An error classified safe for any statement is one a rerun of idempotent work may retry too.\<close>

lemma retryable_transient:
  "is_retryable_datastore_error e \<Longrightarrow> is_transient_datastore_error e"
  by (auto simp: is_retryable_datastore_error_def is_transient_datastore_error_def
      is_transient_pg_error_def split: option.splits)

lemma retry_loop_first:
  "run s = (Inr a, s') \<Longrightarrow> \<not> ended spent \<Longrightarrow>
   retry_loop retryable ended run (Suc left) spent i errs s = (Inr a, s')"
  by simp

end
