(* ===== verification/Produce.thy ===== *)
theory Produce
  imports Stream_Tables Datastore_Retry "HOL-Library.Word"
begin

text \<open>
  Appending messages: \<open>pkg/produce\<close>, its controller and its datastore. The state adds to the
  stream's tables what an append depends on beside them: the id sequence, which a rolled back
  transaction does not give back, the partitions of the message log, and the create-ahead gate.
  The environment is a script of turns, one per transaction: what other workers did before it,
  where it fails, and whether its commit is confirmed. The consumer function's counterpart, the
  \<open>ProducerFunc\<close>, is a parameter.
\<close>

section \<open>Options\<close>

record compaction_options =
  co_enable :: bool
  co_rank :: int

record produce_options =
  po_routing_key :: string
  po_message_key :: string
  po_compaction :: "compaction_options option"
  po_idempotency_key :: string
  po_message :: "message_options option"

datatype option_error =
    Key_Policy_Without_Key
  | Ordered_With_Compaction
  | Compaction_Without_Key
  | Rank_Without_Compaction
  | Message_Invalid options_error

definition compaction_enabled :: "produce_options \<Rightarrow> bool" where
  "compaction_enabled opts \<longleftrightarrow> (case po_compaction opts of None \<Rightarrow> False | Some c \<Rightarrow> co_enable c)"

definition validate_compaction :: "compaction_options option \<Rightarrow> option_error option" where
  "validate_compaction oc = (case oc of
       None \<Rightarrow> None
     | Some c \<Rightarrow> if \<not> co_enable c \<and> co_rank c \<noteq> 0 then Some Rank_Without_Compaction else None)"

definition validate_produce :: "produce_options \<Rightarrow> option_error option" where
  "validate_produce opts =
     (let policy = (case po_message opts of None \<Rightarrow> Policy_Unset | Some m \<Rightarrow> mo_concurrency m) in
      if holds_key policy \<and> po_message_key opts = '''' then Some Key_Policy_Without_Key
      else if policy = Ordered \<and> compaction_enabled opts then Some Ordered_With_Compaction
      else if compaction_enabled opts \<and> po_message_key opts = '''' then Some Compaction_Without_Key
      else (case validate_compaction (po_compaction opts) of
          Some e \<Rightarrow> Some e
        | None \<Rightarrow> map_option Message_Invalid (validate_message_options (po_message opts))))"

section \<open>Idempotency keys\<close>

text \<open>
  \<open>newHashUUID\<close>: the first sixteen bytes of the hash with the version and variant bits set. SHA-1
  is a parameter.
\<close>

type_synonym byte = "8 word"

definition new_hash_uuid ::
  "(byte list \<Rightarrow> byte list) \<Rightarrow> byte list \<Rightarrow> byte list \<Rightarrow> nat \<Rightarrow> byte list" where
  "new_hash_uuid h space data version =
     (let u = take 16 (h (space @ data));
          u6 = or (and (u ! 6) 0x0f) (push_bit 4 (and (word_of_nat version) 0x0f));
          u8 = or (and (u ! 8) 0x3f) 0x80
      in u[6 := u6, 8 := u8])"

definition new_sha1_uuid :: "(byte list \<Rightarrow> byte list) \<Rightarrow> byte list \<Rightarrow> byte list \<Rightarrow> byte list" where
  "new_sha1_uuid sha1 space data = new_hash_uuid sha1 space data 5"

definition key_namespace :: "byte list" where
  "key_namespace = [0xb6, 0xf6, 0xc1, 0x93, 0x4e, 0x2b, 0x45, 0xc1, 0x9d, 0x3f, 0x6a, 0x82, 0x1e,
     0x0c, 0x7a, 0x54]"

definition uuid_of_bytes :: "byte list \<Rightarrow> uuid" where
  "uuid_of_bytes = foldl (\<lambda>n b. n * 256 + unat b) 0"

definition string_bytes :: "string \<Rightarrow> byte list" where
  "string_bytes = map (\<lambda>c. word_of_nat (of_char c))"

definition resolve_idempotency_key ::
  "(string \<Rightarrow> uuid option) \<Rightarrow> (byte list \<Rightarrow> byte list) \<Rightarrow> uuid \<Rightarrow> string \<Rightarrow> uuid" where
  "resolve_idempotency_key parse sha1 fresh key =
     (if key = '''' then fresh
      else (case parse key of
          Some u \<Rightarrow> u
        | None \<Rightarrow> uuid_of_bytes (new_sha1_uuid sha1 key_namespace (string_bytes key))))"

section \<open>The state\<close>

record producer_message =
  pm_encoded :: "string option"
  pm_version :: int

record append_data =
  ap_key :: uuid
  ap_payload :: "producer_message option"
  ap_routing :: string
  ap_message_key :: string
  ap_compacted :: bool
  ap_rank :: int
  ap_options :: "message_options option"

record appended =
  ad_message :: "producer_message"
  ad_id :: int
  ad_duplicate :: bool

definition to_append :: "uuid \<Rightarrow> producer_message option \<Rightarrow> produce_options \<Rightarrow> append_data" where
  "to_append key payload opts =
     \<lparr>ap_key = key, ap_payload = payload, ap_routing = po_routing_key opts,
      ap_message_key = po_message_key opts, ap_compacted = compaction_enabled opts,
      ap_rank = (case po_compaction opts of
          None \<Rightarrow> 0
        | Some c \<Rightarrow> if co_enable c then co_rank c else 0),
      ap_options = po_message opts\<rparr>"

record produce_state =
  ps_db :: stream_db
  ps_last :: int
  ps_parts :: "int list"
  ps_attempted :: int
  ps_turn :: nat

datatype commit_fate = Commit_Ok | Commit_Lost wire_error | Commit_Unknown wire_error

record turn =
  tn_others :: "produce_state \<Rightarrow> produce_state"
  tn_now :: time
  tn_begin :: "wire_error option"
  tn_reject :: "append_data \<Rightarrow> wire_error option"
  tn_commit :: commit_fate

definition next_turn :: "(nat \<Rightarrow> turn) \<Rightarrow> produce_state \<Rightarrow> turn \<times> produce_state" where
  "next_turn script s =
     (let t = script (ps_turn s) in (t, (tn_others t s)\<lparr>ps_turn := Suc (ps_turn s)\<rparr>))"

text \<open>One transaction: a failed statement and a lost commit leave the tables as they were.\<close>

definition in_transaction ::
  "(nat \<Rightarrow> turn) \<Rightarrow> (turn \<Rightarrow> produce_state \<Rightarrow> ('i \<times> wire_error + 'a) \<times> produce_state) \<Rightarrow> 'i
   \<Rightarrow> produce_state \<Rightarrow> ('i \<times> wire_error + 'a) \<times> produce_state" where
  "in_transaction script body i s = (case next_turn script s of (t, s0) \<Rightarrow>
     (case tn_begin t of
        Some e \<Rightarrow> (Inl (i, e), s0)
      | None \<Rightarrow> (case body t s0 of
            (Inl e, s1) \<Rightarrow> (Inl e, s1\<lparr>ps_db := ps_db s0\<rparr>)
          | (Inr a, s1) \<Rightarrow> (case tn_commit t of
                Commit_Ok \<Rightarrow> (Inr a, s1)
              | Commit_Lost e \<Rightarrow> (Inl (i, e), s1\<lparr>ps_db := ps_db s0\<rparr>)
              | Commit_Unknown e \<Rightarrow> (Inl (i, e), s1)))))"

section \<open>The protected insert\<close>

text \<open>
  A payload version beats a lower one; within a version the rank decides, then the id. A head row
  without a winner always loses.
\<close>

definition head_newer :: "int \<times> int \<times> int \<Rightarrow> int \<times> int \<times> int \<Rightarrow> bool" where
  "head_newer old new \<longleftrightarrow> (case (old, new) of ((i, v, r), (i', v', r')) \<Rightarrow>
     v < v' \<or> v = v' \<and> (r < r' \<or> r = r' \<and> i < i'))"

definition upsert_head :: "string \<Rightarrow> int \<times> int \<times> int \<Rightarrow> time \<Rightarrow> head_row list \<Rightarrow> head_row list" where
  "upsert_head k w now hs =
     (if \<exists>h \<in> set hs. hd_key h = k
      then update_where (\<lambda>h. hd_key h = k
             \<and> (case hd_winner h of None \<Rightarrow> True | Some w' \<Rightarrow> head_newer w' w))
             (\<lambda>h. h\<lparr>hd_winner := Some w, hd_updated_at := now\<rparr>) hs
      else hs @ [\<lparr>hd_key = k, hd_winner = Some w, hd_created_at = now, hd_updated_at = now\<rparr>])"

definition not_encodable :: wire_error where
  "not_encodable = [Declared Recovery_Permanent]"

definition missing_partition :: wire_error where
  "missing_partition = [Pg_Error ''23514'' ''no partition of relation found for row'']"

definition new_message :: "int \<Rightarrow> string \<Rightarrow> producer_message \<Rightarrow> append_data \<Rightarrow> time \<Rightarrow> message_row" where
  "new_message i enc p a now =
     \<lparr>msg_id = i, msg_schema_version = pm_version p, msg_routing_key = nullif (ap_routing a),
      msg_key = (if ap_compacted a then Some (ap_message_key a) else nullif (ap_message_key a)),
      msg_rank = (if ap_compacted a then Some (ap_rank a) else None), msg_payload = enc,
      msg_options = ap_options a, msg_created_at = now\<rparr>"

text \<open>
  The claim, the insert and the head as one statement: the claim decides, the insert draws its id
  before the row is routed to a partition, and \<open>None\<close> says that the claim already existed.
\<close>

definition protected_insert ::
  "int \<Rightarrow> turn \<Rightarrow> producer_message \<Rightarrow> append_data \<Rightarrow> produce_state
   \<Rightarrow> (wire_error + int option) \<times> produce_state" where
  "protected_insert psize t p a s = (case pm_encoded p of
       None \<Rightarrow> (Inl not_encodable, s)
     | Some enc \<Rightarrow>
         (case tn_reject t a of
            Some e \<Rightarrow> (Inl e, s)
          | None \<Rightarrow>
              let db = ps_db s; now = tn_now t; i = ps_last s + 1; s1 = s\<lparr>ps_last := i\<rparr> in
              if ap_key a \<in> ik_key ` set (idempotency_keys db) then (Inr None, s)
              else if i div psize \<notin> set (ps_parts s) then (Inl missing_partition, s1)
              else (Inr (Some i), s1\<lparr>ps_db := db\<lparr>
                 idempotency_keys := idempotency_keys db @ [\<lparr>ik_key = ap_key a, ik_created_at = now\<rparr>],
                 message_log := message_log db @ [new_message i enc p a now],
                 compaction_heads :=
                   (if ap_compacted a
                    then upsert_head (ap_message_key a) (i, pm_version p, ap_rank a) now
                           (compaction_heads db)
                    else compaction_heads db)\<rparr>\<rparr>)))"

definition to_appended :: "producer_message \<Rightarrow> int option \<Rightarrow> appended" where
  "to_appended p oi =
     \<lparr>ad_message = p, ad_id = (case oi of None \<Rightarrow> 0 | Some i \<Rightarrow> i), ad_duplicate = (oi = None)\<rparr>"

definition bad_version :: "producer_message \<Rightarrow> bool" where
  "bad_version p \<longleftrightarrow> pm_version p < 1"

text \<open>\<open>runInsert\<close>: the producer function may answer differently on every run.\<close>

definition run_insert ::
  "int \<Rightarrow> (nat \<Rightarrow> wire_error + producer_message) \<Rightarrow> append_data \<Rightarrow> turn \<Rightarrow> produce_state
   \<Rightarrow> (unit \<times> wire_error + appended) \<times> produce_state" where
  "run_insert psize func a t s = (case func (ps_turn s) of
       Inl e \<Rightarrow> (Inl ((), e), s)
     | Inr p \<Rightarrow>
         if bad_version p then (Inl ((), [Other_Error ''Message.SchemaVersion must be >= 1'']), s)
         else (case protected_insert psize t p a s of
             (Inl e, s1) \<Rightarrow> (Inl ((), e), s1)
           | (Inr oi, s1) \<Rightarrow> (Inr (to_appended p oi), s1)))"

section \<open>Missing partitions\<close>

definition is_missing_partition :: "wire_error \<Rightarrow> bool" where
  "is_missing_partition e \<longleftrightarrow> (case pg_error e of
       None \<Rightarrow> False
     | Some (c, m) \<Rightarrow> c = ''23514'' \<and> (\<exists>k \<le> length m.
         take (length ''no partition of relation'') (drop k m) = ''no partition of relation''))"

text \<open>
  \<open>ensureCoveringPartition\<close> with its lock and \<open>CREATE TABLE IF NOT EXISTS\<close>; the turn says whether
  the DDL transaction fails (its lock timeout is the error code 55P03).
\<close>

definition ensure_covering_partition ::
  "int \<Rightarrow> turn \<Rightarrow> int \<Rightarrow> produce_state \<Rightarrow> (wire_error + unit) \<times> produce_state" where
  "ensure_covering_partition psize t i s = (case tn_begin t of
       Some e \<Rightarrow> (Inl e, s)
     | None \<Rightarrow> (case tn_commit t of
           Commit_Ok \<Rightarrow> (Inr (), s\<lparr>ps_parts := List.insert (i div psize) (ps_parts s)\<rparr>)
         | Commit_Lost e \<Rightarrow> (Inl e, s)
         | Commit_Unknown e \<Rightarrow> (Inl e, s\<lparr>ps_parts := List.insert (i div psize) (ps_parts s)\<rparr>)))"

definition create_next_id_partition ::
  "(nat \<Rightarrow> turn) \<Rightarrow> int \<Rightarrow> produce_state \<Rightarrow> (wire_error + unit) \<times> produce_state" where
  "create_next_id_partition script psize s = (case next_turn script s of (t, s0) \<Rightarrow>
     ensure_covering_partition psize t (ps_last s0 + 1) s0)"

definition partition_creation_behind :: wire_link where
  "partition_creation_behind = Declared Recovery_Permanent"

text \<open>
  \<open>insertUntilCovered\<close> with \<open>heals\<close> partitions still to create; an error of the heal itself comes
  back with whatever the last insert wrote beside its own error.
\<close>

fun insert_until_covered ::
  "(produce_state \<Rightarrow> ('i \<times> wire_error + 'a) \<times> produce_state)
   \<Rightarrow> (produce_state \<Rightarrow> (wire_error + unit) \<times> produce_state) \<Rightarrow> nat \<Rightarrow> produce_state
   \<Rightarrow> ('i \<times> wire_error + 'a) \<times> produce_state" where
  "insert_until_covered ins heal heals s = (case ins s of
       (Inr a, s1) \<Rightarrow> (Inr a, s1)
     | (Inl (i, e), s1) \<Rightarrow>
         if \<not> is_missing_partition e then (Inl (i, e), s1)
         else (case heals of
             0 \<Rightarrow> (Inl (i, partition_creation_behind # e), s1)
           | Suc k \<Rightarrow> (case heal s1 of
                 (Inl e', s2) \<Rightarrow> (Inl (i, e'), s2)
               | (Inr _, s2) \<Rightarrow> insert_until_covered ins heal k s2)))"

declare insert_until_covered.simps [simp del]

text \<open>One heal for the boundary, then one per configured retry.\<close>

definition heal_budget :: "retry_policy \<Rightarrow> nat" where
  "heal_budget p = nat (max_retries p) + 1"

section \<open>Appends\<close>

definition append_message_transaction ::
  "(nat \<Rightarrow> turn) \<Rightarrow> int \<Rightarrow> (nat \<Rightarrow> wire_error + producer_message) \<Rightarrow> append_data
   \<Rightarrow> produce_state \<Rightarrow> (unit \<times> wire_error + appended) \<times> produce_state" where
  "append_message_transaction script psize func a = in_transaction script (run_insert psize func a) ()"

definition append_message ::
  "(nat \<Rightarrow> turn) \<Rightarrow> (nat \<Rightarrow> bool) \<Rightarrow> retry_policy \<Rightarrow> int
   \<Rightarrow> (nat \<Rightarrow> wire_error + producer_message) \<Rightarrow> append_data \<Rightarrow> produce_state
   \<Rightarrow> (unit \<times> wire_error + appended) \<times> produce_state" where
  "append_message script ended p psize func a =
     wrap_idempotent p ended () (insert_until_covered (append_message_transaction script psize func a)
       (create_next_id_partition script psize) (heal_budget p))"

text \<open>
  The batch: every statement is built before the first is sent, and the first failure carries its
  index.
\<close>

fun insert_batch ::
  "int \<Rightarrow> turn \<Rightarrow> int \<Rightarrow> append_data list \<Rightarrow> produce_state
   \<Rightarrow> (int \<times> wire_error + appended list) \<times> produce_state" where
  "insert_batch psize t i [] s = (Inr [], s)"
| "insert_batch psize t i (a # as) s = (case ap_payload a of
       None \<Rightarrow> (Inl (i, not_encodable), s)
     | Some p \<Rightarrow> (case protected_insert psize t p a s of
           (Inl e, s1) \<Rightarrow> (Inl (i, e), s1)
         | (Inr oi, s1) \<Rightarrow> (case insert_batch psize t (i + 1) as s1 of
               (Inl e, s2) \<Rightarrow> (Inl e, s2)
             | (Inr bs, s2) \<Rightarrow> (Inr (to_appended p oi # bs), s2))))"

definition unencodable :: "append_data \<Rightarrow> bool" where
  "unencodable a \<longleftrightarrow> (case ap_payload a of None \<Rightarrow> True | Some p \<Rightarrow> pm_encoded p = None)"

fun first_index :: "('a \<Rightarrow> bool) \<Rightarrow> 'a list \<Rightarrow> nat option" where
  "first_index p [] = None"
| "first_index p (x # xs) = (if p x then Some 0 else map_option Suc (first_index p xs))"

definition append_batch_transaction ::
  "(nat \<Rightarrow> turn) \<Rightarrow> int \<Rightarrow> append_data list \<Rightarrow> produce_state
   \<Rightarrow> (int \<times> wire_error + appended list) \<times> produce_state" where
  "append_batch_transaction script psize as =
     in_transaction script (\<lambda>t s. case first_index unencodable as of
         Some i \<Rightarrow> (Inl (int i, not_encodable), s)
       | None \<Rightarrow> insert_batch psize t 0 as s) (- 1)"

definition append_message_batch ::
  "(nat \<Rightarrow> turn) \<Rightarrow> (nat \<Rightarrow> bool) \<Rightarrow> retry_policy \<Rightarrow> int \<Rightarrow> append_data list \<Rightarrow> produce_state
   \<Rightarrow> (int \<times> wire_error + appended list) \<times> produce_state" where
  "append_message_batch script ended p psize as =
     wrap_idempotent p ended (- 1) (insert_until_covered (append_batch_transaction script psize as)
       (create_next_id_partition script psize) (heal_budget p))"

definition appended_id_range :: "appended list \<Rightarrow> int \<times> int" where
  "appended_id_range as =
     fold (\<lambda>a (lo, hi). if ad_id a = 0 then (lo, hi)
             else (if lo = 0 then ad_id a else lo, ad_id a)) as (0, 0)"

section \<open>The create-ahead gate\<close>

text \<open>
  \<open>fl\<close> rounds an exact result to float64, as every floating operation of Go does; a conversion to
  an integer truncates. The gate's claim lives in \<open>ps_attempted\<close>, \<open>-1\<close> while the map has no entry.
\<close>

definition trunc :: "rat \<Rightarrow> int" where
  "trunc x = (if 0 \<le> x then \<lfloor>x\<rfloor> else \<lceil>x\<rceil>)"

definition trigger_point_id :: "(rat \<Rightarrow> rat) \<Rightarrow> int \<Rightarrow> int \<Rightarrow> rat \<Rightarrow> int" where
  "trigger_point_id fl i psize pct = i div psize * psize + trunc (fl (fl (of_int psize) * pct))"

definition create_claim_id :: "(rat \<Rightarrow> rat) \<Rightarrow> int \<Rightarrow> rat \<Rightarrow> int" where
  "create_claim_id fl part pct = trunc (fl (fl (fl (of_int part) + pct) * 100))"

definition trigger_percentages :: "(rat \<Rightarrow> rat) \<Rightarrow> rat list" where
  "trigger_percentages fl = [fl (8 / 10), fl (95 / 100)]"

definition is_trigger_point_id :: "(rat \<Rightarrow> rat) \<Rightarrow> int \<Rightarrow> int \<Rightarrow> rat option" where
  "is_trigger_point_id fl psize i =
     find (\<lambda>pct. i = trigger_point_id fl i psize pct) (trigger_percentages fl)"

definition is_trigger_point_range :: "(rat \<Rightarrow> rat) \<Rightarrow> int \<Rightarrow> int \<Rightarrow> int \<Rightarrow> rat option" where
  "is_trigger_point_range fl psize low high =
     find (\<lambda>pct. low \<le> trigger_point_id fl high psize pct \<and> trigger_point_id fl high psize pct \<le> high)
       (trigger_percentages fl)"

definition try_to_get_claim :: "(rat \<Rightarrow> rat) \<Rightarrow> int \<Rightarrow> rat \<Rightarrow> int \<Rightarrow> bool \<times> int" where
  "try_to_get_claim fl part pct attempted =
     (let claim = create_claim_id fl part pct in
      if claim \<le> attempted then (False, attempted) else (True, claim))"

definition should_trigger_with_id :: "(rat \<Rightarrow> rat) \<Rightarrow> int \<Rightarrow> int \<Rightarrow> int \<Rightarrow> bool \<times> int" where
  "should_trigger_with_id fl psize i attempted = (case is_trigger_point_id fl psize i of
       None \<Rightarrow> (False, attempted)
     | Some pct \<Rightarrow> try_to_get_claim fl (i div psize) pct attempted)"

definition should_trigger_with_range ::
  "(rat \<Rightarrow> rat) \<Rightarrow> int \<Rightarrow> int \<Rightarrow> int \<Rightarrow> int \<Rightarrow> bool \<times> int" where
  "should_trigger_with_range fl psize low high attempted =
     (case is_trigger_point_range fl psize low high of
        None \<Rightarrow> (False, attempted)
      | Some pct \<Rightarrow> try_to_get_claim fl (high div psize) pct attempted)"

text \<open>The partition after an id's, created early in the background.\<close>

definition create_partition_ahead ::
  "(nat \<Rightarrow> turn) \<Rightarrow> int \<Rightarrow> int \<Rightarrow> produce_state \<Rightarrow> (wire_error + unit) \<times> produce_state" where
  "create_partition_ahead script psize i s = (case next_turn script s of (t, s0) \<Rightarrow>
     ensure_covering_partition psize t ((i div psize + 1) * psize) s0)"

end
