(* ===== verification/Produce_Invariant.thy ===== *)
theory Produce_Invariant
  imports Produce
begin

text \<open>
  What every append keeps, whatever fails: the ids are fresh and covered by a partition, a key is
  claimed once, and each compaction head is the newest version of its key.
\<close>

section \<open>The invariant\<close>

definition head_winner :: "stream_db \<Rightarrow> string \<Rightarrow> (int \<times> int \<times> int) option" where
  "head_winner db k = (case find (\<lambda>h. hd_key h = k) (compaction_heads db) of
       None \<Rightarrow> None
     | Some h \<Rightarrow> hd_winner h)"

text \<open>The version of a key that a compacted message is.\<close>

definition version_of :: "message_row \<Rightarrow> int \<times> int \<times> int" where
  "version_of m = (msg_id m, msg_schema_version m, the (msg_rank m))"

definition versions :: "stream_db \<Rightarrow> string \<Rightarrow> (int \<times> int \<times> int) set" where
  "versions db k = version_of ` {m \<in> set (message_log db). msg_key m = Some k \<and> msg_rank m \<noteq> None}"

definition newest :: "stream_db \<Rightarrow> string \<Rightarrow> int \<times> int \<times> int \<Rightarrow> bool" where
  "newest db k w \<longleftrightarrow> w \<in> versions db k \<and> (\<forall>w' \<in> versions db k. w' = w \<or> head_newer w' w)"

definition heads_inv :: "stream_db \<Rightarrow> bool" where
  "heads_inv db \<longleftrightarrow> distinct (map hd_key (compaction_heads db))
     \<and> (\<forall>k. case head_winner db k of None \<Rightarrow> versions db k = {} | Some w \<Rightarrow> newest db k w)"

definition log_inv :: "int \<Rightarrow> produce_state \<Rightarrow> bool" where
  "log_inv psize s \<longleftrightarrow> distinct (map msg_id (message_log (ps_db s))) \<and> 0 \<le> ps_last s
     \<and> distinct (map ik_key (idempotency_keys (ps_db s)))
     \<and> (\<forall>m \<in> set (message_log (ps_db s)). 0 < msg_id m \<and> msg_id m \<le> ps_last s
          \<and> msg_id m div psize \<in> set (ps_parts s))"

definition produce_inv :: "int \<Rightarrow> produce_state \<Rightarrow> bool" where
  "produce_inv psize s \<longleftrightarrow> log_inv psize s \<and> heads_inv (ps_db s)"

lemma head_newer_order:
  "\<not> head_newer w w" "head_newer a b \<Longrightarrow> head_newer b c \<Longrightarrow> head_newer a c"
  "a \<noteq> b \<Longrightarrow> head_newer a b \<or> head_newer b a"
  by (auto simp: head_newer_def split: prod.splits)

lemma find_key:
  "find (\<lambda>h. hd_key h = k) (upsert_head k' w now hs) =
    (if k' \<noteq> k then find (\<lambda>h. hd_key h = k) hs
     else (case find (\<lambda>h. hd_key h = k) hs of
         None \<Rightarrow> Some \<lparr>hd_key = k, hd_winner = Some w, hd_created_at = now, hd_updated_at = now\<rparr>
       | Some h \<Rightarrow> Some (case hd_winner h of
             None \<Rightarrow> h\<lparr>hd_winner := Some w, hd_updated_at := now\<rparr>
           | Some w' \<Rightarrow> if head_newer w' w then h\<lparr>hd_winner := Some w, hd_updated_at := now\<rparr> else h)))"
proof (cases "\<exists>h \<in> set hs. hd_key h = k'")
  case True
  have "find (\<lambda>h. hd_key h = k) (update_where (\<lambda>h. hd_key h = k'
             \<and> (case hd_winner h of None \<Rightarrow> True | Some w' \<Rightarrow> head_newer w' w))
             (\<lambda>h. h\<lparr>hd_winner := Some w, hd_updated_at := now\<rparr>) hs) =
      (if k' \<noteq> k then find (\<lambda>h. hd_key h = k) hs
       else map_option (\<lambda>h. case hd_winner h of
             None \<Rightarrow> h\<lparr>hd_winner := Some w, hd_updated_at := now\<rparr>
           | Some w' \<Rightarrow> if head_newer w' w then h\<lparr>hd_winner := Some w, hd_updated_at := now\<rparr> else h)
         (find (\<lambda>h. hd_key h = k) hs))"
    by (induction hs) (auto simp: update_where_def split: option.splits)
  moreover have "k' = k \<Longrightarrow> find (\<lambda>h. hd_key h = k) hs \<noteq> None"
    using True by (auto simp: find_None_iff)
  ultimately show ?thesis using True by (auto simp: upsert_head_def)
next
  case False
  then have "find (\<lambda>h. hd_key h = k') hs = None" by (auto simp: find_None_iff)
  moreover have "find (\<lambda>h. hd_key h = k) (hs @ [h]) =
      (case find (\<lambda>h. hd_key h = k) hs of None \<Rightarrow> if hd_key h = k then Some h else None | Some x \<Rightarrow> Some x)"
    for h :: head_row
    by (induction hs) auto
  ultimately show ?thesis using False by (auto simp: upsert_head_def split: option.splits)
qed

lemma upsert_head_keys:
  "distinct (map hd_key hs) \<Longrightarrow> distinct (map hd_key (upsert_head k w now hs))"
  by (auto simp: upsert_head_def map_update_where)

lemma upsert_winner:
  assumes "compaction_heads db' = upsert_head k' w now (compaction_heads db)"
  shows "head_winner db' k = (if k' \<noteq> k then head_winner db k
    else (case head_winner db k of None \<Rightarrow> Some w | Some w' \<Rightarrow> Some (if head_newer w' w then w else w')))"
  using assms by (auto simp: head_winner_def find_key split: option.splits)

text \<open>A new row is a new version of its key, and the upsert compares it with the one that was newest.\<close>

lemma heads_append:
  assumes inv: "heads_inv db" and rank: "msg_rank m = Some r" and key: "msg_key m = Some k'"
    and log: "message_log db' = message_log db @ [m]"
    and heads: "compaction_heads db' = upsert_head k' (version_of m) now (compaction_heads db)"
    and new: "version_of m \<notin> versions db k'"
  shows "heads_inv db'"
proof -
  have v: "versions db' k = (if k = k' then insert (version_of m) (versions db k) else versions db k)" for k
    using rank key by (auto simp: versions_def log)
  have "case head_winner db' k of None \<Rightarrow> versions db' k = {} | Some w \<Rightarrow> newest db' k w" for k
  proof (cases "k = k'")
    case True
    have old: "case head_winner db k of None \<Rightarrow> versions db k = {} | Some w \<Rightarrow> newest db k w"
      using inv by (auto simp: heads_inv_def)
    show ?thesis
    proof (cases "head_winner db k")
      case None
      with old True show ?thesis by (simp add: upsert_winner [OF heads] newest_def v)
    next
      case (Some w')
      with old have n: "newest db k w'" by simp
      then have "version_of m \<noteq> w'" using new True by (auto simp: newest_def)
      show ?thesis
      proof (cases "head_newer w' (version_of m)")
        case True
        then have "newest db' k (version_of m)"
          using n \<open>k = k'\<close> head_newer_order(2) [of _ w' "version_of m"] unfolding newest_def v by auto
        then show ?thesis using Some True \<open>k = k'\<close> by (simp add: upsert_winner [OF heads])
      next
        case False
        with \<open>version_of m \<noteq> w'\<close> have "head_newer (version_of m) w'" using head_newer_order(3) by blast
        then have "newest db' k w'" using n \<open>k = k'\<close> unfolding newest_def v by auto
        then show ?thesis using Some False \<open>k = k'\<close> by (simp add: upsert_winner [OF heads])
      qed
    qed
  next
    case False
    then have "versions db' k = versions db k" "newest db' k = newest db k"
      by (simp_all add: v newest_def fun_eq_iff)
    moreover have "case head_winner db k of None \<Rightarrow> versions db k = {} | Some w \<Rightarrow> newest db k w"
      using inv by (auto simp: heads_inv_def)
    ultimately show ?thesis using False by (simp add: upsert_winner [OF heads] cong: option.case_cong)
  qed
  then show ?thesis using inv upsert_head_keys by (auto simp: heads_inv_def heads)
qed

lemma heads_plain:
  assumes "heads_inv db" "msg_rank m = None" "message_log db' = message_log db @ [m]"
    "compaction_heads db' = compaction_heads db"
  shows "heads_inv db'"
proof -
  have "versions db' = versions db" "head_winner db' = head_winner db"
    using assms by (auto simp: versions_def head_winner_def fun_eq_iff)
  moreover from this have "newest db' = newest db" by (simp add: newest_def fun_eq_iff)
  ultimately show ?thesis using assms by (simp add: heads_inv_def cong: option.case_cong)
qed

section \<open>One statement\<close>

text \<open>What a protected insert leaves, in its three outcomes.\<close>

lemma protected_insert_cases:
  obtains (failed) e where "protected_insert psize t p a s = (Inl e, s)"
  | (uncovered) "protected_insert psize t p a s = (Inl missing_partition, s\<lparr>ps_last := ps_last s + 1\<rparr>)"
      "(ps_last s + 1) div psize \<notin> set (ps_parts s)" "ap_key a \<notin> ik_key ` set (idempotency_keys (ps_db s))"
  | (already) "protected_insert psize t p a s = (Inr None, s)"
      "ap_key a \<in> ik_key ` set (idempotency_keys (ps_db s))"
  | (stored) enc s' where "protected_insert psize t p a s = (Inr (Some (ps_last s + 1)), s')"
      "ap_key a \<notin> ik_key ` set (idempotency_keys (ps_db s))" "pm_encoded p = Some enc"
      "(ps_last s + 1) div psize \<in> set (ps_parts s)"
      "ps_last s' = ps_last s + 1" "ps_parts s' = ps_parts s"
      "message_log (ps_db s') = message_log (ps_db s) @ [new_message (ps_last s + 1) enc p a (tn_now t)]"
      "idempotency_keys (ps_db s') = idempotency_keys (ps_db s) @ [\<lparr>ik_key = ap_key a, ik_created_at = tn_now t\<rparr>]"
      "compaction_heads (ps_db s') = (if ap_compacted a
         then upsert_head (ap_message_key a) (ps_last s + 1, pm_version p, ap_rank a) (tn_now t)
                (compaction_heads (ps_db s))
         else compaction_heads (ps_db s))"
  by (cases "pm_encoded p"; cases "tn_reject t a";
      cases "ap_key a \<in> ik_key ` set (idempotency_keys (ps_db s))";
      cases "(ps_last s + 1) div psize \<in> set (ps_parts s)")
    (simp_all add: protected_insert_def Let_def)

lemma protected_insert_inv:
  assumes inv: "produce_inv psize s"
  shows "produce_inv psize (snd (protected_insert psize t p a s))"
proof (cases rule: protected_insert_cases [of psize t p a s])
  case uncovered
  then show ?thesis using inv by (fastforce simp: produce_inv_def log_inv_def)
next
  case (stored enc s')
  let ?i = "ps_last s + 1"
  let ?m = "new_message ?i enc p a (tn_now t)"
  have fresh: "msg_id m < ?i" if "m \<in> set (message_log (ps_db s))" for m
    using inv that by (fastforce simp: produce_inv_def log_inv_def)
  have "log_inv psize s'"
    using inv stored fresh by (fastforce simp: produce_inv_def log_inv_def new_message_def)
  moreover have "heads_inv (ps_db s')"
  proof (cases "ap_compacted a")
    case True
    have w: "version_of ?m = (?i, pm_version p, ap_rank a)" by (simp add: version_of_def new_message_def True)
    have "version_of ?m \<notin> versions (ps_db s) (ap_message_key a)"
      using fresh by (fastforce simp: versions_def version_of_def new_message_def)
    then show ?thesis using heads_append [of "ps_db s" ?m "ap_rank a" "ap_message_key a" "ps_db s'" "tn_now t"]
        inv stored True by (simp add: w [symmetric]) (simp add: new_message_def produce_inv_def)
  next
    case False
    then show ?thesis using heads_plain [of "ps_db s" ?m "ps_db s'"] inv stored
      by (simp add: new_message_def produce_inv_def)
  qed
  ultimately show ?thesis using stored by (simp add: produce_inv_def)
qed (use inv in simp_all)

section \<open>What an append keeps\<close>

text \<open>
  A body changes the tables and advances the sequence; rolling it back leaves the sequence where
  it is.
\<close>

definition body_frame :: "produce_state \<Rightarrow> produce_state \<Rightarrow> bool" where
  "body_frame s s' \<longleftrightarrow> ps_parts s' = ps_parts s \<and> ps_attempted s' = ps_attempted s
     \<and> ps_turn s' = ps_turn s \<and> ps_last s \<le> ps_last s'"

lemma body_frame_refl [simp]: "body_frame s s"
  by (simp add: body_frame_def)

lemma body_frame_trans: "body_frame s s' \<Longrightarrow> body_frame s' s'' \<Longrightarrow> body_frame s s''"
  by (simp add: body_frame_def)

lemma rolled_back: "body_frame s s' \<Longrightarrow> s'\<lparr>ps_db := ps_db s\<rparr> = s\<lparr>ps_last := ps_last s'\<rparr>"
  by (cases s; cases s') (simp add: body_frame_def)

lemma protected_insert_frame: "body_frame s (snd (protected_insert psize t p a s))"
  by (auto simp: protected_insert_def body_frame_def Let_def split: option.splits)

lemma run_insert_frame: "body_frame s (snd (run_insert psize func a t s))"
  using protected_insert_frame [of s psize t _ a] by (auto simp: run_insert_def split: sum.splits prod.splits)
     (metis snd_conv)+

lemma insert_batch_frame: "body_frame s (snd (insert_batch psize t i as s))"
proof (induction as arbitrary: i s)
  case (Cons a as)
  show ?case
  proof (cases "ap_payload a")
    case (Some p)
    obtain r s1 where r: "protected_insert psize t p a s = (r, s1)" by fastforce
    have f: "body_frame s s1" using protected_insert_frame [of s psize t p a] r by simp
    show ?thesis
    proof (cases r)
      case (Inr oi)
      show ?thesis using Cons.IH [of s1 "i + 1"] f Some r Inr
        by (auto split: sum.splits prod.splits intro: body_frame_trans)
    qed (use f Some r in simp)
  qed simp
qed simp

text \<open>
  A property of the state that the protected insert of the given messages keeps and that neither a
  burnt id nor a new partition disturbs.
\<close>

locale append_kept =
  fixes P :: "produce_state \<Rightarrow> bool" and psize :: int
    and ok :: "producer_message \<Rightarrow> append_data \<Rightarrow> bool"
  assumes ins: "P s \<Longrightarrow> ok p a \<Longrightarrow> P (snd (protected_insert psize t p a s))"
    and burn: "P s \<Longrightarrow> ps_last s \<le> n \<Longrightarrow> P (s\<lparr>ps_last := n\<rparr>)"
    and cover: "P s \<Longrightarrow> P (s\<lparr>ps_parts := List.insert i (ps_parts s)\<rparr>)"
    and tick: "P s \<Longrightarrow> P (s\<lparr>ps_turn := k\<rparr>)"
begin

lemma next_turn_kept:
  assumes "\<And>k s. P s \<Longrightarrow> P (tn_others (script k) s)" "P s" "next_turn script s = (t, s')"
  shows "P s'"
  using assms tick by (auto simp: next_turn_def Let_def)

lemma transaction_kept:
  assumes others: "\<And>k s. P s \<Longrightarrow> P (tn_others (script k) s)" and P: "P s"
    and body: "\<And>t s. P s \<Longrightarrow> P (snd (body t s)) \<and> body_frame s (snd (body t s))"
  shows "P (snd (in_transaction script body i s))"
proof -
  obtain t s0 where t: "next_turn script s = (t, s0)" by fastforce
  have s0: "P s0" by (rule next_turn_kept [OF others P t])
  obtain r s1 where r: "body t s0 = (r, s1)" by fastforce
  have s1: "P s1" "body_frame s0 s1" using body [OF s0, of t] r by auto
  then have "P (s1\<lparr>ps_db := ps_db s0\<rparr>)"
    using burn [OF s0, of "ps_last s1"] by (simp add: rolled_back) (simp add: body_frame_def)
  with s0 s1 t r show ?thesis
    by (auto simp: in_transaction_def split: option.splits sum.splits commit_fate.splits)
qed

lemma heal_kept:
  assumes others: "\<And>k s. P s \<Longrightarrow> P (tn_others (script k) s)" and P: "P s"
  shows "P (snd (create_next_id_partition script psize s))"
proof -
  obtain t s0 where t: "next_turn script s = (t, s0)" by fastforce
  have s0: "P s0" by (rule next_turn_kept [OF others P t])
  with cover t show ?thesis
    by (auto simp: create_next_id_partition_def ensure_covering_partition_def
        split: option.splits commit_fate.splits)
qed

lemma covered_kept:
  assumes ins: "\<And>s. P s \<Longrightarrow> P (snd (ins s))" and heal: "\<And>s. P s \<Longrightarrow> P (snd (heal s))" and P: "P s"
  shows "P (snd (insert_until_covered ins heal heals s))"
  using P
proof (induction heals arbitrary: s)
  case 0
  then show ?case using ins [OF 0]
    by (subst insert_until_covered.simps) (auto split: sum.splits prod.splits)
next
  case (Suc heals)
  obtain r s1 where r: "ins s = (r, s1)" by fastforce
  have s1: "P s1" using ins [OF Suc.prems] r by simp
  obtain q s2 where q: "heal s1 = (q, s2)" by fastforce
  have "P s2" using heal [OF s1] q by simp
  with Suc.IH r s1 q show ?case
    by (subst insert_until_covered.simps) (auto split: sum.splits prod.splits)
qed

lemma run_insert_kept:
  assumes "P s" "\<And>k p. func k = Inr p \<Longrightarrow> ok p a"
  shows "P (snd (run_insert psize func a t s))"
proof (cases "func (ps_turn s)")
  case (Inr p)
  then have "ok p a" by (rule assms(2))
  from ins [OF assms(1) this, of t] show ?thesis
    by (auto simp: run_insert_def Inr assms(1) split: sum.splits prod.splits)
qed (use assms in \<open>simp add: run_insert_def\<close>)

lemma append_kept:
  assumes others: "\<And>k s. P s \<Longrightarrow> P (tn_others (script k) s)" and P: "P s"
    and ok: "\<And>k p. func k = Inr p \<Longrightarrow> ok p a"
  shows "P (snd (append_message script ended p psize func a s))"
  unfolding append_message_def wrap_idempotent_def
proof (rule retry_loop_keeps [where P = P, OF _ P])
  fix s assume "P s"
  then show "P (snd (insert_until_covered (append_message_transaction script psize func a)
      (create_next_id_partition script psize) (heal_budget p) s))"
    using run_insert_kept [OF _ ok] run_insert_frame
    by (intro covered_kept heal_kept [OF others] transaction_kept [OF others])
      (simp_all add: append_message_transaction_def transaction_kept [OF others])
qed

lemma insert_batch_kept:
  "P s \<Longrightarrow> (\<And>a p. a \<in> set as \<Longrightarrow> ap_payload a = Some p \<Longrightarrow> ok p a) \<Longrightarrow>
   P (snd (insert_batch psize t i as s))"
proof (induction as arbitrary: i s)
  case (Cons a as)
  show ?case
  proof (cases "ap_payload a")
    case (Some p)
    obtain r s1 where r: "protected_insert psize t p a s = (r, s1)" by fastforce
    have "P s1" using ins [OF Cons.prems(1), of p a t] Cons.prems(2) [of a p] Some r by simp
    with Cons Some r show ?thesis by (auto split: sum.splits prod.splits) (metis snd_conv)+
  qed (use Cons in simp)
qed simp

lemma batch_transaction_kept:
  assumes others: "\<And>k s. P s \<Longrightarrow> P (tn_others (script k) s)" and P: "P s"
    and ok: "\<And>a p. a \<in> set as \<Longrightarrow> ap_payload a = Some p \<Longrightarrow> ok p a"
  shows "P (snd (append_batch_transaction script psize as s))"
  unfolding append_batch_transaction_def
  by (rule transaction_kept [OF others P])
    (auto intro: insert_batch_kept ok insert_batch_frame split: option.splits)

lemma batch_kept:
  assumes others: "\<And>k s. P s \<Longrightarrow> P (tn_others (script k) s)" and P: "P s"
    and ok: "\<And>a p. a \<in> set as \<Longrightarrow> ap_payload a = Some p \<Longrightarrow> ok p a"
  shows "P (snd (append_message_batch script ended p psize as s))"
  unfolding append_message_batch_def wrap_idempotent_def
proof (rule retry_loop_keeps [where P = P, OF _ P])
  fix s assume "P s"
  then show "P (snd (insert_until_covered (append_batch_transaction script psize as)
      (create_next_id_partition script psize) (heal_budget p) s))"
    by (intro covered_kept heal_kept [OF others] batch_transaction_kept [OF others _ ok])
qed

end

interpretation inv: append_kept "produce_inv psize" psize "\<lambda>_ _. True" for psize
proof (unfold_locales, goal_cases)
  case (1 s p a t)
  from 1(1) show ?case by (rule protected_insert_inv)
qed (fastforce simp: produce_inv_def log_inv_def)+

end
