(* ===== verification/Produce_Properties.thy ===== *)
theory Produce_Properties
  imports Produce_Invariant
begin

text \<open>
  What an append promises its caller: a message lands once whatever happens to the commit, the
  compaction head is the newest version, a missing partition is healed, a batch lands whole or
  not at all.
\<close>

section \<open>One append, one row\<close>

text \<open>
  The rows that the predicate singles out: none beyond the given ones while the key is unclaimed, one
  as soon as it is.
\<close>

definition once_so_far ::
  "(message_row \<Rightarrow> bool) \<Rightarrow> uuid \<Rightarrow> message_row list \<Rightarrow> produce_state \<Rightarrow> bool" where
  "once_so_far Q key base s \<longleftrightarrow> (\<exists>rows. filter Q (message_log (ps_db s)) = base @ rows
     \<and> length rows = (if key \<in> ik_key ` set (idempotency_keys (ps_db s)) then 1 else 0))"

lemma once_insert:
  assumes "once_so_far Q key base s" "ap_key a = key"
    and "\<And>enc i now. pm_encoded p = Some enc \<Longrightarrow> Q (new_message i enc p a now)"
  shows "once_so_far Q key base (snd (protected_insert psize t p a s))"
proof (cases rule: protected_insert_cases [of psize t p a s])
  case (stored enc s')
  then have "filter Q (message_log (ps_db s)) = base" using assms(1,2) by (auto simp: once_so_far_def)
  with stored assms(2,3) show ?thesis by (auto simp: once_so_far_def)
qed (use assms in \<open>simp_all add: once_so_far_def\<close>)

interpretation once: append_kept "once_so_far Q key base" psize
  "\<lambda>p a. ap_key a = key \<and> (\<forall>enc i now. pm_encoded p = Some enc \<longrightarrow> Q (new_message i enc p a now))"
  for Q key base psize
proof (unfold_locales, goal_cases)
  case (1 s p a t)
  then show ?case by (intro once_insert) auto
qed (simp_all add: once_so_far_def)

lemma covered_success:
  assumes "\<And>s. P s \<Longrightarrow> P (snd (ins s))" "\<And>s. P s \<Longrightarrow> P (snd (heal s))" "P s"
    and "insert_until_covered ins heal heals s = (Inr a, s')"
  shows "\<exists>s0. P s0 \<and> ins s0 = (Inr a, s')"
  using assms(3,4)
proof (induction heals arbitrary: s)
  case 0
  then show ?case
    by (subst (asm) insert_until_covered.simps) (auto split: sum.splits prod.splits if_splits)
next
  case (Suc heals)
  obtain r s1 where r: "ins s = (r, s1)" by fastforce
  have s1: "P s1" using assms(1) [OF Suc.prems(1)] r by simp
  obtain q s2 where q: "heal s1 = (q, s2)" by fastforce
  have "P s2" using assms(2) [OF s1] q by simp
  with Suc r q show ?case
    by (subst (asm) insert_until_covered.simps) (auto split: sum.splits prod.splits if_splits)
qed

lemma transaction_success:
  assumes "in_transaction script body i s = (Inr a, s')"
  obtains t s0 where "next_turn script s = (t, s0)" "body t s0 = (Inr a, s')"
proof -
  obtain t s0 where t: "next_turn script s = (t, s0)" by fastforce
  moreover have "body t s0 = (Inr a, s')"
    using assms t by (auto simp: in_transaction_def split: option.splits sum.splits prod.splits commit_fate.splits)
  ultimately show ?thesis by (rule that)
qed

lemma run_insert_success:
  assumes "run_insert psize func a t s = (Inr ad, s')"
  obtains p oi where "func (ps_turn s) = Inr p" "protected_insert psize t p a s = (Inr oi, s')"
    "ad = to_appended p oi"
  using assms that by (auto simp: run_insert_def split: sum.splits prod.splits if_splits)

text \<open>C34: An append lands exactly once whatever happens on the way: transactions that fail, commits
  whose confirmation is lost, missing partitions and retries leave at most one row of it, and a
  caller that gets an answer has exactly one, with the id it was told unless the answer says that
  an earlier attempt had already landed.\<close>

theorem append_is_exactly_once:
  assumes "append_message script ended p psize func a s = (res, s')"
    and "ap_key a \<notin> ik_key ` set (idempotency_keys (ps_db s))"
    and others: "\<forall>k s. filter Q (message_log (ps_db (tn_others (script k) s))) = filter Q (message_log (ps_db s))
      \<and> (ap_key a \<in> ik_key ` set (idempotency_keys (ps_db (tn_others (script k) s)))
          \<longleftrightarrow> ap_key a \<in> ik_key ` set (idempotency_keys (ps_db s)))"
    and own: "\<forall>k q enc i now. func k = Inr q \<longrightarrow> pm_encoded q = Some enc \<longrightarrow> Q (new_message i enc q a now)"
  shows "\<exists>rows. filter Q (message_log (ps_db s')) = filter Q (message_log (ps_db s)) @ rows
    \<and> length rows \<le> 1
    \<and> (\<forall>ad. res = Inr ad \<longrightarrow> (\<exists>m. rows = [m] \<and> (\<not> ad_duplicate ad \<longrightarrow> msg_id m = ad_id ad)))"
proof -
  let ?P = "once_so_far Q (ap_key a) (filter Q (message_log (ps_db s)))"
  have P: "?P s" using assms(2) by (simp add: once_so_far_def)
  have o: "?P (tn_others (script k) u)" if "?P u" for k u
    using that others by (auto simp: once_so_far_def)
  have ok: "func k = Inr q \<Longrightarrow> ap_key a = ap_key a \<and>
      (\<forall>enc i now. pm_encoded q = Some enc \<longrightarrow> Q (new_message i enc q a now))" for k q
    using own by auto
  have "?P (snd (append_message script ended p psize func a s))"
    by (rule once.append_kept [OF o P ok])
  then have P': "?P s'" using assms(1) by simp
  have tx: "?P (snd (append_message_transaction script psize func a u))" if "?P u" for u
    unfolding append_message_transaction_def
    by (rule once.transaction_kept [OF o that]) (use once.run_insert_kept ok run_insert_frame in auto)
  have heal: "?P (snd (create_next_id_partition script psize u))" if "?P u" for u
    by (rule once.heal_kept [OF o that])
  show ?thesis
  proof (cases res)
    case (Inl e)
    then show ?thesis using P' by (auto simp: once_so_far_def split: if_splits)
  next
    case (Inr ad)
    have "\<exists>u. ?P u \<and> insert_until_covered (append_message_transaction script psize func a)
        (create_next_id_partition script psize) (heal_budget p) u = (Inr ad, s')"
    proof (rule retry_loop_success [where P = ?P, OF _ P])
      show "retry_loop is_transient_datastore_error ended
          (insert_until_covered (append_message_transaction script psize func a)
            (create_next_id_partition script psize) (heal_budget p)) (nat (max_retries p)) 0 () [] s
          = (Inr ad, s')"
        using assms(1) by (simp add: append_message_def wrap_idempotent_def Inr)
    qed (rule once.covered_kept [OF tx heal])
    then obtain u where u: "?P u" "insert_until_covered (append_message_transaction script psize func a)
        (create_next_id_partition script psize) (heal_budget p) u = (Inr ad, s')" by blast
    obtain v where v: "?P v" "append_message_transaction script psize func a v = (Inr ad, s')"
      using covered_success [OF tx heal u] by blast
    obtain t s0 where t: "next_turn script v = (t, s0)" "run_insert psize func a t s0 = (Inr ad, s')"
      using transaction_success v(2) unfolding append_message_transaction_def by metis
    obtain q oi where q: "protected_insert psize t q a s0 = (Inr oi, s')" "ad = to_appended q oi"
      "func (ps_turn s0) = Inr q"
      using run_insert_success [OF t(2)] by metis
    have s0: "?P s0" by (rule once.next_turn_kept [OF o v(1) t(1)])
    show ?thesis
    proof (cases rule: protected_insert_cases [of psize t q a s0])
      case already
      then have "s' = s0" using q(1) by simp
      with s0 already obtain m where "filter Q (message_log (ps_db s')) = filter Q (message_log (ps_db s)) @ [m]"
        by (auto simp: once_so_far_def length_Suc_conv)
      with Inr q already show ?thesis by (auto simp: to_appended_def)
    next
      case (stored enc s1)
      have "filter Q (message_log (ps_db s0)) = filter Q (message_log (ps_db s))"
        using s0 stored(2) by (auto simp: once_so_far_def)
      moreover have "s1 = s'" "oi = Some (ps_last s0 + 1)" using q(1) stored(1) by simp_all
      moreover have "Q (new_message (ps_last s0 + 1) enc q a (tn_now t))" using own q(3) stored(3) by blast
      ultimately show ?thesis using Inr q stored
        by (auto simp: to_appended_def new_message_def)
    qed (use q in simp_all)
  qed
qed


section \<open>A run with an unconfirmed commit\<close>

text \<open>The first commit lands but its confirmation is lost; the retry finds the claim.\<close>

definition quiet_turn :: "commit_fate \<Rightarrow> turn" where
  "quiet_turn fate = \<lparr>tn_others = (\<lambda>s. s), tn_now = 100, tn_begin = None, tn_reject = (\<lambda>_. None),
     tn_commit = fate\<rparr>"

definition lost_answer :: "nat \<Rightarrow> turn" where
  "lost_answer k = quiet_turn (if k = 0 then Commit_Unknown [Connection_Error False True] else Commit_Ok)"

definition demo_payload :: producer_message where
  "demo_payload = \<lparr>pm_encoded = Some ''{}'', pm_version = 1\<rparr>"

definition demo_append :: append_data where
  "demo_append = to_append 9 (Some demo_payload) \<lparr>po_routing_key = ''a'', po_message_key = ''k'',
     po_compaction = Some \<lparr>co_enable = True, co_rank = 5\<rparr>, po_idempotency_key = '''', po_message = None\<rparr>"

definition demo_produce :: produce_state where
  "demo_produce = \<lparr>ps_db = empty_db, ps_last = 0, ps_parts = [0], ps_attempted = - 1, ps_turn = 0\<rparr>"

definition demo_retry :: retry_policy where
  "demo_retry = \<lparr>max_retries = 3, max_delays = 3, base_delay = 1, max_delay = 4, exponent = 2\<rparr>"

lemma demo_lost_answer: "fst (append_message lost_answer (\<lambda>_. False) demo_retry 10 (\<lambda>_. Inr demo_payload)
    demo_append demo_produce) = Inr \<lparr>ad_message = demo_payload, ad_id = 0, ad_duplicate = True\<rparr>"
  by code_simp

theorem append_is_exactly_once_witness:
  "length (message_log (ps_db (snd (append_message lost_answer (\<lambda>_. False) demo_retry 10
     (\<lambda>_. Inr demo_payload) demo_append demo_produce)))) = 1"
proof -
  let ?r = "append_message lost_answer (\<lambda>_. False) demo_retry 10 (\<lambda>_. Inr demo_payload)
     demo_append demo_produce"
  have "\<exists>rows. filter (\<lambda>_. True) (message_log (ps_db (snd ?r)))
      = filter (\<lambda>_. True) (message_log (ps_db demo_produce)) @ rows \<and> length rows \<le> 1
    \<and> (\<forall>ad. fst ?r = Inr ad \<longrightarrow> (\<exists>m. rows = [m] \<and> (\<not> ad_duplicate ad \<longrightarrow> msg_id m = ad_id ad)))"
    by (rule append_is_exactly_once [where Q = "\<lambda>_. True", OF prod.collapse [symmetric]])
      (simp_all add: demo_produce_def empty_db_def lost_answer_def quiet_turn_def)
  then show ?thesis using demo_lost_answer by (auto simp: demo_produce_def empty_db_def)
qed


section \<open>Compaction heads\<close>

text \<open>
  What a stream looks like that only appends have written: it starts without messages, any protected
  insert may commit, an id may be burnt, a partition created and the claimed keys swept. Rows may go, as long as
  the row of a head stays.
\<close>

inductive append_history :: "int \<Rightarrow> produce_state \<Rightarrow> bool" for psize where
  history_empty: "message_log (ps_db s) = [] \<Longrightarrow> compaction_heads (ps_db s) = [] \<Longrightarrow>
    idempotency_keys (ps_db s) = [] \<Longrightarrow> 0 \<le> ps_last s \<Longrightarrow> append_history psize s"
| history_insert: "append_history psize s \<Longrightarrow> append_history psize (snd (protected_insert psize t p a s))"
| history_burn: "append_history psize s \<Longrightarrow> ps_last s \<le> n \<Longrightarrow> append_history psize (s\<lparr>ps_last := n\<rparr>)"
| history_cover: "append_history psize s \<Longrightarrow> append_history psize (s\<lparr>ps_parts := List.insert i (ps_parts s)\<rparr>)"
| history_tick: "append_history psize s \<Longrightarrow> append_history psize (s\<lparr>ps_turn := k\<rparr>)"
| history_sweep: "append_history psize s \<Longrightarrow>
    append_history psize (s\<lparr>ps_db := (ps_db s)\<lparr>idempotency_keys := filter q (idempotency_keys (ps_db s))\<rparr>\<rparr>)"
| history_forget: "append_history psize s \<Longrightarrow>
    \<forall>m \<in> set (message_log (ps_db s)). head_message (ps_db s) (msg_key m) = Some (msg_id m) \<longrightarrow> q m \<Longrightarrow>
    append_history psize (s\<lparr>ps_db := (ps_db s)\<lparr>message_log := filter q (message_log (ps_db s))\<rparr>\<rparr>)"

lemma forget_keeps_heads:
  assumes inv: "heads_inv db"
    and kept: "\<forall>m \<in> set (message_log db). head_message db (msg_key m) = Some (msg_id m) \<longrightarrow> q m"
  shows "heads_inv (db\<lparr>message_log := filter q (message_log db)\<rparr>)"
proof -
  let ?db = "db\<lparr>message_log := filter q (message_log db)\<rparr>"
  have w: "head_winner ?db k = head_winner db k" for k by (simp add: head_winner_def)
  have sub: "versions ?db k \<subseteq> versions db k" for k by (auto simp: versions_def)
  have "newest ?db k v" if n: "newest db k v" and v: "head_winner db k = Some v" for k v
  proof -
    obtain m where m: "m \<in> set (message_log db)" "v = version_of m" "msg_key m = Some k" "msg_rank m \<noteq> None"
      using n by (auto simp: newest_def versions_def)
    have "head_message db (msg_key m) = Some (msg_id m)"
      using v m by (auto simp: head_message_def head_winner_def version_of_def split: option.splits)
    then have "v \<in> versions ?db k" using kept m by (auto simp: versions_def)
    then show ?thesis using n sub by (auto simp: newest_def)
  qed
  moreover have "versions ?db k = {}" if "versions db k = {}" for k using sub that by blast
  ultimately have "case head_winner ?db k of None \<Rightarrow> versions ?db k = {} | Some v \<Rightarrow> newest ?db k v" for k
    using inv by (cases "head_winner db k") (simp_all only: heads_inv_def w option.case, (metis option.case)+)
  then show ?thesis using inv by (simp add: heads_inv_def)
qed

lemma history_inv: "append_history psize s \<Longrightarrow> produce_inv psize s"
proof (induction rule: append_history.induct)
  case (history_empty s)
  then show ?case by (simp add: produce_inv_def log_inv_def heads_inv_def head_winner_def versions_def)
next
  case (history_insert s t p a)
  then show ?case using protected_insert_inv by blast
next
  case (history_sweep s q)
  then show ?case
    by (simp add: produce_inv_def log_inv_def heads_inv_def head_winner_def versions_def newest_def distinct_map_filter
        cong: option.case_cong)
next
  case (history_forget s q)
  then have "heads_inv ((ps_db s)\<lparr>message_log := filter q (message_log (ps_db s))\<rparr>)"
    using forget_keeps_heads [of "ps_db s" q] by (simp add: produce_inv_def)
  then show ?case using history_forget by (simp add: produce_inv_def log_inv_def distinct_map_filter)
qed (fastforce simp: produce_inv_def log_inv_def)+

interpretation history: append_kept "append_history psize" psize "\<lambda>_ _. True" for psize
  by unfold_locales (auto intro: append_history.intros)

text \<open>C37: On a stream that appends have filled since it was empty, in any number of processes, and
  from which no row of a head was removed: after any append, retried or not, the messages of a
  compacted key that a claim may return are exactly its newest one, which has the highest payload version, within
  it the highest rank, and among equals the last id.\<close>

theorem current_version_is_the_newest:
  assumes "append_history psize s"
    and "\<forall>k s. append_history psize s \<longrightarrow> append_history psize (tn_others (script k) s)"
    and "append_message script ended p psize func a s = (res, s')"
    and "m \<in> set (message_log (ps_db s'))" "msg_key m = Some key" "msg_rank m \<noteq> None"
  shows "current_version (ps_db s') m \<longleftrightarrow>
    (\<forall>m' \<in> set (message_log (ps_db s')). msg_key m' = Some key \<and> msg_rank m' \<noteq> None \<longrightarrow>
       m' = m \<or> head_newer (version_of m') (version_of m))"
proof -
  have "append_history psize (snd (append_message script ended p psize func a s))"
    by (rule history.append_kept) (use assms(1,2) in auto)
  then have "produce_inv psize (snd (append_message script ended p psize func a s))" by (rule history_inv)
  then have inv: "log_inv psize s'" "heads_inv (ps_db s')" using assms(3) by (simp_all add: produce_inv_def)
  have same: "m' = m" if "m' \<in> set (message_log (ps_db s'))" "msg_id m' = msg_id m" for m'
    using inv(1) that assms(4) by (auto simp: log_inv_def intro: distinct_map_same)
  have in_v: "version_of m' \<in> versions (ps_db s') key" if "m' \<in> set (message_log (ps_db s'))"
    "msg_key m' = Some key" "msg_rank m' \<noteq> None" for m'
    using that by (auto simp: versions_def)
  have v: "version_of m \<in> versions (ps_db s') key" by (rule in_v [OF assms(4-6)])
  then obtain w where w: "head_winner (ps_db s') key = Some w" "newest (ps_db s') key w"
    using inv(2) by (auto simp: heads_inv_def split: option.splits) (metis empty_iff option.exhaust)
  obtain mw where mw: "mw \<in> set (message_log (ps_db s'))" "w = version_of mw" "msg_key mw = Some key"
    "msg_rank mw \<noteq> None"
    using w(2) by (auto simp: newest_def versions_def)
  have "current_version (ps_db s') m \<longleftrightarrow> fst w = msg_id m"
    using assms(5,6) w(1) by (cases w) (auto simp: current_version_def head_message_def head_winner_def split: option.splits)
  also have "\<dots> \<longleftrightarrow> mw = m" using mw same by (auto simp: version_of_def)
  also have "\<dots> \<longleftrightarrow> (\<forall>m' \<in> set (message_log (ps_db s')). msg_key m' = Some key \<and> msg_rank m' \<noteq> None \<longrightarrow>
       m' = m \<or> head_newer (version_of m') (version_of m))"
  proof
    assume "mw = m"
    then have win: "version_of m' = version_of m \<or> head_newer (version_of m') (version_of m)"
      if "version_of m' \<in> versions (ps_db s') key" for m'
      using w(2) mw(2) that by (auto simp: newest_def)
    show "\<forall>m' \<in> set (message_log (ps_db s')). msg_key m' = Some key \<and> msg_rank m' \<noteq> None \<longrightarrow>
       m' = m \<or> head_newer (version_of m') (version_of m)"
    proof (intro ballI impI)
      fix m' assume m': "m' \<in> set (message_log (ps_db s'))" "msg_key m' = Some key \<and> msg_rank m' \<noteq> None"
      from win [OF in_v] m' have "version_of m' = version_of m \<or> head_newer (version_of m') (version_of m)"
        by blast
      then show "m' = m \<or> head_newer (version_of m') (version_of m)"
        using same [OF m'(1)] by (auto simp: version_of_def)
    qed
  next
    assume all: "\<forall>m' \<in> set (message_log (ps_db s')). msg_key m' = Some key \<and> msg_rank m' \<noteq> None \<longrightarrow>
       m' = m \<or> head_newer (version_of m') (version_of m)"
    then have "mw = m \<or> head_newer w (version_of m)" using mw by auto
    moreover have "version_of m = w \<or> head_newer (version_of m) w" using w(2) v by (auto simp: newest_def)
    ultimately show "mw = m" using mw same head_newer_order(1,2) by (auto simp: version_of_def) blast
  qed
  finally show ?thesis .
qed

text \<open>Two versions of one key, the second with the lower rank.\<close>

definition demo_lower :: append_data where
  "demo_lower = demo_append\<lparr>ap_key := 10, ap_rank := 4\<rparr>"

definition demo_two :: produce_state where
  "demo_two = snd (append_message (\<lambda>_. quiet_turn Commit_Ok) (\<lambda>_. False) demo_retry 10
     (\<lambda>_. Inr demo_payload) demo_append demo_produce)"

definition demo_three :: produce_state where
  "demo_three = snd (append_message (\<lambda>_. quiet_turn Commit_Ok) (\<lambda>_. False) demo_retry 10
     (\<lambda>_. Inr demo_payload) demo_lower demo_two)"

lemma demo_produce_inv: "produce_inv 10 demo_produce"
  by (simp add: produce_inv_def log_inv_def heads_inv_def demo_produce_def empty_db_def head_winner_def
      versions_def)

lemma demo_two_history: "append_history 10 demo_two"
proof -
  have "append_history 10 demo_produce"
    by (rule history_empty) (simp_all add: demo_produce_def empty_db_def)
  then show ?thesis
    unfolding demo_two_def by (intro history.append_kept) (simp_all add: quiet_turn_def)
qed

lemma demo_three_log: "message_log (ps_db demo_three) =
    [new_message 1 ''{}'' demo_payload demo_append 100, new_message 2 ''{}'' demo_payload demo_lower 100]"
  by code_simp

theorem current_version_is_the_newest_witness:
  "current_version (ps_db demo_three) (new_message 1 ''{}'' demo_payload demo_append 100)"
proof -
  have "\<forall>m' \<in> set (message_log (ps_db demo_three)). msg_key m' = Some ''k'' \<and> msg_rank m' \<noteq> None \<longrightarrow>
       m' = new_message 1 ''{}'' demo_payload demo_append 100
       \<or> head_newer (version_of m') (version_of (new_message 1 ''{}'' demo_payload demo_append 100))"
    by (simp add: demo_three_log new_message_def version_of_def head_newer_def demo_append_def
        demo_lower_def to_append_def compaction_enabled_def demo_payload_def)
  moreover have "msg_key (new_message 1 ''{}'' demo_payload demo_append 100) = Some ''k''"
    "msg_rank (new_message 1 ''{}'' demo_payload demo_append 100) \<noteq> None"
    "new_message 1 ''{}'' demo_payload demo_append 100 \<in> set (message_log (ps_db demo_three))"
    by (simp_all add: demo_three_log new_message_def demo_append_def to_append_def compaction_enabled_def)
  moreover have "\<forall>(k::nat) s. append_history 10 s \<longrightarrow> append_history 10 (tn_others (quiet_turn Commit_Ok) s)"
    by (simp add: quiet_turn_def)
  ultimately show ?thesis
    using current_version_is_the_newest [OF demo_two_history, where script = "\<lambda>_. quiet_turn Commit_Ok"
        and ended = "\<lambda>_. False" and p = demo_retry and func = "\<lambda>_. Inr demo_payload" and a = demo_lower,
        OF _ prod.collapse [symmetric]]
    unfolding demo_three_def [symmetric] by blast
qed


section \<open>Healing a missing partition\<close>

text \<open>An append that runs into the end of the last partition still lands: the id it drew is
  burnt, one heal creates the partition of the next id, and the rerun stores the message under it,
  within a single attempt of the retry loop.\<close>

theorem boundary_is_healed:
  assumes "\<forall>k. tn_begin (script k) = None \<and> tn_commit (script k) = Commit_Ok
      \<and> (\<forall>s. tn_others (script k) s = s) \<and> tn_reject (script k) a = None"
    and "\<not> ended 0" "1 \<le> max_retries p"
    and "\<forall>k. func k = Inr q" "pm_encoded q = Some enc" "1 \<le> pm_version q"
    and "ap_key a \<notin> ik_key ` set (idempotency_keys (ps_db s))"
    and "(ps_last s + 1) div psize \<notin> set (ps_parts s)"
  shows "\<exists>s'. append_message script ended p psize func a s
      = (Inr \<lparr>ad_message = q, ad_id = ps_last s + 2, ad_duplicate = False\<rparr>, s')
    \<and> (ps_last s + 2) div psize \<in> set (ps_parts s') \<and> length (message_log (ps_db s')) = length (message_log (ps_db s)) + 1"
proof -
  let ?s1 = "s\<lparr>ps_last := ps_last s + 1, ps_turn := Suc (ps_turn s)\<rparr>"
  let ?s2 = "?s1\<lparr>ps_parts := List.insert ((ps_last s + 2) div psize) (ps_parts s), ps_turn := Suc (Suc (ps_turn s))\<rparr>"
  have turn: "next_turn script u = (script (ps_turn u), u\<lparr>ps_turn := Suc (ps_turn u)\<rparr>)" for u
    using assms(1) by (simp add: next_turn_def Let_def)
  have first: "append_message_transaction script psize func a s = (Inl ((), missing_partition), ?s1)"
    using assms by (cases s) (simp add: append_message_transaction_def in_transaction_def turn run_insert_def
        bad_version_def protected_insert_def Let_def)
  have heal: "create_next_id_partition script psize ?s1 = (Inr (), ?s2)"
    using assms(1) by (cases s) (simp add: create_next_id_partition_def turn ensure_covering_partition_def ac_simps)
  have second: "\<exists>s'. append_message_transaction script psize func a ?s2
      = (Inr \<lparr>ad_message = q, ad_id = ps_last s + 2, ad_duplicate = False\<rparr>, s')
      \<and> ps_parts s' = ps_parts ?s2 \<and> length (message_log (ps_db s')) = length (message_log (ps_db s)) + 1"
    using assms by (simp add: append_message_transaction_def in_transaction_def turn run_insert_def
        bad_version_def protected_insert_def Let_def to_appended_def add.commute)
  then obtain s' where s': "append_message_transaction script psize func a ?s2
      = (Inr \<lparr>ad_message = q, ad_id = ps_last s + 2, ad_duplicate = False\<rparr>, s')"
    "ps_parts s' = ps_parts ?s2" "length (message_log (ps_db s')) = length (message_log (ps_db s)) + 1" by blast
  have missing: "is_missing_partition missing_partition" by code_simp
  obtain s1 s2 where u: "s1 = ?s1" "s2 = ?s2" by blast
  have "insert_until_covered (append_message_transaction script psize func a)
      (create_next_id_partition script psize) (nat (max_retries p)) s2
      = (Inr \<lparr>ad_message = q, ad_id = ps_last s + 2, ad_duplicate = False\<rparr>, s')"
    by (subst insert_until_covered.simps) (simp only: s'(1) u(2) prod.case sum.case)
  then have "insert_until_covered (append_message_transaction script psize func a)
      (create_next_id_partition script psize) (Suc (nat (max_retries p))) s
      = (Inr \<lparr>ad_message = q, ad_id = ps_last s + 2, ad_duplicate = False\<rparr>, s')"
    using first heal missing unfolding u(2) [symmetric] unfolding u(1) [symmetric]
    by (subst insert_until_covered.simps) simp
  then have "append_message script ended p psize func a s
      = (Inr \<lparr>ad_message = q, ad_id = ps_last s + 2, ad_duplicate = False\<rparr>, s')"
    using assms(2,3) by (cases "nat (max_retries p)")
      (simp_all add: append_message_def wrap_idempotent_def heal_budget_def)
  with s' show ?thesis by simp
qed

theorem boundary_is_healed_witness:
  "fst (append_message (\<lambda>_. quiet_turn Commit_Ok) (\<lambda>_. False) demo_retry 10 (\<lambda>_. Inr demo_payload)
     demo_append (demo_produce\<lparr>ps_last := 9\<rparr>)) = Inr \<lparr>ad_message = demo_payload, ad_id = 11, ad_duplicate = False\<rparr>"
  using boundary_is_healed [where script = "\<lambda>_. quiet_turn Commit_Ok" and ended = "\<lambda>_. False" and p = demo_retry
      and func = "\<lambda>_. Inr demo_payload" and a = demo_append and s = "demo_produce\<lparr>ps_last := 9\<rparr>" and psize = 10
      and q = demo_payload and enc = "''{}''"]
  by (auto simp: quiet_turn_def demo_retry_def demo_payload_def demo_produce_def empty_db_def)

section \<open>A batch is one transaction\<close>

lemma insert_batch_effect:
  "insert_batch psize t i as s = (Inr bs, s') \<Longrightarrow>
   length bs = length as \<and> (\<exists>rows. message_log (ps_db s') = message_log (ps_db s) @ rows
     \<and> map msg_id rows = map ad_id (filter (\<lambda>b. \<not> ad_duplicate b) bs))
   \<and> ik_key ` set (idempotency_keys (ps_db s')) = ik_key ` set (idempotency_keys (ps_db s)) \<union> ap_key ` set as"
proof (induction as arbitrary: i s bs)
  case (Cons a as)
  obtain p where p: "ap_payload a = Some p" using Cons.prems by (cases "ap_payload a") auto
  obtain r s1 where r: "protected_insert psize t p a s = (r, s1)" by fastforce
  obtain oi where oi: "r = Inr oi" using Cons.prems p r by (cases r) auto
  obtain cs where cs: "insert_batch psize t (i + 1) as s1 = (Inr cs, s')" "bs = to_appended p oi # cs"
    using Cons.prems p r oi by (auto split: sum.splits prod.splits)
  note IH = Cons.IH [OF cs(1)]
  show ?case
  proof (cases rule: protected_insert_cases [of psize t p a s])
    case already
    with r oi IH cs show ?thesis by (auto simp: to_appended_def)
  next
    case (stored enc s2)
    obtain rows where rows: "message_log (ps_db s') = message_log (ps_db s1) @ rows"
      "map msg_id rows = map ad_id (filter (\<lambda>b. \<not> ad_duplicate b) cs)" using IH by blast
    have s1: "s1 = s2" "oi = Some (ps_last s + 1)" using r oi stored(1) by simp_all
    show ?thesis
      using IH rows s1 stored(7,8) cs(2)
      by (auto simp: to_appended_def new_message_def intro!: exI [of _ "new_message (ps_last s + 1) enc p a (tn_now t) # rows"])
  qed (use r oi in simp_all)
qed auto

text \<open>A batch transaction lands whole or not at all: when it answers, every message of the batch
  is claimed, in order, and the rows added are exactly those not reported as duplicates; when it
  fails, the tables are as they were, unless it is the confirmation of its commit that was lost, and
  then the whole batch landed.\<close>

theorem batch_is_all_or_nothing:
  assumes "append_batch_transaction script psize as s = (res, s')" "next_turn script s = (t, s0)"
  shows "(\<exists>e. res = Inl e) \<and> ps_db s' = ps_db s0
    \<or> (\<exists>bs rows. (res = Inr bs \<or> (\<exists>e. tn_commit t = Commit_Unknown e \<and> res = Inl (- 1, e)))
        \<and> length bs = length as \<and> message_log (ps_db s') = message_log (ps_db s0) @ rows
        \<and> map msg_id rows = map ad_id (filter (\<lambda>b. \<not> ad_duplicate b) bs)
        \<and> ap_key ` set as \<subseteq> ik_key ` set (idempotency_keys (ps_db s')))"
proof (cases "tn_begin t")
  case None
  let ?body = "case first_index unencodable as of
      Some i \<Rightarrow> (Inl (int i, not_encodable), s0)
    | None \<Rightarrow> insert_batch psize t 0 as s0"
  obtain r s1 where r: "?body = (r, s1)" by fastforce
  show ?thesis
  proof (cases r)
    case (Inl e)
    with assms None r show ?thesis by (auto simp: append_batch_transaction_def in_transaction_def)
  next
    case (Inr bs)
    then have "insert_batch psize t 0 as s0 = (Inr bs, s1)" using r by (auto split: option.splits)
    from insert_batch_effect [OF this] assms None r Inr show ?thesis
      by (auto simp: append_batch_transaction_def in_transaction_def split: commit_fate.splits)
  qed
qed (use assms in \<open>auto simp: append_batch_transaction_def in_transaction_def\<close>)

theorem batch_is_all_or_nothing_witness:
  "\<exists>rows. length rows = 2 \<and> message_log (ps_db (snd (append_batch_transaction (\<lambda>_. quiet_turn Commit_Ok) 10
     [demo_append, demo_lower] demo_produce))) = rows"
proof -
  let ?r = "append_batch_transaction (\<lambda>_. quiet_turn Commit_Ok) 10 [demo_append, demo_lower] demo_produce"
  have ok: "case fst ?r of Inr bs \<Rightarrow> length (filter (\<lambda>b. \<not> ad_duplicate b) bs) = 2 | Inl e \<Rightarrow> False"
    by code_simp
  then obtain bs where bs: "fst ?r = Inr bs" "length (filter (\<lambda>b. \<not> ad_duplicate b) bs) = 2"
    by (cases "fst ?r") auto
  then have "?r = (Inr bs, snd ?r)" by (metis prod.collapse)
  from batch_is_all_or_nothing [OF this, of "quiet_turn Commit_Ok" "demo_produce\<lparr>ps_turn := 1\<rparr>"] bs
  obtain rows where "message_log (ps_db (snd ?r)) = message_log (ps_db demo_produce) @ rows"
    "map msg_id rows = map ad_id (filter (\<lambda>b. \<not> ad_duplicate b) bs)"
    by (auto simp: next_turn_def quiet_turn_def demo_produce_def)
  with bs(2) show ?thesis by (metis append_Nil demo_produce_def empty_db_def length_map produce_state.select_convs(1) stream_db.select_convs(1))
qed


section \<open>Creating partitions ahead\<close>

definition near :: "(rat \<Rightarrow> rat) \<Rightarrow> bool" where
  "near fl \<longleftrightarrow> (\<forall>x. \<bar>fl x - x\<bar> \<le> \<bar>x\<bar> / 2 ^ 53)"

lemma near_bounds:
  assumes "near fl" "l \<le> x" "x \<le> u" "0 \<le> l"
  shows "l - u / 2 ^ 53 \<le> fl x \<and> fl x \<le> u + u / 2 ^ 53"
proof -
  have "\<bar>fl x - x\<bar> \<le> \<bar>x\<bar> / 2 ^ 53" using assms(1) by (simp add: near_def)
  moreover have "\<bar>x\<bar> / 2 ^ 53 \<le> u / 2 ^ 53" using assms(2-4) by (simp add: divide_right_mono)
  ultimately show ?thesis using assms(2,3) by linarith
qed

lemma claim_id_bounds:
  assumes fl: "near fl" and q: "0 \<le> q" "q < 2 ^ 40" and c: "c = 80 \<or> c = 95"
  shows "100 * q + c - 1 \<le> create_claim_id fl q (fl (of_int c / 100))
    \<and> create_claim_id fl q (fl (of_int c / 100)) \<le> 100 * q + c"
proof -
  let ?q = "of_int q :: rat" and ?c = "of_int c :: rat"
  have c': "0 \<le> ?c" "?c \<le> 95" using c by auto
  have q': "0 \<le> ?q" "?q \<le> 2 ^ 40" using q by (simp, metis of_int_le_iff of_int_numeral of_int_power order_less_imp_le)
  have e: "(1::rat) / 2 ^ 53 * 2 ^ 40 \<le> 1 / 8000" by simp
  have a: "?c / 100 - 1 / 2 ^ 53 \<le> fl (?c / 100)" "fl (?c / 100) \<le> ?c / 100 + 1 / 2 ^ 53"
    using near_bounds [OF fl, of "?c / 100" "?c / 100" "?c / 100"] c' by (auto simp: field_simps)
  have f: "?q - 1 / 8000 \<le> fl ?q" "fl ?q \<le> ?q + 1 / 8000"
    using near_bounds [OF fl, of ?q ?q ?q] q' by (auto simp: field_simps)
  have s: "?q + ?c / 100 - 1 / 2000 \<le> fl (fl ?q + fl (?c / 100))"
    "fl (fl ?q + fl (?c / 100)) \<le> ?q + ?c / 100 + 1 / 2000"
    using near_bounds [OF fl, of "?q + ?c / 100 - 1 / 4000" "fl ?q + fl (?c / 100)" "?q + ?c / 100 + 1 / 4000"]
      a f q' c by (auto simp: field_simps)
  have x: "100 * ?q + ?c - 1 / 2 \<le> fl (fl (fl ?q + fl (?c / 100)) * 100)"
    "fl (fl (fl ?q + fl (?c / 100)) * 100) \<le> 100 * ?q + ?c + 1 / 2"
    using near_bounds [OF fl, of "100 * ?q + ?c - 1 / 20" "fl (fl ?q + fl (?c / 100)) * 100" "100 * ?q + ?c + 1 / 20"]
      s q' c by (auto simp: field_simps)
  have "0 \<le> fl (fl (fl ?q + fl (?c / 100)) * 100)" using x(1) q' c by auto
  then have t: "create_claim_id fl q (fl (of_int c / 100)) = \<lfloor>fl (fl (fl ?q + fl (?c / 100)) * 100)\<rfloor>"
    by (simp add: create_claim_id_def trunc_def)
  have "of_int (100 * q + c - 1) \<le> fl (fl (fl ?q + fl (?c / 100)) * 100)"
    "fl (fl (fl ?q + fl (?c / 100)) * 100) < of_int (100 * q + c + 1)" using x by simp_all
  then show ?thesis unfolding t by (simp add: le_floor_iff) linarith
qed

lemma no_trigger_at_zero:
  assumes fl: "near fl" and p: "2 \<le> psize" and c: "c = 80 \<or> c = 95"
  shows "0 < trigger_point_id fl 0 psize (fl (of_int c / 100))"
proof -
  let ?p = "of_int psize :: rat" and ?c = "of_int c :: rat"
  have c': "80 \<le> ?c" "?c \<le> 95" using c by auto
  have p': "2 \<le> ?p" using p by simp
  have a: "79 / 100 \<le> fl (?c / 100)" "fl (?c / 100) \<le> 96 / 100"
    using near_bounds [OF fl, of "80 / 100" "?c / 100" "95 / 100"] c' by (auto simp: field_simps)
  have f: "?p * (99 / 100) \<le> fl ?p" "fl ?p \<le> ?p * (101 / 100)"
    using near_bounds [OF fl, of ?p ?p ?p] p' by (auto simp: field_simps)
  have l: "?p * (99 / 100) * (79 / 100) \<le> fl ?p * fl (?c / 100)"
    using a f p' by (intro mult_mono) auto
  have u: "fl ?p * fl (?c / 100) \<le> ?p * (101 / 100) * (96 / 100)"
    using a f p' by (intro mult_mono) auto
  have "1 \<le> fl (fl ?p * fl (?c / 100))" using near_bounds [OF fl l u] p' by (auto simp: field_simps)
  then show ?thesis by (simp add: trigger_point_id_def trunc_def)
qed

text \<open>The create-ahead gate hands out its claims in one order: with every floating operation
  rounded to 53 bits, the claims of a partition's two trigger points come one after the other and
  before those of the next partition, so a claim that was won is never won again; and a duplicate,
  whose id is zero, is at no trigger point of a partition of two rows or more.\<close>

theorem create_ahead_claims_are_ordered:
  assumes "\<forall>x. \<bar>fl x - x\<bar> \<le> \<bar>x\<bar> / 2 ^ 53" "0 \<le> q" "q < 2 ^ 40 - 1" "2 \<le> psize"
  shows "create_claim_id fl q (fl (8 / 10)) < create_claim_id fl q (fl (95 / 100))
    \<and> create_claim_id fl q (fl (95 / 100)) < create_claim_id fl (q + 1) (fl (8 / 10))
    \<and> 0 \<le> create_claim_id fl q (fl (8 / 10))
    \<and> should_trigger_with_id fl psize 0 attempted = (False, attempted)"
proof -
  have fl: "near fl" using assms(1) by (simp add: near_def)
  note b = claim_id_bounds [OF fl, of _ 80, simplified] claim_id_bounds [OF fl, of _ 95, simplified]
  have z: "0 < trigger_point_id fl 0 psize (fl (4 / 5))" "0 < trigger_point_id fl 0 psize (fl (19 / 20))"
    using no_trigger_at_zero [OF fl assms(4), of 80] no_trigger_at_zero [OF fl assms(4), of 95] by simp_all
  have "should_trigger_with_id fl psize 0 attempted = (False, attempted)"
    using z by (simp add: should_trigger_with_id_def is_trigger_point_id_def trigger_percentages_def)
  with b(1) [of q] b(2) [of q] b(1) [of "q + 1"] assms(2,3) show ?thesis by simp
qed

theorem create_ahead_claims_are_ordered_witness:
  "create_claim_id id 1 (8 / 10) = 180 \<and> create_claim_id id 1 (8 / 10) < create_claim_id id 1 (95 / 100)"
  using create_ahead_claims_are_ordered [of id 1 10 0]
  by (simp add: create_claim_id_def trunc_def)

section \<open>Derived idempotency keys\<close>

text \<open>Whatever the hash answers, a derived idempotency key is a well-formed name-based UUID:
  sixteen bytes, version 5, the RFC 4122 variant, and every other bit from the hash.\<close>

theorem derived_key_is_a_version_5_uuid:
  assumes "16 \<le> length (h (space @ data))" "u = new_sha1_uuid h space data"
  shows "length u = 16 \<and> drop_bit 4 (u ! 6) = 5 \<and> drop_bit 6 (u ! 8) = 2
    \<and> take_bit 4 (u ! 6) = take_bit 4 (h (space @ data) ! 6)
    \<and> (\<forall>i < 16. i \<noteq> 6 \<longrightarrow> i \<noteq> 8 \<longrightarrow> u ! i = h (space @ data) ! i)"
proof -
  have "drop_bit 4 (or (and b 0x0f) (push_bit 4 (and 5 0x0f))) = (5::8 word)"
    "take_bit 4 (or (and b 0x0f) (push_bit 4 (and 5 0x0f))) = take_bit 4 b"
    "drop_bit 6 (or (and b 0x3f) 0x80) = (2::8 word)" for b :: "8 word"
  proof -
    have n: "drop_bit 4 (15::8 word) = 0" "drop_bit 6 (63::8 word) = 0" "drop_bit 6 (128::8 word) = 2"
      "push_bit 4 (and 5 15) = (80::8 word)" "drop_bit 4 (80::8 word) = 5" "take_bit 4 (80::8 word) = 0"
      "take_bit 4 (15::8 word) = mask 4" by code_simp+
    show "drop_bit 4 (or (and b 0x0f) (push_bit 4 (and 5 0x0f))) = (5::8 word)"
      "drop_bit 6 (or (and b 0x3f) 0x80) = (2::8 word)" by (simp_all add: drop_bit_or drop_bit_and n)
    show "take_bit 4 (or (and b 0x0f) (push_bit 4 (and 5 0x0f))) = take_bit 4 b"
      unfolding n(4) take_bit_or take_bit_and n(6,7) by (simp add: take_bit_eq_mask)
  qed
  then show ?thesis using assms
    by (auto simp: new_sha1_uuid_def new_hash_uuid_def Let_def nth_list_update)
qed

theorem derived_key_is_a_version_5_uuid_witness:
  "drop_bit 4 (new_sha1_uuid (\<lambda>_. replicate 20 0xff) key_namespace [1, 2] ! 6) = 5"
  using derived_key_is_a_version_5_uuid [of "\<lambda>_. replicate 20 0xff" key_namespace "[1, 2]"] by simp

end
