(* ===== verification/Produce_In_Tx.thy ===== *)
theory Produce_In_Tx
  imports Produce_Properties
begin

text \<open>
  The controller's entry points, and appends inside a transaction the caller owns: every insert runs
  in a savepoint of its own, and no statement is retried but for a missing partition. \<open>held\<close> says
  that the caller's transaction already wrote to the stream: it then holds the lock on the log that
  creating a partition, on another connection, waits for.
\<close>

definition lock_not_available :: wire_error where
  "lock_not_available = [Pg_Error ''55P03'' ''canceling statement due to lock timeout'']"

definition is_lock_not_available :: "wire_error \<Rightarrow> bool" where
  "is_lock_not_available e \<longleftrightarrow> (case pg_error e of None \<Rightarrow> False | Some (c, m) \<Rightarrow> c = ''55P03'')"

definition is_missing_table :: "wire_error \<Rightarrow> bool" where
  "is_missing_table e \<longleftrightarrow> (case pg_error e of None \<Rightarrow> False | Some (c, m) \<Rightarrow> c = ''42P01'')"

text \<open>One savepoint: a release that fails takes the insert back like any other failure.\<close>

definition run_insert_savepoint ::
  "(nat \<Rightarrow> turn) \<Rightarrow> int \<Rightarrow> (nat \<Rightarrow> wire_error + producer_message) \<Rightarrow> append_data \<Rightarrow> produce_state
   \<Rightarrow> (unit \<times> wire_error + appended) \<times> produce_state" where
  "run_insert_savepoint script psize func a s = (case next_turn script s of (t, s0) \<Rightarrow>
     (case tn_begin t of
        Some e \<Rightarrow> (Inl ((), e), s0)
      | None \<Rightarrow> (case run_insert psize func a t s0 of
            (Inl e, s1) \<Rightarrow> (Inl e, s1\<lparr>ps_db := ps_db s0\<rparr>)
          | (Inr r, s1) \<Rightarrow> (case tn_commit t of
                Commit_Ok \<Rightarrow> (Inr r, s1)
              | Commit_Lost e \<Rightarrow> (Inl ((), e), s1\<lparr>ps_db := ps_db s0\<rparr>)
              | Commit_Unknown e \<Rightarrow> (Inl ((), e), s1\<lparr>ps_db := ps_db s0\<rparr>)))))"

definition create_partition_from_tx ::
  "(nat \<Rightarrow> turn) \<Rightarrow> bool \<Rightarrow> int \<Rightarrow> produce_state \<Rightarrow> (wire_error + unit) \<times> produce_state" where
  "create_partition_from_tx script held psize s =
     (if held then (case next_turn script s of (t, s0) \<Rightarrow>
        (Inl (case tn_begin t of None \<Rightarrow> lock_not_available | Some e \<Rightarrow> e), s0))
      else create_next_id_partition script psize s)"

definition append_message_in_tx ::
  "(nat \<Rightarrow> turn) \<Rightarrow> bool \<Rightarrow> retry_policy \<Rightarrow> int \<Rightarrow> (nat \<Rightarrow> wire_error + producer_message)
   \<Rightarrow> append_data \<Rightarrow> produce_state \<Rightarrow> (unit \<times> wire_error + appended) \<times> produce_state" where
  "append_message_in_tx script held p psize func a =
     insert_until_covered (run_insert_savepoint script psize func a)
       (create_partition_from_tx script held psize) (heal_budget p)"

section \<open>The controller\<close>

datatype append_error = Bad_Stream_Id int | Bad_Options option_error | Append_Failed wire_error

definition append_message_checked ::
  "(nat \<Rightarrow> turn) \<Rightarrow> (nat \<Rightarrow> bool) \<Rightarrow> retry_policy \<Rightarrow> int \<Rightarrow> int \<Rightarrow> uuid
   \<Rightarrow> (nat \<Rightarrow> wire_error + producer_message) \<Rightarrow> produce_options \<Rightarrow> produce_state
   \<Rightarrow> (append_error + appended) \<times> produce_state" where
  "append_message_checked script ended p stream psize key func opts s =
     (if stream \<le> 0 then (Inl (Bad_Stream_Id stream), s)
      else (case validate_produce opts of
          Some e \<Rightarrow> (Inl (Bad_Options e), s)
        | None \<Rightarrow> (case append_message script ended p psize func (to_append key None opts) s of
              (Inl (_, e), s1) \<Rightarrow> (Inl (Append_Failed e), s1)
            | (Inr r, s1) \<Rightarrow> (Inr r, s1))))"

definition append_in_tx_checked ::
  "(nat \<Rightarrow> turn) \<Rightarrow> bool \<Rightarrow> retry_policy \<Rightarrow> int \<Rightarrow> int \<Rightarrow> uuid
   \<Rightarrow> (nat \<Rightarrow> wire_error + producer_message) \<Rightarrow> produce_options \<Rightarrow> produce_state
   \<Rightarrow> (append_error + appended) \<times> produce_state" where
  "append_in_tx_checked script held p stream psize key func opts s =
     (if stream \<le> 0 then (Inl (Bad_Stream_Id stream), s)
      else (case validate_produce opts of
          Some e \<Rightarrow> (Inl (Bad_Options e), s)
        | None \<Rightarrow> (case append_message_in_tx script held p psize func (to_append key None opts) s of
              (Inl (_, e), s1) \<Rightarrow> (Inl (Append_Failed e), s1)
            | (Inr r, s1) \<Rightarrow> (Inr r, s1))))"

section \<open>What a failed append leaves behind\<close>

lemma covered_failure:
  assumes ins: "\<And>s ie s1. P s \<Longrightarrow> ins s = (Inl ie, s1) \<Longrightarrow> P s1" and heal: "\<And>s. P s \<Longrightarrow> P (snd (heal s))"
    and "P s" "insert_until_covered ins heal heals s = (Inl ie, s')"
  shows "P s'"
  using assms(3,4)
proof (induction heals arbitrary: s)
  case 0
  then show ?case
    by (subst (asm) insert_until_covered.simps) (auto split: sum.splits prod.splits if_splits intro: ins)
next
  case (Suc heals)
  obtain r s1 where r: "ins s = (r, s1)" by fastforce
  obtain q s2 where q: "heal s1 = (q, s2)" by fastforce
  have s1: "P s1" if "r = Inl x" for x using ins [OF Suc.prems(1)] r that by simp
  then have s2: "P s2" if "r = Inl x" for x using heal [of s1] q that by simp
  show ?case
    using Suc.prems(2) r q s1 s2 Suc.IH [of s2]
    by (subst (asm) insert_until_covered.simps) (auto split: sum.splits prod.splits if_splits)
qed

lemma savepoint_failure:
  assumes "\<And>k s. ps_db (tn_others (script k) s) = ps_db s"
    and "run_insert_savepoint script psize func a s = (Inl e, s')"
  shows "ps_db s' = ps_db s"
  using assms(2)
  by (auto simp: run_insert_savepoint_def next_turn_def Let_def assms(1)
      split: option.splits sum.splits prod.splits commit_fate.splits)

lemma savepoint_success:
  assumes "run_insert_savepoint script psize func a s = (Inr r, s')"
  obtains t s0 where "next_turn script s = (t, s0)" "run_insert psize func a t s0 = (Inr r, s')"
  using assms
  by (auto simp: run_insert_savepoint_def split: option.splits sum.splits prod.splits commit_fate.splits)

lemma partition_from_tx_keeps_db:
  assumes "\<And>k s. ps_db (tn_others (script k) s) = ps_db s"
  shows "ps_db (snd (create_partition_from_tx script held psize s)) = ps_db s"
  by (auto simp: create_partition_from_tx_def create_next_id_partition_def ensure_covering_partition_def
      next_turn_def Let_def assms split: option.splits commit_fate.splits)

text \<open>An append in the caller's transaction is all or nothing: when it fails, whatever the
  number of partitions healed on the way, nothing of it is left in the tables, so the caller's other
  writes stand as they were and the transaction can go on.\<close>

theorem failed_append_in_tx_leaves_nothing:
  assumes "\<forall>k s. ps_db (tn_others (script k) s) = ps_db s"
    and "append_message_in_tx script held p psize func a s = (Inl e, s')"
  shows "ps_db s' = ps_db s"
  using assms(2) unfolding append_message_in_tx_def
  by (rule covered_failure [where P = "\<lambda>u. ps_db u = ps_db s", rotated 3])
    (use assms(1) savepoint_failure partition_from_tx_keeps_db in metis)+

definition demo_full :: produce_state where
  "demo_full = \<lparr>ps_db = ps_db demo_two, ps_last = 9, ps_parts = [0], ps_attempted = - 1, ps_turn = 0\<rparr>"

lemma demo_blocked: "fst (append_message_in_tx (\<lambda>_. quiet_turn Commit_Ok) True demo_retry 10
    (\<lambda>_. Inr demo_payload) demo_lower demo_full) = Inl ((), lock_not_available)"
  by code_simp

theorem failed_append_in_tx_leaves_nothing_witness:
  "ps_db (snd (append_message_in_tx (\<lambda>_. quiet_turn Commit_Ok) True demo_retry 10
    (\<lambda>_. Inr demo_payload) demo_lower demo_full)) = ps_db demo_full"
  by (rule failed_append_in_tx_leaves_nothing [where script = "\<lambda>_. quiet_turn Commit_Ok" and held = True
        and e = "((), lock_not_available)"])
    (simp_all add: quiet_turn_def prod_eq_iff flip: demo_blocked)

section \<open>The second append of one transaction\<close>

text \<open>A transaction that already appended a message cannot cross into a partition that does not
  exist: the heal waits for the lock the transaction itself holds until its timeout, so the append
  fails although the same append alone in a transaction is healed and lands.\<close>

theorem second_append_in_tx_cannot_heal:
  "fst (append_message_in_tx (\<lambda>_. quiet_turn Commit_Ok) True demo_retry 10 (\<lambda>_. Inr demo_payload) demo_lower
     demo_full) = Inl ((), lock_not_available)
   \<and> map_sum id ad_id (fst (append_message_in_tx (\<lambda>_. quiet_turn Commit_Ok) False demo_retry 10
       (\<lambda>_. Inr demo_payload) demo_lower demo_full)) = Inr 11"
  by code_simp

end
