(* ===== verification/Batcher_Properties.thy ===== *)
theory Batcher_Properties
  imports Batcher Produce_Properties
begin

text \<open>
  What a produce that went through a shared transaction is told: every operation of a batch is
  answered once, an accepted one is durable, and one fault of attribution.
\<close>

section \<open>Attempts answer for their batch\<close>

text \<open>
  The contract \<open>resolveBatch\<close> relies on: a success answers for every operation, a failure's index
  is one of the batch, and what holds of the state before an attempt that no attempt disturbs holds
  after it.
\<close>

locale batch_attempt =
  fixes attempt :: "batch_operation list \<Rightarrow> 's \<Rightarrow> (int \<times> wire_error + appended list) \<times> 's"
  assumes answers: "attempt xs s = (Inr as, s') \<Longrightarrow> length as = length xs"
    and index: "attempt xs s = (Inl (i, e), s') \<Longrightarrow> xs \<noteq> [] \<Longrightarrow> i < int (length xs)"
begin

lemma mset_remove:
  assumes "i < length xs"
  shows "mset (map f xs) = add_mset (f (xs ! i)) (mset (map f (batch_remove i xs)))"
proof -
  have "xs = take i xs @ xs ! i # drop (Suc i) xs" by (rule id_take_nth_drop [OF assms])
  then have "mset xs = add_mset (xs ! i) (mset (take i xs @ drop (Suc i) xs))"
    by (metis mset.simps(2) mset_append union_mset_add_mset_right)
  then show ?thesis by (simp add: batch_remove_def new_batch_def)
qed

lemma resolves_with:
  "a = attempt \<Longrightarrow> \<exists>outs s'. resolve_batch a xs s = Some (outs, s')
     \<and> mset (map fst outs) = mset (map bo_caller xs)"
  "a = attempt \<Longrightarrow> \<exists>outs s'. resolve_each a xs s = Some (outs, s')
     \<and> mset (map fst outs) = mset (map bo_caller xs)"
proof (induction a xs s and a xs s rule: resolve_batch_resolve_each.induct)
  case (1 a xs s)
  note a = 1(3)
  note IH = 1(1,2) [unfolded a, OF _ _ _ _ _ _ refl]
  obtain r s1 where r: "attempt xs s = (r, s1)" by fastforce
  have "\<exists>outs s'. resolve_batch attempt xs s = Some (outs, s')
     \<and> mset (map fst outs) = mset (map bo_caller xs)"
  proof (cases "xs = []")
    case False
    note ne = False
    show ?thesis
    proof (cases r)
      case (Inr as)
      then show ?thesis using r answers [of xs s as s1] by (subst resolve_batch.simps) (auto simp flip: mset_map)
    next
      case (Inl f)
      obtain i e where f: "f = (i, e)" by fastforce
      have i: "i < int (length xs)" using index r Inl f ne by simp
      show ?thesis
      proof (cases "classify_batch_failure e i")
        case Fail_Batch
        then show ?thesis using r Inl f by (subst resolve_batch.simps) (auto simp: comp_def simp flip: mset_map)
      next
        case Evict_Statement
        then have n: "nat i < length xs" using i by (auto simp: classify_batch_failure_def split: if_splits)
        obtain outs s' where o: "resolve_batch attempt (batch_remove (nat i) xs) s1 = Some (outs, s')"
          "mset (map fst outs) = mset (map bo_caller (batch_remove (nat i) xs))"
          using IH(1) [OF ne r [symmetric] Inl f [symmetric] Evict_Statement i] by blast
        show ?thesis
          using r Inl f ne i Evict_Statement o mset_remove [OF n, of bo_caller]
          by (subst resolve_batch.simps) simp
      next
        case Split_Batch
        show ?thesis
        proof (cases "length xs = 1")
          case True
          then show ?thesis using r Inl f ne Split_Batch
            by (subst resolve_batch.simps) (auto simp: length_Suc_conv)
        next
          case False
          obtain outs s' where "resolve_each attempt xs s1 = Some (outs, s')"
            "mset (map fst outs) = mset (map bo_caller xs)"
            using IH(2) [OF ne r [symmetric] Inl f [symmetric] Split_Batch False] by blast
          then show ?thesis using r Inl f ne False Split_Batch by (subst resolve_batch.simps) simp
        qed
      qed
    qed
  qed (simp add: resolve_batch.simps)
  then show ?case by (simp add: a)
next
  case (3 a x xs s)
  then obtain outs s1 where o: "resolve_batch a (new_batch [x]) s = Some (outs, s1)"
    "mset (map fst outs) = mset (map bo_caller (new_batch [x]))" by blast
  with 3 obtain outs' s2 where "resolve_each a xs s1 = Some (outs', s2)"
    "mset (map fst outs') = mset (map bo_caller xs)" by blast
  with o show ?case by simp
qed simp

lemmas resolves = resolves_with(1) [OF refl]

end

section \<open>The controller's attempts\<close>

text \<open>Whatever all single runs answer, the loops around them answer.\<close>

lemma retry_loop_answer:
  assumes "\<And>s. \<forall>i e s'. run s = (Inl (i, e), s') \<longrightarrow> ok i" "ok i"
  shows "retry_loop retryable ended run left spent i errs s = (Inl (j, e), s') \<Longrightarrow> ok j"
  using assms(2)
proof (induction left arbitrary: spent i errs s)
  case (Suc left)
  obtain r s1 where r: "run s = (r, s1)" by fastforce
  with Suc assms(1) [rule_format, of s] show ?case by (auto split: if_splits sum.splits prod.splits)
qed simp

lemma covered_answer:
  assumes "\<And>s. \<forall>i e s'. ins s = (Inl (i, e), s') \<longrightarrow> ok i"
  shows "insert_until_covered ins heal heals s = (Inl (j, e), s') \<Longrightarrow> ok j"
proof (induction heals arbitrary: s)
  case 0
  then show ?case using assms [rule_format, of s]
    by (subst (asm) insert_until_covered.simps) (auto split: if_splits sum.splits prod.splits)
next
  case (Suc heals)
  then show ?case using assms [rule_format, of s]
    by (subst (asm) insert_until_covered.simps) (auto split: if_splits sum.splits prod.splits)
qed

lemma insert_batch_index:
  "insert_batch psize t i as s = (Inl (j, e), s') \<Longrightarrow> i \<le> j \<and> j < i + int (length as)"
proof (induction as arbitrary: i s)
  case (Cons a as)
  show ?case
  proof (cases "ap_payload a")
    case (Some p)
    obtain r s1 where r: "protected_insert psize t p a s = (r, s1)" by fastforce
    show ?thesis
    proof (cases r)
      case (Inr oi)
      then have "insert_batch psize t (i + 1) as s1 = (Inl (j, e), s')"
        using Cons.prems Some r by (auto split: sum.splits prod.splits)
      from Cons.IH [OF this] show ?thesis by simp
    qed (use Cons.prems Some r in auto)
  qed (use Cons.prems in auto)
qed simp

lemma first_index_less: "first_index p xs = Some i \<Longrightarrow> i < length xs"
  by (induction xs arbitrary: i) (auto split: if_splits)

lemma batch_transaction_index:
  assumes "append_batch_transaction script psize as s = (Inl (j, e), s')" "as \<noteq> []"
  shows "j < int (length as)"
proof -
  obtain t s0 where t: "next_turn script s = (t, s0)" by fastforce
  have len: "0 < length as" using assms(2) by simp
  show ?thesis
    using assms(1) t len insert_batch_index [of psize t 0 as s0] first_index_less [of unencodable as]
    by (auto simp: append_batch_transaction_def in_transaction_def
        split: option.splits sum.splits prod.splits commit_fate.splits)
qed

lemma batch_transaction_length:
  "append_batch_transaction script psize as s = (Inr bs, s') \<Longrightarrow> length bs = length as"
  using insert_batch_effect [of psize _ 0 as]
  by (auto simp: append_batch_transaction_def in_transaction_def
      split: option.splits sum.splits prod.splits commit_fate.splits)

lemma append_batch_index:
  assumes "append_message_batch script ended p psize as s = (Inl (j, e), s')" "as \<noteq> []"
  shows "j < int (length as)"
proof -
  have run: "i < int (length as)" if "insert_until_covered (append_batch_transaction script psize as)
      (create_next_id_partition script psize) (heal_budget p) u = (Inl (i, e), u')" for u i e u'
    by (rule covered_answer [where ok = "\<lambda>i. i < int (length as)", OF _ that])
      (use batch_transaction_index assms(2) in blast)
  show ?thesis
    by (rule retry_loop_answer [where ok = "\<lambda>i. i < int (length as)", OF _ _
        assms(1) [unfolded append_message_batch_def wrap_idempotent_def]])
      (use run in auto)
qed

lemma append_batch_length:
  assumes "append_message_batch script ended p psize as s = (Inr bs, s')"
  shows "length bs = length as"
proof -
  have "\<exists>u. True \<and> insert_until_covered (append_batch_transaction script psize as)
      (create_next_id_partition script psize) (heal_budget p) u = (Inr bs, s')"
    by (rule retry_loop_success [where P = "\<lambda>_. True", OF _ _ assms [unfolded append_message_batch_def wrap_idempotent_def]])
      simp_all
  then obtain u where u: "insert_until_covered (append_batch_transaction script psize as)
      (create_next_id_partition script psize) (heal_budget p) u = (Inr bs, s')" by blast
  have "\<exists>v. True \<and> append_batch_transaction script psize as v = (Inr bs, s')"
    by (rule covered_success [where P = "\<lambda>_. True", OF _ _ _ u]) simp_all
  then show ?thesis using batch_transaction_length by blast
qed

interpretation attempts: batch_attempt "attempt_batch script ended p stream psize key_of" for script ended p stream psize key_of
proof
  fix xs s as s' assume "attempt_batch script ended p stream psize key_of xs s = (Inr as, s')"
  then show "length as = length xs"
    using append_batch_length by (fastforce simp: attempt_batch_def append_batch_checked_def split: if_splits)
next
  fix xs s i e s'
  assume "attempt_batch script ended p stream psize key_of xs s = (Inl (i, e), s')" "xs \<noteq> []"
  then show "i < int (length xs)"
    using append_batch_index by (fastforce simp: attempt_batch_def append_batch_checked_def split: if_splits)
qed

text \<open>C36: Resolving a batch always ends, whatever the attempts answer, and every operation of it is
  answered exactly once: nothing is lost when statements are evicted or the batch is taken apart,
  and no caller is answered twice.\<close>

theorem every_produce_is_answered_once:
  "\<exists>outs s'. resolve_batch (attempt_batch script ended p stream psize key_of) (new_batch xs) s = Some (outs, s')
     \<and> mset (map fst outs) = mset (map bo_caller xs)"
  using attempts.resolves [of script ended p stream psize key_of "new_batch xs" s] by (simp add: new_batch_def)

section \<open>Accepted means durable\<close>

interpretation claimed: append_kept "\<lambda>s. K \<subseteq> ik_key ` set (idempotency_keys (ps_db s))" psize "\<lambda>_ _. True"
  for K psize
proof (unfold_locales, goal_cases)
  case (1 s p a t)
  then show ?case by (cases rule: protected_insert_cases [of psize t p a s]) auto
qed simp_all

abbreviation claimed_keys :: "produce_state \<Rightarrow> uuid set" where
  "claimed_keys s \<equiv> ik_key ` set (idempotency_keys (ps_db s))"

lemma append_batch_claims:
  assumes "append_message_batch script ended p psize as s = (Inr bs, s')"
  shows "ap_key ` set as \<subseteq> claimed_keys s'"
proof -
  have "\<exists>u. True \<and> insert_until_covered (append_batch_transaction script psize as)
      (create_next_id_partition script psize) (heal_budget p) u = (Inr bs, s')"
    by (rule retry_loop_success [where P = "\<lambda>_. True", OF _ _ assms [unfolded append_message_batch_def wrap_idempotent_def]])
      simp_all
  then obtain u where u: "insert_until_covered (append_batch_transaction script psize as)
      (create_next_id_partition script psize) (heal_budget p) u = (Inr bs, s')" by blast
  have "\<exists>v. True \<and> append_batch_transaction script psize as v = (Inr bs, s')"
    by (rule covered_success [where P = "\<lambda>_. True", OF _ _ _ u]) simp_all
  then obtain v t v0 where "next_turn script v = (t, v0)" "insert_batch psize t 0 as v0 = (Inr bs, s')"
    unfolding append_batch_transaction_def by (auto elim!: transaction_success split: option.splits)
  then show ?thesis using insert_batch_effect [of psize t 0 as v0 bs s'] by auto
qed

text \<open>What an attempt accepted stays claimed, and so do the keys of the attempts before it.\<close>

locale durable_attempt = batch_attempt +
  fixes claims :: "'a \<Rightarrow> uuid set" and op_key :: "batch_operation \<Rightarrow> uuid"
  assumes grows: "claims s \<subseteq> claims (snd (attempt xs s))"
    and accepts: "attempt xs s = (Inr as, s') \<Longrightarrow> op_key ` set xs \<subseteq> claims s'"
begin

lemma grows': "attempt xs s = (r, s') \<Longrightarrow> claims s \<subseteq> claims s'"
  using grows [of s xs] by simp

definition accounted_for :: "batch_operation list \<Rightarrow> outcomes \<Rightarrow> 'a \<Rightarrow> bool" where
  "accounted_for xs outs s \<longleftrightarrow> (\<forall>c ad. (c, Inr ad) \<in> set outs \<longrightarrow>
     (\<exists>x \<in> set xs. bo_caller x = c \<and> op_key x \<in> claims s))"

lemma accounted_mono: "accounted_for xs outs s \<Longrightarrow> set xs \<subseteq> set ys \<Longrightarrow> claims s \<subseteq> claims s' \<Longrightarrow> accounted_for ys outs s'"
  unfolding accounted_for_def by blast

lemma accounted_append: "accounted_for xs (outs @ outs') s \<longleftrightarrow> accounted_for xs outs s \<and> accounted_for xs outs' s"
  by (auto simp: accounted_for_def)

lemma accounted_with:
  "a = attempt \<Longrightarrow> resolve_batch a xs s = Some (outs, s') \<Longrightarrow> claims s \<subseteq> claims s' \<and> accounted_for xs outs s'"
  "a = attempt \<Longrightarrow> resolve_each a xs s = Some (outs, s') \<Longrightarrow> claims s \<subseteq> claims s' \<and> accounted_for xs outs s'"
proof (induction a xs s and a xs s arbitrary: outs s' and outs s' rule: resolve_batch_resolve_each.induct)
  case (1 a xs s)
  note a = 1(3)
  note IH = 1(1,2) [unfolded a, OF _ _ _ _ _ _ refl]
  note res = 1(4) [unfolded a]
  obtain r s1 where r: "attempt xs s = (r, s1)" by fastforce
  have g: "claims s \<subseteq> claims s1" by (rule grows' [OF r])
  show ?case
  proof (cases "xs = []")
    case False
    note ne = False
    show ?thesis
    proof (cases r)
      case (Inr as)
      then have o: "outs = zip (map bo_caller xs) (map Inr as)" "s' = s1"
        using res r ne by (subst (asm) resolve_batch.simps; auto split: if_splits)+
      have "bo_caller x = c \<Longrightarrow> x \<in> set xs \<Longrightarrow> op_key x \<in> claims s'" for x c
        using accepts [of xs s as s1] r Inr o by auto
      then show ?thesis using g o by (auto simp: accounted_for_def dest!: set_zip_leftD)
    next
      case (Inl f)
      obtain i e where f: "f = (i, e)" by fastforce
      have failed: "accounted_for ys (map (\<lambda>x. (bo_caller x, Inl e)) zs) u" for ys zs u
        by (auto simp: accounted_for_def)
      show ?thesis
      proof (cases "classify_batch_failure e i")
        case Fail_Batch
        with res r Inl f ne g failed show ?thesis by (subst (asm) resolve_batch.simps) auto
      next
        case Evict_Statement
        then have i: "i < int (length xs)" and o: "\<exists>outs'. resolve_batch attempt (batch_remove (nat i) xs) s1 = Some (outs', s')
            \<and> outs = (bo_caller (xs ! nat i), Inl e) # outs'"
          using res r Inl f ne by (subst (asm) resolve_batch.simps; auto split: if_splits option.splits)+
        then obtain outs' where o: "resolve_batch attempt (batch_remove (nat i) xs) s1 = Some (outs', s')"
          "outs = (bo_caller (xs ! nat i), Inl e) # outs'" by blast
        have "claims s1 \<subseteq> claims s' \<and> accounted_for (batch_remove (nat i) xs) outs' s'"
          by (rule IH(1) [OF ne r [symmetric] Inl f [symmetric] Evict_Statement i o(1)])
        moreover have "set (batch_remove (nat i) xs) \<subseteq> set xs"
          by (auto simp: batch_remove_def new_batch_def dest: in_set_takeD in_set_dropD)
        ultimately show ?thesis using g o(2) accounted_mono by (fastforce simp: accounted_for_def)
      next
        case Split_Batch
        show ?thesis
        proof (cases "length xs = 1")
          case True
          then show ?thesis using res r Inl f ne g failed Split_Batch by (subst (asm) resolve_batch.simps) auto
        next
          case False
          then have "resolve_each attempt xs s1 = Some (outs, s')"
            using res r Inl f ne Split_Batch by (subst (asm) resolve_batch.simps) auto
          from IH(2) [OF ne r [symmetric] Inl f [symmetric] Split_Batch False this] g show ?thesis by blast
        qed
      qed
    qed
  qed (use res in \<open>subst (asm) resolve_batch.simps, simp add: accounted_for_def\<close>)
next
  case (2 a s)
  then show ?case by (simp add: accounted_for_def)
next
  case (3 a x xs s)
  obtain outs1 s1 where o1: "resolve_batch a (new_batch [x]) s = Some (outs1, s1)"
    using 3(4) by (auto split: option.splits)
  obtain outs2 where o2: "resolve_each a xs s1 = Some (outs2, s')" "outs = outs1 @ outs2"
    using 3(4) o1 by (auto split: option.splits)
  have "claims s \<subseteq> claims s1 \<and> accounted_for (new_batch [x]) outs1 s1"
    by (rule 3(1) [OF 3(3) o1])
  moreover have "claims s1 \<subseteq> claims s' \<and> accounted_for xs outs2 s'"
    using 3(2) [OF o1 _ 3(3) o2(1)] by simp
  ultimately show ?case using accounted_mono [of "[x]" outs1 s1 "x # xs" s'] accounted_mono [of xs outs2 s' "x # xs" s']
    by (auto simp: o2(2) accounted_append)
qed

lemmas accounted = accounted_with(1) [OF refl]

end

text \<open>The turns in which the others never withdraw a claim; the janitor's sweep of expired keys is not one.\<close>

definition keeping :: "turn \<Rightarrow> turn" where
  "keeping t = t\<lparr>tn_others := (\<lambda>s. if claimed_keys s \<subseteq> claimed_keys (tn_others t s) then tn_others t s else s)\<rparr>"

lemma keeping_others: "claimed_keys s \<subseteq> claimed_keys (tn_others (keeping t) s)"
  by (simp add: keeping_def)

lemma keeping_id: "(\<And>s. claimed_keys s \<subseteq> claimed_keys (tn_others t s)) \<Longrightarrow> keeping t = t"
  by (cases t) (simp add: keeping_def fun_eq_iff)

interpretation durable: durable_attempt "attempt_batch (\<lambda>k. keeping (script k)) ended p stream psize key_of" claimed_keys
  "\<lambda>x. key_of (po_idempotency_key (bo_options x))" for script ended p stream psize key_of
proof (unfold_locales, goal_cases)
  case (1 s xs)
  have "claimed_keys s \<subseteq> claimed_keys (snd (append_message_batch (\<lambda>k. keeping (script k)) ended p psize as s))" for as
    by (rule claimed.batch_kept) (use keeping_others in blast)+
  then show ?case by (auto simp: attempt_batch_def append_batch_checked_def)
next
  case (2 xs s as s')
  then have "append_message_batch (\<lambda>k. keeping (script k)) ended p psize
      (map (\<lambda>x. to_append (key_of (po_idempotency_key (bo_options x))) (Some (bo_message x)) (bo_options x)) xs) s
      = (Inr as, s')"
    by (auto simp: attempt_batch_def append_batch_checked_def split: if_splits)
  from append_batch_claims [OF this] show ?case by (simp add: to_append_def image_image)
qed

text \<open>C35: A produce that was told it was accepted is durable: its key is claimed in the tables the
  resolution leaves, in whatever transaction of whichever round it landed, while only the others
  work on the tables between the rounds.\<close>

theorem accepted_produce_is_durable:
  assumes "\<forall>k s. claimed_keys s \<subseteq> claimed_keys (tn_others (script k) s)"
    and "resolve_batch (attempt_batch script ended p stream psize key_of) (new_batch xs) s = Some (outs, s')"
    and "(bo_caller x, Inr ad) \<in> set outs" "x \<in> set xs" "distinct (map bo_caller xs)"
  shows "key_of (po_idempotency_key (bo_options x)) \<in> claimed_keys s'"
proof -
  have "(\<lambda>k. keeping (script k)) = script" using keeping_id assms(1) by blast
  with durable.accounted [where script = script, of ended p stream psize key_of "new_batch xs" s outs s'] assms(2,3)
  obtain y where "y \<in> set xs" "bo_caller y = bo_caller x" "key_of (po_idempotency_key (bo_options y)) \<in> claimed_keys s'"
    by (auto simp: durable.accounted_for_def new_batch_def)
  moreover from this assms(4,5) have "y = x" by (auto intro: distinct_map_same)
  ultimately show ?thesis by simp
qed

section \<open>A heal that fails\<close>

definition demo_operation :: "nat \<Rightarrow> batch_operation" where
  "demo_operation n = \<lparr>bo_caller = n, bo_message = demo_payload, bo_options = \<lparr>po_routing_key = ''a'',
     po_message_key = '''', po_compaction = None,
     po_idempotency_key = [char_of (65 + n)], po_message = None\<rparr>\<rparr>"

definition demo_key_of :: "string \<Rightarrow> uuid" where
  "demo_key_of k = of_char (hd k)"

text \<open>The second transaction of the script, the heal's, runs into its lock timeout.\<close>

definition locked_heal :: "nat \<Rightarrow> turn" where
  "locked_heal k = (if k = 1 then (quiet_turn Commit_Ok)\<lparr>tn_begin := Some [Pg_Error ''55P03'' ''lock timeout'']\<rparr>
     else quiet_turn Commit_Ok)"

definition demo_full :: produce_state where
  "demo_full = demo_produce\<lparr>ps_last := 9\<rparr>"

theorem accepted_produce_is_durable_witness:
  "demo_key_of ''A'' \<in> claimed_keys (snd (the (resolve_batch (attempt_batch (\<lambda>_. quiet_turn Commit_Ok)
     (\<lambda>_. False) demo_retry 1 10 demo_key_of) (new_batch [demo_operation 0]) demo_produce)))"
proof -
  let ?r = "resolve_batch (attempt_batch (\<lambda>_. quiet_turn Commit_Ok) (\<lambda>_. False) demo_retry 1 10 demo_key_of)
    (new_batch [demo_operation 0]) demo_produce"
  have o: "map_option fst ?r = Some [(0, Inr \<lparr>ad_message = demo_payload, ad_id = 1, ad_duplicate = False\<rparr>)]"
    by code_simp
  then obtain s' where r: "?r = Some ([(0, Inr \<lparr>ad_message = demo_payload, ad_id = 1, ad_duplicate = False\<rparr>)], s')"
    by (cases ?r) auto
  have "demo_key_of (po_idempotency_key (bo_options (demo_operation 0))) \<in> claimed_keys s'"
    by (rule accepted_produce_is_durable [OF _ r, where ad = "\<lparr>ad_message = demo_payload, ad_id = 1, ad_duplicate = False\<rparr>"])
      (simp_all add: quiet_turn_def demo_operation_def)
  moreover have "po_idempotency_key (bo_options (demo_operation 0)) = ''A''" by code_simp
  ultimately show ?thesis using r by simp
qed

text \<open>A heal that fails costs an innocent message: when the partition's lock times out, the error
  is a rejection by the server and comes back with the index of the statement that had found no
  partition, so the batch evicts that operation and answers it with the lock timeout, although
  nothing is wrong with its message; the same batch lands whole when the heal does not fail.\<close>

theorem heal_failure_evicts_an_innocent:
  "map_option fst (resolve_batch (attempt_batch locked_heal (\<lambda>_. False) demo_retry 1 10 demo_key_of)
      (new_batch [demo_operation 0, demo_operation 1]) demo_full)
     = Some [(0, Inl [Pg_Error ''55P03'' ''lock timeout'']),
             (1, Inr \<lparr>ad_message = demo_payload, ad_id = 12, ad_duplicate = False\<rparr>)]
   \<and> map_option fst (resolve_batch (attempt_batch (\<lambda>_. quiet_turn Commit_Ok) (\<lambda>_. False) demo_retry 1 10 demo_key_of)
      (new_batch [demo_operation 0, demo_operation 1]) demo_full)
     = Some [(0, Inr \<lparr>ad_message = demo_payload, ad_id = 11, ad_duplicate = False\<rparr>),
             (1, Inr \<lparr>ad_message = demo_payload, ad_id = 12, ad_duplicate = False\<rparr>)]"
  by code_simp

end
