(* ===== verification/Janitor.thy ===== *)
theory Janitor
  imports Produce
begin

text \<open>
  Retention: the sweeps of \<open>pkg/stream/janitor\<close>. Every sweep is a sequence of transactions on the
  state of \<open>Produce\<close>; \<open>others\<close> is what the other workers do before each of them.
\<close>

section \<open>Partitions\<close>

definition partition_rows :: "int \<Rightarrow> int \<Rightarrow> stream_db \<Rightarrow> message_row list" where
  "partition_rows psize n db = filter (\<lambda>m. msg_id m div psize = n) (message_log db)"

definition cursor_floor :: "stream_db \<Rightarrow> int option" where
  "cursor_floor db = sql_min (map cur_committed (cursors db))"

text \<open>The newest row by id; an empty partition is never expired.\<close>

definition newest_row :: "message_row list \<Rightarrow> message_row option" where
  "newest_row ms = find (\<lambda>m. sql_max (map msg_id ms) = Some (msg_id m)) ms"

definition oldest_row :: "message_row list \<Rightarrow> message_row option" where
  "oldest_row ms = find (\<lambda>m. sql_min (map msg_id ms) = Some (msg_id m)) ms"

definition partition_expired :: "int \<Rightarrow> int \<Rightarrow> duration \<Rightarrow> time \<Rightarrow> stream_db \<Rightarrow> bool" where
  "partition_expired psize n ttl now db = (case newest_row (partition_rows psize n db) of
       None \<Rightarrow> False
     | Some m \<Rightarrow> ttl \<le> now - msg_created_at m)"

text \<open>The rows of other tables that point at deleted messages go with them.\<close>

definition forget_messages :: "(int \<Rightarrow> bool) \<Rightarrow> bool \<Rightarrow> delivery_log_mode \<Rightarrow> stream_db \<Rightarrow> stream_db" where
  "forget_messages gone heads mode db = db\<lparr>
     message_log := delete_where (\<lambda>m. gone (msg_id m)) (message_log db),
     exception_queue := delete_where (\<lambda>e. gone (ex_message e)) (exception_queue db),
     delivery_log := (if mode = Mode_Off then delivery_log db
                      else delete_where (\<lambda>l. gone (dl_message l)) (delivery_log db)),
     compaction_heads := (if heads
       then delete_where (\<lambda>h. case hd_winner h of None \<Rightarrow> False | Some w \<Rightarrow> gone (fst w)) (compaction_heads db)
       else compaction_heads db)\<rparr>"

definition drop_partition ::
  "int \<Rightarrow> int \<Rightarrow> bool \<Rightarrow> delivery_log_mode \<Rightarrow> produce_state \<Rightarrow> bool \<times> produce_state" where
  "drop_partition psize n allow mode s =
     (let low = n * psize; high = (n + 1) * psize; db = ps_db s in
      if \<not> allow \<and> (case cursor_floor db of None \<Rightarrow> False | Some floor' \<Rightarrow> floor' < high - 1)
      then (False, s)
      else (True, s\<lparr>ps_db := forget_messages (\<lambda>i. low \<le> i \<and> i < high) True mode db,
                    ps_parts := filter (\<lambda>k. k \<noteq> n) (ps_parts s)\<rparr>))"

text \<open>
  The partitions are listed once, before the loop; each is judged and dropped on its own. \<open>now\<close> is
  the clock of each judgement.
\<close>

fun drop_loop ::
  "(nat \<Rightarrow> produce_state \<Rightarrow> produce_state) \<Rightarrow> (nat \<Rightarrow> time) \<Rightarrow> int \<Rightarrow> duration \<Rightarrow> bool
   \<Rightarrow> delivery_log_mode \<Rightarrow> int \<Rightarrow> nat \<Rightarrow> int list \<Rightarrow> produce_state \<Rightarrow> produce_state" where
  "drop_loop others now psize ttl allow mode active k [] s = s"
| "drop_loop others now psize ttl allow mode active k (n # ns) s =
     (let s1 = (if active \<le> n then s
                else if \<not> partition_expired psize n ttl (now k) (ps_db s) then s
                else snd (drop_partition psize n allow mode (others k s)))
      in drop_loop others now psize ttl allow mode active (Suc k) ns s1)"

definition drop_expired_partitions ::
  "(nat \<Rightarrow> produce_state \<Rightarrow> produce_state) \<Rightarrow> (nat \<Rightarrow> time) \<Rightarrow> int \<Rightarrow> duration \<Rightarrow> bool
   \<Rightarrow> delivery_log_mode \<Rightarrow> produce_state \<Rightarrow> produce_state" where
  "drop_expired_partitions others now psize ttl allow mode s =
     (if ttl \<le> 0 then s
      else drop_loop others now psize ttl allow mode (max_id (message_log (ps_db s)) div psize) 0
             (ps_parts s) s)"

section \<open>Partial sweeps\<close>

definition swept_rows :: "int \<Rightarrow> int \<Rightarrow> time \<Rightarrow> bool \<Rightarrow> int \<Rightarrow> stream_db \<Rightarrow> message_row list" where
  "swept_rows psize n cutoff allow batch db =
     (let floor' = (if allow then None else cursor_floor db) in
      limit_rows batch (sort_key msg_id (filter (\<lambda>m. msg_created_at m < cutoff
         \<and> (case floor' of None \<Rightarrow> True | Some f \<Rightarrow> msg_id m \<le> f)) (partition_rows psize n db))))"

definition sweep_batch ::
  "int \<Rightarrow> int \<Rightarrow> time \<Rightarrow> time \<Rightarrow> bool \<Rightarrow> int \<Rightarrow> delivery_log_mode \<Rightarrow> produce_state
   \<Rightarrow> int \<times> produce_state" where
  "sweep_batch psize n cutoff eligibility allow batch mode s =
     (case oldest_row (partition_rows psize n (ps_db s)) of
        None \<Rightarrow> (0, s)
      | Some m \<Rightarrow>
          if \<not> msg_created_at m < eligibility then (0, s)
          else let swept = swept_rows psize n cutoff allow batch (ps_db s);
                   gone = (\<lambda>i. i \<in> msg_id ` set swept)
               in (int (length swept), s\<lparr>ps_db := forget_messages gone
                     (\<exists>r \<in> set swept. msg_rank r \<noteq> None) mode (ps_db s)\<rparr>))"

section \<open>Draining in batches\<close>

text \<open>At most \<open>fuel\<close> batches, until one comes back short.\<close>

fun drain_batches ::
  "(nat \<Rightarrow> 's \<Rightarrow> 's) \<Rightarrow> ('s \<Rightarrow> int \<times> 's) \<Rightarrow> int \<Rightarrow> nat \<Rightarrow> 's \<Rightarrow> 's" where
  "drain_batches others step batch 0 s = s"
| "drain_batches others step batch (Suc fuel) s = (case step (others fuel s) of
       (n, s1) \<Rightarrow> if n < batch then s1 else drain_batches others step batch fuel s1)"

definition max_sweep_batches :: nat where
  "max_sweep_batches = 1000"

text \<open>One partition after the other; \<open>others\<close> is told which.\<close>

definition sweep_expired_partitions ::
  "(int \<Rightarrow> nat \<Rightarrow> produce_state \<Rightarrow> produce_state) \<Rightarrow> time \<Rightarrow> int \<Rightarrow> duration \<Rightarrow> duration \<Rightarrow> bool
   \<Rightarrow> int \<Rightarrow> delivery_log_mode \<Rightarrow> produce_state \<Rightarrow> produce_state" where
  "sweep_expired_partitions others now psize ttl grace allow batch mode s =
     (if ttl \<le> 0 then s
      else let cutoff = now - ttl - grace;
               fuel = nat ((psize + batch - 1) div batch)
           in fold (\<lambda>n. drain_batches (others n)
                (sweep_batch psize n cutoff cutoff allow batch mode) batch fuel) (ps_parts s) s)"

definition sweep_idempotency_keys_batch :: "time \<Rightarrow> int \<Rightarrow> stream_db \<Rightarrow> int \<times> stream_db" where
  "sweep_idempotency_keys_batch cutoff batch db =
     (let picked = limit_rows batch (sort_key ik_created_at
            (filter (\<lambda>k. ik_created_at k < cutoff) (idempotency_keys db)));
          p = (\<lambda>k. ik_key k \<in> ik_key ` set picked)
      in (int (rows_matching p (idempotency_keys db)),
          db\<lparr>idempotency_keys := delete_where p (idempotency_keys db)\<rparr>))"

definition sweep_expired_idempotency_keys ::
  "(nat \<Rightarrow> stream_db \<Rightarrow> stream_db) \<Rightarrow> time \<Rightarrow> duration \<Rightarrow> int \<Rightarrow> stream_db \<Rightarrow> stream_db" where
  "sweep_expired_idempotency_keys others now ttl batch db =
     (if ttl \<le> 0 then db
      else drain_batches others (sweep_idempotency_keys_batch (now - ttl) batch) batch
             max_sweep_batches db)"

text \<open>
  \<open>locked\<close> lists the heads another transaction holds, which are skipped; \<open>collate\<close> is the
  database's ordering of text.
\<close>

definition sweep_empty_heads_batch ::
  "(string \<Rightarrow> 'o::linorder) \<Rightarrow> (string \<Rightarrow> bool) \<Rightarrow> time \<Rightarrow> int \<Rightarrow> stream_db \<Rightarrow> int \<times> stream_db" where
  "sweep_empty_heads_batch collate locked cutoff batch db =
     (let picked = limit_rows batch (sort_key hd_updated_at (sort_key (\<lambda>h. collate (hd_key h))
            (filter (\<lambda>h. hd_winner h = None \<and> hd_updated_at h < cutoff \<and> \<not> locked (hd_key h))
              (compaction_heads db))));
          p = (\<lambda>h. hd_key h \<in> hd_key ` set picked)
      in (int (rows_matching p (compaction_heads db)),
          db\<lparr>compaction_heads := delete_where p (compaction_heads db)\<rparr>))"

definition sweep_expired_empty_heads ::
  "(string \<Rightarrow> 'o::linorder) \<Rightarrow> (nat \<Rightarrow> stream_db \<Rightarrow> stream_db) \<Rightarrow> (string \<Rightarrow> bool) \<Rightarrow> time \<Rightarrow> duration
   \<Rightarrow> int \<Rightarrow> stream_db \<Rightarrow> stream_db" where
  "sweep_expired_empty_heads collate others locked now ttl batch db =
     drain_batches others (sweep_empty_heads_batch collate locked (now - ttl) batch) batch max_sweep_batches db"

text \<open>The key lease sweep has no order: it takes the first expired rows of the table.\<close>

definition sweep_key_leases_batch :: "time \<Rightarrow> int \<Rightarrow> stream_db \<Rightarrow> int \<times> stream_db" where
  "sweep_key_leases_batch now batch db =
     (let picked = limit_rows batch (filter (\<lambda>k. kl_expires k < now) (key_leases db));
          p = (\<lambda>k. (kl_group k, kl_key k) \<in> (\<lambda>k. (kl_group k, kl_key k)) ` set picked)
      in (int (rows_matching p (key_leases db)),
          db\<lparr>key_leases := delete_where p (key_leases db)\<rparr>))"

definition sweep_expired_key_leases ::
  "(nat \<Rightarrow> stream_db \<Rightarrow> stream_db) \<Rightarrow> time \<Rightarrow> int \<Rightarrow> stream_db \<Rightarrow> stream_db" where
  "sweep_expired_key_leases others now batch db =
     drain_batches others (sweep_key_leases_batch now batch) batch max_sweep_batches db"

section \<open>Configuration\<close>

record janitor_config =
  jc_poll_rate :: duration
  jc_sweep_batch_size :: int
  jc_cleanup_timeout :: duration
  jc_grace :: duration
  jc_instance_ttl :: duration
  jc_jitter :: rat
  jc_retry :: "retry_policy option"

definition janitor_with_defaults :: "janitor_config \<Rightarrow> janitor_config" where
  "janitor_with_defaults c =
     \<lparr>jc_poll_rate = (if jc_poll_rate c = 0 then 5 * 1000000000 else jc_poll_rate c),
      jc_sweep_batch_size = (if jc_sweep_batch_size c = 0 then 1000 else jc_sweep_batch_size c),
      jc_cleanup_timeout = (if jc_cleanup_timeout c = 0 then 5 * 1000000000 else jc_cleanup_timeout c),
      jc_grace = jc_grace c,
      jc_instance_ttl = (if jc_instance_ttl c = 0 then 30 * 1000000000 else jc_instance_ttl c),
      jc_jitter = (if jc_jitter c = 0 then 1 / 10 else jc_jitter c),
      jc_retry = Some (retry_policy_with_defaults (jc_retry c))\<rparr>"

datatype janitor_error =
    Poll_Rate_Low | Sweep_Batch_Low | Cleanup_Timeout_Low | Grace_Negative | Instance_Ttl_Low
  | Jitter_Range | Sweep_Retry policy_error

definition validate_janitor :: "janitor_config \<Rightarrow> janitor_error option" where
  "validate_janitor c =
     (if jc_poll_rate c \<le> 0 then Some Poll_Rate_Low
      else if jc_sweep_batch_size c \<le> 0 then Some Sweep_Batch_Low
      else if jc_cleanup_timeout c \<le> 0 then Some Cleanup_Timeout_Low
      else if jc_grace c < 0 then Some Grace_Negative
      else if jc_instance_ttl c \<le> 0 then Some Instance_Ttl_Low
      else if jc_jitter c < 0 \<or> 1 \<le> jc_jitter c then Some Jitter_Range
      else map_option Sweep_Retry (validate_retry_policy (jc_retry c)))"

end
