(* ===== verification/Compaction.thy ===== *)
theory Compaction
  imports Produce
begin

text \<open>
  Reading and locking compaction heads: \<open>pkg/compaction\<close>. \<open>collate\<close> is the database's ordering of
  text.
\<close>

record stored_row =
  sr_id :: int
  sr_payload :: string
  sr_created_at :: time
  sr_routing_key :: string
  sr_key :: string
  sr_rank :: int

definition coalesce_text :: "string option \<Rightarrow> string" where
  "coalesce_text o' = (case o' of None \<Rightarrow> '''' | Some s \<Rightarrow> s)"

definition to_stored :: "message_row \<Rightarrow> stored_row" where
  "to_stored m =
     \<lparr>sr_id = msg_id m, sr_payload = msg_payload m, sr_created_at = msg_created_at m,
      sr_routing_key = coalesce_text (msg_routing_key m), sr_key = coalesce_text (msg_key m),
      sr_rank = (case msg_rank m of None \<Rightarrow> 0 | Some r \<Rightarrow> r)\<rparr>"

text \<open>
  \<open>ensureAndLockHead\<close>: the key gets a row when it has none, an empty row is touched, a populated one
  is returned as it is. The lock is the transaction's.
\<close>

definition ensure_and_lock_head :: "stream_db \<Rightarrow> string \<Rightarrow> time \<Rightarrow> head_row \<times> stream_db" where
  "ensure_and_lock_head db k now = (case find (\<lambda>h. hd_key h = k) (compaction_heads db) of
       None \<Rightarrow>
         let h = \<lparr>hd_key = k, hd_winner = None, hd_created_at = now, hd_updated_at = now\<rparr>
         in (h, db\<lparr>compaction_heads := compaction_heads db @ [h]\<rparr>)
     | Some h \<Rightarrow>
         let f = (\<lambda>h. if hd_winner h = None then h\<lparr>hd_updated_at := now\<rparr> else h)
         in (f h, db\<lparr>compaction_heads := update_where (\<lambda>h. hd_key h = k) f (compaction_heads db)\<rparr>))"

definition get_head_message :: "stream_db \<Rightarrow> int \<Rightarrow> stored_row option" where
  "get_head_message db i = map_option to_stored (find (\<lambda>m. msg_id m = i) (message_log db))"

definition lock_head :: "stream_db \<Rightarrow> string \<Rightarrow> time \<Rightarrow> stored_row option \<times> stream_db" where
  "lock_head db k now = (case ensure_and_lock_head db k now of (h, db') \<Rightarrow>
     (case hd_winner h of
        None \<Rightarrow> (None, db')
      | Some w \<Rightarrow> (get_head_message db' (fst w), db')))"

definition joined_heads :: "stream_db \<Rightarrow> (string \<times> stored_row) list" where
  "joined_heads db = concat (map (\<lambda>h. case hd_winner h of
       None \<Rightarrow> []
     | Some w \<Rightarrow> map (\<lambda>m. (hd_key h, to_stored m)) (filter (\<lambda>m. msg_id m = fst w) (message_log db)))
     (compaction_heads db))"

definition get_head :: "stream_db \<Rightarrow> string \<Rightarrow> stored_row option" where
  "get_head db k = (case filter (\<lambda>x. fst x = k) (joined_heads db) of [] \<Rightarrow> None | x # xs \<Rightarrow> Some (snd x))"

definition list_heads :: "(string \<Rightarrow> 'o::linorder) \<Rightarrow> stream_db \<Rightarrow> stored_row list" where
  "list_heads collate db = map snd (sort_key (\<lambda>x. collate (fst x)) (joined_heads db))"

definition key_messages :: "stream_db \<Rightarrow> string \<Rightarrow> message_row list" where
  "key_messages db k = filter (\<lambda>m. msg_key m = Some k) (message_log db)"

definition list_key_messages :: "stream_db \<Rightarrow> string \<Rightarrow> int \<Rightarrow> stored_row list" where
  "list_key_messages db k limit =
     map to_stored (limit_rows limit (rev (sort_key msg_id (key_messages db k))))"

definition list_key_messages_by_created_at ::
  "stream_db \<Rightarrow> string \<Rightarrow> time \<Rightarrow> time \<Rightarrow> stored_row list" where
  "list_key_messages_by_created_at db k start end' =
     map to_stored (rev (sort_key msg_created_at (sort_key msg_id
       (filter (\<lambda>m. start \<le> msg_created_at m \<and> msg_created_at m \<le> end') (key_messages db k)))))"

section \<open>The controller's checks\<close>

definition get_head_checked :: "stream_db \<Rightarrow> int \<Rightarrow> string \<Rightarrow> db_error + stored_row option" where
  "get_head_checked db stream k =
     (if stream \<le> 0 then Inl (Err_Invalid_Argument ''streamId must be > 0'')
      else if k = '''' then Inl (Err_Invalid_Argument ''messageKey must not be empty'')
      else Inr (get_head db k))"

definition lock_head_checked ::
  "stream_db \<Rightarrow> int \<Rightarrow> string \<Rightarrow> time \<Rightarrow> stored_row option exec" where
  "lock_head_checked db stream k now =
     (if stream \<le> 0 then (Inl (Err_Invalid_Argument ''streamId must be > 0''), db)
      else if k = '''' then (Inl (Err_Invalid_Argument ''messageKey must not be empty''), db)
      else (case lock_head db k now of (r, db') \<Rightarrow> (Inr r, db')))"

definition list_heads_checked ::
  "(string \<Rightarrow> 'o::linorder) \<Rightarrow> stream_db \<Rightarrow> int \<Rightarrow> db_error + stored_row list" where
  "list_heads_checked collate db stream =
     (if stream \<le> 0 then Inl (Err_Invalid_Argument ''streamId must be > 0'')
      else Inr (list_heads collate db))"

definition list_key_messages_checked ::
  "stream_db \<Rightarrow> int \<Rightarrow> string \<Rightarrow> int \<Rightarrow> db_error + stored_row list" where
  "list_key_messages_checked db stream k limit =
     (if stream \<le> 0 then Inl (Err_Invalid_Argument ''streamId must be > 0'')
      else if k = '''' then Inl (Err_Invalid_Argument ''messageKey must not be empty'')
      else if limit \<le> 0 then Inl (Err_Invalid_Argument ''limit must be > 0'')
      else Inr (list_key_messages db k limit))"

end
