(* ===== verification/Janitor_Properties.thy ===== *)
theory Janitor_Properties
  imports Janitor Compaction Produce_Properties Frontier_Demo
begin

text \<open>
  What retention may and may not take away: the work a group still owes stays, a bounded backlog is
  drained, and one thing it forgets that it should not.
\<close>

section \<open>Retention and the consumer groups\<close>

lemma forget_frames [simp]:
  "cursors (forget_messages gone heads mode db) = cursors db"
  "claim_leases (forget_messages gone heads mode db) = claim_leases db"
  "cursor_of (forget_messages gone heads mode db) g = cursor_of db g"
  "leases_of (forget_messages gone heads mode db) g = leases_of db g"
  by (simp_all add: forget_messages_def cursor_of_def leases_of_def)

text \<open>Forgetting finished messages keeps a group's window and what it owes.\<close>

lemma forget_finished:
  assumes w: "window_inv db g" and c: "cursor_of db g = Some c"
    and gone: "\<And>i. gone i \<Longrightarrow> i \<le> cur_committed c"
  shows "window_inv (forget_messages gone heads mode db) g
    \<and> pending_ids (forget_messages gone heads mode db) g = pending_ids db g"
proof -
  let ?db = "forget_messages gone heads mode db"
  have ok: "keys_ok db" "window_ok c (leases_of db g) (rows_of db g)"
    using w c by (auto simp: window_inv_def)
  have rows: "rows_of ?db g = {e \<in> rows_of db g. \<not> gone (ex_message e)}"
    by (auto simp: rows_of_def forget_messages_def set_delete_where)
  have open': "\<not> gone (ex_message e)" if "e \<in> rows_of db g" "open_status (ex_status e)" for e
    using ok(2) gone [of "ex_message e"] that by (force simp: window_ok_def safe_def)
  have "keys_ok ?db"
    using ok(1) by (auto simp: keys_ok_def forget_messages_def set_delete_where intro: distinct_map_delete_where)
  moreover have "window_ok c (leases_of ?db g) (rows_of ?db g)"
    using ok(2) by (auto simp: window_ok_def safe_def rows)
  moreover have "pending_ids ?db g = pending_ids db g"
    using open' by (auto simp: pending_ids_def rows)
  ultimately show ?thesis using c by (simp add: window_inv_def)
qed

lemma cursor_floor_le:
  assumes "cursor_floor db = Some f" "cursor_of db g = Some c"
  shows "f \<le> cur_committed c"
  using assms sql_min_le [of "map cur_committed (cursors db)" f "cur_committed c"]
  by (auto simp: cursor_floor_def dest: cursor_of_SomeD)

lemma cursor_floor_some: "cursor_of db g = Some c \<Longrightarrow> cursor_floor db \<noteq> None"
  by (auto simp: cursor_floor_def dest!: cursor_of_SomeD)

text \<open>C38: With the committed floor in force neither a dropped partition nor a partial sweep removes a
  message above the committed mark of any group, or moves its cursor. For a group that claims ranges, whose mark has
  every open row above it, the window stays well formed and no lease and no open exception row goes. A
  fan-out group has open rows behind its mark, which nothing protects.\<close>

theorem retention_spares_pending_work:
  assumes "cursor_of (ps_db s) g = Some c" "0 < psize"
    and "drop_partition psize n False mode s = (dropped, s')
      \<or> sweep_batch psize n cutoff eligibility False batch mode s = (swept, s')"
  shows "cursor_of (ps_db s') g = Some c
    \<and> (\<forall>m \<in> set (message_log (ps_db s)). cur_committed c < msg_id m \<longrightarrow> m \<in> set (message_log (ps_db s')))
    \<and> (window_inv (ps_db s) g \<longrightarrow> window_inv (ps_db s') g \<and> leases_of (ps_db s') g = leases_of (ps_db s) g
        \<and> pending_ids (ps_db s') g = pending_ids (ps_db s) g)"
proof -
  obtain f where f: "cursor_floor (ps_db s) = Some f" using cursor_floor_some [OF assms(1)] by auto
  have le: "f \<le> cur_committed c" by (rule cursor_floor_le [OF f assms(1)])
  have "ps_db s' = ps_db s \<or> (\<exists>gone heads. ps_db s' = forget_messages gone heads mode (ps_db s)
      \<and> (\<forall>i. gone i \<longrightarrow> i \<le> f))"
  proof (rule disjE [OF assms(3)])
    assume d: "drop_partition psize n False mode s = (dropped, s')"
    show ?thesis
    proof (cases "f < (n + 1) * psize - 1")
      case True
      with d f show ?thesis by (simp add: drop_partition_def Let_def)
    next
      case False
      then have "ps_db s' = forget_messages (\<lambda>i. n * psize \<le> i \<and> i < (n + 1) * psize) True mode (ps_db s)"
        using d f by (auto simp: drop_partition_def Let_def)
      with False show ?thesis by (intro disjI2 exI conjI) auto
    qed
  next
    assume w: "sweep_batch psize n cutoff eligibility False batch mode s = (swept, s')"
    let ?rows = "swept_rows psize n cutoff False batch (ps_db s)"
    have "\<forall>m \<in> set ?rows. msg_id m \<le> f"
      by (auto simp: swept_rows_def Let_def f dest!: set_limit_rows)
    moreover have "ps_db s' = ps_db s \<or> ps_db s' = forget_messages (\<lambda>i. i \<in> msg_id ` set ?rows)
        (\<exists>r \<in> set ?rows. msg_rank r \<noteq> None) mode (ps_db s)"
      using w by (auto simp: sweep_batch_def Let_def split: option.splits if_splits)
    ultimately show ?thesis by blast
  qed
  then show ?thesis
  proof
    assume "\<exists>gone heads. ps_db s' = forget_messages gone heads mode (ps_db s) \<and> (\<forall>i. gone i \<longrightarrow> i \<le> f)"
    then obtain gone heads where g: "ps_db s' = forget_messages gone heads mode (ps_db s)"
      "\<And>i. gone i \<Longrightarrow> i \<le> cur_committed c" using le by fastforce
    have "m \<in> set (message_log (ps_db s'))" if "m \<in> set (message_log (ps_db s))" "cur_committed c < msg_id m" for m
      using g(2) [of "msg_id m"] that by (auto simp: g(1) forget_messages_def set_delete_where)
    then show ?thesis using forget_finished [OF _ assms(1) g(2)] assms(1) by (simp add: g(1))
  qed (use assms in simp)
qed

definition demo_retained :: produce_state where
  "demo_retained = \<lparr>ps_db = demo_advanced, ps_last = 3, ps_parts = [0, 1], ps_attempted = - 1, ps_turn = 0\<rparr>"

lemma demo_advanced_inv: "window_inv demo_advanced 1"
  using reachable_inv [OF demo_reachable4] by (simp add: frontier_inv_def)

theorem retention_spares_pending_work_witness:
  "let s' = snd (sweep_batch 2 0 1000 1000 False 10 Mode_Failures demo_retained) in
     window_inv (ps_db s') 1 \<and> length (message_log (ps_db s')) = 2
     \<and> pending_ids (ps_db s') 1 = pending_ids demo_advanced 1"
proof -
  let ?r = "sweep_batch 2 0 1000 1000 False 10 Mode_Failures demo_retained"
  have "window_inv (ps_db (snd ?r)) 1 \<and> pending_ids (ps_db (snd ?r)) 1 = pending_ids (ps_db demo_retained) 1"
    using retention_spares_pending_work [of demo_retained 1 _ 2 0 Mode_Failures _ _ 1000 1000 10 "fst ?r",
        OF _ _ disjI2 [OF prod.collapse [symmetric]]]
      demo_advanced_inv demo_cursor4 by (simp add: demo_retained_def)
  moreover have "length (message_log (ps_db (snd ?r))) = 2" by code_simp
  ultimately show ?thesis by (simp add: demo_retained_def Let_def)
qed

section \<open>Draining a backlog\<close>

text \<open>
  The three sweeps in batches share one contract: a batch removes the expired rows, up to its limit,
  and nothing else.
\<close>

locale batch_sweep =
  fixes step :: "'s \<Rightarrow> int \<times> 's" and rows :: "'s \<Rightarrow> 'r list" and expired :: "'r \<Rightarrow> bool"
    and ok :: "'s \<Rightarrow> bool" and batch :: int
  assumes removes: "ok s \<Longrightarrow> step s = (n, s') \<Longrightarrow>
      n = min (int (length (filter expired (rows s)))) (max 0 batch)
      \<and> int (length (filter expired (rows s'))) = int (length (filter expired (rows s))) - n
      \<and> filter (\<lambda>r. \<not> expired r) (rows s') = filter (\<lambda>r. \<not> expired r) (rows s) \<and> ok s'"
begin

lemma drained:
  assumes "ok s" "0 < batch" "int (length (filter expired (rows s))) \<le> int fuel * batch"
  shows "rows (drain_batches (\<lambda>_ s. s) step batch fuel s) = filter (\<lambda>r. \<not> expired r) (rows s)"
proof -
  have all: "filter (\<lambda>r. \<not> expired r) (rows u) = rows u" if "length (filter expired (rows u)) = 0" for u
    using that by (simp add: filter_empty_conv)
  show ?thesis
    using assms(1,3)
  proof (induction fuel arbitrary: s)
    case 0
    then have "length (filter expired (rows s)) = 0" by simp
    from all [OF this] show ?case by simp
  next
    case (Suc fuel)
    obtain n s1 where s1: "step s = (n, s1)" by fastforce
    note r = removes [OF Suc.prems(1) s1]
    show ?case
    proof (cases "n < batch")
      case True
      have "length (filter expired (rows s1)) = 0" using r True assms(2) by linarith
      from all [OF this] have "rows s1 = filter (\<lambda>r. \<not> expired r) (rows s)" using r by argo
      then show ?thesis using s1 True by simp
    next
      case False
      then have "int (length (filter expired (rows s1))) \<le> int fuel * batch"
        using r Suc.prems(2) assms(2) by (simp add: algebra_simps)
      from Suc.IH [OF _ this] have "rows (drain_batches (\<lambda>_ s. s) step batch fuel s1)
          = filter (\<lambda>r. \<not> expired r) (rows s)" using r by argo
      then show ?thesis using s1 False by simp
    qed
  qed
qed

end

text \<open>Deleting by key the rows picked among the expired ones.\<close>

lemma batch_removed:
  assumes d: "distinct (map k t)" and ys: "mset ys = mset (filter e t)"
  shows "int (rows_matching (\<lambda>r. k r \<in> k ` set (take m ys)) t) = int (min (length (filter e t)) m)"
    and "length (filter e (delete_where (\<lambda>r. k r \<in> k ` set (take m ys)) t)) = length (filter e t) - m"
    and "filter (\<lambda>r. \<not> e r) (delete_where (\<lambda>r. k r \<in> k ` set (take m ys)) t) = filter (\<lambda>r. \<not> e r) t"
proof -
  let ?p = "\<lambda>r. k r \<in> k ` set (take m ys)" and ?z = "set (take m ys)"
  have len: "length ys = length (filter e t)" using ys by (rule mset_eq_length)
  have set_ys: "set ys = {r \<in> set t. e r}" using mset_eq_setD [OF ys] by simp
  have sub: "?z \<subseteq> {r \<in> set t. e r}" using set_take_subset [of m ys] by (simp only: set_ys)
  have p: "?p r \<longleftrightarrow> r \<in> ?z" if "r \<in> set t" for r
    using sub d that by (blast dest: inj_onD distinct_map [THEN iffD1])
  have dt: "distinct t" using d by (simp add: distinct_map)
  have "distinct ys" using mset_eq_imp_distinct_iff [OF ys] dt by simp
  then have card: "card ?z = min (length (filter e t)) m" by (simp add: distinct_card len min.commute)
  have "filter ?p t = filter (\<lambda>r. r \<in> ?z) t" by (rule filter_cong [OF refl p])
  then have "rows_matching ?p t = card (set (filter (\<lambda>r. r \<in> ?z) t))"
    by (simp only: rows_matching_def distinct_card [OF distinct_filter [OF dt]])
  also have "set (filter (\<lambda>r. r \<in> ?z) t) = ?z" using sub by (simp only: set_filter) blast
  finally have m: "rows_matching ?p t = min (length (filter e t)) m" by (simp only: card)
  then show "int (rows_matching ?p t) = int (min (length (filter e t)) m)" by simp
  have "filter ?p (filter e t) = filter ?p t"
    unfolding filter_filter using sub p by (intro filter_cong) blast+
  with m have "length (filter ?p (filter e t)) = min (length (filter e t)) m" by (simp add: rows_matching_def)
  with sum_length_filter_compl [of ?p "filter e t"]
  have "length (filter (\<lambda>r. \<not> ?p r) (filter e t)) = length (filter e t) - m" by linarith
  then show "length (filter e (delete_where ?p t)) = length (filter e t) - m"
    unfolding delete_where_def filter_filter by (simp only: conj_commute)
  show "filter (\<lambda>r. \<not> e r) (delete_where ?p t) = filter (\<lambda>r. \<not> e r) t"
    unfolding delete_where_def filter_filter using sub p by (intro filter_cong) blast+
qed

lemma limit_rows_take: "limit_rows n t = take (nat n) t"
  by (simp add: limit_rows_def)

text \<open>The shape every batch has: pick among the expired rows, delete by key.\<close>

lemma batch_step:
  assumes "distinct (map k t)" "mset ys = mset (filter e t)" "picked = limit_rows batch ys"
    and "p = (\<lambda>r. k r \<in> k ` set picked)"
  shows "int (rows_matching p t) = min (int (length (filter e t))) (max 0 batch)
    \<and> int (length (filter e (delete_where p t))) = int (length (filter e t)) - int (rows_matching p t)
    \<and> filter (\<lambda>r. \<not> e r) (delete_where p t) = filter (\<lambda>r. \<not> e r) t \<and> distinct (map k (delete_where p t))"
  using batch_removed [OF assms(1,2), of "nat batch"] assms(1)
  unfolding assms(3,4) limit_rows_take by (auto simp: min_def max_def intro: distinct_map_delete_where)

interpretation keys: batch_sweep "sweep_idempotency_keys_batch cutoff batch" idempotency_keys
    "\<lambda>k. ik_created_at k < cutoff" "\<lambda>db. distinct (map ik_key (idempotency_keys db))" batch
    for cutoff batch
proof
  fix s n s'
  assume "distinct (map ik_key (idempotency_keys s))" "sweep_idempotency_keys_batch cutoff batch s = (n, s')"
  then show "n = min (int (length (filter (\<lambda>k. ik_created_at k < cutoff) (idempotency_keys s)))) (max 0 batch) \<and>
       int (length (filter (\<lambda>k. ik_created_at k < cutoff) (idempotency_keys s'))) =
       int (length (filter (\<lambda>k. ik_created_at k < cutoff) (idempotency_keys s))) - n \<and>
       filter (\<lambda>k. \<not> ik_created_at k < cutoff) (idempotency_keys s') =
       filter (\<lambda>k. \<not> ik_created_at k < cutoff) (idempotency_keys s) \<and>
       distinct (map ik_key (idempotency_keys s'))"
    using batch_step [where k = ik_key and t = "idempotency_keys s" and batch = batch
        and e = "\<lambda>k. ik_created_at k < cutoff" and ys = "sort_key ik_created_at
            (filter (\<lambda>k. ik_created_at k < cutoff) (idempotency_keys s))", OF _ _ refl refl]
    by (auto simp: sweep_idempotency_keys_batch_def Let_def)
qed

interpretation leases: batch_sweep "sweep_key_leases_batch now batch" key_leases "\<lambda>k. kl_expires k < now"
    "\<lambda>db. distinct (map (\<lambda>k. (kl_group k, kl_key k)) (key_leases db))" batch
    for now batch
proof
  fix s n s'
  assume "distinct (map (\<lambda>k. (kl_group k, kl_key k)) (key_leases s))"
    "sweep_key_leases_batch now batch s = (n, s')"
  then show "n = min (int (length (filter (\<lambda>k. kl_expires k < now) (key_leases s)))) (max 0 batch) \<and>
       int (length (filter (\<lambda>k. kl_expires k < now) (key_leases s'))) =
       int (length (filter (\<lambda>k. kl_expires k < now) (key_leases s))) - n \<and>
       filter (\<lambda>k. \<not> kl_expires k < now) (key_leases s') =
       filter (\<lambda>k. \<not> kl_expires k < now) (key_leases s) \<and>
       distinct (map (\<lambda>k. (kl_group k, kl_key k)) (key_leases s'))"
    using batch_step [where k = "\<lambda>k. (kl_group k, kl_key k)" and t = "key_leases s" and batch = batch
        and e = "\<lambda>k. kl_expires k < now" and ys = "filter (\<lambda>k. kl_expires k < now) (key_leases s)",
        OF _ refl refl refl]
    by (auto simp: sweep_key_leases_batch_def Let_def)
qed

definition idle_head :: "(string \<Rightarrow> bool) \<Rightarrow> time \<Rightarrow> head_row \<Rightarrow> bool" where
  "idle_head locked cutoff h \<longleftrightarrow> hd_winner h = None \<and> hd_updated_at h < cutoff \<and> \<not> locked (hd_key h)"

interpretation heads: batch_sweep "sweep_empty_heads_batch collate locked cutoff batch" compaction_heads
    "idle_head locked cutoff" "\<lambda>db. distinct (map hd_key (compaction_heads db))" batch
    for collate :: "string \<Rightarrow> 'o::linorder" and locked cutoff batch
proof
  fix s n s'
  assume "distinct (map hd_key (compaction_heads s))"
    "sweep_empty_heads_batch collate locked cutoff batch s = (n, s')"
  then show "n = min (int (length (filter (idle_head locked cutoff) (compaction_heads s)))) (max 0 batch) \<and>
       int (length (filter (idle_head locked cutoff) (compaction_heads s'))) =
       int (length (filter (idle_head locked cutoff) (compaction_heads s))) - n \<and>
       filter (\<lambda>h. \<not> idle_head locked cutoff h) (compaction_heads s') =
       filter (\<lambda>h. \<not> idle_head locked cutoff h) (compaction_heads s) \<and>
       distinct (map hd_key (compaction_heads s'))"
    using batch_step [where k = hd_key and t = "compaction_heads s" and batch = batch
        and e = "idle_head locked cutoff" and ys = "sort_key hd_updated_at (sort_key (\<lambda>h. collate (hd_key h))
            (filter (idle_head locked cutoff) (compaction_heads s)))", OF _ _ refl refl]
    by (auto simp: sweep_empty_heads_batch_def idle_head_def [abs_def] Let_def)
qed

text \<open>A bounded backlog is drained: with at most a thousand batches of expired idempotency keys,
  key leases and idle empty heads, one pass of each sweep leaves exactly the rows that are not
  expired.\<close>

theorem bounded_backlog_is_drained:
  assumes "0 < batch" "0 < ttl"
    and "distinct (map ik_key (idempotency_keys db))"
      "distinct (map (\<lambda>k. (kl_group k, kl_key k)) (key_leases db))" "distinct (map hd_key (compaction_heads db))"
    and "int (length (idempotency_keys db)) \<le> 1000 * batch" "int (length (key_leases db)) \<le> 1000 * batch"
      "int (length (compaction_heads db)) \<le> 1000 * batch"
  shows "idempotency_keys (sweep_expired_idempotency_keys (\<lambda>_ db. db) now ttl batch db)
       = filter (\<lambda>k. now - ttl \<le> ik_created_at k) (idempotency_keys db)
    \<and> key_leases (sweep_expired_key_leases (\<lambda>_ db. db) now batch db)
       = filter (\<lambda>k. now \<le> kl_expires k) (key_leases db)
    \<and> compaction_heads (sweep_expired_empty_heads collate (\<lambda>_ db. db) locked now ttl batch db)
       = filter (\<lambda>h. \<not> idle_head locked (now - ttl) h) (compaction_heads db)"
proof -
  have few: "int (length (filter e t)) \<le> int max_sweep_batches * batch"
    if "int (length t) \<le> 1000 * batch" for e and t :: "'r list"
  proof -
    have "int (length (filter e t)) \<le> int (length t)" by simp
    also have "\<dots> \<le> int max_sweep_batches * batch" using that by (simp add: max_sweep_batches_def)
    finally show ?thesis .
  qed
  have "idempotency_keys (sweep_expired_idempotency_keys (\<lambda>_ db. db) now ttl batch db)
       = filter (\<lambda>k. now - ttl \<le> ik_created_at k) (idempotency_keys db)"
    using keys.drained [OF assms(3,1) few [OF assms(6)], of "now - ttl"] assms(2)
    by (simp add: sweep_expired_idempotency_keys_def not_less)
  moreover have "key_leases (sweep_expired_key_leases (\<lambda>_ db. db) now batch db)
       = filter (\<lambda>k. now \<le> kl_expires k) (key_leases db)"
    using leases.drained [OF assms(4,1) few [OF assms(7)], of now]
    by (simp add: sweep_expired_key_leases_def not_less)
  moreover have "compaction_heads (sweep_expired_empty_heads collate (\<lambda>_ db. db) locked now ttl batch db)
       = filter (\<lambda>h. \<not> idle_head locked (now - ttl) h) (compaction_heads db)"
    using heads.drained [OF assms(5,1) few [OF assms(8)], where locked = locked and cutoff = "now - ttl"
        and collate = collate]
    by (simp add: sweep_expired_empty_heads_def)
  ultimately show ?thesis by blast
qed

definition demo_expired :: stream_db where
  "demo_expired = empty_db\<lparr>idempotency_keys := [\<lparr>ik_key = 1, ik_created_at = 5\<rparr>, \<lparr>ik_key = 2, ik_created_at = 95\<rparr>]\<rparr>"

theorem bounded_backlog_is_drained_witness:
  "idempotency_keys (sweep_expired_idempotency_keys (\<lambda>_ db. db) 100 10 1 demo_expired)
     = [\<lparr>ik_key = 2, ik_created_at = 95\<rparr>]"
  using bounded_backlog_is_drained [of 1 10 demo_expired 100 length "\<lambda>_. False"] by (simp add: demo_expired_def empty_db_def)

section \<open>A head forgotten with its partition\<close>

text \<open>Two versions of one key, the higher rank first; the partition of the first expires.\<close>

definition at_time :: "time \<Rightarrow> nat \<Rightarrow> turn" where
  "at_time now k = (quiet_turn Commit_Ok)\<lparr>tn_now := now\<rparr>"

definition demo_ranked :: produce_state where
  "demo_ranked = snd (append_message (at_time 900) (\<lambda>_. False) demo_retry 2 (\<lambda>_. Inr demo_payload) demo_lower
     (snd (append_message (at_time 100) (\<lambda>_. False) demo_retry 2 (\<lambda>_. Inr demo_payload) demo_append
       demo_produce)))"

text \<open>Retention takes a live key's head with the partition of its winner: the key still has a
  fresh message, which the sweep keeps, and yet reading its head answers that nothing was ever
  published under it, and no reader of current versions delivers the message any more.\<close>

theorem drop_forgets_a_live_key:
  "let s' = drop_expired_partitions (\<lambda>_ s. s) (\<lambda>_. 1000) 2 500 False Mode_Failures demo_ranked in
     map_option sr_id (get_head (ps_db demo_ranked) ''k'') = Some 1
     \<and> get_head (ps_db s') ''k'' = None
     \<and> map msg_id (message_log (ps_db s')) = [3]
     \<and> map (\<lambda>m. 1000 - msg_created_at m) (message_log (ps_db s')) = [100]
     \<and> list_key_messages (ps_db s') ''k'' 10 \<noteq> []
     \<and> \<not> list_ex (current_version (ps_db s')) (message_log (ps_db s'))"
  by code_simp

end
