(* ===== verification/Exception_Runner.thy ===== *)
theory Exception_Runner
  imports Exceptions Datastore_Retry Consumer_Config Frontier_Steps
begin

text \<open>
  The exception consumer at work: one claim cycle of \<open>consumer_runner.go\<close> in
  \<open>pkg/consume/exceptionconsumer\<close>. The runner is one goroutine, so it is a function; every database
  call goes through the retry loop, and \<open>script\<close> says of each attempt what other workers did before
  it, when it ran, where it failed and whether its commit was confirmed. \<open>xr_runs\<close> is the history of
  the runs of the consumer function, the messages they got and the attempt each was.
\<close>

section \<open>Calls\<close>

datatype call_fate = Call_Ok | Call_Lost wire_error | Call_Unknown wire_error

record call_turn =
  ct_others :: "stream_db \<Rightarrow> stream_db"
  ct_between :: "stream_db \<Rightarrow> stream_db"
  ct_now :: time
  ct_fate :: call_fate
  ct_tokens :: "int \<Rightarrow> uuid"
  ct_locked :: "int \<Rightarrow> bool"

record xrunner =
  xr_db :: stream_db
  xr_turn :: nat
  xr_runs :: "(int \<times> int) list"

text \<open>
  What the runner is given: the identity of the group, the policy of the retry loop, the user's
  function and how it renders as an error, and when its context ends. \<open>xe_cancelled\<close> is the
  shutdown, \<open>xe_margin\<close> the end of the window a keyed outcome gets to be recorded; both by turn.
\<close>

record xenv =
  xe_script :: "nat \<Rightarrow> call_turn"
  xe_group :: int
  xe_schema :: int
  xe_mode :: delivery_log_mode
  xe_retry :: retry_policy
  xe_cancelled :: "nat \<Rightarrow> bool"
  xe_margin :: "nat \<Rightarrow> bool"
  xe_decodes :: "string \<Rightarrow> bool"
  xe_handler :: "nat \<Rightarrow> claimed_exception \<Rightarrow> handler_run"
  xe_key_token :: "nat \<Rightarrow> uuid"
  xe_show :: "go_error \<Rightarrow> string"
  xe_show_wire :: "wire_error \<Rightarrow> string"

text \<open>One attempt of a call: \<open>effect\<close> is the transaction it sends.\<close>

definition call_attempt ::
  "xenv \<Rightarrow> (call_turn \<Rightarrow> stream_db \<Rightarrow> 'a \<times> stream_db) \<Rightarrow> xrunner
   \<Rightarrow> (unit \<times> wire_error + 'a) \<times> xrunner" where
  "call_attempt env effect s =
     (let t = xe_script env (xr_turn s);
          s0 = s\<lparr>xr_db := ct_others t (xr_db s), xr_turn := Suc (xr_turn s)\<rparr>
      in case effect t (xr_db s0) of (r, db) \<Rightarrow>
        (case ct_fate t of
           Call_Ok \<Rightarrow> (Inr r, s0\<lparr>xr_db := db\<rparr>)
         | Call_Lost e \<Rightarrow> (Inl ((), e), s0)
         | Call_Unknown e \<Rightarrow> (Inl ((), e), s0\<lparr>xr_db := db\<rparr>)))"

definition idempotent_call ::
  "xenv \<Rightarrow> (nat \<Rightarrow> bool) \<Rightarrow> (call_turn \<Rightarrow> stream_db \<Rightarrow> 'a \<times> stream_db) \<Rightarrow> xrunner
   \<Rightarrow> (unit \<times> wire_error + 'a) \<times> xrunner" where
  "idempotent_call env ended effect s =
     wrap_idempotent (xe_retry env) (\<lambda>k. ended (xr_turn s + k)) () (call_attempt env effect) s"

definition non_idempotent_call ::
  "xenv \<Rightarrow> (nat \<Rightarrow> bool) \<Rightarrow> (call_turn \<Rightarrow> stream_db \<Rightarrow> 'a \<times> stream_db) \<Rightarrow> xrunner
   \<Rightarrow> (unit \<times> wire_error + 'a) \<times> xrunner" where
  "non_idempotent_call env ended effect s =
     wrap_non_idempotent (xe_retry env) (\<lambda>k. ended (xr_turn s + k)) () (call_attempt env effect) s"

section \<open>Recording an outcome\<close>

text \<open>
  \<open>absorbLostLease\<close>: another worker re-claimed the row and owns the outcome. The only error a
  recorded outcome answers itself is the lost lease; whatever a call failed with before is joined
  to it and absorbed with it.
\<close>

definition absorb_lost_lease ::
  "(unit \<times> wire_error + db_error + unit) \<times> xrunner \<Rightarrow> wire_error option \<times> xrunner" where
  "absorb_lost_lease r = (case r of
       (Inl (_, e), s) \<Rightarrow> (Some e, s)
     | (Inr _, s) \<Rightarrow> (None, s))"

definition record_ended :: "xenv \<Rightarrow> key_claim option \<Rightarrow> nat \<Rightarrow> bool" where
  "record_ended env kco = (case kco of None \<Rightarrow> xe_cancelled env | Some _ \<Rightarrow> xe_margin env)"

definition run_success ::
  "xenv \<Rightarrow> claimed_exception \<Rightarrow> key_claim option \<Rightarrow> xrunner \<Rightarrow> wire_error option \<times> xrunner" where
  "run_success env x kco s = absorb_lost_lease (idempotent_call env (record_ended env kco)
     (\<lambda>t db. record_success db x (xe_mode env) kco (ct_now t)) s)"

definition run_terminal ::
  "xenv \<Rightarrow> claimed_exception \<Rightarrow> string \<Rightarrow> key_claim option \<Rightarrow> xrunner \<Rightarrow> wire_error option \<times> xrunner" where
  "run_terminal env x err kco s = absorb_lost_lease (idempotent_call env (record_ended env kco)
     (\<lambda>t db. record_terminal db x err (xe_mode env) kco (ct_now t)) s)"

definition run_policy :: "message_options \<Rightarrow> retry_policy" where
  "run_policy opts = or_zero_policy (mo_retry opts)"

definition run_failure ::
  "xenv \<Rightarrow> claimed_exception \<Rightarrow> message_options \<Rightarrow> string \<Rightarrow> key_claim option \<Rightarrow> xrunner
   \<Rightarrow> wire_error option \<times> xrunner" where
  "run_failure env x opts err kco s =
     (if max_retries (run_policy opts) \<le> xc_attempts x - xc_delays x then run_terminal env x err kco s
      else absorb_lost_lease (idempotent_call env (record_ended env kco)
        (\<lambda>t db. record_failure db (run_policy opts) x err (xe_mode env) kco (ct_now t)) s))"

definition run_delayed ::
  "xenv \<Rightarrow> claimed_exception \<Rightarrow> message_options \<Rightarrow> go_error \<Rightarrow> key_claim option \<Rightarrow> xrunner
   \<Rightarrow> wire_error option \<times> xrunner" where
  "run_delayed env x opts err kco s =
     (if 0 < max_delays (run_policy opts) \<and> max_delays (run_policy opts) \<le> xc_delays x
      then run_terminal env x (xe_show env err) kco s
      else absorb_lost_lease (idempotent_call env (record_ended env kco)
        (\<lambda>t db. record_delayed db (case delay_of err of None \<Rightarrow> 0 | Some d \<Rightarrow> d) x (xe_show env err)
           (xe_mode env) kco (ct_now t)) s))"

definition run_superseded :: "xenv \<Rightarrow> claimed_exception \<Rightarrow> xrunner \<Rightarrow> wire_error option \<times> xrunner" where
  "run_superseded env x s = absorb_lost_lease (idempotent_call env (xe_cancelled env)
     (\<lambda>t db. record_superseded db x (xe_mode env) (ct_now t)) s)"

definition run_deferred ::
  "xenv \<Rightarrow> claimed_exception \<Rightarrow> concurrency_policy \<Rightarrow> xrunner \<Rightarrow> wire_error option \<times> xrunner" where
  "run_deferred env x policy s = absorb_lost_lease (idempotent_call env (xe_cancelled env)
     (\<lambda>t db. record_deferred db x policy (xe_mode env) (ct_now t)) s)"

section \<open>One exception\<close>

text \<open>The run itself, and the outcome it asks for.\<close>

definition run_handler ::
  "xenv \<Rightarrow> exception_consumer_config \<Rightarrow> claimed_exception \<Rightarrow> message_options \<Rightarrow> key_claim option
   \<Rightarrow> xrunner \<Rightarrow> wire_error option \<times> xrunner" where
  "run_handler env cfg x opts kco s =
     (if \<not> xe_decodes env (xc_payload x) then run_terminal env x ''cannot decode the payload'' kco s
      else let s1 = s\<lparr>xr_runs := xr_runs s @ [(xc_message x, xc_attempts x)]\<rparr> in
        (case call_safely (xe_handler env (xr_turn s) x) (mo_timeout opts) (x_timeout_grace cfg) of
           None \<Rightarrow> run_success env x kco s1
         | Some e \<Rightarrow> (case classify_handler_error e of
               Handler_Terminal \<Rightarrow> run_terminal env x (xe_show env e) kco s1
             | Handler_Delayed \<Rightarrow> run_delayed env x opts e kco s1
             | Handler_Exception \<Rightarrow> run_failure env x opts (xe_show env e) kco s1)))"

definition gate_exception ::
  "xenv \<Rightarrow> exception_consumer_config \<Rightarrow> claimed_exception \<Rightarrow> message_options \<Rightarrow> duration
   \<Rightarrow> xrunner \<Rightarrow> wire_error option \<times> xrunner" where
  "gate_exception env cfg x opts dur s =
     (if xc_key x \<noteq> '''' \<and> holds_key (mo_concurrency opts)
      then (case idempotent_call env (xe_cancelled env)
          (\<lambda>t db. claim_key (ct_between t) db (xe_group env) (xc_key x) (xc_message x) (xc_compacted x)
             (mo_concurrency opts) 0 0 dur (xe_key_token env (xr_turn s)) (ct_now t)) s of
          (Inl (_, e), s1) \<Rightarrow> run_failure env x opts (xe_show_wire env e) None s1
        | (Inr kc, s1) \<Rightarrow> (case kc_verdict kc of
              Key_Superseded \<Rightarrow> run_superseded env x s1
            | Key_Busy \<Rightarrow> run_deferred env x (mo_concurrency opts) s1
            | Key_Acquired \<Rightarrow> run_handler env cfg x opts (Some kc) s1))
      else run_handler env cfg x opts None s)"

definition process_exception ::
  "xenv \<Rightarrow> exception_consumer_config \<Rightarrow> claimed_exception \<Rightarrow> xrunner \<Rightarrow> wire_error option \<times> xrunner" where
  "process_exception env cfg x s =
     (let opts = exception_config_resolve cfg (xc_options x);
          dur = mo_timeout opts + x_timeout_grace cfg + x_record_margin cfg;
          now = ct_now (xe_script env (xr_turn s))
      in if xc_expires x < now + dur
         then (case idempotent_call env (xe_cancelled env) (\<lambda>t db. renew_lease db x dur (ct_now t)) s of
             (Inl (_, e), s1) \<Rightarrow> (Some e, s1)
           | (Inr renewed, s1) \<Rightarrow>
               if renewed then gate_exception env cfg x opts dur s1 else (None, s1))
         else gate_exception env cfg x opts dur s)"

section \<open>One claim cycle\<close>

text \<open>The first error ends the cycle; the exceptions behind it keep their leases until these expire.\<close>

fun process_each ::
  "xenv \<Rightarrow> exception_consumer_config \<Rightarrow> claimed_exception list \<Rightarrow> xrunner \<Rightarrow> wire_error option \<times> xrunner" where
  "process_each env cfg [] s = (None, s)"
| "process_each env cfg (x # xs) s = (case process_exception env cfg x s of
       (Some e, s1) \<Rightarrow> (Some e, s1)
     | (None, s1) \<Rightarrow> process_each env cfg xs s1)"

definition ceiling_of :: "exception_consumer_config \<Rightarrow> message_options" where
  "ceiling_of cfg = or_zero_options (x_message_max cfg)"

definition exception_claim ::
  "xenv \<Rightarrow> exception_consumer_config \<Rightarrow> xrunner \<Rightarrow> wire_error option \<times> xrunner" where
  "exception_claim env cfg s =
     (let ceiling = ceiling_of cfg;
          budget = max_retries (run_policy ceiling);
          dur = mo_timeout ceiling + x_timeout_grace cfg + x_queue_margin cfg + x_record_margin cfg
      in case idempotent_call env (xe_cancelled env)
           (\<lambda>t db. kill db (xe_group env) budget (xe_mode env) (ct_now t)) s of
         (Inl (_, e), s1) \<Rightarrow> (Some e, s1)
       | (Inr _, s1) \<Rightarrow> (case non_idempotent_call env (xe_cancelled env)
             (\<lambda>t db. claim_exceptions db (xe_group env) (xe_schema env) (x_batch_limit cfg) budget dur
                (xe_mode env) (ct_locked t) (ct_tokens t) (ct_now t)) s1 of
             (Inl (_, e), s2) \<Rightarrow> (Some e, s2)
           | (Inr xs, s2) \<Rightarrow> process_each env cfg xs s2))"

text \<open>\<open>claimLoop\<close>: whether an error of the cycle ends the session; a transient one waits for the next tick.\<close>

definition claim_loop_ends :: "wire_error option \<Rightarrow> bool" where
  "claim_loop_ends r = (case r of None \<Rightarrow> False
     | Some e \<Rightarrow> Context_Ended \<in> set e \<or> \<not> is_transient_datastore_error e)"

end
