(* ===== verification/Exception_Properties.thy ===== *)
theory Exception_Properties
  imports Exception_Runner Runner_Refinement
begin

text \<open>
  What one cycle of the exception consumer does, whatever its calls meet: its effect on the tables is
  a sequence of protocol steps, every exception it finishes is settled, and a run's answer decides
  the row it leaves.
\<close>

section \<open>The calls of the runner\<close>

text \<open>What holds of the tables before a call and is kept by everyone holds after it.\<close>

lemma call_kept:
  assumes "\<And>k db. P db \<Longrightarrow> P (ct_others (xe_script env k) db)"
    and "\<And>k db. P db \<Longrightarrow> P (snd (effect (xe_script env k) db))" "P (xr_db s)"
  shows "P (xr_db (snd (call_attempt env effect s)))"
  using assms(1) [OF assms(3), of "xr_turn s"]
    assms(2) [OF assms(1) [OF assms(3), of "xr_turn s"], of "xr_turn s"]
  by (auto simp: call_attempt_def Let_def split: call_fate.splits prod.splits)

lemma idempotent_kept:
  assumes "\<And>k db. P db \<Longrightarrow> P (ct_others (xe_script env k) db)"
    and "\<And>k db. P db \<Longrightarrow> P (snd (effect (xe_script env k) db))" "P (xr_db s)"
  shows "P (xr_db (snd (idempotent_call env ended effect s)))"
  unfolding idempotent_call_def wrap_idempotent_def
  by (rule retry_loop_keeps [where P = "\<lambda>s. P (xr_db s)"]) (rule call_kept [where P = P], erule assms(1), erule assms(2), assumption, rule assms(3))

lemma non_idempotent_kept:
  assumes "\<And>k db. P db \<Longrightarrow> P (ct_others (xe_script env k) db)"
    and "\<And>k db. P db \<Longrightarrow> P (snd (effect (xe_script env k) db))" "P (xr_db s)"
  shows "P (xr_db (snd (non_idempotent_call env ended effect s)))"
  unfolding non_idempotent_call_def wrap_non_idempotent_def
  by (rule retry_loop_keeps [where P = "\<lambda>s. P (xr_db s)"]) (rule call_kept [where P = P], erule assms(1), erule assms(2), assumption, rule assms(3))

text \<open>An answer comes from an attempt that was confirmed, on the tables as that attempt left them.\<close>

lemma idempotent_answer:
  assumes "idempotent_call env ended effect s = (Inr r, s')"
  shows "\<exists>t db. effect t db = (r, xr_db s')"
proof -
  have "\<exists>u. True \<and> call_attempt env effect u = (Inr r, s')"
    using assms unfolding idempotent_call_def wrap_idempotent_def
    by (intro retry_loop_success [where P = "\<lambda>_. True"]) auto
  then obtain u where u: "call_attempt env effect u = (Inr r, s')" by blast
  let ?t = "xe_script env (xr_turn u)"
  obtain r' db where e: "effect ?t (ct_others ?t (xr_db u)) = (r', db)" by fastforce
  with u have "r' = r \<and> xr_db s' = db"
    by (auto simp: call_attempt_def Let_def split: call_fate.splits)
  with e show ?thesis by blast
qed

section \<open>What every call keeps, the cycle keeps\<close>

locale kept_by_cycle =
  fixes env :: xenv and P :: "stream_db \<Rightarrow> bool"
  assumes others: "P db \<Longrightarrow> P (ct_others (xe_script env k) db)"
    and kill: "P db \<Longrightarrow> P (snd (kill db (xe_group env) budget mode now))"
    and claim: "P db \<Longrightarrow>
      P (snd (claim_exceptions db (xe_group env) schema limit budget dur mode locked toks now))"
    and renew: "P db \<Longrightarrow> P (snd (renew_lease db x dur now))"
    and key: "P db \<Longrightarrow> P (snd (claim_key (ct_between (xe_script env k)) db (xe_group env) key m compacted
      pol low high dur tok now))"
    and success: "P db \<Longrightarrow> P (snd (record_success db x mode kco now))"
    and failure: "P db \<Longrightarrow> P (snd (record_failure db policy x err mode kco now))"
    and delayed: "P db \<Longrightarrow> P (snd (record_delayed db delay x err mode kco now))"
    and terminal: "P db \<Longrightarrow> P (snd (record_terminal db x err mode kco now))"
    and superseded: "P db \<Longrightarrow> P (snd (record_superseded db x mode now))"
    and deferred: "P db \<Longrightarrow> P (snd (record_deferred db x pol mode now))"
begin

lemma absorb_kept: "P (xr_db (snd r)) \<Longrightarrow> P (xr_db (snd (absorb_lost_lease r)))"
  by (auto simp: absorb_lost_lease_def split: prod.splits sum.splits)

lemma outcomes_kept:
  assumes "P (xr_db s)"
  shows "P (xr_db (snd (run_success env x kco s)))" "P (xr_db (snd (run_terminal env x err kco s)))"
    "P (xr_db (snd (run_failure env x opts err kco s)))" "P (xr_db (snd (run_delayed env x opts e kco s)))"
    "P (xr_db (snd (run_superseded env x s)))" "P (xr_db (snd (run_deferred env x pol s)))"
  unfolding run_success_def run_terminal_def run_failure_def run_delayed_def run_superseded_def run_deferred_def
  using assms by (auto intro!: absorb_kept idempotent_kept [where P = P] intro: others success terminal failure
      delayed superseded deferred)

lemma handler_kept: "P (xr_db s) \<Longrightarrow> P (xr_db (snd (run_handler env cfg x opts kco s)))"
  unfolding run_handler_def Let_def
  by (auto simp: outcomes_kept split: option.splits handler_outcome.splits)

lemma gate_kept:
  assumes "P (xr_db s)"
  shows "P (xr_db (snd (gate_exception env cfg x opts dur s)))"
proof -
  let ?call = "idempotent_call env (xe_cancelled env)
    (\<lambda>t db. claim_key (ct_between t) db (xe_group env) (xc_key x) (xc_message x) (xc_compacted x)
       (mo_concurrency opts) 0 0 dur (xe_key_token env (xr_turn s)) (ct_now t)) s"
  have "P (xr_db (snd ?call))" by (rule idempotent_kept [where P = P]) (use others key assms in blast)+
  then show ?thesis
    unfolding gate_exception_def using assms
    by (auto simp: outcomes_kept handler_kept split: prod.splits sum.splits key_verdict.splits)
qed

lemma process_kept:
  assumes "P (xr_db s)"
  shows "P (xr_db (snd (process_exception env cfg x s)))"
proof -
  have "P (xr_db (snd (idempotent_call env (xe_cancelled env) (\<lambda>t db. renew_lease db x dur (ct_now t)) s)))" for dur
    by (rule idempotent_kept [where P = P]) (use others renew assms in blast)+
  then show ?thesis
    unfolding process_exception_def Let_def using assms
    by (auto simp: gate_kept split: prod.splits sum.splits) (metis gate_kept snd_conv)+
qed

lemma each_kept: "P (xr_db s) \<Longrightarrow> P (xr_db (snd (process_each env cfg xs s)))"
proof (induction xs arbitrary: s)
  case (Cons x xs)
  have "P (xr_db (snd (process_exception env cfg x s)))" by (rule process_kept [OF Cons.prems])
  then show ?case by (auto simp: Cons.IH split: prod.splits option.splits)
qed simp

lemma cycle_kept:
  assumes "P (xr_db s)"
  shows "P (xr_db (snd (exception_claim env cfg s)))"
proof -
  have k: "P (xr_db (snd (idempotent_call env (xe_cancelled env)
      (\<lambda>t db. kill db (xe_group env) budget (xe_mode env) (ct_now t)) s)))" for budget
    by (rule idempotent_kept [where P = P]) (use others kill assms in blast)+
  have c: "P (xr_db (snd (non_idempotent_call env (xe_cancelled env)
      (\<lambda>t db. claim_exceptions db (xe_group env) (xe_schema env) limit budget dur
         (xe_mode env) (ct_locked t) (ct_tokens t) (ct_now t)) u)))" if "P (xr_db u)" for limit budget dur u
    by (rule non_idempotent_kept [where P = P]) (use others claim that in blast)+
  let ?budget = "max_retries (run_policy (ceiling_of cfg))"
  obtain r s1 where r: "idempotent_call env (xe_cancelled env)
      (\<lambda>t db. kill db (xe_group env) ?budget (xe_mode env) (ct_now t)) s = (r, s1)" by fastforce
  let ?dur = "mo_timeout (ceiling_of cfg) + x_timeout_grace cfg + x_queue_margin cfg + x_record_margin cfg"
  obtain q s2 where q: "non_idempotent_call env (xe_cancelled env)
      (\<lambda>t db. claim_exceptions db (xe_group env) (xe_schema env) (x_batch_limit cfg) ?budget ?dur
         (xe_mode env) (ct_locked t) (ct_tokens t) (ct_now t)) s1 = (q, s2)" by fastforce
  have s1: "P (xr_db s1)" using k [of ?budget] r by simp
  then have s2: "P (xr_db s2)" using c [of s1 "x_batch_limit cfg" ?budget ?dur] q by simp
  show ?thesis
    unfolding exception_claim_def Let_def r q
    using s1 s2 by (auto simp: each_kept q split: sum.splits)
qed

end

section \<open>The cycle is a sequence of protocol steps\<close>

definition protocol_steps :: "int \<Rightarrow> stream_db \<Rightarrow> stream_db \<Rightarrow> bool" where
  "protocol_steps g db db' \<longleftrightarrow>
     (\<forall>f. fr_db f = db \<longrightarrow> (\<exists>f'. (frontier_step g)\<^sup>*\<^sup>* f f' \<and> fr_db f' = db'))"

lemma protocol_refl: "protocol_steps g db db"
  by (auto simp: protocol_steps_def)

lemma protocol_trans:
  assumes "protocol_steps g db db1" "protocol_steps g db1 db2"
  shows "protocol_steps g db db2"
  unfolding protocol_steps_def
proof (intro allI impI)
  fix f :: frontier assume "fr_db f = db"
  then obtain f1 where f1: "frontier_steps g f f1" "fr_db f1 = db1"
    using assms(1) unfolding protocol_steps_def by blast
  then obtain f2 where "frontier_steps g f1 f2" "fr_db f2 = db2"
    using assms(2) unfolding protocol_steps_def by blast
  with f1 show "\<exists>f'. frontier_steps g f f' \<and> fr_db f' = db2" using rtranclp_trans by fast
qed

lemma protocol_one:
  assumes "\<And>f. fr_db f = db \<Longrightarrow> \<exists>f'. frontier_step g f f' \<and> fr_db f' = db'"
  shows "protocol_steps g db db'"
  using assms unfolding protocol_steps_def by blast

lemma settle_db [simp]: "fr_db (settle f db' g) = db'"
  by (simp add: settle_def)

lemma protocol_foreign: "foreign db db' g \<Longrightarrow> protocol_steps g db db'"
  by (rule protocol_one) (auto intro: step_foreign)

lemma protocol_ops:
  "protocol_steps g db (snd (kill db g budget mode now))"
  "protocol_steps g db (snd (claim_exceptions db g schema limit budget dur mode locked toks now))"
  "protocol_steps g db (snd (renew_lease db x dur now))"
  "protocol_steps g db (snd (record_success db x mode kco now))"
  "protocol_steps g db (snd (record_failure db policy x err mode kco now))"
  "protocol_steps g db (snd (record_delayed db delay x err mode kco now))"
  "protocol_steps g db (snd (record_terminal db x err mode kco now))"
  "protocol_steps g db (snd (record_superseded db x mode now))"
  "protocol_steps g db (snd (record_deferred db x pol mode now))"
  by (rule protocol_one, metis prod.collapse settle_db step_kill,
      rule protocol_one, metis (no_types, lifting) prod.collapse frontier.simps frontier.surjective frontier.update_convs(1) step_claim)
    (rule protocol_one, use step_renew step_success step_failure step_delayed step_terminal step_superseded
      step_deferred in \<open>metis (no_types, lifting) prod.collapse frontier.select_convs(1) frontier.surjective
        frontier.update_convs(1) settle_db\<close>)+

lemma protocol_key:
  assumes "\<And>d. protocol_steps g d (between d)"
  shows "protocol_steps g db (snd (claim_key between db g' k m compacted pol low high dur tok now))"
proof (cases compacted)
  case True
  obtain h t db1 where a: "claim_compacted_attempt db g' k m dur tok now = ((h, t), db1)"
    by (metis prod.collapse)
  obtain n db2 where r: "claim_compacted_recheck (between db1) g' k m tok = (n, db2)" by fastforce
  have "foreign db db1 g"
    using a take_key_foreign by (auto simp: claim_compacted_attempt_def split: if_splits prod.splits)
  moreover have "foreign (between db1) db2 g"
    using r delete_key_foreign by (auto simp: claim_compacted_recheck_def split: if_splits)
  moreover have "snd (claim_key between db g' k m compacted pol low high dur tok now) = db2"
    using True a r by (auto simp: claim_key_def claim_compacted_def)
  ultimately show ?thesis using assms protocol_trans protocol_foreign by metis
next
  case False
  then have "claim_key between db g' k m compacted pol low high dur tok now
      = claim_key (\<lambda>d. d) db g' k m compacted pol low high dur tok now"
    by (simp add: claim_key_def)
  then show ?thesis
    using claim_key_foreign [of "\<lambda>d. d" g, OF foreign_refl prod.collapse [symmetric]]
    by (simp add: protocol_foreign)
qed

text \<open>What the environment has to be: other workers that keep to the protocol too.\<close>

definition others_keep_protocol :: "xenv \<Rightarrow> bool" where
  "others_keep_protocol env \<longleftrightarrow> (\<forall>k db.
     protocol_steps (xe_group env) db (ct_others (xe_script env k) db)
     \<and> protocol_steps (xe_group env) db (ct_between (xe_script env k) db))"

interpretation protocol: kept_by_cycle env "\<lambda>db. others_keep_protocol env \<longrightarrow> protocol_steps (xe_group env) db0 db"
  for env db0
proof (unfold_locales, goal_cases)
  case 1
  then show ?case using protocol_trans others_keep_protocol_def by blast
next
  case (5 db k)
  then show ?case using protocol_trans protocol_key others_keep_protocol_def by meson
qed (intro impI, erule (1) impE, erule protocol_trans, rule protocol_ops)+

text \<open>So what holds in all reachable states of the tables holds while exception consumers work on them.\<close>

lemma cycle_is_protocol_steps:
  "others_keep_protocol env \<Longrightarrow> protocol_steps (xe_group env) (xr_db s) (xr_db (snd (exception_claim env cfg s)))"
  using protocol.cycle_kept [of env "xr_db s" s cfg] protocol_refl by simp

section \<open>Every finished exception is settled\<close>

lemma release_key_queue [simp]: "exception_queue (snd (release_key db kc)) = exception_queue db"
  by (auto simp: release_key_def delete_key_lease_def Let_def split: option.splits)

lemma record_queue:
  "exception_queue (snd (record_and_release kco (n, db))) = exception_queue db"
  by (simp add: record_and_release_def split: option.splits)

lemma update_claimed_queue [simp]:
  "exception_queue (snd (update_claimed db x f entry)) = update_where (claimed_row x) f (exception_queue db)"
  by (simp add: update_claimed_def Let_def)

text \<open>No row is left under the token of the claim.\<close>

definition unclaimed :: "claimed_exception \<Rightarrow> stream_db \<Rightarrow> bool" where
  "unclaimed x db \<longleftrightarrow> \<not> (\<exists>e \<in> set (exception_queue db). claimed_row x e)"

lemma unclaimed_update:
  "(\<And>e. ex_token (f e) = None) \<Longrightarrow> unclaimed x (snd (record_and_release kco (update_claimed db x f entry)))"
  using record_queue [of kco "fst (update_claimed db x f entry)" "snd (update_claimed db x f entry)"]
  by (auto simp: unclaimed_def set_update_where claimed_row_def holds_row_def)

lemma record_unclaims:
  "unclaimed x (snd (record_success db x mode kco now))"
  "unclaimed x (snd (record_failure db policy x err mode kco now))"
  "unclaimed x (snd (record_delayed db delay x err mode kco now))"
  "unclaimed x (snd (record_terminal db x err mode kco now))"
  "unclaimed x (snd (record_superseded db x mode now))"
  "unclaimed x (snd (record_deferred db x pol mode now))"
proof -
  show "unclaimed x (snd (record_success db x mode kco now))"
    by (auto simp: unclaimed_def record_success_def record_queue Let_def set_delete_where)
qed (simp_all add: record_failure_def record_delayed_def record_terminal_def record_superseded_def
    record_deferred_def release_row_def unclaimed_update)

lemma renew_refused: "renew_lease db x dur now = (False, db') \<Longrightarrow> unclaimed x db'"
  by (auto simp: renew_lease_def unclaimed_def set_update_where)

text \<open>What an idempotent call without an error has done to the row.\<close>

lemma absorbed:
  assumes "absorb_lost_lease (idempotent_call env ended effect s) = (None, s')"
    and "\<And>t db. unclaimed x (snd (effect t db))"
  shows "unclaimed x (xr_db s')"
proof -
  obtain r where "idempotent_call env ended effect s = (Inr r, s')"
    using assms(1) by (auto simp: absorb_lost_lease_def split: prod.splits sum.splits)
  from idempotent_answer [OF this] assms(2) show ?thesis by (metis snd_conv)
qed

lemma outcome_settles:
  "run_success env x kco s = (None, s') \<Longrightarrow> unclaimed x (xr_db s')"
  "run_terminal env x err kco s = (None, s') \<Longrightarrow> unclaimed x (xr_db s')"
  "run_failure env x opts err kco s = (None, s') \<Longrightarrow> unclaimed x (xr_db s')"
  "run_delayed env x opts e kco s = (None, s') \<Longrightarrow> unclaimed x (xr_db s')"
  "run_superseded env x s = (None, s') \<Longrightarrow> unclaimed x (xr_db s')"
  "run_deferred env x pol s = (None, s') \<Longrightarrow> unclaimed x (xr_db s')"
  unfolding run_success_def run_failure_def run_delayed_def run_terminal_def run_superseded_def run_deferred_def
  by (auto dest: absorbed [OF _ record_unclaims(1)] absorbed [OF _ record_unclaims(2)]
      absorbed [OF _ record_unclaims(3)] absorbed [OF _ record_unclaims(4)]
      absorbed [OF _ record_unclaims(5)] absorbed [OF _ record_unclaims(6)] split: if_splits)

lemma handler_settles: "run_handler env cfg x opts kco s = (None, s') \<Longrightarrow> unclaimed x (xr_db s')"
  by (auto simp: run_handler_def Let_def dest: outcome_settles split: if_splits option.splits handler_outcome.splits)

lemma gate_settles: "gate_exception env cfg x opts dur s = (None, s') \<Longrightarrow> unclaimed x (xr_db s')"
  by (auto simp: gate_exception_def dest: outcome_settles handler_settles
      split: if_splits prod.splits sum.splits key_verdict.splits)

text \<open>An exception the runner is done with is settled: when processing it returns without an
  error, through whichever gate, outcome, retry or unconfirmed commit, no row is left under the token
  it was claimed with, so nothing waits for a lease to expire and no attempt is burned.\<close>

theorem finished_exception_is_settled:
  assumes "process_exception env cfg x s = (None, s')"
  shows "\<not> (\<exists>e \<in> set (exception_queue (xr_db s')).
    ex_group e = xc_group x \<and> ex_message e = xc_message x \<and> ex_token e = Some (xc_token x))"
proof -
  let ?opts = "exception_config_resolve cfg (xc_options x)"
  let ?dur = "mo_timeout ?opts + x_timeout_grace cfg + x_record_margin cfg"
  have "unclaimed x (xr_db s')"
  proof (cases "xc_expires x < ct_now (xe_script env (xr_turn s)) + ?dur")
    case False
    with assms show ?thesis by (auto simp: process_exception_def Let_def dest: gate_settles)
  next
    case True
    obtain r s1 where r: "idempotent_call env (xe_cancelled env) (\<lambda>t db. renew_lease db x ?dur (ct_now t)) s
      = (r, s1)" by fastforce
    show ?thesis
    proof (cases "r = Inr False")
      case True
      with r idempotent_answer [of env _ _ s False s1] renew_refused have "unclaimed x (xr_db s1)" by blast
      with assms r True \<open>xc_expires x < _\<close> show ?thesis by (simp add: process_exception_def Let_def)
    next
      case False
      with assms r True show ?thesis
        by (auto simp: process_exception_def Let_def dest: gate_settles split: sum.splits if_splits)
    qed
  qed
  then show ?thesis by (auto simp: unclaimed_def claimed_row_def holds_row_def)
qed

end
