(* ===== verification/Exception_Budget.thy ===== *)
theory Exception_Budget
  imports Exception_Properties Frontier_Demo
begin

text \<open>
  How often a message that always fails is run: one exception row, a quiet environment, and as many
  cycles as the retry policy the message resolves to allows.
\<close>













section \<open>The budget\<close>




text \<open>The library's defaults, a consumer function that always fails, one cycle every hour.\<close>

definition demo_x_config :: exception_consumer_config where
  "demo_x_config = exception_config_with_defaults
     \<lparr>x_batch_limit = 0, x_claim_poll_rate = 0, x_queue_margin = 0, x_record_margin = 0, x_timeout_grace = 0,
      x_slow_dispatch_threshold = 0, x_instance_ttl = 0, x_config_refresh_interval = 0, x_message = None,
      x_message_min = None, x_message_max = None, x_concurrency_override = Policy_Unset\<rparr>"

definition demo_x_env :: xenv where
  "demo_x_env = \<lparr>xe_script = (\<lambda>k. \<lparr>ct_others = (\<lambda>db. db), ct_between = (\<lambda>db. db),
       ct_now = int (k div 3) * 3600 * second, ct_fate = Call_Ok, ct_tokens = (\<lambda>i. nat i), ct_locked = (\<lambda>_. False)\<rparr>),
     xe_group = 1, xe_schema = 1, xe_mode = Mode_Failures, xe_retry = new_default_retry_policy,
     xe_cancelled = (\<lambda>_. False), xe_margin = (\<lambda>_. False), xe_decodes = (\<lambda>_. True),
     xe_handler = (\<lambda>_ _. Returned (Some [Plain_Error ''boom'']) 1), xe_key_token = (\<lambda>k. k),
     xe_show = (\<lambda>_. ''boom''), xe_show_wire = (\<lambda>_. ''down'')\<rparr>"

definition demo_x_message :: message_row where
  "demo_x_message = \<lparr>msg_id = 7, msg_schema_version = 1, msg_routing_key = None, msg_key = None, msg_rank = None,
     msg_payload = ''{}'', msg_options = None, msg_created_at = 0\<rparr>"

definition demo_x_row :: exception_row where
  "demo_x_row = new_exception 1 7 Ready None Parallel 0 0 (Some ''boom'') 0"

definition demo_x_start :: xrunner where
  "demo_x_start = \<lparr>xr_db = empty_db\<lparr>message_log := [demo_x_message], exception_queue := [demo_x_row]\<rparr>,
     xr_turn = 0, xr_runs = []\<rparr>"



section \<open>Settled on the same run\<close>

theorem finished_exception_is_settled_witness:
  "let x = hd (fst (claim_exceptions (xr_db demo_x_start) 1 1 1 3 (60 * second) Mode_Failures (\<lambda>_. False) (\<lambda>i. nat i) 0));
       s = demo_x_start\<lparr>xr_db := snd (claim_exceptions (xr_db demo_x_start) 1 1 1 3 (60 * second) Mode_Failures
             (\<lambda>_. False) (\<lambda>i. nat i) 0)\<rparr>
   in (\<exists>e \<in> set (exception_queue (xr_db s)). ex_token e = Some 7)
    \<and> \<not> (\<exists>e \<in> set (exception_queue (xr_db (snd (process_exception demo_x_env demo_x_config x s)))).
         ex_group e = 1 \<and> ex_message e = 7 \<and> ex_token e = Some 7)"
proof -
  let ?c = "claim_exceptions (xr_db demo_x_start) 1 1 1 3 (60 * second) Mode_Failures (\<lambda>_. False) (\<lambda>i. nat i) 0"
  let ?x = "hd (fst ?c)" and ?s = "demo_x_start\<lparr>xr_db := snd ?c\<rparr>"
  have "fst (process_exception demo_x_env demo_x_config ?x ?s) = None" by code_simp
  then have "process_exception demo_x_env demo_x_config ?x ?s
      = (None, snd (process_exception demo_x_env demo_x_config ?x ?s))" by (metis prod.collapse)
  note settled = finished_exception_is_settled [OF this]
  have "xc_group ?x = 1 \<and> xc_message ?x = 7 \<and> xc_token ?x = 7" by code_simp
  moreover have "\<exists>e \<in> set (exception_queue (xr_db ?s)). ex_token e = Some 7" by code_simp
  ultimately show ?thesis using settled by (simp add: Let_def)
qed

end
