(* ===== verification/Workers.thy ===== *)
theory Workers
  imports Prelude
begin

text \<open>
  Workers and their instances: \<open>pkg/common/owner.go\<close>, \<open>pkg/datastore/owner_columns.go\<close>, the
  worker tables of \<open>pkg/system/controller/datastore/tables.go\<close>, and the statements and argument
  checks of \<open>pkg/worker/controller\<close>. A worker row says how many live instances may run; a claim
  inserts an instance row under the row lock of its worker, a heartbeat renews it, and past
  \<open>expires_at\<close> it counts as dead. Metadata is a jsonb value, of a type of its own; \<open>now\<close> is the
  start time of the transaction, as \<open>now()\<close> is in PostgreSQL. Failures of the database itself
  roll the transaction back and are the business of \<open>Datastore_Retry\<close>.
\<close>

named_theorems worker_defs "operations on the worker tables"

section \<open>Owners\<close>

datatype owner_kind =
    Owner_Any
  | Owner_System
  | Owner_Stream
  | Owner_Consumer_Group
  | Owner_Unknown string

record owner =
  ow_system :: int
  ow_stream :: int
  ow_group :: int
  ow_name :: string

definition validate_owner_kind :: "owner_kind \<Rightarrow> bool" where
  "validate_owner_kind k \<longleftrightarrow> k \<in> {Owner_System, Owner_Stream, Owner_Consumer_Group}"

definition new_system_owner :: "int \<Rightarrow> owner option" where
  "new_system_owner s =
     (if s \<le> 0 then None
      else Some \<lparr>ow_system = s, ow_stream = 0, ow_group = 0, ow_name = ''system''\<rparr>)"

definition new_stream_owner :: "int \<Rightarrow> int \<Rightarrow> string \<Rightarrow> owner option" where
  "new_stream_owner s t n =
     (if s \<le> 0 \<or> t \<le> 0 \<or> n = '''' then None
      else Some \<lparr>ow_system = s, ow_stream = t, ow_group = 0, ow_name = n\<rparr>)"

definition new_group_owner :: "int \<Rightarrow> int \<Rightarrow> int \<Rightarrow> string \<Rightarrow> owner option" where
  "new_group_owner s t g n =
     (if s \<le> 0 \<or> t \<le> 0 \<or> g \<le> 0 \<or> n = '''' then None
      else Some \<lparr>ow_system = s, ow_stream = t, ow_group = g, ow_name = n\<rparr>)"

definition kind_of :: "owner \<Rightarrow> owner_kind" where
  "kind_of ow =
     (if 0 < ow_group ow then Owner_Consumer_Group
      else if 0 < ow_stream ow then Owner_Stream
      else Owner_System)"

type_synonym owner_columns = "int option \<times> int option \<times> int option"

definition new_owner_columns :: "owner \<Rightarrow> owner_columns" where
  "new_owner_columns ow =
     (case kind_of ow of
        Owner_Consumer_Group \<Rightarrow> (None, None, Some (ow_group ow))
      | Owner_Stream \<Rightarrow> (None, Some (ow_stream ow), None)
      | _ \<Rightarrow> (Some (ow_system ow), None, None))"

section \<open>Rows\<close>

record 'm worker_config =
  wc_id :: int
  wc_owner :: owner_columns
  wc_name :: string
  wc_metadata :: 'm
  wc_target :: int
  wc_created :: time
  wc_updated :: time

record 'm worker_config_log =
  wl_worker :: int
  wl_name :: string
  wl_metadata :: 'm
  wl_target :: int
  wl_declared_by :: string
  wl_declared_at :: time

record worker_instance =
  wi_id :: int
  wi_worker :: int
  wi_token :: uuid
  wi_expires :: time
  wi_attempts :: int
  wi_created :: time

record worker_instance_log =
  il_id :: int
  il_instance :: int
  il_worker :: int
  il_token :: uuid
  il_expires :: time
  il_attempts :: int
  il_created :: time
  il_attempted :: time

text \<open>The columns of the stream and group tables that the listings join.\<close>

record stream_ref =
  sf_id :: int
  sf_system :: int
  sf_name :: string

record group_ref =
  gf_id :: int
  gf_stream :: int
  gf_name :: string

record 'm worker_db =
  worker_configs :: "'m worker_config list"
  worker_config_logs :: "'m worker_config_log list"
  worker_instances :: "worker_instance list"
  worker_instance_logs :: "worker_instance_log list"
  next_worker :: int
  next_instance :: int
  next_instance_log :: int
  wd_streams :: "stream_ref list"
  wd_groups :: "group_ref list"

datatype worker_error =
    Instance_Lost
  | Worker_Suspended
  | Worker_Not_Found
  | Declaration_Interrupted
  | No_Worker_Row
  | Worker_Invalid string

type_synonym ('m, 'a) worker_exec = "(worker_error + 'a) \<times> 'm worker_db"

definition no_instance_target :: int where
  "no_instance_target = -1"

definition target_suspended :: "int \<Rightarrow> bool" where
  "target_suspended t \<longleftrightarrow> t = 0"

definition validate_target :: "int \<Rightarrow> bool" where
  "validate_target t \<longleftrightarrow> t = no_instance_target \<or> 0 \<le> t"

definition worker_of :: "'m worker_db \<Rightarrow> int \<Rightarrow> 'm worker_config option" where
  "worker_of db w = find (\<lambda>c. wc_id c = w) (worker_configs db)"

section \<open>Claiming an instance\<close>

definition is_live :: "int \<Rightarrow> time \<Rightarrow> worker_instance \<Rightarrow> bool" where
  "is_live w now i \<longleftrightarrow> wi_worker i = w \<and> now < wi_expires i"

definition live_instances :: "'m worker_db \<Rightarrow> int \<Rightarrow> time \<Rightarrow> nat" where
  "live_instances db w now = rows_matching (is_live w now) (worker_instances db)"

text \<open>The read without a lock: it can only decline.\<close>

definition claim_room :: "'m worker_db \<Rightarrow> int \<Rightarrow> time \<Rightarrow> bool" where
  "claim_room db w now =
     (case worker_of db w of
        None \<Rightarrow> False
      | Some c \<Rightarrow> \<not> (target_suspended (wc_target c)
                 \<or> (wc_target c \<noteq> no_instance_target
                    \<and> wc_target c \<le> int (live_instances db w now))))"

text \<open>
  \<open>appendWorkerInstanceLog\<close>: \<open>INSERT ... SELECT ... FROM worker_instance WHERE id = $1\<close>;
  \<open>attempted_at\<close> defaults to \<open>NOW()\<close>.
\<close>

definition append_instance_log :: "'m worker_db \<Rightarrow> int \<Rightarrow> time \<Rightarrow> 'm worker_db" where
  "append_instance_log db i now =
     (case find (\<lambda>r. wi_id r = i) (worker_instances db) of
        None \<Rightarrow> db
      | Some r \<Rightarrow> db\<lparr>worker_instance_logs := worker_instance_logs db
            @ [\<lparr>il_id = next_instance_log db, il_instance = wi_id r, il_worker = wi_worker r,
                il_token = wi_token r, il_expires = wi_expires r, il_attempts = wi_attempts r,
                il_created = wi_created r, il_attempted = now\<rparr>],
          next_instance_log := next_instance_log db + 1\<rparr>)"

definition new_instance :: "'m worker_db \<Rightarrow> int \<Rightarrow> duration \<Rightarrow> uuid \<Rightarrow> time \<Rightarrow> worker_instance" where
  "new_instance db w ttl tok now =
     \<lparr>wi_id = next_instance db, wi_worker = w, wi_token = tok, wi_expires = now + ttl,
      wi_attempts = 0, wi_created = now\<rparr>"

text \<open>
  The transaction: \<open>SELECT target_instances ... FOR UPDATE\<close>, then the insert with its own count,
  then the log row. The row lock serialises it against other claims and target updates.
\<close>

definition claim_locked ::
  "'m worker_db \<Rightarrow> int \<Rightarrow> duration \<Rightarrow> uuid \<Rightarrow> time \<Rightarrow> worker_instance option \<times> 'm worker_db" where
  "claim_locked db w ttl tok now =
     (case worker_of db w of
        None \<Rightarrow> (None, db)
      | Some c \<Rightarrow>
          if wc_target c = -1 \<or> int (live_instances db w now) < wc_target c
          then (let r = new_instance db w ttl tok now;
                    db' = db\<lparr>worker_instances := worker_instances db @ [r],
                             next_instance := next_instance db + 1\<rparr>
                in (Some r, append_instance_log db' (wi_id r) now))
          else (None, db))"

text \<open>\<open>between\<close> is what other transactions commit after the unlocked read.\<close>

definition claim_instance ::
  "('m worker_db \<Rightarrow> 'm worker_db) \<Rightarrow> 'm worker_db \<Rightarrow> int \<Rightarrow> duration \<Rightarrow> uuid \<Rightarrow> time \<Rightarrow> time
   \<Rightarrow> worker_instance option \<times> 'm worker_db" where
  "claim_instance between db w ttl tok read_at now =
     (if \<not> claim_room db w read_at then (None, db)
      else claim_locked (between db) w ttl tok now)"

section \<open>Holding an instance\<close>

definition holds_instance :: "int \<Rightarrow> uuid \<Rightarrow> worker_instance \<Rightarrow> bool" where
  "holds_instance i tok r \<longleftrightarrow> wi_id r = i \<and> wi_token r = tok"

text \<open>
  The first statement of a renewal reads the target through the join with \<open>worker_config\<close>.
\<close>

definition renew_read :: "'m worker_db \<Rightarrow> int \<Rightarrow> uuid \<Rightarrow> worker_error + unit" where
  "renew_read db i tok =
     (case find (holds_instance i tok) (worker_instances db) of
        None \<Rightarrow> Inl Instance_Lost
      | Some r \<Rightarrow> (case worker_of db (wi_worker r) of
            None \<Rightarrow> Inl Instance_Lost
          | Some c \<Rightarrow> if wc_target c = 0 then Inl Worker_Suspended else Inr ()))"

definition renewable :: "int \<Rightarrow> uuid \<Rightarrow> time \<Rightarrow> worker_instance \<Rightarrow> bool" where
  "renewable i tok now r \<longleftrightarrow> holds_instance i tok r \<and> now < wi_expires r"

definition renew_update ::
  "'m worker_db \<Rightarrow> int \<Rightarrow> uuid \<Rightarrow> duration \<Rightarrow> time \<Rightarrow> ('m, unit) worker_exec" where
  "renew_update db i tok ttl now =
     (if rows_matching (renewable i tok now) (worker_instances db) = 0
      then (Inl Instance_Lost, db)
      else (Inr (), append_instance_log
             (db\<lparr>worker_instances := update_where (renewable i tok now)
                  (\<lambda>r. r\<lparr>wi_expires := now + ttl\<rparr>) (worker_instances db)\<rparr>) i now))"

definition renew_instance ::
  "('m worker_db \<Rightarrow> 'm worker_db) \<Rightarrow> 'm worker_db \<Rightarrow> int \<Rightarrow> uuid \<Rightarrow> duration \<Rightarrow> time
   \<Rightarrow> ('m, unit) worker_exec" where
  "renew_instance between db i tok ttl now =
     (case renew_read db i tok of
        Inl e \<Rightarrow> (Inl e, db)
      | Inr _ \<Rightarrow> renew_update (between db) i tok ttl now)"

definition record_instance_success ::
  "'m worker_db \<Rightarrow> int \<Rightarrow> uuid \<Rightarrow> ('m, unit) worker_exec" where
  "record_instance_success db i tok =
     (if rows_matching (holds_instance i tok) (worker_instances db) = 0
      then (Inl Instance_Lost, db)
      else (Inr (), db\<lparr>worker_instances := update_where (holds_instance i tok)
                        (\<lambda>r. r\<lparr>wi_attempts := 0\<rparr>) (worker_instances db)\<rparr>))"

text \<open>\<open>RETURNING attempts\<close> reads the row after the update.\<close>

definition record_instance_failure ::
  "'m worker_db \<Rightarrow> int \<Rightarrow> uuid \<Rightarrow> ('m, int) worker_exec" where
  "record_instance_failure db i tok =
     (case find (holds_instance i tok) (worker_instances db) of
        None \<Rightarrow> (Inl Instance_Lost, db)
      | Some r \<Rightarrow> (Inr (wi_attempts r + 1),
          db\<lparr>worker_instances := update_where (holds_instance i tok)
               (\<lambda>r. r\<lparr>wi_attempts := wi_attempts r + 1\<rparr>) (worker_instances db)\<rparr>))"

definition release_instance :: "'m worker_db \<Rightarrow> int \<Rightarrow> uuid \<Rightarrow> ('m, unit) worker_exec" where
  "release_instance db i tok =
     (if rows_matching (holds_instance i tok) (worker_instances db) = 0
      then (Inl Instance_Lost, db)
      else (Inr (), db\<lparr>worker_instances :=
                        delete_where (holds_instance i tok) (worker_instances db)\<rparr>))"

definition sweep_expired_instances :: "'m worker_db \<Rightarrow> time \<Rightarrow> nat \<times> 'm worker_db" where
  "sweep_expired_instances db now =
     (rows_matching (\<lambda>r. wi_expires r \<le> now) (worker_instances db),
      db\<lparr>worker_instances := delete_where (\<lambda>r. wi_expires r \<le> now) (worker_instances db)\<rparr>)"

definition sweep_expired_instance_logs ::
  "'m worker_db \<Rightarrow> duration \<Rightarrow> time \<Rightarrow> nat \<times> 'm worker_db" where
  "sweep_expired_instance_logs db ttl now =
     (let p = (\<lambda>l. il_expires l < now - ttl) in
      (rows_matching p (worker_instance_logs db),
       db\<lparr>worker_instance_logs := delete_where p (worker_instance_logs db)\<rparr>))"

text \<open>\<open>ORDER BY created_at DESC, expires_at DESC, id DESC\<close>: three stable sorts, last key first.\<close>

definition list_instance_snapshots ::
  "'m worker_db \<Rightarrow> int \<Rightarrow> time \<Rightarrow> time \<Rightarrow> worker_instance_log list" where
  "list_instance_snapshots db w start finish =
     sort_key (\<lambda>l. - il_created l) (sort_key (\<lambda>l. - il_expires l) (sort_key (\<lambda>l. - il_id l)
       (filter (\<lambda>l. il_worker l = w \<and> start \<le> il_expires l \<and> il_created l \<le> finish
                    \<and> il_attempted l \<le> finish) (worker_instance_logs db))))"

section \<open>Declaring a worker\<close>

definition append_config_log ::
  "'m worker_db \<Rightarrow> int \<Rightarrow> string \<Rightarrow> time \<Rightarrow> 'm worker_db" where
  "append_config_log db w by now =
     (case worker_of db w of
        None \<Rightarrow> db
      | Some c \<Rightarrow> db\<lparr>worker_config_logs := worker_config_logs db
            @ [\<lparr>wl_worker = wc_id c, wl_name = wc_name c, wl_metadata = wc_metadata c,
                wl_target = wc_target c, wl_declared_by = by, wl_declared_at = now\<rparr>]\<rparr>)"

definition named_worker :: "string \<Rightarrow> owner_columns \<Rightarrow> 'm worker_config \<Rightarrow> bool" where
  "named_worker n cols c \<longleftrightarrow> wc_name c = n \<and> wc_owner c = cols"

text \<open>
  The insert meets the unique index of the owner's column and returns no row when the worker
  exists; it has drawn a sequence value by then, which it does not give back. \<open>between\<close> is what
  others commit before the read; the update names the row it read by id, and \<open>between2\<close> is what
  they commit before it.
\<close>

definition register_worker ::
  "('m worker_db \<Rightarrow> 'm worker_db) \<Rightarrow> ('m worker_db \<Rightarrow> 'm worker_db) \<Rightarrow> 'm worker_db \<Rightarrow> string
   \<Rightarrow> owner \<Rightarrow> 'm \<Rightarrow> int \<Rightarrow> string \<Rightarrow> time \<Rightarrow> ('m, unit) worker_exec" where
  "register_worker between between2 db n ow meta target by now =
     (let cols = new_owner_columns ow;
          drawn = db\<lparr>next_worker := next_worker db + 1\<rparr> in
      case find (named_worker n cols) (worker_configs db) of
        None \<Rightarrow>
          (Inr (), append_config_log
             (drawn\<lparr>worker_configs := worker_configs db
                @ [\<lparr>wc_id = next_worker db, wc_owner = cols, wc_name = n, wc_metadata = meta,
                    wc_target = target, wc_created = now, wc_updated = now\<rparr>]\<rparr>)
             (next_worker db) by now)
      | Some _ \<Rightarrow>
          (let db1 = between drawn in
           case find (named_worker n cols) (worker_configs db1) of
             None \<Rightarrow> (Inl Declaration_Interrupted, db1)
           | Some c \<Rightarrow>
               if wc_metadata c = meta then (Inr (), db1)
               else (let db2 = between2 db1 in
                     if rows_matching (\<lambda>r. wc_id r = wc_id c) (worker_configs db2) = 0
                     then (Inl Declaration_Interrupted, db2)
                     else (Inr (), append_config_log
                            (db2\<lparr>worker_configs := update_where (\<lambda>r. wc_id r = wc_id c)
                                  (\<lambda>r. r\<lparr>wc_metadata := meta, wc_updated := now\<rparr>)
                                  (worker_configs db2)\<rparr>) (wc_id c) by now))))"

definition update_target_instances ::
  "'m worker_db \<Rightarrow> int \<Rightarrow> int \<Rightarrow> string \<Rightarrow> time \<Rightarrow> ('m, unit) worker_exec" where
  "update_target_instances db w target by now =
     (case worker_of db w of
        None \<Rightarrow> (Inl Worker_Not_Found, db)
      | Some c \<Rightarrow>
          if wc_target c = target then (Inr (), db)
          else (Inr (), append_config_log
                 (db\<lparr>worker_configs := update_where (\<lambda>r. wc_id r = w)
                      (\<lambda>r. r\<lparr>wc_target := target, wc_updated := now\<rparr>) (worker_configs db)\<rparr>)
                 w by now))"

section \<open>Reading workers\<close>

record 'm declared_worker =
  dw_id :: int
  dw_name :: string
  dw_owner :: owner
  dw_metadata :: 'm
  dw_target :: int

definition get_worker ::
  "'m worker_db \<Rightarrow> string \<Rightarrow> owner \<Rightarrow> worker_error + 'm declared_worker" where
  "get_worker db n ow =
     (case find (named_worker n (new_owner_columns ow)) (worker_configs db) of
        None \<Rightarrow> Inl No_Worker_Row
      | Some c \<Rightarrow> Inr \<lparr>dw_id = wc_id c, dw_name = n, dw_owner = ow,
                       dw_metadata = wc_metadata c, dw_target = wc_target c\<rparr>)"

definition group_of_row :: "'m worker_db \<Rightarrow> 'm worker_config \<Rightarrow> group_ref option" where
  "group_of_row db c =
     (case snd (snd (wc_owner c)) of
        None \<Rightarrow> None
      | Some g \<Rightarrow> find (\<lambda>r. gf_id r = g) (wd_groups db))"

definition stream_of_row :: "'m worker_db \<Rightarrow> 'm worker_config \<Rightarrow> stream_ref option" where
  "stream_of_row db c =
     (case (fst (snd (wc_owner c)), group_of_row db c) of
        (Some s, _) \<Rightarrow> find (\<lambda>r. sf_id r = s) (wd_streams db)
      | (None, Some g) \<Rightarrow> find (\<lambda>r. sf_id r = gf_stream g) (wd_streams db)
      | (None, None) \<Rightarrow> None)"

definition owner_system_id :: "'m worker_db \<Rightarrow> 'm worker_config \<Rightarrow> int" where
  "owner_system_id db c =
     (case (fst (wc_owner c), stream_of_row db c) of
        (Some s, _) \<Rightarrow> s
      | (None, Some t) \<Rightarrow> sf_system t
      | (None, None) \<Rightarrow> 0)"

text \<open>\<open>toWorker\<close>: the deepest column that is set names the owner; a row it cannot name is skipped.\<close>

definition to_worker :: "'m worker_db \<Rightarrow> 'm worker_config \<Rightarrow> 'm declared_worker option" where
  "to_worker db c =
     (let sys = owner_system_id db c;
          str = (case stream_of_row db c of None \<Rightarrow> 0 | Some t \<Rightarrow> sf_id t);
          stn = (case stream_of_row db c of None \<Rightarrow> '''' | Some t \<Rightarrow> sf_name t);
          gn = (case group_of_row db c of None \<Rightarrow> '''' | Some g \<Rightarrow> gf_name g);
          ow = (case wc_owner c of
                  (_, _, Some g) \<Rightarrow> new_group_owner sys str g gn
                | (_, Some s, None) \<Rightarrow> new_stream_owner sys s stn
                | (_, None, None) \<Rightarrow> new_system_owner sys) in
      case ow of
        None \<Rightarrow> None
      | Some ow \<Rightarrow> Some \<lparr>dw_id = wc_id c, dw_name = wc_name c, dw_owner = ow,
                         dw_metadata = wc_metadata c, dw_target = wc_target c\<rparr>)"

definition on_chain :: "'m worker_db \<Rightarrow> owner \<Rightarrow> 'm worker_config \<Rightarrow> bool" where
  "on_chain db ow c \<longleftrightarrow>
     fst (wc_owner c) = Some (ow_system ow)
     \<or> fst (snd (wc_owner c)) = Some (ow_stream ow)
     \<or> snd (snd (wc_owner c)) = Some (ow_group ow)
     \<or> (ow_stream ow = 0 \<and> ow_group ow = 0
        \<and> (case stream_of_row db c of None \<Rightarrow> False | Some t \<Rightarrow> sf_system t = ow_system ow))"

definition list_workers :: "'m worker_db \<Rightarrow> owner \<Rightarrow> 'm declared_worker list" where
  "list_workers db ow = List.map_filter (to_worker db) (filter (on_chain db ow) (worker_configs db))"

definition list_group_workers ::
  "'m worker_db \<Rightarrow> owner \<Rightarrow> worker_error + 'm declared_worker list" where
  "list_group_workers db ow =
     (if ow_group ow \<le> 0 then Inl (Worker_Invalid ''owner.ConsumerGroupId'')
      else Inr (List.map_filter (to_worker db)
        (filter (\<lambda>c. snd (snd (wc_owner c)) = Some (ow_group ow)) (worker_configs db))))"

section \<open>The controller's checks\<close>

definition valid_instance_inputs :: "int \<Rightarrow> uuid \<Rightarrow> worker_error + unit" where
  "valid_instance_inputs i tok =
     (if i \<le> 0 then Inl (Worker_Invalid ''instanceId'')
      else if tok = 0 then Inl (Worker_Invalid ''token'')
      else Inr ())"

definition claim_instance_checked ::
  "('m worker_db \<Rightarrow> 'm worker_db) \<Rightarrow> 'm worker_db \<Rightarrow> int \<Rightarrow> duration \<Rightarrow> uuid \<Rightarrow> time \<Rightarrow> time
   \<Rightarrow> ('m, worker_instance option) worker_exec" where
  "claim_instance_checked between db w ttl tok read_at now =
     (if w \<le> 0 then (Inl (Worker_Invalid ''workerId''), db)
      else if ttl \<le> 0 then (Inl (Worker_Invalid ''ttl''), db)
      else (case claim_instance between db w ttl tok read_at now of (r, db') \<Rightarrow> (Inr r, db')))"

definition renew_instance_checked ::
  "('m worker_db \<Rightarrow> 'm worker_db) \<Rightarrow> 'm worker_db \<Rightarrow> int \<Rightarrow> uuid \<Rightarrow> duration \<Rightarrow> time
   \<Rightarrow> ('m, unit) worker_exec" where
  "renew_instance_checked between db i tok ttl now =
     (case valid_instance_inputs i tok of
        Inl e \<Rightarrow> (Inl e, db)
      | Inr _ \<Rightarrow> if ttl \<le> 0 then (Inl (Worker_Invalid ''ttl''), db)
                else renew_instance between db i tok ttl now)"

definition checked_instance ::
  "('m worker_db \<Rightarrow> int \<Rightarrow> uuid \<Rightarrow> ('m, 'a) worker_exec)
   \<Rightarrow> 'm worker_db \<Rightarrow> int \<Rightarrow> uuid \<Rightarrow> ('m, 'a) worker_exec" where
  "checked_instance run db i tok =
     (case valid_instance_inputs i tok of Inl e \<Rightarrow> (Inl e, db) | Inr _ \<Rightarrow> run db i tok)"

definition update_target_checked ::
  "'m worker_db \<Rightarrow> int \<Rightarrow> int \<Rightarrow> string \<Rightarrow> time \<Rightarrow> ('m, unit) worker_exec" where
  "update_target_checked db w target by now =
     (if w \<le> 0 then (Inl (Worker_Invalid ''workerId''), db)
      else if \<not> validate_target target then (Inl (Worker_Invalid ''target''), db)
      else update_target_instances db w target by now)"

definition validate_owner :: "owner \<Rightarrow> owner_kind \<Rightarrow> bool" where
  "validate_owner ow k \<longleftrightarrow> kind_of ow = k"

text \<open>A declaration that keeps the defaults: \<open>metadata\<close> is given, the definition names it.\<close>

definition declare_worker ::
  "('m worker_db \<Rightarrow> 'm worker_db) \<Rightarrow> ('m worker_db \<Rightarrow> 'm worker_db) \<Rightarrow> 'm worker_db
   \<Rightarrow> string \<Rightarrow> owner_kind \<Rightarrow> int \<Rightarrow> 'm \<Rightarrow> owner \<Rightarrow> string \<Rightarrow> time \<Rightarrow> ('m, unit) worker_exec" where
  "declare_worker between between2 db n k target meta ow by now =
     (if k \<noteq> Owner_Any \<and> \<not> validate_owner ow k then (Inl (Worker_Invalid ''owner''), db)
      else if n = '''' then (Inl (Worker_Invalid ''name''), db)
      else if \<not> validate_target target then (Inl (Worker_Invalid ''initialTarget''), db)
      else register_worker between between2 db n ow meta target by now)"

definition register_instance ::
  "('m worker_db \<Rightarrow> 'm worker_db) \<Rightarrow> ('m worker_db \<Rightarrow> owner \<Rightarrow> worker_error + unit)
   \<Rightarrow> 'm worker_db \<Rightarrow> int \<Rightarrow> owner \<Rightarrow> owner_kind \<Rightarrow> duration \<Rightarrow> uuid \<Rightarrow> time \<Rightarrow> time
   \<Rightarrow> ('m, worker_instance option) worker_exec" where
  "register_instance between schema_supported db w ow k ttl tok read_at now =
     (if w \<le> 0 then (Inl (Worker_Invalid ''workerId''), db)
      else if \<not> validate_owner ow k then (Inl (Worker_Invalid ''owner''), db)
      else (case schema_supported db ow of
          Inl e \<Rightarrow> (Inl e, db)
        | Inr _ \<Rightarrow> claim_instance_checked between db w ttl tok read_at now))"

definition instance_history ::
  "'m worker_db \<Rightarrow> int \<Rightarrow> duration \<Rightarrow> time \<Rightarrow> worker_error + (time \<times> (time \<times> time) list)" where
  "instance_history db w window now =
     (if w \<le> 0 then Inl (Worker_Invalid ''workerId'')
      else if window \<le> 0 then Inl (Worker_Invalid ''window'')
      else Inr (now, map (\<lambda>l. (il_created l, il_expires l))
                 (list_instance_snapshots db w (now - window) now)))"

definition sweep_logs_checked ::
  "'m worker_db \<Rightarrow> duration \<Rightarrow> time \<Rightarrow> ('m, nat) worker_exec" where
  "sweep_logs_checked db ttl now =
     (if ttl \<le> 0 then (Inl (Worker_Invalid ''ttl''), db)
      else (case sweep_expired_instance_logs db ttl now of (n, db') \<Rightarrow> (Inr n, db')))"

end
