(* ===== verification/Instance_Protocol.thy ===== *)
theory Instance_Protocol
  imports Workers
begin

text \<open>
  The worker tables under concurrent use: a step relation on the tables, the clock and the
  renewals whose transaction has read its target but not yet written (\<open>renewInstance\<close> is two
  statements and takes no lock on the worker row). Claims and target updates hold the row lock, so
  each is one step; \<open>begun\<close> is the start of the transaction, which \<open>now()\<close> returns and which may
  lie before the clock.
\<close>

section \<open>Steps\<close>

record renewal =
  rn_instance :: int
  rn_token :: uuid
  rn_ttl :: duration
  rn_begun :: time

record 'm worker_world =
  ww_db :: "'m worker_db"
  ww_clock :: time
  ww_renewals :: "renewal list"

datatype 'm worker_action =
    Advance_Clock nat
  | Do_Claim int duration uuid time
  | Begin_Renewal renewal
  | Finish_Renewal renewal
  | Do_Record_Success int uuid
  | Do_Record_Failure int uuid
  | Do_Release int uuid
  | Do_Sweep time
  | Do_Set_Target int int string
  | Do_Declare string owner 'm int string

definition on_db :: "('m worker_db \<Rightarrow> 'm worker_db) \<Rightarrow> 'm worker_world \<Rightarrow> 'm worker_world" where
  "on_db f s = s\<lparr>ww_db := f (ww_db s)\<rparr>"

fun worker_act :: "'m worker_action \<Rightarrow> 'm worker_world \<Rightarrow> 'm worker_world" where
  "worker_act (Advance_Clock d) s = s\<lparr>ww_clock := ww_clock s + int d\<rparr>"
| "worker_act (Do_Claim w ttl tok begun) s = on_db (\<lambda>db. snd (claim_locked db w ttl tok begun)) s"
| "worker_act (Begin_Renewal r) s =
     (case renew_read (ww_db s) (rn_instance r) (rn_token r) of
        Inl _ \<Rightarrow> s
      | Inr _ \<Rightarrow> s\<lparr>ww_renewals := ww_renewals s @ [r]\<rparr>)"
| "worker_act (Finish_Renewal r) s =
     s\<lparr>ww_db := snd (renew_update (ww_db s) (rn_instance r) (rn_token r) (rn_ttl r) (rn_begun r)),
       ww_renewals := remove1 r (ww_renewals s)\<rparr>"
| "worker_act (Do_Record_Success i tok) s = on_db (\<lambda>db. snd (record_instance_success db i tok)) s"
| "worker_act (Do_Record_Failure i tok) s = on_db (\<lambda>db. snd (record_instance_failure db i tok)) s"
| "worker_act (Do_Release i tok) s = on_db (\<lambda>db. snd (release_instance db i tok)) s"
| "worker_act (Do_Sweep begun) s = on_db (\<lambda>db. snd (sweep_expired_instances db begun)) s"
| "worker_act (Do_Set_Target w t by) s =
     on_db (\<lambda>db. snd (update_target_instances db w t by (ww_clock s))) s"
| "worker_act (Do_Declare n ow meta t by) s =
     on_db (\<lambda>db. snd (register_worker id id db n ow meta t by (ww_clock s))) s"

text \<open>Transactions begin before they write; renewals in flight are the ones that have read.\<close>

fun possible :: "'m worker_world \<Rightarrow> 'm worker_action \<Rightarrow> bool" where
  "possible s (Do_Claim w ttl tok begun) = (0 < ttl \<and> begun \<le> ww_clock s)"
| "possible s (Begin_Renewal r) = (0 < rn_ttl r \<and> rn_begun r \<le> ww_clock s)"
| "possible s (Finish_Renewal r) = (r \<in> set (ww_renewals s))"
| "possible s (Do_Sweep begun) = (begun \<le> ww_clock s)"
| "possible s (Do_Set_Target w t by) = validate_target t"
| "possible s (Do_Declare n ow meta t by) = validate_target t"
| "possible s _ = True"

inductive worker_run ::
  "('m worker_world \<Rightarrow> 'm worker_action \<Rightarrow> bool) \<Rightarrow> 'm worker_world \<Rightarrow> 'm worker_world \<Rightarrow> bool"
  for ok where
  worker_run_refl: "worker_run ok s s"
| worker_run_step: "worker_run ok s t \<Longrightarrow> possible t x \<Longrightarrow> ok t x \<Longrightarrow> worker_run ok s (worker_act x t)"

text \<open>
  A renewal is written in time when no row it renews has expired between the start of its
  transaction and the write. Nothing else is asked of a run: an operator may set any target at any time.
\<close>

fun in_time :: "'m worker_world \<Rightarrow> 'm worker_action \<Rightarrow> bool" where
  "in_time s (Finish_Renewal r) =
     (\<forall>i \<in> set (worker_instances (ww_db s)).
        renewable (rn_instance r) (rn_token r) (rn_begun r) i \<longrightarrow> ww_clock s < wi_expires i)"
| "in_time s _ = True"

section \<open>Tables\<close>

definition worker_tables_ok :: "'m worker_db \<Rightarrow> bool" where
  "worker_tables_ok db \<longleftrightarrow>
     distinct (map wc_id (worker_configs db))
     \<and> (\<forall>c \<in> set (worker_configs db). wc_id c < next_worker db)
     \<and> distinct (map wi_id (worker_instances db))
     \<and> (\<forall>i \<in> set (worker_instances db). wi_id i < next_instance db \<and> wi_worker i < next_worker db)"

text \<open>The live instances are within the target, or within the bound \<open>b\<close> that an earlier target left.\<close>

definition within_bound :: "(int \<Rightarrow> int) \<Rightarrow> 'm worker_world \<Rightarrow> bool" where
  "within_bound b s \<longleftrightarrow>
     (\<forall>c \<in> set (worker_configs (ww_db s)). 0 \<le> wc_target c \<longrightarrow>
        int (live_instances (ww_db s) (wc_id c) (ww_clock s)) \<le> max (wc_target c) (b (wc_id c)))"

definition live_now :: "'m worker_world \<Rightarrow> int \<Rightarrow> int" where
  "live_now s w = int (live_instances (ww_db s) w (ww_clock s))"

lemma append_instance_log_same [simp]:
  "worker_configs (append_instance_log db i now) = worker_configs db"
  "worker_instances (append_instance_log db i now) = worker_instances db"
  "next_worker (append_instance_log db i now) = next_worker db"
  "next_instance (append_instance_log db i now) = next_instance db"
  by (simp_all add: append_instance_log_def split: option.split)

lemma append_config_log_same [simp]:
  "worker_configs (append_config_log db w by now) = worker_configs db"
  "worker_instances (append_config_log db w by now) = worker_instances db"
  "next_worker (append_config_log db w by now) = next_worker db"
  "next_instance (append_config_log db w by now) = next_instance db"
  by (simp_all add: append_config_log_def split: option.split)

lemma live_instances_cong:
  "worker_instances db = worker_instances db' \<Longrightarrow> live_instances db w t = live_instances db' w t"
  by (simp add: live_instances_def)

lemma rows_matching_mono:
  "(\<And>r. r \<in> set t \<Longrightarrow> p r \<Longrightarrow> q r) \<Longrightarrow> rows_matching p t \<le> rows_matching q t"
proof (induction t)
  case (Cons a t)
  then have "rows_matching p t \<le> rows_matching q t" by simp
  with Cons.prems [of a] show ?case by (auto simp: rows_matching_def)
qed (simp add: rows_matching_def)

lemma rows_matching_append [simp]:
  "rows_matching p (s @ t) = rows_matching p s + rows_matching p t"
  by (simp add: rows_matching_def)

lemma rows_matching_map: "rows_matching p (map g t) = rows_matching (p \<circ> g) t"
  by (simp add: rows_matching_def filter_map)

lemma rows_matching_filter: "rows_matching p (filter q t) = rows_matching (\<lambda>r. p r \<and> q r) t"
  by (simp add: rows_matching_def conj_commute)

lemma live_instances_later: "now \<le> t \<Longrightarrow> live_instances db w t \<le> live_instances db w now"
  unfolding live_instances_def by (rule rows_matching_mono) (auto simp: is_live_def)

lemma worker_ofD: "worker_of db w = Some c \<Longrightarrow> c \<in> set (worker_configs db) \<and> wc_id c = w"
  unfolding worker_of_def by (drule find_SomeD) simp

lemma worker_of_unique:
  "worker_tables_ok db \<Longrightarrow> worker_of db w = Some c \<Longrightarrow> c' \<in> set (worker_configs db)
   \<Longrightarrow> wc_id c' = w \<Longrightarrow> c' = c"
  by (metis distinct_map_same worker_ofD worker_tables_ok_def)

section \<open>Operations that add no live instance\<close>

text \<open>
  What an operation promises that touches no configuration and only drops instance rows or
  changes columns other than the ones a lease consists of.
\<close>

definition lease_of :: "worker_instance \<Rightarrow> int \<times> int \<times> uuid \<times> time" where
  "lease_of r = (wi_id r, wi_worker r, wi_token r, wi_expires r)"

lemma lease_of_attempts [simp]: "lease_of (wi_attempts_update f r) = lease_of r"
  by (simp add: lease_of_def)

locale quiet_operation =
  fixes run :: "'m worker_db \<Rightarrow> 'm worker_db"
  assumes configs_same: "worker_configs (run db) = worker_configs db"
    and counters_same: "next_worker (run db) = next_worker db" "next_instance (run db) = next_instance db"
    and instances_kept: "\<exists>p g. worker_instances (run db) = map g (filter p (worker_instances db))
                             \<and> (\<forall>r. lease_of (g r) = lease_of r)"
begin

lemma leases_kept:
  assumes "i \<in> set (worker_instances (run db))"
  shows "\<exists>j \<in> set (worker_instances db). lease_of i = lease_of j"
proof -
  obtain p g where "worker_instances (run db) = map g (filter p (worker_instances db))"
    "\<forall>r. lease_of (g r) = lease_of r"
    using instances_kept by blast
  with assms show ?thesis by auto
qed

lemma tables_ok: "worker_tables_ok db \<Longrightarrow> worker_tables_ok (run db)"
proof -
  assume ok: "worker_tables_ok db"
  obtain p g where rows: "worker_instances (run db) = map g (filter p (worker_instances db))"
    and same: "\<forall>r. lease_of (g r) = lease_of r"
    using instances_kept by blast
  have id: "wi_id (g r) = wi_id r" and w: "wi_worker (g r) = wi_worker r" for r
    using same by (auto simp: lease_of_def)
  have "distinct (map wi_id (worker_instances (run db)))"
    using ok by (simp add: rows o_def id worker_tables_ok_def distinct_map_filter)
  with ok show ?thesis
    by (auto simp: worker_tables_ok_def configs_same counters_same rows id w)
qed

lemma no_more_live: "live_instances (run db) w t \<le> live_instances db w t"
proof -
  obtain p g where rows: "worker_instances (run db) = map g (filter p (worker_instances db))"
    and same: "\<forall>r. lease_of (g r) = lease_of r"
    using instances_kept by blast
  have "is_live w t (g r) \<longleftrightarrow> is_live w t r" for r
    using same by (auto simp: lease_of_def is_live_def)
  then have "live_instances (run db) w t = rows_matching (is_live w t) (filter p (worker_instances db))"
    by (simp add: live_instances_def rows rows_matching_map o_def)
  also have "\<dots> \<le> live_instances db w t"
    unfolding live_instances_def rows_matching_filter by (rule rows_matching_mono) simp
  finally show ?thesis .
qed

lemma keeps_target: "within_bound b s \<Longrightarrow> within_bound b (on_db run s)"
  using order_trans [OF of_nat_mono [OF no_more_live]]
  by (fastforce simp: within_bound_def on_db_def configs_same)

end

lemma quiet_update:
  "(\<And>r. lease_of (f r) = lease_of r)
   \<Longrightarrow> \<exists>p' g. update_where p f t = map g (filter p' t) \<and> (\<forall>r. lease_of (g r) = lease_of r)"
  by (rule exI [of _ "\<lambda>_. True"], rule exI [of _ "\<lambda>r. if p r then f r else r"])
     (simp add: update_where_def)

lemma quiet_delete:
  "\<exists>p' g. delete_where p t = map g (filter p' t) \<and> (\<forall>r. lease_of (g r) = lease_of r)"
  by (rule exI [of _ "\<lambda>r. \<not> p r"], rule exI [of _ id]) (simp add: delete_where_def)

lemma quiet_nothing: "\<exists>p' g. t = map g (filter p' t) \<and> (\<forall>r. lease_of (g r) = lease_of r)"
  by (rule exI [of _ "\<lambda>_. True"], rule exI [of _ id]) simp

interpretation success: quiet_operation "\<lambda>db. snd (record_instance_success db i tok)" for i tok
  by unfold_locales (simp_all add: record_instance_success_def quiet_nothing quiet_update)

interpretation failure: quiet_operation "\<lambda>db. snd (record_instance_failure db i tok)" for i tok
  by unfold_locales
     (simp_all add: record_instance_failure_def quiet_nothing quiet_update split: option.split)

interpretation release: quiet_operation "\<lambda>db. snd (release_instance db i tok)" for i tok
  by unfold_locales (simp_all add: release_instance_def quiet_nothing quiet_delete)

interpretation sweep: quiet_operation "\<lambda>db. snd (sweep_expired_instances db now)" for now
  by unfold_locales (simp_all add: sweep_expired_instances_def quiet_nothing quiet_delete)

section \<open>Claims, renewals and declarations\<close>

lemma claim_locked_cases:
  assumes "claim_locked db w ttl tok now = (r, db')"
  obtains (declined) "r = None" "db' = db"
  | (claimed) c i where "worker_of db w = Some c" "i = new_instance db w ttl tok now" "r = Some i"
      "wc_target c = -1 \<or> int (live_instances db w now) < wc_target c"
      "worker_configs db' = worker_configs db" "next_worker db' = next_worker db"
      "worker_instances db' = worker_instances db @ [i]" "next_instance db' = next_instance db + 1"
  using assms by (auto simp: claim_locked_def Let_def split: option.splits if_splits)

lemma claim_tables_ok:
  assumes ok: "worker_tables_ok db"
  shows "worker_tables_ok (snd (claim_locked db w ttl tok now))"
proof (cases "claim_locked db w ttl tok now")
  case (Pair r db')
  from Pair show ?thesis
  proof (cases rule: claim_locked_cases)
    case (claimed c i)
    have "wc_id c = w" and "c \<in> set (worker_configs db)"
      using claimed(1) by (auto dest: worker_ofD)
    then have "w < next_worker db" using ok by (auto simp: worker_tables_ok_def)
    moreover have "wi_id i \<notin> wi_id ` set (worker_instances db)"
      using ok by (auto simp: claimed(2) new_instance_def worker_tables_ok_def)
    moreover have "\<forall>j \<in> set (worker_instances db). wi_id j < next_instance db + 1"
      using ok by (auto simp: worker_tables_ok_def)
    ultimately show ?thesis
      using ok Pair claimed by (auto simp: worker_tables_ok_def new_instance_def)
  qed (use ok Pair in simp)
qed

lemma claim_keeps_target:
  assumes ok: "worker_tables_ok (ww_db s)" and within: "within_bound b s" and begun: "begun \<le> ww_clock s"
  shows "within_bound b (on_db (\<lambda>db. snd (claim_locked db w ttl tok begun)) s)"
proof (cases "claim_locked (ww_db s) w ttl tok begun")
  case (Pair r db')
  from Pair show ?thesis
  proof (cases rule: claim_locked_cases)
    case (claimed c i)
    have live: "live_instances db' v t = live_instances (ww_db s) v t + rows_matching (is_live v t) [i]"
      for v t by (simp add: live_instances_def claimed)
    have "int (live_instances db' (wc_id d) (ww_clock s)) \<le> max (wc_target d) (b (wc_id d))"
      if d: "d \<in> set (worker_configs (ww_db s))" and pos: "0 \<le> wc_target d" for d
    proof (cases "wc_id d = w")
      case True
      then have "d = c" using ok claimed(1) d worker_of_unique by blast
      then have "int (live_instances (ww_db s) w begun) < wc_target d" using claimed(4) pos by auto
      moreover have "live_instances (ww_db s) w (ww_clock s) \<le> live_instances (ww_db s) w begun"
        using begun by (rule live_instances_later)
      ultimately have "int (live_instances (ww_db s) w (ww_clock s)) + 1 \<le> wc_target d" by linarith
      moreover have "rows_matching (is_live w (ww_clock s)) [i] \<le> 1" by (simp add: rows_matching_def)
      ultimately show ?thesis
        using True unfolding live by (simp add: le_max_iff_disj)
    next
      case False
      then have "rows_matching (is_live (wc_id d) (ww_clock s)) [i] = 0"
        by (simp add: claimed(2) new_instance_def is_live_def)
      then show ?thesis
        using within d pos by (simp only: live within_bound_def add_0_right)
    qed
    then show ?thesis using Pair claimed(5) by (simp add: within_bound_def on_db_def)
  qed (use within Pair in \<open>simp add: within_bound_def on_db_def\<close>)
qed

lemma renew_update_rows:
  "worker_configs (snd (renew_update db i tok ttl now)) = worker_configs db"
  "next_worker (snd (renew_update db i tok ttl now)) = next_worker db"
  "next_instance (snd (renew_update db i tok ttl now)) = next_instance db"
  "worker_instances (snd (renew_update db i tok ttl now)) =
     update_where (renewable i tok now) (\<lambda>r. r\<lparr>wi_expires := now + ttl\<rparr>) (worker_instances db)"
  by (auto simp: renew_update_def update_where_id)

lemma renew_tables_ok:
  "worker_tables_ok db \<Longrightarrow> worker_tables_ok (snd (renew_update db i tok ttl now))"
  by (auto simp: worker_tables_ok_def renew_update_rows map_update_where sql_set)

lemma renew_keeps_target:
  assumes within: "within_bound b s" and timely: "in_time s (Finish_Renewal r)"
  shows "within_bound b (worker_act (Finish_Renewal r) s)"
proof -
  let ?p = "renewable (rn_instance r) (rn_token r) (rn_begun r)"
  let ?f = "\<lambda>i. if ?p i then i\<lparr>wi_expires := rn_begun r + rn_ttl r\<rparr> else i"
  let ?db' = "snd (renew_update (ww_db s) (rn_instance r) (rn_token r) (rn_ttl r) (rn_begun r))"
  have less: "live_instances ?db' w (ww_clock s) \<le> live_instances (ww_db s) w (ww_clock s)" for w
    unfolding live_instances_def renew_update_rows update_where_def rows_matching_map
    by (rule rows_matching_mono) (use timely in \<open>auto simp: is_live_def split: if_splits\<close>)
  then show ?thesis
    using within order_trans [OF of_nat_mono [OF less]]
    by (auto simp: within_bound_def renew_update_rows)
qed

lemma set_target_tables_ok:
  "worker_tables_ok db \<Longrightarrow> worker_tables_ok (snd (update_target_instances db w t by now))"
  by (auto simp: update_target_instances_def worker_tables_ok_def map_update_where sql_set
      split: option.split)

lemma set_target_keeps_target:
  assumes within: "\<And>w. live_now s w \<le> b w"
  shows "within_bound b (worker_act (Do_Set_Target w t by) s)"
proof -
  let ?db' = "snd (update_target_instances (ww_db s) w t by (ww_clock s))"
  have live: "live_instances ?db' v u = live_instances (ww_db s) v u" for v u
    by (rule live_instances_cong) (simp add: update_target_instances_def split: option.split)
  then show ?thesis using within by (simp add: within_bound_def on_db_def live live_now_def le_max_iff_disj)
qed

definition target_of :: "'m worker_config \<Rightarrow> int \<times> int" where
  "target_of c = (wc_id c, wc_target c)"

lemma register_rows:
  assumes "register_worker id id db n ow meta t by now = (x, db')"
  shows "worker_instances db' = worker_instances db \<and> next_instance db' = next_instance db
    \<and> next_worker db' = next_worker db + 1
    \<and> (map target_of (worker_configs db') = map target_of (worker_configs db) @ [(next_worker db, t)]
       \<or> map target_of (worker_configs db') = map target_of (worker_configs db))"
proof (cases "find (named_worker n (new_owner_columns ow)) (worker_configs db)")
  case None
  then show ?thesis using assms by (auto simp: register_worker_def target_of_def)
next
  case (Some c)
  then show ?thesis
    using assms
    by (auto simp: register_worker_def Let_def target_of_def map_update_where split: if_splits)
qed

lemma target_of_set:
  "map target_of (worker_configs db') = ts \<Longrightarrow> c \<in> set (worker_configs db')
   \<Longrightarrow> (wc_id c, wc_target c) \<in> set ts"
  by (force simp: target_of_def)

lemma wc_id_target: "map target_of cs = map target_of ds @ ts \<Longrightarrow> map wc_id cs = map wc_id ds @ map fst ts"
  by (drule arg_cong [where f = "map fst"]) (simp add: o_def target_of_def)

lemma register_tables_ok:
  assumes ok: "worker_tables_ok db"
  shows "worker_tables_ok (snd (register_worker id id db n ow meta t by now))"
proof (cases "register_worker id id db n ow meta t by now")
  case (Pair x db')
  let ?ids = "map wc_id (worker_configs db')"
  have fresh: "\<forall>c \<in> set (worker_configs db). wc_id c < next_worker db"
    using ok by (simp add: worker_tables_ok_def)
  have "?ids = map wc_id (worker_configs db) @ [next_worker db] \<or> ?ids = map wc_id (worker_configs db)"
    using register_rows [OF Pair] wc_id_target [of "worker_configs db'" "worker_configs db"] by fastforce
  then have "distinct ?ids \<and> (\<forall>i \<in> set ?ids. i < next_worker db')"
    using ok fresh register_rows [OF Pair] by (elim disjE) (auto simp: worker_tables_ok_def)
  then show ?thesis
    using ok register_rows [OF Pair] Pair by (auto simp: worker_tables_ok_def)
qed

lemma register_keeps_target:
  assumes ok: "worker_tables_ok (ww_db s)" and within: "within_bound b s" and t: "validate_target t"
  shows "within_bound b (worker_act (Do_Declare n ow meta t by) s)"
proof (cases "register_worker id id (ww_db s) n ow meta t by (ww_clock s)")
  case (Pair x db')
  let ?db = "ww_db s"
  note rows = register_rows [OF Pair]
  have live: "live_instances db' v u = live_instances ?db v u" for v u
    using rows by (intro live_instances_cong) simp
  have none: "live_instances ?db (next_worker ?db) u = 0" for u
    using ok by (auto simp: live_instances_def is_live_def worker_tables_ok_def)
  have "int (live_instances ?db (wc_id d) (ww_clock s)) \<le> max (wc_target d) (b (wc_id d))"
    if d: "d \<in> set (worker_configs db')" and pos: "0 \<le> wc_target d" for d
  proof -
    have "(wc_id d, wc_target d) \<in> target_of ` set (worker_configs ?db) \<or> wc_id d = next_worker ?db"
      using rows target_of_set [OF _ d] by fastforce
    then show ?thesis
      using within pos none by (auto simp: within_bound_def target_of_def)
  qed
  then show ?thesis using Pair by (simp add: within_bound_def on_db_def live)
qed

section \<open>The claims bound the live instances\<close>

lemma act_tables_ok: "worker_tables_ok (ww_db s) \<Longrightarrow> worker_tables_ok (ww_db (worker_act x s))"
  by (cases x)
     (simp_all add: on_db_def claim_tables_ok renew_tables_ok success.tables_ok failure.tables_ok
        release.tables_ok sweep.tables_ok set_target_tables_ok register_tables_ok split: sum.split)

lemma act_keeps_target:
  assumes "worker_tables_ok (ww_db s)" "within_bound b s" "\<And>w. live_now s w \<le> b w" "possible s x" "in_time s x"
  shows "within_bound b (worker_act x s)"
proof (cases x)
  case (Advance_Clock d)
  have "int (live_instances (ww_db s) w (ww_clock s + int d)) \<le> t"
    if "int (live_instances (ww_db s) w (ww_clock s)) \<le> t" for w t
    using that live_instances_later [of "ww_clock s" "ww_clock s + int d" "ww_db s" w] by linarith
  then show ?thesis using assms(2) unfolding Advance_Clock within_bound_def by simp
next
  case (Begin_Renewal r)
  then show ?thesis using assms(2) by (simp add: within_bound_def split: sum.split)
next
  case (Do_Claim w ttl tok begun)
  then show ?thesis using assms by (simp add: claim_keeps_target)
next
  case (Finish_Renewal r)
  then show ?thesis using assms renew_keeps_target by blast
next
  case (Do_Record_Success i tok)
  then show ?thesis using assms success.keeps_target by simp
next
  case (Do_Record_Failure i tok)
  then show ?thesis using assms failure.keeps_target by simp
next
  case (Do_Release i tok)
  then show ?thesis using assms release.keeps_target by simp
next
  case (Do_Sweep begun)
  then show ?thesis using assms sweep.keeps_target by simp
next
  case (Do_Set_Target w t who)
  then show ?thesis using assms set_target_keeps_target by blast
next
  case (Do_Declare n ow meta t who)
  then show ?thesis using assms register_keeps_target by (metis possible.simps(6))
qed

lemma run_tables_ok: "worker_run ok s t \<Longrightarrow> worker_tables_ok (ww_db s) \<Longrightarrow> worker_tables_ok (ww_db t)"
  by (induction rule: worker_run.induct) (simp_all add: act_tables_ok)

lemma act_bound:
  assumes "worker_tables_ok (ww_db s)" "possible s x" "in_time s x"
  shows "within_bound (live_now s) (worker_act x s)"
  by (rule act_keeps_target [OF assms(1) _ _ assms(2,3)]) (simp_all add: within_bound_def live_now_def)

section \<open>Suspension\<close>

fun keeps_suspended :: "int \<Rightarrow> 'm worker_world \<Rightarrow> 'm worker_action \<Rightarrow> bool" where
  "keeps_suspended w s (Do_Set_Target v t by) = (v = w \<longrightarrow> t = 0)"
| "keeps_suspended w s _ = True"

definition is_suspended :: "'m worker_db \<Rightarrow> int \<Rightarrow> bool" where
  "is_suspended db w \<longleftrightarrow> (w, 0) \<in> target_of ` set (worker_configs db)"

definition owned_by :: "'m worker_db \<Rightarrow> int \<Rightarrow> renewal \<Rightarrow> bool" where
  "owned_by db w r \<longleftrightarrow>
     (\<exists>i \<in> set (worker_instances db). holds_instance (rn_instance r) (rn_token r) i \<and> wi_worker i = w)"

definition expires_by :: "'m worker_world \<Rightarrow> int \<Rightarrow> time \<Rightarrow> bool" where
  "expires_by s w e \<longleftrightarrow>
     (\<forall>i \<in> set (worker_instances (ww_db s)). wi_worker i = w \<longrightarrow> wi_expires i \<le> e)
     \<and> (\<forall>r \<in> set (ww_renewals s). owned_by (ww_db s) w r \<longrightarrow> rn_begun r + rn_ttl r \<le> e)"

lemma suspended_target:
  assumes "worker_tables_ok db" "is_suspended db w" "worker_of db w = Some c"
  shows "wc_target c = 0"
  using assms worker_of_unique [OF assms(1,3)] by (force simp: is_suspended_def target_of_def)

context quiet_operation
begin

lemma drains:
  assumes "expires_by s w e"
  shows "expires_by (on_db run s) w e"
  unfolding expires_by_def owned_by_def on_db_def
proof (intro conjI ballI impI; (elim bexE conjE)?)
  fix i assume i: "i \<in> set (worker_instances (ww_db (s\<lparr>ww_db := run (ww_db s)\<rparr>)))" "wi_worker i = w"
  then obtain j where "j \<in> set (worker_instances (ww_db s))" "lease_of i = lease_of j"
    using leases_kept by auto
  with i assms show "wi_expires i \<le> e" by (auto simp: expires_by_def lease_of_def)
next
  fix r i assume r: "r \<in> set (ww_renewals (s\<lparr>ww_db := run (ww_db s)\<rparr>))"
    "i \<in> set (worker_instances (ww_db (s\<lparr>ww_db := run (ww_db s)\<rparr>)))"
    "holds_instance (rn_instance r) (rn_token r) i" "wi_worker i = w"
  then obtain j where "j \<in> set (worker_instances (ww_db s))" "lease_of i = lease_of j"
    using leases_kept by auto
  with r have "owned_by (ww_db s) w r"
    by (auto simp: owned_by_def lease_of_def holds_instance_def)
  with r assms show "rn_begun r + rn_ttl r \<le> e" by (auto simp: expires_by_def)
qed

lemma stays_suspended: "is_suspended db w \<Longrightarrow> is_suspended (run db) w"
  by (simp add: is_suspended_def configs_same)

end

lemma claim_drains:
  assumes "worker_tables_ok (ww_db s)" "is_suspended (ww_db s) w" "expires_by s w e"
  shows "expires_by (on_db (\<lambda>db. snd (claim_locked db v ttl tok begun)) s) w e"
proof (cases "claim_locked (ww_db s) v ttl tok begun")
  case (Pair r db')
  from Pair show ?thesis
  proof (cases rule: claim_locked_cases)
    case (claimed c i)
    have "v \<noteq> w" using claimed(1,4) suspended_target [OF assms(1,2)] by auto
    then show ?thesis
      using assms(3) Pair claimed
      by (auto simp: expires_by_def on_db_def owned_by_def new_instance_def)
  qed (use assms(3) Pair in \<open>simp add: on_db_def\<close>)
qed

lemma begin_renewal_drains:
  assumes "worker_tables_ok (ww_db s)" "is_suspended (ww_db s) w" "expires_by s w e"
  shows "expires_by (worker_act (Begin_Renewal r) s) w e"
proof (cases "renew_read (ww_db s) (rn_instance r) (rn_token r)")
  case (Inr u)
  then obtain i c where i: "find (holds_instance (rn_instance r) (rn_token r))
        (worker_instances (ww_db s)) = Some i"
      and c: "worker_of (ww_db s) (wi_worker i) = Some c" "wc_target c \<noteq> 0"
    by (auto simp: renew_read_def split: option.splits if_splits)
  have "j = i" if "j \<in> set (worker_instances (ww_db s))" "wi_id j = rn_instance r" for j
    using that find_SomeD [OF i] assms(1) distinct_map_same [of wi_id]
    by (fastforce simp: worker_tables_ok_def holds_instance_def)
  moreover have "wi_worker i \<noteq> w" using c suspended_target [OF assms(1,2)] by auto
  ultimately have "\<not> owned_by (ww_db s) w r" by (auto simp: owned_by_def holds_instance_def)
  then show ?thesis using assms(3) Inr by (auto simp: expires_by_def owned_by_def)
qed (use assms(3) in simp)

lemma finish_renewal_drains:
  assumes e: "expires_by s w e" and r: "r \<in> set (ww_renewals s)"
  shows "expires_by (worker_act (Finish_Renewal r) s) w e"
proof -
  let ?p = "renewable (rn_instance r) (rn_token r) (rn_begun r)"
  let ?f = "\<lambda>i. i\<lparr>wi_expires := rn_begun r + rn_ttl r\<rparr>"
  let ?db' = "snd (renew_update (ww_db s) (rn_instance r) (rn_token r) (rn_ttl r) (rn_begun r))"
  have own: "owned_by ?db' w q \<Longrightarrow> owned_by (ww_db s) w q" for q
    by (auto simp: owned_by_def renew_update_rows sql_set holds_instance_def)
  have "wi_expires (?f i) \<le> e"
    if "i \<in> set (worker_instances (ww_db s))" "?p i" "wi_worker i = w" for i
  proof -
    have "owned_by (ww_db s) w r" using that by (auto simp: owned_by_def renewable_def)
    then show ?thesis using e r by (simp add: expires_by_def)
  qed
  then have "\<forall>i \<in> set (worker_instances ?db'). wi_worker i = w \<longrightarrow> wi_expires i \<le> e"
    using e by (auto simp: renew_update_rows sql_set expires_by_def)
  moreover have "\<forall>q \<in> set (remove1 r (ww_renewals s)). owned_by ?db' w q \<longrightarrow> rn_begun q + rn_ttl q \<le> e"
    using e own set_remove1_subset [of r "ww_renewals s"] by (auto simp: expires_by_def)
  ultimately show ?thesis by (simp add: expires_by_def)
qed

lemma is_suspended_iff:
  "is_suspended db w \<longleftrightarrow> (\<exists>c \<in> set (worker_configs db). wc_id c = w \<and> wc_target c = 0)"
  by (force simp: is_suspended_def target_of_def)

lemma set_target_configs:
  assumes "c \<in> set (worker_configs db)"
  shows "\<exists>d \<in> set (worker_configs (snd (update_target_instances db v t by now))).
           wc_id d = wc_id c \<and> (wc_target d = wc_target c \<or> (wc_id c = v \<and> wc_target d = t))"
proof -
  let ?d = "if wc_id c = v then c\<lparr>wc_target := t, wc_updated := now\<rparr> else c"
  let ?db' = "snd (update_target_instances db v t by now)"
  have "c \<in> set (worker_configs ?db') \<or> ?d \<in> set (worker_configs ?db')"
    using assms by (auto simp: update_target_instances_def sql_set split: option.split)
  then show ?thesis by (elim disjE) (erule bexI [rotated], simp)+
qed

lemma set_target_reached:
  assumes "worker_tables_ok db" "worker_of db w = Some c"
  shows "\<exists>d \<in> set (worker_configs (snd (update_target_instances db w t by now))).
           wc_id d = w \<and> wc_target d = t"
proof (cases "wc_target c = t")
  case True
  then show ?thesis using assms(2) worker_ofD [OF assms(2)] by (auto simp: update_target_instances_def)
next
  case False
  let ?d = "c\<lparr>wc_target := t, wc_updated := now\<rparr>"
  show ?thesis
  proof (rule bexI [of _ ?d])
    show "?d \<in> set (worker_configs (snd (update_target_instances db w t by now)))"
      using False assms(2) worker_ofD [OF assms(2)] by (auto simp: update_target_instances_def sql_set)
  qed (use worker_ofD [OF assms(2)] in simp)
qed

lemma set_target_suspended:
  assumes "is_suspended db w" "keeps_suspended w s (Do_Set_Target v t by)"
  shows "is_suspended (snd (update_target_instances db v t by now)) w"
  using assms set_target_configs [of _ db v t "by" now] unfolding is_suspended_iff
  by (metis keeps_suspended.simps(1))

lemma register_suspended:
  assumes "is_suspended db w"
  shows "is_suspended (snd (register_worker id id db n ow meta t by now)) w"
proof (cases "register_worker id id db n ow meta t by now")
  case (Pair x db')
  from register_rows [OF Pair]
  have "set (map target_of (worker_configs db)) \<subseteq> set (map target_of (worker_configs db'))"
    by (elim conjE disjE) (simp_all only: set_append Un_upper1 order_refl)
  then show ?thesis using assms Pair by (auto simp: is_suspended_def)
qed

lemma same_instances_drain:
  "worker_instances (f (ww_db s)) = worker_instances (ww_db s) \<Longrightarrow> expires_by s w e
   \<Longrightarrow> expires_by (on_db f s) w e"
  by (simp add: expires_by_def on_db_def owned_by_def)

lemma set_target_instances [simp]:
  "worker_instances (snd (update_target_instances db v t by now)) = worker_instances db"
  by (simp add: update_target_instances_def split: option.split)

lemma register_instances [simp]:
  "worker_instances (snd (register_worker id id db n ow meta t by now)) = worker_instances db"
  using register_rows by (metis prod.collapse)

lemma claim_configs [simp]: "worker_configs (snd (claim_locked db w ttl tok now)) = worker_configs db"
  by (cases "claim_locked db w ttl tok now") (auto elim: claim_locked_cases)

lemma act_suspended:
  "is_suspended (ww_db s) w \<Longrightarrow> keeps_suspended w s x \<Longrightarrow> is_suspended (ww_db (worker_act x s)) w"
  by (cases x)
     (simp_all add: on_db_def success.stays_suspended failure.stays_suspended release.stays_suspended
        sweep.stays_suspended set_target_suspended register_suspended split: sum.split,
      simp_all add: is_suspended_def renew_update_rows)

lemma act_drains:
  assumes "worker_tables_ok (ww_db s)" "is_suspended (ww_db s) w" "expires_by s w e" "possible s x"
  shows "expires_by (worker_act x s) w e"
proof (cases x)
  case (Begin_Renewal r)
  then show ?thesis using assms begin_renewal_drains by blast
next
  case (Finish_Renewal r)
  then show ?thesis using assms(3,4) finish_renewal_drains by simp
next
  case (Advance_Clock d)
  then show ?thesis using assms(3) by (simp add: expires_by_def)
next
  case (Do_Claim v ttl tok begun)
  then show ?thesis using assms claim_drains by simp
qed (use assms(3) success.drains failure.drains release.drains sweep.drains
      in \<open>simp_all add: same_instances_drain\<close>)

lemma run_drains:
  assumes "worker_run (keeps_suspended w) s t"
    and "worker_tables_ok (ww_db s)" "is_suspended (ww_db s) w" "expires_by s w e"
  shows "worker_tables_ok (ww_db t) \<and> is_suspended (ww_db t) w \<and> expires_by t w e"
  using assms
proof (induction rule: worker_run.induct)
  case (worker_run_step s t x)
  then show ?case using act_tables_ok act_suspended act_drains by blast
qed simp

text \<open>C11: Suspending a worker drains it: once the expiry times that its instances and the renewals
  already past their target check can reach have gone by, no instance of it is live, unless an
  operator resumes it. No claim and no later renewal can prolong it, whatever processes do.
\<close>

theorem suspension_drains_the_worker:
  assumes "worker_tables_ok (ww_db s)" "worker_of (ww_db s) w = Some c" "expires_by s w e"
    and "worker_run (keeps_suspended w) (worker_act (Do_Set_Target w 0 by) s) t" "e \<le> ww_clock t"
  shows "live_instances (ww_db t) w (ww_clock t) = 0"
proof -
  let ?s = "worker_act (Do_Set_Target w 0 by) s"
  have "worker_tables_ok (ww_db ?s)" using assms(1) by (rule act_tables_ok)
  moreover have "is_suspended (ww_db ?s) w"
    using set_target_reached [OF assms(1,2)] by (simp add: on_db_def is_suspended_iff)
  moreover have "expires_by ?s w e" using assms(3) by (simp add: same_instances_drain)
  ultimately have "worker_tables_ok (ww_db t) \<and> is_suspended (ww_db t) w \<and> expires_by t w e"
    using assms(4) run_drains by blast
  then show ?thesis
    using assms(5) by (auto simp: live_instances_def is_live_def expires_by_def)
qed

section \<open>Runs as lists of actions\<close>

fun worker_acts :: "'m worker_action list \<Rightarrow> 'm worker_world \<Rightarrow> 'm worker_world" where
  "worker_acts [] s = s"
| "worker_acts (x # xs) s = worker_acts xs (worker_act x s)"

fun acts_allowed ::
  "('m worker_world \<Rightarrow> 'm worker_action \<Rightarrow> bool) \<Rightarrow> 'm worker_action list \<Rightarrow> 'm worker_world \<Rightarrow> bool"
where
  "acts_allowed ok [] s = True"
| "acts_allowed ok (x # xs) s = (possible s x \<and> ok s x \<and> acts_allowed ok xs (worker_act x s))"

lemma worker_run_trans: "worker_run ok t u \<Longrightarrow> worker_run ok s t \<Longrightarrow> worker_run ok s u"
  by (induction rule: worker_run.induct) (auto intro: worker_run.intros)

lemma acts_run: "acts_allowed ok xs s \<Longrightarrow> worker_run ok s (worker_acts xs s)"
proof (induction xs arbitrary: s)
  case (Cons x xs)
  then have "worker_run ok s (worker_act x s)" by (simp add: worker_run.intros)
  with Cons show ?case using worker_run_trans by fastforce
qed (simp add: worker_run_refl)

text \<open>A worker with room for one instance, owned by stream 3 of system 1.\<close>

definition demo_workers :: "nat worker_world" where
  "demo_workers =
     \<lparr>ww_db = \<lparr>worker_configs = [\<lparr>wc_id = 1, wc_owner = (None, Some 3, None),
                 wc_name = ''stream_janitor'', wc_metadata = 0, wc_target = 1, wc_created = 0,
                 wc_updated = 0\<rparr>],
               worker_config_logs = [], worker_instances = [], worker_instance_logs = [],
               next_worker = 2, next_instance = 1, next_instance_log = 1,
               wd_streams = [], wd_groups = []\<rparr>,
      ww_clock = 0, ww_renewals = []\<rparr>"

definition demo_renewal :: renewal where
  "demo_renewal = \<lparr>rn_instance = 1, rn_token = 7, rn_ttl = 30, rn_begun = 29\<rparr>"

section \<open>The claims bound the live instances of a run\<close>

definition target_now :: "'m worker_world \<Rightarrow> int \<Rightarrow> int" where
  "target_now s w = (case worker_of (ww_db s) w of None \<Rightarrow> 0 | Some c \<Rightarrow> wc_target c)"

text \<open>The targets that a worker has in the course of a run.\<close>

fun targets_along :: "int \<Rightarrow> 'm worker_action list \<Rightarrow> 'm worker_world \<Rightarrow> int list" where
  "targets_along w [] s = [target_now s w]"
| "targets_along w (x # xs) s = target_now s w # targets_along w xs (worker_act x s)"

lemma target_now_along: "target_now s w \<in> set (targets_along w xs s)"
  by (cases xs) simp_all

lemma worker_of_exists: "worker_of db w \<noteq> None \<longleftrightarrow> w \<in> wc_id ` set (worker_configs db)"
  by (auto simp: worker_of_def find_None_iff)

lemma register_keeps_ids:
  "wc_id ` set (worker_configs db) \<subseteq> wc_id ` set (worker_configs (snd (register_worker id id db n ow meta t by now)))"
proof (cases "register_worker id id db n ow meta t by now")
  case (Pair x db')
  have ids: "wc_id ` set (worker_configs d) = fst ` set (map target_of (worker_configs d))" for d :: "'a worker_db"
    by (simp add: target_of_def image_image)
  have "set (map target_of (worker_configs db)) \<subseteq> set (map target_of (worker_configs db'))"
    using register_rows [OF Pair] by (elim conjE disjE) (simp_all only: set_append Un_upper1 order_refl)
  then show ?thesis using Pair by (simp only: ids snd_conv image_mono)
qed

lemma act_keeps_ids:
  "wc_id ` set (worker_configs (ww_db s)) \<subseteq> wc_id ` set (worker_configs (ww_db (worker_act x s)))"
proof (cases x)
  case (Do_Set_Target w t who)
  show ?thesis
  proof
    fix i assume "i \<in> wc_id ` set (worker_configs (ww_db s))"
    then obtain c where "c \<in> set (worker_configs (ww_db s))" "wc_id c = i" by blast
    then obtain d where "d \<in> set (worker_configs (snd (update_target_instances (ww_db s) w t who (ww_clock s))))"
      "wc_id d = i"
      using set_target_configs [of c "ww_db s" w t who "ww_clock s"] by blast
    then have "d \<in> set (worker_configs (ww_db (worker_act x s)))" "wc_id d = i"
      by (simp_all add: Do_Set_Target on_db_def)
    then show "i \<in> wc_id ` set (worker_configs (ww_db (worker_act x s)))" by blast
  qed
next
  case (Do_Declare n ow meta t who)
  then show ?thesis using register_keeps_ids by (simp add: on_db_def)
next
  case (Begin_Renewal r)
  then show ?thesis by (simp split: sum.split)
qed (simp_all add: on_db_def success.configs_same failure.configs_same release.configs_same sweep.configs_same
      renew_update_rows)

lemma act_live:
  assumes "worker_tables_ok (ww_db s)" "possible s x" "in_time s x" "worker_of (ww_db s) w \<noteq> None"
    and "0 \<le> target_now (worker_act x s) w"
  shows "live_now (worker_act x s) w \<le> max (target_now (worker_act x s) w) (live_now s w)"
proof -
  have "worker_of (ww_db (worker_act x s)) w \<noteq> None"
    using assms(4) act_keeps_ids [of s x] unfolding worker_of_exists by blast
  then obtain c where c: "worker_of (ww_db (worker_act x s)) w = Some c" by blast
  note worker_ofD [OF c]
  then show ?thesis
    using act_bound [OF assms(1-3)] assms(5) c by (force simp: within_bound_def live_now_def target_now_def)
qed

text \<open>C10: While renewals are written before the row they renew expires, the live instances of a worker
  never outnumber the highest target the worker has had since, or the instances that were live at the
  start, however claims, renewals, releases, sweeps, declarations and target updates of many
  processes interleave. In particular a lowered target, a suspension included, lets no instance join the ones that run.
\<close>

theorem live_instances_stay_within_target:
  assumes "acts_allowed in_time xs s" "worker_tables_ok (ww_db s)" "worker_of (ww_db s) w \<noteq> None"
    and "\<forall>t \<in> set (targets_along w xs s). 0 \<le> t"
  shows "live_now (worker_acts xs s) w \<le> max (live_now s w) (Max (set (targets_along w xs s)))"
  using assms
proof (induction xs arbitrary: s)
  case Nil
  then show ?case by simp
next
  case (Cons x xs)
  let ?s = "worker_act x s"
  have ok: "worker_tables_ok (ww_db ?s)" "worker_of (ww_db ?s) w \<noteq> None"
    using Cons.prems(2,3) act_tables_ok act_keeps_ids [of s x] unfolding worker_of_exists by blast+
  have target: "target_now ?s w \<in> set (targets_along w xs ?s)" by (rule target_now_along)
  have "live_now (worker_acts xs ?s) w \<le> max (live_now ?s w) (Max (set (targets_along w xs ?s)))"
    using Cons.IH [OF _ ok] Cons.prems by simp
  moreover have "live_now ?s w \<le> max (target_now ?s w) (live_now s w)"
    using act_live [of s x w] Cons.prems target by simp
  moreover have "target_now ?s w \<le> Max (set (targets_along w xs ?s))" using target by simp
  moreover have "Max (set (targets_along w xs ?s)) \<le> Max (set (targets_along w (x # xs) s))"
    using target by (intro Max_mono) auto
  ultimately show ?case by (simp only: worker_acts.simps)
qed

text \<open>Two claims, a renewal, an operator who suspends the worker while its instance runs and resumes it.\<close>

definition demo_actions :: "nat worker_action list" where
  "demo_actions = [Do_Claim 1 30 7 0, Advance_Clock 29, Begin_Renewal demo_renewal,
     Finish_Renewal demo_renewal, Do_Set_Target 1 0 ''operator'', Do_Claim 1 30 8 29,
     Do_Set_Target 1 1 ''operator'', Advance_Clock 10, Do_Claim 1 30 8 39]"

lemma live_instances_stay_within_target_witness: "live_now (worker_acts demo_actions demo_workers) 1 \<le> 1"
proof -
  have "acts_allowed in_time demo_actions demo_workers" "worker_tables_ok (ww_db demo_workers)"
    "worker_of (ww_db demo_workers) 1 \<noteq> None" by code_simp+
  moreover have along: "targets_along 1 demo_actions demo_workers = [1, 1, 1, 1, 1, 0, 0, 1, 1, 1]" by code_simp
  ultimately have "live_now (worker_acts demo_actions demo_workers) 1
      \<le> max (live_now demo_workers 1) (Max (set (targets_along 1 demo_actions demo_workers)))"
    by (intro live_instances_stay_within_target) (simp_all add: along)
  moreover have "live_now demo_workers 1 = 0" by code_simp
  ultimately show ?thesis by (simp add: along)
qed

text \<open>The renewal compares \<open>expires_at\<close> with the start of its own transaction and takes no lock on
  the worker row. A renewal that begins before the row expires and is written after a replacement
  has claimed revives the expired row: two instances of a worker with room for one are live, which
  the comment on the statement says cannot happen.
\<close>

theorem late_renewal_exceeds_the_target:
  "\<exists>t. worker_run (\<lambda>_ _. True) demo_workers t
     \<and> worker_of (ww_db t) 1 = worker_of (ww_db demo_workers) 1
     \<and> map wc_target (worker_configs (ww_db t)) = [1]
     \<and> live_instances (ww_db t) 1 (ww_clock t) = 2"
proof (intro exI conjI)
  let ?xs = "[Do_Claim 1 30 7 0, Advance_Clock 29, Begin_Renewal demo_renewal, Advance_Clock 1,
     Do_Claim 1 30 8 30, Finish_Renewal demo_renewal]"
  show "worker_run (\<lambda>_ _. True) demo_workers (worker_acts ?xs demo_workers)"
    by (rule acts_run) code_simp
  show "worker_of (ww_db (worker_acts ?xs demo_workers)) 1 = worker_of (ww_db demo_workers) 1"
    by code_simp
  show "map wc_target (worker_configs (ww_db (worker_acts ?xs demo_workers))) = [1]" by code_simp
  show "live_instances (ww_db (worker_acts ?xs demo_workers)) 1
     (ww_clock (worker_acts ?xs demo_workers)) = 2" by code_simp
qed

definition demo_claimed :: "nat worker_world" where
  "demo_claimed = worker_acts [Do_Claim 1 30 7 0, Advance_Clock 29, Begin_Renewal demo_renewal]
     demo_workers"

text \<open>A renewal already past its target check is written after the suspension, and then fades.\<close>

lemma suspension_drains_the_worker_witness:
  "live_instances (ww_db (worker_acts [Finish_Renewal demo_renewal, Begin_Renewal demo_renewal,
       Do_Claim 1 30 8 29, Advance_Clock 30]
     (worker_act (Do_Set_Target 1 0 ''operator'') demo_claimed))) 1 59 = 0"
proof -
  let ?t = "worker_acts [Finish_Renewal demo_renewal, Begin_Renewal demo_renewal,
       Do_Claim 1 30 8 29, Advance_Clock 30] (worker_act (Do_Set_Target 1 0 ''operator'') demo_claimed)"
  have "worker_run (keeps_suspended 1) (worker_act (Do_Set_Target 1 0 ''operator'') demo_claimed) ?t"
    by (rule acts_run) code_simp
  moreover have "worker_tables_ok (ww_db demo_claimed)" by code_simp
  moreover have "worker_of (ww_db demo_claimed) 1 = Some (hd (worker_configs (ww_db demo_workers)))"
    by code_simp
  moreover have "expires_by demo_claimed 1 59" by code_simp
  moreover have clock: "ww_clock ?t = 59" by code_simp
  ultimately have "live_instances (ww_db ?t) 1 (ww_clock ?t) = 0"
    using suspension_drains_the_worker [of demo_claimed 1 _ 59 "''operator''" ?t] by simp
  then show ?thesis by (simp only: clock)
qed

end
