(* ===== verification/Worker_Pool.thy ===== *)
theory Worker_Pool
  imports Workers Delivery_Options "HOL-Library.AList"
begin

text \<open>
  What runs on the worker tables: the runner that holds an instance
  (\<open>pkg/worker/controller/instance_runner.go\<close>, \<open>instance_tick_runner.go\<close>), the pool of a manager
  (\<open>pkg/worker/manager/pool.go\<close>, \<open>claim_backoff.go\<close>), and the loops that keep a manager alive
  (\<open>manager/runner.go\<close>, \<open>pkg/systemmanager/systemmanager.go\<close>). Durations are whole nanoseconds, a
  jitter factor is a rational argument, and what a goroutine or the database answers is an
  argument too; errors are known by the sentinel that \<open>errors.Is\<close> finds in them.
\<close>

section \<open>Holding an instance\<close>

datatype run_error =
    Run_Lost
  | Run_Suspended
  | Run_Canceled
  | Run_Failed string

definition jittered :: "duration \<Rightarrow> rat \<Rightarrow> duration" where
  "jittered d j = truncate_rat (of_int d * j)"

text \<open>\<open>u\<close> is the value of \<open>rand.Float64()\<close>, in \<open>[0, 1)\<close>.\<close>

definition jitter_factor :: "rat \<Rightarrow> rat \<Rightarrow> rat" where
  "jitter_factor f u = 1 + f * (2 * u - 1)"

definition renewal_delay :: "duration \<Rightarrow> rat \<Rightarrow> rat \<Rightarrow> duration" where
  "renewal_delay ttl f u = jittered (ttl div 2) (jitter_factor f u)"

datatype beat = Beat_Renewed | Beat_Lost | Beat_Suspended | Beat_Failed

text \<open>The cause the heartbeat cancels the work with, given what its renewals return.\<close>

fun heartbeat :: "beat list \<Rightarrow> run_error option" where
  "heartbeat [] = None"
| "heartbeat (Beat_Renewed # bs) = heartbeat bs"
| "heartbeat (Beat_Lost # bs) = Some Run_Lost"
| "heartbeat (Beat_Suspended # bs) = Some Run_Suspended"
| "heartbeat (Beat_Failed # bs) = heartbeat bs"

definition instance_run :: "run_error option \<Rightarrow> run_error option \<Rightarrow> run_error option" where
  "instance_run cause work =
     (let err = (if cause = Some Run_Lost \<or> cause = Some Run_Suspended then cause else work) in
      case err of
        Some Run_Suspended \<Rightarrow> None
      | Some Run_Lost \<Rightarrow> err
      | Some Run_Canceled \<Rightarrow> None
      | _ \<Rightarrow> err)"

text \<open>What a recording of success or failure returns.\<close>

datatype recorded = Recorded int | Record_Lost | Record_Error

datatype tick = Tick_Ok recorded | Tick_Canceled | Tick_Failed recorded

text \<open>
  \<open>ticker\<close>: each tick comes with its jitter factor; the result is the delays it waited and what it
  returned. The list ends where the context is cancelled.
\<close>

fun ticker :: "retry_policy \<Rightarrow> duration \<Rightarrow> int \<Rightarrow> (rat \<times> tick) list \<Rightarrow> duration list \<times> run_error" where
  "ticker p poll attempts [] = ([], Run_Canceled)"
| "ticker p poll attempts ((j, Tick_Ok r) # ts) =
     (if 0 < attempts
      then if r = Record_Lost then ([], Run_Lost)
           else (let (ds, e) = ticker p poll 0 ts in (jittered poll j # ds, e))
      else (let (ds, e) = ticker p poll attempts ts in (jittered poll j # ds, e)))"
| "ticker p poll attempts ((j, Tick_Canceled) # ts) = ([jittered poll j], Run_Canceled)"
| "ticker p poll attempts ((j, Tick_Failed r) # ts) =
     (if r = Record_Lost then ([], Run_Lost)
      else (let attempts' = (case r of Recorded n \<Rightarrow> n | _ \<Rightarrow> attempts + 1);
                delay = max (jittered poll j) (calculate_delay p (attempts' - 1));
                (ds, e) = ticker p poll attempts' ts
            in (delay # ds, e)))"

definition tick_run :: "retry_policy \<Rightarrow> duration \<Rightarrow> int \<Rightarrow> (rat \<times> tick) list \<Rightarrow> run_error option \<Rightarrow> run_error option"
where
  "tick_run p poll attempts ts cause = instance_run cause (Some (snd (ticker p poll attempts ts)))"

section \<open>Backing off from declined claims\<close>

record declined_claim =
  dc_attempts :: int
  dc_until :: time

record claim_backoff =
  cb_policy :: retry_policy
  cb_jitter :: rat
  cb_rows :: "int \<rightharpoonup> declined_claim"

definition new_claim_backoff :: "retry_policy option \<Rightarrow> rat \<Rightarrow> string + claim_backoff" where
  "new_claim_backoff po f =
     (case po of
        None \<Rightarrow> Inl ''policy must not be nil''
      | Some p \<Rightarrow>
          if f < 0 \<or> 1 \<le> f then Inl ''jitterFraction must be in [0, 1)''
          else Inr \<lparr>cb_policy = p, cb_jitter = f, cb_rows = Map.empty\<rparr>)"

text \<open>A missing row reads as the zero time, which no clock is before.\<close>

definition backoff_waiting :: "claim_backoff \<Rightarrow> int \<Rightarrow> time \<Rightarrow> bool" where
  "backoff_waiting b i now = (case cb_rows b i of None \<Rightarrow> False | Some d \<Rightarrow> now < dc_until d)"

definition backoff_declined ::
  "claim_backoff \<Rightarrow> int \<Rightarrow> time \<Rightarrow> rat \<Rightarrow> duration \<times> claim_backoff" where
  "backoff_declined b i now u =
     (let attempts = (case cb_rows b i of None \<Rightarrow> 0 | Some d \<Rightarrow> dc_attempts d) + 1;
          delay = jittered (calculate_delay (cb_policy b)
                    (min (attempts - 1) (max_retries (cb_policy b)))) (jitter_factor (cb_jitter b) u)
      in (delay, b\<lparr>cb_rows := (cb_rows b)(i \<mapsto> \<lparr>dc_attempts = attempts, dc_until = now + delay\<rparr>)\<rparr>))"

definition backoff_clear :: "claim_backoff \<Rightarrow> int \<Rightarrow> claim_backoff" where
  "backoff_clear b i = b\<lparr>cb_rows := (cb_rows b)(i := None)\<rparr>"

definition backoff_keep :: "claim_backoff \<Rightarrow> int list \<Rightarrow> claim_backoff" where
  "backoff_keep b want = b\<lparr>cb_rows := (\<lambda>i. if i \<in> set want then cb_rows b i else None)\<rparr>"

section \<open>The pool\<close>

record spawned =
  sp_run :: nat
  sp_worker :: string
  sp_owner :: string

text \<open>
  \<open>pl_running\<close> is the map of the pool in the order in which the loop over it happens to visit
  its keys; runs are numbered as they are spawned, and \<open>pl_stopped\<close> are the runs whose context
  the pool has cancelled.
\<close>

record pool =
  pl_running :: "(int \<times> spawned) list"
  pl_backoff :: claim_backoff
  pl_next :: nat
  pl_stopped :: "nat list"

datatype change_type = Worker_Added | Worker_Removed | Worker_Exited

record 'm worker_change =
  ch_type :: change_type
  ch_id :: int
  ch_worker :: "'m declared_worker option"

definition new_worker_change ::
  "change_type \<Rightarrow> int \<Rightarrow> 'm declared_worker option \<Rightarrow> string + 'm worker_change" where
  "new_worker_change t i w =
     (if i \<le> 0 then Inl ''id must be > 0''
      else if (t = Worker_Removed) \<noteq> (w = None) then Inl ''desiredWorker''
      else Inr \<lparr>ch_type = t, ch_id = i, ch_worker = w\<rparr>)"

datatype provision = Provision_Error | Provision_Declined | Provision_Execution

record 'm pool_env =
  pe_now :: time
  pe_start_at :: "int \<Rightarrow> time"
  pe_random :: "int \<Rightarrow> rat"
  pe_provision :: "string \<rightharpoonup> ('m declared_worker \<Rightarrow> provision)"
  pe_finished :: "nat \<Rightarrow> bool"

fun provisioners_by_name :: "(string \<times> 'p) list \<Rightarrow> (string \<rightharpoonup> 'p) \<Rightarrow> string + (string \<rightharpoonup> 'p)" where
  "provisioners_by_name [] m = Inr m"
| "provisioners_by_name ((n, p) # ps) m =
     (if m n \<noteq> None then Inl ''two provisioners'' else provisioners_by_name ps (m(n \<mapsto> p)))"

text \<open>The first loop of \<open>diff\<close>; the second is over the ids that run and are not wanted.\<close>

fun diff_desired ::
  "'m pool_env \<Rightarrow> pool \<Rightarrow> 'm declared_worker list \<Rightarrow> string + 'm worker_change list" where
  "diff_desired env p [] = Inr []"
| "diff_desired env p (w # ws) =
     (case map_of (pl_running p) (dw_id w) of
        None \<Rightarrow>
          if backoff_waiting (pl_backoff p) (dw_id w) (pe_now env) then diff_desired env p ws
          else (case new_worker_change Worker_Added (dw_id w) (Some w) of
              Inl e \<Rightarrow> Inl e
            | Inr c \<Rightarrow> (case diff_desired env p ws of Inl e \<Rightarrow> Inl e | Inr cs \<Rightarrow> Inr (c # cs)))
      | Some sp \<Rightarrow>
          if pe_finished env (sp_run sp)
          then (case new_worker_change Worker_Exited (dw_id w) (Some w) of
              Inl e \<Rightarrow> Inl e
            | Inr c \<Rightarrow> (case diff_desired env p ws of Inl e \<Rightarrow> Inl e | Inr cs \<Rightarrow> Inr (c # cs)))
          else diff_desired env p ws)"

fun diff_removed :: "int list \<Rightarrow> int list \<Rightarrow> string + 'm worker_change list" where
  "diff_removed want [] = Inr []"
| "diff_removed want (i # is) =
     (if i \<in> set want then diff_removed want is
      else (case new_worker_change Worker_Removed i None of
          Inl e \<Rightarrow> Inl e
        | Inr c \<Rightarrow> (case diff_removed want is of Inl e \<Rightarrow> Inl e | Inr cs \<Rightarrow> Inr (c # cs))))"

definition pool_diff ::
  "'m pool_env \<Rightarrow> pool \<Rightarrow> 'm declared_worker list \<Rightarrow> (string + 'm worker_change list) \<times> pool" where
  "pool_diff env p ws =
     (case diff_desired env p ws of
        Inl e \<Rightarrow> (Inl e, p)
      | Inr cs \<Rightarrow> (case diff_removed (map dw_id ws) (map fst (pl_running p)) of
            Inl e \<Rightarrow> (Inl e, p)
          | Inr rs \<Rightarrow> (Inr (cs @ rs), p\<lparr>pl_backoff := backoff_keep (pl_backoff p) (map dw_id ws)\<rparr>)))"

definition pool_start :: "'m pool_env \<Rightarrow> 'm declared_worker \<Rightarrow> pool \<Rightarrow> pool" where
  "pool_start env w p =
     (case pe_provision env (dw_name w) of
        None \<Rightarrow> p
      | Some prov \<Rightarrow> (case prov w of
            Provision_Error \<Rightarrow> p
          | Provision_Declined \<Rightarrow>
              p\<lparr>pl_backoff := snd (backoff_declined (pl_backoff p) (dw_id w)
                                (pe_start_at env (dw_id w)) (pe_random env (dw_id w)))\<rparr>
          | Provision_Execution \<Rightarrow>
              p\<lparr>pl_running := AList.update (dw_id w)
                    \<lparr>sp_run = pl_next p, sp_worker = dw_name w, sp_owner = ow_name (dw_owner w)\<rparr>
                    (pl_running p),
                pl_backoff := backoff_clear (pl_backoff p) (dw_id w),
                pl_next := pl_next p + 1\<rparr>))"

definition pool_stop :: "int \<Rightarrow> pool \<Rightarrow> pool" where
  "pool_stop i p =
     (case map_of (pl_running p) i of
        None \<Rightarrow> p
      | Some sp \<Rightarrow> p\<lparr>pl_running := AList.delete i (pl_running p),
                     pl_stopped := pl_stopped p @ [sp_run sp]\<rparr>)"

definition apply_change :: "'m pool_env \<Rightarrow> 'm worker_change \<Rightarrow> pool \<Rightarrow> pool" where
  "apply_change env c p =
     (case (ch_type c, ch_worker c) of
        (Worker_Added, Some w) \<Rightarrow> pool_start env w p
      | (Worker_Removed, _) \<Rightarrow> pool_stop (ch_id c) p
      | (Worker_Exited, Some w) \<Rightarrow> pool_start env w (pool_stop (ch_id c) p)
      | _ \<Rightarrow> p)"

definition reconcile ::
  "'m pool_env \<Rightarrow> pool \<Rightarrow> 'm declared_worker list \<Rightarrow> (string + unit) \<times> pool" where
  "reconcile env p ws =
     (case pool_diff env p ws of
        (Inl e, p') \<Rightarrow> (Inl e, p')
      | (Inr cs, p') \<Rightarrow> (Inr (), fold (apply_change env) cs p'))"

text \<open>What the goroutine of an execution reports to the group: a fatal error or none.\<close>

definition exit_report :: "bool \<Rightarrow> run_error option \<Rightarrow> run_error option" where
  "exit_report ctx_done err =
     (if err = None \<or> err = Some Run_Lost \<or> ctx_done then None else err)"

text \<open>The result of a manager instance: its own runner's error first, then the group's.\<close>

definition manager_result :: "run_error option \<Rightarrow> run_error option \<Rightarrow> run_error option" where
  "manager_result run_err group_err = (if run_err = None then group_err else run_err)"

section \<open>Keeping a manager alive\<close>

datatype life =
    Claim_Failed run_error bool
  | Nothing_To_Run
  | Ran "run_error option"

text \<open>
  \<open>Runner.Run\<close>: the first argument is \<open>claimed\<close>. The result is what it returns and the lives it
  did not come to; at the end of the list the context is cancelled while it waits.
\<close>

fun runner_run :: "bool \<Rightarrow> life list \<Rightarrow> run_error option \<times> life list" where
  "runner_run claimed [] = (None, [])"
| "runner_run claimed (Claim_Failed e canceled # ls) =
     (if canceled then (None, ls)
      else if \<not> claimed then (Some e, ls)
      else runner_run claimed ls)"
| "runner_run claimed (Nothing_To_Run # ls) = runner_run claimed ls"
| "runner_run claimed (Ran err # ls) =
     (if err \<noteq> Some Run_Lost then (err, ls) else runner_run True ls)"

text \<open>
  One claim of \<open>Runner.claim\<close> and \<open>ManagerProvisioner.Provision\<close>: the metadata must parse and be
  valid, which \<open>parse\<close> decides; then the instance is registered.
\<close>

definition runner_claim ::
  "('m \<Rightarrow> worker_error + 'c) \<Rightarrow> ('m worker_db \<Rightarrow> owner \<Rightarrow> worker_error + unit) \<Rightarrow> 'm worker_db
   \<Rightarrow> owner \<Rightarrow> duration \<Rightarrow> uuid \<Rightarrow> time \<Rightarrow> time
   \<Rightarrow> ('m, (worker_instance \<times> 'c) option) worker_exec" where
  "runner_claim parse schema db ow ttl tok read_at now =
     (case get_worker db ''manager'' ow of
        Inl e \<Rightarrow> (Inl e, db)
      | Inr w \<Rightarrow>
          if target_suspended (dw_target w) then (Inr None, db)
          else (case parse (dw_metadata w) of
              Inl e \<Rightarrow> (Inl e, db)
            | Inr c \<Rightarrow> (case register_instance id schema db (dw_id w) (dw_owner w)
                            (kind_of (dw_owner w)) ttl tok read_at now of
                  (Inl e, db') \<Rightarrow> (Inl e, db')
                | (Inr None, db') \<Rightarrow> (Inr None, db')
                | (Inr (Some i), db') \<Rightarrow> (Inr (Some (i, c)), db'))))"

text \<open>
  \<open>SystemManager.Run\<close>: each run of the runner ends with an error or none and a jitter factor; the
  result is the delays it waits. It ends with the context, and then returns no error.
\<close>

fun system_manager_run :: "retry_policy \<Rightarrow> int \<Rightarrow> (run_error option \<times> rat) list \<Rightarrow> duration list \<times> run_error option"
where
  "system_manager_run p attempt [] = ([], None)"
| "system_manager_run p attempt ((err, j) # rs) =
     (let (ds, e) = system_manager_run p (attempt + 1) rs
      in (jittered (calculate_delay p (min attempt (max_retries p))) j # ds, e))"

end
