(* ===== verification/Pool_Properties.thy ===== *)
theory Pool_Properties
  imports Worker_Pool
begin

text \<open>
  What one reconcile does to the pool of a manager, how long a declined claim waits, when a
  heartbeat fires, and what a suspension does to the loop that keeps the manager alive.
\<close>

section \<open>The changes of a pass\<close>

definition change_for :: "'m pool_env \<Rightarrow> pool \<Rightarrow> 'm declared_worker \<Rightarrow> 'm worker_change option" where
  "change_for env p w =
     (case map_of (pl_running p) (dw_id w) of
        None \<Rightarrow> if backoff_waiting (pl_backoff p) (dw_id w) (pe_now env) then None
                else Some \<lparr>ch_type = Worker_Added, ch_id = dw_id w, ch_worker = Some w\<rparr>
      | Some sp \<Rightarrow> if pe_finished env (sp_run sp)
                then Some \<lparr>ch_type = Worker_Exited, ch_id = dw_id w, ch_worker = Some w\<rparr>
                else None)"

definition removal :: "int \<Rightarrow> 'm worker_change" where
  "removal i = \<lparr>ch_type = Worker_Removed, ch_id = i, ch_worker = None\<rparr>"

lemma diff_desired_eq:
  "\<forall>w \<in> set ws. 0 < dw_id w \<Longrightarrow> diff_desired env p ws = Inr (List.map_filter (change_for env p) ws)"
  by (induction ws)
     (auto simp: change_for_def new_worker_change_def List.map_filter_def split: option.split)

lemma diff_removed_eq:
  "\<forall>i \<in> set is. 0 < i
   \<Longrightarrow> diff_removed want is = Inr (map removal (filter (\<lambda>i. i \<notin> set want) is))"
  by (induction "is") (auto simp: new_worker_change_def removal_def)

lemma change_for_id: "change_for env p w = Some c \<Longrightarrow> ch_id c = dw_id w"
  by (auto simp: change_for_def split: option.splits if_splits)

lemma map_filter_ids:
  "(\<And>w c. f w = Some c \<Longrightarrow> ch_id c = k w)
   \<Longrightarrow> map ch_id (List.map_filter f ws) = map k (filter (\<lambda>w. f w \<noteq> None) ws)"
  by (induction ws) (auto simp: List.map_filter_def)

lemma set_map_filter': "c \<in> set (List.map_filter f ws) \<longleftrightarrow> (\<exists>w \<in> set ws. f w = Some c)"
  by (force simp: List.map_filter_def)

lemma removal_ids [simp]: "map ch_id (map removal xs) = xs"
  by (simp add: removal_def o_def)

definition pass_changes :: "'m pool_env \<Rightarrow> pool \<Rightarrow> 'm declared_worker list \<Rightarrow> 'm worker_change list" where
  "pass_changes env p ws =
     List.map_filter (change_for env p) ws
     @ map removal (filter (\<lambda>i. i \<notin> set (map dw_id ws)) (map fst (pl_running p)))"

lemma distinct_changes:
  assumes "distinct (map dw_id ws)" "distinct (map fst (pl_running p))"
  shows "distinct (map ch_id (pass_changes env p ws))"
proof -
  have "map ch_id (pass_changes env p ws) =
      map dw_id (filter (\<lambda>w. change_for env p w \<noteq> None) ws)
      @ filter (\<lambda>i. i \<notin> set (map dw_id ws)) (map fst (pl_running p))"
    by (simp only: pass_changes_def map_append map_filter_ids [OF change_for_id] removal_ids)
  then show ?thesis using assms by (auto simp: distinct_map_filter)
qed

section \<open>Applying them\<close>

lemma start_running:
  "map_of (pl_running (pool_start env w p)) i =
     (if i = dw_id w \<and> (\<exists>prov. pe_provision env (dw_name w) = Some prov \<and> prov w = Provision_Execution)
      then Some \<lparr>sp_run = pl_next p, sp_worker = dw_name w, sp_owner = ow_name (dw_owner w)\<rparr>
      else map_of (pl_running p) i)"
  by (simp add: pool_start_def update_conv' split: option.split provision.split)

lemma start_frame [simp]:
  "pl_stopped (pool_start env w p) = pl_stopped p"
  "pl_next p \<le> pl_next (pool_start env w p)"
  by (simp_all add: pool_start_def split: option.split provision.split)

lemma start_distinct:
  "distinct (map fst (pl_running p)) \<Longrightarrow> distinct (map fst (pl_running (pool_start env w p)))"
  by (simp add: pool_start_def distinct_update split: option.split provision.split)

lemma stop_running: "map_of (pl_running (pool_stop i p)) j = (if j = i then None else map_of (pl_running p) j)"
  by (simp add: pool_stop_def delete_conv' split: option.split)

lemma stop_frame [simp]: "pl_next (pool_stop i p) = pl_next p"
  by (simp add: pool_stop_def split: option.split)

lemma stop_stopped:
  "set (pl_stopped (pool_stop i p)) =
     set (pl_stopped p) \<union> (case map_of (pl_running p) i of None \<Rightarrow> {} | Some sp \<Rightarrow> {sp_run sp})"
  by (simp add: pool_stop_def split: option.split)

lemma stop_distinct:
  "distinct (map fst (pl_running p)) \<Longrightarrow> distinct (map fst (pl_running (pool_stop i p)))"
  by (simp add: pool_stop_def distinct_delete split: option.split)

text \<open>Changes as a pass builds them: the worker carries the id of the change.\<close>

definition sound_change :: "'m worker_change \<Rightarrow> bool" where
  "sound_change c \<longleftrightarrow>
     (case ch_worker c of None \<Rightarrow> ch_type c = Worker_Removed
      | Some w \<Rightarrow> ch_type c \<noteq> Worker_Removed \<and> dw_id w = ch_id c)"

lemma sound_pass: "c \<in> set (pass_changes env p ws) \<Longrightarrow> sound_change c"
  by (auto simp: pass_changes_def set_map_filter' removal_def sound_change_def change_for_def
      split: option.splits if_splits)

lemma apply_other:
  "sound_change c \<Longrightarrow> ch_id c \<noteq> i
   \<Longrightarrow> map_of (pl_running (apply_change env c p)) i = map_of (pl_running p) i"
  by (auto simp: apply_change_def sound_change_def start_running stop_running
      split: option.splits change_type.splits)

lemma apply_next: "pl_next p \<le> pl_next (apply_change env c p)"
  using start_frame(2) [of "pool_stop (ch_id c) p"]
  by (auto simp: apply_change_def split: option.splits change_type.splits)

lemma apply_distinct:
  "distinct (map fst (pl_running p)) \<Longrightarrow> distinct (map fst (pl_running (apply_change env c p)))"
  by (simp add: apply_change_def start_distinct stop_distinct split: option.split change_type.split)

lemma apply_stopped:
  "sound_change c \<Longrightarrow> set (pl_stopped (apply_change env c p)) = set (pl_stopped p)
     \<union> (if ch_type c = Worker_Added then {}
        else case map_of (pl_running p) (ch_id c) of None \<Rightarrow> {} | Some sp \<Rightarrow> {sp_run sp})"
  by (auto simp: apply_change_def sound_change_def stop_stopped
      split: option.splits change_type.splits)

lemma fold_other:
  "\<forall>c \<in> set cs. sound_change c \<and> ch_id c \<noteq> i
   \<Longrightarrow> map_of (pl_running (fold (apply_change env) cs p)) i = map_of (pl_running p) i"
  by (induction cs arbitrary: p) (auto simp: apply_other)

lemma fold_next: "pl_next p \<le> pl_next (fold (apply_change env) cs p)"
proof (induction cs arbitrary: p)
  case (Cons c cs)
  then show ?case using apply_next [of p env c] order_trans by fastforce
qed simp

lemma fold_distinct:
  "distinct (map fst (pl_running p)) \<Longrightarrow> distinct (map fst (pl_running (fold (apply_change env) cs p)))"
  by (induction cs arbitrary: p) (auto simp: apply_distinct)

lemma fold_at:
  assumes "distinct (map ch_id cs)" "\<forall>c \<in> set cs. sound_change c" "c \<in> set cs"
  shows "\<exists>q. map_of (pl_running q) (ch_id c) = map_of (pl_running p) (ch_id c) \<and> pl_next p \<le> pl_next q
    \<and> map_of (pl_running (fold (apply_change env) cs p)) (ch_id c)
        = map_of (pl_running (apply_change env c q)) (ch_id c)"
proof -
  obtain as bs where cs: "cs = as @ c # bs" using assms(3) by (auto dest: split_list)
  have other: "ch_id d \<noteq> ch_id c" if "d \<in> set as \<or> d \<in> set bs" for d
    using assms(1) that by (auto simp: cs rev_image_eqI)
  let ?q = "fold (apply_change env) as p"
  have "map_of (pl_running ?q) (ch_id c) = map_of (pl_running p) (ch_id c)"
    using assms(2) other by (intro fold_other) (auto simp: cs)
  moreover have "map_of (pl_running (fold (apply_change env) bs (apply_change env c ?q))) (ch_id c)
      = map_of (pl_running (apply_change env c ?q)) (ch_id c)"
    using assms(2) other by (intro fold_other) (auto simp: cs)
  ultimately show ?thesis using fold_next [of p env as] by (intro exI [of _ ?q]) (simp add: cs)
qed

lemma fold_stopped:
  assumes "distinct (map ch_id cs)" "\<forall>c \<in> set cs. sound_change c"
  shows "r \<in> set (pl_stopped (fold (apply_change env) cs p)) \<longleftrightarrow> r \<in> set (pl_stopped p)
    \<or> (\<exists>c \<in> set cs. ch_type c \<noteq> Worker_Added
         \<and> (\<exists>sp. map_of (pl_running p) (ch_id c) = Some sp \<and> sp_run sp = r))"
  using assms
proof (induction cs arbitrary: p)
  case (Cons c cs)
  have "map_of (pl_running (apply_change env c p)) (ch_id d) = map_of (pl_running p) (ch_id d)"
    if "d \<in> set cs" for d
    using Cons.prems that by (intro apply_other) (auto simp: rev_image_eqI)
  with Cons.IH [of "apply_change env c p"] Cons.prems apply_stopped [of c env p] show ?case
    by (auto split: option.splits if_splits)
qed simp

section \<open>One reconcile\<close>

definition spawns :: "'m pool_env \<Rightarrow> 'm declared_worker \<Rightarrow> bool" where
  "spawns env w \<longleftrightarrow> (case pe_provision env (dw_name w) of
     None \<Rightarrow> False | Some prov \<Rightarrow> prov w = Provision_Execution)"

text \<open>The entry a declared worker has after a pass, given the one it had.\<close>

definition desired_entry ::
  "'m pool_env \<Rightarrow> pool \<Rightarrow> 'm declared_worker \<Rightarrow> spawned option \<Rightarrow> bool" where
  "desired_entry env p w e \<longleftrightarrow>
     (case map_of (pl_running p) (dw_id w) of
        Some sp \<Rightarrow> \<not> pe_finished env (sp_run sp) \<and> e = Some sp
          \<or> pe_finished env (sp_run sp) \<and> (if spawns env w then \<exists>n \<ge> pl_next p. e =
                Some \<lparr>sp_run = n, sp_worker = dw_name w, sp_owner = ow_name (dw_owner w)\<rparr> else e = None)
      | None \<Rightarrow> if backoff_waiting (pl_backoff p) (dw_id w) (pe_now env) \<or> \<not> spawns env w then e = None
          else \<exists>n \<ge> pl_next p. e =
                Some \<lparr>sp_run = n, sp_worker = dw_name w, sp_owner = ow_name (dw_owner w)\<rparr>)"

lemma spawns_iff:
  "(\<exists>prov. pe_provision env (dw_name w) = Some prov \<and> prov w = Provision_Execution) \<longleftrightarrow> spawns env w"
  by (simp add: spawns_def split: option.split)

lemma changed_entry:
  assumes c: "change_for env p w = Some c"
    and q: "map_of (pl_running q) (dw_id w) = map_of (pl_running p) (dw_id w)" "pl_next p \<le> pl_next q"
  shows "desired_entry env p w (map_of (pl_running (apply_change env c q)) (dw_id w))"
proof (cases "map_of (pl_running p) (dw_id w)")
  case None
  then have "\<not> backoff_waiting (pl_backoff p) (dw_id w) (pe_now env)"
    "c = \<lparr>ch_type = Worker_Added, ch_id = dw_id w, ch_worker = Some w\<rparr>"
    using c by (auto simp: change_for_def split: if_splits)
  then show ?thesis using None q by (simp add: desired_entry_def apply_change_def start_running spawns_iff)
next
  case (Some sp)
  then have "pe_finished env (sp_run sp)"
    "c = \<lparr>ch_type = Worker_Exited, ch_id = dw_id w, ch_worker = Some w\<rparr>"
    using c by (auto simp: change_for_def split: if_splits)
  then show ?thesis
    using Some q by (simp add: desired_entry_def apply_change_def start_running stop_running spawns_iff)
qed

lemma unchanged_entry:
  "change_for env p w = None \<Longrightarrow> desired_entry env p w (map_of (pl_running p) (dw_id w))"
  by (auto simp: change_for_def desired_entry_def split: option.splits if_splits)

lemma reconcile_eq:
  assumes "\<forall>w \<in> set ws. 0 < dw_id w" "\<forall>i \<in> fst ` set (pl_running p). 0 < i"
  shows "reconcile env p ws = (Inr (), fold (apply_change env) (pass_changes env p ws)
           (p\<lparr>pl_backoff := backoff_keep (pl_backoff p) (map dw_id ws)\<rparr>))"
  using assms
  by (simp add: reconcile_def pool_diff_def diff_desired_eq diff_removed_eq pass_changes_def)

lemma pass_change_cases:
  assumes "c \<in> set (pass_changes env p ws)"
  obtains (wanted) w where "w \<in> set ws" "change_for env p w = Some c" "ch_id c = dw_id w"
  | (removed) i sp where "(i, sp) \<in> set (pl_running p)" "i \<notin> dw_id ` set ws" "c = removal i"
  using assms by (auto simp: pass_changes_def set_map_filter' dest: change_for_id)

lemma stopped_runs:
  assumes "distinct (map dw_id ws)" "distinct (map fst (pl_running p))"
  shows "(\<exists>c \<in> set (pass_changes env p ws). ch_type c \<noteq> Worker_Added
      \<and> (\<exists>sp. map_of (pl_running p) (ch_id c) = Some sp \<and> sp_run sp = r))
    \<longleftrightarrow> (\<exists>i sp. r = sp_run sp \<and> (i, sp) \<in> set (pl_running p)
          \<and> (i \<notin> dw_id ` set ws \<or> pe_finished env (sp_run sp)))" (is "?l = ?r")
proof
  assume ?l
  then obtain c sp where c: "c \<in> set (pass_changes env p ws)" "ch_type c \<noteq> Worker_Added"
    and sp: "map_of (pl_running p) (ch_id c) = Some sp" "sp_run sp = r" by blast
  from c(1) show ?r
  proof (cases rule: pass_change_cases)
    case (wanted w)
    then have "pe_finished env (sp_run sp)"
      using c(2) sp by (auto simp: change_for_def split: option.splits if_splits)
    then show ?thesis using sp map_of_SomeD by fast
  next
    case (removed i sp')
    then show ?thesis using sp map_of_SomeD by (fastforce simp: removal_def)
  qed
next
  assume ?r
  then obtain i sp where r: "r = sp_run sp" "(i, sp) \<in> set (pl_running p)"
    and why: "i \<notin> dw_id ` set ws \<or> pe_finished env (sp_run sp)" by blast
  have sp: "map_of (pl_running p) i = Some sp" using r(2) assms(2) by simp
  show ?l
  proof (cases "i \<in> dw_id ` set ws")
    case True
    then obtain w where w: "w \<in> set ws" "dw_id w = i" by blast
    let ?c = "\<lparr>ch_type = Worker_Exited, ch_id = i, ch_worker = Some w\<rparr>"
    have "change_for env p w = Some ?c" using w sp why True by (simp add: change_for_def)
    then have "?c \<in> set (pass_changes env p ws)"
      using w(1) by (auto simp: pass_changes_def set_map_filter')
    then show ?thesis using sp r(1) by (intro bexI [of _ ?c]) auto
  next
    case False
    then have "removal i \<in> set (pass_changes env p ws)" using r(2) by (force simp: pass_changes_def)
    then show ?thesis using sp r(1) by (intro bexI [of _ "removal i"]) (auto simp: removal_def)
  qed
qed

text \<open>C12: One reconcile makes the running set what the declared workers ask for: an execution of a
  declared worker that still runs is left alone, one that has ended is replaced, one whose row is
  gone is stopped, and every other declared worker is spawned unless its last claim was declined
  and still waits, or nothing provisions it. No worker ever has two executions in the pool, and
  exactly the executions that ended or lost their row are cancelled.
\<close>

theorem reconcile_runs_what_is_desired:
  assumes "distinct (map dw_id ws)" "\<forall>w \<in> set ws. 0 < dw_id w"
    and "distinct (map fst (pl_running p))" "\<forall>i \<in> fst ` set (pl_running p). 0 < i"
  shows "\<exists>p'. reconcile env p ws = (Inr (), p')
    \<and> distinct (map fst (pl_running p'))
    \<and> (\<forall>i. i \<notin> dw_id ` set ws \<longrightarrow> map_of (pl_running p') i = None)
    \<and> (\<forall>w \<in> set ws. desired_entry env p w (map_of (pl_running p') (dw_id w)))
    \<and> set (pl_stopped p') = set (pl_stopped p) \<union> {sp_run sp | i sp. (i, sp) \<in> set (pl_running p)
          \<and> (i \<notin> dw_id ` set ws \<or> pe_finished env (sp_run sp))}"
proof (intro exI conjI)
  let ?cs = "pass_changes env p ws"
  let ?p = "p\<lparr>pl_backoff := backoff_keep (pl_backoff p) (map dw_id ws)\<rparr>"
  let ?p' = "fold (apply_change env) ?cs ?p"
  note dist = distinct_changes [OF assms(1,3), of env]
  have sound: "\<forall>c \<in> set ?cs. sound_change c" by (simp add: sound_pass)
  show "reconcile env p ws = (Inr (), ?p')" using assms(2,4) by (rule reconcile_eq)
  show "distinct (map fst (pl_running ?p'))" using assms(3) by (simp add: fold_distinct)
  show "\<forall>i. i \<notin> dw_id ` set ws \<longrightarrow> map_of (pl_running ?p') i = None"
  proof (intro allI impI)
    fix i assume i: "i \<notin> dw_id ` set ws"
    show "map_of (pl_running ?p') i = None"
    proof (cases "i \<in> fst ` set (pl_running p)")
      case True
      with i have c: "removal i \<in> set ?cs" by (auto simp: pass_changes_def)
      show ?thesis
        using fold_at [OF dist sound c, of ?p env]
        by (auto simp: removal_def apply_change_def stop_running)
    next
      case False
      have "\<forall>c \<in> set ?cs. sound_change c \<and> ch_id c \<noteq> i"
        using sound False i by (auto elim!: pass_change_cases simp: removal_def rev_image_eqI)
      then show ?thesis using False by (simp add: fold_other map_of_eq_None_iff)
    qed
  qed
  show "\<forall>w \<in> set ws. desired_entry env p w (map_of (pl_running ?p') (dw_id w))"
  proof
    fix w assume w: "w \<in> set ws"
    show "desired_entry env p w (map_of (pl_running ?p') (dw_id w))"
    proof (cases "change_for env p w")
      case (Some c)
      then have c: "c \<in> set ?cs" and i: "ch_id c = dw_id w"
        using w by (auto simp: pass_changes_def set_map_filter' change_for_id)
      show ?thesis using fold_at [OF dist sound c, of ?p env] changed_entry [OF Some] by (auto simp: i)
    next
      case None
      have "ch_id c \<noteq> dw_id w" if "c \<in> set ?cs" for c
        using that
      proof (cases rule: pass_change_cases)
        case (wanted v)
        then show ?thesis using None w assms(1) distinct_map_same [of dw_id ws v w] by auto
      next
        case (removed i sp)
        then show ?thesis using w by (auto simp: removal_def)
      qed
      then have "map_of (pl_running ?p') (dw_id w) = map_of (pl_running p) (dw_id w)"
        using sound fold_other [of ?cs "dw_id w" env ?p] by simp
      then show ?thesis using unchanged_entry [OF None] by simp
    qed
  qed
  show "set (pl_stopped ?p') = set (pl_stopped p) \<union> {sp_run sp | i sp. (i, sp) \<in> set (pl_running p)
          \<and> (i \<notin> dw_id ` set ws \<or> pe_finished env (sp_run sp))}"
    using stopped_runs [OF assms(1,3), where env = env]
      fold_stopped [OF dist sound, where env = env and p = ?p] by auto
qed

text \<open>
  A pool that runs workers 1 (ended), 2 (live) and 4 (live, its row gone) and has 5 backing off;
  the rows name 1, 2, 3 and 5.
\<close>

definition demo_worker :: "int \<Rightarrow> nat declared_worker" where
  "demo_worker i = \<lparr>dw_id = i, dw_name = ''janitor'',
     dw_owner = \<lparr>ow_system = 1, ow_stream = 0, ow_group = 0, ow_name = ''system''\<rparr>,
     dw_metadata = 0, dw_target = 1\<rparr>"

definition demo_spawned :: "nat \<Rightarrow> spawned" where
  "demo_spawned n = \<lparr>sp_run = n, sp_worker = ''janitor'', sp_owner = ''system''\<rparr>"

definition demo_pool :: pool where
  "demo_pool = \<lparr>pl_running = [(1, demo_spawned 10), (4, demo_spawned 12), (2, demo_spawned 11)],
     pl_backoff = \<lparr>cb_policy = new_default_retry_policy, cb_jitter = 0,
       cb_rows = [5 \<mapsto> \<lparr>dc_attempts = 1, dc_until = 100\<rparr>]\<rparr>,
     pl_next = 13, pl_stopped = []\<rparr>"

definition demo_pool_env :: "nat pool_env" where
  "demo_pool_env = \<lparr>pe_now = 50, pe_start_at = (\<lambda>_. 50), pe_random = (\<lambda>_. 0),
     pe_provision = [''janitor'' \<mapsto> (\<lambda>_. Provision_Execution)], pe_finished = (\<lambda>r. r = 10)\<rparr>"

lemma reconcile_runs_what_is_desired_witness:
  "\<exists>p'. reconcile demo_pool_env demo_pool (map demo_worker [1, 2, 3, 5]) = (Inr (), p')
     \<and> map_of (pl_running p') 4 = None \<and> map_of (pl_running p') 5 = None
     \<and> map_of (pl_running p') 2 = Some (demo_spawned 11)
     \<and> (\<exists>n \<ge> 13. map_of (pl_running p') 1 = Some (demo_spawned n))
     \<and> (\<exists>n \<ge> 13. map_of (pl_running p') 3 = Some (demo_spawned n))
     \<and> 12 \<in> set (pl_stopped p')"
proof -
  let ?ws = "map demo_worker [1, 2, 3, 5]"
  have "distinct (map dw_id ?ws)" "\<forall>w \<in> set ?ws. 0 < dw_id w"
    by (simp_all add: demo_worker_def)
  moreover have "distinct (map fst (pl_running demo_pool))" "\<forall>i \<in> fst ` set (pl_running demo_pool). 0 < i"
    by (simp_all add: demo_pool_def)
  ultimately obtain p' where p': "reconcile demo_pool_env demo_pool ?ws = (Inr (), p')"
    "\<forall>i. i \<notin> dw_id ` set ?ws \<longrightarrow> map_of (pl_running p') i = None"
    "\<forall>w \<in> set ?ws. desired_entry demo_pool_env demo_pool w (map_of (pl_running p') (dw_id w))"
    "set (pl_stopped p') = set (pl_stopped demo_pool) \<union> {sp_run sp | i sp. (i, sp) \<in> set (pl_running demo_pool)
          \<and> (i \<notin> dw_id ` set ?ws \<or> pe_finished demo_pool_env (sp_run sp))}"
    using reconcile_runs_what_is_desired [of ?ws demo_pool demo_pool_env] by blast
  have entry: "desired_entry demo_pool_env demo_pool (demo_worker i) (map_of (pl_running p') i)"
    if "i \<in> {1, 2, 3, 5}" for i
    using p'(3) that by (auto simp: demo_worker_def)
  note defs = desired_entry_def demo_pool_def demo_pool_env_def demo_worker_def demo_spawned_def
    backoff_waiting_def spawns_def
  have "map_of (pl_running p') 4 = None" using p'(2) by (simp add: demo_worker_def)
  moreover have "map_of (pl_running p') 5 = None" using entry [of 5] by (simp add: defs)
  moreover have "map_of (pl_running p') 2 = Some (demo_spawned 11)" using entry [of 2] by (simp add: defs)
  moreover have "\<exists>n \<ge> 13. map_of (pl_running p') 1 = Some (demo_spawned n)" using entry [of 1] by (simp add: defs)
  moreover have "\<exists>n \<ge> 13. map_of (pl_running p') 3 = Some (demo_spawned n)" using entry [of 3] by (simp add: defs)
  moreover have "\<exists>i sp. 12 = sp_run sp \<and> (i, sp) \<in> set (pl_running demo_pool)
      \<and> (i \<notin> dw_id ` set ?ws \<or> pe_finished demo_pool_env (sp_run sp))"
    by (rule exI [of _ 4], rule exI [of _ "demo_spawned 12"])
       (simp add: demo_pool_def demo_spawned_def demo_worker_def)
  then have "12 \<in> set (pl_stopped p')" unfolding p'(4) by blast
  ultimately show ?thesis using p'(1) by blast
qed

section \<open>Pacing\<close>

lemma jittered_le: "0 \<le> d \<Longrightarrow> 0 \<le> j \<Longrightarrow> of_int (jittered d j) \<le> of_int d * j"
  by (simp add: jittered_def truncate_rat_def)

lemma jittered_ge: "0 \<le> d \<Longrightarrow> 0 \<le> j \<Longrightarrow> of_int d * j - 1 < of_int (jittered d j)"
  unfolding jittered_def truncate_rat_def by (simp add: algebra_simps) linarith

lemma jitter_factor_bounds:
  assumes "0 \<le> f" "f < 1" "0 \<le> u" "u < 1"
  shows "1 - f \<le> jitter_factor f u" "jitter_factor f u \<le> 1 + f" "0 < jitter_factor f u" "jitter_factor f u < 2"
proof -
  have "f * (- 1) \<le> f * (2 * u - 1)" "f * (2 * u - 1) \<le> f * 1"
    using assms by (intro mult_left_mono; simp)+
  then show "1 - f \<le> jitter_factor f u" "jitter_factor f u \<le> 1 + f"
    by (simp_all add: jitter_factor_def)
  then show "0 < jitter_factor f u" "jitter_factor f u < 2" using assms by linarith+
qed

text \<open>Whatever its jitter, a heartbeat fires before the lease it renews expires: the wait is never
  negative and always shorter than the lease.
\<close>

theorem heartbeat_beats_the_expiry:
  assumes "0 < ttl" "0 \<le> f" "f < 1" "0 \<le> u" "u < 1"
  shows "0 \<le> renewal_delay ttl f u \<and> renewal_delay ttl f u < ttl"
proof -
  note j = jitter_factor_bounds [OF assms(2-5)]
  let ?d = "ttl div 2"
  have d: "0 \<le> ?d" using assms(1) by simp
  have "of_int (renewal_delay ttl f u) \<le> of_int ?d * jitter_factor f u"
    unfolding renewal_delay_def using d j by (intro jittered_le) auto
  also have "\<dots> < of_int ttl" if "0 < ?d"
  proof -
    have "(of_int ?d :: rat) * jitter_factor f u < of_int ?d * 2" using j that by (intro mult_strict_left_mono) auto
    also have "\<dots> = of_int (?d * 2)" by simp
    also have "\<dots> \<le> of_int ttl" by (subst of_int_le_iff) simp
    finally show ?thesis .
  qed
  finally have "renewal_delay ttl f u < ttl" if "0 < ?d" using that by simp
  moreover have "renewal_delay ttl f u = 0" if "?d = 0"
    using that by (simp add: renewal_delay_def jittered_def truncate_rat_def)
  moreover have "0 \<le> renewal_delay ttl f u"
    using d j by (simp add: renewal_delay_def jittered_def truncate_rat_def)
  ultimately show ?thesis using assms(1) d by linarith
qed

lemma heartbeat_beats_the_expiry_witness: "renewal_delay (30 * second) (1 / 10) (1 / 2) < 30 * second"
  using heartbeat_beats_the_expiry [of "30 * second" "1 / 10" "1 / 2"] by (simp add: second_def)

definition backoff_ok :: "claim_backoff \<Rightarrow> bool" where
  "backoff_ok b \<longleftrightarrow> curve_ok (cb_policy b) \<and> 0 \<le> max_retries (cb_policy b) \<and> 0 \<le> cb_jitter b \<and> cb_jitter b < 1
     \<and> (\<forall>i d. cb_rows b i = Some d \<longrightarrow> 0 \<le> dc_attempts d)"

text \<open>A declined claim is not retried before its delay, which jitter keeps around a delay of the
  policy: at least the base and at most the cap, each scaled by the jitter fraction.
\<close>

theorem declined_claims_back_off:
  assumes "backoff_ok b" "0 \<le> u" "u < 1" "backoff_declined b i now u = (delay, b')"
  shows "backoff_ok b'
    \<and> of_int (base_delay (cb_policy b)) * (1 - cb_jitter b) - 1 < of_int delay
    \<and> of_int delay \<le> of_int (max_delay (cb_policy b)) * (1 + cb_jitter b)
    \<and> (\<forall>t. backoff_waiting b' i t \<longleftrightarrow> t < now + delay)
    \<and> (\<forall>j. j \<noteq> i \<longrightarrow> backoff_waiting b' j = backoff_waiting b j)"
proof -
  let ?p = "cb_policy b"
  let ?n = "case cb_rows b i of None \<Rightarrow> 0 | Some d \<Rightarrow> dc_attempts d"
  let ?j = "jitter_factor (cb_jitter b) u"
  let ?c = "calculate_delay ?p (min ?n (max_retries ?p))"
  have delay: "delay = jittered ?c ?j"
    and b': "b' = b\<lparr>cb_rows := (cb_rows b)(i \<mapsto> \<lparr>dc_attempts = ?n + 1, dc_until = now + delay\<rparr>)\<rparr>"
    using assms(4) by (auto simp: backoff_declined_def Let_def)
  have ok: "curve_ok ?p" and n: "0 \<le> min ?n (max_retries ?p)"
    using assms(1) by (auto simp: backoff_ok_def split: option.split)
  note j = jitter_factor_bounds [of "cb_jitter b" u]
  have j': "1 - cb_jitter b \<le> ?j" "?j \<le> 1 + cb_jitter b" "0 < ?j"
    using j assms(1-3) by (auto simp: backoff_ok_def)
  have c: "base_delay ?p \<le> ?c" "?c \<le> max_delay ?p" "0 \<le> base_delay ?p"
    using ok n calculate_delay_ge_base calculate_delay_le_max by (auto simp: curve_ok_def)
  have "(of_int (base_delay ?p) :: rat) * (1 - cb_jitter b) \<le> of_int ?c * ?j"
    using c j' assms(1) by (intro mult_mono) (auto simp: backoff_ok_def)
  moreover have "(of_int ?c :: rat) * ?j \<le> of_int (max_delay ?p) * (1 + cb_jitter b)"
    using c j' by (intro mult_mono) auto
  moreover have "of_int ?c * ?j - 1 < of_int delay" "of_int delay \<le> of_int ?c * ?j"
    unfolding delay using c j' by (auto intro!: jittered_ge jittered_le)
  moreover have "backoff_ok b'"
    using assms(1) by (auto simp: backoff_ok_def b' split: option.splits)
  moreover have "\<forall>t. backoff_waiting b' i t \<longleftrightarrow> t < now + delay"
    "\<forall>j. j \<noteq> i \<longrightarrow> backoff_waiting b' j = backoff_waiting b j"
    by (auto simp: backoff_waiting_def b' fun_eq_iff)
  ultimately show ?thesis by auto
qed

lemma declined_claims_back_off_witness:
  "backoff_waiting (snd (backoff_declined (pl_backoff demo_pool) 5 200 0)) 5 201"
proof -
  let ?b = "pl_backoff demo_pool"
  obtain delay b' where d: "backoff_declined ?b 5 200 0 = (delay, b')" by fastforce
  have "backoff_ok ?b" by (auto simp: backoff_ok_def demo_pool_def curve_ok_def new_default_retry_policy_def second_def)
  from declined_claims_back_off [OF this _ _ d] have
    "of_int (base_delay (cb_policy ?b)) * (1 - cb_jitter ?b) - 1 < (of_int delay :: rat)"
    "backoff_waiting b' 5 201 \<longleftrightarrow> 201 < 200 + delay" by auto
  moreover from this(1) have "second - 1 < delay"
    by (simp add: demo_pool_def new_default_retry_policy_def second_def)
  ultimately show ?thesis using d by (simp add: second_def)
qed

section \<open>The loop that keeps a manager alive\<close>

lemma lost_claims_are_survived:
  "runner_run claimed (Ran (Some Run_Lost) # ls) = runner_run True ls"
  "runner_run claimed (Nothing_To_Run # ls) = runner_run claimed ls"
  by simp_all

text \<open>A manager whose row is suspended while it runs ends its instance without an error, and the
  loop that should wait and claim again takes that for a requested stop: it returns, whatever
  lives would follow, although nobody cancelled it. The same suspension met before a claim is
  waited out.
\<close>

theorem suspension_ends_the_runner:
  assumes "heartbeat beats = Some Run_Suspended"
  shows "runner_run claimed (Ran (manager_result (tick_run p poll attempts ts (heartbeat beats)) None) # ls)
           = (None, ls)
    \<and> runner_run claimed (Nothing_To_Run # ls) = runner_run claimed ls"
  using assms by (simp add: tick_run_def instance_run_def manager_result_def)

lemma suspension_ends_the_runner_witness:
  "runner_run True (Ran (manager_result (tick_run new_default_retry_policy second 0 []
       (heartbeat [Beat_Renewed, Beat_Suspended])) None) # [Ran None]) = (None, [Ran None])"
  using suspension_ends_the_runner [of "[Beat_Renewed, Beat_Suspended]"] by simp

end
