(* ===== verification/Schedule_Expression.thy ===== *)
theory Schedule_Expression
  imports Produce
begin

unbundle bit_operations_syntax

text \<open>
  \<open>pkg/schedule/expression.go\<close> and \<open>pkg/schedule/idempotency_key.go\<close>. A parsed cron expression is
  its \<open>Next\<close> function: the earliest scheduled time strictly after a time, or none (the zero time
  of Go). Parsing it is vendored code and a parameter. Times are nanoseconds since 1970.
\<close>

section \<open>Expressions\<close>

definition minute :: duration where "minute = 60 * second"

definition min_rate_times :: nat where "min_rate_times = 1000"

definition min_rate_horizon :: duration where "min_rate_horizon = 400 * 24 * 60 * minute"

record expression =
  xp_text :: string
  xp_next :: "time \<Rightarrow> time option"
  xp_min_rate :: duration

datatype schedule_error =
    Expression_Invalid string
  | No_Upcoming_Times
  | Recurs_Too_Often
  | Schedule_Not_Found
  | Declaration_Raced
  | Payload_Not_Encodable
  | Schedule_Argument string
  | Timeout_Above_Rate
  | Stored_Concurrency

fun min_rate_loop :: "(time \<Rightarrow> time option) \<Rightarrow> time \<Rightarrow> nat \<Rightarrow> time \<Rightarrow> duration \<Rightarrow> duration" where
  "min_rate_loop nxt horizon 0 previous minimum = minimum"
| "min_rate_loop nxt horizon (Suc n) previous minimum =
     (case nxt previous of
        None \<Rightarrow> minimum
      | Some t \<Rightarrow> if horizon < t then minimum
                else min_rate_loop nxt horizon n t (min minimum (t - previous)))"

definition min_rate :: "(time \<Rightarrow> time option) \<Rightarrow> time \<Rightarrow> schedule_error + duration" where
  "min_rate nxt start =
     (case nxt start of
        None \<Rightarrow> Inl No_Upcoming_Times
      | Some t \<Rightarrow> Inr (min_rate_loop nxt (start + min_rate_horizon) (min_rate_times - 1) t max_int64))"

definition parse_expression ::
  "(string \<Rightarrow> string + (time \<Rightarrow> time option)) \<Rightarrow> time \<Rightarrow> string \<Rightarrow> schedule_error + expression" where
  "parse_expression cron now text =
     (case cron text of
        Inl e \<Rightarrow> Inl (Expression_Invalid e)
      | Inr nxt \<Rightarrow> (case min_rate nxt now of
            Inl e \<Rightarrow> Inl e
          | Inr rate \<Rightarrow> if rate < minute then Inl Recurs_Too_Often
                      else Inr \<lparr>xp_text = text, xp_next = nxt, xp_min_rate = rate\<rparr>))"

section \<open>The idempotency key of a scheduled time\<close>

definition unix_milli :: "time \<Rightarrow> int" where
  "unix_milli t = t div 1000000"

definition byte_of :: "64 word \<Rightarrow> nat \<Rightarrow> byte" where
  "byte_of w k = ucast (drop_bit k w)"

definition idempotency_key :: "time \<Rightarrow> int \<Rightarrow> byte list" where
  "idempotency_key t i =
     (let ms = word_of_int (unix_milli t) :: 64 word;
          id = word_of_int i :: 64 word
      in [byte_of ms 40, byte_of ms 32, byte_of ms 24, byte_of ms 16, byte_of ms 8, byte_of ms 0,
          0x70 OR byte_of id 60, byte_of id 52, 0x80, byte_of id 48 AND 0x0f,
          byte_of id 40, byte_of id 32, byte_of id 24, byte_of id 16, byte_of id 8, byte_of id 0])"

text \<open>What an operator can read back from a key.\<close>

definition key_milli :: "byte list \<Rightarrow> int" where
  "key_milli ks = int (uuid_of_bytes (take 6 ks))"

definition key_schedule :: "byte list \<Rightarrow> int" where
  "key_schedule ks =
     (let b = (\<lambda>k. ucast (ks ! k) :: 64 word) in
      sint (push_bit 60 (b 6 AND 0x0f) OR push_bit 52 (b 7) OR push_bit 48 (b 9)
        OR push_bit 40 (b 10) OR push_bit 32 (b 11) OR push_bit 24 (b 12) OR push_bit 16 (b 13)
        OR push_bit 8 (b 14) OR b 15))"

lemma unat_byte_of: "unat (byte_of w k) = unat w div 2 ^ k mod 256"
  by (simp add: byte_of_def unsigned_ucast_eq take_bit_eq_mod unat_drop_bit_eq
      drop_bit_eq_div [where 'a = nat])

lemma uuid_of_bytes_append:
  "uuid_of_bytes (xs @ ys) = uuid_of_bytes xs * 256 ^ length ys + uuid_of_bytes ys"
proof (induction ys rule: rev_induct)
  case (snoc y ys)
  then show ?case by (simp add: uuid_of_bytes_def algebra_simps flip: append_assoc)
qed (simp add: uuid_of_bytes_def)

lemma uuid_of_bytes_bound: "uuid_of_bytes ks < 256 ^ length ks"
proof (induction ks rule: rev_induct)
  case (snoc k ks)
  have "unat k < 256" using unsigned_less [of k] by simp
  with snoc show ?case by (simp add: uuid_of_bytes_append) (simp add: uuid_of_bytes_def)
qed (simp add: uuid_of_bytes_def)

lemma six_bytes:
  "uuid_of_bytes [byte_of w 40, byte_of w 32, byte_of w 24, byte_of w 16, byte_of w 8, byte_of w 0]
     = unat w mod 2 ^ 48"
proof -
  let ?n = "unat w"
  have step: "?n mod (2 ^ k * 256) = ?n div 2 ^ k mod 256 * 2 ^ k + ?n mod 2 ^ k" for k :: nat
    by (simp add: mod_mult2_eq)
  from step [of 40] step [of 32] step [of 24] step [of 16] step [of 8] show ?thesis
    by (simp add: uuid_of_bytes_def unat_byte_of algebra_simps)
qed

lemma key_schedule_word:
  fixes w :: "64 word"
  shows "push_bit 60 (ucast (0x70 OR byte_of w 60) AND 0x0f) OR push_bit 52 (ucast (byte_of w 52))
    OR push_bit 48 (ucast (byte_of w 48 AND 0x0f)) OR push_bit 40 (ucast (byte_of w 40))
    OR push_bit 32 (ucast (byte_of w 32)) OR push_bit 24 (ucast (byte_of w 24))
    OR push_bit 16 (ucast (byte_of w 16)) OR push_bit 8 (ucast (byte_of w 8)) OR ucast (byte_of w 0) = w"
proof (rule bit_word_eqI)
  fix n assume "n < LENGTH(64)"
  then have "n \<in> {..<64}" by simp
  then show "bit (push_bit 60 ((ucast (0x70 OR byte_of w 60) :: 64 word) AND 0x0f) OR push_bit 52 (ucast (byte_of w 52))
    OR push_bit 48 (ucast (byte_of w 48 AND 0x0f)) OR push_bit 40 (ucast (byte_of w 40))
    OR push_bit 32 (ucast (byte_of w 32)) OR push_bit 24 (ucast (byte_of w 24))
    OR push_bit 16 (ucast (byte_of w 16)) OR push_bit 8 (ucast (byte_of w 8)) OR ucast (byte_of w 0)) n
      = bit w n"
    unfolding byte_of_def
    by (simp add: lessThan_nat_numeral lessThan_Suc)
       (elim disjE; simp add: bit_simps)
qed

lemma unix_milli_word:
  assumes "0 \<le> t" "unix_milli t < 2 ^ 48"
  shows "int (unat (word_of_int (unix_milli t) :: 64 word) mod 2 ^ 48) = unix_milli t"
proof -
  have "0 \<le> unix_milli t" using assms(1) by (simp add: unix_milli_def)
  then have "unat (word_of_int (unix_milli t) :: 64 word) = nat (unix_milli t)"
    using assms(2) by (simp add: unsigned_of_int take_bit_int_eq_self)
  with assms(2) \<open>0 \<le> unix_milli t\<close> show ?thesis by (simp add: nat_less_iff)
qed

definition time_bytes :: "time \<Rightarrow> byte list" where
  "time_bytes t = take 6 (idempotency_key t 0)"

lemma key_split: "take 6 (idempotency_key t i) = time_bytes t" "length (idempotency_key t i) = 16"
  by (simp_all add: idempotency_key_def time_bytes_def Let_def)

lemma time_bytes_milli:
  "0 \<le> t \<Longrightarrow> unix_milli t < 2 ^ 48 \<Longrightarrow> int (uuid_of_bytes (time_bytes t)) = unix_milli t"
  using six_bytes [of "word_of_int (unix_milli t)"] unix_milli_word [of t]
  by (simp add: time_bytes_def idempotency_key_def Let_def)

lemma key_value:
  "uuid_of_bytes (idempotency_key t i)
     = uuid_of_bytes (time_bytes t) * 256 ^ 10 + uuid_of_bytes (drop 6 (idempotency_key t i))"
proof -
  have "idempotency_key t i = time_bytes t @ drop 6 (idempotency_key t i)"
    using append_take_drop_id [of 6 "idempotency_key t i"] by (simp add: key_split)
  then show ?thesis
    using uuid_of_bytes_append [of "time_bytes t" "drop 6 (idempotency_key t i)"] by (simp add: key_split)
qed

lemma key_schedule_id:
  assumes "- (2 ^ 63) \<le> i" "i < 2 ^ 63"
  shows "key_schedule (idempotency_key t i) = i"
  using key_schedule_word [of "word_of_int i"] assms
  by (simp add: key_schedule_def idempotency_key_def Let_def sint_sbintrunc' signed_take_bit_int_eq_self)

text \<open>The idempotency key of a scheduled time is a UUID of version 7 that carries the time and
  the schedule verbatim: both are read back from it, so two schedules never share a key and neither
  do two scheduled times a millisecond apart, and the keys of a later time are larger, as the index
  wants them.\<close>

theorem schedule_key_roundtrip:
  assumes "0 \<le> t" "unix_milli t < 2 ^ 48" "- (2 ^ 63) \<le> i" "i < 2 ^ 63"
  shows "key_milli (idempotency_key t i) = unix_milli t
    \<and> key_schedule (idempotency_key t i) = i
    \<and> length (idempotency_key t i) = 16
    \<and> idempotency_key t i ! 6 AND 0xf0 = 0x70 \<and> idempotency_key t i ! 8 AND 0xc0 = 0x80
    \<and> (\<forall>t' i'. unix_milli t < unix_milli t' \<and> unix_milli t' < 2 ^ 48
          \<longrightarrow> uuid_of_bytes (idempotency_key t i) < uuid_of_bytes (idempotency_key t' i'))"
proof (intro conjI allI impI)
  let ?k = "idempotency_key t i"
  show "key_milli ?k = unix_milli t"
    using time_bytes_milli [OF assms(1,2)] by (simp add: key_milli_def key_split)
  show "key_schedule ?k = i" using assms(3,4) by (rule key_schedule_id)
  show "length ?k = 16" by (rule key_split)
  show "?k ! 6 AND 0xf0 = 0x70"
    by (rule bit_word_eqI) (auto simp: idempotency_key_def Let_def byte_of_def bit_simps less_Suc_eq numeral_eq_Suc)
  show "?k ! 8 AND 0xc0 = 0x80" by (simp add: idempotency_key_def Let_def)
  fix t' i'
  assume later: "unix_milli t < unix_milli t' \<and> unix_milli t' < 2 ^ 48"
  then have "0 \<le> t'" using assms(1) by (simp add: unix_milli_def) (smt (verit) zdiv_mono1)
  then have "uuid_of_bytes (time_bytes t) < uuid_of_bytes (time_bytes t')"
    using time_bytes_milli [of t'] time_bytes_milli [OF assms(1,2)] later by linarith
  then have "uuid_of_bytes (time_bytes t) * 256 ^ 10 + 256 ^ 10 \<le> uuid_of_bytes (time_bytes t') * 256 ^ 10"
    by simp
  moreover have "uuid_of_bytes (drop 6 ?k) < 256 ^ 10"
    using uuid_of_bytes_bound [of "drop 6 ?k"] by (simp add: key_split)
  ultimately show "uuid_of_bytes ?k < uuid_of_bytes (idempotency_key t' i')"
    by (simp add: key_value)
qed

lemma schedule_key_roundtrip_witness:
  "key_milli (idempotency_key (1767225600 * second) 7) = 1767225600000
   \<and> key_schedule (idempotency_key (1767225600 * second) 7) = 7"
  using schedule_key_roundtrip [of "1767225600 * second" 7] by (simp add: unix_milli_def second_def)

end
