(* ===== verification/Schedules.thy ===== *)
theory Schedules
  imports Schedule_Expression Consumer_Groups "HOL-Library.Char_ord"
begin

text \<open>
  Named schedules: \<open>pkg/schedule/controller/datastore\<close> with the checks of
  \<open>pkg/schedule/controller\<close>. A schedule is a config row and a cursor row with its next scheduled
  time; its messages are those of its name in the target stream, and what became of them is read
  back from the delivery log. Documents (payload, metadata) are the text of their normalised jsonb;
  \<open>encode\<close> and \<open>cron\<close> are the marshaller and the cron parser. What other transactions commit
  between two reads of an operation is an argument of it.
\<close>

section \<open>Rows\<close>

record schedule_config =
  sc_id :: int
  sc_system :: int
  sc_stream :: int
  sc_name :: string
  sc_expression :: string
  sc_suspended :: bool
  sc_version :: int
  sc_payload :: string
  sc_concurrency :: concurrency_policy
  sc_timeout :: duration
  sc_metadata :: string
  sc_updated :: time

record schedule_cursor =
  su_schedule :: int
  su_next :: time
  su_last :: "time option"

record schedule_db =
  schedule_configs :: "schedule_config list"
  schedule_cursors :: "schedule_cursor list"
  next_schedule :: int

type_synonym 'a schedule_exec = "(schedule_error + 'a) \<times> schedule_db"

type_synonym schedule_row = "schedule_config \<times> schedule_cursor"

definition config_named :: "string \<Rightarrow> schedule_config \<Rightarrow> bool" where
  "config_named n c \<longleftrightarrow> sc_name c = n"

definition cursor_of_schedule :: "schedule_db \<Rightarrow> int \<Rightarrow> schedule_cursor option" where
  "cursor_of_schedule db i = find (\<lambda>u. su_schedule u = i) (schedule_cursors db)"

text \<open>The join of a config row with its cursor row.\<close>

definition joined :: "schedule_db \<Rightarrow> schedule_config \<Rightarrow> schedule_row option" where
  "joined db c = map_option (\<lambda>u. (c, u)) (cursor_of_schedule db (sc_id c))"

definition get_schedule :: "schedule_db \<Rightarrow> string \<Rightarrow> schedule_row option" where
  "get_schedule db n =
     (case List.map_filter (joined db) (filter (config_named n) (schedule_configs db)) of
        [] \<Rightarrow> None
      | r # _ \<Rightarrow> Some r)"

text \<open>\<open>order\<close> is the place of a name in the collation of the database.\<close>

definition list_schedules :: "(string \<Rightarrow> 'o::linorder) \<Rightarrow> schedule_db \<Rightarrow> schedule_row list" where
  "list_schedules order db =
     sort_key (\<lambda>r. order (sc_name (fst r))) (List.map_filter (joined db) (schedule_configs db))"

section \<open>Suspending, resuming, deleting\<close>

definition suspend_schedule :: "schedule_db \<Rightarrow> string \<Rightarrow> time \<Rightarrow> unit schedule_exec" where
  "suspend_schedule db n now =
     (if rows_matching (config_named n) (schedule_configs db) = 0 then (Inl Schedule_Not_Found, db)
      else (Inr (), db\<lparr>schedule_configs := update_where (config_named n)
              (\<lambda>c. c\<lparr>sc_suspended := True, sc_updated := now\<rparr>) (schedule_configs db)\<rparr>))"

definition next_scheduled_time :: "expression \<Rightarrow> time \<Rightarrow> schedule_error + time" where
  "next_scheduled_time x now =
     (case xp_next x now of None \<Rightarrow> Inl No_Upcoming_Times | Some t \<Rightarrow> Inr t)"

definition set_next :: "int \<Rightarrow> time \<Rightarrow> schedule_cursor list \<Rightarrow> schedule_cursor list" where
  "set_next i t us = update_where (\<lambda>u. su_schedule u = i) (\<lambda>u. u\<lparr>su_next := t\<rparr>) us"

definition unsuspend_schedule ::
  "(string \<Rightarrow> string + (time \<Rightarrow> time option)) \<Rightarrow> (schedule_db \<Rightarrow> schedule_db) \<Rightarrow> schedule_db \<Rightarrow> string
   \<Rightarrow> time \<Rightarrow> time \<Rightarrow> unit schedule_exec" where
  "unsuspend_schedule cron between db n read_at now =
     (case get_schedule db n of
        None \<Rightarrow> (Inl Schedule_Not_Found, db)
      | Some (c, u) \<Rightarrow> (case parse_expression cron read_at (sc_expression c) of
            Inl e \<Rightarrow> (Inl e, db)
          | Inr x \<Rightarrow> (case next_scheduled_time x read_at of
                Inl e \<Rightarrow> (Inl e, db)
              | Inr t \<Rightarrow>
                  (let db1 = between db in
                   if rows_matching (config_named n) (schedule_configs db1) = 0
                   then (Inl Schedule_Not_Found, db1)
                   else (Inr (), db1\<lparr>
                      schedule_configs := update_where (config_named n)
                        (\<lambda>c. c\<lparr>sc_suspended := False, sc_updated := now\<rparr>) (schedule_configs db1),
                      schedule_cursors := set_next (sc_id c) t (schedule_cursors db1)\<rparr>)))))"

text \<open>The cursor row goes with its config row (\<open>ON DELETE CASCADE\<close>).\<close>

definition delete_schedule :: "schedule_db \<Rightarrow> string \<Rightarrow> unit schedule_exec" where
  "delete_schedule db n =
     (if rows_matching (config_named n) (schedule_configs db) = 0 then (Inl Schedule_Not_Found, db)
      else (Inr (), db\<lparr>
         schedule_configs := delete_where (config_named n) (schedule_configs db),
         schedule_cursors := delete_where (\<lambda>u. su_schedule u
             \<in> sc_id ` set (filter (config_named n) (schedule_configs db))) (schedule_cursors db)\<rparr>))"

section \<open>Registering\<close>

record schedule_declaration =
  de_stream :: int
  de_expression :: expression
  de_concurrency :: concurrency_policy
  de_timeout :: duration
  de_version :: int
  de_metadata :: string

definition replace_config ::
  "(schedule_db \<Rightarrow> schedule_db) \<Rightarrow> schedule_db \<Rightarrow> schedule_row \<Rightarrow> schedule_declaration \<Rightarrow> string \<Rightarrow> time \<Rightarrow> time
   \<Rightarrow> schedule_row schedule_exec" where
  "replace_config between db found d payload read_at now =
     (let c = fst found;
          changed = sc_expression c \<noteq> xp_text (de_expression d) in
      case (if changed then map_sum id Some (next_scheduled_time (de_expression d) read_at)
            else Inr None) of
        Inl e \<Rightarrow> (Inl e, db)
      | Inr nxt \<Rightarrow>
          (let db1 = between db;
               p = (\<lambda>r. sc_id r = sc_id c);
               db2 = db1\<lparr>
                 schedule_configs := update_where p
                   (\<lambda>r. r\<lparr>sc_stream := de_stream d, sc_expression := xp_text (de_expression d),
                        sc_version := de_version d, sc_payload := payload,
                        sc_concurrency := de_concurrency d, sc_timeout := de_timeout d,
                        sc_metadata := de_metadata d, sc_updated := now\<rparr>) (schedule_configs db1),
                 schedule_cursors := (case nxt of None \<Rightarrow> schedule_cursors db1
                   | Some t \<Rightarrow> set_next (sc_id c) t (schedule_cursors db1))\<rparr> in
           if rows_matching p (schedule_configs db1) = 0 then (Inl Declaration_Raced, db1)
           else (case get_schedule db2 (sc_name c) of
               None \<Rightarrow> (Inl Declaration_Raced, db1)
             | Some r \<Rightarrow> (Inr r, db2))))"

text \<open>
  The first read has no lock; the advisory lock on the name serialises the rest against other
  registrations, whose commits before it are \<open>between\<close>.
\<close>

definition register_schedule ::
  "(schedule_db \<Rightarrow> schedule_db) \<Rightarrow> (schedule_db \<Rightarrow> schedule_db) \<Rightarrow> schedule_db \<Rightarrow> int \<Rightarrow> string
   \<Rightarrow> schedule_declaration \<Rightarrow> string option \<Rightarrow> time \<Rightarrow> time \<Rightarrow> schedule_row schedule_exec" where
  "register_schedule between between2 db sys n d payload read_at now =
     (case payload of
        None \<Rightarrow> (Inl Payload_Not_Encodable, db)
      | Some doc \<Rightarrow> (case get_schedule db n of
            Some r \<Rightarrow> replace_config between2 db r d doc read_at now
          | None \<Rightarrow>
              (let db1 = between db in
               case get_schedule db1 n of
                 Some r \<Rightarrow> replace_config between2 db1 r d doc read_at now
               | None \<Rightarrow> (case next_scheduled_time (de_expression d) now of
                     Inl e \<Rightarrow> (Inl e, db1)
                   | Inr t \<Rightarrow>
                       (let i = next_schedule db1;
                            c = \<lparr>sc_id = i, sc_system = sys, sc_stream = de_stream d, sc_name = n,
                                 sc_expression = xp_text (de_expression d), sc_suspended = False,
                                 sc_version = de_version d, sc_payload = doc,
                                 sc_concurrency = de_concurrency d, sc_timeout = de_timeout d,
                                 sc_metadata = de_metadata d, sc_updated = now\<rparr>;
                            u = \<lparr>su_schedule = i, su_next = t, su_last = None\<rparr> in
                        (Inr (c, u), db1\<lparr>schedule_configs := schedule_configs db1 @ [c],
                           schedule_cursors := schedule_cursors db1 @ [u],
                           next_schedule := i + 1\<rparr>))))))"

definition slug_char :: "char \<Rightarrow> bool" where
  "slug_char c \<longleftrightarrow> (CHR ''a'' \<le> c \<and> c \<le> CHR ''z'') \<or> (CHR ''0'' \<le> c \<and> c \<le> CHR ''9'')
     \<or> c \<in> {CHR ''.'', CHR ''_'', CHR ''-''}"

definition is_slug :: "string \<Rightarrow> bool" where
  "is_slug n \<longleftrightarrow> n \<noteq> [] \<and> list_all slug_char n"

definition register_schedule_checked ::
  "(string \<Rightarrow> string + (time \<Rightarrow> time option)) \<Rightarrow> (schedule_db \<Rightarrow> schedule_db) \<Rightarrow> (schedule_db \<Rightarrow> schedule_db)
   \<Rightarrow> schedule_db \<Rightarrow> int \<Rightarrow> string \<Rightarrow> string \<Rightarrow> int \<Rightarrow> string option \<Rightarrow> duration \<Rightarrow> concurrency_policy
   \<Rightarrow> int \<Rightarrow> string \<Rightarrow> time \<Rightarrow> time \<Rightarrow> time \<Rightarrow> schedule_row schedule_exec" where
  "register_schedule_checked cron between between2 db sys n text stream payload timeout policy version
       metadata clock read_at now =
     (if sys \<le> 0 then (Inl (Schedule_Argument ''systemId''), db)
      else if \<not> is_slug n then (Inl (Schedule_Argument ''name''), db)
      else if text = '''' then (Inl (Schedule_Argument ''cron''), db)
      else if stream \<le> 0 then (Inl (Schedule_Argument ''streamId''), db)
      else if timeout \<le> 0 then (Inl (Schedule_Argument ''timeout''), db)
      else if \<not> validate_policy policy then (Inl (Schedule_Argument ''concurrency''), db)
      else (case parse_expression cron clock text of
          Inl e \<Rightarrow> (Inl e, db)
        | Inr x \<Rightarrow>
            if xp_min_rate x < timeout then (Inl Timeout_Above_Rate, db)
            else (case register_schedule between between2 db sys n
                    \<lparr>de_stream = stream, de_expression = x, de_concurrency = policy,
                     de_timeout = timeout, de_version = version, de_metadata = metadata\<rparr>
                    payload read_at now of
                (Inl e, db') \<Rightarrow> (Inl e, db')
              | (Inr r, db') \<Rightarrow>
                  if validate_policy (sc_concurrency (fst r)) then (Inr r, db')
                  else (Inl Stored_Concurrency, db'))))"

section \<open>What became of the messages\<close>

definition matching_groups ::
  "(string \<Rightarrow> string \<Rightarrow> bool) \<Rightarrow> (string \<Rightarrow> 'o::linorder) \<Rightarrow> stream_db \<Rightarrow> group_row list \<Rightarrow> int \<Rightarrow> string
   \<Rightarrow> group_row list" where
  "matching_groups rx order db groups stream n =
     sort_key (\<lambda>g. order (gr_name g)) (filter (\<lambda>g. gr_stream g = stream
       \<and> (\<not> (\<exists>b \<in> set (bindings db). bi_group b = gr_id g)
          \<or> (\<exists>b \<in> set (bindings db). bi_group b = gr_id g \<and> rx n (bi_regex b)))) groups)"

record message_outcome =
  mo_succeeded :: bool
  mo_raised :: bool
  mo_deferred :: bool

definition message_outcome_of :: "stream_db \<Rightarrow> int \<Rightarrow> int \<Rightarrow> message_outcome" where
  "message_outcome_of db g i =
     (let rows = filter (\<lambda>r. dl_group r = g \<and> dl_message r = i) (delivery_log db) in
      \<lparr>mo_succeeded = list_ex (\<lambda>r. dl_status r = Log_Success) rows,
       mo_raised = list_ex (\<lambda>r. dl_status r \<in> {Log_Failure, Log_Expired, Log_Killed}) rows,
       mo_deferred = list_ex (\<lambda>r. dl_status r = Log_Deferred) rows\<rparr>)"

definition schedule_head :: "stream_db \<Rightarrow> string \<Rightarrow> int" where
  "schedule_head db n = (case head_message db (Some n) of None \<Rightarrow> 0 | Some i \<Rightarrow> i)"

record group_summary =
  gs_group :: string
  gs_ran :: nat
  gs_succeeded :: nat
  gs_superseded :: nat
  gs_failed :: nat

fun summarise :: "int \<Rightarrow> (int \<Rightarrow> message_outcome) \<Rightarrow> int list \<Rightarrow> group_summary \<Rightarrow> group_summary" where
  "summarise h out [] s = s"
| "summarise h out (i # is) s =
     summarise h out is
       (if mo_succeeded (out i) then s\<lparr>gs_ran := gs_ran s + 1, gs_succeeded := gs_succeeded s + 1\<rparr>
        else if mo_raised (out i) then s\<lparr>gs_ran := gs_ran s + 1, gs_failed := gs_failed s + 1\<rparr>
        else if i \<noteq> h then s\<lparr>gs_superseded := gs_superseded s + 1\<rparr>
        else s)"

definition schedule_status ::
  "(string \<Rightarrow> string \<Rightarrow> bool) \<Rightarrow> (string \<Rightarrow> 'o::linorder) \<Rightarrow> stream_db \<Rightarrow> group_row list \<Rightarrow> int \<Rightarrow> string
   \<Rightarrow> group_summary list" where
  "schedule_status rx order db groups stream n =
     map (\<lambda>g. summarise (schedule_head db n) (message_outcome_of db (gr_id g))
           (map msg_id (filter (\<lambda>m. msg_key m = Some n) (message_log db)))
           \<lparr>gs_group = gr_name g, gs_ran = 0, gs_succeeded = 0, gs_superseded = 0, gs_failed = 0\<rparr>)
       (matching_groups rx order db groups stream n)"

datatype schedule_outcome = Was_Succeeded | Was_Failed | Was_Superseded | Was_Deferred | Was_Pending

record message_status =
  ms_group :: string
  ms_message :: int
  ms_scheduled_at :: time
  ms_produced_at :: time
  ms_outcome :: schedule_outcome
  ms_superseded_by :: "int option"
  ms_superseded_at :: "time option"

definition outcome_of :: "bool \<Rightarrow> message_outcome \<Rightarrow> schedule_outcome" where
  "outcome_of head out =
     (if mo_succeeded out then Was_Succeeded
      else if mo_raised out then Was_Failed
      else if \<not> head then Was_Superseded
      else if mo_deferred out then Was_Deferred
      else Was_Pending)"

record key_message =
  km_id :: int
  km_scheduled_at :: time
  km_created_at :: time

text \<open>
  \<open>keyMessages\<close>: the newest messages of the key, newest first. A message without a scheduled time,
  one that the schedule did not write, cannot be scanned and fails the read.
\<close>

definition newest_messages :: "stream_db \<Rightarrow> string \<Rightarrow> int \<Rightarrow> message_row list" where
  "newest_messages db n limit =
     limit_rows limit (rev (sort_key msg_id (filter (\<lambda>m. msg_key m = Some n) (message_log db))))"

definition scan_key_message :: "message_row \<Rightarrow> key_message option" where
  "scan_key_message m = (case Option.bind (msg_options m) mo_scheduled_at of
     None \<Rightarrow> None
   | Some t \<Rightarrow> Some \<lparr>km_id = msg_id m, km_scheduled_at = t, km_created_at = msg_created_at m\<rparr>)"

fun scan_all :: "('a \<Rightarrow> 'b option) \<Rightarrow> 'a list \<Rightarrow> 'b list option" where
  "scan_all scan [] = Some []"
| "scan_all scan (r # rs) = (case scan r of
     None \<Rightarrow> None
   | Some x \<Rightarrow> (case scan_all scan rs of None \<Rightarrow> None | Some xs \<Rightarrow> Some (x # xs)))"

definition key_messages :: "stream_db \<Rightarrow> string \<Rightarrow> int \<Rightarrow> key_message list option" where
  "key_messages db n limit = scan_all scan_key_message (newest_messages db n limit)"

text \<open>
  \<open>groupMessageStatuses\<close> and \<open>toScheduleMessageStatus\<close>; \<open>newer\<close> is the message before it in the
  list, which replaced it if it was superseded.
\<close>

fun group_statuses ::
  "string \<Rightarrow> int \<Rightarrow> (int \<Rightarrow> message_outcome) \<Rightarrow> key_message option \<Rightarrow> key_message list \<Rightarrow> message_status list"
where
  "group_statuses g h out newer [] = []"
| "group_statuses g h out newer (m # ms) =
     (let res = outcome_of (km_id m = h) (out (km_id m));
          by = (if res = Was_Superseded then newer else None) in
      \<lparr>ms_group = g, ms_message = km_id m, ms_scheduled_at = km_scheduled_at m,
       ms_produced_at = km_created_at m, ms_outcome = res,
       ms_superseded_by = map_option km_id by, ms_superseded_at = map_option km_created_at by\<rparr>
      # group_statuses g h out (Some m) ms)"

text \<open>\<open>sort.Slice\<close> by message, newest first, and by group within a message.\<close>

definition list_schedule_messages ::
  "(string \<Rightarrow> string \<Rightarrow> bool) \<Rightarrow> (string \<Rightarrow> 'o::linorder) \<Rightarrow> (string \<Rightarrow> 'p::linorder) \<Rightarrow> stream_db
   \<Rightarrow> group_row list \<Rightarrow> int \<Rightarrow> string \<Rightarrow> int \<Rightarrow> message_status list option" where
  "list_schedule_messages rx order bytes db groups stream n limit =
     (case key_messages db n limit of
        None \<Rightarrow> None
      | Some ms \<Rightarrow> Some (sort_key (\<lambda>r. - ms_message r) (sort_key (\<lambda>r. bytes (ms_group r))
          (concat (map (\<lambda>g. group_statuses (gr_name g) (schedule_head db n) (message_outcome_of db (gr_id g)) None ms)
            (matching_groups rx order db groups stream n))))))"

end
