(* ===== verification/Schedule_Producer.thy ===== *)
theory Schedule_Producer
  imports Schedules Produce_In_Tx
begin

text \<open>
  The schedule producer: \<open>pkg/schedule/producer/controller/datastore/schedule.go\<close> and
  \<open>pkg/schedule/producer/instance.go\<close>. One pass lists the due schedules without a lock and then
  gives each a transaction: it claims the row again under its lock, appends the message of the
  newest due time to the target stream (\<open>append_in_tx_checked\<close>) and moves the cursor past the clock
  of the database. A search that does not end is \<open>None\<close>.
\<close>

section \<open>The datastore\<close>

definition is_due :: "time \<Rightarrow> schedule_row \<Rightarrow> bool" where
  "is_due now r \<longleftrightarrow> su_next (snd r) \<le> now \<and> \<not> sc_suspended (fst r)"

definition list_due :: "schedule_db \<Rightarrow> time \<Rightarrow> int list" where
  "list_due db now =
     map (\<lambda>r. sc_id (fst r)) (sort_key (\<lambda>r. su_next (snd r))
       (filter (is_due now) (List.map_filter (joined db) (schedule_configs db))))"

text \<open>
  \<open>FOR UPDATE SKIP LOCKED\<close> locks the rows of all three tables of the join; \<open>locked\<close> says whether
  another transaction holds one of them.
\<close>

definition claim_due ::
  "(int \<rightharpoonup> string) \<Rightarrow> bool \<Rightarrow> schedule_db \<Rightarrow> int \<Rightarrow> time \<Rightarrow> (schedule_row \<times> string) option" where
  "claim_due streams locked db i now =
     (case find (\<lambda>c. sc_id c = i) (schedule_configs db) of
        None \<Rightarrow> None
      | Some c \<Rightarrow> (case (joined db c, streams (sc_stream c)) of
            (Some r, Some n) \<Rightarrow> if is_due now r \<and> \<not> locked then Some (r, n) else None
          | _ \<Rightarrow> None))"

definition advance_schedule :: "schedule_db \<Rightarrow> int \<Rightarrow> time \<Rightarrow> time \<Rightarrow> schedule_db" where
  "advance_schedule db i nxt produced =
     db\<lparr>schedule_cursors := update_where (\<lambda>u. su_schedule u = i)
          (\<lambda>u. u\<lparr>su_next := nxt, su_last := Some produced\<rparr>) (schedule_cursors db)\<rparr>"

definition suspend_produced :: "schedule_db \<Rightarrow> int \<Rightarrow> time \<Rightarrow> time \<Rightarrow> schedule_db" where
  "suspend_produced db i produced now =
     db\<lparr>schedule_configs := update_where (\<lambda>c. sc_id c = i)
          (\<lambda>c. c\<lparr>sc_suspended := True, sc_updated := now\<rparr>) (schedule_configs db),
        schedule_cursors := update_where (\<lambda>u. su_schedule u = i)
          (\<lambda>u. u\<lparr>su_last := Some produced\<rparr>) (schedule_cursors db)\<rparr>"

section \<open>The newest due time\<close>

partial_function (option) newest_due :: "(time \<Rightarrow> time option) \<Rightarrow> time \<Rightarrow> time \<Rightarrow> time option" where
  "newest_due nxt now s =
     (case nxt s of
        None \<Rightarrow> Some s
      | Some t \<Rightarrow> if now < t then Some s else newest_due nxt now t)"

declare newest_due.simps [code]

section \<open>One due schedule\<close>

record schedule_world =
  sw_schedules :: schedule_db
  sw_streams :: "int \<rightharpoonup> string"
  sw_targets :: "string \<Rightarrow> produce_state"

record due_env =
  dn_cron :: "string \<Rightarrow> string + (time \<Rightarrow> time option)"
  dn_clock :: time
  dn_now :: time
  dn_locked :: bool
  dn_register :: "string \<Rightarrow> wire_error + int"
  dn_render :: "byte list \<Rightarrow> string"
  dn_psize :: int
  dn_policy :: retry_policy
  dn_script :: "nat \<Rightarrow> turn"
  dn_begin :: "wire_error option"
  dn_commit :: commit_fate

datatype due_error =
    Due_Argument
  | Due_Expression schedule_error
  | Due_Stored string
  | Due_Target wire_error
  | Due_Append append_error
  | Due_Transaction wire_error

datatype due_result = Not_Due | Produced time bool

definition new_stored_message :: "string \<Rightarrow> int \<Rightarrow> string + producer_message" where
  "new_stored_message payload version =
     (if payload = '''' then Inl ''payload''
      else if version \<le> 0 then Inl ''version''
      else Inr \<lparr>pm_encoded = Some payload, pm_version = version\<rparr>)"

definition due_key :: "time \<Rightarrow> int \<Rightarrow> uuid" where
  "due_key t i = uuid_of_bytes (idempotency_key t i)"

definition due_options :: "(byte list \<Rightarrow> string) \<Rightarrow> schedule_config \<Rightarrow> time \<Rightarrow> produce_options" where
  "due_options render c t =
     \<lparr>po_routing_key = sc_name c, po_message_key = sc_name c,
      po_compaction = Some \<lparr>co_enable = True, co_rank = 0\<rparr>,
      po_idempotency_key = render (idempotency_key t (sc_id c)),
      po_message = Some \<lparr>mo_concurrency = sc_concurrency c, mo_timeout = sc_timeout c,
        mo_retry = None, mo_scheduled_at = Some t\<rparr>\<rparr>"

text \<open>\<open>after_produce\<close>: the cursor moves past the clock of the transaction, or the row is suspended.\<close>

definition after_produce :: "expression \<Rightarrow> schedule_db \<Rightarrow> int \<Rightarrow> time \<Rightarrow> time \<Rightarrow> schedule_db" where
  "after_produce x db i t now =
     (case xp_next x now of
        None \<Rightarrow> suspend_produced db i t now
      | Some n \<Rightarrow> advance_schedule db i n t)"

definition produce_body ::
  "due_env \<Rightarrow> int \<Rightarrow> schedule_world \<Rightarrow> ((due_error + due_result) \<times> schedule_world) option" where
  "produce_body env i s =
     (if i \<le> 0 then Some (Inl Due_Argument, s)
      else (case claim_due (sw_streams s) (dn_locked env) (sw_schedules s) i (dn_now env) of
        None \<Rightarrow> Some (Inr Not_Due, s)
      | Some ((c, u), target) \<Rightarrow>
          (case parse_expression (dn_cron env) (dn_clock env) (sc_expression c) of
             Inl e \<Rightarrow> Some (Inl (Due_Expression e), s)
           | Inr x \<Rightarrow> (case newest_due (xp_next x) (dn_now env) (su_next u) of
               None \<Rightarrow> None
             | Some t \<Rightarrow> (case new_stored_message (sc_payload c) (sc_version c) of
                 Inl e \<Rightarrow> Some (Inl (Due_Stored e), s)
               | Inr m \<Rightarrow> (case dn_register env target of
                   Inl e \<Rightarrow> Some (Inl (Due_Target e), s)
                 | Inr stream \<Rightarrow>
                     (case append_in_tx_checked (dn_script env) False (dn_policy env) stream (dn_psize env)
                             (due_key t (sc_id c)) (\<lambda>_. Inr m) (due_options (dn_render env) c t)
                             (sw_targets s target) of
                        (Inl e, ps) \<Rightarrow>
                          Some (Inl (Due_Append e), s\<lparr>sw_targets := (sw_targets s)(target := ps)\<rparr>)
                      | (Inr a, ps) \<Rightarrow> Some (Inr (Produced t (ad_duplicate a)),
                          s\<lparr>sw_targets := (sw_targets s)(target := ps),
                            sw_schedules := after_produce x (sw_schedules s) (sc_id c) t (dn_now env)\<rparr>))))))))"

text \<open>A transaction that ends badly takes the rows back, not the drawn ids.\<close>

definition rolled_back :: "schedule_world \<Rightarrow> schedule_world \<Rightarrow> schedule_world" where
  "rolled_back s s' = s'\<lparr>sw_schedules := sw_schedules s,
     sw_targets := (\<lambda>n. (sw_targets s' n)\<lparr>ps_db := ps_db (sw_targets s n)\<rparr>)\<rparr>"

definition produce_due ::
  "due_env \<Rightarrow> int \<Rightarrow> schedule_world \<Rightarrow> ((due_error + due_result) \<times> schedule_world) option" where
  "produce_due env i s =
     (case dn_begin env of
        Some e \<Rightarrow> Some (Inl (Due_Transaction e), s)
      | None \<Rightarrow> (case produce_body env i s of
            None \<Rightarrow> None
          | Some (Inl e, s') \<Rightarrow> Some (Inl e, rolled_back s s')
          | Some (Inr r, s') \<Rightarrow> Some (case dn_commit env of
                Commit_Ok \<Rightarrow> (Inr r, s')
              | Commit_Lost e \<Rightarrow> (Inl (Due_Transaction e), rolled_back s s')
              | Commit_Unknown e \<Rightarrow> (Inl (Due_Transaction e), s'))))"

section \<open>A pass\<close>

text \<open>
  \<open>scan\<close>: the errors of one schedule are logged and its siblings proceed, unless the context is
  done. Each transaction has an environment of its own.
\<close>

fun scan_each ::
  "(int \<Rightarrow> due_env) \<Rightarrow> (int \<Rightarrow> bool) \<Rightarrow> int list \<Rightarrow> schedule_world \<Rightarrow> (due_error option \<times> schedule_world) option"
where
  "scan_each env canceled [] s = Some (None, s)"
| "scan_each env canceled (i # is) s =
     (case produce_due (env i) i s of
        None \<Rightarrow> None
      | Some (Inl e, s') \<Rightarrow> if canceled i then Some (Some e, s') else scan_each env canceled is s'
      | Some (Inr r, s') \<Rightarrow> scan_each env canceled is s')"

definition scan_schedules ::
  "(int \<Rightarrow> due_env) \<Rightarrow> (int \<Rightarrow> bool) \<Rightarrow> time \<Rightarrow> schedule_world \<Rightarrow> (due_error option \<times> schedule_world) option" where
  "scan_schedules env canceled now s = scan_each env canceled (list_due (sw_schedules s) now) s"

end
