(* ===== verification/Schedule_Properties.thy ===== *)
theory Schedule_Properties
  imports Schedule_Producer Batcher_Properties
begin

text \<open>
  What the schedule producer guarantees: which time it produces a message for, what its transaction
  does to the schedule and to the target stream, that no scheduled time is produced twice, and that
  the two reports on a schedule's messages agree.
\<close>

section \<open>The search for the newest due time\<close>

text \<open>\<open>Next\<close> of a cron expression: the earliest activation strictly after a time.\<close>

definition earliest_after :: "(time \<Rightarrow> bool) \<Rightarrow> (time \<Rightarrow> time option) \<Rightarrow> bool" where
  "earliest_after act nxt \<longleftrightarrow>
     (\<forall>t. case nxt t of
        None \<Rightarrow> \<forall>a. t < a \<longrightarrow> \<not> act a
      | Some n \<Rightarrow> t < n \<and> act n \<and> (\<forall>a. t < a \<longrightarrow> act a \<longrightarrow> n \<le> a))"

lemma newest_due_total:
  assumes strict: "\<And>t n. nxt t = Some n \<Longrightarrow> t < n"
  shows "\<exists>r. newest_due nxt now s = Some r \<and> s \<le> r \<and> (s \<le> now \<longrightarrow> r \<le> now)
    \<and> (\<forall>n. nxt r = Some n \<longrightarrow> now < n) \<and> (\<forall>act. earliest_after act nxt \<longrightarrow> act s \<longrightarrow> act r)"
proof (induction "nat (now - s)" arbitrary: s rule: less_induct)
  case less
  show ?case
  proof (cases "nxt s")
    case None
    then show ?thesis by (subst newest_due.simps) simp
  next
    case (Some t)
    show ?thesis
    proof (cases "now < t")
      case True
      with Some show ?thesis by (subst newest_due.simps) simp
    next
      case False
      with Some strict have t: "s < t" "t \<le> now" by auto
      then obtain r where r: "newest_due nxt now t = Some r" "t \<le> r" "r \<le> now"
        "\<forall>n. nxt r = Some n \<longrightarrow> now < n" "\<forall>act. earliest_after act nxt \<longrightarrow> act t \<longrightarrow> act r"
        using less [of t] by auto
      moreover have "newest_due nxt now s = Some r"
        using r(1) Some False by (subst newest_due.simps) simp
      moreover have "act t" if "earliest_after act nxt" for act
        using that Some by (auto simp: earliest_after_def split: option.splits)
      ultimately show ?thesis using t by (intro exI [of _ r]) auto
    qed
  qed
qed

text \<open>The search for the scheduled time to produce ends whenever \<open>Next\<close> moves forward, and ends
  at a time that is due, not before the one the cursor names, with no further scheduled time up to
  the clock: for a cron expression, the newest activation that is due. After any downtime one message
  is produced, for that time, and the older ones are dropped.\<close>

theorem newest_due_time_is_found:
  assumes "\<forall>t n. nxt t = Some n \<longrightarrow> t < n" "s \<le> now"
  shows "\<exists>r. newest_due nxt now s = Some r \<and> s \<le> r \<and> r \<le> now
    \<and> (\<forall>n. nxt r = Some n \<longrightarrow> now < n)
    \<and> (\<forall>act. earliest_after act nxt \<and> act s \<longrightarrow> act r \<and> (\<forall>a. act a \<longrightarrow> a \<le> now \<longrightarrow> a \<le> r))"
proof -
  obtain r where r: "newest_due nxt now s = Some r" "s \<le> r" "r \<le> now"
    "\<forall>n. nxt r = Some n \<longrightarrow> now < n" "\<forall>act. earliest_after act nxt \<longrightarrow> act s \<longrightarrow> act r"
    using newest_due_total [of nxt now s] assms by blast
  have "a \<le> r" if e: "earliest_after act nxt" and a: "act a" "a \<le> now" for act a
  proof (cases "nxt r")
    case None
    then show ?thesis using e [unfolded earliest_after_def, THEN spec [where x = r]] a by force
  next
    case (Some n)
    then have "\<forall>a. r < a \<longrightarrow> act a \<longrightarrow> n \<le> a" and "now < n"
      using e [unfolded earliest_after_def, THEN spec [where x = r]] r(4) by auto
    then show ?thesis using a by (metis leD leI order_less_le_trans)
  qed
  with r show ?thesis by blast
qed

definition every_minute :: "time \<Rightarrow> time option" where
  "every_minute t = Some ((t div minute + 1) * minute)"

lemma every_minute_later: "every_minute t = Some n \<Longrightarrow> t < n"
  using pos_mod_bound [of minute t] div_mult_mod_eq [of t minute]
  by (auto simp: every_minute_def minute_def second_def algebra_simps)

lemma newest_due_time_is_found_witness:
  "newest_due every_minute (5 * minute + 7) (2 * minute) = Some (5 * minute)"
proof -
  obtain r where r: "newest_due every_minute (5 * minute + 7) (2 * minute) = Some r"
    "r \<le> 5 * minute + 7" "\<forall>n. every_minute r = Some n \<longrightarrow> 5 * minute + 7 < n"
    using newest_due_time_is_found [of every_minute "2 * minute" "5 * minute + 7"] every_minute_later
    by (auto simp: minute_def second_def)
  have "newest_due every_minute (5 * minute + 7) (2 * minute) = Some (5 * minute)" by code_simp
  then show ?thesis using r(1) by simp
qed

section \<open>The append in the transaction\<close>

definition calm :: "(nat \<Rightarrow> turn) \<Rightarrow> bool" where
  "calm script \<longleftrightarrow> (\<forall>k s. ps_db (tn_others (script k) s) = ps_db s)"

lemma covered_success_from:
  assumes ins: "\<And>s ie s1. P s \<Longrightarrow> ins s = (Inl ie, s1) \<Longrightarrow> P s1" and heal: "\<And>s. P s \<Longrightarrow> P (snd (heal s))"
    and "P s" "insert_until_covered ins heal heals s = (Inr a, s')"
  shows "\<exists>u. P u \<and> ins u = (Inr a, s')"
  using assms(3,4)
proof (induction heals arbitrary: s)
  case 0
  then show ?case
    by (subst (asm) insert_until_covered.simps) (auto split: sum.splits prod.splits if_splits)
next
  case (Suc heals)
  obtain r s1 where r: "ins s = (r, s1)" by fastforce
  obtain q s2 where q: "heal s1 = (q, s2)" by fastforce
  have s1: "P s1" if "r = Inl x" for x using ins [OF Suc.prems(1)] r that by simp
  then have s2: "P s2" if "r = Inl x" for x using heal [of s1] q that by simp
  show ?case
    using Suc.prems r q s1 s2 Suc.IH [of s2]
    by (subst (asm) insert_until_covered.simps) (auto split: sum.splits prod.splits if_splits)
qed

lemma append_in_tx_success:
  assumes "calm script" and "append_message_in_tx script held p psize func a s = (Inr ad, s')"
  shows "(ad_duplicate ad \<and> ap_key a \<in> claimed_keys s \<and> ps_db s' = ps_db s)
    \<or> (\<not> ad_duplicate ad \<and> ap_key a \<notin> claimed_keys s \<and> claimed_keys s' = insert (ap_key a) (claimed_keys s)
       \<and> (\<exists>i enc q t n. func n = Inr q \<and> pm_encoded q = Some enc
            \<and> message_log (ps_db s') = message_log (ps_db s) @ [new_message i enc q a t]))"
proof -
  obtain u where u: "ps_db u = ps_db s" "run_insert_savepoint script psize func a u = (Inr ad, s')"
    using covered_success_from [of "\<lambda>u. ps_db u = ps_db s", OF _ _ _ assms(2) [unfolded append_message_in_tx_def]]
      assms(1) savepoint_failure partition_from_tx_keeps_db unfolding calm_def by metis
  from savepoint_success [OF u(2)] obtain t s0 where
    t: "next_turn script u = (t, s0)" "run_insert psize func a t s0 = (Inr ad, s')" .
  have s0: "ps_db s0 = ps_db s" using t(1) u(1) assms(1) by (auto simp: next_turn_def Let_def calm_def)
  from run_insert_success [OF t(2)] obtain p' oi where
    p': "func (ps_turn s0) = Inr p'" "protected_insert psize t p' a s0 = (Inr oi, s')" "ad = to_appended p' oi" .
  from p'(2,1,3) s0 show ?thesis
    by (cases rule: protected_insert_cases [of psize t p' a s0])
       (auto simp: to_appended_def)
qed

text \<open>The message a schedule's transaction writes.\<close>

definition schedule_message :: "schedule_config \<Rightarrow> time \<Rightarrow> message_row \<Rightarrow> bool" where
  "schedule_message c t m \<longleftrightarrow> msg_key m = Some (sc_name c) \<and> msg_routing_key m = nullif (sc_name c)
     \<and> msg_payload m = sc_payload c \<and> msg_schema_version m = sc_version c
     \<and> msg_options m = Some \<lparr>mo_concurrency = sc_concurrency c, mo_timeout = sc_timeout c,
         mo_retry = None, mo_scheduled_at = Some t\<rparr>"

definition same_rows :: "schedule_world \<Rightarrow> schedule_world \<Rightarrow> bool" where
  "same_rows s s' \<longleftrightarrow> sw_schedules s' = sw_schedules s
     \<and> (\<forall>n. ps_db (sw_targets s' n) = ps_db (sw_targets s n))"

lemma same_rows_refl [simp]: "same_rows s s" by (simp add: same_rows_def)

lemma same_rows_rolled_back [simp]: "same_rows s (rolled_back s s')"
  by (simp add: same_rows_def rolled_back_def)

text \<open>What the transaction leaves of the target: the claim and the message, or nothing new.\<close>

definition target_gets :: "uuid \<Rightarrow> schedule_config \<Rightarrow> time \<Rightarrow> produce_state \<Rightarrow> produce_state \<Rightarrow> bool \<Rightarrow> bool" where
  "target_gets key c t ps ps' dup \<longleftrightarrow>
     (if dup then key \<in> claimed_keys ps \<and> ps_db ps' = ps_db ps
      else key \<notin> claimed_keys ps \<and> claimed_keys ps' = insert key (claimed_keys ps)
        \<and> (\<exists>m. schedule_message c t m \<and> message_log (ps_db ps') = message_log (ps_db ps) @ [m]))"

lemma append_schedule_message:
  assumes "calm script" "new_stored_message (sc_payload c) (sc_version c) = Inr m"
    and "append_in_tx_checked script held p stream psize key (\<lambda>_. Inr m) (due_options render c t) ps = (Inr a, ps')"
  shows "target_gets key c t ps ps' (ad_duplicate a)"
proof -
  let ?a = "to_append key None (due_options render c t)"
  have "append_message_in_tx script held p psize (\<lambda>_. Inr m) ?a ps = (Inr a, ps')"
    using assms(3) by (auto simp: append_in_tx_checked_def split: if_splits option.splits sum.splits prod.splits)
  from append_in_tx_success [OF assms(1) this] show ?thesis
    using assms(2)
    by (auto simp: target_gets_def schedule_message_def new_message_def to_append_def due_options_def
        compaction_enabled_def new_stored_message_def split: if_splits)
qed

section \<open>One transaction of the schedule producer\<close>

lemma claim_due_config:
  assumes "claim_due streams locked db i now = Some ((c, u), target)"
  shows "sc_id c = i" "joined db c = Some (c, u)" "is_due now (c, u)" "streams (sc_stream c) = Some target"
    "find (\<lambda>c. sc_id c = i) (schedule_configs db) = Some c"
  using assms
  by (auto simp: claim_due_def joined_def find_Some_iff split: option.splits if_splits)

definition committed_due ::
  "due_env \<Rightarrow> int \<Rightarrow> schedule_world \<Rightarrow> schedule_world \<Rightarrow> schedule_config \<Rightarrow> string \<Rightarrow> time \<Rightarrow> bool \<Rightarrow> bool" where
  "committed_due env i s s' c target t dup \<longleftrightarrow>
     (\<exists>u x. claim_due (sw_streams s) (dn_locked env) (sw_schedules s) i (dn_now env) = Some ((c, u), target)
        \<and> parse_expression (dn_cron env) (dn_clock env) (sc_expression c) = Inr x
        \<and> newest_due (xp_next x) (dn_now env) (su_next u) = Some t
        \<and> sw_schedules s' = after_produce x (sw_schedules s) i t (dn_now env))
     \<and> target_gets (due_key t i) c t (sw_targets s target) (sw_targets s' target) dup
     \<and> (\<forall>n. n \<noteq> target \<longrightarrow> sw_targets s' n = sw_targets s n) \<and> sw_streams s' = sw_streams s"

lemma produce_body_cases:
  assumes "calm (dn_script env)" "produce_body env i s = Some (Inr res, s')"
  obtains "res = Not_Due" "s' = s"
  | c target t dup where "res = Produced t dup" "committed_due env i s s' c target t dup"
proof (cases "claim_due (sw_streams s) (dn_locked env) (sw_schedules s) i (dn_now env)")
  case None
  then show ?thesis using assms(2) that(1) by (auto simp: produce_body_def split: if_splits)
next
  case (Some r)
  obtain c u target where r: "r = ((c, u), target)" by (metis surj_pair)
  from Some r have [simp]: "sc_id c = i" by (auto dest: claim_due_config)
  from assms(2) Some r obtain x t m stream a ps where
    x: "parse_expression (dn_cron env) (dn_clock env) (sc_expression c) = Inr x"
      "newest_due (xp_next x) (dn_now env) (su_next u) = Some t"
      "new_stored_message (sc_payload c) (sc_version c) = Inr m"
    and a: "append_in_tx_checked (dn_script env) False (dn_policy env) stream (dn_psize env)
             (due_key t i) (\<lambda>_. Inr m) (due_options (dn_render env) c t) (sw_targets s target) = (Inr a, ps)"
    and s': "res = Produced t (ad_duplicate a)"
      "s' = s\<lparr>sw_targets := (sw_targets s)(target := ps),
              sw_schedules := after_produce x (sw_schedules s) i t (dn_now env)\<rparr>"
    by (auto simp: produce_body_def split: if_splits sum.splits option.splits prod.splits)
  show ?thesis
    using append_schedule_message [OF assms(1) x(3) a] x Some r s'
    by (intro that(2) [of t "ad_duplicate a" c target]) (auto simp: committed_due_def)
qed

lemma produce_due_effect:
  assumes "calm (dn_script env)" "produce_due env i s = Some (res, s')"
  obtains "same_rows s s'" "\<forall>t d. res \<noteq> Inr (Produced t d)"
  | c target t dup where "committed_due env i s s' c target t dup"
      "res = Inr (Produced t dup) \<or> (\<exists>e. dn_commit env = Commit_Unknown e \<and> res = Inl (Due_Transaction e))"
proof (cases "produce_body env i s")
  case None
  then show ?thesis using assms(2) that(1) by (auto simp: produce_due_def split: option.splits)
next
  case (Some r)
  obtain q s1 where r: "r = (q, s1)" by fastforce
  show ?thesis
  proof (cases q)
    case (Inl e)
    then show ?thesis using assms(2) Some r that(1) by (auto simp: produce_due_def split: option.splits)
  next
    case (Inr w)
    from Some r Inr have body: "produce_body env i s = Some (Inr w, s1)" by simp
    from produce_body_cases [OF assms(1) body] show ?thesis
    proof cases
      case 1
      then show ?thesis using assms(2) body that(1)
        by (auto simp: produce_due_def split: option.splits commit_fate.splits)
    next
      case (2 c target t dup)
      then show ?thesis using assms(2) body that
        by (auto simp: produce_due_def split: option.splits commit_fate.splits)
    qed
  qed
qed

lemma after_produce_config:
  "find (\<lambda>c. sc_id c = j) (schedule_configs (after_produce x db i t now)) =
     map_option (if j = i \<and> xp_next x now = None then \<lambda>c. c\<lparr>sc_suspended := True, sc_updated := now\<rparr> else id)
       (find (\<lambda>c. sc_id c = j) (schedule_configs db))"
  by (cases "xp_next x now")
    (simp_all add: after_produce_def advance_schedule_def suspend_produced_def find_update_key option.map_id)

lemma after_produce_cursor:
  "cursor_of_schedule (after_produce x db i t now) j =
     map_option (if j = i then (case xp_next x now of None \<Rightarrow> \<lambda>u. u\<lparr>su_last := Some t\<rparr>
         | Some n \<Rightarrow> \<lambda>u. u\<lparr>su_next := n, su_last := Some t\<rparr>) else id) (cursor_of_schedule db j)"
  by (cases "xp_next x now")
    (simp_all add: cursor_of_schedule_def after_produce_def advance_schedule_def suspend_produced_def
      find_update_key)

lemma after_produce_others:
  assumes "j \<noteq> i"
  shows "claim_due streams locked (after_produce x db i t now) j now' = claim_due streams locked db j now'"
proof (cases "find (\<lambda>c. sc_id c = j) (schedule_configs db)")
  case (Some c)
  then have "sc_id c = j" by (auto simp: find_Some_iff)
  with Some assms show ?thesis
    by (simp add: claim_due_def after_produce_config joined_def after_produce_cursor option.map_id)
qed (simp add: claim_due_def after_produce_config)

lemma after_produce_not_due:
  assumes "\<And>n. xp_next x now = Some n \<Longrightarrow> now < n"
  shows "claim_due streams locked (after_produce x db i t now) i now = None"
proof (cases "find (\<lambda>c. sc_id c = i) (schedule_configs db)")
  case (Some c)
  then have "sc_id c = i" by (auto simp: find_Some_iff)
  with Some assms show ?thesis
    by (cases "cursor_of_schedule db i"; cases "xp_next x now"; cases "streams (sc_stream c)")
      (simp_all add: claim_due_def after_produce_config joined_def after_produce_cursor is_due_def linorder_not_le)
qed (simp add: claim_due_def after_produce_config)

text \<open>C17: The transaction of a due schedule is all or nothing, and what it commits is one message
  and a cursor that has moved on: either no row changes, or the schedule was due and not suspended,
  its target stream holds exactly one message more, with the name, payload and options of the schedule
  and its newest due time, or none when the time was already claimed, and the schedule is not due any
  more at the clock of the transaction. Neither another schedule nor another stream is touched. A
  commit whose confirmation is lost may be either.\<close>

theorem due_schedule_produces_and_advances:
  assumes "calm (dn_script env)"
    and "\<forall>text nxt t n. dn_cron env text = Inr nxt \<longrightarrow> nxt t = Some n \<longrightarrow> t < n"
    and "produce_due env i s = Some (res, s')"
  shows "(same_rows s s' \<and> (\<forall>t d. res \<noteq> Inr (Produced t d)))
    \<or> (\<exists>c target t dup. committed_due env i s s' c target t dup \<and> t \<le> dn_now env
        \<and> (res = Inr (Produced t dup) \<or> (\<exists>e. dn_commit env = Commit_Unknown e \<and> res = Inl (Due_Transaction e)))
        \<and> (\<forall>streams locked. claim_due streams locked (sw_schedules s') i (dn_now env) = None)
        \<and> (\<forall>streams locked j now. j \<noteq> i \<longrightarrow>
             claim_due streams locked (sw_schedules s') j now = claim_due streams locked (sw_schedules s) j now))"
  using assms(1,3)
proof (cases rule: produce_due_effect)
  case (2 c target t dup)
  then obtain u x where u: "claim_due (sw_streams s) (dn_locked env) (sw_schedules s) i (dn_now env) = Some ((c, u), target)"
    "parse_expression (dn_cron env) (dn_clock env) (sc_expression c) = Inr x"
    "newest_due (xp_next x) (dn_now env) (su_next u) = Some t"
    "sw_schedules s' = after_produce x (sw_schedules s) i t (dn_now env)"
    by (auto simp: committed_due_def)
  have strict: "v < n" if "xp_next x v = Some n" for v n
    using u(2) assms(2) that by (auto simp: parse_expression_def split: sum.splits if_splits)
  have "t \<le> dn_now env"
    using newest_due_total [where nxt = "xp_next x" and s = "su_next u" and now = "dn_now env"] strict
      claim_due_config(3) [OF u(1)] u(3)
    by (auto simp: is_due_def)
  with 2 u(4) strict after_produce_not_due after_produce_others show ?thesis by metis
qed blast

text \<open>Three hours of activations; a schedule that missed the first two.\<close>

definition three_hours :: "time \<Rightarrow> time option" where
  "three_hours t = find (\<lambda>a. t < a) [60 * minute, 120 * minute, 180 * minute]"

lemma three_hours_later: "three_hours t = Some n \<Longrightarrow> t < n"
  by (auto simp: three_hours_def split: if_splits)

definition demo_config :: schedule_config where
  "demo_config = \<lparr>sc_id = 7, sc_system = 1, sc_stream = 2, sc_name = ''nightly'', sc_expression = ''@hourly'',
     sc_suspended = False, sc_version = 1, sc_payload = ''{}'', sc_concurrency = Parallel, sc_timeout = second,
     sc_metadata = '''', sc_updated = 0\<rparr>"

definition demo_world :: schedule_world where
  "demo_world = \<lparr>sw_schedules = \<lparr>schedule_configs = [demo_config],
       schedule_cursors = [\<lparr>su_schedule = 7, su_next = 60 * minute, su_last = None\<rparr>], next_schedule = 8\<rparr>,
     sw_streams = [2 \<mapsto> ''jobs''], sw_targets = (\<lambda>_. demo_produce)\<rparr>"

definition demo_due :: "time \<Rightarrow> commit_fate \<Rightarrow> due_env" where
  "demo_due now fate = \<lparr>dn_cron = (\<lambda>text. if text = ''@hourly'' then Inr three_hours else Inl ''bad''),
     dn_clock = 0, dn_now = now, dn_locked = False, dn_register = (\<lambda>_. Inr 2), dn_render = (\<lambda>_. ''key''),
     dn_psize = 10, dn_policy = demo_retry, dn_script = (\<lambda>_. quiet_turn Commit_Ok), dn_begin = None,
     dn_commit = fate\<rparr>"

lemma demo_due_stages:
  "claim_due (sw_streams demo_world) False (sw_schedules demo_world) 7 (130 * minute)
     = Some ((demo_config, \<lparr>su_schedule = 7, su_next = 60 * minute, su_last = None\<rparr>), ''jobs'')"
  "min_rate three_hours 0 = Inr (60 * minute)"
  "newest_due three_hours (130 * minute) (60 * minute) = Some (120 * minute)"
  by code_simp+

definition demo_target :: "uuid \<Rightarrow> time \<Rightarrow> produce_state \<Rightarrow> (append_error + appended) \<times> produce_state" where
  "demo_target key t ps = append_in_tx_checked (\<lambda>_. quiet_turn Commit_Ok) False demo_retry 2 10 key
     (\<lambda>_. Inr \<lparr>pm_encoded = Some ''{}'', pm_version = 1\<rparr>) (due_options (\<lambda>_. ''key'') demo_config t) ps"

lemma demo_first_append: "map_sum id ad_duplicate (fst (demo_target key t demo_produce)) = Inr False"
  by code_simp

definition hourly :: expression where
  "hourly = \<lparr>xp_text = ''@hourly'', xp_next = three_hours, xp_min_rate = 60 * minute\<rparr>"

lemma demo_due_step:
  assumes "claim_due (sw_streams w) False (sw_schedules w) 7 now = Some ((demo_config, u), ''jobs'')"
    and "newest_due three_hours now (su_next u) = Some t"
    and "map_sum id ad_duplicate (fst (demo_target (due_key t 7) t (sw_targets w ''jobs''))) = Inr dup"
  shows "produce_due (demo_due now Commit_Ok) 7 w = Some (Inr (Produced t dup),
     w\<lparr>sw_targets := (sw_targets w)(''jobs'' := snd (demo_target (due_key t 7) t (sw_targets w ''jobs''))),
       sw_schedules := after_produce hourly (sw_schedules w) 7 t now\<rparr>)"
proof -
  have "parse_expression (dn_cron (demo_due now Commit_Ok)) 0 ''@hourly'' = Inr hourly"
    using demo_due_stages(2) by (simp add: parse_expression_def minute_def second_def hourly_def demo_due_def)
  moreover have "new_stored_message (sc_payload demo_config) (sc_version demo_config)
      = Inr \<lparr>pm_encoded = Some ''{}'', pm_version = 1\<rparr>"
    and "sc_expression demo_config = ''@hourly''" "sc_id demo_config = 7"
    by (simp_all add: new_stored_message_def demo_config_def)
  moreover obtain a ps where a: "demo_target (due_key t 7) t (sw_targets w ''jobs'') = (Inr a, ps)" "ad_duplicate a = dup"
    using assms(3) by (cases "demo_target (due_key t 7) t (sw_targets w ''jobs'')") (auto simp: map_sum_def split: sum.splits)
  ultimately show ?thesis using assms(1,2)
    by (simp add: produce_due_def produce_body_def demo_due_def hourly_def flip: demo_target_def)
qed

lemma calm_quiet: "calm (\<lambda>_. quiet_turn fate)" by (simp add: calm_def quiet_turn_def)

lemma demo_due_env [simp]:
  "dn_script (demo_due now fate) = (\<lambda>_. quiet_turn Commit_Ok)" "dn_now (demo_due now fate) = now"
  "dn_cron (demo_due now fate) = (\<lambda>text. if text = ''@hourly'' then Inr three_hours else Inl ''bad'')"
  by (simp_all add: demo_due_def)

lemma demo_due_result:
  "map_option fst (produce_due (demo_due (130 * minute) Commit_Ok) 7 demo_world)
     = Some (Inr (Produced (120 * minute) False))"
  using demo_due_step [OF demo_due_stages(1), where t = "120 * minute" and dup = False]
    demo_due_stages(3) demo_first_append by (simp add: demo_world_def)

lemma due_schedule_produces_and_advances_witness:
  "\<exists>s'. produce_due (demo_due (130 * minute) Commit_Ok) 7 demo_world = Some (Inr (Produced (120 * minute) False), s')
     \<and> claim_due (sw_streams s') False (sw_schedules s') 7 (130 * minute) = None"
proof -
  let ?env = "demo_due (130 * minute) Commit_Ok"
  obtain s' where s': "produce_due ?env 7 demo_world = Some (Inr (Produced (120 * minute) False), s')"
    using demo_due_result by force
  have cron: "\<forall>text nxt t n. dn_cron ?env text = Inr nxt \<longrightarrow> nxt t = Some n \<longrightarrow> t < n"
    using three_hours_later by (auto split: if_splits)
  have "claim_due (sw_streams s') False (sw_schedules s') 7 (dn_now ?env) = None"
    using due_schedule_produces_and_advances [OF _ cron s'] calm_quiet unfolding demo_due_env by blast
  with s' show ?thesis by auto
qed

section \<open>Keys that are claimed once\<close>

text \<open>The steps that said something, in order; a step may also be silent.\<close>

inductive traced :: "('s \<Rightarrow> 'e option \<Rightarrow> 's \<Rightarrow> bool) \<Rightarrow> 's \<Rightarrow> 'e list \<Rightarrow> 's \<Rightarrow> bool" for step s where
  start: "traced step s [] s"
| silent: "traced step s es u \<Longrightarrow> step u None v \<Longrightarrow> traced step s es v"
| event: "traced step s es u \<Longrightarrow> step u (Some e) v \<Longrightarrow> traced step s (es @ [e]) v"

text \<open>
  A table of claims that steps only add to, and events that each add the claim of their key: no two
  events of a run have the same key.
\<close>

locale claimed_once =
  fixes step :: "'s \<Rightarrow> 'e option \<Rightarrow> 's \<Rightarrow> bool"
    and held :: "'s \<Rightarrow> 'k set"
    and key :: "'e \<Rightarrow> 'k"
  assumes grows: "step u oe v \<Longrightarrow> held u \<subseteq> held v"
    and fresh: "step u (Some e) v \<Longrightarrow> key e \<notin> held u \<and> key e \<in> held v"
begin

lemma traced_claims:
  "traced step s es v \<Longrightarrow> distinct (map key es) \<and> key ` set es \<subseteq> held v \<and> held s \<subseteq> held v
     \<and> key ` set es \<inter> held s = {}"
proof (induction rule: traced.induct)
  case (silent es u v)
  then show ?case using grows [OF silent.hyps(2)] silent.IH by (meson subset_trans)
next
  case (event es u e v)
  then have step: "held u \<subseteq> held v" "key e \<notin> held u" "key e \<in> held v"
    using grows [OF event.hyps(2)] fresh [OF event.hyps(2)] by auto
  from event.IH have es: "distinct (map key es)" "key ` set es \<subseteq> held u" "held s \<subseteq> held u"
    "key ` set es \<inter> held s = {}" by simp_all
  have "key e \<notin> key ` set es" "key e \<notin> held s" using es(2,3) step(2) by auto
  with es show ?case using step(1,3) by auto
qed simp

lemma no_key_twice: "traced step s es v \<Longrightarrow> distinct (map key es)"
  using traced_claims by blast

end

section \<open>No scheduled time is produced twice\<close>

text \<open>
  What happens to the schedules and their targets: a transaction of a schedule producer, with any
  clock, any calls around it and any end, which either adds a message to a target, an event, or not;
  any change of the schedules and streams by their operators; any change of the targets by others,
  which may read, produce and retire messages but keep the claims of keys, as the sweep of expired
  keys does until their retention is over.
\<close>

inductive schedule_step ::
  "schedule_world \<Rightarrow> (string \<times> time \<times> int) option \<Rightarrow> schedule_world \<Rightarrow> bool" where
  added: "calm (dn_script env) \<Longrightarrow> produce_due env i s = Some (res, s')
    \<Longrightarrow> message_log (ps_db (sw_targets s' n)) = message_log (ps_db (sw_targets s n)) @ [m]
    \<Longrightarrow> Option.bind (msg_options m) mo_scheduled_at = Some t
    \<Longrightarrow> schedule_step s (Some (n, t, i)) s'"
| unchanged: "calm (dn_script env) \<Longrightarrow> produce_due env i s = Some (res, s')
    \<Longrightarrow> (\<And>n. message_log (ps_db (sw_targets s' n)) = message_log (ps_db (sw_targets s n)))
    \<Longrightarrow> schedule_step s None s'"
| operator: "schedule_step s None (s\<lparr>sw_schedules := db, sw_streams := f\<rparr>)"
| others: "(\<And>n. claimed_keys (sw_targets s n) \<subseteq> claimed_keys (T n))
    \<Longrightarrow> schedule_step s None (s\<lparr>sw_targets := T\<rparr>)"

definition held_keys :: "schedule_world \<Rightarrow> (string \<times> uuid) set" where
  "held_keys s = {(n, k). k \<in> claimed_keys (sw_targets s n)}"

definition event_key :: "string \<times> time \<times> int \<Rightarrow> string \<times> uuid" where
  "event_key e = (case e of (n, t, i) \<Rightarrow> (n, due_key t i))"

lemma target_gets_grows: "target_gets key c t ps ps' dup \<Longrightarrow> claimed_keys ps \<subseteq> claimed_keys ps'"
  by (cases dup) (auto simp: target_gets_def)

lemma produce_due_grows:
  assumes "calm (dn_script env)" "produce_due env i s = Some (res, s')"
  shows "claimed_keys (sw_targets s n) \<subseteq> claimed_keys (sw_targets s' n)"
  using assms
proof (cases rule: produce_due_effect)
  case (2 c target t dup)
  then show ?thesis
    by (cases "n = target") (auto simp: committed_due_def dest!: target_gets_grows)
qed (simp add: same_rows_def)

lemma produce_due_adds:
  assumes "calm (dn_script env)" "produce_due env i s = Some (res, s')"
    and "message_log (ps_db (sw_targets s' n)) = message_log (ps_db (sw_targets s n)) @ [m]"
    and "Option.bind (msg_options m) mo_scheduled_at = Some t"
  shows "due_key t i \<notin> claimed_keys (sw_targets s n) \<and> due_key t i \<in> claimed_keys (sw_targets s' n)"
  using assms(1,2)
proof (cases rule: produce_due_effect)
  case 1
  then show ?thesis using assms(3) by (simp add: same_rows_def)
next
  case (2 c target t' dup)
  then have "n = target" using assms(3) by (auto simp: committed_due_def)
  moreover from this 2 have "\<not> dup" using assms(3) by (auto simp: committed_due_def target_gets_def)
  moreover from calculation 2 have "t' = t"
    using assms(3,4) by (auto simp: committed_due_def target_gets_def schedule_message_def)
  ultimately show ?thesis using 2 by (auto simp: committed_due_def target_gets_def)
qed

interpretation due_claims: claimed_once schedule_step held_keys event_key
proof
  fix u oe v
  assume "schedule_step u oe v"
  then show "held_keys u \<subseteq> held_keys v"
    by cases (use produce_due_grows in \<open>auto simp: held_keys_def subset_iff\<close>)
next
  fix u e v
  assume "schedule_step u (Some e) v"
  then show "event_key e \<notin> held_keys u \<and> event_key e \<in> held_keys v"
    by cases (use produce_due_adds in \<open>auto simp: held_keys_def event_key_def\<close>)
qed

text \<open>C13: No scheduled time of a schedule is produced twice to a stream: however many schedule
  producers run, however their transactions end, whatever lost confirmations are retried and
  whatever operators do to the schedules in between, the messages written for a schedule to a
  stream have scheduled times in different milliseconds, as long as the stream keeps the claims of
  their keys.\<close>

theorem no_scheduled_time_is_produced_twice:
  assumes "traced schedule_step s es s'"
  shows "distinct (map (\<lambda>(n, t, i). (n, unix_milli t, i)) es)"
proof -
  have "due_key t i = due_key (unix_milli t * 1000000) i" for t i
    by (simp add: due_key_def idempotency_key_def unix_milli_def)
  then have "event_key e = (\<lambda>(n, ms, i). (n, due_key (ms * 1000000) i)) ((\<lambda>(n, t, i). (n, unix_milli t, i)) e)" for e
    by (auto simp: event_key_def split: prod.splits)
  then have "map event_key es = map (\<lambda>(n, ms, i). (n, due_key (ms * 1000000) i))
      (map (\<lambda>(n, t, i). (n, unix_milli t, i)) es)" by simp
  then show ?thesis using due_claims.no_key_twice [OF assms] distinct_map by metis
qed

lemma demo_due_keys: "due_key (60 * minute) 7 \<noteq> due_key (120 * minute) 7"
  by (simp add: due_key_def idempotency_key_def byte_of_def uuid_of_bytes_def Let_def unix_milli_def minute_def second_def)

definition demo_claimed :: "uuid \<Rightarrow> time \<Rightarrow> produce_state" where
  "demo_claimed key t = snd (demo_target key t demo_produce)"

lemma demo_claimed: "ps_last (demo_claimed key t) = 1" "ps_parts (demo_claimed key t) = [0]"
    "idempotency_keys (ps_db (demo_claimed key t)) = [\<lparr>ik_key = key, ik_created_at = 100\<rparr>]"
  by code_simp+

lemma demo_options_valid: "validate_produce (due_options (\<lambda>_. ''key'') demo_config t) = None"
  by code_simp

lemma demo_second_append:
  assumes "key' \<noteq> key"
  shows "map_sum id ad_duplicate (fst (demo_target key' t' (demo_claimed key t))) = Inr False"
  using assms
  by (simp add: demo_target_def append_in_tx_checked_def append_message_in_tx_def demo_options_valid)
   (subst insert_until_covered.simps, simp add: run_insert_savepoint_def next_turn_def run_insert_def
      protected_insert_def quiet_turn_def to_append_def demo_claimed Let_def to_appended_def bad_version_def)

text \<open>Two passes over the schedule, an hour apart.\<close>

lemma demo_step:
  assumes "produce_due (demo_due now Commit_Ok) 7 w = Some (Inr (Produced t False), w')"
    and "claim_due (sw_streams w) False (sw_schedules w) 7 now = Some ((demo_config, u), ''jobs'')"
  shows "schedule_step w (Some (''jobs'', t, 7)) w'"
proof -
  have script: "calm (dn_script (demo_due now Commit_Ok))" by (simp add: calm_quiet)
  from script assms(1) show ?thesis
  proof (cases rule: produce_due_effect)
    case (2 c target t' dup)
    then have "target = ''jobs''" "t' = t" "\<not> dup"
      using assms(2) by (auto simp: committed_due_def demo_due_def)
    with 2 show ?thesis
      by (auto simp: committed_due_def target_gets_def schedule_message_def intro!: schedule_step.added [OF script assms(1)])
  next
    case 1
    then show ?thesis by blast
  qed
qed

definition demo_first :: schedule_world where
  "demo_first = demo_world\<lparr>
     sw_targets := (sw_targets demo_world)(''jobs'' := demo_claimed (due_key (60 * minute) 7) (60 * minute)),
     sw_schedules := after_produce hourly (sw_schedules demo_world) 7 (60 * minute) (70 * minute)\<rparr>"

lemma demo_passes:
  "claim_due (sw_streams demo_world) False (sw_schedules demo_world) 7 (70 * minute)
     = Some ((demo_config, \<lparr>su_schedule = 7, su_next = 60 * minute, su_last = None\<rparr>), ''jobs'')"
  "newest_due three_hours (70 * minute) (60 * minute) = Some (60 * minute)"
  "newest_due three_hours (130 * minute) (120 * minute) = Some (120 * minute)"
  by code_simp+

lemma demo_second_claim: "claim_due (sw_streams demo_first) False (sw_schedules demo_first) 7 (130 * minute)
     = Some ((demo_config, \<lparr>su_schedule = 7, su_next = 120 * minute, su_last = Some (60 * minute)\<rparr>), ''jobs'')"
  by (simp add: demo_first_def demo_world_def demo_config_def claim_due_def joined_def cursor_of_schedule_def
      is_due_def after_produce_def advance_schedule_def update_where_def hourly_def three_hours_def
      minute_def second_def)

lemma demo_trace:
  "\<exists>s'. traced schedule_step demo_world [(''jobs'', 60 * minute, 7), (''jobs'', 120 * minute, 7)] s'"
proof -
  have "produce_due (demo_due (70 * minute) Commit_Ok) 7 demo_world
      = Some (Inr (Produced (60 * minute) False), demo_first)"
    using demo_due_step [OF demo_passes(1), where dup = False and t = "60 * minute"] demo_passes(2) demo_first_append
    by (simp add: demo_world_def demo_first_def demo_claimed_def)
  then have one: "schedule_step demo_world (Some (''jobs'', 60 * minute, 7)) demo_first"
    using demo_step demo_passes(1) by blast
  have "sw_targets demo_first ''jobs'' = demo_claimed (due_key (60 * minute) 7) (60 * minute)"
    by (simp add: demo_first_def)
  then obtain s' where "produce_due (demo_due (130 * minute) Commit_Ok) 7 demo_first
      = Some (Inr (Produced (120 * minute) False), s')"
    using demo_due_step [OF demo_second_claim, where dup = False and t = "120 * minute"] demo_passes(3)
      demo_second_append [OF demo_due_keys [symmetric]] by simp
  then have "schedule_step demo_first (Some (''jobs'', 120 * minute, 7)) s'"
    using demo_step demo_second_claim by blast
  then have "traced schedule_step demo_world (([] @ [(''jobs'', 60 * minute, 7)]) @ [(''jobs'', 120 * minute, 7)]) s'"
    by (rule traced.event [where step = schedule_step, OF traced.event [where step = schedule_step, OF traced.start one]])
  then show ?thesis by auto
qed

lemma no_scheduled_time_is_produced_twice_witness:
  "distinct [(''jobs'', 3600000, 7 :: int), (''jobs'', 7200000 :: int, 7)]"
proof -
  obtain s' where "traced schedule_step demo_world [(''jobs'', 60 * minute, 7), (''jobs'', 120 * minute, 7)] s'"
    using demo_trace by blast
  from no_scheduled_time_is_produced_twice [OF this] show ?thesis
    by (simp add: unix_milli_def minute_def second_def)
qed

end
