(* ===== verification/Schedule_Reports.thy ===== *)
theory Schedule_Reports
  imports Schedules "HOL-Library.Multiset"
begin

text \<open>
  The two reports on a schedule's messages, the status with its counts per group and the listing of
  the messages one by one, read the same rows in two different ways. They agree.
\<close>

definition listed :: "string \<Rightarrow> schedule_outcome set \<Rightarrow> message_status list \<Rightarrow> nat" where
  "listed g os rows = length (filter (\<lambda>r. ms_group r = g \<and> ms_outcome r \<in> os) rows)"

lemma scan_all_map: "scan_all scan rs = Some xs \<Longrightarrow> (\<And>r x. scan r = Some x \<Longrightarrow> f x = g r) \<Longrightarrow> map f xs = map g rs"
  by (induction rs arbitrary: xs) (auto split: option.splits)

lemma key_messages_ids: "key_messages db n limit = Some ms \<Longrightarrow> map km_id ms = map msg_id (newest_messages db n limit)"
  unfolding key_messages_def by (erule scan_all_map) (auto simp: scan_key_message_def split: option.splits)

definition of_outcome :: "int \<Rightarrow> (int \<Rightarrow> message_outcome) \<Rightarrow> schedule_outcome set \<Rightarrow> int list \<Rightarrow> nat" where
  "of_outcome h out os is = length (filter (\<lambda>i. outcome_of (i = h) (out i) \<in> os) is)"

lemma length_filter_mset: "mset xs = mset ys \<Longrightarrow> length (filter p xs) = length (filter p ys)"
  by (simp flip: size_mset)

lemma of_outcome_mset: "mset is = mset js \<Longrightarrow> of_outcome h out os is = of_outcome h out os js"
  unfolding of_outcome_def by (rule length_filter_mset)

lemma listed_mset: "mset xs = mset ys \<Longrightarrow> listed g os xs = listed g os ys"
  unfolding listed_def by (rule length_filter_mset)

lemma listed_append [simp]: "listed g os (xs @ ys) = listed g os xs + listed g os ys"
  by (simp add: listed_def)

lemma summarise_counts:
  "summarise h out is s = s\<lparr>gs_ran := gs_ran s + of_outcome h out {Was_Succeeded, Was_Failed} is,
     gs_succeeded := gs_succeeded s + of_outcome h out {Was_Succeeded} is,
     gs_superseded := gs_superseded s + of_outcome h out {Was_Superseded} is,
     gs_failed := gs_failed s + of_outcome h out {Was_Failed} is\<rparr>"
proof (induction "is" arbitrary: s)
  case (Cons i "is")
  show ?case
    by (cases "mo_succeeded (out i)"; cases "mo_raised (out i)"; cases "i = h"; cases "mo_deferred (out i)")
      (simp_all add: Cons.IH of_outcome_def outcome_of_def)
qed (simp add: of_outcome_def)

lemma listed_group_statuses:
  "listed g os (group_statuses g' h out newer ms) = (if g = g' then of_outcome h out os (map km_id ms) else 0)"
  by (induction ms arbitrary: newer) (auto simp: listed_def of_outcome_def Let_def)

lemma listed_concat:
  assumes "distinct (map gr_name gs)" "g \<in> set gs"
    and "\<And>x. x \<in> set gs \<Longrightarrow> gr_name x \<noteq> gr_name g \<Longrightarrow> listed (gr_name g) os (F x) = 0"
  shows "listed (gr_name g) os (concat (map F gs)) = listed (gr_name g) os (F g)"
  using assms
proof (induction gs)
  case (Cons x gs)
  have none: "listed (gr_name g) os (concat (map F ys)) = 0"
    if "\<And>y. y \<in> set ys \<Longrightarrow> gr_name y \<noteq> gr_name g" "set ys \<subseteq> set (x # gs)" for ys
    using that Cons.prems(3) by (induction ys) (auto simp: listed_def)
  show ?case
  proof (cases "x = g")
    case True
    then have "listed (gr_name g) os (concat (map F gs)) = 0"
      using Cons.prems(1) none [of gs] by (metis image_eqI list.set_map list.simps(9) distinct.simps(2) set_subset_Cons)
    with True show ?thesis by simp
  next
    case False
    then have "g \<in> set gs" "gr_name x \<noteq> gr_name g" using Cons.prems by force+
    then show ?thesis using Cons by simp
  qed
qed simp

text \<open>The two reports on a schedule agree: for each consumer group that is to get its messages, the
  numbers of messages that succeeded, failed and were superseded in the status are those of the rows
  of the listing of all its messages, each message has exactly one outcome, and those that ran are
  the ones that succeeded or failed.\<close>

theorem status_counts_the_listing:
  assumes "distinct (map gr_name (matching_groups rx order db groups stream n))"
    and "length (filter (\<lambda>m. msg_key m = Some n) (message_log db)) \<le> nat limit"
    and "s \<in> set (schedule_status rx order db groups stream n)"
    and "list_schedule_messages rx order bytes db groups stream n limit = Some rows"
  shows "gs_succeeded s = listed (gs_group s) {Was_Succeeded} rows
    \<and> gs_failed s = listed (gs_group s) {Was_Failed} rows
    \<and> gs_superseded s = listed (gs_group s) {Was_Superseded} rows
    \<and> gs_ran s = gs_succeeded s + gs_failed s
    \<and> gs_ran s + gs_superseded s + listed (gs_group s) {Was_Deferred, Was_Pending} rows
        = length (filter (\<lambda>m. msg_key m = Some n) (message_log db))"
proof -
  let ?gs = "matching_groups rx order db groups stream n" and ?h = "schedule_head db n"
  let ?ms = "filter (\<lambda>m. msg_key m = Some n) (message_log db)"
  obtain g where g: "g \<in> set ?gs" and s: "s = summarise ?h (message_outcome_of db (gr_id g)) (map msg_id ?ms)
      \<lparr>gs_group = gr_name g, gs_ran = 0, gs_succeeded = 0, gs_superseded = 0, gs_failed = 0\<rparr>"
    using assms(3) by (auto simp: schedule_status_def)
  let ?out = "message_outcome_of db (gr_id g)"
  obtain kms where kms: "key_messages db n limit = Some kms"
    using assms(4) by (auto simp: list_schedule_messages_def split: option.splits)
  then have all: "map km_id kms = map msg_id (rev (sort_key msg_id ?ms))"
    using assms(2) by (simp add: key_messages_ids newest_messages_def limit_rows_def)
  have "listed (gr_name g) os rows = of_outcome ?h ?out os (map msg_id ?ms)" for os
  proof -
    let ?F = "\<lambda>g. group_statuses (gr_name g) ?h (message_outcome_of db (gr_id g)) None kms"
    have "listed (gr_name g) os rows = listed (gr_name g) os (concat (map ?F ?gs))"
      using assms(4) by (intro listed_mset) (auto simp: list_schedule_messages_def kms)
    also have "\<dots> = listed (gr_name g) os (?F g)"
      using assms(1) g by (intro listed_concat) (simp_all add: listed_group_statuses)
    also have "\<dots> = of_outcome ?h ?out os (map msg_id (rev (sort_key msg_id ?ms)))"
      by (simp add: listed_group_statuses all)
    also have "\<dots> = of_outcome ?h ?out os (map msg_id ?ms)" by (rule of_outcome_mset, simp only: mset_map mset_rev mset_sort)
    finally show ?thesis .
  qed
  moreover have "of_outcome h out {Was_Succeeded, Was_Failed} is = of_outcome h out {Was_Succeeded} is
      + of_outcome h out {Was_Failed} is" for h out "is"
    by (induction "is") (auto simp: of_outcome_def)
  moreover have "of_outcome h out {Was_Succeeded, Was_Failed} is + of_outcome h out {Was_Superseded} is
      + of_outcome h out {Was_Deferred, Was_Pending} is = length is" for h out "is"
    by (induction "is") (auto simp: of_outcome_def outcome_of_def)
  ultimately show ?thesis by (simp add: s summarise_counts)
qed

text \<open>
  Five messages of a schedule: one that succeeded, one that raised and was then superseded, one
  superseded before it ran, and the newest, deferred behind a key; a message of another key.
\<close>

definition report_message :: "int \<Rightarrow> string \<Rightarrow> message_row" where
  "report_message i k = \<lparr>msg_id = i, msg_schema_version = 1, msg_routing_key = None, msg_key = Some k,
     msg_rank = Some 0, msg_payload = ''{}'', msg_options = Some \<lparr>mo_concurrency = Parallel, mo_timeout = 1, mo_retry = None, mo_scheduled_at = Some i\<rparr>, msg_created_at = i\<rparr>"

definition report_log :: "int \<Rightarrow> log_status \<Rightarrow> log_row" where
  "report_log i st = \<lparr>dl_group = 3, dl_message = i, dl_attempt = 1, dl_status = st, dl_error = '''', dl_attempted_at = i\<rparr>"

definition report_db :: stream_db where
  "report_db = empty_db\<lparr>message_log := [report_message 1 ''n'', report_message 2 ''n'', report_message 4 ''n'',
       report_message 5 ''x'', report_message 6 ''n''],
     delivery_log := [report_log 1 Log_Success, report_log 2 Log_Failure, report_log 6 Log_Deferred],
     compaction_heads := [\<lparr>hd_key = ''n'', hd_winner = Some (6, 1, 0), hd_created_at = 1, hd_updated_at = 6\<rparr>]\<rparr>"

definition report_groups :: "group_row list" where
  "report_groups = [\<lparr>gr_id = 3, gr_stream = 2, gr_name = ''g''\<rparr>, \<lparr>gr_id = 4, gr_stream = 9, gr_name = ''h''\<rparr>]"

definition report_rows :: "message_status list" where
  "report_rows = the (list_schedule_messages (\<lambda>_ _. True) (length :: string \<Rightarrow> nat) (length :: string \<Rightarrow> nat) report_db report_groups 2 ''n'' 10)"

lemma report_facts:
  "map gr_name (matching_groups (\<lambda>_ _. True) (length :: string \<Rightarrow> nat) report_db report_groups 2 ''n'') = [''g'']"
  "length (filter (\<lambda>m. msg_key m = Some ''n'') (message_log report_db)) \<le> nat 10"
  "schedule_status (\<lambda>_ _. True) (length :: string \<Rightarrow> nat) report_db report_groups 2 ''n''
     = [\<lparr>gs_group = ''g'', gs_ran = 2, gs_succeeded = 1, gs_superseded = 1, gs_failed = 1\<rparr>]"
  by code_simp+

lemma report_listed: "list_schedule_messages (\<lambda>_ _. True) (length :: string \<Rightarrow> nat) (length :: string \<Rightarrow> nat)
    report_db report_groups 2 ''n'' 10 = Some report_rows"
proof -
  have "list_schedule_messages (\<lambda>_ _. True) (length :: string \<Rightarrow> nat) (length :: string \<Rightarrow> nat)
      report_db report_groups 2 ''n'' 10 \<noteq> None" by code_simp
  then show ?thesis by (auto simp: report_rows_def)
qed

lemma status_counts_the_listing_witness:
  "listed ''g'' {Was_Succeeded} report_rows = 1 \<and> listed ''g'' {Was_Failed} report_rows = 1
    \<and> listed ''g'' {Was_Superseded} report_rows = 1 \<and> listed ''g'' {Was_Deferred, Was_Pending} report_rows = 1"
proof -
  have "length (filter (\<lambda>m. msg_key m = Some ''n'') (message_log report_db)) = 4" by code_simp
  then show ?thesis
    using status_counts_the_listing [where rx = "\<lambda>_ _. True" and order = "length :: string \<Rightarrow> nat"
        and bytes = "length :: string \<Rightarrow> nat" and db = report_db and groups = report_groups and stream = 2
        and n = "''n''" and limit = 10, OF _ report_facts(2) _ report_listed] report_facts(1,3)
    by simp
qed

end
