(* ===== verification/Migrations.thy ===== *)
theory Migrations
  imports Workers Produce
begin

text \<open>
  Schema migrations: \<open>pkg/migrate\<close>. A registry is the list of the steps above the baseline, version
  \<open>i + 2\<close> at position \<open>i\<close>; \<open>migration_log\<close> has a row for every attempt, and the version of an owner
  is its newest success row. The schema of an owner is a value of a type of its own that the
  functions of the steps read and change; a run works under the session lock, so nobody else
  changes it. What the database answers in an attempt is a \<open>step_turn\<close>.
\<close>

section \<open>Registries\<close>

record 'd migration =
  mg_version :: int
  mg_min :: int
  mg_validate_up :: "(int \<Rightarrow> 'd \<Rightarrow> wire_error option) option"
  mg_up :: "(int \<Rightarrow> 'd \<Rightarrow> (wire_error + unit) \<times> 'd) option"
  mg_validate_down :: "(int \<Rightarrow> 'd \<Rightarrow> wire_error option) option"
  mg_down :: "(int \<Rightarrow> 'd \<Rightarrow> (wire_error + unit) \<times> 'd) option"
  mg_no_txn :: bool

datatype migrate_error =
    Registry_Version int
  | Registry_Floor int
  | Target_Out_Of_Range int
  | Not_Registered
  | Schema_Older
  | Schema_Newer
  | Bad_Owner_Id int
  | Step_Without_Func int
  | Step_Shape int
  | Step_Failed int wire_error
  | Lock_Failed wire_error
  | Singleton_Owner
  | Owner_Kind_Unknown

fun validate_registry :: "nat \<Rightarrow> 'd migration list \<Rightarrow> migrate_error option" where
  "validate_registry i [] = None"
| "validate_registry i (m # ms) =
     (if mg_version m \<noteq> int i + 2 then Some (Registry_Version (int i))
      else if mg_min m < 0 \<or> mg_version m < mg_min m then Some (Registry_Floor (mg_version m))
      else validate_registry (Suc i) ms)"

definition registry_version :: "'d migration list \<Rightarrow> int" where
  "registry_version reg = int (length reg) + 1"

datatype schema_support = Supported | Older_Than_Build | Newer_Than_Build

definition classify_support :: "int \<Rightarrow> int \<Rightarrow> int \<Rightarrow> schema_support" where
  "classify_support version least build =
     (if version < build then Older_Than_Build
      else if build < least then Newer_Than_Build
      else Supported)"

section \<open>The log\<close>

record migration_row =
  mr_owner :: owner_columns
  mr_version :: int
  mr_floor :: int
  mr_success :: bool
  mr_error :: "wire_error option"

type_synonym migration_log = "migration_row list"

definition successes :: "owner_columns \<Rightarrow> migration_log \<Rightarrow> migration_log" where
  "successes w rows = filter (\<lambda>r. mr_owner r = w \<and> mr_success r) rows"

definition owner_version :: "owner_columns \<Rightarrow> migration_log \<Rightarrow> migrate_error + int" where
  "owner_version w rows =
     (case rev (successes w rows) of [] \<Rightarrow> Inl Not_Registered | r # _ \<Rightarrow> Inr (mr_version r))"

text \<open>\<open>systemSchemaState\<close> and \<open>streamSchemaState\<close>: the version and the floor in force at it.\<close>

definition schema_state :: "owner_columns \<Rightarrow> migration_log \<Rightarrow> migrate_error + int \<times> int" where
  "schema_state w rows =
     (case rev (successes w rows) of
        [] \<Rightarrow> Inl Not_Registered
      | r # _ \<Rightarrow>
          (case sql_max (map mr_floor (filter (\<lambda>r'. mr_version r' \<le> mr_version r) (successes w rows))) of
             None \<Rightarrow> Inl Not_Registered
           | Some least \<Rightarrow> Inr (mr_version r, least)))"

definition assert_version_supported :: "int \<times> int \<Rightarrow> int \<Rightarrow> migrate_error option" where
  "assert_version_supported st build =
     (case classify_support (fst st) (snd st) build of
        Older_Than_Build \<Rightarrow> Some Schema_Older
      | Newer_Than_Build \<Rightarrow> Some Schema_Newer
      | Supported \<Rightarrow> None)"

definition assert_system_supported :: "int \<Rightarrow> migration_log \<Rightarrow> int \<Rightarrow> migrate_error option" where
  "assert_system_supported build rows sys =
     (if sys \<le> 0 then Some (Bad_Owner_Id sys)
      else (case schema_state (Some sys, None, None) rows of
          Inl e \<Rightarrow> Some e
        | Inr st \<Rightarrow> assert_version_supported st build))"

definition assert_stream_supported :: "int \<Rightarrow> int \<Rightarrow> migration_log \<Rightarrow> int \<Rightarrow> int \<Rightarrow> migrate_error option" where
  "assert_stream_supported sys_build build rows sys stream =
     (case assert_system_supported sys_build rows sys of
        Some e \<Rightarrow> Some e
      | None \<Rightarrow>
          if stream \<le> 0 then Some (Bad_Owner_Id stream)
          else (case schema_state (None, Some stream, None) rows of
              Inl e \<Rightarrow> Some e
            | Inr st \<Rightarrow> assert_version_supported st build))"

definition system_version :: "migration_log \<Rightarrow> int \<Rightarrow> migrate_error + int" where
  "system_version rows sys =
     (if sys \<le> 0 then Inl (Bad_Owner_Id sys)
      else map_sum id fst (schema_state (Some sys, None, None) rows))"

definition stream_version :: "migration_log \<Rightarrow> int \<Rightarrow> migrate_error + int" where
  "stream_version rows stream =
     (if stream \<le> 0 then Inl (Bad_Owner_Id stream)
      else map_sum id fst (schema_state (None, Some stream, None) rows))"

section \<open>One step\<close>

record 'd migrate_step =
  sp_version :: int
  sp_floor :: int
  sp_validate :: "(int \<Rightarrow> 'd \<Rightarrow> wire_error option) option"
  sp_apply :: "int \<Rightarrow> 'd \<Rightarrow> (wire_error + unit) \<times> 'd"
  sp_no_txn :: bool

datatype step_type = Step_Up | Step_Down

definition new_step ::
  "int \<Rightarrow> int \<Rightarrow> (int \<Rightarrow> 'd \<Rightarrow> wire_error option) option \<Rightarrow> (int \<Rightarrow> 'd \<Rightarrow> (wire_error + unit) \<times> 'd)
   \<Rightarrow> bool \<Rightarrow> migrate_error + 'd migrate_step" where
  "new_step v least validate apply no_txn =
     (if v < 1 \<or> least < 0 \<or> v < least then Inl (Step_Shape v)
      else Inr \<lparr>sp_version = v, sp_floor = least, sp_validate = validate, sp_apply = apply, sp_no_txn = no_txn\<rparr>)"

definition to_step :: "'d migration \<Rightarrow> step_type \<Rightarrow> int \<Rightarrow> migrate_error + 'd migrate_step" where
  "to_step m ty v =
     (case ty of
        Step_Up \<Rightarrow> (case mg_up m of
            None \<Rightarrow> Inl (Step_Without_Func (mg_version m))
          | Some f \<Rightarrow> new_step v (mg_min m) (mg_validate_up m) f (mg_no_txn m))
      | Step_Down \<Rightarrow> (case mg_down m of
            None \<Rightarrow> Inl (Step_Without_Func (mg_version m))
          | Some f \<Rightarrow> new_step v 0 (mg_validate_down m) f (mg_no_txn m)))"

record step_turn =
  tu_begin :: "wire_error option"
  tu_apply :: "wire_error option"
  tu_record :: "wire_error option"
  tu_commit :: commit_fate

record 'd migrate_state =
  ms_schema :: 'd
  ms_log :: migration_log
  ms_turn :: nat

definition validated :: "'d migrate_step \<Rightarrow> int \<Rightarrow> 'd \<Rightarrow> wire_error option" where
  "validated st stream d = (case sp_validate st of None \<Rightarrow> None | Some f \<Rightarrow> f stream d)"

definition success_row :: "owner_columns \<Rightarrow> 'd migrate_step \<Rightarrow> migration_row" where
  "success_row w st = \<lparr>mr_owner = w, mr_version = sp_version st, mr_floor = sp_floor st,
     mr_success = True, mr_error = None\<rparr>"

text \<open>
  \<open>validated\<close>, \<open>Apply\<close> and \<open>recordSuccess\<close> in a row: what has been written when it stops. A fault of
  the database is met before the function of the step changes anything.
\<close>

definition step_body ::
  "step_turn \<Rightarrow> owner_columns \<Rightarrow> int \<Rightarrow> 'd migrate_step \<Rightarrow> 'd migrate_state \<Rightarrow> (wire_error + unit) \<times> 'd migrate_state" where
  "step_body t w stream st s =
     (case validated st stream (ms_schema s) of
        Some e \<Rightarrow> (Inl e, s)
      | None \<Rightarrow> (case tu_apply t of
            Some e \<Rightarrow> (Inl e, s)
          | None \<Rightarrow> (case sp_apply st stream (ms_schema s) of
                (Inl e, d) \<Rightarrow> (Inl e, s\<lparr>ms_schema := d\<rparr>)
              | (Inr _, d) \<Rightarrow> (case tu_record t of
                    Some e \<Rightarrow> (Inl e, s\<lparr>ms_schema := d\<rparr>)
                  | None \<Rightarrow> (Inr (), s\<lparr>ms_schema := d, ms_log := ms_log s @ [success_row w st]\<rparr>)))))"

definition run_step_with_tx ::
  "step_turn \<Rightarrow> owner_columns \<Rightarrow> int \<Rightarrow> 'd migrate_step \<Rightarrow> 'd migrate_state \<Rightarrow> (wire_error + unit) \<times> 'd migrate_state" where
  "run_step_with_tx t w stream st s =
     (case tu_begin t of
        Some e \<Rightarrow> (Inl e, s)
      | None \<Rightarrow> (case step_body t w stream st s of
            (Inl e, _) \<Rightarrow> (Inl e, s)
          | (Inr _, s1) \<Rightarrow> (case tu_commit t of
                Commit_Ok \<Rightarrow> (Inr (), s1)
              | Commit_Lost e \<Rightarrow> (Inl e, s)
              | Commit_Unknown e \<Rightarrow> (Inl e, s1))))"

text \<open>A lock wait that runs out in a transactional step is declared transient.\<close>

definition lock_timed_out :: "wire_error \<Rightarrow> bool" where
  "lock_timed_out e \<longleftrightarrow> (case pg_error e of Some (c, m) \<Rightarrow> c = ''55P03'' | None \<Rightarrow> False)"

definition run_step_once ::
  "(nat \<Rightarrow> step_turn) \<Rightarrow> owner_columns \<Rightarrow> int \<Rightarrow> 'd migrate_step \<Rightarrow> 'd migrate_state
   \<Rightarrow> (unit \<times> wire_error + unit) \<times> 'd migrate_state" where
  "run_step_once script w stream st s =
     (let t = script (ms_turn s); s0 = s\<lparr>ms_turn := Suc (ms_turn s)\<rparr> in
      if sp_no_txn st
      then (case step_body t w stream st s0 of
          (Inl e, s1) \<Rightarrow> (Inl ((), e), s1)
        | (Inr x, s1) \<Rightarrow> (Inr x, s1))
      else (case run_step_with_tx t w stream st s0 of
          (Inl e, s1) \<Rightarrow>
            (Inl ((), if lock_timed_out e then Declared Recovery_Transient # e else e), s1)
        | (Inr x, s1) \<Rightarrow> (Inr x, s1)))"

definition run_step ::
  "(nat \<Rightarrow> step_turn) \<Rightarrow> (nat \<Rightarrow> bool) \<Rightarrow> retry_policy \<Rightarrow> owner_columns \<Rightarrow> int \<Rightarrow> 'd migrate_step
   \<Rightarrow> 'd migrate_state \<Rightarrow> (unit \<times> wire_error + unit) \<times> 'd migrate_state" where
  "run_step script ended p w stream st = wrap_non_idempotent p ended () (run_step_once script w stream st)"

section \<open>One owner\<close>

text \<open>\<open>recorded v\<close> says whether the failure row of version \<open>v\<close> was written in the end.\<close>

record migrate_env =
  me_script :: "nat \<Rightarrow> step_turn"
  me_ended :: "nat \<Rightarrow> bool"
  me_policy :: retry_policy
  me_recorded :: "int \<Rightarrow> bool"

definition try_record_failure ::
  "migrate_env \<Rightarrow> owner_columns \<Rightarrow> int \<Rightarrow> wire_error \<Rightarrow> 'd migrate_state \<Rightarrow> 'd migrate_state" where
  "try_record_failure env w v e s =
     (if me_recorded env v
      then s\<lparr>ms_log := ms_log s @ [\<lparr>mr_owner = w, mr_version = v, mr_floor = 0, mr_success = False,
             mr_error = Some e\<rparr>]\<rparr>
      else s)"

definition error_text :: "migrate_error \<Rightarrow> wire_error" where
  "error_text e = (case e of Step_Failed v w \<Rightarrow> w | _ \<Rightarrow> [Other_Error ''migration''])"

text \<open>
  \<open>stepUp\<close> and \<open>stepDown\<close>: \<open>registry[v-2]\<close> moves up to \<open>v\<close>, \<open>registry[v-1]\<close> down to it. An index
  outside the registry, which Go answers with a panic, is a step without a function.
\<close>

definition step_between ::
  "migrate_env \<Rightarrow> owner_columns \<Rightarrow> int \<Rightarrow> 'd migration list \<Rightarrow> step_type \<Rightarrow> int \<Rightarrow> 'd migrate_state
   \<Rightarrow> (migrate_error + unit) \<times> 'd migrate_state" where
  "step_between env w stream reg ty v s =
     (let i = (case ty of Step_Up \<Rightarrow> v - 2 | Step_Down \<Rightarrow> v - 1) in
      if i < 0 \<or> int (length reg) \<le> i then (Inl (Step_Without_Func v), s)
      else (let m = reg ! nat i in
        case to_step m ty (case ty of Step_Up \<Rightarrow> mg_version m | Step_Down \<Rightarrow> mg_version m - 1) of
          Inl e \<Rightarrow> (Inl e, s)
        | Inr st \<Rightarrow> (case run_step (me_script env) (me_ended env) (me_policy env) w stream st s of
              (Inl (_, e), s1) \<Rightarrow> (Inl (Step_Failed v e), s1)
            | (Inr x, s1) \<Rightarrow> (Inr x, s1))))"

fun walk_versions ::
  "migrate_env \<Rightarrow> owner_columns \<Rightarrow> int \<Rightarrow> 'd migration list \<Rightarrow> step_type \<Rightarrow> int list \<Rightarrow> 'd migrate_state
   \<Rightarrow> migrate_error option \<times> 'd migrate_state" where
  "walk_versions env w stream reg ty [] s = (None, s)"
| "walk_versions env w stream reg ty (v # vs) s =
     (case step_between env w stream reg ty v s of
        (Inl e, s1) \<Rightarrow> (Some e, try_record_failure env w v (error_text e) s1)
      | (Inr _, s1) \<Rightarrow> walk_versions env w stream reg ty vs s1)"

definition migrate_owner ::
  "migrate_env \<Rightarrow> owner_columns \<Rightarrow> int \<Rightarrow> int \<Rightarrow> 'd migration list \<Rightarrow> 'd migrate_state
   \<Rightarrow> migrate_error option \<times> 'd migrate_state" where
  "migrate_owner env w stream target reg s =
     (case owner_version w (ms_log s) of
        Inl e \<Rightarrow> (Some e, s)
      | Inr current \<Rightarrow>
          if registry_version reg < current then (Some Schema_Newer, s)
          else if current < target then walk_versions env w stream reg Step_Up [current + 1..target] s
          else walk_versions env w stream reg Step_Down (rev [target..current - 1]) s)"

definition check_target :: "int \<Rightarrow> 'd migration list \<Rightarrow> migrate_error option" where
  "check_target target reg =
     (case validate_registry 0 reg of
        Some e \<Rightarrow> Some e
      | None \<Rightarrow> if target < 1 \<or> registry_version reg < target then Some (Target_Out_Of_Range target) else None)"

text \<open>\<open>lock\<close> is the error of the session lock, if it could not be taken.\<close>

definition migrate_once ::
  "migrate_env \<Rightarrow> wire_error option \<Rightarrow> owner \<Rightarrow> int \<Rightarrow> 'd migration list \<Rightarrow> 'd migrate_state
   \<Rightarrow> migrate_error option \<times> 'd migrate_state" where
  "migrate_once env lock ow target reg s =
     (case check_target target reg of
        Some e \<Rightarrow> (Some e, s)
      | None \<Rightarrow> (case lock of
            Some e \<Rightarrow> (Some (Lock_Failed e), s)
          | None \<Rightarrow> migrate_owner env (new_owner_columns ow) (ow_stream ow) target reg s))"

section \<open>All streams\<close>

text \<open>The schema of every stream, and one log; each owner has an environment of its own.\<close>

record 'd migrate_world =
  mw_schema :: "int \<Rightarrow> 'd"
  mw_log :: migration_log

fun migrate_each ::
  "(int \<Rightarrow> migrate_env) \<Rightarrow> int \<Rightarrow> 'd migration list \<Rightarrow> owner list \<Rightarrow> 'd migrate_world
   \<Rightarrow> (owner \<times> migrate_error) list \<times> 'd migrate_world" where
  "migrate_each env target reg [] w = ([], w)"
| "migrate_each env target reg (ow # ows) w =
     (let i = ow_stream ow in
      case migrate_owner (env i) (new_owner_columns ow) i target reg
             \<lparr>ms_schema = mw_schema w i, ms_log = mw_log w, ms_turn = 0\<rparr> of
        (r, s) \<Rightarrow> (case migrate_each env target reg ows
                     \<lparr>mw_schema = (mw_schema w)(i := ms_schema s), mw_log = ms_log s\<rparr> of
            (errs, w') \<Rightarrow> (case r of None \<Rightarrow> (errs, w') | Some e \<Rightarrow> ((ow, e) # errs, w'))))"

text \<open>\<open>streams\<close> is what \<open>ListStreams\<close> answers under the lock.\<close>

definition migrate_all ::
  "(int \<Rightarrow> migrate_env) \<Rightarrow> wire_error option \<Rightarrow> (wire_error + owner list) \<Rightarrow> owner_kind \<Rightarrow> int \<Rightarrow> 'd migration list
   \<Rightarrow> 'd migrate_world \<Rightarrow> (migrate_error + (owner \<times> migrate_error) list) \<times> 'd migrate_world" where
  "migrate_all env lock streams kind target reg w =
     (case check_target target reg of
        Some e \<Rightarrow> (Inl e, w)
      | None \<Rightarrow> (case lock of
            Some e \<Rightarrow> (Inl (Lock_Failed e), w)
          | None \<Rightarrow> (case kind of
                Owner_System \<Rightarrow> (Inl Singleton_Owner, w)
              | Owner_Stream \<Rightarrow> (case streams of
                    Inl e \<Rightarrow> (Inl (Lock_Failed e), w)
                  | Inr ows \<Rightarrow> (case migrate_each env target reg ows w of (errs, w') \<Rightarrow> (Inr errs, w')))
              | _ \<Rightarrow> (Inl Owner_Kind_Unknown, w))))"

end
