(* ===== verification/Migration_Properties.thy ===== *)
theory Migration_Properties
  imports Migrations
begin

text \<open>
  What a migration leaves behind: whatever fails on the way, the version the log records is that of
  the schema, and the floor that gates the builds is that of the strictest step the schema is at or
  above.
\<close>

section \<open>The log\<close>

lemma owner_version_append:
  "owner_version w (rows @ [r]) = (if mr_owner r = w \<and> mr_success r then Inr (mr_version r) else owner_version w rows)"
  by (simp add: owner_version_def successes_def)

lemma owner_version_success [simp]: "owner_version w (rows @ [success_row w st]) = Inr (sp_version st)"
  by (simp add: owner_version_append success_row_def)

lemma try_record_failure_keeps [simp]:
  "owner_version w (ms_log (try_record_failure env w v e s)) = owner_version w (ms_log s)"
  "ms_schema (try_record_failure env w v e s) = ms_schema s"
  by (simp_all add: try_record_failure_def owner_version_append)

section \<open>One step\<close>

text \<open>The owner is shape version \<open>v\<close>, and so is its schema.\<close>

definition at_version ::
  "(int \<Rightarrow> 'd \<Rightarrow> bool) \<Rightarrow> owner_columns \<Rightarrow> int \<Rightarrow> 'd migrate_state \<Rightarrow> bool" where
  "at_version shape w v s \<longleftrightarrow> owner_version w (ms_log s) = Inr v \<and> shape v (ms_schema s)"

text \<open>
  \<open>partly u v d\<close>: the schema \<open>d\<close> is where a step from \<open>u\<close> to \<open>v\<close> without a transaction may have left it.
  A step moves schemas of one version to another, and finds its work done when it runs again. One without a
  transaction also goes on from wherever an earlier attempt of it stopped.
\<close>

definition midway :: "(int \<Rightarrow> 'd \<Rightarrow> bool) \<Rightarrow> (int \<Rightarrow> int \<Rightarrow> 'd \<Rightarrow> bool) \<Rightarrow> int \<Rightarrow> int \<Rightarrow> 'd \<Rightarrow> bool" where
  "midway shape partly u v d \<longleftrightarrow> shape u d \<or> partly u v d \<or> shape v d"

definition moves ::
  "(int \<Rightarrow> 'd \<Rightarrow> bool) \<Rightarrow> (int \<Rightarrow> int \<Rightarrow> 'd \<Rightarrow> bool) \<Rightarrow> int \<Rightarrow> bool \<Rightarrow> int \<Rightarrow> int
   \<Rightarrow> (int \<Rightarrow> 'd \<Rightarrow> (wire_error + unit) \<times> 'd) \<Rightarrow> bool" where
  "moves shape partly stream no_txn u v f \<longleftrightarrow>
     (\<forall>d r d'. (if no_txn then midway shape partly u v d else shape u d \<or> shape v d) \<longrightarrow> f stream d = (r, d')
        \<longrightarrow> (r = Inr () \<longrightarrow> shape v d') \<and> (no_txn \<longrightarrow> midway shape partly u v d'))"

definition well_behaved ::
  "(int \<Rightarrow> 'd \<Rightarrow> bool) \<Rightarrow> (int \<Rightarrow> int \<Rightarrow> 'd \<Rightarrow> bool) \<Rightarrow> int \<Rightarrow> 'd migration list \<Rightarrow> bool" where
  "well_behaved shape partly stream reg \<longleftrightarrow> validate_registry 0 reg = None \<and> (\<forall>m \<in> set reg.
     (\<forall>f. mg_up m = Some f \<longrightarrow> moves shape partly stream (mg_no_txn m) (mg_version m - 1) (mg_version m) f)
     \<and> (\<forall>f. mg_down m = Some f \<longrightarrow> moves shape partly stream (mg_no_txn m) (mg_version m) (mg_version m - 1) f))"

lemma registry_position:
  "validate_registry k reg = None \<Longrightarrow> i < length reg \<Longrightarrow> mg_version (reg ! i) = int (k + i) + 2
     \<and> 0 \<le> mg_min (reg ! i) \<and> mg_min (reg ! i) \<le> mg_version (reg ! i)"
proof (induction reg arbitrary: k i)
  case (Cons m reg)
  then show ?case using Cons.IH [of "Suc k" "i - 1"] by (cases i) (auto split: if_splits)
qed simp

lemma step_body_cases:
  assumes "step_body t w stream st s = (r, s')"
  obtains (untouched) e where "r = Inl e" "s' = s"
  | (moved) q d where "sp_apply st stream (ms_schema s) = (q, d)" "s' = s\<lparr>ms_schema := d\<rparr>" "\<exists>e. r = Inl e"
  | (done_all) d where "sp_apply st stream (ms_schema s) = (Inr (), d)" "r = Inr ()"
      "s' = s\<lparr>ms_schema := d, ms_log := ms_log s @ [success_row w st]\<rparr>"
proof -
  obtain q d where q: "sp_apply st stream (ms_schema s) = (q, d)" by fastforce
  have "(\<exists>e. r = Inl e \<and> s' = s) \<or> (\<exists>e. r = Inl e \<and> s' = s\<lparr>ms_schema := d\<rparr>)
      \<or> q = Inr () \<and> r = Inr () \<and> s' = s\<lparr>ms_schema := d, ms_log := ms_log s @ [success_row w st]\<rparr>"
    using assms by (auto simp: step_body_def q split: option.splits sum.splits)
  then show ?thesis
  proof (elim disjE exE conjE)
    fix e assume "r = Inl e" "s' = s"
    then show ?thesis by (rule untouched)
  next
    fix e assume "r = Inl e" "s' = s\<lparr>ms_schema := d\<rparr>"
    then show ?thesis by (intro moved [OF q]) auto
  next
    assume "q = Inr ()" "r = Inr ()" "s' = s\<lparr>ms_schema := d, ms_log := ms_log s @ [success_row w st]\<rparr>"
    then show ?thesis using q by (intro done_all) auto
  qed
qed

lemma run_step_with_tx_cases:
  assumes "run_step_with_tx t w stream st s = (r, s')"
  obtains (nothing_done) e where "r = Inl e" "s' = s"
  | (committed) d where "sp_apply st stream (ms_schema s) = (Inr (), d)"
      "s' = s\<lparr>ms_schema := d, ms_log := ms_log s @ [success_row w st]\<rparr>"
proof -
  obtain q s1 where b: "step_body t w stream st s = (q, s1)" by fastforce
  have "(\<exists>e. r = Inl e \<and> s' = s) \<or> (\<exists>x. q = Inr x \<and> s' = s1)"
    using assms b by (auto simp: run_step_with_tx_def split: option.splits sum.splits commit_fate.splits)
  moreover have "\<exists>d. sp_apply st stream (ms_schema s) = (Inr (), d)
      \<and> s1 = s\<lparr>ms_schema := d, ms_log := ms_log s @ [success_row w st]\<rparr>" if "q = Inr x" for x
    using b that by (cases rule: step_body_cases) auto
  ultimately show ?thesis using that by blast
qed

text \<open>The owner stands before a step from \<open>u\<close> to \<open>v\<close>, at \<open>u\<close> or, without a transaction, on the way.\<close>

definition before_step ::
  "(int \<Rightarrow> 'd \<Rightarrow> bool) \<Rightarrow> (int \<Rightarrow> int \<Rightarrow> 'd \<Rightarrow> bool) \<Rightarrow> owner_columns \<Rightarrow> bool \<Rightarrow> int \<Rightarrow> int \<Rightarrow> 'd migrate_state \<Rightarrow> bool"
where
  "before_step shape partly w no_txn u v s \<longleftrightarrow> owner_version w (ms_log s) = Inr u
     \<and> (shape u (ms_schema s) \<or> no_txn \<and> midway shape partly u v (ms_schema s))"

text \<open>What an attempt that failed leaves: the step is not taken, or its commit was not confirmed.\<close>

definition interrupted ::
  "(int \<Rightarrow> 'd \<Rightarrow> bool) \<Rightarrow> (int \<Rightarrow> int \<Rightarrow> 'd \<Rightarrow> bool) \<Rightarrow> owner_columns \<Rightarrow> bool \<Rightarrow> int \<Rightarrow> int \<Rightarrow> 'd migrate_state \<Rightarrow> bool"
where
  "interrupted shape partly w no_txn u v s \<longleftrightarrow>
     before_step shape partly w no_txn u v s \<or> \<not> no_txn \<and> at_version shape w v s"

lemma run_step_once_stays:
  assumes v: "sp_version st = v" and moves: "moves shape partly stream (sp_no_txn st) u v (sp_apply st)"
    and before: "interrupted shape partly w (sp_no_txn st) u v s"
    and run: "run_step_once script w stream st s = (r, s')"
  shows "case r of Inl e \<Rightarrow> interrupted shape partly w (sp_no_txn st) u v s' | Inr x \<Rightarrow> at_version shape w v s'"
proof (cases "sp_no_txn st")
  case True
  let ?s0 = "s\<lparr>ms_turn := Suc (ms_turn s)\<rparr>"
  have mid: "midway shape partly u v (ms_schema s)" "owner_version w (ms_log s) = Inr u"
    using before True by (auto simp: interrupted_def before_step_def midway_def)
  obtain q where q: "step_body (script (ms_turn s)) w stream st ?s0 = (q, s')" "r = Inr () \<longleftrightarrow> q = Inr ()"
    using run True by (auto simp: run_step_once_def Let_def split: sum.splits prod.splits)
  from q(1) show ?thesis
  proof (cases rule: step_body_cases)
    case (untouched e)
    then have "interrupted shape partly w (sp_no_txn st) u v s'"
      using before by (simp add: interrupted_def before_step_def at_version_def)
    then show ?thesis using q(2) untouched by (cases r) auto
  next
    case (moved p d)
    then have "midway shape partly u v d" using moves mid(1) True by (auto simp: moves_def)
    then have "interrupted shape partly w (sp_no_txn st) u v s'"
      using moved mid(2) True by (simp add: interrupted_def before_step_def)
    then show ?thesis using q(2) moved by (cases r) auto
  next
    case (done_all d)
    then have "shape v d" using moves mid(1) True by (auto simp: moves_def)
    then show ?thesis using done_all q(2) v by (auto simp: at_version_def)
  qed
next
  case False
  let ?s0 = "s\<lparr>ms_turn := Suc (ms_turn s)\<rparr>"
  have ends: "at_version shape w u s \<or> at_version shape w v s"
    using before False by (auto simp: interrupted_def before_step_def at_version_def)
  obtain q where q: "run_step_with_tx (script (ms_turn s)) w stream st ?s0 = (q, s')" "r = Inr () \<longleftrightarrow> q = Inr ()"
    using run False by (auto simp: run_step_once_def Let_def split: sum.splits prod.splits)
  from q(1) show ?thesis
  proof (cases rule: run_step_with_tx_cases)
    case nothing_done
    then show ?thesis using ends q(2) False
      by (cases r) (auto simp: interrupted_def before_step_def at_version_def)
  next
    case (committed d)
    then have "shape v d" using moves ends False by (auto simp: moves_def at_version_def)
    then have "at_version shape w v s'" using committed v by (simp add: at_version_def)
    then show ?thesis using False by (auto simp: interrupted_def split: sum.split)
  qed
qed

lemma run_step_stays:
  assumes "sp_version st = v" "moves shape partly stream (sp_no_txn st) u v (sp_apply st)"
    and "before_step shape partly w (sp_no_txn st) u v s" "run_step script ended p w stream st s = (r, s')"
  shows "case r of Inl e \<Rightarrow> interrupted shape partly w (sp_no_txn st) u v s' | Inr x \<Rightarrow> at_version shape w v s'"
proof (rule retry_loop_contract [OF _ _ _ assms(4) [unfolded run_step_def wrap_non_idempotent_def]])
  show "interrupted shape partly w (sp_no_txn st) u v s" using assms(3) by (simp add: interrupted_def)
qed (use run_step_once_stays [OF assms(1,2)] in fastforce)+

lemma step_between_stays:
  assumes reg: "well_behaved shape partly stream reg"
    and u: "before_step shape partly w (mg_no_txn (reg ! nat (case ty of Step_Up \<Rightarrow> v - 2 | Step_Down \<Rightarrow> v - 1))) u v s"
    and link: "u = (case ty of Step_Up \<Rightarrow> v - 1 | Step_Down \<Rightarrow> v + 1)"
    and step: "step_between env w stream reg ty v s = (r, s')"
  shows "case r of
      Inl e \<Rightarrow> interrupted shape partly w
          (mg_no_txn (reg ! nat (case ty of Step_Up \<Rightarrow> v - 2 | Step_Down \<Rightarrow> v - 1))) u v s'
    | Inr x \<Rightarrow> at_version shape w v s'"
proof -
  obtain i where i_def: "i = (case ty of Step_Up \<Rightarrow> v - 2 | Step_Down \<Rightarrow> v - 1)" by simp
  show ?thesis
  proof (cases "i < 0 \<or> int (length reg) \<le> i")
    case True
    then show ?thesis using step u by (auto simp: step_between_def i_def interrupted_def)
  next
    case False
    obtain m where m_def: "m = reg ! nat i" by simp
    have m: "m \<in> set reg" "mg_version m = i + 2"
      using False reg registry_position [of 0 reg "nat i"] by (auto simp: m_def well_behaved_def)
    have step': "(case to_step m ty (case ty of Step_Up \<Rightarrow> mg_version m | Step_Down \<Rightarrow> mg_version m - 1) of
          Inl e \<Rightarrow> (Inl e, s)
        | Inr st \<Rightarrow> (case run_step (me_script env) (me_ended env) (me_policy env) w stream st s of
              (Inl (_, e), s1) \<Rightarrow> (Inl (Step_Failed v e), s1)
            | (Inr x, s1) \<Rightarrow> (Inr x, s1))) = (r, s')"
      using step False unfolding step_between_def Let_def i_def [symmetric] m_def [symmetric] by simp
    have u': "before_step shape partly w (mg_no_txn m) u v s" using u by (simp add: i_def m_def)
    let ?to = "case ty of Step_Up \<Rightarrow> mg_version m | Step_Down \<Rightarrow> mg_version m - 1"
    have "case r of Inl e \<Rightarrow> interrupted shape partly w (mg_no_txn m) u v s' | Inr x \<Rightarrow> at_version shape w v s'"
    proof (cases "to_step m ty ?to")
      case (Inl e)
      then show ?thesis using step' u' by (auto simp: interrupted_def)
    next
      case (Inr st)
      then have st: "sp_no_txn st = mg_no_txn m" "sp_version st = v"
        "moves shape partly stream (mg_no_txn m) u v (sp_apply st)"
        using reg m link
        by (cases ty; fastforce simp: to_step_def new_step_def i_def well_behaved_def algebra_simps
            split: option.splits if_splits)+
      obtain q where q: "run_step (me_script env) (me_ended env) (me_policy env) w stream st s = (q, s')"
        "r = Inr () \<longleftrightarrow> q = Inr ()"
        using step' Inr by (auto split: sum.splits prod.splits)
      show ?thesis
        using run_step_stays [OF st(2) st(3) [folded st(1)] u' [folded st(1)] q(1)] q(2)
        by (cases q; cases r) (auto simp: st(1))
    qed
    then show ?thesis unfolding m_def i_def .
  qed
qed

section \<open>A walk\<close>

text \<open>
  Where an owner stands on the way to a target: its schema is at the version that is recorded, or the next step
  in the direction of the target works without a transaction and has begun.
\<close>

definition step_to_next :: "int \<Rightarrow> int \<Rightarrow> int" where
  "step_to_next v target = (if v < target then v + 1 else v - 1)"

definition next_without_txn :: "'d migration list \<Rightarrow> int \<Rightarrow> int \<Rightarrow> bool" where
  "next_without_txn reg v target \<longleftrightarrow>
     v \<noteq> target \<and> mg_no_txn (reg ! nat (if v < target then v - 1 else v - 2))"

definition stands ::
  "(int \<Rightarrow> 'd \<Rightarrow> bool) \<Rightarrow> (int \<Rightarrow> int \<Rightarrow> 'd \<Rightarrow> bool) \<Rightarrow> 'd migration list \<Rightarrow> int \<Rightarrow> int \<Rightarrow> 'd \<Rightarrow> bool" where
  "stands shape partly reg target v d \<longleftrightarrow> shape v d
     \<or> next_without_txn reg v target \<and> midway shape partly v (step_to_next v target) d"

lemma before_is_standing:
  assumes "u \<noteq> target" "v = step_to_next u target" "ty = (if u < target then Step_Up else Step_Down)"
  shows "before_step shape partly w (mg_no_txn (reg ! nat (case ty of Step_Up \<Rightarrow> v - 2 | Step_Down \<Rightarrow> v - 1))) u v s
    \<longleftrightarrow> owner_version w (ms_log s) = Inr u \<and> stands shape partly reg target u (ms_schema s)"
  using assms by (auto simp: before_step_def stands_def next_without_txn_def step_to_next_def)

text \<open>The versions of a walk lead towards its target.\<close>

fun leads :: "int \<Rightarrow> int \<Rightarrow> int list \<Rightarrow> bool" where
  "leads target u [] \<longleftrightarrow> u = target"
| "leads target u (v # vs) \<longleftrightarrow> u \<noteq> target \<and> v = step_to_next u target \<and> leads target v vs"

lemma leads_up: "u \<le> target \<Longrightarrow> leads target u [u + 1..target]"
proof (induction "nat (target - u)" arbitrary: u)
  case (Suc n)
  then have "[u + 1..target] = (u + 1) # [u + 1 + 1..target]" by (intro upto_rec1) simp
  moreover have "leads target (u + 1) [u + 1 + 1..target]" using Suc.hyps(1) [of "u + 1"] Suc.hyps(2) by simp
  ultimately show ?case using Suc.hyps(2) by (simp add: step_to_next_def)
qed simp

lemma leads_down: "target \<le> u \<Longrightarrow> leads target u (rev [target..u - 1])"
proof (induction "nat (u - target)" arbitrary: u)
  case (Suc n)
  then have "[target..u - 1] = [target..u - 1 - 1] @ [u - 1]" by (intro upto_rec2) simp
  moreover have "leads target (u - 1) (rev [target..u - 1 - 1])" using Suc.hyps(1) [of "u - 1"] Suc.hyps(2) by simp
  moreover have "target < u" using Suc.hyps(2) by linarith
  ultimately show ?case by (simp add: step_to_next_def)
qed simp

lemma walk_stays:
  assumes "well_behaved shape partly stream reg"
  shows "leads target u vs \<Longrightarrow> u \<noteq> target \<longrightarrow> ty = (if u < target then Step_Up else Step_Down) \<Longrightarrow>
    owner_version w (ms_log s) = Inr u \<Longrightarrow> stands shape partly reg target u (ms_schema s) \<Longrightarrow>
    walk_versions env w stream reg ty vs s = (r, s') \<Longrightarrow>
    \<exists>v'. owner_version w (ms_log s') = Inr v' \<and> stands shape partly reg target v' (ms_schema s')
      \<and> min u target \<le> v' \<and> v' \<le> max u target \<and> (r = None \<longrightarrow> v' = target)"
proof (induction vs arbitrary: u s)
  case (Cons v vs)
  have u: "u \<noteq> target" "v = step_to_next u target" "leads target v vs"
    using Cons.prems(1) unfolding leads.simps by blast+
  have ty: "ty = (if u < target then Step_Up else Step_Down)" using Cons.prems(2) u(1) by simp
  note standing = before_is_standing [OF u(1,2) ty]
  obtain q s1 where q: "step_between env w stream reg ty v s = (q, s1)" by fastforce
  have link: "u = (case ty of Step_Up \<Rightarrow> v - 1 | Step_Down \<Rightarrow> v + 1)" using u(2) ty by (simp add: step_to_next_def)
  note stay = step_between_stays [OF assms _ link q]
  have before: "before_step shape partly w
      (mg_no_txn (reg ! nat (case ty of Step_Up \<Rightarrow> v - 2 | Step_Down \<Rightarrow> v - 1))) u v s"
    using Cons.prems(3,4) standing by blast
  have range': "min u target \<le> v \<and> v \<le> max u target" using u(1,2) by (auto simp: step_to_next_def)
  show ?case
  proof (cases q)
    case (Inl e)
    then have r: "r = Some e" "s' = try_record_failure env w v (error_text e) s1" using Cons.prems(5) q by auto
    have "interrupted shape partly w
        (mg_no_txn (reg ! nat (case ty of Step_Up \<Rightarrow> v - 2 | Step_Down \<Rightarrow> v - 1))) u v s1"
      using stay [OF before] Inl by simp
    then show ?thesis
      unfolding interrupted_def standing using r range' by (auto simp: at_version_def stands_def)
  next
    case (Inr x)
    then have "walk_versions env w stream reg ty vs s1 = (r, s')" using Cons.prems(5) q by simp
    moreover have "at_version shape w v s1" using stay [OF before] Inr by simp
    moreover have "v \<noteq> target \<longrightarrow> ty = (if v < target then Step_Up else Step_Down)"
      using u(1,2) ty by (auto simp: step_to_next_def)
    ultimately obtain v' where "owner_version w (ms_log s') = Inr v'" "stands shape partly reg target v' (ms_schema s')"
      "min v target \<le> v'" "v' \<le> max v target" "r = None \<longrightarrow> v' = target"
      using Cons.IH [OF u(3), of s1] by (auto simp: at_version_def stands_def)
    then show ?thesis using range' by (intro exI [of _ v']) auto
  qed
qed auto

text \<open>C28: Whatever fails during a migration, a statement, a commit or its confirmation, a lock or the
  functions of a step, the schema of the owner is at the version that is recorded for it, unless a step
  without a transaction towards the target was interrupted, which then has begun and is not
  recorded. The version lies between the one the run started from and the target; it is the target,
  and the schema is at it, when the run reports no error. A run may start where an interrupted one
  stopped. What is asked of the registry is what \<open>Migration\<close> documents: its steps move from one version to the next and may run
  again, and one without a transaction goes on from where it stopped.\<close>

theorem version_matches_schema:
  assumes "well_behaved shape partly stream reg"
    and "owner_version w (ms_log s) = Inr v" "stands shape partly reg target v (ms_schema s)"
    and "migrate_owner env w stream target reg s = (r, s')"
  shows "\<exists>v'. owner_version w (ms_log s') = Inr v' \<and> stands shape partly reg target v' (ms_schema s')
    \<and> min v target \<le> v' \<and> v' \<le> max v target \<and> (r = None \<longrightarrow> v' = target \<and> shape target (ms_schema s'))"
proof -
  consider "registry_version reg < v" "r \<noteq> None" "s' = s"
    | "v < target" "walk_versions env w stream reg Step_Up [v + 1..target] s = (r, s')"
    | "target \<le> v" "walk_versions env w stream reg Step_Down (rev [target..v - 1]) s = (r, s')"
    using assms(2,4) by (auto simp: migrate_owner_def split: if_splits)
  then have "\<exists>v'. owner_version w (ms_log s') = Inr v' \<and> stands shape partly reg target v' (ms_schema s')
    \<and> min v target \<le> v' \<and> v' \<le> max v target \<and> (r = None \<longrightarrow> v' = target)"
  proof cases
    case 1
    then show ?thesis using assms(2,3) by auto
  next
    case 2
    have "v \<le> target" "v \<noteq> target \<longrightarrow> Step_Up = (if v < target then Step_Up else Step_Down)" using 2(1) by simp_all
    from walk_stays [OF assms(1) leads_up [OF this(1)] this(2) assms(2,3) 2(2)] show ?thesis .
  next
    case 3
    have "v \<noteq> target \<longrightarrow> Step_Down = (if v < target then Step_Up else Step_Down)" using 3(1) by simp
    from walk_stays [OF assms(1) leads_down [OF 3(1)] this assms(2,3) 3(2)] show ?thesis .
  qed
  then obtain v' where v': "owner_version w (ms_log s') = Inr v'" "stands shape partly reg target v' (ms_schema s')"
    "min v target \<le> v'" "v' \<le> max v target" "r = None \<longrightarrow> v' = target" by blast
  moreover have "shape target (ms_schema s')" if "r = None"
    using v'(2,5) that unfolding stands_def next_without_txn_def by blast
  ultimately show ?thesis by blast
qed

text \<open>
  Versions one, two and three of a schema that is its version; the second step is applied and
  committed although its confirmation is lost.
\<close>

definition demo_migration :: "int \<Rightarrow> int \<Rightarrow> int migration" where
  "demo_migration v least = \<lparr>mg_version = v, mg_min = least, mg_validate_up = None, mg_up = Some (\<lambda>_ _. (Inr (), v)),
     mg_validate_down = None, mg_down = Some (\<lambda>_ _. (Inr (), v - 1)), mg_no_txn = False\<rparr>"

definition demo_registry :: "int migration list" where
  "demo_registry = [demo_migration 2 0, demo_migration 3 2]"

definition demo_stream :: owner_columns where "demo_stream = (None, Some 5, None)"

definition demo_baseline :: "int migrate_state" where
  "demo_baseline = \<lparr>ms_schema = 1, ms_log = [\<lparr>mr_owner = demo_stream, mr_version = 1, mr_floor = 0,
     mr_success = True, mr_error = None\<rparr>], ms_turn = 0\<rparr>"

definition demo_migrate_env :: migrate_env where
  "demo_migrate_env = \<lparr>me_script = (\<lambda>k. \<lparr>tu_begin = None, tu_apply = None, tu_record = None,
       tu_commit = (if k = 1 then Commit_Unknown [Connection_Error False True] else Commit_Ok)\<rparr>),
     me_ended = (\<lambda>_. False), me_policy = \<lparr>max_retries = 3, max_delays = 3, base_delay = 1, max_delay = 4, exponent = 2\<rparr>, me_recorded = (\<lambda>_. True)\<rparr>"

lemma demo_registry_behaves: "well_behaved (\<lambda>v d. d = v) partly 5 demo_registry"
  by (auto simp: well_behaved_def demo_registry_def demo_migration_def moves_def)

text \<open>The second step again, now without a transaction: it is applied, and the row that records it fails.\<close>

definition demo_index_registry :: "int migration list" where
  "demo_index_registry = [demo_migration 2 0, (demo_migration 3 2)\<lparr>mg_no_txn := True\<rparr>]"

definition demo_index_env :: migrate_env where
  "demo_index_env = demo_migrate_env\<lparr>me_script := (\<lambda>k. \<lparr>tu_begin = None, tu_apply = None,
       tu_record = (if k = 1 then Some [Connection_Error False True] else None), tu_commit = Commit_Ok\<rparr>)\<rparr>"

lemma demo_index_behaves: "well_behaved (\<lambda>v d. d = v) (\<lambda>_ _ _. False) 5 demo_index_registry"
  by (auto simp: well_behaved_def demo_index_registry_def demo_migration_def moves_def midway_def)

lemma version_matches_schema_witness:
  "let s' = snd (migrate_owner demo_index_env demo_stream 5 3 demo_index_registry demo_baseline) in
     owner_version demo_stream (ms_log s') = Inr 2 \<and> ms_schema s' = 3
     \<and> stands (\<lambda>v d. d = v) (\<lambda>_ _ _. False) demo_index_registry 3 2 (ms_schema s')"
proof -
  let ?s' = "snd (migrate_owner demo_index_env demo_stream 5 3 demo_index_registry demo_baseline)"
  have "owner_version demo_stream (ms_log ?s') = Inr 2" "ms_schema ?s' = 3" by code_simp+
  moreover have "owner_version demo_stream (ms_log demo_baseline) = Inr 1"
    "stands (\<lambda>v d. d = v) (\<lambda>_ _ _. False) demo_index_registry 3 1 (ms_schema demo_baseline)"
    by (simp_all add: owner_version_def successes_def demo_baseline_def stands_def)
  note version_matches_schema [OF demo_index_behaves this prod.collapse [symmetric], of demo_index_env]
  ultimately show ?thesis by (auto simp: Let_def)
qed

section \<open>The floor\<close>

text \<open>The versions a walk passes, each the next from the one before it.\<close>

fun linked :: "step_type \<Rightarrow> int \<Rightarrow> int list \<Rightarrow> bool" where
  "linked ty u [] \<longleftrightarrow> True"
| "linked ty u (v # vs) \<longleftrightarrow> u = (case ty of Step_Up \<Rightarrow> v - 1 | Step_Down \<Rightarrow> v + 1) \<and> linked ty v vs"

lemma leads_linked:
  "leads target u vs \<Longrightarrow> u \<noteq> target \<longrightarrow> ty = (if u < target then Step_Up else Step_Down) \<Longrightarrow> linked ty u vs"
  by (induction vs arbitrary: u) (auto simp: step_to_next_def)

lemma linked_up: "linked Step_Up u [u + 1..t]"
  using leads_linked [OF leads_up, of u t Step_Up] by (cases "u \<le> t") auto

lemma linked_down: "linked Step_Down u (rev [t..u - 1])"
  using leads_linked [OF leads_down, of t u Step_Down] by (cases "t \<le> u") auto

text \<open>
  The success rows of an owner at version \<open>v\<close>: one for every step up to it, with the floor of the
  step, and otherwise rows of steps down, which have none.
\<close>

definition follows :: "'d migration list \<Rightarrow> int \<Rightarrow> migration_row \<Rightarrow> bool" where
  "follows reg v r \<longleftrightarrow> mr_version r = v \<and> mr_floor r = mg_min (reg ! nat (v - 2))"

definition log_follows :: "'d migration list \<Rightarrow> owner_columns \<Rightarrow> int \<Rightarrow> migration_log \<Rightarrow> bool" where
  "log_follows reg w v rows \<longleftrightarrow> owner_version w rows = Inr v \<and> 1 \<le> v \<and> v \<le> registry_version reg
     \<and> (\<forall>r \<in> set (successes w rows). 1 \<le> mr_version r \<and>
          (mr_floor r = 0 \<or> 2 \<le> mr_version r \<and> mr_version r \<le> registry_version reg \<and> follows reg (mr_version r) r))
     \<and> (\<forall>u. 2 \<le> u \<and> u \<le> v \<longrightarrow> (\<exists>r \<in> set (successes w rows). follows reg u r))"

lemma log_follows_cong:
  "successes w rows' = successes w rows \<Longrightarrow> log_follows reg w v rows' = log_follows reg w v rows"
  by (simp add: log_follows_def owner_version_def)

lemma successes_append:
  "successes w (rows @ [r]) = successes w rows @ (if mr_owner r = w \<and> mr_success r then [r] else [])"
  by (simp add: successes_def)

lemma log_follows_up:
  assumes "log_follows reg w u rows" "u = v - 1 \<or> u = v" "2 \<le> v" "v \<le> registry_version reg"
    and "sp_version st = v" "sp_floor st = mg_min (reg ! nat (v - 2))"
  shows "log_follows reg w v (rows @ [success_row w st])"
  unfolding log_follows_def
proof (intro conjI ballI allI impI)
  fix r assume "r \<in> set (successes w (rows @ [success_row w st]))"
  then show "1 \<le> mr_version r"
    "mr_floor r = 0 \<or> 2 \<le> mr_version r \<and> mr_version r \<le> registry_version reg \<and> follows reg (mr_version r) r"
    using assms by (auto simp: log_follows_def successes_append success_row_def follows_def)
next
  fix x assume x: "2 \<le> x \<and> x \<le> v"
  show "\<exists>r \<in> set (successes w (rows @ [success_row w st])). follows reg x r"
  proof (cases "x = v")
    case True
    then show ?thesis using assms(5,6) by (simp add: successes_append success_row_def follows_def)
  next
    case False
    then show ?thesis using x assms(1,2) by (force simp: log_follows_def successes_append)
  qed
qed (use assms in simp_all)

lemma log_follows_down:
  assumes "log_follows reg w u rows" "u = v + 1 \<or> u = v" "1 \<le> v" "sp_version st = v" "sp_floor st = 0"
  shows "log_follows reg w v (rows @ [success_row w st])"
  unfolding log_follows_def
proof (intro conjI ballI allI impI)
  fix r assume "r \<in> set (successes w (rows @ [success_row w st]))"
  then show "1 \<le> mr_version r"
    "mr_floor r = 0 \<or> 2 \<le> mr_version r \<and> mr_version r \<le> registry_version reg \<and> follows reg (mr_version r) r"
    using assms by (auto simp: log_follows_def successes_append success_row_def)
next
  fix x assume "2 \<le> x \<and> x \<le> v"
  then show "\<exists>r \<in> set (successes w (rows @ [success_row w st])). follows reg x r"
    using assms(1,2) by (force simp: log_follows_def successes_append)
next
  show "v \<le> registry_version reg" using assms(1,2) by (auto simp: log_follows_def)
qed (use assms in simp_all)

lemma run_step_once_log:
  assumes "run_step_once script w stream st s = (r, s')"
  shows "ms_log s' = ms_log s @ [success_row w st] \<or> ms_log s' = ms_log s \<and> r \<noteq> Inr ()"
  using assms
  by (auto simp: run_step_once_def run_step_with_tx_def step_body_def Let_def
      split: if_splits option.splits sum.splits prod.splits commit_fate.splits)

lemma floor_of_log:
  assumes reg: "validate_registry 0 reg = None" and log: "log_follows reg w v rows"
  shows "\<exists>f. schema_state w rows = Inr (v, f) \<and> 0 \<le> f
    \<and> (\<forall>m \<in> set reg. mg_version m \<le> v \<longrightarrow> mg_min m \<le> f)
    \<and> (f = 0 \<or> (\<exists>m \<in> set reg. mg_version m \<le> v \<and> mg_min m = f))"
proof -
  let ?below = "filter (\<lambda>r. mr_version r \<le> v) (successes w rows)"
  obtain r rs where last: "rev (successes w rows) = r # rs" "mr_version r = v"
    using log by (auto simp: log_follows_def owner_version_def split: list.splits)
  then have "r \<in> set (successes w rows)" by (metis list.set_intros(1) set_rev)
  with last(2) have "r \<in> set ?below" by simp
  then have "?below \<noteq> []" by (metis empty_iff empty_set)
  then obtain f where f: "sql_max (map mr_floor ?below) = Some f" by fastforce
  have pos: "mg_version m \<le> v \<Longrightarrow> \<exists>r \<in> set ?below. mr_floor r = mg_min m" if m: "m \<in> set reg" for m
  proof -
    obtain i where i: "i < length reg" "m = reg ! i" using m by (auto simp: in_set_conv_nth)
    then have ver: "mg_version m = int i + 2" using registry_position [OF reg] by simp
    assume "mg_version m \<le> v"
    with log ver have "\<exists>r \<in> set (successes w rows). follows reg (mg_version m) r" by (simp add: log_follows_def)
    then obtain r where "r \<in> set (successes w rows)" "follows reg (mg_version m) r" by blast
    then show ?thesis using \<open>mg_version m \<le> v\<close> ver i by (intro bexI [of _ r]) (auto simp: follows_def)
  qed
  have from_reg: "mr_floor r' = 0 \<or> (\<exists>m \<in> set reg. mg_version m \<le> v \<and> mg_min m = mr_floor r')"
    if "r' \<in> set ?below" for r'
  proof (cases "mr_floor r' = 0")
    case False
    let ?m = "reg ! nat (mr_version r' - 2)"
    have r': "2 \<le> mr_version r'" "mr_version r' \<le> registry_version reg" "mr_floor r' = mg_min ?m" "mr_version r' \<le> v"
      using that False log by (auto simp: log_follows_def follows_def)
    then have "nat (mr_version r' - 2) < length reg" by (auto simp: registry_version_def)
    then show ?thesis using r' registry_position [OF reg] by (intro disjI2 bexI [of _ ?m]) auto
  qed simp
  have "0 \<le> mg_min m" if "m \<in> set reg" for m
    using that registry_position [OF reg] by (auto simp: in_set_conv_nth)
  then have "0 \<le> mr_floor r'" if "r' \<in> set ?below" for r'
    using from_reg [OF that] by force
  moreover have "f \<in> mr_floor ` set ?below" using sql_max_in [OF f] by simp
  ultimately have "0 \<le> f" "f = 0 \<or> (\<exists>m \<in> set reg. mg_version m \<le> v \<and> mg_min m = f)"
    using from_reg by auto
  moreover have "mg_min m \<le> f" if "m \<in> set reg" "mg_version m \<le> v" for m
    using pos [OF that] sql_max_ge [OF f] by force
  moreover have "schema_state w rows = Inr (v, f)" using last f by (simp add: schema_state_def)
  ultimately show ?thesis by blast
qed

lemma step_between_log:
  assumes reg: "validate_registry 0 reg = None" and u: "log_follows reg w u (ms_log s)"
    and link: "u = (case ty of Step_Up \<Rightarrow> v - 1 | Step_Down \<Rightarrow> v + 1)"
    and step: "step_between env w stream reg ty v s = (r, s')"
  shows "(log_follows reg w u (ms_log s') \<or> log_follows reg w v (ms_log s'))
    \<and> (r = Inr () \<longrightarrow> log_follows reg w v (ms_log s'))"
proof (cases "ms_log s' = ms_log s \<and> r \<noteq> Inr ()")
  case True
  then show ?thesis using u by simp
next
  case False
  obtain i where i_def: "i = (case ty of Step_Up \<Rightarrow> v - 2 | Step_Down \<Rightarrow> v - 1)" by simp
  have "i < 0 \<or> int (length reg) \<le> i \<Longrightarrow> r \<noteq> Inr () \<and> s' = s"
    using step unfolding step_between_def Let_def i_def [symmetric] by auto
  then have i: "0 \<le> i" "i < int (length reg)" using False by fastforce+
  obtain m where m_def: "m = reg ! nat i" by simp
  have m: "mg_version m = i + 2" using i registry_position [OF reg, of "nat i"] by (simp add: m_def)
  have step': "(case to_step m ty (case ty of Step_Up \<Rightarrow> mg_version m | Step_Down \<Rightarrow> mg_version m - 1) of
        Inl e \<Rightarrow> (Inl e, s)
      | Inr st \<Rightarrow> (case run_step (me_script env) (me_ended env) (me_policy env) w stream st s of
            (Inl (_, e), s1) \<Rightarrow> (Inl (Step_Failed v e), s1)
          | (Inr x, s1) \<Rightarrow> (Inr x, s1))) = (r, s')"
    using step i unfolding step_between_def Let_def i_def [symmetric] m_def [symmetric] by simp
  then obtain st q where st: "to_step m ty (case ty of Step_Up \<Rightarrow> mg_version m | Step_Down \<Rightarrow> mg_version m - 1) = Inr st"
    and q: "run_step (me_script env) (me_ended env) (me_policy env) w stream st s = (q, s')" "r = Inr () \<longleftrightarrow> q = Inr ()"
    using False by (auto split: sum.splits prod.splits)
  have next_log: "log_follows reg w v (rows @ [success_row w st])"
    if "log_follows reg w u rows \<or> log_follows reg w v rows" for rows
  proof (cases ty)
    case Step_Up
    then have up: "2 \<le> v" "v \<le> registry_version reg" "sp_version st = v" "sp_floor st = mg_min (reg ! nat (v - 2))"
      using i st m by (auto simp: i_def m_def registry_version_def to_step_def new_step_def split: option.splits if_splits)
    from that show ?thesis
      using log_follows_up [OF _ _ up, of w u rows] log_follows_up [OF _ _ up, of w v rows] link Step_Up by auto
  next
    case Step_Down
    then have down: "1 \<le> v" "sp_version st = v" "sp_floor st = 0"
      using i st m by (auto simp: i_def to_step_def new_step_def split: option.splits if_splits)
    from that show ?thesis
      using log_follows_down [OF _ _ down, of reg w u rows] log_follows_down [OF _ _ down, of reg w v rows] link Step_Down
      by auto
  qed
  let ?P = "\<lambda>s. log_follows reg w u (ms_log s) \<or> log_follows reg w v (ms_log s)"
  have keeps: "?P (snd (run_step_once (me_script env) w stream st s))" if "?P s" for s
    using run_step_once_log [OF prod.collapse [symmetric], of "me_script env" w stream st s] next_log [OF that] that by auto
  note loop = q(1) [unfolded run_step_def wrap_non_idempotent_def]
  have "?P (snd (q, s'))" unfolding loop [symmetric] using u by (intro retry_loop_keeps [where P = ?P, OF keeps]) auto
  moreover have "log_follows reg w v (ms_log s')" if "q = Inr ()"
  proof -
    have "\<exists>s0. ?P s0 \<and> run_step_once (me_script env) w stream st s0 = (Inr (), s')"
      using u loop that by (intro retry_loop_success [where P = ?P, OF keeps]) auto
    then obtain s0 where "?P s0" "run_step_once (me_script env) w stream st s0 = (Inr (), s')" by blast
    then show ?thesis using run_step_once_log [of "me_script env" w stream st s0 "Inr ()" s'] next_log by auto
  qed
  ultimately show ?thesis using q(2) by simp
qed

lemma walk_log:
  assumes "validate_registry 0 reg = None"
  shows "linked ty u vs \<Longrightarrow> log_follows reg w u (ms_log s) \<Longrightarrow> walk_versions env w stream reg ty vs s = (r, s')
    \<Longrightarrow> \<exists>v'. log_follows reg w v' (ms_log s')"
proof (induction vs arbitrary: u s)
  case (Cons v vs)
  obtain q s1 where q: "step_between env w stream reg ty v s = (q, s1)" by fastforce
  have stay: "log_follows reg w u (ms_log s1) \<or> log_follows reg w v (ms_log s1)"
      "q = Inr () \<Longrightarrow> log_follows reg w v (ms_log s1)"
    using step_between_log [OF assms Cons.prems(2) _ q] Cons.prems(1) by auto
  show ?case
  proof (cases q)
    case (Inl e)
    then have "s' = try_record_failure env w v (error_text e) s1" using Cons.prems(3) q by auto
    then have "successes w (ms_log s') = successes w (ms_log s1)"
      by (simp add: try_record_failure_def successes_append)
    then show ?thesis using stay(1) log_follows_cong by blast
  next
    case (Inr x)
    then have "walk_versions env w stream reg ty vs s1 = (r, s')" using Cons.prems(3) q by simp
    from Cons.IH [OF _ stay(2) this] Inr Cons.prems(1) show ?thesis by auto
  qed
qed auto

text \<open>
  The history of an owner: its baseline, runs of migrations whatever happens in them, and rows of
  others and of failures.
\<close>

inductive migrated :: "'d migration list \<Rightarrow> owner_columns \<Rightarrow> 'd migrate_state \<Rightarrow> bool" for reg w where
  baseline: "successes w (ms_log s) = [\<lparr>mr_owner = w, mr_version = 1, mr_floor = 0, mr_success = True,
      mr_error = None\<rparr>] \<Longrightarrow> migrated reg w s"
| run: "migrated reg w s \<Longrightarrow> migrate_owner env w stream target reg s = (r, s') \<Longrightarrow> migrated reg w s'"
| others: "migrated reg w s \<Longrightarrow> successes w (ms_log s') = successes w (ms_log s) \<Longrightarrow> migrated reg w s'"

lemma migrated_log:
  assumes "validate_registry 0 reg = None"
  shows "migrated reg w s \<Longrightarrow> \<exists>v. log_follows reg w v (ms_log s)"
proof (induction rule: migrated.induct)
  case (baseline s)
  then have "log_follows reg w 1 (ms_log s)"
    by (auto simp: log_follows_def owner_version_def registry_version_def)
  then show ?case by blast
next
  case (run s env stream target r s')
  then obtain v where v: "log_follows reg w v (ms_log s)" by blast
  then have "owner_version w (ms_log s) = Inr v" by (simp add: log_follows_def)
  then consider "s' = s" | "walk_versions env w stream reg Step_Up [v + 1..target] s = (r, s')"
    | "walk_versions env w stream reg Step_Down (rev [target..v - 1]) s = (r, s')"
    using run.hyps(2) by (auto simp: migrate_owner_def split: if_splits)
  then show ?case
    using v walk_log [OF assms linked_up v] walk_log [OF assms linked_down v] by cases blast+
next
  case (others s s')
  then show ?case using log_follows_cong by blast
qed

text \<open>C29: Whatever migrations an owner went through, up and down, failed or repeated, the gate admits a
  build exactly if the schema is not behind it and no step between the build and the version of the
  schema declares a floor past the build: steps that only add leave every older build running, and a
  step that was taken back no longer counts.\<close>

theorem gate_admits_compatible_builds:
  assumes "validate_registry 0 reg = None" "migrated reg w s" "1 \<le> build"
  shows "\<exists>v f. schema_state w (ms_log s) = Inr (v, f)
    \<and> (assert_version_supported (v, f) build = None \<longleftrightarrow>
        build \<le> v \<and> (\<forall>m \<in> set reg. build < mg_version m \<and> mg_version m \<le> v \<longrightarrow> mg_min m \<le> build))"
proof -
  obtain v where "log_follows reg w v (ms_log s)" using migrated_log [OF assms(1,2)] by blast
  then obtain f where f: "schema_state w (ms_log s) = Inr (v, f)"
    "\<forall>m \<in> set reg. mg_version m \<le> v \<longrightarrow> mg_min m \<le> f"
    "f = 0 \<or> (\<exists>m \<in> set reg. mg_version m \<le> v \<and> mg_min m = f)"
    using floor_of_log [OF assms(1)] by blast
  have own: "mg_min m \<le> mg_version m" if "m \<in> set reg" for m
    using that registry_position [OF assms(1)] by (auto simp: in_set_conv_nth)
  have "f \<le> build \<longleftrightarrow> (\<forall>m \<in> set reg. build < mg_version m \<and> mg_version m \<le> v \<longrightarrow> mg_min m \<le> build)"
  proof
    assume steps: "\<forall>m \<in> set reg. build < mg_version m \<and> mg_version m \<le> v \<longrightarrow> mg_min m \<le> build"
    show "f \<le> build" using f(3) assms(3) own steps by force
  qed (use f(2) in force)
  then show ?thesis using f(1)
    by (auto simp: assert_version_supported_def classify_support_def split: if_splits)
qed

lemma gate_admits_compatible_builds_witness:
  "\<exists>v f. schema_state demo_stream (ms_log (snd (migrate_owner demo_migrate_env demo_stream 5 3 demo_registry
      demo_baseline))) = Inr (v, f)
    \<and> (assert_version_supported (v, f) 2 = None \<longleftrightarrow> 2 \<le> v \<and> (\<forall>m \<in> set demo_registry.
        2 < mg_version m \<and> mg_version m \<le> v \<longrightarrow> mg_min m \<le> 2))"
proof -
  have "migrated demo_registry demo_stream (snd (migrate_owner demo_migrate_env demo_stream 5 3 demo_registry demo_baseline))"
    by (rule migrated.run [OF migrated.baseline prod.collapse [symmetric]])
      (simp add: demo_baseline_def successes_def)
  then show ?thesis
    using demo_registry_behaves by (intro gate_admits_compatible_builds) (simp_all add: well_behaved_def)
qed

end
