(* ===== verification/Stream_Registry.thy ===== *)
theory Stream_Registry
  imports Migrations Schedules
begin

text \<open>
  Stream registration: \<open>pkg/stream/stream_config.go\<close>, \<open>pkg/stream/controller\<close>. A stream is a row of
  \<open>stream_config\<close>, a trail of snapshots in \<open>stream_config_log\<close>, a baseline row in \<open>migration_log\<close> and
  tables of its own. Registration and renaming are transactions that write the row and its snapshot
  together; deletion drains the partitions in batches of transactions before the last one. What other
  transactions commit between two steps of an operation is an argument of it.
\<close>

section \<open>Configuration\<close>

record stream_janitor_config =
  sj_poll_rate :: duration
  sj_batch_size :: int
  sj_cleanup_timeout :: duration
  sj_grace :: duration

record vacuum_config =
  vc_poll_rate :: duration
  vc_timeout :: duration

text \<open>\<open>sf_log_mode\<close> is the text of the mode, empty for the default.\<close>

record stream_config =
  sf_partition_size :: int
  sf_retention :: duration
  sf_allow_drop :: bool
  sf_key_ttl :: duration
  sf_head_ttl :: duration
  sf_log_mode :: string
  sf_janitor :: "stream_janitor_config option"
  sf_vacuum :: "vacuum_config option"

definition hour :: duration where "hour = 60 * minute"

definition stream_janitor_with_defaults :: "stream_janitor_config \<Rightarrow> stream_janitor_config" where
  "stream_janitor_with_defaults c = c\<lparr>
     sj_poll_rate := (if sj_poll_rate c = 0 then 5 * second else sj_poll_rate c),
     sj_batch_size := (if sj_batch_size c = 0 then 1000 else sj_batch_size c),
     sj_cleanup_timeout := (if sj_cleanup_timeout c = 0 then 5 * second else sj_cleanup_timeout c)\<rparr>"

definition vacuum_with_defaults :: "vacuum_config \<Rightarrow> vacuum_config" where
  "vacuum_with_defaults c = c\<lparr>
     vc_poll_rate := (if vc_poll_rate c = 0 then 2 * minute else vc_poll_rate c),
     vc_timeout := (if vc_timeout c = 0 then minute else vc_timeout c)\<rparr>"

definition zero_janitor :: stream_janitor_config where
  "zero_janitor = \<lparr>sj_poll_rate = 0, sj_batch_size = 0, sj_cleanup_timeout = 0, sj_grace = 0\<rparr>"

definition zero_vacuum :: vacuum_config where
  "zero_vacuum = \<lparr>vc_poll_rate = 0, vc_timeout = 0\<rparr>"

definition stream_config_with_defaults :: "stream_config \<Rightarrow> stream_config" where
  "stream_config_with_defaults c = c\<lparr>
     sf_partition_size := (if sf_partition_size c = 0 then 1000000 else sf_partition_size c),
     sf_key_ttl := (if sf_key_ttl c = 0 then 24 * hour else sf_key_ttl c),
     sf_head_ttl := (if sf_head_ttl c = 0 then hour else sf_head_ttl c),
     sf_log_mode := (if sf_log_mode c = '''' then ''failures'' else sf_log_mode c),
     sf_janitor := Some (stream_janitor_with_defaults
       (case sf_janitor c of None \<Rightarrow> zero_janitor | Some j \<Rightarrow> j)),
     sf_vacuum := Some (vacuum_with_defaults (case sf_vacuum c of None \<Rightarrow> zero_vacuum | Some v \<Rightarrow> v))\<rparr>"

datatype stream_error =
    Stream_Argument string
  | Stream_Config_Invalid string
  | Config_Mismatch int int
  | Stream_Declaration_Raced
  | Stream_Name_Taken
  | Stream_Unique_Violation
  | Stored_Log_Mode string
  | Partitions_Remain

definition validate_stream_janitor :: "stream_janitor_config \<Rightarrow> stream_error option" where
  "validate_stream_janitor c =
     (if sj_poll_rate c \<le> 0 then Some (Stream_Config_Invalid ''Janitor.PollRate'')
      else if sj_batch_size c \<le> 0 then Some (Stream_Config_Invalid ''Janitor.SweepBatchSize'')
      else if sj_cleanup_timeout c \<le> 0 then Some (Stream_Config_Invalid ''Janitor.CleanupTimeout'')
      else if sj_grace c < 0 then Some (Stream_Config_Invalid ''Janitor.PartialSweepGracePeriod'')
      else None)"

definition validate_vacuum :: "vacuum_config \<Rightarrow> stream_error option" where
  "validate_vacuum c =
     (if vc_poll_rate c \<le> 0 then Some (Stream_Config_Invalid ''Vacuum.PollRate'')
      else if vc_timeout c \<le> 0 then Some (Stream_Config_Invalid ''Vacuum.VacuumTimeout'')
      else None)"

definition log_mode_text :: "delivery_log_mode \<Rightarrow> string" where
  "log_mode_text m = (case m of Mode_Off \<Rightarrow> ''off'' | Mode_Failures \<Rightarrow> ''failures'' | Mode_All \<Rightarrow> ''all'')"

text \<open>\<open>deliveryLogModeEnum\<close> and \<open>validateDeliveryLogMode\<close> read the same three texts.\<close>

definition log_mode_enum :: "string \<Rightarrow> delivery_log_mode option" where
  "log_mode_enum t =
     (if t = ''off'' then Some Mode_Off
      else if t = ''failures'' then Some Mode_Failures
      else if t = ''all'' then Some Mode_All
      else None)"

definition validate_stream_config :: "stream_config \<Rightarrow> stream_error option" where
  "validate_stream_config c =
     (if sf_partition_size c < 2 then Some (Stream_Config_Invalid ''PartitionSize'')
      else if sf_retention c < 0 then Some (Stream_Config_Invalid ''RetentionTTL'')
      else if sf_key_ttl c < 0 then Some (Stream_Config_Invalid ''IdempotencyKeyTTL'')
      else if sf_head_ttl c \<le> 0 then Some (Stream_Config_Invalid ''EmptyCompactionHeadTTL'')
      else if log_mode_enum (sf_log_mode c) = None then Some (Stream_Config_Invalid ''DeliveryLogMode'')
      else (case sf_janitor c of
          None \<Rightarrow> None
        | Some j \<Rightarrow> (case validate_stream_janitor j of
              Some e \<Rightarrow> Some e
            | None \<Rightarrow> (case sf_vacuum c of None \<Rightarrow> None | Some v \<Rightarrow> validate_vacuum v))))"

section \<open>Rows\<close>

text \<open>The columns a declaration sets.\<close>

record stream_settings =
  ss_partition_size :: int
  ss_retention :: duration
  ss_allow_drop :: bool
  ss_key_ttl :: duration
  ss_head_ttl :: duration
  ss_log_mode :: string

record stream_config_row =
  st_id :: int
  st_system :: int
  st_name :: string
  st_settings :: stream_settings
  st_created :: time
  st_updated :: time

record stream_log_row =
  sl_stream :: int
  sl_name :: string
  sl_settings :: stream_settings
  sl_declared_by :: string
  sl_declared_at :: time

record stream_tables =
  tb_rows :: stream_db
  tb_size :: int
  tb_parts :: "int list"

record registry =
  stream_configs :: "stream_config_row list"
  stream_config_log :: "stream_log_row list"
  stream_migrations :: migration_log
  stream_tables_of :: "int \<Rightarrow> stream_tables option"
  next_stream :: int

type_synonym 'a registry_exec = "(stream_error + 'a) \<times> registry"

definition stream_named :: "string \<Rightarrow> stream_config_row \<Rightarrow> bool" where
  "stream_named n r \<longleftrightarrow> st_name r = n"

definition get_stream :: "registry \<Rightarrow> string \<Rightarrow> stream_config_row option" where
  "get_stream g n = find (stream_named n) (stream_configs g)"

definition get_stream_by_id :: "registry \<Rightarrow> int \<Rightarrow> stream_config_row option" where
  "get_stream_by_id g i = find (\<lambda>r. st_id r = i) (stream_configs g)"

definition list_streams :: "(string \<Rightarrow> 'o::linorder) \<Rightarrow> registry \<Rightarrow> stream_config_row list" where
  "list_streams order g = sort_key (\<lambda>r. order (st_name r)) (stream_configs g)"

section \<open>Registration\<close>

definition log_snapshot :: "string \<Rightarrow> time \<Rightarrow> stream_config_row \<Rightarrow> stream_log_row" where
  "log_snapshot declarer now r = \<lparr>sl_stream = st_id r, sl_name = st_name r, sl_settings = st_settings r,
     sl_declared_by = declarer, sl_declared_at = now\<rparr>"

definition append_stream_log :: "string \<Rightarrow> time \<Rightarrow> stream_config_row \<Rightarrow> registry \<Rightarrow> registry" where
  "append_stream_log declarer now r g = g\<lparr>stream_config_log := stream_config_log g @ [log_snapshot declarer now r]\<rparr>"

text \<open>\<open>configChanges\<close>: whether a declaration changes a mutable setting; the partition size is not one.\<close>

definition config_changes :: "stream_settings \<Rightarrow> stream_settings \<Rightarrow> bool" where
  "config_changes found declared \<longleftrightarrow> ss_retention found \<noteq> ss_retention declared
     \<or> ss_allow_drop found \<noteq> ss_allow_drop declared \<or> ss_key_ttl found \<noteq> ss_key_ttl declared
     \<or> ss_head_ttl found \<noteq> ss_head_ttl declared \<or> ss_log_mode found \<noteq> ss_log_mode declared"

definition set_mutable :: "stream_settings \<Rightarrow> stream_settings \<Rightarrow> stream_settings" where
  "set_mutable declared old = declared\<lparr>ss_partition_size := ss_partition_size old\<rparr>"

definition replace_stream_config ::
  "(registry \<Rightarrow> registry) \<Rightarrow> registry \<Rightarrow> stream_config_row \<Rightarrow> stream_settings \<Rightarrow> string \<Rightarrow> time
   \<Rightarrow> stream_config_row registry_exec" where
  "replace_stream_config between g found d declarer now =
     (if ss_partition_size (st_settings found) \<noteq> ss_partition_size d
      then (Inl (Config_Mismatch (ss_partition_size (st_settings found)) (ss_partition_size d)), g)
      else if \<not> config_changes (st_settings found) d then (Inr found, g)
      else
        (let g1 = between g;
             p = (\<lambda>r. st_id r = st_id found);
             f = (\<lambda>r. r\<lparr>st_settings := set_mutable d (st_settings r), st_updated := now\<rparr>);
             g2 = g1\<lparr>stream_configs := update_where p f (stream_configs g1)\<rparr> in
         case find p (stream_configs g2) of
           None \<Rightarrow> (Inl Stream_Declaration_Raced, g1)
         | Some r \<Rightarrow> (Inr r, append_stream_log declarer now r g2)))"

definition baseline_row :: "int \<Rightarrow> migration_row" where
  "baseline_row i = \<lparr>mr_owner = (None, Some i, None), mr_version = 1, mr_floor = 0, mr_success = True,
     mr_error = None\<rparr>"

definition create_stream :: "registry \<Rightarrow> int \<Rightarrow> string \<Rightarrow> stream_settings \<Rightarrow> string \<Rightarrow> time \<Rightarrow> stream_config_row \<times> registry" where
  "create_stream g sys n d declarer now =
     (let r = \<lparr>st_id = next_stream g, st_system = sys, st_name = n, st_settings = d, st_created = now,
                st_updated = now\<rparr> in
      (r, append_stream_log declarer now r (g\<lparr>stream_configs := stream_configs g @ [r],
            stream_migrations := stream_migrations g @ [baseline_row (st_id r)],
            stream_tables_of := (stream_tables_of g)(st_id r := Some \<lparr>tb_rows = empty_db, tb_size = ss_partition_size d, tb_parts = [0]\<rparr>),
            next_stream := next_stream g + 1\<rparr>)))"

text \<open>
  The first read has no lock; the advisory lock on the name keeps other registrations of it out of
  the rest, and their commits before it are \<open>between\<close>. A rename holds no such lock: one that takes
  the name after the second read makes the insert violate the unique index.
\<close>

definition register_stream ::
  "(registry \<Rightarrow> registry) \<Rightarrow> (registry \<Rightarrow> registry) \<Rightarrow> registry \<Rightarrow> int \<Rightarrow> string \<Rightarrow> stream_settings \<Rightarrow> string
   \<Rightarrow> time \<Rightarrow> stream_config_row registry_exec" where
  "register_stream between between2 g sys n d declarer now =
     (case get_stream g n of
        Some r \<Rightarrow> replace_stream_config between2 g r d declarer now
      | None \<Rightarrow>
          (let g1 = between g in
           case get_stream g1 n of
             Some r \<Rightarrow> replace_stream_config between2 g1 r d declarer now
           | None \<Rightarrow>
               (let g2 = between2 g1 in
                if get_stream g2 n \<noteq> None then (Inl Stream_Unique_Violation, g2)
                else (case create_stream g2 sys n d declarer now of (r, g3) \<Rightarrow> (Inr r, g3)))))"

text \<open>\<open>None\<close>: no stream has the old name.\<close>

definition rename_stream ::
  "registry \<Rightarrow> string \<Rightarrow> string \<Rightarrow> string \<Rightarrow> time \<Rightarrow> stream_config_row option registry_exec" where
  "rename_stream g old new declarer now =
     (case get_stream g old of
        None \<Rightarrow> (Inr None, g)
      | Some r \<Rightarrow>
          if new \<noteq> old \<and> get_stream g new \<noteq> None then (Inl Stream_Name_Taken, g)
          else (let r' = r\<lparr>st_name := new, st_updated := now\<rparr> in
            (Inr (Some r'), append_stream_log declarer now r'
              (g\<lparr>stream_configs := update_where (stream_named old)
                   (\<lambda>r. r\<lparr>st_name := new, st_updated := now\<rparr>) (stream_configs g)\<rparr>))))"

section \<open>The controller\<close>

definition to_stream :: "stream_config_row \<Rightarrow> stream_error + stream_config_row" where
  "to_stream r = (case log_mode_enum (ss_log_mode (st_settings r)) of
     None \<Rightarrow> Inl (Stored_Log_Mode (ss_log_mode (st_settings r)))
   | Some m \<Rightarrow> Inr r)"

definition to_settings :: "stream_config \<Rightarrow> stream_settings" where
  "to_settings c = \<lparr>ss_partition_size = sf_partition_size c, ss_retention = sf_retention c,
     ss_allow_drop = sf_allow_drop c, ss_key_ttl = sf_key_ttl c, ss_head_ttl = sf_head_ttl c,
     ss_log_mode = sf_log_mode c\<rparr>"

definition found_stream :: "stream_config_row option \<Rightarrow> stream_error + stream_config_row option" where
  "found_stream found = (case found of None \<Rightarrow> Inr None | Some r \<Rightarrow> map_sum id Some (to_stream r))"

definition get_stream_checked :: "registry \<Rightarrow> string \<Rightarrow> stream_error + stream_config_row option" where
  "get_stream_checked g n =
     (if n = '''' then Inl (Stream_Argument ''name'') else found_stream (get_stream g n))"

definition get_stream_by_id_checked :: "registry \<Rightarrow> int \<Rightarrow> stream_error + stream_config_row option" where
  "get_stream_by_id_checked g i =
     (if i \<le> 0 then Inl (Stream_Argument ''id'') else found_stream (get_stream_by_id g i))"

fun to_streams :: "stream_config_row list \<Rightarrow> stream_error + stream_config_row list" where
  "to_streams [] = Inr []"
| "to_streams (r # rs) = (case to_stream r of
     Inl e \<Rightarrow> Inl e
   | Inr x \<Rightarrow> (case to_streams rs of Inl e \<Rightarrow> Inl e | Inr xs \<Rightarrow> Inr (x # xs)))"

definition register_stream_checked ::
  "(registry \<Rightarrow> registry) \<Rightarrow> (registry \<Rightarrow> registry) \<Rightarrow> registry \<Rightarrow> int \<Rightarrow> string \<Rightarrow> stream_config \<Rightarrow> string
   \<Rightarrow> time \<Rightarrow> stream_config_row registry_exec" where
  "register_stream_checked between between2 g sys n cfg declarer now =
     (let c = stream_config_with_defaults cfg in
      if sys \<le> 0 then (Inl (Stream_Argument ''systemId''), g)
      else if \<not> is_slug n then (Inl (Stream_Argument ''name''), g)
      else (case validate_stream_config c of
          Some e \<Rightarrow> (Inl e, g)
        | None \<Rightarrow> (case register_stream between between2 g sys n (to_settings c) declarer now of
              (Inl e, g') \<Rightarrow> (Inl e, g')
            | (Inr r, g') \<Rightarrow> (to_stream r, g'))))"

definition rename_stream_checked ::
  "registry \<Rightarrow> string \<Rightarrow> string \<Rightarrow> string \<Rightarrow> time \<Rightarrow> stream_config_row option registry_exec" where
  "rename_stream_checked g old new declarer now =
     (if old = '''' then (Inl (Stream_Argument ''oldName''), g)
      else if \<not> is_slug new then (Inl (Stream_Argument ''newName''), g)
      else if new = old then (Inl (Stream_Argument ''nothing to rename''), g)
      else (case rename_stream g old new declarer now of
          (Inl e, g') \<Rightarrow> (Inl e, g')
        | (Inr found, g') \<Rightarrow> (found_stream found, g')))"

definition stream_is_empty :: "registry \<Rightarrow> int \<Rightarrow> bool option" where
  "stream_is_empty g i = map_option (\<lambda>t. message_log (tb_rows t) = []) (stream_tables_of g i)"

section \<open>Deletion\<close>

definition drop_partition_batch_size :: nat where "drop_partition_batch_size = 100"

text \<open>
  The partitions are dropped a batch at a time, each batch in a transaction of its own;
  \<open>others k\<close> is what producers and the janitor make of the partitions before pass \<open>k\<close> lists them,
  in the order the catalog returns them.
\<close>

fun drain_passes ::
  "(nat \<Rightarrow> int list \<Rightarrow> int list) \<Rightarrow> nat \<Rightarrow> nat \<Rightarrow> int list \<Rightarrow> (stream_error + unit) \<times> int list" where
  "drain_passes others 0 k ps = (Inl Partitions_Remain, ps)"
| "drain_passes others (Suc n) k ps =
     (let ps1 = others k ps; batch = take drop_partition_batch_size ps1 in
      if batch = [] then (Inr (), ps1)
      else drain_passes others n (Suc k) (filter (\<lambda>p. p \<notin> set batch) ps1))"

definition drain_partitions ::
  "(nat \<Rightarrow> int list \<Rightarrow> int list) \<Rightarrow> int list \<Rightarrow> (stream_error + unit) \<times> int list" where
  "drain_partitions others ps =
     (if ps = [] then (Inr (), ps)
      else drain_passes others (length ps div drop_partition_batch_size + 3) 0 ps)"

text \<open>Everything that refers to a stream, in the tables the streams share.\<close>

record 'm control_plane =
  cp_registry :: registry
  cp_groups :: "group_row list"
  cp_workers :: "'m worker_db"
  cp_schedules :: schedule_db

definition groups_of :: "int \<Rightarrow> 'm control_plane \<Rightarrow> int set" where
  "groups_of i p = gr_id ` set (filter (\<lambda>g. gr_stream g = i) (cp_groups p))"

definition owned_by_stream :: "int \<Rightarrow> int set \<Rightarrow> owner_columns \<Rightarrow> bool" where
  "owned_by_stream i gs w \<longleftrightarrow> (case w of (sys, stream, grp) \<Rightarrow>
     stream = Some i \<or> (case grp of None \<Rightarrow> False | Some x \<Rightarrow> x \<in> gs))"

text \<open>The foreign keys of the control plane, all \<open>ON DELETE CASCADE\<close>.\<close>

definition cascade_workers :: "int \<Rightarrow> int set \<Rightarrow> 'm worker_db \<Rightarrow> 'm worker_db" where
  "cascade_workers i gs db =
     (let gone = wc_id ` set (filter (\<lambda>c. owned_by_stream i gs (wc_owner c)) (worker_configs db)) in
      db\<lparr>worker_configs := delete_where (\<lambda>c. wc_id c \<in> gone) (worker_configs db),
         worker_config_logs := delete_where (\<lambda>l. wl_worker l \<in> gone) (worker_config_logs db),
         worker_instances := delete_where (\<lambda>x. wi_worker x \<in> gone) (worker_instances db),
         worker_instance_logs := delete_where (\<lambda>l. il_worker l \<in> gone) (worker_instance_logs db),
         wd_streams := delete_where (\<lambda>r. sf_id r = i) (wd_streams db),
         wd_groups := delete_where (\<lambda>r. gf_id r \<in> gs) (wd_groups db)\<rparr>)"

definition cascade_schedules :: "int \<Rightarrow> schedule_db \<Rightarrow> schedule_db" where
  "cascade_schedules i db =
     (let gone = sc_id ` set (filter (\<lambda>c. sc_stream c = i) (schedule_configs db)) in
      db\<lparr>schedule_configs := delete_where (\<lambda>c. sc_id c \<in> gone) (schedule_configs db),
         schedule_cursors := delete_where (\<lambda>u. su_schedule u \<in> gone) (schedule_cursors db)\<rparr>)"

definition delete_stream_rows :: "int \<Rightarrow> 'm control_plane \<Rightarrow> 'm control_plane" where
  "delete_stream_rows i p =
     (let g = cp_registry p; gs = groups_of i p in
      \<lparr>cp_registry = g\<lparr>stream_configs := delete_where (\<lambda>r. st_id r = i) (stream_configs g),
          stream_config_log := delete_where (\<lambda>l. sl_stream l = i) (stream_config_log g),
          stream_migrations := delete_where (\<lambda>r. owned_by_stream i gs (mr_owner r)) (stream_migrations g),
          stream_tables_of := (stream_tables_of g)(i := None)\<rparr>,
       cp_groups = delete_where (\<lambda>r. gr_stream r = i) (cp_groups p),
       cp_workers = cascade_workers i gs (cp_workers p),
       cp_schedules = cascade_schedules i (cp_schedules p)\<rparr>)"

text \<open>The partitions that are left after the drain, and the rows in them.\<close>

definition keep_partitions :: "int list \<Rightarrow> stream_tables \<Rightarrow> stream_tables" where
  "keep_partitions ps t = t\<lparr>tb_parts := ps,
     tb_rows := (tb_rows t)\<lparr>message_log := filter (\<lambda>m. msg_id m div tb_size t \<in> set ps) (message_log (tb_rows t))\<rparr>\<rparr>"

definition set_tables :: "int \<Rightarrow> (stream_tables \<Rightarrow> stream_tables) \<Rightarrow> 'm control_plane \<Rightarrow> 'm control_plane" where
  "set_tables i f p =
     (let g = cp_registry p in
      p\<lparr>cp_registry := g\<lparr>stream_tables_of := (stream_tables_of g)(i := map_option f (stream_tables_of g i))\<rparr>\<rparr>)"

text \<open>
  \<open>between\<close> is what others commit after the drain. The stream may be gone already, and deleting it
  again is no error.
\<close>

definition delete_stream ::
  "(nat \<Rightarrow> int list \<Rightarrow> int list) \<Rightarrow> ('m control_plane \<Rightarrow> 'm control_plane) \<Rightarrow> int \<Rightarrow> string \<Rightarrow> 'm control_plane
   \<Rightarrow> (stream_error + unit) \<times> 'm control_plane" where
  "delete_stream others between i n p =
     (if i \<le> 0 then (Inl (Stream_Argument ''streamId''), p)
      else if n = '''' then (Inl (Stream_Argument ''name''), p)
      else (case drain_partitions others
              (case stream_tables_of (cp_registry p) i of None \<Rightarrow> [] | Some t \<Rightarrow> tb_parts t) of
          (Inl e, ps) \<Rightarrow> (Inl e, set_tables i (keep_partitions ps) p)
        | (Inr _, ps) \<Rightarrow> (Inr (), delete_stream_rows i (between (set_tables i (keep_partitions ps) p)))))"

end
