(* ===== verification/Stream_Properties.thy ===== *)
theory Stream_Properties
  imports Stream_Registry "HOL-Library.Multiset"
begin

text \<open>
  What stream registration promises: the trail of declarations ends with the row as it is, deletion
  ends, and it leaves nothing behind that refers to the stream.
\<close>

section \<open>The trail of declarations\<close>

definition entries :: "registry \<Rightarrow> int \<Rightarrow> stream_log_row list" where
  "entries g i = filter (\<lambda>l. sl_stream l = i) (stream_config_log g)"

definition snapshot_of :: "stream_config_row \<Rightarrow> stream_log_row \<Rightarrow> bool" where
  "snapshot_of r l \<longleftrightarrow> sl_stream l = st_id r \<and> sl_name l = st_name r \<and> sl_settings l = st_settings r"

text \<open>
  Ids and names are unique, ids are drawn from the sequence, the newest entry of a stream is its row,
  and the partition size never changed.
\<close>

definition trail_inv :: "registry \<Rightarrow> bool" where
  "trail_inv g \<longleftrightarrow> distinct (map st_id (stream_configs g)) \<and> distinct (map st_name (stream_configs g))
     \<and> (\<forall>r \<in> set (stream_configs g). st_id r < next_stream g)
     \<and> (\<forall>l \<in> set (stream_config_log g). sl_stream l < next_stream g)
     \<and> (\<forall>r \<in> set (stream_configs g). entries g (st_id r) \<noteq> [] \<and> snapshot_of r (last (entries g (st_id r)))
          \<and> (\<forall>l \<in> set (entries g (st_id r)). ss_partition_size (sl_settings l) = ss_partition_size (st_settings r)))"

lemma entries_append_log [simp]:
  "entries (append_stream_log by' now r g) i = entries g i @ (if st_id r = i then [log_snapshot by' now r] else [])"
  by (simp add: entries_def append_stream_log_def log_snapshot_def)

lemma entries_configs [simp]: "entries (g\<lparr>stream_configs := cs\<rparr>) i = entries g i"
  by (simp add: entries_def)

lemma log_snapshot_fields [simp]:
  "sl_stream (log_snapshot by' now r) = st_id r" "sl_settings (log_snapshot by' now r) = st_settings r"
  by (simp_all add: log_snapshot_def)

lemma snapshot_of_log_snapshot [simp]: "snapshot_of r (log_snapshot by' now r)"
  by (simp add: snapshot_of_def log_snapshot_def)

text \<open>One row rewritten, with its snapshot: what replacing and renaming have in common.\<close>

lemma trail_rewrite:
  assumes inv: "trail_inv g" and r: "r \<in> set (stream_configs g)"
    and f: "st_id (f r) = st_id r" "ss_partition_size (st_settings (f r)) = ss_partition_size (st_settings r)"
    and new: "\<And>r'. r' \<in> set (stream_configs g) \<Longrightarrow> r' \<noteq> r \<Longrightarrow> st_name r' \<noteq> st_name (f r)"
    and p: "\<And>r'. r' \<in> set (stream_configs g) \<Longrightarrow> p r' \<longleftrightarrow> r' = r"
  shows "trail_inv (append_stream_log by' now (f r) (g\<lparr>stream_configs := update_where p f (stream_configs g)\<rparr>))"
    (is "trail_inv ?g'")
proof -
  let ?cs = "stream_configs g"
  have rows: "stream_configs ?g' = map (\<lambda>r'. if r' = r then f r else r') ?cs"
    using p by (auto simp: append_stream_log_def update_where_def)
  have ids: "map st_id (stream_configs ?g') = map st_id ?cs" using f(1) by (simp add: rows)
  have uniq: "r' = r" if "r' \<in> set ?cs" "st_id r' = st_id r" for r'
    using inv that r by (auto simp: trail_inv_def distinct_map dest: inj_onD)
  have names: "distinct (map st_name (stream_configs ?g'))"
  proof -
    have "inj_on st_name (set (stream_configs ?g'))"
      using inv new new [symmetric] by (auto simp: rows trail_inv_def distinct_map inj_on_def split: if_splits)
    moreover have "distinct (stream_configs ?g')"
      using inv ids by (metis distinct_map trail_inv_def)
    ultimately show ?thesis by (simp add: distinct_map)
  qed
  have same: "next_stream ?g' = next_stream g"
    "stream_config_log ?g' = stream_config_log g @ [log_snapshot by' now (f r)]"
    by (simp_all add: append_stream_log_def)
  have logs: "sl_stream l < next_stream g" if "l \<in> set (stream_config_log ?g')" for l
    using that inv r f(1) by (auto simp: same log_snapshot_def trail_inv_def)
  have current: "entries ?g' (st_id r') \<noteq> [] \<and> snapshot_of r' (last (entries ?g' (st_id r')))
      \<and> (\<forall>l \<in> set (entries ?g' (st_id r')). ss_partition_size (sl_settings l) = ss_partition_size (st_settings r'))"
    if r': "r' \<in> set (stream_configs ?g')" for r'
  proof (cases "st_id r' = st_id r")
    case True
    then have "r' = f r" using r' uniq f(1) by (auto simp: rows split: if_splits)
    then show ?thesis using inv r f by (simp add: trail_inv_def)
  next
    case False
    then have "r' \<in> set ?cs" using r' f(1) by (auto simp: rows split: if_splits)
    then show ?thesis using inv False f(1) by (simp add: trail_inv_def)
  qed
  have "\<forall>r' \<in> set (stream_configs ?g'). st_id r' < next_stream g"
    using inv ids by (metis (no_types, lifting) image_eqI in_set_conv_decomp list.set_map trail_inv_def imageE)
  then show ?thesis
    using inv names ids logs current unfolding trail_inv_def same by simp
qed

lemma replace_keeps_trail:
  assumes "trail_inv g" "trail_inv (between g)"
    and "replace_stream_config between g found d by' now = (res, g')"
  shows "trail_inv g'"
proof -
  let ?g1 = "between g"
  let ?p = "\<lambda>r. st_id r = st_id found"
  let ?f = "\<lambda>r. r\<lparr>st_settings := set_mutable d (st_settings r), st_updated := now\<rparr>"
  let ?g2 = "?g1\<lparr>stream_configs := update_where ?p ?f (stream_configs ?g1)\<rparr>"
  have found: "find ?p (stream_configs ?g2) = map_option ?f (find ?p (stream_configs ?g1))"
    by (simp add: find_update_key)
  show ?thesis
  proof (cases "find ?p (stream_configs ?g1)")
    case None
    then show ?thesis using assms found
      by (auto simp: replace_stream_config_def Let_def split: if_splits option.splits)
  next
    case (Some r)
    then have r: "r \<in> set (stream_configs ?g1)" "?p r" by (auto simp: find_Some_iff)
    have uniq: "r' = r" if "r' \<in> set (stream_configs ?g1)" "?p r' \<or> st_name r' = st_name r" for r'
      using assms(2) that r by (auto simp: trail_inv_def distinct_map inj_on_def)
    have "trail_inv (append_stream_log by' now (?f r) ?g2)"
      using r uniq by (intro trail_rewrite [OF assms(2)]) (auto simp: set_mutable_def)
    then show ?thesis using assms found Some
      by (auto simp: replace_stream_config_def Let_def split: if_splits option.splits)
  qed
qed

lemma rename_keeps_trail:
  assumes "trail_inv g" "rename_stream g old new by' now = (res, g')"
  shows "trail_inv g'"
proof (cases "get_stream g old")
  case None
  then show ?thesis using assms by (simp add: rename_stream_def)
next
  case (Some r)
  let ?f = "\<lambda>r. r\<lparr>st_name := new, st_updated := now\<rparr>"
  have r: "r \<in> set (stream_configs g)" "st_name r = old"
    using Some by (auto simp: get_stream_def find_Some_iff stream_named_def)
  have uniq: "r' = r" if "r' \<in> set (stream_configs g)" "st_name r' = old" for r'
    using assms(1) that r by (auto simp: trail_inv_def distinct_map inj_on_def)
  show ?thesis
  proof (cases "new \<noteq> old \<and> get_stream g new \<noteq> None")
    case True
    then show ?thesis using assms Some by (simp add: rename_stream_def)
  next
    case False
    then have free: "st_name r' \<noteq> new" if "r' \<in> set (stream_configs g)" "r' \<noteq> r" for r'
      using that uniq by (auto simp: get_stream_def find_None_iff stream_named_def)
    have "trail_inv (append_stream_log by' now (?f r)
        (g\<lparr>stream_configs := update_where (stream_named old) ?f (stream_configs g)\<rparr>))"
    proof (rule trail_rewrite [OF assms(1) r(1)])
      show "stream_named old r' \<longleftrightarrow> r' = r" if "r' \<in> set (stream_configs g)" for r'
        using that uniq r(2) unfolding stream_named_def by blast
    qed (use free in simp_all)
    moreover have "g' = append_stream_log by' now (?f r)
        (g\<lparr>stream_configs := update_where (stream_named old) ?f (stream_configs g)\<rparr>)"
      using assms(2) Some False unfolding rename_stream_def by (simp add: Let_def split: if_splits)
    ultimately show ?thesis by simp
  qed
qed

lemma create_keeps_trail:
  assumes inv: "trail_inv g" and free: "get_stream g n = None"
  shows "trail_inv (snd (create_stream g sys n d by' now))"
proof -
  have "entries g (next_stream g) = []"
    using inv by (auto simp: trail_inv_def entries_def filter_empty_conv)
  moreover have "entries (g\<lparr>stream_configs := cs, stream_migrations := ms, stream_tables_of := ts, next_stream := k\<rparr>) i
      = entries g i" for cs ms ts k i by (simp add: entries_def)
  moreover have "st_id r \<noteq> next_stream g" "st_name r \<noteq> n" if "r \<in> set (stream_configs g)" for r
    using inv free that by (auto simp: trail_inv_def get_stream_def find_None_iff stream_named_def)
  ultimately show ?thesis
    using inv unfolding trail_inv_def create_stream_def Let_def
    by (fastforce simp: append_stream_log_def log_snapshot_def entries_def snapshot_of_def)
qed

lemma register_keeps_trail:
  assumes "trail_inv g" "trail_inv (between g)" "trail_inv (between2 g)" "trail_inv (between2 (between g))"
    and "register_stream between between2 g sys n d by' now = (res, g')"
  shows "trail_inv g'"
proof (cases "get_stream g n")
  case (Some r)
  then show ?thesis using assms replace_keeps_trail [where between = between2, OF assms(1,3)] by (simp add: register_stream_def)
next
  case None
  show ?thesis
  proof (cases "get_stream (between g) n")
    case (Some r)
    then show ?thesis using assms None replace_keeps_trail [where between = between2, OF assms(2,4)] by (simp add: register_stream_def Let_def)
  next
    case absent: None
    then show ?thesis
      using assms None create_keeps_trail [OF assms(4)]
      by (auto simp: register_stream_def Let_def split: if_splits prod.splits) (metis snd_conv)
  qed
qed

lemma delete_keeps_trail:
  assumes inv: "trail_inv (cp_registry p)"
  shows "trail_inv (cp_registry (delete_stream_rows i p))"
proof -
  have e: "entries (cp_registry (delete_stream_rows i p)) j = (if j = i then [] else entries (cp_registry p) j)" for j
    by (auto simp: entries_def delete_stream_rows_def Let_def delete_where_def intro: filter_cong)
  have c: "stream_configs (cp_registry (delete_stream_rows i p)) = filter (\<lambda>r. st_id r \<noteq> i) (stream_configs (cp_registry p))"
    "next_stream (cp_registry (delete_stream_rows i p)) = next_stream (cp_registry p)"
    "set (stream_config_log (cp_registry (delete_stream_rows i p))) \<subseteq> set (stream_config_log (cp_registry p))"
    by (auto simp: delete_stream_rows_def Let_def delete_where_def)
  show ?thesis
    using inv c(3) unfolding trail_inv_def c e by (auto simp: distinct_map_filter)
qed

text \<open>
  The histories of the registry: an empty one, and then registrations, renames and deletions, where
  what others commit between two steps of an operation is itself such a history.
\<close>

inductive registry_history :: "registry \<Rightarrow> bool" where
  empty: "stream_configs g = [] \<Longrightarrow> stream_config_log g = [] \<Longrightarrow> registry_history g"
| registered: "registry_history g \<Longrightarrow> registry_history (between g) \<Longrightarrow> registry_history (between2 g)
    \<Longrightarrow> registry_history (between2 (between g))
    \<Longrightarrow> register_stream between between2 g sys n d by' now = (res, g') \<Longrightarrow> registry_history g'"
| renamed: "registry_history g \<Longrightarrow> rename_stream g old new by' now = (res, g') \<Longrightarrow> registry_history g'"
| deleted: "registry_history (cp_registry p) \<Longrightarrow> registry_history (cp_registry (delete_stream_rows i (p :: unit control_plane)))"

text \<open>C31: In any interleaving of registrations, replacements, renames and deletions, streams have
  unique ids and names, the newest entry of a stream in the trail of declarations is the stream as it
  is stored, name and settings, and no entry of it has another partition size: the boundaries of its
  partitions never move.\<close>

theorem trail_ends_with_the_row:
  assumes "registry_history g" "r \<in> set (stream_configs g)"
  shows "distinct (map st_id (stream_configs g)) \<and> distinct (map st_name (stream_configs g))
    \<and> entries g (st_id r) \<noteq> [] \<and> snapshot_of r (last (entries g (st_id r)))
    \<and> (\<forall>l \<in> set (entries g (st_id r)). ss_partition_size (sl_settings l) = ss_partition_size (st_settings r))"
proof -
  have "trail_inv g"
    using assms(1)
  proof (induction rule: registry_history.induct)
    case (empty g)
    then show ?case by (simp add: trail_inv_def)
  next
    case (registered g between between2 sys n d by' now res g')
    then show ?case using register_keeps_trail by blast
  next
    case (renamed g old new by' now res g')
    then show ?case using rename_keeps_trail by blast
  next
    case (deleted p i)
    then show ?case using delete_keeps_trail by blast
  qed
  with assms(2) show ?thesis by (auto simp: trail_inv_def)
qed

text \<open>A stream that is registered, given a retention by a second declaration, and renamed.\<close>

definition demo_settings :: "duration \<Rightarrow> stream_settings" where
  "demo_settings ttl = \<lparr>ss_partition_size = 10, ss_retention = ttl, ss_allow_drop = False, ss_key_ttl = hour,
     ss_head_ttl = hour, ss_log_mode = ''failures''\<rparr>"

definition demo_registry0 :: registry where
  "demo_registry0 = \<lparr>stream_configs = [], stream_config_log = [], stream_migrations = [],
     stream_tables_of = (\<lambda>_. None), next_stream = 1\<rparr>"

definition demo_registry1 :: registry where
  "demo_registry1 = snd (register_stream id id demo_registry0 1 ''orders'' (demo_settings 0) ''a'' 10)"

definition demo_registry2 :: registry where
  "demo_registry2 = snd (register_stream id id demo_registry1 1 ''orders'' (demo_settings hour) ''b'' 20)"

definition demo_registry3 :: registry where
  "demo_registry3 = snd (rename_stream demo_registry2 ''orders'' ''sales'' ''c'' 30)"

definition demo_row :: stream_config_row where
  "demo_row = \<lparr>st_id = 1, st_system = 1, st_name = ''sales'', st_settings = demo_settings hour, st_created = 10,
     st_updated = 30\<rparr>"

lemma registered_alone:
  "registry_history g \<Longrightarrow> registry_history (snd (register_stream id id g sys n d by' now))"
  by (rule registry_history.registered [OF _ _ _ _ prod.collapse [symmetric]]) simp_all

lemma demo_history: "registry_history demo_registry3"
proof -
  have "registry_history demo_registry0" by (rule registry_history.empty) (simp_all add: demo_registry0_def)
  then have "registry_history demo_registry2"
    unfolding demo_registry2_def demo_registry1_def by (intro registered_alone)
  then show ?thesis
    unfolding demo_registry3_def by (rule registry_history.renamed [OF _ prod.collapse [symmetric]])
qed

lemma trail_ends_with_the_row_witness:
  "stream_configs demo_registry3 = [demo_row] \<and> length (entries demo_registry3 1) = 3
    \<and> snapshot_of demo_row (last (entries demo_registry3 1))"
proof -
  have rows: "stream_configs demo_registry3 = [demo_row]" "length (entries demo_registry3 1) = 3"
    by code_simp+
  then have "demo_row \<in> set (stream_configs demo_registry3)" by simp
  from trail_ends_with_the_row [OF demo_history this] rows show ?thesis by (simp add: demo_row_def)
qed

section \<open>Deletion\<close>

lemma drain_passes_empties:
  assumes "\<And>k ps. mset (others k ps) \<subseteq># mset ps"
  shows "length ps + drop_partition_batch_size \<le> n * drop_partition_batch_size \<Longrightarrow> drain_passes others n k ps = (Inr (), [])"
proof (induction n arbitrary: k ps)
  case (Suc n)
  let ?ps1 = "others k ps"
  have len: "length ?ps1 \<le> length ps" using assms size_mset_mono by fastforce
  show ?case
  proof (cases "?ps1 = []")
    case True
    then show ?thesis by simp
  next
    case False
    let ?rest = "filter (\<lambda>p. p \<notin> set (take drop_partition_batch_size ?ps1)) ?ps1"
    have "length ?rest \<le> length ?ps1 - drop_partition_batch_size"
    proof -
      have "filter (\<lambda>p. p \<notin> set (take drop_partition_batch_size ?ps1)) (take drop_partition_batch_size ?ps1) = []"
        by (simp add: filter_empty_conv)
      then have "?rest = filter (\<lambda>p. p \<notin> set (take drop_partition_batch_size ?ps1)) (drop drop_partition_batch_size ?ps1)"
        by (metis append_Nil append_take_drop_id filter_append)
      then show ?thesis by (metis length_drop length_filter_le)
    qed
    moreover have "0 < length ?ps1" using False by simp
    moreover have "1 \<le> n" using Suc.prems len \<open>0 < length ?ps1\<close> by (cases n) (auto simp: drop_partition_batch_size_def)
    ultimately have "length ?rest + drop_partition_batch_size \<le> n * drop_partition_batch_size"
      using Suc.prems len by (simp add: drop_partition_batch_size_def)
    from Suc.IH [OF this] False show ?thesis by (simp add: Let_def drop_partition_batch_size_def)
  qed
qed (simp add: drop_partition_batch_size_def)

text \<open>Deleting a stream always gets its log empty, however many partitions it has and however
  the catalog lists them, within the number of passes it allows itself, as long as no one creates
  partitions meanwhile; what a janitor drops in between does no harm.\<close>

theorem drain_empties_the_log:
  assumes "\<forall>k ps. mset (others k ps) \<subseteq># mset ps"
  shows "drain_partitions others ps = (Inr (), [])"
proof -
  have "length ps + drop_partition_batch_size \<le> (length ps div drop_partition_batch_size + 3) * drop_partition_batch_size"
    using div_mult_mod_eq [of "length ps" 100] mod_less_divisor [of 100 "length ps"]
    by (simp add: drop_partition_batch_size_def algebra_simps)
  then show ?thesis using drain_passes_empties [of others] assms by (simp add: drain_partitions_def)
qed

lemma drain_empties_the_log_witness: "drain_partitions (\<lambda>k ps. rev (tl ps)) [0, 1, 2, 3] = (Inr (), [])"
proof (rule drain_empties_the_log, intro allI)
  fix k :: nat and ps :: "int list"
  show "mset (rev (tl ps)) \<subseteq># mset ps" by (cases ps) simp_all
qed

text \<open>Every row of the control plane that refers to another has it: the foreign keys.\<close>

definition stream_ids :: "'m control_plane \<Rightarrow> int set" where
  "stream_ids p = st_id ` set (stream_configs (cp_registry p))"

definition owner_exists :: "int set \<Rightarrow> int set \<Rightarrow> owner_columns \<Rightarrow> bool" where
  "owner_exists ss gs w \<longleftrightarrow> (case w of (sys, stream, grp) \<Rightarrow>
     (\<forall>i. stream = Some i \<longrightarrow> i \<in> ss) \<and> (\<forall>i. grp = Some i \<longrightarrow> i \<in> gs))"

definition linked_up_rows :: "'m control_plane \<Rightarrow> bool" where
  "linked_up_rows p \<longleftrightarrow>
     (let g = cp_registry p; ss = stream_ids p; gs = gr_id ` set (cp_groups p); w = cp_workers p;
          ws = wc_id ` set (worker_configs w); sd = cp_schedules p in
      (\<forall>l \<in> set (stream_config_log g). sl_stream l \<in> ss)
      \<and> (\<forall>i. stream_tables_of g i \<noteq> None \<longleftrightarrow> i \<in> ss)
      \<and> (\<forall>r \<in> set (stream_migrations g). owner_exists ss gs (mr_owner r))
      \<and> (\<forall>r \<in> set (cp_groups p). gr_stream r \<in> ss)
      \<and> (\<forall>c \<in> set (worker_configs w). owner_exists ss gs (wc_owner c))
      \<and> (\<forall>l \<in> set (worker_config_logs w). wl_worker l \<in> ws)
      \<and> (\<forall>x \<in> set (worker_instances w). wi_worker x \<in> ws)
      \<and> (\<forall>l \<in> set (worker_instance_logs w). il_worker l \<in> ws)
      \<and> (\<forall>c \<in> set (schedule_configs sd). sc_stream c \<in> ss)
      \<and> (\<forall>u \<in> set (schedule_cursors sd). su_schedule u \<in> sc_id ` set (schedule_configs sd)))"

text \<open>Group ids are a primary key, so a group is in one stream.\<close>

definition one_stream_each :: "'m control_plane \<Rightarrow> bool" where
  "one_stream_each p \<longleftrightarrow> distinct (map gr_id (cp_groups p))"

lemma delete_rows_linked:
  assumes "linked_up_rows p" "one_stream_each p"
  shows "linked_up_rows (delete_stream_rows i p)"
proof -
  let ?q = "delete_stream_rows i p"
  have ss: "stream_ids ?q = stream_ids p - {i}"
    by (auto simp: stream_ids_def delete_stream_rows_def Let_def sql_set)
  have groups: "gr_id ` set (cp_groups ?q) = gr_id ` set (cp_groups p) - groups_of i p"
    using assms(2) by (auto simp: delete_stream_rows_def Let_def sql_set groups_of_def one_stream_each_def
        distinct_map inj_on_def)
  have own: "owner_exists (stream_ids ?q) (gr_id ` set (cp_groups ?q)) w"
    if "owner_exists (stream_ids p) (gr_id ` set (cp_groups p)) w" "\<not> owned_by_stream i (groups_of i p) w" for w
    using that unfolding ss groups by (auto simp: owner_exists_def owned_by_stream_def split: prod.splits option.splits)
  let ?gone = "wc_id ` set (filter (\<lambda>c. owned_by_stream i (groups_of i p) (wc_owner c)) (worker_configs (cp_workers p)))"
  have ws: "wc_id ` set (worker_configs (cp_workers ?q)) = wc_id ` set (worker_configs (cp_workers p)) - ?gone"
    by (auto simp: delete_stream_rows_def cascade_workers_def Let_def sql_set)
  let ?sg = "sc_id ` set (filter (\<lambda>c. sc_stream c = i) (schedule_configs (cp_schedules p)))"
  have sc: "sc_id ` set (schedule_configs (cp_schedules ?q)) = sc_id ` set (schedule_configs (cp_schedules p)) - ?sg"
    by (auto simp: delete_stream_rows_def cascade_schedules_def Let_def sql_set)
  have sel: "set (stream_config_log (cp_registry ?q)) = {l \<in> set (stream_config_log (cp_registry p)). sl_stream l \<noteq> i}"
    "stream_tables_of (cp_registry ?q) = (stream_tables_of (cp_registry p))(i := None)"
    "set (stream_migrations (cp_registry ?q))
       = {r \<in> set (stream_migrations (cp_registry p)). \<not> owned_by_stream i (groups_of i p) (mr_owner r)}"
    "set (cp_groups ?q) = {r \<in> set (cp_groups p). gr_stream r \<noteq> i}"
    "set (worker_config_logs (cp_workers ?q)) = {l \<in> set (worker_config_logs (cp_workers p)). wl_worker l \<notin> ?gone}"
    "set (worker_instances (cp_workers ?q)) = {l \<in> set (worker_instances (cp_workers p)). wi_worker l \<notin> ?gone}"
    "set (worker_instance_logs (cp_workers ?q)) = {l \<in> set (worker_instance_logs (cp_workers p)). il_worker l \<notin> ?gone}"
    "set (schedule_configs (cp_schedules ?q)) \<subseteq> {c \<in> set (schedule_configs (cp_schedules p)). sc_stream c \<noteq> i}"
    "set (schedule_cursors (cp_schedules ?q)) = {u \<in> set (schedule_cursors (cp_schedules p)). su_schedule u \<notin> ?sg}"
    by (auto simp: delete_stream_rows_def cascade_workers_def cascade_schedules_def Let_def sql_set)
  have workers: "\<not> owned_by_stream i (groups_of i p) (wc_owner c) \<and> c \<in> set (worker_configs (cp_workers p))"
    if "c \<in> set (worker_configs (cp_workers ?q))" for c
    using that by (auto simp: delete_stream_rows_def cascade_workers_def Let_def sql_set)
  note old = assms(1) [unfolded linked_up_rows_def Let_def]
  have "\<forall>r \<in> set (stream_migrations (cp_registry ?q)). owner_exists (stream_ids ?q) (gr_id ` set (cp_groups ?q)) (mr_owner r)"
    using old own by (simp add: sel(3))
  moreover have "\<forall>c \<in> set (worker_configs (cp_workers ?q)). owner_exists (stream_ids ?q) (gr_id ` set (cp_groups ?q)) (wc_owner c)"
    using old own workers by blast
  moreover have "\<forall>c \<in> set (schedule_configs (cp_schedules ?q)). sc_stream c \<in> stream_ids ?q"
    using old sel(8) by (auto simp: ss)
  moreover have "\<forall>u \<in> set (schedule_cursors (cp_schedules ?q)). su_schedule u \<in> sc_id ` set (schedule_configs (cp_schedules ?q))"
    using old by (simp add: sel(9) sc)
  moreover have "\<forall>i'. stream_tables_of (cp_registry ?q) i' \<noteq> None \<longleftrightarrow> i' \<in> stream_ids ?q"
    using old by (simp add: sel(2) ss)
  ultimately show ?thesis
    using old unfolding linked_up_rows_def Let_def ws by (simp add: sel(1,4-7) ss)
qed

lemma set_tables_keeps:
  "linked_up_rows (set_tables i f p) = linked_up_rows p" "one_stream_each (set_tables i f p) = one_stream_each p"
proof -
  have "stream_ids (set_tables i f p) = stream_ids p" by (simp add: stream_ids_def set_tables_def Let_def)
  moreover have "stream_tables_of (cp_registry (set_tables i f p)) j \<noteq> None \<longleftrightarrow> stream_tables_of (cp_registry p) j \<noteq> None" for j
    by (simp add: set_tables_def Let_def)
  ultimately show "linked_up_rows (set_tables i f p) = linked_up_rows p"
    by (simp add: linked_up_rows_def Let_def) (simp add: set_tables_def Let_def)
qed (simp add: one_stream_each_def set_tables_def Let_def)

lemma find_delete_where: "(\<And>r. p r \<Longrightarrow> \<not> q r) \<Longrightarrow> find q (delete_where p rs) = find q rs"
  by (induction rs) (auto simp: delete_where_def)

text \<open>C30: A stream that was deleted leaves nothing behind that refers to it, no table, trail,
  migration, consumer group, worker, instance, schedule or cursor, and every row that is left has all
  it refers to; the other streams keep their rows and tables as the last transaction found them.\<close>

theorem deleted_stream_leaves_no_trace:
  assumes "linked_up_rows p" "one_stream_each p"
    and "\<forall>u. linked_up_rows u \<and> one_stream_each u \<longrightarrow> linked_up_rows (between u) \<and> one_stream_each (between u)"
    and "delete_stream others between i n p = (Inr (), q)"
  shows "linked_up_rows q \<and> get_stream_by_id (cp_registry q) i = None \<and> stream_tables_of (cp_registry q) i = None
    \<and> (\<forall>l \<in> set (stream_config_log (cp_registry q)). sl_stream l \<noteq> i)
    \<and> (\<forall>r \<in> set (cp_groups q). gr_stream r \<noteq> i)
    \<and> (\<forall>c \<in> set (worker_configs (cp_workers q)). fst (snd (wc_owner c)) \<noteq> Some i)
    \<and> (\<forall>c \<in> set (schedule_configs (cp_schedules q)). sc_stream c \<noteq> i)
    \<and> (\<exists>ps. \<forall>j. j \<noteq> i \<longrightarrow>
        get_stream_by_id (cp_registry q) j = get_stream_by_id (cp_registry (between (set_tables i (keep_partitions ps) p))) j
        \<and> stream_tables_of (cp_registry q) j = stream_tables_of (cp_registry (between (set_tables i (keep_partitions ps) p))) j)"
proof -
  from assms(4) obtain ps where q: "q = delete_stream_rows i (between (set_tables i (keep_partitions ps) p))"
    by (auto simp: delete_stream_def split: if_splits prod.splits sum.splits)
  let ?u = "between (set_tables i (keep_partitions ps) p)"
  have u: "linked_up_rows ?u" "one_stream_each ?u" using assms(1-3) set_tables_keeps by blast+
  have linked: "linked_up_rows q" unfolding q by (rule delete_rows_linked [OF u])
  have gone: "i \<notin> stream_ids q" by (auto simp: q stream_ids_def delete_stream_rows_def Let_def sql_set)
  have "fst (snd (wc_owner c)) \<noteq> Some i" if "c \<in> set (worker_configs (cp_workers q))" for c
  proof -
    have "owner_exists (stream_ids q) (gr_id ` set (cp_groups q)) (wc_owner c)"
      using linked that unfolding linked_up_rows_def Let_def by blast
    then show ?thesis using gone by (cases "wc_owner c") (auto simp: owner_exists_def)
  qed
  moreover have "get_stream_by_id (cp_registry q) i = None"
    using gone by (auto simp: get_stream_by_id_def find_None_iff stream_ids_def)
  moreover have "get_stream_by_id (cp_registry q) j = get_stream_by_id (cp_registry ?u) j
      \<and> stream_tables_of (cp_registry q) j = stream_tables_of (cp_registry ?u) j" if "j \<noteq> i" for j
    using that find_delete_where [of "\<lambda>r. st_id r = i" "\<lambda>r. st_id r = j" "stream_configs (cp_registry ?u)"]
    by (auto simp: q get_stream_by_id_def delete_stream_rows_def Let_def)
  moreover have "\<forall>l \<in> set (stream_config_log (cp_registry q)). sl_stream l \<noteq> i"
      "\<forall>r \<in> set (cp_groups q). gr_stream r \<noteq> i" "\<forall>c \<in> set (schedule_configs (cp_schedules q)). sc_stream c \<noteq> i"
      "stream_tables_of (cp_registry q) i = None"
    using linked gone unfolding linked_up_rows_def Let_def by auto
  ultimately show ?thesis using linked by blast
qed

text \<open>A stream with a group, whose worker goes with it.\<close>

definition demo_plane :: "unit control_plane" where
  "demo_plane = \<lparr>cp_registry = snd (create_stream demo_registry0 1 ''orders'' (demo_settings 0) ''a'' 10),
     cp_groups = [\<lparr>gr_id = 4, gr_stream = 1, gr_name = ''g''\<rparr>],
     cp_workers = \<lparr>worker_configs = [\<lparr>wc_id = 6, wc_owner = (None, None, Some 4), wc_name = ''w'', wc_metadata = (),
         wc_target = 1, wc_created = 0, wc_updated = 0\<rparr>], worker_config_logs = [], worker_instances = [],
         worker_instance_logs = [], next_worker = 7, next_instance = 1, next_instance_log = 1, wd_streams = [],
         wd_groups = []\<rparr>,
     cp_schedules = \<lparr>schedule_configs = [], schedule_cursors = [], next_schedule = 1\<rparr>\<rparr>"

lemma demo_plane_linked: "linked_up_rows demo_plane" "one_stream_each demo_plane"
  by (simp_all add: linked_up_rows_def one_stream_each_def demo_plane_def create_stream_def demo_registry0_def
      append_stream_log_def log_snapshot_def baseline_row_def stream_ids_def owner_exists_def Let_def)

lemma deleted_stream_leaves_no_trace_witness:
  "\<exists>q. delete_stream (\<lambda>_ ps. ps) id 1 ''orders'' demo_plane = (Inr (), q) \<and> linked_up_rows q
    \<and> (\<forall>r \<in> set (cp_groups q). gr_stream r \<noteq> 1)"
proof -
  have "drain_partitions (\<lambda>_ ps. ps) [0] = (Inr (), [])" by code_simp
  then obtain q where q: "delete_stream (\<lambda>_ ps. ps) id 1 ''orders'' demo_plane = (Inr (), q)"
    by (simp add: delete_stream_def demo_plane_def create_stream_def demo_registry0_def append_stream_log_def Let_def)
  then show ?thesis
    using deleted_stream_leaves_no_trace [OF demo_plane_linked _ q] by auto
qed

end
