(* ===== verification/Scheduler.thy ===== *)
theory Scheduler
  imports Schedule_Properties Stream_Registry
begin

text \<open>
  What a program calls: \<open>pkg/scheduler\<close>, the checks of \<open>pkg/schedule/controller/schedule.go\<close> and the
  configuration of the schedule producer. A registration finds its target stream and passes the
  schema gate; an immediate run produces the stored message outside its expression. What the producer
  does with the message it is handed is \<open>Produce\<close>.
\<close>

section \<open>The controller\<close>

definition to_schedule :: "schedule_row \<Rightarrow> schedule_error + schedule_row" where
  "to_schedule r = (if validate_policy (sc_concurrency (fst r)) then Inr r else Inl Stored_Concurrency)"

definition get_schedule_checked :: "schedule_db \<Rightarrow> string \<Rightarrow> schedule_error + schedule_row option" where
  "get_schedule_checked db n =
     (if n = '''' then Inl (Schedule_Argument ''name'')
      else (case get_schedule db n of None \<Rightarrow> Inr None | Some r \<Rightarrow> map_sum id Some (to_schedule r)))"

fun to_schedules :: "schedule_row list \<Rightarrow> schedule_error + schedule_row list" where
  "to_schedules [] = Inr []"
| "to_schedules (r # rs) = (case to_schedule r of
     Inl e \<Rightarrow> Inl e
   | Inr x \<Rightarrow> (case to_schedules rs of Inl e \<Rightarrow> Inl e | Inr xs \<Rightarrow> Inr (x # xs)))"

definition suspend_schedule_checked :: "schedule_db \<Rightarrow> string \<Rightarrow> time \<Rightarrow> unit schedule_exec" where
  "suspend_schedule_checked db n now =
     (if n = '''' then (Inl (Schedule_Argument ''name''), db) else suspend_schedule db n now)"

definition delete_schedule_checked :: "schedule_db \<Rightarrow> string \<Rightarrow> unit schedule_exec" where
  "delete_schedule_checked db n =
     (if n = '''' then (Inl (Schedule_Argument ''name''), db) else delete_schedule db n)"

definition list_schedules_checked ::
  "(string \<Rightarrow> 'o::linorder) \<Rightarrow> schedule_db \<Rightarrow> schedule_error + schedule_row list" where
  "list_schedules_checked order db = to_schedules (list_schedules order db)"

definition unsuspend_schedule_checked ::
  "(string \<Rightarrow> string + (time \<Rightarrow> time option)) \<Rightarrow> (schedule_db \<Rightarrow> schedule_db) \<Rightarrow> schedule_db \<Rightarrow> string
   \<Rightarrow> time \<Rightarrow> time \<Rightarrow> unit schedule_exec" where
  "unsuspend_schedule_checked cron between db n read_at now =
     (if n = '''' then (Inl (Schedule_Argument ''name''), db)
      else unsuspend_schedule cron between db n read_at now)"

text \<open>\<open>StreamConfig\<close>: the stream of the system's own schedules.\<close>

definition schedule_stream_config :: stream_config where
  "schedule_stream_config = \<lparr>sf_partition_size = 10000, sf_retention = 35 * 24 * hour, sf_allow_drop = False,
     sf_key_ttl = 0, sf_head_ttl = 0, sf_log_mode = ''all'', sf_janitor = None, sf_vacuum = None\<rparr>"

section \<open>Registering a schedule\<close>

record scheduler_config =
  sk_timeout :: duration
  sk_concurrency :: concurrency_policy
  sk_metadata :: string

definition scheduler_with_defaults :: "scheduler_config \<Rightarrow> scheduler_config" where
  "scheduler_with_defaults c = c\<lparr>
     sk_timeout := (if sk_timeout c = 0 then 30 * second else sk_timeout c),
     sk_concurrency := (if sk_concurrency c = Policy_Unset then Parallel else sk_concurrency c)\<rparr>"

datatype scheduler_error =
    Scheduler_Argument string
  | System_Not_Registered
  | Target_Not_Found
  | Scheduler_Stream stream_error
  | Scheduler_Schema migrate_error
  | Scheduler_Schedule schedule_error
  | Scheduler_Stored string
  | Scheduler_Producer wire_error

definition validate_scheduler :: "scheduler_config \<Rightarrow> scheduler_error option" where
  "validate_scheduler c =
     (if sk_timeout c \<le> 0 then Some (Scheduler_Argument ''Timeout'')
      else if \<not> validate_policy (sk_concurrency c) then Some (Scheduler_Argument ''Concurrency'')
      else None)"

text \<open>\<open>sys\<close> is the row of the system, if it is registered; the builds are the versions of this one.\<close>

record scheduler_env =
  se_cron :: "string \<Rightarrow> string + (time \<Rightarrow> time option)"
  se_system :: "int option"
  se_system_build :: int
  se_stream_build :: int
  se_clock :: time
  se_read_at :: time
  se_now :: time
  se_between :: "schedule_db \<Rightarrow> schedule_db"
  se_between2 :: "schedule_db \<Rightarrow> schedule_db"

definition scheduler_register ::
  "scheduler_env \<Rightarrow> registry \<Rightarrow> schedule_db \<Rightarrow> string \<Rightarrow> string \<Rightarrow> string \<Rightarrow> string option \<Rightarrow> int \<Rightarrow> scheduler_config
   \<Rightarrow> (scheduler_error + schedule_row) \<times> schedule_db" where
  "scheduler_register env g db n stream text payload version cfg =
     (let c = scheduler_with_defaults cfg in
      if n = '''' then (Inl (Scheduler_Argument ''name''), db)
      else if stream = '''' then (Inl (Scheduler_Argument ''stream''), db)
      else (case validate_scheduler c of
          Some e \<Rightarrow> (Inl e, db)
        | None \<Rightarrow> (case se_system env of
              None \<Rightarrow> (Inl System_Not_Registered, db)
            | Some sys \<Rightarrow> (case get_stream_checked g stream of
                  Inl e \<Rightarrow> (Inl (Scheduler_Stream e), db)
                | Inr None \<Rightarrow> (Inl Target_Not_Found, db)
                | Inr (Some target) \<Rightarrow>
                    (case assert_stream_supported (se_system_build env) (se_stream_build env)
                            (stream_migrations g) (st_system target) (st_id target) of
                       Some e \<Rightarrow> (Inl (Scheduler_Schema e), db)
                     | None \<Rightarrow>
                         (case register_schedule_checked (se_cron env) (se_between env) (se_between2 env) db sys n
                                 text (st_id target) payload (sk_timeout c) (sk_concurrency c) version
                                 (sk_metadata c) (se_clock env) (se_read_at env) (se_now env) of
                            (Inl e, db') \<Rightarrow> (Inl (Scheduler_Schedule e), db')
                          | (Inr r, db') \<Rightarrow> (Inr r, db')))))))"

section \<open>Running a schedule at once\<close>

definition run_options_with_defaults :: "concurrency_policy \<Rightarrow> concurrency_policy" where
  "run_options_with_defaults p = (if p = Policy_Unset then Parallel else p)"

definition run_options :: "schedule_config \<Rightarrow> concurrency_policy \<Rightarrow> time \<Rightarrow> produce_options" where
  "run_options c policy clock =
     \<lparr>po_routing_key = sc_name c, po_message_key = sc_name c,
      po_compaction = Some \<lparr>co_enable = True, co_rank = 0\<rparr>, po_idempotency_key = '''',
      po_message = Some \<lparr>mo_concurrency = policy, mo_timeout = sc_timeout c, mo_retry = None,
        mo_scheduled_at = Some clock\<rparr>\<rparr>"

text \<open>The message handed to the producer of the target stream; \<open>register\<close> is what that answers.\<close>

definition run_schedule ::
  "(string \<Rightarrow> wire_error + int) \<Rightarrow> registry \<Rightarrow> schedule_db \<Rightarrow> string \<Rightarrow> concurrency_policy \<Rightarrow> time
   \<Rightarrow> scheduler_error + (int \<times> producer_message \<times> produce_options)" where
  "run_schedule register g db n policy clock =
     (let p = run_options_with_defaults policy in
      if n = '''' then Inl (Scheduler_Argument ''name'')
      else if \<not> validate_policy p then Inl (Scheduler_Argument ''Concurrency'')
      else (case get_schedule_checked db n of
          Inl e \<Rightarrow> Inl (Scheduler_Schedule e)
        | Inr None \<Rightarrow> Inl (Scheduler_Schedule Schedule_Not_Found)
        | Inr (Some (c, u)) \<Rightarrow> (case get_stream_by_id_checked g (sc_stream c) of
              Inl e \<Rightarrow> Inl (Scheduler_Stream e)
            | Inr None \<Rightarrow> Inl Target_Not_Found
            | Inr (Some target) \<Rightarrow> (case register (st_name target) of
                  Inl e \<Rightarrow> Inl (Scheduler_Producer e)
                | Inr i \<Rightarrow> (case new_stored_message (sc_payload c) (sc_version c) of
                      Inl e \<Rightarrow> Inl (Scheduler_Stored e)
                    | Inr m \<Rightarrow> Inr (i, m, run_options c p clock))))))"

section \<open>The schedule producer's configuration\<close>

record schedule_producer_config =
  sd_instance_ttl :: duration
  sd_jitter :: rat
  sd_retry :: "retry_policy option"

definition schedule_producer_with_defaults :: "schedule_producer_config \<Rightarrow> schedule_producer_config" where
  "schedule_producer_with_defaults c = c\<lparr>
     sd_instance_ttl := (if sd_instance_ttl c = 0 then 30 * second else sd_instance_ttl c),
     sd_jitter := (if sd_jitter c = 0 then 1 / 10 else sd_jitter c),
     sd_retry := Some (retry_policy_with_defaults (sd_retry c))\<rparr>"

definition validate_schedule_producer :: "schedule_producer_config \<Rightarrow> string option" where
  "validate_schedule_producer c =
     (if sd_instance_ttl c \<le> 0 then Some ''InstanceTTL''
      else if sd_jitter c < 0 \<or> 1 \<le> sd_jitter c then Some ''JitterFraction''
      else map_option (\<lambda>_. ''ScanRetry'') (validate_retry_policy (sd_retry c)))"

section \<open>A policy that is accepted and never works\<close>

lemma ordered_is_refused:
  assumes "sc_concurrency c = Ordered"
  shows "\<exists>y. \<forall>render t. validate_produce (due_options render c t) = Some (y render t)"
proof -
  have "validate_produce (due_options render c t) \<noteq> None" for render t
    using assms by (simp add: validate_produce_def due_options_def compaction_enabled_def Let_def)
  then show ?thesis by (intro exI [of _ "\<lambda>render t. the (validate_produce (due_options render c t))"]) simp
qed

text \<open>A schedule with ordered concurrency never produces anything: the registration accepts the
  policy, but every message of a schedule is compacted, and a produce that is both ordered and
  compacted is refused. Each pass of the schedule producer fails on it, leaves every row as it was,
  and finds it due again.\<close>

theorem ordered_schedule_never_produces:
  assumes "claim_due (sw_streams s) (dn_locked env) (sw_schedules s) i (dn_now env) = Some ((c, u), target)"
    and "sc_concurrency c = Ordered" "produce_due env i s = Some (res, s')"
  shows "\<exists>e. res = Inl e \<and> same_rows s s'
    \<and> claim_due (sw_streams s') (dn_locked env) (sw_schedules s') i (dn_now env) = Some ((c, u), target)"
proof -
  obtain y where refused: "validate_produce (due_options render c t) = Some (y render t)" for render t
    using ordered_is_refused [OF assms(2)] by metis
  have "\<exists>e. r = Inl e \<and> s1 = s" if "produce_body env i s = Some (r, s1)" for r s1
    using that assms(1)
    by (auto simp: produce_body_def append_in_tx_checked_def refused split: if_splits sum.splits option.splits)
  then have "\<exists>e. res = Inl e" and "s' = s \<or> s' = rolled_back s s"
    using assms(3) by (auto simp: produce_due_def split: option.splits sum.splits prod.splits)
  then show ?thesis using assms(1) by (auto simp: rolled_back_def same_rows_def)
qed

text \<open>The registration of an ordered schedule, and a pass over one.\<close>

definition ordered_config :: schedule_config where
  "ordered_config = demo_config\<lparr>sc_concurrency := Ordered\<rparr>"

definition ordered_world :: schedule_world where
  "ordered_world = demo_world\<lparr>sw_schedules := (sw_schedules demo_world)\<lparr>schedule_configs := [ordered_config]\<rparr>\<rparr>"

lemma ordered_is_accepted:
  "map_sum id (sc_concurrency \<circ> fst) (fst (register_schedule_checked (\<lambda>_. Inr three_hours) id id
     \<lparr>schedule_configs = [], schedule_cursors = [], next_schedule = 1\<rparr> 1 ''nightly'' ''@hourly'' 2 (Some ''{}'')
     second Ordered 1 '''' 0 0 0)) = Inr Ordered"
  by code_simp

lemma ordered_claim: "claim_due (sw_streams ordered_world) False (sw_schedules ordered_world) 7 (130 * minute)
    = Some ((ordered_config, \<lparr>su_schedule = 7, su_next = 60 * minute, su_last = None\<rparr>), ''jobs'')"
  by code_simp

lemma ordered_pass: "\<exists>res s'. produce_due (demo_due (130 * minute) Commit_Ok) 7 ordered_world = Some (res, s')"
proof -
  have "produce_body (demo_due (130 * minute) Commit_Ok) 7 ordered_world \<noteq> None"
    using ordered_claim demo_due_stages
    by (auto simp: produce_body_def demo_due_def ordered_config_def demo_config_def parse_expression_def
      split: sum.splits option.splits prod.splits)
  then show ?thesis
    by (auto simp: produce_due_def demo_due_def split: sum.splits)
qed

lemma ordered_schedule_never_produces_witness:
  "\<exists>res s'. produce_due (demo_due (130 * minute) Commit_Ok) 7 ordered_world = Some (res, s')
    \<and> (\<exists>e. res = Inl e) \<and> same_rows ordered_world s'"
proof -
  obtain res s' where run: "produce_due (demo_due (130 * minute) Commit_Ok) 7 ordered_world = Some (res, s')"
    using ordered_pass by blast
  have "claim_due (sw_streams ordered_world) (dn_locked (demo_due (130 * minute) Commit_Ok))
      (sw_schedules ordered_world) 7 (dn_now (demo_due (130 * minute) Commit_Ok))
      = Some ((ordered_config, \<lparr>su_schedule = 7, su_next = 60 * minute, su_last = None\<rparr>), ''jobs'')"
    using ordered_claim by (simp add: demo_due_def)
  from ordered_schedule_never_produces [OF this _ run] show ?thesis
    using run by (simp add: ordered_config_def)
qed

end
