(* ===== verification/Cron_Parser.thy ===== *)
theory Cron_Parser
  imports Delivery_Options "HOL-Library.Word" "HOL-Library.Char_ord"
begin

unbundle bit_operations_syntax

text \<open>
  Cron expressions: \<open>pkg/schedule/internal/robfig/parser.go\<close>, with the functions of Go's library it
  calls (\<open>strings.Fields\<close>, \<open>strings.Split\<close>, \<open>strconv.Atoi\<close>, \<open>time.ParseDuration\<close>). A text is the
  list of its runes, a field of a schedule a 64-bit set. The time zone database is the parameter
  \<open>load\<close>; a zone is its offset from UTC in seconds at a second since 1970. The floating point
  product that \<open>ParseDuration\<close> makes of a fraction is the parameter \<open>product\<close>.
\<close>

section \<open>Texts\<close>

definition go_space :: "char \<Rightarrow> bool" where
  "go_space c \<longleftrightarrow> (of_char c :: nat) \<in> {9, 10, 11, 12, 13, 32, 0x85, 0xa0}"

definition has_prefix :: "string \<Rightarrow> string \<Rightarrow> bool" where
  "has_prefix p s \<longleftrightarrow> take (length p) s = p"

text \<open>\<open>strings.FieldsFunc\<close>: the maximal runs of runes that do not separate.\<close>

function fields_func :: "(char \<Rightarrow> bool) \<Rightarrow> string \<Rightarrow> string list" where
  "fields_func sep s =
     (case dropWhile sep s of
        [] \<Rightarrow> []
      | c # cs \<Rightarrow> (c # takeWhile (\<lambda>c. \<not> sep c) cs) # fields_func sep (dropWhile (\<lambda>c. \<not> sep c) cs))"
  by pat_completeness auto
termination
proof (relation "measure (\<lambda>(sep, s). length s)")
  fix sep s c cs
  assume "dropWhile sep s = c # cs"
  then have "length (c # cs) \<le> length s" by (metis length_dropWhile_le)
  moreover have "length (dropWhile (\<lambda>c. \<not> sep c) cs) \<le> length cs" by (rule length_dropWhile_le)
  ultimately show "((sep, dropWhile (\<lambda>c. \<not> sep c) cs), sep, s) \<in> measure (\<lambda>(sep, s). length s)" by simp
qed simp

declare fields_func.simps [simp del]

fun split_on :: "char \<Rightarrow> string \<Rightarrow> string list" where
  "split_on sep [] = [[]]"
| "split_on sep (c # cs) =
     (if c = sep then [] # split_on sep cs
      else (case split_on sep cs of [] \<Rightarrow> [[c]] | w # ws \<Rightarrow> (c # w) # ws))"

definition trim_space :: "string \<Rightarrow> string" where
  "trim_space s = rev (dropWhile go_space (rev (dropWhile go_space s)))"

text \<open>Upper case letters outside ASCII stay outside it and are part of no name.\<close>

definition to_lower :: "string \<Rightarrow> string" where
  "to_lower s = map (\<lambda>c. if CHR ''A'' \<le> c \<and> c \<le> CHR ''Z'' then char_of (of_char c + 32 :: nat) else c) s"

definition is_digit :: "char \<Rightarrow> bool" where
  "is_digit c \<longleftrightarrow> CHR ''0'' \<le> c \<and> c \<le> CHR ''9''"

definition digit :: "char \<Rightarrow> int" where
  "digit c = of_char c - 48"

text \<open>\<open>strconv.Atoi\<close>: an optional sign and at least one digit, within the range of int64.\<close>

fun digits_value :: "int \<Rightarrow> string \<Rightarrow> int option" where
  "digits_value n [] = Some n"
| "digits_value n (c # cs) = (if is_digit c then digits_value (10 * n + digit c) cs else None)"

definition atoi :: "string \<Rightarrow> int option" where
  "atoi s =
     (let neg = (case s of c # _ \<Rightarrow> c = CHR ''-'' | [] \<Rightarrow> False);
          ds = (case s of c # cs \<Rightarrow> if c \<in> {CHR ''-'', CHR ''+''} then cs else s | [] \<Rightarrow> []) in
      if ds = [] then None
      else (case digits_value 0 ds of
          None \<Rightarrow> None
        | Some n \<Rightarrow> (let v = (if neg then - n else n) in
            if v < - (2 ^ 63) \<or> 2 ^ 63 \<le> v then None else Some v)))"

section \<open>Schedules\<close>

datatype location = Local | Zone "int \<Rightarrow> int"

record spec_schedule =
  sch_second :: "64 word"
  sch_minute :: "64 word"
  sch_hour :: "64 word"
  sch_dom :: "64 word"
  sch_month :: "64 word"
  sch_dow :: "64 word"
  sch_location :: location

datatype cron_schedule = Spec spec_schedule | Constant_Delay duration

datatype cron_error =
    Empty_Spec
  | Slice_Panic
  | Bad_Location string
  | No_Descriptors
  | Multiple_Optionals
  | Field_Count nat nat nat
  | Unknown_Optional
  | Not_A_Number string
  | Negative_Number string
  | Too_Many_Hyphens string
  | Too_Many_Slashes string
  | Below_Minimum string
  | Above_Maximum string
  | Beyond_End string
  | Zero_Step string
  | Bad_Duration string
  | Unrecognized_Descriptor string

record bounds =
  bd_min :: "64 word"
  bd_max :: "64 word"
  bd_names :: "(string \<times> 64 word) list"

definition seconds :: bounds where "seconds = \<lparr>bd_min = 0, bd_max = 59, bd_names = []\<rparr>"

definition minutes :: bounds where "minutes = \<lparr>bd_min = 0, bd_max = 59, bd_names = []\<rparr>"

definition hours :: bounds where "hours = \<lparr>bd_min = 0, bd_max = 23, bd_names = []\<rparr>"

definition dom_bounds :: bounds where "dom_bounds = \<lparr>bd_min = 1, bd_max = 31, bd_names = []\<rparr>"

definition months :: bounds where
  "months = \<lparr>bd_min = 1, bd_max = 12, bd_names = [(''jan'', 1), (''feb'', 2), (''mar'', 3), (''apr'', 4),
     (''may'', 5), (''jun'', 6), (''jul'', 7), (''aug'', 8), (''sep'', 9), (''oct'', 10), (''nov'', 11),
     (''dec'', 12)]\<rparr>"

definition dow :: bounds where
  "dow = \<lparr>bd_min = 0, bd_max = 6, bd_names = [(''sun'', 0), (''mon'', 1), (''tue'', 2), (''wed'', 3),
     (''thu'', 4), (''fri'', 5), (''sat'', 6)]\<rparr>"

definition star_bit :: "64 word" where "star_bit = push_bit 63 1"

section \<open>Fields\<close>

definition must_parse_int :: "string \<Rightarrow> cron_error + 64 word" where
  "must_parse_int s =
     (case atoi s of
        None \<Rightarrow> Inl (Not_A_Number s)
      | Some n \<Rightarrow> if n < 0 then Inl (Negative_Number s) else Inr (word_of_int n))"

definition parse_int_or_name :: "string \<Rightarrow> (string \<times> 64 word) list \<Rightarrow> cron_error + 64 word" where
  "parse_int_or_name s names =
     (case map_of names (to_lower s) of Some n \<Rightarrow> Inr n | None \<Rightarrow> must_parse_int s)"

text \<open>The loop of \<open>getBits\<close> counts in a machine word; \<open>None\<close> is a loop that does not end.\<close>

partial_function (option) bits_loop :: "64 word \<Rightarrow> 64 word \<Rightarrow> 64 word \<Rightarrow> 64 word \<Rightarrow> 64 word option" where
  "bits_loop step high i bits =
     (if i \<le> high then bits_loop step high (i + step) (bits OR push_bit (unat i) 1) else Some bits)"

declare bits_loop.simps [code]

definition get_bits :: "64 word \<Rightarrow> 64 word \<Rightarrow> 64 word \<Rightarrow> 64 word option" where
  "get_bits low high step =
     (if step = 1 then Some (NOT (push_bit (unat (high + 1)) (- 1)) AND push_bit (unat low) (- 1))
      else bits_loop step high low 0)"

definition all_bits :: "bounds \<Rightarrow> 64 word" where
  "all_bits r = the (get_bits (bd_min r) (bd_max r) 1) OR star_bit"

definition range_start :: "string list \<Rightarrow> string \<Rightarrow> bounds \<Rightarrow> cron_error + 64 word \<times> 64 word \<times> 64 word" where
  "range_start low_high expr r =
     (if hd low_high \<in> {''*'', ''?''} then Inr (bd_min r, bd_max r, star_bit)
      else (case parse_int_or_name (hd low_high) (bd_names r) of
          Inl e \<Rightarrow> Inl e
        | Inr start \<Rightarrow> (case low_high of
              [_] \<Rightarrow> Inr (start, start, 0)
            | [_, high] \<Rightarrow> (case parse_int_or_name high (bd_names r) of
                  Inl e \<Rightarrow> Inl e
                | Inr end' \<Rightarrow> Inr (start, end', 0))
            | _ \<Rightarrow> Inl (Too_Many_Hyphens expr))))"

definition range_step ::
  "string list \<Rightarrow> string \<Rightarrow> bool \<Rightarrow> bounds \<Rightarrow> 64 word \<times> 64 word \<Rightarrow> cron_error + 64 word \<times> 64 word \<times> 64 word" where
  "range_step range_and_step expr single r p =
     (case p of (end', extra) \<Rightarrow> (case range_and_step of
        [_] \<Rightarrow> Inr (end', 1, extra)
      | [_, s] \<Rightarrow> (case must_parse_int s of
            Inl e \<Rightarrow> Inl e
          | Inr step \<Rightarrow> Inr (if single then bd_max r else end', step, if 1 < step then 0 else extra))
      | _ \<Rightarrow> Inl (Too_Many_Slashes expr)))"

definition get_range :: "string \<Rightarrow> bounds \<Rightarrow> (cron_error + 64 word) option" where
  "get_range expr r =
     (let range_and_step = split_on CHR ''/'' expr;
          low_high = split_on CHR ''-'' (hd range_and_step) in
      case range_start low_high expr r of
        Inl e \<Rightarrow> Some (Inl e)
      | Inr (start, end1, extra1) \<Rightarrow>
          (case range_step range_and_step expr (length low_high = 1) r (end1, extra1) of
             Inl e \<Rightarrow> Some (Inl e)
           | Inr (end', step, extra) \<Rightarrow>
               if start < bd_min r then Some (Inl (Below_Minimum expr))
               else if bd_max r < end' then Some (Inl (Above_Maximum expr))
               else if end' < start then Some (Inl (Beyond_End expr))
               else if step = 0 then Some (Inl (Zero_Step expr))
               else map_option (\<lambda>w. Inr (w OR extra)) (get_bits start end' step)))"

fun ranges_bits :: "bounds \<Rightarrow> 64 word \<Rightarrow> string list \<Rightarrow> (cron_error + 64 word) option" where
  "ranges_bits r bits [] = Some (Inr bits)"
| "ranges_bits r bits (e # es) = (case get_range e r of
     None \<Rightarrow> None
   | Some (Inl err) \<Rightarrow> Some (Inl err)
   | Some (Inr w) \<Rightarrow> ranges_bits r (bits OR w) es)"

definition get_field :: "string \<Rightarrow> bounds \<Rightarrow> (cron_error + 64 word) option" where
  "get_field s r = ranges_bits r 0 (fields_func (\<lambda>c. c = CHR '','') s)"

section \<open>Durations\<close>

text \<open>\<open>leadingInt\<close> and \<open>leadingFraction\<close>: the digits at the front, and what they overflow.\<close>

fun leading_int :: "int \<Rightarrow> string \<Rightarrow> (int \<times> string) option" where
  "leading_int x [] = Some (x, [])"
| "leading_int x (c # cs) =
     (if \<not> is_digit c then Some (x, c # cs)
      else if 2 ^ 63 div 10 < x then None
      else (let y = x * 10 + digit c in if 2 ^ 63 < y then None else leading_int y cs))"

fun leading_fraction :: "int \<Rightarrow> int \<Rightarrow> bool \<Rightarrow> string \<Rightarrow> int \<times> int \<times> string" where
  "leading_fraction x scale overflow [] = (x, scale, [])"
| "leading_fraction x scale overflow (c # cs) =
     (if \<not> is_digit c then (x, scale, c # cs)
      else if overflow \<or> (2 ^ 63 - 1) div 10 < x then leading_fraction x scale True cs
      else (let y = x * 10 + digit c in
        if 2 ^ 63 < y then leading_fraction x scale True cs else leading_fraction y (scale * 10) False cs))"

definition duration_unit :: "string \<Rightarrow> int option" where
  "duration_unit u = map_of
     [(''ns'', 1), (''us'', 1000), ([CHR 0xb5, CHR ''s''], 1000), (''ms'', 1000000), (''s'', 1000000000),
      (''m'', 60000000000), (''h'', 3600000000000)] u"

type_synonym fraction_product = "int \<Rightarrow> int \<Rightarrow> int \<Rightarrow> int"

text \<open>One number with its unit, and the rest of the text.\<close>

definition duration_part :: "fraction_product \<Rightarrow> string \<Rightarrow> (int \<times> string) option" where
  "duration_part product s =
     (if \<not> (\<exists>c \<in> set (take 1 s). c = CHR ''.'' \<or> is_digit c) then None
      else (case leading_int 0 s of
          None \<Rightarrow> None
        | Some (v, s1) \<Rightarrow>
            (let dot = (take 1 s1 = ''.'');
                 (f, scale, s2) = (if dot then leading_fraction 0 1 False (tl s1) else (0, 1, s1));
                 pre = (length s1 \<noteq> length s);
                 post = (dot \<and> length s2 \<noteq> length (tl s1));
                 u = takeWhile (\<lambda>c. \<not> (c = CHR ''.'' \<or> is_digit c)) s2 in
             if \<not> pre \<and> \<not> post then None
             else if u = [] then None
             else (case duration_unit u of
                 None \<Rightarrow> None
               | Some unit \<Rightarrow>
                   if 2 ^ 63 div unit < v then None
                   else (let w = v * unit + (if 0 < f then product f unit scale else 0) in
                     if 0 < f \<and> 2 ^ 63 < w then None else Some (w, drop (length u) s2))))))"

lemma leading_int_length: "leading_int x s = Some (v, t) \<Longrightarrow> length t \<le> length s"
  by (induction x s rule: leading_int.induct) (auto simp: Let_def split: if_splits)

lemma leading_fraction_length: "leading_fraction x scale b s = (f, sc, t) \<Longrightarrow> length t \<le> length s"
  by (induction x scale b s rule: leading_fraction.induct) (auto simp: Let_def split: if_splits)

lemma duration_part_length:
  assumes "duration_part product s = Some (w, t)"
  shows "length t < length s"
proof -
  obtain v s1 where s1: "leading_int 0 s = Some (v, s1)"
    using assms by (auto simp: duration_part_def split: if_splits option.splits)
  obtain f scale s2 where s2: "(if take 1 s1 = ''.'' then leading_fraction 0 1 False (tl s1) else (0, 1, s1)) = (f, scale, s2)"
    by (metis prod_cases3)
  let ?u = "takeWhile (\<lambda>c. \<not> (c = CHR ''.'' \<or> is_digit c)) s2"
  have "t = drop (length ?u) s2" "?u \<noteq> []"
    using assms s1 s2 by (auto simp: duration_part_def Let_def split: if_splits option.splits)
  moreover have "length s2 \<le> length s1"
    using s2 leading_fraction_length [of 0 1 False "tl s1"] by (fastforce split: if_splits)
  moreover have "length s1 \<le> length s" using leading_int_length [OF s1] .
  moreover have "0 < length ?u" "length ?u \<le> length s2" using calculation(2) by (auto simp: length_takeWhile_le)
  moreover have "length t = length s2 - length ?u" using calculation(1) by simp
  ultimately show ?thesis by linarith
qed

text \<open>The sum is a machine word: it is checked after each addition.\<close>

function duration_loop :: "fraction_product \<Rightarrow> int \<Rightarrow> string \<Rightarrow> int option" where
  "duration_loop product d s =
     (if s = [] then Some d
      else (case duration_part product s of
          None \<Rightarrow> None
        | Some (v, t) \<Rightarrow> (let d' = (d + v) mod 2 ^ 64 in
            if 2 ^ 63 < d' then None else duration_loop product d' t)))"
  by pat_completeness auto
termination by (relation "measure (\<lambda>(product, d, s). length s)") (auto dest: duration_part_length)

declare duration_loop.simps [simp del]

definition parse_duration :: "fraction_product \<Rightarrow> string \<Rightarrow> duration option" where
  "parse_duration product s =
     (let neg = (take 1 s = ''-''); t = (if take 1 s \<in> {''-'', ''+''} then tl s else s) in
      if t = ''0'' then Some 0
      else if t = '''' then None
      else (case duration_loop product 0 t of
          None \<Rightarrow> None
        | Some d \<Rightarrow> if neg then Some (- d) else if 2 ^ 63 - 1 < d then None else Some d))"

text \<open>\<open>constantdelay.go\<close>.\<close>

definition every :: "duration \<Rightarrow> cron_schedule" where
  "every d = (let d' = max second d in Constant_Delay (d' - d' mod second))"

section \<open>Expressions\<close>

type_synonym parse_option = "64 word"

definition opt_second :: parse_option where "opt_second = push_bit 0 1"

definition opt_second_optional :: parse_option where "opt_second_optional = push_bit 1 1"

definition opt_minute :: parse_option where "opt_minute = push_bit 2 1"

definition opt_hour :: parse_option where "opt_hour = push_bit 3 1"

definition opt_dom :: parse_option where "opt_dom = push_bit 4 1"

definition opt_month :: parse_option where "opt_month = push_bit 5 1"

definition opt_dow :: parse_option where "opt_dow = push_bit 6 1"

definition opt_dow_optional :: parse_option where "opt_dow_optional = push_bit 7 1"

definition opt_descriptor :: parse_option where "opt_descriptor = push_bit 8 1"

definition places :: "parse_option list" where
  "places = [opt_second, opt_minute, opt_hour, opt_dom, opt_month, opt_dow]"

definition defaults :: "string list" where
  "defaults = [''0'', ''0'', ''0'', ''*'', ''*'', ''*'']"

fun expand_fields :: "parse_option \<Rightarrow> (parse_option \<times> string) list \<Rightarrow> string list \<Rightarrow> string list" where
  "expand_fields options [] given = []"
| "expand_fields options ((place, d) # ps) given =
     (if options AND place = 0 \<or> given = [] then d # expand_fields options ps given
      else hd given # expand_fields options ps (tl given))"

definition normalize_fields :: "string list \<Rightarrow> parse_option \<Rightarrow> cron_error + string list" where
  "normalize_fields given options0 =
     (let so = (options0 AND opt_second_optional \<noteq> 0);
          dow' = (options0 AND opt_dow_optional \<noteq> 0);
          options = (options0 OR (if so then opt_second else 0)) OR (if dow' then opt_dow else 0);
          optionals = (if so then 1 else 0) + (if dow' then 1 else 0) :: nat;
          most = length (filter (\<lambda>p. options AND p \<noteq> 0) places);
          least = most - optionals in
      if 1 < optionals then Inl Multiple_Optionals
      else if length given < least \<or> most < length given then Inl (Field_Count least most (length given))
      else if least < most \<and> length given = least
      then (if dow' then Inr (expand_fields options (zip places defaults) (given @ [defaults ! 5]))
            else if so then Inr (expand_fields options (zip places defaults) (defaults ! 0 # given))
            else Inl Unknown_Optional)
      else Inr (expand_fields options (zip places defaults) given))"

definition spec_of :: "64 word \<Rightarrow> 64 word \<Rightarrow> 64 word \<Rightarrow> 64 word \<Rightarrow> location \<Rightarrow> cron_schedule" where
  "spec_of h d mo w loc = Spec \<lparr>sch_second = push_bit (unat (bd_min seconds)) 1,
     sch_minute = push_bit (unat (bd_min minutes)) 1, sch_hour = h, sch_dom = d, sch_month = mo,
     sch_dow = w, sch_location = loc\<rparr>"

definition lowest :: "bounds \<Rightarrow> 64 word" where "lowest r = push_bit (unat (bd_min r)) 1"

definition parse_descriptor :: "fraction_product \<Rightarrow> string \<Rightarrow> location \<Rightarrow> cron_error + cron_schedule" where
  "parse_descriptor product s loc =
     (if s = ''@yearly'' \<or> s = ''@annually''
      then Inr (spec_of (lowest hours) (lowest dom_bounds) (lowest months) (all_bits dow) loc)
      else if s = ''@monthly''
      then Inr (spec_of (lowest hours) (lowest dom_bounds) (all_bits months) (all_bits dow) loc)
      else if s = ''@weekly''
      then Inr (spec_of (lowest hours) (all_bits dom_bounds) (all_bits months) (lowest dow) loc)
      else if s = ''@daily'' \<or> s = ''@midnight''
      then Inr (spec_of (lowest hours) (all_bits dom_bounds) (all_bits months) (all_bits dow) loc)
      else if s = ''@hourly''
      then Inr (spec_of (all_bits hours) (all_bits dom_bounds) (all_bits months) (all_bits dow) loc)
      else if has_prefix ''@every '' s
      then (case parse_duration product (drop (length ''@every '') s) of
          None \<Rightarrow> Inl (Bad_Duration s)
        | Some d \<Rightarrow> Inr (every d))
      else Inl (Unrecognized_Descriptor s))"

text \<open>The fields in order; after the first error the others are not parsed.\<close>

fun get_fields :: "(string \<times> bounds) list \<Rightarrow> (cron_error + 64 word list) option" where
  "get_fields [] = Some (Inr [])"
| "get_fields ((f, r) # fs) = (case get_field f r of
     None \<Rightarrow> None
   | Some (Inl e) \<Rightarrow> Some (Inl e)
   | Some (Inr w) \<Rightarrow> map_option (map_sum id ((#) w)) (get_fields fs))"

text \<open>The zone prefix; without a space after it the slice of the zone's name panics.\<close>

definition split_zone :: "(string \<Rightarrow> location option) \<Rightarrow> string \<Rightarrow> cron_error + location \<times> string" where
  "split_zone load s =
     (if has_prefix ''TZ='' s \<or> has_prefix ''CRON_TZ='' s
      then (let name = takeWhile (\<lambda>c. c \<noteq> CHR '' '') (tl (dropWhile (\<lambda>c. c \<noteq> CHR ''='') s));
                rest = dropWhile (\<lambda>c. c \<noteq> CHR '' '') s in
        if rest = [] then Inl Slice_Panic
        else (case load name of
            None \<Rightarrow> Inl (Bad_Location name)
          | Some loc \<Rightarrow> Inr (loc, trim_space rest)))
      else Inr (Zone (\<lambda>_. 0), s))"

definition parse ::
  "(string \<Rightarrow> location option) \<Rightarrow> fraction_product \<Rightarrow> parse_option \<Rightarrow> string
   \<Rightarrow> (cron_error + cron_schedule) option" where
  "parse load product options spec =
     (if spec = '''' then Some (Inl Empty_Spec)
      else (case split_zone load spec of
          Inl e \<Rightarrow> Some (Inl e)
        | Inr (loc, s) \<Rightarrow>
            if has_prefix ''@'' s
            then Some (if options AND opt_descriptor = 0 then Inl No_Descriptors
                       else parse_descriptor product s loc)
            else (case normalize_fields (fields_func go_space s) options of
                Inl e \<Rightarrow> Some (Inl e)
              | Inr fs \<Rightarrow> map_option (map_sum id (\<lambda>ws. Spec \<lparr>sch_second = ws ! 0, sch_minute = ws ! 1,
                    sch_hour = ws ! 2, sch_dom = ws ! 3, sch_month = ws ! 4, sch_dow = ws ! 5, sch_location = loc\<rparr>))
                  (get_fields (zip fs [seconds, minutes, hours, dom_bounds, months, dow])))))"

definition standard_options :: parse_option where
  "standard_options = opt_minute OR opt_hour OR opt_dom OR opt_month OR opt_dow OR opt_descriptor"

definition parse_standard ::
  "(string \<Rightarrow> location option) \<Rightarrow> fraction_product \<Rightarrow> string \<Rightarrow> (cron_error + cron_schedule) option" where
  "parse_standard load product spec = parse load product standard_options spec"

end
