(* ===== verification/Cron_Fields.thy ===== *)
theory Cron_Fields
  imports Cron_Parser
begin

text \<open>
  What \<open>getBits\<close>, \<open>getRange\<close> and \<open>getField\<close> of \<open>Cron_Parser\<close> accept: the loop over machine words ends
  with an arithmetic progression, an accepted field stays within its bounds and the star bit, and a
  printed list of ranges is read back as it was meant.
\<close>

section \<open>Sets of bits\<close>

lemma progression_step:
  fixes n :: nat
  assumes "0 < step"
  shows "(n = i \<or> (i + step \<le> n \<and> step dvd n - (i + step))) \<longleftrightarrow> (i \<le> n \<and> step dvd n - i)"
proof (cases "n < i + step")
  case True
  then have "step dvd n - i \<longleftrightarrow> n - i = 0" if "i \<le> n" using that assms by (auto dest: dvd_imp_le)
  with True assms show ?thesis by auto
next
  case False
  then have "n - i = (n - (i + step)) + step" by simp
  then have "step dvd n - i \<longleftrightarrow> step dvd n - (i + step)" by (metis dvd_add_triv_right_iff)
  then show ?thesis using False assms by auto
qed

lemma bits_loop_result:
  assumes "0 < unat step" "unat step < 2 ^ 63" "unat high < 64" "unat i < 2 ^ 63 + 64"
  shows "\<exists>w. bits_loop step high i bits = Some w \<and>
    (\<forall>n. bit w n \<longleftrightarrow> bit bits n \<or> (unat i \<le> n \<and> n \<le> unat high \<and> unat step dvd n - unat i))"
  using assms(4)
proof (induction "64 - unat i" arbitrary: i bits rule: less_induct)
  case less
  show ?case
  proof (cases "i \<le> high")
    case False
    then have "unat high < unat i" by (simp add: word_le_nat_alt)
    then show ?thesis using False by (subst bits_loop.simps) auto
  next
    case True
    then have le: "unat i \<le> unat high" by (simp add: word_le_nat_alt)
    have next': "unat (i + step) = unat i + unat step"
      using le assms(2,3) by (simp add: unat_word_ariths)
    let ?bits = "bits OR push_bit (unat i) 1"
    have "64 - unat (i + step) < 64 - unat i" "unat (i + step) < 2 ^ 63 + 64"
      using next' le assms(1-3) by linarith+
    from less(1) [OF this, of ?bits] obtain w where w: "bits_loop step high (i + step) ?bits = Some w"
      "\<forall>n. bit w n \<longleftrightarrow> bit ?bits n \<or> (unat i + unat step \<le> n \<and> n \<le> unat high \<and> unat step dvd n - (unat i + unat step))"
      unfolding next' by blast
    have "bit ?bits n \<longleftrightarrow> bit bits n \<or> n = unat i" for n
      using le assms(3) by (auto simp: bit_simps)
    moreover have "(n = unat i \<or> (unat i + unat step \<le> n \<and> n \<le> unat high \<and> unat step dvd n - (unat i + unat step)))
        \<longleftrightarrow> (unat i \<le> n \<and> n \<le> unat high \<and> unat step dvd n - unat i)" for n
      using progression_step [OF assms(1), of n "unat i"] le by blast
    ultimately show ?thesis using w True by (subst bits_loop.simps) auto
  qed
qed

lemma get_bits_result:
  assumes "0 < unat step" "unat step < 2 ^ 63" "unat high < 63" "unat low \<le> unat high"
  shows "\<exists>w. get_bits low high step = Some w
    \<and> (\<forall>n. bit w n \<longleftrightarrow> unat low \<le> n \<and> n \<le> unat high \<and> unat step dvd n - unat low)"
proof (cases "step = 1")
  case True
  have "unat (high + 1) = unat high + 1" using assms(3) by (simp add: unat_word_ariths)
  then show ?thesis using True assms(3,4)
    by (auto simp: get_bits_def bit_simps)
next
  case False
  then show ?thesis
    using bits_loop_result [OF assms(1,2), of high low 0] assms(3,4) by (simp add: get_bits_def)
qed


section \<open>Numbers and separators\<close>

fun show_nat :: "nat \<Rightarrow> string" where
  "show_nat n = (if n < 10 then [char_of (48 + n)] else show_nat (n div 10) @ [char_of (48 + n mod 10)])"

declare show_nat.simps [simp del]

lemma digit_char:
  assumes "n < 10"
  shows "is_digit (char_of (48 + n))" "digit (char_of (48 + n)) = int n"
proof -
  have "of_char (char_of (48 + n)) = int (of_char (char_of (48 + n)) :: nat)" by (rule of_nat_of_char [symmetric])
  then show "digit (char_of (48 + n)) = int n" using assms by (simp add: digit_def del: of_nat_of_char)
  show "is_digit (char_of (48 + n))" using assms by (simp add: is_digit_def less_eq_char_def)
qed

lemma show_nat_digits: "list_all is_digit (show_nat n)"
  by (induction n rule: show_nat.induct) (subst show_nat.simps, simp add: digit_char)

lemma show_nat_not_Nil: "show_nat n \<noteq> []"
  by (subst show_nat.simps) simp

lemma digits_value_snoc: "digits_value a (cs @ [c]) =
    (case digits_value a cs of None \<Rightarrow> None | Some v \<Rightarrow> if is_digit c then Some (10 * v + digit c) else None)"
  by (induction cs arbitrary: a) auto

lemma digits_value_show: "digits_value 0 (show_nat n) = Some (int n)"
proof (induction n rule: show_nat.induct)
  case (1 n)
  then show ?case
    by (subst show_nat.simps) (auto simp: digits_value_snoc digit_char zdiv_int zmod_int)
qed

lemma digit_not_sign: "is_digit c \<Longrightarrow> c \<notin> {CHR ''-'', CHR ''+'', CHR ''/'', CHR '','', CHR ''*'', CHR ''?''}"
  by (auto simp: is_digit_def)

lemma atoi_show:
  assumes "n < 2 ^ 63"
  shows "atoi (show_nat n) = Some (int n)"
proof -
  obtain c cs where c: "show_nat n = c # cs" using show_nat_not_Nil by (cases "show_nat n") auto
  have "is_digit c" using show_nat_digits [of n] c by simp
  then have "c \<notin> {CHR ''-'', CHR ''+''}" using digit_not_sign by blast
  then show ?thesis using digits_value_show [of n] assms by (auto simp: atoi_def c)
qed

lemma must_parse_show: "n < 2 ^ 63 \<Longrightarrow> must_parse_int (show_nat n) = Inr (word_of_nat n)"
  by (simp add: must_parse_int_def atoi_show)

lemma split_on_single: "sep \<notin> set a \<Longrightarrow> split_on sep a = [a]"
  by (induction a) auto

lemma split_on_append: "sep \<notin> set a \<Longrightarrow> split_on sep (a @ sep # b) = a # split_on sep b"
  by (induction a) auto

lemma fields_func_Nil [simp]: "fields_func sep [] = []"
  by (simp add: fields_func.simps)

lemma fields_func_single:
  assumes "a \<noteq> []" "list_all (\<lambda>c. \<not> sep c) a"
  shows "fields_func sep a = [a]"
proof (cases a)
  case (Cons x xs)
  then have "takeWhile (\<lambda>c. \<not> sep c) xs = xs" "dropWhile (\<lambda>c. \<not> sep c) xs = []" "\<not> sep x"
    using assms(2) by (auto simp: list_all_iff takeWhile_eq_all_conv)
  with Cons show ?thesis by (simp add: fields_func.simps [of sep "x # xs"] del: takeWhile_eq_all_conv dropWhile_eq_Nil_conv)
qed (use assms in simp)

lemma fields_func_append:
  assumes "a \<noteq> []" "list_all (\<lambda>c. \<not> sep c) a" "sep d"
  shows "fields_func sep (a @ d # b) = a # fields_func sep b"
proof (cases a)
  case (Cons x xs)
  have "dropWhile sep (a @ d # b) = x # xs @ d # b" "takeWhile (\<lambda>c. \<not> sep c) (xs @ d # b) = xs"
    "dropWhile (\<lambda>c. \<not> sep c) (xs @ d # b) = d # b"
    using Cons assms by (auto simp: list_all_iff takeWhile_append dropWhile_append)
  then have "fields_func sep (a @ d # b) = (x # xs) # fields_func sep (d # b)"
    by (subst fields_func.simps) simp
  moreover have "fields_func sep (d # b) = fields_func sep b"
    using assms(3) by (simp add: fields_func.simps)
  ultimately show ?thesis using Cons by simp
qed (use assms in simp)


section \<open>Ranges\<close>

definition standard_bounds :: "bounds \<Rightarrow> bool" where
  "standard_bounds r \<longleftrightarrow> r \<in> {seconds, minutes, hours, dom_bounds, months, dow}"

lemma standard_bounds_small:
  assumes "standard_bounds r"
  shows "unat (bd_max r) < 63" "unat (bd_min r) \<le> unat (bd_max r)"
  using assms by (auto simp: standard_bounds_def seconds_def minutes_def hours_def dom_bounds_def months_def dow_def)

lemma atoi_range: "atoi s = Some n \<Longrightarrow> n < 2 ^ 63"
  by (simp add: atoi_def Let_def split: option.splits if_splits)

lemma must_parse_int_bound:
  assumes "must_parse_int s = Inr w"
  shows "unat w < 2 ^ 63"
proof -
  obtain n where n: "atoi s = Some n" "0 \<le> n" "w = word_of_int n"
    using assms by (auto simp: must_parse_int_def split: option.splits if_splits)
  then have "uint w = n" using atoi_range [OF n(1)] by (simp add: uint_word_of_int_eq take_bit_int_eq_self)
  then show ?thesis using n(2) atoi_range [OF n(1)] by (simp add: unat_eq_nat_uint)
qed

lemma range_step_bound:
  "range_step rs expr single r p = Inr (end', step, extra) \<Longrightarrow> unat step < 2 ^ 63 \<and> (extra = 0 \<or> extra = snd p)"
  by (auto simp: range_step_def split: list.splits sum.splits prod.splits if_splits dest: must_parse_int_bound)

lemma range_start_extra:
  "range_start lh expr r = Inr (start, end', extra) \<Longrightarrow> extra = 0 \<or> extra = star_bit"
  by (auto simp: range_start_def split: list.splits sum.splits if_splits)

lemma star_bit_iff [simp]: "bit star_bit n \<longleftrightarrow> n = 63"
  by (simp only: star_bit_def bit_push_bit_iff) auto

definition in_bounds :: "bounds \<Rightarrow> 64 word \<Rightarrow> bool" where
  "in_bounds r w \<longleftrightarrow> (\<forall>n. bit w n \<longrightarrow> n = 63 \<or> unat (bd_min r) \<le> n \<and> n \<le> unat (bd_max r))"

lemma get_range_within:
  assumes "standard_bounds r"
  shows "\<exists>res. get_range expr r = Some res \<and> (\<forall>w. res = Inr w \<longrightarrow> in_bounds r w)"
proof -
  let ?rs = "split_on CHR ''/'' expr"
  let ?lh = "split_on CHR ''-'' (hd ?rs)"
  show ?thesis
  proof (cases "range_start ?lh expr r")
    case (Inl e)
    then show ?thesis by (simp add: get_range_def Let_def)
  next
    case (Inr p)
    obtain start end1 extra1 where p: "p = (start, end1, extra1)" by (metis prod_cases3)
    show ?thesis
    proof (cases "range_step ?rs expr (length ?lh = 1) r (end1, extra1)")
      case (Inl e)
      then show ?thesis using Inr p by (simp add: get_range_def Let_def)
    next
      case inner: (Inr q)
      obtain end' step extra where q: "q = (end', step, extra)" by (metis prod_cases3)
      have bound: "unat step < 2 ^ 63" "extra = 0 \<or> extra = star_bit"
        using range_step_bound [OF inner [unfolded q]] range_start_extra [OF Inr [unfolded p]] by auto
      consider "start < bd_min r \<or> bd_max r < end' \<or> end' < start \<or> step = 0"
        | "unat (bd_min r) \<le> unat start" "unat end' \<le> unat (bd_max r)" "unat start \<le> unat end'" "0 < unat step"
        by (cases "start < bd_min r \<or> bd_max r < end' \<or> end' < start \<or> step = 0")
           (auto simp: word_less_nat_alt not_less unat_gt_0)
      then show ?thesis
      proof cases
        case 1
        then show ?thesis using Inr p inner q by (auto simp: get_range_def Let_def)
      next
        case 2
        then obtain w where w: "get_bits start end' step = Some w"
          "\<forall>n. bit w n \<longleftrightarrow> unat start \<le> n \<and> n \<le> unat end' \<and> unat step dvd n - unat start"
          using get_bits_result [of step end' start] bound standard_bounds_small [OF assms] by force
        have "\<not> (start < bd_min r)" "\<not> (bd_max r < end')" "\<not> (end' < start)" "step \<noteq> 0"
          using 2 by (auto simp: word_less_nat_alt)
        then have "get_range expr r = Some (Inr (w OR extra))"
          using Inr p inner q w(1) by (simp add: get_range_def Let_def)
        moreover have "in_bounds r (w OR extra)"
          using w(2) 2 bound(2) by (auto simp: in_bounds_def bit_or_iff)
        ultimately show ?thesis by simp
      qed
    qed
  qed
qed

lemma ranges_within:
  assumes "standard_bounds r" "in_bounds r bits"
  shows "\<exists>res. ranges_bits r bits es = Some res \<and> (\<forall>w. res = Inr w \<longrightarrow> in_bounds r w)"
  using assms(2)
proof (induction es arbitrary: bits)
  case (Cons e es)
  obtain res where "get_range e r = Some res" "\<forall>w. res = Inr w \<longrightarrow> in_bounds r w"
    using get_range_within [OF assms(1)] by blast
  moreover have "in_bounds r (bits OR w)" if "in_bounds r w" for w
    using that Cons.prems by (auto simp: in_bounds_def bit_or_iff)
  ultimately show ?case using Cons.IH by (cases res) auto
qed simp

lemma get_field_within:
  assumes "standard_bounds r"
  shows "\<exists>res. get_field s r = Some res \<and> (\<forall>w. res = Inr w \<longrightarrow> in_bounds r w)"
  using ranges_within [OF assms, of 0] by (simp add: get_field_def in_bounds_def)


text \<open>Printing.\<close>

type_synonym range_item = "nat \<times> nat \<times> nat"

definition show_item :: "range_item \<Rightarrow> string" where
  "show_item i = (case i of (a, b, s) \<Rightarrow> show_nat a @ ''-'' @ show_nat b @ ''/'' @ show_nat s)"

fun show_field :: "range_item list \<Rightarrow> string" where
  "show_field [] = ''''"
| "show_field [i] = show_item i"
| "show_field (i # is) = show_item i @ '','' @ show_field is"

definition item_ok :: "bounds \<Rightarrow> range_item \<Rightarrow> bool" where
  "item_ok r i \<longleftrightarrow> (case i of (a, b, s) \<Rightarrow> unat (bd_min r) \<le> a \<and> a \<le> b \<and> b \<le> unat (bd_max r) \<and> 0 < s \<and> s < 2 ^ 63)"

definition item_bits :: "range_item \<Rightarrow> nat set" where
  "item_bits i = (case i of (a, b, s) \<Rightarrow> {n. a \<le> n \<and> n \<le> b \<and> s dvd n - a})"

lemma separators_not_in_show [simp]:
  "CHR ''-'' \<notin> set (show_nat n)" "CHR ''/'' \<notin> set (show_nat n)" "CHR '','' \<notin> set (show_nat n)"
  using show_nat_digits [of n] digit_not_sign by (auto simp: list_all_iff)

lemma lookup_show:
  assumes "standard_bounds r"
  shows "map_of (bd_names r) (to_lower (show_nat n)) = None"
proof -
  obtain c cs where c: "show_nat n = c # cs" "is_digit c"
    using show_nat_not_Nil [of n] show_nat_digits [of n] by (cases "show_nat n") auto
  then have "hd (to_lower (show_nat n)) = c" by (auto simp: to_lower_def is_digit_def less_eq_char_def)
  moreover have "\<forall>k \<in> fst ` set (bd_names r). k \<noteq> [] \<and> \<not> is_digit (hd k)"
    using assms by (auto simp: standard_bounds_def seconds_def minutes_def hours_def dom_bounds_def months_def
        dow_def is_digit_def)
  ultimately have "to_lower (show_nat n) \<notin> fst ` set (bd_names r)" using c(2) by auto
  then show ?thesis by (simp add: map_of_eq_None_iff)
qed

lemma get_range_show:
  assumes "standard_bounds r" "item_ok r i"
  shows "\<exists>w. get_range (show_item i) r = Some (Inr w) \<and> (\<forall>n. bit w n \<longleftrightarrow> n \<in> item_bits i)"
proof -
  obtain a b s where i: "i = (a, b, s)" by (metis prod_cases3)
  have ok: "unat (bd_min r) \<le> a" "a \<le> b" "b \<le> unat (bd_max r)" "0 < s" "s < 2 ^ 63"
    using assms(2) by (auto simp: item_ok_def i)
  have small: "unat (bd_max r) < 63" by (rule standard_bounds_small [OF assms(1)])
  have un: "unat (word_of_nat a :: 64 word) = a" "unat (word_of_nat b :: 64 word) = b"
    "unat (word_of_nat s :: 64 word) = s"
    using ok small by (simp_all add: unsigned_of_nat take_bit_nat_eq_self)
  have slash: "split_on CHR ''/'' (show_item i) = [show_nat a @ ''-'' @ show_nat b, show_nat s]"
    using split_on_append [of "CHR ''/''" "show_nat a @ ''-'' @ show_nat b"]
    by (simp add: i show_item_def split_on_single)
  have dash: "split_on CHR ''-'' (show_nat a @ ''-'' @ show_nat b) = [show_nat a, show_nat b]"
    using split_on_append [of "CHR ''-''" "show_nat a"] by (simp add: split_on_single)
  have num: "parse_int_or_name (show_nat n) (bd_names r) = Inr (word_of_nat n)" if "n < 2 ^ 63" for n
    using that lookup_show [OF assms(1)] by (simp add: parse_int_or_name_def must_parse_show)
  have "show_nat a \<noteq> ''*'' \<and> show_nat a \<noteq> ''?''"
    using show_nat_digits [of a] by (auto simp: is_digit_def)
  then have start: "range_start [show_nat a, show_nat b] (show_item i) r = Inr (word_of_nat a, word_of_nat b, 0)"
    using ok small num by (simp add: range_start_def)
  have step: "range_step [show_nat a @ ''-'' @ show_nat b, show_nat s] (show_item i) False r (word_of_nat b, 0)
      = Inr (word_of_nat b, word_of_nat s, 0)"
    using ok must_parse_show [of s] by (simp add: range_step_def)
  obtain w where w: "get_bits (word_of_nat a) (word_of_nat b) (word_of_nat s) = Some w"
    "\<forall>n. bit w n \<longleftrightarrow> a \<le> n \<and> n \<le> b \<and> s dvd n - a"
    using get_bits_result [of "word_of_nat s" "word_of_nat b" "word_of_nat a"] ok small un by auto
  have "\<not> (word_of_nat a < bd_min r)" "\<not> (bd_max r < word_of_nat b)" "\<not> (word_of_nat b < (word_of_nat a :: 64 word))"
    "word_of_nat s \<noteq> (0 :: 64 word)"
    using ok un by (auto simp: word_less_nat_alt not_less)
  then have "get_range (show_item i) r = Some (Inr w)"
    using slash dash start step w(1) by (simp add: get_range_def Let_def)
  with w(2) show ?thesis by (auto simp: item_bits_def i)
qed

lemma show_item_text: "show_item i \<noteq> []" "list_all (\<lambda>c. c \<noteq> CHR '','') (show_item i)"
  using separators_not_in_show(3) by (auto simp: show_item_def list_all_iff split: prod.splits)

lemma ranges_show:
  assumes "standard_bounds r" "\<forall>i \<in> set is. item_ok r i"
  shows "\<exists>w. ranges_bits r bits (map show_item is) = Some (Inr w)
    \<and> (\<forall>n. bit w n \<longleftrightarrow> bit bits n \<or> (\<exists>i \<in> set is. n \<in> item_bits i))"
  using assms(2)
proof (induction "is" arbitrary: bits)
  case (Cons i "is")
  obtain w where w: "get_range (show_item i) r = Some (Inr w)" "\<forall>n. bit w n \<longleftrightarrow> n \<in> item_bits i"
    using get_range_show [OF assms(1), of i] Cons.prems by (metis list.set_intros(1))
  show ?case using Cons.IH [of "bits OR w"] Cons.prems w by (auto simp: bit_or_iff)
qed simp

lemma fields_func_show: "fields_func (\<lambda>c. c = CHR '','') (show_field is) = map show_item is"
proof (induction "is" rule: show_field.induct)
  case (2 i)
  then show ?case using show_item_text [of i] by (simp add: fields_func_single)
next
  case (3 i j "is")
  then show ?case
    using show_item_text [of i] fields_func_append [of "show_item i" "\<lambda>c. c = CHR '',''" "CHR '',''"] by simp
qed simp

text \<open>C16: A field of a cron expression means what it lists: printed as a list of ranges with steps,
  any set of arithmetic progressions within the bounds of the field is accepted and read back as
  exactly the union of them, bit by bit, however large the steps; the counting loop ends.\<close>

theorem field_roundtrip:
  assumes "r \<in> {seconds, minutes, hours, dom_bounds, months, dow}" "\<forall>i \<in> set is. item_ok r i"
  shows "\<exists>w. get_field (show_field is) r = Some (Inr w) \<and> {n. bit w n} = (\<Union>i \<in> set is. item_bits i)"
proof -
  have "standard_bounds r" using assms(1) by (simp add: standard_bounds_def)
  from ranges_show [OF this assms(2), of 0] show ?thesis by (fastforce simp: get_field_def fields_func_show)
qed

lemma field_roundtrip_witness:
  "\<exists>w. get_field ''0-30/10,45-59/7'' minutes = Some (Inr w)
    \<and> {n. bit w n} = (\<Union>i \<in> {(0, 30, 10), (45, 59, 7)}. item_bits i)"
proof -
  have "show_field [(0, 30, 10), (45, 59, 7)] = ''0-30/10,45-59/7''" by code_simp
  moreover have "\<forall>i \<in> set [(0, 30, 10), (45, 59, 7)]. item_ok minutes i" by (simp add: item_ok_def minutes_def)
  ultimately show ?thesis using field_roundtrip [of minutes "[(0, 30, 10), (45, 59, 7)]"] by simp
qed

end
