(* ===== verification/Civil_Time.thy ===== *)
theory Civil_Time
  imports Delivery_Options
begin

text \<open>
  The calendar of Go's \<open>time\<close> package, as far as the cron schedule uses it: \<open>Year\<close>, \<open>Month\<close>, \<open>Day\<close>,
  \<open>Weekday\<close>, \<open>Hour\<close>, \<open>Minute\<close>, \<open>Second\<close>, \<open>Date\<close> and \<open>AddDate\<close> of the proleptic Gregorian calendar. A
  time is in nanoseconds since 1970, a zone the offset of local time in seconds at a second of UTC.
  The units of the calendar are instances of one contract, \<open>calendar_unit\<close>, which is all the search
  for the next activation relies on.
\<close>

section \<open>Days\<close>

definition leap :: "int \<Rightarrow> bool" where
  "leap y \<longleftrightarrow> y mod 4 = 0 \<and> (y mod 100 \<noteq> 0 \<or> y mod 400 = 0)"

text \<open>The day a year starts on, counted from the first of January 1970.\<close>

definition year_start :: "int \<Rightarrow> int" where
  "year_start y = 365 * (y - 1970) + (y - 1) div 4 - (y - 1) div 100 + (y - 1) div 400 - 477"

definition year_of_day :: "int \<Rightarrow> int" where
  "year_of_day d =
     (let y = 1970 + 400 * d div 146097 in
      if d < year_start y then y - 1 else if year_start (y + 1) \<le> d then y + 1 else y)"

definition month_offset :: "bool \<Rightarrow> int \<Rightarrow> int" where
  "month_offset lp m =
     [0, 31, 59, 90, 120, 151, 181, 212, 243, 273, 304, 334, 365] ! nat (m - 1) + (if lp \<and> 2 < m then 1 else 0)"

definition month_of_yday :: "bool \<Rightarrow> int \<Rightarrow> int" where
  "month_of_yday lp yd = int (length (takeWhile (\<lambda>m. month_offset lp m \<le> yd) [1..12]))"

definition month_of_day :: "int \<Rightarrow> int" where
  "month_of_day d = (let y = year_of_day d in month_of_yday (leap y) (d - year_start y))"

definition month_first :: "int \<Rightarrow> int \<Rightarrow> int" where
  "month_first y m = year_start y + month_offset (leap y) m"

definition mday_of_day :: "int \<Rightarrow> int" where
  "mday_of_day d = d - month_first (year_of_day d) (month_of_day d) + 1"

definition weekday_of_day :: "int \<Rightarrow> int" where
  "weekday_of_day d = (d + 4) mod 7"

lemma div_pred:
  fixes y k :: int
  assumes "0 < k"
  shows "(y - 1) div k = y div k - (if y mod k = 0 then 1 else 0)"
proof -
  have y: "y = y div k * k + y mod k" "0 \<le> y mod k" "y mod k < k" using assms by simp_all
  show ?thesis
  proof (cases "y mod k = 0")
    case True
    then have "y - 1 = k * (y div k - 1) + (k - 1)" using y by (simp add: algebra_simps)
    then show ?thesis using assms True int_div_pos_eq [of "y - 1" k "y div k - 1" "k - 1"] by simp
  next
    case False
    then have "y - 1 = k * (y div k) + (y mod k - 1)" by simp
    then show ?thesis using assms False y int_div_pos_eq [of "y - 1" k "y div k" "y mod k - 1"] by simp
  qed
qed

lemma mod_400: "(y :: int) mod 400 = 0 \<Longrightarrow> y mod 100 = 0"
  using mod_mod_cancel [of 100 400 y] by simp

lemma mod_100: "(y :: int) mod 100 = 0 \<Longrightarrow> y mod 4 = 0"
  using mod_mod_cancel [of 4 100 y] by simp

lemma year_start_Suc: "year_start (y + 1) = year_start y + (if leap y then 366 else 365)"
proof -
  obtain a b c where p: "a \<longleftrightarrow> y mod 4 = 0" "b \<longleftrightarrow> y mod 100 = 0" "c \<longleftrightarrow> y mod 400 = 0" by blast
  obtain u v w where q: "u = y div 4" "v = y div 100" "w = y div 400" by blast
  have "c \<longrightarrow> b" unfolding p by (intro impI mod_400)
  moreover have "b \<longrightarrow> a" unfolding p by (intro impI mod_100)
  moreover have "leap y \<longleftrightarrow> a \<and> (\<not> b \<or> c)" by (simp add: leap_def p)
  moreover have "year_start y = 365 * (y - 1970) + (u - (if a then 1 else 0)) - (v - (if b then 1 else 0))
      + (w - (if c then 1 else 0)) - 477"
    unfolding year_start_def p q by (simp only: div_pred zero_less_numeral)
  moreover have "year_start (y + 1) = 365 * (y + 1 - 1970) + u - v + w - 477"
    unfolding year_start_def q by (simp only: add_diff_cancel_right')
  ultimately show ?thesis by (cases a; cases b; cases c) simp_all
qed

lemma year_start_bounds:
  "146097 * (y - 1970) - 1000 \<le> 400 * year_start y" "400 * year_start y \<le> 146097 * (y - 1970) + 1000"
proof -
  have d: "4 * ((y - 1) div 4) \<le> y - 1" "y - 1 < 4 * ((y - 1) div 4) + 4"
    "100 * ((y - 1) div 100) \<le> y - 1" "y - 1 < 100 * ((y - 1) div 100) + 100"
    "400 * ((y - 1) div 400) \<le> y - 1" "y - 1 < 400 * ((y - 1) div 400) + 400"
    by presburger+
  show "146097 * (y - 1970) - 1000 \<le> 400 * year_start y"
    unfolding year_start_def using d by (simp add: algebra_simps)
  show "400 * year_start y \<le> 146097 * (y - 1970) + 1000"
    unfolding year_start_def using d by (simp add: algebra_simps)
qed

lemma year_of_day_bounds: "year_start (year_of_day d) \<le> d \<and> d < year_start (year_of_day d + 1)"
proof -
  obtain y where y: "y = 1970 + 400 * d div 146097" by simp
  obtain q r where "400 * d div 146097 = q" "400 * d = 146097 * q + r" "0 \<le> r" "r < 146097"
    by (rule that [of "400 * d div 146097" "400 * d mod 146097"]) simp_all
  then have d: "146097 * (y - 1970) \<le> 400 * d" "400 * d < 146097 * (y - 1970) + 146097"
    using y by simp_all
  have "year_start (y - 1) \<le> d" using year_start_bounds(2) [of "y - 1"] d by (simp add: algebra_simps)
  moreover have "d < year_start (y + 2)" using year_start_bounds(1) [of "y + 2"] d by (simp add: algebra_simps)
  moreover have "year_start (y + 1 + 1) = year_start (y + 2)" by (simp add: add.assoc)
  ultimately show ?thesis unfolding year_of_day_def Let_def y [symmetric] by simp
qed


lemma year_start_mono: "a \<le> b \<Longrightarrow> year_start a \<le> year_start b"
proof (induction "nat (b - a)" arbitrary: b)
  case (Suc n)
  then have "year_start a \<le> year_start (b - 1)" by (intro Suc(1)) auto
  then show ?case using year_start_Suc [of "b - 1"] by (simp split: if_splits)
qed simp

lemma year_of_day_eq: "year_start y \<le> d \<Longrightarrow> d < year_start (y + 1) \<Longrightarrow> year_of_day d = y"
  using year_of_day_bounds [of d] year_start_mono [of "y + 1" "year_of_day d"]
    year_start_mono [of "year_of_day d + 1" y] by (cases "year_of_day d" y rule: linorder_cases) auto

lemma month_offset_values:
  "month_offset lp 1 = 0" "month_offset lp 2 = 31" "month_offset lp 3 = 59 + of_bool lp"
  "month_offset lp 4 = 90 + of_bool lp" "month_offset lp 5 = 120 + of_bool lp" "month_offset lp 6 = 151 + of_bool lp"
  "month_offset lp 7 = 181 + of_bool lp" "month_offset lp 8 = 212 + of_bool lp" "month_offset lp 9 = 243 + of_bool lp"
  "month_offset lp 10 = 273 + of_bool lp" "month_offset lp 11 = 304 + of_bool lp" "month_offset lp 12 = 334 + of_bool lp"
  "month_offset lp 13 = 365 + of_bool lp"
  by (simp_all add: month_offset_def)

lemma twelve: "1 \<le> (m :: int) \<Longrightarrow> m \<le> 12 \<Longrightarrow> m \<in> {1, 2, 3, 4, 5, 6, 7, 8, 9, 10, 11, 12}"
  unfolding insert_iff empty_iff by presburger

lemma month_offset_Suc: "1 \<le> m \<Longrightarrow> m \<le> 12 \<Longrightarrow> month_offset lp m + 28 \<le> month_offset lp (m + 1)"
  by (drule (1) twelve) (auto simp: month_offset_values)

lemma month_offset_mono: "1 \<le> a \<Longrightarrow> a \<le> b \<Longrightarrow> b \<le> 13 \<Longrightarrow> month_offset lp a \<le> month_offset lp b"
proof (induction "nat (b - a)" arbitrary: b)
  case (Suc n)
  then have "month_offset lp a \<le> month_offset lp (b - 1)" by (intro Suc(1)) auto
  moreover have "1 \<le> b - 1" "b - 1 \<le> 12" using Suc by auto
  ultimately show ?case using month_offset_Suc [of "b - 1" lp] by simp
qed simp

lemma month_of_yday_bounds:
  assumes "0 \<le> yd" "yd < month_offset lp 13" "m = month_of_yday lp yd"
  shows "1 \<le> m" "m \<le> 12" "month_offset lp m \<le> yd" "yd < month_offset lp (m + 1)"
proof -
  let ?P = "\<lambda>m. month_offset lp m \<le> yd" and ?ms = "[1..12] :: int list"
  obtain k where k: "k = length (takeWhile ?P ?ms)" by simp
  have len: "length ?ms = 12" and at': "j < 12 \<Longrightarrow> ?ms ! j = int j + 1" for j by simp_all
  have "takeWhile ?P ?ms \<noteq> []" using assms(1) by (simp add: upto.simps month_offset_values)
  then have k1: "1 \<le> k" "k \<le> 12" using k length_takeWhile_le [of ?P ?ms] unfolding len by (cases k, auto)
  have "?P (?ms ! (k - 1))"
    using k k1 nth_mem [of "k - 1" "takeWhile ?P ?ms"] takeWhile_nth [of "k - 1" ?P ?ms] set_takeWhileD [of _ ?P ?ms]
    by (metis diff_less less_one order_less_le_trans)
  then have low: "month_offset lp (int k) \<le> yd" using k1 at' [of "k - 1"] by simp
  have high: "yd < month_offset lp (int k + 1)"
  proof (cases "k = 12")
    case True
    then show ?thesis using assms(2) by simp
  next
    case False
    then have "\<not> ?P (?ms ! k)" using k k1 len nth_length_takeWhile [of ?P ?ms] by simp
    then show ?thesis using at' [of k] False k1 by (simp add: add.commute)
  qed
  show "1 \<le> m" "m \<le> 12" "month_offset lp m \<le> yd" "yd < month_offset lp (m + 1)"
    using assms(3) k k1 low high by (auto simp: month_of_yday_def)
qed

lemma month_of_yday_eq:
  assumes "1 \<le> m" "m \<le> 12" "month_offset lp m \<le> yd" "yd < month_offset lp (m + 1)"
  shows "month_of_yday lp yd = m"
proof -
  obtain k where k: "k = month_of_yday lp yd" by simp
  have low: "0 \<le> yd" using month_offset_mono [of 1 m lp] assms by (simp add: month_offset_values)
  have high: "yd < month_offset lp 13" using month_offset_mono [of "m + 1" 13 lp] assms by simp
  note bounds = month_of_yday_bounds [OF low high k]
  have "\<not> k < m" using month_offset_mono [of "k + 1" m lp] bounds assms by linarith
  moreover have "\<not> m < k" using month_offset_mono [of "m + 1" k lp] bounds assms by linarith
  ultimately show ?thesis using k by simp
qed


text \<open>The month of a day, and the first day of it.\<close>

lemma year_length: "month_offset (leap y) 13 = year_start (y + 1) - year_start y"
  by (simp add: month_offset_values year_start_Suc)

lemma month_of_day_bounds:
  obtains m where "month_of_day d = m" "1 \<le> m" "m \<le> 12" "month_first (year_of_day d) m \<le> d"
    "d < month_first (year_of_day d) (m + 1)"
proof -
  let ?y = "year_of_day d"
  have "0 \<le> d - year_start ?y" "d - year_start ?y < month_offset (leap ?y) 13"
    using year_of_day_bounds [of d] by (simp_all add: year_length)
  note bounds = month_of_yday_bounds [OF this refl]
  show thesis
    by (rule that [of "month_of_yday (leap ?y) (d - year_start ?y)"])
       (use bounds in \<open>simp_all add: month_of_day_def Let_def month_first_def\<close>)
qed

lemma month_of_day_eq:
  assumes "1 \<le> m" "m \<le> 12" "month_first y m \<le> d" "d < month_first y (m + 1)"
  shows "year_of_day d = y \<and> month_of_day d = m"
proof -
  have "0 \<le> month_offset (leap y) m" "month_offset (leap y) (m + 1) \<le> month_offset (leap y) 13"
    using month_offset_mono [of 1 m "leap y"] month_offset_mono [of "m + 1" 13 "leap y"] assms(1,2)
    by (simp_all add: month_offset_values(1))
  then have y: "year_of_day d = y"
    using assms(3,4) by (intro year_of_day_eq) (simp_all add: month_first_def year_length)
  then show ?thesis
    using assms month_of_yday_eq [of m "leap y" "d - year_start y"]
    by (simp add: month_of_day_def Let_def month_first_def)
qed

section \<open>Units\<close>

text \<open>
  A unit divides time into intervals: \<open>start\<close> and \<open>next\<close> are the bounds of the one a time is in. A
  field of a time that only depends on its unit is \<open>constant\<close>.
\<close>

locale calendar_unit =
  fixes start :: "int \<Rightarrow> int" and nxt :: "int \<Rightarrow> int"
  assumes lower: "start u \<le> u" and upper: "u < nxt u"
    and same: "start u \<le> v \<Longrightarrow> v < nxt u \<Longrightarrow> start v = start u \<and> nxt v = nxt u"
begin

lemma start_start: "start (start u) = start u"
  using same [of u "start u"] lower [of u] upper [of u] by simp

lemma start_nxt: "start (nxt u) = nxt u"
proof (rule ccontr)
  assume "start (nxt u) \<noteq> nxt u"
  then have less: "start (nxt u) < nxt u" using lower [of "nxt u"] by simp
  show False
  proof (cases "start u \<le> start (nxt u)")
    case True
    then have "nxt (start (nxt u)) = nxt u" using same less by blast
    moreover have "nxt (start (nxt u)) = nxt (nxt u)"
      using same [of "nxt u" "start (nxt u)"] upper [of "nxt u"] less by simp
    ultimately show False using upper [of "nxt u"] by simp
  next
    case False
    then have "nxt u = nxt (nxt u)"
      using same [of "nxt u" u] upper [of u] upper [of "nxt u"] lower [of u] by simp
    then show False using upper [of "nxt u"] by simp
  qed
qed

lemma kept:
  assumes "\<And>v. start u \<le> v \<Longrightarrow> v < nxt u \<Longrightarrow> ok v = ok u" "ok u" "u < v" "v \<le> nxt u"
  shows "ok v \<or> v = start v"
  using assms lower [of u] start_nxt [of u] by (cases "v = nxt u") auto

end

text \<open>A unit made of whole smaller units.\<close>

locale nested_units =
  outer: calendar_unit ostart onxt + inner: calendar_unit istart inxt
  for ostart onxt istart inxt :: "int \<Rightarrow> int" +
  assumes whole: "istart (ostart u) = ostart u"
begin

lemma inner_within: "inxt u \<le> onxt u"
proof (rule ccontr)
  assume "\<not> inxt u \<le> onxt u"
  then have "istart (onxt u) = istart u"
    using inner.same [of u "onxt u"] inner.lower [of u] outer.upper [of u] by simp
  moreover have "istart (onxt u) = onxt u" using whole [of "onxt u"] by (simp add: outer.start_nxt)
  ultimately show False using inner.lower [of u] outer.upper [of u] by simp
qed

lemma outer_of_next: "inxt u \<noteq> onxt u \<Longrightarrow> ostart (inxt u) = ostart u \<and> onxt (inxt u) = onxt u"
  using outer.same [of u "inxt u"] inner_within [of u] inner.upper [of u] outer.lower [of u] by simp

end

definition fixed_start :: "int \<Rightarrow> int \<Rightarrow> int" where "fixed_start k u = k * (u div k)"

definition fixed_next :: "int \<Rightarrow> int \<Rightarrow> int" where "fixed_next k u = k * (u div k) + k"

lemma fixed_same:
  assumes "0 < k" "fixed_start k u \<le> v" "v < fixed_next k u"
  shows "v div k = u div k"
proof -
  have "v = k * (u div k) + (v - k * (u div k))" by simp
  then show ?thesis using assms int_div_pos_eq [of v k "u div k" "v - k * (u div k)"]
    by (simp add: fixed_start_def fixed_next_def)
qed

lemma fixed_unit: "0 < k \<Longrightarrow> calendar_unit (fixed_start k) (fixed_next k)"
proof
  fix u v :: int
  assume k: "0 < k"
  show "fixed_start k u \<le> u" "u < fixed_next k u"
    using k pos_mod_bound [of k u] by (simp_all add: fixed_start_def fixed_next_def flip: minus_mod_eq_mult_div)
  assume "fixed_start k u \<le> v" "v < fixed_next k u"
  then have "v div k = u div k" using fixed_same k by blast
  then show "fixed_start k v = fixed_start k u \<and> fixed_next k v = fixed_next k u"
    by (simp add: fixed_start_def fixed_next_def)
qed

interpretation minute_unit: calendar_unit "fixed_start 60" "fixed_next 60"
  by (rule fixed_unit) simp

interpretation hour_unit: calendar_unit "fixed_start 3600" "fixed_next 3600"
  by (rule fixed_unit) simp

interpretation day_unit: calendar_unit "fixed_start 86400" "fixed_next 86400"
  by (rule fixed_unit) simp

definition month_start :: "int \<Rightarrow> int" where
  "month_start u = (let d = u div 86400 in 86400 * month_first (year_of_day d) (month_of_day d))"

definition month_next :: "int \<Rightarrow> int" where
  "month_next u = (let d = u div 86400 in 86400 * month_first (year_of_day d) (month_of_day d + 1))"

lemma day_of_second:
  fixes u :: int
  assumes "86400 * a \<le> u" "u < 86400 * b"
  shows "a \<le> u div 86400 \<and> u div 86400 < b"
  using assms day_unit.lower [of u] day_unit.upper [of u]
  by (auto simp: fixed_start_def fixed_next_def)

lemma second_of_day:
  fixes u :: int
  shows "a \<le> u div 86400 \<Longrightarrow> 86400 * a \<le> u" "u div 86400 < b \<Longrightarrow> u < 86400 * b"
  using day_unit.lower [of u] day_unit.upper [of u]
  by (simp_all add: fixed_start_def fixed_next_def)

lemma same_month:
  assumes "month_start u \<le> v" "v < month_next u"
  shows "year_of_day (v div 86400) = year_of_day (u div 86400) \<and> month_of_day (v div 86400) = month_of_day (u div 86400)"
proof -
  let ?d = "u div 86400" and ?e = "v div 86400"
  obtain m where m: "month_of_day ?d = m" "1 \<le> m" "m \<le> 12" by (rule month_of_day_bounds)
  have "month_first (year_of_day ?d) m \<le> ?e \<and> ?e < month_first (year_of_day ?d) (m + 1)"
    using assms m(1) by (intro day_of_second) (simp_all add: month_start_def month_next_def)
  then show ?thesis
    unfolding m(1) by (intro month_of_day_eq m(2,3)) (rule conjunct1, assumption, rule conjunct2, assumption)
qed

interpretation month_unit: calendar_unit month_start month_next
proof
  fix u v :: int
  let ?d = "u div 86400" and ?e = "v div 86400"
  obtain m where m: "month_of_day ?d = m" "1 \<le> m" "m \<le> 12" "month_first (year_of_day ?d) m \<le> ?d"
    "?d < month_first (year_of_day ?d) (m + 1)"
    by (rule month_of_day_bounds)
  then show "month_start u \<le> u" "u < month_next u"
    by (simp_all add: month_start_def month_next_def)
  assume "month_start u \<le> v" "v < month_next u"
  then have "year_of_day ?e = year_of_day ?d \<and> month_of_day ?e = month_of_day ?d" by (rule same_month)
  then show "month_start v = month_start u \<and> month_next v = month_next u"
    by (simp add: month_start_def month_next_def Let_def)
qed

definition year_begin :: "int \<Rightarrow> int" where
  "year_begin u = 86400 * year_start (year_of_day (u div 86400))"

definition year_end :: "int \<Rightarrow> int" where
  "year_end u = 86400 * year_start (year_of_day (u div 86400) + 1)"

lemma same_year:
  assumes "year_begin u \<le> v" "v < year_end u"
  shows "year_of_day (v div 86400) = year_of_day (u div 86400)"
proof -
  have "year_start (year_of_day (u div 86400)) \<le> v div 86400 \<and> v div 86400 < year_start (year_of_day (u div 86400) + 1)"
    using assms by (intro day_of_second) (simp_all add: year_begin_def year_end_def)
  then show ?thesis using year_of_day_eq by blast
qed

interpretation year_unit: calendar_unit year_begin year_end
proof
  fix u v :: int
  let ?d = "u div 86400" and ?e = "v div 86400"
  show "year_begin u \<le> u" "u < year_end u"
    using year_of_day_bounds [of ?d] by (simp_all add: year_begin_def year_end_def second_of_day)
  assume "year_begin u \<le> v" "v < year_end u"
  then have "year_of_day ?e = year_of_day ?d" by (rule same_year)
  then show "year_begin v = year_begin u \<and> year_end v = year_end u"
    by (simp add: year_begin_def year_end_def)
qed

lemma nested_fixed: "0 < k \<Longrightarrow> fixed_start k (fixed_start (k * j) u) = fixed_start (k * j) u"
  by (simp add: fixed_start_def mult.assoc)

interpretation minutes_of_hour: nested_units "fixed_start 3600" "fixed_next 3600" "fixed_start 60" "fixed_next 60"
  by unfold_locales (use nested_fixed [of 60 60] in simp)

interpretation hours_of_day: nested_units "fixed_start 86400" "fixed_next 86400" "fixed_start 3600" "fixed_next 3600"
  by unfold_locales (use nested_fixed [of 3600 24] in simp)

interpretation days_of_month: nested_units month_start month_next "fixed_start 86400" "fixed_next 86400"
  by unfold_locales (simp add: month_start_def fixed_start_def Let_def)

lemma month_first_January: "month_first y 1 = year_start y" "month_first y 13 = year_start (y + 1)"
  by (simp_all add: month_first_def month_offset_values year_start_Suc)

lemma first_of_year: "month_of_day (year_start y) = 1" "year_of_day (year_start y) = y"
  using month_of_day_eq [of 1 y "year_start y"] month_offset_Suc [of 1 "leap y"]
  by (simp_all add: month_first_January month_first_def month_offset_values)

interpretation months_of_year: nested_units year_begin year_end month_start month_next
  by unfold_locales (simp add: month_start_def year_begin_def first_of_year month_first_January Let_def)

section \<open>Fields of a time\<close>

definition local_second :: "(int \<Rightarrow> int) \<Rightarrow> time \<Rightarrow> int" where
  "local_second z t = (let u = t div second in u + z u)"

definition year_at :: "(int \<Rightarrow> int) \<Rightarrow> time \<Rightarrow> int" where
  "year_at z t = year_of_day (local_second z t div 86400)"

definition month_at :: "(int \<Rightarrow> int) \<Rightarrow> time \<Rightarrow> int" where
  "month_at z t = month_of_day (local_second z t div 86400)"

definition day_at :: "(int \<Rightarrow> int) \<Rightarrow> time \<Rightarrow> int" where
  "day_at z t = mday_of_day (local_second z t div 86400)"

definition weekday_at :: "(int \<Rightarrow> int) \<Rightarrow> time \<Rightarrow> int" where
  "weekday_at z t = weekday_of_day (local_second z t div 86400)"

definition hour_at :: "(int \<Rightarrow> int) \<Rightarrow> time \<Rightarrow> int" where
  "hour_at z t = local_second z t div 3600 mod 24"

definition minute_at :: "(int \<Rightarrow> int) \<Rightarrow> time \<Rightarrow> int" where
  "minute_at z t = local_second z t div 60 mod 60"

definition second_at :: "(int \<Rightarrow> int) \<Rightarrow> time \<Rightarrow> int" where
  "second_at z t = local_second z t mod 60"

text \<open>
  \<open>Date\<close>: months outside 1 to 12 carry over, days and smaller fields simply add up; the offset is looked
  up at the local time taken for UTC and once more at the time that gives.
\<close>

definition date :: "(int \<Rightarrow> int) \<Rightarrow> int \<Rightarrow> int \<Rightarrow> int \<Rightarrow> int \<Rightarrow> int \<Rightarrow> int \<Rightarrow> int \<Rightarrow> time" where
  "date z y m d h mi s ns =
     (let unix = 86400 * (month_first (y + (m - 1) div 12) ((m - 1) mod 12 + 1) + d - 1) + 3600 * h + 60 * mi + s in
      second * (if z unix = 0 then unix else unix - z (unix - z unix)) + ns)"

definition add_date :: "(int \<Rightarrow> int) \<Rightarrow> int \<Rightarrow> int \<Rightarrow> int \<Rightarrow> time \<Rightarrow> time" where
  "add_date z years months days t =
     date z (year_at z t + years) (month_at z t + months) (day_at z t + days)
       (hour_at z t) (minute_at z t) (second_at z t) (t mod second)"

definition truncate_to :: "duration \<Rightarrow> time \<Rightarrow> time" where
  "truncate_to d t = t - t mod d"

definition utc :: "int \<Rightarrow> int" where "utc u = 0"

end
