(* ===== verification/Cron_Next.thy ===== *)
theory Cron_Next
  imports Cron_Fields Civil_Time
begin

text \<open>
  The next activation of a schedule: \<open>pkg/schedule/internal/robfig/spec.go\<close> and \<open>constantdelay.go\<close>. The
  labelled loops of \<open>Next\<close> are one function with a program point; \<open>None\<close> is a search that does not
  end, \<open>Some None\<close> the zero time. The search is exact in UTC; in a zone whose offset changes it is
  what the code does, not more.
\<close>

definition star :: "64 word \<Rightarrow> bool" where "star w \<longleftrightarrow> bit w 63"

definition day_matches :: "spec_schedule \<Rightarrow> (int \<Rightarrow> int) \<Rightarrow> time \<Rightarrow> bool" where
  "day_matches s z t =
     (let dom = bit (sch_dom s) (nat (day_at z t)); dow = bit (sch_dow s) (nat (weekday_at z t)) in
      if star (sch_dom s) \<or> star (sch_dow s) then dom \<and> dow else dom \<or> dow)"

definition spec_zone :: "(int \<Rightarrow> int) \<Rightarrow> spec_schedule \<Rightarrow> int \<Rightarrow> int" where
  "spec_zone origin s = (case sch_location s of Local \<Rightarrow> origin | Zone z \<Rightarrow> z)"

text \<open>A day that does not start at midnight: the clock is set back to it, or on to the next one.\<close>

definition to_midnight :: "(int \<Rightarrow> int) \<Rightarrow> time \<Rightarrow> time" where
  "to_midnight z t =
     (let h = hour_at z t in
      if h = 0 then t
      else if 12 < h then t + (24 - h) * (3600 * second)
      else t - h * (3600 * second))"

definition next_month :: "(int \<Rightarrow> int) \<Rightarrow> bool \<Rightarrow> time \<Rightarrow> time" where
  "next_month z added t =
     add_date z 0 1 0 (if added then t else date z (year_at z t) (month_at z t) 1 0 0 0 0)"

definition next_day :: "(int \<Rightarrow> int) \<Rightarrow> bool \<Rightarrow> time \<Rightarrow> time" where
  "next_day z added t = to_midnight z
     (add_date z 0 0 1 (if added then t else date z (year_at z t) (month_at z t) (day_at z t) 0 0 0 0))"

definition next_hour :: "(int \<Rightarrow> int) \<Rightarrow> bool \<Rightarrow> time \<Rightarrow> time" where
  "next_hour z added t =
     (if added then t
      else date z (year_at z t) (month_at z t) (day_at z t) (hour_at z t) 0 0 0) + 3600 * second"

definition next_minute :: "bool \<Rightarrow> time \<Rightarrow> time" where
  "next_minute added t = (if added then t else truncate_to (60 * second) t) + 60 * second"

definition next_second :: "bool \<Rightarrow> time \<Rightarrow> time" where
  "next_second added t = (if added then t else truncate_to second t) + second"

text \<open>A label of the code; \<open>Goto\<close> is where it goes on, with the flag and the time it has by then.\<close>

datatype point = Wrap | At_Month | At_Day | At_Hour | At_Minute | At_Second

datatype progress = Return "time option" | Goto point bool time

definition spec_step ::
  "(int \<Rightarrow> int) \<Rightarrow> spec_schedule \<Rightarrow> int \<Rightarrow> point \<Rightarrow> bool \<Rightarrow> time \<Rightarrow> progress" where
  "spec_step z s limit p added t = (case p of
     Wrap \<Rightarrow> if limit < year_at z t then Return None else Goto At_Month added t
   | At_Month \<Rightarrow>
       if bit (sch_month s) (nat (month_at z t)) then Goto At_Day added t
       else (let u = next_month z added t in Goto (if month_at z u = 1 then Wrap else At_Month) True u)
   | At_Day \<Rightarrow>
       if day_matches s z t then Goto At_Hour added t
       else (let u = next_day z added t in Goto (if day_at z u = 1 then Wrap else At_Day) True u)
   | At_Hour \<Rightarrow>
       if bit (sch_hour s) (nat (hour_at z t)) then Goto At_Minute added t
       else (let u = next_hour z added t in Goto (if hour_at z u = 0 then Wrap else At_Hour) True u)
   | At_Minute \<Rightarrow>
       if bit (sch_minute s) (nat (minute_at z t)) then Goto At_Second added t
       else (let u = next_minute added t in Goto (if minute_at z u = 0 then Wrap else At_Minute) True u)
   | At_Second \<Rightarrow>
       if bit (sch_second s) (nat (second_at z t)) then Return (Some t)
       else (let u = next_second added t in Goto (if second_at z u = 0 then Wrap else At_Second) True u))"

partial_function (option) spec_loop ::
  "(int \<Rightarrow> int) \<Rightarrow> spec_schedule \<Rightarrow> int \<Rightarrow> point \<Rightarrow> bool \<Rightarrow> time \<Rightarrow> time option option" where
  "spec_loop z s limit p added t =
     (case spec_step z s limit p added t of
        Return r \<Rightarrow> Some r
      | Goto p' added' u \<Rightarrow> spec_loop z s limit p' added' u)"

declare spec_loop.simps [code]

definition upcoming_second :: "time \<Rightarrow> time" where
  "upcoming_second t = t + second - t mod second"

definition spec_next :: "(int \<Rightarrow> int) \<Rightarrow> spec_schedule \<Rightarrow> time \<Rightarrow> time option option" where
  "spec_next origin s t =
     (let z = spec_zone origin s; t0 = upcoming_second t in
      spec_loop z s (year_at z t0 + 5) Wrap False t0)"

definition delay_next :: "duration \<Rightarrow> time \<Rightarrow> time" where
  "delay_next d t = t + (d - t mod second)"

definition cron_next :: "(int \<Rightarrow> int) \<Rightarrow> cron_schedule \<Rightarrow> time \<Rightarrow> time option option" where
  "cron_next origin sched t = (case sched of
     Spec s \<Rightarrow> spec_next origin s t
   | Constant_Delay d \<Rightarrow> Some (Some (delay_next d t)))"

end
