(* ===== verification/Cron_Exact.thy ===== *)
theory Cron_Exact
  imports Cron_Next
begin

text \<open>
  \<open>spec_next\<close> is exact in UTC. The search keeps an invariant over the units of \<open>Civil_Time\<close>: nothing
  before its time is active, the fields passed so far match, and a unit whose field does not match is
  at its start. Each step answers, moves on in time, or reaches a later label.
\<close>

section \<open>The calendar in UTC\<close>

lemma second_pos [simp]: "0 < second" by (simp add: second_def)

lemma at_second [simp]: "second * u div second = u" "second * u mod second = 0"
  by (simp_all add: second_def)

lemma utc_fields [simp]:
  "local_second utc (second * u) = u"
  "year_at utc (second * u) = year_of_day (u div 86400)"
  "month_at utc (second * u) = month_of_day (u div 86400)"
  "day_at utc (second * u) = mday_of_day (u div 86400)"
  "weekday_at utc (second * u) = weekday_of_day (u div 86400)"
  "hour_at utc (second * u) = u div 3600 mod 24"
  "minute_at utc (second * u) = u div 60 mod 60"
  "second_at utc (second * u) = u mod 60"
  by (simp_all add: local_second_def utc_def year_at_def month_at_def day_at_def weekday_at_def hour_at_def
      minute_at_def second_at_def)

lemma date_utc: "1 \<le> m \<Longrightarrow> m \<le> 12 \<Longrightarrow>
    date utc y m d h mi s ns = second * (86400 * (month_first y m + d - 1) + 3600 * h + 60 * mi + s) + ns"
  by (simp add: date_def utc_def div_pos_pos_trivial mod_pos_pos_trivial)

lemma date_utc_December: "date utc y 13 d h mi s ns =
    second * (86400 * (month_first (y + 1) 1 + d - 1) + 3600 * h + 60 * mi + s) + ns"
  by (simp add: date_def utc_def)

lemma month_in_range: "1 \<le> month_of_day d" "month_of_day d \<le> 12"
  by (rule month_of_day_bounds [of d], simp)+

lemma month_days: "month_first (year_of_day d) (month_of_day d) + mday_of_day d - 1 = d"
  by (simp add: mday_of_day_def)

lemma next_month_utc:
  assumes "added \<Longrightarrow> u = month_start u"
  shows "next_month utc added (second * u) = second * month_next u"
proof -
  let ?d = "u div 86400"
  have base: "(if added then second * u else date utc (year_at utc (second * u)) (month_at utc (second * u)) 1 0 0 0 0)
      = second * month_start u"
    using assms month_in_range [of ?d] by (simp add: date_utc month_start_def Let_def)
  obtain m y where m: "m = month_of_day ?d" "y = year_of_day ?d" by simp
  have ms: "month_start u = 86400 * month_first y m" by (simp add: month_start_def m Let_def)
  then have sd: "month_start u div 86400 = month_first y m" by simp
  have same: "year_of_day (month_start u div 86400) = y" "month_of_day (month_start u div 86400) = m"
    using same_month [of u "month_start u"] month_unit.lower [of u] month_unit.upper [of u] m by simp_all
  have clock: "month_start u div 3600 mod 24 = 0" "month_start u div 60 mod 60 = 0" "month_start u mod 60 = 0"
    by (simp_all add: ms)
  have day: "mday_of_day (month_start u div 86400) = 1" using same sd by (simp add: mday_of_day_def)
  have "add_date utc 0 1 0 (second * month_start u) = date utc y (m + 1) 1 0 0 0 0"
    by (simp add: add_date_def same clock day)
  also have "\<dots> = second * month_next u"
    using month_in_range [of ?d] m
    by (cases "m = 12") (simp_all add: date_utc date_utc_December month_next_def Let_def month_first_January)
  finally show ?thesis using base by (simp add: next_month_def)
qed


lemma next_day_utc:
  assumes "added \<Longrightarrow> u = fixed_start 86400 u"
  shows "next_day utc added (second * u) = second * fixed_next 86400 u"
proof -
  let ?d = "u div 86400"
  obtain b where b: "b = fixed_start 86400 u" by simp
  have bd: "b div 86400 = ?d" "b div 3600 mod 24 = 0" "b div 60 mod 60 = 0" "b mod 60 = 0"
    by (simp_all add: b fixed_start_def)
  have base: "(if added then second * u
      else date utc (year_at utc (second * u)) (month_at utc (second * u)) (day_at utc (second * u)) 0 0 0 0)
      = second * b"
    using assms month_in_range [of ?d] month_days [of ?d] by (simp add: date_utc b fixed_start_def)
  have "add_date utc 0 0 1 (second * b) = second * (86400 * (month_first (year_of_day ?d) (month_of_day ?d) + (mday_of_day ?d + 1) - 1))"
    using month_in_range [of ?d] by (simp add: add_date_def bd date_utc)
  also have "\<dots> = second * fixed_next 86400 u"
    using month_days [of ?d] by (simp add: fixed_next_def)
  finally have "add_date utc 0 0 1 (second * b) = second * fixed_next 86400 u" .
  moreover have "fixed_next 86400 u div 3600 mod 24 = 0"
    using bd(2) by (simp add: fixed_next_def b fixed_start_def)
  ultimately show ?thesis using base by (simp add: next_day_def to_midnight_def)
qed

lemma next_hour_utc:
  assumes "added \<Longrightarrow> u = fixed_start 3600 u"
  shows "next_hour utc added (second * u) = second * fixed_next 3600 u"
proof -
  have "u div 3600 = 24 * (u div 3600 div 24) + u div 3600 mod 24" by simp
  moreover have "u div 3600 div 24 = u div 86400" by (simp add: zdiv_zmult2_eq [symmetric])
  ultimately have "fixed_start 3600 u = 86400 * (u div 86400) + 3600 * (u div 3600 mod 24)"
    by (simp add: fixed_start_def)
  then have "(if added then second * u
      else date utc (year_at utc (second * u)) (month_at utc (second * u)) (day_at utc (second * u)) (hour_at utc (second * u)) 0 0 0)
      = second * fixed_start 3600 u"
    using assms month_in_range [of "u div 86400"] month_days [of "u div 86400"] by (simp add: date_utc)
  then show ?thesis by (simp add: next_hour_def fixed_next_def fixed_start_def algebra_simps)
qed

lemma truncate_utc: "0 < k \<Longrightarrow> truncate_to (k * second) (second * u) = second * fixed_start k u"
  by (simp add: truncate_to_def fixed_start_def mult.commute [of k] flip: minus_mod_eq_mult_div)
     (simp add: algebra_simps)

lemma next_minute_utc:
  assumes "added \<Longrightarrow> u = fixed_start 60 u"
  shows "next_minute added (second * u) = second * fixed_next 60 u"
  using assms truncate_utc [of 60 u] by (auto simp: next_minute_def fixed_next_def fixed_start_def algebra_simps)

lemma next_second_utc: "next_second added (second * u) = second * (u + 1)"
  using truncate_utc [of 1 u] by (simp add: next_second_def fixed_start_def algebra_simps)

text \<open>Where the code looks for the start of the enclosing unit, it is there.\<close>

lemma boundaries:
  "month_of_day (year_end u div 86400) = 1" "mday_of_day (month_next u div 86400) = 1"
  "fixed_next 86400 u div 3600 mod 24 = 0" "fixed_next 3600 u div 60 mod 60 = 0" "fixed_next 60 u mod 60 = 0"
proof -
  show "month_of_day (year_end u div 86400) = 1" by (simp add: year_end_def first_of_year)
  show "mday_of_day (month_next u div 86400) = 1"
    using month_unit.start_nxt [of u] by (simp add: mday_of_day_def month_start_def Let_def)
qed (simp_all add: fixed_next_def algebra_simps)


section \<open>The search in UTC\<close>

definition month_ok :: "spec_schedule \<Rightarrow> int \<Rightarrow> bool" where
  "month_ok s u \<longleftrightarrow> bit (sch_month s) (nat (month_of_day (u div 86400)))"

definition day_ok :: "spec_schedule \<Rightarrow> int \<Rightarrow> bool" where
  "day_ok s u \<longleftrightarrow> day_matches s utc (second * u)"

definition hour_ok :: "spec_schedule \<Rightarrow> int \<Rightarrow> bool" where
  "hour_ok s u \<longleftrightarrow> bit (sch_hour s) (nat (u div 3600 mod 24))"

definition minute_ok :: "spec_schedule \<Rightarrow> int \<Rightarrow> bool" where
  "minute_ok s u \<longleftrightarrow> bit (sch_minute s) (nat (u div 60 mod 60))"

definition second_ok :: "spec_schedule \<Rightarrow> int \<Rightarrow> bool" where
  "second_ok s u \<longleftrightarrow> bit (sch_second s) (nat (u mod 60))"

definition active :: "spec_schedule \<Rightarrow> int \<Rightarrow> bool" where
  "active s u \<longleftrightarrow> month_ok s u \<and> day_ok s u \<and> hour_ok s u \<and> minute_ok s u \<and> second_ok s u"

lemma ok_constant:
  "month_start u \<le> v \<Longrightarrow> v < month_next u \<Longrightarrow> month_ok s v = month_ok s u"
  "fixed_start 86400 u \<le> v \<Longrightarrow> v < fixed_next 86400 u \<Longrightarrow> day_ok s v = day_ok s u"
  "fixed_start 3600 u \<le> v \<Longrightarrow> v < fixed_next 3600 u \<Longrightarrow> hour_ok s v = hour_ok s u"
  "fixed_start 60 u \<le> v \<Longrightarrow> v < fixed_next 60 u \<Longrightarrow> minute_ok s v = minute_ok s u"
  using same_month [of u v] fixed_same [of 86400 u v] fixed_same [of 3600 u v] fixed_same [of 60 u v]
  by (simp_all add: month_ok_def day_ok_def hour_ok_def minute_ok_def day_matches_def)

text \<open>The ends of the units are in order, and so are their starts.\<close>

lemmas ends_in_order = minutes_of_hour.inner_within hours_of_day.inner_within days_of_month.inner_within
  months_of_year.inner_within minute_unit.upper

lemma starts_in_order:
  "u = month_start u \<Longrightarrow> u = fixed_start 86400 u" "u = fixed_start 86400 u \<Longrightarrow> u = fixed_start 3600 u"
  "u = fixed_start 3600 u \<Longrightarrow> u = fixed_start 60 u"
  using days_of_month.whole [of u] hours_of_day.whole [of u] minutes_of_hour.whole [of u] by simp_all

definition aligned :: "spec_schedule \<Rightarrow> int \<Rightarrow> bool" where
  "aligned s u \<longleftrightarrow> (month_ok s u \<or> u = month_start u) \<and> (day_ok s u \<or> u = fixed_start 86400 u)
     \<and> (hour_ok s u \<or> u = fixed_start 3600 u) \<and> (minute_ok s u \<or> u = fixed_start 60 u)"

fun passed :: "spec_schedule \<Rightarrow> point \<Rightarrow> int \<Rightarrow> bool" where
  "passed s Wrap u = True"
| "passed s At_Month u = True"
| "passed s At_Day u = month_ok s u"
| "passed s At_Hour u = (month_ok s u \<and> day_ok s u)"
| "passed s At_Minute u = (month_ok s u \<and> day_ok s u \<and> hour_ok s u)"
| "passed s At_Second u = (month_ok s u \<and> day_ok s u \<and> hour_ok s u \<and> minute_ok s u)"

definition year_of :: "int \<Rightarrow> int" where "year_of u = year_of_day (u div 86400)"

definition search_inv :: "spec_schedule \<Rightarrow> int \<Rightarrow> int \<Rightarrow> point \<Rightarrow> bool \<Rightarrow> int \<Rightarrow> bool" where
  "search_inv s limit u0 p added u \<longleftrightarrow> u0 \<le> u \<and> (\<forall>v. u0 \<le> v \<longrightarrow> v < u \<longrightarrow> \<not> active s v)
     \<and> passed s p u \<and> (added \<longrightarrow> aligned s u) \<and> year_of u \<le> (if p = Wrap then limit + 1 else limit)"

lemma year_of_mono: "u \<le> v \<Longrightarrow> year_of u \<le> year_of v"
proof (rule ccontr)
  assume le: "u \<le> v" and "\<not> year_of u \<le> year_of v"
  then have "year_start (year_of v + 1) \<le> year_start (year_of u)" by (intro year_start_mono) simp
  moreover have "u div 86400 \<le> v div 86400" using le by (rule zdiv_mono1) simp
  ultimately show False
    using year_of_day_bounds [of "u div 86400"] year_of_day_bounds [of "v div 86400"] by (simp add: year_of_def)
qed

lemma year_of_end: "year_of (year_end u) = year_of u + 1"
  by (simp add: year_of_def year_end_def first_of_year)

lemma year_of_within: "u \<le> v \<Longrightarrow> v < year_end u \<Longrightarrow> year_of v = year_of u"
  using same_year [of u v] year_unit.lower [of u] by (simp add: year_of_def)

text \<open>
  The move past a unit that does not match: nothing in it is active, the new time is aligned, and
  unless it is where the enclosing unit starts, the outer fields still match.
\<close>

lemma moved:
  assumes inv: "search_inv s limit u0 p added u" "p \<noteq> Wrap" and "u < u'" "u' \<le> year_end u"
    and none: "\<And>v. u \<le> v \<Longrightarrow> v < u' \<Longrightarrow> \<not> active s v"
    and al: "aligned s u'" and stay: "\<not> b \<Longrightarrow> passed s p u' \<and> u' < year_end u"
  shows "search_inv s limit u0 (if b then Wrap else p) True u'"
proof -
  have "year_of u' \<le> year_of u + 1" using year_of_mono [OF assms(4)] year_of_end by simp
  moreover have "year_of u' = year_of u" if "\<not> b" using year_of_within stay [OF that] assms(3) by simp
  moreover have "\<not> active s v" if "u0 \<le> v" "v < u'" for v
    using that inv(1) none [of v] by (cases "v < u") (auto simp: search_inv_def)
  ultimately show ?thesis using inv assms(3) al stay by (auto simp: search_inv_def)
qed

lemma month_moves:
  assumes "search_inv s limit u0 At_Month added u" "\<not> month_ok s u"
  shows "search_inv s limit u0 (if month_of_day (month_next u div 86400) = 1 then Wrap else At_Month) True (month_next u)"
proof (rule moved [OF assms(1)])
  show "u < month_next u" "month_next u \<le> year_end u"
    by (simp_all add: month_unit.upper months_of_year.inner_within)
  show "\<not> active s v" if "u \<le> v" "v < month_next u" for v
    using ok_constant(1) [of u v s] that month_unit.lower [of u] assms(2) by (simp add: active_def)
  show "aligned s (month_next u)"
    using month_unit.start_nxt [of u] starts_in_order by (simp add: aligned_def)
  show "passed s At_Month (month_next u) \<and> month_next u < year_end u"
    if "month_of_day (month_next u div 86400) \<noteq> 1"
    using that boundaries(1) [of u] months_of_year.inner_within [of u] by (cases "month_next u = year_end u") auto
qed simp


text \<open>A field that matches still does after a move within its unit, or its next unit starts there.\<close>

lemma ok_kept:
  assumes "u < v"
  shows "month_ok s u \<Longrightarrow> v \<le> month_next u \<Longrightarrow> month_ok s v \<or> v = month_start v"
    "day_ok s u \<Longrightarrow> v \<le> fixed_next 86400 u \<Longrightarrow> day_ok s v \<or> v = fixed_start 86400 v"
    "hour_ok s u \<Longrightarrow> v \<le> fixed_next 3600 u \<Longrightarrow> hour_ok s v \<or> v = fixed_start 3600 v"
    "minute_ok s u \<Longrightarrow> v \<le> fixed_next 60 u \<Longrightarrow> minute_ok s v \<or> v = fixed_start 60 v"
  using month_unit.kept [of u "month_ok s" v, OF ok_constant(1)] day_unit.kept [of u "day_ok s" v, OF ok_constant(2)]
    hour_unit.kept [of u "hour_ok s" v, OF ok_constant(3)] minute_unit.kept [of u "minute_ok s" v, OF ok_constant(4)]
    assms by blast+

lemma ok_within:
  assumes "u < v"
  shows "month_ok s u \<Longrightarrow> v < month_next u \<Longrightarrow> month_ok s v"
    "day_ok s u \<Longrightarrow> v < fixed_next 86400 u \<Longrightarrow> day_ok s v"
    "hour_ok s u \<Longrightarrow> v < fixed_next 3600 u \<Longrightarrow> hour_ok s v"
    "minute_ok s u \<Longrightarrow> v < fixed_next 60 u \<Longrightarrow> minute_ok s v"
  using assms ok_constant [of u v s] month_unit.lower [of u] day_unit.lower [of u] hour_unit.lower [of u]
    minute_unit.lower [of u] by auto

lemma ends:
  "u < fixed_next 60 u" "fixed_next 60 u \<le> fixed_next 3600 u" "fixed_next 3600 u \<le> fixed_next 86400 u"
  "fixed_next 86400 u \<le> month_next u" "month_next u \<le> year_end u"
  by (fact minute_unit.upper minutes_of_hour.inner_within hours_of_day.inner_within
      days_of_month.inner_within months_of_year.inner_within)+

lemma day_moves:
  assumes "search_inv s limit u0 At_Day added u" "\<not> day_ok s u"
  shows "search_inv s limit u0 (if mday_of_day (fixed_next 86400 u div 86400) = 1 then Wrap else At_Day) True
    (fixed_next 86400 u)"
proof (rule moved [OF assms(1)])
  let ?v = "fixed_next 86400 u"
  have ok: "month_ok s u" using assms(1) by (simp add: search_inv_def)
  have e: "u < ?v" "?v \<le> month_next u" "?v \<le> year_end u" using ends [of u] by linarith+
  show "u < ?v" "?v \<le> year_end u" by (fact e)+
  show "\<not> active s v" if "u \<le> v" "v < ?v" for v
    using ok_constant(2) [of u v s] that day_unit.lower [of u] assms(2) by (simp add: active_def)
  show "aligned s ?v"
    using ok_kept(1) [OF e(1) ok e(2)] day_unit.start_nxt [of u] starts_in_order(2,3) [of ?v] by (simp add: aligned_def)
  assume "mday_of_day (?v div 86400) \<noteq> 1"
  then have "?v < month_next u" using boundaries(2) [of u] e(2) by (cases "?v = month_next u") auto
  then show "passed s At_Day ?v \<and> ?v < year_end u"
    using ok_within(1) [OF e(1) ok] ends(5) [of u] by simp
qed simp

lemma hour_moves:
  assumes "search_inv s limit u0 At_Hour added u" "\<not> hour_ok s u"
  shows "search_inv s limit u0 (if fixed_next 3600 u div 3600 mod 24 = 0 then Wrap else At_Hour) True (fixed_next 3600 u)"
proof (rule moved [OF assms(1)])
  let ?v = "fixed_next 3600 u"
  have ok: "month_ok s u" "day_ok s u" using assms(1) by (simp_all add: search_inv_def)
  have e: "u < ?v" "?v \<le> fixed_next 86400 u" "?v \<le> month_next u" "?v \<le> year_end u" using ends [of u] by linarith+
  show "u < ?v" "?v \<le> year_end u" by (fact e)+
  show "\<not> active s v" if "u \<le> v" "v < ?v" for v
    using ok_constant(3) [of u v s] that hour_unit.lower [of u] assms(2) by (simp add: active_def)
  show "aligned s ?v"
    using ok_kept(1) [OF e(1) ok(1) e(3)] ok_kept(2) [OF e(1) ok(2) e(2)] hour_unit.start_nxt [of u]
      starts_in_order(3) [of ?v] by (simp add: aligned_def)
  assume "?v div 3600 mod 24 \<noteq> 0"
  then have "?v < fixed_next 86400 u" using boundaries(3) [of u] e(2) by (cases "?v = fixed_next 86400 u") auto
  then show "passed s At_Hour ?v \<and> ?v < year_end u"
    using ok_within(1) [OF e(1) ok(1)] ok_within(2) [OF e(1) ok(2)] ends [of u] by simp
qed simp

lemma minute_moves:
  assumes "search_inv s limit u0 At_Minute added u" "\<not> minute_ok s u"
  shows "search_inv s limit u0 (if fixed_next 60 u div 60 mod 60 = 0 then Wrap else At_Minute) True (fixed_next 60 u)"
proof (rule moved [OF assms(1)])
  let ?v = "fixed_next 60 u"
  have ok: "month_ok s u" "day_ok s u" "hour_ok s u" using assms(1) by (simp_all add: search_inv_def)
  have e: "u < ?v" "?v \<le> fixed_next 3600 u" "?v \<le> fixed_next 86400 u" "?v \<le> month_next u" "?v \<le> year_end u"
    using ends [of u] by linarith+
  show "u < ?v" "?v \<le> year_end u" by (fact e)+
  show "\<not> active s v" if "u \<le> v" "v < ?v" for v
    using ok_constant(4) [of u v s] that minute_unit.lower [of u] assms(2) by (simp add: active_def)
  show "aligned s ?v"
    using ok_kept(1) [OF e(1) ok(1) e(4)] ok_kept(2) [OF e(1) ok(2) e(3)] ok_kept(3) [OF e(1) ok(3) e(2)]
      minute_unit.start_nxt [of u] by (simp add: aligned_def)
  assume "?v div 60 mod 60 \<noteq> 0"
  then have "?v < fixed_next 3600 u" using boundaries(4) [of u] e(2) by (cases "?v = fixed_next 3600 u") auto
  then show "passed s At_Minute ?v \<and> ?v < year_end u"
    using ok_within(1) [OF e(1) ok(1)] ok_within(2) [OF e(1) ok(2)] ok_within(3) [OF e(1) ok(3)] ends [of u] by simp
qed simp

lemma second_moves:
  assumes "search_inv s limit u0 At_Second added u" "\<not> second_ok s u"
  shows "search_inv s limit u0 (if (u + 1) mod 60 = 0 then Wrap else At_Second) True (u + 1)"
proof (rule moved [OF assms(1)])
  let ?v = "u + 1"
  have ok: "month_ok s u" "day_ok s u" "hour_ok s u" "minute_ok s u" using assms(1) by (simp_all add: search_inv_def)
  have e: "u < ?v" "?v \<le> fixed_next 60 u" "?v \<le> fixed_next 3600 u" "?v \<le> fixed_next 86400 u" "?v \<le> month_next u"
    "?v \<le> year_end u" using ends [of u] by linarith+
  show "u < ?v" "?v \<le> year_end u" by (fact e)+
  show "\<not> active s v" if "u \<le> v" "v < ?v" for v
    using that assms(2) by (cases "v = u") (auto simp: active_def)
  show "aligned s ?v"
    using ok_kept(1) [OF e(1) ok(1) e(5)] ok_kept(2) [OF e(1) ok(2) e(4)] ok_kept(3) [OF e(1) ok(3) e(3)]
      ok_kept(4) [OF e(1) ok(4) e(2)] by (simp add: aligned_def)
  assume "?v mod 60 \<noteq> 0"
  then have "?v < fixed_next 60 u" using boundaries(5) [of u] e(2) by (cases "?v = fixed_next 60 u") auto
  then show "passed s At_Second ?v \<and> ?v < year_end u"
    using ok_within(1) [OF e(1) ok(1)] ok_within(2) [OF e(1) ok(2)] ok_within(3) [OF e(1) ok(3)]
      ok_within(4) [OF e(1) ok(4)] ends [of u] by simp
qed simp


text \<open>One step of the search: it answers rightly, or goes on, ahead or at a later label.\<close>

definition right_answer :: "spec_schedule \<Rightarrow> int \<Rightarrow> int \<Rightarrow> time option \<Rightarrow> bool" where
  "right_answer s limit u0 r \<longleftrightarrow> (case r of
     None \<Rightarrow> \<forall>v. u0 \<le> v \<longrightarrow> active s v \<longrightarrow> limit < year_of v
   | Some t \<Rightarrow> \<exists>v. t = second * v \<and> u0 \<le> v \<and> active s v \<and> year_of v \<le> limit
       \<and> (\<forall>w. u0 \<le> w \<longrightarrow> active s w \<longrightarrow> v \<le> w))"

fun rank :: "point \<Rightarrow> nat" where
  "rank Wrap = 5" | "rank At_Month = 4" | "rank At_Day = 3" | "rank At_Hour = 2" | "rank At_Minute = 1"
| "rank At_Second = 0"

definition goes_on :: "spec_schedule \<Rightarrow> int \<Rightarrow> int \<Rightarrow> point \<Rightarrow> int \<Rightarrow> progress \<Rightarrow> bool" where
  "goes_on s limit u0 p u g \<longleftrightarrow> (case g of
     Return r \<Rightarrow> right_answer s limit u0 r
   | Goto p' added t \<Rightarrow> \<exists>v. t = second * v \<and> search_inv s limit u0 p' added v
       \<and> (u < v \<or> u = v \<and> rank p' < rank p))"

lemma goes_on_Goto:
  "search_inv s limit u0 p' added v \<Longrightarrow> u < v \<or> u = v \<and> rank p' < rank p
    \<Longrightarrow> goes_on s limit u0 p u (Goto p' added (second * v))"
  by (auto simp: goes_on_def)

lemma step_goes_on:
  assumes inv: "search_inv s limit u0 p added u"
  shows "goes_on s limit u0 p u (spec_step utc s limit p added (second * u))"
proof (cases p)
  case Wrap
  show ?thesis
  proof (cases "limit < year_of u")
    case True
    have "limit < year_of v" if "u0 \<le> v" "active s v" for v
    proof -
      have "u \<le> v" using inv that by (force simp: search_inv_def not_less intro: leI)
      then show ?thesis using True year_of_mono [of u v] by simp
    qed
    then have "right_answer s limit u0 None" by (simp add: right_answer_def)
    then show ?thesis using True Wrap by (simp add: spec_step_def goes_on_def year_of_def)
  next
    case False
    then have "search_inv s limit u0 At_Month added u" using inv Wrap by (simp add: search_inv_def)
    then show ?thesis using False Wrap goes_on_Goto by (simp add: spec_step_def year_of_def)
  qed
next
  case At_Month
  show ?thesis
  proof (cases "month_ok s u")
    case True
    then have "search_inv s limit u0 At_Day added u" using inv At_Month by (simp add: search_inv_def)
    then show ?thesis using True At_Month goes_on_Goto by (simp add: spec_step_def month_ok_def)
  next
    case False
    have "next_month utc added (second * u) = second * month_next u"
      using inv False by (intro next_month_utc) (auto simp: search_inv_def aligned_def)
    then show ?thesis
      using False At_Month goes_on_Goto [OF month_moves [OF inv [unfolded At_Month] False]] month_unit.upper [of u]
      by (simp add: spec_step_def month_ok_def Let_def)
  qed
next
  case At_Day
  show ?thesis
  proof (cases "day_ok s u")
    case True
    then have "search_inv s limit u0 At_Hour added u" using inv At_Day by (simp add: search_inv_def)
    then show ?thesis using True At_Day goes_on_Goto by (simp add: spec_step_def day_ok_def)
  next
    case False
    have "next_day utc added (second * u) = second * fixed_next 86400 u"
      using inv False by (intro next_day_utc) (auto simp: search_inv_def aligned_def)
    then show ?thesis
      using False At_Day goes_on_Goto [OF day_moves [OF inv [unfolded At_Day] False]] day_unit.upper [of u]
      by (simp add: spec_step_def day_ok_def Let_def)
  qed
next
  case At_Hour
  show ?thesis
  proof (cases "hour_ok s u")
    case True
    then have "search_inv s limit u0 At_Minute added u" using inv At_Hour by (simp add: search_inv_def)
    then show ?thesis using True At_Hour goes_on_Goto by (simp add: spec_step_def hour_ok_def)
  next
    case False
    have "next_hour utc added (second * u) = second * fixed_next 3600 u"
      using inv False by (intro next_hour_utc) (auto simp: search_inv_def aligned_def)
    then show ?thesis
      using False At_Hour goes_on_Goto [OF hour_moves [OF inv [unfolded At_Hour] False]] hour_unit.upper [of u]
      by (simp add: spec_step_def hour_ok_def Let_def)
  qed
next
  case At_Minute
  show ?thesis
  proof (cases "minute_ok s u")
    case True
    then have "search_inv s limit u0 At_Second added u" using inv At_Minute by (simp add: search_inv_def)
    then show ?thesis using True At_Minute goes_on_Goto by (simp add: spec_step_def minute_ok_def)
  next
    case False
    have "next_minute added (second * u) = second * fixed_next 60 u"
      using inv False by (intro next_minute_utc) (auto simp: search_inv_def aligned_def)
    then show ?thesis
      using False At_Minute goes_on_Goto [OF minute_moves [OF inv [unfolded At_Minute] False]] minute_unit.upper [of u]
      by (simp add: spec_step_def minute_ok_def Let_def)
  qed
next
  case At_Second
  show ?thesis
  proof (cases "second_ok s u")
    case True
    have "right_answer s limit u0 (Some (second * u))"
      unfolding right_answer_def option.case
      by (intro exI [of _ u]) (use inv At_Second True in \<open>auto simp: search_inv_def active_def not_less intro: leI\<close>)
    then show ?thesis using True At_Second by (simp add: spec_step_def goes_on_def second_ok_def)
  next
    case False
    then show ?thesis
      using At_Second goes_on_Goto [OF second_moves [OF inv [unfolded At_Second] False]]
      by (simp add: spec_step_def second_ok_def next_second_utc Let_def)
  qed
qed

lemma search_ends:
  assumes "search_inv s limit u0 p added u"
  shows "\<exists>r. spec_loop utc s limit p added (second * u) = Some r \<and> right_answer s limit u0 r"
  using assms
proof (induction "nat (86400 * year_start (limit + 2) - u) * 6 + rank p" arbitrary: p added u rule: less_induct)
  case less
  have "year_of u \<le> limit + 1" using less(2) by (simp add: search_inv_def split: if_splits)
  then have "year_start (year_of u + 1) \<le> year_start (limit + 2)" by (intro year_start_mono) simp
  then have end': "u < 86400 * year_start (limit + 2)"
    using year_unit.upper [of u] by (simp add: year_end_def year_of_def)
  have step: "goes_on s limit u0 p u (spec_step utc s limit p added (second * u))"
    by (rule step_goes_on [OF less(2)])
  show ?case
  proof (cases "spec_step utc s limit p added (second * u)")
    case (Return r)
    then show ?thesis using step by (subst spec_loop.simps) (simp add: goes_on_def)
  next
    case (Goto p' added' t)
    then obtain v where v: "t = second * v" "search_inv s limit u0 p' added' v" "u < v \<or> u = v \<and> rank p' < rank p"
      using step by (auto simp: goes_on_def)
    have "rank p' \<le> 5" by (cases p') simp_all
    then have "nat (86400 * year_start (limit + 2) - v) * 6 + rank p' < nat (86400 * year_start (limit + 2) - u) * 6 + rank p"
      using v(3) end' by auto
    from less(1) [OF this v(2)] show ?thesis
      using Goto v(1) by (subst spec_loop.simps) simp
  qed
qed


section \<open>The next activation\<close>

text \<open>What a schedule says, with no regard to how it is searched for.\<close>

definition fires :: "spec_schedule \<Rightarrow> time \<Rightarrow> bool" where
  "fires s t \<longleftrightarrow> t mod second = 0 \<and> bit (sch_month s) (nat (month_at utc t)) \<and> day_matches s utc t
     \<and> bit (sch_hour s) (nat (hour_at utc t)) \<and> bit (sch_minute s) (nat (minute_at utc t))
     \<and> bit (sch_second s) (nat (second_at utc t))"

lemma fires_active: "fires s t \<longleftrightarrow> (\<exists>u. t = second * u \<and> active s u)"
proof
  assume f: "fires s t"
  then have "t = second * (t div second)" using mult_div_mod_eq [of second t] by (simp add: fires_def)
  then show "\<exists>u. t = second * u \<and> active s u"
    using f by (metis (no_types, lifting) utc_fields(3,6-8) active_def day_ok_def fires_def hour_ok_def minute_ok_def
        month_ok_def second_ok_def)
next
  assume "\<exists>u. t = second * u \<and> active s u"
  then show "fires s t"
    by (auto simp: fires_def active_def month_ok_def day_ok_def hour_ok_def minute_ok_def second_ok_def)
qed

lemma upcoming: "upcoming_second t = second * (t div second + 1)" "t < upcoming_second t"
proof -
  have "t = second * (t div second) + t mod second" by simp
  then show "upcoming_second t = second * (t div second + 1)" unfolding upcoming_second_def by (simp add: algebra_simps)
  show "t < upcoming_second t" using pos_mod_bound [OF second_pos, of t] by (simp add: upcoming_second_def)
qed

lemma upcoming_le: "t < second * v \<longleftrightarrow> t div second + 1 \<le> v"
proof
  assume "t < second * v"
  moreover have "second * (t div second) \<le> t" using pos_mod_sign [OF second_pos, of t] mult_div_mod_eq [of second t] by linarith
  ultimately have "second * (t div second) < second * v" by linarith
  then have "t div second < v" by (simp only: mult_less_cancel_left_pos [OF second_pos])
  then show "t div second + 1 \<le> v" by simp
next
  assume "t div second + 1 \<le> v"
  then have "second * (t div second + 1) \<le> second * v" by (simp only: mult_le_cancel_left_pos [OF second_pos])
  then show "t < second * v" using upcoming [of t] by linarith
qed

lemma spec_next_right:
  assumes "spec_zone origin s = utc"
  shows "\<exists>r. spec_next origin s t = Some r
    \<and> right_answer s (year_at utc (upcoming_second t) + 5) (t div second + 1) r"
proof -
  let ?u = "t div second + 1"
  have "year_at utc (upcoming_second t) = year_of ?u" by (simp add: upcoming(1) year_of_def)
  then have "search_inv s (year_at utc (upcoming_second t) + 5) ?u Wrap False ?u" by (simp add: search_inv_def)
  from search_ends [OF this] show ?thesis
    using assms by (simp add: spec_next_def Let_def upcoming(1))
qed

text \<open>C14: In UTC the next activation is exact. From any time the search ends; the time it returns is
  later, matches every field of the expression with the rule for days of the month and of the week,
  and no time in between does; and when it returns none, no time up to the end of the fifth year on
  matches: leap days, month lengths and the carries of the fields included.\<close>

theorem next_activation_is_exact:
  assumes "spec_zone origin s = utc"
  shows "\<exists>r. spec_next origin s t = Some r
    \<and> (\<forall>n. r = Some n \<longrightarrow> t < n \<and> fires s n \<and> (\<forall>m. t < m \<and> fires s m \<longrightarrow> n \<le> m))
    \<and> (r = None \<longrightarrow> (\<forall>m. t < m \<and> fires s m \<longrightarrow> year_at utc (upcoming_second t) + 5 < year_at utc m))"
proof -
  obtain r where r: "spec_next origin s t = Some r"
    "right_answer s (year_at utc (upcoming_second t) + 5) (t div second + 1) r"
    using spec_next_right [OF assms] by blast
  have "t < n \<and> fires s n \<and> (\<forall>m. t < m \<and> fires s m \<longrightarrow> n \<le> m)" if some: "r = Some n" for n
  proof -
    obtain v where v: "n = second * v" "t div second + 1 \<le> v" "active s v"
      "\<forall>w. t div second + 1 \<le> w \<longrightarrow> active s w \<longrightarrow> v \<le> w"
      using r(2) unfolding some right_answer_def option.case by blast
    have "n \<le> m" if "t < m" "fires s m" for m
    proof -
      obtain w where w: "m = second * w" "active s w" using \<open>fires s m\<close> fires_active by blast
      then show ?thesis using v(1,4) that(1) upcoming_le by simp
    qed
    then show ?thesis using v upcoming_le fires_active by blast
  qed
  moreover have "year_at utc (upcoming_second t) + 5 < year_at utc m" if "r = None" "t < m" "fires s m" for m
  proof -
    obtain w where w: "m = second * w" "active s w" using \<open>fires s m\<close> fires_active by blast
    then show ?thesis using r(2) that upcoming_le by (simp add: right_answer_def year_of_def)
  qed
  ultimately show ?thesis using r(1) by blast
qed


definition leap_day :: spec_schedule where
  "leap_day = \<lparr>sch_second = 1, sch_minute = 1, sch_hour = 1, sch_dom = push_bit 29 1, sch_month = 4,
     sch_dow = all_bits dow, sch_location = Zone utc\<rparr>"

lemma next_activation_is_exact_witness:
  "\<exists>r. spec_next utc leap_day 0 = Some r
    \<and> (\<forall>n. r = Some n \<longrightarrow> 0 < n \<and> fires leap_day n \<and> (\<forall>m. 0 < m \<and> fires leap_day m \<longrightarrow> n \<le> m))"
  using next_activation_is_exact [of utc leap_day 0] by (auto simp: spec_zone_def leap_day_def)

section \<open>Expressions of the standard parser\<close>

lemma get_fields_total: "\<forall>f \<in> set fs. standard_bounds (snd f) \<Longrightarrow> \<exists>res. get_fields fs = Some res"
proof (induction fs)
  case (Cons f fs)
  obtain w r where f: "f = (w, r)" by force
  then obtain res where "get_field w r = Some res" using get_field_within [of r w] Cons.prems by auto
  moreover obtain rest where "get_fields fs = Some rest" using Cons by auto
  ultimately show ?case by (cases res) (simp_all add: f)
qed simp

lemma parse_total: "\<exists>res. parse load product options w = Some res"
proof -
  have "\<exists>res. get_fields (zip fs [seconds, minutes, hours, dom_bounds, months, dow]) = Some res" for fs
    by (rule get_fields_total) (auto simp: standard_bounds_def dest: set_zip_rightD)
  then show ?thesis
    by (auto simp: parse_def split: sum.splits prod.splits)
qed

lemma map_sum_Inr: "map_sum f g z = Inr y \<longleftrightarrow> (\<exists>x. z = Inr x \<and> y = g x)"
  by (cases z) auto

lemma descriptor_location: "parse_descriptor product w loc = Inr (Spec s) \<Longrightarrow> sch_location s = loc"
  unfolding parse_descriptor_def spec_of_def every_def Let_def
  by (simp split: if_split_asm option.split_asm) (drule arg_cong [where f = sch_location], simp)+

lemma descriptor_delay:
  assumes "parse_descriptor product w loc = Inr (Constant_Delay d)"
  shows "second \<le> d"
proof -
  obtain e where d: "d = max second e - max second e mod second"
    using assms by (auto simp: parse_descriptor_def spec_of_def every_def Let_def split: if_splits option.splits)
  moreover have "max second e mod second < second \<and> 0 \<le> max second e mod second" by simp
  moreover have "max second e = second * (max second e div second) + max second e mod second" by simp
  ultimately have "d = second * (max second e div second)" by linarith
  moreover have "1 \<le> max second e div second" by (simp add: second_def)
  ultimately show ?thesis by (simp add: second_def)
qed

lemma parsed:
  assumes "parse load product options w = Some (Inr sched)"
  obtains loc rest where "split_zone load w = Inr (loc, rest)" "parse_descriptor product rest loc = Inr sched"
  | loc rest s where "split_zone load w = Inr (loc, rest)" "sched = Spec s" "sch_location s = loc"
proof -
  obtain loc rest where z: "split_zone load w = Inr (loc, rest)"
    using assms by (auto simp: parse_def split: if_splits sum.splits)
  show ?thesis
  proof (cases "has_prefix ''@'' rest")
    case True
    then show ?thesis using assms z that(1) by (auto simp: parse_def split: if_splits)
  next
    case False
    then show ?thesis using assms z that(2)
      by (auto simp: parse_def map_sum_Inr split: if_splits sum.splits)
  qed
qed

lemma unzoned:
  assumes "parse load product options w = Some (Inr (Spec s))"
    and "\<not> has_prefix ''TZ='' w" "\<not> has_prefix ''CRON_TZ='' w"
  shows "spec_zone origin s = utc"
proof -
  have "split_zone load w = Inr (Zone (\<lambda>_. 0), w)" using assms(2,3) by (simp add: split_zone_def)
  with assms(1) have "sch_location s = Zone (\<lambda>_. 0)"
    by (cases rule: parsed) (auto dest: descriptor_location)
  then show ?thesis by (simp add: spec_zone_def utc_def fun_eq_iff)
qed

lemma constant_delay: "parse load product options w = Some (Inr (Constant_Delay d)) \<Longrightarrow> second \<le> d"
  by (cases rule: parsed) (auto dest: descriptor_delay)

lemma unzoned_expressions_move_forward:
  assumes "\<not> has_prefix ''TZ='' w" "\<not> has_prefix ''CRON_TZ='' w"
  shows "\<exists>res. parse_standard load product w = Some res
    \<and> (\<forall>sched. res = Inr sched \<longrightarrow> (\<exists>nxt. (\<forall>origin t. cron_next origin sched t = Some (nxt t))
          \<and> (\<forall>t n. nxt t = Some n \<longrightarrow> t < n)))"
proof -
  obtain res where res: "parse_standard load product w = Some res"
    using parse_total unfolding parse_standard_def by blast
  have "\<exists>nxt. (\<forall>origin t. cron_next origin sched t = Some (nxt t)) \<and> (\<forall>t n. nxt t = Some n \<longrightarrow> t < n)"
    if some: "res = Inr sched" for sched
  proof (cases sched)
    case (Spec s)
    then have zone: "spec_zone origin s = utc" for origin
      using res some unzoned assms by (simp add: parse_standard_def)
    have "spec_next origin s t = spec_next utc s t" for origin t by (simp only: spec_next_def zone)
    moreover have "\<exists>r. spec_next utc s t = Some r \<and> (\<forall>n. r = Some n \<longrightarrow> t < n)" for t
      using spec_next_right [OF zone, of utc t] upcoming_le by (auto simp: right_answer_def)
    then obtain nxt where "spec_next utc s t = Some (nxt t) \<and> (\<forall>n. nxt t = Some n \<longrightarrow> t < n)" for t by metis
    ultimately show ?thesis using Spec by (intro exI [of _ nxt]) (simp add: cron_next_def)
  next
    case (Constant_Delay d)
    then have "second \<le> d" using res some constant_delay by (simp add: parse_standard_def)
    then have "t < delay_next d t" for t
      unfolding delay_next_def using pos_mod_bound [OF second_pos, of t] by linarith
    then show ?thesis using Constant_Delay
      by (intro exI [of _ "\<lambda>t. Some (delay_next d t)"]) (simp add: cron_next_def)
  qed
  then show ?thesis using res by blast
qed

end
