(* ===== verification/Cron_Schedules.thy ===== *)
theory Cron_Schedules
  imports Cron_Exact Schedule_Properties
begin

text \<open>
  The standard parser in place of the parameter \<open>cron\<close> of \<open>Schedule_Expression\<close>: schedules whose
  expression names no zone run in UTC, where \<open>Cron_Exact\<close> holds. A zone that skips midnight shows what
  is lost elsewhere.
\<close>

definition standard_cron ::
  "(string \<Rightarrow> location option) \<Rightarrow> fraction_product \<Rightarrow> string \<Rightarrow> string + (time \<Rightarrow> time option)" where
  "standard_cron load product w = (case parse_standard load product w of
     Some (Inr sched) \<Rightarrow> Inr (\<lambda>t. the (cron_next utc sched t))
   | _ \<Rightarrow> Inl ''expression'')"

lemma newest_due_reached:
  assumes "\<And>t n. nxt t = Some n \<Longrightarrow> t < n" "newest_due nxt now s = Some r"
  shows "r = s \<or> (\<exists>p. nxt p = Some r)"
  using assms(2)
proof (induction "nat (now - s)" arbitrary: s rule: less_induct)
  case less
  show ?case
  proof (cases "nxt s")
    case None
    then show ?thesis using less(2) by (subst (asm) newest_due.simps) simp
  next
    case (Some n)
    show ?thesis
    proof (cases "now < n")
      case True
      then show ?thesis using less(2) Some by (subst (asm) newest_due.simps) simp
    next
      case False
      then have "newest_due nxt now n = Some r" using less(2) Some by (subst (asm) newest_due.simps) simp
      moreover have "nat (now - n) < nat (now - s)" using assms(1) [OF Some] False by simp
      ultimately show ?thesis using less(1) Some by blast
    qed
  qed
qed

text \<open>C15: The parser ends on every text, with any set of options. For an expression that names no zone
  and parses, every search for the next activation ends, at a later time or at none, and so does the search of the
  schedule producer for the newest one that is due: at a time no later than the clock. For an expression of
  fields that is the time it started from or one that it names, and no time it names lies between it and the
  clock, unless more than five years passed.\<close>

theorem unzoned_schedules_catch_up:
  assumes "\<not> has_prefix ''TZ='' w" "\<not> has_prefix ''CRON_TZ='' w" "s \<le> now"
  shows "(\<exists>res. parse load product options any_text = Some res)
    \<and> (\<forall>sched. parse_standard load product w = Some (Inr sched) \<longrightarrow>
        (\<exists>nxt. standard_cron load product w = Inr nxt \<and> (\<forall>t. cron_next utc sched t = Some (nxt t))
          \<and> (\<forall>t n. nxt t = Some n \<longrightarrow> t < n)
          \<and> (\<exists>r. newest_due nxt now s = Some r \<and> s \<le> r \<and> r \<le> now
              \<and> (\<forall>sp. sched = Spec sp \<longrightarrow> (r = s \<or> fires sp r)
                  \<and> (\<forall>m. r < m \<and> m \<le> now \<and> fires sp m
                        \<longrightarrow> year_at utc (upcoming_second r) + 5 < year_at utc m)))))"
proof (intro conjI allI impI parse_total)
  fix sched assume sched: "parse_standard load product w = Some (Inr sched)"
  obtain nxt where nxt_def: "\<forall>origin t. cron_next origin sched t = Some (nxt t)"
    and forward: "\<And>t n. nxt t = Some n \<Longrightarrow> t < n"
    using unzoned_expressions_move_forward [OF assms(1,2), of load product] sched by auto
  have standard: "standard_cron load product w = Inr nxt"
    using sched nxt_def by (simp add: standard_cron_def)
  obtain r where r: "newest_due nxt now s = Some r" "s \<le> r" "r \<le> now" "\<forall>n. nxt r = Some n \<longrightarrow> now < n"
    using newest_due_total [of nxt now s, OF forward] assms(3) by blast
  have "(r = s \<or> fires sp r)
      \<and> (\<forall>m. r < m \<and> m \<le> now \<and> fires sp m \<longrightarrow> year_at utc (upcoming_second r) + 5 < year_at utc m)"
    if sp: "sched = Spec sp" for sp
  proof -
    have zone: "spec_zone origin sp = utc" for origin
      using sched sp unzoned [OF _ assms(1,2)] by (simp add: parse_standard_def)
    have nxt: "right_answer sp (year_at utc (upcoming_second t) + 5) (t div second + 1) (nxt t)" for t
      using spec_next_right [OF zone, of utc t] nxt_def by (auto simp: sp cron_next_def)
    have "fires sp r" if "nxt p = Some r" for p
      using nxt [of p] unfolding that right_answer_def option.case fires_active by blast
    then have "r = s \<or> fires sp r"
      using newest_due_reached [where nxt = nxt, OF _ r(1)] forward by blast
    moreover have "year_at utc (upcoming_second r) + 5 < year_at utc m" if m: "r < m" "m \<le> now" "fires sp m" for m
    proof -
      obtain v where v: "m = second * v" "active sp v" using m(3) fires_active by blast
      then have v': "r div second + 1 \<le> v" using m(1) upcoming_le by simp
      show ?thesis
      proof (cases "nxt r")
        case None
        then show ?thesis using nxt [of r] v v' by (simp add: right_answer_def year_of_def)
      next
        case (Some n)
        then obtain u where "n = second * u" "u \<le> v" using nxt [of r] v v' by (auto simp: right_answer_def)
        then have "n \<le> m" using v(1) by (simp add: mult_le_cancel_left_pos)
        then show ?thesis using r(4) Some m(2) by force
      qed
    qed
    ultimately show ?thesis by blast
  qed
  then show "\<exists>nxt. standard_cron load product w = Inr nxt \<and> (\<forall>t. cron_next utc sched t = Some (nxt t))
      \<and> (\<forall>t n. nxt t = Some n \<longrightarrow> t < n)
      \<and> (\<exists>r. newest_due nxt now s = Some r \<and> s \<le> r \<and> r \<le> now
          \<and> (\<forall>sp. sched = Spec sp \<longrightarrow> (r = s \<or> fires sp r)
              \<and> (\<forall>m. r < m \<and> m \<le> now \<and> fires sp m
                    \<longrightarrow> year_at utc (upcoming_second r) + 5 < year_at utc m)))"
    using r(1-3) forward standard nxt_def by blast
qed

text \<open>Every day at noon, looked at after two days off.\<close>

definition daily_noon :: string where "daily_noon = ''0 12 * * *''"

lemma unzoned_schedules_catch_up_witness:
  "\<exists>nxt r. standard_cron (\<lambda>_. None) (\<lambda>_ _ _. 0) daily_noon = Inr nxt
    \<and> newest_due nxt (200000 * second) (43200 * second) = Some r \<and> 43200 * second \<le> r \<and> r \<le> 200000 * second"
proof -
  have "map_option (\<lambda>res. case res of Inl _ \<Rightarrow> False | Inr _ \<Rightarrow> True)
      (parse_standard (\<lambda>_. None) (\<lambda>_ _ _. 0) daily_noon) = Some True" by code_simp
  then obtain res where res: "parse_standard (\<lambda>_. None) (\<lambda>_ _ _. 0) daily_noon = Some res"
    "case res of Inl _ \<Rightarrow> False | Inr _ \<Rightarrow> True" by auto
  then obtain sched where "parse_standard (\<lambda>_. None) (\<lambda>_ _ _. 0) daily_noon = Some (Inr sched)" by (cases res) auto
  moreover have "\<not> has_prefix ''TZ='' daily_noon" "\<not> has_prefix ''CRON_TZ='' daily_noon"
    "43200 * second \<le> 200000 * second" by (simp_all add: daily_noon_def has_prefix_def second_def)
  note unzoned_schedules_catch_up [OF this, of "\<lambda>_. None" "\<lambda>_ _ _. 0" standard_options daily_noon]
  ultimately show ?thesis by blast
qed

section \<open>A zone without midnight\<close>

text \<open>
  A zone that goes from UTC to an hour ahead at the midnight of the 27th of September 1972: that day
  starts at one o'clock.
\<close>

definition spring_forward :: "int \<Rightarrow> int" where
  "spring_forward u = (if u < 1000 * 86400 then 0 else 3600)"

text \<open>One o'clock in the morning of the 26th of September, \<open>0 1 26 9 *\<close>.\<close>

definition once_a_year :: spec_schedule where
  "once_a_year = \<lparr>sch_second = 1, sch_minute = 1, sch_hour = 2, sch_dom = push_bit 26 1, sch_month = push_bit 9 1,
     sch_dow = all_bits dow, sch_location = Zone spring_forward\<rparr>"

text \<open>In a zone where a day starts after midnight the search can pass into that day without
  noticing: asked on the 26th at ten in the evening, a schedule for the 26th of September at one o'clock is
  activated on the 27th.\<close>

theorem skipped_midnight_is_missed:
  "map_option (map_option (\<lambda>t. (month_at spring_forward t, day_at spring_forward t, hour_at spring_forward t)))
     (spec_next utc once_a_year (999 * 86400 * second + 79200 * second)) = Some (Some (9, 27, 1))
   \<and> month_at spring_forward (999 * 86400 * second + 79200 * second) = 9
   \<and> day_at spring_forward (999 * 86400 * second + 79200 * second) = 26
   \<and> hour_at spring_forward (999 * 86400 * second + 79200 * second) = 22"
  by code_simp

end
