(* ===== verification/Wildcards.thy ===== *)
theory Wildcards
  imports Stream_Tables
begin

text \<open>
  Binding patterns: \<open>wildcardToRegex\<close> of \<open>pkg/consume/controller/datastore/binding_log.go\<close> turns a
  pattern with \<open>*\<close> wildcards into an anchored regular expression, which the claims match routing keys
  against with the operator \<open>~\<close> of PostgreSQL. The expression is text here as it is there. What the
  operator does is a parameter \<open>rx\<close>; \<open>posix_law\<close> states the documented meaning of the constructs the
  translation uses: an ordinary character, an escaped one, \<open>.*\<close>, concatenation, and the two anchors.
\<close>

section \<open>The translation\<close>

definition backslash :: char where "backslash = CHR 0x5C"

text \<open>\<open>regexp.QuoteMeta\<close> of Go's standard library escapes these.\<close>

definition meta_chars :: "char list" where
  "meta_chars = backslash # ''.+*?()|[]{}^$''"

definition quote_char :: "char \<Rightarrow> string" where
  "quote_char c = (if c \<in> set meta_chars then [backslash, c] else [c])"

definition quote_meta :: "string \<Rightarrow> string" where
  "quote_meta s = concat (map quote_char s)"

text \<open>\<open>strings.Split\<close> at every asterisk.\<close>

fun split_stars :: "string \<Rightarrow> string list" where
  "split_stars [] = [[]]"
| "split_stars (c # s) =
     (if c = CHR ''*'' then [] # split_stars s
      else (case split_stars s of [] \<Rightarrow> [[c]] | seg # segs \<Rightarrow> (c # seg) # segs))"

fun write_segments :: "nat \<Rightarrow> string list \<Rightarrow> string" where
  "write_segments i [] = ''''"
| "write_segments i (seg # segs) =
     (if 0 < i then ''.*'' else '''') @ quote_meta seg @ write_segments (Suc i) segs"

definition wildcard_to_regex :: "string \<Rightarrow> string" where
  "wildcard_to_regex pattern = ''^'' @ write_segments 0 (split_stars pattern) @ ''$''"

section \<open>What a pattern means\<close>

text \<open>An asterisk stands for any run of characters, every other character for itself.\<close>

fun wild_match :: "string \<Rightarrow> string \<Rightarrow> bool" where
  "wild_match [] s = (s = [])"
| "wild_match (c # p) s =
     (if c = CHR ''*'' then wild_match p s \<or> (case s of [] \<Rightarrow> False | _ # s' \<Rightarrow> wild_match (c # p) s')
      else (case s of [] \<Rightarrow> False | d # s' \<Rightarrow> c = d \<and> wild_match p s'))"

inductive denotes :: "string \<Rightarrow> string set \<Rightarrow> bool" where
  den_empty: "denotes [] {[]}"
| den_plain: "c \<notin> set meta_chars \<Longrightarrow> denotes e l \<Longrightarrow> denotes (c # e) ((#) c ` l)"
| den_escaped: "c \<in> set meta_chars \<Longrightarrow> denotes e l \<Longrightarrow> denotes (backslash # c # e) ((#) c ` l)"
| den_any: "denotes e l \<Longrightarrow> denotes (CHR ''.'' # CHR ''*'' # e) {u @ s | u s. s \<in> l}"

definition posix_law :: "(string \<Rightarrow> string \<Rightarrow> bool) \<Rightarrow> bool" where
  "posix_law rx \<longleftrightarrow> (\<forall>e l s. denotes e l \<longrightarrow> rx s (''^'' @ e @ ''$'') = (s \<in> l))"

section \<open>The translation is right\<close>

fun body :: "string \<Rightarrow> string" where
  "body [] = []"
| "body (c # p) = (if c = CHR ''*'' then ''.*'' else quote_char c) @ body p"

lemma split_stars_ne [simp]: "split_stars p \<noteq> []"
  by (induction p) (auto split: list.splits)

lemma quote_meta_simps [simp]:
  "quote_meta [] = []" "quote_meta (c # s) = quote_char c @ quote_meta s"
  by (simp_all add: quote_meta_def)

lemma write_segments_Suc: "write_segments (Suc i) segs = write_segments (Suc 0) segs"
proof (induction segs arbitrary: i)
  case (Cons seg segs)
  show ?case using Cons [of "Suc i"] Cons [of "Suc 0"] by simp
qed simp

lemma write_segments_body:
  "write_segments i (split_stars p) = (if 0 < i then ''.*'' else '''') @ body p"
proof (induction p arbitrary: i)
  case (Cons c p)
  show ?case
  proof (cases "split_stars p")
    case (Cons seg segs)
    then show ?thesis
      using Cons.IH [of "Suc i"] Cons.IH [of 0] write_segments_Suc [of i segs]
      by (cases "c = CHR ''*''"; cases i) auto
  qed simp
qed simp

lemma wildcard_body: "wildcard_to_regex p = ''^'' @ body p @ ''$''"
  by (simp add: wildcard_to_regex_def write_segments_body)

lemma wild_match_plain:
  "c \<noteq> CHR ''*'' \<Longrightarrow> {s. wild_match (c # p) s} = (#) c ` {s. wild_match p s}"
  by (auto simp: image_iff neq_Nil_conv split: list.splits)

lemma wild_match_star:
  "wild_match (CHR ''*'' # p) s \<longleftrightarrow> (\<exists>u v. s = u @ v \<and> wild_match p v)"
proof (induction s)
  case (Cons d s)
  have "(\<exists>u v. d # s = u @ v \<and> wild_match p v)
      \<longleftrightarrow> wild_match p (d # s) \<or> (\<exists>u v. s = u @ v \<and> wild_match p v)"
    by (auto simp: Cons_eq_append_conv)
  then show ?case using Cons by simp
qed simp

lemma body_denotes: "denotes (body p) {s. wild_match p s}"
proof (induction p)
  case Nil
  then show ?case using den_empty by simp
next
  case (Cons c p)
  consider "c = CHR ''*''" | "c \<noteq> CHR ''*''" "c \<in> set meta_chars" | "c \<noteq> CHR ''*''" "c \<notin> set meta_chars"
    by blast
  then show ?case
  proof cases
    case 1
    have "{s. wild_match (CHR ''*'' # p) s} = {u @ s | u s. s \<in> {s. wild_match p s}}"
      unfolding wild_match_star by auto
    then show ?thesis using den_any [OF Cons] 1 by simp
  next
    case 2
    then show ?thesis using wild_match_plain [of c p] den_escaped [of c, OF _ Cons] by (simp add: quote_char_def)
  next
    case 3
    then show ?thesis using wild_match_plain [of c p] den_plain [of c, OF _ Cons] by (simp add: quote_char_def)
  qed
qed

lemma wildcard_regex_matches: "posix_law rx \<Longrightarrow> rx s (wildcard_to_regex p) = wild_match p s"
  using body_denotes [of p] by (auto simp: posix_law_def wildcard_body)

section \<open>A matcher that obeys the law\<close>

function (sequential) match_body :: "string \<Rightarrow> string \<Rightarrow> bool" where
  "match_body [] s = (s = [])"
| "match_body [c] s = (s = [c])"
| "match_body (c # d # e) s =
     (if c = backslash then (case s of [] \<Rightarrow> False | x # s' \<Rightarrow> x = d \<and> match_body e s')
      else if c = CHR ''.'' \<and> d = CHR ''*''
        then match_body e s \<or> (case s of [] \<Rightarrow> False | _ # s' \<Rightarrow> match_body (c # d # e) s')
      else (case s of [] \<Rightarrow> False | x # s' \<Rightarrow> x = c \<and> match_body (d # e) s'))"
  by pat_completeness auto
termination by (relation "measure (\<lambda>(e, s). length e + length s)") auto

definition posix_match :: "string \<Rightarrow> string \<Rightarrow> bool" where
  "posix_match s r = (r \<noteq> [] \<and> hd r = CHR ''^'' \<and> match_body (butlast (tl r)) s)"

lemma match_body_any:
  "match_body (CHR ''.'' # CHR ''*'' # e) s \<longleftrightarrow> (\<exists>u v. s = u @ v \<and> match_body e v)"
proof (induction s)
  case (Cons x s)
  have "(\<exists>u v. x # s = u @ v \<and> match_body e v)
      \<longleftrightarrow> match_body e (x # s) \<or> (\<exists>u v. s = u @ v \<and> match_body e v)"
    by (auto simp: Cons_eq_append_conv)
  then show ?case using Cons by (simp add: backslash_def)
qed (simp add: backslash_def)

lemma match_body_plain:
  assumes "c \<notin> set meta_chars"
  shows "match_body (c # e) s \<longleftrightarrow> (\<exists>s'. s = c # s' \<and> match_body e s')"
proof -
  have "c \<noteq> backslash" "c \<noteq> CHR ''.''" using assms by (auto simp: meta_chars_def)
  then show ?thesis by (cases e; cases s) auto
qed

lemma denotes_match: "denotes e l \<Longrightarrow> match_body e s = (s \<in> l)"
proof (induction arbitrary: s rule: denotes.induct)
  case (den_plain c e l)
  then show ?case by (auto simp: match_body_plain)
next
  case (den_escaped c e l)
  then show ?case by (auto split: list.splits)
next
  case (den_any e l)
  then show ?case by (simp only: match_body_any) auto
qed simp

lemma posix_match_law: "posix_law posix_match"
  by (auto simp: posix_law_def posix_match_def denotes_match butlast_append)

section \<open>Different patterns, different expressions\<close>

lemma quote_char_inj: "quote_char c @ x = quote_char d @ y \<Longrightarrow> c = d \<and> x = y"
  by (auto simp: quote_char_def meta_chars_def split: if_splits)

lemma body_inj: "body p = body q \<Longrightarrow> p = q"
proof (induction p arbitrary: q)
  case Nil
  then show ?case by (cases q) (auto simp: quote_char_def split: if_splits)
next
  case (Cons c p)
  obtain d q' where q: "q = d # q'"
    using Cons.prems by (cases q) (auto simp: quote_char_def split: if_splits)
  have star: "quote_char x @ u \<noteq> ''.*'' @ v" "''.*'' @ v \<noteq> quote_char x @ u" for x u v
    by (auto simp: quote_char_def meta_chars_def backslash_def split: if_splits)
  have "c = d \<and> body p = body q'"
    using Cons.prems quote_char_inj [of c _ d] star q
    by (cases "c = CHR ''*''"; cases "d = CHR ''*''") (simp_all del: append_Cons)
  then show ?case using Cons.IH q by simp
qed

lemma wildcard_to_regex_inj: "wildcard_to_regex p = wildcard_to_regex q \<longleftrightarrow> p = q"
  by (auto simp: wildcard_body dest: body_inj)

end
