(* ===== verification/Binding_Log.thy ===== *)
theory Binding_Log
  imports Wildcards Consumer_Groups Workers "HOL-Library.List_Lexorder" "HOL-Library.Char_ord"
    "HOL-Library.Product_Lexorder"
begin

text \<open>
  Declaring which routing keys a consumer group reads: \<open>pkg/consume/controller/binding.go\<close>, its
  datastore \<open>binding_log.go\<close>, and the sweep of \<open>pkg/consume/janitor\<close>. Every declaration of a set of
  patterns is a transaction under the row lock of the group; the set a group has is the one of its
  newest \<open>installed\<close> row in \<open>binding_config_log\<close>, and the rows of \<open>binding_config\<close> repeat it for the
  claims. Each stream has both tables of its own; the groups, the streams and the worker instances
  are shared and are those of \<open>Workers\<close>. The list of log rows is in the order of their ids.
\<close>

named_theorems binding_defs "operations on the binding tables"

section \<open>Rows\<close>

datatype binding_outcome = Binding_Installed | Binding_Joined | Binding_Waiting

datatype declaration_status = Declared_Installed | Declared_Waiting

definition status_text :: "declaration_status \<Rightarrow> string" where
  "status_text s = (case s of Declared_Installed \<Rightarrow> ''installed'' | Declared_Waiting \<Rightarrow> ''waiting'')"

record declaration_row =
  dr_id :: int
  dr_group :: int
  dr_status :: declaration_status
  dr_patterns :: "string list"
  dr_declarer :: string
  dr_declared_at :: time
  dr_attempted_at :: time

record stream_bindings =
  sb_log :: "declaration_row list"
  sb_rows :: "binding_row list"
  sb_next :: int

record 'm binding_db =
  bd_workers :: "'m worker_db"
  bd_tables :: "int \<Rightarrow> stream_bindings"

datatype binding_error =
    Binding_Argument string
  | Binding_Group_Not_Found int
  | Binding_Unique_Violation

text \<open>A row of the listing query: the log row with the names it joins.\<close>

record binding_log_row =
  br_row :: declaration_row
  br_group_name :: string
  br_stream_name :: string

record binding =
  bg_group_name :: string
  bg_stream_name :: string
  bg_status :: declaration_status
  bg_patterns :: "string list"
  bg_declarer :: string
  bg_declared_at :: time
  bg_attempted_at :: time

section \<open>Reading the log\<close>

text \<open>The two inner joins.\<close>

definition joined_row :: "'m worker_db \<Rightarrow> declaration_row \<Rightarrow> binding_log_row option" where
  "joined_row w r =
     (case find (\<lambda>g. gf_id g = dr_group r) (wd_groups w) of
        None \<Rightarrow> None
      | Some g \<Rightarrow> (case find (\<lambda>t. sf_id t = gf_stream g) (wd_streams w) of
          None \<Rightarrow> None
        | Some t \<Rightarrow> Some \<lparr>br_row = r, br_group_name = gf_name g, br_stream_name = sf_name t\<rparr>))"

definition distinct_key :: "declaration_row \<Rightarrow> int \<times> declaration_status \<times> string" where
  "distinct_key r = (dr_group r, dr_status r, dr_declarer r)"

text \<open>\<open>DISTINCT ON\<close> after \<open>ORDER BY ... id DESC\<close>: the row of each key with the largest id.\<close>

definition newest_per_key :: "declaration_row list \<Rightarrow> declaration_row list" where
  "newest_per_key rs =
     filter (\<lambda>r. \<forall>r' \<in> set rs. distinct_key r' = distinct_key r \<longrightarrow> dr_id r' \<le> dr_id r) rs"

definition list_stream_binding_log ::
  "(string \<Rightarrow> 'o::linorder) \<Rightarrow> 'm binding_db \<Rightarrow> int \<Rightarrow> int \<Rightarrow> binding_log_row list" where
  "list_stream_binding_log collate s stream g =
     (let w = bd_workers s;
          rows = filter (\<lambda>r. (g = 0 \<or> dr_group r = g) \<and> joined_row w r \<noteq> None)
                   (sb_log (bd_tables s stream))
      in map (\<lambda>r. the (joined_row w r))
           (sort_key dr_group (sort_key (\<lambda>r. collate (status_text (dr_status r)))
             (sort_key (\<lambda>r. collate (dr_declarer r)) (newest_per_key rows)))))"

definition list_group_binding_log ::
  "(string \<Rightarrow> 'o::linorder) \<Rightarrow> 'm binding_db \<Rightarrow> int \<Rightarrow> int \<Rightarrow> binding_log_row list" where
  "list_group_binding_log collate s stream g = list_stream_binding_log collate s stream g"

definition list_group_stream_ids :: "'m worker_db \<Rightarrow> int list" where
  "list_group_stream_ids w = sort (remdups (map gf_stream (wd_groups w)))"

definition list_binding_log ::
  "(string \<Rightarrow> 'o::linorder) \<Rightarrow> 'm binding_db \<Rightarrow> binding_log_row list" where
  "list_binding_log collate s =
     concat (map (\<lambda>st. list_stream_binding_log collate s st 0) (list_group_stream_ids (bd_workers s)))"

fun newest_installed_from ::
  "binding_log_row option \<Rightarrow> binding_log_row list \<Rightarrow> binding_log_row option" where
  "newest_installed_from newest [] = newest"
| "newest_installed_from newest (d # ds) =
     newest_installed_from
       (if dr_status (br_row d) \<noteq> Declared_Installed then newest
        else (case newest of
                None \<Rightarrow> Some d
              | Some n \<Rightarrow> if dr_id (br_row n) < dr_id (br_row d) then Some d else newest)) ds"

definition newest_installed_declaration :: "binding_log_row list \<Rightarrow> binding_log_row option" where
  "newest_installed_declaration ds = newest_installed_from None ds"

section \<open>Declaring\<close>

definition group_has_live_instance :: "'m worker_db \<Rightarrow> int \<Rightarrow> time \<Rightarrow> bool" where
  "group_has_live_instance w g now \<longleftrightarrow>
     (\<exists>i \<in> set (worker_instances w). \<exists>c \<in> set (worker_configs w).
        wc_id c = wi_worker i \<and> snd (snd (wc_owner c)) = Some g \<and> now < wi_expires i)"

fun equal_patterns :: "string list \<Rightarrow> string list \<Rightarrow> bool" where
  "equal_patterns [] [] = True"
| "equal_patterns (p # ps) (q # qs) = (p = q \<and> equal_patterns ps qs)"
| "equal_patterns _ _ = False"

definition classify_declaration ::
  "bool \<Rightarrow> string list \<Rightarrow> string list \<Rightarrow> bool \<Rightarrow> binding_outcome" where
  "classify_declaration found stored patterns live =
     (if \<not> found then Binding_Installed
      else if equal_patterns stored patterns then Binding_Joined
      else if \<not> live then Binding_Installed
      else Binding_Waiting)"

definition append_declaration ::
  "stream_bindings \<Rightarrow> int \<Rightarrow> declaration_status \<Rightarrow> string list \<Rightarrow> string \<Rightarrow> time \<Rightarrow> time
   \<Rightarrow> stream_bindings" where
  "append_declaration t g status patterns declarer declared_at now = t\<lparr>
     sb_log := sb_log t @ [\<lparr>dr_id = sb_next t, dr_group = g, dr_status = status,
       dr_patterns = patterns, dr_declarer = declarer, dr_declared_at = declared_at,
       dr_attempted_at = now\<rparr>],
     sb_next := sb_next t + 1\<rparr>"

definition binding_of :: "int \<Rightarrow> string \<Rightarrow> binding_row" where
  "binding_of g p = \<lparr>bi_group = g, bi_pattern = Some p, bi_regex = wildcard_to_regex p\<rparr>"

text \<open>The inserts, one statement per pattern, under \<open>UNIQUE (consumer_group_id, pattern_regex)\<close>.\<close>

fun insert_bindings :: "binding_row list \<Rightarrow> int \<Rightarrow> string list \<Rightarrow> binding_row list option" where
  "insert_bindings rows g [] = Some rows"
| "insert_bindings rows g (p # ps) =
     (if \<exists>b \<in> set rows. bi_group b = g \<and> bi_regex b = wildcard_to_regex p then None
      else insert_bindings (rows @ [binding_of g p]) g ps)"

definition replace_bindings :: "stream_bindings \<Rightarrow> int \<Rightarrow> string list \<Rightarrow> stream_bindings option" where
  "replace_bindings t g patterns =
     (case insert_bindings (delete_where (\<lambda>b. bi_group b = g) (sb_rows t)) g patterns of
        None \<Rightarrow> None
      | Some rows \<Rightarrow> Some (t\<lparr>sb_rows := rows\<rparr>))"

definition set_tables :: "'m binding_db \<Rightarrow> int \<Rightarrow> stream_bindings \<Rightarrow> 'm binding_db" where
  "set_tables s stream t = s\<lparr>bd_tables := (bd_tables s)(stream := t)\<rparr>"

definition declare_bindings ::
  "(string \<Rightarrow> 'o::linorder) \<Rightarrow> 'm binding_db \<Rightarrow> int \<Rightarrow> int \<Rightarrow> string list \<Rightarrow> string \<Rightarrow> time \<Rightarrow> time
   \<Rightarrow> (binding_error + binding_outcome) \<times> 'm binding_db" where
  "declare_bindings collate s stream g patterns declarer declared_at now =
     (if \<not> (\<exists>r \<in> set (wd_groups (bd_workers s)). gf_id r = g) then (Inl (Binding_Group_Not_Found g), s)
      else
        (let t = bd_tables s stream;
             installed = newest_installed_declaration (list_stream_binding_log collate s stream g);
             stored = (case installed of None \<Rightarrow> [] | Some d \<Rightarrow> dr_patterns (br_row d));
             live = group_has_live_instance (bd_workers s) g now;
             outcome = classify_declaration (installed \<noteq> None) stored patterns live
         in case outcome of
              Binding_Joined \<Rightarrow> (Inr outcome, s)
            | Binding_Waiting \<Rightarrow>
                (Inr outcome, set_tables s stream
                   (append_declaration t g Declared_Waiting patterns declarer declared_at now))
            | Binding_Installed \<Rightarrow>
                (case replace_bindings
                        (append_declaration t g Declared_Installed patterns declarer declared_at now)
                        g patterns of
                   None \<Rightarrow> (Inl Binding_Unique_Violation, s)
                 | Some t' \<Rightarrow> (Inr outcome, set_tables s stream t'))))"

definition normalize_patterns :: "string list \<Rightarrow> string list" where
  "normalize_patterns patterns = remdups_adj (sort patterns)"

text \<open>The call of the controller; a zero \<open>declaredAt\<close> is \<open>None\<close>.\<close>

definition declare_bindings_checked ::
  "(string \<Rightarrow> 'o::linorder) \<Rightarrow> string \<Rightarrow> 'm binding_db \<Rightarrow> int \<Rightarrow> int \<Rightarrow> string list \<Rightarrow> time option
   \<Rightarrow> time \<Rightarrow> (binding_error + binding_outcome) \<times> 'm binding_db" where
  "declare_bindings_checked collate identity s stream g patterns declared_at now =
     (if stream \<le> 0 then (Inl (Binding_Argument ''streamId''), s)
      else if g \<le> 0 then (Inl (Binding_Argument ''groupId''), s)
      else (case declared_at of
          None \<Rightarrow> (Inl (Binding_Argument ''declaredAt''), s)
        | Some d \<Rightarrow>
            if '''' \<in> set patterns then (Inl (Binding_Argument ''patterns''), s)
            else declare_bindings collate s stream g (normalize_patterns patterns) identity d now))"

section \<open>Listings\<close>

definition to_binding :: "binding_log_row \<Rightarrow> binding" where
  "to_binding d = \<lparr>bg_group_name = br_group_name d, bg_stream_name = br_stream_name d,
     bg_status = dr_status (br_row d), bg_patterns = dr_patterns (br_row d),
     bg_declarer = dr_declarer (br_row d), bg_declared_at = dr_declared_at (br_row d),
     bg_attempted_at = dr_attempted_at (br_row d)\<rparr>"

definition get_binding ::
  "(string \<Rightarrow> 'o::linorder) \<Rightarrow> 'm binding_db \<Rightarrow> int \<Rightarrow> int \<Rightarrow> binding_error + binding option" where
  "get_binding collate s stream g =
     (if stream \<le> 0 then Inl (Binding_Argument ''streamId'')
      else if g \<le> 0 then Inl (Binding_Argument ''groupId'')
      else Inr (map_option to_binding
             (newest_installed_declaration (list_group_binding_log collate s stream g))))"

definition declarer_installed_after :: "binding_log_row \<Rightarrow> binding_log_row list \<Rightarrow> bool" where
  "declarer_installed_after waiting rows \<longleftrightarrow>
     (\<exists>r \<in> set rows. dr_status (br_row r) = Declared_Installed
        \<and> dr_declarer (br_row r) = dr_declarer (br_row waiting)
        \<and> dr_id (br_row waiting) < dr_id (br_row r))"

definition open_waiters :: "binding_log_row list \<Rightarrow> binding_log_row \<Rightarrow> binding_log_row list" where
  "open_waiters rows effective =
     filter (\<lambda>r. dr_status (br_row r) = Declared_Waiting
        \<and> \<not> declarer_installed_after r rows
        \<and> dr_patterns (br_row r) \<noteq> dr_patterns (br_row effective)) rows"

text \<open>
  The rows of each group, as a Go map iterates over them: \<open>iteration\<close> is the order it happens to take
  the keys in.
\<close>

definition group_by_consumer_group ::
  "(int list \<Rightarrow> int list) \<Rightarrow> binding_log_row list \<Rightarrow> binding_log_row list list" where
  "group_by_consumer_group iteration rows =
     map (\<lambda>g. filter (\<lambda>r. dr_group (br_row r) = g) rows)
       (iteration (remdups (map (\<lambda>r. dr_group (br_row r)) rows)))"

definition group_listing :: "binding_log_row list \<Rightarrow> binding list" where
  "group_listing rows =
     (case newest_installed_declaration rows of
        None \<Rightarrow> []
      | Some effective \<Rightarrow> to_binding effective # map to_binding (open_waiters rows effective))"

definition list_bindings ::
  "(string \<Rightarrow> 'o::linorder) \<Rightarrow> (int list \<Rightarrow> int list) \<Rightarrow> 'm binding_db \<Rightarrow> binding list" where
  "list_bindings collate iteration s =
     sort_key (\<lambda>b. (bg_stream_name b, bg_group_name b))
       (concat (map group_listing (group_by_consumer_group iteration (list_binding_log collate s))))"

section \<open>The sweep of the janitor\<close>

definition newest_waiting_id :: "declaration_row list \<Rightarrow> declaration_row \<Rightarrow> int option" where
  "newest_waiting_id rs r =
     sql_max (map dr_id (filter (\<lambda>x. dr_status x = Declared_Waiting \<and> dr_group x = dr_group r
       \<and> dr_declarer x = dr_declarer r) rs))"

definition superseded_waiting :: "declaration_row list \<Rightarrow> time \<Rightarrow> declaration_row \<Rightarrow> bool" where
  "superseded_waiting rs cutoff r \<longleftrightarrow>
     dr_status r = Declared_Waiting \<and> dr_attempted_at r < cutoff
     \<and> (case newest_waiting_id rs r of None \<Rightarrow> False | Some n \<Rightarrow> dr_id r < n)"

text \<open>\<open>scan\<close> is the order the rows happen to come in, which the \<open>LIMIT\<close> cuts.\<close>

definition sweep_stream_waiting ::
  "(declaration_row list \<Rightarrow> declaration_row list) \<Rightarrow> stream_bindings \<Rightarrow> time \<Rightarrow> int
   \<Rightarrow> nat \<times> stream_bindings" where
  "sweep_stream_waiting scan t cutoff batch =
     (let picked = map dr_id (limit_rows batch
            (filter (superseded_waiting (sb_log t) cutoff) (scan (sb_log t))));
          doomed = (\<lambda>r. dr_id r \<in> set picked)
      in (rows_matching doomed (sb_log t), t\<lparr>sb_log := delete_where doomed (sb_log t)\<rparr>))"

fun sweep_streams ::
  "(declaration_row list \<Rightarrow> declaration_row list) \<Rightarrow> time \<Rightarrow> int \<Rightarrow> int list \<Rightarrow> 'm binding_db
   \<Rightarrow> nat \<times> 'm binding_db" where
  "sweep_streams scan cutoff batch [] s = (0, s)"
| "sweep_streams scan cutoff batch (st # sts) s =
     (let (n, t) = sweep_stream_waiting scan (bd_tables s st) cutoff batch;
          (n', s') = sweep_streams scan cutoff batch sts (set_tables s st t)
      in (n + n', s'))"

definition sweep_waiting_declarations ::
  "(declaration_row list \<Rightarrow> declaration_row list) \<Rightarrow> 'm binding_db \<Rightarrow> time \<Rightarrow> duration \<Rightarrow> int
   \<Rightarrow> (binding_error + nat) \<times> 'm binding_db" where
  "sweep_waiting_declarations scan s now ttl batch =
     (if ttl \<le> 0 then (Inl (Binding_Argument ''ttl''), s)
      else if batch \<le> 0 then (Inl (Binding_Argument ''batchSize''), s)
      else (let (n, s') = sweep_streams scan (now - ttl) batch
                            (list_group_stream_ids (bd_workers s)) s
            in (Inr n, s')))"

section \<open>The wait of a consumer\<close>

text \<open>
  \<open>declareBindings\<close> of \<open>pkg/consumer/consumer_instance.go\<close>: a consumer that starts repeats its
  declaration until it is not told to wait. \<open>env n\<close> is what everything else does before attempt \<open>n\<close>,
  which runs at \<open>clock n\<close>; \<open>cancelled n\<close> says that the context ends during the wait after it. The code
  has no bound on the attempts.
\<close>

datatype wait_result = Wait_Failed binding_error | Wait_Cancelled | Wait_Done binding_outcome

definition wait_attempt ::
  "('m binding_db \<Rightarrow> (binding_error + binding_outcome) \<times> 'm binding_db) \<Rightarrow> bool \<Rightarrow> 'm binding_db
   \<Rightarrow> wait_result option \<times> 'm binding_db" where
  "wait_attempt declare_now stop s =
     (case declare_now s of
        (Inl e, s') \<Rightarrow> (Some (Wait_Failed e), s')
      | (Inr out, s') \<Rightarrow>
          if out \<noteq> Binding_Waiting then (Some (Wait_Done out), s')
          else if stop then (Some Wait_Cancelled, s')
          else (None, s'))"

partial_function (option) wait_loop ::
  "(nat \<Rightarrow> 'm binding_db \<Rightarrow> wait_result option \<times> 'm binding_db) \<Rightarrow> nat \<Rightarrow> 'm binding_db
   \<Rightarrow> (wait_result \<times> 'm binding_db) option" where
  "wait_loop attempt n s =
     (if fst (attempt n s) = None then wait_loop attempt (Suc n) (snd (attempt n s))
      else Some (the (fst (attempt n s)), snd (attempt n s)))"

definition wait_for_bindings ::
  "(string \<Rightarrow> 'o::linorder) \<Rightarrow> string \<Rightarrow> int \<Rightarrow> int \<Rightarrow> string list \<Rightarrow> time \<Rightarrow> (nat \<Rightarrow> time)
   \<Rightarrow> (nat \<Rightarrow> bool) \<Rightarrow> (nat \<Rightarrow> 'm binding_db \<Rightarrow> 'm binding_db) \<Rightarrow> 'm binding_db
   \<Rightarrow> (wait_result \<times> 'm binding_db) option" where
  "wait_for_bindings collate identity stream g patterns declared_at clock cancelled env s =
     wait_loop (\<lambda>n s. wait_attempt
         (\<lambda>s. declare_bindings_checked collate identity s stream g patterns (Some declared_at) (clock n))
         (cancelled n) (env n s)) 0 s"

end
