(* ===== verification/Binding_Properties.thy ===== *)
theory Binding_Properties
  imports Binding_Log
begin

text \<open>
  What the binding tables promise. The effective set of a group is the pattern list of its newest
  installed declaration (\<open>effective\<close>). \<open>binding_inv\<close> ties the rows that the claims read to it, in any
  interleaving of declarations, sweeps, registrations and deletions (\<open>binding_run\<close>); on top of it a
  declaration is the step \<open>spec_declare\<close> on the effective set alone.
\<close>

section \<open>The effective set\<close>

definition installed_rows :: "declaration_row list \<Rightarrow> int \<Rightarrow> declaration_row list" where
  "installed_rows rs g = filter (\<lambda>r. dr_group r = g \<and> dr_status r = Declared_Installed) rs"

definition effective :: "'m binding_db \<Rightarrow> int \<Rightarrow> int \<Rightarrow> string list option" where
  "effective s stream g =
     (let rs = installed_rows (sb_log (bd_tables s stream)) g
      in if rs = [] then None else Some (dr_patterns (last rs)))"

definition spec_declare ::
  "string list option \<Rightarrow> string list \<Rightarrow> bool \<Rightarrow> binding_outcome \<times> string list option" where
  "spec_declare e ps live =
     (case e of
        None \<Rightarrow> (Binding_Installed, Some ps)
      | Some qs \<Rightarrow>
          if qs = ps then (Binding_Joined, e)
          else if live then (Binding_Waiting, e)
          else (Binding_Installed, Some ps))"

section \<open>Steps\<close>

definition catalog_ok :: "'m worker_db \<Rightarrow> bool" where
  "catalog_ok w \<longleftrightarrow>
     (\<forall>g \<in> set (wd_groups w). \<exists>t \<in> set (wd_streams w). sf_id t = gf_stream g)"

definition empty_bindings :: stream_bindings where
  "empty_bindings = \<lparr>sb_log = [], sb_rows = [], sb_next = 1\<rparr>"

definition forget_group :: "int \<Rightarrow> stream_bindings \<Rightarrow> stream_bindings" where
  "forget_group g t = t\<lparr>sb_log := delete_where (\<lambda>r. dr_group r = g) (sb_log t),
     sb_rows := delete_where (\<lambda>b. bi_group b = g) (sb_rows t)\<rparr>"

definition drop_group_bindings :: "'m binding_db \<Rightarrow> int \<Rightarrow> 'm binding_db" where
  "drop_group_bindings s g = s\<lparr>
     bd_workers := (bd_workers s)\<lparr>wd_groups := delete_where (\<lambda>x. gf_id x = g) (wd_groups (bd_workers s))\<rparr>,
     bd_tables := (\<lambda>st. forget_group g (bd_tables s st))\<rparr>"

text \<open>
  Besides declarations and sweeps: whatever registrations and workers do to the shared tables without
  deleting a group, the deletion of a group with its cascade, and the tables of a stream being dropped.
\<close>

inductive binding_run :: "(string \<Rightarrow> 'o::linorder) \<Rightarrow> 'm binding_db \<Rightarrow> bool" for collate where
  run_start: "catalog_ok w \<Longrightarrow> binding_run collate \<lparr>bd_workers = w, bd_tables = (\<lambda>_. empty_bindings)\<rparr>"
| run_declare: "binding_run collate s \<Longrightarrow>
    binding_run collate (snd (declare_bindings_checked collate identity s st g patterns d now))"
| run_sweep: "binding_run collate s \<Longrightarrow> (\<And>rs. mset (scan rs) = mset rs) \<Longrightarrow>
    binding_run collate (snd (sweep_waiting_declarations scan s now ttl batch))"
| run_catalog: "binding_run collate s \<Longrightarrow> catalog_ok w \<Longrightarrow>
    gf_id ` set (wd_groups (bd_workers s)) \<subseteq> gf_id ` set (wd_groups w) \<Longrightarrow>
    binding_run collate (s\<lparr>bd_workers := w\<rparr>)"
| run_drop_group: "binding_run collate s \<Longrightarrow> binding_run collate (drop_group_bindings s g)"
| run_drop_stream: "binding_run collate s \<Longrightarrow> binding_run collate (set_tables s st empty_bindings)"

section \<open>The invariant\<close>

definition table_inv :: "int set \<Rightarrow> stream_bindings \<Rightarrow> bool" where
  "table_inv groups t \<longleftrightarrow>
     sorted_wrt (\<lambda>a b. dr_id a < dr_id b) (sb_log t)
     \<and> (\<forall>r \<in> set (sb_log t). dr_id r < sb_next t \<and> dr_group r \<in> groups)
     \<and> (\<forall>g. filter (\<lambda>b. bi_group b = g) (sb_rows t)
          = (let rs = installed_rows (sb_log t) g
             in if rs = [] then [] else map (binding_of g) (dr_patterns (last rs))))"

definition binding_inv :: "'m binding_db \<Rightarrow> bool" where
  "binding_inv s \<longleftrightarrow> catalog_ok (bd_workers s)
     \<and> (\<forall>st. table_inv (gf_id ` set (wd_groups (bd_workers s))) (bd_tables s st))"

lemma table_inv_mono: "table_inv gs t \<Longrightarrow> gs \<subseteq> gs' \<Longrightarrow> table_inv gs' t"
  by (auto simp: table_inv_def)

lemma table_inv_empty: "table_inv gs empty_bindings"
  by (simp add: table_inv_def empty_bindings_def installed_rows_def)

lemma installed_rows_snoc:
  "installed_rows (rs @ [r]) g =
     installed_rows rs g @ (if dr_group r = g \<and> dr_status r = Declared_Installed then [r] else [])"
  by (simp add: installed_rows_def)

lemma append_log_inv:
  assumes "table_inv gs t" "g \<in> gs"
  shows "sorted_wrt (\<lambda>a b. dr_id a < dr_id b) (sb_log (append_declaration t g st ps who d now))"
    and "\<forall>r \<in> set (sb_log (append_declaration t g st ps who d now)).
           dr_id r < sb_next (append_declaration t g st ps who d now) \<and> dr_group r \<in> gs"
  using assms by (auto simp: append_declaration_def table_inv_def sorted_wrt_append)

lemma append_waiting_inv:
  assumes "table_inv gs t" "g \<in> gs"
  shows "table_inv gs (append_declaration t g Declared_Waiting ps who d now)"
  using append_log_inv [OF assms] assms(1)
  unfolding table_inv_def by (simp add: append_declaration_def installed_rows_snoc)

lemma insert_bindings_some:
  assumes "distinct ps" "\<forall>p \<in> set ps. \<forall>b \<in> set rows. \<not> (bi_group b = g \<and> bi_regex b = wildcard_to_regex p)"
  shows "insert_bindings rows g ps = Some (rows @ map (binding_of g) ps)"
  using assms
proof (induction ps arbitrary: rows)
  case (Cons p ps)
  have "\<forall>q \<in> set ps. \<forall>b \<in> set (rows @ [binding_of g p]).
      \<not> (bi_group b = g \<and> bi_regex b = wildcard_to_regex q)"
    using Cons.prems by (auto simp: binding_of_def wildcard_to_regex_inj)
  then show ?case using Cons.IH [of "rows @ [binding_of g p]"] Cons.prems by simp
qed simp

lemma insert_bindings_rows:
  "insert_bindings rows g ps = Some rows' \<Longrightarrow> rows' = rows @ map (binding_of g) ps"
proof (induction ps arbitrary: rows)
  case (Cons p ps)
  then show ?case using Cons.IH [of "rows @ [binding_of g p]"] by (auto split: if_splits)
qed simp

lemma replace_bindings_some:
  assumes "distinct ps"
  shows "replace_bindings t g ps
    = Some (t\<lparr>sb_rows := delete_where (\<lambda>b. bi_group b = g) (sb_rows t) @ map (binding_of g) ps\<rparr>)"
  using insert_bindings_some [OF assms, of "delete_where (\<lambda>b. bi_group b = g) (sb_rows t)" g]
  by (simp add: replace_bindings_def delete_where_def)

lemma install_inv:
  assumes inv: "table_inv gs t" and g: "g \<in> gs"
    and r: "replace_bindings (append_declaration t g Declared_Installed ps who d now) g ps = Some t'"
  shows "table_inv gs t'"
proof -
  let ?t = "append_declaration t g Declared_Installed ps who d now"
  have t': "t' = ?t\<lparr>sb_rows := delete_where (\<lambda>b. bi_group b = g) (sb_rows t) @ map (binding_of g) ps\<rparr>"
    using r by (auto simp: replace_bindings_def append_declaration_def dest: insert_bindings_rows
        split: option.splits)
  have other: "filter (\<lambda>x. bi_group x \<noteq> g \<and> bi_group x = h) rs = filter (\<lambda>x. bi_group x = h) rs"
    if "h \<noteq> g" for h rs using that by (intro filter_cong) auto
  have "filter (\<lambda>b. bi_group b = h) (sb_rows t')
      = (let rs = installed_rows (sb_log t') h
         in if rs = [] then [] else map (binding_of h) (dr_patterns (last rs)))" for h
    using inv
    by (cases "h = g") (auto simp: t' table_inv_def append_declaration_def installed_rows_snoc
        delete_where_def binding_of_def filter_map o_def other)
  then show ?thesis
    using append_log_inv [OF inv g, of Declared_Installed ps who d now]
    unfolding table_inv_def by (simp add: t')
qed

section \<open>The newest installed declaration\<close>

lemma newest_installed_from_SomeD:
  "newest_installed_from n ds = Some d \<Longrightarrow>
     (n = Some d \<or> (d \<in> set ds \<and> dr_status (br_row d) = Declared_Installed))
     \<and> (\<forall>e \<in> set ds. dr_status (br_row e) = Declared_Installed \<longrightarrow> dr_id (br_row e) \<le> dr_id (br_row d))
     \<and> (\<forall>e. n = Some e \<longrightarrow> dr_id (br_row e) \<le> dr_id (br_row d))"
  by (induction n ds rule: newest_installed_from.induct)
    (fastforce split: if_splits option.splits)+

lemma newest_installed_from_None:
  "newest_installed_from n ds = None \<longleftrightarrow>
     n = None \<and> (\<forall>e \<in> set ds. dr_status (br_row e) \<noteq> Declared_Installed)"
  by (induction n ds rule: newest_installed_from.induct) (auto split: option.splits)

lemma newest_per_key_ex:
  assumes "r \<in> set rs"
  shows "\<exists>r' \<in> set (newest_per_key rs). distinct_key r' = distinct_key r \<and> dr_id r \<le> dr_id r'"
proof -
  let ?K = "{x \<in> set rs. distinct_key x = distinct_key r}"
  have "finite ?K" "?K \<noteq> {}" using assms by auto
  then obtain m where m: "m \<in> ?K" "dr_id m = Max (dr_id ` ?K)"
    by (metis (no_types, lifting) Max_in empty_is_image finite_imageI imageE)
  have "dr_id x \<le> dr_id m" if "x \<in> ?K" for x
    using \<open>finite ?K\<close> m(2) that by simp
  then show ?thesis using m(1) assms by (intro bexI [of _ m]) (auto simp: newest_per_key_def)
qed

lemma joined_row_some:
  assumes "catalog_ok w" "dr_group r \<in> gf_id ` set (wd_groups w)"
  shows "\<exists>j. joined_row w r = Some j \<and> br_row j = r"
proof -
  obtain g where g: "find (\<lambda>g. gf_id g = dr_group r) (wd_groups w) = Some g"
    using assms(2) by (cases "find (\<lambda>g. gf_id g = dr_group r) (wd_groups w)") (auto simp: find_None_iff)
  then have "\<exists>t \<in> set (wd_streams w). sf_id t = gf_stream g"
    using assms(1) by (auto simp: catalog_ok_def dest: find_SomeD)
  then obtain t where "find (\<lambda>t. sf_id t = gf_stream g) (wd_streams w) = Some t"
    by (cases "find (\<lambda>t. sf_id t = gf_stream g) (wd_streams w)") (auto simp: find_None_iff)
  then show ?thesis using g by (simp add: joined_row_def)
qed

lemma listed_rows:
  assumes "binding_inv s"
  shows "br_row ` set (list_stream_binding_log collate s st g)
    = set (newest_per_key (filter (\<lambda>r. g = 0 \<or> dr_group r = g) (sb_log (bd_tables s st))))"
proof -
  have j: "\<exists>j. joined_row (bd_workers s) r = Some j \<and> br_row j = r"
    if "r \<in> set (sb_log (bd_tables s st))" for r
    using assms that by (intro joined_row_some) (auto simp: binding_inv_def table_inv_def)
  have f: "filter (\<lambda>r. (g = 0 \<or> dr_group r = g) \<and> joined_row (bd_workers s) r \<noteq> None)
        (sb_log (bd_tables s st)) = filter (\<lambda>r. g = 0 \<or> dr_group r = g) (sb_log (bd_tables s st))"
    using j by (intro filter_cong) auto
  have "br_row (the (joined_row (bd_workers s) r)) = r"
    if "r \<in> set (newest_per_key (filter (\<lambda>r. g = 0 \<or> dr_group r = g) (sb_log (bd_tables s st))))" for r
    using j [of r] that by (auto simp: newest_per_key_def)
  then show ?thesis
    unfolding list_stream_binding_log_def Let_def f by (simp add: image_image)
qed

lemma last_installed:
  assumes "sorted_wrt (\<lambda>a b. dr_id a < dr_id b) rs" "r \<in> set (installed_rows rs g)"
    "\<forall>x \<in> set (installed_rows rs g). dr_id x \<le> dr_id r"
  shows "last (installed_rows rs g) = r"
proof -
  have s: "sorted_wrt (\<lambda>a b. dr_id a < dr_id b) (installed_rows rs g)"
    unfolding installed_rows_def by (rule sorted_wrt_filterI [OF assms(1)])
  obtain xs l where xs: "installed_rows rs g = xs @ [l]"
    using assms(2) by (cases "installed_rows rs g" rule: rev_cases) auto
  have "r \<notin> set xs" using s assms(3) by (auto simp: xs sorted_wrt_append)
  then show ?thesis using assms(2) by (simp add: xs)
qed

lemma newest_is_effective:
  assumes inv: "binding_inv s" and g: "g \<noteq> 0"
  shows "map_option (\<lambda>d. dr_patterns (br_row d))
      (newest_installed_declaration (list_stream_binding_log collate s st g)) = effective s st g"
proof -
  let ?log = "sb_log (bd_tables s st)" and ?L = "list_stream_binding_log collate s st g"
  let ?G = "filter (\<lambda>r. g = 0 \<or> dr_group r = g) ?log"
  have L: "br_row ` set ?L = set (newest_per_key ?G)" by (rule listed_rows [OF inv])
  have up: "\<exists>d \<in> set ?L. dr_status (br_row d) = Declared_Installed \<and> dr_id x \<le> dr_id (br_row d)"
    if "x \<in> set (installed_rows ?log g)" for x
  proof -
    have "x \<in> set ?G" "dr_status x = Declared_Installed" using that by (auto simp: installed_rows_def)
    then show ?thesis
      using newest_per_key_ex [of x ?G] unfolding L [symmetric] by (auto simp: distinct_key_def)
  qed
  have down: "br_row d \<in> set (installed_rows ?log g)"
    if "d \<in> set ?L" "dr_status (br_row d) = Declared_Installed" for d
    using that L g by (auto simp: installed_rows_def newest_per_key_def)
  show ?thesis
  proof (cases "newest_installed_declaration ?L")
    case None
    then have "\<forall>e \<in> set ?L. dr_status (br_row e) \<noteq> Declared_Installed"
      by (simp add: newest_installed_declaration_def newest_installed_from_None)
    then have "set (installed_rows ?log g) = {}" using up by fastforce
    then have "installed_rows ?log g = []" by simp
    then show ?thesis using None by (simp add: effective_def)
  next
    case (Some d)
    have d: "d \<in> set ?L" "dr_status (br_row d) = Declared_Installed"
      "\<forall>e \<in> set ?L. dr_status (br_row e) = Declared_Installed \<longrightarrow> dr_id (br_row e) \<le> dr_id (br_row d)"
      using newest_installed_from_SomeD [OF Some [unfolded newest_installed_declaration_def]] by auto
    have "last (installed_rows ?log g) = br_row d"
    proof (rule last_installed)
      show "sorted_wrt (\<lambda>a b. dr_id a < dr_id b) ?log"
        using inv by (auto simp: binding_inv_def table_inv_def)
      show "br_row d \<in> set (installed_rows ?log g)" by (rule down [OF d(1,2)])
      show "\<forall>x \<in> set (installed_rows ?log g). dr_id x \<le> dr_id (br_row d)"
        using up d(3) by fastforce
    qed
    moreover have "installed_rows ?log g \<noteq> []" using down [OF d(1,2)] by auto
    ultimately show ?thesis using Some by (simp add: effective_def)
  qed
qed

section \<open>Every step keeps the invariant\<close>

lemma equal_patterns_eq: "equal_patterns ps qs \<longleftrightarrow> ps = qs"
  by (induction ps qs rule: equal_patterns.induct) auto

lemma binding_inv_set_tables:
  "binding_inv s \<Longrightarrow> table_inv (gf_id ` set (wd_groups (bd_workers s))) t \<Longrightarrow> binding_inv (set_tables s st t)"
  by (simp add: binding_inv_def set_tables_def)

lemma declare_inv:
  assumes inv: "binding_inv s"
  shows "binding_inv (snd (declare_bindings collate s st g ps who d now))"
proof (cases "\<exists>r \<in> set (wd_groups (bd_workers s)). gf_id r = g")
  case True
  let ?gs = "gf_id ` set (wd_groups (bd_workers s))"
  have g: "g \<in> ?gs" and t: "table_inv ?gs (bd_tables s st)" using True inv by (auto simp: binding_inv_def)
  show ?thesis
    using inv append_waiting_inv [OF t g] install_inv [OF t g]
    by (auto simp: declare_bindings_def Let_def intro!: binding_inv_set_tables
        split: binding_outcome.splits option.splits)
qed (auto simp: declare_bindings_def inv)

lemma declare_checked_inv:
  "binding_inv s \<Longrightarrow> binding_inv (snd (declare_bindings_checked collate identity s st g ps d now))"
  by (auto simp: declare_bindings_checked_def declare_inv split: option.splits)

lemma superseded_not_installed: "superseded_waiting rs c r \<Longrightarrow> dr_status r = Declared_Waiting"
  by (simp add: superseded_waiting_def)

text \<open>A sweep takes only rows that a newer waiting row of the same declarer supersedes.\<close>

lemma sweep_stream_takes:
  assumes srt: "sorted_wrt (\<lambda>a b. dr_id a < dr_id b) (sb_log t)" and scan: "\<And>rs. mset (scan rs) = mset rs"
  obtains doomed where "snd (sweep_stream_waiting scan t c batch) = t\<lparr>sb_log := delete_where doomed (sb_log t)\<rparr>"
    "\<forall>r \<in> set (sb_log t). doomed r \<longrightarrow> superseded_waiting (sb_log t) c r"
proof
  let ?picked = "map dr_id (limit_rows batch (filter (superseded_waiting (sb_log t) c) (scan (sb_log t))))"
  let ?doomed = "\<lambda>r. dr_id r \<in> set ?picked"
  show "snd (sweep_stream_waiting scan t c batch) = t\<lparr>sb_log := delete_where ?doomed (sb_log t)\<rparr>"
    by (simp add: sweep_stream_waiting_def Let_def)
  have ids: "distinct (map dr_id (sb_log t))"
    using srt by (simp add: sorted_wrt_map strict_sorted_iff flip: sorted_wrt_map)
  show "\<forall>r \<in> set (sb_log t). ?doomed r \<longrightarrow> superseded_waiting (sb_log t) c r"
  proof (intro ballI impI)
    fix r assume r: "r \<in> set (sb_log t)" and "?doomed r"
    then obtain x where x: "dr_id x = dr_id r" "superseded_waiting (sb_log t) c x" "x \<in> set (scan (sb_log t))"
      by (auto dest!: set_limit_rows)
    have "x \<in> set (sb_log t)" using x(3) by (metis scan set_mset_mset)
    then show "superseded_waiting (sb_log t) c r"
      using distinct_map_same [OF ids _ r x(1)] x(2) by simp
  qed
qed

lemma installed_rows_delete:
  "\<forall>r \<in> set rs. doomed r \<longrightarrow> dr_status r = Declared_Waiting \<Longrightarrow>
   installed_rows (delete_where doomed rs) g = installed_rows rs g"
  unfolding installed_rows_def delete_where_def filter_filter by (intro filter_cong) auto

lemma sweep_stream_inv:
  assumes inv: "table_inv gs t" and scan: "\<And>rs. mset (scan rs) = mset rs"
  shows "table_inv gs (snd (sweep_stream_waiting scan t c batch))"
    and "installed_rows (sb_log (snd (sweep_stream_waiting scan t c batch))) g = installed_rows (sb_log t) g"
proof -
  have srt: "sorted_wrt (\<lambda>a b. dr_id a < dr_id b) (sb_log t)" using inv by (simp add: table_inv_def)
  obtain doomed where
    e: "snd (sweep_stream_waiting scan t c batch) = t\<lparr>sb_log := delete_where doomed (sb_log t)\<rparr>"
    and d: "\<forall>r \<in> set (sb_log t). doomed r \<longrightarrow> superseded_waiting (sb_log t) c r"
    by (rule sweep_stream_takes [OF srt scan])
  have i: "installed_rows (delete_where doomed (sb_log t)) h = installed_rows (sb_log t) h" for h
    using d superseded_not_installed by (intro installed_rows_delete) blast
  show "installed_rows (sb_log (snd (sweep_stream_waiting scan t c batch))) g = installed_rows (sb_log t) g"
    by (simp add: e i)
  show "table_inv gs (snd (sweep_stream_waiting scan t c batch))"
    using inv unfolding table_inv_def
    by (simp add: e i) (auto simp: delete_where_def intro: sorted_wrt_filterI)
qed

lemma sweep_streams_inv:
  assumes scan: "\<And>rs. mset (scan rs) = mset rs"
  shows "binding_inv s \<Longrightarrow> binding_inv (snd (sweep_streams scan c batch sts s))"
proof (induction sts arbitrary: s)
  case (Cons st sts)
  let ?s = "set_tables s st (snd (sweep_stream_waiting scan (bd_tables s st) c batch))"
  have "binding_inv ?s"
    using Cons.prems sweep_stream_inv(1) [OF _ scan]
    by (intro binding_inv_set_tables) (auto simp: binding_inv_def)
  then show ?case using Cons.IH [of ?s] by (simp add: case_prod_beta)
qed simp

lemma forget_group_inv:
  assumes "table_inv gs t"
  shows "table_inv (gs - {g}) (forget_group g t)"
proof -
  have i: "installed_rows (delete_where (\<lambda>r. dr_group r = g) (sb_log t)) h
      = (if h = g then [] else installed_rows (sb_log t) h)" for h
    by (auto simp: installed_rows_def delete_where_def filter_empty_conv intro!: filter_cong)
  have r: "filter (\<lambda>b. bi_group b = h) (delete_where (\<lambda>b. bi_group b = g) (sb_rows t))
      = (if h = g then [] else filter (\<lambda>b. bi_group b = h) (sb_rows t))" for h
    by (auto simp: delete_where_def filter_empty_conv intro!: filter_cong)
  show ?thesis
    using assms unfolding table_inv_def
    by (simp add: forget_group_def i r) (auto simp: delete_where_def intro: sorted_wrt_filterI)
qed

lemma drop_group_inv:
  assumes "binding_inv s"
  shows "binding_inv (drop_group_bindings s g)"
proof -
  have "gf_id ` set (delete_where (\<lambda>x. gf_id x = g) (wd_groups (bd_workers s)))
      = gf_id ` set (wd_groups (bd_workers s)) - {g}"
    by (auto simp: set_delete_where)
  then show ?thesis
    using assms forget_group_inv
    by (auto simp: binding_inv_def drop_group_bindings_def catalog_ok_def set_delete_where)
qed

lemma binding_run_inv: "binding_run collate s \<Longrightarrow> binding_inv s"
proof (induction rule: binding_run.induct)
  case (run_start w)
  then show ?case by (simp add: binding_inv_def table_inv_empty)
next
  case (run_sweep s scan now ttl batch)
  then show ?case
    using sweep_streams_inv [of scan s "now - ttl" batch "list_group_stream_ids (bd_workers s)"]
    by (simp add: sweep_waiting_declarations_def case_prod_beta)
next
  case (run_catalog s w)
  then show ?case by (auto simp: binding_inv_def intro: table_inv_mono)
qed (simp_all add: declare_checked_inv drop_group_inv binding_inv_set_tables table_inv_empty)

section \<open>Declarations as steps on the effective set\<close>

lemma sorted_remdups_adj_distinct: "sorted xs \<Longrightarrow> distinct (remdups_adj xs)" for xs :: "'a::linorder list"
  by (induction xs rule: remdups_adj.induct) (auto simp: antisym_conv)

lemma normalize_distinct: "distinct (normalize_patterns ps)"
  by (simp add: normalize_patterns_def sorted_remdups_adj_distinct)

lemma set_normalize [simp]: "set (normalize_patterns ps) = set ps"
  by (simp add: normalize_patterns_def)

lemma effective_set_tables:
  "effective (set_tables s st t) st' g =
     (if st' = st then (let rs = installed_rows (sb_log t) g in if rs = [] then None else Some (dr_patterns (last rs)))
      else effective s st' g)"
  by (simp add: effective_def set_tables_def)

lemma declare_step:
  assumes inv: "binding_inv s" and g: "g \<noteq> 0" "g \<in> gf_id ` set (wd_groups (bd_workers s))"
    and ps: "distinct ps"
    and r: "declare_bindings collate s st g ps who d now = (r, s')"
  shows "\<exists>out. r = Inr out
    \<and> (out, effective s' st g) = spec_declare (effective s st g) ps (group_has_live_instance (bd_workers s) g now)
    \<and> (\<forall>st' g'. (st', g') \<noteq> (st, g) \<longrightarrow> effective s' st' g' = effective s st' g')"
proof -
  let ?n = "newest_installed_declaration (list_stream_binding_log collate s st g)"
  let ?live = "group_has_live_instance (bd_workers s) g now"
  have e: "effective s st g = map_option (\<lambda>d. dr_patterns (br_row d)) ?n"
    by (rule newest_is_effective [OF inv g(1), symmetric])
  have gex: "(\<exists>x \<in> set (wd_groups (bd_workers s)). gf_id x = g) = True" using g(2) by auto
  have app: "effective (set_tables s st (append_declaration (bd_tables s st) g status ps who d now)) st' g'
      = (if st' = st \<and> g' = g \<and> status = Declared_Installed then Some ps else effective s st' g')"
    for st' g' status
    by (simp add: effective_set_tables)
      (auto simp: append_declaration_def installed_rows_snoc effective_def Let_def)
  have ins: "effective (set_tables s st (append_declaration (bd_tables s st) g status ps who d now\<lparr>sb_rows := x\<rparr>)) st' g'
      = (if st' = st \<and> g' = g \<and> status = Declared_Installed then Some ps else effective s st' g')"
    for st' g' status x
    by (simp add: effective_set_tables)
      (auto simp: append_declaration_def installed_rows_snoc effective_def Let_def)
  consider "?n = None" | q where "?n = Some q" "dr_patterns (br_row q) = ps"
    | q where "?n = Some q" "dr_patterns (br_row q) \<noteq> ps" by (cases ?n) auto
  then show ?thesis
  proof cases
    case 1
    then show ?thesis
      using r e by (auto simp: gex declare_bindings_def Let_def classify_declaration_def spec_declare_def
          replace_bindings_some [OF ps] ins)
  next
    case 2
    then show ?thesis
      using r e by (auto simp: gex declare_bindings_def Let_def classify_declaration_def spec_declare_def
          equal_patterns_eq)
  next
    case 3
    then show ?thesis
      using r e by (cases ?live) (auto simp: gex declare_bindings_def Let_def classify_declaration_def
          spec_declare_def equal_patterns_eq replace_bindings_some [OF ps] ins app)
  qed
qed

section \<open>Sweeps and the listings\<close>

lemma newest_per_key_delete:
  assumes "\<forall>r \<in> set rs. doomed r \<longrightarrow> (\<exists>r' \<in> set rs. distinct_key r' = distinct_key r \<and> dr_id r < dr_id r')"
  shows "newest_per_key (delete_where doomed rs) = newest_per_key rs"
proof -
  have iff: "(\<not> doomed r \<and> (\<forall>r' \<in> set (delete_where doomed rs). distinct_key r' = distinct_key r \<longrightarrow> dr_id r' \<le> dr_id r))
      \<longleftrightarrow> (\<forall>r' \<in> set rs. distinct_key r' = distinct_key r \<longrightarrow> dr_id r' \<le> dr_id r)" (is "?A \<longleftrightarrow> ?B")
    if "r \<in> set rs" for r
  proof
    assume ?A
    show ?B
    proof (intro ballI impI)
      fix x assume x: "x \<in> set rs" "distinct_key x = distinct_key r"
      obtain m where m: "m \<in> set (newest_per_key rs)" "distinct_key m = distinct_key x" "dr_id x \<le> dr_id m"
        using newest_per_key_ex [OF x(1)] by blast
      have m': "m \<in> set rs" "\<not> doomed m"
        using m(1) assms by (auto simp: newest_per_key_def) fastforce
      then have "dr_id m \<le> dr_id r" using \<open>?A\<close> m(2) x(2) by (simp add: set_delete_where)
      then show "dr_id x \<le> dr_id r" using m(3) by simp
    qed
  next
    assume ?B
    then show ?A using assms that by (fastforce simp: set_delete_where)
  qed
  have "newest_per_key (delete_where doomed rs) = filter (\<lambda>r. \<not> doomed r
      \<and> (\<forall>r' \<in> set (delete_where doomed rs). distinct_key r' = distinct_key r \<longrightarrow> dr_id r' \<le> dr_id r)) rs"
    by (simp add: newest_per_key_def) (simp add: delete_where_def conj_commute)
  also have "\<dots> = newest_per_key rs"
    unfolding newest_per_key_def using iff by (intro filter_cong) auto
  finally show ?thesis .
qed

lemma superseded_has_newer:
  assumes "superseded_waiting rs c r"
  shows "\<exists>r' \<in> set rs. distinct_key r' = distinct_key r \<and> dr_id r < dr_id r'"
  using assms
  by (auto simp: superseded_waiting_def newest_waiting_id_def distinct_key_def
      split: option.splits dest!: sql_max_in)

lemma joined_row_group:
  "dr_group r = dr_group r' \<Longrightarrow> joined_row w r = None \<longleftrightarrow> joined_row w r' = None"
  by (auto simp: joined_row_def split: option.splits)

lemma list_stream_sweep:
  assumes inv: "binding_inv s" and scan: "\<And>rs. mset (scan rs) = mset rs"
  shows "list_stream_binding_log collate
      (set_tables s st' (snd (sweep_stream_waiting scan (bd_tables s st') c batch))) st g
    = list_stream_binding_log collate s st g"
proof (cases "st' = st")
  case True
  let ?log = "sb_log (bd_tables s st)"
  have "sorted_wrt (\<lambda>a b. dr_id a < dr_id b) ?log" using inv by (simp add: binding_inv_def table_inv_def)
  then obtain doomed where
    e: "snd (sweep_stream_waiting scan (bd_tables s st) c batch) = (bd_tables s st)\<lparr>sb_log := delete_where doomed ?log\<rparr>"
    and d: "\<forall>r \<in> set ?log. doomed r \<longrightarrow> superseded_waiting ?log c r"
    by (rule sweep_stream_takes [OF _ scan])
  let ?P = "\<lambda>r. (g = 0 \<or> dr_group r = g) \<and> joined_row (bd_workers s) r \<noteq> None"
  have "\<forall>r \<in> set (filter ?P ?log). doomed r \<longrightarrow>
      (\<exists>r' \<in> set (filter ?P ?log). distinct_key r' = distinct_key r \<and> dr_id r < dr_id r')"
  proof (intro ballI impI)
    fix r assume r: "r \<in> set (filter ?P ?log)" "doomed r"
    then obtain r' where r': "r' \<in> set ?log" "distinct_key r' = distinct_key r" "dr_id r < dr_id r'"
      using d superseded_has_newer by fastforce
    then have "?P r'" using r(1) joined_row_group [of r r' "bd_workers s"] by (auto simp: distinct_key_def)
    then show "\<exists>r' \<in> set (filter ?P ?log). distinct_key r' = distinct_key r \<and> dr_id r < dr_id r'"
      using r' by (intro bexI [of _ r']) simp_all
  qed
  from newest_per_key_delete [OF this]
  have "newest_per_key (filter ?P (delete_where doomed ?log)) = newest_per_key (filter ?P ?log)"
    by (simp add: delete_where_def conj_commute)
  then show ?thesis
    by (simp only: list_stream_binding_log_def Let_def set_tables_def True e) simp
qed (simp add: list_stream_binding_log_def set_tables_def)

lemma sweep_streams_frame:
  assumes scan: "\<And>rs. mset (scan rs) = mset rs"
  shows "binding_inv s \<Longrightarrow>
    bd_workers (snd (sweep_streams scan c batch sts s)) = bd_workers s
    \<and> (\<forall>st g. list_stream_binding_log collate (snd (sweep_streams scan c batch sts s)) st g
        = list_stream_binding_log collate s st g)"
proof (induction sts arbitrary: s)
  case (Cons st sts)
  let ?s = "set_tables s st (snd (sweep_stream_waiting scan (bd_tables s st) c batch))"
  have "binding_inv ?s"
    using Cons.prems sweep_stream_inv(1) [OF _ scan]
    by (intro binding_inv_set_tables) (auto simp: binding_inv_def)
  moreover have "bd_workers ?s = bd_workers s" by (simp add: set_tables_def)
  ultimately show ?case
    using Cons.IH [of ?s] list_stream_sweep [OF Cons.prems scan, where collate = collate]
    by (simp add: case_prod_beta)
qed simp

section \<open>The order a map is walked in\<close>

lemma concat_one:
  "distinct ks \<Longrightarrow> concat (map (\<lambda>g. if g = a then l else []) ks) = (if a \<in> set ks then l else [])"
  by (induction ks) auto

lemma concat_key:
  assumes d: "distinct ks" and n: "\<forall>g \<in> set ks. \<forall>b \<in> set (f g). k b = n g"
    and inj: "\<forall>g \<in> set ks. \<forall>h \<in> set ks. f g \<noteq> [] \<longrightarrow> f h \<noteq> [] \<longrightarrow> n g = n h \<longrightarrow> g = h"
    and a: "a \<in> set ks" "f a \<noteq> []"
  shows "filter (\<lambda>b. k b = n a) (concat (map f ks)) = f a"
proof -
  have "filter (\<lambda>b. k b = n a) (f g) = (if g = a then f a else [])" if "g \<in> set ks" for g
    using that n inj a by (cases "f g") (auto simp: filter_id_conv filter_empty_conv)
  then have "concat (map (\<lambda>g. filter (\<lambda>b. k b = n a) (f g)) ks) = concat (map (\<lambda>g. if g = a then f a else []) ks)"
    by (intro arg_cong [where f = concat] map_cong) auto
  then show ?thesis using concat_one [OF d, of a "f a"] a by (simp add: filter_concat o_def)
qed

lemma sort_key_concat_perm:
  assumes m: "mset ks = mset ks'" and d: "distinct ks" and n: "\<forall>g \<in> set ks. \<forall>b \<in> set (f g). k b = n g"
    and inj: "\<forall>g \<in> set ks. \<forall>h \<in> set ks. f g \<noteq> [] \<longrightarrow> f h \<noteq> [] \<longrightarrow> n g = n h \<longrightarrow> g = h"
  shows "sort_key k (concat (map f ks)) = sort_key k (concat (map f ks'))"
proof -
  have s: "set ks' = set ks" "distinct ks'" using m d mset_eq_setD mset_eq_imp_distinct_iff by metis+
  have fl: "filter (\<lambda>x. k y = k x) (concat (map f ks')) = filter (\<lambda>x. k y = k x) (concat (map f ks))"
    if y: "y \<in> set (concat (map f ks))" for y
  proof -
    obtain a where a: "a \<in> set ks" "y \<in> set (f a)" using y by auto
    then have "f a \<noteq> []" "k y = n a" using n by auto
    then show ?thesis
      using concat_key [OF d n inj a(1)] concat_key [OF s(2), of f k n a] n inj a(1)
      by (simp add: s(1) eq_commute [of "n a"])
  qed
  have ms: "mset (concat (map f ks)) = mset (concat (map f ks'))"
    using m by (simp add: mset_concat) (metis mset_map sum_mset_sum_list)
  show ?thesis
  proof (rule properties_for_sort_key)
    show "mset (sort_key k (concat (map f ks'))) = mset (concat (map f ks))" using ms by simp
    fix v assume "v \<in> set (sort_key k (concat (map f ks')))"
    then have v: "v \<in> set (concat (map f ks))" using ms by (metis set_mset_mset set_sort)
    show "filter (\<lambda>x. k v = k x) (sort_key k (concat (map f ks'))) = filter (\<lambda>x. k v = k x) (concat (map f ks))"
      using fl [OF v] sort_key_stable [of k "k v" "concat (map f ks')"] by (simp add: eq_commute [of "k v"])
  qed simp
qed

end
