(* ===== verification/Binding_Claims.thy ===== *)
theory Binding_Claims
  imports Binding_Properties
begin

text \<open>
  The properties of bindings: what a declaration does, which messages the declared patterns select,
  what a sweep and the order of a map cannot change in the listings, and two limits of the protocol.
\<close>

section \<open>A group to try them on\<close>

definition demo_workers :: "nat worker_db" where
  "demo_workers = \<lparr>worker_configs = [\<lparr>wc_id = 4, wc_owner = (None, None, Some 1), wc_name = ''w'',
       wc_metadata = 0, wc_target = -1, wc_created = 0, wc_updated = 0\<rparr>],
     worker_config_logs = [], worker_instances = [\<lparr>wi_id = 1, wi_worker = 4, wi_token = 1,
       wi_expires = 50, wi_attempts = 0, wi_created = 0\<rparr>],
     worker_instance_logs = [], next_worker = 5, next_instance = 2, next_instance_log = 1,
     wd_streams = [\<lparr>sf_id = 7, sf_system = 1, sf_name = ''orders''\<rparr>],
     wd_groups = [\<lparr>gf_id = 1, gf_stream = 7, gf_name = ''mail''\<rparr>]\<rparr>"

definition demo_start :: "nat binding_db" where
  "demo_start = \<lparr>bd_workers = demo_workers, bd_tables = (\<lambda>_. empty_bindings)\<rparr>"

lemma demo_run: "binding_run collate demo_start"
  unfolding demo_start_def by (rule run_start) (simp add: catalog_ok_def demo_workers_def)

lemma demo_effective: "effective demo_start st g = None"
  by (simp add: effective_def demo_start_def empty_bindings_def installed_rows_def)

lemma demo_group: "gf_id ` set (wd_groups (bd_workers demo_start)) = {1}"
  by (simp add: demo_start_def demo_workers_def)

section \<open>Declarations\<close>

text \<open>C18: A declaration with valid arguments for a registered group always returns an outcome, and
outcome and effective set are those of the contract: the first declarer's set is installed, an equal
set is joined, and a different one replaces the stored set only when no live instance of the group is
left, and waits otherwise. The effective sets of other groups and streams do not change.\<close>

theorem declaration_meets_its_contract:
  assumes "binding_run collate s" "0 < st" "0 < g" "'''' \<notin> set patterns"
    and "g \<in> gf_id ` set (wd_groups (bd_workers s))"
    and "declare_bindings_checked collate identity s st g patterns (Some d) now = (r, s')"
  shows "\<exists>out. r = Inr out
    \<and> (out, effective s' st g) = spec_declare (effective s st g) (normalize_patterns patterns)
         (group_has_live_instance (bd_workers s) g now)
    \<and> (\<forall>st' g'. (st', g') \<noteq> (st, g) \<longrightarrow> effective s' st' g' = effective s st' g')"
  using declare_step [OF binding_run_inv [OF assms(1)] _ assms(5) normalize_distinct, of collate st patterns]
    assms by (simp add: declare_bindings_checked_def)

theorem declaration_meets_its_contract_witness:
  "\<exists>out. fst (declare_bindings_checked (\<lambda>x. x) ''a'' demo_start 7 1 [''b*'', ''a''] (Some 3) 9) = Inr out
    \<and> (out, effective (snd (declare_bindings_checked (\<lambda>x. x) ''a'' demo_start 7 1 [''b*'', ''a''] (Some 3) 9)) 7 1)
      = (Binding_Installed, Some (normalize_patterns [''b*'', ''a'']))"
  using declaration_meets_its_contract [OF demo_run _ _ _ _ prod.collapse [symmetric],
      where st = 7 and g = 1 and patterns = "[''b*'', ''a'']" and collate = "\<lambda>x. x"
        and identity = "''a''" and d = 3 and now = 9]
  by (simp add: demo_group demo_effective spec_declare_def)

section \<open>Selection\<close>

lemma mirrored_rows:
  assumes "binding_run collate s"
  shows "filter (\<lambda>b. bi_group b = g) (sb_rows (bd_tables s st))
    = (case effective s st g of None \<Rightarrow> [] | Some ps \<Rightarrow> map (binding_of g) ps)"
  using binding_run_inv [OF assms]
  by (simp add: binding_inv_def table_inv_def effective_def Let_def)

text \<open>C19: What a claim reads from the binding rows is what the newest installed declaration says: a
group with no declaration, or with an empty one, reads every message, and otherwise a message is read
exactly when its routing key matches one of the declared wildcard patterns. This holds after any
interleaving of declarations, sweeps, registrations and deletions.\<close>

theorem declared_patterns_select_the_messages:
  assumes "binding_run collate s" "posix_law rx" "bindings db = sb_rows (bd_tables s st)"
  shows "bound rx db g key \<longleftrightarrow>
    (case effective s st g of
       None \<Rightarrow> True
     | Some ps \<Rightarrow> ps = [] \<or> (\<exists>k. key = Some k \<and> (\<exists>p \<in> set ps. wild_match p k)))"
proof -
  have rows: "{b \<in> set (bindings db). bi_group b = g}
      = set (case effective s st g of None \<Rightarrow> [] | Some ps \<Rightarrow> map (binding_of g) ps)"
    using mirrored_rows [OF assms(1), of g st] assms(3) by (metis set_filter)
  have "bound rx db g key \<longleftrightarrow> {b \<in> set (bindings db). bi_group b = g} = {}
      \<or> (\<exists>b \<in> {b \<in> set (bindings db). bi_group b = g}. case key of None \<Rightarrow> False | Some k \<Rightarrow> rx k (bi_regex b))"
    by (auto simp: bound_def)
  then show ?thesis
    unfolding rows using wildcard_regex_matches [OF assms(2)]
    by (auto simp: binding_of_def split: option.splits)
qed

definition demo_log_db :: stream_db where
  "demo_log_db = empty_db"

theorem declared_patterns_select_the_messages_witness: "bound posix_match demo_log_db 1 (Some ''k'')"
  using declared_patterns_select_the_messages [OF demo_run posix_match_law, of demo_log_db 7 1 "Some ''k''"]
  by (simp add: demo_effective demo_log_db_def empty_db_def) (simp add: demo_start_def empty_bindings_def)

section \<open>Listings\<close>

text \<open>C20: A sweep of the janitor is invisible: whichever rows its limit cuts at, the binding of every
group and the listing of all of them are what they were.\<close>

theorem sweeps_are_invisible:
  assumes "binding_run collate s" "\<And>rs. mset (scan rs) = mset rs"
    and "s' = snd (sweep_waiting_declarations scan s now ttl batch)"
  shows "get_binding collate s' st g = get_binding collate s st g
    \<and> list_bindings collate iteration s' = list_bindings collate iteration s"
proof -
  have "bd_workers s' = bd_workers s
      \<and> (\<forall>st g. list_stream_binding_log collate s' st g = list_stream_binding_log collate s st g)"
    using sweep_streams_frame [where scan = scan and collate = collate, OF assms(2) binding_run_inv [OF assms(1)]]
    by (simp add: assms(3) sweep_waiting_declarations_def case_prod_beta)
  then show ?thesis
    by (simp add: get_binding_def list_group_binding_log_def list_bindings_def list_binding_log_def)
qed

theorem sweeps_are_invisible_witness:
  "list_bindings (\<lambda>x. x) (\<lambda>x. x) (snd (sweep_waiting_declarations rev demo_start 9 1 5))
    = list_bindings (\<lambda>x. x) (\<lambda>x. x) demo_start"
  using sweeps_are_invisible [OF demo_run [of "\<lambda>x. x"], of rev, OF _ refl] by simp

definition names_of :: "'m worker_db \<Rightarrow> int \<Rightarrow> string \<times> string" where
  "names_of w g = (case find (\<lambda>x. gf_id x = g) (wd_groups w) of
       None \<Rightarrow> ('''', '''')
     | Some x \<Rightarrow> (case find (\<lambda>t. sf_id t = gf_stream x) (wd_streams w) of
         None \<Rightarrow> ('''', '''') | Some t \<Rightarrow> (sf_name t, gf_name x)))"

text \<open>The UNIQUE constraints on the names of streams and of the groups of a stream.\<close>

definition names_unique :: "'m worker_db \<Rightarrow> bool" where
  "names_unique w \<longleftrightarrow> distinct (map sf_name (wd_streams w))
     \<and> distinct (map (\<lambda>x. (gf_stream x, gf_name x)) (wd_groups w))"

lemma joined_rowE:
  assumes "joined_row w r = Some j"
  obtains x t where "x \<in> set (wd_groups w)" "gf_id x = dr_group r" "t \<in> set (wd_streams w)"
    "sf_id t = gf_stream x" "names_of w (dr_group r) = (sf_name t, gf_name x)"
    "j = \<lparr>br_row = r, br_group_name = gf_name x, br_stream_name = sf_name t\<rparr>"
proof (cases "find (\<lambda>x. gf_id x = dr_group r) (wd_groups w)")
  case None
  then show ?thesis using assms by (simp add: joined_row_def)
next
  case (Some x)
  note x = this
  show ?thesis
  proof (cases "find (\<lambda>t. sf_id t = gf_stream x) (wd_streams w)")
    case None
    then show ?thesis using assms x by (simp add: joined_row_def)
  next
    case (Some t)
    then show ?thesis
      using that [of x t] find_SomeD [OF x] find_SomeD [OF Some] assms x
      by (simp add: joined_row_def names_of_def)
  qed
qed

lemma joined_row_names:
  assumes "joined_row w r = Some j"
  shows "br_row j = r \<and> (br_stream_name j, br_group_name j) = names_of w (dr_group r)"
  by (rule joined_rowE [OF assms]) simp

lemma names_of_inj:
  assumes u: "names_unique w" and j: "joined_row w r = Some j" "joined_row w r' = Some j'"
    and e: "names_of w (dr_group r) = names_of w (dr_group r')"
  shows "dr_group r = dr_group r'"
proof -
  obtain x t where x: "x \<in> set (wd_groups w)" "gf_id x = dr_group r" "t \<in> set (wd_streams w)"
    "sf_id t = gf_stream x" "names_of w (dr_group r) = (sf_name t, gf_name x)"
    by (rule joined_rowE [OF j(1)])
  obtain x' t' where x': "x' \<in> set (wd_groups w)" "gf_id x' = dr_group r'" "t' \<in> set (wd_streams w)"
    "sf_id t' = gf_stream x'" "names_of w (dr_group r') = (sf_name t', gf_name x')"
    by (rule joined_rowE [OF j(2)])
  have n: "sf_name t = sf_name t'" "gf_name x = gf_name x'" using e x(5) x'(5) by simp_all
  have "t = t'" using u x(3) x'(3) n(1) unfolding names_unique_def by (meson distinct_map_same)
  then have "(gf_stream x, gf_name x) = (gf_stream x', gf_name x')" using x(4) x'(4) n(2) by simp
  then have "x = x'"
    using u x(1) x'(1) distinct_map_same [of "\<lambda>x. (gf_stream x, gf_name x)" "wd_groups w" x x']
    unfolding names_unique_def by blast
  then show ?thesis using x(2) x'(2) by simp
qed

lemma list_stream_joined:
  assumes "d \<in> set (list_stream_binding_log collate s st g)"
  shows "joined_row (bd_workers s) (br_row d) = Some d"
proof -
  obtain r where r: "joined_row (bd_workers s) r \<noteq> None" "d = the (joined_row (bd_workers s) r)"
    using assms by (auto simp: list_stream_binding_log_def Let_def newest_per_key_def)
  then have "joined_row (bd_workers s) r = Some d" by simp
  then show ?thesis using joined_row_names by metis
qed

lemma list_log_joined:
  "d \<in> set (list_binding_log collate s) \<Longrightarrow> joined_row (bd_workers s) (br_row d) = Some d"
  by (auto simp: list_binding_log_def dest: list_stream_joined)

lemma group_listing_rows:
  assumes "b \<in> set (group_listing rows)"
  shows "\<exists>d \<in> set rows. b = to_binding d"
proof (cases "newest_installed_declaration rows")
  case (Some e)
  then have "e \<in> set rows"
    using newest_installed_from_SomeD [of None rows e] by (simp add: newest_installed_declaration_def)
  then show ?thesis using assms Some by (auto simp: group_listing_def open_waiters_def)
qed (use assms in \<open>simp add: group_listing_def\<close>)

text \<open>The listing of all bindings is the same whatever order Go's map iterates over the groups in:
names of streams and of the groups of a stream are unique, and the final sort is stable.\<close>

theorem listing_ignores_map_order:
  assumes u: "names_unique (bd_workers s)"
    and it: "\<And>ks. mset (it ks) = mset ks" "\<And>ks. mset (it' ks) = mset ks"
  shows "list_bindings collate it s = list_bindings collate it' s"
proof -
  let ?rows = "list_binding_log collate s" and ?w = "bd_workers s"
  let ?f = "\<lambda>g. group_listing (filter (\<lambda>r. dr_group (br_row r) = g) ?rows)"
  let ?ks = "remdups (map (\<lambda>r. dr_group (br_row r)) ?rows)"
  have n: "(bg_stream_name b, bg_group_name b) = names_of ?w g" if b: "b \<in> set (?f g)" for b g
    using group_listing_rows [OF b] list_log_joined [of _ collate s] joined_row_names
    by (fastforce simp: to_binding_def)
  have ne: "\<exists>d. dr_group (br_row d) = g \<and> joined_row ?w (br_row d) = Some d" if f: "?f g \<noteq> []" for g
  proof -
    obtain b where "b \<in> set (?f g)" using f by (meson list.set_sel(1))
    then show ?thesis using group_listing_rows list_log_joined [of _ collate s] by fastforce
  qed
  have "sort_key (\<lambda>b. (bg_stream_name b, bg_group_name b)) (concat (map ?f (it ?ks)))
      = sort_key (\<lambda>b. (bg_stream_name b, bg_group_name b)) (concat (map ?f (it' ?ks)))"
  proof (rule sort_key_concat_perm)
    show "mset (it ?ks) = mset (it' ?ks)" by (simp add: it)
    show "distinct (it ?ks)" using it(1) [of ?ks] mset_eq_imp_distinct_iff distinct_remdups by blast
    show "\<forall>g \<in> set (it ?ks). \<forall>b \<in> set (?f g). (bg_stream_name b, bg_group_name b) = names_of ?w g"
      using n by blast
    show "\<forall>g \<in> set (it ?ks). \<forall>h \<in> set (it ?ks). ?f g \<noteq> [] \<longrightarrow> ?f h \<noteq> [] \<longrightarrow> names_of ?w g = names_of ?w h \<longrightarrow> g = h"
      using ne names_of_inj [OF u] by blast
  qed
  then show ?thesis by (simp add: list_bindings_def group_by_consumer_group_def o_def)
qed

theorem listing_ignores_map_order_witness:
  "list_bindings (\<lambda>x. x) rev demo_start = list_bindings (\<lambda>x. x) (\<lambda>x. x) demo_start"
  by (rule listing_ignores_map_order) (simp_all add: names_unique_def demo_start_def demo_workers_def)

section \<open>Limits of the protocol\<close>

text \<open>
  The check for a live instance sees heartbeats, and a declarer has none before it consumes: two
  processes that start together with different sets are both told that theirs is installed.
\<close>

theorem installed_set_can_be_lost:
  assumes "binding_run collate s" "0 < st" "0 < g" "'''' \<notin> set ps" "'''' \<notin> set qs"
    and "g \<in> gf_id ` set (wd_groups (bd_workers s))"
    and "normalize_patterns ps \<noteq> normalize_patterns qs"
    and "\<not> group_has_live_instance (bd_workers s) g now" "\<not> group_has_live_instance (bd_workers s) g now'"
    and "effective s st g = None"
    and "declare_bindings_checked collate a s st g ps (Some d) now = (r, s1)" "bd_workers s1 = bd_workers s"
    and "declare_bindings_checked collate b s1 st g qs (Some d') now' = (r', s2)"
  shows "r = Inr Binding_Installed \<and> r' = Inr Binding_Installed
    \<and> effective s2 st g = Some (normalize_patterns qs)"
proof -
  have r1: "binding_run collate s1" using run_declare [OF assms(1)] assms(11) by (metis snd_conv)
  have one: "r = Inr Binding_Installed \<and> effective s1 st g = Some (normalize_patterns ps)"
    using declare_step [OF binding_run_inv [OF assms(1)] _ assms(6) normalize_distinct, of collate st ps a d now r s1]
      assms(2-4,8,10,11) by (auto simp: declare_bindings_checked_def spec_declare_def)
  show ?thesis
    using declare_step [OF binding_run_inv [OF r1] _ _ normalize_distinct, of g collate st qs b d' now' r' s2]
      assms(2,3,5,6,7,9,12,13) one by (auto simp: declare_bindings_checked_def spec_declare_def)
qed

text \<open>
  A wait that ended because the set was stored by someone else leaves its row behind, and once the set
  changes again the listing shows it as a declarer that is still blocked.
\<close>

definition demo_declare ::
  "string \<Rightarrow> string \<Rightarrow> time \<Rightarrow> nat binding_db \<Rightarrow> (binding_error + binding_outcome) \<times> nat binding_db" where
  "demo_declare who p now s = declare_bindings_checked (\<lambda>x. x) who s 7 1 [p] (Some now) now"

definition demo_joined :: "nat binding_db" where
  "demo_joined = snd (demo_declare ''c'' ''y'' 60 (snd (demo_declare ''b'' ''y'' 11
     (snd (demo_declare ''a'' ''x'' 10 demo_start)))))"

theorem ended_wait_is_listed_again:
  "fst (demo_declare ''b'' ''y'' 61 demo_joined) = Inr Binding_Joined
   \<and> map (\<lambda>b. (bg_status b, bg_patterns b, bg_declarer b)) (list_bindings (\<lambda>x. x) (\<lambda>x. x)
        (snd (demo_declare ''d'' ''z'' 62 (snd (demo_declare ''b'' ''y'' 61 demo_joined)))))
     = [(Declared_Installed, [''z''], ''d''), (Declared_Waiting, [''y''], ''b'')]"
  by code_simp

section \<open>Waiting\<close>

lemma wait_loop_returns:
  assumes "\<And>n s. ok s \<Longrightarrow> ok (snd (attempt n s))" "\<And>s. ok s \<Longrightarrow> fst (attempt m s) \<noteq> None"
  shows "ok s \<Longrightarrow> n \<le> m \<Longrightarrow> \<exists>res s'. wait_loop attempt n s = Some (res, s') \<and> ok s'
    \<and> (\<exists>k t. ok t \<and> attempt k t = (Some res, s'))"
proof (induction "m - n" arbitrary: n s)
  case 0
  then obtain r where "fst (attempt n s) = Some r" using assms(2) [of s] by auto
  then show ?case
    using 0 assms(1) [of s n] by (subst wait_loop.simps) (auto simp: prod_eq_iff)
next
  case (Suc d)
  show ?case
  proof (cases "fst (attempt n s)")
    case None
    have "\<exists>res s'. wait_loop attempt (Suc n) (snd (attempt n s)) = Some (res, s') \<and> ok s'
        \<and> (\<exists>k t. ok t \<and> attempt k t = (Some res, s'))"
      using Suc by (intro Suc.hyps(1) assms(1)) auto
    then show ?thesis using None by (subst wait_loop.simps) simp
  next
    case (Some r)
    then show ?thesis
      using Suc.prems assms(1) [of s n] by (subst wait_loop.simps) (auto simp: prod_eq_iff)
  qed
qed

text \<open>A consumer that waits for its bindings gets past the wait: once an attempt finds no live
instance of the group the loop has returned, cancelled, with its set installed, or with its set
already stored by another declarer; it never returns a failure for a registered group.\<close>

theorem wait_ends_without_live_instances:
  assumes run: "binding_run collate s" and args: "0 < st" "0 < g" "'''' \<notin> set patterns"
    and env: "\<And>n t. binding_run collate t \<Longrightarrow>
      binding_run collate (env n t) \<and> g \<in> gf_id ` set (wd_groups (bd_workers (env n t)))"
    and dead: "\<And>t. binding_run collate t \<Longrightarrow> \<not> group_has_live_instance (bd_workers (env m t)) g (clock m)"
  shows "\<exists>res s'. wait_for_bindings collate identity st g patterns d clock cancelled env s = Some (res, s')
    \<and> binding_run collate s'
    \<and> (res = Wait_Cancelled
       \<or> res \<in> {Wait_Done Binding_Installed, Wait_Done Binding_Joined}
          \<and> effective s' st g = Some (normalize_patterns patterns))"
proof -
  let ?step = "\<lambda>n s. declare_bindings_checked collate identity s st g patterns (Some d) (clock n)"
  let ?attempt = "\<lambda>n s. wait_attempt (?step n) (cancelled n) (env n s)"
  have step: "\<exists>out. fst (?step n (env n t)) = Inr out
      \<and> (out, effective (snd (?step n (env n t))) st g) = spec_declare (effective (env n t) st g)
          (normalize_patterns patterns) (group_has_live_instance (bd_workers (env n t)) g (clock n))"
    if "binding_run collate t" for n t
    using declare_step [where collate = collate and s = "env n t" and g = g and st = st and d = d
        and ps = "normalize_patterns patterns" and who = identity and now = "clock n"]
      env [OF that, of n] args normalize_distinct [of patterns] binding_run_inv [of collate "env n t"]
    by (cases "?step n (env n t)") (auto simp: declare_bindings_checked_def)
  have snd_attempt: "snd (?attempt n t) = snd (?step n (env n t))" for n t
    by (simp add: wait_attempt_def split: prod.split sum.split)
  have keep: "binding_run collate (snd (?attempt n t))" if "binding_run collate t" for n t
    unfolding snd_attempt using env [OF that] by (intro run_declare) simp
  have stop: "fst (?attempt m t) \<noteq> None" if t: "binding_run collate t" for t
    using step [OF t, of m] dead [OF t]
    by (auto simp: wait_attempt_def spec_declare_def split: prod.split sum.split option.splits if_splits)
  obtain res s' k t where r: "wait_loop ?attempt 0 s = Some (res, s')" "binding_run collate s'"
    "binding_run collate t" "?attempt k t = (Some res, s')"
    using wait_loop_returns [where ok = "binding_run collate" and attempt = ?attempt and m = m and n = 0,
        OF keep stop run] by blast
  obtain out where out: "fst (?step k (env k t)) = Inr out"
      "(out, effective (snd (?step k (env k t))) st g) = spec_declare (effective (env k t) st g)
          (normalize_patterns patterns) (group_has_live_instance (bd_workers (env k t)) g (clock k))"
    using step [OF r(3)] by blast
  have "res = Wait_Cancelled \<or> res = Wait_Done out \<and> out \<noteq> Binding_Waiting"
    using r(4) out(1) by (cases "?step k (env k t)") (auto simp: wait_attempt_def split: if_splits)
  moreover have "s' = snd (?step k (env k t))" using r(4) snd_attempt [of k t] by simp
  moreover have "out \<noteq> Binding_Waiting \<Longrightarrow> out \<in> {Binding_Installed, Binding_Joined}"
    by (cases out) simp_all
  ultimately have "res = Wait_Cancelled
       \<or> res \<in> {Wait_Done Binding_Installed, Wait_Done Binding_Joined}
          \<and> effective s' st g = Some (normalize_patterns patterns)"
    using out(2) by (auto simp: spec_declare_def split: option.splits if_splits)
  then show ?thesis using r(1,2) unfolding wait_for_bindings_def by blast
qed

theorem wait_ends_without_live_instances_witness:
  "\<exists>res s'. wait_for_bindings (\<lambda>x. x) ''a'' 7 1 [''x''] 0 (\<lambda>_. 60) (\<lambda>_. False) (\<lambda>_ _. demo_start) demo_start
    = Some (res, s')"
proof -
  have "\<not> group_has_live_instance (bd_workers demo_start) 1 60"
    by (simp add: group_has_live_instance_def demo_start_def demo_workers_def)
  then show ?thesis
    using wait_ends_without_live_instances [OF demo_run, where st = 7 and g = 1 and patterns = "[''x'']"
        and env = "\<lambda>_ _. demo_start" and clock = "\<lambda>_. 60" and m = 0 and identity = "''a''" and d = 0
        and cancelled = "\<lambda>_. False" and collate = "\<lambda>x. x"] demo_run [of "\<lambda>x. x"]
    by (auto simp: demo_group)
qed

end
