(* ===== verification/Diagnostics.thy ===== *)
theory Diagnostics
  imports Handler_Outcomes "HOL-Library.List_Lexorder" "HOL-Library.Char_ord"
begin

text \<open>
  Declared errors, events, metrics and alerts: \<open>pkg/common/diagnostic\<close>. Every declaration has a code
  of one serial space, and a program that declares a code twice panics while it starts. A registry is
  the list of what was declared; the Go map it lives in has no order, so a lookup takes the order it
  iterates in as an argument. Values are attached to a raised error as pairs of a name and a logged
  value; \<open>quote\<close> is \<open>strconv.Quote\<close>. The query texts of the declarations are ASCII, so \<open>trim_space\<close> knows
  only the white space of ASCII.
\<close>

section \<open>Declarations\<close>

datatype diagnostic_kind = Kind_Error | Kind_Event | Kind_Metric | Kind_Alert

record diagnostic_query =
  dq_label :: string
  dq_sql :: string

definition is_space :: "char \<Rightarrow> bool" where
  "is_space c \<longleftrightarrow> c \<in> set [CHR 0x09, CHR 0x0A, CHR 0x0B, CHR 0x0C, CHR 0x0D, CHR '' '']"

definition trim_space :: "string \<Rightarrow> string" where
  "trim_space s = rev (dropWhile is_space (rev (dropWhile is_space s)))"

text \<open>\<open>None\<close> is a panic, here and below.\<close>

definition new_query :: "string \<Rightarrow> string \<Rightarrow> diagnostic_query option" where
  "new_query label sql =
     (let sql = trim_space sql in
      if label = '''' then None
      else if sql = '''' then None
      else Some \<lparr>dq_label = label, dq_sql = sql\<rparr>)"

definition copy_queries :: "diagnostic_query option list \<Rightarrow> diagnostic_query list option" where
  "copy_queries qs = (if None \<in> set qs then None else Some (map the qs))"

text \<open>The texts of a scope; a scope is text in the code, and any other is refused.\<close>

definition scope_system :: string where "scope_system = ''system''"
definition scope_stream :: string where "scope_stream = ''stream''"
definition scope_group :: string where "scope_group = ''consumer_group''"
definition scope_session :: string where "scope_session = ''consumer_session''"
definition scope_exporter :: string where "scope_exporter = ''exporter''"

definition validate_scope :: "string \<Rightarrow> bool" where
  "validate_scope s \<longleftrightarrow> s \<in> {scope_system, scope_stream, scope_group, scope_session, scope_exporter}"

record diagnostic_metric =
  dm_code :: string
  dm_name :: string
  dm_kind :: string
  dm_unit :: string
  dm_description :: string
  dm_scope :: string
  dm_attributes :: "string list"

record diagnostic_alert =
  da_code :: string
  da_name :: string
  da_description :: string
  da_scope :: string
  da_severity :: string

record diagnostic_event =
  dv_code :: string
  dv_message :: string
  dv_queries :: "diagnostic_query list"

datatype logged_value = Logged_String string | Logged_Other string

datatype declared_error =
  Declared_Error (dx_code: string) (dx_recovery: recovery) (dx_problem: string) (dx_fix: string)
    (dx_queries: "diagnostic_query list") (dx_values: "(string \<times> logged_value) list")
    (dx_wrapped: "raised_error option")
and raised_error = Foreign_Error string | Raised declared_error

datatype coded_declaration =
    Decl_Error declared_error
  | Decl_Event diagnostic_event
  | Decl_Metric diagnostic_metric
  | Decl_Alert diagnostic_alert

fun get_code :: "coded_declaration \<Rightarrow> string" where
  "get_code (Decl_Error e) = dx_code e"
| "get_code (Decl_Event e) = dv_code e"
| "get_code (Decl_Metric m) = dm_code m"
| "get_code (Decl_Alert a) = da_code a"

fun get_kind :: "coded_declaration \<Rightarrow> diagnostic_kind" where
  "get_kind (Decl_Error e) = Kind_Error"
| "get_kind (Decl_Event e) = Kind_Event"
| "get_kind (Decl_Metric m) = Kind_Metric"
| "get_kind (Decl_Alert a) = Kind_Alert"

section \<open>The registry\<close>

definition is_digit_char :: "char \<Rightarrow> bool" where
  "is_digit_char c \<longleftrightarrow> CHR ''0'' \<le> c \<and> c \<le> CHR ''9''"

definition is_sql_code :: "string \<Rightarrow> bool" where
  "is_sql_code code \<longleftrightarrow> length code = 7 \<and> take 3 code = ''SQL'' \<and> (\<forall>c \<in> set (drop 3 code). is_digit_char c)"

definition register_code :: "coded_declaration list \<Rightarrow> coded_declaration \<Rightarrow> coded_declaration list option" where
  "register_code registry d =
     (if \<not> is_sql_code (get_code d) then None
      else if \<exists>x \<in> set registry. get_code x = get_code d then None
      else Some (registry @ [d]))"

fun metrics_of :: "coded_declaration list \<Rightarrow> diagnostic_metric list" where
  "metrics_of [] = []"
| "metrics_of (Decl_Metric m # ds) = m # metrics_of ds"
| "metrics_of (Decl_Error e # ds) = metrics_of ds"
| "metrics_of (Decl_Event e # ds) = metrics_of ds"
| "metrics_of (Decl_Alert a # ds) = metrics_of ds"

fun alerts_of :: "coded_declaration list \<Rightarrow> diagnostic_alert list" where
  "alerts_of [] = []"
| "alerts_of (Decl_Alert a # ds) = a # alerts_of ds"
| "alerts_of (Decl_Error e # ds) = alerts_of ds"
| "alerts_of (Decl_Event e # ds) = alerts_of ds"
| "alerts_of (Decl_Metric m # ds) = alerts_of ds"

text \<open>\<open>walk\<close> is the order in which the map is iterated.\<close>

definition get_metric :: "(coded_declaration list \<Rightarrow> coded_declaration list) \<Rightarrow> coded_declaration list \<Rightarrow> string \<Rightarrow> diagnostic_metric option" where
  "get_metric walk registry name = find (\<lambda>m. dm_name m = name) (metrics_of (walk registry))"

definition get_alert :: "(coded_declaration list \<Rightarrow> coded_declaration list) \<Rightarrow> coded_declaration list \<Rightarrow> string \<Rightarrow> diagnostic_alert option" where
  "get_alert walk registry name = find (\<lambda>a. da_name a = name) (alerts_of (walk registry))"

definition list_metrics :: "(coded_declaration list \<Rightarrow> coded_declaration list) \<Rightarrow> coded_declaration list \<Rightarrow> diagnostic_metric list" where
  "list_metrics walk registry = sort_key dm_code (metrics_of (walk registry))"

definition list_alerts :: "(coded_declaration list \<Rightarrow> coded_declaration list) \<Rightarrow> coded_declaration list \<Rightarrow> diagnostic_alert list" where
  "list_alerts walk registry = sort_key da_code (alerts_of (walk registry))"

definition new_diagnostic_metric ::
  "(coded_declaration list \<Rightarrow> coded_declaration list) \<Rightarrow> coded_declaration list \<Rightarrow> diagnostic_metric \<Rightarrow> coded_declaration list option" where
  "new_diagnostic_metric walk registry m =
     (if dm_name m = '''' then None
      else if dm_kind m = '''' then None
      else if dm_description m = '''' then None
      else if \<not> validate_scope (dm_scope m) then None
      else if '''' \<in> set (dm_attributes m) \<or> \<not> distinct (dm_attributes m) then None
      else if get_metric walk registry (dm_name m) \<noteq> None then None
      else register_code registry (Decl_Metric m))"

definition new_diagnostic_alert ::
  "(coded_declaration list \<Rightarrow> coded_declaration list) \<Rightarrow> coded_declaration list \<Rightarrow> diagnostic_alert \<Rightarrow> coded_declaration list option" where
  "new_diagnostic_alert walk registry a =
     (if da_name a = '''' then None
      else if da_description a = '''' then None
      else if \<not> validate_scope (da_scope a) then None
      else if da_scope a = scope_session \<or> da_scope a = scope_exporter then None
      else if da_severity a = '''' then None
      else if get_alert walk registry (da_name a) \<noteq> None then None
      else register_code registry (Decl_Alert a))"

definition new_diagnostic_event ::
  "coded_declaration list \<Rightarrow> string \<Rightarrow> string \<Rightarrow> string \<Rightarrow> diagnostic_query option list \<Rightarrow> coded_declaration list option" where
  "new_diagnostic_event registry code message consequence queries =
     (if message = '''' then None
      else (case copy_queries queries of
          None \<Rightarrow> None
        | Some qs \<Rightarrow> register_code registry (Decl_Event \<lparr>dv_code = code,
            dv_message = (if consequence \<noteq> '''' then message @ '' -- '' @ consequence else message),
            dv_queries = qs\<rparr>)))"

definition new_diagnostic_error ::
  "coded_declaration list \<Rightarrow> string \<Rightarrow> recovery \<Rightarrow> string \<Rightarrow> string \<Rightarrow> diagnostic_query option list
   \<Rightarrow> coded_declaration list option" where
  "new_diagnostic_error registry code r problem fix_text queries =
     (if problem = '''' then None
      else (case copy_queries queries of
          None \<Rightarrow> None
        | Some qs \<Rightarrow> register_code registry
            (Decl_Error (Declared_Error code r problem fix_text qs [] None))))"

definition docs_url :: "string \<Rightarrow> string" where
  "docs_url code = ''https://sqlstreams.io/errors/'' @ code"

section \<open>Placeholders\<close>

text \<open>A placeholder is a name in braces: the pattern \<open>\{[a-z][a-z0-9_]*\}\<close>, leftmost first.\<close>

definition is_lower :: "char \<Rightarrow> bool" where
  "is_lower c \<longleftrightarrow> CHR ''a'' \<le> c \<and> c \<le> CHR ''z''"

definition is_name_char :: "char \<Rightarrow> bool" where
  "is_name_char c \<longleftrightarrow> is_lower c \<or> is_digit_char c \<or> c = CHR ''_''"

definition match_placeholder :: "string \<Rightarrow> (string \<times> string) option" where
  "match_placeholder s =
     (case s of
        [] \<Rightarrow> None
      | b # t \<Rightarrow>
          (let name = takeWhile is_name_char t; rest = dropWhile is_name_char t in
           if b = CHR ''{'' \<and> name \<noteq> '''' \<and> is_lower (hd name) \<and> rest \<noteq> '''' \<and> hd rest = CHR ''}''
           then Some (name, tl rest) else None))"

lemma match_placeholder_shorter:
  assumes "match_placeholder s = Some (name, rest)"
  shows "length rest < length s"
proof (cases s)
  case (Cons b t)
  then have "rest = tl (dropWhile is_name_char t)"
    using assms by (simp add: match_placeholder_def Let_def split: if_splits)
  then show ?thesis using Cons length_dropWhile_le [of is_name_char t] by simp
qed (use assms in \<open>simp add: match_placeholder_def\<close>)

text \<open>The text as pieces: the literal characters and the placeholders between them.\<close>

datatype piece = Literal char | Placeholder string

function (sequential) pieces :: "string \<Rightarrow> piece list" where
  "pieces [] = []"
| "pieces (c # s) =
     (case match_placeholder (c # s) of
        None \<Rightarrow> Literal c # pieces s
      | Some (name, rest) \<Rightarrow> Placeholder name # pieces rest)"
  by pat_completeness auto
termination
  by (relation "measure length") (auto dest: match_placeholder_shorter)

definition placeholder_names :: "string \<Rightarrow> string list" where
  "placeholder_names body' =
     fold (\<lambda>p names. case p of Literal c \<Rightarrow> names
             | Placeholder n \<Rightarrow> if n \<in> set names then names else names @ [n]) (pieces body') []"

fun logged_text :: "logged_value \<Rightarrow> string" where
  "logged_text (Logged_String s) = s"
| "logged_text (Logged_Other s) = s"

fun fill_piece :: "(string \<times> logged_value) list \<Rightarrow> piece \<Rightarrow> string" where
  "fill_piece values (Literal c) = [c]"
| "fill_piece values (Placeholder n) =
     (case find (\<lambda>a. fst a = n) values of
        None \<Rightarrow> ''{'' @ n @ ''}''
      | Some a \<Rightarrow> logged_text (snd a))"

definition fill_placeholders :: "string \<Rightarrow> (string \<times> logged_value) list \<Rightarrow> string" where
  "fill_placeholders body' values = concat (map (fill_piece values) (pieces body'))"

section \<open>Raised errors\<close>

text \<open>The arguments of \<open>With\<close>: names and values alternate, a last name alone is rendered as a gap.\<close>

fun to_attributes :: "logged_value list \<Rightarrow> (string \<times> logged_value) list" where
  "to_attributes [] = []"
| "to_attributes [n] = [(logged_text n, Logged_String ''(missing)'')]"
| "to_attributes (n # v # pairs) = (logged_text n, v) # to_attributes pairs"

fun with_values :: "logged_value list \<Rightarrow> declared_error \<Rightarrow> declared_error" where
  "with_values pairs (Declared_Error c r p f q vs w) = Declared_Error c r p f q (vs @ to_attributes pairs) w"

fun wrap_cause :: "raised_error option \<Rightarrow> declared_error \<Rightarrow> declared_error" where
  "wrap_cause cause (Declared_Error c r p f q vs w) = Declared_Error c r p f q vs cause"

fun format_value :: "(string \<Rightarrow> string) \<Rightarrow> logged_value \<Rightarrow> string" where
  "format_value quote (Logged_String s) = quote s"
| "format_value quote (Logged_Other s) = s"

fun render_values :: "(string \<Rightarrow> string) \<Rightarrow> nat \<Rightarrow> (string \<times> logged_value) list \<Rightarrow> string" where
  "render_values quote i [] = ''''"
| "render_values quote i (a # as) =
     (if i = 0 then '': '' else '', '') @ fst a @ '' '' @ format_value quote (snd a) @ render_values quote (Suc i) as"

fun error_text :: "(string \<Rightarrow> string) \<Rightarrow> declared_error \<Rightarrow> string"
  and raised_text :: "(string \<Rightarrow> string) \<Rightarrow> raised_error \<Rightarrow> string" where
  "error_text quote (Declared_Error c r p f q vs w) =
     p @ render_values quote 0 vs
     @ (if f \<noteq> '''' then '' -- '' @ fill_placeholders f vs else '''')
     @ '' ['' @ c @ '']''
     @ (case w of None \<Rightarrow> '''' | Some e \<Rightarrow> '': '' @ raised_text quote e)"
| "raised_text quote (Foreign_Error s) = s"
| "raised_text quote (Raised e) = error_text quote e"

definition error_is :: "declared_error \<Rightarrow> declared_error \<Rightarrow> bool" where
  "error_is e target \<longleftrightarrow> dx_code target = dx_code e"

text \<open>\<open>errors.Is\<close>: along the chain of wrapped causes.\<close>

fun chain_is :: "raised_error \<Rightarrow> declared_error \<Rightarrow> bool" where
  "chain_is (Foreign_Error s) target = False"
| "chain_is (Raised (Declared_Error c r p f q vs w)) target =
     (error_is (Declared_Error c r p f q vs w) target
      \<or> (case w of None \<Rightarrow> False | Some e \<Rightarrow> chain_is e target))"

fun log_value :: "declared_error \<Rightarrow> (string \<Rightarrow> string) \<Rightarrow> (string \<times> logged_value) list" where
  "log_value (Declared_Error c r p f q vs w) quote =
     [(''code'', Logged_String c), (''problem'', Logged_String p),
      (''recovery'', Logged_String (case r of Recovery_Transient \<Rightarrow> ''transient'' | Recovery_Permanent \<Rightarrow> ''permanent'')),
      (''docs'', Logged_String (docs_url c))]
     @ (if f \<noteq> '''' then [(''fix'', Logged_String (fill_placeholders f vs))] else [])
     @ vs
     @ (case w of None \<Rightarrow> [] | Some e \<Rightarrow> [(''cause'', Logged_String (raised_text quote e))])"

end
