(* ===== verification/Declaration_Catalog.thy ===== *)
theory Declaration_Catalog
  imports Diagnostics
begin

text \<open>
  Every declaration of the library, file by file, as the call that makes it when the program starts:
  the package variables of the \<open>errors.go\<close>, \<open>events.go\<close>, \<open>alerts.go\<close> and \<open>*_metrics.go\<close> files. The
  diagnose queries are texts for the reader of a message; the library never runs them. Go initialises
  packages in an order of its own, so the list at the end is one order of many.
\<close>

datatype declare_call =
    Call_Error string recovery string string "diagnostic_query option list"
  | Call_Event string string string "diagnostic_query option list"
  | Call_Metric diagnostic_metric
  | Call_Alert diagnostic_alert

text \<open>The lines of a query with the number of tabs each starts with.\<close>

fun sql_text :: "(nat \<times> string) list \<Rightarrow> string" where
  "sql_text [] = ''''"
| "sql_text [(d, l)] = replicate d (CHR 0x09) @ l"
| "sql_text ((d, l) # ls) = replicate d (CHR 0x09) @ l @ [CHR 0x0A] @ sql_text ls"

section \<open>pkg/alert/alerts.go\<close>

definition alert_partition_count :: diagnostic_alert where
  "alert_partition_count = \<lparr>da_code = ''SQL0094'', da_name = ''partition_count'',
     da_description = (''a stream'' @ [CHR 0x27] @ ''s message log holds enough partitions that dropping the stream approaches the lock-table ceiling''),
     da_scope = ''stream'', da_severity = ''warn''\<rparr>"

definition alert_compaction_read_cost :: diagnostic_alert where
  "alert_compaction_read_cost = \<lparr>da_code = ''SQL0095'', da_name = ''compaction_read_cost'',
     da_description = ''a compacted stream holds enough partitions that replaying a never-superseded key is a long scan'',
     da_scope = ''stream'', da_severity = ''warn''\<rparr>"

definition alert_worker_liveness :: diagnostic_alert where
  "alert_worker_liveness = \<lparr>da_code = ''SQL0096'', da_name = ''worker_liveness'',
     da_description = (''a stream'' @ [CHR 0x27] @ ''s worker rows have no live instance, so nothing runs its upkeep''),
     da_scope = ''stream'', da_severity = ''warn''\<rparr>"

definition alert_metrics_collector_progress :: diagnostic_alert where
  "alert_metrics_collector_progress = \<lparr>da_code = ''SQL0101'', da_name = ''metrics_collector_progress'',
     da_description = ''metrics collection has not completed within the allowed age while manager leases remain continuous'',
     da_scope = ''system'', da_severity = ''warn''\<rparr>"

section \<open>pkg/alert/events.go\<close>

definition event_alert_condition_holds :: declare_call where
  "event_alert_condition_holds = Call_Event ''SQL0063''
     ''alert condition holds''
     ''nothing was published; the scheduled check is what publishes and resolves an alert''
     []"

section \<open>pkg/common/errors.go\<close>

definition err_already_consuming :: declare_call where
  "err_already_consuming = Call_Error ''SQL0001'' Recovery_Permanent
     ''instance is already consuming''
     ''wait for the running Consume to return, or Register another instance''
     []"

definition err_lifecycle_context_not_cancellable :: declare_call where
  "err_lifecycle_context_not_cancellable = Call_Error ''SQL0002'' Recovery_Permanent
     ''lifecycle context can never be cancelled''
     (''pass the application'' @ [CHR 0x27] @ ''s shutdown context, or set ConsumeOptions.DisableGracefulShutdown'')
     []"

definition err_lease_lost :: declare_call where
  "err_lease_lost = Call_Error ''SQL0003'' Recovery_Permanent
     ''lease lost to another consumer''
     ''''
     []"

definition err_commit_confirmation_lost :: declare_call where
  "err_commit_confirmation_lost = Call_Error ''SQL0019'' Recovery_Permanent
     ''commit confirmation was lost''
     ''''
     [new_query ''whether the outcomes landed -- rows updated at the commit'' (sql_text [
        (0, ''''),
        (0, ''SELECT''),
        (1, ''message_id,''),
        (1, ''status,''),
        (1, ''attempts,''),
        (1, ''updated_at''),
        (0, ''FROM {schema}.exception_queue_{stream_id}''),
        (0, ''WHERE consumer_group_id = {group_id}''),
        (0, ''ORDER BY updated_at DESC''),
        (0, ''LIMIT 20;'')]),
      new_query ''the range lease whose expiry settles it either way'' (sql_text [
        (0, ''''),
        (0, ''SELECT''),
        (1, ''token,''),
        (1, ''low,''),
        (1, ''high,''),
        (1, ''expires_at,''),
        (1, ''reclaims''),
        (0, ''FROM {schema}.claim_lease_{stream_id}''),
        (0, ''WHERE consumer_group_id = {group_id};'')])]"

definition err_payload_not_encodable :: declare_call where
  "err_payload_not_encodable = Call_Error ''SQL0097'' Recovery_Permanent
     ''payload cannot be encoded as JSON''
     ''give the payload a shape encoding/json accepts -- the cause names what it could not encode''
     []"

section \<open>pkg/compaction/errors.go\<close>

definition err_compaction_head_not_found :: declare_call where
  "err_compaction_head_not_found = Call_Error ''SQL0066'' Recovery_Permanent
     ''compaction head not found''
     (''produce under message key '' @ [CHR 0x22] @ ''{message_key}'' @ [CHR 0x22] @ '' on stream '' @ [CHR 0x22] @ ''{stream}'' @ [CHR 0x22] @ '' with CompactionOptions.Enable set'')
     [new_query (''the key'' @ [CHR 0x27] @ ''s compaction_head row, if one exists'') (sql_text [
        (0, ''''),
        (0, ''SELECT''),
        (1, ''compaction_key,''),
        (1, ''message_id,''),
        (1, ''schema_version,''),
        (1, ''compaction_rank''),
        (0, ''FROM {schema}.compaction_head_{stream_id}''),
        (0, (''WHERE compaction_key = '' @ [CHR 0x27] @ ''{message_key}'' @ [CHR 0x27] @ '';''))]),
      new_query ''the messages produced under the key -- a NULL compaction_rank never opted into compaction'' (sql_text [
        (0, ''''),
        (0, ''SELECT''),
        (1, ''id,''),
        (1, ''schema_version,''),
        (1, ''compaction_rank,''),
        (1, ''created_at''),
        (0, ''FROM {schema}.message_log_{stream_id}''),
        (0, (''WHERE message_key = '' @ [CHR 0x27] @ ''{message_key}'' @ [CHR 0x27])),
        (0, ''ORDER BY id DESC''),
        (0, ''LIMIT 20;'')])]"

section \<open>pkg/consume/errors.go\<close>

definition err_consumer_not_found :: declare_call where
  "err_consumer_not_found = Call_Error ''SQL0014'' Recovery_Permanent
     ''consumer group not found''
     ''register a consumer with this group name to create it''
     [new_query ''every group registered on this stream'' (sql_text [
        (0, ''''),
        (0, ''SELECT''),
        (1, ''consumer_group_config.id,''),
        (1, ''consumer_group_config.name,''),
        (1, ''consumer_group_config.created_at''),
        (0, ''FROM {schema}.consumer_group_config''),
        (0, ''JOIN {schema}.stream_config ON stream_config.id = consumer_group_config.stream_id''),
        (0, (''WHERE stream_config.name = '' @ [CHR 0x27] @ ''{stream}'' @ [CHR 0x27])),
        (0, ''ORDER BY consumer_group_config.name;'')]),
      new_query ''the group row behind an id, if that is what the line carried'' (sql_text [
        (0, ''''),
        (0, ''SELECT''),
        (1, ''id,''),
        (1, ''stream_id,''),
        (1, ''name,''),
        (1, ''created_at''),
        (0, ''FROM {schema}.consumer_group_config''),
        (0, ''WHERE id = {group_id};'')]),
      new_query (''the group'' @ [CHR 0x27] @ ''s cursor row on this stream, which every claim reads'') (sql_text [
        (0, ''''),
        (0, ''SELECT''),
        (1, ''id,''),
        (1, ''consumer_group_id,''),
        (1, ''claimed,''),
        (1, ''committed,''),
        (1, ''settled_head''),
        (0, ''FROM {schema}.consumer_group_cursor_{stream_id}''),
        (0, ''WHERE consumer_group_id = {group_id};'')])]"

definition err_consumer_group_live :: declare_call where
  "err_consumer_group_live = Call_Error ''SQL0015'' Recovery_Permanent
     ''consumer group still has a live consumer''
     (''stop the group'' @ [CHR 0x27] @ ''s consumers, or pass DestroyOptions.Force'')
     [new_query ''the instances still heartbeating on this group'' (sql_text [
        (0, ''''),
        (0, ''SELECT''),
        (1, ''worker_config.name AS worker,''),
        (1, ''worker_instance.id,''),
        (1, ''worker_instance.expires_at,''),
        (1, ''worker_instance.attempts''),
        (0, ''FROM {schema}.worker_instance''),
        (0, ''JOIN {schema}.worker_config ON worker_config.id = worker_instance.worker_id''),
        (0, ''WHERE worker_config.consumer_group_id = {group_id}''),
        (1, ''AND worker_instance.expires_at > now()''),
        (0, ''ORDER BY worker_instance.expires_at;'')])]"

definition err_consumer_group_deliveries_pending :: declare_call where
  "err_consumer_group_deliveries_pending = Call_Error ''SQL0016'' Recovery_Permanent
     ''consumer group still has delivery rows''
     ''pass DestroyOptions.Force to delete them''
     [new_query ''what the delivery rows would discard, by status'' (sql_text [
        (0, ''''),
        (0, ''SELECT status, count(*) AS row_count''),
        (0, ''FROM {schema}.exception_queue_{stream_id}''),
        (0, ''WHERE consumer_group_id = {group_id}''),
        (0, ''GROUP BY status;'')]),
      new_query ''the dead ones, whose dead-letter record goes with them'' (sql_text [
        (0, ''''),
        (0, ''SELECT''),
        (1, ''message_id,''),
        (1, ''attempts,''),
        (1, ''last_error,''),
        (1, ''updated_at''),
        (0, ''FROM {schema}.exception_queue_{stream_id}''),
        (0, ''WHERE consumer_group_id = {group_id}''),
        (1, (''AND status = '' @ [CHR 0x27] @ ''dead'' @ [CHR 0x27])),
        (0, ''ORDER BY message_id;'')])]"

definition err_delivery_terminal :: declare_call where
  "err_delivery_terminal = Call_Error ''SQL0055'' Recovery_Permanent
     ''delivery cannot succeed''
     ''''
     []"

definition err_delivery_delayed :: declare_call where
  "err_delivery_delayed = Call_Error ''SQL0054'' Recovery_Transient
     ''could not complete the delivery yet, the handler asked to run it later''
     ''''
     []"

section \<open>pkg/consume/events.go\<close>

definition event_lease_reclaimed :: declare_call where
  "event_lease_reclaimed = Call_Event ''SQL0026''
     ''lease reclaimed from expired worker''
     ''''
     [new_query ''the leases this group holds now'' (sql_text [
        (0, ''''),
        (0, ''SELECT''),
        (1, ''token,''),
        (1, ''low,''),
        (1, ''high,''),
        (1, ''expires_at,''),
        (1, ''reclaims''),
        (0, ''FROM {schema}.claim_lease_{stream_id}''),
        (0, ''WHERE consumer_group_id = {group_id}''),
        (0, ''ORDER BY low;'')]),
      new_query ''what the reclaimed range left behind'' (sql_text [
        (0, ''''),
        (0, ''SELECT''),
        (1, ''message_id,''),
        (1, ''status,''),
        (1, ''attempts,''),
        (1, ''last_error''),
        (0, ''FROM {schema}.exception_queue_{stream_id}''),
        (0, ''WHERE consumer_group_id = {group_id}''),
        (1, ''AND message_id BETWEEN {low} AND {high}''),
        (0, ''ORDER BY message_id;'')])]"

definition event_range_quarantined :: declare_call where
  "event_range_quarantined = Call_Event ''SQL0027''
     ''range quarantined after max reclaims''
     (''messages written as '' @ [CHR 0x27] @ ''ready'' @ [CHR 0x27] @ '' exceptions'')
     [new_query ''the exceptions the quarantine wrote'' (sql_text [
        (0, ''''),
        (0, ''SELECT''),
        (1, ''message_id,''),
        (1, ''status,''),
        (1, ''attempts,''),
        (1, ''can_run_after,''),
        (1, ''last_error''),
        (0, ''FROM {schema}.exception_queue_{stream_id}''),
        (0, ''WHERE consumer_group_id = {group_id}''),
        (1, ''AND message_id BETWEEN {low} AND {high}''),
        (0, ''ORDER BY message_id;'')]),
      new_query ''the messages in the range, to find what kills a consumer'' (sql_text [
        (0, ''''),
        (0, ''SELECT''),
        (1, ''id,''),
        (1, ''routing_key,''),
        (1, ''payload''),
        (0, ''FROM {schema}.message_log_{stream_id}''),
        (0, ''WHERE id BETWEEN {low} AND {high}''),
        (0, ''ORDER BY id;'')])]"

definition event_messages_dead_lettered :: declare_call where
  "event_messages_dead_lettered = Call_Event ''SQL0028''
     ''messages dead-lettered''
     ''unrecoverable, will not be retried''
     [new_query ''every dead row this group holds, newest first'' (sql_text [
        (0, ''''),
        (0, ''SELECT''),
        (1, ''message_id,''),
        (1, ''attempts,''),
        (1, ''last_error,''),
        (1, ''updated_at''),
        (0, ''FROM {schema}.exception_queue_{stream_id}''),
        (0, ''WHERE consumer_group_id = {group_id}''),
        (1, (''AND status = '' @ [CHR 0x27] @ ''dead'' @ [CHR 0x27])),
        (0, ''ORDER BY updated_at DESC;'')]),
      new_query ''which errors account for them'' (sql_text [
        (0, ''''),
        (0, ''SELECT last_error, count(*) AS dead_count''),
        (0, ''FROM {schema}.exception_queue_{stream_id}''),
        (0, ''WHERE consumer_group_id = {group_id}''),
        (1, (''AND status = '' @ [CHR 0x27] @ ''dead'' @ [CHR 0x27])),
        (0, ''GROUP BY last_error''),
        (0, ''ORDER BY dead_count DESC;'')])]"

definition event_message_dead_lettered :: declare_call where
  "event_message_dead_lettered = Call_Event ''SQL0029''
     ''message dead-lettered''
     ''unrecoverable, will not be retried''
     [new_query ''the delivery row the dead-lettering wrote'' (sql_text [
        (0, ''''),
        (0, ''SELECT''),
        (1, ''status,''),
        (1, ''attempts,''),
        (1, ''last_error,''),
        (1, ''updated_at''),
        (0, ''FROM {schema}.exception_queue_{stream_id}''),
        (0, ''WHERE consumer_group_id = {group_id}''),
        (1, ''AND message_id = {message_id};'')]),
      new_query ''every attempt it made, oldest first'' (sql_text [
        (0, ''''),
        (0, ''SELECT''),
        (1, ''attempt,''),
        (1, ''status,''),
        (1, ''error,''),
        (1, ''attempted_at''),
        (0, ''FROM {schema}.delivery_log_{stream_id}''),
        (0, ''WHERE consumer_group_id = {group_id}''),
        (1, ''AND message_id = {message_id}''),
        (0, ''ORDER BY attempt;'')]),
      new_query ''the message itself'' (sql_text [
        (0, ''''),
        (0, ''SELECT''),
        (1, ''id,''),
        (1, ''routing_key,''),
        (1, ''payload,''),
        (1, ''created_at''),
        (0, ''FROM {schema}.message_log_{stream_id}''),
        (0, ''WHERE id = {message_id};'')])]"

definition event_exception_dead_lettered :: declare_call where
  "event_exception_dead_lettered = Call_Event ''SQL0030''
     ''exception dead-lettered''
     ''unrecoverable, will not be retried''
     [new_query ''the exception row now recorded dead'' (sql_text [
        (0, ''''),
        (0, ''SELECT''),
        (1, ''status,''),
        (1, ''attempts,''),
        (1, ''last_error,''),
        (1, ''updated_at''),
        (0, ''FROM {schema}.exception_queue_{stream_id}''),
        (0, ''WHERE consumer_group_id = {group_id}''),
        (1, ''AND message_id = {message_id};'')]),
      new_query ''the attempts that exhausted its budget'' (sql_text [
        (0, ''''),
        (0, ''SELECT''),
        (1, ''attempt,''),
        (1, ''status,''),
        (1, ''error,''),
        (1, ''attempted_at''),
        (0, ''FROM {schema}.delivery_log_{stream_id}''),
        (0, ''WHERE consumer_group_id = {group_id}''),
        (1, ''AND message_id = {message_id}''),
        (0, ''ORDER BY attempt;'')])]"

definition event_kill_backstop_fired :: declare_call where
  "event_kill_backstop_fired = Call_Event ''SQL0031''
     ''crash-loop kill backstop fired''
     ''exceptions marked dead''
     [new_query ''the rows the backstop marked dead'' (sql_text [
        (0, ''''),
        (0, ''SELECT''),
        (1, ''message_id,''),
        (1, ''attempts,''),
        (1, ''last_error,''),
        (1, ''updated_at''),
        (0, ''FROM {schema}.exception_queue_{stream_id}''),
        (0, ''WHERE consumer_group_id = {group_id}''),
        (1, (''AND status = '' @ [CHR 0x27] @ ''dead'' @ [CHR 0x27])),
        (0, ''ORDER BY updated_at DESC;'')]),
      new_query ''the attempts that crashed without recording an outcome'' (sql_text [
        (0, ''''),
        (0, ''SELECT''),
        (1, ''message_id,''),
        (1, ''attempt,''),
        (1, ''status,''),
        (1, ''attempted_at''),
        (0, ''FROM {schema}.delivery_log_{stream_id}''),
        (0, ''WHERE consumer_group_id = {group_id}''),
        (1, (''AND status = '' @ [CHR 0x27] @ ''expired'' @ [CHR 0x27])),
        (0, ''ORDER BY attempted_at DESC''),
        (0, ''LIMIT 50;'')])]"

definition event_stored_options_clamped :: declare_call where
  "event_stored_options_clamped = Call_Event ''SQL0032''
     (''stored message options outside this consumer'' @ [CHR 0x27] @ ''s bounds'')
     ''clamped''
     []"

definition event_slow_dispatch :: declare_call where
  "event_slow_dispatch = Call_Event ''SQL0039''
     ''delivery dispatch exceeded the duration threshold''
     ''''
     []"

definition event_group_config_not_refreshed :: declare_call where
  "event_group_config_not_refreshed = Call_Event ''SQL0060''
     ''could not refresh group config''
     ''the last copy stays in use''
     [new_query (''the config document stored on this group'' @ [CHR 0x27] @ ''s worker rows'') (sql_text [
        (0, ''''),
        (0, ''SELECT worker_config.name, worker_config.metadata''),
        (0, ''FROM {schema}.worker_config''),
        (0, ''JOIN {schema}.consumer_group_config ON consumer_group_config.id = worker_config.consumer_group_id''),
        (0, (''WHERE consumer_group_config.name = '' @ [CHR 0x27] @ ''{group}'' @ [CHR 0x27])),
        (0, ''ORDER BY worker_config.name;'')])]"

definition event_consumer_stopped :: declare_call where
  "event_consumer_stopped = Call_Event ''SQL0041''
     ''consumer stopped''
     ''''
     []"

definition event_queued_range_stale :: declare_call where
  "event_queued_range_stale = Call_Event ''SQL0105''
     ''queued message has insufficient lease time''
     ''range waits for reclaim; successful handlers in the range can repeat''
     []"

definition event_messages_not_claimed :: declare_call where
  "event_messages_not_claimed = Call_Event ''SQL0108''
     ''could not claim messages''
     ''the next claim waits one poll rate''
     []"

section \<open>pkg/metric/alert_metrics.go\<close>

definition metric_active_alerts :: diagnostic_metric where
  "metric_active_alerts = \<lparr>dm_code = ''SQL0073'', dm_name = ''sqlstreams.alert.state.active_alerts'',
     dm_kind = ''gauge'', dm_unit = ''{alert}'',
     dm_description = ''retained alert heads whose status is active'',
     dm_scope = ''system'', dm_attributes = []\<rparr>"

definition metric_resolved_alerts :: diagnostic_metric where
  "metric_resolved_alerts = \<lparr>dm_code = ''SQL0074'', dm_name = ''sqlstreams.alert.state.resolved_alerts'',
     dm_kind = ''gauge'', dm_unit = ''{alert}'',
     dm_description = ''retained alert heads whose status is resolved'',
     dm_scope = ''system'', dm_attributes = []\<rparr>"

definition metric_check_streams_evaluated :: diagnostic_metric where
  "metric_check_streams_evaluated = \<lparr>dm_code = ''SQL0075'', dm_name = ''sqlstreams.alert.check.streams_evaluated'',
     dm_kind = ''gauge'', dm_unit = ''{stream}'',
     dm_description = ''streams the alert check evaluated'',
     dm_scope = ''system'', dm_attributes = [''alert'']\<rparr>"

definition metric_check_streams_failed :: diagnostic_metric where
  "metric_check_streams_failed = \<lparr>dm_code = ''SQL0076'', dm_name = ''sqlstreams.alert.check.streams_failed'',
     dm_kind = ''gauge'', dm_unit = ''{stream}'',
     dm_description = ''streams whose alert evaluation or result production did not complete'',
     dm_scope = ''system'', dm_attributes = [''alert'']\<rparr>"

definition metric_check_published_alerts :: diagnostic_metric where
  "metric_check_published_alerts = \<lparr>dm_code = ''SQL0077'', dm_name = ''sqlstreams.alert.check.published_alerts'',
     dm_kind = ''gauge'', dm_unit = ''{alert}'',
     dm_description = ''alerts the check changed to active'',
     dm_scope = ''system'', dm_attributes = [''alert'']\<rparr>"

definition metric_check_resolved_alerts :: diagnostic_metric where
  "metric_check_resolved_alerts = \<lparr>dm_code = ''SQL0078'', dm_name = ''sqlstreams.alert.check.resolved_alerts'',
     dm_kind = ''gauge'', dm_unit = ''{alert}'',
     dm_description = ''alerts the check changed to resolved'',
     dm_scope = ''system'', dm_attributes = [''alert'']\<rparr>"

section \<open>pkg/metric/collector_metrics.go\<close>

definition metric_collector_completed_timestamp :: diagnostic_metric where
  "metric_collector_completed_timestamp = \<lparr>dm_code = ''SQL0100'', dm_name = ''sqlstreams.metrics.collector.completed_timestamp'',
     dm_kind = ''gauge'', dm_unit = ''s'',
     dm_description = ''Unix timestamp of the last completed metrics collection pass'',
     dm_scope = ''system'', dm_attributes = []\<rparr>"

section \<open>pkg/metric/consumer_group_metrics.go\<close>

definition metric_cursor_head :: diagnostic_metric where
  "metric_cursor_head = \<lparr>dm_code = ''SQL0080'', dm_name = ''sqlstreams.consumer.cursor.head'',
     dm_kind = ''gauge'', dm_unit = ''{message}'',
     dm_description = ''highest message id ever appended to the stream'',
     dm_scope = ''consumer_group'', dm_attributes = [''stream'', ''group'']\<rparr>"

definition metric_cursor_claimed :: diagnostic_metric where
  "metric_cursor_claimed = \<lparr>dm_code = ''SQL0081'', dm_name = ''sqlstreams.consumer.cursor.claimed'',
     dm_kind = ''gauge'', dm_unit = ''{message}'',
     dm_description = (''the consumer group'' @ [CHR 0x27] @ ''s read frontier''),
     dm_scope = ''consumer_group'', dm_attributes = [''stream'', ''group'']\<rparr>"

definition metric_cursor_committed :: diagnostic_metric where
  "metric_cursor_committed = \<lparr>dm_code = ''SQL0082'', dm_name = ''sqlstreams.consumer.cursor.committed'',
     dm_kind = ''gauge'', dm_unit = ''{message}'',
     dm_description = ''the frontier at or below which every message is complete or dead'',
     dm_scope = ''consumer_group'', dm_attributes = [''stream'', ''group'']\<rparr>"

definition metric_cursor_backlog :: diagnostic_metric where
  "metric_cursor_backlog = \<lparr>dm_code = ''SQL0083'', dm_name = ''sqlstreams.consumer.cursor.backlog'',
     dm_kind = ''gauge'', dm_unit = ''{message}'',
     dm_description = (''messages beyond the consumer group'' @ [CHR 0x27] @ ''s committed frontier''),
     dm_scope = ''consumer_group'', dm_attributes = [''stream'', ''group'']\<rparr>"

definition metric_cursor_inflight :: diagnostic_metric where
  "metric_cursor_inflight = \<lparr>dm_code = ''SQL0084'', dm_name = ''sqlstreams.consumer.cursor.inflight'',
     dm_kind = ''gauge'', dm_unit = ''{message}'',
     dm_description = (''claimed messages beyond the consumer group'' @ [CHR 0x27] @ ''s committed frontier''),
     dm_scope = ''consumer_group'', dm_attributes = [''stream'', ''group'']\<rparr>"

definition metric_ready_exceptions :: diagnostic_metric where
  "metric_ready_exceptions = \<lparr>dm_code = ''SQL0085'', dm_name = ''sqlstreams.consumer.exceptions.ready'',
     dm_kind = ''gauge'', dm_unit = ''{exception}'',
     dm_description = ''delivery rows waiting for their retry delay'',
     dm_scope = ''consumer_group'', dm_attributes = [''stream'', ''group'']\<rparr>"

definition metric_inflight_exceptions :: diagnostic_metric where
  "metric_inflight_exceptions = \<lparr>dm_code = ''SQL0086'', dm_name = ''sqlstreams.consumer.exceptions.inflight'',
     dm_kind = ''gauge'', dm_unit = ''{exception}'',
     dm_description = ''delivery rows held by a retry attempt'',
     dm_scope = ''consumer_group'', dm_attributes = [''stream'', ''group'']\<rparr>"

definition metric_deferred_exceptions :: diagnostic_metric where
  "metric_deferred_exceptions = \<lparr>dm_code = ''SQL0087'', dm_name = ''sqlstreams.consumer.exceptions.deferred'',
     dm_kind = ''gauge'', dm_unit = ''{exception}'',
     dm_description = (''delivery rows waiting for their message key'' @ [CHR 0x27] @ ''s lease to become free''),
     dm_scope = ''consumer_group'', dm_attributes = [''stream'', ''group'']\<rparr>"

definition metric_dead_exceptions :: diagnostic_metric where
  "metric_dead_exceptions = \<lparr>dm_code = ''SQL0088'', dm_name = ''sqlstreams.consumer.exceptions.dead'',
     dm_kind = ''gauge'', dm_unit = ''{exception}'',
     dm_description = ''dead-lettered delivery rows'',
     dm_scope = ''consumer_group'', dm_attributes = [''stream'', ''group'']\<rparr>"

definition metric_oldest_unresolved_age :: diagnostic_metric where
  "metric_oldest_unresolved_age = \<lparr>dm_code = ''SQL0089'', dm_name = ''sqlstreams.consumer.exceptions.oldest_unresolved_age'',
     dm_kind = ''gauge'', dm_unit = ''ms'',
     dm_description = ''age of the oldest ready, inflight, or deferred delivery row'',
     dm_scope = ''consumer_group'', dm_attributes = [''stream'', ''group'']\<rparr>"

definition metric_open_leases :: diagnostic_metric where
  "metric_open_leases = \<lparr>dm_code = ''SQL0090'', dm_name = ''sqlstreams.consumer.open_leases'',
     dm_kind = ''gauge'', dm_unit = ''{lease}'',
     dm_description = ''open leases held by the consumer group'',
     dm_scope = ''consumer_group'', dm_attributes = [''stream'', ''group'']\<rparr>"

definition metric_abandoned_outstanding :: diagnostic_metric where
  "metric_abandoned_outstanding = \<lparr>dm_code = ''SQL0091'', dm_name = ''sqlstreams.consumer.abandoned_routines.outstanding'',
     dm_kind = ''gauge'', dm_unit = ''{routine}'',
     dm_description = ''abandoned routines with no matching cleared record'',
     dm_scope = ''consumer_group'', dm_attributes = [''stream'', ''group'']\<rparr>"

definition metric_abandoned_total :: diagnostic_metric where
  "metric_abandoned_total = \<lparr>dm_code = ''SQL0092'', dm_name = ''sqlstreams.consumer.abandoned_routines.total'',
     dm_kind = ''gauge'', dm_unit = ''{routine}'',
     dm_description = ''distinct abandoned routines retained on the metrics stream'',
     dm_scope = ''consumer_group'', dm_attributes = [''stream'', ''group'']\<rparr>"

definition metric_abandoned_self_clear_latency_avg :: diagnostic_metric where
  "metric_abandoned_self_clear_latency_avg = \<lparr>dm_code = ''SQL0093'', dm_name = ''sqlstreams.consumer.abandoned_routines.self_clear_latency_avg'',
     dm_kind = ''gauge'', dm_unit = ''ms'',
     dm_description = ''mean time between an abandoned routine and its matching cleared record'',
     dm_scope = ''consumer_group'', dm_attributes = [''stream'', ''group'']\<rparr>"

section \<open>pkg/metric/consumer_session_metrics.go\<close>

definition metric_session_claimed :: diagnostic_metric where
  "metric_session_claimed = \<lparr>dm_code = ''SQL0042'', dm_name = ''sqlstreams.consumer.session.claimed'',
     dm_kind = ''counter'', dm_unit = ''{message}'',
     dm_description = ''messages this instance claimed -- cursor ranges and exception retries together'',
     dm_scope = ''consumer_session'', dm_attributes = [''stream'', ''group'', ''version'', ''session'']\<rparr>"

definition metric_session_success :: diagnostic_metric where
  "metric_session_success = \<lparr>dm_code = ''SQL0043'', dm_name = ''sqlstreams.consumer.session.success'',
     dm_kind = ''counter'', dm_unit = ''{message}'',
     dm_description = ''consumerFunc runs that completed cleanly, counted at resolution'',
     dm_scope = ''consumer_session'', dm_attributes = [''stream'', ''group'', ''version'', ''session'']\<rparr>"

definition metric_session_superseded :: diagnostic_metric where
  "metric_session_superseded = \<lparr>dm_code = ''SQL0044'', dm_name = ''sqlstreams.consumer.session.superseded'',
     dm_kind = ''counter'', dm_unit = ''{message}'',
     dm_description = ''messages resolved without running -- a newer version of their compacted message key had already arrived'',
     dm_scope = ''consumer_session'', dm_attributes = [''stream'', ''group'', ''version'', ''session'']\<rparr>"

definition metric_session_ready :: diagnostic_metric where
  "metric_session_ready = \<lparr>dm_code = ''SQL0045'', dm_name = ''sqlstreams.consumer.session.ready'',
     dm_kind = ''counter'', dm_unit = ''{message}'',
     dm_description = (''delivery rows written '' @ [CHR 0x27] @ ''ready'' @ [CHR 0x27] @ '' -- each will be retried once its backoff passes''),
     dm_scope = ''consumer_session'', dm_attributes = [''stream'', ''group'', ''version'', ''session'']\<rparr>"

definition metric_session_deferred :: diagnostic_metric where
  "metric_session_deferred = \<lparr>dm_code = ''SQL0046'', dm_name = ''sqlstreams.consumer.session.deferred'',
     dm_kind = ''counter'', dm_unit = ''{message}'',
     dm_description = (''delivery rows written '' @ [CHR 0x27] @ ''deferred'' @ [CHR 0x27] @ '' -- another delivery held their message key''),
     dm_scope = ''consumer_session'', dm_attributes = [''stream'', ''group'', ''version'', ''session'']\<rparr>"

definition metric_session_dead :: diagnostic_metric where
  "metric_session_dead = \<lparr>dm_code = ''SQL0047'', dm_name = ''sqlstreams.consumer.session.dead'',
     dm_kind = ''counter'', dm_unit = ''{message}'',
     dm_description = (''delivery rows written '' @ [CHR 0x27] @ ''dead'' @ [CHR 0x27] @ '' -- exhausted retries, unrecoverable payloads, and the kill backstop''),
     dm_scope = ''consumer_session'', dm_attributes = [''stream'', ''group'', ''version'', ''session'']\<rparr>"

definition metric_session_reclaimed :: diagnostic_metric where
  "metric_session_reclaimed = \<lparr>dm_code = ''SQL0048'', dm_name = ''sqlstreams.consumer.session.reclaimed'',
     dm_kind = ''counter'', dm_unit = ''{lease}'',
     dm_description = ''leases taken over from expired workers -- another instance died or stalled mid-range'',
     dm_scope = ''consumer_session'', dm_attributes = [''stream'', ''group'', ''version'', ''session'']\<rparr>"

definition metric_session_quarantined :: diagnostic_metric where
  "metric_session_quarantined = \<lparr>dm_code = ''SQL0049'', dm_name = ''sqlstreams.consumer.session.quarantined'',
     dm_kind = ''counter'', dm_unit = ''{range}'',
     dm_description = (''ranges past the reclaim cap, written out as independent '' @ [CHR 0x27] @ ''ready'' @ [CHR 0x27] @ '' exceptions''),
     dm_scope = ''consumer_session'', dm_attributes = [''stream'', ''group'', ''version'', ''session'']\<rparr>"

definition metric_session_abandoned :: diagnostic_metric where
  "metric_session_abandoned = \<lparr>dm_code = ''SQL0050'', dm_name = ''sqlstreams.consumer.session.abandoned'',
     dm_kind = ''counter'', dm_unit = ''{routine}'',
     dm_description = ''consumerFunc goroutines written off past the hard timeout'',
     dm_scope = ''consumer_session'', dm_attributes = [''stream'', ''group'', ''version'', ''session'']\<rparr>"

definition metric_session_lease_lost :: diagnostic_metric where
  "metric_session_lease_lost = \<lparr>dm_code = ''SQL0051'', dm_name = ''sqlstreams.consumer.session.lease_lost'',
     dm_kind = ''counter'', dm_unit = ''{commit}'',
     dm_description = ''commits rejected because another worker reclaimed the lease first -- that work was redone elsewhere'',
     dm_scope = ''consumer_session'', dm_attributes = [''stream'', ''group'', ''version'', ''session'']\<rparr>"

section \<open>pkg/metric/events.go\<close>

definition event_measurements_cannot_be_exported :: declare_call where
  "event_measurements_cannot_be_exported = Call_Event ''SQL0104''
     ''measurements cannot be exported''
     ''the current collection omits the rejected metric family; healthy families still export''
     []"

definition event_go_routine_events_dropped :: declare_call where
  "event_go_routine_events_dropped = Call_Event ''SQL0052''
     ''abandoned-routine events dropped''
     ''abandoned-routine snapshots undercount''
     []"

section \<open>pkg/metric/otel_metrics.go\<close>

definition metric_o_tel_source_read_success :: diagnostic_metric where
  "metric_o_tel_source_read_success = \<lparr>dm_code = ''SQL0102'', dm_name = ''sqlstreams.otel.source.read_success'',
     dm_kind = ''gauge'', dm_unit = '''',
     dm_description = ''whether the adapter read retained measurements successfully'',
     dm_scope = ''exporter'', dm_attributes = []\<rparr>"

definition metric_o_tel_measurements_rejected :: diagnostic_metric where
  "metric_o_tel_measurements_rejected = \<lparr>dm_code = ''SQL0103'', dm_name = ''sqlstreams.otel.measurements.rejected'',
     dm_kind = ''gauge'', dm_unit = ''{measurement}'',
     dm_description = ''retained measurements omitted from the current export'',
     dm_scope = ''exporter'', dm_attributes = []\<rparr>"

section \<open>pkg/metric/schedule_metrics.go\<close>

definition metric_overdue_schedules :: diagnostic_metric where
  "metric_overdue_schedules = \<lparr>dm_code = ''SQL0070'', dm_name = ''sqlstreams.schedule.state.overdue'',
     dm_kind = ''gauge'', dm_unit = ''{found}'',
     dm_description = ''unsuspended schedules due past the overdue threshold'',
     dm_scope = ''system'', dm_attributes = []\<rparr>"

definition metric_oldest_due_age :: diagnostic_metric where
  "metric_oldest_due_age = \<lparr>dm_code = ''SQL0071'', dm_name = ''sqlstreams.schedule.state.oldest_due_age'',
     dm_kind = ''gauge'', dm_unit = ''ms'',
     dm_description = ''largest time past next scheduled production among unsuspended schedules'',
     dm_scope = ''system'', dm_attributes = []\<rparr>"

definition metric_suspended_schedules :: diagnostic_metric where
  "metric_suspended_schedules = \<lparr>dm_code = ''SQL0072'', dm_name = ''sqlstreams.schedule.state.suspended'',
     dm_kind = ''gauge'', dm_unit = ''{found}'',
     dm_description = ''schedules excluded from overdue counts because they are suspended'',
     dm_scope = ''system'', dm_attributes = []\<rparr>"

section \<open>pkg/metric/stream_metrics.go\<close>

definition metric_stream_unclaimed_workers :: diagnostic_metric where
  "metric_stream_unclaimed_workers = \<lparr>dm_code = ''SQL0099'', dm_name = ''sqlstreams.stream.workers.unclaimed'',
     dm_kind = ''gauge'', dm_unit = ''{worker}'',
     dm_description = ''unclaimed workers owned by the stream or its consumer groups'',
     dm_scope = ''stream'', dm_attributes = [''stream'']\<rparr>"

definition metric_stream_partitions :: diagnostic_metric where
  "metric_stream_partitions = \<lparr>dm_code = ''SQL0098'', dm_name = ''sqlstreams.stream.state.partitions'',
     dm_kind = ''gauge'', dm_unit = ''{partition}'',
     dm_description = (''partitions on the stream'' @ [CHR 0x27] @ ''s message log''),
     dm_scope = ''stream'', dm_attributes = [''stream'']\<rparr>"

definition metric_stream_compacted :: diagnostic_metric where
  "metric_stream_compacted = \<lparr>dm_code = ''SQL0079'', dm_name = ''sqlstreams.stream.state.compacted'',
     dm_kind = ''gauge'', dm_unit = '''',
     dm_description = ''1 once the stream has received a keyed message, otherwise 0'',
     dm_scope = ''stream'', dm_attributes = [''stream'']\<rparr>"

section \<open>pkg/metric/worker_metrics.go\<close>

definition metric_unclaimed_workers :: diagnostic_metric where
  "metric_unclaimed_workers = \<lparr>dm_code = ''SQL0067'', dm_name = ''sqlstreams.worker.state.unclaimed_workers'',
     dm_kind = ''gauge'', dm_unit = ''{worker}'',
     dm_description = ''workers with no live instance and a nonzero target'',
     dm_scope = ''system'', dm_attributes = []\<rparr>"

definition metric_oldest_unclaimed_age :: diagnostic_metric where
  "metric_oldest_unclaimed_age = \<lparr>dm_code = ''SQL0068'', dm_name = ''sqlstreams.worker.state.oldest_unclaimed_age'',
     dm_kind = ''gauge'', dm_unit = ''ms'',
     dm_description = ''largest time since expiry among workers with no live instance and a nonzero target'',
     dm_scope = ''system'', dm_attributes = []\<rparr>"

definition metric_failing_workers :: diagnostic_metric where
  "metric_failing_workers = \<lparr>dm_code = ''SQL0069'', dm_name = ''sqlstreams.worker.state.failing_workers'',
     dm_kind = ''gauge'', dm_unit = ''{worker}'',
     dm_description = ''workers with a live instance on a nonzero consecutive failure streak'',
     dm_scope = ''system'', dm_attributes = []\<rparr>"

section \<open>pkg/migrate/errors.go\<close>

definition err_not_registered :: declare_call where
  "err_not_registered = Call_Error ''SQL0017'' Recovery_Permanent
     ''system not registered''
     ''register the system with Client.System().Register first''
     []"

definition err_schema_older_than_build :: declare_call where
  "err_schema_older_than_build = Call_Error ''SQL0022'' Recovery_Permanent
     ''schema version is older than this build requires''
     ''migrate the {owner_kind} schema up from {version} to {build_version}''
     [new_query ''the steps this database recorded, newest first'' (sql_text [
        (0, ''''),
        (0, ''SELECT''),
        (1, ''id,''),
        (1, ''version,''),
        (1, ''min_compatible_version,''),
        (1, ''status,''),
        (1, ''created_at''),
        (0, ''FROM {schema}.migration_log''),
        (0, ''ORDER BY id DESC''),
        (0, ''LIMIT 20;'')])]"

definition err_schema_newer_than_build :: declare_call where
  "err_schema_newer_than_build = Call_Error ''SQL0023'' Recovery_Permanent
     ''schema version is newer than this build understands''
     ''upgrade the binary to one whose build version is at least {version}''
     [new_query ''the steps this database recorded, newest first'' (sql_text [
        (0, ''''),
        (0, ''SELECT''),
        (1, ''id,''),
        (1, ''version,''),
        (1, ''min_compatible_version,''),
        (1, ''status,''),
        (1, ''created_at''),
        (0, ''FROM {schema}.migration_log''),
        (0, ''ORDER BY id DESC''),
        (0, ''LIMIT 20;'')]),
      new_query ''which step raised the floor past this build'' (sql_text [
        (0, ''''),
        (0, ''SELECT''),
        (1, ''version,''),
        (1, ''min_compatible_version,''),
        (1, ''created_at''),
        (0, ''FROM {schema}.migration_log''),
        (0, ''WHERE min_compatible_version > {build_version}''),
        (0, ''ORDER BY version;'')])]"

definition err_step_lock_timeout :: declare_call where
  "err_step_lock_timeout = Call_Error ''SQL0053'' Recovery_Transient
     ''could not take a lock needed by the migration step''
     ''end the blocking session (pg_stat_activity), then run the migration again''
     []"

section \<open>pkg/produce/errors.go\<close>

definition err_partition_lock_timeout :: declare_call where
  "err_partition_lock_timeout = Call_Error ''SQL0018'' Recovery_Transient
     ''could not create the covering partition''
     ''''
     []"

definition err_partition_creation_behind :: declare_call where
  "err_partition_creation_behind = Call_Error ''SQL0056'' Recovery_Permanent
     ''partition creation cannot keep up with the id sequence''
     ''raise PartitionSize, or run a consumer so create-ahead stays ahead of the producers''
     []"

section \<open>pkg/produce/events.go\<close>

definition event_partition_not_created_ahead :: declare_call where
  "event_partition_not_created_ahead = Call_Event ''SQL0033''
     ''could not create partition ahead''
     ''the first insert past the boundary will create it''
     []"

definition event_partition_created_on_insert :: declare_call where
  "event_partition_created_on_insert = Call_Event ''SQL0057''
     ''no partition covers the next message id''
     (''the insert creates it and pays the creation latency; run a consumer for the stream'' @ [CHR 0x27] @ ''s upkeep or raise PartitionSize'')
     []"

definition event_slow_produce :: declare_call where
  "event_slow_produce = Call_Event ''SQL0038''
     ''produce exceeded the duration threshold''
     ''''
     []"

section \<open>pkg/schedule/errors.go\<close>

definition err_schedule_not_found :: declare_call where
  "err_schedule_not_found = Call_Error ''SQL0013'' Recovery_Permanent
     ''schedule not found''
     ''register the named schedule with Client.Scheduler(name).Register first''
     []"

definition err_schedule_declaration_interrupted :: declare_call where
  "err_schedule_declaration_interrupted = Call_Error ''SQL0025'' Recovery_Transient
     ''could not finish the schedule declaration''
     ''rerun the declaration if the schedule should still exist''
     []"

section \<open>pkg/schedule/events.go\<close>

definition event_message_already_produced :: declare_call where
  "event_message_already_produced = Call_Event ''SQL0037''
     ''schedule message was already produced by an earlier ambiguous commit''
     ''''
     []"

definition event_target_keeps_no_success_rows :: declare_call where
  "event_target_keeps_no_success_rows = Call_Event ''SQL0058''
     ''schedule target stream keeps no success rows''
     ''Client.Scheduler(name).Status counts no successes for it; set DeliveryLogMode all on the stream to count them''
     []"

definition event_schedule_config_replaced :: declare_call where
  "event_schedule_config_replaced = Call_Event ''SQL0062''
     ''schedule config replaced''
     ''the newest declaration wins; if this is unexpected or repeats on every restart, two services declare this schedule with different configs and overwrite each other''
     [new_query ''the schedule row as stored now (schedule_config keeps no declaration trail)'' (sql_text [
        (0, ''''),
        (0, ''SELECT''),
        (1, ''name,''),
        (1, ''expression,''),
        (1, ''concurrency,''),
        (1, ''timeout_ns,''),
        (1, ''suspended''),
        (0, ''FROM {schema}.schedule_config''),
        (0, ''WHERE id = {schedule_id};'')])]"

section \<open>pkg/stream/errors.go\<close>

definition err_stream_config_mismatch :: declare_call where
  "err_stream_config_mismatch = Call_Error ''SQL0004'' Recovery_Permanent
     ''stream partition size does not match the existing stream''
     ''register with PartitionSize {existing_partition_size}, or use a new stream name''
     []"

definition err_stream_not_found :: declare_call where
  "err_stream_not_found = Call_Error ''SQL0005'' Recovery_Permanent
     ''stream not found''
     ''register it with Client.Stream(name).Register first''
     [new_query ''the stream row under this name'' (sql_text [
        (0, ''''),
        (0, (''SELECT id, name, created_at FROM {schema}.stream_config WHERE name = '' @ [CHR 0x27] @ ''{stream}'' @ [CHR 0x27] @ '';''))]),
      new_query ''the stream row behind an id, if that is what the line carried'' (sql_text [
        (0, ''''),
        (0, ''SELECT id, name, created_at FROM {schema}.stream_config WHERE id = {stream_id};'')]),
      new_query ''every registered stream, if the name itself is wrong'' (sql_text [
        (0, ''''),
        (0, ''SELECT name FROM {schema}.stream_config ORDER BY name;'')])]"

definition err_stream_not_empty :: declare_call where
  "err_stream_not_empty = Call_Error ''SQL0006'' Recovery_Permanent
     ''stream still holds messages''
     ''pass DestroyOptions.Force to destroy them with the stream''
     [new_query ''how many messages the destroy would discard'' (sql_text [
        (0, ''''),
        (0, ''SELECT count(*) AS message_count FROM {schema}.message_log_{stream_id};'')]),
      new_query ''the newest of them, to judge whether the stream is still in use'' (sql_text [
        (0, ''''),
        (0, ''SELECT''),
        (1, ''id,''),
        (1, ''routing_key,''),
        (1, ''created_at''),
        (0, ''FROM {schema}.message_log_{stream_id}''),
        (0, ''ORDER BY id DESC''),
        (0, ''LIMIT 20;'')])]"

definition err_stream_name_taken :: declare_call where
  "err_stream_name_taken = Call_Error ''SQL0007'' Recovery_Permanent
     ''stream name already taken''
     ''choose a different name''
     []"

definition err_stream_partitions_remain :: declare_call where
  "err_stream_partitions_remain = Call_Error ''SQL0020'' Recovery_Permanent
     ''stream partitions remain after draining''
     (''stop the stream'' @ [CHR 0x27] @ ''s producers and call Client.Stream(name).Destroy again'')
     [new_query ''the partitions still attached to the log'' (sql_text [
        (0, ''''),
        (0, ''SELECT partition.relname AS partition''),
        (0, ''FROM pg_inherits''),
        (0, ''JOIN pg_class AS partition ON partition.oid = pg_inherits.inhrelid''),
        (0, (''WHERE pg_inherits.inhparent = to_regclass('' @ [CHR 0x27] @ ''{schema}.message_log_{stream_id}'' @ [CHR 0x27] @ '')'')),
        (0, ''ORDER BY partition.relname;'')]),
      new_query ''whether a producer is still writing -- run it twice'' (sql_text [
        (0, ''''),
        (0, ''SELECT max(id) AS head, count(*) AS message_count FROM {schema}.message_log_{stream_id};'')])]"

definition err_stream_declaration_interrupted :: declare_call where
  "err_stream_declaration_interrupted = Call_Error ''SQL0021'' Recovery_Transient
     ''could not finish the stream declaration''
     ''run Client.Stream(name).Register again if the stream should still exist''
     []"

definition err_destroy_disabled :: declare_call where
  "err_destroy_disabled = Call_Error ''SQL0008'' Recovery_Permanent
     ''destroy is disabled''
     ''set ClientConfig.AllowDestroy''
     []"

definition err_reserved_stream_name :: declare_call where
  "err_reserved_stream_name = Call_Error ''SQL0009'' Recovery_Permanent
     ''stream name uses the reserved __system. prefix''
     ''choose a name outside the __system. prefix''
     []"

section \<open>pkg/stream/events.go\<close>

definition event_stream_config_replaced :: declare_call where
  "event_stream_config_replaced = Call_Event ''SQL0061''
     ''stream config replaced''
     ''the newest declaration wins; if this is unexpected or repeats on every restart, two services declare this stream with different configs and overwrite each other''
     [new_query ''every declaration this stream has received, newest first'' (sql_text [
        (0, ''''),
        (0, ''SELECT''),
        (1, ''name,''),
        (1, ''retention_ttl_ns,''),
        (1, ''allow_drop_past_committed,''),
        (1, ''idempotency_key_ttl_ns,''),
        (1, ''empty_compaction_head_ttl_ns,''),
        (1, ''delivery_log_mode,''),
        (1, ''declared_by,''),
        (1, ''declared_at''),
        (0, ''FROM {schema}.stream_config_log''),
        (0, ''WHERE stream_id = {stream_id}''),
        (0, ''ORDER BY id DESC''),
        (0, ''LIMIT 10;'')])]"

section \<open>pkg/system/errors.go\<close>

definition err_system_live :: declare_call where
  "err_system_live = Call_Error ''SQL0010'' Recovery_Permanent
     ''a worker instance is still live''
     ''stop running managers and consumers, or pass DestroyOptions.Force''
     []"

definition err_streams_registered :: declare_call where
  "err_streams_registered = Call_Error ''SQL0011'' Recovery_Permanent
     ''streams are still registered''
     ''destroy them first, or pass DestroyOptions.Force to destroy them and their messages''
     []"

definition err_schema_not_creatable :: declare_call where
  "err_schema_not_creatable = Call_Error ''SQL0064'' Recovery_Permanent
     ''the connecting role cannot create the schema''
     ''grant it CREATE on the database, or create schema {schema} yourself and grant the role USAGE and CREATE on it''
     []"

section \<open>pkg/system/events.go\<close>

definition event_system_manager_stopped :: declare_call where
  "event_system_manager_stopped = Call_Event ''SQL0065''
     ''system manager stopped''
     (''nothing reconciles the deployment'' @ [CHR 0x27] @ ''s workers until the loop re-claims the row after its backoff'')
     []"

section \<open>pkg/worker/errors.go\<close>

definition err_instance_lost :: declare_call where
  "err_instance_lost = Call_Error ''SQL0012'' Recovery_Permanent
     ''worker instance row expired or was removed''
     ''stop the work; a replacement may already be running''
     []"

definition err_worker_declaration_interrupted :: declare_call where
  "err_worker_declaration_interrupted = Call_Error ''SQL0024'' Recovery_Transient
     ''could not finish the worker declaration''
     ''rerun the declaration if the worker should still exist''
     []"

definition err_worker_not_found :: declare_call where
  "err_worker_not_found = Call_Error ''SQL0106'' Recovery_Permanent
     ''worker not found''
     ''register the owning resource before operating its worker''
     []"

definition err_worker_suspended :: declare_call where
  "err_worker_suspended = Call_Error ''SQL0107'' Recovery_Permanent
     ''worker is suspended''
     ''stop this execution; unsuspend the worker to allow a new claim''
     []"

section \<open>pkg/worker/events.go\<close>

definition event_instance_lost :: declare_call where
  "event_instance_lost = Call_Event ''SQL0034''
     ''worker instance lost''
     ''stopping, a replacement may already be running''
     [new_query (''the instances holding this worker'' @ [CHR 0x27] @ ''s rows now'') (sql_text [
        (0, ''''),
        (0, ''SELECT''),
        (1, ''worker_instance.id,''),
        (1, ''worker_instance.token,''),
        (1, ''worker_instance.expires_at,''),
        (1, ''worker_instance.attempts''),
        (0, ''FROM {schema}.worker_instance''),
        (0, ''JOIN {schema}.worker_config ON worker_config.id = worker_instance.worker_id''),
        (0, (''WHERE worker_config.name = '' @ [CHR 0x27] @ ''{worker}'' @ [CHR 0x27])),
        (0, ''ORDER BY worker_instance.expires_at DESC;'')])]"

definition event_manager_row_suspended :: declare_call where
  "event_manager_row_suspended = Call_Event ''SQL0035''
     ''manager row suspended''
     ''its chain goes unreconciled until target_instances is restored''
     [new_query ''every suspended worker row -- target_instances 0'' (sql_text [
        (0, ''''),
        (0, ''SELECT''),
        (1, ''id,''),
        (1, ''name,''),
        (1, ''system_id,''),
        (1, ''stream_id,''),
        (1, ''consumer_group_id''),
        (0, ''FROM {schema}.worker_config''),
        (0, ''WHERE target_instances = 0''),
        (0, ''ORDER BY name;'')])]"

definition event_tick_backoff_curve_exhausted :: declare_call where
  "event_tick_backoff_curve_exhausted = Call_Event ''SQL0036''
     ''worker tick backoff curve exhausted''
     ''ticks continue at its cap''
     [new_query (''this worker'' @ [CHR 0x27] @ ''s rows and their failure streaks'') (sql_text [
        (0, ''''),
        (0, ''SELECT''),
        (1, ''worker_config.id,''),
        (1, ''worker_config.target_instances,''),
        (1, ''worker_instance.expires_at,''),
        (1, ''worker_instance.attempts''),
        (0, ''FROM {schema}.worker_config''),
        (0, ''LEFT JOIN {schema}.worker_instance ON worker_instance.worker_id = worker_config.id''),
        (0, (''WHERE worker_config.name = '' @ [CHR 0x27] @ ''{worker}'' @ [CHR 0x27])),
        (0, ''ORDER BY worker_instance.attempts DESC;'')])]"

definition event_slow_tick :: declare_call where
  "event_slow_tick = Call_Event ''SQL0040''
     ''worker tick exceeded its poll rate''
     ''the next tick is late''
     []"

definition event_worker_config_replaced :: declare_call where
  "event_worker_config_replaced = Call_Event ''SQL0059''
     ''worker config replaced''
     ''the newest declaration wins; if this is unexpected or repeats on every restart, two services declare this worker with different configs and overwrite each other''
     [new_query ''every declaration this worker row has received, newest first'' (sql_text [
        (0, ''''),
        (0, ''SELECT''),
        (1, ''metadata,''),
        (1, ''declared_by,''),
        (1, ''declared_at''),
        (0, ''FROM {schema}.worker_config_log''),
        (0, ''WHERE worker_id = {worker_id}''),
        (0, ''ORDER BY id DESC''),
        (0, ''LIMIT 10;'')])]"

section \<open>All of them\<close>

definition catalog :: "declare_call list" where
  "catalog = [
     err_already_consuming,
     err_lifecycle_context_not_cancellable,
     err_lease_lost,
     err_stream_config_mismatch,
     err_stream_not_found,
     err_stream_not_empty,
     err_stream_name_taken,
     err_destroy_disabled,
     err_reserved_stream_name,
     err_system_live,
     err_streams_registered,
     err_instance_lost,
     err_schedule_not_found,
     err_consumer_not_found,
     err_consumer_group_live,
     err_consumer_group_deliveries_pending,
     err_not_registered,
     err_partition_lock_timeout,
     err_commit_confirmation_lost,
     err_stream_partitions_remain,
     err_stream_declaration_interrupted,
     err_schema_older_than_build,
     err_schema_newer_than_build,
     err_worker_declaration_interrupted,
     err_schedule_declaration_interrupted,
     event_lease_reclaimed,
     event_range_quarantined,
     event_messages_dead_lettered,
     event_message_dead_lettered,
     event_exception_dead_lettered,
     event_kill_backstop_fired,
     event_stored_options_clamped,
     event_partition_not_created_ahead,
     event_instance_lost,
     event_manager_row_suspended,
     event_tick_backoff_curve_exhausted,
     event_message_already_produced,
     event_slow_produce,
     event_slow_dispatch,
     event_slow_tick,
     event_consumer_stopped,
     Call_Metric metric_session_claimed,
     Call_Metric metric_session_success,
     Call_Metric metric_session_superseded,
     Call_Metric metric_session_ready,
     Call_Metric metric_session_deferred,
     Call_Metric metric_session_dead,
     Call_Metric metric_session_reclaimed,
     Call_Metric metric_session_quarantined,
     Call_Metric metric_session_abandoned,
     Call_Metric metric_session_lease_lost,
     event_go_routine_events_dropped,
     err_step_lock_timeout,
     err_delivery_delayed,
     err_delivery_terminal,
     err_partition_creation_behind,
     event_partition_created_on_insert,
     event_target_keeps_no_success_rows,
     event_worker_config_replaced,
     event_group_config_not_refreshed,
     event_stream_config_replaced,
     event_schedule_config_replaced,
     event_alert_condition_holds,
     err_schema_not_creatable,
     event_system_manager_stopped,
     err_compaction_head_not_found,
     Call_Metric metric_unclaimed_workers,
     Call_Metric metric_oldest_unclaimed_age,
     Call_Metric metric_failing_workers,
     Call_Metric metric_overdue_schedules,
     Call_Metric metric_oldest_due_age,
     Call_Metric metric_suspended_schedules,
     Call_Metric metric_active_alerts,
     Call_Metric metric_resolved_alerts,
     Call_Metric metric_check_streams_evaluated,
     Call_Metric metric_check_streams_failed,
     Call_Metric metric_check_published_alerts,
     Call_Metric metric_check_resolved_alerts,
     Call_Metric metric_stream_compacted,
     Call_Metric metric_cursor_head,
     Call_Metric metric_cursor_claimed,
     Call_Metric metric_cursor_committed,
     Call_Metric metric_cursor_backlog,
     Call_Metric metric_cursor_inflight,
     Call_Metric metric_ready_exceptions,
     Call_Metric metric_inflight_exceptions,
     Call_Metric metric_deferred_exceptions,
     Call_Metric metric_dead_exceptions,
     Call_Metric metric_oldest_unresolved_age,
     Call_Metric metric_open_leases,
     Call_Metric metric_abandoned_outstanding,
     Call_Metric metric_abandoned_total,
     Call_Metric metric_abandoned_self_clear_latency_avg,
     Call_Alert alert_partition_count,
     Call_Alert alert_compaction_read_cost,
     Call_Alert alert_worker_liveness,
     err_payload_not_encodable,
     Call_Metric metric_stream_partitions,
     Call_Metric metric_stream_unclaimed_workers,
     Call_Metric metric_collector_completed_timestamp,
     Call_Alert alert_metrics_collector_progress,
     Call_Metric metric_o_tel_source_read_success,
     Call_Metric metric_o_tel_measurements_rejected,
     event_measurements_cannot_be_exported,
     event_queued_range_stale,
     err_worker_not_found,
     err_worker_suspended,
     event_messages_not_claimed]"

end
