(* ===== verification/Diagnostic_Properties.thy ===== *)
theory Diagnostic_Properties
  imports Declaration_Catalog
begin

text \<open>
  The declarations of the library can be made in any order without a panic, what a lookup finds does
  not depend on the order of the map, a raised error stays recognisable however it is decorated, and
  texts with placeholders are filled from exactly the values they name.
\<close>

section \<open>Running the declarations\<close>

fun run_call ::
  "(coded_declaration list \<Rightarrow> coded_declaration list) \<Rightarrow> coded_declaration list \<Rightarrow> declare_call
   \<Rightarrow> coded_declaration list option" where
  "run_call walk registry (Call_Error code r problem fix_text qs) = new_diagnostic_error registry code r problem fix_text qs"
| "run_call walk registry (Call_Event code message consequence qs) = new_diagnostic_event registry code message consequence qs"
| "run_call walk registry (Call_Metric m) = new_diagnostic_metric walk registry m"
| "run_call walk registry (Call_Alert a) = new_diagnostic_alert walk registry a"

fun run_calls ::
  "(coded_declaration list \<Rightarrow> coded_declaration list) \<Rightarrow> coded_declaration list \<Rightarrow> declare_call list
   \<Rightarrow> coded_declaration list option" where
  "run_calls walk registry [] = Some registry"
| "run_calls walk registry (c # cs) =
     (case run_call walk registry c of None \<Rightarrow> None | Some registry' \<Rightarrow> run_calls walk registry' cs)"

section \<open>The registry\<close>

lemma set_metrics_of: "m \<in> set (metrics_of ds) \<longleftrightarrow> Decl_Metric m \<in> set ds"
  by (induction ds rule: metrics_of.induct) auto

lemma set_alerts_of: "a \<in> set (alerts_of ds) \<longleftrightarrow> Decl_Alert a \<in> set ds"
  by (induction ds rule: alerts_of.induct) auto

lemma metrics_of_append [simp]: "metrics_of (xs @ ys) = metrics_of xs @ metrics_of ys"
  by (induction xs rule: metrics_of.induct) auto

lemma alerts_of_append [simp]: "alerts_of (xs @ ys) = alerts_of xs @ alerts_of ys"
  by (induction xs rule: alerts_of.induct) auto

lemma metrics_of_filter: "map Decl_Metric (metrics_of ds) = filter (\<lambda>d. get_kind d = Kind_Metric) ds"
  by (induction ds rule: metrics_of.induct) auto

lemma get_metric_None:
  "(\<And>r. set (walk r) = set r) \<Longrightarrow>
   get_metric walk registry n = None \<longleftrightarrow> (\<forall>m. Decl_Metric m \<in> set registry \<longrightarrow> dm_name m \<noteq> n)"
  by (auto simp: get_metric_def find_None_iff set_metrics_of)

lemma get_alert_None:
  "(\<And>r. set (walk r) = set r) \<Longrightarrow>
   get_alert walk registry n = None \<longleftrightarrow> (\<forall>a. Decl_Alert a \<in> set registry \<longrightarrow> da_name a \<noteq> n)"
  by (auto simp: get_alert_def find_None_iff set_alerts_of)

text \<open>What a call puts into the registry.\<close>

fun entry_of :: "declare_call \<Rightarrow> coded_declaration option" where
  "entry_of (Call_Error code r problem fix_text qs) =
     map_option (\<lambda>qs. Decl_Error (Declared_Error code r problem fix_text qs [] None)) (copy_queries qs)"
| "entry_of (Call_Event code message consequence qs) =
     map_option (\<lambda>qs. Decl_Event \<lparr>dv_code = code,
       dv_message = (if consequence \<noteq> '''' then message @ '' -- '' @ consequence else message), dv_queries = qs\<rparr>)
       (copy_queries qs)"
| "entry_of (Call_Metric m) = Some (Decl_Metric m)"
| "entry_of (Call_Alert a) = Some (Decl_Alert a)"

lemma run_call_entry:
  "run_call walk registry c = Some registry' \<Longrightarrow>
     \<exists>d. entry_of c = Some d \<and> registry' = registry @ [d]
       \<and> is_sql_code (get_code d) \<and> (\<forall>x \<in> set registry. get_code x \<noteq> get_code d)
       \<and> (\<forall>m. d = Decl_Metric m \<longrightarrow> get_metric walk registry (dm_name m) = None)"
  by (cases c) (auto simp: new_diagnostic_error_def new_diagnostic_event_def new_diagnostic_metric_def
      new_diagnostic_alert_def register_code_def split: if_splits option.splits)

definition registry_ok :: "coded_declaration list \<Rightarrow> bool" where
  "registry_ok registry \<longleftrightarrow> (\<forall>d \<in> set registry. is_sql_code (get_code d))
     \<and> distinct (map get_code registry) \<and> distinct (map dm_name (metrics_of registry))"

lemma run_call_ok:
  assumes "registry_ok registry" "\<And>r. set (walk r) = set r" "run_call walk registry c = Some registry'"
  shows "registry_ok registry'"
proof -
  obtain d where d: "entry_of c = Some d" "registry' = registry @ [d]" "is_sql_code (get_code d)"
    "\<forall>x \<in> set registry. get_code x \<noteq> get_code d"
    "\<forall>m. d = Decl_Metric m \<longrightarrow> get_metric walk registry (dm_name m) = None"
    using run_call_entry [OF assms(3)] by auto
  have "\<forall>m. d = Decl_Metric m \<longrightarrow> dm_name m \<notin> dm_name ` set (metrics_of registry)"
    using d(5) by (auto simp: get_metric_None [OF assms(2)] set_metrics_of)
  then show ?thesis using assms(1) d(2-4) by (cases d) (auto simp: registry_ok_def)
qed

lemma run_calls_ok:
  "registry_ok registry \<Longrightarrow> (\<And>r. set (walk r) = set r) \<Longrightarrow> run_calls walk registry cs = Some registry'
   \<Longrightarrow> registry_ok registry'"
proof (induction cs arbitrary: registry)
  case (Cons c cs)
  then show ?case using run_call_ok [OF Cons.prems(1,2)] by (auto split: option.splits)
qed simp

lemma run_calls_length:
  "run_calls walk registry cs = Some registry' \<Longrightarrow> length registry' = length registry + length cs"
proof (induction cs arbitrary: registry)
  case (Cons c cs)
  then obtain r where "run_call walk registry c = Some r" "run_calls walk r cs = Some registry'"
    by (auto split: option.splits)
  then show ?case using run_call_entry [of walk registry c r] Cons.IH [of r] by auto
qed simp

lemma metrics_of_perm: "mset xs = mset ys \<Longrightarrow> mset (metrics_of xs) = mset (metrics_of ys)"
proof -
  assume e: "mset xs = mset ys"
  have "mset (map Decl_Metric (metrics_of xs)) = mset (map Decl_Metric (metrics_of ys))"
    unfolding metrics_of_filter using e by simp
  then have "image_mset Decl_Metric (mset (metrics_of xs)) = image_mset Decl_Metric (mset (metrics_of ys))"
    by simp
  then show "mset (metrics_of xs) = mset (metrics_of ys)"
    by (rule multiset.inj_map_strong [rotated]) simp
qed

lemma find_perm:
  assumes p: "mset xs = mset ys" and d: "distinct (map k ys)"
  shows "find (\<lambda>x. k x = n) xs = find (\<lambda>x. k x = n) ys"
proof -
  have s: "set xs = set ys" using p by (rule mset_eq_setD)
  show ?thesis
  proof (cases "find (\<lambda>x. k x = n) ys")
    case None
    then have "find (\<lambda>x. k x = n) xs = None" by (simp add: find_None_iff s)
    then show ?thesis using None by simp
  next
    case (Some x)
    then obtain y where y: "find (\<lambda>x. k x = n) xs = Some y"
      using s find_SomeD [OF Some] by (cases "find (\<lambda>x. k x = n) xs") (auto simp: find_None_iff)
    then have "y = x"
      using find_SomeD [OF y] find_SomeD [OF Some] s by (intro distinct_map_same [OF d]) auto
    then show ?thesis using y Some by simp
  qed
qed

lemma sort_key_perm:
  assumes "mset xs = mset ys" "distinct (map k ys)"
  shows "sort_key k xs = sort_key k ys"
  using assms mset_eq_setD [OF assms(1)] by (intro sort_key_inj_key_eq) (auto simp: distinct_map)

text \<open>Once the declarations of a program have been made, whichever they are, the code of each is
valid and no two share one, and what the registry answers, by the name of a metric or as a listing,
does not depend on the order in which Go happens to walk the map.\<close>

theorem lookups_ignore_map_order:
  assumes calls: "run_calls walk [] cs = Some registry" and walk: "\<And>r. set (walk r) = set r"
    and w: "\<And>r. mset (w r) = mset r" and w': "\<And>r. mset (w' r) = mset r"
  shows "(\<forall>d \<in> set registry. is_sql_code (get_code d)) \<and> distinct (map get_code registry)
    \<and> get_metric w registry n = get_metric w' registry n
    \<and> list_metrics w registry = list_metrics w' registry"
proof -
  have ok: "registry_ok registry"
    using run_calls_ok [OF _ walk calls] by (simp add: registry_ok_def)
  have m: "mset (metrics_of (w registry)) = mset (metrics_of registry)"
    "mset (metrics_of (w' registry)) = mset (metrics_of registry)"
    using w w' metrics_of_perm by blast+
  have names: "distinct (map dm_name (metrics_of registry))" using ok by (simp add: registry_ok_def)
  have codes: "distinct (map dm_code (metrics_of registry))"
  proof -
    have "distinct (map get_code (map Decl_Metric (metrics_of registry)))"
      unfolding metrics_of_filter using ok by (intro distinct_map_filter) (simp add: registry_ok_def)
    then show ?thesis by (simp add: o_def)
  qed
  show ?thesis
    using ok find_perm [OF m(1) names] find_perm [OF m(2) names] sort_key_perm [OF m(1) codes] sort_key_perm [OF m(2) codes]
    by (simp add: registry_ok_def get_metric_def list_metrics_def)
qed

definition two_gauges :: "declare_call list" where
  "two_gauges =
     [Call_Metric \<lparr>dm_code = ''SQL0903'', dm_name = ''queue'', dm_kind = ''gauge'', dm_unit = '''', dm_description = ''d'',
        dm_scope = ''stream'', dm_attributes = []\<rparr>,
      Call_Metric \<lparr>dm_code = ''SQL0902'', dm_name = ''lag'', dm_kind = ''gauge'', dm_unit = '''', dm_description = ''d'',
        dm_scope = ''system'', dm_attributes = []\<rparr>]"

theorem lookups_ignore_map_order_witness:
  "\<exists>registry. run_calls (\<lambda>r. r) [] two_gauges = Some registry
     \<and> list_metrics rev registry = list_metrics (\<lambda>r. r) registry \<and> list_metrics rev registry \<noteq> []"
proof -
  have r: "run_calls (\<lambda>r. r) [] two_gauges = Some (map (\<lambda>c. case c of Call_Metric m \<Rightarrow> Decl_Metric m) two_gauges)"
    by code_simp
  have "list_metrics rev (map (\<lambda>c. case c of Call_Metric m \<Rightarrow> Decl_Metric m) two_gauges) \<noteq> []"
    by code_simp
  then show ?thesis
    using lookups_ignore_map_order [of "\<lambda>r. r" two_gauges _ rev "\<lambda>r. r", OF r] r by auto
qed

section \<open>The declarations of the library\<close>

fun call_code :: "declare_call \<Rightarrow> string" where
  "call_code (Call_Error code r problem fix_text qs) = code"
| "call_code (Call_Event code message consequence qs) = code"
| "call_code (Call_Metric m) = dm_code m"
| "call_code (Call_Alert a) = da_code a"

text \<open>The checks of a call that do not look at the registry.\<close>

fun call_ok :: "declare_call \<Rightarrow> bool" where
  "call_ok (Call_Error code r problem fix_text qs) = (is_sql_code code \<and> problem \<noteq> '''' \<and> None \<notin> set qs)"
| "call_ok (Call_Event code message consequence qs) = (is_sql_code code \<and> message \<noteq> '''' \<and> None \<notin> set qs)"
| "call_ok (Call_Metric m) = (is_sql_code (dm_code m) \<and> dm_name m \<noteq> '''' \<and> dm_kind m \<noteq> ''''
     \<and> dm_description m \<noteq> '''' \<and> validate_scope (dm_scope m)
     \<and> '''' \<notin> set (dm_attributes m) \<and> distinct (dm_attributes m))"
| "call_ok (Call_Alert a) = (is_sql_code (da_code a) \<and> da_name a \<noteq> '''' \<and> da_description a \<noteq> ''''
     \<and> validate_scope (da_scope a) \<and> da_scope a \<noteq> scope_session \<and> da_scope a \<noteq> scope_exporter
     \<and> da_severity a \<noteq> '''')"

text \<open>The name a declaration is found by: metrics and alerts have one each.\<close>

fun call_name :: "declare_call \<Rightarrow> (bool \<times> string) option" where
  "call_name (Call_Error code r problem fix_text qs) = None"
| "call_name (Call_Event code message consequence qs) = None"
| "call_name (Call_Metric m) = Some (True, dm_name m)"
| "call_name (Call_Alert a) = Some (False, da_name a)"

fun entry_name :: "coded_declaration \<Rightarrow> (bool \<times> string) option" where
  "entry_name (Decl_Error e) = None"
| "entry_name (Decl_Event e) = None"
| "entry_name (Decl_Metric m) = Some (True, dm_name m)"
| "entry_name (Decl_Alert a) = Some (False, da_name a)"

lemma run_call_succeeds:
  assumes walk: "\<And>r. set (walk r) = set r" and ok: "call_ok c"
    and code: "call_code c \<notin> get_code ` set registry"
    and name: "call_name c \<noteq> None \<Longrightarrow> call_name c \<notin> entry_name ` set registry"
  obtains d where "run_call walk registry c = Some (registry @ [d])" "get_code d = call_code c"
    "entry_name d = call_name c"
proof -
  have free: "\<not> (\<exists>x \<in> set registry. get_code x = call_code c)" using code by force
  show ?thesis
  proof (cases c)
    case (Call_Metric m)
    have "get_metric walk registry (dm_name m) = None"
      unfolding get_metric_None [OF walk] using name Call_Metric by force
    then show ?thesis
      using that [of "Decl_Metric m"] ok free Call_Metric
      by (auto simp: new_diagnostic_metric_def register_code_def image_iff)
  next
    case (Call_Alert a)
    have "get_alert walk registry (da_name a) = None"
      unfolding get_alert_None [OF walk] using name Call_Alert by force
    then show ?thesis
      using that [of "Decl_Alert a"] ok free Call_Alert
      by (auto simp: new_diagnostic_alert_def register_code_def image_iff)
  next
    case (Call_Event code' message consequence qs)
    then show ?thesis
      using that [of "Decl_Event \<lparr>dv_code = code', dv_message = (if consequence \<noteq> '''' then message @ '' -- '' @ consequence
          else message), dv_queries = map the qs\<rparr>"] ok free
      by (auto simp: new_diagnostic_event_def register_code_def copy_queries_def image_iff)
  next
    case (Call_Error code' r problem fix_text qs)
    then show ?thesis
      using that [of "Decl_Error (Declared_Error code' r problem fix_text (map the qs) [] None)"] ok free
      by (auto simp: new_diagnostic_error_def register_code_def copy_queries_def image_iff)
  qed
qed

lemma run_calls_succeed:
  assumes walk: "\<And>r. set (walk r) = set r"
  shows "\<forall>c \<in> set cs. call_ok c \<Longrightarrow> distinct (map call_code cs)
    \<Longrightarrow> distinct (List.map_filter call_name cs)
    \<Longrightarrow> \<forall>c \<in> set cs. call_code c \<notin> get_code ` set registry
    \<Longrightarrow> \<forall>c \<in> set cs. call_name c \<noteq> None \<longrightarrow> call_name c \<notin> entry_name ` set registry
    \<Longrightarrow> run_calls walk registry cs \<noteq> None"
proof (induction cs arbitrary: registry)
  case (Cons c cs)
  obtain d where d: "run_call walk registry c = Some (registry @ [d])" "get_code d = call_code c"
    "entry_name d = call_name c"
    by (rule run_call_succeeds [OF walk, of c registry]) (use Cons.prems in auto)
  have n: "call_name x \<noteq> call_name c" if "x \<in> set cs" "call_name x \<noteq> None" for x
  proof (cases "call_name c")
    case (Some v)
    have "v \<notin> set (List.map_filter call_name cs)"
      using Cons.prems(3) Some by (simp add: List.map_filter_simps)
    then show ?thesis using that Some by (force simp: List.map_filter_def image_iff)
  qed (use that in simp)
  have "run_calls walk (registry @ [d]) cs \<noteq> None"
  proof (rule Cons.IH)
    show "distinct (List.map_filter call_name cs)"
      using Cons.prems(3) by (auto simp: List.map_filter_def split: if_splits)
  qed (use Cons.prems d(2,3) n in \<open>auto simp: image_iff\<close>)
  then show ?case using d(1) by simp
qed simp

section \<open>The catalogue is well formed\<close>

lemma trim_space_nonempty: "c \<in> set s \<Longrightarrow> \<not> is_space c \<Longrightarrow> trim_space s \<noteq> ''''"
proof -
  assume c: "c \<in> set s" "\<not> is_space c"
  then have "c \<in> set (dropWhile is_space s)"
    by (metis UnE set_append set_takeWhileD takeWhile_dropWhile_id)
  then have "\<not> (\<forall>x \<in> set (rev (dropWhile is_space s)). is_space x)" using c by auto
  then show "trim_space s \<noteq> ''''" by (simp add: trim_space_def)
qed

lemma sql_text_chars: "(d, l) \<in> set ls \<Longrightarrow> set l \<subseteq> set (sql_text ls)"
  by (induction ls rule: sql_text.induct) auto

lemma new_query_accepted:
  "label \<noteq> '''' \<Longrightarrow> \<not> is_space c \<Longrightarrow> new_query label (sql_text ((d, c # l) # ls)) \<noteq> None"
  "label \<noteq> '''' \<Longrightarrow> \<not> is_space c \<Longrightarrow> new_query label (sql_text ((d, '''') # (d', c # l) # ls)) \<noteq> None"
  using sql_text_chars [of d "c # l" "(d, c # l) # ls"]
    sql_text_chars [of d' "c # l" "(d, '''') # (d', c # l) # ls"] trim_space_nonempty [of c]
  by (auto simp: new_query_def simp del: sql_text.simps)

lemmas catalog_defs =
    alert_partition_count_def alert_compaction_read_cost_def alert_worker_liveness_def
    alert_metrics_collector_progress_def event_alert_condition_holds_def err_already_consuming_def
    err_lifecycle_context_not_cancellable_def err_lease_lost_def err_commit_confirmation_lost_def
    err_payload_not_encodable_def err_compaction_head_not_found_def err_consumer_not_found_def
    err_consumer_group_live_def err_consumer_group_deliveries_pending_def err_delivery_terminal_def
    err_delivery_delayed_def event_lease_reclaimed_def event_range_quarantined_def
    event_messages_dead_lettered_def event_message_dead_lettered_def event_exception_dead_lettered_def
    event_kill_backstop_fired_def event_stored_options_clamped_def event_slow_dispatch_def
    event_group_config_not_refreshed_def event_consumer_stopped_def event_queued_range_stale_def
    event_messages_not_claimed_def metric_active_alerts_def metric_resolved_alerts_def
    metric_check_streams_evaluated_def metric_check_streams_failed_def
    metric_check_published_alerts_def metric_check_resolved_alerts_def
    metric_collector_completed_timestamp_def metric_cursor_head_def metric_cursor_claimed_def
    metric_cursor_committed_def metric_cursor_backlog_def metric_cursor_inflight_def
    metric_ready_exceptions_def metric_inflight_exceptions_def metric_deferred_exceptions_def
    metric_dead_exceptions_def metric_oldest_unresolved_age_def metric_open_leases_def
    metric_abandoned_outstanding_def metric_abandoned_total_def
    metric_abandoned_self_clear_latency_avg_def metric_session_claimed_def metric_session_success_def
    metric_session_superseded_def metric_session_ready_def metric_session_deferred_def
    metric_session_dead_def metric_session_reclaimed_def metric_session_quarantined_def
    metric_session_abandoned_def metric_session_lease_lost_def
    event_measurements_cannot_be_exported_def event_go_routine_events_dropped_def
    metric_o_tel_source_read_success_def metric_o_tel_measurements_rejected_def
    metric_overdue_schedules_def metric_oldest_due_age_def metric_suspended_schedules_def
    metric_stream_unclaimed_workers_def metric_stream_partitions_def metric_stream_compacted_def
    metric_unclaimed_workers_def metric_oldest_unclaimed_age_def metric_failing_workers_def
    err_not_registered_def err_schema_older_than_build_def err_schema_newer_than_build_def
    err_step_lock_timeout_def err_partition_lock_timeout_def err_partition_creation_behind_def
    event_partition_not_created_ahead_def event_partition_created_on_insert_def event_slow_produce_def
    err_schedule_not_found_def err_schedule_declaration_interrupted_def
    event_message_already_produced_def event_target_keeps_no_success_rows_def
    event_schedule_config_replaced_def err_stream_config_mismatch_def err_stream_not_found_def
    err_stream_not_empty_def err_stream_name_taken_def err_stream_partitions_remain_def
    err_stream_declaration_interrupted_def err_destroy_disabled_def err_reserved_stream_name_def
    event_stream_config_replaced_def err_system_live_def err_streams_registered_def
    err_schema_not_creatable_def event_system_manager_stopped_def err_instance_lost_def
    err_worker_declaration_interrupted_def err_worker_not_found_def err_worker_suspended_def
    event_instance_lost_def event_manager_row_suspended_def event_tick_backoff_curve_exhausted_def
    event_slow_tick_def event_worker_config_replaced_def

lemmas catalog_checks = catalog_defs new_query_accepted new_query_accepted [symmetric] is_space_def is_sql_code_def
  is_digit_char_def validate_scope_def scope_system_def scope_stream_def scope_group_def scope_session_def
  scope_exporter_def

lemma catalog_ok: "list_all call_ok catalog"
  by (simp add: catalog_def catalog_checks del: sql_text.simps)

lemma catalog_codes_distinct: "distinct (map call_code catalog)"
proof -
  have "successively (<) (map call_code catalog)" by code_simp
  then have "sorted_wrt (<) (map call_code catalog)"
    by (subst (asm) successively_iff_sorted_wrt_strong) auto
  then show ?thesis by (simp add: strict_sorted_iff)
qed

lemma catalog_names_distinct: "distinct (List.map_filter call_name catalog)"
  by code_simp

lemma map_filter_perm: "mset xs = mset ys \<Longrightarrow> mset (List.map_filter f xs) = mset (List.map_filter f ys)"
  by (metis List.map_filter_def mset_filter mset_map)

text \<open>A program that links the library starts: in whatever order Go initialises the packages, and in
whatever order it walks the registry while it looks for a name twice, every one of the declarations of
the library is accepted. No two share a code, no two metrics or alerts share a name, and no query,
scope or label is empty or unknown.\<close>

theorem library_declarations_never_panic:
  assumes order: "mset calls = mset catalog" and walk: "\<forall>r. set (walk r) = set r"
  shows "\<exists>registry. run_calls walk [] calls = Some registry \<and> length registry = length catalog"
proof -
  have "run_calls walk [] calls \<noteq> None"
  proof (rule run_calls_succeed)
    show "\<forall>c \<in> set calls. call_ok c"
      using catalog_ok mset_eq_setD [OF order] by (simp add: list_all_iff)
    show "distinct (map call_code calls)"
      using catalog_codes_distinct mset_eq_imp_distinct_iff [of "map call_code calls" "map call_code catalog"] order
      by simp
    show "distinct (List.map_filter call_name calls)"
      using catalog_names_distinct mset_eq_imp_distinct_iff [OF map_filter_perm [OF order, of call_name]] by blast
  qed (use walk in auto)
  then obtain registry where "run_calls walk [] calls = Some registry" by auto
  then show ?thesis using run_calls_length [of walk "[]" calls registry] mset_eq_length [OF order] by simp
qed

theorem library_declarations_never_panic_witness:
  "\<exists>registry. run_calls rev [] (rev catalog) = Some registry \<and> length registry = length catalog"
  by (rule library_declarations_never_panic) simp_all

section \<open>Raised errors\<close>

text \<open>What is done to a declared error on its way up: values are attached, and a cause is put inside the
copy.\<close>

datatype raise_step = Step_With "logged_value list" | Step_Wrap "raised_error option"

fun after_step :: "raise_step \<Rightarrow> declared_error \<Rightarrow> declared_error" where
  "after_step (Step_With pairs) e = with_values pairs e"
| "after_step (Step_Wrap cause) e = wrap_cause cause e"

definition raise_copy :: "raise_step list \<Rightarrow> declared_error \<Rightarrow> declared_error" where
  "raise_copy steps d = fold after_step steps d"

fun wrapped_by :: "raise_step \<Rightarrow> raised_error option \<Rightarrow> raised_error option" where
  "wrapped_by (Step_With pairs) w = w"
| "wrapped_by (Step_Wrap cause) w = cause"

fun attached_by :: "raise_step \<Rightarrow> (string \<times> logged_value) list" where
  "attached_by (Step_With pairs) = to_attributes pairs"
| "attached_by (Step_Wrap cause) = []"

lemma with_values_same [simp]:
  "dx_code (with_values ps e) = dx_code e" "dx_recovery (with_values ps e) = dx_recovery e"
  "dx_wrapped (with_values ps e) = dx_wrapped e" "dx_values (with_values ps e) = dx_values e @ to_attributes ps"
  by (cases e; simp)+

lemma wrap_cause_same [simp]:
  "dx_code (wrap_cause w e) = dx_code e" "dx_recovery (wrap_cause w e) = dx_recovery e"
  "dx_values (wrap_cause w e) = dx_values e" "dx_wrapped (wrap_cause w e) = w"
  by (cases e; simp)+

lemma after_step_parts [simp]:
  "dx_code (after_step s e) = dx_code e" "dx_recovery (after_step s e) = dx_recovery e"
  "dx_values (after_step s e) = dx_values e @ attached_by s" "dx_wrapped (after_step s e) = wrapped_by s (dx_wrapped e)"
  by (cases s; simp)+

lemma raise_copy_parts:
  "dx_code (raise_copy steps e) = dx_code e" "dx_recovery (raise_copy steps e) = dx_recovery e"
  "dx_values (raise_copy steps e) = dx_values e @ concat (map attached_by steps)"
  "dx_wrapped (raise_copy steps e) = fold wrapped_by steps (dx_wrapped e)"
  unfolding raise_copy_def by (induction steps arbitrary: e) simp_all

lemma chain_is_raised:
  "chain_is (Raised e) target \<longleftrightarrow>
     dx_code target = dx_code e \<or> (case dx_wrapped e of None \<Rightarrow> False | Some w \<Rightarrow> chain_is w target)"
  by (cases e) (simp add: error_is_def)

lemma run_calls_declare:
  "run_calls walk registry cs = Some registry' \<Longrightarrow> Decl_Error d \<in> set registry' \<Longrightarrow>
     Decl_Error d \<in> set registry \<or> dx_wrapped d = None \<and> dx_values d = []"
proof (induction cs arbitrary: registry)
  case (Cons c cs)
  then obtain r where r: "run_call walk registry c = Some r" "run_calls walk r cs = Some registry'"
    by (auto split: option.splits)
  obtain x where "entry_of c = Some x" "r = registry @ [x]" using run_call_entry [OF r(1)] by auto
  moreover from this have "dx_wrapped d = None \<and> dx_values d = []" if "x = Decl_Error d"
    using that by (cases c) auto
  ultimately show ?case using Cons.IH [OF r(2) Cons.prems(2)] by auto
qed simp

text \<open>C27: Every copy of a declared error that \<open>With\<close> and \<open>Wrap\<close> produce is recognised by \<open>errors.Is\<close> as
its own declaration and, but for what is recognised in the cause it was last wrapped around, as no other
declaration of the program. It keeps the declaration's recovery, and it carries exactly the values that
were attached, in their order.\<close>

theorem raised_errors_stay_recognisable:
  assumes calls: "run_calls walk [] cs = Some registry" and walk: "\<forall>r. set (walk r) = set r"
    and d: "Decl_Error d \<in> set registry" "Decl_Error d' \<in> set registry"
  shows "(chain_is (Raised (raise_copy steps d)) d' \<longleftrightarrow>
      d' = d \<or> (\<exists>cause. fold wrapped_by steps None = Some cause \<and> chain_is cause d'))
    \<and> dx_recovery (raise_copy steps d) = dx_recovery d
    \<and> dx_values (raise_copy steps d) = concat (map attached_by steps)"
proof -
  have "registry_ok registry"
    using run_calls_ok [OF _ _ calls] walk by (simp add: registry_ok_def)
  then have "inj_on get_code (set registry)" by (simp add: registry_ok_def distinct_map)
  then have "dx_code d' = dx_code d \<longleftrightarrow> d' = d"
    using d by (auto dest: inj_onD [of get_code _ "Decl_Error d'" "Decl_Error d"])
  moreover have "dx_wrapped d = None" "dx_values d = []" using run_calls_declare [OF calls d(1)] by simp_all
  ultimately show ?thesis by (auto simp: chain_is_raised raise_copy_parts split: option.splits)
qed

definition lost_lease :: declared_error where
  "lost_lease = Declared_Error ''SQL0902'' Recovery_Permanent ''lease lost'' '''' [] [] None"

definition lost_link :: declared_error where
  "lost_link = Declared_Error ''SQL0903'' Recovery_Transient ''link lost'' '''' [] [] None"

theorem raised_errors_stay_recognisable_witness:
  "chain_is (Raised (raise_copy [Step_With [Logged_String ''group'', Logged_String ''g''],
      Step_Wrap (Some (Raised (with_values [Logged_String ''host''] lost_link)))] lost_lease)) lost_link
   \<and> \<not> chain_is (Raised (raise_copy [Step_With [Logged_String ''group'', Logged_String ''g'']] lost_lease)) lost_link"
proof -
  have calls: "run_calls id [] [Call_Error ''SQL0902'' Recovery_Permanent ''lease lost'' '''' [],
      Call_Error ''SQL0903'' Recovery_Transient ''link lost'' '''' []] = Some [Decl_Error lost_lease, Decl_Error lost_link]"
    by code_simp
  have other: "lost_link \<noteq> lost_lease" by (simp add: lost_link_def lost_lease_def)
  note raised_errors_stay_recognisable [OF calls, of lost_lease lost_link]
  from this [of "[Step_With [Logged_String ''group'', Logged_String ''g''],
      Step_Wrap (Some (Raised (with_values [Logged_String ''host''] lost_link)))]"]
    this [of "[Step_With [Logged_String ''group'', Logged_String ''g'']]"]
  show ?thesis using other by (simp add: chain_is_raised)
qed

section \<open>Placeholders\<close>

lemma match_placeholder_text:
  "match_placeholder s = Some (n, rest) \<Longrightarrow> s = ''{'' @ n @ ''}'' @ rest"
proof -
  assume m: "match_placeholder s = Some (n, rest)"
  obtain b t where s: "s = b # t" using m by (cases s) (auto simp: match_placeholder_def)
  have "n = takeWhile is_name_char t" "b = CHR ''{''" "dropWhile is_name_char t = CHR ''}'' # rest"
    using m s by (auto simp: match_placeholder_def Let_def neq_Nil_conv split: if_splits)
  then show ?thesis using s takeWhile_dropWhile_id [of is_name_char t] by simp
qed

lemma fill_nothing: "concat (map (fill_piece []) (pieces s)) = s"
proof (induction s rule: pieces.induct)
  case (2 c s)
  then show ?case
    using match_placeholder_text [of "c # s"] by (auto split: option.splits)
qed simp

lemma placeholder_names_set: "n \<in> set (placeholder_names s) \<longleftrightarrow> Placeholder n \<in> set (pieces s)"
proof -
  have "set (fold (\<lambda>p names. case p of Literal c \<Rightarrow> names
             | Placeholder n \<Rightarrow> if n \<in> set names then names else names @ [n]) ps ns)
      = set ns \<union> {n. Placeholder n \<in> set ps}" for ps ns
    by (induction ps arbitrary: ns) (auto split: piece.splits)
  then show ?thesis by (auto simp: placeholder_names_def)
qed

lemma fill_piece_append:
  "(\<And>n. p = Placeholder n \<Longrightarrow> n \<in> fst ` set values) \<Longrightarrow> fill_piece (values @ more_values) p = fill_piece values p"
proof (cases p)
  case (Placeholder n)
  assume "\<And>n. p = Placeholder n \<Longrightarrow> n \<in> fst ` set values"
  then have "n \<in> fst ` set values" using Placeholder by simp
  then have "find (\<lambda>a. fst a = n) (values @ more_values) = find (\<lambda>a. fst a = n) values"
    by (induction "values") auto
  then show ?thesis using Placeholder by simp
qed simp

text \<open>The remedy of a raised error is filled as its author sees it: a placeholder whose value was not
attached is left as it was written, so nothing is lost when none is attached; and once every name of the
text has a value, attaching more, under the same or other names, does not change it.\<close>

theorem first_attached_value_is_shown:
  assumes "set (placeholder_names fix_text) \<subseteq> fst ` set (dx_values e)"
  shows "fill_placeholders fix_text (dx_values (with_values pairs e)) = fill_placeholders fix_text (dx_values e)
    \<and> fill_placeholders fix_text [] = fix_text"
proof -
  have "map (fill_piece (dx_values e @ to_attributes pairs)) (pieces fix_text)
      = map (fill_piece (dx_values e)) (pieces fix_text)"
    using assms placeholder_names_set by (intro map_cong refl fill_piece_append) blast
  then have "fill_placeholders fix_text (dx_values (with_values pairs e)) = fill_placeholders fix_text (dx_values e)"
    unfolding fill_placeholders_def with_values_same by (rule arg_cong)
  then show ?thesis by (simp add: fill_placeholders_def fill_nothing)
qed

theorem first_attached_value_is_shown_witness:
  "fill_placeholders ''on {stream}'' [(''stream'', Logged_String ''a''), (''stream'', Logged_String ''b'')] = ''on a''"
proof -
  have p: "pieces ''on {stream}'' = [Literal (CHR ''o''), Literal (CHR ''n''), Literal (CHR '' ''), Placeholder ''stream'']"
    by code_simp
  then show ?thesis
    using first_attached_value_is_shown [of "''on {stream}''"
        "Declared_Error ''SQL0001'' Recovery_Permanent ''p'' ''on {stream}'' [] [(''stream'', Logged_String ''a'')] None"
        "[Logged_String ''stream'', Logged_String ''b'']"]
    by (simp add: fill_placeholders_def placeholder_names_def)
qed

end
