(* ===== verification/Measurements.thy ===== *)
theory Measurements
  imports Stream_Registry Compaction Declaration_Catalog Cron_Fields "HOL-Library.Log_Nat"
begin

text \<open>
  Measurements: \<open>pkg/metric/measurement.go\<close>, \<open>definition.go\<close>, \<open>measurement_metadata.go\<close>,
  \<open>routing.go\<close> and the reads of \<open>pkg/metric/controller/measurement.go\<close>. A value is an IEEE double: a
  rational rounded to 53 bits, an infinity or not a number. An attribute map is the list of its
  entries in the order in which Go happens to walk it. Documents are JSON values; what is stored in
  the log is their text, and \<open>decode\<close> is the unmarshaller of the message type.
\<close>

section \<open>Numbers\<close>

definition round_half_even :: "rat \<Rightarrow> int" where
  "round_half_even x =
     (let f = \<lfloor>x\<rfloor>; d = x - of_int f in
      if d < 1 / 2 \<or> d = 1 / 2 \<and> even f then f else f + 1)"

definition scale2 :: "int \<Rightarrow> rat" where
  "scale2 e = (if 0 \<le> e then 2 ^ nat e else 1 / 2 ^ nat (- e))"

text \<open>The binary exponent of a number: \<open>2 ^ e \<le> \<bar>x\<bar> < 2 ^ (e + 1)\<close>.\<close>

definition exponent_of :: "rat \<Rightarrow> int" where
  "exponent_of x =
     (let (a, b) = quotient_of \<bar>x\<bar>; e = bitlen a - bitlen b in
      if scale2 e \<le> \<bar>x\<bar> then e else e - 1)"

definition round_double :: "rat \<Rightarrow> rat" where
  "round_double x =
     (if x = 0 then 0
      else (let u = scale2 (exponent_of x - 52) in of_int (round_half_even (x / u)) * u))"

datatype float64 = Finite rat | Infinite bool | Not_A_Number

definition float_of_int :: "int \<Rightarrow> float64" where
  "float_of_int n = Finite (round_double (of_int n))"

text \<open>The conversion of seconds to a duration: \<open>time.Duration(secs * float64(time.Second))\<close>.\<close>

definition seconds_duration :: "rat \<Rightarrow> duration" where
  "seconds_duration secs = truncate_rat (round_double (secs * 1000000000))"

definition min_int64 :: int where "min_int64 = - 9223372036854775808"

text \<open>\<open>Time.Sub\<close> saturates.\<close>

definition time_sub :: "time \<Rightarrow> time \<Rightarrow> duration" where
  "time_sub a b = max min_int64 (min max_int64 (a - b))"

definition zero_time :: time where "zero_time = - 62135596800 * 1000000000"

definition show_int :: "int \<Rightarrow> string" where
  "show_int n = (if n < 0 then ''-'' @ show_nat (nat (- n)) else show_nat (nat n))"

section \<open>JSON documents\<close>

text \<open>A number keeps the form of its literal: only one without fraction and exponent is an integer.\<close>

datatype json =
    Json_Null
  | Json_Bool bool
  | Json_Int int
  | Json_Number string
  | Json_String string
  | Json_Array "json list"
  | Json_Object "(string \<times> json) list"

definition lower_char :: "char \<Rightarrow> char" where
  "lower_char c = (if CHR ''A'' \<le> c \<and> c \<le> CHR ''Z'' then char_of (of_char c + 32 :: nat) else c)"

text \<open>Field names are matched up to case; the Kelvin sign folds to k and the long s to s.\<close>

fun fold_name :: "string \<Rightarrow> string" where
  "fold_name [] = []"
| "fold_name (c # s) =
     (if c = CHR 0xC5 \<and> take 1 s = [CHR 0xBF] then CHR ''s'' # fold_name (drop 1 s)
      else if c = CHR 0xE2 \<and> take 2 s = [CHR 0x84, CHR 0xAA] then CHR ''k'' # fold_name (drop 2 s)
      else lower_char c # fold_name s)"

text \<open>Decoding an object walks its members in order, and a later member overwrites an earlier one.
\<open>None\<close> is the error of the decoder; null leaves a field as it is.\<close>

fun decode_members :: "(string \<Rightarrow> json \<Rightarrow> 'a \<Rightarrow> 'a option) \<Rightarrow> (string \<times> json) list \<Rightarrow> 'a \<Rightarrow> 'a option" where
  "decode_members field [] x = Some x"
| "decode_members field ((n, v) # ms) x =
     (case field (fold_name n) v x of None \<Rightarrow> None | Some x' \<Rightarrow> decode_members field ms x')"

definition decode_object :: "(string \<Rightarrow> json \<Rightarrow> 'a \<Rightarrow> 'a option) \<Rightarrow> 'a \<Rightarrow> json \<Rightarrow> 'a option" where
  "decode_object field x j =
     (case j of
        Json_Object ms \<Rightarrow> decode_members field ms x
      | Json_Null \<Rightarrow> Some x
      | _ \<Rightarrow> None)"

definition decode_string :: "json \<Rightarrow> (string \<Rightarrow> 'a) \<Rightarrow> 'a \<Rightarrow> 'a option" where
  "decode_string j set' x = (case j of Json_String s \<Rightarrow> Some (set' s) | Json_Null \<Rightarrow> Some x | _ \<Rightarrow> None)"

definition decode_int64 :: "json \<Rightarrow> (int \<Rightarrow> 'a) \<Rightarrow> 'a \<Rightarrow> 'a option" where
  "decode_int64 j set' x =
     (case j of
        Json_Int i \<Rightarrow> if min_int64 \<le> i \<and> i \<le> max_int64 then Some (set' i) else None
      | Json_Null \<Rightarrow> Some x
      | _ \<Rightarrow> None)"

section \<open>Kinds and units\<close>

definition kind_gauge :: string where "kind_gauge = ''gauge''"
definition kind_counter :: string where "kind_counter = ''counter''"

datatype unit_error = Unit_Space | Unit_Nested | Unit_Unopened | Unit_Unclosed | Unit_Empty

datatype measurement_error =
    Name_Required
  | Bad_Kind string
  | Bad_Unit unit_error
  | Time_Required
  | Bad_Attributes "string list" "string list"
  | Worker_Name_Required

definition validate_kind :: "string \<Rightarrow> measurement_error option" where
  "validate_kind k = (if k = kind_gauge \<or> k = kind_counter then None else Some (Bad_Kind k))"

definition unit_count :: "string \<Rightarrow> string" where
  "unit_count noun = ''{'' @ noun @ ''}''"

text \<open>The UTF-8 texts of white space: \<open>unicode.IsSpace\<close>.\<close>

definition space_encodings :: "string list" where
  "space_encodings =
     [[CHR 0x09], [CHR 0x0A], [CHR 0x0B], [CHR 0x0C], [CHR 0x0D], '' '', [CHR 0xC2, CHR 0x85], [CHR 0xC2, CHR 0xA0],
      [CHR 0xE1, CHR 0x9A, CHR 0x80]]
     @ map (\<lambda>n. [CHR 0xE2, CHR 0x80, char_of n]) ([0x80 ..< 0x8B] @ [0xA8, 0xA9, 0xAF])
     @ [[CHR 0xE2, CHR 0x81, CHR 0x9F], [CHR 0xE3, CHR 0x80, CHR 0x80]]"

definition starts_space :: "string \<Rightarrow> bool" where
  "starts_space s \<longleftrightarrow> list_ex (\<lambda>p. take (length p) s = p) space_encodings"

fun scan_unit :: "bool \<Rightarrow> string \<Rightarrow> unit_error option" where
  "scan_unit inside [] = (if inside then Some Unit_Unclosed else None)"
| "scan_unit inside (c # s) =
     (if starts_space (c # s) then Some Unit_Space
      else if c = CHR ''{'' then (if inside then Some Unit_Nested else scan_unit True s)
      else if c = CHR ''}'' then (if inside then scan_unit False s else Some Unit_Unopened)
      else scan_unit inside s)"

fun contains_empty_braces :: "string \<Rightarrow> bool" where
  "contains_empty_braces [] = False"
| "contains_empty_braces (c # s) \<longleftrightarrow> (c = CHR ''{'' \<and> take 1 s = ''}'') \<or> contains_empty_braces s"

definition validate_unit :: "string \<Rightarrow> unit_error option" where
  "validate_unit u =
     (case scan_unit False u of
        Some e \<Rightarrow> Some e
      | None \<Rightarrow> if contains_empty_braces u then Some Unit_Empty else None)"

section \<open>Measurements\<close>

type_synonym attributes = "(string \<times> string) list"

record measurement =
  me_name :: string
  me_kind :: string
  me_value :: float64
  me_unit :: string
  me_attributes :: attributes
  me_at :: time
  me_metadata :: "json option"

definition new_measurement ::
  "string \<Rightarrow> string \<Rightarrow> float64 \<Rightarrow> string \<Rightarrow> attributes \<Rightarrow> time \<Rightarrow> measurement_error + measurement" where
  "new_measurement name kind v unit' as t =
     (if name = '''' then Inl Name_Required
      else (case validate_kind kind of
          Some e \<Rightarrow> Inl e
        | None \<Rightarrow> (case validate_unit unit' of
            Some e \<Rightarrow> Inl (Bad_Unit e)
          | None \<Rightarrow>
              if t = zero_time then Inl Time_Required
              else Inr \<lparr>me_name = name, me_kind = kind, me_value = v, me_unit = unit', me_attributes = as,
                        me_at = t, me_metadata = None\<rparr>)))"

definition new_built_in_measurement ::
  "diagnostic_metric \<Rightarrow> float64 \<Rightarrow> attributes \<Rightarrow> time \<Rightarrow> measurement_error + measurement" where
  "new_built_in_measurement declared v as t =
     (if length as = length (dm_attributes declared) \<and> (\<forall>k \<in> set (dm_attributes declared). k \<in> fst ` set as)
      then new_measurement (dm_name declared) (dm_kind declared) v (dm_unit declared) as t
      else Inl (Bad_Attributes (dm_attributes declared) (sort (map fst as))))"

definition lookup_attribute :: "attributes \<Rightarrow> string \<Rightarrow> string" where
  "lookup_attribute as k = (case map_of as k of None \<Rightarrow> '''' | Some v \<Rightarrow> v)"

fun join_attributes :: "attributes \<Rightarrow> nat \<Rightarrow> string list \<Rightarrow> string" where
  "join_attributes as i [] = ''''"
| "join_attributes as i (k # ks) =
     (if i = 0 then ''|'' else '','') @ k @ ''='' @ lookup_attribute as k @ join_attributes as (Suc i) ks"

definition measurement_key :: "string \<Rightarrow> attributes \<Rightarrow> string" where
  "measurement_key name as =
     (if as = [] then name else name @ join_attributes as 0 (sort (map fst as)))"

definition abandoned_routine_key :: "int \<Rightarrow> string \<Rightarrow> string" where
  "abandoned_routine_key stream group' = ''abandoned_routine.'' @ show_int stream @ ''.'' @ group'"

section \<open>Definitions\<close>

definition metric_definitions ::
  "(coded_declaration list \<Rightarrow> coded_declaration list) \<Rightarrow> coded_declaration list \<Rightarrow> string list
   \<Rightarrow> diagnostic_metric list" where
  "metric_definitions walk registry scopes =
     filter (\<lambda>m. scopes = [] \<or> dm_scope m \<in> set scopes) (list_metrics walk registry)"

definition alert_definitions ::
  "(coded_declaration list \<Rightarrow> coded_declaration list) \<Rightarrow> coded_declaration list \<Rightarrow> string list
   \<Rightarrow> diagnostic_alert list" where
  "alert_definitions walk registry scopes =
     filter (\<lambda>a. scopes = [] \<or> da_scope a \<in> set scopes) (list_alerts walk registry)"

section \<open>Metadata of a measurement\<close>

definition partition_metadata :: "bool \<Rightarrow> string" where
  "partition_metadata compacted = (if compacted then ''compacted'' else ''uncompacted'')"

definition encode_partition_metadata :: "string \<Rightarrow> json" where
  "encode_partition_metadata status = Json_Object [(''compaction_status'', Json_String status)]"

definition decode_partition_metadata :: "json \<Rightarrow> string option" where
  "decode_partition_metadata =
     decode_object (\<lambda>n v s. if n = ''compaction_status'' then decode_string v (\<lambda>s. s) s else Some s) ''''"

record unclaimed_worker =
  uw_name :: string
  uw_owner :: "owner option"
  uw_target :: int

definition new_unclaimed_worker :: "string \<Rightarrow> owner \<Rightarrow> int \<Rightarrow> measurement_error + unclaimed_worker" where
  "new_unclaimed_worker name ow target =
     (if name = '''' then Inl Worker_Name_Required
      else Inr \<lparr>uw_name = name, uw_owner = Some ow, uw_target = target\<rparr>)"

definition encode_owner :: "owner option \<Rightarrow> json" where
  "encode_owner ow =
     (case ow of
        None \<Rightarrow> Json_Null
      | Some o' \<Rightarrow> Json_Object [(''system_id'', Json_Int (ow_system o')), (''stream_id'', Json_Int (ow_stream o')),
          (''group_id'', Json_Int (ow_group o')), (''owner'', Json_String (ow_name o'))])"

definition owner_field :: "string \<Rightarrow> json \<Rightarrow> owner \<Rightarrow> owner option" where
  "owner_field n v ow =
     (if n = ''system_id'' then decode_int64 v (\<lambda>i. ow\<lparr>ow_system := i\<rparr>) ow
      else if n = ''stream_id'' then decode_int64 v (\<lambda>i. ow\<lparr>ow_stream := i\<rparr>) ow
      else if n = ''group_id'' then decode_int64 v (\<lambda>i. ow\<lparr>ow_group := i\<rparr>) ow
      else if n = ''owner'' then decode_string v (\<lambda>s. ow\<lparr>ow_name := s\<rparr>) ow
      else Some ow)"

text \<open>A pointer field: null clears it, an object is decoded into what it already points to.\<close>

definition decode_pointer :: "(json \<Rightarrow> 'a \<Rightarrow> 'a option) \<Rightarrow> 'a \<Rightarrow> json \<Rightarrow> 'a option \<Rightarrow> 'a option option" where
  "decode_pointer decode fresh j p =
     (if j = Json_Null then Some None
      else map_option Some (decode j (case p of None \<Rightarrow> fresh | Some x \<Rightarrow> x)))"

definition zero_owner :: owner where
  "zero_owner = \<lparr>ow_system = 0, ow_stream = 0, ow_group = 0, ow_name = ''''\<rparr>"

definition zero_worker :: unclaimed_worker where
  "zero_worker = \<lparr>uw_name = '''', uw_owner = None, uw_target = 0\<rparr>"

definition encode_worker :: "unclaimed_worker \<Rightarrow> json" where
  "encode_worker w = Json_Object [(''worker'', Json_String (uw_name w)), (''owner'', encode_owner (uw_owner w)),
     (''target_instances'', Json_Int (uw_target w))]"

definition worker_field :: "string \<Rightarrow> json \<Rightarrow> unclaimed_worker \<Rightarrow> unclaimed_worker option" where
  "worker_field n v w =
     (if n = ''worker'' then decode_string v (\<lambda>s. w\<lparr>uw_name := s\<rparr>) w
      else if n = ''owner'' then map_option (\<lambda>p. w\<lparr>uw_owner := p\<rparr>)
        (decode_pointer (\<lambda>j x. decode_object owner_field x j) zero_owner v (uw_owner w))
      else if n = ''target_instances'' then decode_int64 v (\<lambda>i. w\<lparr>uw_target := i\<rparr>) w
      else Some w)"

text \<open>The slice of worker pointers: \<open>None\<close> is the nil slice, an element \<open>None\<close> a nil pointer. Elements
of an earlier member of the same name are decoded over, so their pointers are reused.\<close>

definition decode_worker_slot :: "unclaimed_worker option list option \<Rightarrow> nat \<Rightarrow> json \<Rightarrow> unclaimed_worker option option" where
  "decode_worker_slot old i j =
     decode_pointer (\<lambda>j x. decode_object worker_field x j) zero_worker j
       (case old of None \<Rightarrow> None | Some ws \<Rightarrow> if i < length ws then ws ! i else None)"

fun decode_worker_list :: "unclaimed_worker option list option \<Rightarrow> nat \<Rightarrow> json list \<Rightarrow> unclaimed_worker option list option" where
  "decode_worker_list old i [] = Some []"
| "decode_worker_list old i (j # js) =
     (case decode_worker_slot old i j of
        None \<Rightarrow> None
      | Some w \<Rightarrow> map_option ((#) w) (decode_worker_list old (Suc i) js))"

definition workers_field ::
  "string \<Rightarrow> json \<Rightarrow> unclaimed_worker option list option \<Rightarrow> unclaimed_worker option list option option" where
  "workers_field n v old =
     (if n = ''workers'' then
        (case v of
           Json_Null \<Rightarrow> Some None
         | Json_Array js \<Rightarrow> map_option Some (decode_worker_list old 0 js)
         | _ \<Rightarrow> None)
      else Some old)"

definition encode_workers :: "unclaimed_worker list \<Rightarrow> json" where
  "encode_workers ws = Json_Object [(''workers'', Json_Array (map encode_worker ws))]"

definition decode_workers :: "json \<Rightarrow> unclaimed_worker option list option option" where
  "decode_workers = decode_object workers_field None"

section \<open>Reading measurements\<close>

record 'a stored_message =
  sm_id :: int
  sm_created :: time
  sm_message :: 'a

record measurement_history =
  mh_evaluated :: time
  mh_messages :: "measurement stored_message list"

datatype metric_error =
    Metric_Argument string
  | Metric_Not_Registered string
  | Metric_Retention duration duration
  | Metric_Stream stream_error
  | Metric_Rows db_error
  | Metric_Undecodable
  | Metric_Table_Missing
  | Metric_Built measurement_error
  | Metric_Owner
  | Metric_Group_Missing
  | Metric_Nil_Stream
  | Metric_Write string

definition metric_stream_name :: string where "metric_stream_name = ''__system.metrics''"

text \<open>The configuration the library gives its two streams.\<close>

definition metric_stream_config :: stream_config where
  "metric_stream_config = \<lparr>sf_partition_size = 10000, sf_retention = 24 * hour, sf_allow_drop = True,
     sf_key_ttl = 0, sf_head_ttl = 0, sf_log_mode = ''off'', sf_janitor = None, sf_vacuum = None\<rparr>"

definition alert_stream_config :: stream_config where
  "alert_stream_config = \<lparr>sf_partition_size = 10000, sf_retention = 7 * 24 * hour, sf_allow_drop = False,
     sf_key_ttl = 0, sf_head_ttl = 0, sf_log_mode = ''off'', sf_janitor = None, sf_vacuum = None\<rparr>"

definition stored_as :: "(string \<Rightarrow> 'a option) \<Rightarrow> stored_row \<Rightarrow> 'a stored_message option" where
  "stored_as decode r =
     map_option (\<lambda>x. \<lparr>sm_id = sr_id r, sm_created = sr_created_at r, sm_message = x\<rparr>) (decode (sr_payload r))"

definition metric_stream :: "registry \<Rightarrow> metric_error + stream_config_row" where
  "metric_stream g =
     (case get_stream_checked g metric_stream_name of
        Inl e \<Rightarrow> Inl (Metric_Stream e)
      | Inr None \<Rightarrow> Inl (Metric_Not_Registered metric_stream_name)
      | Inr (Some s) \<Rightarrow> Inr s)"

definition table_rows :: "registry \<Rightarrow> int \<Rightarrow> metric_error + stream_db" where
  "table_rows g i = (case stream_tables_of g i of None \<Rightarrow> Inl Metric_Table_Missing | Some t \<Rightarrow> Inr (tb_rows t))"

definition list_measurements ::
  "(string \<Rightarrow> 'o::linorder) \<Rightarrow> (string \<Rightarrow> measurement option) \<Rightarrow> registry
   \<Rightarrow> metric_error + measurement stored_message list" where
  "list_measurements collate decode g =
     (case metric_stream g of
        Inl e \<Rightarrow> Inl e
      | Inr s \<Rightarrow> (case table_rows g (st_id s) of
          Inl e \<Rightarrow> Inl e
        | Inr db \<Rightarrow> (case list_heads_checked collate db (st_id s) of
            Inl e \<Rightarrow> Inl (Metric_Rows e)
          | Inr rows \<Rightarrow> (case scan_all (stored_as decode) rows of
              None \<Rightarrow> Inl Metric_Undecodable
            | Some ms \<Rightarrow> Inr ms))))"

definition get_measurement ::
  "(string \<Rightarrow> measurement option) \<Rightarrow> registry \<Rightarrow> string \<Rightarrow> metric_error + measurement stored_message option" where
  "get_measurement decode g k =
     (case metric_stream g of
        Inl e \<Rightarrow> Inl e
      | Inr s \<Rightarrow> (case table_rows g (st_id s) of
          Inl e \<Rightarrow> Inl e
        | Inr db \<Rightarrow> (case get_head_checked db (st_id s) k of
            Inl e \<Rightarrow> Inl (Metric_Rows e)
          | Inr None \<Rightarrow> Inr None
          | Inr (Some r) \<Rightarrow> (case stored_as decode r of
              None \<Rightarrow> Inl Metric_Undecodable
            | Some m \<Rightarrow> Inr (Some m)))))"

text \<open>\<open>now\<close> is the database time of the read. The checks of \<open>ListKeyMessagesByCreatedAt\<close> hold here:
the id is positive, the key not empty and the window not inverted.\<close>

definition get_measurement_history ::
  "(string \<Rightarrow> measurement option) \<Rightarrow> registry \<Rightarrow> string \<Rightarrow> duration \<Rightarrow> time
   \<Rightarrow> metric_error + measurement_history" where
  "get_measurement_history decode g k window now =
     (if k = '''' then Inl (Metric_Argument ''messageKey must not be empty'')
      else if window \<le> 0 then Inl (Metric_Argument ''window must be > 0'')
      else (case metric_stream g of
          Inl e \<Rightarrow> Inl e
        | Inr s \<Rightarrow>
            if 0 < ss_retention (st_settings s) \<and> ss_retention (st_settings s) \<le> window
            then Inl (Metric_Retention window (ss_retention (st_settings s)))
            else (case table_rows g (st_id s) of
                Inl e \<Rightarrow> Inl e
              | Inr db \<Rightarrow>
                  if st_id s \<le> 0 then Inl (Metric_Rows (Err_Invalid_Argument ''streamId must be > 0''))
                  else (case scan_all (stored_as decode) (list_key_messages_by_created_at db k (now - window) now) of
                    None \<Rightarrow> Inl Metric_Undecodable
                  | Some ms \<Rightarrow> Inr \<lparr>mh_evaluated = now, mh_messages = ms\<rparr>))))"

end
