(* ===== verification/Metric_Snapshots.thy ===== *)
theory Metric_Snapshots
  imports Measurements
begin

text \<open>
  Live snapshots: \<open>pkg/metric/controller\<close> and its datastore. Every read is one statement on the state
  of the database at that moment; the states the reads of one operation meet, or the failure of a
  read, are an argument of it. A timestamp difference reaches the process in seconds, as a double.
\<close>

text \<open>A read that failed, or the state it saw with the time of the database.\<close>

type_synonym 'm view = "metric_error + time \<times> 'm control_plane"

definition wrap_int64 :: "int \<Rightarrow> int" where
  "wrap_int64 x = (x + 9223372036854775808) mod 18446744073709551616 - 9223372036854775808"

definition epoch_seconds :: "duration \<Rightarrow> rat" where
  "epoch_seconds d = round_double (of_int d / 1000000000)"

text \<open>\<open>ORDER BY\<close> a text that can be NULL: NULLs come last, and the sort is stable.\<close>

definition sort_nulls_last :: "(string \<Rightarrow> 'o::linorder) \<Rightarrow> ('r \<Rightarrow> string option) \<Rightarrow> 'r list \<Rightarrow> 'r list" where
  "sort_nulls_last collate k rows =
     sort_key (\<lambda>r. k r = None) (sort_key (\<lambda>r. collate (coalesce_text (k r))) rows)"

section \<open>Workers\<close>

datatype worker_status = Status_Suspended | Status_Claimed | Status_Failing | Status_Unclaimed

record worker_snapshot_row =
  ws_name :: string
  ws_system :: int
  ws_stream :: int
  ws_group :: int
  ws_stream_name :: string
  ws_group_name :: string
  ws_target :: int
  ws_live :: int
  ws_attempts :: int
  ws_unclaimed :: rat

record worker_snapshot =
  wk_owner :: owner
  wk_name :: string
  wk_status :: worker_status
  wk_target :: int
  wk_live :: int
  wk_attempts :: int
  wk_unclaimed :: duration

definition worker_row :: "'m worker_db \<Rightarrow> time \<Rightarrow> 'm worker_config \<Rightarrow> worker_snapshot_row" where
  "worker_row db now c =
     (let live = filter (is_live (wc_id c) now) (worker_instances db);
          mine = filter (\<lambda>i. wi_worker i = wc_id c) (worker_instances db) in
      \<lparr>ws_name = wc_name c,
       ws_system = owner_system_id db c,
       ws_stream = (case (fst (snd (wc_owner c)), group_of_row db c) of
           (Some s, _) \<Rightarrow> s | (None, Some g) \<Rightarrow> gf_stream g | (None, None) \<Rightarrow> 0),
       ws_group = (case snd (snd (wc_owner c)) of None \<Rightarrow> 0 | Some g \<Rightarrow> g),
       ws_stream_name = (case stream_of_row db c of None \<Rightarrow> '''' | Some t \<Rightarrow> sf_name t),
       ws_group_name = (case group_of_row db c of None \<Rightarrow> '''' | Some g \<Rightarrow> gf_name g),
       ws_target = wc_target c,
       ws_live = int (length live),
       ws_attempts = (case sql_max (map wi_attempts live) of None \<Rightarrow> 0 | Some a \<Rightarrow> a),
       ws_unclaimed = (case sql_max (map wi_expires mine) of None \<Rightarrow> 0 | Some e \<Rightarrow> epoch_seconds (now - e))\<rparr>)"

definition worker_rows :: "(string \<Rightarrow> 'o::linorder) \<Rightarrow> 'm worker_db \<Rightarrow> time \<Rightarrow> worker_snapshot_row list" where
  "worker_rows collate db now =
     map (worker_row db now)
       (sort_nulls_last collate (\<lambda>c. map_option sf_name (stream_of_row db c))
         (sort_key (\<lambda>c. collate (wc_name c))
           (sort_nulls_last collate (\<lambda>c. map_option gf_name (group_of_row db c)) (worker_configs db))))"

definition snapshot_owner :: "int \<Rightarrow> int \<Rightarrow> int \<Rightarrow> string \<Rightarrow> string \<Rightarrow> owner option" where
  "snapshot_owner sys str grp stream_name group_name =
     (if 0 < grp then new_group_owner sys str grp group_name
      else if 0 < str then new_stream_owner sys str stream_name
      else new_system_owner sys)"

definition classify_worker :: "int \<Rightarrow> int \<Rightarrow> int \<Rightarrow> worker_status" where
  "classify_worker target live attempts =
     (if target = 0 then Status_Suspended
      else if 0 < live \<and> 0 < attempts then Status_Failing
      else if 0 < live then Status_Claimed
      else Status_Unclaimed)"

definition to_worker_snapshot :: "worker_snapshot_row \<Rightarrow> worker_snapshot option" where
  "to_worker_snapshot r =
     map_option (\<lambda>ow. \<lparr>wk_owner = ow, wk_name = ws_name r,
         wk_status = classify_worker (ws_target r) (ws_live r) (ws_attempts r),
         wk_target = ws_target r, wk_live = ws_live r, wk_attempts = ws_attempts r,
         wk_unclaimed = (if ws_live r = 0 \<and> 0 < ws_unclaimed r then seconds_duration (ws_unclaimed r) else 0)\<rparr>)
       (snapshot_owner (ws_system r) (ws_stream r) (ws_group r) (ws_stream_name r) (ws_group_name r))"

definition worker_snapshots ::
  "(string \<Rightarrow> 'o::linorder) \<Rightarrow> 'm view \<Rightarrow> metric_error + worker_snapshot list" where
  "worker_snapshots collate v =
     (case v of
        Inl e \<Rightarrow> Inl e
      | Inr (now, p) \<Rightarrow> (case scan_all to_worker_snapshot (worker_rows collate (cp_workers p) now) of
          None \<Rightarrow> Inl Metric_Owner
        | Some ws \<Rightarrow> Inr ws))"

section \<open>Schedules\<close>

record schedule_snapshot =
  sn_owner :: owner
  sn_name :: string
  sn_stream :: string
  sn_expression :: string
  sn_suspended :: bool
  sn_next :: time
  sn_last :: time
  sn_due_for :: duration
  sn_overdue :: bool

definition overdue_threshold :: duration where "overdue_threshold = 10 * minute"

definition to_schedule_snapshot :: "time \<Rightarrow> string \<Rightarrow> schedule_row \<Rightarrow> schedule_snapshot option" where
  "to_schedule_snapshot now stream_name r =
     (let due = seconds_duration (epoch_seconds (now - su_next (snd r))) in
      map_option (\<lambda>ow. \<lparr>sn_owner = ow, sn_name = sc_name (fst r), sn_stream = stream_name,
          sn_expression = sc_expression (fst r), sn_suspended = sc_suspended (fst r),
          sn_next = su_next (snd r),
          sn_last = (case su_last (snd r) of None \<Rightarrow> zero_time | Some t \<Rightarrow> t),
          sn_due_for = due, sn_overdue = (\<not> sc_suspended (fst r) \<and> overdue_threshold < due)\<rparr>)
        (new_system_owner (sc_system (fst r))))"

definition schedule_rows ::
  "(string \<Rightarrow> 'o::linorder) \<Rightarrow> 'm control_plane \<Rightarrow> (string \<times> schedule_row) list" where
  "schedule_rows collate p =
     List.map_filter (\<lambda>r. map_option (\<lambda>s. (st_name s, r)) (get_stream_by_id (cp_registry p) (sc_stream (fst r))))
       (list_schedules collate (cp_schedules p))"

definition schedule_snapshots ::
  "(string \<Rightarrow> 'o::linorder) \<Rightarrow> 'm view \<Rightarrow> metric_error + schedule_snapshot list" where
  "schedule_snapshots collate v =
     (case v of
        Inl e \<Rightarrow> Inl e
      | Inr (now, p) \<Rightarrow>
          (case scan_all (\<lambda>(n, r). to_schedule_snapshot now n r) (schedule_rows collate p) of
            None \<Rightarrow> Inl Metric_Owner
          | Some ss \<Rightarrow> Inr ss))"

section \<open>Abandoned routines\<close>

record go_routine_event =
  ge_type :: string
  ge_stream :: int
  ge_group :: string
  ge_message :: int
  ge_attempt :: int
  ge_at :: time

record abandoned_snapshot =
  ab_outstanding :: int
  ab_total :: int
  ab_latency :: duration

text \<open>\<open>event_of\<close> is how the database reads the members of a payload. One row per message and attempt,
with the earliest time; the order of the groups is not specified and plays no role below.\<close>

fun group_events :: "go_routine_event list \<Rightarrow> ((int \<times> int) \<times> time) list" where
  "group_events [] = []"
| "group_events (e # es) =
     (let k = (ge_message e, ge_attempt e); rest = group_events es in
      (k, case map_of rest k of None \<Rightarrow> ge_at e | Some t \<Rightarrow> min (ge_at e) t) # filter (\<lambda>r. fst r \<noteq> k) rest)"

definition event_timestamps ::
  "(string \<Rightarrow> go_routine_event option) \<Rightarrow> stream_db \<Rightarrow> string \<Rightarrow> string \<Rightarrow> ((int \<times> int) \<times> time) list" where
  "event_timestamps event_of db key kind =
     group_events (filter (\<lambda>e. ge_type e = kind)
       (List.map_filter (\<lambda>m. event_of (msg_payload m))
         (filter (\<lambda>m. msg_routing_key m = Some key) (message_log db))))"

text \<open>The reads of the two event types; a missing metrics stream is an error of the statement.\<close>

definition read_events ::
  "(string \<Rightarrow> go_routine_event option) \<Rightarrow> 'm view \<Rightarrow> string \<Rightarrow> string \<Rightarrow> metric_error + ((int \<times> int) \<times> time) list" where
  "read_events event_of v key kind =
     (case v of
        Inl e \<Rightarrow> Inl e
      | Inr (now, p) \<Rightarrow> (case get_stream (cp_registry p) metric_stream_name of
          None \<Rightarrow> Inl (Metric_Rows Err_No_Rows)
        | Some s \<Rightarrow> (case table_rows (cp_registry p) (st_id s) of
            Inl e \<Rightarrow> Inl e
          | Inr db \<Rightarrow> Inr (event_timestamps event_of db key kind))))"

fun pair_events ::
  "((int \<times> int) \<Rightarrow> time option) \<Rightarrow> ((int \<times> int) \<times> time) list \<Rightarrow> int \<Rightarrow> int \<Rightarrow> int \<Rightarrow> int \<Rightarrow> abandoned_snapshot" where
  "pair_events cleared [] seen outstanding latency matched =
     \<lparr>ab_outstanding = outstanding, ab_total = seen,
      ab_latency = (if 0 < matched then truncate_rat (of_int latency / of_int matched) else 0)\<rparr>"
| "pair_events cleared ((k, t) # es) seen outstanding latency matched =
     (case cleared k of
        None \<Rightarrow> pair_events cleared es (seen + 1) (outstanding + 1) latency matched
      | Some t' \<Rightarrow> pair_events cleared es (seen + 1) outstanding
          (wrap_int64 (latency + time_sub t' t)) (matched + 1))"

text \<open>The Go map keeps the last event of a key; the datastore returns one.\<close>

definition to_abandoned_snapshot ::
  "((int \<times> int) \<times> time) list \<Rightarrow> ((int \<times> int) \<times> time) list \<Rightarrow> abandoned_snapshot" where
  "to_abandoned_snapshot abandoned cleared = pair_events (map_of (rev cleared)) abandoned 0 0 0 0"

definition event_abandoned :: string where "event_abandoned = ''abandoned''"
definition event_cleared :: string where "event_cleared = ''cleared''"

definition abandoned_routines ::
  "(string \<Rightarrow> go_routine_event option) \<Rightarrow> 'm view \<Rightarrow> 'm view \<Rightarrow> int \<Rightarrow> string \<Rightarrow> metric_error + abandoned_snapshot" where
  "abandoned_routines event_of v v' stream group' =
     (if stream \<le> 0 then Inl (Metric_Argument ''streamId must be > 0'')
      else if group' = '''' then Inl (Metric_Argument ''group is required'')
      else (case read_events event_of v (abandoned_routine_key stream group') event_abandoned of
          Inl e \<Rightarrow> Inl e
        | Inr abandoned \<Rightarrow> (case read_events event_of v' (abandoned_routine_key stream group') event_cleared of
            Inl e \<Rightarrow> Inl e
          | Inr cleared \<Rightarrow> Inr (to_abandoned_snapshot abandoned cleared))))"

section \<open>Consumer groups\<close>

record group_snapshot_row =
  gd_claimed :: int
  gd_committed :: int
  gd_head :: int
  gd_ready :: int
  gd_inflight :: int
  gd_deferred :: int
  gd_dead :: int
  gd_oldest :: "time option"
  gd_leases :: int

record cursor_snapshot =
  ks_head :: int
  ks_claimed :: int
  ks_committed :: int
  ks_backlog :: int
  ks_inflight :: int

record exception_snapshot =
  xs_ready :: int
  xs_inflight :: int
  xs_deferred :: int
  xs_dead :: int
  xs_oldest_age :: duration

record group_snapshot =
  gn_group :: string
  gn_cursor :: cursor_snapshot
  gn_exceptions :: exception_snapshot
  gn_leases :: int
  gn_abandoned :: abandoned_snapshot

definition exceptions_with :: "stream_db \<Rightarrow> int \<Rightarrow> exception_status set \<Rightarrow> exception_row list" where
  "exceptions_with db g ss = filter (\<lambda>x. ex_group x = g \<and> ex_status x \<in> ss) (exception_queue db)"

definition read_group_row :: "stream_db \<Rightarrow> int \<Rightarrow> group_snapshot_row option" where
  "read_group_row db g =
     map_option (\<lambda>c. \<lparr>gd_claimed = cur_claimed c, gd_committed = cur_committed c,
         gd_head = (case sql_max (map msg_id (message_log db)) of None \<Rightarrow> 0 | Some i \<Rightarrow> i),
         gd_ready = int (length (exceptions_with db g {Ready})),
         gd_inflight = int (length (exceptions_with db g {Inflight})),
         gd_deferred = int (length (exceptions_with db g {Deferred})),
         gd_dead = int (length (exceptions_with db g {Dead})),
         gd_oldest = sql_min (map ex_created_at (exceptions_with db g {Ready, Inflight, Deferred})),
         gd_leases = int (length (filter (\<lambda>l. cl_group l = g) (claim_leases db)))\<rparr>)
       (cursor_of db g)"

text \<open>\<open>clock\<close> is the time of the process: the age of the oldest exception is \<open>time.Since\<close>.\<close>

definition to_group_snapshot :: "string \<Rightarrow> time \<Rightarrow> group_snapshot_row \<Rightarrow> abandoned_snapshot \<Rightarrow> group_snapshot" where
  "to_group_snapshot name clock d abandoned =
     \<lparr>gn_group = name,
      gn_cursor = \<lparr>ks_head = gd_head d, ks_claimed = gd_claimed d, ks_committed = gd_committed d,
        ks_backlog = gd_head d - gd_committed d, ks_inflight = gd_claimed d - gd_committed d\<rparr>,
      gn_exceptions = \<lparr>xs_ready = gd_ready d, xs_inflight = gd_inflight d, xs_deferred = gd_deferred d,
        xs_dead = gd_dead d,
        xs_oldest_age = (case gd_oldest d of None \<Rightarrow> 0 | Some t \<Rightarrow> time_sub clock t)\<rparr>,
      gn_leases = gd_leases d, gn_abandoned = abandoned\<rparr>"

record group_lag =
  gl_group :: string
  gl_committed :: int
  gl_head :: int
  gl_lag :: int
  gl_unresolved :: int

definition lag_of :: "group_snapshot \<Rightarrow> group_lag" where
  "lag_of s = \<lparr>gl_group = gn_group s, gl_committed = ks_committed (gn_cursor s), gl_head = ks_head (gn_cursor s),
     gl_lag = max (ks_backlog (gn_cursor s)) 0,
     gl_unresolved = xs_ready (gn_exceptions s) + xs_inflight (gn_exceptions s) + xs_deferred (gn_exceptions s)\<rparr>"

text \<open>The three reads of one group: its rows, the abandoned events, the cleared ones.\<close>

definition read_group_snapshot ::
  "(string \<Rightarrow> go_routine_event option) \<Rightarrow> (nat \<Rightarrow> 'm view) \<Rightarrow> time \<Rightarrow> int \<Rightarrow> int \<Rightarrow> string
   \<Rightarrow> metric_error + group_snapshot" where
  "read_group_snapshot event_of views clock stream g name =
     (if stream \<le> 0 then Inl (Metric_Argument ''streamId must be > 0'')
      else if g \<le> 0 then Inl (Metric_Argument ''consumerGroupId must be > 0'')
      else if name = '''' then Inl (Metric_Argument ''consumerGroupName is required'')
      else (case views 0 of
          Inl e \<Rightarrow> Inl e
        | Inr (now, p) \<Rightarrow> (case table_rows (cp_registry p) stream of
            Inl e \<Rightarrow> Inl e
          | Inr db \<Rightarrow> (case read_group_row db g of
              None \<Rightarrow> Inl Metric_Group_Missing
            | Some d \<Rightarrow> (case abandoned_routines event_of (views 1) (views 2) stream name of
                Inl e \<Rightarrow> Inl e
              | Inr a \<Rightarrow> Inr (to_group_snapshot name clock d a))))))"

section \<open>Streams\<close>

record stream_snapshot =
  tn_stream :: int
  tn_partitions :: int
  tn_compacted :: bool
  tn_empty_heads :: int
  tn_empty_head_age :: duration
  tn_groups :: "group_snapshot list"

record stream_snapshot_row =
  td_partitions :: int
  td_compacted :: bool
  td_empty_heads :: int
  td_empty_head_secs :: rat

definition read_stream_row :: "stream_tables \<Rightarrow> time \<Rightarrow> stream_snapshot_row" where
  "read_stream_row t now =
     (let empty = filter (\<lambda>h. hd_winner h = None) (compaction_heads (tb_rows t)) in
      \<lparr>td_partitions = int (length (tb_parts t)),
       td_compacted = list_ex (\<lambda>h. hd_winner h \<noteq> None) (compaction_heads (tb_rows t)),
       td_empty_heads = int (length empty),
       td_empty_head_secs = (case sql_min (map hd_updated_at empty) of
           None \<Rightarrow> 0 | Some u \<Rightarrow> epoch_seconds (now - u))\<rparr>)"

definition list_groups_of :: "(string \<Rightarrow> 'o::linorder) \<Rightarrow> 'm control_plane \<Rightarrow> int \<Rightarrow> group_row list" where
  "list_groups_of collate p stream =
     sort_key (\<lambda>g. collate (gr_name g)) (filter (\<lambda>g. gr_stream g = stream) (cp_groups p))"

fun snapshot_groups ::
  "(string \<Rightarrow> go_routine_event option) \<Rightarrow> (nat \<Rightarrow> 'm view) \<Rightarrow> time \<Rightarrow> int \<Rightarrow> group_row list
   \<Rightarrow> metric_error + group_snapshot list" where
  "snapshot_groups event_of views clock stream [] = Inr []"
| "snapshot_groups event_of views clock stream (g # gs) =
     (case read_group_snapshot event_of views clock stream (gr_id g) (gr_name g) of
        Inl e \<Rightarrow> Inl e
      | Inr s \<Rightarrow> map_sum id ((#) s) (snapshot_groups event_of (\<lambda>n. views (n + 3)) clock stream gs))"

definition read_stream_snapshot ::
  "(string \<Rightarrow> 'o::linorder) \<Rightarrow> (string \<Rightarrow> go_routine_event option) \<Rightarrow> (nat \<Rightarrow> 'm view) \<Rightarrow> time \<Rightarrow> int
   \<Rightarrow> metric_error + stream_snapshot" where
  "read_stream_snapshot collate event_of views clock stream =
     (if stream \<le> 0 then Inl (Metric_Argument ''streamId must be > 0'')
      else (case views 0 of
          Inl e \<Rightarrow> Inl e
        | Inr (now, p) \<Rightarrow> (case stream_tables_of (cp_registry p) stream of
            None \<Rightarrow> Inl Metric_Table_Missing
          | Some t \<Rightarrow> (case views 1 of
              Inl e \<Rightarrow> Inl e
            | Inr (now', p') \<Rightarrow>
                (case snapshot_groups event_of (\<lambda>n. views (n + 2)) clock stream (list_groups_of collate p' stream) of
                   Inl e \<Rightarrow> Inl e
                 | Inr gs \<Rightarrow>
                     (let d = read_stream_row t now in
                      Inr \<lparr>tn_stream = stream, tn_partitions = td_partitions d, tn_compacted = td_compacted d,
                        tn_empty_heads = td_empty_heads d,
                        tn_empty_head_age = seconds_duration (td_empty_head_secs d), tn_groups = gs\<rparr>))))))"

section \<open>Payload versions\<close>

record version_count =
  vc_version :: int
  vc_messages :: int
  vc_heads :: int

record version_lag =
  vl_group :: string
  vl_unconsumed :: int
  vl_unresolved :: int

text \<open>The left join of the log with the heads: a message without a head is one row.\<close>

definition log_with_heads :: "stream_db \<Rightarrow> (message_row \<times> bool) list" where
  "log_with_heads db = concat (map (\<lambda>m.
     (let hs = filter (\<lambda>h. map_option fst (hd_winner h) = Some (msg_id m)) (compaction_heads db) in
      if hs = [] then [(m, False)] else map (\<lambda>h. (m, True)) hs)) (message_log db))"

definition version_counts :: "stream_db \<Rightarrow> version_count list" where
  "version_counts db =
     map (\<lambda>v. \<lparr>vc_version = v,
         vc_messages = int (length (filter (\<lambda>r. msg_schema_version (fst r) = v) (log_with_heads db))),
         vc_heads = int (length (filter (\<lambda>r. msg_schema_version (fst r) = v \<and> snd r) (log_with_heads db)))\<rparr>)
       (sorted_list_of_set (msg_schema_version ` set (message_log db)))"

definition version_lags ::
  "(string \<Rightarrow> 'o::linorder) \<Rightarrow> 'm control_plane \<Rightarrow> stream_db \<Rightarrow> int \<Rightarrow> version_lag list" where
  "version_lags collate p db v =
     sort_key (\<lambda>l. collate (vl_group l))
       (concat (map (\<lambda>c. map (\<lambda>g. \<lparr>vl_group = gr_name g,
           vl_unconsumed = int (length (filter (\<lambda>m. msg_schema_version m = v \<and> cur_committed c < msg_id m) (message_log db))),
           vl_unresolved = int (length (concat (map (\<lambda>x. filter (\<lambda>m. msg_id m = ex_message x \<and> msg_schema_version m = v)
               (message_log db)) (exceptions_with db (cur_group c) {Ready, Inflight, Deferred}))))\<rparr>)
         (filter (\<lambda>g. gr_id g = cur_group c) (cp_groups p))) (cursors db)))"

fun version_snapshots ::
  "(string \<Rightarrow> 'o::linorder) \<Rightarrow> (nat \<Rightarrow> 'm view) \<Rightarrow> int \<Rightarrow> version_count list
   \<Rightarrow> metric_error + (version_count \<times> version_lag list) list" where
  "version_snapshots collate views stream [] = Inr []"
| "version_snapshots collate views stream (c # cs) =
     (case views 0 of
        Inl e \<Rightarrow> Inl e
      | Inr (now, p) \<Rightarrow> (case table_rows (cp_registry p) stream of
          Inl e \<Rightarrow> Inl e
        | Inr db \<Rightarrow> map_sum id ((#) (c, version_lags collate p db (vc_version c)))
            (version_snapshots collate (\<lambda>n. views (n + 1)) stream cs)))"

definition stream_version_snapshots ::
  "(string \<Rightarrow> 'o::linorder) \<Rightarrow> (nat \<Rightarrow> 'm view) \<Rightarrow> int \<Rightarrow> metric_error + (version_count \<times> version_lag list) list" where
  "stream_version_snapshots collate views stream =
     (if stream \<le> 0 then Inl (Metric_Argument ''streamId must be > 0'')
      else (case views 0 of
          Inl e \<Rightarrow> Inl e
        | Inr (now, p) \<Rightarrow> (case table_rows (cp_registry p) stream of
            Inl e \<Rightarrow> Inl e
          | Inr db \<Rightarrow> version_snapshots collate (\<lambda>n. views (n + 1)) stream (version_counts db))))"

end
