(* ===== verification/Alerts.thy ===== *)
theory Alerts
  imports Metric_Snapshots Schedule_Expression
begin

text \<open>
  Alerts: \<open>pkg/alert/alert.go\<close>, \<open>job_payload.go\<close>, \<open>alert_config.go\<close>, \<open>evaluation.go\<close> and the jobs
  of the four checks. Statuses, severities and states are texts in the code.
\<close>

section \<open>The alert\<close>

definition status_active :: string where "status_active = ''active''"
definition status_resolved :: string where "status_resolved = ''resolved''"
definition severity_warn :: string where "severity_warn = ''warn''"

definition alert_stream_name :: string where "alert_stream_name = ''__system.alerts''"

text \<open>\<open>al_owner\<close> is a pointer, nil in a stored document without one.\<close>

record alert =
  al_name :: string
  al_owner :: "owner option"
  al_status :: string
  al_severity :: string
  al_message :: string
  al_detail :: string
  al_hint :: string
  al_data :: "(string \<times> json) list"
  al_metadata :: "(string \<times> json) list"
  al_at :: time

record alert_options =
  ao_detail :: string
  ao_hint :: string
  ao_data :: "(string \<times> json) list"
  ao_metadata :: "(string \<times> json) list"

definition no_alert_options :: alert_options where
  "no_alert_options = \<lparr>ao_detail = '''', ao_hint = '''', ao_data = [], ao_metadata = []\<rparr>"

datatype alert_error =
    Alert_Name_Required
  | Alert_Owner_Required
  | Alert_Owner_Name_Required
  | Alert_Bad_Status string
  | Alert_Bad_Severity string
  | Alert_Time_Required
  | Alert_Config_Invalid string
  | Alert_Nil_Finding
  | Alert_Finding_Not_Nil
  | Alert_Finding_Status string
  | Alert_Unknown_State string
  | Alert_Argument string
  | Alert_Schedule schedule_error
  | Alert_Metric metric_error
  | Alert_Below_Threshold int int
  | Alert_Undecodable
  | Alert_Wrong_Owner
  | Alert_Worker worker_error
  | Alert_Read string
  | Alert_Write string
  | Alert_Not_Registered
  | Alert_Panic

definition new_alert ::
  "string \<Rightarrow> owner option \<Rightarrow> string \<Rightarrow> string \<Rightarrow> string \<Rightarrow> time \<Rightarrow> alert_options \<Rightarrow> alert_error + alert" where
  "new_alert name ow status severity message t opts =
     (if name = '''' then Inl Alert_Name_Required
      else (case ow of
          None \<Rightarrow> Inl Alert_Owner_Required
        | Some o' \<Rightarrow>
            if ow_name o' = '''' then Inl Alert_Owner_Name_Required
            else if status \<noteq> status_active \<and> status \<noteq> status_resolved then Inl (Alert_Bad_Status status)
            else if severity \<noteq> severity_warn then Inl (Alert_Bad_Severity severity)
            else if t = zero_time then Inl Alert_Time_Required
            else Inr \<lparr>al_name = name, al_owner = Some o', al_status = status, al_severity = severity,
              al_message = message, al_detail = ao_detail opts, al_hint = ao_hint opts, al_data = ao_data opts,
              al_metadata = ao_metadata opts, al_at = t\<rparr>))"

fun owner_kind_text :: "owner_kind \<Rightarrow> string" where
  "owner_kind_text Owner_Any = ''''"
| "owner_kind_text Owner_System = ''system''"
| "owner_kind_text Owner_Stream = ''stream''"
| "owner_kind_text Owner_Consumer_Group = ''consumer_group''"
| "owner_kind_text (Owner_Unknown k) = k"

text \<open>\<open>None\<close> is the panic on a nil owner; \<open>NewAlert\<close> builds none.\<close>

definition alert_routing_key :: "alert \<Rightarrow> string option" where
  "alert_routing_key a =
     map_option (\<lambda>o'. ''alert.'' @ al_name a @ ''.'' @ owner_kind_text (kind_of o') @ ''.'' @ al_severity a @ ''.'' @ ow_name o')
       (al_owner a)"

definition alert_message_key :: "string \<Rightarrow> owner \<Rightarrow> string" where
  "alert_message_key name ow =
     name @ ''/'' @ owner_kind_text (kind_of ow) @ ''/''
     @ show_int (case kind_of ow of
           Owner_Stream \<Rightarrow> ow_stream ow
         | Owner_Consumer_Group \<Rightarrow> ow_group ow
         | _ \<Rightarrow> ow_system ow)"

section \<open>The policy of a check\<close>

record job_payload =
  jp_threshold :: int
  jp_maximum_age :: duration
  jp_pending :: duration
  jp_gap :: duration
  jp_disable_pending :: bool

definition payload_with_defaults :: "job_payload \<Rightarrow> job_payload" where
  "payload_with_defaults d = d\<lparr>
     jp_pending := (if jp_pending d = 0 then 2 * minute else jp_pending d),
     jp_gap := (if jp_gap d = 0 then 2 * minute else jp_gap d)\<rparr>"

text \<open>The pending duration is positive where the bound on the gap is computed, so it does not overflow.\<close>

definition gap_too_large :: "bool \<Rightarrow> duration \<Rightarrow> duration \<Rightarrow> bool" where
  "gap_too_large disable_pending pending gap \<longleftrightarrow> \<not> disable_pending \<and> (max_int64 - pending) div 2 < gap"

definition validate_payload :: "job_payload \<Rightarrow> alert_error option" where
  "validate_payload d =
     (if jp_threshold d < 0 then Some (Alert_Config_Invalid ''threshold'')
      else if jp_maximum_age d < 0 then Some (Alert_Config_Invalid ''maximum_age'')
      else if jp_pending d \<le> 0 then Some (Alert_Config_Invalid ''PendingDuration'')
      else if jp_gap d \<le> 0 then Some (Alert_Config_Invalid ''MaximumGap'')
      else if gap_too_large (jp_disable_pending d) (jp_pending d) (jp_gap d) then Some (Alert_Config_Invalid ''MaximumGap'')
      else None)"

definition new_job_payload :: "int \<Rightarrow> duration \<Rightarrow> duration \<Rightarrow> bool \<Rightarrow> alert_error + job_payload" where
  "new_job_payload threshold pending gap disable_pending =
     (let d = payload_with_defaults \<lparr>jp_threshold = threshold, jp_maximum_age = 0, jp_pending = pending, jp_gap = gap,
            jp_disable_pending = disable_pending\<rparr> in
      case validate_payload d of Some e \<Rightarrow> Inl e | None \<Rightarrow> Inr d)"

definition payload_window :: "job_payload \<Rightarrow> duration" where
  "payload_window d =
     (if jp_disable_pending d then jp_gap d else wrap_int64 (jp_pending d + wrap_int64 (2 * jp_gap d)))"

section \<open>Configurations and jobs\<close>

record alert_job =
  aj_name :: string
  aj_cron :: string
  aj_payload :: job_payload

definition new_alert_job ::
  "(string \<Rightarrow> string + (time \<Rightarrow> time option)) \<Rightarrow> time \<Rightarrow> string \<Rightarrow> string \<Rightarrow> job_payload
   \<Rightarrow> alert_error + alert_job" where
  "new_alert_job cron now name expression payload =
     (if name = '''' then Inl (Alert_Argument ''job name is required'')
      else (case parse_expression cron now expression of
          Inl e \<Rightarrow> Inl (Alert_Schedule e)
        | Inr _ \<Rightarrow> Inr \<lparr>aj_name = name, aj_cron = expression, aj_payload = payload\<rparr>))"

definition every_minute_expression :: string where "every_minute_expression = ''@every 1m''"

record progress_alert_config =
  pa_expression :: string
  pa_maximum_age :: duration
  pa_pending :: duration
  pa_disable_pending :: bool

definition progress_config_with_defaults :: "progress_alert_config \<Rightarrow> progress_alert_config" where
  "progress_config_with_defaults c = c\<lparr>
     pa_expression := (if pa_expression c = '''' then every_minute_expression else pa_expression c),
     pa_pending := (if pa_pending c = 0 then 2 * minute else pa_pending c)\<rparr>"

definition validate_progress_config :: "progress_alert_config \<Rightarrow> alert_error option" where
  "validate_progress_config c =
     (if pa_maximum_age c < 0 then Some (Alert_Config_Invalid ''MaximumAge'')
      else if pa_pending c \<le> 0 then Some (Alert_Config_Invalid ''PendingDuration'')
      else None)"

record count_alert_config =
  ca_expression :: string
  ca_threshold :: int
  ca_pending :: duration
  ca_gap :: duration
  ca_disable_pending :: bool

definition count_config_with_defaults :: "count_alert_config \<Rightarrow> count_alert_config" where
  "count_config_with_defaults c = c\<lparr>
     ca_expression := (if ca_expression c = '''' then every_minute_expression else ca_expression c),
     ca_pending := (if ca_pending c = 0 then 2 * minute else ca_pending c),
     ca_gap := (if ca_gap c = 0 then 2 * minute else ca_gap c)\<rparr>"

definition validate_count_config :: "count_alert_config \<Rightarrow> alert_error option" where
  "validate_count_config c =
     (if ca_threshold c < 0 then Some (Alert_Config_Invalid ''Threshold'')
      else if ca_pending c \<le> 0 then Some (Alert_Config_Invalid ''PendingDuration'')
      else if ca_gap c \<le> 0 then Some (Alert_Config_Invalid ''MaximumGap'')
      else if gap_too_large (ca_disable_pending c) (ca_pending c) (ca_gap c) then Some (Alert_Config_Invalid ''MaximumGap'')
      else None)"

text \<open>The configuration of the read cost check has the same fields, defaults and checks as that of the
partition count; \<open>count_alert_config\<close> stands for both.\<close>

record liveness_alert_config =
  la_expression :: string
  la_pending :: duration
  la_gap :: duration
  la_disable_pending :: bool

definition liveness_config_with_defaults :: "liveness_alert_config \<Rightarrow> liveness_alert_config" where
  "liveness_config_with_defaults c = c\<lparr>
     la_expression := (if la_expression c = '''' then every_minute_expression else la_expression c),
     la_pending := (if la_pending c = 0 then 2 * minute else la_pending c),
     la_gap := (if la_gap c = 0 then 2 * minute else la_gap c)\<rparr>"

definition validate_liveness_config :: "liveness_alert_config \<Rightarrow> alert_error option" where
  "validate_liveness_config c =
     (if la_pending c \<le> 0 then Some (Alert_Config_Invalid ''PendingDuration'')
      else if la_gap c \<le> 0 then Some (Alert_Config_Invalid ''MaximumGap'')
      else if gap_too_large (la_disable_pending c) (la_pending c) (la_gap c) then Some (Alert_Config_Invalid ''MaximumGap'')
      else None)"

definition alert_job_name :: "diagnostic_alert \<Rightarrow> string" where
  "alert_job_name a = ''alert.'' @ da_name a"

text \<open>A configuration pointer may be nil: it is then the zero configuration.\<close>

definition count_job ::
  "(string \<Rightarrow> string + (time \<Rightarrow> time option)) \<Rightarrow> time \<Rightarrow> diagnostic_alert \<Rightarrow> count_alert_config option
   \<Rightarrow> alert_error + alert_job" where
  "count_job cron now declared cfg =
     (let c = count_config_with_defaults (case cfg of
            None \<Rightarrow> \<lparr>ca_expression = '''', ca_threshold = 0, ca_pending = 0, ca_gap = 0, ca_disable_pending = False\<rparr>
          | Some c \<Rightarrow> c) in
      case validate_count_config c of
        Some e \<Rightarrow> Inl e
      | None \<Rightarrow> (case new_job_payload (ca_threshold c) (ca_pending c) (ca_gap c) (ca_disable_pending c) of
          Inl e \<Rightarrow> Inl e
        | Inr d \<Rightarrow> new_alert_job cron now (alert_job_name declared) (ca_expression c) d))"

definition partition_count_job ::
  "(string \<Rightarrow> string + (time \<Rightarrow> time option)) \<Rightarrow> time \<Rightarrow> count_alert_config option \<Rightarrow> alert_error + alert_job" where
  "partition_count_job cron now cfg = count_job cron now alert_partition_count cfg"

definition read_cost_job ::
  "(string \<Rightarrow> string + (time \<Rightarrow> time option)) \<Rightarrow> time \<Rightarrow> count_alert_config option \<Rightarrow> alert_error + alert_job" where
  "read_cost_job cron now cfg = count_job cron now alert_compaction_read_cost cfg"

definition liveness_job ::
  "(string \<Rightarrow> string + (time \<Rightarrow> time option)) \<Rightarrow> time \<Rightarrow> liveness_alert_config option \<Rightarrow> alert_error + alert_job" where
  "liveness_job cron now cfg =
     (let c = liveness_config_with_defaults (case cfg of
            None \<Rightarrow> \<lparr>la_expression = '''', la_pending = 0, la_gap = 0, la_disable_pending = False\<rparr>
          | Some c \<Rightarrow> c) in
      case validate_liveness_config c of
        Some e \<Rightarrow> Inl e
      | None \<Rightarrow> (case new_job_payload 0 (la_pending c) (la_gap c) (la_disable_pending c) of
          Inl e \<Rightarrow> Inl e
        | Inr d \<Rightarrow> new_alert_job cron now (alert_job_name alert_worker_liveness) (la_expression c) d))"

definition progress_job ::
  "(string \<Rightarrow> string + (time \<Rightarrow> time option)) \<Rightarrow> time \<Rightarrow> progress_alert_config option \<Rightarrow> alert_error + alert_job" where
  "progress_job cron now cfg =
     (let c = progress_config_with_defaults (case cfg of
            None \<Rightarrow> \<lparr>pa_expression = '''', pa_maximum_age = 0, pa_pending = 0, pa_disable_pending = False\<rparr>
          | Some c \<Rightarrow> c) in
      case validate_progress_config c of
        Some e \<Rightarrow> Inl e
      | None \<Rightarrow> (case new_job_payload 0 (pa_pending c) 0 (pa_disable_pending c) of
          Inl e \<Rightarrow> Inl e
        | Inr d \<Rightarrow> new_alert_job cron now (alert_job_name alert_metrics_collector_progress) (pa_expression c)
            (d\<lparr>jp_maximum_age := pa_maximum_age c\<rparr>)))"

section \<open>The result of an evaluation\<close>

definition state_healthy :: string where "state_healthy = ''healthy''"
definition state_pending :: string where "state_pending = ''pending''"
definition state_active :: string where "state_active = ''active''"
definition state_insufficient :: string where "state_insufficient = ''insufficient_evidence''"

record snapshot_facts =
  ef_evaluated :: time
  ef_observed :: time
  ef_since :: time
  ef_duration :: duration
  ef_pending :: duration
  ef_gap :: duration
  ef_age :: duration
  ef_disable_pending :: bool
  ef_reason :: string

definition no_facts :: snapshot_facts where
  "no_facts = \<lparr>ef_evaluated = zero_time, ef_observed = zero_time, ef_since = zero_time, ef_duration = 0, ef_pending = 0,
     ef_gap = 0, ef_age = 0, ef_disable_pending = False, ef_reason = ''''\<rparr>"

record alert_evaluation =
  ae_state :: string
  ae_finding :: "alert option"
  ae_facts :: snapshot_facts

definition validate_evaluation :: "alert_evaluation \<Rightarrow> alert_error option" where
  "validate_evaluation s =
     (if ae_state s = state_healthy \<or> ae_state s = state_insufficient
      then (if ae_finding s \<noteq> None then Some Alert_Finding_Not_Nil else None)
      else if ae_state s = state_pending \<or> ae_state s = state_active
      then (case ae_finding s of
          None \<Rightarrow> Some Alert_Nil_Finding
        | Some a \<Rightarrow> if al_status a \<noteq> status_active then Some (Alert_Finding_Status (al_status a)) else None)
      else Some (Alert_Unknown_State (ae_state s)))"

definition new_evaluation :: "string \<Rightarrow> alert option \<Rightarrow> snapshot_facts \<Rightarrow> alert_error + alert_evaluation" where
  "new_evaluation state finding facts =
     (let s = \<lparr>ae_state = state, ae_finding = finding, ae_facts = facts\<rparr> in
      case validate_evaluation s of Some e \<Rightarrow> Inl e | None \<Rightarrow> Inr s)"

end
