(* ===== verification/Alert_Evaluation.thy ===== *)
theory Alert_Evaluation
  imports Alerts
begin

text \<open>
  Evaluating a check on retained evidence: \<open>pkg/alert/evaluation/history.go\<close> and the controllers of
  \<open>partitioncount\<close>, \<open>compactionreadcost\<close>, \<open>workerliveness\<close> and \<open>collectorprogress\<close>. Texts that the
  standard library formats come from \<open>text_format\<close>. Samples are ordered newest first.
\<close>

record text_format =
  fmt_quote :: "string \<Rightarrow> string"
  fmt_time :: "time \<Rightarrow> string"
  fmt_duration :: "duration \<Rightarrow> string"

section \<open>The history of a condition\<close>

type_synonym sample = "alert_evaluation stored_message"

fun walk_back :: "time \<Rightarrow> duration \<Rightarrow> time \<Rightarrow> sample list \<Rightarrow> time" where
  "walk_back start gap earliest [] = earliest"
| "walk_back start gap earliest (s # ss) =
     (if sm_created s = earliest then walk_back start gap earliest ss
      else if sm_created s < start then earliest
      else if gap < time_sub earliest (sm_created s) then earliest
      else if ae_state (sm_message s) \<noteq> state_active then earliest
      else walk_back start gap (sm_created s) ss)"

definition policy_facts :: "job_payload \<Rightarrow> time \<Rightarrow> snapshot_facts" where
  "policy_facts policy current = no_facts\<lparr>ef_evaluated := current, ef_pending := jp_pending policy,
     ef_gap := jp_gap policy, ef_disable_pending := jp_disable_pending policy\<rparr>"

text \<open>Why the newest sample settles nothing; \<open>Inl\<close> is an inconsistent sample.\<close>

definition newest_reason :: "sample \<Rightarrow> time \<Rightarrow> job_payload \<Rightarrow> alert_error + string" where
  "newest_reason newest current policy =
     (if current < sm_created newest then Inr ''measurement storage time is after evaluation time''
      else if jp_gap policy < time_sub current (sm_created newest) then Inr ''newest measurement exceeds MaximumGap''
      else (case validate_evaluation (sm_message newest) of
          Some e \<Rightarrow> Inl e
        | None \<Rightarrow> if ae_state (sm_message newest) = state_insufficient
                  then Inr ''newest measurement cannot establish the alert condition'' else Inr ''''))"

definition evaluate_history :: "sample list \<Rightarrow> time \<Rightarrow> job_payload \<Rightarrow> alert_error + alert_evaluation" where
  "evaluate_history samples current policy =
     (case validate_payload policy of
        Some e \<Rightarrow> Inl e
      | None \<Rightarrow>
          if current = zero_time then Inl (Alert_Argument ''current must not be zero'')
          else (case samples of
            [] \<Rightarrow> new_evaluation state_insufficient None
              ((policy_facts policy current)\<lparr>ef_reason := ''no retained measurement''\<rparr>)
          | newest # older \<Rightarrow>
              (let facts = (policy_facts policy current)\<lparr>ef_observed := sm_created newest\<rparr> in
               case newest_reason newest current policy of
                 Inl e \<Rightarrow> Inl e
               | Inr reason \<Rightarrow>
                   if reason \<noteq> '''' then new_evaluation state_insufficient None (facts\<lparr>ef_reason := reason\<rparr>)
                   else if ae_state (sm_message newest) \<noteq> state_active \<or> jp_disable_pending policy
                   then new_evaluation (ae_state (sm_message newest)) (ae_finding (sm_message newest)) facts
                   else (let earliest = walk_back (current - payload_window policy) (jp_gap policy) (sm_created newest) older;
                             observed = time_sub (sm_created newest) earliest in
                         new_evaluation (if observed < jp_pending policy then state_pending else state_active)
                           (ae_finding (sm_message newest))
                           (facts\<lparr>ef_since := earliest, ef_duration := observed\<rparr>)))))"

fun evaluate_samples ::
  "(measurement \<Rightarrow> time \<Rightarrow> alert_error + alert_evaluation) \<Rightarrow> measurement stored_message list
   \<Rightarrow> alert_error + sample list" where
  "evaluate_samples eval [] = Inr []"
| "evaluate_samples eval (m # ms) =
     (case eval (sm_message m) (sm_created m) of
        Inl e \<Rightarrow> Inl e
      | Inr r \<Rightarrow> map_sum id ((#) \<lparr>sm_id = sm_id m, sm_created = sm_created m, sm_message = r\<rparr>) (evaluate_samples eval ms))"

definition insufficient :: "alert_error + alert_evaluation" where
  "insufficient = new_evaluation state_insufficient None no_facts"

definition healthy :: "alert_error + alert_evaluation" where
  "healthy = new_evaluation state_healthy None no_facts"

definition active_with :: "alert_error + alert \<Rightarrow> alert_error + alert_evaluation" where
  "active_with built = (case built of Inl e \<Rightarrow> Inl e | Inr a \<Rightarrow> new_evaluation state_active (Some a) no_facts)"

text \<open>The checks of identity and value that the evaluators share in form: \<open>float64(math.MaxInt64)\<close> is
2 to the power 63.\<close>

definition measures :: "diagnostic_metric \<Rightarrow> measurement \<Rightarrow> bool" where
  "measures declared m \<longleftrightarrow>
     me_name m = dm_name declared \<and> me_kind m = kind_gauge \<and> me_unit m = dm_unit declared"

definition whole_count :: "float64 \<Rightarrow> int option" where
  "whole_count v =
     (case v of
        Finite q \<Rightarrow> if q < 0 \<or> of_int (2 ^ 63) \<le> q \<or> of_int (truncate_rat q) \<noteq> q then None else Some (truncate_rat q)
      | _ \<Rightarrow> None)"

section \<open>Partition count\<close>

definition locks_per_partition :: int where "locks_per_partition = 5"

definition partition_lock_ceiling :: "int \<Rightarrow> int \<Rightarrow> int \<Rightarrow> int" where
  "partition_lock_ceiling locks connections prepared = locks * (connections + prepared) div locks_per_partition"

definition new_partition_count_alert ::
  "text_format \<Rightarrow> owner \<Rightarrow> int \<Rightarrow> int \<Rightarrow> int \<Rightarrow> time \<Rightarrow> alert_error + alert" where
  "new_partition_count_alert fmt ow n lock_ceiling threshold t =
     (if threshold \<le> 0 then Inl (Alert_Argument ''threshold must be > 0'')
      else if n < threshold then Inl (Alert_Below_Threshold n threshold)
      else new_alert (da_name alert_partition_count) (Some ow) status_active (da_severity alert_partition_count)
        (''stream '' @ fmt_quote fmt (ow_name ow) @ '' has '' @ show_int n
           @ '' partitions, approaching the lock-table ceiling (~'' @ show_int lock_ceiling @ '')'') t
        \<lparr>ao_detail = ''Dropping or destroying the stream locks ~5 relations per partition in one transaction; past the lock_ceiling that fails with ''
           @ [CHR 0x22] @ ''out of shared memory'' @ [CHR 0x22] @ ''.'',
         ao_hint = ''Lower the stream'' @ [CHR 0x27] @ ''s retention so the janitor drops old partitions, or raise max_locks_per_transaction.'',
         ao_data = [(''partition_count'', Json_Int n), (''lock_ceiling'', Json_Int lock_ceiling), (''threshold'', Json_Int threshold)],
         ao_metadata = []\<rparr>)"

definition evaluate_partition_count ::
  "text_format \<Rightarrow> owner \<Rightarrow> int \<Rightarrow> int \<Rightarrow> measurement \<Rightarrow> time \<Rightarrow> alert_error + alert_evaluation" where
  "evaluate_partition_count fmt ow threshold lock_ceiling m t =
     (if \<not> measures metric_stream_partitions m then insufficient
      else (case whole_count (me_value m) of
          None \<Rightarrow> insufficient
        | Some n \<Rightarrow>
            if n < threshold then healthy
            else active_with (new_partition_count_alert fmt ow n lock_ceiling threshold t)))"

definition warn_divisor :: int where "warn_divisor = 2"

definition partition_threshold :: "job_payload \<Rightarrow> int \<Rightarrow> int" where
  "partition_threshold policy lock_ceiling = (if jp_threshold policy = 0 then lock_ceiling div warn_divisor else jp_threshold policy)"

definition partition_count_history ::
  "text_format \<Rightarrow> owner \<Rightarrow> job_payload \<Rightarrow> int \<Rightarrow> measurement_history \<Rightarrow> alert_error + alert_evaluation" where
  "partition_count_history fmt ow policy lock_ceiling history =
     (case evaluate_samples (evaluate_partition_count fmt ow (partition_threshold policy lock_ceiling) lock_ceiling) (mh_messages history) of
        Inl e \<Rightarrow> Inl e
      | Inr samples \<Rightarrow> evaluate_history samples (mh_evaluated history) policy)"

text \<open>The start of each stream check: the owner, the policy, then the history of the series. \<open>reads\<close> is
the registry as the read of the history finds it, with the database time.\<close>

definition checked_policy :: "owner \<Rightarrow> owner_kind \<Rightarrow> job_payload \<Rightarrow> alert_error + job_payload" where
  "checked_policy ow k policy =
     (if \<not> validate_owner ow k then Inl Alert_Wrong_Owner
      else (let p = payload_with_defaults policy in
        case validate_payload p of Some e \<Rightarrow> Inl e | None \<Rightarrow> Inr p))"

definition series_history ::
  "(string \<Rightarrow> measurement option) \<Rightarrow> diagnostic_metric \<Rightarrow> owner \<Rightarrow> job_payload \<Rightarrow> string + time \<times> registry
   \<Rightarrow> alert_error + measurement_history" where
  "series_history decode declared ow policy reads =
     (case reads of
        Inl e \<Rightarrow> Inl (Alert_Read e)
      | Inr (now, g) \<Rightarrow>
          (case get_measurement_history decode g (measurement_key (dm_name declared) [(''stream'', ow_name ow)])
                  (payload_window policy) now of
             Inl e \<Rightarrow> Inl (Alert_Metric e)
           | Inr h \<Rightarrow> Inr h))"

definition evaluate_partition_alert ::
  "(string \<Rightarrow> measurement option) \<Rightarrow> text_format \<Rightarrow> owner \<Rightarrow> job_payload \<Rightarrow> string + int \<Rightarrow> string + time \<times> registry
   \<Rightarrow> alert_error + alert_evaluation" where
  "evaluate_partition_alert decode fmt ow policy lock_ceiling reads =
     (case checked_policy ow Owner_Stream policy of
        Inl e \<Rightarrow> Inl e
      | Inr p \<Rightarrow> (case lock_ceiling of
          Inl e \<Rightarrow> Inl (Alert_Read e)
        | Inr c \<Rightarrow> (case series_history decode metric_stream_partitions ow p reads of
            Inl e \<Rightarrow> Inl e
          | Inr h \<Rightarrow> partition_count_history fmt ow p c h)))"

section \<open>Compaction read cost\<close>

definition warn_partitions :: int where "warn_partitions = 10000"

definition new_read_cost_alert :: "text_format \<Rightarrow> owner \<Rightarrow> int \<Rightarrow> int \<Rightarrow> time \<Rightarrow> alert_error + alert" where
  "new_read_cost_alert fmt ow n threshold t =
     (if threshold \<le> 0 then Inl (Alert_Argument ''threshold must be > 0'')
      else if n < threshold then Inl (Alert_Below_Threshold n threshold)
      else new_alert (da_name alert_compaction_read_cost) (Some ow) status_active (da_severity alert_compaction_read_cost)
        (''compacted stream '' @ fmt_quote fmt (ow_name ow) @ '' has '' @ show_int n
           @ '' partitions; latest-key replay cost grows ~10'' @ [CHR 0xC2, CHR 0xB5] @ ''s per partition'') t
        \<lparr>ao_detail = ''A consumer replaying a never-superseded key scans from that key'' @ [CHR 0x27]
           @ ''s partition to the current tail; the cost grows linearly with partition count and never amortizes.'',
         ao_hint = ''Compact more aggressively or lower retention so old partitions drop, bounding replay cost.'',
         ao_data = [(''partition_count'', Json_Int n), (''threshold'', Json_Int threshold)], ao_metadata = []\<rparr>)"

definition evaluate_read_cost ::
  "text_format \<Rightarrow> owner \<Rightarrow> int \<Rightarrow> measurement \<Rightarrow> time \<Rightarrow> alert_error + alert_evaluation" where
  "evaluate_read_cost fmt ow threshold m t =
     (if \<not> measures metric_stream_partitions m then insufficient
      else (case whole_count (me_value m) of
          None \<Rightarrow> insufficient
        | Some n \<Rightarrow> (case me_metadata m of
            None \<Rightarrow> insufficient
          | Some doc \<Rightarrow> (case decode_partition_metadata doc of
              None \<Rightarrow> Inl Alert_Undecodable
            | Some status \<Rightarrow>
                if status = ''uncompacted'' then healthy
                else if status \<noteq> ''compacted'' then insufficient
                else if n < threshold then healthy
                else active_with (new_read_cost_alert fmt ow n threshold t)))))"

definition read_cost_history ::
  "text_format \<Rightarrow> owner \<Rightarrow> job_payload \<Rightarrow> measurement_history \<Rightarrow> alert_error + alert_evaluation" where
  "read_cost_history fmt ow policy history =
     (let threshold = (if jp_threshold policy = 0 then warn_partitions else jp_threshold policy) in
      case evaluate_samples (evaluate_read_cost fmt ow threshold) (mh_messages history) of
        Inl e \<Rightarrow> Inl e
      | Inr samples \<Rightarrow> evaluate_history samples (mh_evaluated history) policy)"

definition evaluate_read_cost_alert ::
  "(string \<Rightarrow> measurement option) \<Rightarrow> text_format \<Rightarrow> owner \<Rightarrow> job_payload \<Rightarrow> string + time \<times> registry
   \<Rightarrow> alert_error + alert_evaluation" where
  "evaluate_read_cost_alert decode fmt ow policy reads =
     (case checked_policy ow Owner_Stream policy of
        Inl e \<Rightarrow> Inl e
      | Inr p \<Rightarrow> (case series_history decode metric_stream_partitions ow p reads of
          Inl e \<Rightarrow> Inl e
        | Inr h \<Rightarrow> read_cost_history fmt ow p h))"

section \<open>Worker liveness\<close>

fun join_with :: "string \<Rightarrow> string list \<Rightarrow> string" where
  "join_with sep [] = ''''"
| "join_with sep [s] = s"
| "join_with sep (s # ss) = s @ sep @ join_with sep ss"

definition worker_owner_name :: "unclaimed_worker \<Rightarrow> string" where
  "worker_owner_name w = (case uw_owner w of None \<Rightarrow> '''' | Some o' \<Rightarrow> ow_name o')"

text \<open>The owners in the order in which they first occur, each with its workers.\<close>

definition unclaimed_by_owner :: "unclaimed_worker list \<Rightarrow> string" where
  "unclaimed_by_owner ws =
     join_with '', '' (map (\<lambda>n. n @ '' ('' @ join_with '', '' (map uw_name (filter (\<lambda>w. worker_owner_name w = n) ws)) @ '')'')
       (rev (remdups (rev (map worker_owner_name ws)))))"

definition worker_data :: "unclaimed_worker \<Rightarrow> json" where
  "worker_data w = Json_Object [(''worker'', Json_String (uw_name w)), (''owner'', Json_String (worker_owner_name w)),
     (''owner_kind'', Json_String (case uw_owner w of None \<Rightarrow> '''' | Some o' \<Rightarrow> owner_kind_text (kind_of o'))),
     (''target_instances'', Json_Int (uw_target w))]"

definition new_liveness_alert ::
  "text_format \<Rightarrow> owner \<Rightarrow> unclaimed_worker list \<Rightarrow> time \<Rightarrow> alert_error + alert" where
  "new_liveness_alert fmt ow ws t =
     (if ws = [] then Inl (Alert_Argument ''unclaimed must not be empty'')
      else new_alert (da_name alert_worker_liveness) (Some ow) status_active (da_severity alert_worker_liveness)
        (''stream '' @ fmt_quote fmt (ow_name ow) @ '' has no live instance on '' @ show_int (int (length ws)) @ '' of its worker rows'') t
        \<lparr>ao_detail = ''Nothing is running: '' @ unclaimed_by_owner ws
           @ ''. A worker row with no live instance does no work: expired partitions are not dropped, exceptions are not retried, and the group'' @ [CHR 0x27] @ ''s cursor stops advancing.'',
         ao_hint = ''Run '' @ [CHR 0x22] @ ''sqlstreams manager run'' @ [CHR 0x22] @ '' in a process that stays up, or start a consumer on the stream -- either one claims these rows.'',
         ao_data = [(''unclaimed_count'', Json_Int (int (length ws))), (''workers'', Json_Array (map worker_data ws))],
         ao_metadata = []\<rparr>)"

text \<open>What makes the details of a worker unusable: a nil pointer, no name or owner, another stream, or
a suspended worker.\<close>

definition usable_worker :: "owner \<Rightarrow> unclaimed_worker option \<Rightarrow> bool" where
  "usable_worker ow p \<longleftrightarrow>
     (case p of
        None \<Rightarrow> False
      | Some w \<Rightarrow> uw_name w \<noteq> '''' \<and>
          (case uw_owner w of None \<Rightarrow> False | Some o' \<Rightarrow> ow_stream o' = ow_stream ow \<and> uw_target w \<noteq> 0))"

definition evaluate_liveness ::
  "text_format \<Rightarrow> owner \<Rightarrow> measurement \<Rightarrow> time \<Rightarrow> alert_error + alert_evaluation" where
  "evaluate_liveness fmt ow m t =
     (if \<not> measures metric_stream_unclaimed_workers m then insufficient
      else (case me_value m of
          Not_A_Number \<Rightarrow> insufficient
        | Infinite neg \<Rightarrow>
            if neg then insufficient
            else (case me_metadata m of
                None \<Rightarrow> insufficient
              | Some doc \<Rightarrow> (case decode_workers doc of None \<Rightarrow> Inl Alert_Undecodable | Some ws \<Rightarrow> insufficient))
        | Finite v \<Rightarrow>
            if v < 0 \<or> of_int (truncate_rat v) \<noteq> v then insufficient
            else (case me_metadata m of
                None \<Rightarrow> insufficient
              | Some doc \<Rightarrow> (case decode_workers doc of
                  None \<Rightarrow> Inl Alert_Undecodable
                | Some None \<Rightarrow> insufficient
                | Some (Some ws) \<Rightarrow>
                    if float_of_int (int (length ws)) \<noteq> Finite v then insufficient
                    else if \<not> list_all (usable_worker ow) ws then insufficient
                    else if v = 0 then healthy
                    else active_with (new_liveness_alert fmt ow (map the ws) t)))))"

definition liveness_history ::
  "text_format \<Rightarrow> owner \<Rightarrow> job_payload \<Rightarrow> measurement_history \<Rightarrow> alert_error + alert_evaluation" where
  "liveness_history fmt ow policy history =
     (case evaluate_samples (evaluate_liveness fmt ow) (mh_messages history) of
        Inl e \<Rightarrow> Inl e
      | Inr samples \<Rightarrow> evaluate_history samples (mh_evaluated history) policy)"

definition evaluate_liveness_alert ::
  "(string \<Rightarrow> measurement option) \<Rightarrow> text_format \<Rightarrow> owner \<Rightarrow> job_payload \<Rightarrow> string + time \<times> registry
   \<Rightarrow> alert_error + alert_evaluation" where
  "evaluate_liveness_alert decode fmt ow policy reads =
     (case checked_policy ow Owner_Stream policy of
        Inl e \<Rightarrow> Inl e
      | Inr p \<Rightarrow> (case series_history decode metric_stream_unclaimed_workers ow p reads of
          Inl e \<Rightarrow> Inl e
        | Inr h \<Rightarrow> liveness_history fmt ow p h))"

section \<open>Collector progress\<close>

text \<open>\<open>time.Unix\<close> of whole seconds: the seconds since the year one are an \<open>int64\<close>, which wraps.\<close>

definition unix_time :: "int \<Rightarrow> time" where
  "unix_time sec = ((sec + 62135596800 + 2 ^ 63) mod 2 ^ 64 - 2 ^ 63 - 62135596800) * second"

text \<open>\<open>None\<close>: the stored completion is unusable. \<open>Some zero_time\<close>: there is none.\<close>

definition completion_timestamp :: "measurement stored_message option \<Rightarrow> time \<Rightarrow> time option" where
  "completion_timestamp completion current =
     (case completion of
        None \<Rightarrow> Some zero_time
      | Some c \<Rightarrow>
          if \<not> measures metric_collector_completed_timestamp (sm_message c) then None
          else (case me_value (sm_message c) of
              Finite v \<Rightarrow>
                if v \<le> 0 \<or> of_int (2 ^ 63) \<le> v \<or> of_int (truncate_rat v) \<noteq> v then None
                else (let completed = unix_time (truncate_rat v) in
                  if current < completed \<or> current < sm_created c then None else Some completed)
            | _ \<Rightarrow> None))"

text \<open>The leases are pairs of creation and expiry, newest creation first.\<close>

fun lease_start_from :: "time \<Rightarrow> (time \<times> time) list \<Rightarrow> time" where
  "lease_start_from started [] = started"
| "lease_start_from started ((created, expires) # ls) =
     (if expires < started then lease_start_from started ls else lease_start_from created ls)"

fun continuous_lease_start :: "time \<Rightarrow> (time \<times> time) list \<Rightarrow> time" where
  "continuous_lease_start evaluated [] = zero_time"
| "continuous_lease_start evaluated ((created, expires) # ls) =
     (if evaluated < expires then lease_start_from created ls else continuous_lease_start evaluated ls)"

definition new_progress_alert :: "text_format \<Rightarrow> owner \<Rightarrow> time \<Rightarrow> duration \<Rightarrow> time \<Rightarrow> alert_error + alert" where
  "new_progress_alert fmt ow completed maximum_age t =
     new_alert (da_name alert_metrics_collector_progress) (Some ow) status_active severity_warn
       (if completed = zero_time then ''metrics collector has no retained completed pass''
        else ''metrics collector completion is overdue'') t
       \<lparr>ao_detail = (if completed = zero_time
           then ''No retained collector completion is available while system-manager leases remain continuous.''
           else ''The last completed pass was at '' @ fmt_time fmt completed @ ''; the maximum completion age is ''
             @ fmt_duration fmt maximum_age @ ''.''),
        ao_hint = ''Inspect the metrics_collector worker and its failure logs; restore successful collection.'',
        ao_data = [(''completed_at'', Json_String (fmt_time fmt completed)), (''maximum_age'', Json_Int maximum_age)],
        ao_metadata = []\<rparr>"

definition progress_facts :: "time \<Rightarrow> duration \<Rightarrow> job_payload \<Rightarrow> snapshot_facts" where
  "progress_facts current maximum_age policy = no_facts\<lparr>ef_evaluated := current, ef_pending := jp_pending policy,
     ef_age := maximum_age, ef_disable_pending := jp_disable_pending policy\<rparr>"

definition progress_since :: "time \<Rightarrow> time \<Rightarrow> time \<Rightarrow> duration \<Rightarrow> job_payload \<Rightarrow> time" where
  "progress_since current coverage completed maximum_age policy =
     (let since = max coverage (current - jp_pending policy) in
      if completed = zero_time then since else max since (completed + maximum_age))"

definition evaluate_progress ::
  "text_format \<Rightarrow> owner \<Rightarrow> measurement stored_message option \<Rightarrow> time \<times> (time \<times> time) list \<Rightarrow> duration \<Rightarrow> job_payload
   \<Rightarrow> alert_error + alert_evaluation" where
  "evaluate_progress fmt ow completion history maximum_age policy =
     (let current = fst history; facts = progress_facts current maximum_age policy in
      case completion_timestamp completion current of
        None \<Rightarrow> new_evaluation state_insufficient None
          (facts\<lparr>ef_reason := ''collector completion timestamp is unusable or after evaluation time''\<rparr>)
      | Some completed \<Rightarrow>
          if completed \<noteq> zero_time \<and> time_sub current completed < maximum_age
          then new_evaluation state_healthy None (facts\<lparr>ef_observed := completed\<rparr>)
          else (let coverage = continuous_lease_start current (snd history) in
            if coverage = zero_time
            then new_evaluation state_insufficient None
              (facts\<lparr>ef_observed := completed, ef_reason := ''no current manager lease coverage''\<rparr>)
            else (let since = progress_since current coverage completed maximum_age policy;
                      observed = time_sub current since in
              case new_progress_alert fmt ow completed maximum_age current of
                Inl e \<Rightarrow> Inl e
              | Inr a \<Rightarrow> new_evaluation
                  (if \<not> jp_disable_pending policy \<and> observed < jp_pending policy then state_pending else state_active) (Some a)
                  (facts\<lparr>ef_observed := completed, ef_since := since, ef_duration := observed\<rparr>))))"

text \<open>\<open>poll_rate\<close> reads the rate out of the metadata of the collector's worker row, zero when there is
none.\<close>

definition progress_maximum_age ::
  "('m \<Rightarrow> (string + duration)) \<Rightarrow> 'm view \<Rightarrow> owner \<Rightarrow> duration \<Rightarrow> alert_error + duration" where
  "progress_maximum_age poll_rate v ow configured =
     (if 0 < configured then Inr configured
      else (case v of
          Inl e \<Rightarrow> Inl (Alert_Metric e)
        | Inr (now, p) \<Rightarrow> (case get_worker (cp_workers p) ''metrics_collector'' ow of
          Inl e \<Rightarrow> Inl (Alert_Worker e)
        | Inr w \<Rightarrow> (case poll_rate (dw_metadata w) of
            Inl e \<Rightarrow> Inl (Alert_Read e)
          | Inr rate \<Rightarrow>
              if rate \<le> 0 \<or> max_int64 div 3 < rate then Inl (Alert_Argument ''poll_rate'')
              else Inr (max (2 * minute) (3 * rate))))))"

definition evaluate_progress_alert ::
  "(string \<Rightarrow> measurement option) \<Rightarrow> text_format \<Rightarrow> ('m \<Rightarrow> string + duration) \<Rightarrow> owner \<Rightarrow> job_payload
   \<Rightarrow> (nat \<Rightarrow> 'm view) \<Rightarrow> alert_error + alert_evaluation" where
  "evaluate_progress_alert decode fmt poll_rate ow policy views =
     (case checked_policy ow Owner_System policy of
        Inl e \<Rightarrow> Inl e
      | Inr p \<Rightarrow>
          (case progress_maximum_age poll_rate (views 0) ow (jp_maximum_age p) of
             Inl e \<Rightarrow> Inl e
           | Inr maximum_age \<Rightarrow>
          (case views 1 of
             Inl e \<Rightarrow> Inl (Alert_Metric e)
           | Inr (t1, p1) \<Rightarrow>
          (case get_measurement decode (cp_registry p1) (dm_name metric_collector_completed_timestamp) of
             Inl e \<Rightarrow> Inl (Alert_Metric e)
           | Inr completion \<Rightarrow>
          (case views 2 of
             Inl e \<Rightarrow> Inl (Alert_Metric e)
           | Inr (t2, p2) \<Rightarrow>
          (case get_worker (cp_workers p2) ''manager'' ow of
             Inl e \<Rightarrow> Inl (Alert_Worker e)
           | Inr w \<Rightarrow>
          (case views 3 of
             Inl e \<Rightarrow> Inl (Alert_Metric e)
           | Inr (t3, p3) \<Rightarrow>
          (case instance_history (cp_workers p3) (dw_id w) (jp_pending p) t3 of
             Inl e \<Rightarrow> Inl (Alert_Worker e)
           | Inr history \<Rightarrow> evaluate_progress fmt ow completion history maximum_age p))))))))"

end
