(* ===== verification/Alert_Record.thy ===== *)
theory Alert_Record
  imports Alert_Evaluation Produce_In_Tx
begin

text \<open>
  Recording what a check found: \<open>pkg/alert/controller\<close>, and the pass over the streams that the three
  stream checks share (\<open>evaluateStreams\<close> of their \<open>instance.go\<close>). The classification and the append run
  in one transaction that holds the lock on the head of the alert's key; \<open>encode\<close> and \<open>decode\<close> are the
  marshaller and unmarshaller of the message type.
\<close>

section \<open>What to publish\<close>

datatype alert_record_outcome = Outcome_Active | Outcome_Resolved | Outcome_Nothing

definition active_head :: "alert stored_message option \<Rightarrow> bool" where
  "active_head head \<longleftrightarrow> (case head of None \<Rightarrow> False | Some h \<Rightarrow> al_status (sm_message h) = status_active)"

definition classify_alert ::
  "alert option \<Rightarrow> alert stored_message option \<Rightarrow> duration \<Rightarrow> time \<Rightarrow> alert_error + alert option" where
  "classify_alert found head repeat clock =
     (case found of
        Some a \<Rightarrow>
          (case head of
             None \<Rightarrow> Inr (Some a)
           | Some h \<Rightarrow>
               if al_status (sm_message h) \<noteq> status_active then Inr (Some a)
               else if al_severity a \<noteq> al_severity (sm_message h) then Inr (Some a)
               else if repeat \<le> time_sub clock (sm_created h) then Inr (Some a)
               else Inr None)
      | None \<Rightarrow>
          (case head of
             None \<Rightarrow> Inr None
           | Some h \<Rightarrow>
               if al_status (sm_message h) = status_active
               then map_sum id Some (new_alert (al_name (sm_message h)) (al_owner (sm_message h)) status_resolved
                 (al_severity (sm_message h)) (''resolved: '' @ al_message (sm_message h)) clock no_alert_options)
               else Inr None))"

definition status_changed :: "alert \<Rightarrow> alert stored_message option \<Rightarrow> bool" where
  "status_changed published head \<longleftrightarrow>
     (case head of None \<Rightarrow> True | Some h \<Rightarrow> al_status published \<noteq> al_status (sm_message h))"

section \<open>The controller\<close>

record alert_controller =
  ac_stream :: int
  ac_partition_size :: int
  ac_repeat :: duration

definition new_alert_controller :: "int \<Rightarrow> int \<Rightarrow> duration \<Rightarrow> duration \<Rightarrow> alert_error + alert_controller" where
  "new_alert_controller stream psize retention repeat =
     (if repeat \<le> 0 then Inl (Alert_Argument ''repeat must be > 0'')
      else Inr \<lparr>ac_stream = stream, ac_partition_size = psize,
        ac_repeat = (if 0 < retention \<and> retention \<le> repeat then retention div 2 else repeat)\<rparr>)"

definition alert_options_of :: "message_options option \<Rightarrow> string \<Rightarrow> string \<Rightarrow> produce_options" where
  "alert_options_of opts routing key =
     \<lparr>po_routing_key = routing, po_message_key = key,
      po_compaction = Some \<lparr>co_enable = True, co_rank = 0\<rparr>, po_idempotency_key = '''', po_message = opts\<rparr>"

definition decode_head :: "(string \<Rightarrow> alert option) \<Rightarrow> stored_row option \<Rightarrow> alert stored_message option option" where
  "decode_head decode row =
     (case row of None \<Rightarrow> Some None | Some r \<Rightarrow> map_option Some (stored_as decode r))"

text \<open>The body of the transaction. The read of the head's message keeps a lock on the log, which the
creation of a partition on another connection waits for.\<close>

definition record_body ::
  "(string \<Rightarrow> alert option) \<Rightarrow> (alert \<Rightarrow> string option) \<Rightarrow> (nat \<Rightarrow> turn) \<Rightarrow> retry_policy \<Rightarrow> message_options option
   \<Rightarrow> alert_controller \<Rightarrow> string \<Rightarrow> alert option \<Rightarrow> uuid \<Rightarrow> time \<Rightarrow> turn \<Rightarrow> produce_state
   \<Rightarrow> (alert_error option \<times> wire_error + alert stored_message option \<times> alert option) \<times> produce_state" where
  "record_body decode encode script heals opts c key found fresh clock t s =
     (case lock_head_checked (ps_db s) (ac_stream c) key (tn_now t) of
        (Inl e, db) \<Rightarrow> (Inl (Some (Alert_Read ''lock head''), []), s)
      | (Inr row, db) \<Rightarrow>
          (let s1 = s\<lparr>ps_db := db\<rparr> in
           case decode_head decode row of
             None \<Rightarrow> (Inl (Some Alert_Undecodable, []), s1)
           | Some head \<Rightarrow>
               (case classify_alert found head (ac_repeat c) clock of
                  Inl e \<Rightarrow> (Inl (Some e, []), s1)
                | Inr None \<Rightarrow> (Inr (head, None), s1)
                | Inr (Some a) \<Rightarrow>
                    (case alert_routing_key a of
                       None \<Rightarrow> (Inl (Some Alert_Panic, []), s1)
                     | Some routing \<Rightarrow>
                         (case append_in_tx_checked script (row \<noteq> None) heals (ac_stream c) (ac_partition_size c) fresh
                             (\<lambda>_. Inr \<lparr>pm_encoded = encode a, pm_version = 1\<rparr>) (alert_options_of opts routing key) s1 of
                            (Inl e, s2) \<Rightarrow> (Inl (Some (Alert_Write ''append''), []), s2)
                          | (Inr appended, s2) \<Rightarrow> (Inr (head, Some a), s2))))))"

text \<open>\<open>Record\<close>; beside the outcome it returns whether the change of status was logged.\<close>

definition record_alert ::
  "(string \<Rightarrow> alert option) \<Rightarrow> (alert \<Rightarrow> string option) \<Rightarrow> (nat \<Rightarrow> turn) \<Rightarrow> retry_policy \<Rightarrow> message_options option
   \<Rightarrow> alert_controller \<Rightarrow> uuid \<Rightarrow> time \<Rightarrow> string \<Rightarrow> owner \<Rightarrow> alert_evaluation \<Rightarrow> produce_state
   \<Rightarrow> (alert_error + alert_record_outcome \<times> bool) \<times> produce_state" where
  "record_alert decode encode script heals opts c fresh clock name ow result s =
     (case validate_evaluation result of
        Some e \<Rightarrow> (Inl e, s)
      | None \<Rightarrow>
          if ae_state result = state_pending \<or> ae_state result = state_insufficient then (Inr (Outcome_Nothing, False), s)
          else (case in_transaction script
              (record_body decode encode script heals opts c (alert_message_key name ow) (ae_finding result) fresh clock)
              None s of
             (Inl (Some e, _), s') \<Rightarrow> (Inl e, s')
           | (Inl (None, _), s') \<Rightarrow> (Inl (Alert_Write ''transaction''), s')
           | (Inr (head, None), s') \<Rightarrow> (Inr (Outcome_Nothing, False), s')
           | (Inr (head, Some a), s') \<Rightarrow>
               (Inr (if al_status a = status_resolved then Outcome_Resolved else Outcome_Active, status_changed a head), s')))"

section \<open>A check over all streams\<close>

record check_counts =
  ck_evaluated :: int
  ck_failed :: int
  ck_published :: int
  ck_resolved :: int

definition count_failure :: "check_counts \<Rightarrow> check_counts" where
  "count_failure k = k\<lparr>ck_failed := ck_failed k + 1\<rparr>"

definition count_outcome :: "string \<Rightarrow> alert_record_outcome \<Rightarrow> check_counts \<Rightarrow> check_counts" where
  "count_outcome state outcome k =
     (case outcome of
        Outcome_Nothing \<Rightarrow> if state = state_insufficient then count_failure k else k
      | Outcome_Active \<Rightarrow> k\<lparr>ck_published := ck_published k + 1\<rparr>
      | Outcome_Resolved \<Rightarrow> k\<lparr>ck_resolved := ck_resolved k + 1\<rparr>)"

text \<open>\<open>evaluate\<close> and \<open>record\<close> answer for the stream they are called for, on the state they find.\<close>

fun check_streams ::
  "(owner \<Rightarrow> 's \<Rightarrow> (alert_error + alert_evaluation) \<times> 's)
   \<Rightarrow> (owner \<Rightarrow> alert_evaluation \<Rightarrow> 's \<Rightarrow> (alert_error + alert_record_outcome \<times> bool) \<times> 's)
   \<Rightarrow> stream_config_row list \<Rightarrow> check_counts \<Rightarrow> alert_error list \<Rightarrow> 's \<Rightarrow> (check_counts \<times> alert_error list) \<times> 's" where
  "check_streams eval record [] k errs s = ((k, errs), s)"
| "check_streams eval record (r # rs) k errs s =
     (let k = k\<lparr>ck_evaluated := ck_evaluated k + 1\<rparr> in
      case new_stream_owner (st_system r) (st_id r) (st_name r) of
        None \<Rightarrow> check_streams eval record rs (count_failure k) (errs @ [Alert_Wrong_Owner]) s
      | Some ow \<Rightarrow> (case eval ow s of
          (Inl e, s1) \<Rightarrow> check_streams eval record rs (count_failure k) (errs @ [e]) s1
        | (Inr result, s1) \<Rightarrow> (case record ow result s1 of
            (Inl e, s2) \<Rightarrow> check_streams eval record rs (count_failure k) (errs @ [e]) s2
          | (Inr (outcome, changed), s2) \<Rightarrow>
              check_streams eval record rs (count_outcome (ae_state result) outcome k) errs s2)))"

definition no_counts :: check_counts where
  "no_counts = \<lparr>ck_evaluated = 0, ck_failed = 0, ck_published = 0, ck_resolved = 0\<rparr>"

fun all_measurements :: "(measurement_error + measurement) list \<Rightarrow> measurement_error + measurement list" where
  "all_measurements [] = Inr []"
| "all_measurements (m # ms) =
     (case m of Inl e \<Rightarrow> Inl e | Inr x \<Rightarrow> map_sum id ((#) x) (all_measurements ms))"

definition check_summary :: "diagnostic_alert \<Rightarrow> check_counts \<Rightarrow> time \<Rightarrow> measurement_error + measurement list" where
  "check_summary declared k t =
     all_measurements (map (\<lambda>(m, v). new_built_in_measurement m (float_of_int v) [(''alert'', da_name declared)] t)
       [(metric_check_streams_evaluated, ck_evaluated k), (metric_check_streams_failed, ck_failed k),
        (metric_check_published_alerts, ck_published k), (metric_check_resolved_alerts, ck_resolved k)])"

text \<open>The pass: \<open>streams\<close> is the listing or its failure, \<open>write\<close> produces the summary in one batch. The
joined errors are nil when the list is empty.\<close>

definition evaluate_streams ::
  "(owner \<Rightarrow> 's \<Rightarrow> (alert_error + alert_evaluation) \<times> 's)
   \<Rightarrow> (owner \<Rightarrow> alert_evaluation \<Rightarrow> 's \<Rightarrow> (alert_error + alert_record_outcome \<times> bool) \<times> 's)
   \<Rightarrow> (measurement list \<Rightarrow> 's \<Rightarrow> (string + unit) \<times> 's) \<Rightarrow> diagnostic_alert \<Rightarrow> time
   \<Rightarrow> alert_error + stream_config_row list \<Rightarrow> 's \<Rightarrow> alert_error list \<times> 's" where
  "evaluate_streams eval record write declared clock streams s =
     (case streams of
        Inl e \<Rightarrow> ([e], s)
      | Inr rs \<Rightarrow> (case check_streams eval record rs no_counts [] s of
          ((k, errs), s1) \<Rightarrow> (case check_summary declared k clock of
              Inl e \<Rightarrow> (errs @ [Alert_Metric (Metric_Built e)], s1)
            | Inr ms \<Rightarrow> (case write ms s1 of
                (Inl e, s2) \<Rightarrow> (errs @ [Alert_Write e], s2)
              | (Inr _, s2) \<Rightarrow> (errs, s2)))))"

text \<open>The one check of the installation, on the system owner.\<close>

definition evaluate_system ::
  "(owner \<Rightarrow> 's \<Rightarrow> (alert_error + alert_evaluation) \<times> 's)
   \<Rightarrow> (owner \<Rightarrow> alert_evaluation \<Rightarrow> 's \<Rightarrow> (alert_error + alert_record_outcome \<times> bool) \<times> 's)
   \<Rightarrow> int \<Rightarrow> 's \<Rightarrow> alert_error option \<times> 's" where
  "evaluate_system eval record sys s =
     (case new_system_owner sys of
        None \<Rightarrow> (Some Alert_Wrong_Owner, s)
      | Some ow \<Rightarrow> (case eval ow s of
          (Inl e, s1) \<Rightarrow> (Some e, s1)
        | (Inr result, s1) \<Rightarrow> (case record ow result s1 of
            (Inl e, s2) \<Rightarrow> (Some e, s2)
          | (Inr _, s2) \<Rightarrow> (None, s2))))"

section \<open>Configuration of an alert worker\<close>

record alert_worker_config =
  aw_instance_ttl :: duration
  aw_repeat :: duration

definition alert_worker_with_defaults :: "alert_worker_config \<Rightarrow> alert_worker_config" where
  "alert_worker_with_defaults c = \<lparr>
     aw_instance_ttl = (if aw_instance_ttl c = 0 then 30 * second else aw_instance_ttl c),
     aw_repeat = (if aw_repeat c = 0 then 4 * hour else aw_repeat c)\<rparr>"

definition validate_alert_worker :: "alert_worker_config \<Rightarrow> alert_error option" where
  "validate_alert_worker c =
     (if aw_instance_ttl c \<le> 0 then Some (Alert_Config_Invalid ''InstanceTTL'')
      else if aw_repeat c \<le> 0 then Some (Alert_Config_Invalid ''RepeatInterval'')
      else None)"

end
