(* ===== verification/Metric_Collector.thy ===== *)
theory Metric_Collector
  imports Alerts
begin

text \<open>
  The metrics collector: \<open>pkg/metric/collector\<close>. A pass reads snapshots and writes batches of
  measurements; what it writes does not depend on the answers of the writes, so each part of it is the
  list of batches it would write, with the error that stops it in place. The streams run in their own
  goroutines, at most \<open>StreamConcurrency\<close> at a time; \<open>picks\<close> says whose turn it is. \<open>write\<close> produces
  one batch on the state of the metrics stream.
\<close>

type_synonym write_step = "metric_error + measurement list"

definition built_step :: "diagnostic_metric \<Rightarrow> float64 \<Rightarrow> attributes \<Rightarrow> time \<Rightarrow> json option \<Rightarrow> write_step" where
  "built_step declared v as t doc =
     (case new_built_in_measurement declared v as t of
        Inl e \<Rightarrow> Inl (Metric_Built e)
      | Inr m \<Rightarrow> Inr [m\<lparr>me_metadata := doc\<rparr>])"

definition to_milliseconds :: "duration \<Rightarrow> int" where
  "to_milliseconds d = truncate_rat (of_int d / 1000000)"

section \<open>Workers, schedules and alerts\<close>

definition oldest_unclaimed :: "worker_snapshot list \<Rightarrow> duration" where
  "oldest_unclaimed ws =
     fold (\<lambda>w oldest. if wk_status w = Status_Unclaimed \<and> oldest < wk_unclaimed w then wk_unclaimed w else oldest) ws 0"

definition collect_workers :: "worker_snapshot list \<Rightarrow> time \<Rightarrow> write_step list" where
  "collect_workers ws t =
     [built_step metric_unclaimed_workers
        (float_of_int (int (length (filter (\<lambda>w. wk_status w = Status_Unclaimed) ws)))) [] t None,
      built_step metric_oldest_unclaimed_age (float_of_int (to_milliseconds (oldest_unclaimed ws))) [] t None,
      built_step metric_failing_workers (float_of_int (int (length (filter (\<lambda>w. 0 < wk_attempts w) ws)))) [] t None]"

definition oldest_due :: "schedule_snapshot list \<Rightarrow> duration" where
  "oldest_due ss =
     fold (\<lambda>s oldest. if \<not> sn_suspended s \<and> oldest < sn_due_for s then sn_due_for s else oldest) ss 0"

definition collect_schedules :: "schedule_snapshot list \<Rightarrow> time \<Rightarrow> write_step list" where
  "collect_schedules ss t =
     [built_step metric_overdue_schedules
        (float_of_int (int (length (filter (\<lambda>s. \<not> sn_suspended s \<and> sn_overdue s) ss)))) [] t None,
      built_step metric_oldest_due_age (float_of_int (to_milliseconds (oldest_due ss))) [] t None,
      built_step metric_suspended_schedules (float_of_int (int (length (filter sn_suspended ss)))) [] t None]"

text \<open>The heads of the alerts stream; its id is taken from the stream that was found, found or not.\<close>

definition alert_heads ::
  "(string \<Rightarrow> 'o::linorder) \<Rightarrow> (string \<Rightarrow> alert option) \<Rightarrow> 'm view \<Rightarrow> 'm view
   \<Rightarrow> metric_error + alert stored_message list" where
  "alert_heads collate decode v v' =
     (case v of
        Inl e \<Rightarrow> Inl e
      | Inr (now, p) \<Rightarrow> (case get_stream_checked (cp_registry p) alert_stream_name of
          Inl e \<Rightarrow> Inl (Metric_Stream e)
        | Inr None \<Rightarrow> Inl Metric_Nil_Stream
        | Inr (Some s) \<Rightarrow> (case v' of
            Inl e \<Rightarrow> Inl e
          | Inr (now', p') \<Rightarrow> (case table_rows (cp_registry p') (st_id s) of
              Inl e \<Rightarrow> Inl e
            | Inr db \<Rightarrow> (case list_heads_checked collate db (st_id s) of
                Inl e \<Rightarrow> Inl (Metric_Rows e)
              | Inr rows \<Rightarrow> (case scan_all (stored_as decode) rows of
                  None \<Rightarrow> Inl Metric_Undecodable
                | Some hs \<Rightarrow> Inr hs))))))"

definition collect_alerts :: "alert stored_message list \<Rightarrow> time \<Rightarrow> write_step list" where
  "collect_alerts heads t =
     [built_step metric_active_alerts
        (float_of_int (int (length (filter (\<lambda>h. al_status (sm_message h) = status_active) heads)))) [] t None,
      built_step metric_resolved_alerts
        (float_of_int (int (length (filter (\<lambda>h. al_status (sm_message h) = status_resolved) heads)))) [] t None]"

section \<open>One stream\<close>

definition workers_of_stream :: "worker_snapshot list \<Rightarrow> int \<Rightarrow> worker_snapshot list" where
  "workers_of_stream ws i = filter (\<lambda>w. ow_stream (wk_owner w) = i) ws"

fun all_unclaimed :: "worker_snapshot list \<Rightarrow> measurement_error + unclaimed_worker list" where
  "all_unclaimed [] = Inr []"
| "all_unclaimed (w # ws) =
     (if wk_status w \<noteq> Status_Unclaimed then all_unclaimed ws
      else (case new_unclaimed_worker (wk_name w) (wk_owner w) (wk_target w) of
          Inl e \<Rightarrow> Inl e
        | Inr u \<Rightarrow> map_sum id ((#) u) (all_unclaimed ws)))"

definition liveness_step :: "string \<Rightarrow> worker_snapshot list \<Rightarrow> time \<Rightarrow> write_step" where
  "liveness_step name ws t =
     (case all_unclaimed ws of
        Inl e \<Rightarrow> Inl (Metric_Built e)
      | Inr us \<Rightarrow> built_step metric_stream_unclaimed_workers (float_of_int (int (length us))) [(''stream'', name)] t
          (Some (encode_workers us)))"

definition partitions_step :: "string \<Rightarrow> stream_snapshot \<Rightarrow> time \<Rightarrow> write_step" where
  "partitions_step name snap t =
     built_step metric_stream_partitions (float_of_int (tn_partitions snap)) [(''stream'', name)] t
       (Some (encode_partition_metadata (partition_metadata (tn_compacted snap))))"

definition group_points :: "group_snapshot \<Rightarrow> (diagnostic_metric \<times> int) list" where
  "group_points g =
     [(metric_cursor_head, ks_head (gn_cursor g)), (metric_cursor_claimed, ks_claimed (gn_cursor g)),
      (metric_cursor_committed, ks_committed (gn_cursor g)), (metric_cursor_backlog, ks_backlog (gn_cursor g)),
      (metric_cursor_inflight, ks_inflight (gn_cursor g)), (metric_ready_exceptions, xs_ready (gn_exceptions g)),
      (metric_inflight_exceptions, xs_inflight (gn_exceptions g)), (metric_deferred_exceptions, xs_deferred (gn_exceptions g)),
      (metric_dead_exceptions, xs_dead (gn_exceptions g)),
      (metric_oldest_unresolved_age, to_milliseconds (xs_oldest_age (gn_exceptions g))),
      (metric_open_leases, gn_leases g), (metric_abandoned_outstanding, ab_outstanding (gn_abandoned g)),
      (metric_abandoned_total, ab_total (gn_abandoned g)),
      (metric_abandoned_self_clear_latency_avg, to_milliseconds (ab_latency (gn_abandoned g)))]"

fun built_batch :: "(diagnostic_metric \<times> int) list \<Rightarrow> attributes \<Rightarrow> time \<Rightarrow> write_step" where
  "built_batch [] as t = Inr []"
| "built_batch ((m, v) # ps) as t =
     (case new_built_in_measurement m (float_of_int v) as t of
        Inl e \<Rightarrow> Inl (Metric_Built e)
      | Inr x \<Rightarrow> map_sum id ((#) x) (built_batch ps as t))"

definition collect_group :: "string \<Rightarrow> time \<Rightarrow> group_snapshot \<Rightarrow> write_step" where
  "collect_group name t g = built_batch (group_points g) [(''group'', gn_group g), (''stream'', name)] t"

text \<open>The metrics stream's own traffic is not measured: only its partitions and workers are.\<close>

definition collect_stream :: "stream_config_row \<Rightarrow> metric_error + stream_snapshot \<Rightarrow> worker_snapshot list \<Rightarrow> time \<Rightarrow> write_step list" where
  "collect_stream r read ws t =
     (case read of
        Inl e \<Rightarrow> [Inl e]
      | Inr snap \<Rightarrow>
          [partitions_step (st_name r) snap t, liveness_step (st_name r) ws t]
          @ (if st_name r = metric_stream_name then []
             else built_step metric_stream_compacted (Finite (if tn_compacted snap then 1 else 0)) [(''stream'', st_name r)] t None
               # map (collect_group (st_name r) t) (tn_groups snap)))"

section \<open>The pass\<close>

fun write_steps ::
  "(measurement list \<Rightarrow> 's \<Rightarrow> (string + unit) \<times> 's) \<Rightarrow> write_step list \<Rightarrow> 's \<Rightarrow> metric_error option \<times> 's" where
  "write_steps write [] s = (None, s)"
| "write_steps write (st # sts) s =
     (case st of
        Inl e \<Rightarrow> (Some e, s)
      | Inr b \<Rightarrow> (case write b s of
          (Inl e, s') \<Rightarrow> (Some (Metric_Write e), s')
        | (Inr _, s') \<Rightarrow> write_steps write sts s'))"

text \<open>A free slot is taken by the next stream.\<close>

definition refill :: "nat \<Rightarrow> write_step list list \<Rightarrow> write_step list list \<Rightarrow> write_step list list \<times> write_step list list" where
  "refill limit running queue =
     (let a = filter (\<lambda>j. j \<noteq> []) running; n = limit - length a in (a @ take n queue, drop n queue))"

fun run_group ::
  "(measurement list \<Rightarrow> 's \<Rightarrow> (string + unit) \<times> 's) \<Rightarrow> nat \<Rightarrow> nat list \<Rightarrow> write_step list list \<times> write_step list list
   \<Rightarrow> metric_error option \<Rightarrow> 's \<Rightarrow> (metric_error option \<times> 's) option" where
  "run_group write limit [] (running, queue) err s =
     (if list_all (\<lambda>j. j = []) running \<and> queue = [] then Some (err, s) else None)"
| "run_group write limit (i # picks) (running, queue) err s =
     (if i < length running then
        (case running ! i of
           [] \<Rightarrow> run_group write limit picks (refill limit running queue) err s
         | st # sts \<Rightarrow>
             (case write_steps write [st] s of
                (None, s') \<Rightarrow> run_group write limit picks (refill limit (running[i := sts]) queue) err s'
              | (Some e, s') \<Rightarrow> run_group write limit picks (refill limit (running[i := []]) queue)
                  (if err = None then Some e else err) s'))
      else run_group write limit picks (running, queue) err s)"

text \<open>What the reads of a pass find.\<close>

record 'm collector_reads =
  cr_workers :: "'m view"
  cr_schedules :: "'m view"
  cr_alert_stream :: "'m view"
  cr_alert_heads :: "'m view"
  cr_streams :: "'m view"
  cr_stream :: "int \<Rightarrow> nat \<Rightarrow> 'm view"

record collector_clock =
  ct_workers :: time
  ct_schedules :: time
  ct_alerts :: time
  ct_stream :: "int \<Rightarrow> time"
  ct_completed :: time

definition listed_streams ::
  "(string \<Rightarrow> 'o::linorder) \<Rightarrow> 'm view \<Rightarrow> metric_error + stream_config_row list" where
  "listed_streams collate v =
     (case v of
        Inl e \<Rightarrow> Inl e
      | Inr (now, p) \<Rightarrow> (case to_streams (list_streams collate (cp_registry p)) of
          Inl e \<Rightarrow> Inl (Metric_Stream e)
        | Inr rs \<Rightarrow> Inr rs))"

definition stream_jobs ::
  "(string \<Rightarrow> 'o::linorder) \<Rightarrow> (string \<Rightarrow> go_routine_event option) \<Rightarrow> 'm collector_reads \<Rightarrow> collector_clock
   \<Rightarrow> worker_snapshot list \<Rightarrow> stream_config_row list \<Rightarrow> write_step list list" where
  "stream_jobs collate event_of reads clock ws rs =
     map (\<lambda>r. collect_stream r
         (read_stream_snapshot collate event_of (cr_stream reads (st_id r)) (ct_stream clock (st_id r)) (st_id r))
         (workers_of_stream ws (st_id r)) (ct_stream clock (st_id r))) rs"

definition completion_step :: "time \<Rightarrow> write_step" where
  "completion_step t = built_step metric_collector_completed_timestamp (float_of_int (t div second)) [] t None"

definition collect_streams ::
  "(measurement list \<Rightarrow> 's \<Rightarrow> (string + unit) \<times> 's) \<Rightarrow> nat \<Rightarrow> nat list \<Rightarrow> write_step list list \<Rightarrow> 's
   \<Rightarrow> (metric_error option \<times> 's) option" where
  "collect_streams write limit picks jobs s = run_group write limit picks (refill limit [] jobs) None s"

text \<open>\<open>None\<close>: the goroutines have not all returned when the picks end.\<close>

definition collect ::
  "(string \<Rightarrow> 'o::linorder) \<Rightarrow> (string \<Rightarrow> go_routine_event option) \<Rightarrow> (string \<Rightarrow> alert option)
   \<Rightarrow> (measurement list \<Rightarrow> 's \<Rightarrow> (string + unit) \<times> 's) \<Rightarrow> nat \<Rightarrow> nat list \<Rightarrow> 'm collector_reads \<Rightarrow> collector_clock \<Rightarrow> 's
   \<Rightarrow> (metric_error option \<times> 's) option" where
  "collect collate event_of decode write limit picks reads clock s =
     (case worker_snapshots collate (cr_workers reads) of
        Inl e \<Rightarrow> Some (Some e, s)
      | Inr ws \<Rightarrow>
     (case write_steps write (collect_workers ws (ct_workers clock)) s of
        (Some e, s) \<Rightarrow> Some (Some e, s)
      | (None, s) \<Rightarrow>
     (case schedule_snapshots collate (cr_schedules reads) of
        Inl e \<Rightarrow> Some (Some e, s)
      | Inr ss \<Rightarrow>
     (case write_steps write (collect_schedules ss (ct_schedules clock)) s of
        (Some e, s) \<Rightarrow> Some (Some e, s)
      | (None, s) \<Rightarrow>
     (case alert_heads collate decode (cr_alert_stream reads) (cr_alert_heads reads) of
        Inl e \<Rightarrow> Some (Some e, s)
      | Inr hs \<Rightarrow>
     (case write_steps write (collect_alerts hs (ct_alerts clock)) s of
        (Some e, s) \<Rightarrow> Some (Some e, s)
      | (None, s) \<Rightarrow>
     (case listed_streams collate (cr_streams reads) of
        Inl e \<Rightarrow> Some (Some e, s)
      | Inr rs \<Rightarrow>
     (case collect_streams write limit picks (stream_jobs collate event_of reads clock ws rs) s of
        None \<Rightarrow> None
      | Some (Some e, s) \<Rightarrow> Some (Some e, s)
      | Some (None, s) \<Rightarrow> Some (write_steps write [completion_step (ct_completed clock)] s)))))))))"

section \<open>Configuration\<close>

record collector_config =
  cc_poll_rate :: duration
  cc_instance_ttl :: duration
  cc_jitter :: rat
  cc_concurrency :: int
  cc_retry :: "retry_policy option"

definition collector_config_with_defaults :: "collector_config \<Rightarrow> collector_config" where
  "collector_config_with_defaults c = \<lparr>
     cc_poll_rate = (if cc_poll_rate c = 0 then 30 * second else cc_poll_rate c),
     cc_instance_ttl = (if cc_instance_ttl c = 0 then 30 * second else cc_instance_ttl c),
     cc_jitter = (if cc_jitter c = 0 then 1 / 10 else cc_jitter c),
     cc_concurrency = (if cc_concurrency c = 0 then 4 else cc_concurrency c),
     cc_retry = Some (retry_policy_with_defaults (cc_retry c))\<rparr>"

definition validate_poll_rate :: "duration \<Rightarrow> metric_error option" where
  "validate_poll_rate r = (if r \<le> 0 then Some (Metric_Argument ''poll_rate must be > 0'') else None)"

definition validate_collector_config :: "collector_config \<Rightarrow> string option" where
  "validate_collector_config c =
     (if cc_poll_rate c \<le> 0 then Some ''PollRate''
      else if cc_instance_ttl c \<le> 0 then Some ''InstanceTTL''
      else if cc_jitter c < 0 \<or> 1 \<le> cc_jitter c then Some ''JitterFraction''
      else if cc_concurrency c < 1 then Some ''StreamConcurrency''
      else if validate_retry_policy (cc_retry c) \<noteq> None then Some ''CollectRetry''
      else None)"

end
