(* ===== verification/Alert_Properties.thy ===== *)
theory Alert_Properties
  imports Alert_Record Metric_Collector
begin

text \<open>
  When a check alerts: the walk over the retained samples is exact, the window it reads is long enough,
  the lease coverage of the collector check is exact, and the head of an alert's key mirrors the last
  conclusive result.
\<close>

section \<open>Arithmetic\<close>

lemma wrap_int64_id: "min_int64 \<le> x \<Longrightarrow> x \<le> max_int64 \<Longrightarrow> wrap_int64 x = x"
  by (simp add: wrap_int64_def min_int64_def max_int64_def)

lemma time_sub_less: "0 \<le> d \<Longrightarrow> d < max_int64 \<Longrightarrow> d < time_sub a b \<longleftrightarrow> d < a - b"
  by (auto simp: time_sub_def max_int64_def min_int64_def)

lemma time_sub_ge: "0 \<le> d \<Longrightarrow> d \<le> max_int64 \<Longrightarrow> time_sub a b < d \<longleftrightarrow> a - b < d"
  by (auto simp: time_sub_def max_int64_def min_int64_def)

lemma valid_policy:
  assumes "validate_payload p = None"
  shows "0 < jp_pending p" "0 < jp_gap p" "\<not> jp_disable_pending p \<Longrightarrow> jp_pending p + 2 * jp_gap p \<le> max_int64"
proof -
  show "0 < jp_pending p" "0 < jp_gap p" using assms by (auto simp: validate_payload_def split: if_splits)
  assume "\<not> jp_disable_pending p"
  then have "jp_gap p \<le> (max_int64 - jp_pending p) div 2"
    using assms by (auto simp: validate_payload_def gap_too_large_def split: if_splits)
  then have "2 * jp_gap p \<le> 2 * ((max_int64 - jp_pending p) div 2)" by simp
  also have "\<dots> \<le> max_int64 - jp_pending p" by simp
  finally show "jp_pending p + 2 * jp_gap p \<le> max_int64" by simp
qed

lemma window_exact:
  assumes "validate_payload p = None" "\<not> jp_disable_pending p"
  shows "payload_window p = jp_pending p + 2 * jp_gap p"
proof -
  have "wrap_int64 (2 * jp_gap p) = 2 * jp_gap p" "wrap_int64 (jp_pending p + 2 * jp_gap p) = jp_pending p + 2 * jp_gap p"
    using valid_policy [OF assms(1)] assms(2) by (auto intro!: wrap_int64_id simp: min_int64_def)
  then show ?thesis using assms(2) by (simp add: payload_window_def)
qed

section \<open>The walk over the samples\<close>

text \<open>Of the samples with one timestamp the first counts: it has the highest id.\<close>

fun deciding :: "sample list \<Rightarrow> sample list" where
  "deciding [] = []"
| "deciding (s # ss) = s # filter (\<lambda>x. sm_created x \<noteq> sm_created s) (deciding ss)"

abbreviation active_sample :: "sample \<Rightarrow> bool" where
  "active_sample s \<equiv> ae_state (sm_message s) = state_active"

text \<open>The condition has held since \<open>t\<close>: a sample was taken at \<open>t\<close>, every sample that counts from then on
is active, and each of them but the newest is followed by another within the gap.\<close>

definition condition_held :: "duration \<Rightarrow> sample list \<Rightarrow> time \<Rightarrow> bool" where
  "condition_held gap samples t \<longleftrightarrow>
     (\<exists>s \<in> set samples. sm_created s = t)
     \<and> (\<forall>s \<in> set (deciding samples). t \<le> sm_created s \<longrightarrow>
          active_sample s \<and> ((\<forall>x \<in> set samples. sm_created x \<le> sm_created s)
            \<or> (\<exists>x \<in> set samples. sm_created s < sm_created x \<and> sm_created x \<le> sm_created s + gap)))"

definition newest_first :: "sample list \<Rightarrow> bool" where
  "newest_first samples \<longleftrightarrow> sorted_wrt (\<lambda>a b. sm_created b \<le> sm_created a) samples"

lemma newest_first_Cons [simp]:
  "newest_first (s # ss) \<longleftrightarrow> (\<forall>x \<in> set ss. sm_created x \<le> sm_created s) \<and> newest_first ss"
  by (simp add: newest_first_def)

lemma newest_first_Nil [simp]: "newest_first []"
  by (simp add: newest_first_def)

lemma newest_first_filter: "newest_first ss \<Longrightarrow> newest_first (filter p ss)"
  by (induction ss) auto

lemma deciding_subset: "set (deciding ss) \<subseteq> set ss"
  by (induction ss) auto

lemma deciding_times: "sm_created ` set (deciding ss) = sm_created ` set ss"
proof (induction ss)
  case (Cons s ss)
  have "sm_created ` set (deciding (s # ss)) = insert (sm_created s) (sm_created ` set (deciding ss))" by auto
  then show ?case by (simp add: Cons.IH)
qed simp

lemma deciding_unique:
  "s \<in> set (deciding ss) \<Longrightarrow> x \<in> set (deciding ss) \<Longrightarrow> sm_created s = sm_created x \<Longrightarrow> s = x"
  by (induction ss) auto

lemma deciding_filter:
  "deciding (filter (\<lambda>s. p (sm_created s)) ss) = filter (\<lambda>s. p (sm_created s)) (deciding ss)"
proof (induction ss)
  case (Cons s ss)
  have "filter (\<lambda>x. sm_created x \<noteq> sm_created s) (filter (\<lambda>s. p (sm_created s)) (deciding ss))
      = filter (\<lambda>s. p (sm_created s)) (filter (\<lambda>x. sm_created x \<noteq> sm_created s) (deciding ss))"
    by (simp add: conj_commute cong: filter_cong)
  moreover have "\<not> p (sm_created s) \<Longrightarrow> filter (\<lambda>s. p (sm_created s)) (deciding ss)
      = filter (\<lambda>s. p (sm_created s)) (filter (\<lambda>x. sm_created x \<noteq> sm_created s) (deciding ss))"
    by (auto intro: filter_cong)
  ultimately show ?case by (simp add: Cons.IH)
qed simp

text \<open>The walk stops at the window, so it is the walk over the samples inside it.\<close>

lemma walk_back_window:
  "newest_first ss \<Longrightarrow> start \<le> e \<Longrightarrow>
     walk_back start gap e ss = walk_back start gap e (filter (\<lambda>s. start \<le> sm_created s) ss)"
proof (induction ss arbitrary: e)
  case (Cons s ss)
  have none: "filter (\<lambda>s. start \<le> sm_created s) ss = []" if "sm_created s < start"
    using Cons.prems(1) that by (auto simp: filter_empty_conv)
  show ?case using Cons none by auto
qed simp

text \<open>The same relative to the time the walk has reached.\<close>

definition held_from :: "duration \<Rightarrow> time \<Rightarrow> sample set \<Rightarrow> time \<Rightarrow> bool" where
  "held_from gap e D t \<longleftrightarrow> t = e \<or> t \<in> sm_created ` D \<and> (\<forall>s \<in> D. t \<le> sm_created s \<longrightarrow>
     active_sample s \<and> (\<exists>u \<in> insert e (sm_created ` D). sm_created s < u \<and> u \<le> sm_created s + gap))"

lemma held_from_extend:
  assumes s: "sm_created s < e" "e - sm_created s \<le> gap" "active_sample s"
    and D: "\<forall>x \<in> D. sm_created x < sm_created s"
  shows "held_from gap e (insert s D) t \<longleftrightarrow> t = e \<or> held_from gap (sm_created s) D t"
proof -
  have u: "(\<exists>u \<in> insert e (sm_created ` insert s D). sm_created x < u \<and> u \<le> sm_created x + gap)
      \<longleftrightarrow> (\<exists>u \<in> insert (sm_created s) (sm_created ` D). sm_created x < u \<and> u \<le> sm_created x + gap)" if "x \<in> D" for x
    using D s(1) that by force
  have own: "\<exists>u \<in> insert e (sm_created ` insert s D). sm_created s < u \<and> u \<le> sm_created s + gap"
    using s by auto
  show ?thesis
  proof (cases "t = e")
    case False
    have "held_from gap e (insert s D) t \<longleftrightarrow> t \<in> insert (sm_created s) (sm_created ` D)
      \<and> (\<forall>x \<in> D. t \<le> sm_created x \<longrightarrow> active_sample x
          \<and> (\<exists>u \<in> insert (sm_created s) (sm_created ` D). sm_created x < u \<and> u \<le> sm_created x + gap))"
      using False s(3) own u by (simp add: held_from_def)
    also have "\<dots> \<longleftrightarrow> held_from gap (sm_created s) D t"
      using D by (auto simp: held_from_def)
    finally show ?thesis using False by simp
  qed (simp add: held_from_def)
qed

lemma held_from_stop:
  assumes "sm_created s < e" "gap < e - sm_created s \<or> \<not> active_sample s" "\<forall>x \<in> D. sm_created x < sm_created s"
  shows "held_from gap e (insert s D) t \<longleftrightarrow> t = e"
proof -
  have "\<not> (active_sample s \<and> (\<exists>u \<in> insert e (sm_created ` insert s D). sm_created s < u \<and> u \<le> sm_created s + gap))"
    using assms by force
  moreover have "t \<le> sm_created s" if "t \<in> sm_created ` insert s D" using that assms(3) by auto
  ultimately show ?thesis by (auto simp: held_from_def)
qed

lemma walk_back_le: "\<forall>s \<in> set ss. sm_created s \<le> e \<Longrightarrow> newest_first ss \<Longrightarrow> walk_back start gap e ss \<le> e"
proof (induction ss arbitrary: e)
  case (Cons s ss)
  then show ?case by (auto intro: order_trans)
qed simp

lemma walk_back_exact:
  assumes gap: "0 \<le> gap" "gap < max_int64"
  shows "newest_first ss \<Longrightarrow> \<forall>s \<in> set ss. start \<le> sm_created s \<and> sm_created s \<le> e \<Longrightarrow>
     held_from gap e (set (deciding (filter (\<lambda>s. sm_created s \<noteq> e) ss))) t
       \<longleftrightarrow> walk_back start gap e ss \<le> t \<and> t \<in> insert e (sm_created ` set ss)"
proof (induction ss arbitrary: e)
  case (Cons s ss)
  show ?case
  proof (cases "sm_created s = e")
    case True
    then show ?thesis using Cons by auto
  next
    case False
    let ?D = "set (deciding (filter (\<lambda>x. sm_created x \<noteq> sm_created s) ss))"
    have less: "sm_created s < e" using False Cons.prems by simp
    have older: "\<forall>x \<in> set ss. sm_created x \<le> sm_created s" using Cons.prems by simp
    have same: "filter (\<lambda>x. sm_created x \<noteq> e) ss = ss" using older less by (auto simp: filter_id_conv)
    have D: "set (deciding (filter (\<lambda>x. sm_created x \<noteq> e) (s # ss))) = insert s ?D"
      using False by (simp add: same deciding_filter [where p = "\<lambda>t. t \<noteq> sm_created s"])
    have D_less: "\<forall>x \<in> ?D. sm_created x < sm_created s"
      using older deciding_subset [of "filter (\<lambda>x. sm_created x \<noteq> sm_created s) ss"] by fastforce
    have start: "\<not> sm_created s < start" using Cons.prems by auto
    show ?thesis
    proof (cases "gap < e - sm_created s \<or> \<not> active_sample s")
      case True
      then have w: "walk_back start gap e (s # ss) = e"
        using False start gap by (auto simp: time_sub_less)
      have "t \<in> sm_created ` set (s # ss) \<Longrightarrow> t < e" using older less by auto
      then show ?thesis unfolding D held_from_stop [OF less True D_less] w by auto
    next
      case near: False
      then have w: "walk_back start gap e (s # ss) = walk_back start gap (sm_created s) ss"
        using False start gap by (auto simp: time_sub_less)
      have "walk_back start gap (sm_created s) ss \<le> sm_created s"
        using walk_back_le [of ss "sm_created s"] older Cons.prems(1) by simp
      then have le: "walk_back start gap (sm_created s) ss \<le> e" using less by simp
      have "held_from gap e (insert s ?D) t \<longleftrightarrow> t = e \<or> held_from gap (sm_created s) ?D t"
        using near by (intro held_from_extend less D_less) auto
      also have "\<dots> \<longleftrightarrow> t = e \<or> walk_back start gap (sm_created s) ss \<le> t \<and> t \<in> insert (sm_created s) (sm_created ` set ss)"
        using Cons.IH [of "sm_created s"] Cons.prems older by simp
      also have "\<dots> \<longleftrightarrow> walk_back start gap (sm_created s) ss \<le> t \<and> t \<in> insert e (sm_created ` set (s # ss))"
        using le by force
      finally show ?thesis unfolding D w .
    qed
  qed
qed (auto simp: held_from_def)

lemma walk_back_in: "walk_back start gap e ss \<in> insert e (sm_created ` set ss)"
proof (induction ss arbitrary: e)
  case (Cons s ss)
  then show ?case using Cons.IH [of e] Cons.IH [of "sm_created s"] by auto
qed simp

lemma condition_held_from:
  assumes "newest_first (n # ss)"
  shows "condition_held gap (n # ss) t \<longleftrightarrow> active_sample n \<and> t \<le> sm_created n
    \<and> held_from gap (sm_created n) (set (deciding (filter (\<lambda>s. sm_created s \<noteq> sm_created n) ss))) t"
proof -
  let ?D = "set (deciding (filter (\<lambda>s. sm_created s \<noteq> sm_created n) ss))"
  have d: "set (deciding (n # ss)) = insert n ?D"
    by (simp add: deciding_filter [where p = "\<lambda>t. t \<noteq> sm_created n"])
  have le: "\<forall>x \<in> set (n # ss). sm_created x \<le> sm_created n" using assms by simp
  have less: "\<forall>x \<in> ?D. sm_created x < sm_created n"
    using le deciding_subset [of "filter (\<lambda>s. sm_created s \<noteq> sm_created n) ss"] by fastforce
  have times: "sm_created ` set (n # ss) = insert (sm_created n) (sm_created ` ?D)"
    by (auto simp: deciding_times)
  have next_time: "(\<exists>x \<in> set (n # ss). sm_created s < sm_created x \<and> sm_created x \<le> sm_created s + gap)
      \<longleftrightarrow> (\<exists>u \<in> insert (sm_created n) (sm_created ` ?D). sm_created s < u \<and> u \<le> sm_created s + gap)" for s
    unfolding times [symmetric] by auto
  have at_t: "(\<exists>s \<in> set (n # ss). sm_created s = t) \<longleftrightarrow> t \<in> insert (sm_created n) (sm_created ` ?D)"
    unfolding times [symmetric] by auto
  have not_newest: "\<not> (\<forall>x \<in> set (n # ss). sm_created x \<le> sm_created s)" if "s \<in> ?D" for s
    using less that by (auto simp: not_le)
  have "condition_held gap (n # ss) t \<longleftrightarrow> t \<in> insert (sm_created n) (sm_created ` ?D)
      \<and> (t \<le> sm_created n \<longrightarrow> active_sample n) \<and> (\<forall>s \<in> ?D. t \<le> sm_created s \<longrightarrow> active_sample s
        \<and> (\<exists>u \<in> insert (sm_created n) (sm_created ` ?D). sm_created s < u \<and> u \<le> sm_created s + gap))"
    unfolding condition_held_def at_t next_time d using not_newest le by auto
  also have "\<dots> \<longleftrightarrow> active_sample n \<and> t \<le> sm_created n \<and> held_from gap (sm_created n) ?D t"
    using less by (auto simp: held_from_def)
  finally show ?thesis .
qed

lemma held_from_window:
  assumes "start \<le> t" "start \<le> e"
  shows "held_from gap e {s \<in> D. start \<le> sm_created s} t \<longleftrightarrow> held_from gap e D t"
proof -
  have "(\<exists>u \<in> insert e (sm_created ` {s \<in> D. start \<le> sm_created s}). sm_created s < u \<and> u \<le> sm_created s + gap)
      \<longleftrightarrow> (\<exists>u \<in> insert e (sm_created ` D). sm_created s < u \<and> u \<le> sm_created s + gap)" if "t \<le> sm_created s" for s
    using assms that by force
  then show ?thesis using assms(1) by (auto simp: held_from_def)
qed

text \<open>A span of the pending duration already lies inside the window.\<close>

lemma held_inside_window:
  assumes gap: "0 \<le> gap" "gap < max_int64" and order: "newest_first ss" "\<forall>s \<in> set ss. sm_created s \<le> e"
    and t: "held_from gap e (set (deciding (filter (\<lambda>s. sm_created s \<noteq> e) ss))) t" "pending \<le> e - t" "0 < pending"
  obtains t' where "held_from gap e (set (deciding (filter (\<lambda>s. sm_created s \<noteq> e) ss))) t'"
    "pending \<le> e - t'" "e - pending - gap \<le> t'"
proof -
  let ?D = "set (deciding (filter (\<lambda>s. sm_created s \<noteq> e) ss))"
  let ?T = "{u \<in> insert e (sm_created ` set ss). u \<le> e - pending}"
  let ?w = "walk_back (Min (insert e (sm_created ` set ss))) gap e ss"
  have exact: "held_from gap e ?D u \<longleftrightarrow> ?w \<le> u \<and> u \<in> insert e (sm_created ` set ss)" for u
    using walk_back_exact [OF gap order(1), of "Min (insert e (sm_created ` set ss))" e u] order(2) by simp
  have "t \<in> ?T" using t(1,2) exact by simp
  then have fin: "finite ?T" "?T \<noteq> {}" by auto
  obtain t' where t'_def: "t' = Max ?T" by blast
  have t': "t' \<in> ?T" "t \<le> t'" using Max_in [OF fin] Max_ge [OF fin(1) \<open>t \<in> ?T\<close>] by (simp_all add: t'_def)
  then have "?w \<le> t'" "t' \<in> insert e (sm_created ` set ss)" using t(1) unfolding exact by simp_all
  then have held: "held_from gap e ?D t'" unfolding exact by simp
  have "t' \<noteq> e" using t'(1) t(3) by auto
  then obtain s where s: "s \<in> ?D" "sm_created s = t'" using held by (auto simp: held_from_def)
  then obtain u where u: "u \<in> insert e (sm_created ` ?D)" "t' < u" "u \<le> t' + gap"
    using held \<open>t' \<noteq> e\<close> by (auto simp: held_from_def)
  have "u \<in> insert e (sm_created ` set ss)" using u(1) deciding_times [of "filter (\<lambda>s. sm_created s \<noteq> e) ss"] by auto
  then have "u \<le> e - pending \<Longrightarrow> u \<in> ?T" by simp
  then have "u \<le> e - pending \<Longrightarrow> u \<le> t'" unfolding t'_def using Max_ge [OF fin(1), of u] by blast
  then have "\<not> u \<le> e - pending" using u(2) by auto
  then have "e - pending - gap \<le> t'" using u(3) by simp
  then show ?thesis using that [OF held] t'(1) by simp
qed

lemma walked_span:
  assumes gap: "0 \<le> gap" "gap < max_int64" and order: "newest_first ss" "\<forall>s \<in> set ss. sm_created s \<le> e"
    and start: "start \<le> e - pending - gap" "0 < pending"
  shows "pending \<le> e - walk_back start gap e ss
    \<longleftrightarrow> (\<exists>t. held_from gap e (set (deciding (filter (\<lambda>s. sm_created s \<noteq> e) ss))) t \<and> pending \<le> e - t)"
proof -
  let ?D = "set (deciding (filter (\<lambda>s. sm_created s \<noteq> e) ss))"
  let ?L = "filter (\<lambda>s. start \<le> sm_created s) ss"
  have le: "start \<le> e" using start gap(1) by simp
  have D: "set (deciding (filter (\<lambda>s. sm_created s \<noteq> e) ?L)) = {s \<in> ?D. start \<le> sm_created s}"
  proof -
    have "filter (\<lambda>s. sm_created s \<noteq> e) ?L = filter (\<lambda>s. start \<le> sm_created s) (filter (\<lambda>s. sm_created s \<noteq> e) ss)"
      by (simp add: conj_commute)
    then show ?thesis by (simp only: deciding_filter [where p = "\<lambda>t. start \<le> t"]) auto
  qed
  have exact: "held_from gap e {s \<in> ?D. start \<le> sm_created s} t
      \<longleftrightarrow> walk_back start gap e ss \<le> t \<and> t \<in> insert e (sm_created ` set ?L)" for t
  proof -
    have inside: "\<forall>s \<in> set ?L. start \<le> sm_created s \<and> sm_created s \<le> e" using order(2) by simp
    show ?thesis
      using walk_back_exact [OF gap newest_first_filter [OF order(1)] inside, of t]
      unfolding D walk_back_window [OF order(1) le, of gap, symmetric] .
  qed
  show ?thesis
  proof
    assume long: "pending \<le> e - walk_back start gap e ss"
    have in': "walk_back start gap e ss \<in> insert e (sm_created ` set ?L)"
      unfolding walk_back_window [OF order(1) le] by (rule walk_back_in)
    then have "start \<le> walk_back start gap e ss" using le by auto
    then have "held_from gap e ?D (walk_back start gap e ss)"
      using exact in' held_from_window [OF _ le, where D = ?D] by blast
    then show "\<exists>t. held_from gap e ?D t \<and> pending \<le> e - t" using long by blast
  next
    assume "\<exists>t. held_from gap e ?D t \<and> pending \<le> e - t"
    then obtain t where t: "held_from gap e ?D t" "pending \<le> e - t" by blast
    obtain t' where t': "held_from gap e ?D t'" "pending \<le> e - t'" "e - pending - gap \<le> t'"
      by (rule held_inside_window [OF gap order t start(2)])
    then have "walk_back start gap e ss \<le> t'"
      using exact held_from_window [of start t' e gap ?D] le start(1) by simp
    then show "pending \<le> e - walk_back start gap e ss" using t'(2) by simp
  qed
qed

section \<open>The alert of a history\<close>

lemma new_evaluation_ok:
  "validate_evaluation \<lparr>ae_state = st, ae_finding = f, ae_facts = fs\<rparr> = None
   \<Longrightarrow> new_evaluation st f fs = Inr \<lparr>ae_state = st, ae_finding = f, ae_facts = fs\<rparr>"
  by (simp add: new_evaluation_def)

lemma validate_evaluation_facts:
  "validate_evaluation \<lparr>ae_state = ae_state s, ae_finding = ae_finding s, ae_facts = fs\<rparr> = validate_evaluation s"
  unfolding validate_evaluation_def by simp

lemmas states_def = state_healthy_def state_pending_def state_active_def state_insufficient_def

lemma conclusive_newest:
  assumes "validate_payload policy = None" "sm_created n \<le> current" "current - sm_created n \<le> jp_gap policy"
    "validate_evaluation (sm_message n) = None" "ae_state (sm_message n) \<noteq> state_insufficient"
    "\<not> jp_disable_pending policy"
  shows "newest_reason n current policy = Inr ''''"
proof -
  have "jp_gap policy < max_int64" using valid_policy [OF assms(1)] assms(6) by simp
  then have "\<not> jp_gap policy < time_sub current (sm_created n)"
    using valid_policy(2) [OF assms(1)] assms(3) by (simp add: time_sub_less)
  then show ?thesis using assms by (simp add: newest_reason_def)
qed

text \<open>C23: With a pending duration, a check reads its condition as active exactly when the condition has
held for that long: some sample at least that much older than the newest starts an unbroken run of active
samples, no two of them further apart than the gap. It does not matter that the check reads a window of
the history only: the verdict is that of the whole history.\<close>

theorem pending_alert_is_exact:
  assumes policy: "validate_payload policy = None" "\<not> jp_disable_pending policy" and current: "current \<noteq> zero_time"
    and samples: "samples = n # older" "newest_first samples" "\<forall>s \<in> set samples. sm_created s \<le> current"
    and newest: "current - sm_created n \<le> jp_gap policy" "validate_evaluation (sm_message n) = None"
      "ae_state (sm_message n) \<noteq> state_insufficient"
    and history: "history = filter (\<lambda>s. current - payload_window policy \<le> sm_created s) samples"
  shows "\<exists>r. evaluate_history history current policy = Inr r
    \<and> (ae_state r = state_active
        \<longleftrightarrow> (\<exists>t. condition_held (jp_gap policy) samples t \<and> jp_pending policy \<le> sm_created n - t))"
proof -
  let ?start = "current - payload_window policy"
  have pos: "0 < jp_pending policy" "0 < jp_gap policy" "jp_pending policy + 2 * jp_gap policy \<le> max_int64"
    using valid_policy [OF policy(1)] policy(2) by auto
  have start: "?start \<le> sm_created n - jp_pending policy - jp_gap policy"
    using newest(1) by (simp add: window_exact [OF policy])
  then have h: "history = n # filter (\<lambda>s. ?start \<le> sm_created s) older"
    using pos by (simp add: history samples(1))
  have order: "newest_first older" "\<forall>s \<in> set older. sm_created s \<le> sm_created n" using samples(1,2) by simp_all
  have reason: "newest_reason n current policy = Inr ''''"
    using conclusive_newest policy newest samples by simp
  have held: "(\<exists>t. condition_held (jp_gap policy) samples t \<and> jp_pending policy \<le> sm_created n - t)
      \<longleftrightarrow> active_sample n \<and> jp_pending policy \<le> sm_created n - walk_back ?start (jp_gap policy) (sm_created n) older"
  proof -
    let ?D = "set (deciding (filter (\<lambda>s. sm_created s \<noteq> sm_created n) older))"
    have "condition_held (jp_gap policy) samples t \<and> jp_pending policy \<le> sm_created n - t
        \<longleftrightarrow> active_sample n \<and> held_from (jp_gap policy) (sm_created n) ?D t \<and> jp_pending policy \<le> sm_created n - t" for t
      using condition_held_from [of n older "jp_gap policy" t] samples(1,2) pos(1) by auto
    then show ?thesis
      using walked_span [OF _ _ order start pos(1)] pos by auto
  qed
  show ?thesis
  proof (cases "active_sample n")
    case False
    then have "evaluate_history history current policy = new_evaluation (ae_state (sm_message n)) (ae_finding (sm_message n))
        ((policy_facts policy current)\<lparr>ef_observed := sm_created n\<rparr>)"
      using h reason policy(1) current by (simp add: evaluate_history_def)
    moreover have "validate_evaluation \<lparr>ae_state = ae_state (sm_message n), ae_finding = ae_finding (sm_message n),
        ae_facts = (policy_facts policy current)\<lparr>ef_observed := sm_created n\<rparr>\<rparr> = None"
      using newest(2) by (simp add: validate_evaluation_facts)
    ultimately show ?thesis using False held by (simp add: new_evaluation_ok)
  next
    case True
    let ?w = "walk_back ?start (jp_gap policy) (sm_created n) older"
    have w: "walk_back ?start (jp_gap policy) (sm_created n) (filter (\<lambda>s. ?start \<le> sm_created s) older) = ?w"
      using walk_back_window [OF order(1)] start pos by simp
    have finding: "validate_evaluation \<lparr>ae_state = st, ae_finding = ae_finding (sm_message n), ae_facts = fs\<rparr> = None"
      if "st = state_active \<or> st = state_pending" for st fs
      using newest(2) True that by (auto simp: validate_evaluation_def states_def split: option.splits)
    have less: "time_sub (sm_created n) ?w < jp_pending policy \<longleftrightarrow> sm_created n - ?w < jp_pending policy"
      using pos by (intro time_sub_ge) auto
    show ?thesis
      using h reason policy current True held finding less
      by (auto simp: evaluate_history_def w new_evaluation_ok Let_def states_def)
  qed
qed


definition demo_finding :: alert where
  "demo_finding = \<lparr>al_name = ''partition_count'', al_owner = Some \<lparr>ow_system = 1, ow_stream = 7, ow_group = 0, ow_name = ''s''\<rparr>,
     al_status = status_active, al_severity = severity_warn, al_message = ''m'', al_detail = '''', al_hint = '''',
     al_data = [], al_metadata = [], al_at = 6\<rparr>"

definition demo_sample :: "int \<Rightarrow> time \<Rightarrow> bool \<Rightarrow> sample" where
  "demo_sample i t active = \<lparr>sm_id = i, sm_created = t, sm_message =
     \<lparr>ae_state = (if active then state_active else state_healthy),
      ae_finding = (if active then Some demo_finding else None), ae_facts = no_facts\<rparr>\<rparr>"

definition demo_samples :: "sample list" where
  "demo_samples = [demo_sample 4 6 True, demo_sample 3 4 True, demo_sample 2 2 False, demo_sample 1 (- 9) True]"

definition demo_policy :: job_payload where
  "demo_policy = \<lparr>jp_threshold = 0, jp_maximum_age = 0, jp_pending = 2, jp_gap = 2, jp_disable_pending = False\<rparr>"

theorem pending_alert_is_exact_witness: "\<exists>t. condition_held 2 demo_samples t \<and> 2 \<le> 6 - t"
proof -
  let ?h = "filter (\<lambda>s. 7 - payload_window demo_policy \<le> sm_created s) demo_samples"
  have e: "map_sum id ae_state (evaluate_history ?h 7 demo_policy) = Inr state_active" by code_simp
  have p: "validate_payload demo_policy = None" by code_simp
  have v: "validate_evaluation (sm_message (demo_sample 4 6 True)) = None" by code_simp
  have "\<exists>r. evaluate_history ?h 7 demo_policy = Inr r \<and> (ae_state r = state_active
      \<longleftrightarrow> (\<exists>t. condition_held (jp_gap demo_policy) demo_samples t \<and> jp_pending demo_policy \<le> sm_created (demo_sample 4 6 True) - t))"
    by (rule pending_alert_is_exact [OF p _ _ demo_samples_def _ _ _ v _ refl])
      (simp_all add: demo_policy_def zero_time_def demo_samples_def demo_sample_def states_def)
  then show ?thesis using e by (auto simp: demo_policy_def demo_sample_def)
qed

section \<open>Lease coverage\<close>

text \<open>The instants from \<open>t\<close> to the evaluation are each inside a lease. Time is dense here, or two leases
a nanosecond apart would touch.\<close>

definition in_lease :: "(time \<times> time) list \<Rightarrow> rat \<Rightarrow> bool" where
  "in_lease leases x \<longleftrightarrow> (\<exists>(c, e) \<in> set leases. of_int c \<le> x \<and> x \<le> of_int e)"

definition covered :: "(time \<times> time) list \<Rightarrow> time \<Rightarrow> time \<Rightarrow> bool" where
  "covered leases t evaluated \<longleftrightarrow> (\<forall>x. of_int t \<le> x \<and> x \<le> of_int evaluated \<longrightarrow> in_lease leases x)"

lemma in_lease_Cons [simp]:
  "in_lease ((c, e) # ls) x \<longleftrightarrow> of_int c \<le> x \<and> x \<le> of_int e \<or> in_lease ls x"
  by (auto simp: in_lease_def)

lemma lease_start_from_exact:
  assumes "sorted_wrt (\<lambda>a b. fst b \<le> fst a) ls" "\<forall>l \<in> set ls. fst l \<le> started"
  shows "lease_start_from started ls \<le> started
    \<and> (\<forall>x. of_int (lease_start_from started ls) \<le> x \<and> x < of_int started \<longrightarrow> in_lease ls x)
    \<and> (\<forall>(c, e) \<in> set ls. c < lease_start_from started ls \<longrightarrow> e < lease_start_from started ls)
    \<and> (lease_start_from started ls = started \<or> lease_start_from started ls \<in> fst ` set ls)"
  using assms
proof (induction ls arbitrary: started)
  case (Cons l ls)
  obtain c e where l: "l = (c, e)" by fastforce
  show ?case
  proof (cases "e < started")
    case True
    let ?r = "lease_start_from started ls"
    have ih: "?r \<le> started" "\<forall>x. of_int ?r \<le> x \<and> x < of_int started \<longrightarrow> in_lease ls x"
      "\<forall>(c, e) \<in> set ls. c < ?r \<longrightarrow> e < ?r" "?r = started \<or> ?r \<in> fst ` set ls"
      using Cons.IH [of started] Cons.prems by auto
    have "e < ?r" if "c < ?r"
    proof (cases "?r = started")
      case False
      then have "?r \<in> fst ` set ls" using ih(4) by simp
      then have "?r \<le> c" using Cons.prems(1) l by auto
      then show ?thesis using that by simp
    qed (use True in simp)
    then show ?thesis using ih True l by auto
  next
    case False
    let ?r = "lease_start_from c ls"
    have ih: "?r \<le> c" "\<forall>x. of_int ?r \<le> x \<and> x < of_int c \<longrightarrow> in_lease ls x"
      "\<forall>(c, e) \<in> set ls. c < ?r \<longrightarrow> e < ?r" "?r = c \<or> ?r \<in> fst ` set ls"
      using Cons.IH [of c] Cons.prems l by auto
    have "in_lease (l # ls) x" if "of_int ?r \<le> x" "x < of_int started" for x
    proof (cases "x < of_int c")
      case wide: False
      have "of_int started \<le> (of_int e :: rat)" using False by simp
      then show ?thesis using wide l that(2) by auto
    qed (use ih(2) that(1) l in auto)
    then show ?thesis using ih False l Cons.prems(2) by auto
  qed
qed auto

lemma lease_coverage_exact:
  assumes "sorted_wrt (\<lambda>a b. fst b \<le> fst a) leases"
    and "\<forall>(c, e) \<in> set leases. c \<noteq> zero_time \<and> c \<le> e \<and> c \<le> evaluated"
    and "start = continuous_lease_start evaluated leases"
  shows "(start = zero_time \<longleftrightarrow> \<not> (\<exists>(c, e) \<in> set leases. evaluated < e))
    \<and> (start \<noteq> zero_time \<longrightarrow> covered leases start evaluated
        \<and> (\<forall>(c, e) \<in> set leases. c < start \<longrightarrow> e < start) \<and> start \<in> fst ` set leases)"
  using assms
proof (induction leases)
  case (Cons l ls)
  obtain c e where l: "l = (c, e)" by fastforce
  show ?case
  proof (cases "evaluated < e")
    case False
    have ih: "(start = zero_time \<longleftrightarrow> \<not> (\<exists>(c, e) \<in> set ls. evaluated < e))
      \<and> (start \<noteq> zero_time \<longrightarrow> covered ls start evaluated
        \<and> (\<forall>(c, e) \<in> set ls. c < start \<longrightarrow> e < start) \<and> start \<in> fst ` set ls)"
      using Cons False l by simp
    have "covered ls start evaluated \<longrightarrow> covered (l # ls) start evaluated" using l by (auto simp: covered_def)
    moreover have "\<not> c < start" if "start \<in> fst ` set ls" using that Cons.prems(1) l by auto
    ultimately show ?thesis using ih False l by auto
  next
    case True
    then have s: "start = lease_start_from c ls" using Cons.prems(3) l by simp
    have e: "start \<le> c \<and> (\<forall>x. of_int start \<le> x \<and> x < of_int c \<longrightarrow> in_lease ls x)
      \<and> (\<forall>(c, e) \<in> set ls. c < start \<longrightarrow> e < start) \<and> (start = c \<or> start \<in> fst ` set ls)"
      unfolding s using Cons.prems(1) l by (intro lease_start_from_exact) auto
    then have "start \<noteq> zero_time" using Cons.prems(2) l by auto
    moreover have "covered (l # ls) start evaluated"
      unfolding covered_def
    proof (intro allI impI)
      fix x :: rat assume x: "of_int start \<le> x \<and> x \<le> of_int evaluated"
      have "of_int evaluated \<le> (of_int e :: rat)" using True by simp
      then show "in_lease (l # ls) x"
        using e x l by (cases "x < of_int c") auto
    qed
    ultimately show ?thesis using e True l by auto
  qed
qed (auto simp: covered_def)

text \<open>The collector check knows exactly since when the system manager has been running: if a lease
is current, every instant from the start it computes to the evaluation lies inside some lease, and no
lease that began earlier reaches that start; if none is current the start is zero.\<close>

theorem lease_coverage_is_exact:
  assumes "sorted_wrt (\<lambda>a b. fst b \<le> fst a) leases"
    and "\<forall>(c, e) \<in> set leases. c \<noteq> zero_time \<and> c \<le> e \<and> c \<le> evaluated"
    and "start = continuous_lease_start evaluated leases"
  shows "(start = zero_time \<longleftrightarrow> \<not> (\<exists>(c, e) \<in> set leases. evaluated < e))
    \<and> (start \<noteq> zero_time \<longrightarrow> covered leases start evaluated
        \<and> (\<forall>(c, e) \<in> set leases. c < start \<longrightarrow> e < start) \<and> start \<in> fst ` set leases)"
  using lease_coverage_exact [OF assms] .

theorem lease_coverage_is_exact_witness:
  "covered [(50, 110), (30, 40), (20, 60), (5, 19)] 20 100"
proof -
  have "continuous_lease_start 100 [(50, 110), (30, 40), (20, 60), (5, 19)] = 20" by code_simp
  then show ?thesis
    using lease_coverage_is_exact [of "[(50, 110), (30, 40), (20, 60), (5, 19)]" 100 20]
    by (simp add: zero_time_def)
qed


section \<open>The collector check\<close>

lemma coverage_reaches:
  assumes "sorted_wrt (\<lambda>a b. fst b \<le> fst a) leases"
    "\<forall>(c, e) \<in> set leases. c \<noteq> zero_time \<and> c \<le> e \<and> c \<le> evaluated"
    "start = continuous_lease_start evaluated leases" "start \<noteq> zero_time" "t \<le> evaluated"
  shows "start \<le> t \<longleftrightarrow> covered leases t evaluated"
proof -
  have ex: "covered leases start evaluated" "\<forall>(c, e) \<in> set leases. c < start \<longrightarrow> e < start"
    "start \<in> fst ` set leases"
    using lease_coverage_exact [OF assms(1-3)] assms(4) by auto
  have le: "start \<le> evaluated" using ex(3) assms(2) by auto
  show ?thesis
  proof
    assume "start \<le> t"
    then show "covered leases t evaluated"
      using ex(1) by (auto simp: covered_def)
  next
    assume c: "covered leases t evaluated"
    show "start \<le> t"
    proof (rule ccontr)
      assume less: "\<not> start \<le> t"
      let ?E = "insert t (snd ` {l \<in> set leases. fst l < start})"
      have fin: "finite ?E" by simp
      have small: "Max ?E < start" using ex(2) less by auto
      obtain x :: rat where x: "of_int (Max ?E) < x" "x < of_int start"
        using dense [of "of_int (Max ?E) :: rat" "of_int start"] small by auto
      have "t \<le> Max ?E" by simp
      then have "(of_int t :: rat) \<le> of_int (Max ?E)" by (simp only: of_int_le_iff)
      then have low: "of_int t \<le> x" using x(1) by (rule order.trans [OF _ less_imp_le])
      have "(of_int start :: rat) \<le> of_int evaluated" using le by (simp only: of_int_le_iff)
      with less_imp_le [OF x(2)] have "x \<le> of_int evaluated" by (rule order.trans)
      with low obtain c' e' where l: "(c', e') \<in> set leases" "of_int c' \<le> x" "x \<le> of_int e'"
        using c by (auto simp: covered_def in_lease_def)
      have "(of_int c' :: rat) < of_int start" using l(2) x(2) by (rule le_less_trans)
      then have "c' < start" by simp
      then have "e' \<in> ?E" using l(1) by force
      then have "e' \<le> Max ?E" by (intro Max_ge fin)
      then have "(of_int e' :: rat) \<le> of_int (Max ?E)" by (simp only: of_int_le_iff)
      then have "x \<le> of_int (Max ?E)" using l(3) by (rule order.trans [rotated])
      then show False using x(1) by (rule leD [THEN notE])
    qed
  qed
qed

text \<open>C24: With a pending duration, the collector check is active exactly when a manager lease is current
and throughout the last pending duration both the manager's leases covered every instant and the last
completed pass, if one is retained, was older than its maximum age.\<close>

theorem progress_alert_is_exact:
  assumes "validate_payload policy = None" "\<not> jp_disable_pending policy" "0 < maximum_age" "maximum_age \<le> max_int64"
    and leases: "sorted_wrt (\<lambda>a b. fst b \<le> fst a) leases"
      "\<forall>(c, e) \<in> set leases. c \<noteq> zero_time \<and> c \<le> e \<and> c \<le> current"
    and "current \<noteq> zero_time" "ow_name ow \<noteq> ''''" "completion_timestamp completion current = Some completed"
  shows "\<exists>r. evaluate_progress fmt ow completion (current, leases) maximum_age policy = Inr r
    \<and> (ae_state r = state_active \<longleftrightarrow> (\<exists>(c, e) \<in> set leases. current < e)
        \<and> covered leases (current - jp_pending policy) current
        \<and> (completed \<noteq> zero_time \<longrightarrow> completed + maximum_age \<le> current - jp_pending policy))"
proof -
  let ?start = "continuous_lease_start current leases"
  let ?since = "progress_since current ?start completed maximum_age policy"
  have pos: "0 < jp_pending policy" "jp_pending policy \<le> max_int64"
    using valid_policy [OF assms(1)] assms(2) by auto
  have fresh: "time_sub current completed < maximum_age \<longleftrightarrow> current - completed < maximum_age"
    using assms(3,4) by (intro time_sub_ge) auto
  obtain a where a: "new_progress_alert fmt ow completed maximum_age current = Inr a" "al_status a = status_active"
    using assms(7,8) by (simp add: new_progress_alert_def new_alert_def alert_metrics_collector_progress_def
        status_active_def status_resolved_def)
  have start: "?start = zero_time \<longleftrightarrow> \<not> (\<exists>(c, e) \<in> set leases. current < e)"
    using lease_coverage_exact [OF leases refl] by simp
  have reach: "?start \<le> current - jp_pending policy \<longleftrightarrow> covered leases (current - jp_pending policy) current"
    if "?start \<noteq> zero_time"
    using coverage_reaches [OF leases refl that, of "current - jp_pending policy"] pos by simp
  have since: "\<not> time_sub current ?since < jp_pending policy \<longleftrightarrow> ?start \<le> current - jp_pending policy
      \<and> (completed \<noteq> zero_time \<longrightarrow> completed + maximum_age \<le> current - jp_pending policy)"
    using time_sub_ge [of "jp_pending policy" current ?since] pos by (auto simp: progress_since_def Let_def)
  have ok: "validate_evaluation \<lparr>ae_state = st, ae_finding = (if st = state_active \<or> st = state_pending then Some a else None),
      ae_facts = fs\<rparr> = None" if "st \<in> {state_active, state_pending, state_healthy, state_insufficient}" for st fs
    using that a(2) by (auto simp: validate_evaluation_def states_def)
  note ev = new_evaluation_ok [OF ok [of state_active, simplified]] new_evaluation_ok [OF ok [of state_pending, simplified]]
    new_evaluation_ok [OF ok [of state_healthy], unfolded states_def, simplified, folded states_def]
    new_evaluation_ok [OF ok [of state_insufficient], unfolded states_def, simplified, folded states_def]
  show ?thesis
  proof (cases "completed \<noteq> zero_time \<and> current - completed < maximum_age")
    case True
    then show ?thesis
      using assms(9) fresh pos ev by (auto simp: evaluate_progress_def Let_def states_def)
  next
    case False
    then show ?thesis
      using assms(2,9) fresh start reach since a(1) ev
      by (cases "?start = zero_time") (auto simp: evaluate_progress_def Let_def states_def)
  qed
qed

definition demo_format :: text_format where
  "demo_format = \<lparr>fmt_quote = id, fmt_time = (\<lambda>_. ''t''), fmt_duration = (\<lambda>_. ''d'')\<rparr>"

definition demo_leases :: "(time \<times> time) list" where
  "demo_leases = [(50, 110), (30, 40), (20, 60), (5, 19)]"

text \<open>The pass is ten nanoseconds late at the newest instant that counts.\<close>

theorem progress_alert_is_exact_witness:
  "\<exists>r. evaluate_progress demo_format \<lparr>ow_system = 1, ow_stream = 0, ow_group = 0, ow_name = ''s''\<rparr> None
      (100, demo_leases) 10 (demo_policy\<lparr>jp_pending := 80\<rparr>) = Inr r \<and> ae_state r = state_active"
proof -
  have p: "validate_payload (demo_policy\<lparr>jp_pending := 80\<rparr>) = None" by code_simp
  have start: "continuous_lease_start 100 demo_leases = 20" by code_simp
  have leases: "sorted_wrt (\<lambda>a b. fst b \<le> fst a) demo_leases"
    "\<forall>(c, e) \<in> set demo_leases. c \<noteq> zero_time \<and> c \<le> e \<and> c \<le> 100"
    by (simp_all add: demo_leases_def zero_time_def)
  have cover: "covered demo_leases 20 100"
    using lease_coverage_exact [OF leases refl] start by (simp add: zero_time_def)
  show ?thesis
    using progress_alert_is_exact [OF p _ _ _ leases, where maximum_age = 10 and completed = zero_time
        and completion = None and fmt = demo_format and ow = "\<lparr>ow_system = 1, ow_stream = 0, ow_group = 0, ow_name = ''s''\<rparr>"] cover
    by (simp add: demo_policy_def completion_timestamp_def zero_time_def max_int64_def) (simp add: demo_leases_def)
qed

end
