(* ===== verification/Liveness_Properties.thy ===== *)
theory Liveness_Properties
  imports Alert_Properties
begin

text \<open>
  From the rows of the workers to the alert: what the metrics collector writes about the unclaimed
  workers of a stream is read back unchanged by the liveness check, and the check decides by the rows.
\<close>

section \<open>Whole numbers as doubles\<close>

lemma round_half_even_of_int [simp]: "round_half_even (of_int n) = n"
  by (simp add: round_half_even_def)

lemma exponent_of_int:
  assumes "0 < n"
  shows "exponent_of (of_int n) = bitlen n - 1"
proof -
  have one: "bitlen 1 = (1 :: int)" by (simp add: bitlen_alt_def)
  have pos: "0 \<le> bitlen n - 1" using assms by (simp add: bitlen_alt_def)
  have "2 ^ nat (bitlen n - 1) \<le> n" using bitlen_bounds [OF assms] by simp
  then have "(of_int (2 ^ nat (bitlen n - 1)) :: rat) \<le> of_int n" by (simp only: of_int_le_iff)
  then have "scale2 (bitlen n - 1) \<le> of_int n" using pos by (simp add: scale2_def)
  then show ?thesis
    using assms one by (simp add: exponent_of_def)
qed

lemma round_double_of_int:
  assumes "0 \<le> n" "n < 2 ^ 53"
  shows "round_double (of_int n) = of_int n"
proof (cases "n = 0")
  case False
  then have pos: "0 < n" using assms(1) by simp
  have "bitlen n \<le> 53" using assms pos bitlen_le_iff_power [of n 53] by simp
  then obtain k where k: "scale2 (exponent_of (of_int n) - 52) = 1 / 2 ^ k"
    using pos that [of 0] that [of "nat (53 - bitlen n)"]
    by (cases "bitlen n = 53") (auto simp: exponent_of_int scale2_def)
  have "of_int n / (1 / 2 ^ k) = (of_int (n * 2 ^ k) :: rat)" by simp
  then have "round_half_even (of_int n / (1 / 2 ^ k)) = n * 2 ^ k" by (metis round_half_even_of_int)
  then show ?thesis using False k by (simp add: round_double_def Let_def)
qed (simp add: round_double_def)

lemma truncate_rat_of_int [simp]: "truncate_rat (of_int n) = n"
  by (simp add: truncate_rat_def)

lemma truncate_rat_literals [simp]: "truncate_rat 0 = 0" "truncate_rat 1 = 1" "truncate_rat (of_nat k) = int k"
  by (simp_all add: truncate_rat_def)

section \<open>The document round trip\<close>

definition fits :: "int \<Rightarrow> bool" where
  "fits i \<longleftrightarrow> min_int64 \<le> i \<and> i \<le> max_int64"

definition storable_owner :: "owner \<Rightarrow> bool" where
  "storable_owner ow \<longleftrightarrow> fits (ow_system ow) \<and> fits (ow_stream ow) \<and> fits (ow_group ow)"

lemma fold_names:
  "fold_name ''workers'' = ''workers''" "fold_name ''worker'' = ''worker''" "fold_name ''owner'' = ''owner''"
  "fold_name ''target_instances'' = ''target_instances''" "fold_name ''system_id'' = ''system_id''"
  "fold_name ''stream_id'' = ''stream_id''" "fold_name ''group_id'' = ''group_id''"
  by (simp_all add: lower_char_def less_eq_char_def)

declare fold_name.simps [simp del]

lemma decode_encode_owner:
  "storable_owner ow \<Longrightarrow> decode_object owner_field x (encode_owner (Some ow)) = Some ow"
  by (simp add: decode_object_def encode_owner_def fold_names owner_field_def decode_int64_def decode_string_def
      storable_owner_def fits_def)

lemma decode_encode_worker:
  assumes "uw_owner w = Some ow" "storable_owner ow" "fits (uw_target w)"
  shows "decode_object worker_field zero_worker (encode_worker w) = Some w"
  using assms decode_encode_owner [OF assms(2)]
  by (simp add: decode_object_def [of worker_field] encode_worker_def fold_names worker_field_def decode_string_def
      decode_int64_def fits_def decode_pointer_def zero_worker_def encode_owner_def)

definition storable_worker :: "unclaimed_worker \<Rightarrow> bool" where
  "storable_worker w \<longleftrightarrow> (\<exists>ow. uw_owner w = Some ow \<and> storable_owner ow) \<and> fits (uw_target w)"

lemma decode_encode_slots:
  "list_all storable_worker ws \<Longrightarrow> decode_worker_list None i (map encode_worker ws) = Some (map Some ws)"
proof (induction ws arbitrary: i)
  case (Cons w ws)
  then obtain ow where "uw_owner w = Some ow" "storable_owner ow" "fits (uw_target w)"
    by (auto simp: storable_worker_def)
  then have "decode_object worker_field zero_worker (encode_worker w) = Some w" by (rule decode_encode_worker)
  moreover have "encode_worker w \<noteq> Json_Null" by (simp add: encode_worker_def)
  ultimately show ?case using Cons by (simp add: decode_worker_slot_def decode_pointer_def)
qed simp

lemma decode_encode_workers:
  "list_all storable_worker ws \<Longrightarrow> decode_workers (encode_workers ws) = Some (Some (map Some ws))"
  by (simp add: decode_workers_def encode_workers_def decode_object_def fold_names workers_field_def decode_encode_slots)

section \<open>The rows behind a measurement\<close>

lemma scan_all_exact: "scan_all scan rs = Some xs \<longleftrightarrow> map scan rs = map Some xs"
proof (induction rs arbitrary: xs)
  case (Cons r rs)
  show ?case using Cons.IH [of "tl xs"] by (cases xs) (auto split: option.splits)
qed auto

lemma all_unclaimed_exact:
  "\<forall>w \<in> set ws. wk_name w \<noteq> '''' \<Longrightarrow> all_unclaimed ws = Inr (map
     (\<lambda>w. \<lparr>uw_name = wk_name w, uw_owner = Some (wk_owner w), uw_target = wk_target w\<rparr>)
     (filter (\<lambda>w. wk_status w = Status_Unclaimed) ws))"
  by (induction ws) (auto simp: new_unclaimed_worker_def)

lemma row_of_snapshot:
  assumes "to_worker_snapshot r = Some w" "0 < i"
  shows "ow_stream (wk_owner w) = i \<longleftrightarrow> ws_stream r = i"
    and "wk_status w = Status_Unclaimed \<longleftrightarrow> ws_target r \<noteq> 0 \<and> ws_live r \<le> 0"
    and "wk_target w = ws_target r" "wk_name w = ws_name r"
  using assms
  by (auto simp: to_worker_snapshot_def snapshot_owner_def new_group_owner_def new_stream_owner_def
      new_system_owner_def classify_worker_def split: if_splits)

text \<open>A worker of the stream or of its groups that should run and that no live instance holds.\<close>

definition worker_unclaimed :: "'m worker_db \<Rightarrow> time \<Rightarrow> int \<Rightarrow> bool" where
  "worker_unclaimed db now i \<longleftrightarrow>
     (\<exists>c \<in> set (worker_configs db). ws_stream (worker_row db now c) = i \<and> wc_target c \<noteq> 0
       \<and> \<not> (\<exists>j \<in> set (worker_instances db). is_live (wc_id c) now j))"

lemma set_sort_nulls_last: "set (sort_nulls_last collate f xs) = set xs"
  by (auto simp: sort_nulls_last_def)

lemma unclaimed_by_rows:
  assumes "worker_snapshots collate (Inr (now, p)) = Inr ws" "0 < i"
  shows "filter (\<lambda>w. wk_status w = Status_Unclaimed) (workers_of_stream ws i) \<noteq> []
    \<longleftrightarrow> worker_unclaimed (cp_workers p) now i"
proof -
  let ?db = "cp_workers p"
  let ?rows = "worker_rows collate ?db now"
  have m: "map to_worker_snapshot ?rows = map Some ws"
    using assms(1) by (simp add: worker_snapshots_def scan_all_exact [symmetric] split: option.splits)
  have rows: "set ?rows = worker_row ?db now ` set (worker_configs ?db)"
    by (simp add: worker_rows_def set_sort_nulls_last)
  have fields: "ws_target (worker_row ?db now c) = wc_target c"
    "ws_live (worker_row ?db now c) \<le> 0 \<longleftrightarrow> \<not> (\<exists>j \<in> set (worker_instances ?db). is_live (wc_id c) now j)" for c
    by (auto simp: worker_row_def Let_def filter_empty_conv)
  have "(\<exists>w \<in> set ws. ow_stream (wk_owner w) = i \<and> wk_status w = Status_Unclaimed)
    \<longleftrightarrow> (\<exists>r \<in> set ?rows. ws_stream r = i \<and> ws_target r \<noteq> 0 \<and> ws_live r \<le> 0)"
  proof -
    have "set (map to_worker_snapshot ?rows) = Some ` set ws" unfolding m by simp
    then have img: "to_worker_snapshot ` set ?rows = Some ` set ws" by simp
    show ?thesis
    proof
      assume "\<exists>w \<in> set ws. ow_stream (wk_owner w) = i \<and> wk_status w = Status_Unclaimed"
      then obtain w where w: "w \<in> set ws" "ow_stream (wk_owner w) = i" "wk_status w = Status_Unclaimed" by blast
      then obtain r where "r \<in> set ?rows" "to_worker_snapshot r = Some w" using img by (metis image_iff)
      then show "\<exists>r \<in> set ?rows. ws_stream r = i \<and> ws_target r \<noteq> 0 \<and> ws_live r \<le> 0"
        using row_of_snapshot [OF _ assms(2)] w by blast
    next
      assume "\<exists>r \<in> set ?rows. ws_stream r = i \<and> ws_target r \<noteq> 0 \<and> ws_live r \<le> 0"
      then obtain r where r: "r \<in> set ?rows" "ws_stream r = i" "ws_target r \<noteq> 0" "ws_live r \<le> 0" by blast
      then obtain w where "w \<in> set ws" "to_worker_snapshot r = Some w" using img by (metis image_iff)
      then show "\<exists>w \<in> set ws. ow_stream (wk_owner w) = i \<and> wk_status w = Status_Unclaimed"
        using row_of_snapshot [OF _ assms(2)] r by blast
    qed
  qed
  then show ?thesis
    by (auto simp: workers_of_stream_def filter_empty_conv worker_unclaimed_def rows fields)
qed

section \<open>The check\<close>

lemma starts_space_hd: "starts_space (c # s) \<Longrightarrow> c \<in> hd ` set space_encodings"
proof -
  assume "starts_space (c # s)"
  then obtain p where p: "p \<in> set space_encodings" "take (length p) (c # s) = p"
    by (auto simp: starts_space_def list_ex_iff)
  moreover have "p \<noteq> []" using p(1) by (auto simp: space_encodings_def)
  ultimately have "hd p = c" by (metis hd_take length_greater_0_conv list.sel(1))
  then show ?thesis using p(1) by blast
qed

lemma space_heads: "hd ` set space_encodings
  = set [CHR 0x09, CHR 0x0A, CHR 0x0B, CHR 0x0C, CHR 0x0D, CHR '' '', CHR 0xC2, CHR 0xE1, CHR 0xE2, CHR 0xE3]"
  by (simp add: space_encodings_def image_Un image_image)

lemma worker_unit: "validate_unit ''{worker}'' = None"
  using starts_space_hd [unfolded space_heads]
  by (auto simp: validate_unit_def)

lemma measurement_of_liveness:
  assumes "t \<noteq> zero_time" "\<forall>w \<in> set ws. wk_name w \<noteq> ''''"
  shows "\<exists>m. liveness_step name ws t = Inr [m] \<and> measures metric_stream_unclaimed_workers m
    \<and> me_value m = float_of_int (int (length (filter (\<lambda>w. wk_status w = Status_Unclaimed) ws)))
    \<and> me_metadata m = Some (encode_workers (map
         (\<lambda>w. \<lparr>uw_name = wk_name w, uw_owner = Some (wk_owner w), uw_target = wk_target w\<rparr>)
         (filter (\<lambda>w. wk_status w = Status_Unclaimed) ws)))"
proof -
  let ?d = metric_stream_unclaimed_workers
  have d: "dm_name ?d \<noteq> ''''" "dm_kind ?d = kind_gauge" "validate_unit (dm_unit ?d) = None" "dm_attributes ?d = [''stream'']"
    by (simp_all add: metric_stream_unclaimed_workers_def kind_gauge_def worker_unit)
  then have "new_built_in_measurement ?d v [(''stream'', name)] t = Inr \<lparr>me_name = dm_name ?d, me_kind = dm_kind ?d,
      me_value = v, me_unit = dm_unit ?d, me_attributes = [(''stream'', name)], me_at = t, me_metadata = None\<rparr>" for v
    using assms(1) by (simp add: new_built_in_measurement_def new_measurement_def validate_kind_def)
  then show ?thesis
    using d(2) by (simp add: liveness_step_def all_unclaimed_exact [OF assms(2)] built_step_def measures_def)
qed

lemma decided_states:
  "\<exists>r. healthy = Inr r \<and> ae_state r = state_healthy"
  "al_status a = status_active \<Longrightarrow> \<exists>r. active_with (Inr a) = Inr r \<and> ae_state r = state_active"
  by (auto simp: healthy_def active_with_def new_evaluation_def validate_evaluation_def states_def)

lemma liveness_alert_is_built:
  assumes "us \<noteq> []" "ow_name ow \<noteq> ''''" "t \<noteq> zero_time"
  shows "\<exists>a. new_liveness_alert fmt ow us t = Inr a \<and> al_status a = status_active"
  using assms
  by (simp add: new_liveness_alert_def new_alert_def alert_worker_liveness_def severity_warn_def)

lemma evaluate_liveness_counted:
  assumes "measures metric_stream_unclaimed_workers m" "me_value m = Finite (of_int n)" "0 \<le> n"
    "me_metadata m = Some doc" "decode_workers doc = Some (Some ws)"
    "float_of_int (int (length ws)) = me_value m" "list_all (usable_worker ow) ws"
  shows "evaluate_liveness fmt ow m t = (if n = 0 then healthy else active_with (new_liveness_alert fmt ow (map the ws) t))"
  using assms by (simp add: evaluate_liveness_def)

text \<open>C22: What the collector writes about the workers of a stream reaches the liveness check intact: the
check of that measurement is conclusive, and it is active exactly when some worker row of the stream or
its groups has a target and no live instance.\<close>

theorem liveness_check_decides_by_the_rows:
  assumes snaps: "worker_snapshots collate (Inr (now, p)) = Inr ws"
    and "\<forall>w \<in> set ws. wk_name w \<noteq> '''' \<and> storable_owner (wk_owner w) \<and> fits (wk_target w)"
    and "int (length ws) < 2 ^ 53" "t \<noteq> zero_time" "created \<noteq> zero_time"
    and "0 < ow_stream ow" "ow_name ow \<noteq> ''''"
  shows "\<exists>m r. liveness_step name (workers_of_stream ws (ow_stream ow)) t = Inr [m]
    \<and> evaluate_liveness fmt ow m created = Inr r
    \<and> ae_state r = (if worker_unclaimed (cp_workers p) now (ow_stream ow) then state_active else state_healthy)"
proof -
  let ?mine = "workers_of_stream ws (ow_stream ow)"
  let ?open = "filter (\<lambda>w. wk_status w = Status_Unclaimed) ?mine"
  let ?us = "map (\<lambda>w. \<lparr>uw_name = wk_name w, uw_owner = Some (wk_owner w), uw_target = wk_target w\<rparr>) ?open"
  have mine: "\<forall>w \<in> set ?mine. wk_name w \<noteq> '''' \<and> storable_owner (wk_owner w) \<and> fits (wk_target w)
      \<and> ow_stream (wk_owner w) = ow_stream ow \<and> w \<in> set ws"
    using assms(2) by (auto simp: workers_of_stream_def)
  then obtain m where m: "liveness_step name ?mine t = Inr [m]" "measures metric_stream_unclaimed_workers m"
    "me_value m = float_of_int (int (length ?open))" "me_metadata m = Some (encode_workers ?us)"
    using measurement_of_liveness [OF assms(4), of ?mine name] by blast
  have "length ?open \<le> length ws"
    unfolding workers_of_stream_def by (meson length_filter_le order_trans)
  then have v: "me_value m = Finite (of_int (int (length ?open)))"
    using assms(3) m(3) by (simp add: float_of_int_def round_double_of_int del: of_int_of_nat_eq)
  have "list_all storable_worker ?us"
    using mine by (auto simp: list_all_iff storable_worker_def)
  then have doc: "decode_workers (encode_workers ?us) = Some (Some (map Some ?us))"
    by (rule decode_encode_workers)
  have target: "wk_target w \<noteq> 0" if "w \<in> set ?open" for w
  proof -
    have "map to_worker_snapshot (worker_rows collate (cp_workers p) now) = map Some ws"
      using snaps by (simp add: worker_snapshots_def scan_all_exact [symmetric] split: option.splits)
    moreover have "w \<in> set ws" using that mine by auto
    then have "Some w \<in> set (map Some ws)" by simp
    ultimately have "Some w \<in> set (map to_worker_snapshot (worker_rows collate (cp_workers p) now))" by metis
    then obtain r where "to_worker_snapshot r = Some w" by auto
    then show ?thesis using row_of_snapshot [OF _ assms(6)] that by auto
  qed
  have usable: "list_all (usable_worker ow) (map Some ?us)"
    using mine target by (auto simp: list_all_iff usable_worker_def)
  have length: "float_of_int (int (length (map Some ?us))) = me_value m" using m(3) by simp
  have by_rows: "?open \<noteq> [] \<longleftrightarrow> worker_unclaimed (cp_workers p) now (ow_stream ow)"
    by (rule unclaimed_by_rows [OF snaps assms(6)])
  have ev: "evaluate_liveness fmt ow m created
      = (if int (length ?open) = 0 then healthy else active_with (new_liveness_alert fmt ow ?us created))"
    using evaluate_liveness_counted [OF m(2) v of_nat_0_le_iff m(4) doc length usable, of fmt created]
    by (simp only: map_map comp_def option.sel map_ident)
  have "\<exists>r. evaluate_liveness fmt ow m created = Inr r \<and> ae_state r = (if ?open \<noteq> [] then state_active else state_healthy)"
  proof (cases "?open = []")
    case True
    then show ?thesis using ev decided_states(1) by simp
  next
    case False
    then obtain a where a: "new_liveness_alert fmt ow ?us created = Inr a" "al_status a = status_active"
      using liveness_alert_is_built [OF _ assms(7,5), of ?us fmt] by (auto simp only: map_is_Nil_conv)
    have "evaluate_liveness fmt ow m created = active_with (Inr a)"
      using False by (simp only: ev a(1)) simp
    then show ?thesis using decided_states(2) [OF a(2)] by (simp only: False not_False_eq_True if_True)
  qed
  then show ?thesis using m(1) by_rows by auto
qed

text \<open>Two workers on stream 7 at time 40: the one of the group is held, the one of the stream is not.\<close>

definition demo_held :: "registry \<Rightarrow> schedule_db \<Rightarrow> nat control_plane" where
  "demo_held r s = \<lparr>cp_registry = r, cp_groups = [], cp_workers =
     \<lparr>worker_configs = [\<lparr>wc_id = 4, wc_owner = (None, None, Some 1), wc_name = ''w'',
         wc_metadata = 0, wc_target = -1, wc_created = 0, wc_updated = 0\<rparr>,
        \<lparr>wc_id = 5, wc_owner = (None, Some 7, None), wc_name = ''j'',
         wc_metadata = 0, wc_target = 1, wc_created = 0, wc_updated = 0\<rparr>],
      worker_config_logs = [], worker_instances = [\<lparr>wi_id = 1, wi_worker = 4, wi_token = 1,
        wi_expires = 50, wi_attempts = 0, wi_created = 0\<rparr>],
      worker_instance_logs = [], next_worker = 6, next_instance = 2, next_instance_log = 1,
      wd_streams = [\<lparr>sf_id = 7, sf_system = 1, sf_name = ''orders''\<rparr>],
      wd_groups = [\<lparr>gf_id = 1, gf_stream = 7, gf_name = ''mail''\<rparr>]\<rparr>, cp_schedules = s\<rparr>"

definition demo_orders :: owner where
  "demo_orders = \<lparr>ow_system = 1, ow_stream = 7, ow_group = 0, ow_name = ''orders''\<rparr>"

definition demo_worker_snapshots :: "worker_snapshot list" where
  "demo_worker_snapshots =
     [\<lparr>wk_owner = \<lparr>ow_system = 1, ow_stream = 7, ow_group = 1, ow_name = ''mail''\<rparr>, wk_name = ''w'',
       wk_status = Status_Claimed, wk_target = - 1, wk_live = 1, wk_attempts = 0, wk_unclaimed = 0\<rparr>,
      \<lparr>wk_owner = demo_orders, wk_name = ''j'', wk_status = Status_Unclaimed, wk_target = 1, wk_live = 0,
       wk_attempts = 0, wk_unclaimed = 0\<rparr>]"

theorem liveness_check_decides_by_the_rows_witness:
  "\<forall>registry schedules. \<exists>m r. liveness_step ''orders'' (workers_of_stream demo_worker_snapshots 7) 41 = Inr [m]
     \<and> evaluate_liveness demo_format demo_orders m 42 = Inr r \<and> ae_state r = state_active
     \<and> worker_unclaimed (cp_workers (demo_held registry schedules)) 40 7"
proof (intro allI)
  fix registry schedules
  let ?p = "demo_held registry schedules"
  have s: "worker_snapshots (\<lambda>_. 0 :: int) (Inr (40, ?p)) = Inr demo_worker_snapshots"
    by (simp add: worker_snapshots_def demo_held_def worker_rows_def sort_nulls_last_def worker_row_def stream_of_row_def
        group_of_row_def owner_system_id_def is_live_def to_worker_snapshot_def snapshot_owner_def new_group_owner_def
        new_stream_owner_def classify_worker_def demo_worker_snapshots_def demo_orders_def sql_max_def)
  have u: "worker_unclaimed (cp_workers ?p) 40 7"
    by (simp add: worker_unclaimed_def demo_held_def worker_row_def stream_of_row_def group_of_row_def is_live_def)
  show "\<exists>m r. liveness_step ''orders'' (workers_of_stream demo_worker_snapshots 7) 41 = Inr [m]
     \<and> evaluate_liveness demo_format demo_orders m 42 = Inr r \<and> ae_state r = state_active
     \<and> worker_unclaimed (cp_workers ?p) 40 7"
    using liveness_check_decides_by_the_rows [OF s, of 41 42 demo_orders "''orders''" demo_format] u
    by (simp add: demo_worker_snapshots_def demo_orders_def storable_owner_def fits_def min_int64_def max_int64_def
        zero_time_def)
qed

end
