(* ===== verification/Record_Properties.thy ===== *)
theory Record_Properties
  imports Liveness_Properties Schedule_Properties
begin

text \<open>
  What recording a check leaves: the head of the alert's key says what the last conclusive result was.
\<close>

section \<open>The head of a key\<close>

lemma unique_match:
  "distinct (map f xs) \<Longrightarrow> filter (\<lambda>x. f x = k) xs = (case find (\<lambda>x. f x = k) xs of None \<Rightarrow> [] | Some x \<Rightarrow> [x])"
proof (induction xs)
  case (Cons x xs)
  have "filter (\<lambda>x. f x = k) xs = []" if "f x = k" using Cons.prems that by (auto simp: filter_empty_conv image_iff)
  then show ?case using Cons by auto
qed simp

lemma filter_concat_groups:
  "(\<And>h. filter P (g h) = (if Q h then g h else [])) \<Longrightarrow> filter P (concat (map g hs)) = concat (map g (filter Q hs))"
  by (induction hs) auto

lemma get_head_winner:
  assumes "produce_inv psize s"
  shows "get_head (ps_db s) k = Option.bind (head_winner (ps_db s) k) (\<lambda>w. get_head_message (ps_db s) (fst w))"
proof -
  let ?db = "ps_db s"
  let ?msgs = "\<lambda>h. case hd_winner h of None \<Rightarrow> [] | Some w \<Rightarrow>
    map (\<lambda>m. (hd_key h, to_stored m)) (filter (\<lambda>m. msg_id m = fst w) (message_log ?db))"
  have d: "distinct (map hd_key (compaction_heads ?db))" "distinct (map msg_id (message_log ?db))"
    using assms by (auto simp: produce_inv_def heads_inv_def log_inv_def)
  have "filter (\<lambda>x. fst x = k) (?msgs h) = (if hd_key h = k then ?msgs h else [])" for h
    by (auto split: option.splits simp: filter_map comp_def)
  then have "filter (\<lambda>x. fst x = k) (joined_heads ?db) = concat (map ?msgs (filter (\<lambda>h. hd_key h = k) (compaction_heads ?db)))"
    unfolding joined_heads_def by (rule filter_concat_groups)
  also have "\<dots> = (case head_winner ?db k of None \<Rightarrow> [] | Some w \<Rightarrow>
      map (\<lambda>m. (k, to_stored m)) (filter (\<lambda>m. msg_id m = fst w) (message_log ?db)))"
  proof (cases "find (\<lambda>h. hd_key h = k) (compaction_heads ?db)")
    case (Some h)
    then have "hd_key h = k" by (auto simp: find_Some_iff)
    then show ?thesis using Some by (simp add: unique_match [OF d(1)] head_winner_def cong: option.case_cong)
  qed (simp add: unique_match [OF d(1)] head_winner_def)
  finally show ?thesis
    unfolding unique_match [OF d(2)]
    by (auto simp: get_head_def get_head_message_def split: option.splits)
qed

lemma ensured_head:
  "head_winner (snd (ensure_and_lock_head db k now)) j = head_winner db j"
  "hd_winner (fst (ensure_and_lock_head db k now)) = head_winner db k"
  "message_log (snd (ensure_and_lock_head db k now)) = message_log db"
  "idempotency_keys (snd (ensure_and_lock_head db k now)) = idempotency_keys db"
proof -
  have u: "find (\<lambda>h. hd_key h = j) (update_where (\<lambda>h. hd_key h = k) (\<lambda>h. if hd_winner h = None then h\<lparr>hd_updated_at := now\<rparr> else h) hs)
    = (if j = k then map_option (\<lambda>h. if hd_winner h = None then h\<lparr>hd_updated_at := now\<rparr> else h) (find (\<lambda>h. hd_key h = j) hs)
       else find (\<lambda>h. hd_key h = j) hs)" for hs
    by (induction hs) (auto simp: update_where_def)
  have a: "find (\<lambda>h. hd_key h = j) (hs @ [h]) =
      (case find (\<lambda>h. hd_key h = j) hs of None \<Rightarrow> if hd_key h = j then Some h else None | Some x \<Rightarrow> Some x)"
    for h :: head_row and hs
    by (induction hs) auto
  show "head_winner (snd (ensure_and_lock_head db k now)) j = head_winner db j"
    by (auto simp: ensure_and_lock_head_def head_winner_def u a Let_def split: option.splits)
qed (auto simp: ensure_and_lock_head_def head_winner_def Let_def split: option.splits)

lemma ensured_keys:
  "distinct (map hd_key (compaction_heads db)) \<Longrightarrow>
   distinct (map hd_key (compaction_heads (snd (ensure_and_lock_head db k now))))"
  by (auto simp: ensure_and_lock_head_def Let_def map_update_where find_None_iff split: option.splits)

lemma versions_log: "message_log db' = message_log db \<Longrightarrow> versions db' = versions db"
  by (simp add: versions_def fun_eq_iff)

lemma locked_inv:
  assumes "produce_inv psize s"
  shows "produce_inv psize (s\<lparr>ps_db := snd (lock_head (ps_db s) k now)\<rparr>)"
proof -
  have db: "snd (lock_head (ps_db s) k now) = snd (ensure_and_lock_head (ps_db s) k now)"
    by (simp add: lock_head_def split: prod.splits option.splits)
  let ?e = "snd (ensure_and_lock_head (ps_db s) k now)"
  have v: "versions ?e = versions (ps_db s)" by (rule versions_log) (rule ensured_head)
  then have "newest ?e = newest (ps_db s)" by (simp add: newest_def fun_eq_iff)
  with v show ?thesis
    using assms ensured_keys unfolding db
    by (simp add: produce_inv_def log_inv_def heads_inv_def ensured_head cong: option.case_cong)
qed

lemma locked_row:
  "fst (lock_head db k now) = Option.bind (head_winner db k) (\<lambda>w. get_head_message db (fst w))"
  using ensured_head(2,3) [of db k now]
  by (cases "ensure_and_lock_head db k now") (simp add: lock_head_def get_head_message_def split: option.splits)

section \<open>The append of an alert\<close>

text \<open>Every version of the key was written by \<open>Record\<close>: version one, rank zero.\<close>

definition recorded_key :: "stream_db \<Rightarrow> string \<Rightarrow> bool" where
  "recorded_key db k \<longleftrightarrow> (\<forall>w \<in> versions db k. snd w = (1, 0))"

definition keeps_invariant :: "(nat \<Rightarrow> turn) \<Rightarrow> int \<Rightarrow> bool" where
  "keeps_invariant script psize \<longleftrightarrow> (\<forall>n u. produce_inv psize u \<longrightarrow> produce_inv psize (tn_others (script n) u))"

lemma savepoint_inv:
  assumes "keeps_invariant script psize" "produce_inv psize s"
  shows "produce_inv psize (snd (run_insert_savepoint script psize func a s))"
proof -
  obtain t s0 where t: "next_turn script s = (t, s0)" by fastforce
  have s0: "produce_inv psize s0"
    by (rule inv.next_turn_kept [OF _ assms(2) t]) (use assms(1) in \<open>simp add: keeps_invariant_def\<close>)
  obtain r s1 where r: "run_insert psize func a t s0 = (r, s1)" by fastforce
  have s1: "produce_inv psize s1" using inv.run_insert_kept [OF s0, of func a t] r by simp
  have f: "body_frame s0 s1" using run_insert_frame [of s0 psize func a t] r by simp
  then have "produce_inv psize (s1\<lparr>ps_db := ps_db s0\<rparr>)"
    using inv.burn [OF s0, of "ps_last s1"] by (simp add: rolled_back) (simp add: body_frame_def)
  then show ?thesis
    using t r s0 s1
    by (auto simp: run_insert_savepoint_def split: option.splits sum.splits commit_fate.splits)
qed

lemma partition_from_tx_inv:
  assumes "keeps_invariant script psize" "produce_inv psize s"
  shows "produce_inv psize (snd (create_partition_from_tx script held psize s))"
proof (cases held)
  case True
  obtain t s0 where t: "next_turn script s = (t, s0)" by fastforce
  have "produce_inv psize s0"
    by (rule inv.next_turn_kept [OF _ assms(2) t]) (use assms(1) in \<open>simp add: keeps_invariant_def\<close>)
  then show ?thesis using True t by (simp add: create_partition_from_tx_def)
next
  case False
  then show ?thesis
    using inv.heal_kept [OF _ assms(2), of script] assms(1)
    by (simp add: create_partition_from_tx_def keeps_invariant_def)
qed

lemma newest_is_latest:
  assumes "produce_inv psize s" "recorded_key (ps_db s) k" "head_winner (ps_db s) k = Some w"
  shows "head_newer w (ps_last s + 1, 1, 0)"
proof -
  have "case head_winner (ps_db s) k of None \<Rightarrow> versions (ps_db s) k = {} | Some w \<Rightarrow> newest (ps_db s) k w"
    using assms(1) by (simp add: produce_inv_def heads_inv_def)
  then have "w \<in> versions (ps_db s) k" using assms(3) by (simp add: newest_def)
  then have "fst w \<le> ps_last s" "snd w = (1, 0)"
    using assms(1,2) by (auto simp: versions_def version_of_def produce_inv_def log_inv_def recorded_key_def)
  then show ?thesis by (cases w) (auto simp: head_newer_def)
qed

lemma find_new_message:
  assumes "produce_inv psize s" "message_log db' = message_log (ps_db s) @ [m]" "msg_id m = ps_last s + 1"
  shows "get_head_message db' (ps_last s + 1) = Some (to_stored m)"
proof -
  have "find (\<lambda>x. msg_id x = ps_last s + 1) (message_log (ps_db s)) = None"
    using assms(1) by (auto simp: find_None_iff produce_inv_def log_inv_def)
  moreover have "find P (xs @ [x]) = (case find P xs of None \<Rightarrow> if P x then Some x else None | Some y \<Rightarrow> Some y)"
    for P xs and x :: message_row
    by (induction xs) auto
  ultimately show ?thesis using assms(2,3) by (simp add: get_head_message_def)
qed

lemma appended_alert_is_head:
  assumes "calm script" "keeps_invariant script psize" "produce_inv psize s" "recorded_key (ps_db s) k"
    and "ap_key a \<notin> claimed_keys s" "ap_compacted a" "ap_rank a = 0" "ap_message_key a = k" "pm_version q = 1"
    and "append_message_in_tx script held p psize (\<lambda>_. Inr q) a s = (Inr ad, s')"
  shows "produce_inv psize s' \<and> recorded_key (ps_db s') k
    \<and> (\<exists>enc i row. pm_encoded q = Some enc \<and> head_winner (ps_db s') k = Some (i, 1, 0)
         \<and> get_head_message (ps_db s') i = Some row \<and> sr_payload row = enc)"
proof -
  obtain u where u: "produce_inv psize u" "ps_db u = ps_db s"
      "run_insert_savepoint script psize (\<lambda>_. Inr q) a u = (Inr ad, s')"
  proof -
    have fail: "produce_inv psize s1 \<and> ps_db s1 = ps_db s"
      if "produce_inv psize u \<and> ps_db u = ps_db s" "run_insert_savepoint script psize (\<lambda>_. Inr q) a u = (Inl e, s1)" for u e s1
      using that savepoint_inv [OF assms(2), of u "\<lambda>_. Inr q" a] savepoint_failure [OF _ that(2)] assms(1)
      by (simp add: calm_def)
    have heal: "produce_inv psize (snd (create_partition_from_tx script held psize u))
        \<and> ps_db (snd (create_partition_from_tx script held psize u)) = ps_db s"
      if "produce_inv psize u \<and> ps_db u = ps_db s" for u
      using that partition_from_tx_inv [OF assms(2), of u held] partition_from_tx_keeps_db [of script held psize u] assms(1)
      by (simp add: calm_def)
    have "\<exists>u. (produce_inv psize u \<and> ps_db u = ps_db s) \<and> run_insert_savepoint script psize (\<lambda>_. Inr q) a u = (Inr ad, s')"
      using covered_success_from [where P = "\<lambda>u. produce_inv psize u \<and> ps_db u = ps_db s",
          OF fail heal _ assms(10) [unfolded append_message_in_tx_def]] assms(3) by simp
    then show ?thesis using that by blast
  qed
  from savepoint_success [OF u(3)] obtain t s0 where
    t: "next_turn script u = (t, s0)" "run_insert psize (\<lambda>_. Inr q) a t s0 = (Inr ad, s')" .
  have s0: "produce_inv psize s0"
    by (rule inv.next_turn_kept [OF _ u(1) t(1)]) (use assms(2) in \<open>simp add: keeps_invariant_def\<close>)
  have db: "ps_db s0 = ps_db s" using t(1) u(2) assms(1) by (auto simp: next_turn_def Let_def calm_def)
  from run_insert_success [OF t(2)] obtain oi where
    oi: "protected_insert psize t q a s0 = (Inr oi, s')" "ad = to_appended q oi" by auto
  have inv': "produce_inv psize s'" using protected_insert_inv [OF s0, of t q a] oi(1) by simp
  show ?thesis
  proof (cases rule: protected_insert_cases [of psize t q a s0])
    case (stored enc s1)
    let ?i = "ps_last s0 + 1"
    let ?m = "new_message ?i enc q a (tn_now t)"
    have [simp]: "s1 = s'" using stored(1) oi(1) by simp
    have m: "msg_id ?m = ?i" "msg_key ?m = Some k" "msg_rank ?m = Some 0" "version_of ?m = (?i, 1, 0)"
      "sr_payload (to_stored ?m) = enc"
      using assms(6-9) by (simp_all add: new_message_def version_of_def to_stored_def)
    have heads: "compaction_heads (ps_db s') = upsert_head k (?i, 1, 0) (tn_now t) (compaction_heads (ps_db s0))"
      using stored(9) assms(6-9) by simp
    have rec: "recorded_key (ps_db s0) k" using assms(4) db by simp
    have "head_winner (ps_db s') k = Some (?i, 1, 0)"
      using newest_is_latest [OF s0 rec] by (simp add: upsert_winner [OF heads] split: option.splits)
    moreover have "get_head_message (ps_db s') ?i = Some (to_stored ?m)"
      using find_new_message [OF s0] stored(7) m(1) by simp
    moreover have "{x \<in> set (message_log (ps_db s')). msg_key x = Some k \<and> msg_rank x \<noteq> None}
        = insert ?m {x \<in> set (message_log (ps_db s0)). msg_key x = Some k \<and> msg_rank x \<noteq> None}"
      using stored(7) m(2,3) by auto
    then have "versions (ps_db s') k = insert (?i, 1, 0) (versions (ps_db s0) k)"
      by (simp add: versions_def m(4))
    ultimately show ?thesis
      using inv' stored(3) m(5) rec by (auto simp: recorded_key_def)
  next
    case already
    then show ?thesis using assms(5) db by simp
  qed (use oi(1) in simp_all)
qed

section \<open>Recording\<close>

definition stored_alert :: "(string \<Rightarrow> alert option) \<Rightarrow> stream_db \<Rightarrow> string \<Rightarrow> alert stored_message option" where
  "stored_alert decode db k = Option.bind (get_head db k) (stored_as decode)"

lemma classified_status:
  assumes "classify_alert found head repeat clock = Inr published"
    and "\<forall>a. found = Some a \<longrightarrow> al_status a = status_active"
  shows "(case published of
      None \<Rightarrow> active_head head \<longleftrightarrow> found \<noteq> None
    | Some a \<Rightarrow> (al_status a = status_active \<longleftrightarrow> found \<noteq> None)
        \<and> (status_changed a head \<longleftrightarrow> active_head head \<noteq> (found \<noteq> None)))"
  using assms
  by (auto simp: classify_alert_def active_head_def status_changed_def new_alert_def status_active_def
      status_resolved_def split: option.splits if_splits)

lemma alert_key_not_empty: "alert_message_key name ow \<noteq> ''''"
  by (simp add: alert_message_key_def)

lemma conclusive_finding:
  assumes "validate_evaluation r = None" "ae_state r \<noteq> state_pending" "ae_state r \<noteq> state_insufficient"
  shows "(ae_state r = state_active \<longleftrightarrow> ae_finding r \<noteq> None) \<and> (\<forall>a. ae_finding r = Some a \<longrightarrow> al_status a = status_active)"
  using assms by (auto simp: validate_evaluation_def states_def split: if_splits option.splits)

lemma stored_alert_winner:
  assumes "produce_inv psize s" "head_winner (ps_db s) k = Some w" "get_head_message (ps_db s) (fst w) = Some row"
  shows "stored_alert decode (ps_db s) k = stored_as decode row"
  using assms(2,3) by (simp add: stored_alert_def get_head_winner [OF assms(1)])

lemma recorded_body:
  assumes "calm script" "keeps_invariant script (ac_partition_size c)" "produce_inv (ac_partition_size c) s"
    and "recorded_key (ps_db s) k" "fresh \<notin> claimed_keys s"
    and "\<forall>a enc. encode a = Some enc \<longrightarrow> decode enc = Some a"
    and "\<forall>a. found = Some a \<longrightarrow> al_status a = status_active"
    and "record_body decode encode script heals opts c k found fresh clock t s = (Inr (head, published), s')"
  shows "produce_inv (ac_partition_size c) s' \<and> recorded_key (ps_db s') k
    \<and> head = stored_alert decode (ps_db s) k
    \<and> (active_head (stored_alert decode (ps_db s') k) \<longleftrightarrow> found \<noteq> None)
    \<and> (case published of
        None \<Rightarrow> active_head head \<longleftrightarrow> found \<noteq> None
      | Some a \<Rightarrow> (al_status a = status_active \<longleftrightarrow> found \<noteq> None) \<and> (status_changed a head \<longleftrightarrow> active_head head \<noteq> (found \<noteq> None)))"
proof -
  let ?psize = "ac_partition_size c"
  let ?db = "snd (lock_head (ps_db s) k (tn_now t))"
  let ?row = "fst (lock_head (ps_db s) k (tn_now t))"
  let ?s1 = "s\<lparr>ps_db := ?db\<rparr>"
  have lock: "lock_head_checked (ps_db s) (ac_stream c) k (tn_now t) = (Inr ?row, ?db)"
    using assms(8) by (auto simp: record_body_def lock_head_checked_def split: if_splits sum.splits prod.splits)
  obtain h where h: "decode_head decode ?row = Some h" "head = h"
    and cls: "classify_alert found h (ac_repeat c) clock = Inr published"
    using assms(8) by (auto simp: record_body_def lock Let_def split: option.splits sum.splits prod.splits)
  have inv1: "produce_inv ?psize ?s1" by (rule locked_inv [OF assms(3)])
  have db: "?db = snd (ensure_and_lock_head (ps_db s) k (tn_now t))"
    by (simp add: lock_head_def split: prod.splits option.splits)
  have rec1: "recorded_key (ps_db ?s1) k"
    using assms(4) by (simp add: recorded_key_def db versions_log [OF ensured_head(3)])
  have "get_head (ps_db s) k = ?row" by (simp add: get_head_winner [OF assms(3)] locked_row)
  then have head: "stored_alert decode (ps_db s) k = h"
    using h(1) by (auto simp: stored_alert_def decode_head_def split: option.splits)
  have "get_head ?db k = ?row"
    using get_head_winner [OF inv1, of k] by (simp add: db ensured_head locked_row get_head_message_def)
  then have head1: "stored_alert decode ?db k = h"
    using h(1) by (auto simp: stored_alert_def decode_head_def split: option.splits)
  have status: "case published of
        None \<Rightarrow> active_head h \<longleftrightarrow> found \<noteq> None
      | Some a \<Rightarrow> (al_status a = status_active \<longleftrightarrow> found \<noteq> None) \<and> (status_changed a h \<longleftrightarrow> active_head h \<noteq> (found \<noteq> None))"
    by (rule classified_status [OF cls assms(7)])
  show ?thesis
  proof (cases published)
    case None
    then have "s' = ?s1" using assms(8) h cls by (simp add: record_body_def lock Let_def)
    then show ?thesis using None status inv1 rec1 head head1 h(2) by simp
  next
    case (Some a)
    then obtain routing ap where r: "alert_routing_key a = Some routing"
      "append_in_tx_checked script (?row \<noteq> None) heals (ac_stream c) ?psize fresh
         (\<lambda>_. Inr \<lparr>pm_encoded = encode a, pm_version = 1\<rparr>) (alert_options_of opts routing k) ?s1 = (Inr ap, s')"
      using assms(8) h cls by (auto simp: record_body_def lock Let_def split: option.splits sum.splits prod.splits)
    let ?a = "to_append fresh None (alert_options_of opts routing k)"
    have app: "append_message_in_tx script (?row \<noteq> None) heals ?psize (\<lambda>_. Inr \<lparr>pm_encoded = encode a, pm_version = 1\<rparr>) ?a ?s1
        = (Inr ap, s')"
      using r(2) by (auto simp: append_in_tx_checked_def split: if_splits option.splits sum.splits prod.splits)
    have opts: "ap_compacted ?a" "ap_rank ?a = 0" "ap_message_key ?a = k" "ap_key ?a = fresh"
      by (simp_all add: to_append_def alert_options_of_def compaction_enabled_def)
    have free: "ap_key ?a \<notin> claimed_keys ?s1" using assms(5) opts(4) by (simp add: db ensured_head)
    obtain i row where new: "produce_inv ?psize s'" "recorded_key (ps_db s') k" "encode a = Some (sr_payload row)"
      "head_winner (ps_db s') k = Some (i, 1, 0)" "get_head_message (ps_db s') i = Some row"
      using appended_alert_is_head [OF assms(1,2) inv1 rec1 free opts(1-3) _ app] by auto
    have "stored_alert decode (ps_db s') k = stored_as decode row"
      using stored_alert_winner [OF new(1,4)] new(5) by simp
    also have "\<dots> = Some \<lparr>sm_id = sr_id row, sm_created = sr_created_at row, sm_message = a\<rparr>"
      using assms(6) new(3) by (simp add: stored_as_def)
    finally show ?thesis using Some status new(1,2) head h(2) by (simp add: active_head_def)
  qed
qed

text \<open>C21: A recorded conclusive result is the head of its alert's key: afterwards the head is active exactly
when the result is, whatever it was before; a change is logged exactly when this differs from the head it
found, and what the check found is published as the outcome says.\<close>

theorem recorded_head_mirrors_the_result:
  assumes "calm script" "keeps_invariant script (ac_partition_size c)" "produce_inv (ac_partition_size c) s"
    and "recorded_key (ps_db s) (alert_message_key name ow)" "fresh \<notin> claimed_keys s"
    and "\<forall>a enc. encode a = Some enc \<longrightarrow> decode enc = Some a"
    and "ae_state result = state_active \<or> ae_state result = state_healthy"
    and "record_alert decode encode script heals opts c fresh clock name ow result s = (Inr (outcome, changed), s')"
  shows "(active_head (stored_alert decode (ps_db s') (alert_message_key name ow)) \<longleftrightarrow> ae_state result = state_active)
    \<and> (changed \<longleftrightarrow> outcome \<noteq> Outcome_Nothing
          \<and> active_head (stored_alert decode (ps_db s) (alert_message_key name ow)) \<noteq> (ae_state result = state_active))
    \<and> (outcome = Outcome_Resolved \<longrightarrow> ae_state result = state_healthy)
    \<and> (outcome = Outcome_Active \<longrightarrow> ae_state result = state_active)
    \<and> produce_inv (ac_partition_size c) s' \<and> recorded_key (ps_db s') (alert_message_key name ow)"
proof -
  let ?k = "alert_message_key name ow"
  have valid: "validate_evaluation result = None"
    using assms(8) by (auto simp: record_alert_def split: option.splits)
  have distinct: "ae_state result \<noteq> state_pending" "ae_state result \<noteq> state_insufficient"
    using assms(7) by (auto simp: states_def)
  note found = conclusive_finding [OF valid distinct]
  obtain head published where tx: "in_transaction script
      (record_body decode encode script heals opts c ?k (ae_finding result) fresh clock) None s = (Inr (head, published), s')"
    and out: "(outcome, changed) = (case published of
        None \<Rightarrow> (Outcome_Nothing, False)
      | Some a \<Rightarrow> (if al_status a = status_resolved then Outcome_Resolved else Outcome_Active, status_changed a head))"
    using assms(8) valid distinct
    by (auto simp: record_alert_def split: sum.splits prod.splits option.splits)
  from transaction_success [OF tx] obtain t s0 where
    t: "next_turn script s = (t, s0)"
      "record_body decode encode script heals opts c ?k (ae_finding result) fresh clock t s0 = (Inr (head, published), s')" .
  have s0: "produce_inv (ac_partition_size c) s0"
    by (rule inv.next_turn_kept [OF _ assms(3) t(1)]) (use assms(2) in \<open>simp add: keeps_invariant_def\<close>)
  have db: "ps_db s0 = ps_db s" using t(1) assms(1) by (auto simp: next_turn_def Let_def calm_def)
  have r: "recorded_key (ps_db s0) ?k" "fresh \<notin> claimed_keys s0" using assms(4,5) db by simp_all
  note body = recorded_body [OF assms(1,2) s0 r assms(6) _ t(2)]
  have status: "al_status a = status_active \<or> al_status a = status_resolved" if "published = Some a" for a
    using t(2) that found
    by (auto simp: record_body_def classify_alert_def new_alert_def Let_def
        split: sum.splits prod.splits option.splits if_splits)
  have neq: "status_active \<noteq> status_resolved" by (simp add: status_active_def status_resolved_def)
  show ?thesis
    using body found out assms(7) db status neq
    by (cases published) (auto simp: states_def)
qed

definition demo_encode :: "alert \<Rightarrow> string option" where
  "demo_encode a = (if a = demo_finding then Some ''x'' else None)"

definition demo_decode :: "string \<Rightarrow> alert option" where
  "demo_decode e = (if e = ''x'' then Some demo_finding else None)"

definition demo_controller :: alert_controller where
  "demo_controller = \<lparr>ac_stream = 3, ac_partition_size = 10, ac_repeat = 5\<rparr>"

theorem recorded_head_mirrors_the_result_witness:
  "active_head (stored_alert demo_decode (ps_db (snd (record_alert demo_decode demo_encode (\<lambda>_. quiet_turn Commit_Ok) demo_retry None
     demo_controller 7 6 ''partition_count'' demo_orders (sm_message (demo_sample 1 6 True)) demo_produce)))
     (alert_message_key ''partition_count'' demo_orders))"
proof -
  let ?run = "record_alert demo_decode demo_encode (\<lambda>_. quiet_turn Commit_Ok) demo_retry None
     demo_controller 7 6 ''partition_count'' demo_orders (sm_message (demo_sample 1 6 True)) demo_produce"
  have e: "fst ?run = Inr (Outcome_Active, True)" by code_simp
  then have run: "?run = (Inr (Outcome_Active, True), snd ?run)" by (metis prod.collapse)
  have c: "calm (\<lambda>_. quiet_turn Commit_Ok)" "keeps_invariant (\<lambda>_. quiet_turn Commit_Ok) 10"
    by (simp_all add: calm_def keeps_invariant_def quiet_turn_def)
  have s: "produce_inv (ac_partition_size demo_controller) demo_produce"
    "recorded_key (ps_db demo_produce) k" "(7 :: uuid) \<notin> claimed_keys demo_produce" for k
    using demo_produce_inv by (simp_all add: demo_controller_def recorded_key_def versions_def demo_produce_def empty_db_def)
  have i: "\<forall>a enc. demo_encode a = Some enc \<longrightarrow> demo_decode enc = Some a"
    by (simp add: demo_encode_def demo_decode_def)
  have st: "ae_state (sm_message (demo_sample 1 6 True)) = state_active" by (simp add: demo_sample_def)
  have "active_head (stored_alert demo_decode (ps_db (snd ?run)) (alert_message_key ''partition_count'' demo_orders))
      \<longleftrightarrow> ae_state (sm_message (demo_sample 1 6 True)) = state_active"
    using recorded_head_mirrors_the_result [OF c(1) _ s(1,2,3) i disjI1 [OF st] run] c(2)
    by (simp add: demo_controller_def)
  then show ?thesis using st by simp
qed

end
