(* ===== verification/Session_Metrics.thy ===== *)
theory Session_Metrics
  imports Metric_Snapshots
begin

text \<open>
  The metrics side channel of a consumer instance: \<open>pkg/metric/producer\<close>. Message goroutines count and
  queue events while the flush loop drains them, so the operations are steps of a relation: the flush
  takes the queue, swaps the drop counter, produces the batch and reports in four steps, and others run
  between them. A produced batch can land without its answer arriving.
\<close>

section \<open>Counters\<close>

datatype session_counter =
    Count_Claimed | Count_Success | Count_Superseded | Count_Ready | Count_Deferred | Count_Dead
  | Count_Reclaimed | Count_Quarantined | Count_Abandoned | Count_Lease_Lost

type_synonym session_counters = "session_counter \<Rightarrow> int"

definition no_session_counts :: session_counters where "no_session_counts = (\<lambda>c. 0)"

fun counter_metric :: "session_counter \<Rightarrow> diagnostic_metric" where
  "counter_metric Count_Claimed = metric_session_claimed"
| "counter_metric Count_Success = metric_session_success"
| "counter_metric Count_Superseded = metric_session_superseded"
| "counter_metric Count_Ready = metric_session_ready"
| "counter_metric Count_Deferred = metric_session_deferred"
| "counter_metric Count_Dead = metric_session_dead"
| "counter_metric Count_Reclaimed = metric_session_reclaimed"
| "counter_metric Count_Quarantined = metric_session_quarantined"
| "counter_metric Count_Abandoned = metric_session_abandoned"
| "counter_metric Count_Lease_Lost = metric_session_lease_lost"

definition counter_order :: "session_counter list" where
  "counter_order = [Count_Claimed, Count_Success, Count_Superseded, Count_Ready, Count_Deferred, Count_Dead,
     Count_Reclaimed, Count_Quarantined, Count_Abandoned, Count_Lease_Lost]"

text \<open>\<open>version\<close> is the decimal text of the schema version.\<close>

definition session_attributes :: "string \<Rightarrow> string \<Rightarrow> int \<Rightarrow> string \<Rightarrow> attributes" where
  "session_attributes group' stream version session =
     [(''group'', group'), (''stream'', stream), (''version'', show_int version), (''session'', session)]"

fun counter_batch ::
  "session_counters \<Rightarrow> attributes \<Rightarrow> time \<Rightarrow> session_counter list \<Rightarrow> measurement_error + measurement list" where
  "counter_batch snap as t [] = Inr []"
| "counter_batch snap as t (c # cs) =
     (case new_built_in_measurement (counter_metric c) (float_of_int (snap c)) as t of
        Inl e \<Rightarrow> Inl e
      | Inr m \<Rightarrow> map_sum id ((#) m) (counter_batch snap as t cs))"

section \<open>The side channel\<close>

definition pending_limit :: nat where "pending_limit = 256"

datatype produce_fate = Produce_Ok | Produce_Failed | Produce_Unconfirmed

fun fate_lands :: "produce_fate \<Rightarrow> bool" where
  "fate_lands Produce_Ok = True"
| "fate_lands Produce_Failed = False"
| "fate_lands Produce_Unconfirmed = True"

text \<open>\<open>mp_flush\<close> is the flush under way: the events it took, then with the drops it swapped out, then
with the drops to report. The fields from \<open>mp_offered\<close> on are a record of the past that no step looks
at: what was offered, what landed, what was reported, what a shutdown left unreported.\<close>

datatype flush_state =
    Flush_Idle
  | Flush_Taken "go_routine_event list"
  | Flush_Swapped "go_routine_event list" int
  | Flush_Produced int

record metric_producer =
  mp_pending :: "go_routine_event list"
  mp_dropped :: int
  mp_counters :: session_counters
  mp_flushed :: session_counters
  mp_flush :: flush_state
  mp_offered :: "go_routine_event list"
  mp_landed :: "go_routine_event list"
  mp_reported :: int
  mp_silent :: int

definition enqueue_event :: "go_routine_event \<Rightarrow> metric_producer \<Rightarrow> metric_producer" where
  "enqueue_event e p =
     (if length (mp_pending p) = pending_limit
      then p\<lparr>mp_dropped := mp_dropped p + 1, mp_offered := mp_offered p @ [e]\<rparr>
      else p\<lparr>mp_pending := mp_pending p @ [e], mp_offered := mp_offered p @ [e]\<rparr>)"

definition count_session :: "session_counter \<Rightarrow> int \<Rightarrow> metric_producer \<Rightarrow> metric_producer" where
  "count_session c n p = p\<lparr>mp_counters := (mp_counters p)(c := mp_counters p c + n)\<rparr>"

definition record_abandoned :: "int \<Rightarrow> string \<Rightarrow> int \<Rightarrow> int \<Rightarrow> time \<Rightarrow> metric_producer \<Rightarrow> metric_producer" where
  "record_abandoned stream group' message attempt t p =
     enqueue_event \<lparr>ge_type = event_abandoned, ge_stream = stream, ge_group = group', ge_message = message,
         ge_attempt = attempt, ge_at = t\<rparr> (count_session Count_Abandoned 1 p)"

definition record_cleared :: "int \<Rightarrow> string \<Rightarrow> int \<Rightarrow> int \<Rightarrow> time \<Rightarrow> metric_producer \<Rightarrow> metric_producer" where
  "record_cleared stream group' message attempt t p =
     enqueue_event \<lparr>ge_type = event_cleared, ge_stream = stream, ge_group = group', ge_message = message,
         ge_attempt = attempt, ge_at = t\<rparr> p"

definition reset_counters :: "metric_producer \<Rightarrow> metric_producer" where
  "reset_counters p = p\<lparr>mp_counters := no_session_counts\<rparr>"

definition start_run :: "metric_producer \<Rightarrow> metric_producer" where
  "start_run p = p\<lparr>mp_flushed := no_session_counts\<rparr>"

definition flush_take :: "metric_producer \<Rightarrow> metric_producer" where
  "flush_take p = p\<lparr>mp_flush := Flush_Taken (mp_pending p), mp_pending := []\<rparr>"

definition flush_swap :: "go_routine_event list \<Rightarrow> metric_producer \<Rightarrow> metric_producer" where
  "flush_swap es p = p\<lparr>mp_flush := Flush_Swapped es (mp_dropped p), mp_dropped := 0\<rparr>"

text \<open>An empty queue produces nothing; a batch whose produce returned an error counts as dropped.\<close>

definition flush_produce :: "produce_fate \<Rightarrow> go_routine_event list \<Rightarrow> int \<Rightarrow> metric_producer \<Rightarrow> metric_producer" where
  "flush_produce fate es dropped p =
     (if es = [] then p\<lparr>mp_flush := Flush_Produced dropped\<rparr>
      else p\<lparr>mp_flush := Flush_Produced (if fate = Produce_Ok then dropped else dropped + int (length es)),
             mp_landed := mp_landed p @ (if fate_lands fate then es else [])\<rparr>)"

definition flush_report :: "bool \<Rightarrow> int \<Rightarrow> metric_producer \<Rightarrow> metric_producer" where
  "flush_report cancelled dropped p =
     (if cancelled then p\<lparr>mp_flush := Flush_Idle, mp_silent := mp_silent p + dropped\<rparr>
      else p\<lparr>mp_flush := Flush_Idle, mp_reported := mp_reported p + dropped\<rparr>)"

text \<open>The counters are loaded one by one, so the snapshot is not one cut; \<open>snap\<close> is what was read. An
unchanged snapshot is not produced. The batch is empty when nothing is written.\<close>

definition flush_counters ::
  "session_counters \<Rightarrow> attributes \<Rightarrow> time \<Rightarrow> produce_fate \<Rightarrow> metric_producer \<Rightarrow> measurement list \<times> metric_producer" where
  "flush_counters snap as t fate p =
     (if list_all (\<lambda>c. snap c = mp_flushed p c) counter_order then ([], p)
      else (case counter_batch snap as t counter_order of
          Inl e \<Rightarrow> ([], p)
        | Inr ms \<Rightarrow> (if fate_lands fate then ms else [],
                     if fate = Produce_Ok then p\<lparr>mp_flushed := snap\<rparr> else p)))"

inductive producer_step :: "metric_producer \<Rightarrow> metric_producer \<Rightarrow> bool" where
  Count: "0 \<le> n \<Longrightarrow> producer_step p (count_session c n p)"
| Abandoned: "producer_step p (record_abandoned stream group' message attempt t p)"
| Cleared: "producer_step p (record_cleared stream group' message attempt t p)"
| Reset: "producer_step p (reset_counters p)"
| Run: "mp_flush p = Flush_Idle \<Longrightarrow> producer_step p (start_run p)"
| Take: "mp_flush p = Flush_Idle \<Longrightarrow> producer_step p (flush_take p)"
| Swap: "mp_flush p = Flush_Taken es \<Longrightarrow> producer_step p (flush_swap es p)"
| Produce: "mp_flush p = Flush_Swapped es d \<Longrightarrow> producer_step p (flush_produce fate es d p)"
| Report: "mp_flush p = Flush_Produced d \<Longrightarrow> producer_step p (flush_report cancelled d p)"
| Counters: "mp_flush p = Flush_Idle \<Longrightarrow> producer_step p (snd (flush_counters snap as t fate p))"

definition new_metric_producer :: metric_producer where
  "new_metric_producer = \<lparr>mp_pending = [], mp_dropped = 0, mp_counters = no_session_counts, mp_flushed = no_session_counts,
     mp_flush = Flush_Idle, mp_offered = [], mp_landed = [], mp_reported = 0, mp_silent = 0\<rparr>"

definition producer_config_default :: "duration \<Rightarrow> duration" where
  "producer_config_default rate = (if rate = 0 then 30 * second else rate)"

end
