(* ===== verification/Metric_Properties.thy ===== *)
theory Metric_Properties
  imports Liveness_Properties Session_Metrics "HOL-Library.Multiset" "HOL-Library.Sublist"
begin

text \<open>
  What the metrics promise: a completion timestamp vouches for every batch of its pass, and the side
  channel of a consumer accounts for every event.
\<close>

section \<open>What a pass writes\<close>

text \<open>The metrics stream as the list of the batches produced to it; \<open>answer\<close> says how each was answered.\<close>

definition recording ::
  "(measurement list \<Rightarrow> measurement list list \<Rightarrow> string + unit) \<Rightarrow> measurement list \<Rightarrow> measurement list list
   \<Rightarrow> (string + unit) \<times> measurement list list" where
  "recording answer b s = (answer b s, s @ [b])"

fun all_answered ::
  "(measurement list \<Rightarrow> measurement list list \<Rightarrow> string + unit) \<Rightarrow> measurement list list \<Rightarrow> measurement list list \<Rightarrow> bool" where
  "all_answered answer s [] \<longleftrightarrow> True"
| "all_answered answer s (b # bs) \<longleftrightarrow> answer b s = Inr () \<and> all_answered answer (s @ [b]) bs"

lemma all_answered_append:
  "all_answered answer s (xs @ ys) \<longleftrightarrow> all_answered answer s xs \<and> all_answered answer (s @ xs) ys"
  by (induction xs arbitrary: s) auto

lemma write_steps_recording [simp]:
  "write_steps (recording answer) (Inr b # sts) s =
     (case answer b s of Inl e \<Rightarrow> (Some (Metric_Write e), s @ [b]) | Inr _ \<Rightarrow> write_steps (recording answer) sts (s @ [b]))"
  by (simp add: write_steps.simps(2) recording_def split: sum.splits)

lemma write_steps_failed [simp]: "write_steps write (Inl e # sts) s = (Some e, s)"
  by simp

declare write_steps.simps(2) [simp del]

lemma write_steps_effect:
  assumes "write_steps (recording answer) sts s = (e, s')"
  shows "\<exists>pre. s' = s @ pre \<and> Inr ` set pre \<subseteq> set sts \<and> (e = None \<longrightarrow> map Inr pre = sts \<and> all_answered answer s pre)"
  using assms
proof (induction sts arbitrary: s)
  case (Cons st sts)
  show ?case
  proof (cases st)
    case (Inl x)
    then show ?thesis using Cons.prems by auto
  next
    case (Inr b)
    show ?thesis
    proof (cases "answer b s")
      case (Inl x)
      then show ?thesis using Cons.prems Inr by (auto intro!: exI [of _ "[b]"])
    next
      case ok: (Inr u)
      then have "write_steps (recording answer) sts (s @ [b]) = (e, s')" using Cons.prems Inr by simp
      from Cons.IH [OF this] obtain pre where "s' = (s @ [b]) @ pre" "Inr ` set pre \<subseteq> set sts"
        "e = None \<longrightarrow> map Inr pre = sts \<and> all_answered answer (s @ [b]) pre" by blast
      then show ?thesis using Inr ok by (intro exI [of _ "b # pre"]) auto
    qed
  qed
qed simp

lemma refill_kept:
  "refill limit running queue = (r, q) \<Longrightarrow>
   mset (concat r) + mset (concat q) = mset (concat running) + mset (concat queue)"
proof -
  assume r: "refill limit running queue = (r, q)"
  have "concat (filter (\<lambda>j. j \<noteq> []) running) = concat running" by (induction running) auto
  moreover have "concat (take n queue) @ concat (drop n queue) = concat queue" for n
    by (metis append_take_drop_id concat_append)
  then have "mset (concat (take n queue)) + mset (concat (drop n queue)) = mset (concat queue)" for n
    by (metis mset_append)
  ultimately show ?thesis using r by (auto simp: refill_def Let_def)
qed

lemma step_taken:
  assumes "i < length running" "running ! i = st # sts"
  shows "mset (concat running) = add_mset st (mset (concat (running[i := sts])))"
    "mset (concat (running[i := []])) \<subseteq># mset (concat running)"
proof -
  obtain xs ys where "running = xs @ (st # sts) # ys" "i = length xs"
    using id_take_nth_drop [OF assms(1)] assms by (metis length_take less_imp_le_nat min_absorb2)
  then show "mset (concat running) = add_mset st (mset (concat (running[i := sts])))"
    "mset (concat (running[i := []])) \<subseteq># mset (concat running)" by simp_all
qed

lemma run_group_effect:
  assumes "run_group (recording answer) limit picks (running, queue) err s = Some (err', s')"
  shows "\<exists>pre. s' = s @ pre \<and> Inr ` set pre \<subseteq> set (concat running) \<union> set (concat queue)
    \<and> (err' = None \<longrightarrow> err = None \<and> mset (map Inr pre) = mset (concat running) + mset (concat queue)
        \<and> all_answered answer s pre)"
  using assms
proof (induction picks arbitrary: running queue err s)
  case Nil
  then have "concat running = []" "queue = []" "err' = err" "s' = s" by (auto simp: list_all_iff split: if_splits)
  then show ?case by auto
next
  case (Cons i picks)
  show ?case
  proof (cases "i < length running")
    case i: True
    show ?thesis
    proof (cases "running ! i")
      case Nil
      obtain r q where r: "refill limit running queue = (r, q)" by fastforce
      then show ?thesis using Cons.IH [of r q err s] Cons.prems i Nil refill_kept [OF r]
        by (auto simp flip: set_mset_mset set_mset_union)
    next
      case st: (Cons st sts)
      show ?thesis
      proof (cases "write_steps (recording answer) [st] s")
        case (Pair e s1)
        obtain b1 where b1: "s1 = s @ b1" "Inr ` set b1 \<subseteq> {st}" "e = None \<longrightarrow> map Inr b1 = [st] \<and> all_answered answer s b1"
          using write_steps_effect [OF Pair] by auto
        let ?next = "running[i := (if e = None then sts else [])]"
        obtain r q where r: "refill limit ?next queue = (r, q)" by fastforce
        let ?err = "if e = None \<or> err \<noteq> None then err else e"
        have run: "run_group (recording answer) limit picks (r, q) ?err s1 = Some (err', s')"
          using Cons.prems i st Pair r by (cases e) (auto split: if_splits)
        obtain pre where pre: "s' = s1 @ pre" "Inr ` set pre \<subseteq> set (concat r) \<union> set (concat q)"
          "err' = None \<longrightarrow> ?err = None \<and> mset (map Inr pre) = mset (concat r) + mset (concat q) \<and> all_answered answer s1 pre"
          using Cons.IH [OF run] by blast
        note kept = refill_kept [OF r] and taken = step_taken [OF i st]
        have "set (concat r) \<union> set (concat q) = set (concat ?next) \<union> set (concat queue)"
          using kept by (metis set_mset_mset set_mset_union)
        moreover have "set (concat ?next) \<subseteq> set (concat running)"
          using taken by (cases e) (auto dest: mset_subset_eqD simp flip: set_mset_mset)
        moreover have "st \<in> set (concat running)" using taken(1) by (metis set_mset_mset union_single_eq_member)
        ultimately have sub: "Inr ` set (b1 @ pre) \<subseteq> set (concat running) \<union> set (concat queue)"
          using b1(2) pre(2) unfolding set_append image_Un by blast
        have "err = None \<and> mset (map Inr (b1 @ pre)) = mset (concat running) + mset (concat queue)
            \<and> all_answered answer s (b1 @ pre)" if "err' = None"
        proof -
          have e: "e = None" "err = None" using pre(3) that by (auto split: if_splits)
          then show ?thesis using pre(3) that b1(1,3) kept taken(1) by (simp add: all_answered_append)
        qed
        then show ?thesis using b1(1) pre(1) sub by (intro exI [of _ "b1 @ pre"]) simp
      qed
    qed
  qed (use Cons in simp)
qed

definition completes :: "measurement list \<Rightarrow> bool" where
  "completes b \<longleftrightarrow> (\<exists>m \<in> set b. me_name m = dm_name metric_collector_completed_timestamp)"

definition plain_step :: "write_step \<Rightarrow> bool" where
  "plain_step st \<longleftrightarrow> (\<forall>b. st = Inr b \<longrightarrow> \<not> completes b)"

lemma built_name: "new_built_in_measurement d v as t = Inr m \<Longrightarrow> me_name m = dm_name d"
  by (auto simp: new_built_in_measurement_def new_measurement_def split: if_splits option.splits)

lemma built_step_plain: "dm_name d \<noteq> dm_name metric_collector_completed_timestamp \<Longrightarrow> plain_step (built_step d v as t doc)"
  by (auto simp: plain_step_def completes_def built_step_def dest: built_name split: sum.splits)

lemma built_batch_plain:
  "(\<forall>(d, v) \<in> set ps. dm_name d \<noteq> dm_name metric_collector_completed_timestamp) \<Longrightarrow> plain_step (built_batch ps as t)"
proof (induction ps)
  case (Cons p ps)
  then show ?case
    by (cases p; cases "built_batch ps as t") (auto simp: plain_step_def completes_def dest: built_name split: sum.splits)
qed (simp add: plain_step_def completes_def)

lemma pass_names:
  "list_all (\<lambda>d. dm_name d ! 11 \<noteq> CHR ''m'') [metric_unclaimed_workers, metric_oldest_unclaimed_age, metric_failing_workers, metric_overdue_schedules,
     metric_oldest_due_age, metric_suspended_schedules, metric_active_alerts, metric_resolved_alerts,
     metric_stream_unclaimed_workers, metric_stream_partitions, metric_stream_compacted, metric_cursor_head,
     metric_cursor_claimed, metric_cursor_committed, metric_cursor_backlog, metric_cursor_inflight,
     metric_ready_exceptions, metric_inflight_exceptions, metric_deferred_exceptions, metric_dead_exceptions,
     metric_oldest_unresolved_age, metric_open_leases, metric_abandoned_outstanding, metric_abandoned_total,
     metric_abandoned_self_clear_latency_avg]"
  by code_simp

lemma completed_initial: "dm_name d ! 11 \<noteq> CHR ''m'' \<Longrightarrow> dm_name d \<noteq> dm_name metric_collector_completed_timestamp"
  by (auto simp: metric_collector_completed_timestamp_def)

lemmas pass_name = pass_names [simplified] completed_initial

lemma liveness_step_plain: "plain_step (liveness_step name ws t)"
  by (cases "all_unclaimed ws") (simp_all add: liveness_step_def built_step_plain pass_name, simp add: plain_step_def)

lemma collected_plain:
  "st \<in> set (collect_workers ws t) \<Longrightarrow> plain_step st"
  "st \<in> set (collect_schedules ss t) \<Longrightarrow> plain_step st"
  "st \<in> set (collect_alerts hs t) \<Longrightarrow> plain_step st"
  "st \<in> set (collect_stream r read ws t) \<Longrightarrow> plain_step st"
proof -
  show "st \<in> set (collect_workers ws t) \<Longrightarrow> plain_step st" "st \<in> set (collect_schedules ss t) \<Longrightarrow> plain_step st"
    "st \<in> set (collect_alerts hs t) \<Longrightarrow> plain_step st"
    by (auto simp: collect_workers_def collect_schedules_def collect_alerts_def built_step_plain pass_name)
  have group: "plain_step (collect_group name t g)" for name g
    unfolding collect_group_def by (rule built_batch_plain) (simp add: group_points_def pass_name)
  have error: "plain_step (Inl e)" for e by (simp add: plain_step_def)
  assume "st \<in> set (collect_stream r read ws t)"
  then show "plain_step st"
    by (cases read) (auto simp: collect_stream_def partitions_step_def built_step_plain pass_name liveness_step_plain group error
        split: if_splits)
qed

lemma plain_writes: "Inr ` set pre \<subseteq> sts \<Longrightarrow> (\<And>st. st \<in> sts \<Longrightarrow> plain_step st) \<Longrightarrow> \<forall>b \<in> set pre. \<not> completes b"
  by (fastforce simp: plain_step_def)

lemma all_built: "map Inr pre = sts \<Longrightarrow> mset (map Inr pre) = mset sts" by simp

text \<open>C25: A completion timestamp vouches for its pass: if one was written, the reads of the pass all
succeeded, every batch of the workers, the schedules, the alerts and each stream was written before it
and confirmed, each exactly once, and nothing was written after it.\<close>

theorem completion_vouches_for_the_pass:
  assumes "collect collate event_of decode (recording answer) limit picks reads clock [] = Some (err, written)"
    and "\<exists>b \<in> set written. completes b"
  shows "\<exists>ws ss hs rs pre b. worker_snapshots collate (cr_workers reads) = Inr ws
    \<and> schedule_snapshots collate (cr_schedules reads) = Inr ss
    \<and> alert_heads collate decode (cr_alert_stream reads) (cr_alert_heads reads) = Inr hs
    \<and> listed_streams collate (cr_streams reads) = Inr rs
    \<and> written = pre @ [b] \<and> completion_step (ct_completed clock) = Inr b
    \<and> mset (map Inr pre) = mset (collect_workers ws (ct_workers clock) @ collect_schedules ss (ct_schedules clock)
        @ collect_alerts hs (ct_alerts clock) @ concat (stream_jobs collate event_of reads clock ws rs))
    \<and> all_answered answer [] pre"
proof -
  obtain ws where ws: "worker_snapshots collate (cr_workers reads) = Inr ws"
    using assms by (auto simp: collect_def split: sum.splits)
  obtain e1 w1 where s1: "write_steps (recording answer) (collect_workers ws (ct_workers clock)) [] = (e1, w1)" by fastforce
  obtain p1 where p1: "w1 = p1" "Inr ` set p1 \<subseteq> set (collect_workers ws (ct_workers clock))"
    "e1 = None \<longrightarrow> map Inr p1 = collect_workers ws (ct_workers clock) \<and> all_answered answer [] p1"
    using write_steps_effect [OF s1] by auto
  have plain1: "\<forall>b \<in> set p1. \<not> completes b" by (rule plain_writes [OF p1(2) collected_plain(1)])
  have e1: "e1 = None" using assms ws s1 p1(1) plain1 by (cases e1) (auto simp: collect_def)
  obtain ss where ss: "schedule_snapshots collate (cr_schedules reads) = Inr ss"
    using assms ws s1 e1 p1(1) plain1 by (auto simp: collect_def split: sum.splits)
  obtain e2 w2 where s2: "write_steps (recording answer) (collect_schedules ss (ct_schedules clock)) w1 = (e2, w2)" by fastforce
  obtain p2 where p2: "w2 = w1 @ p2" "Inr ` set p2 \<subseteq> set (collect_schedules ss (ct_schedules clock))"
    "e2 = None \<longrightarrow> map Inr p2 = collect_schedules ss (ct_schedules clock) \<and> all_answered answer w1 p2"
    using write_steps_effect [OF s2] by auto
  have plain2: "\<forall>b \<in> set w2. \<not> completes b" using plain_writes [OF p2(2) collected_plain(2)] plain1 p1(1) p2(1) by auto
  have e2: "e2 = None" using assms ws s1 e1 ss s2 plain2 by (cases e2) (auto simp: collect_def)
  obtain hs where hs: "alert_heads collate decode (cr_alert_stream reads) (cr_alert_heads reads) = Inr hs"
    using assms ws s1 e1 ss s2 e2 plain2 by (auto simp: collect_def split: sum.splits)
  obtain e3 w3 where s3: "write_steps (recording answer) (collect_alerts hs (ct_alerts clock)) w2 = (e3, w3)" by fastforce
  obtain p3 where p3: "w3 = w2 @ p3" "Inr ` set p3 \<subseteq> set (collect_alerts hs (ct_alerts clock))"
    "e3 = None \<longrightarrow> map Inr p3 = collect_alerts hs (ct_alerts clock) \<and> all_answered answer w2 p3"
    using write_steps_effect [OF s3] by auto
  have plain3: "\<forall>b \<in> set w3. \<not> completes b" using plain_writes [OF p3(2) collected_plain(3)] plain2 p3(1) by auto
  have e3: "e3 = None" using assms ws s1 e1 ss s2 e2 hs s3 plain3 by (cases e3) (auto simp: collect_def)
  obtain rs where rs: "listed_streams collate (cr_streams reads) = Inr rs"
    using assms ws s1 e1 ss s2 e2 hs s3 e3 plain3 by (auto simp: collect_def split: sum.splits)
  let ?jobs = "stream_jobs collate event_of reads clock ws rs"
  obtain e4 w4 where s4: "collect_streams (recording answer) limit picks ?jobs w3 = Some (e4, w4)"
    using assms(1) ws s1 e1 ss s2 e2 hs s3 e3 rs by (auto simp: collect_def split: option.splits)
  obtain r q where rq: "refill limit [] ?jobs = (r, q)" by fastforce
  have jobs: "mset (concat r) + mset (concat q) = mset (concat ?jobs)" using refill_kept [OF rq] by simp
  then have all: "set (concat r) \<union> set (concat q) = set (concat ?jobs)" by (metis set_mset_mset set_mset_union)
  obtain p4 where p4: "w4 = w3 @ p4" "Inr ` set p4 \<subseteq> set (concat ?jobs)"
    "e4 = None \<longrightarrow> mset (map Inr p4) = mset (concat ?jobs) \<and> all_answered answer w3 p4"
    using run_group_effect [OF s4 [unfolded collect_streams_def rq]] jobs all by auto
  have "plain_step st" if "st \<in> set (concat ?jobs)" for st
    using that collected_plain(4) by (auto simp: stream_jobs_def)
  then have plain4: "\<forall>b \<in> set w4. \<not> completes b" using plain_writes [OF p4(2)] plain3 p4(1) by auto
  have e4: "e4 = None" using assms ws s1 e1 ss s2 e2 hs s3 e3 rs s4 plain4 by (cases e4) (auto simp: collect_def)
  have fin: "write_steps (recording answer) [completion_step (ct_completed clock)] w4 = (err, written)"
    using assms(1) ws s1 e1 ss s2 e2 hs s3 e3 rs s4 e4 by (simp add: collect_def)
  obtain p5 where p5: "written = w4 @ p5" "Inr ` set p5 \<subseteq> {completion_step (ct_completed clock)}"
    using write_steps_effect [OF fin] by auto
  obtain b where b: "completion_step (ct_completed clock) = Inr b" "written = w4 @ [b]"
    using fin assms(2) plain4 by (cases "completion_step (ct_completed clock)") (auto split: sum.splits)
  show ?thesis
    using ws ss hs rs b p1 p2 p3 p4 e1 e2 e3 e4
    by (intro exI [of _ ws] exI [of _ ss] exI [of _ hs] exI [of _ rs] exI [of _ w4] exI [of _ b])
      (simp add: all_answered_append)
qed

text \<open>An installation with nothing but the alerts stream; the streams are listed after it is gone.\<close>

definition demo_installed :: "stream_config_row list \<Rightarrow> unit control_plane" where
  "demo_installed rs = \<lparr>cp_registry = \<lparr>stream_configs = rs, stream_config_log = [], stream_migrations = [],
       stream_tables_of = (\<lambda>_. Some \<lparr>tb_rows = empty_db, tb_size = 10, tb_parts = [0]\<rparr>), next_stream = 5\<rparr>,
     cp_groups = [], cp_workers = \<lparr>worker_configs = [], worker_config_logs = [], worker_instances = [],
       worker_instance_logs = [], next_worker = 7, next_instance = 1, next_instance_log = 1, wd_streams = [], wd_groups = []\<rparr>,
     cp_schedules = \<lparr>schedule_configs = [], schedule_cursors = [], next_schedule = 1\<rparr>\<rparr>"

definition demo_alert_row :: stream_config_row where
  "demo_alert_row = \<lparr>st_id = 4, st_system = 1, st_name = alert_stream_name, st_settings = \<lparr>ss_partition_size = 10,
     ss_retention = 0, ss_allow_drop = False, ss_key_ttl = 1, ss_head_ttl = 1, ss_log_mode = ''failures''\<rparr>,
     st_created = 1, st_updated = 1\<rparr>"

definition demo_reads :: "unit collector_reads" where
  "demo_reads = \<lparr>cr_workers = Inr (5, demo_installed []), cr_schedules = Inr (6, demo_installed []),
     cr_alert_stream = Inr (7, demo_installed [demo_alert_row]), cr_alert_heads = Inr (8, demo_installed [demo_alert_row]),
     cr_streams = Inr (9, demo_installed []), cr_stream = (\<lambda>_ _. Inr (9, demo_installed []))\<rparr>"

definition demo_clock :: collector_clock where
  "demo_clock = \<lparr>ct_workers = 5, ct_schedules = 6, ct_alerts = 8, ct_stream = (\<lambda>_. 9), ct_completed = 10\<rparr>"

lemma built_step_ok:
  assumes "dm_attributes d = []" "dm_name d \<noteq> ''''" "dm_kind d = kind_gauge" "validate_unit (dm_unit d) = None" "t \<noteq> zero_time"
  shows "\<exists>m. built_step d v [] t doc = Inr [m] \<and> me_name m = dm_name d"
  using assms by (simp add: built_step_def new_built_in_measurement_def new_measurement_def validate_kind_def)

lemma units_valid:
  "validate_unit ''{schedule}'' = None" "validate_unit ''{alert}'' = None" "validate_unit ''ms'' = None" "validate_unit ''s'' = None"
  "validate_unit ''{found}'' = None" "validate_unit ''{worker}'' = None"
  using starts_space_hd [unfolded space_heads]
  by (auto simp: validate_unit_def)

lemma write_all:
  "\<forall>st \<in> set sts. \<exists>m. st = Inr [m] \<Longrightarrow> \<exists>ms. write_steps (recording (\<lambda>_ _. Inr ())) sts s = (None, s @ map (\<lambda>m. [m]) ms)"
proof (induction sts arbitrary: s)
  case (Cons st sts)
  then obtain m where m: "st = Inr [m]" by auto
  obtain ms where "write_steps (recording (\<lambda>_ _. Inr ())) sts (s @ [[m]]) = (None, (s @ [[m]]) @ map (\<lambda>m. [m]) ms)"
    using Cons.IH [of "s @ [[m]]"] Cons.prems by auto
  then show ?case using m by (intro exI [of _ "m # ms"]) simp
qed simp

lemma demo_built_step:
  "dm_attributes d = [] \<Longrightarrow> dm_name d \<noteq> '''' \<Longrightarrow> dm_kind d = kind_gauge \<Longrightarrow> validate_unit (dm_unit d) = None
   \<Longrightarrow> t \<noteq> zero_time \<Longrightarrow> \<exists>m. built_step d v [] t doc = Inr [m]"
  using built_step_ok by blast

lemma pass_length: "length (collect_workers ws t @ collect_schedules ss t' @ collect_alerts hs t'') = 8"
  by (simp add: collect_workers_def collect_schedules_def collect_alerts_def)

lemma empty_installation:
  "worker_snapshots (\<lambda>_. 0 :: int) (cr_workers demo_reads) = Inr []"
  "schedule_snapshots (\<lambda>_. 0 :: int) (cr_schedules demo_reads) = Inr []"
  "alert_heads (\<lambda>_. 0 :: int) (\<lambda>_. None) (cr_alert_stream demo_reads) (cr_alert_heads demo_reads) = Inr []"
  "listed_streams (\<lambda>_. 0 :: int) (cr_streams demo_reads) = Inr []"
  by (simp_all add: demo_reads_def demo_installed_def worker_snapshots_def worker_rows_def sort_nulls_last_def
      schedule_snapshots_def schedule_rows_def alert_heads_def get_stream_checked_def get_stream_def alert_stream_name_def
      stream_named_def found_stream_def to_stream_def demo_alert_row_def log_mode_enum_def table_rows_def
      list_heads_checked_def list_heads_def joined_heads_def empty_db_def listed_streams_def list_streams_def
      list_schedules_def)

theorem completion_vouches_for_the_pass_witness:
  "\<exists>written pre b. collect (\<lambda>_. 0 :: int) (\<lambda>_. None) (\<lambda>_. None) (recording (\<lambda>_ _. Inr ())) 4 [] demo_reads demo_clock []
     = Some (None, written) \<and> written = pre @ [b] \<and> completion_step 10 = Inr b \<and> length pre = 8"
proof -
  have t: "(5 :: int) \<noteq> zero_time" "(6 :: int) \<noteq> zero_time" "(8 :: int) \<noteq> zero_time" "(10 :: int) \<noteq> zero_time"
    by (simp_all add: zero_time_def)
  have w: "\<forall>st \<in> set (collect_workers [] 5). \<exists>m. st = Inr [m]" "\<forall>st \<in> set (collect_schedules [] 6). \<exists>m. st = Inr [m]"
    "\<forall>st \<in> set (collect_alerts [] 8). \<exists>m. st = Inr [m]"
    using t units_valid
    by (simp_all add: collect_workers_def collect_schedules_def collect_alerts_def oldest_unclaimed_def oldest_due_def
        demo_built_step kind_gauge_def metric_unclaimed_workers_def metric_oldest_unclaimed_age_def metric_failing_workers_def
        metric_overdue_schedules_def metric_oldest_due_age_def metric_suspended_schedules_def metric_active_alerts_def
        metric_resolved_alerts_def)
  obtain b where b: "completion_step 10 = Inr [b]" "me_name b = dm_name metric_collector_completed_timestamp"
    using built_step_ok [of metric_collector_completed_timestamp 10] t units_valid
    by (auto simp: completion_step_def metric_collector_completed_timestamp_def kind_gauge_def)
  let ?answered = "recording (\<lambda>_ _. Inr ())"
  obtain w1 where w1: "write_steps ?answered (collect_workers [] 5) [] = (None, w1)" using write_all [OF w(1), of "[]"] by auto
  obtain w2 where w2: "write_steps ?answered (collect_schedules [] 6) w1 = (None, w2)" using write_all [OF w(2), of w1] by auto
  obtain w3 where w3: "write_steps ?answered (collect_alerts [] 8) w2 = (None, w3)" using write_all [OF w(3), of w2] by auto
  obtain written where c: "collect (\<lambda>_. 0 :: int) (\<lambda>_. None) (\<lambda>_. None) (recording (\<lambda>_ _. Inr ())) 4 [] demo_reads demo_clock []
     = Some (None, written @ [[b]])"
    using w1 w2 w3 b(1)
    by (auto simp: collect_def empty_installation demo_clock_def collect_streams_def stream_jobs_def refill_def)
  have "\<exists>x \<in> set (written @ [[b]]). completes x" using b(2) by (auto simp: completes_def)
  from completion_vouches_for_the_pass [OF c this] obtain pre x where
    "written @ [[b]] = pre @ [x]" "completion_step (ct_completed demo_clock) = Inr x"
    "mset (map Inr pre) = mset (collect_workers [] (ct_workers demo_clock) @ collect_schedules [] (ct_schedules demo_clock)
        @ collect_alerts [] (ct_alerts demo_clock))"
    by (auto simp: empty_installation stream_jobs_def)
  moreover then have "length pre = 8"
    by (metis (no_types, lifting) length_map mset_eq_length pass_length)
  ultimately show ?thesis using c by (auto simp: demo_clock_def)
qed

section \<open>The side channel\<close>

definition flush_events :: "metric_producer \<Rightarrow> go_routine_event list" where
  "flush_events p = (case mp_flush p of Flush_Taken es \<Rightarrow> es | Flush_Swapped es d \<Rightarrow> es | _ \<Rightarrow> [])"

definition flush_drops :: "metric_producer \<Rightarrow> int" where
  "flush_drops p = (case mp_flush p of Flush_Swapped es d \<Rightarrow> d | Flush_Produced d \<Rightarrow> d | _ \<Rightarrow> 0)"

definition queued_events :: "metric_producer \<Rightarrow> go_routine_event list" where
  "queued_events p = flush_events p @ mp_pending p"

definition counted_drops :: "metric_producer \<Rightarrow> int" where
  "counted_drops p = mp_dropped p + flush_drops p + mp_reported p + mp_silent p"

definition channel_inv :: "metric_producer \<Rightarrow> bool" where
  "channel_inv p \<longleftrightarrow> length (mp_pending p) \<le> pending_limit
     \<and> 0 \<le> mp_dropped p \<and> 0 \<le> flush_drops p \<and> 0 \<le> mp_reported p \<and> 0 \<le> mp_silent p
     \<and> subseq (mp_landed p @ queued_events p) (mp_offered p)
     \<and> int (length (mp_offered p)) \<le> int (length (mp_landed p @ queued_events p)) + counted_drops p
     \<and> int (length (queued_events p)) + counted_drops p \<le> int (length (mp_offered p))"

lemmas channel_defs = channel_inv_def queued_events_def counted_drops_def flush_events_def flush_drops_def

lemma subseq_snoc: "subseq xs ys \<Longrightarrow> subseq xs (ys @ [y])" "subseq xs ys \<Longrightarrow> subseq (xs @ [y]) (ys @ [y])"
  using list_emb_append_mono [of "(=)" xs ys "[]" "[y]"] list_emb_append_mono [of "(=)" xs ys "[y]" "[y]"] by simp_all

lemma enqueue_inv:
  assumes "channel_inv p"
  shows "channel_inv (enqueue_event e p)"
proof -
  have "subseq (mp_landed p @ queued_events p @ [e]) (mp_offered p @ [e])"
    using assms subseq_snoc(2) [of "mp_landed p @ queued_events p" "mp_offered p" e] by (simp add: channel_inv_def)
  then show ?thesis
    using assms subseq_snoc(1) [of _ "mp_offered p" e]
    by (auto simp: enqueue_event_def channel_defs split: flush_state.splits)
qed

lemma channel_step:
  assumes "producer_step p q" "channel_inv p"
  shows "channel_inv q"
  using assms
proof (induction rule: producer_step.induct)
  case (Count n p c)
  then show ?case by (simp add: count_session_def channel_defs)
next
  case (Abandoned p stream group' message attempt t)
  then have "channel_inv (count_session Count_Abandoned 1 p)" by (simp add: count_session_def channel_defs)
  then show ?case unfolding record_abandoned_def by (rule enqueue_inv)
next
  case (Cleared p stream group' message attempt t)
  then show ?case unfolding record_cleared_def by (intro enqueue_inv)
next
  case (Reset p)
  then show ?case by (simp add: reset_counters_def channel_defs)
next
  case (Run p)
  then show ?case by (simp add: start_run_def channel_defs)
next
  case (Take p)
  then show ?case by (simp add: flush_take_def channel_defs pending_limit_def)
next
  case (Swap p es)
  then show ?case by (simp add: flush_swap_def channel_defs)
next
  case (Produce p es d fate)
  have "subseq (mp_landed p @ mp_pending p) (mp_landed p @ es @ mp_pending p)"
    by (intro list_emb_append_mono) (simp_all add: list_emb_append2)
  moreover have "subseq (mp_landed p @ es @ mp_pending p) (mp_offered p)" using Produce by (simp add: channel_defs)
  ultimately have "subseq (mp_landed p @ mp_pending p) (mp_offered p)" by (rule subseq_order.order_trans)
  then show ?case using Produce by (cases fate) (auto simp: flush_produce_def channel_defs)
next
  case (Report p d cancelled)
  then show ?case by (simp add: flush_report_def channel_defs)
next
  case (Counters p snap as t fate)
  then show ?case by (auto simp: flush_counters_def channel_defs split: sum.splits)
qed

text \<open>C26: The side channel of a consumer accounts for every event, in any interleaving of handlers and
flushes: the events in the metrics stream and those still queued are in the order in which they were
offered, with no event twice; every other event is in the drop count, which counts none twice; and the
queue is bounded.\<close>

theorem channel_accounts_for_every_event:
  assumes "producer_step\<^sup>*\<^sup>* new_metric_producer p"
  shows "subseq (mp_landed p @ queued_events p) (mp_offered p)
    \<and> int (length (mp_offered p)) \<le> int (length (mp_landed p @ queued_events p)) + counted_drops p
    \<and> int (length (queued_events p)) + counted_drops p \<le> int (length (mp_offered p))
    \<and> length (mp_pending p) \<le> 256"
proof -
  have "channel_inv p"
    using assms
  proof (induction rule: rtranclp_induct)
    case base
    then show ?case by (simp add: new_metric_producer_def channel_defs)
  qed (rule channel_step)
  then show ?thesis by (simp add: channel_inv_def pending_limit_def)
qed

theorem channel_accounts_for_every_event_witness:
  "\<exists>p. producer_step\<^sup>*\<^sup>* new_metric_producer p \<and> length (mp_landed p) = 1 \<and> mp_reported p = 1
     \<and> int (length (mp_offered p)) \<le> int (length (mp_landed p @ queued_events p)) + counted_drops p"
proof -
  let ?p0 = new_metric_producer
  let ?p1 = "record_cleared 1 ''g'' 2 3 4 ?p0"
  let ?p2 = "flush_take ?p1"
  let ?p3 = "flush_swap (mp_pending ?p1) ?p2"
  let ?p4 = "flush_produce Produce_Unconfirmed (mp_pending ?p1) 0 ?p3"
  let ?p5 = "flush_report False 1 ?p4"
  note defs = new_metric_producer_def record_cleared_def enqueue_event_def flush_take_def flush_swap_def flush_produce_def
    flush_report_def pending_limit_def
  have steps: "producer_step ?p0 ?p1" "producer_step ?p1 ?p2" "producer_step ?p2 ?p3" "producer_step ?p3 ?p4" "producer_step ?p4 ?p5"
    by (rule Cleared Take Swap Produce Report; simp add: defs)+
  then have run: "producer_step\<^sup>*\<^sup>* ?p0 ?p5"
    by (meson rtranclp.rtrancl_into_rtrancl rtranclp.rtrancl_refl)
  have "length (mp_landed ?p5) = 1" "mp_reported ?p5 = 1" by (simp_all add: defs)
  then show ?thesis using run channel_accounts_for_every_event [OF run] by blast
qed

end
