(* ===== verification/Log_Pipeline.thy ===== *)
theory Log_Pipeline
  imports Cron_Fields
begin

text \<open>
  The logging pipeline: \<open>pkg/common/logging\<close>. A pipeline is a chain of stages around a sink; the stages
  that keep state, the suppression windows and the rings of held records, are shared by reference, so
  they live in a store. A context carries the name of its ring. An argument is a text, a time, an
  integer, a group of attributes or any other value; \<open>sprint\<close> is what \<open>fmt.Sprint\<close> prints for one that
  is not a text. The clock is read twice: when the record is made and when the suppression window is asked.
\<close>

section \<open>Records\<close>

datatype log_level = Level_Debug | Level_Info | Level_Warn | Level_Error

fun level_rank :: "log_level \<Rightarrow> int" where
  "level_rank Level_Debug = -4"
| "level_rank Level_Info = 0"
| "level_rank Level_Warn = 4"
| "level_rank Level_Error = 8"

fun level_text :: "log_level \<Rightarrow> string" where
  "level_text Level_Debug = ''DEBUG''"
| "level_text Level_Info = ''INFO''"
| "level_text Level_Warn = ''WARN''"
| "level_text Level_Error = ''ERROR''"

datatype 'v log_arg =
    Arg_Any 'v
  | Arg_Text string
  | Arg_Time time
  | Arg_Int int
  | Arg_Group "(string \<times> 'v log_arg) list"

record 'v log_record =
  lr_at :: time
  lr_level :: log_level
  lr_message :: string
  lr_args :: "'v log_arg list"

section \<open>The ring of held records\<close>

definition ring_limit :: nat where "ring_limit = 64"

record 'v log_ring =
  rg_records :: "'v log_record list"
  rg_start :: nat
  rg_dropped :: int

definition empty_ring :: "'v log_ring" where
  "empty_ring = \<lparr>rg_records = [], rg_start = 0, rg_dropped = 0\<rparr>"

definition ring_append :: "'v log_record \<Rightarrow> 'v log_ring \<Rightarrow> 'v log_ring" where
  "ring_append r b =
     (if length (rg_records b) < ring_limit then b\<lparr>rg_records := rg_records b @ [r]\<rparr>
      else b\<lparr>rg_records := (rg_records b)[rg_start b := r], rg_start := (rg_start b + 1) mod ring_limit,
             rg_dropped := rg_dropped b + 1\<rparr>)"

text \<open>\<open>fmt.Sprint\<close> of a string is the string.\<close>

definition arg_name :: "('v log_arg \<Rightarrow> string) \<Rightarrow> 'v log_arg \<Rightarrow> string" where
  "arg_name sprint a = (case a of Arg_Text s \<Rightarrow> s | _ \<Rightarrow> sprint a)"

text \<open>A name without a value is kept.\<close>

fun log_attributes :: "('v log_arg \<Rightarrow> string) \<Rightarrow> 'v log_arg list \<Rightarrow> (string \<times> 'v log_arg) list" where
  "log_attributes sprint [] = []"
| "log_attributes sprint [n] = [(arg_name sprint n, Arg_Text ''(missing)'')]"
| "log_attributes sprint (n # v # rest) = (arg_name sprint n, v) # log_attributes sprint rest"

definition held_attributes :: "('v log_arg \<Rightarrow> string) \<Rightarrow> 'v log_record \<Rightarrow> (string \<times> 'v log_arg) list" where
  "held_attributes sprint r =
     [(''logged_at'', Arg_Time (lr_at r)), (''level'', Arg_Text (level_text (lr_level r))), (''message'', Arg_Text (lr_message r))]
     @ log_attributes sprint (lr_args r)"

definition ring_drain :: "('v log_arg \<Rightarrow> string) \<Rightarrow> 'v log_ring \<Rightarrow> 'v log_arg option \<times> 'v log_ring" where
  "ring_drain sprint b =
     (if rg_records b = [] then (None, b)
      else let n = length (rg_records b) in
        (Some (Arg_Group
           (map (\<lambda>i. (show_nat i, Arg_Group (held_attributes sprint (rg_records b ! ((rg_start b + i) mod n))))) [0 ..< n]
            @ (if 0 < rg_dropped b then [(''dropped_count'', Arg_Int (rg_dropped b))] else []))),
         empty_ring))"

section \<open>Suppression\<close>

definition suppression_window :: duration where "suppression_window = 60 * second"

record suppression_state =
  sq_start :: time
  sq_count :: int

type_synonym suppression_map = "log_level \<times> string \<Rightarrow> suppression_state option"

text \<open>The extra arguments and whether the line is emitted.\<close>

definition admit :: "time \<Rightarrow> log_level \<Rightarrow> string \<Rightarrow> suppression_map \<Rightarrow> ('v log_arg list \<times> bool) \<times> suppression_map" where
  "admit now level message seen =
     (case seen (level, message) of
        None \<Rightarrow> (([], True), seen((level, message) \<mapsto> \<lparr>sq_start = now, sq_count = 0\<rparr>))
      | Some st \<Rightarrow>
          if now - sq_start st < suppression_window
          then (([], False), seen((level, message) \<mapsto> st\<lparr>sq_count := sq_count st + 1\<rparr>))
          else ((if sq_count st = 0 then [] else [Arg_Text ''suppressed_count'', Arg_Int (sq_count st)], True),
                seen((level, message) \<mapsto> \<lparr>sq_start = now, sq_count = 0\<rparr>)))"

section \<open>Stages\<close>

datatype 'v log_stage =
    Sink_Stage nat
  | Drain_Stage
  | Suppress_Stage nat
  | Enrich_Stage "'v log_arg list"
  | Capture_Stage

text \<open>What the sinks were called with, oldest first, beside the store of the shared stages.\<close>

record 'v log_world =
  lw_seen :: "nat \<Rightarrow> suppression_map"
  lw_rings :: "nat \<Rightarrow> 'v log_ring"
  lw_lines :: "(nat \<times> 'v log_record) list"

definition capture_record :: "nat option \<Rightarrow> 'v log_record \<Rightarrow> 'v log_world \<Rightarrow> 'v log_world" where
  "capture_record ctx r w =
     (if level_rank (lr_level r) < level_rank Level_Error
      then (case ctx of None \<Rightarrow> w | Some c \<Rightarrow> w\<lparr>lw_rings := (lw_rings w)(c := ring_append r (lw_rings w c))\<rparr>)
      else w)"

definition suppress_record :: "time \<Rightarrow> nat \<Rightarrow> 'v log_record \<Rightarrow> 'v log_world \<Rightarrow> 'v log_record option \<times> 'v log_world" where
  "suppress_record now i r w =
     (if level_rank (lr_level r) < level_rank Level_Warn then (Some r, w)
      else (case admit now (lr_level r) (lr_message r) (lw_seen w i) of
          ((extra, emit), seen) \<Rightarrow>
            (if emit then Some (r\<lparr>lr_args := lr_args r @ extra\<rparr>) else None, w\<lparr>lw_seen := (lw_seen w)(i := seen)\<rparr>)))"

definition drain_record ::
  "('v log_arg \<Rightarrow> string) \<Rightarrow> nat option \<Rightarrow> 'v log_record \<Rightarrow> 'v log_world \<Rightarrow> 'v log_record \<times> 'v log_world" where
  "drain_record sprint ctx r w =
     (if level_rank (lr_level r) < level_rank Level_Error then (r, w)
      else (case ctx of
          None \<Rightarrow> (r, w)
        | Some c \<Rightarrow> (case ring_drain sprint (lw_rings w c) of
            (None, b) \<Rightarrow> (r, w)
          | (Some preceding, b) \<Rightarrow>
              (r\<lparr>lr_args := lr_args r @ [Arg_Text ''preceding'', preceding]\<rparr>, w\<lparr>lw_rings := (lw_rings w)(c := b)\<rparr>))))"

fun handle_stage ::
  "('v log_arg \<Rightarrow> string) \<Rightarrow> time \<Rightarrow> nat option \<Rightarrow> 'v log_stage \<Rightarrow> 'v log_record \<Rightarrow> 'v log_world
   \<Rightarrow> 'v log_record option \<times> 'v log_world" where
  "handle_stage sprint now ctx (Sink_Stage n) r w = (Some r, w\<lparr>lw_lines := lw_lines w @ [(n, r)]\<rparr>)"
| "handle_stage sprint now ctx Drain_Stage r w = (case drain_record sprint ctx r w of (r', w') \<Rightarrow> (Some r', w'))"
| "handle_stage sprint now ctx (Suppress_Stage i) r w = suppress_record now i r w"
| "handle_stage sprint now ctx (Enrich_Stage args) r w = (Some (r\<lparr>lr_args := args @ lr_args r\<rparr>), w)"
| "handle_stage sprint now ctx Capture_Stage r w = (Some r, capture_record ctx r w)"

text \<open>The walk goes backward through the chain, which begins with the sink.\<close>

fun walk_stages ::
  "('v log_arg \<Rightarrow> string) \<Rightarrow> time \<Rightarrow> nat option \<Rightarrow> 'v log_stage list \<Rightarrow> 'v log_record \<Rightarrow> 'v log_world \<Rightarrow> 'v log_world" where
  "walk_stages sprint now ctx [] r w = w"
| "walk_stages sprint now ctx (st # sts) r w =
     (case handle_stage sprint now ctx st r w of
        (None, w') \<Rightarrow> w'
      | (Some r', w') \<Rightarrow> walk_stages sprint now ctx sts r' w')"

definition handle_chain ::
  "('v log_arg \<Rightarrow> string) \<Rightarrow> time \<Rightarrow> nat option \<Rightarrow> 'v log_stage list \<Rightarrow> 'v log_record \<Rightarrow> 'v log_world \<Rightarrow> 'v log_world" where
  "handle_chain sprint now ctx chain r w = walk_stages sprint now ctx (rev chain) r w"

section \<open>Pipelines\<close>

record 'v pipeline_config =
  pg_args :: "'v log_arg list"
  pg_buffer :: bool
  pg_suppress :: bool

record 'v pipeline =
  pp_config :: "'v pipeline_config"
  pp_chain :: "'v log_stage list"

datatype 'v logger = Plain_Logger nat | Piped "'v pipeline"

definition no_pipeline_config :: "'v pipeline_config" where
  "no_pipeline_config = \<lparr>pg_args = [], pg_buffer = False, pg_suppress = False\<rparr>"

definition sink_stage :: "'v log_stage list \<Rightarrow> 'v log_stage option" where
  "sink_stage chain = find (\<lambda>s. case s of Sink_Stage n \<Rightarrow> True | _ \<Rightarrow> False) chain"

definition suppress_stage :: "'v log_stage list \<Rightarrow> 'v log_stage option" where
  "suppress_stage chain = find (\<lambda>s. case s of Suppress_Stage n \<Rightarrow> True | _ \<Rightarrow> False) chain"

definition drain_stage :: "'v log_stage list \<Rightarrow> 'v log_stage option" where
  "drain_stage chain = find (\<lambda>s. s = Drain_Stage) chain"

definition capture_stage :: "'v log_stage list \<Rightarrow> 'v log_stage option" where
  "capture_stage chain = find (\<lambda>s. s = Capture_Stage) chain"

definition stage_list :: "'v log_stage option \<Rightarrow> 'v log_stage list" where
  "stage_list s = (case s of None \<Rightarrow> [] | Some x \<Rightarrow> [x])"

definition chain_stages ::
  "'v pipeline_config \<Rightarrow> 'v log_stage option \<Rightarrow> 'v log_stage option \<Rightarrow> 'v log_stage option \<Rightarrow> 'v log_stage option
   \<Rightarrow> 'v log_stage list" where
  "chain_stages c sink drain suppress capture =
     stage_list sink @ (if pg_buffer c then stage_list drain else []) @ (if pg_suppress c then stage_list suppress else [])
     @ (if pg_args c \<noteq> [] then [Enrich_Stage (pg_args c)] else []) @ (if pg_buffer c then stage_list capture else [])"

definition or_else :: "'a option \<Rightarrow> 'a option \<Rightarrow> 'a option" where
  "or_else x y = (case x of None \<Rightarrow> y | Some z \<Rightarrow> Some z)"

text \<open>\<open>fresh\<close> names the suppression map of a new suppress stage. A stage that the merged configuration asks
for and neither side has would be a nil pointer; \<open>chain_stages\<close> leaves it out.\<close>

definition new_pipeline_logger :: "nat \<Rightarrow> 'v logger \<Rightarrow> 'v pipeline_config option \<Rightarrow> 'v pipeline" where
  "new_pipeline_logger fresh sink cfg =
     (let c = (case cfg of None \<Rightarrow> no_pipeline_config | Some c \<Rightarrow> c);
          own = chain_stages c None (Some Drain_Stage) (Some (Suppress_Stage fresh)) (Some Capture_Stage) in
      case sink of
        Plain_Logger n \<Rightarrow>
          \<lparr>pp_config = c, pp_chain = chain_stages c (Some (Sink_Stage n)) (Some Drain_Stage) (Some (Suppress_Stage fresh)) (Some Capture_Stage)\<rparr>
      | Piped p \<Rightarrow>
          (let merged = \<lparr>pg_args = pg_args (pp_config p) @ pg_args c, pg_buffer = pg_buffer (pp_config p) \<or> pg_buffer c,
                 pg_suppress = pg_suppress (pp_config p) \<or> pg_suppress c\<rparr> in
           \<lparr>pp_config = merged, pp_chain = chain_stages merged (sink_stage (pp_chain p))
              (or_else (drain_stage (pp_chain p)) (drain_stage own)) (or_else (suppress_stage (pp_chain p)) (suppress_stage own))
              (or_else (capture_stage (pp_chain p)) (capture_stage own))\<rparr>))"

definition log_context ::
  "('v log_arg \<Rightarrow> string) \<Rightarrow> time \<Rightarrow> time \<Rightarrow> nat option \<Rightarrow> 'v pipeline \<Rightarrow> log_level \<Rightarrow> string \<Rightarrow> 'v log_arg list
   \<Rightarrow> 'v log_world \<Rightarrow> 'v log_world" where
  "log_context sprint logged now ctx p level message args w =
     handle_chain sprint now ctx (pp_chain p)
       \<lparr>lr_at = logged, lr_level = level, lr_message = message, lr_args = args\<rparr> w"

end
