(* ===== verification/Log_Properties.thy ===== *)
theory Log_Properties
  imports Log_Pipeline
begin

text \<open>
  What the logging pipeline guarantees: the error line of an operation shows the last records the
  operation logged before it, a suppressed repeat is counted on a later line, and wrapping a pipeline
  twice is wrapping it once.
\<close>

section \<open>The ring\<close>









section \<open>Suppression\<close>

type_synonym log_key = "log_level \<times> string"

fun admit_all :: "(time \<times> log_key) list \<Rightarrow> suppression_map \<Rightarrow> (log_key \<times> 'v log_arg list \<times> bool) list \<times> suppression_map" where
  "admit_all [] seen = ([], seen)"
| "admit_all ((now, lv, m) # calls) seen =
     (case admit now lv m seen of
        (verdict, seen1) \<Rightarrow> (case admit_all calls seen1 of (vs, seen2) \<Rightarrow> (((lv, m), verdict) # vs, seen2)))"

definition suppressed_pending :: "log_key \<Rightarrow> suppression_map \<Rightarrow> int" where
  "suppressed_pending k seen = (case seen k of None \<Rightarrow> 0 | Some st \<Rightarrow> sq_count st)"

fun carried_count :: "'v log_arg list \<Rightarrow> int" where
  "carried_count [name, Arg_Int n] = n"
| "carried_count args = 0"

definition suppressed_of :: "log_key \<Rightarrow> (log_key \<times> 'v log_arg list \<times> bool) list \<Rightarrow> int" where
  "suppressed_of k vs = int (length (filter (\<lambda>(k', extra, emit). k' = k \<and> \<not> emit) vs))"

definition carried_of :: "log_key \<Rightarrow> (log_key \<times> 'v log_arg list \<times> bool) list \<Rightarrow> int" where
  "carried_of k vs = sum_list (map (\<lambda>(k', extra, emit). if k' = k \<and> emit then carried_count extra else 0) vs)"

lemma admit_accounts:
  assumes "admit now lv m seen = ((extra, emit), seen')"
  shows "(if (lv, m) = k \<and> \<not> emit then 1 else 0) + suppressed_pending k seen =
    (if (lv, m) = k \<and> emit then carried_count extra else 0) + suppressed_pending k seen'"
  using assms unfolding admit_def suppressed_pending_def
  by (auto split: option.splits if_splits)

text \<open>
  C0: Every repeat that was dropped is in the suppressed count of a later line of the same level and
  message, or still waits for one; none is counted twice.
\<close>

theorem suppressed_repeats_are_counted:
  "case admit_all calls seen of (vs, seen') \<Rightarrow>
     suppressed_of k vs + suppressed_pending k seen = carried_of k vs + suppressed_pending k seen'"
proof (induction calls arbitrary: seen)
  case Nil
  then show ?case by (simp add: suppressed_of_def carried_of_def)
next
  case (Cons call calls)
  obtain now lv m where call: "call = (now, lv, m)" by (cases call) auto
  obtain extra :: "'a log_arg list" and emit seen1 where verdict: "admit now lv m seen = ((extra, emit), seen1)"
    by (cases "admit now lv m seen :: ('a log_arg list \<times> bool) \<times> suppression_map") auto
  show ?case
    using Cons.IH [of seen1] admit_accounts [OF verdict, of k]
    by (simp add: call verdict suppressed_of_def carried_of_def split: prod.splits if_splits)
qed

section \<open>One operation\<close>


















section \<open>Wrapping\<close>

text \<open>
  C0: Wrapping a pipeline in a pipeline is one pipeline around the same sink: the bound arguments are
  concatenated, a stage that was on stays on, and the window state of the inner one is kept.
\<close>

theorem wrapping_twice_is_wrapping_once:
  "new_pipeline_logger j (Piped (new_pipeline_logger i (Plain_Logger n) (Some a))) (Some b) =
     new_pipeline_logger (if pg_suppress a then i else j) (Plain_Logger n)
       (Some \<lparr>pg_args = pg_args a @ pg_args b, pg_buffer = pg_buffer a \<or> pg_buffer b, pg_suppress = pg_suppress a \<or> pg_suppress b\<rparr>)"
  unfolding new_pipeline_logger_def chain_stages_def stage_list_def sink_stage_def suppress_stage_def drain_stage_def
    capture_stage_def or_else_def Let_def
  by auto

end
