(* ===== verification/Spec2Isabelle.thy ===== *)
theory Spec2Isabelle
  imports Window_Properties Fence_Properties Fan_Out_Properties Option_Properties Runner_Properties
    Produce_In_Tx Batcher_Properties Janitor_Properties
    Exception_Budget Instance_Protocol Pool_Properties Schedule_Properties Schedule_Reports
    Migration_Properties Stream_Properties Scheduler Cron_Schedules
    Binding_Claims Diagnostic_Properties Record_Properties Metric_Properties
    Log_Properties
begin

text \<open>
  A verification library of sqlstreams: durable message streams on Postgres.

  A stream is a set of tables of its own (\<open>pkg/stream/controller/datastore/tables.go\<close>). Producers
  append to a partitioned message log under an idempotency claim; consumer groups read the log
  through a cursor, lease ranges of ids, record exceptions for single messages, and commit; a cursor
  advancer moves the committed mark; a janitor removes what has expired. Everything runs in any
  number of processes at once, and the tables are the only thing they share.

  How the code is modelled. A table is a list of rows, a row is a record with the columns of the
  DDL, a nullable column an option, and a stream's tables are one record \<open>stream_db\<close>
  (\<open>Stream_Tables\<close>). A statement or a transaction is a function on that record; SQL aggregates,
  \<open>LIMIT\<close>, \<open>UPDATE ... WHERE\<close> and \<open>DELETE ... WHERE\<close> are the combinators of \<open>Prelude\<close>. An error is a
  value (\<open>db_error\<close> in the claim and exception datastores, the chain of links \<open>wire_error\<close> where the
  retry loop classifies it). What the database or the clock decides is an argument: the time, the
  random tokens, the snapshot bounds, the rows a \<open>SKIP LOCKED\<close> passes over, the ordering of text.
  Interleavings are step relations, or a script of what other workers do before each transaction.

  The parts, bottom up:

  \<^item> \<open>Delivery_Options\<close>, \<open>Consumer_Config\<close>, \<open>Handler_Outcomes\<close>: the backoff curve, message options,
    group configuration, and what a run of the consumer function answers (\<open>pkg/common\<close>,
    \<open>pkg/consume/base\<close>, the consumer configurations). \<open>Option_Properties\<close> has their properties.
  \<^item> \<open>Range_Claims\<close>, \<open>Key_Leases\<close>, \<open>Exceptions\<close>, \<open>Consumer_Groups\<close>: the datastores of the message
    consumer, of key leases, of the exception consumer, and group registration. \<open>Frontier\<close> states
    the window invariant and \<open>safe\<close> marks, \<open>Frontier_Ops\<close> shows that every operation keeps them
    (\<open>keeps\<close>), \<open>Frontier_Steps\<close> interleaves all of them, \<open>Frontier_Demo\<close> is a concrete run, and
    \<open>Window_Properties\<close> the properties: committed ids are done, fencing, quarantine and what it reaches, key order.
    \<open>Exception_Runner\<close> is the cycle of the exception consumer over these calls, \<open>Exception_Properties\<close>
    shows that it keeps the protocol and settles what it finishes, \<open>Exception_Budget\<close> how often a
    message that fails is run (once more than the comment on \<open>MaxRetries\<close> says).
  \<^item> \<open>Fence\<close> and \<open>Fence_Properties\<close>: the snapshot fence of a fresh claim against open producers.
  \<^item> \<open>Range_State\<close>, \<open>Message_Runner\<close>: the consumer process, that is the claim buffer, the range
    bookkeeping and the goroutines of \<open>consumer_runner.go\<close>, as a step relation. \<open>Runner_Chains\<close>,
    \<open>Runner_Order\<close> and \<open>Runner_Leases\<close> are its invariants, \<open>Runner_Refinement\<close> shows that its steps
    are steps of the frontier, \<open>Runner_Properties\<close> has the properties.
  \<^item> \<open>Fan_Out\<close> and \<open>Fan_Out_Properties\<close>: the delivery consumer.
  \<^item> \<open>Datastore_Retry\<close>, \<open>Produce\<close>, \<open>Produce_In_Tx\<close>, \<open>Batcher\<close>: the retry loop and its error
    classification, appends alone, in a batch, in a transaction of the caller, partition healing, and
    the shared transactions of concurrent produces. \<open>Produce_Invariant\<close> proves once, in a locale over
    an invariant, that every append keeps what every insert keeps; \<open>Produce_Properties\<close> and
    \<open>Batcher_Properties\<close> interpret it.
  \<^item> \<open>Compaction\<close>, \<open>Janitor\<close>, \<open>Janitor_Properties\<close>: reading and locking compaction heads, the sweeps
    of the janitor, and what retention may take away.
  \<^item> \<open>Workers\<close>, \<open>Instance_Protocol\<close>, \<open>Worker_Pool\<close>, \<open>Pool_Properties\<close>: declared workers and the leases of
    their instances (\<open>pkg/worker\<close>), the protocol of claims, renewals and releases as a step relation
    with its invariant, and the manager's pool and loops (\<open>pkg/worker/manager\<close>, \<open>pkg/systemmanager\<close>).
  \<^item> \<open>Schedule_Expression\<close>, \<open>Schedules\<close>, \<open>Schedule_Producer\<close>, \<open>Scheduler\<close>: named schedules, their rows
    and reports, the transaction that produces a due one through \<open>Produce_In_Tx\<close>, and what a program
    calls (\<open>pkg/schedule\<close>, \<open>pkg/scheduler\<close>). \<open>Schedule_Properties\<close> states a contract of claimed
    events as a locale and interprets it on the producer; \<open>Schedule_Reports\<close> compares the reports.
  \<^item> \<open>Cron_Parser\<close>, \<open>Cron_Fields\<close>, \<open>Civil_Time\<close>, \<open>Cron_Next\<close>, \<open>Cron_Exact\<close>, \<open>Cron_Schedules\<close>: the cron
    engine of \<open>pkg/schedule/internal/robfig\<close>. The parser builds a bit set per field; \<open>Civil_Time\<close> is
    the calendar of Go's \<open>time\<close> package, with the units as a locale (\<open>calendar_unit\<close>, \<open>nested_units\<close>);
    the search of \<open>SpecSchedule.Next\<close> is a \<open>partial_function (option)\<close>, since its restarts have no
    bound in the code but the five year limit, and \<open>Cron_Exact\<close> shows that in UTC it returns, and
    returns the first matching second. \<open>Cron_Schedules\<close> plugs it into the schedules above.
  \<^item> \<open>Migrations\<close>, \<open>Migration_Properties\<close>: the registry of schema versions, the log of steps, the gate
    every registration passes (\<open>pkg/migrate\<close>).
  \<^item> \<open>Stream_Registry\<close>, \<open>Stream_Properties\<close>: stream configuration, registration, replacement, renaming
    and deletion with the cascades of the shared tables (\<open>pkg/stream\<close>).

  \<^item> \<open>Wildcards\<close>, \<open>Binding_Log\<close>, \<open>Binding_Properties\<close>, \<open>Binding_Claims\<close>: the routing patterns of a group as
    regular expressions, the log of binding declarations, its listings and its sweep, and the wait of a
    consumer for its own declaration (\<open>pkg/consume/controller\<close>, \<open>pkg/consumer/consumer_instance.go\<close>).
    The contract of a declaration (install, join or wait) is a specification the code is shown to refine.
  \<^item> \<open>Diagnostics\<close>, \<open>Declaration_Catalog\<close>, \<open>Diagnostic_Properties\<close>: the registry of coded declarations,
    raised errors with their values and causes (\<open>pkg/common/diagnostic\<close>), and every error, event, metric
    and alert the library declares.
  \<^item> \<open>Measurements\<close>, \<open>Metric_Snapshots\<close>: measurements with their keys, units and documents, and the reads
    of workers, schedules, groups and streams (\<open>pkg/metric\<close>, \<open>pkg/metric/controller\<close>). A value is a
    rational rounded to 53 bits, an infinity or not a number. \<open>Metric_Collector\<close> is a pass of the collector,
    with the streams read concurrently, \<open>Session_Metrics\<close> the side channel of a consumer as a step relation;
    \<open>Metric_Properties\<close> shows that a completion vouches for its pass and that the channel loses nothing
    uncounted.
  \<^item> \<open>Alerts\<close>, \<open>Alert_Evaluation\<close>, \<open>Alert_Record\<close>: the policies and jobs of the four checks, the walk over the
    retained measurements, the conditions, and recording under the lock of the alert's compaction head
    (\<open>pkg/alert\<close>). \<open>Alert_Properties\<close> characterises when a check is active, \<open>Liveness_Properties\<close> follows the
    worker rows through the collector to the check, \<open>Record_Properties\<close> the head of an alert's key.
  \<^item> \<open>Log_Pipeline\<close>, \<open>Log_Properties\<close>: the logging pipeline (\<open>pkg/common/logging\<close>), that is the chain of
    stages around a sink, the ring of held records an operation keeps, the suppression windows, and a
    pipeline wrapped in another. What an error line shows, and that no suppressed repeat goes uncounted.

  Bounds and fuel. The walk over a range, the retry loop, the heal loop and the drain loops have the
  bounds of the code as their fuel (\<open>MaxRetries\<close>, one heal more than that, a thousand batches), so the
  fuel is the behaviour and not an approximation; \<open>resolve_batch\<close> has no bound in the code and its
  termination is proved. Durations and ids are unbounded integers, except where the code's own check
  is about int64 (\<open>validate_retry_policy\<close>, \<open>validate_payload\<close>), converts to it (\<open>unix_time\<close>), or Go's \<open>time\<close>
  saturates. Floating point: the backoff is exact for caps up to 2^52 ns, which is fifty days, and its
  property assumes such a cap (see \<open>Delivery_Options\<close>), the create-ahead gate takes the rounding function as
  a parameter, and the values of measurements are rounded (\<open>round_double\<close>).

  What the proofs take as given: lease and row tokens are random and so fresh; a commit that failed
  with an error that names no outcome either happened or did not, and a cancelled one has no later
  effect; Postgres snapshots as documented (\<open>Fence\<close>); the clock is not assumed to move forward. SHA-1,
  regular expressions, text collation and the user's functions are parameters.

  Not modelled: system registration and all DDL, the session lock of a migration, vacuum,
  the administration packages, the client facade, the export to OpenTelemetry, the command
  line, and the benchmark and test programs. The offsets of a time zone are a parameter of the cron search,
  the floating point product of a fractional duration one of its parser; Go's formatting of times and
  durations and the parsing of JSON text are parameters of the alerts and metrics. The
  manifest lists each with its reason.
\<close>

end
